(* ===== verification/Prelude.thy ===== *)
theory Prelude
  imports Main "HOL-Library.List_Lexorder" "HOL-Library.Char_ord" "HOL-Library.Product_Lexorder"
    "HOL-Library.Multiset" "HOL-Library.Code_Target_Nat"
begin

text \<open>
  Generic material shared by every component: the outcome of a fallible Rust function, the
  iteration combinators the contracts use over it (\<open>collect\<close> into a \<open>Result\<close>,
  \<open>try_fold\<close>), decimal rendering of unsigned integers, and the fact collections that carry
  the component proofs.
\<close>

section \<open>Outcomes of fallible code\<close>

text \<open>
  A Rust function returns \<open>Ok\<close>, returns \<open>Err\<close>, or panics (an overflow with
  \<open>overflow-checks = true\<close>, an index out of range, a division by zero, \<open>unwrap\<close> on
  \<open>None\<close>). A panic aborts the transaction and cannot be handled by the caller, an error value
  can; so the two are different constructors. On \<open>Err\<close> and on a panic the chain reverts the
  storage, which is why a handler returns its new storage only under \<open>Ok\<close>.
\<close>

datatype ('a, 'e) result = Ok 'a | Err 'e | Panic

named_theorems ok_simps "inversion of successful runs"
named_theorems num_defs "definitions of the checked numeric operations"
named_theorems store_simps "lookup laws of the ordered store"

fun and_then :: "('a, 'e) result \<Rightarrow> ('a \<Rightarrow> ('b, 'e) result) \<Rightarrow> ('b, 'e) result" where
  "and_then (Ok x) k = k x"
| "and_then (Err e) k = Err e"
| "and_then Panic k = Panic"

fun map_err :: "('e \<Rightarrow> 'f) \<Rightarrow> ('a, 'e) result \<Rightarrow> ('a, 'f) result" where
  "map_err f (Ok x) = Ok x"
| "map_err f (Err e) = Err (f e)"
| "map_err f Panic = Panic"

fun ok_or :: "'e \<Rightarrow> 'a option \<Rightarrow> ('a, 'e) result" where
  "ok_or e (Some x) = Ok x"
| "ok_or e None = Err e"

fun unwrap :: "'a option \<Rightarrow> ('a, 'e) result" where
  "unwrap (Some x) = Ok x"
| "unwrap None = Panic"

definition unwrap_or :: "'a option \<Rightarrow> 'a \<Rightarrow> 'a" where
  "unwrap_or v d = (case v of Some x \<Rightarrow> x | None \<Rightarrow> d)"

lemma unwrap_or_simps [simp]:
  "unwrap_or (Some x) d = x"
  "unwrap_or None d = d"
  by (simp_all add: unwrap_or_def)

fun is_ok :: "('a, 'e) result \<Rightarrow> bool" where
  "is_ok (Ok x) = True"
| "is_ok (Err e) = False"
| "is_ok Panic = False"

lemma and_then_Ok [ok_simps]: "and_then m k = Ok y \<longleftrightarrow> (\<exists>x. m = Ok x \<and> k x = Ok y)"
  by (cases m) auto

lemma guard_Ok: "(if c then Err e else m) = Ok x \<longleftrightarrow> \<not> c \<and> m = Ok x"
  by simp

lemma and_then_Err: "and_then m k = Err e \<longleftrightarrow> m = Err e \<or> (\<exists>x. m = Ok x \<and> k x = Err e)"
  by (cases m) auto

lemma and_then_Panic: "and_then m k = Panic \<longleftrightarrow> m = Panic \<or> (\<exists>x. m = Ok x \<and> k x = Panic)"
  by (cases m) auto

lemma map_err_Ok [ok_simps]: "map_err f m = Ok x \<longleftrightarrow> m = Ok x"
  by (cases m) auto

lemma map_err_Panic [simp]: "map_err f m = Panic \<longleftrightarrow> m = Panic"
  by (cases m) auto

lemma ok_or_Ok [ok_simps]: "ok_or e v = Ok x \<longleftrightarrow> v = Some x"
  by (cases v) auto

lemma unwrap_Ok [ok_simps]: "unwrap v = Ok x \<longleftrightarrow> v = Some x"
  by (cases v) auto

lemma and_then_assoc: "and_then (and_then m k) h = and_then m (\<lambda>x. and_then (k x) h)"
  by (cases m) auto

lemma and_then_cong [fundef_cong]:
  "m = m' \<Longrightarrow> (\<And>x. m' = Ok x \<Longrightarrow> k x = k' x) \<Longrightarrow> and_then m k = and_then m' k'"
  by (cases m') auto

lemma is_ok_iff: "is_ok m \<longleftrightarrow> (\<exists>x. m = Ok x)"
  by (cases m) auto

section \<open>Iteration over fallible steps\<close>

text \<open>\<open>iter().map(f).collect::<Result<Vec<_>, _>>()\<close>: the first failure stops the run.\<close>

fun traverse :: "('a \<Rightarrow> ('b, 'e) result) \<Rightarrow> 'a list \<Rightarrow> ('b list, 'e) result" where
  "traverse f [] = Ok []"
| "traverse f (x # xs) = and_then (f x) (\<lambda>y. and_then (traverse f xs) (\<lambda>ys. Ok (y # ys)))"

text \<open>\<open>for x in xs { s = f(s, x)?; }\<close> and \<open>try_fold\<close>.\<close>

fun try_fold :: "('s \<Rightarrow> 'a \<Rightarrow> ('s, 'e) result) \<Rightarrow> 's \<Rightarrow> 'a list \<Rightarrow> ('s, 'e) result" where
  "try_fold f s [] = Ok s"
| "try_fold f s (x # xs) = and_then (f s x) (\<lambda>s'. try_fold f s' xs)"

lemma traverse_cong [fundef_cong]:
  "xs = ys \<Longrightarrow> (\<And>x. x \<in> set ys \<Longrightarrow> f x = g x) \<Longrightarrow> traverse f xs = traverse g ys"
  by (induction xs arbitrary: ys) auto

lemma traverse_Ok_list_all2: "traverse f xs = Ok ys \<longleftrightarrow> list_all2 (\<lambda>x y. f x = Ok y) xs ys"
proof (induction xs arbitrary: ys)
  case Nil
  then show ?case by auto
next
  case (Cons x xs)
  then show ?case by (cases ys) (auto simp: ok_simps)
qed

lemma traverse_length: "traverse f xs = Ok ys \<Longrightarrow> length ys = length xs"
  by (metis traverse_Ok_list_all2 list_all2_lengthD)

lemma traverse_Ok_map: "(\<And>x. x \<in> set xs \<Longrightarrow> f x = Ok (g x)) \<Longrightarrow> traverse f xs = Ok (map g xs)"
  by (induction xs) auto

lemma traverse_Ok_mapD:
  "traverse f xs = Ok ys \<Longrightarrow> (\<And>x y. x \<in> set xs \<Longrightarrow> f x = Ok y \<Longrightarrow> y = g x) \<Longrightarrow> ys = map g xs"
  by (induction xs arbitrary: ys) (auto simp: and_then_Ok)

lemma try_fold_append: "try_fold f s (xs @ ys) = and_then (try_fold f s xs) (\<lambda>s'. try_fold f s' ys)"
  by (induction xs arbitrary: s) (auto simp: and_then_assoc)

text \<open>An invariant of the body is an invariant of the loop.\<close>

lemma try_fold_invariant:
  assumes "try_fold f s xs = Ok s'" and "P s"
    and "\<And>s x s'. x \<in> set xs \<Longrightarrow> P s \<Longrightarrow> f s x = Ok s' \<Longrightarrow> P s'"
  shows "P s'"
  using assms
proof (induction xs arbitrary: s)
  case Nil
  then show ?case by simp
next
  case (Cons x xs)
  from Cons.prems(1) obtain t where t: "f s x = Ok t" and rest: "try_fold f t xs = Ok s'"
    by (auto simp: ok_simps)
  from Cons.prems(3) [of x s t] Cons.prems(2) t have "P t" by simp
  with rest Cons.prems(3) show ?case by (intro Cons.IH [of t]) auto
qed

section \<open>Rendering numbers\<close>

text \<open>\<open>to_string()\<close> of an unsigned integer, and \<open>join\<close> of a list of strings.\<close>

definition digit_char :: "nat \<Rightarrow> char" where
  "digit_char d = char_of (48 + d)"

fun nat_str :: "nat \<Rightarrow> string" where
  "nat_str n = (if n < 10 then [digit_char n] else nat_str (n div 10) @ [digit_char (n mod 10)])"

declare nat_str.simps [simp del]

fun join :: "string \<Rightarrow> string list \<Rightarrow> string" where
  "join sep [] = []"
| "join sep [s] = s"
| "join sep (s # t # ss) = s @ sep @ join sep (t # ss)"

section \<open>Removing duplicates with a hash set\<close>

text \<open>\<open>retain(|x| set.insert(x.clone()))\<close>: an element stays when it has not been seen.\<close>

fun retain_new :: "'a set \<Rightarrow> 'a list \<Rightarrow> 'a list" where
  "retain_new seen [] = []"
| "retain_new seen (x # xs) =
     (if x \<in> seen then retain_new seen xs else x # retain_new (insert x seen) xs)"

lemma set_retain_new: "set (retain_new seen xs) = set xs - seen"
  by (induction xs arbitrary: seen) auto

lemma distinct_retain_new: "distinct (retain_new seen xs)"
  by (induction xs arbitrary: seen) (auto simp: set_retain_new)

lemma retain_new_distinct: "distinct xs \<Longrightarrow> set xs \<inter> seen = {} \<Longrightarrow> retain_new seen xs = xs"
  by (induction xs arbitrary: seen) auto

section \<open>Sums over lists\<close>

lemma sum_list_le_member: "x \<in> set xs \<Longrightarrow> f x \<le> sum_list (map f xs)" for f :: "'a \<Rightarrow> nat"
  by (induction xs) auto

lemma sum_list_map_mono:
  "(\<And>x. x \<in> set xs \<Longrightarrow> f x \<le> g x) \<Longrightarrow> sum_list (map f xs) \<le> sum_list (map g xs)"
  for f g :: "'a \<Rightarrow> nat"
  by (induction xs) (auto intro: add_mono)

lemma sum_list_filter_split:
  "sum_list (map f xs) = sum_list (map f (filter P xs)) + sum_list (map f (filter (\<lambda>x. \<not> P x) xs))"
  for f :: "'a \<Rightarrow> nat"
  by (induction xs) auto

lemma sum_list_filter_le: "sum_list (map f (filter P xs)) \<le> sum_list (map f xs)"
  for f :: "'a \<Rightarrow> nat"
  by (induction xs) auto

section \<open>Descending sort\<close>

text \<open>\<open>sorted_by(|a, b| b.cmp(a))\<close> on a key: descending, equal keys in their original order.\<close>

definition sorted_desc :: "('a \<Rightarrow> 'k::linorder) \<Rightarrow> 'a list \<Rightarrow> 'a list" where
  "sorted_desc f xs = rev (sort_key f (rev xs))"

lemma sorted_desc_perm [simp]:
  "set (sorted_desc f xs) = set xs" "length (sorted_desc f xs) = length xs"
  "distinct (map g (sorted_desc f xs)) = distinct (map g xs)"
  "sum_list (map h (sorted_desc f xs)) = sum_list (map h xs)" for h :: "'a \<Rightarrow> nat"
proof -
  have m: "mset (sorted_desc f xs) = mset xs" by (simp add: sorted_desc_def)
  show "set (sorted_desc f xs) = set xs" using m by (rule mset_eq_setD)
  show "length (sorted_desc f xs) = length xs" using m by (rule mset_eq_length)
  have mg: "mset (map g (sorted_desc f xs)) = mset (map g xs)" using m by simp
  show "distinct (map g (sorted_desc f xs)) = distinct (map g xs)" using mg by (rule mset_eq_imp_distinct_iff)
  have mh: "mset (map h (sorted_desc f xs)) = mset (map h xs)" using m by simp
  show "sum_list (map h (sorted_desc f xs)) = sum_list (map h xs)"
    using mh by (metis sum_mset_sum_list)
qed

lemma sorted_desc_sorted: "sorted_wrt (\<lambda>x y. f y \<le> f x) (sorted_desc f xs)"
proof -
  have "sorted_wrt (\<lambda>x y. f x \<le> f y) (sort_key f (rev xs))"
    using sorted_sort_key [of f "rev xs"] by (simp add: sorted_wrt_map)
  then show ?thesis by (simp add: sorted_desc_def sorted_wrt_rev)
qed

end
