(* ===== verification/Store.thy ===== *)
theory Store
  imports Prelude
begin

text \<open>
  Contract storage. A \<open>cw_storage_plus\<close> \<open>Map\<close> or \<open>IndexedMap\<close> is a
  finite map whose \<open>range\<close> iterates in the order of the keys: big-endian integers in numeric
  order, strings bytewise, composite keys lexicographically. The contracts rely on that order (the
  last checkpoint before a period, the batches by ascending id, pagination), so a map of the model
  is an association list sorted by key. The interface the components use is the locale
  \<open>ordered_store\<close>: lookup laws, and enumeration in strictly ascending order. What
  the components need of it (enumerated sums after an update, ranges, pages) is proved once from
  these laws, and the sorted association list is its interpretation.
\<close>

section \<open>Ranges of an enumerated map\<close>

text \<open>
  \<open>range(start, None, Ascending).take(n)\<close> with an exclusive start: a page of an enumeration
  starts after the bound and holds at most \<open>n\<close> entries.
\<close>

definition after :: "'k::linorder option \<Rightarrow> 'k \<Rightarrow> bool" where
  "after lo k = (case lo of None \<Rightarrow> True | Some b \<Rightarrow> b < k)"

definition page :: "'k::linorder option \<Rightarrow> nat \<Rightarrow> ('k \<times> 'v) list \<Rightarrow> ('k \<times> 'v) list" where
  "page lo n es = take n (filter (\<lambda>p. after lo (fst p)) es)"

definition keys_sorted :: "('k::linorder \<times> 'v) list \<Rightarrow> bool" where
  "keys_sorted es \<longleftrightarrow> sorted_wrt (<) (map fst es)"

lemma keys_sorted_iff: "keys_sorted es \<longleftrightarrow> sorted_wrt (\<lambda>p q. fst p < fst q) es"
  by (simp add: keys_sorted_def sorted_wrt_map)

lemma keys_sorted_filter: "keys_sorted es \<Longrightarrow> keys_sorted (filter P es)"
  by (simp add: keys_sorted_iff sorted_wrt_filter)

lemma keys_sorted_take: "keys_sorted es \<Longrightarrow> keys_sorted (take n es)"
  by (simp add: keys_sorted_iff sorted_wrt_take)

lemma keys_sorted_append:
  "keys_sorted (xs @ ys) \<longleftrightarrow>
    keys_sorted xs \<and> keys_sorted ys \<and> (\<forall>p \<in> set xs. \<forall>q \<in> set ys. fst p < fst q)"
  by (auto simp: keys_sorted_iff sorted_wrt_append)

lemma keys_sorted_le_last:
  assumes "keys_sorted es" and "p \<in> set es"
  shows "fst p \<le> fst (last es)"
proof -
  from assms(2) have "es = butlast es @ [last es]" by (cases es) auto
  then have "keys_sorted (butlast es @ [last es])" using assms(1) by simp
  moreover have "p \<in> set (butlast es) \<or> p = last es"
    using assms(2) \<open>es = butlast es @ [last es]\<close> by (metis Un_iff empty_iff empty_set insert_iff list.set(2) set_append)
  ultimately show ?thesis by (auto simp: keys_sorted_append less_imp_le)
qed

lemma page_bounds:
  assumes "keys_sorted es"
  shows "length (page lo n es) \<le> n" and "keys_sorted (page lo n es)"
    and "set (page lo n es) \<subseteq> set es"
    and "p \<in> set (page (Some b) n es) \<Longrightarrow> b < fst p"
  using assms by (auto simp: page_def after_def keys_sorted_take keys_sorted_filter dest: in_set_takeD)

text \<open>Asking for what follows the last key of a page continues exactly where the page stopped.\<close>

lemma page_continues:
  assumes srt: "keys_sorted es" and ne: "page lo n es \<noteq> []"
  shows "filter (\<lambda>p. after lo (fst p)) es
    = page lo n es @ filter (\<lambda>p. after (Some (fst (last (page lo n es)))) (fst p)) es"
proof -
  define xs where "xs = filter (\<lambda>p. after lo (fst p)) es"
  define ps where "ps = take n xs"
  define b where "b = fst (last ps)"
  have page: "page lo n es = ps" by (simp add: page_def xs_def ps_def)
  have ne': "ps \<noteq> []" using ne by (simp add: page)
  have "keys_sorted (ps @ drop n xs)"
    using keys_sorted_filter [OF srt] by (simp add: ps_def xs_def)
  then have split: "keys_sorted ps" "\<And>q. q \<in> set (drop n xs) \<Longrightarrow> b < fst q"
    using last_in_set [OF ne'] by (auto simp: keys_sorted_append b_def)
  have "last ps \<in> set xs" using last_in_set [OF ne'] by (auto simp: ps_def dest: in_set_takeD)
  then have lo: "after lo b" by (simp add: xs_def b_def)
  then have imp: "(after lo k \<and> b < k) = (b < k)" for k
    by (auto simp: after_def split: option.splits)
  have "filter (\<lambda>p. b < fst p) es = filter (\<lambda>p. b < fst p) xs"
    by (simp add: xs_def filter_filter imp)
  also have "\<dots> = filter (\<lambda>p. b < fst p) (ps @ drop n xs)"
    by (simp only: ps_def append_take_drop_id)
  also have "\<dots> = filter (\<lambda>p. b < fst p) ps @ filter (\<lambda>p. b < fst p) (drop n xs)"
    by (rule filter_append)
  also have "filter (\<lambda>p. b < fst p) ps = []"
    using keys_sorted_le_last [OF split(1)] by (simp add: filter_empty_conv not_less b_def)
  also have "filter (\<lambda>p. b < fst p) (drop n xs) = drop n xs"
    using split(2) by (simp add: filter_id_conv)
  finally have "filter (\<lambda>p. b < fst p) es = drop n xs" by simp
  then have "ps @ filter (\<lambda>p. after (Some b) (fst p)) es = xs"
    by (simp add: after_def ps_def)
  then show ?thesis by (simp add: page b_def xs_def)
qed

text \<open>So a page leaves nothing out.\<close>

lemma page_complete:
  assumes "keys_sorted es" and "page lo n es \<noteq> []"
    and "e \<in> set es" and "after lo (fst e)" and "fst e \<le> fst (last (page lo n es))"
  shows "e \<in> set (page lo n es)"
proof -
  have "e \<in> set (filter (\<lambda>p. after lo (fst p)) es)" using assms(3,4) by simp
  then have "e \<in> set (page lo n es) \<or> after (Some (fst (last (page lo n es)))) (fst e)"
    unfolding page_continues [OF assms(1,2)] by auto
  then show ?thesis using assms(5) by (auto simp: after_def)
qed

text \<open>
  \<open>range(None, Some(inclusive(b)), Descending).next()\<close>: the newest entry not above a bound.
\<close>

definition newest_upto :: "'k::linorder \<Rightarrow> ('k \<times> 'v) list \<Rightarrow> ('k \<times> 'v) option" where
  "newest_upto b es =
     (case filter (\<lambda>p. fst p \<le> b) es of [] \<Rightarrow> None | q # qs \<Rightarrow> Some (last (q # qs)))"

lemma newest_upto_None: "newest_upto b es = None \<longleftrightarrow> (\<forall>p \<in> set es. b < fst p)"
proof -
  have "newest_upto b es = None \<longleftrightarrow> filter (\<lambda>p. fst p \<le> b) es = []"
    by (simp add: newest_upto_def split: list.split)
  then show ?thesis by (simp add: filter_empty_conv not_le)
qed

lemma newest_upto_Some:
  assumes "keys_sorted es" and "newest_upto b es = Some p"
  shows "p \<in> set es" and "fst p \<le> b" and "q \<in> set es \<Longrightarrow> fst q \<le> b \<Longrightarrow> fst q \<le> fst p"
proof -
  let ?fs = "filter (\<lambda>p. fst p \<le> b) es"
  have l: "?fs \<noteq> []" "last ?fs = p"
    using assms(2) by (auto simp: newest_upto_def split: list.splits)
  then have "p \<in> set ?fs" by (metis last_in_set)
  then show "p \<in> set es" "fst p \<le> b" by auto
  assume "q \<in> set es" "fst q \<le> b"
  then have "q \<in> set ?fs" by simp
  from keys_sorted_le_last [OF keys_sorted_filter [OF assms(1)] this] l(2)
  show "fst q \<le> fst p" by simp
qed

section \<open>The interface\<close>

locale ordered_store =
  fixes empty :: "'s"
    and put :: "'k::linorder \<Rightarrow> 'v \<Rightarrow> 's \<Rightarrow> 's"
    and del :: "'k \<Rightarrow> 's \<Rightarrow> 's"
    and get :: "'s \<Rightarrow> 'k \<Rightarrow> 'v option"
    and entries :: "'s \<Rightarrow> ('k \<times> 'v) list"
    and invar :: "'s \<Rightarrow> bool"
  assumes get_empty: "get empty k = None"
    and get_put: "get (put k v s) k' = (if k' = k then Some v else get s k')"
    and get_del: "get (del k s) k' = (if k' = k then None else get s k')"
    and invar_empty: "invar empty"
    and invar_put: "invar s \<Longrightarrow> invar (put k v s)"
    and invar_del: "invar s \<Longrightarrow> invar (del k s)"
    and entries_sorted: "invar s \<Longrightarrow> sorted_wrt (<) (map fst (entries s))"
    and entries_get: "invar s \<Longrightarrow> map_of (entries s) = get s"
begin

lemma keys_distinct: "invar s \<Longrightarrow> distinct (map fst (entries s))"
  using entries_sorted strict_sorted_iff by blast

lemma entries_distinct: "invar s \<Longrightarrow> distinct (entries s)"
  using keys_distinct by (simp add: distinct_map)

lemma in_entries: "invar s \<Longrightarrow> (k, v) \<in> set (entries s) \<longleftrightarrow> get s k = Some v"
  using entries_get keys_distinct by (metis map_of_eq_Some_iff)

lemma entries_eq_set: "invar s \<Longrightarrow> set (entries s) = {(k, v). get s k = Some v}"
  using in_entries by auto

text \<open>
  A sum over the entries moves by the difference of the written entry. Two stores that differ in
  one key have the same other entries.
\<close>

lemma total_as_sum: "invar s \<Longrightarrow> sum_list (map f (entries s)) = sum f (set (entries s))"
  for f :: "'k \<times> 'v \<Rightarrow> nat"
  using entries_distinct by (simp add: sum_list_distinct_conv_sum_set)

lemma total_del:
  fixes f :: "'k \<times> 'v \<Rightarrow> nat"
  assumes "invar s"
  shows "sum_list (map f (entries (del k s))) + (case get s k of Some v \<Rightarrow> f (k, v) | None \<Rightarrow> 0)
    = sum_list (map f (entries s))"
proof -
  let ?old = "{p \<in> set (entries s). fst p = k}"
  have d: "set (entries (del k s)) = set (entries s) - ?old"
    using assms by (auto simp: entries_eq_set invar_del get_del split: if_splits)
  have o: "?old = (case get s k of Some v \<Rightarrow> {(k, v)} | None \<Rightarrow> {})"
    using assms by (auto simp: entries_eq_set split: option.splits)
  have "sum f (set (entries s) - ?old) + sum f ?old = sum f (set (entries s))"
    by (metis (no_types, lifting) List.finite_set add.commute mem_Collect_eq subsetI sum.subset_diff)
  then show ?thesis
    using assms by (simp add: total_as_sum invar_del d o split: option.splits)
qed

lemma total_put:
  fixes f :: "'k \<times> 'v \<Rightarrow> nat"
  assumes "invar s"
  shows "sum_list (map f (entries (put k v s))) + (case get s k of Some v0 \<Rightarrow> f (k, v0) | None \<Rightarrow> 0)
    = sum_list (map f (entries s)) + f (k, v)"
proof -
  have "set (entries (del k (put k v s))) = set (entries (del k s))"
    using assms by (auto simp: entries_eq_set invar_put invar_del get_del get_put split: if_splits)
  then have same: "sum_list (map f (entries (del k (put k v s)))) = sum_list (map f (entries (del k s)))"
    using assms by (simp add: total_as_sum invar_put invar_del)
  from total_del [OF invar_put [OF assms], of f k k v] same
  have "sum_list (map f (entries (put k v s))) = sum_list (map f (entries (del k s))) + f (k, v)"
    by (simp add: get_put)
  then show ?thesis using total_del [OF assms, of f k] by simp
qed

lemma member_le_total:
  fixes f :: "'k \<times> 'v \<Rightarrow> nat"
  assumes "invar s" and "get s k = Some v"
  shows "f (k, v) \<le> sum_list (map f (entries s))"
  using sum_list_le_member [of "(k, v)" "entries s" f] in_entries [OF assms(1)] assms(2) by simp

text \<open>Ranges of the enumeration, in terms of lookups.\<close>

lemma entries_keys_sorted: "invar s \<Longrightarrow> keys_sorted (entries s)"
  using entries_sorted by (simp add: keys_sorted_def)

lemma newest_lookup:
  assumes "invar s" and "newest_upto b (entries s) = Some (k, v)"
  shows "get s k = Some v" and "k \<le> b" and "get s k' = Some v' \<Longrightarrow> k' \<le> b \<Longrightarrow> k' \<le> k"
  using newest_upto_Some [OF entries_keys_sorted [OF assms(1)] assms(2)] in_entries [OF assms(1)]
  by auto

end

section \<open>Sorted association lists\<close>

type_synonym ('k, 'v) store = "('k \<times> 'v) list"

definition get :: "('k, 'v) store \<Rightarrow> 'k \<Rightarrow> 'v option" where
  "get s k = map_of s k"

fun put :: "'k::linorder \<Rightarrow> 'v \<Rightarrow> ('k, 'v) store \<Rightarrow> ('k, 'v) store" where
  "put k v [] = [(k, v)]"
| "put k v ((k', v') # s) =
     (if k < k' then (k, v) # (k', v') # s
      else if k = k' then (k, v) # s
      else (k', v') # put k v s)"

definition del :: "'k \<Rightarrow> ('k, 'v) store \<Rightarrow> ('k, 'v) store" where
  "del k s = filter (\<lambda>p. fst p \<noteq> k) s"

definition entries :: "('k, 'v) store \<Rightarrow> ('k \<times> 'v) list" where
  "entries s = s"

definition wf_store :: "('k::linorder, 'v) store \<Rightarrow> bool" where
  "wf_store s \<longleftrightarrow> sorted_wrt (<) (map fst s)"

lemma map_of_put: "map_of (put k v s) = (map_of s)(k \<mapsto> v)"
  by (induction s) auto

lemma keys_put: "fst ` set (put k v s) = insert k (fst ` set s)"
  by (metis dom_fun_upd dom_map_of_conv_image_fst map_of_put option.distinct(1))

lemma wf_store_put: "wf_store s \<Longrightarrow> wf_store (put k v s)"
proof (induction s)
  case Nil
  then show ?case by (simp add: wf_store_def)
next
  case (Cons p s)
  obtain k' v' where p: "p = (k', v')" by force
  have fs: "set (map fst (put k v s)) = insert k (set (map fst s))"
    using keys_put [of k v s] by simp
  show ?case
    using Cons unfolding p wf_store_def
    by (auto simp: fs simp del: set_map)
qed

lemma get_del': "get (del k s) k' = (if k' = k then None else get s k')"
  unfolding get_def del_def by (induction s) auto

lemma wf_store_del: "wf_store s \<Longrightarrow> wf_store (del k s)"
  unfolding wf_store_def del_def using keys_sorted_filter keys_sorted_def by metis

interpretation om: ordered_store "[]" put del get entries wf_store
proof
  fix k k' :: "'a::linorder" and v :: 'b and s :: "('a, 'b) store"
  show "get [] k = (None :: 'b option)" by (simp add: get_def)
  show "get (put k v s) k' = (if k' = k then Some v else get s k')"
    by (simp add: get_def map_of_put)
  show "get (del k s) k' = (if k' = k then None else get s k')"
    by (rule get_del')
  show "wf_store ([] :: ('a, 'b) store)" by (simp add: wf_store_def)
  show "wf_store s \<Longrightarrow> wf_store (put k v s)" by (rule wf_store_put)
  show "wf_store s \<Longrightarrow> wf_store (del k s)" by (rule wf_store_del)
  show "wf_store s \<Longrightarrow> sorted_wrt (<) (map fst (entries s))"
    by (simp add: wf_store_def entries_def)
  show "wf_store s \<Longrightarrow> map_of (entries s) = get s"
    by (simp add: fun_eq_iff get_def entries_def)
qed

lemmas store_laws [store_simps] = om.get_empty om.get_put om.get_del

lemmas store_wf [simp, intro] = om.invar_empty om.invar_put om.invar_del

lemma wf_store_eqI:
  assumes "wf_store s" and "wf_store t" and "\<And>k. get s k = get t k"
  shows "s = t"
proof -
  have "set s = set t"
    using om.entries_eq_set [OF assms(1)] om.entries_eq_set [OF assms(2)] assms(3) by (simp add: entries_def)
  moreover have "sorted_wrt (\<lambda>p q. fst p < fst q) s" "sorted_wrt (\<lambda>p q. fst p < fst q) t"
    using assms(1,2) by (simp_all add: wf_store_def sorted_wrt_map)
  ultimately show ?thesis
  proof (induction s arbitrary: t)
    case Nil
    then show ?case by simp
  next
    case (Cons p s)
    then obtain q t' where t: "t = q # t'" by (cases t) auto
    have le: "fst p = fst q"
      using Cons.prems unfolding t by (metis list.set_intros(1) not_less_iff_gr_or_eq order_less_trans set_ConsD sorted_wrt.simps(2))
    have pq: "p = q"
      using Cons.prems le unfolding t by (metis list.set_intros(1) order_less_irrefl set_ConsD sorted_wrt.simps(2))
    have "set s = set t'"
      using Cons.prems unfolding t pq by (metis insert_eq_iff list.simps(15) order_less_irrefl sorted_wrt.simps(2))
    with Cons.IH [of t'] Cons.prems pq show ?case unfolding t by simp
  qed
qed

section \<open>The prefix of a composite key\<close>

text \<open>\<open>prefix(a)\<close> of a map with composite keys: the entries under \<open>a\<close>, by the second component.\<close>

definition prefix_of :: "('a \<times> 'k, 'v) store \<Rightarrow> 'a \<Rightarrow> ('k, 'v) store" where
  "prefix_of s a = map (\<lambda>e. (snd (fst e), snd e)) (filter (\<lambda>e. fst (fst e) = a) (entries s))"

lemma get_prefix_of: "get (prefix_of s a) k = get s (a, k)"
  unfolding prefix_of_def get_def entries_def by (induction s) auto

lemma wf_prefix_of:
  fixes s :: "('a::linorder \<times> 'k::linorder, 'v) store"
  assumes "wf_store s"
  shows "wf_store (prefix_of s a)"
proof -
  have s: "sorted_wrt (\<lambda>p q. fst p < fst q) (filter (\<lambda>e. fst (fst e) = a) s)"
    using assms by (simp add: wf_store_def sorted_wrt_map sorted_wrt_filter)
  have "sorted_wrt (\<lambda>p q. snd (fst p) < snd (fst q)) (filter (\<lambda>e. fst (fst e) = a) s)"
    by (rule sorted_wrt_mono_rel [OF _ s]) (auto simp: less_prod_def)
  then show ?thesis by (simp add: wf_store_def prefix_of_def entries_def sorted_wrt_map)
qed

lemma newest_prefix_None:
  fixes s :: "('a::linorder \<times> 'k::linorder, 'v) store"
  assumes "wf_store s"
  shows "newest_upto p (prefix_of s a) = None \<longleftrightarrow> (\<forall>k \<le> p. get s (a, k) = None)"
proof -
  have "set (prefix_of s a) = {(k, v). get s (a, k) = Some v}"
    using om.entries_eq_set [OF wf_prefix_of [OF assms, of a]] by (simp add: entries_def get_prefix_of)
  then have "newest_upto p (prefix_of s a) = None \<longleftrightarrow> (\<forall>k v. get s (a, k) = Some v \<longrightarrow> p < k)"
    unfolding newest_upto_None by auto
  then show ?thesis by (metis leD not_le_imp_less not_None_eq)
qed

lemma newest_prefix_Some:
  fixes s :: "('a::linorder \<times> 'k::linorder, 'v) store"
  assumes "wf_store s"
  shows "newest_upto p (prefix_of s a) = Some (k, v) \<longleftrightarrow>
    get s (a, k) = Some v \<and> k \<le> p \<and> (\<forall>k'. k < k' \<longrightarrow> k' \<le> p \<longrightarrow> get s (a, k') = None)"
proof -
  have D: "get s (a, k1) = Some v1 \<and> k1 \<le> p \<and> (\<forall>k'. k1 < k' \<longrightarrow> k' \<le> p \<longrightarrow> get s (a, k') = None)"
    if "newest_upto p (prefix_of s a) = Some (k1, v1)" for k1 v1
    using om.newest_lookup [OF wf_prefix_of [OF assms, of a], of p k1 v1] that
    by (simp add: entries_def get_prefix_of) (metis not_less option.exhaust)
  show ?thesis
  proof
    assume r: "get s (a, k) = Some v \<and> k \<le> p \<and> (\<forall>k'. k < k' \<longrightarrow> k' \<le> p \<longrightarrow> get s (a, k') = None)"
    then have "newest_upto p (prefix_of s a) \<noteq> None" by (auto simp: newest_prefix_None [OF assms])
    then obtain k1 v1 where s: "newest_upto p (prefix_of s a) = Some (k1, v1)" by auto
    from D [OF s] r have "k1 = k" by (metis linorder_neqE option.distinct(1))
    with D [OF s] r s show "newest_upto p (prefix_of s a) = Some (k, v)" by simp
  qed (rule D)
qed

text \<open>A \<open>HashMap\<close> collected from an iterator: a later pair with the same key wins.\<close>

fun store_of_list :: "('k::linorder \<times> 'v) list \<Rightarrow> ('k, 'v) store \<Rightarrow> ('k, 'v) store" where
  "store_of_list [] s = s"
| "store_of_list ((k, v) # ps) s = store_of_list ps (put k v s)"

lemma wf_store_of_list: "wf_store s \<Longrightarrow> wf_store (store_of_list ps s)"
  by (induction ps s rule: store_of_list.induct) auto

lemma get_store_of_list: "get (store_of_list ps s) k = (case map_of (rev ps) k of Some v \<Rightarrow> Some v | None \<Rightarrow> get s k)"
  by (induction ps s rule: store_of_list.induct) (auto simp: store_simps map_add_def split: option.splits)

lemma total_store_of_list:
  fixes f :: "'k::linorder \<times> 'v \<Rightarrow> nat"
  assumes "wf_store s" and "distinct (map fst ps)" and "\<And>k. k \<in> fst ` set ps \<Longrightarrow> get s k = None"
  shows "sum_list (map f (entries (store_of_list ps s))) = sum_list (map f ps) + sum_list (map f (entries s))"
  using assms
proof (induction ps s rule: store_of_list.induct)
  case (1 s)
  then show ?case by simp
next
  case (2 k v ps s)
  have "sum_list (map f (entries (store_of_list ps (put k v s)))) =
    sum_list (map f ps) + sum_list (map f (entries (put k v s)))"
    using 2 by (intro "2.IH") (auto simp: store_simps)
  then show ?case using om.total_put [OF "2.prems"(1), of f k v] 2(4) by simp
qed

end
