(* ===== verification/Cosmos.thy ===== *)
theory Cosmos
  imports Store
begin

text \<open>
  The platform the contracts run on. The numeric types of \<open>cosmwasm_std\<close> are the machine
  integers of this code: \<open>u64\<close>, \<open>u128\<close> and \<open>Uint128\<close> are natural numbers with the
  bound written out at every operation (the workspace builds with \<open>overflow-checks = true\<close>, so
  an overflow panics unless a \<open>checked_\<close> operation turns it into an error), and
  \<open>Decimal\<close> is its number of \<open>10^-18\<close> units. The chain itself (balances,
  delegations, other contracts, address validation) is not part of the repository: it is a
  parameter of every handler.
\<close>

type_synonym u16 = nat
type_synonym u64 = nat
type_synonym u128 = nat
type_synonym decimal = nat
type_synonym addr = string

section \<open>Errors of the standard library\<close>

datatype std_error =
    NotFound
  | GenericErr string
  | Overflow
  | DivideByZero
  | ParseErr

section \<open>Checked integers\<close>

definition U16_MAX :: nat where "U16_MAX = 2 ^ 16 - 1"
definition U64_MAX :: nat where "U64_MAX = 2 ^ 64 - 1"
definition U128_MAX :: nat where "U128_MAX = 2 ^ 128 - 1"

text \<open>The numbers themselves, for evaluation.\<close>

lemma U64_MAX_code [code]: "U64_MAX = 18446744073709551615"
  by (simp add: U64_MAX_def)

lemma U128_MAX_code [code]: "U128_MAX = 340282366920938463463374607431768211455"
  by (simp add: U128_MAX_def)

definition bounded :: "nat \<Rightarrow> nat \<Rightarrow> (nat, 'e) result" where
  "bounded m x = (if x \<le> m then Ok x else Panic)"

definition u16_add :: "u16 \<Rightarrow> u16 \<Rightarrow> (u16, 'e) result" where
  "u16_add a b = bounded U16_MAX (a + b)"

definition u64_add :: "u64 \<Rightarrow> u64 \<Rightarrow> (u64, 'e) result" where
  "u64_add a b = bounded U64_MAX (a + b)"

definition u64_mul :: "u64 \<Rightarrow> u64 \<Rightarrow> (u64, 'e) result" where
  "u64_mul a b = bounded U64_MAX (a * b)"

definition u64_sub :: "u64 \<Rightarrow> u64 \<Rightarrow> (u64, 'e) result" where
  "u64_sub a b = (if b \<le> a then Ok (a - b) else Panic)"

definition u128_add :: "u128 \<Rightarrow> u128 \<Rightarrow> (u128, 'e) result" where
  "u128_add a b = bounded U128_MAX (a + b)"

definition u128_mul :: "u128 \<Rightarrow> u128 \<Rightarrow> (u128, 'e) result" where
  "u128_mul a b = bounded U128_MAX (a * b)"

definition u128_sub :: "u128 \<Rightarrow> u128 \<Rightarrow> (u128, 'e) result" where
  "u128_sub a b = (if b \<le> a then Ok (a - b) else Panic)"

definition u128_div :: "u128 \<Rightarrow> u128 \<Rightarrow> (u128, 'e) result" where
  "u128_div a b = (if b = 0 then Panic else Ok (a div b))"

text \<open>\<open>Iterator::sum\<close> adds from the left and panics at the first partial sum above the bound;
  the partial sums grow, so it panics exactly when the total is above it.\<close>

definition u128_sum :: "u128 list \<Rightarrow> (u128, 'e) result" where
  "u128_sum xs = bounded U128_MAX (sum_list xs)"

definition saturating_sub :: "nat \<Rightarrow> nat \<Rightarrow> nat" where
  "saturating_sub a b = a - b"

definition checked_add :: "u128 \<Rightarrow> u128 \<Rightarrow> (u128, std_error) result" where
  "checked_add a b = (if a + b \<le> U128_MAX then Ok (a + b) else Err Overflow)"

definition checked_sub :: "u128 \<Rightarrow> u128 \<Rightarrow> (u128, std_error) result" where
  "checked_sub a b = (if b \<le> a then Ok (a - b) else Err Overflow)"

definition checked_mul :: "u128 \<Rightarrow> u128 \<Rightarrow> (u128, std_error) result" where
  "checked_mul a b = (if a * b \<le> U128_MAX then Ok (a * b) else Err Overflow)"

definition checked_div :: "u128 \<Rightarrow> u128 \<Rightarrow> (u128, std_error) result" where
  "checked_div a b = (if b = 0 then Err DivideByZero else Ok (a div b))"

text \<open>\<open>a.multiply_ratio(n, d)\<close> is \<open>a * n / d\<close> rounded down, computed in 256 bits.\<close>

definition multiply_ratio :: "u128 \<Rightarrow> u128 \<Rightarrow> u128 \<Rightarrow> (u128, 'e) result" where
  "multiply_ratio a n d = (if d = 0 then Panic else bounded U128_MAX (a * n div d))"

lemmas checked_num_defs [num_defs] =
  bounded_def u16_add_def u64_add_def u64_mul_def u64_sub_def u128_add_def u128_mul_def
  u128_sub_def u128_div_def u128_sum_def saturating_sub_def checked_add_def checked_sub_def
  checked_mul_def checked_div_def multiply_ratio_def

text \<open>What a successful operation returned.\<close>

lemma num_Ok [ok_simps]:
  "bounded m x = Ok y \<longleftrightarrow> y = x \<and> x \<le> m"
  "u16_add a b = Ok y \<longleftrightarrow> y = a + b \<and> a + b \<le> U16_MAX"
  "u64_add a b = Ok y \<longleftrightarrow> y = a + b \<and> a + b \<le> U64_MAX"
  "u64_mul a b = Ok y \<longleftrightarrow> y = a * b \<and> a * b \<le> U64_MAX"
  "u64_sub a b = Ok y \<longleftrightarrow> y = a - b \<and> b \<le> a"
  "u128_add a b = Ok y \<longleftrightarrow> y = a + b \<and> a + b \<le> U128_MAX"
  "u128_mul a b = Ok y \<longleftrightarrow> y = a * b \<and> a * b \<le> U128_MAX"
  "u128_sub a b = Ok y \<longleftrightarrow> y = a - b \<and> b \<le> a"
  "u128_div a b = Ok y \<longleftrightarrow> b \<noteq> 0 \<and> y = a div b"
  "u128_sum xs = Ok y \<longleftrightarrow> y = sum_list xs \<and> sum_list xs \<le> U128_MAX"
  "checked_add a b = Ok y \<longleftrightarrow> y = a + b \<and> a + b \<le> U128_MAX"
  "checked_sub a b = Ok y \<longleftrightarrow> y = a - b \<and> b \<le> a"
  "checked_mul a b = Ok y \<longleftrightarrow> y = a * b \<and> a * b \<le> U128_MAX"
  "checked_div a b = Ok y \<longleftrightarrow> b \<noteq> 0 \<and> y = a div b"
  "multiply_ratio a n d = Ok y \<longleftrightarrow> d \<noteq> 0 \<and> y = a * n div d \<and> a * n div d \<le> U128_MAX"
  by (auto simp: num_defs)

lemma multiply_ratio_le: "n \<le> d \<Longrightarrow> a * n div d \<le> a" for a n d :: nat
  by (cases "d = 0") (simp_all add: div_le_mono2 less_mult_imp_div_less div_le_dividend
      order.trans [OF div_le_mono [of "a * n" "a * d" d]])

section \<open>Fixed-point decimals\<close>

definition DEC_ONE :: decimal where "DEC_ONE = 10 ^ 18"

lemma DEC_ONE_code [code]: "DEC_ONE = 1000000000000000000"
  by (simp add: DEC_ONE_def)

definition dec_from_ratio :: "u128 \<Rightarrow> u128 \<Rightarrow> (decimal, 'e) result" where
  "dec_from_ratio n d = multiply_ratio n DEC_ONE d"

definition dec_add :: "decimal \<Rightarrow> decimal \<Rightarrow> (decimal, 'e) result" where
  "dec_add a b = u128_add a b"

definition dec_sum :: "decimal list \<Rightarrow> (decimal, 'e) result" where
  "dec_sum xs = u128_sum xs"

definition dec_checked_add :: "decimal \<Rightarrow> decimal \<Rightarrow> (decimal, std_error) result" where
  "dec_checked_add a b = checked_add a b"

definition dec_checked_sub :: "decimal \<Rightarrow> decimal \<Rightarrow> (decimal, std_error) result" where
  "dec_checked_sub a b = checked_sub a b"

definition dec_checked_mul :: "decimal \<Rightarrow> decimal \<Rightarrow> (decimal, std_error) result" where
  "dec_checked_mul a b =
     (if a * b div DEC_ONE \<le> U128_MAX then Ok (a * b div DEC_ONE) else Err Overflow)"

definition dec_checked_div :: "decimal \<Rightarrow> decimal \<Rightarrow> (decimal, std_error) result" where
  "dec_checked_div a b =
     (if b = 0 then Err DivideByZero
      else if a * DEC_ONE div b \<le> U128_MAX then Ok (a * DEC_ONE div b) else Err Overflow)"

lemma DEC_ONE_pos [simp]: "0 < DEC_ONE" by (simp add: DEC_ONE_def)

lemmas dec_num_defs [num_defs] =
  dec_from_ratio_def dec_add_def dec_sum_def dec_checked_add_def dec_checked_sub_def
  dec_checked_mul_def dec_checked_div_def

lemma dec_Ok [ok_simps]:
  "dec_from_ratio n d = Ok y \<longleftrightarrow> d \<noteq> 0 \<and> y = n * DEC_ONE div d \<and> n * DEC_ONE div d \<le> U128_MAX"
  "dec_add a b = Ok y \<longleftrightarrow> y = a + b \<and> a + b \<le> U128_MAX"
  "dec_sum xs = Ok y \<longleftrightarrow> y = sum_list xs \<and> sum_list xs \<le> U128_MAX"
  "dec_checked_add a b = Ok y \<longleftrightarrow> y = a + b \<and> a + b \<le> U128_MAX"
  "dec_checked_sub a b = Ok y \<longleftrightarrow> y = a - b \<and> b \<le> a"
  "dec_checked_mul a b = Ok y \<longleftrightarrow> y = a * b div DEC_ONE \<and> a * b div DEC_ONE \<le> U128_MAX"
  "dec_checked_div a b = Ok y \<longleftrightarrow> b \<noteq> 0 \<and> y = a * DEC_ONE div b \<and> a * DEC_ONE div b \<le> U128_MAX"
  by (auto simp: num_defs)

section \<open>Coins, messages and responses\<close>

record coin =
  c_denom :: string
  c_amount :: u128

definition mk_coin :: "u128 \<Rightarrow> string \<Rightarrow> coin" where
  "mk_coin a d = \<lparr>c_denom = d, c_amount = a\<rparr>"

lemma mk_coin_sel [simp]: "c_denom (mk_coin a d) = d" "c_amount (mk_coin a d) = a"
  by (simp_all add: mk_coin_def)

datatype vote_option = VoteYes | VoteNo | VoteAbstain | VoteNoWithVeto

datatype cw20_msg =
    Cw20Mint addr u128
  | Cw20Burn u128
  | Cw20Transfer addr u128

text \<open>
  \<open>'m\<close> is the type of the payloads a contract sends to contracts with \<open>WasmMsg::Execute\<close>
  (\<open>to_binary\<close> of a message); a payload stands for its serialisation.
\<close>

datatype 'm cosmos_msg =
    BankSend addr "coin list"
  | StakingDelegate string coin
  | StakingUndelegate string coin
  | StakingRedelegate string string coin
  | WithdrawDelegatorReward string
  | GovVote u64 vote_option
  | GovVoteWeighted u64 addr "(vote_option \<times> string) list"
  | WasmExecute addr 'm "coin list"
  | WasmInstantiate "addr option" u64 'm "coin list" string
  | Stargate string 'm

datatype 'm sub_msg =
    PlainMsg "'m cosmos_msg"
  | ReplyOnSuccess "'m cosmos_msg" u64

type_synonym attribute = "string \<times> string"

record event =
  ev_type :: string
  ev_attrs :: "attribute list"

definition new_event :: "string \<Rightarrow> attribute list \<Rightarrow> event" where
  "new_event t as = \<lparr>ev_type = t, ev_attrs = as\<rparr>"

record 'm response =
  resp_msgs :: "'m sub_msg list"
  resp_events :: "event list"
  resp_attrs :: "attribute list"

definition new_response :: "'m response" where
  "new_response = \<lparr>resp_msgs = [], resp_events = [], resp_attrs = []\<rparr>"

definition add_submessage :: "'m response \<Rightarrow> 'm sub_msg \<Rightarrow> 'm response" where
  "add_submessage r m = r\<lparr>resp_msgs := resp_msgs r @ [m]\<rparr>"

definition add_message :: "'m response \<Rightarrow> 'm cosmos_msg \<Rightarrow> 'm response" where
  "add_message r m = add_submessage r (PlainMsg m)"

definition add_messages :: "'m response \<Rightarrow> 'm cosmos_msg list \<Rightarrow> 'm response" where
  "add_messages r ms = r\<lparr>resp_msgs := resp_msgs r @ map PlainMsg ms\<rparr>"

definition add_event :: "'m response \<Rightarrow> event \<Rightarrow> 'm response" where
  "add_event r e = r\<lparr>resp_events := resp_events r @ [e]\<rparr>"

definition add_attributes :: "'m response \<Rightarrow> attribute list \<Rightarrow> 'm response" where
  "add_attributes r as = r\<lparr>resp_attrs := resp_attrs r @ as\<rparr>"

definition add_attribute :: "'m response \<Rightarrow> string \<Rightarrow> string \<Rightarrow> 'm response" where
  "add_attribute r k v = add_attributes r [(k, v)]"

text \<open>The messages of a response; events and attributes do not change them.\<close>

lemma resp_msgs_simps [simp]:
  "resp_msgs new_response = []"
  "resp_msgs (add_submessage r s) = resp_msgs r @ [s]"
  "resp_msgs (add_message r m) = resp_msgs r @ [PlainMsg m]"
  "resp_msgs (add_messages r ms) = resp_msgs r @ map PlainMsg ms"
  "resp_msgs (add_event r e) = resp_msgs r"
  "resp_msgs (add_attributes r as) = resp_msgs r"
  "resp_msgs (add_attribute r k v) = resp_msgs r"
  by (simp_all add: new_response_def add_submessage_def add_message_def add_messages_def
      add_event_def add_attributes_def add_attribute_def)

section \<open>The block and the sender\<close>

record env =
  env_height :: u64
  env_time :: u64
  env_contract :: addr

record message_info =
  info_sender :: addr
  info_funds :: "coin list"

text \<open>A CW20 token calls the receiver with the original sender, the amount and a payload.\<close>

record 'p cw20_receive_msg =
  cw20_sender :: addr
  cw20_amount :: u128
  cw20_payload :: 'p

datatype 'a decoded = Decoded 'a | Undecodable

text \<open>\<open>from_binary\<close> of a payload: a payload that does not parse is an error.\<close>

fun from_binary :: "'a decoded \<Rightarrow> ('a, std_error) result" where
  "from_binary (Decoded x) = Ok x"
| "from_binary Undecodable = Err ParseErr"

text \<open>The reply to a submessage: the events of its run, or the error it ended with.\<close>

datatype sub_msg_result = SubMsgOk "event list" | SubMsgErr string

record reply =
  reply_id :: u64
  reply_result :: sub_msg_result

section \<open>Stored items\<close>

text \<open>\<open>Item::load\<close>: an item that was never saved is an error.\<close>

definition load_item :: "'a option \<Rightarrow> ('a, std_error) result" where
  "load_item = ok_or NotFound"

lemma load_item_Ok [ok_simps]: "load_item v = Ok x \<longleftrightarrow> v = Some x"
  by (simp add: load_item_def ok_simps)

lemma load_item_Some [simp]: "load_item (Some x) = Ok x" "load_item None = Err NotFound"
  by (simp_all add: load_item_def)

end
