(* ===== verification/ErisLib.thy ===== *)
theory ErisLib
  imports Cosmos
begin

text \<open>
  The shared package \<open>packages/eris/src\<close>: the extension traits of \<open>lib.rs\<close> (rounding
  multiplication of a decimal and an integer, optional messages), the rounding-up ratio and the
  address helpers of \<open>helper.rs\<close>, the basis points of \<open>helpers/bps.rs\<close>, the
  periods and voting power of \<open>governance_helper.rs\<close> and the slopes of \<open>helpers/slope.rs\<close>.
\<close>

section \<open>lib.rs\<close>

definition add_optional_message :: "'m response \<Rightarrow> 'm cosmos_msg option \<Rightarrow> 'm response" where
  "add_optional_message r m = (case m of Some m' \<Rightarrow> add_message r m' | None \<Rightarrow> r)"

definition checked_mul_uint :: "decimal \<Rightarrow> u128 \<Rightarrow> (u128, std_error) result" where
  "checked_mul_uint d x =
     (if d = 0 \<or> x = 0 then Ok 0
      else let r = x * d div DEC_ONE in if r > U128_MAX then Err Overflow else Ok r)"

definition decimal_checked_add :: "decimal \<Rightarrow> decimal \<Rightarrow> (decimal, std_error) result" where
  "decimal_checked_add a b = and_then (checked_add a b) (\<lambda>_. dec_add a b)"

lemma checked_mul_uint_Ok [ok_simps]:
  "checked_mul_uint d x = Ok y \<longleftrightarrow> y = x * d div DEC_ONE \<and> y \<le> U128_MAX"
  by (auto simp: checked_mul_uint_def Let_def)

lemma checked_mul_uint_le: "d \<le> DEC_ONE \<Longrightarrow> checked_mul_uint d x = Ok y \<Longrightarrow> y \<le> x"
  by (simp add: checked_mul_uint_Ok multiply_ratio_le)

lemma resp_msgs_optional [simp]:
  "resp_msgs (add_optional_message r m) =
    resp_msgs r @ (case m of Some m' \<Rightarrow> [PlainMsg m'] | None \<Rightarrow> [])"
  by (simp add: add_optional_message_def split: option.split)

section \<open>helper.rs\<close>

definition unwrap_reply :: "reply \<Rightarrow> (event list, std_error) result" where
  "unwrap_reply r = (case reply_result r of SubMsgOk evs \<Rightarrow> Ok evs | SubMsgErr e \<Rightarrow> Err (GenericErr e))"

definition multiply_ratio_and_ceil :: "u128 \<Rightarrow> u128 \<Rightarrow> u128 \<Rightarrow> (u128, 'e) result" where
  "multiply_ratio_and_ceil a n d =
     (if d = 0 then Panic else bounded U128_MAX ((a * n + d - 1) div d))"

definition addr_opt_validate ::
    "(string \<Rightarrow> (addr, std_error) result) \<Rightarrow> string option \<Rightarrow> (addr option, std_error) result" where
  "addr_opt_validate validate a =
     (case a of None \<Rightarrow> Ok None | Some s \<Rightarrow> and_then (validate s) (\<lambda>x. Ok (Some x)))"

definition validate_addresses ::
    "(string \<Rightarrow> (addr, std_error) result) \<Rightarrow> string list \<Rightarrow> (addr list, std_error) result" where
  "validate_addresses validate as = traverse validate as"

lemma multiply_ratio_and_ceil_bounds:
  assumes "multiply_ratio_and_ceil a n d = Ok y"
  shows "a * n \<le> y * d" and "y * d < a * n + d" and "0 < d"
proof -
  from assms have d: "0 < d" and y: "y = (a * n + d - 1) div d"
    by (auto simp: multiply_ratio_and_ceil_def ok_simps split: if_splits)
  have "a * n + d - 1 < Suc y * d"
    unfolding y using dividend_less_div_times [OF d, of "a * n + d - 1"] by simp
  then show "a * n \<le> y * d" using d by simp
  have "y * d \<le> a * n + d - 1" unfolding y by (simp add: div_times_less_eq_dividend)
  then show "y * d < a * n + d" using d by simp
  show "0 < d" by (rule d)
qed

section \<open>governance\_helper.rs\<close>

definition WEEK :: u64 where "WEEK = 7 * 86400"

text \<open>Two years of days; in whole weeks this is 104.\<close>

definition MAX_LOCK_TIME :: u64 where "MAX_LOCK_TIME = 2 * 365 * 86400"
definition MIN_LOCK_PERIODS :: u64 where "MIN_LOCK_PERIODS = 3"
definition EPOCH_START :: u64 where "EPOCH_START = 1667174400"

definition get_period :: "u64 \<Rightarrow> (u64, std_error) result" where
  "get_period time =
     (if time < EPOCH_START then Err (GenericErr ''Invalid time'')
      else Ok ((time - EPOCH_START) div WEEK))"

definition get_s_from_period :: "u64 \<Rightarrow> (u64, 'e) result" where
  "get_s_from_period period =
     and_then (u64_mul period WEEK) (\<lambda>w. u64_add EPOCH_START w)"

definition get_periods_count :: "u64 \<Rightarrow> u64" where
  "get_periods_count interval = interval div WEEK"

definition rounded_checked_mul :: "decimal \<Rightarrow> u128 \<Rightarrow> (u128, std_error) result" where
  "rounded_checked_mul d x =
     (if d = 0 \<or> x = 0 then Ok 0
      else let numerator = x * d; r = numerator div DEC_ONE in
        if r > U128_MAX then Err Overflow
        else if numerator mod DEC_ONE \<ge> 500000000000000000 then u128_add r 1 else Ok r)"

definition calc_voting_power :: "u128 \<Rightarrow> u128 \<Rightarrow> u64 \<Rightarrow> u64 \<Rightarrow> (u128, 'e) result" where
  "calc_voting_power slope old_vp start_period end_period =
     and_then (u64_sub end_period start_period) (\<lambda>dt.
       let shift = (case checked_mul slope dt of Ok s \<Rightarrow> s | _ \<Rightarrow> 0) in
       Ok (saturating_sub old_vp shift))"

lemmas governance_constants = WEEK_def MAX_LOCK_TIME_def MIN_LOCK_PERIODS_def EPOCH_START_def

lemma WEEK_pos [simp]: "0 < WEEK" by (simp add: WEEK_def)

lemma max_lock_periods: "get_periods_count MAX_LOCK_TIME = 104"
  by (simp add: get_periods_count_def governance_constants)

lemma get_period_Ok [ok_simps]:
  "get_period t = Ok p \<longleftrightarrow> EPOCH_START \<le> t \<and> p = (t - EPOCH_START) div WEEK"
  by (auto simp: get_period_def)

lemma get_period_mono: "t \<le> t' \<Longrightarrow> get_period t = Ok p \<Longrightarrow> get_period t' = Ok p' \<Longrightarrow> p \<le> p'"
  by (auto simp: ok_simps intro: div_le_mono)

section \<open>helpers/slope.rs\<close>

definition calc_coefficient :: "u64 \<Rightarrow> (decimal, 'e) result" where
  "calc_coefficient interval =
     and_then (u64_mul 90 interval) (\<lambda>n.
     and_then (u64_mul (get_periods_count MAX_LOCK_TIME) 10) (\<lambda>d.
     dec_from_ratio n d))"

text \<open>Returns the slope and the adjusted voting power (the \<open>&mut\<close> argument).\<close>

definition adjust_vp_and_slope :: "u128 \<Rightarrow> u64 \<Rightarrow> (u128 \<times> u128, std_error) result" where
  "adjust_vp_and_slope vp dt =
     and_then (checked_div vp dt) (\<lambda>slope.
     and_then (u128_mul slope dt) (\<lambda>vp'.
     Ok (slope, vp')))"

lemma calc_coefficient_Ok [ok_simps]:
  "calc_coefficient i = Ok c \<longleftrightarrow> 90 * i \<le> U64_MAX \<and> c = 90 * i * DEC_ONE div 1040 \<and> c \<le> U128_MAX"
proof -
  have "1040 \<le> U64_MAX" by (simp add: U64_MAX_def)
  then show ?thesis
    by (auto simp: calc_coefficient_def ok_simps max_lock_periods)
qed

lemma adjust_vp_and_slope_Ok [ok_simps]:
  "adjust_vp_and_slope vp dt = Ok (slope, vp') \<longleftrightarrow>
     0 < dt \<and> slope = vp div dt \<and> vp' = slope * dt \<and> vp' \<le> U128_MAX"
  by (auto simp: adjust_vp_and_slope_def ok_simps)

lemma adjusted_vp_bounds:
  assumes "adjust_vp_and_slope vp dt = Ok (slope, vp')"
  shows "vp' \<le> vp" and "vp < vp' + dt"
proof -
  from assms have dt: "0 < dt" and vp': "vp' = vp div dt * dt" by (auto simp: ok_simps)
  show "vp' \<le> vp" unfolding vp' by (rule div_times_less_eq_dividend)
  show "vp < vp' + dt" unfolding vp' using dividend_less_div_times [OF dt, of vp] by simp
qed

section \<open>helpers/bps.rs\<close>

type_synonym basic_points = u16

definition BPS_MAX :: u16 where "BPS_MAX = 10000"

definition bps_try_from :: "nat \<Rightarrow> (basic_points, std_error) result" where
  "bps_try_from v =
     (if v \<le> BPS_MAX then Ok v
      else Err (GenericErr (''Basic points conversion error. '' @ nat_str v @ '' > 10000'')))"

definition bps_checked_add :: "basic_points \<Rightarrow> basic_points \<Rightarrow> (basic_points, std_error) result" where
  "bps_checked_add a b =
     and_then (u16_add a b) (\<lambda>n.
       if n > BPS_MAX then Err (GenericErr ''Basic points sum exceeds limit'') else Ok n)"

definition bps_from_ratio :: "u128 \<Rightarrow> u128 \<Rightarrow> (basic_points, std_error) result" where
  "bps_from_ratio n d =
     and_then
       (if d = 0 \<or> n * BPS_MAX div d > U128_MAX
        then Err (GenericErr ''Checked multiply ratio error!'')
        else Ok (n * BPS_MAX div d))
       bps_try_from"

definition bps_reverse :: "basic_points \<Rightarrow> (basic_points, 'e) result" where
  "bps_reverse b = (if b \<le> BPS_MAX then Ok (BPS_MAX - b) else Panic)"

definition bps_decimal :: "basic_points \<Rightarrow> (decimal, 'e) result" where
  "bps_decimal b = dec_from_ratio b BPS_MAX"

definition bps_div_decimal :: "basic_points \<Rightarrow> basic_points \<Rightarrow> (decimal, 'e) result" where
  "bps_div_decimal a b = (if a = 0 then Ok 0 else dec_from_ratio a b)"

definition bps_is_max :: "basic_points \<Rightarrow> bool" where
  "bps_is_max b \<longleftrightarrow> b = BPS_MAX"

definition bps_mul_uint :: "basic_points \<Rightarrow> u128 \<Rightarrow> (u128, 'e) result" where
  "bps_mul_uint b x = multiply_ratio x b BPS_MAX"

definition bps_mul_decimal :: "basic_points \<Rightarrow> decimal \<Rightarrow> (decimal, 'e) result" where
  "bps_mul_decimal b d =
     and_then (u128_mul d b) (\<lambda>n.
     and_then (u128_mul DEC_ONE BPS_MAX) (\<lambda>m. dec_from_ratio n m))"

lemma bps_try_from_Ok [ok_simps]: "bps_try_from v = Ok b \<longleftrightarrow> b = v \<and> v \<le> BPS_MAX"
  by (auto simp: bps_try_from_def)

lemma bps_checked_add_Ok [ok_simps]:
  "bps_checked_add a b = Ok c \<longleftrightarrow> c = a + b \<and> a + b \<le> BPS_MAX"
  by (auto simp: bps_checked_add_def ok_simps BPS_MAX_def U16_MAX_def)

lemma bps_decimal_le_one: "b \<le> BPS_MAX \<Longrightarrow> bps_decimal b = Ok d \<Longrightarrow> d \<le> DEC_ONE"
  by (simp add: bps_decimal_def ok_simps) (metis mult.commute multiply_ratio_le)

text \<open>
  A vote splits a voting power with basis points that sum to at most the maximum: the parts,
  each rounded down, never exceed the whole.
\<close>

lemma bps_fold_sum:
  "try_fold bps_checked_add a bs = Ok s \<Longrightarrow> a \<le> BPS_MAX \<Longrightarrow> s = a + sum_list bs \<and> s \<le> BPS_MAX"
proof (induction bs arbitrary: a)
  case Nil
  then show ?case by simp
next
  case (Cons b bs)
  then have "a + b \<le> BPS_MAX" and "try_fold bps_checked_add (a + b) bs = Ok s"
    by (auto simp: ok_simps)
  from Cons.IH [OF this(2,1)] show ?case by simp
qed

lemma div_plus_div_le: "a div d + b div d \<le> (a + b) div d" for a b d :: nat
  by (metis div_add1_eq le_add1)

lemma sum_div_le: "sum_list (map (\<lambda>b. x * b div d) bs) \<le> x * sum_list bs div d" for x d :: nat
proof (induction bs)
  case Nil
  then show ?case by simp
next
  case (Cons b bs)
  have "x * b div d + x * sum_list bs div d \<le> (x * b + x * sum_list bs) div d"
    by (rule div_plus_div_le)
  also have "x * b + x * sum_list bs = x * sum_list (b # bs)" by (simp add: distrib_left)
  finally show ?case using Cons by simp
qed

lemma bps_split_le:
  assumes "try_fold bps_checked_add 0 bs = Ok s"
    and "list_all2 (\<lambda>b y. bps_mul_uint b x = Ok y) bs ys"
  shows "sum_list ys \<le> x"
proof -
  have "ys = map (\<lambda>b. x * b div BPS_MAX) bs"
    using assms(2) by (induction rule: list_all2_induct) (auto simp: bps_mul_uint_def ok_simps)
  moreover have "sum_list bs \<le> BPS_MAX" using bps_fold_sum [OF assms(1)] by simp
  then have "x * sum_list bs div BPS_MAX \<le> x" by (rule multiply_ratio_le)
  ultimately show ?thesis using sum_div_le [of x BPS_MAX bs] by simp
qed

section \<open>Decaying voting power\<close>

text \<open>
  Voting power decays linearly with the period and stops at zero. The escrow computes it from a
  checkpoint, the gauges from a stored vote; both rely on the same contract, stated here as an
  interface: the power of a point never grows, starts at the point's power, and decays by at
  most the slope in every period.
\<close>

locale decaying_power =
  fixes power_at :: "'p \<Rightarrow> u64 \<Rightarrow> u128"
    and start :: "'p \<Rightarrow> u64"
    and initial :: "'p \<Rightarrow> u128"
    and slope :: "'p \<Rightarrow> u128"
    and ok :: "'p \<Rightarrow> u64 \<Rightarrow> bool"
  assumes power_start: "power_at p (start p) = initial p"
    and power_linear: "ok p t \<Longrightarrow> start p \<le> t \<Longrightarrow> power_at p t = initial p - slope p * (t - start p)"
    and ok_mono: "ok p t' \<Longrightarrow> t \<le> t' \<Longrightarrow> ok p t"
begin

lemma power_le_initial: "ok p t \<Longrightarrow> start p \<le> t \<Longrightarrow> power_at p t \<le> initial p"
  by (simp add: power_linear)

lemma power_antimono:
  assumes "ok p t'" and "start p \<le> t" and "t \<le> t'"
  shows "power_at p t' \<le> power_at p t"
proof -
  have "slope p * (t - start p) \<le> slope p * (t' - start p)"
    using assms(3) by (intro mult_le_mono2 diff_le_mono)
  then show ?thesis
    using assms ok_mono [OF assms(1,3)]
    by (simp only: power_linear order.trans [OF assms(2,3)] diff_le_mono2)
qed

lemma power_spent:
  assumes "ok p t" and "start p \<le> t" and "initial p \<le> slope p * (t - start p)"
  shows "power_at p t = 0"
  using assms by (simp add: power_linear)

end

definition power_value :: "u128 \<Rightarrow> u128 \<Rightarrow> u64 \<Rightarrow> u64 \<Rightarrow> u128" where
  "power_value slope vp s t =
     (case (calc_voting_power slope vp s t :: (u128, std_error) result) of Ok v \<Rightarrow> v | _ \<Rightarrow> 0)"

text \<open>A vote is kept as slope, power and period; this is the view the gauges have.\<close>

interpretation gov: decaying_power
  "\<lambda>p t. power_value (fst p) (fst (snd p)) (snd (snd p)) t" "\<lambda>p. snd (snd p)" "\<lambda>p. fst (snd p)"
  fst "\<lambda>p t. fst p * (t - snd (snd p)) \<le> U128_MAX"
proof
  fix p :: "u128 \<times> u128 \<times> u64" and t t' :: u64
  show "power_value (fst p) (fst (snd p)) (snd (snd p)) (snd (snd p)) = fst (snd p)"
    by (simp add: power_value_def calc_voting_power_def num_defs)
  show "fst p * (t - snd (snd p)) \<le> U128_MAX \<Longrightarrow> snd (snd p) \<le> t \<Longrightarrow>
      power_value (fst p) (fst (snd p)) (snd (snd p)) t = fst (snd p) - fst p * (t - snd (snd p))"
    by (simp add: power_value_def calc_voting_power_def num_defs)
  assume "fst p * (t' - snd (snd p)) \<le> U128_MAX" "t \<le> t'"
  then show "fst p * (t - snd (snd p)) \<le> U128_MAX"
    by (meson diff_le_mono le_trans mult_le_mono2)
qed

end
