(* ===== verification/HubState.thy ===== *)
theory HubState
  imports ErisLib
begin

text \<open>
  The data of the staking hub (\<open>contracts/hub\<close>): the messages and records of
  \<open>packages/eris/src/hub.rs\<close>, the staking messages and coin lists of
  \<open>contracts/hub/src/types\<close>, the storage of \<open>state.rs\<close> (every \<open>Item\<close> an
  optional field, every map a sorted store) and the errors of \<open>error.rs\<close>. The chain the hub
  queries is the record \<open>hub_deps\<close>, a parameter of every handler.
\<close>

section \<open>Errors\<close>

datatype hub_error =
    Std std_error
  | OverflowError
  | Unauthorized
  | UnauthorizedSenderNotNewOwner
  | UnauthorizedSenderNotVoteOperator
  | ExpectingStakeToken string
  | ProtocolRewardFeeTooHigh
  | CantBeZero string
  | SubmitBatchAfter u64
  | CallbackOnlyCalledByContract
  | InvalidReplyId u64
  | DonationsDisabled
  | NoTokensAvailable string
  | ValidatorAlreadyWhitelisted string
  | ValidatorNotWhitelisted string
  | CannotFindInstantiateEvent
  | CannotFindContractAddress
  | NoVoteOperatorSet
  | ComputeUndelegationsWrong u128
  | MigrationError

text \<open>The conversion the operator \<open>?\<close> inserts for an error of the standard library.\<close>

abbreviation std :: "('a, std_error) result \<Rightarrow> ('a, hub_error) result" where
  "std \<equiv> map_err Std"

section \<open>Constants\<close>

definition CONTRACT_DENOM :: string where "CONTRACT_DENOM = ''uluna''"
definition CONTRACT_NAME :: string where "CONTRACT_NAME = ''nicoteen-staking-hub''"

text \<open>10% as a decimal.\<close>

definition get_reward_fee_cap :: "(decimal, hub_error) result" where
  "get_reward_fee_cap = dec_from_ratio 10 100"

lemma get_reward_fee_cap_value [simp]: "get_reward_fee_cap = Ok (DEC_ONE div 10)"
  by (simp add: get_reward_fee_cap_def num_defs DEC_ONE_def U128_MAX_def)

section \<open>Records of packages/eris/src/hub.rs\<close>

datatype delegation_strategy =
    Uniform
  | Gauges (amp_gauges: addr) (emp_gauges: "addr option") (amp_factor_bps: u16)
      (min_delegation_bps: u16) (max_delegation_bps: u16) (validator_count: nat)

fun validate_strategy ::
    "(string \<Rightarrow> (addr, std_error) result) \<Rightarrow> delegation_strategy \<Rightarrow>
     (delegation_strategy, std_error) result" where
  "validate_strategy validate Uniform = Ok Uniform"
| "validate_strategy validate (Gauges amp emp af mn mx vc) =
     and_then (validate amp) (\<lambda>amp'.
     and_then (addr_opt_validate validate emp) (\<lambda>emp'.
     Ok (Gauges amp' emp' af mn mx vc)))"

record pending_batch =
  pb_id :: u64
  pb_ustake_to_burn :: u128
  pb_est_unbond_start_time :: u64

record fee_config =
  fc_protocol_fee_contract :: addr
  fc_protocol_reward_fee :: decimal

record batch =
  b_id :: u64
  b_reconciled :: bool
  b_total_shares :: u128
  b_uluna_unclaimed :: u128
  b_est_unbond_end_time :: u64

record unbond_request =
  ur_id :: u64
  ur_user :: addr
  ur_shares :: u128

record wanted_delegations_share =
  wd_tune_time :: u64
  wd_tune_period :: u64
  wd_shares :: "(string \<times> decimal) list"

record hub_instantiate_msg =
  im_cw20_code_id :: u64
  im_owner :: string
  im_name :: string
  im_symbol :: string
  im_decimals :: nat
  im_epoch_period :: u64
  im_unbond_period :: u64
  im_validators :: "string list"
  im_protocol_fee_contract :: string
  im_protocol_reward_fee :: decimal
  im_delegation_strategy :: "delegation_strategy option"
  im_vote_operator :: "string option"

datatype hub_receive_msg = QueueUnbond "string option"

datatype hub_callback_msg =
    Reinvest
  | CheckReceivedCoin coin

record hub_update_config_msg =
  uc_protocol_fee_contract :: "string option"
  uc_protocol_reward_fee :: "decimal option"
  uc_delegation_strategy :: "delegation_strategy option"
  uc_allow_donations :: "bool option"
  uc_vote_operator :: "string option"
  uc_epoch_period :: "u64 option"
  uc_unbond_period :: "u64 option"

datatype hub_execute_msg =
    Receive "hub_receive_msg decoded cw20_receive_msg"
  | Bond "string option"
  | Donate
  | WithdrawUnbonded "string option"
  | AddValidator string
  | RemoveValidator string
  | TransferOwnership string
  | DropOwnershipProposal
  | AcceptOwnership
  | Harvest
  | TuneDelegations
  | Rebalance "u128 option"
  | Reconcile
  | SubmitBatch
  | Vote u64 vote_option
  | VoteWeighted u64 "(decimal \<times> vote_option) list"
  | Callback hub_callback_msg
  | UpdateConfig hub_update_config_msg

text \<open>The payloads the hub sends: to its token, to itself, and the instantiation of the token.\<close>

datatype hub_payload =
    ToCw20 cw20_msg
  | ToHub hub_execute_msg
  | InstantiateCw20 string string nat addr

type_synonym hub_msg = "hub_payload cosmos_msg"
type_synonym hub_response = "hub_payload response"

definition callback_into_cosmos_msg :: "hub_callback_msg \<Rightarrow> addr \<Rightarrow> hub_msg" where
  "callback_into_cosmos_msg cb contract_addr = WasmExecute contract_addr (ToHub (Callback cb)) []"

section \<open>Staking messages (types/staking.rs)\<close>

record delegation =
  d_validator :: string
  d_amount :: u128

definition mk_delegation :: "string \<Rightarrow> u128 \<Rightarrow> delegation" where
  "mk_delegation v a = \<lparr>d_validator = v, d_amount = a\<rparr>"

definition delegation_to_cosmos_msg :: "delegation \<Rightarrow> hub_msg" where
  "delegation_to_cosmos_msg d = StakingDelegate (d_validator d) (mk_coin (d_amount d) CONTRACT_DENOM)"

record send_fee =
  sf_to_address :: string
  sf_amount :: u128

definition mk_send_fee :: "addr \<Rightarrow> u128 \<Rightarrow> send_fee" where
  "mk_send_fee a n = \<lparr>sf_to_address = a, sf_amount = n\<rparr>"

definition send_fee_to_cosmos_msg :: "send_fee \<Rightarrow> hub_msg" where
  "send_fee_to_cosmos_msg f = BankSend (sf_to_address f) [mk_coin (sf_amount f) CONTRACT_DENOM]"

record undelegation =
  u_validator :: string
  u_amount :: u128

definition mk_undelegation :: "string \<Rightarrow> u128 \<Rightarrow> undelegation" where
  "mk_undelegation v a = \<lparr>u_validator = v, u_amount = a\<rparr>"

definition undelegation_to_cosmos_msg :: "undelegation \<Rightarrow> hub_msg" where
  "undelegation_to_cosmos_msg u = StakingUndelegate (u_validator u) (mk_coin (u_amount u) CONTRACT_DENOM)"

record redelegation =
  r_src :: string
  r_dst :: string
  r_amount :: u128

definition mk_redelegation :: "string \<Rightarrow> string \<Rightarrow> u128 \<Rightarrow> redelegation" where
  "mk_redelegation s d a = \<lparr>r_src = s, r_dst = d, r_amount = a\<rparr>"

definition redelegation_to_cosmos_msg :: "redelegation \<Rightarrow> hub_msg" where
  "redelegation_to_cosmos_msg r =
     StakingRedelegate (r_src r) (r_dst r) (mk_coin (r_amount r) CONTRACT_DENOM)"

lemma staking_sel [simp]:
  "d_validator (mk_delegation v a) = v" "d_amount (mk_delegation v a) = a"
  "sf_to_address (mk_send_fee t a) = t" "sf_amount (mk_send_fee t a) = a"
  "u_validator (mk_undelegation v a) = v" "u_amount (mk_undelegation v a) = a"
  "r_src (mk_redelegation s d a) = s" "r_dst (mk_redelegation s d a) = d"
  "r_amount (mk_redelegation s d a) = a"
  by (simp_all add: mk_delegation_def mk_send_fee_def mk_undelegation_def mk_redelegation_def)

section \<open>Coin lists (types/coins.rs)\<close>

fun coins_add :: "coin list \<Rightarrow> coin \<Rightarrow> (coin list, std_error) result" where
  "coins_add [] c = Ok [c]"
| "coins_add (x # xs) c =
     (if c_denom x = c_denom c
      then and_then (checked_add (c_amount x) (c_amount c)) (\<lambda>a. Ok (x\<lparr>c_amount := a\<rparr> # xs))
      else and_then (coins_add xs c) (\<lambda>ys. Ok (x # ys)))"

definition coins_add_many :: "coin list \<Rightarrow> coin list \<Rightarrow> (coin list, std_error) result" where
  "coins_add_many xs cs = try_fold coins_add xs cs"

definition coins_find :: "coin list \<Rightarrow> string \<Rightarrow> coin" where
  "coins_find xs denom =
     (case find (\<lambda>c. c_denom c = denom) xs of Some c \<Rightarrow> c | None \<Rightarrow> mk_coin 0 denom)"

text \<open>A denomination occurs at most once, and the recorded amount of a denomination adds up.\<close>

definition coins_distinct :: "coin list \<Rightarrow> bool" where
  "coins_distinct xs \<longleftrightarrow> distinct (map c_denom xs)"

lemma coins_add_denoms: "coins_add xs c = Ok ys \<Longrightarrow> set (map c_denom ys) = insert (c_denom c) (set (map c_denom xs))"
  by (induction xs arbitrary: ys) (auto simp: ok_simps simp del: set_map split: if_splits)

lemma coins_add_distinct: "coins_add xs c = Ok ys \<Longrightarrow> coins_distinct xs \<Longrightarrow> coins_distinct ys"
proof (induction xs arbitrary: ys)
  case Nil
  then show ?case by (auto simp: coins_distinct_def)
next
  case (Cons x xs)
  show ?case
  proof (cases "c_denom x = c_denom c")
    case True
    with Cons.prems show ?thesis by (auto simp: ok_simps coins_distinct_def)
  next
    case False
    with Cons.prems obtain zs where zs: "coins_add xs c = Ok zs" "ys = x # zs"
      by (auto simp: ok_simps)
    then show ?thesis
      using Cons.IH [OF zs(1)] Cons.prems(2) coins_add_denoms [OF zs(1)] False
      by (auto simp: coins_distinct_def)
  qed
qed

lemma coins_find_add:
  "coins_add xs c = Ok ys \<Longrightarrow>
    c_amount (coins_find ys denom) =
      c_amount (coins_find xs denom) + (if denom = c_denom c then c_amount c else 0)"
proof (induction xs arbitrary: ys)
  case Nil
  then show ?case by (auto simp: coins_find_def)
next
  case (Cons x xs)
  then show ?case by (fastforce simp: ok_simps coins_find_def split: if_splits)
qed

section \<open>Storage (state.rs)\<close>

record hub_state =
  hub_owner :: "addr option"
  hub_new_owner :: "addr option"
  hub_stake_token :: "addr option"
  hub_epoch_period :: "u64 option"
  hub_unbond_period :: "u64 option"
  hub_validators :: "string list option"
  hub_unlocked_coins :: "coin list option"
  hub_pending_batch :: "pending_batch option"
  hub_previous_batches :: "(u64, batch) store"
  hub_unbond_requests :: "(u64 \<times> addr, unbond_request) store"
  hub_fee_config :: "fee_config option"
  hub_delegation_strategy :: "delegation_strategy option"
  hub_delegation_goal :: "wanted_delegations_share option"
  hub_vote_operator :: "addr option"
  hub_allow_donations :: "bool option"
  hub_contract_info :: "(string \<times> string) option"

definition empty_hub_state :: hub_state where
  "empty_hub_state = \<lparr>hub_owner = None, hub_new_owner = None, hub_stake_token = None,
     hub_epoch_period = None, hub_unbond_period = None, hub_validators = None,
     hub_unlocked_coins = None, hub_pending_batch = None, hub_previous_batches = [],
     hub_unbond_requests = [], hub_fee_config = None, hub_delegation_strategy = None,
     hub_delegation_goal = None, hub_vote_operator = None, hub_allow_donations = None,
     hub_contract_info = None\<rparr>"

text \<open>\<open>cw2::set_contract_version\<close>.\<close>

definition set_contract_version :: "hub_state \<Rightarrow> string \<Rightarrow> string \<Rightarrow> hub_state" where
  "set_contract_version st name version = st\<lparr>hub_contract_info := Some (name, version)\<rparr>"

definition assert_owner :: "hub_state \<Rightarrow> addr \<Rightarrow> (unit, hub_error) result" where
  "assert_owner st sender =
     and_then (std (load_item (hub_owner st))) (\<lambda>owner.
       if sender = owner then Ok () else Err Unauthorized)"

definition assert_vote_operator :: "hub_state \<Rightarrow> addr \<Rightarrow> (unit, hub_error) result" where
  "assert_vote_operator st sender =
     and_then (map_err (\<lambda>_. NoVoteOperatorSet) (load_item (hub_vote_operator st))) (\<lambda>op.
       if sender = op then Ok () else Err UnauthorizedSenderNotVoteOperator)"

lemma assert_owner_Ok [ok_simps]: "assert_owner st sender = Ok u \<longleftrightarrow> hub_owner st = Some sender"
  by (auto simp: assert_owner_def ok_simps split: if_splits)

lemma assert_vote_operator_Ok [ok_simps]:
  "assert_vote_operator st sender = Ok u \<longleftrightarrow> hub_vote_operator st = Some sender"
  by (auto simp: assert_vote_operator_def ok_simps split: if_splits)

text \<open>The index \<open>reconciled\<close>: the unreconciled batches in ascending order of their id; and the
  index \<open>user\<close>: the requests of a user in ascending order of the batch.\<close>

definition unreconciled_batches :: "hub_state \<Rightarrow> batch list" where
  "unreconciled_batches st = filter (\<lambda>b. \<not> b_reconciled b) (map snd (entries (hub_previous_batches st)))"

definition requests_of_user :: "hub_state \<Rightarrow> addr \<Rightarrow> ((u64 \<times> addr) \<times> unbond_request) list" where
  "requests_of_user st user = filter (\<lambda>p. ur_user (snd p) = user) (entries (hub_unbond_requests st))"

section \<open>What the hub asks the chain\<close>

text \<open>
  \<open>deps.api\<close> and \<open>deps.querier\<close>: address validation, the staking and bank modules,
  the supply of a CW20 token, and the two gauge contracts (their last tuning and their validators
  at a period). \<open>dep_show_decimal\<close> is the \<open>Display\<close> of a decimal and
  \<open>dep_version\<close> the package version baked in by cargo.
\<close>

record gauge_validator_info =
  gv_voting_power :: u128
  gv_fixed_amount :: u128
  gv_slope :: u128

record amp_gauge_info =
  ag_tune_ts :: u64
  ag_vamp_points :: "(string \<times> u128) list"

record emp_gauge_info =
  eg_tune_ts :: u64
  eg_tune_period :: u64
  eg_emp_points :: "(string \<times> u128) list"

record hub_deps =
  dep_addr_validate :: "string \<Rightarrow> (addr, std_error) result"
  dep_all_delegations :: "addr \<Rightarrow> ((string \<times> coin) list, std_error) result"
  dep_delegation :: "addr \<Rightarrow> string \<Rightarrow> (coin option, std_error) result"
  dep_balance :: "addr \<Rightarrow> string \<Rightarrow> (u128, std_error) result"
  dep_total_supply :: "addr \<Rightarrow> (u128, std_error) result"
  dep_validator :: "string \<Rightarrow> (unit, std_error) result"
  dep_amp_tune_info :: "addr \<Rightarrow> (amp_gauge_info, std_error) result"
  dep_emp_tune_info :: "addr \<Rightarrow> (emp_gauge_info, std_error) result"
  dep_amp_validator_infos :: "addr \<Rightarrow> u64 \<Rightarrow> ((string \<times> gauge_validator_info) list, std_error) result"
  dep_emp_validator_infos :: "addr \<Rightarrow> u64 \<Rightarrow> ((string \<times> gauge_validator_info) list, std_error) result"
  dep_show_decimal :: "decimal \<Rightarrow> string"
  dep_version :: string

end
