(* ===== verification/HubMath.thy ===== *)
theory HubMath
  imports HubState
begin

text \<open>
  \<open>contracts/hub/src/math.rs\<close>: how much token a deposit mints and a burn unbonds, which
  undelegations and redelegations bring the delegations to their targets, and how a shortfall is
  deducted from the unbonding batches.
\<close>

section \<open>Minting and unbonding\<close>

definition sum_delegations :: "delegation list \<Rightarrow> (u128, 'e) result" where
  "sum_delegations ds = u128_sum (map d_amount ds)"

definition compute_mint_amount :: "u128 \<Rightarrow> u128 \<Rightarrow> delegation list \<Rightarrow> (u128, 'e) result" where
  "compute_mint_amount ustake_supply uluna_to_bond ds =
     and_then (sum_delegations ds) (\<lambda>uluna_bonded.
       if uluna_bonded = 0 then Ok uluna_to_bond
       else multiply_ratio ustake_supply uluna_to_bond uluna_bonded)"

definition compute_unbond_amount :: "u128 \<Rightarrow> u128 \<Rightarrow> delegation list \<Rightarrow> (u128, 'e) result" where
  "compute_unbond_amount ustake_supply ustake_to_burn ds =
     and_then (sum_delegations ds) (\<lambda>uluna_bonded.
       multiply_ratio uluna_bonded ustake_to_burn ustake_supply)"

section \<open>Target delegations\<close>

type_synonym utoken_per_validator = "(string, u128) store"

text \<open>
  The distribution of \<open>goal\<close>, or of the stored goal, if it has shares; the uniform
  distribution over \<open>validators\<close> otherwise. The two options are what must be added to, or
  removed from, one validator so that the targets sum to the staked amount.
\<close>

definition uluna_by_shares :: "(string \<times> decimal) list \<Rightarrow> u128 \<Rightarrow> (utoken_per_validator, std_error) result" where
  "uluna_by_shares shares staked =
     and_then (traverse (\<lambda>d. and_then (checked_mul_uint (snd d) staked) (\<lambda>a. Ok (fst d, a))) shares)
       (\<lambda>ps. Ok (store_of_list ps []))"

definition uluna_uniform :: "string list \<Rightarrow> u128 \<Rightarrow> (utoken_per_validator, std_error) result" where
  "uluna_uniform validators staked =
     and_then (u128_div staked (length validators)) (\<lambda>per.
       Ok (store_of_list (map (\<lambda>v. (v, per)) validators) []))"

definition get_uluna_per_validator ::
    "hub_state \<Rightarrow> u128 \<Rightarrow> string list \<Rightarrow> wanted_delegations_share option \<Rightarrow>
     (utoken_per_validator \<times> u128 option \<times> u128 option \<times> wanted_delegations_share option, std_error) result" where
  "get_uluna_per_validator st uluna_staked validators goal =
     (let delegation_goal = (if goal \<noteq> None then goal else hub_delegation_goal st) in
      and_then
        (case delegation_goal of
           Some g \<Rightarrow>
             if wd_shares g \<noteq> [] then uluna_by_shares (wd_shares g) uluna_staked
             else uluna_uniform validators uluna_staked
         | None \<Rightarrow> uluna_uniform validators uluna_staked)
        (\<lambda>upv.
      and_then (u128_sum (map snd (entries upv))) (\<lambda>total.
        Ok (upv,
            (if total < uluna_staked then Some (uluna_staked - total) else None),
            (if total > uluna_staked then Some (total - uluna_staked) else None),
            delegation_goal))))"

text \<open>All validators of the whitelist that have no delegation yet are appended with amount zero.\<close>

definition merge_with_validators :: "delegation list \<Rightarrow> string list \<Rightarrow> delegation list" where
  "merge_with_validators ds validators =
     ds @ map (\<lambda>v. mk_delegation v 0) (filter (\<lambda>v. v \<notin> d_validator ` set ds) validators)"

text \<open>The target of one validator; the additional amount is used up by the first validator asked, the
  removed amount by the first whose target covers it.\<close>

definition get_uluna_for_validator ::
    "utoken_per_validator \<Rightarrow> delegation \<Rightarrow> u128 option \<Rightarrow> u128 option \<Rightarrow>
     (u128 \<times> u128 option \<times> u128 option, 'e) result" where
  "get_uluna_for_validator upv d add remove =
     (let t0 = unwrap_or (get upv (d_validator d)) 0 in
      and_then (case add of Some a \<Rightarrow> u128_add t0 a | None \<Rightarrow> Ok t0) (\<lambda>t1.
      case remove of
        Some r \<Rightarrow> if t1 \<ge> r then Ok (t1 - r, None, None) else Ok (t1, None, Some r)
      | None \<Rightarrow> Ok (t1, None, None)))"

section \<open>Undelegations\<close>

fun undelegate_loop ::
    "utoken_per_validator \<Rightarrow> u128 option \<Rightarrow> u128 option \<Rightarrow> u128 \<Rightarrow> delegation list \<Rightarrow>
     (undelegation list \<times> u128, 'e) result" where
  "undelegate_loop upv add remove available [] = Ok ([], available)"
| "undelegate_loop upv add remove available (d # ds) =
     and_then (get_uluna_for_validator upv d add remove) (\<lambda>(uluna_for_validator, add', remove').
       let wanted = (if d_amount d < uluna_for_validator then 0 else d_amount d - uluna_for_validator) in
       if wanted > 0 then
         (let u = min wanted available; available' = available - u;
              out = (if u > 0 then [mk_undelegation (d_validator d) u] else []) in
          if available' = 0 then Ok (out, available')
          else and_then (undelegate_loop upv add' remove' available' ds) (\<lambda>(us, rest). Ok (out @ us, rest)))
       else undelegate_loop upv add' remove' available ds)"

definition compute_undelegations ::
    "hub_state \<Rightarrow> u128 \<Rightarrow> delegation list \<Rightarrow> string list \<Rightarrow> (undelegation list, hub_error) result" where
  "compute_undelegations st uluna_to_unbond ds validators =
     and_then (sum_delegations ds) (\<lambda>uluna_staked.
     and_then (u128_sub uluna_staked uluna_to_unbond) (\<lambda>uluna_to_distribute.
     and_then (std (get_uluna_per_validator st uluna_to_distribute validators None))
       (\<lambda>(upv, add, remove, _).
     and_then (undelegate_loop upv add remove uluna_to_unbond (merge_with_validators ds validators))
       (\<lambda>(us, available).
       if available > 0 then Err (ComputeUndelegationsWrong available) else Ok us))))"

section \<open>Redelegations when a validator is removed\<close>

fun removal_loop ::
    "utoken_per_validator \<Rightarrow> string \<Rightarrow> u128 option \<Rightarrow> u128 option \<Rightarrow> u128 \<Rightarrow> delegation list \<Rightarrow>
     (redelegation list, 'e) result" where
  "removal_loop upv src add remove available [] = Ok []"
| "removal_loop upv src add remove available (d # ds) =
     and_then (get_uluna_for_validator upv d add remove) (\<lambda>(uluna_for_validator, add', remove').
       let wanted = (if d_amount d > uluna_for_validator then 0 else uluna_for_validator - d_amount d);
           u = min wanted available; available' = available - u;
           out = (if u > 0 then [mk_redelegation src (d_validator d) u] else []) in
       if available' = 0 then Ok out
       else and_then (removal_loop upv src add' remove' available' ds) (\<lambda>rs. Ok (out @ rs)))"

definition compute_redelegations_for_removal ::
    "hub_state \<Rightarrow> delegation \<Rightarrow> delegation list \<Rightarrow> string list \<Rightarrow> (redelegation list, std_error) result" where
  "compute_redelegations_for_removal st delegation_to_remove ds validators =
     and_then (sum_delegations ds) (\<lambda>uluna_staked.
     and_then (u128_add uluna_staked (d_amount delegation_to_remove)) (\<lambda>uluna_to_distribute.
     and_then (get_uluna_per_validator st uluna_to_distribute validators None) (\<lambda>(upv, add, remove, _).
       removal_loop upv (d_validator delegation_to_remove) add remove (d_amount delegation_to_remove)
         (merge_with_validators ds validators))))"

section \<open>Redelegations of a rebalance\<close>

text \<open>Splits the delegations into those above their target (the sources) and those below (the
  destinations), each with the difference.\<close>

fun split_by_target ::
    "utoken_per_validator \<Rightarrow> u128 option \<Rightarrow> u128 option \<Rightarrow> delegation list \<Rightarrow>
     (delegation list \<times> delegation list, 'e) result" where
  "split_by_target upv add remove [] = Ok ([], [])"
| "split_by_target upv add remove (d # ds) =
     and_then (get_uluna_for_validator upv d add remove) (\<lambda>(uluna_for_validator, add', remove').
     and_then (split_by_target upv add' remove' ds) (\<lambda>(srcs, dsts).
       if d_amount d > uluna_for_validator
       then Ok (mk_delegation (d_validator d) (d_amount d - uluna_for_validator) # srcs, dsts)
       else if d_amount d < uluna_for_validator
       then Ok (srcs, mk_delegation (d_validator d) (uluna_for_validator - d_amount d) # dsts)
       else Ok (srcs, dsts)))"

text \<open>The matching loop: every round moves the smaller of the two first amounts and removes at least
  one of the two, so the number of entries decreases.\<close>

function match_loop :: "delegation list \<Rightarrow> delegation list \<Rightarrow> redelegation list" where
  "match_loop [] dsts = []"
| "match_loop (s # srcs) [] = []"
| "match_loop (s # srcs) (d # dsts) =
     (let u = min (d_amount s) (d_amount d);
          srcs' = (if d_amount s = u then srcs else s\<lparr>d_amount := d_amount s - u\<rparr> # srcs);
          dsts' = (if d_amount d = u then dsts else d\<lparr>d_amount := d_amount d - u\<rparr> # dsts)
      in mk_redelegation (d_validator s) (d_validator d) u # match_loop srcs' dsts')"
  by pat_completeness auto
termination
  by (relation "measure (\<lambda>(srcs, dsts). length srcs + length dsts)") (auto simp: Let_def min_def)

definition compute_redelegations_for_rebalancing ::
    "hub_state \<Rightarrow> delegation list \<Rightarrow> string list \<Rightarrow> (redelegation list, std_error) result" where
  "compute_redelegations_for_rebalancing st ds validators =
     and_then (sum_delegations ds) (\<lambda>uluna_staked.
     and_then (get_uluna_per_validator st uluna_staked validators None) (\<lambda>(upv, add, remove, _).
     and_then (split_by_target upv add remove (merge_with_validators ds validators)) (\<lambda>(srcs, dsts).
       Ok (match_loop srcs dsts))))"

section \<open>Batches\<close>

text \<open>
  \<open>reconcile_batches\<close> works in three passes. The first deducts an equal part from every
  batch and remembers by how much a batch fell short (the underflows), the second deducts the
  underflows from the batches that still hold something, and the third takes what is still missing
  from the oldest batches first. (No sum below can exceed the amount to deduct, a
  \<open>Uint128\<close>.)
\<close>

definition part_of :: "u128 \<Rightarrow> u128 \<Rightarrow> nat \<Rightarrow> u128" where
  "part_of per remainder i = per + (if Suc i \<le> remainder then 1 else 0)"

fun reconcile_first :: "u128 \<Rightarrow> u128 \<Rightarrow> nat \<Rightarrow> nat \<Rightarrow> batch list \<Rightarrow> batch list \<times> u128 list" where
  "reconcile_first per remainder cnt i [] = ([], [])"
| "reconcile_first per remainder cnt i (b # bs) =
     (let part = part_of per remainder i;
          under = (if b_uluna_unclaimed b < part \<and> cnt > 1 then [part - b_uluna_unclaimed b] else []);
          b' = b\<lparr>b_uluna_unclaimed := saturating_sub (b_uluna_unclaimed b) part, b_reconciled := True\<rparr>;
          (bs', unders) = reconcile_first per remainder cnt (Suc i) bs
      in (b' # bs', under @ unders))"

fun reconcile_second :: "u128 \<Rightarrow> u128 \<Rightarrow> nat \<Rightarrow> nat \<Rightarrow> batch list \<Rightarrow> batch list \<times> u128" where
  "reconcile_second per remainder cnt i [] = ([], 0)"
| "reconcile_second per remainder cnt i (b # bs) =
     (let (bs', rest) = reconcile_second per remainder cnt (Suc i) bs in
      if b_uluna_unclaimed b \<noteq> 0 then
        (let part = part_of per remainder i;
             under = (if b_uluna_unclaimed b < part \<and> cnt > 1 then part - b_uluna_unclaimed b else 0)
         in (b\<lparr>b_uluna_unclaimed := saturating_sub (b_uluna_unclaimed b) part\<rparr> # bs', under + rest))
      else (b # bs', rest))"

fun reconcile_third :: "u128 \<Rightarrow> batch list \<Rightarrow> batch list" where
  "reconcile_third remaining [] = []"
| "reconcile_third remaining (b # bs) =
     (if b_uluna_unclaimed b \<noteq> 0 \<and> remaining \<noteq> 0 then
        (if b_uluna_unclaimed b \<ge> remaining
         then b\<lparr>b_uluna_unclaimed := b_uluna_unclaimed b - remaining\<rparr> # reconcile_third 0 bs
         else b\<lparr>b_uluna_unclaimed := 0\<rparr> # reconcile_third (remaining - b_uluna_unclaimed b) bs)
      else b # reconcile_third remaining bs)"

definition reconcile_batches :: "batch list \<Rightarrow> u128 \<Rightarrow> (batch list, 'e) result" where
  "reconcile_batches bs uluna_to_deduct =
     and_then (u128_div uluna_to_deduct (length bs)) (\<lambda>per.
       let (bs1, unders) = reconcile_first per (uluna_to_deduct mod length bs) (length bs) 0 bs in
       if unders = [] then Ok bs1
       else
         (let cnt = length bs - length unders; to_deduct = sum_list unders in
          and_then (u128_div to_deduct cnt) (\<lambda>per2.
            let (bs2, remaining) = reconcile_second per2 (to_deduct mod cnt) cnt 0 bs1 in
            if remaining \<noteq> 0 then Ok (reconcile_third remaining bs2) else Ok bs2)))"

definition mark_reconciled_batches :: "batch list \<Rightarrow> batch list" where
  "mark_reconciled_batches bs = map (\<lambda>b. b\<lparr>b_reconciled := True\<rparr>) bs"

end
