(* ===== verification/HubExec.thy ===== *)
theory HubExec
  imports HubMath
begin

text \<open>
  \<open>contracts/hub/src/helpers.rs\<close> and the gauge loaders of \<open>types/gauges.rs\<close>: what the
  handlers ask the chain, the checks on a deposit and on validators, and the distribution of the delegations the
  gauges vote for.
\<close>

section \<open>Queries to the chain\<close>

definition query_cw20_total_supply :: "hub_deps \<Rightarrow> addr \<Rightarrow> (u128, std_error) result" where
  "query_cw20_total_supply deps token_addr = dep_total_supply deps token_addr"

definition query_delegation :: "hub_deps \<Rightarrow> string \<Rightarrow> addr \<Rightarrow> (delegation, std_error) result" where
  "query_delegation deps validator delegator_addr =
     and_then (dep_delegation deps delegator_addr validator) (\<lambda>fd.
       Ok (mk_delegation validator (case fd of Some c \<Rightarrow> c_amount c | None \<Rightarrow> 0)))"

definition query_delegations :: "hub_deps \<Rightarrow> string list \<Rightarrow> addr \<Rightarrow> (delegation list, std_error) result" where
  "query_delegations deps validators delegator_addr =
     traverse (\<lambda>v. query_delegation deps v delegator_addr) validators"

definition query_all_delegations :: "hub_deps \<Rightarrow> addr \<Rightarrow> (delegation list, std_error) result" where
  "query_all_delegations deps delegator_addr =
     and_then (dep_all_delegations deps delegator_addr) (\<lambda>ds.
       Ok (map (\<lambda>(v, c). mk_delegation v (c_amount c))
            (filter (\<lambda>(v, c). c_denom c = CONTRACT_DENOM \<and> c_amount c \<noteq> 0) ds)))"

section \<open>Checks\<close>

definition parse_received_fund :: "coin list \<Rightarrow> string \<Rightarrow> (u128, std_error) result" where
  "parse_received_fund funds denom =
     (if length funds \<noteq> 1
      then Err (GenericErr (''must deposit exactly one coin; received '' @ nat_str (length funds)))
      else let fund = hd funds in
        if c_denom fund \<noteq> denom
        then Err (GenericErr (''expected '' @ denom @ '' deposit, received '' @ c_denom fund))
        else if c_amount fund = 0 then Err (GenericErr ''deposit amount must be non-zero'')
        else Ok (c_amount fund))"

definition assert_validator_exists :: "hub_deps \<Rightarrow> string \<Rightarrow> (unit, std_error) result" where
  "assert_validator_exists deps validator = and_then (dep_validator deps validator) (\<lambda>_. Ok ())"

definition assert_validators_exists :: "hub_deps \<Rightarrow> string list \<Rightarrow> (unit, std_error) result" where
  "assert_validators_exists deps validators =
     try_fold (\<lambda>_ v. assert_validator_exists deps v) () validators"

definition dedupe :: "string list \<Rightarrow> string list" where
  "dedupe validators = retain_new {} validators"

lemma dedupe_facts [simp]: "distinct (dedupe vs)" "set (dedupe vs) = set vs"
  by (simp_all add: dedupe_def distinct_retain_new set_retain_new)

lemma parse_received_fund_Ok [ok_simps]:
  "parse_received_fund funds denom = Ok a \<longleftrightarrow> a \<noteq> 0 \<and> funds = [mk_coin a denom]"
proof -
  have eq: "c = mk_coin a denom \<longleftrightarrow> a = c_amount c \<and> denom = c_denom c" for c
    by (cases c) (auto simp: mk_coin_def)
  show ?thesis
    by (cases funds) (auto simp: parse_received_fund_def Let_def eq)
qed

section \<open>Gauge loaders\<close>

text \<open>The two implementations of the trait \<open>GaugeLoader\<close>: the last tuning of each gauge, or the
  votes at a given period.\<close>

datatype gauge_loader =
    TuneInfoGaugeLoader
  | PeriodGaugeLoader u64 "string list"

definition gauge_points :: "(string \<times> gauge_validator_info) list \<Rightarrow> ((string \<times> u128) list, std_error) result" where
  "gauge_points infos =
     and_then (traverse (\<lambda>(val, info). and_then (u128_add (gv_fixed_amount info) (gv_voting_power info))
         (\<lambda>p. Ok (val, p))) infos)
       (\<lambda>ps. Ok (sorted_desc snd ps))"

fun get_amp_tune_info :: "hub_deps \<Rightarrow> gauge_loader \<Rightarrow> addr \<Rightarrow> (amp_gauge_info, std_error) result" where
  "get_amp_tune_info deps TuneInfoGaugeLoader amp = dep_amp_tune_info deps amp"
| "get_amp_tune_info deps (PeriodGaugeLoader period validators) amp =
     and_then (dep_amp_validator_infos deps amp period) (\<lambda>infos.
     and_then (get_s_from_period period) (\<lambda>ts.
     and_then (gauge_points (filter (\<lambda>(val, _). val \<in> set validators) infos)) (\<lambda>ps.
     Ok \<lparr>ag_tune_ts = ts, ag_vamp_points = ps\<rparr>)))"

fun get_emp_tune_info :: "hub_deps \<Rightarrow> gauge_loader \<Rightarrow> addr \<Rightarrow> (emp_gauge_info, std_error) result" where
  "get_emp_tune_info deps TuneInfoGaugeLoader emp = dep_emp_tune_info deps emp"
| "get_emp_tune_info deps (PeriodGaugeLoader period validators) emp =
     and_then (dep_emp_validator_infos deps emp period) (\<lambda>infos.
     and_then (get_s_from_period period) (\<lambda>ts.
     and_then (gauge_points infos) (\<lambda>ps.
     Ok \<lparr>eg_tune_ts = ts, eg_tune_period = period, eg_emp_points = ps\<rparr>)))"

record gauge_context =
  gc_sum :: u128
  gc_points :: "(string, u128) store"

definition from_emps :: "hub_deps \<Rightarrow> gauge_loader \<Rightarrow> addr option \<Rightarrow> (gauge_context option, std_error) result" where
  "from_emps deps loader gauges =
     (case gauges of
        None \<Rightarrow> Ok None
      | Some emp \<Rightarrow>
          and_then (get_emp_tune_info deps loader emp) (\<lambda>info.
          and_then (u128_sum (map snd (eg_emp_points info))) (\<lambda>emp_sum.
          if emp_sum = 0 then Err (GenericErr ''EMP not tuned.'')
          else Ok (Some \<lparr>gc_sum = emp_sum, gc_points = store_of_list (eg_emp_points info) []\<rparr>))))"

definition from_amps :: "hub_deps \<Rightarrow> gauge_loader \<Rightarrow> addr \<Rightarrow> (gauge_context, std_error) result" where
  "from_amps deps loader amp =
     and_then (get_amp_tune_info deps loader amp) (\<lambda>info.
     and_then (u128_sum (map snd (ag_vamp_points info))) (\<lambda>vamp_sum.
     if vamp_sum = 0 then Err (GenericErr ''No vAMP. Vote first before tuning.'')
     else Ok \<lparr>gc_sum = vamp_sum, gc_points = store_of_list (ag_vamp_points info) []\<rparr>))"

section \<open>Wanted delegations\<close>

definition context_points :: "gauge_context \<Rightarrow> string \<Rightarrow> u128" where
  "context_points c val = unwrap_or (get (gc_points c) val) 0"

text \<open>The share of one validator: its points over the sum of the points, of both gauges weighted by the amp factor
  when there is an emp gauge; the score is the share cut at the maximal delegation.\<close>

definition validator_score ::
    "gauge_context \<Rightarrow> gauge_context option \<Rightarrow> decimal \<Rightarrow> decimal \<Rightarrow> decimal \<Rightarrow> string \<Rightarrow>
     (string \<times> decimal \<times> decimal, std_error) result" where
  "validator_score vamp_context emp_context vamp_factor emp_factor max_delegation val =
     (let vamp = context_points vamp_context val in
      and_then
        (case emp_context of
           Some emp_ctx \<Rightarrow>
             and_then (dec_from_ratio vamp (gc_sum vamp_context)) (\<lambda>vr.
             and_then (dec_checked_mul vamp_factor vr) (\<lambda>vamp_share.
             and_then (dec_from_ratio (context_points emp_ctx val) (gc_sum emp_ctx)) (\<lambda>er.
             and_then (dec_checked_mul emp_factor er) (\<lambda>emp_share.
             dec_checked_add vamp_share emp_share))))
         | None \<Rightarrow> dec_from_ratio vamp (gc_sum vamp_context))
        (\<lambda>total_share. Ok (val, min total_share max_delegation, total_share)))"

definition normalize_shares :: "(string \<times> decimal \<times> decimal) list \<Rightarrow> ((string \<times> decimal) list, std_error) result" where
  "normalize_shares vs =
     and_then (dec_sum (map (\<lambda>(_, score, _). score) vs)) (\<lambda>total.
       traverse (\<lambda>(val, score, _).
         and_then (map_err (\<lambda>_. GenericErr ''Could not divide by total'') (dec_checked_div score total))
           (\<lambda>normalized. Ok (val, normalized))) vs)"

definition get_wanted_delegations ::
    "hub_state \<Rightarrow> env \<Rightarrow> hub_deps \<Rightarrow> gauge_loader \<Rightarrow> (wanted_delegations_share \<times> bool, std_error) result" where
  "get_wanted_delegations st env deps loader =
     (case unwrap_or (hub_delegation_strategy st) Uniform of
        Uniform \<Rightarrow>
          and_then (load_item (hub_validators st)) (\<lambda>validators.
          and_then (dec_from_ratio 1 (length validators)) (\<lambda>share_per_validator.
          and_then (get_period (env_time env)) (\<lambda>period.
          Ok (\<lparr>wd_tune_time = env_time env, wd_tune_period = period,
               wd_shares = map (\<lambda>val. (val, share_per_validator)) validators\<rparr>, False))))
      | Gauges amp emp factor mn mx cnt \<Rightarrow>
          and_then (and_then (bps_try_from mn) bps_decimal) (\<lambda>min_delegation.
          and_then (and_then (bps_try_from mx) bps_decimal) (\<lambda>max_delegation.
          and_then (and_then (bps_try_from factor) bps_decimal) (\<lambda>vamp_factor.
          and_then (dec_checked_sub DEC_ONE vamp_factor) (\<lambda>emp_factor.
          and_then (from_amps deps loader amp) (\<lambda>vamp_context.
          and_then (from_emps deps loader emp) (\<lambda>emp_context.
          and_then (load_item (hub_validators st)) (\<lambda>validators.
          and_then (traverse (validator_score vamp_context emp_context vamp_factor emp_factor max_delegation) validators)
            (\<lambda>scored.
          and_then (normalize_shares (take cnt (sorted_desc (\<lambda>(_, _, total). total)
              (filter (\<lambda>(_, score, _). score > min_delegation) scored)))) (\<lambda>shares.
          and_then (get_period (env_time env)) (\<lambda>period.
          Ok (\<lparr>wd_tune_time = env_time env, wd_tune_period = period, wd_shares = shares\<rparr>, True))))))))))))"

text \<open>
  The handlers of \<open>contracts/hub/src/execute.rs\<close>. A handler takes the chain, the block and the
  storage, and returns the new storage and the response, an error, or a panic; on an error or a panic nothing is stored.
\<close>

type_synonym hub_result = "(hub_state \<times> hub_response, hub_error) result"

section \<open>Instantiation\<close>

definition hub_instantiate :: "hub_deps \<Rightarrow> env \<Rightarrow> hub_state \<Rightarrow> hub_instantiate_msg \<Rightarrow> hub_result" where
  "hub_instantiate deps env st msg =
     and_then get_reward_fee_cap (\<lambda>cap.
     if im_protocol_reward_fee msg > cap then Err ProtocolRewardFeeTooHigh
     else if im_epoch_period msg = 0 then Err (CantBeZero ''epoch_period'')
     else if im_unbond_period msg = 0 then Err (CantBeZero ''unbond_period'')
     else
       and_then (std (dep_addr_validate deps (im_owner msg))) (\<lambda>owner.
       and_then (std (addr_opt_validate (dep_addr_validate deps) (im_vote_operator msg))) (\<lambda>vote_operator.
       let validators = dedupe (im_validators msg) in
       and_then (std (assert_validators_exists deps validators)) (\<lambda>_.
       and_then (std (dep_addr_validate deps (im_protocol_fee_contract msg))) (\<lambda>fee_contract.
       and_then (u64_add (env_time env) (im_epoch_period msg)) (\<lambda>start_time.
       and_then (std (validate_strategy (dep_addr_validate deps) (unwrap_or (im_delegation_strategy msg) Uniform)))
         (\<lambda>strategy.
       Ok ((set_contract_version st CONTRACT_NAME (dep_version deps))\<lparr>
             hub_owner := Some owner,
             hub_epoch_period := Some (im_epoch_period msg),
             hub_unbond_period := Some (im_unbond_period msg),
             hub_vote_operator := (case vote_operator of Some a \<Rightarrow> Some a | None \<Rightarrow> hub_vote_operator st),
             hub_allow_donations := Some False,
             hub_validators := Some validators,
             hub_unlocked_coins := Some [],
             hub_fee_config := Some \<lparr>fc_protocol_fee_contract = fee_contract,
                                     fc_protocol_reward_fee = im_protocol_reward_fee msg\<rparr>,
             hub_pending_batch := Some \<lparr>pb_id = 1, pb_ustake_to_burn = 0, pb_est_unbond_start_time = start_time\<rparr>,
             hub_delegation_strategy := Some strategy\<rparr>,
           add_submessage new_response
             (ReplyOnSuccess
               (WasmInstantiate (Some (im_owner msg)) (im_cw20_code_id msg)
                 (InstantiateCw20 (im_name msg) (im_symbol msg) (im_decimals msg) (env_contract env))
                 [] ''Eris Liquid Staking Token'')
               1)))))))))"

definition register_stake_token :: "hub_deps \<Rightarrow> hub_state \<Rightarrow> event list \<Rightarrow> hub_result" where
  "register_stake_token deps st events =
     and_then (ok_or CannotFindInstantiateEvent (find (\<lambda>e. ev_type e = ''instantiate'') events)) (\<lambda>ev.
     and_then (ok_or CannotFindContractAddress
         (find (\<lambda>a. fst a = ''_contract_address'' \<or> fst a = ''_contract_addr'') (ev_attrs ev))) (\<lambda>attr.
     and_then (std (dep_addr_validate deps (snd attr))) (\<lambda>contract_addr.
     Ok (st\<lparr>hub_stake_token := Some contract_addr\<rparr>, new_response))))"

section \<open>Bonding and harvesting\<close>

text \<open>The linear search for the smallest delegation; of several smallest ones the first is taken.\<close>

fun smallest_delegation :: "delegation \<Rightarrow> delegation list \<Rightarrow> delegation" where
  "smallest_delegation best [] = best"
| "smallest_delegation best (d # ds) = smallest_delegation (if d_amount d < d_amount best then d else best) ds"

definition find_new_delegation ::
    "hub_state \<Rightarrow> hub_deps \<Rightarrow> env \<Rightarrow> u128 \<Rightarrow> (delegation \<times> delegation list, std_error) result" where
  "find_new_delegation st deps env uluna_to_bond =
     and_then
       (case unwrap_or (hub_delegation_strategy st) Uniform of
          Uniform \<Rightarrow>
            and_then (load_item (hub_validators st)) (\<lambda>validators.
              query_delegations deps validators (env_contract env))
        | Gauges _ _ _ _ _ _ \<Rightarrow>
            and_then (query_all_delegations deps (env_contract env)) (\<lambda>ds.
              if ds = [] then
                and_then (load_item (hub_validators st)) (\<lambda>validators.
                  case validators of [] \<Rightarrow> Panic | v # _ \<Rightarrow> Ok [mk_delegation v 0])
              else Ok ds))
       (\<lambda>ds. case ds of
          [] \<Rightarrow> Panic
        | d # rest \<Rightarrow> Ok (mk_delegation (d_validator (smallest_delegation d rest)) uluna_to_bond, ds))"

definition check_received_coin_msg :: "hub_deps \<Rightarrow> env \<Rightarrow> u128 option \<Rightarrow> (hub_msg, std_error) result" where
  "check_received_coin_msg deps env negative_offset =
     and_then (dep_balance deps (env_contract env) CONTRACT_DENOM) (\<lambda>balance.
     and_then (case negative_offset of Some x \<Rightarrow> checked_sub balance x | None \<Rightarrow> Ok balance) (\<lambda>amount.
     Ok (callback_into_cosmos_msg (CheckReceivedCoin (mk_coin amount CONTRACT_DENOM)) (env_contract env))))"

definition bond :: "hub_deps \<Rightarrow> env \<Rightarrow> hub_state \<Rightarrow> addr \<Rightarrow> u128 \<Rightarrow> bool \<Rightarrow> hub_result" where
  "bond deps env st receiver token_to_bond donate =
     and_then (std (load_item (hub_stake_token st))) (\<lambda>stake_token.
     and_then (std (find_new_delegation st deps env token_to_bond)) (\<lambda>(new_delegation, ds).
     and_then (std (query_cw20_total_supply deps stake_token)) (\<lambda>ustake_supply.
     and_then
       (if donate then
          (if hub_allow_donations st = Some False then Err DonationsDisabled else Ok 0)
        else compute_mint_amount ustake_supply token_to_bond ds) (\<lambda>ustake_to_mint.
     and_then (std (check_received_coin_msg deps env (Some token_to_bond))) (\<lambda>check_msg.
     let event = new_event ''erishub/bonded''
           [(''receiver'', receiver), (''uluna_bonded'', nat_str token_to_bond),
            (''ustake_minted'', nat_str ustake_to_mint)];
         mint_msg = (if donate then None else Some (WasmExecute stake_token (ToCw20 (Cw20Mint receiver ustake_to_mint)) []))
     in Ok (st,
          add_attribute (add_event (add_message (add_optional_message (add_message new_response
            (delegation_to_cosmos_msg new_delegation)) mint_msg) check_msg) event)
            ''action'' ''erishub/bond''))))))"

definition harvest :: "hub_deps \<Rightarrow> env \<Rightarrow> hub_state \<Rightarrow> hub_result" where
  "harvest deps env st =
     and_then (std (query_all_delegations deps (env_contract env))) (\<lambda>ds.
     and_then (std (check_received_coin_msg deps env None)) (\<lambda>check_msg.
     Ok (st,
       add_attribute (add_message (add_message (add_messages new_response
         (map (\<lambda>d. WithdrawDelegatorReward (d_validator d)) ds)) check_msg)
         (callback_into_cosmos_msg Reinvest (env_contract env)))
         ''action'' ''erishub/harvest'')))"

definition reinvest :: "hub_deps \<Rightarrow> env \<Rightarrow> hub_state \<Rightarrow> hub_result" where
  "reinvest deps env st =
     and_then (std (load_item (hub_unlocked_coins st))) (\<lambda>unlocked_coins.
     and_then (std (load_item (hub_fee_config st))) (\<lambda>fees.
     and_then (ok_or (NoTokensAvailable CONTRACT_DENOM) (find (\<lambda>c. c_denom c = CONTRACT_DENOM) unlocked_coins)) (\<lambda>coin.
     and_then (std (checked_mul_uint (fc_protocol_reward_fee fees) (c_amount coin))) (\<lambda>protocol_fee_amount.
     let uluna_to_bond = saturating_sub (c_amount coin) protocol_fee_amount in
     and_then (std (find_new_delegation st deps env uluna_to_bond)) (\<lambda>(new_delegation, _).
     let event = new_event ''erishub/harvested''
           [(''uluna_bonded'', nat_str uluna_to_bond), (''uluna_protocol_fee'', nat_str protocol_fee_amount)];
         msgs = delegation_to_cosmos_msg new_delegation
           # (if protocol_fee_amount \<noteq> 0
              then [send_fee_to_cosmos_msg (mk_send_fee (fc_protocol_fee_contract fees) protocol_fee_amount)] else [])
     in Ok (st\<lparr>hub_unlocked_coins := Some (filter (\<lambda>c. c_denom c \<noteq> CONTRACT_DENOM) unlocked_coins)\<rparr>,
          add_attribute (add_event (add_messages new_response msgs) event) ''action'' ''erishub/reinvest''))))))"

definition callback_received_coin :: "hub_deps \<Rightarrow> env \<Rightarrow> hub_state \<Rightarrow> coin \<Rightarrow> hub_result" where
  "callback_received_coin deps env st snapshot =
     and_then (std (dep_balance deps (env_contract env) (c_denom snapshot))) (\<lambda>current_balance.
     if current_balance > c_amount snapshot then
       and_then (map_err (\<lambda>_. OverflowError) (checked_sub current_balance (c_amount snapshot))) (\<lambda>amount.
       let event = new_event ''erishub/received'' [(''received_coin'', nat_str amount @ c_denom snapshot)] in
       and_then (std (load_item (hub_unlocked_coins st))) (\<lambda>coins.
       and_then (std (coins_add coins (mk_coin amount (c_denom snapshot)))) (\<lambda>coins'.
       Ok (st\<lparr>hub_unlocked_coins := Some coins'\<rparr>,
         add_attribute (add_event new_response event) ''action'' ''erishub/received''))))
     else Ok (st, add_attribute new_response ''action'' ''erishub/received''))"

section \<open>Unbonding\<close>

definition queue_unbond :: "env \<Rightarrow> hub_state \<Rightarrow> addr \<Rightarrow> u128 \<Rightarrow> hub_result" where
  "queue_unbond env st receiver ustake_to_burn =
     and_then (std (load_item (hub_pending_batch st))) (\<lambda>pending.
     and_then (u128_add (pb_ustake_to_burn pending) ustake_to_burn) (\<lambda>to_burn.
     let request = unwrap_or (get (hub_unbond_requests st) (pb_id pending, receiver))
           \<lparr>ur_id = pb_id pending, ur_user = receiver, ur_shares = 0\<rparr> in
     and_then (u128_add (ur_shares request) ustake_to_burn) (\<lambda>shares.
     let immediate = (env_time env \<ge> pb_est_unbond_start_time pending);
         start_time = (if immediate then ''immediate'' else nat_str (pb_est_unbond_start_time pending));
         msgs = (if immediate then [WasmExecute (env_contract env) (ToHub SubmitBatch) []] else []);
         event = new_event ''erishub/unbond_queued''
           [(''est_unbond_start_time'', start_time), (''id'', nat_str (pb_id pending)),
            (''receiver'', receiver), (''ustake_to_burn'', nat_str ustake_to_burn)]
     in Ok (st\<lparr>hub_pending_batch := Some (pending\<lparr>pb_ustake_to_burn := to_burn\<rparr>),
               hub_unbond_requests := put (pb_id pending, receiver) (request\<lparr>ur_shares := shares\<rparr>) (hub_unbond_requests st)\<rparr>,
          add_attribute (add_event (add_messages new_response msgs) event) ''action'' ''erishub/queue_unbond''))))"

definition submit_batch :: "hub_deps \<Rightarrow> env \<Rightarrow> hub_state \<Rightarrow> hub_result" where
  "submit_batch deps env st =
     and_then (std (load_item (hub_stake_token st))) (\<lambda>stake_token.
     and_then (std (load_item (hub_validators st))) (\<lambda>validators.
     and_then (std (load_item (hub_unbond_period st))) (\<lambda>unbond_period.
     and_then (std (load_item (hub_pending_batch st))) (\<lambda>pending.
     if env_time env < pb_est_unbond_start_time pending
     then Err (SubmitBatchAfter (pb_est_unbond_start_time pending))
     else
       and_then (std (query_all_delegations deps (env_contract env))) (\<lambda>ds.
       and_then (std (query_cw20_total_supply deps stake_token)) (\<lambda>ustake_supply.
       and_then (compute_unbond_amount ustake_supply (pb_ustake_to_burn pending) ds) (\<lambda>uluna_to_unbond.
       and_then (compute_undelegations st uluna_to_unbond ds validators) (\<lambda>new_undelegations.
       and_then (u64_add (env_time env) unbond_period) (\<lambda>end_time.
       and_then (std (load_item (hub_epoch_period st))) (\<lambda>epoch_period.
       and_then (u64_add (pb_id pending) 1) (\<lambda>next_id.
       and_then (u64_add (env_time env) epoch_period) (\<lambda>next_start.
       and_then (std (check_received_coin_msg deps env None)) (\<lambda>check_msg.
       let event = new_event ''erishub/unbond_submitted''
             [(''id'', nat_str (pb_id pending)), (''uluna_unbonded'', nat_str uluna_to_unbond),
              (''ustake_burned'', nat_str (pb_ustake_to_burn pending))]
       in Ok (st\<lparr>hub_previous_batches := put (pb_id pending)
                   \<lparr>b_id = pb_id pending, b_reconciled = False, b_total_shares = pb_ustake_to_burn pending,
                    b_uluna_unclaimed = uluna_to_unbond, b_est_unbond_end_time = end_time\<rparr> (hub_previous_batches st),
                 hub_pending_batch := Some \<lparr>pb_id = next_id, pb_ustake_to_burn = 0,
                    pb_est_unbond_start_time = next_start\<rparr>\<rparr>,
            add_attribute (add_event (add_message (add_message (add_messages new_response
              (map undelegation_to_cosmos_msg new_undelegations))
              (WasmExecute stake_token (ToCw20 (Cw20Burn (pb_ustake_to_burn pending))) [])) check_msg) event)
              ''action'' ''erishub/unbond''))))))))))))))"

definition save_batches :: "(u64, batch) store \<Rightarrow> batch list \<Rightarrow> (u64, batch) store" where
  "save_batches s bs = foldl (\<lambda>s b. put (b_id b) b s) s bs"

definition reconciled_response :: "batch list \<Rightarrow> u128 \<Rightarrow> hub_response" where
  "reconciled_response bs deducted =
     add_attribute (add_event new_response (new_event ''erishub/reconciled''
       [(''ids'', join '','' (map (\<lambda>b. nat_str (b_id b)) bs)), (''uluna_deducted'', nat_str deducted)]))
       ''action'' ''erishub/reconcile''"

definition reconcile :: "hub_deps \<Rightarrow> env \<Rightarrow> hub_state \<Rightarrow> hub_result" where
  "reconcile deps env st =
     (let batches = filter (\<lambda>b. env_time env > b_est_unbond_end_time b) (unreconciled_batches st) in
      and_then (u128_sum (map b_uluna_unclaimed batches)) (\<lambda>expected_received.
      if expected_received = 0 then Ok (st, new_response)
      else
        and_then (std (load_item (hub_unlocked_coins st))) (\<lambda>unlocked_coins.
        and_then (u128_add expected_received (c_amount (coins_find unlocked_coins CONTRACT_DENOM))) (\<lambda>expected.
        and_then (std (dep_balance deps (env_contract env) CONTRACT_DENOM)) (\<lambda>actual.
        if actual \<ge> expected then
          Ok (st\<lparr>hub_previous_batches := save_batches (hub_previous_batches st) (mark_reconciled_batches batches)\<rparr>,
              reconciled_response batches 0)
        else
          and_then (u128_sub expected actual) (\<lambda>uluna_to_deduct.
          and_then (reconcile_batches batches uluna_to_deduct) (\<lambda>batches'.
          Ok (st\<lparr>hub_previous_batches := save_batches (hub_previous_batches st) batches'\<rparr>,
              reconciled_response batches' uluna_to_deduct))))))))"

text \<open>One round of the withdrawal: a request whose batch is reconciled and ended is paid out of the batch.\<close>

definition withdraw_step ::
    "u64 \<Rightarrow> addr \<Rightarrow> hub_state \<times> u128 \<times> string list \<Rightarrow> unbond_request \<Rightarrow>
     (hub_state \<times> u128 \<times> string list, hub_error) result" where
  "withdraw_step current_time user acc request =
     (case acc of (st, paid, ids) \<Rightarrow>
      case get (hub_previous_batches st) (ur_id request) of
        None \<Rightarrow> Ok (st, paid, ids)
      | Some batch \<Rightarrow>
          if b_reconciled batch \<and> b_est_unbond_end_time batch < current_time then
            and_then (multiply_ratio (b_uluna_unclaimed batch) (ur_shares request) (b_total_shares batch)) (\<lambda>refund.
            and_then (u128_add paid refund) (\<lambda>paid'.
            and_then (u128_sub (b_total_shares batch) (ur_shares request)) (\<lambda>shares'.
            and_then (u128_sub (b_uluna_unclaimed batch) refund) (\<lambda>unclaimed'.
            Ok (st\<lparr>hub_previous_batches :=
                     (if shares' = 0 then del (ur_id request) (hub_previous_batches st)
                      else put (b_id batch) (batch\<lparr>b_total_shares := shares', b_uluna_unclaimed := unclaimed'\<rparr>)
                        (hub_previous_batches st)),
                   hub_unbond_requests := del (ur_id request, user) (hub_unbond_requests st)\<rparr>,
                paid', ids @ [nat_str (ur_id request)])))))
          else Ok (st, paid, ids))"

definition withdraw_unbonded :: "env \<Rightarrow> hub_state \<Rightarrow> addr \<Rightarrow> addr \<Rightarrow> hub_result" where
  "withdraw_unbonded env st user receiver =
     and_then (try_fold (withdraw_step (env_time env) user) (st, 0, []) (map snd (requests_of_user st user)))
       (\<lambda>(st', paid, ids).
       if paid = 0 then Err (CantBeZero ''withdrawable amount'')
       else
         (let event = new_event ''erishub/unbonded_withdrawn''
                [(''ids'', join '','' ids), (''user'', user), (''receiver'', receiver),
                 (''uluna_refunded'', nat_str paid)]
          in Ok (st', add_attribute (add_event (add_message new_response
               (BankSend receiver [mk_coin paid CONTRACT_DENOM])) event) ''action'' ''erishub/withdraw_unbonded'')))"

end
