(* ===== verification/HubAdmin.thy ===== *)
theory HubAdmin
  imports HubExec
begin

text \<open>
  The ownership and management handlers of \<open>contracts/hub/src/execute.rs\<close>, the votes of \<open>gov.rs\<close>, and
  the entry points of \<open>contract.rs\<close> that dispatch to the handlers.
\<close>

section \<open>Distribution of the delegations\<close>

definition tune_delegations :: "hub_deps \<Rightarrow> env \<Rightarrow> hub_state \<Rightarrow> addr \<Rightarrow> hub_result" where
  "tune_delegations deps env st sender =
     and_then (assert_owner st sender) (\<lambda>_.
     and_then (std (get_wanted_delegations st env deps TuneInfoGaugeLoader)) (\<lambda>(wanted, save).
     let attributes = (if save
           then map (\<lambda>a. (''goal_delegation'', fst a @ ''='' @ dep_show_decimal deps (snd a))) (wd_shares wanted)
           else [])
     in Ok (st\<lparr>hub_delegation_goal := (if save then Some wanted else None)\<rparr>,
          add_attributes (add_attribute new_response ''action'' ''erishub/tune_delegations'') attributes)))"

text \<open>The check message of a handler that redelegates: only when something moves.\<close>

definition check_if_moved :: "hub_deps \<Rightarrow> env \<Rightarrow> redelegation list \<Rightarrow> (hub_msg option, hub_error) result" where
  "check_if_moved deps env rs =
     (if rs \<noteq> [] then and_then (std (check_received_coin_msg deps env None)) (\<lambda>m. Ok (Some m)) else Ok None)"

definition rebalance :: "hub_deps \<Rightarrow> env \<Rightarrow> hub_state \<Rightarrow> addr \<Rightarrow> u128 option \<Rightarrow> hub_result" where
  "rebalance deps env st sender min_redelegation =
     and_then (assert_owner st sender) (\<lambda>_.
     and_then (std (query_all_delegations deps (env_contract env))) (\<lambda>ds.
     and_then (std (load_item (hub_validators st))) (\<lambda>validators.
     and_then (std (compute_redelegations_for_rebalancing st ds validators)) (\<lambda>rs.
     let new_redelegations = filter (\<lambda>r. r_amount r \<ge> unwrap_or min_redelegation 0) rs in
     and_then (u128_sum (map r_amount new_redelegations)) (\<lambda>amount.
     and_then (check_if_moved deps env new_redelegations) (\<lambda>check_msg.
     Ok (st, add_attribute (add_event (add_optional_message (add_messages new_response
         (map redelegation_to_cosmos_msg new_redelegations)) check_msg)
         (new_event ''erishub/rebalanced'' [(''uluna_moved'', nat_str amount)])) ''action'' ''erishub/rebalance'')))))))"

section \<open>Validators\<close>

definition add_validator :: "hub_deps \<Rightarrow> hub_state \<Rightarrow> addr \<Rightarrow> string \<Rightarrow> hub_result" where
  "add_validator deps st sender validator =
     and_then (assert_owner st sender) (\<lambda>_.
     and_then (std (assert_validator_exists deps validator)) (\<lambda>_.
     and_then (std (load_item (hub_validators st))) (\<lambda>validators.
     if validator \<in> set validators then Err (ValidatorAlreadyWhitelisted validator)
     else Ok (st\<lparr>hub_validators := Some (validators @ [validator])\<rparr>,
       add_attribute (add_event new_response (new_event ''erishub/validator_added'' [(''validator'', validator)]))
         ''action'' ''erishub/add_validator''))))"

definition remove_validator :: "hub_deps \<Rightarrow> env \<Rightarrow> hub_state \<Rightarrow> addr \<Rightarrow> string \<Rightarrow> hub_result" where
  "remove_validator deps env st sender validator =
     and_then (assert_owner st sender) (\<lambda>_.
     and_then (std (load_item (hub_validators st))) (\<lambda>old.
     if validator \<notin> set old then Err (ValidatorNotWhitelisted validator)
     else
       let validators = filter (\<lambda>v. v \<noteq> validator) old; st' = st\<lparr>hub_validators := Some validators\<rparr> in
       and_then
         (case unwrap_or (hub_delegation_strategy st) Uniform of
            Uniform \<Rightarrow>
              and_then (std (query_delegations deps validators (env_contract env))) (\<lambda>ds.
              and_then (std (query_delegation deps validator (env_contract env))) (\<lambda>delegation_to_remove.
              std (compute_redelegations_for_removal st' delegation_to_remove ds validators)))
          | Gauges _ _ _ _ _ _ \<Rightarrow> Ok []) (\<lambda>rs.
       and_then (check_if_moved deps env rs) (\<lambda>check_msg.
       Ok (st', add_attribute (add_event (add_optional_message (add_messages new_response
           (map redelegation_to_cosmos_msg rs)) check_msg)
           (new_event ''erishub/validator_removed'' [(''validator'', validator)]))
           ''action'' ''erishub/remove_validator'')))))"

section \<open>Ownership\<close>

definition transfer_ownership :: "hub_deps \<Rightarrow> hub_state \<Rightarrow> addr \<Rightarrow> string \<Rightarrow> hub_result" where
  "transfer_ownership deps st sender new_owner =
     and_then (assert_owner st sender) (\<lambda>_.
     and_then (std (dep_addr_validate deps new_owner)) (\<lambda>a.
     Ok (st\<lparr>hub_new_owner := Some a\<rparr>, add_attribute new_response ''action'' ''erishub/transfer_ownership'')))"

definition drop_ownership_proposal :: "hub_state \<Rightarrow> addr \<Rightarrow> hub_result" where
  "drop_ownership_proposal st sender =
     and_then (assert_owner st sender) (\<lambda>_.
     Ok (st\<lparr>hub_new_owner := None\<rparr>, add_attribute new_response ''action'' ''erishub/drop_ownership_proposal''))"

definition accept_ownership :: "hub_state \<Rightarrow> addr \<Rightarrow> hub_result" where
  "accept_ownership st sender =
     and_then (std (load_item (hub_owner st))) (\<lambda>previous_owner.
     and_then (std (load_item (hub_new_owner st))) (\<lambda>new_owner.
     if sender \<noteq> new_owner then Err UnauthorizedSenderNotNewOwner
     else Ok (st\<lparr>hub_owner := Some sender, hub_new_owner := None\<rparr>,
       add_attribute (add_event new_response (new_event ''erishub/ownership_transferred''
         [(''new_owner'', new_owner), (''previous_owner'', previous_owner)]))
         ''action'' ''erishub/transfer_ownership'')))"

section \<open>Configuration\<close>

text \<open>The five optional parts of an update, in the order of the code.\<close>

definition update_fee_config :: "hub_deps \<Rightarrow> hub_update_config_msg \<Rightarrow> hub_state \<Rightarrow> (hub_state, hub_error) result" where
  "update_fee_config deps msg st =
     (if uc_protocol_fee_contract msg \<noteq> None \<or> uc_protocol_reward_fee msg \<noteq> None then
        and_then (std (load_item (hub_fee_config st))) (\<lambda>fees.
        and_then (case uc_protocol_fee_contract msg of
            Some c \<Rightarrow> and_then (std (dep_addr_validate deps c)) (\<lambda>a. Ok (fees\<lparr>fc_protocol_fee_contract := a\<rparr>))
          | None \<Rightarrow> Ok fees) (\<lambda>fees1.
        and_then (case uc_protocol_reward_fee msg of
            Some fee \<Rightarrow> and_then get_reward_fee_cap (\<lambda>cap.
              if fee > cap then Err ProtocolRewardFeeTooHigh else Ok (fees1\<lparr>fc_protocol_reward_fee := fee\<rparr>))
          | None \<Rightarrow> Ok fees1) (\<lambda>fees2.
        Ok (st\<lparr>hub_fee_config := Some fees2\<rparr>))))
      else Ok st)"

definition update_periods :: "hub_update_config_msg \<Rightarrow> hub_state \<Rightarrow> (hub_state, hub_error) result" where
  "update_periods msg st =
     and_then (case uc_epoch_period msg of
         Some p \<Rightarrow> if p = 0 then Err (CantBeZero ''epoch_period'') else Ok (st\<lparr>hub_epoch_period := Some p\<rparr>)
       | None \<Rightarrow> Ok st) (\<lambda>st1.
     case uc_unbond_period msg of
       Some p \<Rightarrow> if p = 0 then Err (CantBeZero ''unbond_period'') else Ok (st1\<lparr>hub_unbond_period := Some p\<rparr>)
     | None \<Rightarrow> Ok st1)"

definition update_strategy :: "hub_deps \<Rightarrow> hub_update_config_msg \<Rightarrow> hub_state \<Rightarrow> (hub_state, hub_error) result" where
  "update_strategy deps msg st =
     (case uc_delegation_strategy msg of
        Some s \<Rightarrow> and_then (std (validate_strategy (dep_addr_validate deps) s)) (\<lambda>s'.
          Ok (st\<lparr>hub_delegation_strategy := Some s'\<rparr>))
      | None \<Rightarrow> Ok st)"

definition update_config :: "hub_deps \<Rightarrow> hub_state \<Rightarrow> addr \<Rightarrow> hub_update_config_msg \<Rightarrow> hub_result" where
  "update_config deps st sender msg =
     and_then (assert_owner st sender) (\<lambda>_.
     and_then (update_fee_config deps msg st) (\<lambda>st1.
     and_then (update_periods msg st1) (\<lambda>st2.
     and_then (update_strategy deps msg st2) (\<lambda>st3.
     let st4 = (case uc_allow_donations msg of Some b \<Rightarrow> st3\<lparr>hub_allow_donations := Some b\<rparr> | None \<Rightarrow> st3) in
     and_then (case uc_vote_operator msg of
         Some v \<Rightarrow> and_then (std (dep_addr_validate deps v)) (\<lambda>a. Ok (st4\<lparr>hub_vote_operator := Some a\<rparr>))
       | None \<Rightarrow> Ok st4) (\<lambda>st5.
     Ok (st5, add_attribute new_response ''action'' ''erishub/update_config''))))))"

section \<open>Votes (gov.rs)\<close>

definition hub_vote :: "hub_state \<Rightarrow> message_info \<Rightarrow> u64 \<Rightarrow> vote_option \<Rightarrow> hub_result" where
  "hub_vote st info proposal_id vote =
     and_then (assert_vote_operator st (info_sender info)) (\<lambda>_.
     Ok (st, add_attribute (add_event (add_message new_response (GovVote proposal_id vote))
       (new_event ''erishub/voted'' [(''prop'', nat_str proposal_id)])) ''action'' ''erishub/vote''))"

text \<open>A weight is the numerator of the decimal, rendered.\<close>

definition hub_vote_weighted :: "env \<Rightarrow> hub_state \<Rightarrow> message_info \<Rightarrow> u64 \<Rightarrow> (decimal \<times> vote_option) list \<Rightarrow> hub_result" where
  "hub_vote_weighted env st info proposal_id votes =
     and_then (assert_vote_operator st (info_sender info)) (\<lambda>_.
     Ok (st, add_attribute (add_event (add_message new_response
         (GovVoteWeighted proposal_id (env_contract env) (map (\<lambda>v. (snd v, nat_str (fst v))) votes)))
       (new_event ''erishub/voted_weighted'' [(''prop'', nat_str proposal_id)])) ''action'' ''erishub/vote_weighted''))"

section \<open>Entry points (contract.rs)\<close>

text \<open>\<open>receiver.map(validate).transpose()?.unwrap_or(sender)\<close>.\<close>

definition receiver_or_sender :: "hub_deps \<Rightarrow> string option \<Rightarrow> addr \<Rightarrow> (addr, hub_error) result" where
  "receiver_or_sender deps receiver sender =
     and_then (std (addr_opt_validate (dep_addr_validate deps) receiver)) (\<lambda>r. Ok (unwrap_or r sender))"

definition hub_receive ::
    "hub_deps \<Rightarrow> env \<Rightarrow> hub_state \<Rightarrow> message_info \<Rightarrow> hub_receive_msg decoded cw20_receive_msg \<Rightarrow> hub_result" where
  "hub_receive deps env st info cw20 =
     and_then (std (from_binary (cw20_payload cw20))) (\<lambda>m.
     case m of QueueUnbond receiver \<Rightarrow>
       and_then (std (load_item (hub_stake_token st))) (\<lambda>stake_token.
       if info_sender info \<noteq> stake_token then Err (ExpectingStakeToken (info_sender info))
       else and_then (std (dep_addr_validate deps (unwrap_or receiver (cw20_sender cw20)))) (\<lambda>r.
         queue_unbond env st r (cw20_amount cw20))))"

definition hub_callback :: "hub_deps \<Rightarrow> env \<Rightarrow> hub_state \<Rightarrow> message_info \<Rightarrow> hub_callback_msg \<Rightarrow> hub_result" where
  "hub_callback deps env st info cb =
     (if env_contract env \<noteq> info_sender info then Err CallbackOnlyCalledByContract
      else case cb of
        Reinvest \<Rightarrow> reinvest deps env st
      | CheckReceivedCoin snapshot \<Rightarrow> callback_received_coin deps env st snapshot)"

fun hub_execute :: "hub_deps \<Rightarrow> env \<Rightarrow> hub_state \<Rightarrow> message_info \<Rightarrow> hub_execute_msg \<Rightarrow> hub_result" where
  "hub_execute deps env st info (Receive cw20) = hub_receive deps env st info cw20"
| "hub_execute deps env st info (Bond receiver) =
     and_then (receiver_or_sender deps receiver (info_sender info)) (\<lambda>r.
     and_then (std (parse_received_fund (info_funds info) CONTRACT_DENOM)) (\<lambda>amount.
     bond deps env st r amount False))"
| "hub_execute deps env st info Donate =
     and_then (std (parse_received_fund (info_funds info) CONTRACT_DENOM)) (\<lambda>amount.
     bond deps env st (info_sender info) amount True)"
| "hub_execute deps env st info (WithdrawUnbonded receiver) =
     and_then (receiver_or_sender deps receiver (info_sender info)) (\<lambda>r.
     withdraw_unbonded env st (info_sender info) r)"
| "hub_execute deps env st info (AddValidator v) = add_validator deps st (info_sender info) v"
| "hub_execute deps env st info (RemoveValidator v) = remove_validator deps env st (info_sender info) v"
| "hub_execute deps env st info (TransferOwnership new_owner) = transfer_ownership deps st (info_sender info) new_owner"
| "hub_execute deps env st info DropOwnershipProposal = drop_ownership_proposal st (info_sender info)"
| "hub_execute deps env st info AcceptOwnership = accept_ownership st (info_sender info)"
| "hub_execute deps env st info Harvest = harvest deps env st"
| "hub_execute deps env st info TuneDelegations = tune_delegations deps env st (info_sender info)"
| "hub_execute deps env st info (Rebalance m) = rebalance deps env st (info_sender info) m"
| "hub_execute deps env st info Reconcile = reconcile deps env st"
| "hub_execute deps env st info SubmitBatch = submit_batch deps env st"
| "hub_execute deps env st info (Vote p v) = hub_vote st info p v"
| "hub_execute deps env st info (VoteWeighted p vs) = hub_vote_weighted env st info p vs"
| "hub_execute deps env st info (Callback cb) = hub_callback deps env st info cb"
| "hub_execute deps env st info (UpdateConfig msg) = update_config deps st (info_sender info) msg"

definition hub_reply :: "hub_deps \<Rightarrow> hub_state \<Rightarrow> reply \<Rightarrow> hub_result" where
  "hub_reply deps st r =
     (if reply_id r = 1
      then and_then (std (unwrap_reply r)) (register_stake_token deps st)
      else Err (InvalidReplyId (reply_id r)))"

definition hub_migrate :: "hub_deps \<Rightarrow> hub_state \<Rightarrow> hub_result" where
  "hub_migrate deps st =
     Ok (set_contract_version st CONTRACT_NAME (dep_version deps),
       add_attribute (add_attribute new_response ''new_contract_name'' CONTRACT_NAME)
         ''new_contract_version'' (dep_version deps))"

end
