(* ===== verification/HubBatches.thy ===== *)
theory HubBatches
  imports HubMath
begin

text \<open>
  The reconciliation of the unbonding batches (\<open>reconcile_batches\<close> of \<open>math.rs\<close>): it only ever
  lowers what the batches hold, never by more than the shortfall, and spreads a shortfall exactly when every
  batch can bear its part.
\<close>

definition unclaimed :: "batch list \<Rightarrow> u128" where
  "unclaimed bs = sum_list (map b_uluna_unclaimed bs)"

text \<open>What a pass may do to a batch: lower what it still holds.\<close>

definition lowered :: "batch \<Rightarrow> batch \<Rightarrow> bool" where
  "lowered b b' \<longleftrightarrow> b_id b' = b_id b \<and> b_total_shares b' = b_total_shares b
     \<and> b_est_unbond_end_time b' = b_est_unbond_end_time b \<and> b_uluna_unclaimed b' \<le> b_uluna_unclaimed b
     \<and> (b_reconciled b \<longrightarrow> b_reconciled b')"

lemma unclaimed_simps [simp]:
  "unclaimed [] = 0" "unclaimed (b # bs) = b_uluna_unclaimed b + unclaimed bs"
  by (simp_all add: unclaimed_def)

lemma lowered_refl [simp, intro]: "lowered b b"
  by (simp add: lowered_def)

lemma lowered_trans: "lowered a b \<Longrightarrow> lowered b c \<Longrightarrow> lowered a c"
  by (auto simp: lowered_def)

lemma lowered_list_trans: "list_all2 lowered as bs \<Longrightarrow> list_all2 lowered bs cs \<Longrightarrow> list_all2 lowered as cs"
  by (rule list_all2_trans [OF lowered_trans])

section \<open>The parts\<close>

definition parts :: "nat \<Rightarrow> nat \<Rightarrow> nat \<Rightarrow> nat \<Rightarrow> nat" where
  "parts per remainder i n = (\<Sum>j = i..<i + n. part_of per remainder j)"

lemma parts_0 [simp]: "parts per remainder i 0 = 0"
  by (simp add: parts_def)

lemma parts_Suc [simp]: "parts per remainder i (Suc n) = part_of per remainder i + parts per remainder (Suc i) n"
  unfolding parts_def by (subst sum.atLeast_Suc_lessThan) auto

lemma parts_value: "parts per remainder i n = n * per + (min (i + n) remainder - i)"
  by (induction n arbitrary: i) (auto simp: part_of_def min_def)

lemma parts_whole: "n \<noteq> 0 \<Longrightarrow> parts (x div n) (x mod n) 0 n = x"
proof -
  assume "n \<noteq> 0"
  then have "x mod n < n" by simp
  then show ?thesis by (simp add: parts_value min_def mult.commute)
qed

section \<open>The three passes\<close>

lemma reconcile_first_Cons [simp]:
  "fst (reconcile_first per remainder cnt i (b # bs)) =
     b\<lparr>b_uluna_unclaimed := saturating_sub (b_uluna_unclaimed b) (part_of per remainder i), b_reconciled := True\<rparr>
       # fst (reconcile_first per remainder cnt (Suc i) bs)"
  "snd (reconcile_first per remainder cnt i (b # bs)) =
     (if b_uluna_unclaimed b < part_of per remainder i \<and> cnt > 1
      then [part_of per remainder i - b_uluna_unclaimed b] else [])
       @ snd (reconcile_first per remainder cnt (Suc i) bs)"
  by (simp_all add: Let_def split_beta)

lemma reconcile_second_Cons [simp]:
  "fst (reconcile_second per remainder cnt i (b # bs)) =
     (if b_uluna_unclaimed b \<noteq> 0
      then b\<lparr>b_uluna_unclaimed := saturating_sub (b_uluna_unclaimed b) (part_of per remainder i)\<rparr> else b)
       # fst (reconcile_second per remainder cnt (Suc i) bs)"
  "snd (reconcile_second per remainder cnt i (b # bs)) =
     (if b_uluna_unclaimed b \<noteq> 0 \<and> b_uluna_unclaimed b < part_of per remainder i \<and> cnt > 1
      then part_of per remainder i - b_uluna_unclaimed b else 0)
       + snd (reconcile_second per remainder cnt (Suc i) bs)"
  by (simp_all add: Let_def split_beta)

declare reconcile_first.simps(2) [simp del] reconcile_second.simps(2) [simp del]

lemma reconcile_first_lowered: "list_all2 lowered bs (fst (reconcile_first per remainder cnt i bs))"
  by (induction bs arbitrary: i) (auto simp: lowered_def saturating_sub_def)

lemma reconcile_first_reconciled: "b \<in> set (fst (reconcile_first per remainder cnt i bs)) \<Longrightarrow> b_reconciled b"
  by (induction bs arbitrary: i) auto

lemma reconcile_first_amounts:
  "unclaimed (fst (reconcile_first per remainder cnt i bs)) + parts per remainder i (length bs)
     \<ge> unclaimed bs + sum_list (snd (reconcile_first per remainder cnt i bs))"
proof (induction bs arbitrary: i)
  case (Cons b bs)
  from Cons [of "Suc i"] show ?case by (auto simp: saturating_sub_def)
qed simp

lemma reconcile_first_exact:
  assumes "\<And>b. b \<in> set bs \<Longrightarrow> per < b_uluna_unclaimed b"
  shows "snd (reconcile_first per remainder cnt i bs) = []
    \<and> unclaimed (fst (reconcile_first per remainder cnt i bs)) + parts per remainder i (length bs) = unclaimed bs"
  using assms
proof (induction bs arbitrary: i)
  case (Cons b bs)
  have "part_of per remainder i \<le> b_uluna_unclaimed b"
    using Cons.prems [of b] by (simp add: part_of_def)
  with Cons.IH [of "Suc i"] Cons.prems show ?case
    by (auto simp: saturating_sub_def)
qed simp

text \<open>A batch that still holds something after the first pass did not fall short.\<close>

definition holding :: "batch list \<Rightarrow> nat" where
  "holding bs = length (filter (\<lambda>b. b_uluna_unclaimed b \<noteq> 0) bs)"

lemma holding_simps [simp]:
  "holding [] = 0" "holding (b # bs) = (if b_uluna_unclaimed b \<noteq> 0 then 1 else 0) + holding bs"
  by (simp_all add: holding_def)

lemma reconcile_first_holding:
  "holding (fst (reconcile_first per remainder cnt i bs))
     + length (snd (reconcile_first per remainder cnt i bs)) \<le> length bs"
proof (induction bs arbitrary: i)
  case (Cons b bs)
  from Cons [of "Suc i"] show ?case by (auto simp: saturating_sub_def)
qed simp

lemma reconcile_second_lowered: "list_all2 lowered bs (fst (reconcile_second per remainder cnt i bs))"
proof (induction bs arbitrary: i)
  case (Cons b bs)
  from Cons [of "Suc i"] show ?case by (auto simp: lowered_def saturating_sub_def)
qed simp

lemma reconcile_second_amounts:
  "unclaimed bs + snd (reconcile_second per remainder cnt i bs)
     \<le> unclaimed (fst (reconcile_second per remainder cnt i bs)) + holding bs * per + (remainder - i)"
proof (induction bs arbitrary: i)
  case (Cons b bs)
  note IH = Cons [of "Suc i"]
  show ?case
  proof (cases "b_uluna_unclaimed b = 0")
    case True
    with IH show ?thesis by simp
  next
    case False
    have "part_of per remainder i + (remainder - Suc i) = per + (remainder - i)"
      by (auto simp: part_of_def)
    with IH False show ?thesis by (auto simp: saturating_sub_def)
  qed
qed simp

lemma reconcile_third_lowered: "list_all2 lowered bs (reconcile_third remaining bs)"
  by (induction bs arbitrary: remaining) (simp_all add: lowered_def)

lemma reconcile_third_amounts: "unclaimed bs \<le> unclaimed (reconcile_third remaining bs) + remaining"
proof (induction bs arbitrary: remaining)
  case (Cons b bs)
  show ?case
    using Cons [of 0] Cons [of "remaining - b_uluna_unclaimed b"] Cons [of remaining] by auto
qed simp

section \<open>The whole reconciliation\<close>

lemma reconcile_batches_cases:
  assumes "reconcile_batches bs x = Ok bs'"
  obtains bs1 unders where
    "reconcile_first (x div length bs) (x mod length bs) (length bs) 0 bs = (bs1, unders)" and "bs \<noteq> []"
    and "(unders = [] \<and> bs' = bs1) \<or>
      (\<exists>cnt bs2 remaining. cnt = length bs - length unders \<and> cnt \<noteq> 0
        \<and> reconcile_second (sum_list unders div cnt) (sum_list unders mod cnt) cnt 0 bs1 = (bs2, remaining)
        \<and> bs' = (if remaining \<noteq> 0 then reconcile_third remaining bs2 else bs2))"
proof -
  obtain bs1 unders where first: "reconcile_first (x div length bs) (x mod length bs) (length bs) 0 bs = (bs1, unders)"
    by fastforce
  have ne: "bs \<noteq> []" using assms by (auto simp: reconcile_batches_def u128_div_def)
  show ?thesis
  proof (cases "unders = []")
    case True
    with assms first ne show ?thesis by (intro that) (auto simp: reconcile_batches_def u128_div_def)
  next
    case False
    obtain bs2 remaining where "reconcile_second (sum_list unders div (length bs - length unders))
        (sum_list unders mod (length bs - length unders)) (length bs - length unders) 0 bs1 = (bs2, remaining)"
      by fastforce
    with False assms first ne show ?thesis
      by (intro that) (auto simp: reconcile_batches_def u128_div_def Let_def split: if_splits)
  qed
qed

lemma reconcile_lowers:
  assumes "reconcile_batches bs x = Ok bs'"
  shows "list_all2 (\<lambda>b b'. lowered b b' \<and> b_reconciled b') bs bs'" and "unclaimed bs \<le> unclaimed bs' + x"
proof -
  from assms obtain bs1 unders where
    first: "reconcile_first (x div length bs) (x mod length bs) (length bs) 0 bs = (bs1, unders)"
    and ne: "bs \<noteq> []"
    and rest: "(unders = [] \<and> bs' = bs1) \<or>
      (\<exists>cnt bs2 remaining. cnt = length bs - length unders \<and> cnt \<noteq> 0
        \<and> reconcile_second (sum_list unders div cnt) (sum_list unders mod cnt) cnt 0 bs1 = (bs2, remaining)
        \<and> bs' = (if remaining \<noteq> 0 then reconcile_third remaining bs2 else bs2))"
    by (rule reconcile_batches_cases)
  note first_fst = arg_cong [OF first, of fst, unfolded fst_conv] and first_snd = arg_cong [OF first, of snd, unfolded snd_conv]
  have low1: "list_all2 lowered bs bs1"
    using reconcile_first_lowered [of bs] by (simp flip: first_fst)
  have marked: "b_reconciled b" if "b \<in> set bs1" for b
    using that by (simp flip: first_fst add: reconcile_first_reconciled)
  have am1: "unclaimed bs + sum_list unders \<le> unclaimed bs1 + x"
    using reconcile_first_amounts [of bs "x div length bs" "x mod length bs" "length bs" 0] ne
    by (simp add: first parts_whole)
  have hold: "holding bs1 + length unders \<le> length bs"
    using reconcile_first_holding [of "x div length bs" "x mod length bs" "length bs" 0 bs] by (simp add: first)
  have step: "list_all2 lowered bs1 bs' \<and> unclaimed bs1 \<le> unclaimed bs' + sum_list unders"
    using rest
  proof (elim disjE exE conjE)
    assume "unders = []" "bs' = bs1"
    then show ?thesis by (simp add: list_all2_refl)
  next
    fix cnt bs2 remaining
    assume cnt: "cnt = length bs - length unders" "cnt \<noteq> 0"
      and second: "reconcile_second (sum_list unders div cnt) (sum_list unders mod cnt) cnt 0 bs1 = (bs2, remaining)"
      and bs': "bs' = (if remaining \<noteq> 0 then reconcile_third remaining bs2 else bs2)"
    have low2: "list_all2 lowered bs1 bs2"
      using reconcile_second_lowered [of bs1 "sum_list unders div cnt" "sum_list unders mod cnt" cnt 0]
      by (simp add: second)
    have "holding bs1 * (sum_list unders div cnt) \<le> cnt * (sum_list unders div cnt)"
      using hold cnt by (intro mult_right_mono) auto
    moreover have "unclaimed bs1 + remaining \<le> unclaimed bs2 + holding bs1 * (sum_list unders div cnt) + sum_list unders mod cnt"
      using reconcile_second_amounts [of bs1 "sum_list unders div cnt" "sum_list unders mod cnt" cnt 0]
      by (simp add: second)
    moreover have "cnt * (sum_list unders div cnt) + sum_list unders mod cnt = sum_list unders" by simp
    ultimately have am2: "unclaimed bs1 + remaining \<le> unclaimed bs2 + sum_list unders" by linarith
    have "list_all2 lowered bs2 bs' \<and> unclaimed bs2 \<le> unclaimed bs' + remaining"
      unfolding bs' using reconcile_third_lowered reconcile_third_amounts by (simp add: list_all2_refl)
    with am2 low2 show ?thesis by (auto intro: lowered_list_trans)
  qed
  have "list_all2 (\<lambda>b b'. b_reconciled b') bs bs'"
    using step marked low1 unfolding list_all2_conv_all_nth by (auto simp: lowered_def)
  moreover have "list_all2 lowered bs bs'" using low1 step by (auto intro: lowered_list_trans)
  ultimately show "list_all2 (\<lambda>b b'. lowered b b' \<and> b_reconciled b') bs bs'"
    by (simp add: list_all2_conv_all_nth)
  show "unclaimed bs \<le> unclaimed bs' + x" using am1 step by linarith
qed

text \<open>
  When every batch holds more than an equal part of the shortfall, reconciliation succeeds and
  deducts exactly the shortfall.
\<close>

theorem reconcile_exact:
  assumes "bs \<noteq> []" and "\<And>b. b \<in> set bs \<Longrightarrow> x div length bs < b_uluna_unclaimed b"
  shows "\<exists>bs'. (reconcile_batches bs x :: (batch list, 'e) result) = Ok bs' \<and> unclaimed bs' + x = unclaimed bs"
proof -
  let ?first = "reconcile_first (x div length bs) (x mod length bs) (length bs) 0 bs"
  have "snd ?first = []" "unclaimed (fst ?first) + parts (x div length bs) (x mod length bs) 0 (length bs) = unclaimed bs"
    using reconcile_first_exact [OF assms(2)] by blast+
  with assms(1) show ?thesis
    by (auto simp: reconcile_batches_def u128_div_def Let_def parts_whole split: prod.splits)
qed

definition batch_of :: "u64 \<Rightarrow> u128 \<Rightarrow> batch" where
  "batch_of i y = \<lparr>b_id = i, b_reconciled = False, b_total_shares = 10, b_uluna_unclaimed = y, b_est_unbond_end_time = 5\<rparr>"

theorem reconcile_exact_witness:
  "\<exists>bs'. (reconcile_batches [batch_of 1 20, batch_of 2 30] 25 :: (batch list, hub_error) result) = Ok bs' \<and> unclaimed bs' + 25 = 50"
proof -
  have "\<exists>bs'. (reconcile_batches [batch_of 1 20, batch_of 2 30] 25 :: (batch list, hub_error) result) = Ok bs'
      \<and> unclaimed bs' + 25 = unclaimed [batch_of 1 20, batch_of 2 30]"
    by (rule reconcile_exact) (auto simp: batch_of_def numeral_2_eq_2 [symmetric])
  then show ?thesis by (simp add: batch_of_def)
qed

lemma reconcile_first_all_short:
  assumes "\<And>b. b \<in> set bs \<Longrightarrow> b_uluna_unclaimed b < per" and "cnt > 1"
  shows "length (snd (reconcile_first per remainder cnt i bs)) = length bs"
  using assms(1)
proof (induction bs arbitrary: i)
  case (Cons b bs)
  have "b_uluna_unclaimed b < part_of per remainder i"
    using Cons.prems [of b] by (simp add: part_of_def)
  with Cons.IH [of "Suc i"] Cons.prems assms(2) show ?case
    by (auto simp: Let_def split: prod.splits)
qed simp

text \<open>
  When at least two batches all hold less than an equal part of the shortfall, the second pass
  divides by zero: the reconciliation panics.
\<close>

theorem reconcile_all_short_panics:
  assumes "length bs > 1" and "\<And>b. b \<in> set bs \<Longrightarrow> b_uluna_unclaimed b < x div length bs"
  shows "(reconcile_batches bs x :: (batch list, 'e) result) = Panic"
proof -
  let ?first = "reconcile_first (x div length bs) (x mod length bs) (length bs) 0 bs"
  obtain bs1 unders where first: "?first = (bs1, unders)" by fastforce
  have "length (snd ?first) = length bs" by (rule reconcile_first_all_short [OF assms(2,1)])
  then have len: "length unders = length bs" by (simp add: first)
  with assms(1) have "unders \<noteq> []" "length bs \<noteq> 0" by auto
  then show ?thesis
    using len first by (simp add: reconcile_batches_def u128_div_def Let_def)
qed

theorem reconcile_all_short_panics_witness:
  "(reconcile_batches [batch_of 1 10, batch_of 2 10] 25 :: (batch list, hub_error) result) = Panic"
  by (rule reconcile_all_short_panics) (auto simp: batch_of_def numeral_2_eq_2 [symmetric])

text \<open>
  When some batches fall short, the second pass hands out parts by the position in the whole list, not among the batches that
  still hold something: with 5, 10 and 100 a shortfall of 30 lowers the batches by 27 only.
\<close>

theorem reconcile_can_under_deduct:
  "\<exists>bs bs'. (reconcile_batches bs 30 :: (batch list, hub_error) result) = Ok bs'
    \<and> unclaimed bs = 115 \<and> unclaimed bs' = 88 \<and> unclaimed bs' + 30 > unclaimed bs"
proof (intro exI conjI)
  show "(reconcile_batches [batch_of 1 5, batch_of 2 10, batch_of 3 100] 30 :: (batch list, hub_error) result)
      = Ok (fst (reconcile_second 2 1 2 0 (fst (reconcile_first 10 0 3 0 [batch_of 1 5, batch_of 2 10, batch_of 3 100]))))"
    by code_simp
qed code_simp+

end
