(* ===== verification/HubBooks.thy ===== *)
theory HubBooks
  imports HubAdmin HubBatches
begin

text \<open>
  The books of the unbonding queue: the pending batch, the previous batches and the requests of the users. The
  shares of a batch are the shares of its requests; every operation that writes the books keeps that.
\<close>

section \<open>The shares requested of a batch\<close>

type_synonym batches = "(u64, batch) store"
type_synonym requests = "(u64 \<times> addr, unbond_request) store"

definition shares_in :: "u64 \<Rightarrow> (u64 \<times> addr) \<times> unbond_request \<Rightarrow> u128" where
  "shares_in i p = (if fst (fst p) = i then ur_shares (snd p) else 0)"

definition requested :: "requests \<Rightarrow> u64 \<Rightarrow> u128" where
  "requested reqs i = sum_list (map (shares_in i) (entries reqs))"

lemma requested_empty [simp]: "requested [] i = 0"
  by (simp add: requested_def entries_def)

lemma requested_put:
  assumes "wf_store reqs"
  shows "requested (put (j, u) r reqs) i
      + (if j = i then (case get reqs (j, u) of Some r0 \<Rightarrow> ur_shares r0 | None \<Rightarrow> 0) else 0)
    = requested reqs i + (if j = i then ur_shares r else 0)"
  using om.total_put [OF assms, of "shares_in i" "(j, u)" r]
  by (auto simp: requested_def shares_in_def split: option.splits)

lemma requested_del:
  assumes "wf_store reqs"
  shows "requested (del (j, u) reqs) i
      + (if j = i then (case get reqs (j, u) of Some r0 \<Rightarrow> ur_shares r0 | None \<Rightarrow> 0) else 0)
    = requested reqs i"
  using om.total_del [OF assms, of "shares_in i" "(j, u)"]
  by (auto simp: requested_def shares_in_def split: option.splits)

lemma requested_member: "wf_store reqs \<Longrightarrow> get reqs (i, u) = Some r \<Longrightarrow> ur_shares r \<le> requested reqs i"
  using om.member_le_total [of reqs "(i, u)" r "shares_in i"] by (simp add: requested_def shares_in_def)

lemma requested_none:
  assumes "wf_store reqs" and "\<And>u r. get reqs (i, u) = Some r \<Longrightarrow> ur_shares r = 0"
  shows "requested reqs i = 0"
  unfolding requested_def using assms by (auto simp: om.entries_eq_set shares_in_def sum_list_eq_0_iff)

section \<open>The invariant of the books\<close>

definition books_ok :: "pending_batch \<Rightarrow> batches \<Rightarrow> requests \<Rightarrow> bool" where
  "books_ok p prev reqs \<longleftrightarrow>
     wf_store prev \<and> wf_store reqs
     \<and> (\<forall>i b. get prev i = Some b \<longrightarrow> b_id b = i \<and> i < pb_id p \<and> b_total_shares b = requested reqs i)
     \<and> (\<forall>i u r. get reqs (i, u) = Some r \<longrightarrow> ur_id r = i \<and> ur_user r = u \<and> i \<le> pb_id p)
     \<and> (\<forall>i < pb_id p. get prev i = None \<longrightarrow> requested reqs i = 0)
     \<and> pb_ustake_to_burn p = requested reqs (pb_id p)"

definition books_inv :: "hub_state \<Rightarrow> bool" where
  "books_inv st \<longleftrightarrow>
     (\<exists>p. hub_pending_batch st = Some p \<and> books_ok p (hub_previous_batches st) (hub_unbond_requests st))"

lemma books_okI:
  assumes "wf_store prev" "wf_store reqs"
    and "\<And>i b. get prev i = Some b \<Longrightarrow> b_id b = i \<and> i < pb_id p \<and> b_total_shares b = requested reqs i"
    and "\<And>i u r. get reqs (i, u) = Some r \<Longrightarrow> ur_id r = i \<and> ur_user r = u \<and> i \<le> pb_id p"
    and "\<And>i. i < pb_id p \<Longrightarrow> get prev i = None \<Longrightarrow> requested reqs i = 0"
    and "pb_ustake_to_burn p = requested reqs (pb_id p)"
  shows "books_ok p prev reqs"
  using assms unfolding books_ok_def by blast

lemma books_okD:
  assumes "books_ok p prev reqs"
  shows "wf_store prev" and "wf_store reqs"
    and "get prev i = Some b \<Longrightarrow> b_id b = i \<and> i < pb_id p \<and> b_total_shares b = requested reqs i"
    and "get reqs (i, u) = Some r \<Longrightarrow> ur_id r = i \<and> ur_user r = u \<and> i \<le> pb_id p"
    and "i < pb_id p \<Longrightarrow> get prev i = None \<Longrightarrow> requested reqs i = 0"
    and "pb_ustake_to_burn p = requested reqs (pb_id p)"
  using assms unfolding books_ok_def by blast+

text \<open>Only three fields of the storage are the books.\<close>

lemma books_inv_frame:
  "hub_pending_batch st' = hub_pending_batch st \<Longrightarrow> hub_previous_batches st' = hub_previous_batches st \<Longrightarrow>
    hub_unbond_requests st' = hub_unbond_requests st \<Longrightarrow> books_inv st' = books_inv st"
  by (simp add: books_inv_def)

lemma books_ok_start: "books_ok \<lparr>pb_id = 1, pb_ustake_to_burn = 0, pb_est_unbond_start_time = t\<rparr> [] []"
  by (rule books_okI) (simp_all add: store_simps)

section \<open>Queueing\<close>

lemma books_ok_queue:
  assumes ok: "books_ok p prev reqs"
    and r: "r = unwrap_or (get reqs (pb_id p, u)) \<lparr>ur_id = pb_id p, ur_user = u, ur_shares = 0\<rparr>"
  shows "books_ok (p\<lparr>pb_ustake_to_burn := pb_ustake_to_burn p + x\<rparr>) prev
    (put (pb_id p, u) (r\<lparr>ur_shares := ur_shares r + x\<rparr>) reqs)"
proof -
  note D = books_okD [OF ok]
  let ?r = "r\<lparr>ur_shares := ur_shares r + x\<rparr>"
  let ?reqs = "put (pb_id p, u) ?r reqs"
  have old: "(case get reqs (pb_id p, u) of Some r0 \<Rightarrow> ur_shares r0 | None \<Rightarrow> 0) = ur_shares r"
    by (simp add: r split: option.split)
  have key: "ur_id ?r = pb_id p \<and> ur_user ?r = u"
    using D(4) [of "pb_id p" u] by (cases "get reqs (pb_id p, u)") (auto simp: r)
  have other: "requested ?reqs i = requested reqs i" if "i \<noteq> pb_id p" for i
    using requested_put [OF D(2), of "pb_id p" u ?r i] that by simp
  have current: "requested ?reqs (pb_id p) = requested reqs (pb_id p) + x"
    using requested_put [OF D(2), of "pb_id p" u ?r "pb_id p"] old by simp
  show ?thesis
  proof (rule books_okI)
    show "get prev i = Some b \<Longrightarrow> b_id b = i \<and> i < pb_id (p\<lparr>pb_ustake_to_burn := pb_ustake_to_burn p + x\<rparr>)
        \<and> b_total_shares b = requested ?reqs i" for i b
      using D(3) [of i b] other [of i] by auto
    show "get ?reqs (i, v) = Some r' \<Longrightarrow> ur_id r' = i \<and> ur_user r' = v
        \<and> i \<le> pb_id (p\<lparr>pb_ustake_to_burn := pb_ustake_to_burn p + x\<rparr>)" for i v r'
      using D(4) [of i v r'] key by (auto simp: store_simps split: if_splits)
    show "i < pb_id (p\<lparr>pb_ustake_to_burn := pb_ustake_to_burn p + x\<rparr>) \<Longrightarrow> get prev i = None
        \<Longrightarrow> requested ?reqs i = 0" for i
      using D(5) [of i] other [of i] by simp
    show "pb_ustake_to_burn (p\<lparr>pb_ustake_to_burn := pb_ustake_to_burn p + x\<rparr>)
        = requested ?reqs (pb_id (p\<lparr>pb_ustake_to_burn := pb_ustake_to_burn p + x\<rparr>))"
      using current D(6) by simp
  qed (simp_all add: D)
qed

lemma queue_unbond_cases:
  assumes "queue_unbond env st receiver x = Ok (st', resp)"
  obtains p r where "hub_pending_batch st = Some p"
    and "r = unwrap_or (get (hub_unbond_requests st) (pb_id p, receiver)) \<lparr>ur_id = pb_id p, ur_user = receiver, ur_shares = 0\<rparr>"
    and "st' = st\<lparr>hub_pending_batch := Some (p\<lparr>pb_ustake_to_burn := pb_ustake_to_burn p + x\<rparr>),
        hub_unbond_requests := put (pb_id p, receiver) (r\<lparr>ur_shares := ur_shares r + x\<rparr>) (hub_unbond_requests st)\<rparr>"
    and "resp_msgs resp = (if env_time env \<ge> pb_est_unbond_start_time p
           then [PlainMsg (WasmExecute (env_contract env) (ToHub SubmitBatch) [])] else [])"
  using assms by (auto simp: queue_unbond_def Let_def ok_simps)

lemma queue_unbond_books: "queue_unbond env st receiver x = Ok (st', resp) \<Longrightarrow> books_inv st \<Longrightarrow> books_inv st'"
  by (elim queue_unbond_cases) (auto simp: books_inv_def intro: books_ok_queue)

section \<open>Submitting\<close>

lemma books_ok_submit:
  assumes ok: "books_ok p prev reqs"
  shows "books_ok \<lparr>pb_id = pb_id p + 1, pb_ustake_to_burn = 0, pb_est_unbond_start_time = t\<rparr>
    (put (pb_id p) \<lparr>b_id = pb_id p, b_reconciled = False, b_total_shares = pb_ustake_to_burn p,
       b_uluna_unclaimed = y, b_est_unbond_end_time = e\<rparr> prev) reqs"
proof -
  note D = books_okD [OF ok]
  have fresh: "requested reqs (pb_id p + 1) = 0"
    using D(4) [of "pb_id p + 1"] by (intro requested_none [OF D(2)]) fastforce
  show ?thesis
  proof (rule books_okI)
    show "i < pb_id \<lparr>pb_id = pb_id p + 1, pb_ustake_to_burn = 0, pb_est_unbond_start_time = t\<rparr> \<Longrightarrow>
      get (put (pb_id p) \<lparr>b_id = pb_id p, b_reconciled = False, b_total_shares = pb_ustake_to_burn p,
       b_uluna_unclaimed = y, b_est_unbond_end_time = e\<rparr> prev) i = None \<Longrightarrow> requested reqs i = 0" for i
      using D(5) [of i] by (auto simp: store_simps split: if_splits)
    show "get reqs (i, u) = Some r \<Longrightarrow> ur_id r = i \<and> ur_user r = u
      \<and> i \<le> pb_id \<lparr>pb_id = pb_id p + 1, pb_ustake_to_burn = 0, pb_est_unbond_start_time = t\<rparr>" for i u r
      using D(4) [of i u r] by auto
  qed (use D fresh in \<open>auto simp: store_simps less_Suc_eq split: if_splits\<close>)
qed

lemma submit_batch_cases:
  assumes "submit_batch deps env st = Ok (st', resp)"
  obtains token vs period p ds issued x us end_time epoch check where
    "hub_stake_token st = Some token" "hub_validators st = Some vs" "hub_unbond_period st = Some period"
    "hub_pending_batch st = Some p" "pb_est_unbond_start_time p \<le> env_time env"
    "query_all_delegations deps (env_contract env) = Ok ds"
    "query_cw20_total_supply deps token = Ok issued"
    "(compute_unbond_amount issued (pb_ustake_to_burn p) ds :: (u128, hub_error) result) = Ok x"
    "compute_undelegations st x ds vs = Ok us"
    "end_time = env_time env + period" "hub_epoch_period st = Some epoch"
    "check_received_coin_msg deps env None = Ok check"
    "st' = st\<lparr>hub_previous_batches := put (pb_id p)
         \<lparr>b_id = pb_id p, b_reconciled = False, b_total_shares = pb_ustake_to_burn p,
          b_uluna_unclaimed = x, b_est_unbond_end_time = end_time\<rparr> (hub_previous_batches st),
       hub_pending_batch := Some \<lparr>pb_id = pb_id p + 1, pb_ustake_to_burn = 0,
          pb_est_unbond_start_time = env_time env + epoch\<rparr>\<rparr>"
    "resp_msgs resp = map (\<lambda>u. PlainMsg (undelegation_to_cosmos_msg u)) us
       @ [PlainMsg (WasmExecute token (ToCw20 (Cw20Burn (pb_ustake_to_burn p))) []), PlainMsg check]"
  using assms by (auto simp: submit_batch_def Let_def ok_simps not_less split: if_splits)

lemma submit_batch_books: "submit_batch deps env st = Ok (st', resp) \<Longrightarrow> books_inv st \<Longrightarrow> books_inv st'"
  by (elim submit_batch_cases) (auto simp: books_inv_def intro: books_ok_submit [simplified])

end
