(* ===== verification/HubUnbond.thy ===== *)
theory HubUnbond
  imports HubBooks
begin

text \<open>
  Reconciliation and withdrawal on the books: both keep the invariant, a reconciliation only lowers what the
  ended batches hold, and a withdrawal pays exactly what it takes out of the batches.
\<close>

section \<open>Reconciliation\<close>

definition lowered_store :: "batches \<Rightarrow> batches \<Rightarrow> bool" where
  "lowered_store prev prev' \<longleftrightarrow> (\<forall>i. rel_option lowered (get prev i) (get prev' i))"

lemma lowered_store_refl: "lowered_store prev prev"
  by (simp add: lowered_store_def option.rel_refl)

lemma save_batches_wf: "wf_store s \<Longrightarrow> wf_store (save_batches s bs)"
  by (induction bs arbitrary: s) (auto simp: save_batches_def)

lemma save_batches_lowered:
  assumes "lowered_store s0 s" and "\<And>b'. b' \<in> set bs \<Longrightarrow> \<exists>b. get s0 (b_id b') = Some b \<and> lowered b b'"
  shows "lowered_store s0 (save_batches s bs)"
  using assms
proof (induction bs arbitrary: s)
  case Nil
  then show ?case by (simp add: save_batches_def)
next
  case (Cons b' bs)
  obtain b where "get s0 (b_id b') = Some b" "lowered b b'" using Cons.prems(2) [of b'] by auto
  then have "lowered_store s0 (put (b_id b') b' s)"
    using Cons.prems(1) by (auto simp: lowered_store_def store_simps)
  from Cons.IH [OF this] Cons.prems(2) show ?case by (auto simp: save_batches_def)
qed

lemma save_batches_other: "i \<notin> b_id ` set bs \<Longrightarrow> get (save_batches s bs) i = get s i"
  by (induction bs arbitrary: s) (auto simp: save_batches_def store_simps)

lemma save_batches_get: "distinct (map b_id bs) \<Longrightarrow> b \<in> set bs \<Longrightarrow> get (save_batches s bs) (b_id b) = Some b"
proof (induction bs arbitrary: s)
  case (Cons c bs)
  have cons: "save_batches s (c # bs) = save_batches (put (b_id c) c s) bs" by (simp add: save_batches_def)
  show ?case
  proof (cases "b = c")
    case True
    with Cons.prems(1) show ?thesis unfolding cons by (subst save_batches_other) (auto simp: store_simps)
  next
    case False
    with Cons show ?thesis unfolding cons by simp
  qed
qed simp

lemma unreconciled_stored:
  assumes "books_ok p (hub_previous_batches st) reqs" and "b \<in> set (unreconciled_batches st)"
  shows "get (hub_previous_batches st) (b_id b) = Some b" and "\<not> b_reconciled b"
  using assms(2) books_okD(3) [OF assms(1)]
  by (auto simp: unreconciled_batches_def om.entries_eq_set [OF books_okD(1) [OF assms(1)]])

lemma reconcile_cases:
  assumes "reconcile deps env st = Ok (st', resp)"
  obtains (unchanged) "st' = st" "resp_msgs resp = []"
    "unclaimed (filter (\<lambda>b. env_time env > b_est_unbond_end_time b) (unreconciled_batches st)) = 0"
  | (saved) bs bs' coins actual where
    "bs = filter (\<lambda>b. env_time env > b_est_unbond_end_time b) (unreconciled_batches st)"
    "hub_unlocked_coins st = Some coins" "dep_balance deps (env_contract env) CONTRACT_DENOM = Ok actual"
    "st' = st\<lparr>hub_previous_batches := save_batches (hub_previous_batches st) bs'\<rparr>"
    "resp_msgs resp = []" "unclaimed bs \<noteq> 0"
    "if actual \<ge> unclaimed bs + c_amount (coins_find coins CONTRACT_DENOM)
     then bs' = mark_reconciled_batches bs
     else (reconcile_batches bs (unclaimed bs + c_amount (coins_find coins CONTRACT_DENOM) - actual)
             :: (batch list, hub_error) result) = Ok bs'"
proof -
  define bs where "bs = filter (\<lambda>b. env_time env > b_est_unbond_end_time b) (unreconciled_batches st)"
  note run = assms [unfolded reconcile_def Let_def bs_def [symmetric] u128_sum_def unclaimed_def [symmetric]]
  show ?thesis
  proof (cases "unclaimed bs = 0")
    case True
    with run show ?thesis by (intro unchanged) (auto simp: ok_simps bs_def)
  next
    case False
    with run obtain coins actual where c: "hub_unlocked_coins st = Some coins"
        "dep_balance deps (env_contract env) CONTRACT_DENOM = Ok actual"
      by (auto simp: ok_simps)
    show ?thesis
    proof (cases "actual \<ge> unclaimed bs + c_amount (coins_find coins CONTRACT_DENOM)")
      case True
      show ?thesis
        by (rule saved [OF bs_def c, of "mark_reconciled_batches bs"])
          (use run c False True in \<open>auto simp: ok_simps reconciled_response_def\<close>)
    next
      case less: False
      with run c False obtain bs' where "(reconcile_batches bs
          (unclaimed bs + c_amount (coins_find coins CONTRACT_DENOM) - actual) :: (batch list, hub_error) result) = Ok bs'"
        by (auto simp: ok_simps)
      then show ?thesis
        by (intro saved [OF bs_def c, of bs'])
          (use run c False less in \<open>auto simp: ok_simps reconciled_response_def\<close>)
    qed
  qed
qed

lemma mark_reconciled_lowered: "list_all2 (\<lambda>b b'. lowered b b' \<and> b_reconciled b') bs (mark_reconciled_batches bs)"
  by (simp add: mark_reconciled_batches_def list_all2_map2 lowered_def list_all2_refl)

lemma mark_reconciled_unclaimed [simp]: "unclaimed (mark_reconciled_batches bs) = unclaimed bs"
  by (induction bs) (simp_all add: mark_reconciled_batches_def)

lemma reconciled_list:
  assumes "if c then bs' = mark_reconciled_batches bs else (reconcile_batches bs x :: (batch list, hub_error) result) = Ok bs'"
  shows "list_all2 (\<lambda>b b'. lowered b b' \<and> b_reconciled b') bs bs'"
  using assms mark_reconciled_lowered reconcile_lowers(1) by (auto split: if_splits)

lemma books_ok_lowered:
  assumes ok: "books_ok p prev reqs" and low: "lowered_store prev prev'" and wf: "wf_store prev'"
  shows "books_ok p prev' reqs"
proof -
  note D = books_okD [OF ok]
  have rel: "rel_option lowered (get prev i) (get prev' i)" for i
    using low by (simp add: lowered_store_def)
  show ?thesis
  proof (rule books_okI)
    fix i b assume "get prev' i = Some b"
    with rel [of i] obtain b0 where "get prev i = Some b0" "lowered b0 b"
      by (auto simp: option_rel_Some2)
    then show "b_id b = i \<and> i < pb_id p \<and> b_total_shares b = requested reqs i"
      using D(3) [of i b0] by (auto simp: lowered_def)
  next
    fix i assume "i < pb_id p" "get prev' i = None"
    with rel [of i] D(5) [of i] show "requested reqs i = 0" by (auto simp: option_rel_Some1)
  qed (use D wf in auto)
qed

lemma list_all2_member1: "list_all2 R xs ys \<Longrightarrow> x \<in> set xs \<Longrightarrow> \<exists>y \<in> set ys. R x y"
  by (induction rule: list_all2_induct) auto

lemma list_all2_member2: "list_all2 R xs ys \<Longrightarrow> y \<in> set ys \<Longrightarrow> \<exists>x \<in> set xs. R x y"
  by (induction rule: list_all2_induct) auto

lemma reconcile_lowered:
  assumes "books_ok p (hub_previous_batches st) reqs"
    and "bs = filter P (unreconciled_batches st)"
    and "list_all2 (\<lambda>b b'. lowered b b' \<and> b_reconciled b') bs bs'"
  shows "lowered_store (hub_previous_batches st) (save_batches (hub_previous_batches st) bs')"
proof (rule save_batches_lowered [OF lowered_store_refl])
  fix b' assume "b' \<in> set bs'"
  then obtain b where b: "b \<in> set bs" "lowered b b'"
    using list_all2_member2 [OF assms(3)] by blast
  then have "b \<in> set (unreconciled_batches st)" using assms(2) by auto
  from unreconciled_stored(1) [OF assms(1) this] b(2)
  show "\<exists>b. get (hub_previous_batches st) (b_id b') = Some b \<and> lowered b b'"
    by (auto simp: lowered_def)
qed

lemma reconcile_books:
  assumes "reconcile deps env st = Ok (st', resp)" and "books_inv st"
  shows "books_inv st' \<and> lowered_store (hub_previous_batches st) (hub_previous_batches st')"
  using assms(1)
proof (cases rule: reconcile_cases)
  case unchanged
  with assms(2) show ?thesis by (simp add: lowered_store_refl)
next
  case (saved bs bs' coins actual)
  from assms(2) obtain p where p: "hub_pending_batch st = Some p"
    and ok: "books_ok p (hub_previous_batches st) (hub_unbond_requests st)"
    by (auto simp: books_inv_def)
  have low: "lowered_store (hub_previous_batches st) (save_batches (hub_previous_batches st) bs')"
    by (rule reconcile_lowered [OF ok saved(1) reconciled_list [OF saved(7)]])
  have wf: "wf_store (save_batches (hub_previous_batches st) bs')"
    by (rule save_batches_wf [OF books_okD(1) [OF ok]])
  from low show ?thesis
    using p books_ok_lowered [OF ok low wf] by (auto simp: saved(4) books_inv_def)
qed

section \<open>Withdrawal\<close>

definition total_unclaimed :: "batches \<Rightarrow> u128" where
  "total_unclaimed prev = sum_list (map (\<lambda>p. b_uluna_unclaimed (snd p)) (entries prev))"

lemma total_unclaimed_put:
  "wf_store prev \<Longrightarrow> get prev i = Some b0 \<Longrightarrow>
    total_unclaimed (put i b prev) + b_uluna_unclaimed b0 = total_unclaimed prev + b_uluna_unclaimed b"
  using om.total_put [of prev "\<lambda>p. b_uluna_unclaimed (snd p)" i b] by (simp add: total_unclaimed_def)

lemma total_unclaimed_del:
  "wf_store prev \<Longrightarrow> get prev i = Some b0 \<Longrightarrow> total_unclaimed (del i prev) + b_uluna_unclaimed b0 = total_unclaimed prev"
  using om.total_del [of prev "\<lambda>p. b_uluna_unclaimed (snd p)" i] by (simp add: total_unclaimed_def)

lemma save_batches_total:
  assumes "list_all2 lowered bs bs'" and "distinct (map b_id bs)" and "wf_store s"
    and "\<And>b. b \<in> set bs \<Longrightarrow> get s (b_id b) = Some b"
  shows "total_unclaimed (save_batches s bs') + unclaimed bs = total_unclaimed s + unclaimed bs'"
  using assms
proof (induction bs bs' arbitrary: s rule: list_all2_induct)
  case Nil
  then show ?case by (simp add: save_batches_def)
next
  case (Cons b bs b' bs')
  have id: "b_id b' = b_id b" using Cons.hyps(1) by (simp add: lowered_def)
  have stored: "get (put (b_id b') b' s) (b_id c) = Some c" if "c \<in> set bs" for c
  proof -
    have "b_id c \<noteq> b_id b" using that Cons.prems(1) by (auto simp: image_iff)
    then show ?thesis using Cons.prems(3) [of c] that by (simp add: store_simps id)
  qed
  have "total_unclaimed (save_batches (put (b_id b') b' s) bs') + unclaimed bs
      = total_unclaimed (put (b_id b') b' s) + unclaimed bs'"
    using Cons.prems stored by (intro Cons.IH) auto
  moreover have "total_unclaimed (put (b_id b') b' s) + b_uluna_unclaimed b = total_unclaimed s + b_uluna_unclaimed b'"
    using total_unclaimed_put [OF Cons.prems(2) Cons.prems(3) [of b]] by (simp add: id)
  ultimately show ?case by (simp add: save_batches_def)
qed

text \<open>Which batches a reconciliation may touch, and what becomes of them.\<close>

lemma unreconciled_distinct:
  assumes "books_ok p (hub_previous_batches st) reqs"
  shows "distinct (map b_id (filter P (unreconciled_batches st)))"
proof -
  note D = books_okD [OF assms]
  have "map b_id (map snd (entries (hub_previous_batches st))) = map fst (entries (hub_previous_batches st))"
    unfolding map_map comp_def using D(3) om.in_entries [OF D(1)] by (intro map_cong) fastforce+
  then have "distinct (map b_id (map snd (entries (hub_previous_batches st))))"
    using om.keys_distinct [OF D(1)] by (simp only:)
  then show ?thesis unfolding unreconciled_batches_def by (intro distinct_map_filter)
qed

lemma reconcile_amounts:
  assumes run: "reconcile deps env st = Ok (st', resp)" and inv: "books_inv st"
    and bs: "bs = filter (\<lambda>b. env_time env > b_est_unbond_end_time b) (unreconciled_batches st)"
    and coins: "hub_unlocked_coins st = Some coins"
    and actual: "dep_balance deps (env_contract env) CONTRACT_DENOM = Ok actual"
  shows "total_unclaimed (hub_previous_batches st)
    \<le> total_unclaimed (hub_previous_batches st') + (unclaimed bs + c_amount (coins_find coins CONTRACT_DENOM) - actual)"
  using run
proof (cases rule: reconcile_cases)
  case unchanged
  then show ?thesis by simp
next
  case (saved cs cs' coins' actual')
  from inv obtain p where ok: "books_ok p (hub_previous_batches st) (hub_unbond_requests st)"
    by (auto simp: books_inv_def)
  have eq: "cs = bs" "coins' = coins" "actual' = actual" using saved bs coins actual by simp_all
  have low: "list_all2 lowered bs cs'"
    using reconciled_list [OF saved(7)] unfolding eq by (simp add: list_all2_conv_all_nth)
  have "total_unclaimed (save_batches (hub_previous_batches st) cs') + unclaimed bs
      = total_unclaimed (hub_previous_batches st) + unclaimed cs'"
    using low bs unreconciled_distinct [OF ok] unreconciled_stored(1) [OF ok]
    by (intro save_batches_total books_okD(1) [OF ok]) auto
  moreover have "unclaimed bs \<le> unclaimed cs' + (unclaimed bs + c_amount (coins_find coins CONTRACT_DENOM) - actual)"
  proof (cases "unclaimed bs + c_amount (coins_find coins CONTRACT_DENOM) \<le> actual")
    case True
    with saved(7) show ?thesis unfolding eq by simp
  next
    case False
    with saved(7) have "(reconcile_batches bs
        (unclaimed bs + c_amount (coins_find coins CONTRACT_DENOM) - actual) :: (batch list, hub_error) result) = Ok cs'"
      unfolding eq by simp
    then show ?thesis by (rule reconcile_lowers(2))
  qed
  ultimately show ?thesis unfolding saved(4) by simp
qed

text \<open>Whether a request is paid out now.\<close>

definition payable :: "u64 \<Rightarrow> batches \<Rightarrow> u64 \<Rightarrow> bool" where
  "payable t prev i = (case get prev i of Some b \<Rightarrow> b_reconciled b \<and> b_est_unbond_end_time b < t | None \<Rightarrow> False)"

text \<open>The book entries after paying a request of a batch with value \<open>y\<close>.\<close>

definition paid_out :: "batch \<Rightarrow> u128 \<Rightarrow> u128 \<Rightarrow> batches \<Rightarrow> batches" where
  "paid_out b s y prev =
     (if b_total_shares b - s = 0 then del (b_id b) prev
      else put (b_id b) (b\<lparr>b_total_shares := b_total_shares b - s, b_uluna_unclaimed := b_uluna_unclaimed b - y\<rparr>) prev)"

lemma withdraw_step_cases:
  assumes "withdraw_step t user (st, x, ids) r = Ok (st', x', ids')"
    and "\<forall>b. get (hub_previous_batches st) (ur_id r) = Some b \<longrightarrow> b_id b = ur_id r"
  obtains (skip) "st' = st" "x' = x" "ids' = ids" "\<not> payable t (hub_previous_batches st) (ur_id r)"
  | (pay) b y where "get (hub_previous_batches st) (ur_id r) = Some b" "payable t (hub_previous_batches st) (ur_id r)"
    "b_total_shares b \<noteq> 0" "ur_shares r \<le> b_total_shares b"
    "y = b_uluna_unclaimed b * ur_shares r div b_total_shares b"
    "x' = x + y" "ids' = ids @ [nat_str (ur_id r)]"
    "st' = st\<lparr>hub_previous_batches := paid_out b (ur_shares r) y (hub_previous_batches st),
              hub_unbond_requests := del (ur_id r, user) (hub_unbond_requests st)\<rparr>"
proof (cases "payable t (hub_previous_batches st) (ur_id r)")
  case False
  with assms(1) show ?thesis
    by (intro skip) (auto simp: withdraw_step_def payable_def split: option.splits if_splits)
next
  case True
  then obtain b where b: "get (hub_previous_batches st) (ur_id r) = Some b" "b_reconciled b" "b_est_unbond_end_time b < t"
    by (auto simp: payable_def split: option.splits)
  from assms(2) b(1) have "b_id b = ur_id r" by simp
  with assms(1) b show ?thesis
    by (intro pay [OF b(1) True]) (auto simp: withdraw_step_def paid_out_def ok_simps)
qed

lemma paid_out_get:
  "get (paid_out b s y prev) i =
    (if i = b_id b then (if b_total_shares b - s = 0 then None
       else Some (b\<lparr>b_total_shares := b_total_shares b - s, b_uluna_unclaimed := b_uluna_unclaimed b - y\<rparr>))
     else get prev i)"
  by (simp add: paid_out_def store_simps)

lemma paid_out_wf: "wf_store prev \<Longrightarrow> wf_store (paid_out b s y prev)"
  by (simp add: paid_out_def om.invar_put om.invar_del)

lemma paid_out_unclaimed:
  assumes "wf_store prev" and "get prev (b_id b) = Some b" and "s \<le> b_total_shares b" and "b_total_shares b \<noteq> 0"
    and "y = b_uluna_unclaimed b * s div b_total_shares b"
  shows "total_unclaimed (paid_out b s y prev) + y = total_unclaimed prev"
proof (cases "b_total_shares b - s = 0")
  case True
  with assms(3) have "s = b_total_shares b" by simp
  with assms(4,5) have "y = b_uluna_unclaimed b" by simp
  then show ?thesis
    using True total_unclaimed_del [OF assms(1,2)] by (simp add: paid_out_def)
next
  case False
  have "y \<le> b_uluna_unclaimed b" unfolding assms(5) by (rule multiply_ratio_le [OF assms(3)])
  then show ?thesis
    using False total_unclaimed_put [OF assms(1,2), of "b\<lparr>b_total_shares := b_total_shares b - s,
        b_uluna_unclaimed := b_uluna_unclaimed b - y\<rparr>"] by (simp add: paid_out_def)
qed

lemma books_ok_pay:
  assumes ok: "books_ok p prev reqs" and r: "get reqs (i, u) = Some r" and b: "get prev i = Some b"
  shows "books_ok p (paid_out b (ur_shares r) y prev) (del (i, u) reqs)"
proof -
  note D = books_okD [OF ok]
  have id: "b_id b = i" and tot: "b_total_shares b = requested reqs i" and ir: "i < pb_id p"
    using D(3) [OF b] by simp_all
  have this_i: "requested (del (i, u) reqs) i + ur_shares r = requested reqs i"
    using requested_del [OF D(2), of i u i] r by simp
  have other: "requested (del (i, u) reqs) j = requested reqs j" if "j \<noteq> i" for j
    using requested_del [OF D(2), of i u j] that by simp
  show ?thesis
  proof (rule books_okI)
    fix j b' assume "get (paid_out b (ur_shares r) y prev) j = Some b'"
    then show "b_id b' = j \<and> j < pb_id p \<and> b_total_shares b' = requested (del (i, u) reqs) j"
      using D(3) [of j b'] this_i other [of j] by (auto simp: paid_out_get id ir tot split: if_splits)
  next
    fix j assume "j < pb_id p" "get (paid_out b (ur_shares r) y prev) j = None"
    then show "requested (del (i, u) reqs) j = 0"
      using D(5) [of j] this_i other [of j] by (auto simp: paid_out_get id tot split: if_splits)
  next
    fix j v r' assume "get (del (i, u) reqs) (j, v) = Some r'"
    then show "ur_id r' = j \<and> ur_user r' = v \<and> j \<le> pb_id p"
      using D(4) [of j v r'] by (auto simp: store_simps split: if_splits)
  next
    show "pb_ustake_to_burn p = requested (del (i, u) reqs) (pb_id p)"
      using D(6) other [of "pb_id p"] ir by simp
  qed (simp_all add: D paid_out_wf om.invar_del)
qed

text \<open>What a request is due: its share of what its batch holds, once the batch is payable.\<close>

definition due :: "u64 \<Rightarrow> batches \<Rightarrow> unbond_request \<Rightarrow> u128" where
  "due t prev r = (case get prev (ur_id r) of
      Some b \<Rightarrow> if payable t prev (ur_id r) then b_uluna_unclaimed b * ur_shares r div b_total_shares b else 0
    | None \<Rightarrow> 0)"

text \<open>What happens to a payable batch when the request is paid.\<close>

definition after_payment :: "u64 \<Rightarrow> batches \<Rightarrow> unbond_request \<Rightarrow> batch option" where
  "after_payment t prev r = (case get prev (ur_id r) of
      Some b \<Rightarrow> if payable t prev (ur_id r)
        then get (paid_out b (ur_shares r) (due t prev r) prev) (ur_id r) else Some b
    | None \<Rightarrow> None)"

text \<open>The outcome of the withdrawal loop over requests of different batches.\<close>

definition withdrawn :: "u64 \<Rightarrow> addr \<Rightarrow> unbond_request list \<Rightarrow> hub_state \<Rightarrow> hub_state \<Rightarrow> bool" where
  "withdrawn t user rs st st' \<longleftrightarrow>
     st' = st\<lparr>hub_previous_batches := hub_previous_batches st', hub_unbond_requests := hub_unbond_requests st'\<rparr>
     \<and> (\<forall>i. i \<notin> ur_id ` set rs \<longrightarrow> get (hub_previous_batches st') i = get (hub_previous_batches st) i)
     \<and> (\<forall>r \<in> set rs. get (hub_previous_batches st') (ur_id r) = after_payment t (hub_previous_batches st) r)
     \<and> (\<forall>i v. v \<noteq> user \<or> i \<notin> ur_id ` set rs \<longrightarrow> get (hub_unbond_requests st') (i, v) = get (hub_unbond_requests st) (i, v))
     \<and> (\<forall>r \<in> set rs. get (hub_unbond_requests st') (ur_id r, user) =
          (if payable t (hub_previous_batches st) (ur_id r) then None else get (hub_unbond_requests st) (ur_id r, user)))"

lemma withdrawnD:
  assumes "withdrawn t user rs st st'"
  shows "i \<notin> ur_id ` set rs \<Longrightarrow> get (hub_previous_batches st') i = get (hub_previous_batches st) i"
    and "r \<in> set rs \<Longrightarrow> get (hub_previous_batches st') (ur_id r) = after_payment t (hub_previous_batches st) r"
    and "v \<noteq> user \<or> i \<notin> ur_id ` set rs \<Longrightarrow> get (hub_unbond_requests st') (i, v) = get (hub_unbond_requests st) (i, v)"
    and "r \<in> set rs \<Longrightarrow> get (hub_unbond_requests st') (ur_id r, user) =
          (if payable t (hub_previous_batches st) (ur_id r) then None else get (hub_unbond_requests st) (ur_id r, user))"
  using assms unfolding withdrawn_def by blast+

lemma withdrawn_pending: "withdrawn t user rs st st' \<Longrightarrow> hub_pending_batch st' = hub_pending_batch st"
  unfolding withdrawn_def by (metis hub_state.select_convs(8) hub_state.surjective hub_state.update_convs(9,10))

lemma same_batch_same_due:
  "get prev' (ur_id r) = get prev (ur_id r) \<Longrightarrow>
    due t prev' r = due t prev r \<and> after_payment t prev' r = after_payment t prev r
    \<and> payable t prev' (ur_id r) = payable t prev (ur_id r)"
  by (auto simp: due_def after_payment_def payable_def paid_out_get split: option.splits)

lemma withdraw_step_facts:
  assumes step: "withdraw_step t user (st, x, ids) r = Ok (st', x', ids')"
    and ok: "books_ok p (hub_previous_batches st) (hub_unbond_requests st)"
    and r: "get (hub_unbond_requests st) (ur_id r, user) = Some r"
  shows "books_ok p (hub_previous_batches st') (hub_unbond_requests st')"
    and "withdrawn t user [r] st st'"
    and "x' = x + due t (hub_previous_batches st) r"
    and "x' + total_unclaimed (hub_previous_batches st') = x + total_unclaimed (hub_previous_batches st)"
proof -
  have id: "\<forall>b. get (hub_previous_batches st) (ur_id r) = Some b \<longrightarrow> b_id b = ur_id r"
    using books_okD(3) [OF ok] by blast
  have
    "books_ok p (hub_previous_batches st') (hub_unbond_requests st') \<and> withdrawn t user [r] st st'
     \<and> x' = x + due t (hub_previous_batches st) r
     \<and> x' + total_unclaimed (hub_previous_batches st') = x + total_unclaimed (hub_previous_batches st)"
  proof (cases rule: withdraw_step_cases [OF step id, consumes 0, case_names skip pay])
    case skip
    then show ?thesis
      using ok by (auto simp: withdrawn_def due_def after_payment_def split: option.splits)
  next
    case (pay b y)
    note b_id = id [rule_format, OF pay(1)]
    have y: "due t (hub_previous_batches st) r = y" using pay by (simp add: due_def)
    have bk: "books_ok p (hub_previous_batches st') (hub_unbond_requests st')"
      using books_ok_pay [OF ok r pay(1), of y] pay(8) by simp
    have "total_unclaimed (hub_previous_batches st') + y = total_unclaimed (hub_previous_batches st)"
      unfolding pay(8) using paid_out_unclaimed [OF books_okD(1) [OF ok], of b "ur_shares r" y] pay b_id by simp
    then show ?thesis
      using bk y pay by (auto simp: withdrawn_def after_payment_def paid_out_get b_id store_simps)
  qed
  then show "books_ok p (hub_previous_batches st') (hub_unbond_requests st')" "withdrawn t user [r] st st'"
    "x' = x + due t (hub_previous_batches st) r"
    "x' + total_unclaimed (hub_previous_batches st') = x + total_unclaimed (hub_previous_batches st)"
    by simp_all
qed

lemma withdrawn_Cons:
  assumes first: "withdrawn t user [r] st st1" and rest: "withdrawn t user rs st1 st2" and new: "ur_id r \<notin> ur_id ` set rs"
  shows "withdrawn t user (r # rs) st st2"
proof -
  have same: "get (hub_previous_batches st1) (ur_id q) = get (hub_previous_batches st) (ur_id q)" if "q \<in> set rs" for q
    by (rule withdrawnD(1) [OF first]) (use new that in \<open>simp, metis imageI\<close>)
  note eq = same_batch_same_due [OF same]
  note A = withdrawnD [OF first] and B = withdrawnD [OF rest]
  have fields: "st2 = st\<lparr>hub_previous_batches := hub_previous_batches st2, hub_unbond_requests := hub_unbond_requests st2\<rparr>"
    using first rest by (cases st, cases st1, cases st2) (simp add: withdrawn_def)
  have prev: "get (hub_previous_batches st2) (ur_id q) = after_payment t (hub_previous_batches st) q"
    if "q \<in> set (r # rs)" for q
  proof (cases "q = r")
    case True
    with B(1) [OF new] A(2) [of r] show ?thesis by simp
  next
    case False
    with that B(2) [of q] eq [of q] show ?thesis by simp
  qed
  have reqs: "get (hub_unbond_requests st2) (ur_id q, user) =
      (if payable t (hub_previous_batches st) (ur_id q) then None else get (hub_unbond_requests st) (ur_id q, user))"
    if "q \<in> set (r # rs)" for q
  proof (cases "q = r")
    case True
    with B(3) [of user "ur_id r"] A(4) [of r] new show ?thesis by simp
  next
    case False
    with that have q: "q \<in> set rs" by simp
    then have "ur_id q \<noteq> ur_id r" using new by (metis imageI)
    then show ?thesis using B(4) [OF q] eq [OF q] A(3) [of user "ur_id q"] by simp
  qed
  show ?thesis
    unfolding withdrawn_def using fields prev reqs A(1) B(1) A(3) B(3) by (intro conjI allI ballI impI) simp_all
qed

lemma withdraw_loop:
  assumes "try_fold (withdraw_step t user) (st, x, ids) rs = Ok (st', x', ids')"
    and "books_ok p (hub_previous_batches st) (hub_unbond_requests st)"
    and "distinct (map ur_id rs)"
    and "\<And>r. r \<in> set rs \<Longrightarrow> get (hub_unbond_requests st) (ur_id r, user) = Some r"
  shows "books_ok p (hub_previous_batches st') (hub_unbond_requests st') \<and> withdrawn t user rs st st'
    \<and> x' = x + sum_list (map (due t (hub_previous_batches st)) rs)
    \<and> x' + total_unclaimed (hub_previous_batches st') = x + total_unclaimed (hub_previous_batches st)"
  using assms
proof (induction rs arbitrary: st x ids)
  case Nil
  then show ?case by (simp add: withdrawn_def)
next
  case (Cons r rs)
  from Cons.prems(1) obtain st1 x1 ids1 where step: "withdraw_step t user (st, x, ids) r = Ok (st1, x1, ids1)"
    and rest: "try_fold (withdraw_step t user) (st1, x1, ids1) rs = Ok (st', x', ids')"
    by (auto simp: ok_simps)
  have new: "ur_id r \<notin> ur_id ` set rs" using Cons.prems(3) by simp
  note F = withdraw_step_facts [OF step Cons.prems(2) Cons.prems(4) [of r, simplified]]
  have kept: "get (hub_unbond_requests st1) (ur_id q, user) = Some q" if "q \<in> set rs" for q
    by (subst withdrawnD(3) [OF F(2)]) (use new that Cons.prems(4) [of q] in \<open>simp_all, metis imageI\<close>)
  have IH: "books_ok p (hub_previous_batches st') (hub_unbond_requests st') \<and> withdrawn t user rs st1 st'
    \<and> x' = x1 + sum_list (map (due t (hub_previous_batches st1)) rs)
    \<and> x' + total_unclaimed (hub_previous_batches st') = x1 + total_unclaimed (hub_previous_batches st1)"
    using Cons.prems(3) kept by (intro Cons.IH [OF rest F(1)]) auto
  have "get (hub_previous_batches st1) (ur_id q) = get (hub_previous_batches st) (ur_id q)" if "q \<in> set rs" for q
    by (rule withdrawnD(1) [OF F(2)]) (use new that in \<open>simp, metis imageI\<close>)
  then have "map (due t (hub_previous_batches st1)) rs = map (due t (hub_previous_batches st)) rs"
    using same_batch_same_due by (intro map_cong) blast+
  with IH F withdrawn_Cons [OF F(2) _ new, of st'] show ?case by simp
qed

section \<open>The handler\<close>

definition user_requests :: "hub_state \<Rightarrow> addr \<Rightarrow> unbond_request list" where
  "user_requests st user = map snd (requests_of_user st user)"

lemma user_requests_facts:
  assumes "books_ok p prev (hub_unbond_requests st)"
  shows "distinct (map ur_id (user_requests st user))"
    and "r \<in> set (user_requests st user) \<longleftrightarrow>
      get (hub_unbond_requests st) (ur_id r, user) = Some r"
proof -
  note D = books_okD [OF assms]
  let ?es = "requests_of_user st user"
  have key: "ur_id r = i \<and> ur_user r = u" if "((i, u), r) \<in> set (entries (hub_unbond_requests st))" for i u r
    using that D(4) om.in_entries [OF D(2)] by blast
  have eq: "map ur_id (user_requests st user) = map fst (map fst ?es)"
    unfolding user_requests_def requests_of_user_def map_map comp_def using key by (intro map_cong) auto
  have "distinct (map fst ?es)"
    using om.keys_distinct [OF D(2)] by (simp add: requests_of_user_def distinct_map_filter)
  moreover have "inj_on fst (set (map fst ?es))"
    using key by (auto simp: requests_of_user_def inj_on_def)
  ultimately show "distinct (map ur_id (user_requests st user))"
    unfolding eq distinct_map [of fst "map fst ?es"] by blast
  show "r \<in> set (user_requests st user) \<longleftrightarrow> get (hub_unbond_requests st) (ur_id r, user) = Some r"
  proof
    assume "r \<in> set (user_requests st user)"
    then obtain i u where e: "((i, u), r) \<in> set (entries (hub_unbond_requests st))" and u: "ur_user r = user"
      by (auto simp: user_requests_def requests_of_user_def)
    from key [OF e] u have "i = ur_id r" "u = user" by simp_all
    with e show "get (hub_unbond_requests st) (ur_id r, user) = Some r"
      using om.in_entries [OF D(2)] by blast
  next
    assume g: "get (hub_unbond_requests st) (ur_id r, user) = Some r"
    then have "((ur_id r, user), r) \<in> set (entries (hub_unbond_requests st))"
      using om.in_entries [OF D(2)] by blast
    moreover have "ur_user r = user" using D(4) [OF g] by simp
    ultimately show "r \<in> set (user_requests st user)"
      unfolding user_requests_def requests_of_user_def by force
  qed
qed

lemma withdraw_unbonded_outcome:
  assumes run: "withdraw_unbonded env st user receiver = Ok (st', resp)" and inv: "books_inv st"
  obtains paid where "paid \<noteq> 0"
    and "paid = sum_list (map (due (env_time env) (hub_previous_batches st)) (user_requests st user))"
    and "paid + total_unclaimed (hub_previous_batches st') = total_unclaimed (hub_previous_batches st)"
    and "resp_msgs resp = [PlainMsg (BankSend receiver [mk_coin paid CONTRACT_DENOM])]"
    and "withdrawn (env_time env) user (user_requests st user) st st'" and "books_inv st'"
proof -
  from inv obtain p where p: "hub_pending_batch st = Some p"
    and ok: "books_ok p (hub_previous_batches st) (hub_unbond_requests st)"
    by (auto simp: books_inv_def)
  from run obtain paid ids where
    fold: "try_fold (withdraw_step (env_time env) user) (st, 0, []) (user_requests st user) = Ok (st', paid, ids)"
    and paid: "paid \<noteq> 0" and msgs: "resp_msgs resp = [PlainMsg (BankSend receiver [mk_coin paid CONTRACT_DENOM])]"
    by (auto simp: withdraw_unbonded_def user_requests_def ok_simps Let_def split: if_splits)
  note L = withdraw_loop [OF fold ok user_requests_facts(1) [OF ok]]
  have L': "books_ok p (hub_previous_batches st') (hub_unbond_requests st')
    \<and> withdrawn (env_time env) user (user_requests st user) st st'
    \<and> paid = 0 + sum_list (map (due (env_time env) (hub_previous_batches st)) (user_requests st user))
    \<and> paid + total_unclaimed (hub_previous_batches st') = 0 + total_unclaimed (hub_previous_batches st)"
    by (rule L) (use user_requests_facts(2) [OF ok] in blast)
  then have "hub_pending_batch st' = Some p" using p withdrawn_pending by metis
  with L' paid msgs show ?thesis by (intro that [of paid]) (auto simp: books_inv_def)
qed

text \<open>The value of a share of a batch, \<open>unclaimed / total shares\<close>, does not fall when a request is paid.\<close>

lemma payment_keeps_value:
  assumes "after_payment t prev r = Some b'" and "get prev (ur_id r) = Some b"
    and "b_id b = ur_id r" and "ur_shares r \<le> b_total_shares b"
  shows "b_uluna_unclaimed b * b_total_shares b' \<le> b_uluna_unclaimed b' * b_total_shares b"
proof (cases "payable t prev (ur_id r)")
  case False
  with assms show ?thesis by (simp add: after_payment_def)
next
  case True
  let ?y = "b_uluna_unclaimed b * ur_shares r div b_total_shares b"
  from True assms have b': "b' = b\<lparr>b_total_shares := b_total_shares b - ur_shares r, b_uluna_unclaimed := b_uluna_unclaimed b - ?y\<rparr>"
    by (auto simp: after_payment_def due_def paid_out_get split: if_splits)
  have "?y * b_total_shares b \<le> b_uluna_unclaimed b * ur_shares r" by (rule div_times_less_eq_dividend)
  then have "b_uluna_unclaimed b * b_total_shares b - b_uluna_unclaimed b * ur_shares r
      \<le> b_uluna_unclaimed b * b_total_shares b - ?y * b_total_shares b"
    by (rule diff_le_mono2)
  then show ?thesis by (simp add: b' diff_mult_distrib diff_mult_distrib2)
qed

lemma withdrawn_batch:
  assumes ok: "books_ok p (hub_previous_batches st) (hub_unbond_requests st)"
    and w: "withdrawn t user (user_requests st user) st st'"
  shows "get (hub_previous_batches st) i = None \<Longrightarrow> get (hub_previous_batches st') i = None"
    and "get (hub_previous_batches st) i = Some b \<Longrightarrow> get (hub_previous_batches st') i = Some b' \<Longrightarrow>
      b_uluna_unclaimed b * b_total_shares b' \<le> b_uluna_unclaimed b' * b_total_shares b"
proof -
  note D = books_okD [OF ok]
  have "(get (hub_previous_batches st) i = None \<longrightarrow> get (hub_previous_batches st') i = None)
    \<and> (get (hub_previous_batches st) i = Some b \<longrightarrow> get (hub_previous_batches st') i = Some b' \<longrightarrow>
      b_uluna_unclaimed b * b_total_shares b' \<le> b_uluna_unclaimed b' * b_total_shares b)"
  proof (cases "i \<in> ur_id ` set (user_requests st user)")
    case True
    then obtain r where r: "r \<in> set (user_requests st user)" "i = ur_id r" by blast
    have "get (hub_unbond_requests st) (ur_id r, user) = Some r"
      using user_requests_facts(2) [OF ok] r(1) by blast
    then have "ur_shares r \<le> requested (hub_unbond_requests st) i" using requested_member [OF D(2)] r(2) by blast
    then show ?thesis
      using withdrawnD(2) [OF w r(1)] r(2) D(3) [of i b] payment_keeps_value [of t "hub_previous_batches st" r b' b]
      by (auto simp: after_payment_def)
  next
    case False
    with withdrawnD(1) [OF w] show ?thesis by simp
  qed
  then show "get (hub_previous_batches st) i = None \<Longrightarrow> get (hub_previous_batches st') i = None"
    "get (hub_previous_batches st) i = Some b \<Longrightarrow> get (hub_previous_batches st') i = Some b' \<Longrightarrow>
      b_uluna_unclaimed b * b_total_shares b' \<le> b_uluna_unclaimed b' * b_total_shares b"
    by blast+
qed

text \<open>A batch disappears only when no request of it has shares left.\<close>

lemma withdrawn_removed:
  assumes "books_ok p prev' reqs'" and "get prev' i = None" and "i < pb_id p" and "get reqs' (i, v) = Some r"
  shows "ur_shares r = 0"
  using books_okD(5) [OF assms(1) assms(3,2)] requested_member [OF books_okD(2) [OF assms(1)] assms(4)] by simp

end
