(* ===== verification/ShareVault.thy ===== *)
theory ShareVault
  imports ErisLib
begin

text \<open>
  A vault issues shares for a deposit and pays out a part of its assets for the shares that are
  handed in. The hub (stake token over delegated coins)
  is one, the compounding farm (amp LP over staked LP) another; the interface says what its users rely on: both
  directions round in favour of the vault, and a payment is what rounding down leaves. \<open>issues S T
  a m\<close> reads: a vault with \<open>S\<close> shares outstanding over assets \<open>T\<close> issues \<open>m\<close> shares
  for a deposit of \<open>a\<close>; \<open>pays S T s r\<close>: it pays \<open>r\<close> for \<open>s\<close> shares. From the
  rounding alone follow that no operation lowers the assets behind a share and that a
  deposit that is redeemed at once never gains.
\<close>

locale rounding_vault =
  fixes issues :: "u128 \<Rightarrow> u128 \<Rightarrow> u128 \<Rightarrow> u128 \<Rightarrow> bool"
    and pays :: "u128 \<Rightarrow> u128 \<Rightarrow> u128 \<Rightarrow> u128 \<Rightarrow> bool"
  assumes issue_rounds_down: "issues S T a m \<Longrightarrow> 0 < T \<Longrightarrow> m * T \<le> a * S"
    and pay_rounds_down: "pays S T s r \<Longrightarrow> r * S \<le> s * T"
    and pay_tight: "pays S T s r \<Longrightarrow> s * T < (r + 1) * S"
begin

text \<open>The assets behind a share, \<open>T / S\<close>, do not fall: cross-multiplied, to stay in integers.\<close>

lemma deposit_keeps_rate:
  assumes "issues S T a m"
  shows "T * (S + m) \<le> (T + a) * S"
proof (cases "T = 0")
  case True
  then show ?thesis by simp
next
  case False
  with issue_rounds_down [OF assms] have "m * T \<le> a * S" by simp
  then show ?thesis by (simp add: algebra_simps)
qed

lemma payout_le_assets:
  assumes "pays S T s r" and "s \<le> S"
  shows "r \<le> T"
proof -
  have "0 < S" using pay_tight [OF assms(1)] by (cases S) auto
  moreover have "r * S \<le> T * S"
    using pay_rounds_down [OF assms(1)] assms(2) by (metis le_trans mult.commute mult_le_mono2)
  ultimately show ?thesis by simp
qed

lemma payout_keeps_rate:
  assumes "pays S T s r" and "s \<le> S"
  shows "T * (S - s) \<le> (T - r) * S"
proof -
  have "r * S \<le> T * s" using pay_rounds_down [OF assms(1)] by (simp add: mult.commute)
  then have "T * S - T * s \<le> T * S - r * S" by (rule diff_le_mono2)
  then show ?thesis by (simp add: diff_mult_distrib diff_mult_distrib2)
qed

lemma redeem_all_pays_all:
  assumes "pays S T S r"
  shows "r = T"
proof (rule antisym)
  show "r \<le> T" using payout_le_assets [OF assms] by simp
  have "S * T < (r + 1) * S" by (rule pay_tight [OF assms])
  then have "T * S < (r + 1) * S" by (simp add: mult.commute)
  then have "T < r + 1" by (metis mult_less_cancel2)
  then show "T \<le> r" by simp
qed

lemma round_trip_never_gains:
  assumes "issues S T a m" and "pays (S + m) (T + a) m r" and "0 < T \<or> S = 0"
  shows "r \<le> a"
proof -
  have pos: "0 < S + m" using pay_tight [OF assms(2)] by (cases "S + m") auto
  have "m * T \<le> a * S"
    using assms(1,3) issue_rounds_down by (cases "T = 0") auto
  then have "m * (T + a) \<le> a * (S + m)" by (simp add: algebra_simps)
  with pay_rounds_down [OF assms(2)] have "r * (S + m) \<le> a * (S + m)" by (rule order.trans)
  with pos show ?thesis by (metis mult_le_cancel2)
qed

text \<open>Waiting does not hurt: if the rate did not fall, the same shares pay at least as much.\<close>

lemma payout_mono_in_rate:
  assumes "pays S T s r" and "pays S' T' s r'" and "T * S' \<le> T' * S"
  shows "r \<le> r'"
proof -
  have S: "0 < S" using pay_tight [OF assms(1)] by (cases S) auto
  have S': "0 < S'" using pay_tight [OF assms(2)] by (cases S') auto
  have "r * S * S' \<le> s * (T * S')"
    using mult_le_mono1 [OF pay_rounds_down [OF assms(1)], of S'] by (simp add: mult.assoc)
  also have "\<dots> \<le> s * (T' * S)" using assms(3) by simp
  also have "\<dots> < (r' + 1) * S' * S"
    using mult_less_mono1 [OF pay_tight [OF assms(2)] S] by (simp add: mult.assoc)
  also have "(r' + 1) * S' * S = (r' + 1) * (S * S')" by (simp only: mult_ac)
  finally have "r * (S * S') < (r' + 1) * (S * S')" by (simp only: mult.assoc)
  then have "r < r' + 1" by (metis mult_less_cancel2)
  then show ?thesis by simp
qed

end

text \<open>
  A vault that rounds as little as integers allow, and issues one to one while it holds nothing, determines what it issues.
\<close>

locale share_vault = rounding_vault +
  assumes issue_tight: "issues S T a m \<Longrightarrow> 0 < T \<Longrightarrow> a * S < (m + 1) * T"
    and issue_first: "issues S 0 a m \<Longrightarrow> m = a"
begin

lemma issue_determined:
  assumes "issues S T a m" and "issues S T a m'"
  shows "m = m'"
proof (cases "T = 0")
  case True
  then show ?thesis using issue_first assms by metis
next
  case False
  have le: "x \<le> y" if "issues S T a x" and "issues S T a y" for x y
  proof -
    have "x * T < (y + 1) * T"
      using issue_rounds_down [OF that(1)] issue_tight [OF that(2)] False by simp
    then have "x < y + 1" by (metis mult_less_cancel2)
    then show ?thesis by simp
  qed
  show ?thesis using le assms by (meson antisym)
qed

end

end
