(* ===== verification/HubMathFacts.thy ===== *)
theory HubMathFacts
  imports HubMath ShareVault
begin

text \<open>
  Correctness of \<open>math.rs\<close>: the targets sum to the staked amount; the undelegation and
  removal loops are greedy fillings and move exactly what they are asked to; a rebalance brings
  every validator to its target; reconciling deducts at most the shortfall.
\<close>

section \<open>The hub as a share vault\<close>

definition hub_issues :: "u128 \<Rightarrow> u128 \<Rightarrow> u128 \<Rightarrow> u128 \<Rightarrow> bool" where
  "hub_issues S T a m \<longleftrightarrow>
     (compute_mint_amount S a [mk_delegation [] T] :: (u128, std_error) result) = Ok m"

definition hub_pays :: "u128 \<Rightarrow> u128 \<Rightarrow> u128 \<Rightarrow> u128 \<Rightarrow> bool" where
  "hub_pays S T s r \<longleftrightarrow>
     (compute_unbond_amount S s [mk_delegation [] T] :: (u128, std_error) result) = Ok r"

lemma compute_mint_Ok:
  "compute_mint_amount S a ds = Ok m \<longleftrightarrow>
    sum_list (map d_amount ds) \<le> U128_MAX \<and>
    (if sum_list (map d_amount ds) = 0 then m = a
     else m = S * a div sum_list (map d_amount ds) \<and> m \<le> U128_MAX)"
proof -
  have "(if b = 0 then Ok a else multiply_ratio S a b) = Ok m \<longleftrightarrow>
      (if b = 0 then m = a else m = S * a div b \<and> m \<le> U128_MAX)" for b
    by (auto simp: ok_simps)
  then show ?thesis
    by (simp only: compute_mint_amount_def sum_delegations_def and_then_Ok num_Ok) blast
qed

lemma compute_unbond_Ok:
  "compute_unbond_amount S s ds = Ok r \<longleftrightarrow>
    sum_list (map d_amount ds) \<le> U128_MAX \<and> S \<noteq> 0 \<and>
    r = sum_list (map d_amount ds) * s div S \<and> r \<le> U128_MAX"
  by (auto simp: compute_unbond_amount_def sum_delegations_def ok_simps)

lemma hub_issues_sum:
  "compute_mint_amount S a ds = Ok m \<Longrightarrow> hub_issues S (sum_list (map d_amount ds)) a m"
  by (simp add: hub_issues_def compute_mint_Ok del: sum_list_eq_0_iff split: if_splits)

lemma hub_pays_sum:
  "compute_unbond_amount S s ds = Ok r \<Longrightarrow> hub_pays S (sum_list (map d_amount ds)) s r"
  by (auto simp: hub_pays_def compute_unbond_Ok)

lemma less_div_mult: "0 < d \<Longrightarrow> n < (n div d + 1) * d" for n d :: nat
  using dividend_less_div_times [of d n] by simp

interpretation hub_vault: share_vault hub_issues hub_pays
proof
  fix S T a m s r :: nat
  show "hub_issues S T a m \<Longrightarrow> 0 < T \<Longrightarrow> m * T \<le> a * S"
    by (auto simp: hub_issues_def compute_mint_Ok mult.commute [of S a] div_times_less_eq_dividend)
  show "hub_issues S T a m \<Longrightarrow> 0 < T \<Longrightarrow> a * S < (m + 1) * T"
    using less_div_mult [of T "a * S"] by (auto simp: hub_issues_def compute_mint_Ok mult.commute [of S a])
  show "hub_issues S 0 a m \<Longrightarrow> m = a"
    by (simp add: hub_issues_def compute_mint_Ok)
  show "hub_pays S T s r \<Longrightarrow> r * S \<le> s * T"
    by (auto simp: hub_pays_def compute_unbond_Ok mult.commute [of T s] div_times_less_eq_dividend)
  show "hub_pays S T s r \<Longrightarrow> s * T < (r + 1) * S"
    using less_div_mult [of S "s * T"] by (auto simp: hub_pays_def compute_unbond_Ok mult.commute [of T s])
qed

section \<open>Targets\<close>

text \<open>A distribution goal is sound when its shares do not exceed one.\<close>

definition shares_ok :: "(string \<times> decimal) list \<Rightarrow> bool" where
  "shares_ok shares \<longleftrightarrow> sum_list (map snd shares) \<le> DEC_ONE"

fun goal_ok :: "wanted_delegations_share option \<Rightarrow> bool" where
  "goal_ok None = True"
| "goal_ok (Some g) = shares_ok (wd_shares g)"

definition upv_total :: "utoken_per_validator \<Rightarrow> u128" where
  "upv_total upv = sum_list (map snd (entries upv))"

lemma upv_total_put:
  assumes "wf_store s"
  shows "upv_total (put k v s) \<le> upv_total s + v"
  using om.total_put [OF assms, of snd k v] by (auto simp: upv_total_def split: option.splits)

lemma upv_total_collect:
  "wf_store s \<Longrightarrow> upv_total (store_of_list ps s) \<le> sum_list (map snd ps) + upv_total s"
proof (induction ps s rule: store_of_list.induct)
  case (1 s)
  then show ?case by simp
next
  case (2 k v ps s)
  from 2 have "upv_total (store_of_list ps (put k v s)) \<le> sum_list (map snd ps) + upv_total (put k v s)"
    by simp
  with upv_total_put [OF "2.prems", of k v] show ?case by simp
qed

lemma uluna_by_shares_facts:
  assumes "uluna_by_shares shares x = Ok upv" and "shares_ok shares"
  shows "wf_store upv" and "upv_total upv \<le> x" and "dom (get upv) = fst ` set shares"
proof -
  from assms(1) obtain ps where ps: "traverse (\<lambda>d. and_then (checked_mul_uint (snd d) x) (\<lambda>a. Ok (fst d, a))) shares = Ok ps"
    and upv: "upv = store_of_list ps []"
    by (auto simp: uluna_by_shares_def ok_simps)
  from ps have ps_eq: "ps = map (\<lambda>d. (fst d, x * snd d div DEC_ONE)) shares"
    by (rule traverse_Ok_mapD) (auto simp: ok_simps)
  show "wf_store upv" by (simp add: upv wf_store_of_list)
  have "upv_total upv \<le> sum_list (map snd ps)"
    using upv_total_collect [of "[]" ps] by (simp add: upv upv_total_def entries_def)
  also have "\<dots> = sum_list (map (\<lambda>b. x * b div DEC_ONE) (map snd shares))"
    by (simp add: ps_eq comp_def)
  also have "\<dots> \<le> x * sum_list (map snd shares) div DEC_ONE" by (rule sum_div_le)
  also have "\<dots> \<le> x" using assms(2) by (intro multiply_ratio_le) (simp add: shares_ok_def)
  finally show "upv_total upv \<le> x" .
  have "dom (get upv) = fst ` set ps"
    by (auto simp: upv get_store_of_list dom_def store_simps map_of_eq_None_iff split: option.splits)
  then show "dom (get upv) = fst ` set shares" by (auto simp: ps_eq image_image)
qed

lemma uluna_uniform_facts:
  assumes "uluna_uniform vs x = Ok upv"
  shows "wf_store upv" and "upv_total upv \<le> x" and "dom (get upv) = set vs"
proof -
  from assms have ne: "length vs \<noteq> 0"
    and upv: "upv = store_of_list (map (\<lambda>v. (v, x div length vs)) vs) []"
    by (auto simp: uluna_uniform_def ok_simps)
  show "wf_store upv" by (simp add: upv wf_store_of_list)
  have "upv_total upv \<le> sum_list (map (\<lambda>v. x div length vs) vs)"
    using upv_total_collect [of "[]" "map (\<lambda>v. (v, x div length vs)) vs"]
    by (simp add: upv upv_total_def entries_def comp_def)
  also have "\<dots> = length vs * (x div length vs)" by (simp add: sum_list_triv)
  also have "\<dots> \<le> x" by (rule times_div_less_eq_dividend)
  finally show "upv_total upv \<le> x" .
  show "dom (get upv) = set vs"
    by (auto simp: upv get_store_of_list dom_def store_simps map_of_eq_None_iff image_image split: option.splits)
qed

lemma get_uluna_per_validator_facts:
  assumes "get_uluna_per_validator st x vs goal = Ok (upv, add, remove, g)"
    and "goal_ok g"
  shows "g = (if goal \<noteq> None then goal else hub_delegation_goal st)"
    and "wf_store upv" and "remove = None" and "upv_total upv + unwrap_or add 0 = x"
    and "dom (get upv) = (case g of Some g' \<Rightarrow> if wd_shares g' \<noteq> [] then fst ` set (wd_shares g') else set vs
           | None \<Rightarrow> set vs)"
proof -
  let ?g = "if goal \<noteq> None then goal else hub_delegation_goal st"
  from assms(1) have g: "g = ?g"
    and upv: "(case ?g of Some g \<Rightarrow> if wd_shares g \<noteq> [] then uluna_by_shares (wd_shares g) x else uluna_uniform vs x
           | None \<Rightarrow> uluna_uniform vs x) = Ok upv"
    and add: "add = (if upv_total upv < x then Some (x - upv_total upv) else None)"
    and rem: "remove = (if upv_total upv > x then Some (upv_total upv - x) else None)"
    by (auto simp: get_uluna_per_validator_def Let_def ok_simps upv_total_def)
  show "g = ?g" by (rule g)
  have cases: "uluna_uniform vs x = Ok upv \<and> (case g of Some g' \<Rightarrow> wd_shares g' = [] | None \<Rightarrow> True) \<or>
    (\<exists>g'. g = Some g' \<and> wd_shares g' \<noteq> [] \<and> shares_ok (wd_shares g') \<and> uluna_by_shares (wd_shares g') x = Ok upv)"
    using upv assms(2) unfolding g [symmetric] by (auto split: option.splits if_splits)
  from cases have "upv_total upv \<le> x"
    by (elim disjE) (auto dest: uluna_by_shares_facts uluna_uniform_facts)
  then show "remove = None" "upv_total upv + unwrap_or add 0 = x" by (auto simp: add rem)
  from cases show "wf_store upv"
    by (elim disjE) (auto dest: uluna_by_shares_facts uluna_uniform_facts)
  show "dom (get upv) = (case g of Some g' \<Rightarrow> if wd_shares g' \<noteq> [] then fst ` set (wd_shares g') else set vs
           | None \<Rightarrow> set vs)"
    using cases
  proof (elim disjE exE conjE)
    assume "uluna_uniform vs x = Ok upv" "case g of Some g' \<Rightarrow> wd_shares g' = [] | None \<Rightarrow> True"
    then show ?thesis by (auto dest: uluna_uniform_facts(3) split: option.splits)
  next
    fix g' assume "g = Some g'" "wd_shares g' \<noteq> []" "shares_ok (wd_shares g')"
      "uluna_by_shares (wd_shares g') x = Ok upv"
    then show ?thesis using uluna_by_shares_facts(3) by simp
  qed
qed

text \<open>Existence: with a sound goal, or a non-empty whitelist in uniform mode, the targets are computed.\<close>

definition distributable :: "wanted_delegations_share option \<Rightarrow> string list \<Rightarrow> bool" where
  "distributable g vs \<longleftrightarrow>
     goal_ok g \<and> (case g of Some g' \<Rightarrow> wd_shares g' \<noteq> [] \<or> vs \<noteq> [] | None \<Rightarrow> vs \<noteq> [])"

lemma uluna_by_shares_total:
  assumes "shares_ok shares" and "x \<le> U128_MAX"
  shows "\<exists>upv. uluna_by_shares shares x = Ok upv"
proof -
  have "checked_mul_uint (snd d) x = Ok (x * snd d div DEC_ONE)" if "d \<in> set shares" for d
  proof -
    have "snd d \<le> DEC_ONE"
      using sum_list_le_member [OF that, of snd] assms(1) by (simp add: shares_ok_def)
    then have "x * snd d div DEC_ONE \<le> x" by (rule multiply_ratio_le)
    then show ?thesis using assms(2) by (simp add: ok_simps)
  qed
  then show ?thesis
    by (simp add: uluna_by_shares_def traverse_Ok_map [where g = "\<lambda>d. (fst d, x * snd d div DEC_ONE)"])
qed

lemma get_uluna_per_validator_total:
  assumes "distributable (if goal \<noteq> None then goal else hub_delegation_goal st) vs" and "x \<le> U128_MAX"
  shows "\<exists>upv add remove g. get_uluna_per_validator st x vs goal = Ok (upv, add, remove, g) \<and> goal_ok g"
proof -
  define g where "g = (if goal \<noteq> None then goal else hub_delegation_goal st)"
  have u: "vs \<noteq> [] \<Longrightarrow> \<exists>upv. uluna_uniform vs x = Ok upv"
    by (simp add: uluna_uniform_def u128_div_def)
  have dist: "distributable g vs" using assms(1) by (simp add: g_def)
  have "\<exists>upv. (case g of Some g \<Rightarrow> if wd_shares g \<noteq> [] then uluna_by_shares (wd_shares g) x else uluna_uniform vs x
           | None \<Rightarrow> uluna_uniform vs x) = Ok upv"
  proof (cases g)
    case None
    with dist u show ?thesis by (simp add: distributable_def)
  next
    case (Some g')
    show ?thesis
    proof (cases "wd_shares g' = []")
      case True
      with Some dist u show ?thesis by (simp add: distributable_def)
    next
      case False
      with Some dist uluna_by_shares_total [OF _ assms(2)] show ?thesis by (simp add: distributable_def)
    qed
  qed
  then obtain upv where upv: "(case g of Some g \<Rightarrow> if wd_shares g \<noteq> [] then uluna_by_shares (wd_shares g) x else uluna_uniform vs x
           | None \<Rightarrow> uluna_uniform vs x) = Ok upv" ..
  have "upv_total upv \<le> x"
    using upv assms(1) unfolding g_def [symmetric] distributable_def
    by (auto dest: uluna_by_shares_facts(2) uluna_uniform_facts(2) split: option.splits if_splits)
  then have "(u128_sum (map snd (entries upv)) :: (u128, std_error) result) = Ok (upv_total upv)"
    using assms(2) by (simp add: u128_sum_def bounded_def upv_total_def)
  then show ?thesis
    using upv assms(1) unfolding get_uluna_per_validator_def g_def [symmetric] Let_def distributable_def
    by simp
qed

text \<open>The targets the loops ask for, one per delegation, in the order of the list.\<close>

fun targets ::
    "utoken_per_validator \<Rightarrow> u128 option \<Rightarrow> u128 option \<Rightarrow> delegation list \<Rightarrow> (u128 list, 'e) result" where
  "targets upv add remove [] = Ok []"
| "targets upv add remove (d # ds) =
     and_then (get_uluna_for_validator upv d add remove) (\<lambda>(t, add', remove').
     and_then (targets upv add' remove' ds) (\<lambda>ts. Ok (t # ts)))"

definition base_target :: "utoken_per_validator \<Rightarrow> delegation \<Rightarrow> u128" where
  "base_target upv d = unwrap_or (get upv (d_validator d)) 0"

fun plus_first :: "u128 \<Rightarrow> u128 list \<Rightarrow> u128 list" where
  "plus_first a [] = []"
| "plus_first a (t # ts) = (t + a) # ts"

lemma targets_plain: "targets upv None None ds = Ok (map (base_target upv) ds)"
  by (induction ds) (simp_all add: get_uluna_for_validator_def base_target_def)

lemma base_target_le: "wf_store upv \<Longrightarrow> base_target upv d \<le> upv_total upv"
  using om.member_le_total [of upv "d_validator d" _ snd]
  by (cases "get upv (d_validator d)") (auto simp: base_target_def upv_total_def)

lemma targets_value:
  assumes "wf_store upv" and "upv_total upv + unwrap_or add 0 \<le> U128_MAX"
  shows "targets upv add None ds = Ok (plus_first (unwrap_or add 0) (map (base_target upv) ds))"
proof (cases ds)
  case Nil
  then show ?thesis by simp
next
  case (Cons d ds')
  show ?thesis
  proof (cases add)
    case None
    then show ?thesis using Cons targets_plain [of upv ds] by simp
  next
    case (Some a)
    have "base_target upv d + a \<le> U128_MAX"
      using base_target_le [OF assms(1), of d] assms(2) Some by simp
    then show ?thesis
      using Cons Some by (simp add: get_uluna_for_validator_def base_target_def [symmetric]
          u128_add_def bounded_def targets_plain)
  qed
qed

text \<open>The base targets of different validators sum to at most the total, and to the total when every
  validator with a target occurs.\<close>

lemma upv_total_as_sum:
  assumes "wf_store upv"
  shows "upv_total upv = (\<Sum>v \<in> dom (get upv). the (get upv v))"
proof -
  have set: "set (entries upv) = (\<lambda>v. (v, the (get upv v))) ` dom (get upv)"
    by (auto simp: om.entries_eq_set [OF assms] image_iff dom_def)
  have "upv_total upv = sum snd (set (entries upv))"
    unfolding upv_total_def by (rule om.total_as_sum [OF assms])
  also have "\<dots> = (\<Sum>v \<in> dom (get upv). the (get upv v))"
    unfolding set by (subst sum.reindex) (auto simp: inj_on_def)
  finally show ?thesis .
qed

lemma dom_get_finite: "finite (dom (get upv))"
  by (simp add: get_def [abs_def] finite_dom_map_of)

lemma base_targets_as_sum:
  assumes "distinct (map d_validator ds)"
  shows "sum_list (map (base_target upv) ds) = (\<Sum>v \<in> dom (get upv) \<inter> d_validator ` set ds. the (get upv v))"
proof -
  have "sum_list (map (base_target upv) ds) = (\<Sum>v \<leftarrow> map d_validator ds. unwrap_or (get upv v) 0)"
    by (simp add: base_target_def [abs_def] comp_def)
  also have "\<dots> = (\<Sum>v \<in> d_validator ` set ds. unwrap_or (get upv v) 0)"
    using sum_list_distinct_conv_sum_set [OF assms, of "\<lambda>v. unwrap_or (get upv v) 0"]
    by (simp add: comp_def)
  also have "\<dots> = (\<Sum>v \<in> dom (get upv) \<inter> d_validator ` set ds. the (get upv v))"
    by (rule sum.mono_neutral_cong_right) (auto simp: unwrap_or_def split: option.splits)
  finally show ?thesis .
qed

lemma base_targets_le:
  assumes "wf_store upv" and "distinct (map d_validator ds)"
  shows "sum_list (map (base_target upv) ds) \<le> upv_total upv"
  unfolding base_targets_as_sum [OF assms(2)] upv_total_as_sum [OF assms(1)]
  by (rule sum_mono2) (auto simp: dom_get_finite)

lemma base_targets_all:
  assumes "wf_store upv" and "distinct (map d_validator ds)" and "dom (get upv) \<subseteq> d_validator ` set ds"
  shows "sum_list (map (base_target upv) ds) = upv_total upv"
  unfolding base_targets_as_sum [OF assms(2)] upv_total_as_sum [OF assms(1)]
  using assms(3) by (simp add: Int_absorb2)

lemma sum_plus_first: "sum_list (plus_first a ts) = (if ts = [] then 0 else sum_list ts + a)"
  by (cases ts) auto

lemma length_plus_first [simp]: "length (plus_first a ts) = length ts"
  by (cases ts) auto

end
