(* ===== verification/HubMathLoops.thy ===== *)
theory HubMathLoops
  imports HubMathFacts
begin

text \<open>
  The loops of \<open>math.rs\<close>. The undelegation and removal loops both hand out an available amount along a list of
  wishes; \<open>greedy\<close> is the reference, and the loops (with their early exit and their
  skipped zero amounts) are proved equal to it. The matching loop of a rebalance is characterised by the flow out
  of and into each validator.
\<close>

section \<open>Greedy filling\<close>

fun greedy :: "nat \<Rightarrow> nat list \<Rightarrow> nat list" where
  "greedy a [] = []"
| "greedy a (w # ws) = min w a # greedy (a - min w a) ws"

lemma length_greedy [simp]: "length (greedy a ws) = length ws"
  by (induction ws arbitrary: a) auto

lemma sum_greedy: "sum_list (greedy a ws) = min a (sum_list ws)"
  by (induction ws arbitrary: a) (auto simp: min_def)

lemma greedy_le: "list_all2 (\<le>) (greedy a ws) ws"
  by (induction ws arbitrary: a) auto

lemma greedy_zero [simp]: "greedy 0 ws = replicate (length ws) 0"
  by (induction ws) auto

lemma greedy_exhausts: "a \<le> sum_list ws \<Longrightarrow> sum_list (greedy a ws) = a"
  by (simp add: sum_greedy)

text \<open>The messages of a filling: one per entry that got a non-zero amount.\<close>

definition moves :: "(string \<Rightarrow> nat \<Rightarrow> 'm) \<Rightarrow> delegation list \<Rightarrow> nat list \<Rightarrow> 'm list" where
  "moves mk ds us = map (\<lambda>(d, u). mk (d_validator d) u) (filter (\<lambda>(d, u). u > 0) (zip ds us))"

lemma moves_simps [simp]:
  "moves mk [] us = []"
  "moves mk (d # ds) (u # us) = (if u > 0 then [mk (d_validator d) u] else []) @ moves mk ds us"
  by (simp_all add: moves_def)

lemma moves_zero [simp]: "moves mk ds (replicate n 0) = []"
  by (auto simp: moves_def set_zip_rightD filter_empty_conv dest!: set_zip_rightD)

text \<open>What is asked of a validator: the excess over its target, or the deficit below it.\<close>

definition excess :: "delegation list \<Rightarrow> nat list \<Rightarrow> nat list" where
  "excess ds ts = map2 (\<lambda>d t. d_amount d - t) ds ts"

definition deficit :: "delegation list \<Rightarrow> nat list \<Rightarrow> nat list" where
  "deficit ds ts = map2 (\<lambda>d t. t - d_amount d) ds ts"

lemma targets_length: "targets upv add remove ds = Ok ts \<Longrightarrow> length ts = length ds"
  by (induction ds arbitrary: add remove ts) (auto simp: ok_simps)

lemma undelegate_loop_greedy:
  assumes "(targets upv add remove ds :: (nat list, 'e) result) = Ok ts"
  shows "(undelegate_loop upv add remove a ds :: (undelegation list \<times> nat, 'e) result) =
    Ok (moves mk_undelegation ds (greedy a (excess ds ts)), a - sum_list (greedy a (excess ds ts)))"
  using assms
proof (induction ds arbitrary: add remove a ts)
  case Nil
  then show ?case by (simp add: excess_def deficit_def)
next
  case (Cons d ds)
  from Cons.prems obtain t add' remove' ts' where
    t: "(get_uluna_for_validator upv d add remove :: (_, 'e) result) = Ok (t, add', remove')"
    and ts': "(targets upv add' remove' ds :: (_, 'e) result) = Ok ts'" and ts: "ts = t # ts'"
    by (auto simp: ok_simps)
  let ?w = "d_amount d - t"
  show ?case
  proof (cases "?w > 0 \<and> a \<le> ?w")
    case True
    with t show ?thesis
      by (simp add: ts excess_def min_def Let_def split: if_splits)
  next
    case False
    with t Cons.IH [OF ts', of "a - min ?w a"] show ?thesis
      by (auto simp: ts excess_def Let_def min_def)
  qed
qed

lemma removal_loop_greedy:
  assumes "(targets upv add remove ds :: (nat list, 'e) result) = Ok ts"
  shows "(removal_loop upv src add remove a ds :: (redelegation list, 'e) result) =
    Ok (moves (mk_redelegation src) ds (greedy a (deficit ds ts)))"
  using assms
proof (induction ds arbitrary: add remove a ts)
  case Nil
  then show ?case by (simp add: excess_def deficit_def)
next
  case (Cons d ds)
  from Cons.prems obtain t add' remove' ts' where
    t: "(get_uluna_for_validator upv d add remove :: (_, 'e) result) = Ok (t, add', remove')"
    and ts': "(targets upv add' remove' ds :: (_, 'e) result) = Ok ts'" and ts: "ts = t # ts'"
    by (auto simp: ok_simps)
  let ?w = "t - d_amount d"
  show ?case
  proof (cases "a \<le> ?w")
    case True
    with t show ?thesis
      by (auto simp: ts deficit_def min_def Let_def split: if_splits)
  next
    case False
    with t Cons.IH [OF ts', of "a - min ?w a"] show ?thesis
      by (auto simp: ts deficit_def Let_def min_def)
  qed
qed

section \<open>The matching loop\<close>

definition outflow :: "string \<Rightarrow> redelegation list \<Rightarrow> nat" where
  "outflow v rs = sum_list (map r_amount (filter (\<lambda>r. r_src r = v) rs))"

definition inflow :: "string \<Rightarrow> redelegation list \<Rightarrow> nat" where
  "inflow v rs = sum_list (map r_amount (filter (\<lambda>r. r_dst r = v) rs))"

definition amount_of :: "string \<Rightarrow> delegation list \<Rightarrow> nat" where
  "amount_of v ds = sum_list (map d_amount (filter (\<lambda>d. d_validator d = v) ds))"

lemma flow_simps [simp]:
  "outflow v [] = 0" "inflow v [] = 0" "amount_of v [] = 0"
  "outflow v (r # rs) = (if r_src r = v then r_amount r else 0) + outflow v rs"
  "inflow v (r # rs) = (if r_dst r = v then r_amount r else 0) + inflow v rs"
  "amount_of v (d # ds) = (if d_validator d = v then d_amount d else 0) + amount_of v ds"
  by (simp_all add: outflow_def inflow_def amount_of_def)

text \<open>When the sources cover the destinations, every destination is filled, and no source gives more than it has to give.\<close>

lemma match_loop_flows:
  assumes "sum_list (map d_amount dsts) \<le> sum_list (map d_amount srcs)"
  shows "outflow v (match_loop srcs dsts) \<le> amount_of v srcs \<and> inflow v (match_loop srcs dsts) = amount_of v dsts
    \<and> (sum_list (map d_amount srcs) = sum_list (map d_amount dsts) \<longrightarrow> outflow v (match_loop srcs dsts) = amount_of v srcs)"
  using assms
proof (induction srcs dsts rule: match_loop.induct)
  case (1 dsts)
  then have "amount_of v dsts = 0"
    by (auto simp: amount_of_def)
  then show ?case by simp
next
  case (2 s srcs)
  have "sum_list (map d_amount (s # srcs)) = 0 \<longrightarrow> amount_of v (s # srcs) = 0"
    by (auto simp: amount_of_def)
  then show ?case by simp
next
  case (3 s srcs d dsts)
  define u where "u = min (d_amount s) (d_amount d)"
  define srcs' where "srcs' = (if d_amount s = u then srcs else s\<lparr>d_amount := d_amount s - u\<rparr> # srcs)"
  define dsts' where "dsts' = (if d_amount d = u then dsts else d\<lparr>d_amount := d_amount d - u\<rparr> # dsts)"
  have eq: "match_loop (s # srcs) (d # dsts) =
      mk_redelegation (d_validator s) (d_validator d) u # match_loop srcs' dsts'"
    by (simp add: Let_def u_def srcs'_def dsts'_def)
  have le: "u \<le> d_amount s" "u \<le> d_amount d" by (simp_all add: u_def)
  have sums: "sum_list (map d_amount srcs') + u = sum_list (map d_amount (s # srcs))"
    "sum_list (map d_amount dsts') + u = sum_list (map d_amount (d # dsts))"
    using le by (auto simp: srcs'_def dsts'_def)
  with 3(2) have "sum_list (map d_amount dsts') \<le> sum_list (map d_amount srcs')" by simp
  from 3(1) [OF u_def srcs'_def dsts'_def this] sums have IH: "outflow v (match_loop srcs' dsts') \<le> amount_of v srcs'"
      "inflow v (match_loop srcs' dsts') = amount_of v dsts'"
      "sum_list (map d_amount (s # srcs)) = sum_list (map d_amount (d # dsts)) \<longrightarrow> outflow v (match_loop srcs' dsts') = amount_of v srcs'"
    by auto
  have amounts: "amount_of v srcs' + (if d_validator s = v then u else 0) = amount_of v (s # srcs)"
    "amount_of v dsts' + (if d_validator d = v then u else 0) = amount_of v (d # dsts)"
    using le by (auto simp: srcs'_def dsts'_def)
  show ?case
    unfolding eq using IH amounts by auto
qed

lemma match_loop_members:
  assumes "r \<in> set (match_loop srcs dsts)"
  shows "r_src r \<in> d_validator ` set srcs" and "r_dst r \<in> d_validator ` set dsts"
  using assms
proof (induction srcs dsts rule: match_loop.induct)
  case (3 s srcs d dsts)
  {
    case 1
    with 3(1) show ?case by (fastforce simp: Let_def split: if_splits)
  next
    case 2
    with 3(2) show ?case by (fastforce simp: Let_def split: if_splits)
  }
qed auto

lemma match_loop_positive:
  assumes "\<And>x. x \<in> set srcs \<union> set dsts \<Longrightarrow> 0 < d_amount x" and "r \<in> set (match_loop srcs dsts)"
  shows "0 < r_amount r"
  using assms
proof (induction srcs dsts rule: match_loop.induct)
  case (3 s srcs d dsts)
  define u where "u = min (d_amount s) (d_amount d)"
  define srcs' where "srcs' = (if d_amount s = u then srcs else s\<lparr>d_amount := d_amount s - u\<rparr> # srcs)"
  define dsts' where "dsts' = (if d_amount d = u then dsts else d\<lparr>d_amount := d_amount d - u\<rparr> # dsts)"
  from 3(3) have r: "r = mk_redelegation (d_validator s) (d_validator d) u \<or> r \<in> set (match_loop srcs' dsts')"
    by (auto simp: Let_def u_def srcs'_def dsts'_def)
  have pos: "0 < u" using 3(2) by (auto simp: u_def)
  have "0 < d_amount x" if "x \<in> set srcs' \<union> set dsts'" for x
    using that 3(2) by (auto simp: srcs'_def dsts'_def u_def min_def split: if_splits)
  from 3(1) [OF u_def srcs'_def dsts'_def this] r pos show ?case by auto
qed auto

section \<open>Undelegations move exactly what is unbonded\<close>

text \<open>Whatever the targets are, the loop accounts for all it was given.\<close>

lemma undelegate_loop_accounts:
  "(undelegate_loop upv add remove a ds :: (_, 'a) result) = Ok (us, rest) \<Longrightarrow> sum_list (map u_amount us) + rest = a"
proof (induction ds arbitrary: add remove a us)
  case Nil
  then show ?case by simp
next
  case (Cons d ds)
  from Cons.prems obtain t add' remove' where
    t: "(get_uluna_for_validator upv d add remove :: (_, 'a) result) = Ok (t, add', remove')"
    by (auto simp: ok_simps)
  define w where "w = (if d_amount d < t then 0 else d_amount d - t)"
  show ?case
  proof (cases "w > 0")
    case False
    with Cons.prems t have "(undelegate_loop upv add' remove' a ds :: (_, 'a) result) = Ok (us, rest)"
      by (simp add: w_def [symmetric] Let_def)
    then show ?thesis by (rule Cons.IH)
  next
    case w: True
    define u where "u = min w a"
    define out where "out = (if u > 0 then [mk_undelegation (d_validator d) u] else [])"
    have out: "sum_list (map u_amount out) = u" by (simp add: out_def)
    have le: "u \<le> a" by (simp add: u_def)
    have run: "(if a - u = 0 then Ok (out, a - u)
        else and_then (undelegate_loop upv add' remove' (a - u) ds) (\<lambda>(us, rest). Ok (out @ us, rest)))
        = (Ok (us, rest) :: (_, 'a) result)"
      using Cons.prems t w by (cases "u > 0"; cases "a \<le> u") (simp_all add: w_def [symmetric] u_def [symmetric] out_def Let_def)
    show ?thesis
    proof (cases "a - u = 0")
      case True
      with run le out show ?thesis by auto
    next
      case False
      with run obtain us' where "(undelegate_loop upv add' remove' (a - u) ds :: (_, 'a) result) = Ok (us', rest)" "us = out @ us'"
        by (auto simp: ok_simps)
      with Cons.IH [of add' remove' "a - u" us'] le out show ?thesis by simp
    qed
  qed
qed

lemma undelegations_sum: "compute_undelegations st x ds vs = Ok us \<Longrightarrow> sum_list (map u_amount us) = x"
  by (auto simp: compute_undelegations_def ok_simps dest: undelegate_loop_accounts split: if_splits prod.splits)

lemma sum_excess: "length ts = length ds \<Longrightarrow>
    sum_list (excess ds ts) + sum_list ts = sum_list (map d_amount ds) + sum_list (deficit ds ts)"
proof (induction ds ts rule: list_induct2')
  case (4 d ds t ts)
  then show ?case by (simp add: excess_def deficit_def)
qed (simp_all add: excess_def deficit_def)

lemma excess_deficit_length [simp]:
  "length (excess ds ts) = min (length ds) (length ts)"
  "length (deficit ds ts) = min (length ds) (length ts)"
  by (simp_all add: excess_def deficit_def)

lemma moves_member:
  assumes "m \<in> set (moves mk ds us)"
  obtains i where "i < length ds" "i < length us" "0 < us ! i" "m = mk (d_validator (ds ! i)) (us ! i)"
  using assms by (auto simp: moves_def in_set_zip)

lemma moves_sum:
  assumes "length us = length ds" and "\<And>v u. amt (mk v u) = u"
  shows "sum_list (map amt (moves mk ds us)) = sum_list us"
  using assms(1) by (induction ds us rule: list_induct2') (auto simp: assms(2))

lemma moves_validators:
  assumes "\<And>v u. val (mk v u) = v" and "distinct (map d_validator ds)"
  shows "distinct (map val (moves mk ds us)) \<and> set (map val (moves mk ds us)) \<subseteq> d_validator ` set ds"
  using assms(2)
proof (induction ds us rule: list_induct2')
  case (4 d ds u us)
  then show ?case by (auto simp: assms(1))
qed (simp_all add: moves_def)

lemma merge_facts:
  assumes "distinct (map d_validator ds)" and "distinct vs"
  shows "distinct (map d_validator (merge_with_validators ds vs))"
    and "sum_list (map d_amount (merge_with_validators ds vs)) = sum_list (map d_amount ds)"
    and "d_validator ` set (merge_with_validators ds vs) = d_validator ` set ds \<union> set vs"
    and "d \<in> set (merge_with_validators ds vs) \<Longrightarrow> d_amount d \<noteq> 0 \<Longrightarrow> d \<in> set ds"
proof -
  show "distinct (map d_validator (merge_with_validators ds vs))"
    using assms by (auto simp: merge_with_validators_def comp_def)
  show "sum_list (map d_amount (merge_with_validators ds vs)) = sum_list (map d_amount ds)"
    by (simp add: merge_with_validators_def comp_def)
  show "d_validator ` set (merge_with_validators ds vs) = d_validator ` set ds \<union> set vs"
    by (auto simp: merge_with_validators_def image_Un image_image)
  show "d \<in> set (merge_with_validators ds vs) \<Longrightarrow> d_amount d \<noteq> 0 \<Longrightarrow> d \<in> set ds"
    by (auto simp: merge_with_validators_def)
qed

lemma merge_nonempty: "ds \<noteq> [] \<or> vs \<noteq> [] \<Longrightarrow> merge_with_validators ds vs \<noteq> []"
  by (cases ds; cases vs) (auto simp: merge_with_validators_def)

lemma goal_value:
  assumes "staked \<le> U128_MAX" and "distributable (hub_delegation_goal st) vs"
  shows "\<exists>upv add remove g. get_uluna_per_validator st staked vs None = Ok (upv, add, remove, g) \<and> goal_ok g"
  using get_uluna_per_validator_total [of None st vs staked] assms by simp

text \<open>
  If the whitelist and the delegations name every validator once and the stored goal is sound,
  unbonding an amount that is staked always succeeds, undelegates exactly that amount in positive parts
  from different validators, and takes from no validator more than its delegation exceeds its target.
\<close>

theorem undelegations_exact:
  assumes "distinct (map d_validator ds)" and "distinct vs"
    and "sum_list (map d_amount ds) \<le> U128_MAX" and "x \<le> sum_list (map d_amount ds)"
    and "distributable (hub_delegation_goal st) vs"
  shows "\<exists>us upv add g.
    compute_undelegations st x ds vs = Ok us
    \<and> get_uluna_per_validator st (sum_list (map d_amount ds) - x) vs None = Ok (upv, add, None, g)
    \<and> sum_list (map u_amount us) = x
    \<and> distinct (map u_validator us)
    \<and> (\<forall>u \<in> set us. 0 < u_amount u
        \<and> (\<exists>d \<in> set ds. d_validator d = u_validator u \<and> u_amount u \<le> d_amount d - base_target upv d))"
proof -
  let ?staked = "sum_list (map d_amount ds)"
  let ?ms = "merge_with_validators ds vs"
  obtain upv add remove g where upv: "get_uluna_per_validator st (?staked - x) vs None = Ok (upv, add, remove, g)"
    and g: "goal_ok g"
    using goal_value [of "?staked - x" st vs] assms(3,5) by force
  note facts = get_uluna_per_validator_facts [OF upv g]
  define ts where "ts = plus_first (unwrap_or add 0) (map (base_target upv) ?ms)"
  define ws where "ws = excess ?ms ts"
  have ts: "(targets upv add remove ?ms :: (u128 list, hub_error) result) = Ok ts"
    unfolding facts(3) ts_def by (rule targets_value [OF facts(2)]) (use facts(4) assms(3) in simp)
  note merged = merge_facts [OF assms(1,2)]
  have len: "length ts = length ?ms" by (simp add: ts_def)
  have "sum_list ts \<le> ?staked - x"
    using base_targets_le [OF facts(2) merged(1)] facts(4) by (simp add: ts_def sum_plus_first)
  then have "x \<le> sum_list ws"
    using sum_excess [OF len] merged(2) assms(4) by (simp add: ws_def)
  then have all: "sum_list (greedy x ws) = x" by (rule greedy_exhausts)
  define us where "us = moves mk_undelegation ?ms (greedy x ws)"
  have ok: "compute_undelegations st x ds vs = Ok us"
    using undelegate_loop_greedy [OF ts, of x] assms(3,4) upv all
    by (simp add: compute_undelegations_def sum_delegations_def u128_sum_def bounded_def u128_sub_def
        us_def ws_def)
  have sum: "sum_list (map u_amount us) = x"
    unfolding us_def by (subst moves_sum) (simp_all add: ws_def len all [unfolded ws_def])
  have part: "0 < u_amount u \<and> (\<exists>d \<in> set ds. d_validator d = u_validator u \<and> u_amount u \<le> d_amount d - base_target upv d)"
    if "u \<in> set us" for u
  proof -
    from that have "u \<in> set (moves mk_undelegation ?ms (greedy x ws))" by (simp add: us_def)
    then obtain i where i: "i < length ?ms" "0 < greedy x ws ! i" "u = mk_undelegation (d_validator (?ms ! i)) (greedy x ws ! i)"
      by (rule moves_member) blast
    have "base_target upv (?ms ! i) \<le> ts ! i"
      using i(1) unfolding ts_def by (cases ?ms) (auto simp: nth_Cons split: nat.split)
    moreover have "greedy x ws ! i \<le> d_amount (?ms ! i) - ts ! i"
      using list_all2_nthD [OF greedy_le, of i x ws] i(1) len by (simp add: ws_def excess_def)
    ultimately have le: "greedy x ws ! i \<le> d_amount (?ms ! i) - base_target upv (?ms ! i)" by simp
    have "?ms ! i \<in> set ds" using merged(4) [of "?ms ! i"] i(1,2) le by auto
    then show ?thesis using i(2,3) le by auto
  qed
  have "distinct (map u_validator us)"
    unfolding us_def using moves_validators [of u_validator mk_undelegation, OF _ merged(1)] by simp
  with ok sum part upv facts(3) show ?thesis by blast
qed

theorem undelegations_exact_witness:
  "\<exists>us. compute_undelegations empty_hub_state 10 [mk_delegation ''a'' 60, mk_delegation ''b'' 40] [''a'', ''b''] = Ok us
    \<and> sum_list (map u_amount us) = 10"
proof -
  let ?ds = "[mk_delegation ''a'' 60, mk_delegation ''b'' 40]"
  have "distributable (hub_delegation_goal empty_hub_state) [''a'', ''b'']"
    by (simp add: empty_hub_state_def distributable_def)
  then have "\<exists>us upv add g.
    compute_undelegations empty_hub_state 10 ?ds [''a'', ''b''] = Ok us
    \<and> get_uluna_per_validator empty_hub_state (sum_list (map d_amount ?ds) - 10) [''a'', ''b''] None = Ok (upv, add, None, g)
    \<and> sum_list (map u_amount us) = 10 \<and> distinct (map u_validator us)
    \<and> (\<forall>u \<in> set us. 0 < u_amount u
        \<and> (\<exists>d \<in> set ?ds. d_validator d = u_validator u \<and> u_amount u \<le> d_amount d - base_target upv d))"
    by (intro undelegations_exact) (simp_all add: U128_MAX_def)
  then show ?thesis by blast
qed

section \<open>A rebalance reaches the targets\<close>

lemma split_by_target_spec:
  assumes "(targets upv add remove ds :: (nat list, 'e) result) = Ok ts"
  shows "(split_by_target upv add remove ds :: (_, 'e) result) = Ok
    (map (\<lambda>(d, t). mk_delegation (d_validator d) (d_amount d - t)) (filter (\<lambda>(d, t). t < d_amount d) (zip ds ts)),
     map (\<lambda>(d, t). mk_delegation (d_validator d) (t - d_amount d)) (filter (\<lambda>(d, t). d_amount d < t) (zip ds ts)))"
  using assms
proof (induction ds arbitrary: add remove ts)
  case Nil
  then show ?case by simp
next
  case (Cons d ds)
  from Cons.prems obtain t add' remove' ts' where
    t: "(get_uluna_for_validator upv d add remove :: (_, 'e) result) = Ok (t, add', remove')"
    and ts': "(targets upv add' remove' ds :: (_, 'e) result) = Ok ts'" and ts: "ts = t # ts'"
    by (auto simp: ok_simps)
  from t Cons.IH [OF ts'] show ?case by (auto simp: ts)
qed

definition sources :: "delegation list \<Rightarrow> nat list \<Rightarrow> delegation list" where
  "sources ds ts = map (\<lambda>(d, t). mk_delegation (d_validator d) (d_amount d - t)) (filter (\<lambda>(d, t). t < d_amount d) (zip ds ts))"

definition dests :: "delegation list \<Rightarrow> nat list \<Rightarrow> delegation list" where
  "dests ds ts = map (\<lambda>(d, t). mk_delegation (d_validator d) (t - d_amount d)) (filter (\<lambda>(d, t). d_amount d < t) (zip ds ts))"

lemma source_dest_simps [simp]:
  "sources [] ts = []" "dests [] ts = []" "sources ds [] = []" "dests ds [] = []"
  "sources (d # ds) (t # ts) = (if t < d_amount d then [mk_delegation (d_validator d) (d_amount d - t)] else []) @ sources ds ts"
  "dests (d # ds) (t # ts) = (if d_amount d < t then [mk_delegation (d_validator d) (t - d_amount d)] else []) @ dests ds ts"
  by (simp_all add: sources_def dests_def)

lemma source_dest_sums:
  "sum_list (map d_amount (sources ds ts)) = sum_list (excess ds ts)"
  "sum_list (map d_amount (dests ds ts)) = sum_list (deficit ds ts)"
  by (induction ds ts rule: list_induct2') (auto simp: excess_def deficit_def)

lemma source_dest_members:
  "d \<in> set (sources ds ts) \<Longrightarrow> 0 < d_amount d \<and> d_validator d \<in> d_validator ` set ds"
  "d \<in> set (dests ds ts) \<Longrightarrow> 0 < d_amount d \<and> d_validator d \<in> d_validator ` set ds"
  by (auto simp: sources_def dests_def dest!: set_zip_leftD)

lemma source_dest_disjoint:
  assumes "distinct (map d_validator ds)"
  shows "d_validator ` set (sources ds ts) \<inter> d_validator ` set (dests ds ts) = {}"
  using assms
proof (induction ds ts rule: list_induct2')
  case (4 d ds t ts)
  have "d_validator d \<notin> d_validator ` set (sources ds ts)" "d_validator d \<notin> d_validator ` set (dests ds ts)"
    using 4(2) by (auto dest!: source_dest_members)
  moreover have "d_validator ` set (sources ds ts) \<inter> d_validator ` set (dests ds ts) = {}"
    using 4 by simp
  ultimately show ?case by (cases "t < d_amount d"; cases "d_amount d < t") (simp_all add: disjoint_iff)
qed auto

lemma amount_of_absent: "v \<notin> d_validator ` set ds \<Longrightarrow> amount_of v ds = 0"
  by (induction ds) auto

lemma source_dest_amounts:
  assumes "distinct (map d_validator ds)" and "length ts = length ds" and "i < length ds"
  shows "amount_of (d_validator (ds ! i)) (sources ds ts) = d_amount (ds ! i) - ts ! i
    \<and> amount_of (d_validator (ds ! i)) (dests ds ts) = ts ! i - d_amount (ds ! i)"
  using assms
proof (induction ds ts arbitrary: i rule: list_induct2')
  case (4 d ds t ts)
  have absent: "amount_of (d_validator d) (sources ds ts) = 0" "amount_of (d_validator d) (dests ds ts) = 0"
    using 4(2) by (auto intro!: amount_of_absent dest!: source_dest_members)
  show ?case
  proof (cases i)
    case 0
    with absent show ?thesis by simp
  next
    case (Suc j)
    with 4(4) have j: "j < length ds" by simp
    then have "d_validator (ds ! j) \<in> d_validator ` set ds" by simp
    with 4(2) have other: "d_validator (ds ! j) \<noteq> d_validator d" by auto
    from 4(2,3) have "distinct (map d_validator ds)" "length ts = length ds" by simp_all
    from 4(1) [OF this j] other Suc show ?thesis by auto
  qed
qed auto

text \<open>
  What a rebalance does to one validator: one below its target is filled up to it, one above gives at most what it has above (all of it, when
  the moves are exact).
\<close>

definition moved_to_target :: "bool \<Rightarrow> redelegation list \<Rightarrow> delegation \<Rightarrow> u128 \<Rightarrow> bool" where
  "moved_to_target exact rs d t \<longleftrightarrow>
     (if d_amount d < t then d_amount d + inflow (d_validator d) rs = t \<and> outflow (d_validator d) rs = 0
      else inflow (d_validator d) rs = 0 \<and> t + outflow (d_validator d) rs \<le> d_amount d
        \<and> (exact \<longrightarrow> t + outflow (d_validator d) rs = d_amount d))"

text \<open>Every validator of the stored goal is delegated to or whitelisted.\<close>

definition goal_within :: "hub_state \<Rightarrow> delegation list \<Rightarrow> string list \<Rightarrow> bool" where
  "goal_within st ds vs \<longleftrightarrow> (\<forall>g. hub_delegation_goal st = Some g \<longrightarrow> fst ` set (wd_shares g) \<subseteq> d_validator ` set ds \<union> set vs)"

lemma rebalance_moves:
  assumes "distinct (map d_validator ds)" and "distinct vs" and "goal_ok (hub_delegation_goal st)"
    and "compute_redelegations_for_rebalancing st ds vs = Ok rs"
  obtains upv add ts where "get_uluna_per_validator st (sum_list (map d_amount ds)) vs None = Ok (upv, add, None, hub_delegation_goal st)"
    and "ts = plus_first (unwrap_or add 0) (map (base_target upv) (merge_with_validators ds vs))"
    and "list_all2 (moved_to_target (goal_within st ds vs) rs) (merge_with_validators ds vs) ts"
    and "\<forall>r \<in> set rs. 0 < r_amount r \<and> r_src r \<noteq> r_dst r"
proof -
  let ?staked = "sum_list (map d_amount ds)"
  let ?ms = "merge_with_validators ds vs"
  from assms(4) obtain upv add remove g sd where max: "?staked \<le> U128_MAX"
      and upv: "get_uluna_per_validator st ?staked vs None = Ok (upv, add, remove, g)"
      and split: "split_by_target upv add remove ?ms = (Ok sd :: (_, std_error) result)" and rs: "rs = match_loop (fst sd) (snd sd)"
    by (auto simp: compute_redelegations_for_rebalancing_def sum_delegations_def u128_sum_def ok_simps split: prod.splits)
  from upv have g: "g = hub_delegation_goal st" by (auto simp: get_uluna_per_validator_def Let_def ok_simps)
  note facts = get_uluna_per_validator_facts [OF upv assms(3) [folded g]]
  note merged = merge_facts [OF assms(1,2)]
  define ts where "ts = plus_first (unwrap_or add 0) (map (base_target upv) ?ms)"
  have len: "length ts = length ?ms" by (simp add: ts_def)
  have ts: "(targets upv add remove ?ms :: (u128 list, std_error) result) = Ok ts"
    unfolding facts(3) ts_def by (rule targets_value [OF facts(2)]) (use facts(4) max in simp)
  have sd: "sd = (sources ?ms ts, dests ?ms ts)" using split split_by_target_spec [OF ts] by (simp add: sources_def dests_def)
  have "sum_list ts \<le> ?staked"
    using base_targets_le [OF facts(2) merged(1)] facts(4) by (auto simp: ts_def sum_plus_first)
  then have le: "sum_list (map d_amount (dests ?ms ts)) \<le> sum_list (map d_amount (sources ?ms ts))"
    using sum_excess [OF len] merged(2) by (simp add: source_dest_sums)
  have exact: "sum_list (map d_amount (sources ?ms ts)) = sum_list (map d_amount (dests ?ms ts))" if "goal_within st ds vs"
  proof -
    have "dom (get upv) \<subseteq> d_validator ` set ?ms"
      using facts(1,5) that unfolding merged(3) goal_within_def by (auto split: option.splits if_splits)
    then have base: "sum_list (map (base_target upv) ?ms) = upv_total upv"
      by (rule base_targets_all [OF facts(2) merged(1)])
    have "?ms \<noteq> [] \<or> ?staked = 0" by (cases ds) (auto simp: merge_with_validators_def)
    then have "sum_list ts = ?staked"
      using base facts(4) by (auto simp: ts_def sum_plus_first)
    then show ?thesis using sum_excess [OF len] merged(2) by (simp add: source_dest_sums)
  qed
  have "moved_to_target (goal_within st ds vs) rs (?ms ! i) (ts ! i)" if "i < length ?ms" for i
    using source_dest_amounts [OF merged(1) len that] match_loop_flows [OF le, of "d_validator (?ms ! i)"] exact
    by (auto simp: moved_to_target_def rs sd)
  then have all: "list_all2 (moved_to_target (goal_within st ds vs) rs) ?ms ts" using len by (simp add: list_all2_conv_all_nth)
  have moves: "\<forall>r \<in> set rs. 0 < r_amount r \<and> r_src r \<noteq> r_dst r"
  proof (intro ballI conjI)
    fix r assume "r \<in> set rs"
    then have r: "r \<in> set (match_loop (sources ?ms ts) (dests ?ms ts))" by (simp add: rs sd)
    have "0 < d_amount x" if "x \<in> set (sources ?ms ts) \<union> set (dests ?ms ts)" for x
      using that source_dest_members [of x ?ms ts] by auto
    from match_loop_positive [OF this r] show "0 < r_amount r" by simp
    show "r_src r \<noteq> r_dst r"
      using match_loop_members [OF r] source_dest_disjoint [OF merged(1), of ts] by (metis disjoint_iff)
  qed
  show ?thesis by (rule that [OF upv [unfolded facts(3) g] ts_def all moves])
qed

section \<open>A removed validator is emptied\<close>

text \<open>
  Removing a validator, with the targets inside the remaining validators, redelegates its whole delegation:
  every move is positive, starts at the removed validator, and no destination gets more than it lacks to its target
  or is named twice.
\<close>

theorem removal_moves_everything:
  assumes "distinct (map d_validator ds)" and "distinct vs" and "vs \<noteq> []"
    and "sum_list (map d_amount ds) + d_amount x \<le> U128_MAX"
    and "distributable (hub_delegation_goal st) vs"
    and "\<And>g. hub_delegation_goal st = Some g \<Longrightarrow>
          fst ` set (wd_shares g) \<subseteq> d_validator ` set ds \<union> set vs"
  shows "\<exists>rs. compute_redelegations_for_removal st x ds vs = Ok rs
    \<and> sum_list (map r_amount rs) = d_amount x
    \<and> distinct (map r_dst rs)
    \<and> (\<forall>r \<in> set rs. 0 < r_amount r \<and> r_src r = d_validator x \<and> r_dst r \<in> d_validator ` set ds \<union> set vs)"
proof -
  let ?total = "sum_list (map d_amount ds) + d_amount x"
  let ?ms = "merge_with_validators ds vs"
  obtain upv add remove g where upv: "get_uluna_per_validator st ?total vs None = Ok (upv, add, remove, g)"
    and g: "goal_ok g"
    using goal_value [of "?total" st vs] assms(4,5) by force
  note facts = get_uluna_per_validator_facts [OF upv g]
  note merged = merge_facts [OF assms(1,2)]
  define ts where "ts = plus_first (unwrap_or add 0) (map (base_target upv) ?ms)"
  have len: "length ts = length ?ms" by (simp add: ts_def)
  have ts: "(targets upv add remove ?ms :: (u128 list, std_error) result) = Ok ts"
    unfolding facts(3) ts_def by (rule targets_value [OF facts(2)]) (use facts(4) assms(4) in simp)
  have "dom (get upv) \<subseteq> d_validator ` set ?ms"
    using facts(1,5) assms(6) unfolding merged(3) by (auto split: option.splits if_splits)
  then have base: "sum_list (map (base_target upv) ?ms) = upv_total upv"
    by (rule base_targets_all [OF facts(2) merged(1)])
  have "?ms \<noteq> []" using assms(3) by (intro merge_nonempty) simp
  then have "sum_list ts = ?total"
    using base facts(4) by (simp add: ts_def sum_plus_first)
  then have "d_amount x \<le> sum_list (deficit ?ms ts)"
    using sum_excess [OF len] merged(2) by simp
  then have all: "sum_list (greedy (d_amount x) (deficit ?ms ts)) = d_amount x" by (rule greedy_exhausts)
  define rs where "rs = moves (mk_redelegation (d_validator x)) ?ms (greedy (d_amount x) (deficit ?ms ts))"
  have ok: "compute_redelegations_for_removal st x ds vs = Ok rs"
    using removal_loop_greedy [OF ts, of "d_validator x" "d_amount x"] upv assms(4)
    by (simp add: compute_redelegations_for_removal_def sum_delegations_def u128_sum_def bounded_def u128_add_def
        rs_def)
  have sum: "sum_list (map r_amount rs) = d_amount x"
    unfolding rs_def by (subst moves_sum) (simp_all add: len all)
  have dst: "distinct (map r_dst rs)" "r_dst ` set rs \<subseteq> d_validator ` set ?ms"
    unfolding rs_def using moves_validators [of r_dst "mk_redelegation (d_validator x)", OF _ merged(1)] by auto
  have "0 < r_amount r \<and> r_src r = d_validator x" if "r \<in> set rs" for r
    using that unfolding rs_def by (elim moves_member) simp
  with ok sum dst show ?thesis unfolding merged(3) by (intro exI [of _ rs]) auto
qed

theorem removal_moves_everything_witness:
  "\<exists>rs. compute_redelegations_for_removal empty_hub_state (mk_delegation ''c'' 30)
      [mk_delegation ''a'' 61, mk_delegation ''b'' 40] [''a'', ''b''] = Ok rs \<and> sum_list (map r_amount rs) = 30"
proof -
  have d: "distributable (hub_delegation_goal empty_hub_state) [''a'', ''b'']"
    by (simp add: empty_hub_state_def distributable_def)
  have n: "hub_delegation_goal empty_hub_state = Some g \<Longrightarrow>
      fst ` set (wd_shares g) \<subseteq> d_validator ` set [mk_delegation ''a'' 61, mk_delegation ''b'' 40] \<union> set [''a'', ''b'']" for g
    by (simp add: empty_hub_state_def)
  from removal_moves_everything [OF _ _ _ _ d n, where x = "mk_delegation ''c'' 30"] show ?thesis
    by (auto simp: U128_MAX_def)
qed

end
