(* ===== verification/HubInvariant.thy ===== *)
theory HubInvariant
  imports HubUnbond HubMathLoops
begin

text \<open>
  Every state the hub can reach, by an instantiation followed by any messages, replies and migrations against any chain,
  satisfies the invariant: sound configuration, distinct validators, a distribution goal within one, and sound
  books.
\<close>

section \<open>Wanted delegations are a sound goal\<close>

lemma normalize_shares_sound:
  assumes "normalize_shares vs = Ok shares"
  shows "map fst shares = map fst vs" and "shares_ok shares"
proof -
  define d where "d = sum_list (map (\<lambda>(_, score, _). score) vs)"
  from assms have "traverse (\<lambda>(val, score, _).
         and_then (map_err (\<lambda>_. GenericErr ''Could not divide by total'') (dec_checked_div score d))
           (\<lambda>normalized. Ok (val, normalized))) vs = Ok shares"
    by (auto simp: normalize_shares_def ok_simps d_def)
  then have eq: "shares = map (\<lambda>v. (fst v, DEC_ONE * fst (snd v) div d)) vs"
    by (rule traverse_Ok_mapD) (auto simp: ok_simps mult.commute split: prod.splits)
  show "map fst shares = map fst vs" by (simp add: eq comp_def)
  have d': "d = sum_list (map (fst \<circ> snd) vs)"
    unfolding d_def by (intro arg_cong [where f = sum_list] map_cong) auto
  have "sum_list (map snd shares) = sum_list (map (\<lambda>b. DEC_ONE * b div d) (map (fst \<circ> snd) vs))"
    by (simp add: eq comp_def)
  also have "\<dots> \<le> DEC_ONE * sum_list (map (fst \<circ> snd) vs) div d" by (rule sum_div_le)
  also have "\<dots> \<le> DEC_ONE" by (rule multiply_ratio_le) (simp add: d')
  finally show "shares_ok shares" by (simp add: shares_ok_def)
qed

lemma scored_validators:
  "traverse (validator_score vc ec vf ef mx) validators = Ok scored \<Longrightarrow> map fst scored = validators"
  by (induction validators arbitrary: scored) (auto simp: ok_simps validator_score_def Let_def)

lemma wanted_sound:
  assumes "get_wanted_delegations st env deps loader = Ok (w, save)"
    and "hub_validators st = Some validators" and "distinct validators"
  shows "shares_ok (wd_shares w)" and "distinct (map fst (wd_shares w))" and "fst ` set (wd_shares w) \<subseteq> set validators"
    and "save \<longleftrightarrow> unwrap_or (hub_delegation_strategy st) Uniform \<noteq> Uniform"
    and "unwrap_or (hub_delegation_strategy st) Uniform = Gauges amp emp f mn mx n \<Longrightarrow> length (wd_shares w) \<le> n"
proof -
  let ?s = "unwrap_or (hub_delegation_strategy st) Uniform"
  have "shares_ok (wd_shares w) \<and> distinct (map fst (wd_shares w)) \<and> fst ` set (wd_shares w) \<subseteq> set validators
    \<and> (save \<longleftrightarrow> ?s \<noteq> Uniform) \<and> (\<forall>amp emp f mn mx n. ?s = Gauges amp emp f mn mx n \<longrightarrow> length (wd_shares w) \<le> n)"
  proof (cases ?s)
    case Uniform
    with assms(1,2) have w: "wd_shares w = map (\<lambda>v. (v, DEC_ONE div length validators)) validators" "\<not> save"
      by (auto simp: get_wanted_delegations_def ok_simps)
    have "length validators * (DEC_ONE div length validators) \<le> DEC_ONE" by (rule times_div_less_eq_dividend)
    with w assms(3) Uniform show ?thesis
      by (auto simp: shares_ok_def comp_def sum_list_triv)
  next
    case (Gauges amp' emp' f' mn' mx' n')
    with assms(1,2) obtain vc ec vf ef mxd mnd scored shares where
      scored: "traverse (validator_score vc ec vf ef mxd) validators = Ok scored"
      and shares: "normalize_shares (take n' (sorted_desc (\<lambda>(_, _, total). total)
              (filter (\<lambda>(_, score, _). score > mnd) scored))) = Ok shares"
      and w: "wd_shares w = shares" "save"
      by (auto simp: get_wanted_delegations_def ok_simps)
    note fst = scored_validators [OF scored]
    note N = normalize_shares_sound [OF shares]
    let ?kept = "filter (\<lambda>(_, score, _). score > mnd) scored"
    have dist: "distinct (map fst (sorted_desc (\<lambda>(_, _, total). total) ?kept))"
      using assms(3) fst by (simp add: distinct_map_filter)
    have "length shares = length (map fst shares)" by simp
    also have "\<dots> \<le> n'" unfolding N(1) by simp
    finally have len: "length shares \<le> n'" .
    have "set (map fst shares) \<subseteq> fst ` set ?kept"
      unfolding N(1) set_map using set_take_subset [of n' "sorted_desc (\<lambda>(_, _, total). total) ?kept"]
      by (intro image_mono) (simp only: sorted_desc_perm)
    also have "\<dots> \<subseteq> set validators" unfolding fst [symmetric] by auto
    finally have sub: "fst ` set shares \<subseteq> set validators" by simp
    have "distinct (map fst shares)" unfolding N(1) take_map [symmetric] using dist by (rule distinct_take)
    with len sub N(2) w Gauges show ?thesis by simp
  qed
  then show "shares_ok (wd_shares w)" "distinct (map fst (wd_shares w))" "fst ` set (wd_shares w) \<subseteq> set validators"
    "save \<longleftrightarrow> ?s \<noteq> Uniform" "?s = Gauges amp emp f mn mx n \<Longrightarrow> length (wd_shares w) \<le> n"
    by blast+
qed

section \<open>What each handler writes\<close>

lemma bond_state: "bond deps env st r a d = Ok (st', resp) \<Longrightarrow> st' = st"
  by (auto simp: bond_def Let_def ok_simps split: if_splits)

lemma harvest_state: "harvest deps env st = Ok (st', resp) \<Longrightarrow> st' = st"
  by (auto simp: harvest_def ok_simps)

lemma rebalance_state: "rebalance deps env st s m = Ok (st', resp) \<Longrightarrow> st' = st \<and> hub_owner st = Some s"
  by (auto simp: rebalance_def Let_def ok_simps)

lemma vote_state: "hub_vote st info p v = Ok (st', resp) \<Longrightarrow> st' = st \<and> hub_vote_operator st = Some (info_sender info)"
  by (auto simp: hub_vote_def ok_simps)

lemma vote_weighted_state:
  "hub_vote_weighted env st info p vs = Ok (st', resp) \<Longrightarrow> st' = st \<and> hub_vote_operator st = Some (info_sender info)"
  by (auto simp: hub_vote_weighted_def ok_simps)

lemma reinvest_state:
  assumes "reinvest deps env st = Ok (st', resp)"
  obtains coins where "hub_unlocked_coins st = Some coins"
    and "st' = st\<lparr>hub_unlocked_coins := Some (filter (\<lambda>c. c_denom c \<noteq> CONTRACT_DENOM) coins)\<rparr>"
  using assms by (auto simp: reinvest_def Let_def ok_simps)

lemma callback_received_state:
  assumes "callback_received_coin deps env st snap = Ok (st', resp)"
  obtains (same) "st' = st"
  | (more) coins coins' amount where "hub_unlocked_coins st = Some coins"
    and "coins_add coins (mk_coin amount (c_denom snap)) = Ok coins'" and "st' = st\<lparr>hub_unlocked_coins := Some coins'\<rparr>"
  using assms by (auto simp: callback_received_coin_def Let_def ok_simps split: if_splits)

lemma tune_state:
  assumes "tune_delegations deps env st s = Ok (st', resp)"
  obtains w save where "get_wanted_delegations st env deps TuneInfoGaugeLoader = Ok (w, save)" and "hub_owner st = Some s"
    and "st' = st\<lparr>hub_delegation_goal := (if save then Some w else None)\<rparr>"
  using assms by (auto simp: tune_delegations_def Let_def ok_simps)

lemma add_validator_state:
  assumes "add_validator deps st s v = Ok (st', resp)"
  obtains vs where "hub_validators st = Some vs" and "hub_owner st = Some s" and "v \<notin> set vs"
    and "st' = st\<lparr>hub_validators := Some (vs @ [v])\<rparr>"
  using assms by (auto simp: add_validator_def ok_simps split: if_splits)

lemma remove_validator_state:
  assumes "remove_validator deps env st s v = Ok (st', resp)"
  obtains vs where "hub_validators st = Some vs" and "hub_owner st = Some s"
    and "st' = st\<lparr>hub_validators := Some (filter (\<lambda>x. x \<noteq> v) vs)\<rparr>"
  using assms by (auto simp: remove_validator_def Let_def ok_simps split: if_splits)

lemma transfer_state:
  assumes "transfer_ownership deps st s new_owner = Ok (st', resp)"
  obtains a where "hub_owner st = Some s" and "st' = st\<lparr>hub_new_owner := Some a\<rparr>"
  using assms by (auto simp: transfer_ownership_def ok_simps)

lemma drop_state:
  "drop_ownership_proposal st s = Ok (st', resp) \<Longrightarrow> hub_owner st = Some s \<and> st' = st\<lparr>hub_new_owner := None\<rparr>"
  by (auto simp: drop_ownership_proposal_def ok_simps)

lemma accept_state:
  "accept_ownership st s = Ok (st', resp) \<Longrightarrow>
    hub_new_owner st = Some s \<and> st' = st\<lparr>hub_owner := Some s, hub_new_owner := None\<rparr>"
  by (auto simp: accept_ownership_def ok_simps split: if_splits)

lemma receive_state:
  assumes "hub_receive deps env st info cw20 = Ok (st', resp)"
  obtains receiver r where "from_binary (cw20_payload cw20) = Ok (QueueUnbond receiver)"
    and "hub_stake_token st = Some (info_sender info)"
    and "dep_addr_validate deps (unwrap_or receiver (cw20_sender cw20)) = Ok r"
    and "queue_unbond env st r (cw20_amount cw20) = Ok (st', resp)"
proof -
  from assms obtain m where m: "from_binary (cw20_payload cw20) = Ok m"
    by (auto simp: hub_receive_def ok_simps)
  obtain receiver where r: "m = QueueUnbond receiver" by (cases m)
  from assms m r show ?thesis
    by (auto simp: hub_receive_def ok_simps split: if_splits intro: that)
qed

section \<open>The invariant\<close>

definition config_inv :: "hub_state \<Rightarrow> bool" where
  "config_inv st \<longleftrightarrow>
     hub_owner st \<noteq> None
     \<and> (\<exists>vs. hub_validators st = Some vs \<and> distinct vs)
     \<and> (\<exists>f. hub_fee_config st = Some f \<and> fc_protocol_reward_fee f \<le> DEC_ONE div 10)
     \<and> (\<exists>e. hub_epoch_period st = Some e \<and> 0 < e)
     \<and> (\<exists>u. hub_unbond_period st = Some u \<and> 0 < u)
     \<and> (\<exists>cs. hub_unlocked_coins st = Some cs \<and> coins_distinct cs)
     \<and> hub_delegation_strategy st \<noteq> None
     \<and> hub_allow_donations st \<noteq> None
     \<and> (\<forall>g. hub_delegation_goal st = Some g \<longrightarrow> shares_ok (wd_shares g) \<and> distinct (map fst (wd_shares g)))"

definition hub_inv :: "hub_state \<Rightarrow> bool" where
  "hub_inv st \<longleftrightarrow> config_inv st \<and> books_inv st"

lemma books_inv_pending [simp]:
  "books_inv (st\<lparr>hub_owner := a\<rparr>) = books_inv st" "books_inv (st\<lparr>hub_new_owner := a\<rparr>) = books_inv st"
  "books_inv (st\<lparr>hub_stake_token := a\<rparr>) = books_inv st" "books_inv (st\<lparr>hub_validators := c\<rparr>) = books_inv st"
  "books_inv (st\<lparr>hub_epoch_period := d\<rparr>) = books_inv st" "books_inv (st\<lparr>hub_unbond_period := d\<rparr>) = books_inv st"
  "books_inv (st\<lparr>hub_unlocked_coins := e\<rparr>) = books_inv st" "books_inv (st\<lparr>hub_fee_config := f\<rparr>) = books_inv st"
  "books_inv (st\<lparr>hub_delegation_strategy := g\<rparr>) = books_inv st" "books_inv (st\<lparr>hub_delegation_goal := h\<rparr>) = books_inv st"
  "books_inv (st\<lparr>hub_vote_operator := a\<rparr>) = books_inv st" "books_inv (st\<lparr>hub_allow_donations := i\<rparr>) = books_inv st"
  "books_inv (set_contract_version st n v) = books_inv st"
  by (simp_all add: books_inv_def set_contract_version_def)

lemma config_inv_books [simp]:
  "config_inv (st\<lparr>hub_pending_batch := p\<rparr>) = config_inv st" "config_inv (st\<lparr>hub_previous_batches := b\<rparr>) = config_inv st"
  "config_inv (st\<lparr>hub_unbond_requests := r\<rparr>) = config_inv st" "config_inv (st\<lparr>hub_new_owner := a\<rparr>) = config_inv st"
  "config_inv (st\<lparr>hub_stake_token := a\<rparr>) = config_inv st" "config_inv (st\<lparr>hub_vote_operator := a\<rparr>) = config_inv st"
  "config_inv (st\<lparr>hub_owner := Some x\<rparr>) \<longleftrightarrow> config_inv (st\<lparr>hub_owner := Some x\<rparr>)"
  "config_inv (set_contract_version st n v) = config_inv st"
  by (simp_all add: config_inv_def set_contract_version_def)

section \<open>Configuration updates\<close>

lemma update_fee_config_inv:
  assumes "update_fee_config deps msg st = Ok st'"
  shows "config_inv st \<Longrightarrow> config_inv st'" and "books_inv st' = books_inv st"
proof -
  have "st' = st \<or> (\<exists>f f'. hub_fee_config st = Some f \<and> st' = st\<lparr>hub_fee_config := Some f'\<rparr>
      \<and> (fc_protocol_reward_fee f' = fc_protocol_reward_fee f \<or> fc_protocol_reward_fee f' \<le> DEC_ONE div 10))"
  proof (cases "uc_protocol_fee_contract msg \<noteq> None \<or> uc_protocol_reward_fee msg \<noteq> None")
    case False
    with assms show ?thesis by (simp add: update_fee_config_def)
  next
    case True
    with assms obtain f f1 f2 where f: "hub_fee_config st = Some f" and st': "st' = st\<lparr>hub_fee_config := Some f2\<rparr>"
      and f1: "(case uc_protocol_fee_contract msg of
            Some c \<Rightarrow> and_then (std (dep_addr_validate deps c)) (\<lambda>a. Ok (f\<lparr>fc_protocol_fee_contract := a\<rparr>))
          | None \<Rightarrow> Ok f) = Ok f1"
      and f2: "(case uc_protocol_reward_fee msg of
            Some fee \<Rightarrow> and_then get_reward_fee_cap (\<lambda>cap.
              if fee > cap then Err ProtocolRewardFeeTooHigh else Ok (f1\<lparr>fc_protocol_reward_fee := fee\<rparr>))
          | None \<Rightarrow> Ok f1) = Ok f2"
      unfolding update_fee_config_def by (simp only: if_True and_then_Ok map_err_Ok load_item_Ok) blast
    have "fc_protocol_reward_fee f1 = fc_protocol_reward_fee f"
      using f1 by (auto simp: ok_simps split: option.splits)
    then have "fc_protocol_reward_fee f2 = fc_protocol_reward_fee f \<or> fc_protocol_reward_fee f2 \<le> DEC_ONE div 10"
      using f2 by (auto simp: ok_simps not_less split: option.splits if_splits)
    with f st' show ?thesis by blast
  qed
  then show "config_inv st \<Longrightarrow> config_inv st'" and "books_inv st' = books_inv st"
    by (auto simp: config_inv_def)
qed

lemma update_periods_inv:
  assumes "update_periods msg st = Ok st'"
  shows "config_inv st \<Longrightarrow> config_inv st'" and "books_inv st' = books_inv st"
  using assms by (auto simp: update_periods_def ok_simps config_inv_def split: if_splits option.splits)

lemma update_strategy_inv:
  assumes "update_strategy deps msg st = Ok st'"
  shows "config_inv st \<Longrightarrow> config_inv st'" and "books_inv st' = books_inv st"
  using assms by (auto simp: update_strategy_def ok_simps config_inv_def split: option.splits)

lemma update_config_inv:
  assumes run: "update_config deps st s msg = Ok (st', resp)" and inv: "hub_inv st"
  shows "hub_inv st' \<and> hub_owner st = Some s"
proof -
  from run obtain st1 st2 st3 where s: "hub_owner st = Some s"
    and fees: "update_fee_config deps msg st = Ok st1" and per: "update_periods msg st1 = Ok st2"
    and strat: "update_strategy deps msg st2 = Ok st3"
    and last: "and_then (case uc_vote_operator msg of
         Some v \<Rightarrow> and_then (std (dep_addr_validate deps v)) (\<lambda>a.
           Ok ((case uc_allow_donations msg of Some b \<Rightarrow> st3\<lparr>hub_allow_donations := Some b\<rparr> | None \<Rightarrow> st3)\<lparr>hub_vote_operator := Some a\<rparr>))
       | None \<Rightarrow> Ok (case uc_allow_donations msg of Some b \<Rightarrow> st3\<lparr>hub_allow_donations := Some b\<rparr> | None \<Rightarrow> st3)) (\<lambda>st5.
     Ok (st5, add_attribute new_response ''action'' ''erishub/update_config'')) = Ok (st', resp)"
    unfolding update_config_def Let_def by (simp only: and_then_Ok assert_owner_Ok) blast
  have "config_inv st3 \<and> books_inv st3"
    using inv update_fee_config_inv [OF fees] update_periods_inv [OF per] update_strategy_inv [OF strat]
    by (simp add: hub_inv_def)
  then show ?thesis
    using last s by (auto simp: ok_simps hub_inv_def config_inv_def split: option.splits)
qed

section \<open>Instantiation and steps\<close>

lemma instantiate_inv:
  assumes "hub_instantiate deps env empty_hub_state msg = Ok (st, resp)"
  shows "hub_inv st"
  using assms books_ok_start
  by (auto simp: hub_instantiate_def Let_def ok_simps not_less hub_inv_def config_inv_def books_inv_def
      set_contract_version_def empty_hub_state_def coins_distinct_def split: if_splits)

lemma tune_inv:
  assumes "tune_delegations deps env st s = Ok (st', resp)" and "hub_inv st"
  shows "hub_inv st'"
  using assms(1)
proof (rule tune_state)
  fix w save
  assume w: "get_wanted_delegations st env deps TuneInfoGaugeLoader = Ok (w, save)"
    and st': "st' = st\<lparr>hub_delegation_goal := (if save then Some w else None)\<rparr>"
  from assms(2) obtain vs where vs: "hub_validators st = Some vs" "distinct vs"
    by (auto simp: hub_inv_def config_inv_def)
  from wanted_sound(1,2) [OF w vs] assms(2) show ?thesis
    by (auto simp: hub_inv_def config_inv_def st')
qed

lemma withdraw_inv:
  assumes "withdraw_unbonded env st u rc = Ok (st', resp)" and "hub_inv st"
  shows "hub_inv st'"
proof -
  from assms(2) have "books_inv st" by (simp add: hub_inv_def)
  from withdraw_unbonded_outcome [OF assms(1) this] have
    "st' = st\<lparr>hub_previous_batches := hub_previous_batches st', hub_unbond_requests := hub_unbond_requests st'\<rparr>"
    and "books_inv st'"
    unfolding withdrawn_def by blast+
  then show ?thesis using assms(2) unfolding hub_inv_def by (metis config_inv_books(2,3))
qed

lemma reconcile_inv: "reconcile deps env st = Ok (st', resp) \<Longrightarrow> hub_inv st \<Longrightarrow> hub_inv st'"
  using reconcile_books [of deps env st st' resp] by (auto simp: hub_inv_def elim!: reconcile_cases)

lemma submit_inv: "submit_batch deps env st = Ok (st', resp) \<Longrightarrow> hub_inv st \<Longrightarrow> hub_inv st'"
  using submit_batch_books [of deps env st st' resp] by (auto simp: hub_inv_def elim!: submit_batch_cases)

lemma queue_inv: "queue_unbond env st r x = Ok (st', resp) \<Longrightarrow> hub_inv st \<Longrightarrow> hub_inv st'"
  using queue_unbond_books [of env st r x st' resp] by (auto simp: hub_inv_def elim!: queue_unbond_cases)

lemma reinvest_inv: "reinvest deps env st = Ok (st', resp) \<Longrightarrow> hub_inv st \<Longrightarrow> hub_inv st'"
  by (elim reinvest_state) (auto simp: hub_inv_def config_inv_def coins_distinct_def distinct_map_filter)

lemma callback_received_inv: "callback_received_coin deps env st snap = Ok (st', resp) \<Longrightarrow> hub_inv st \<Longrightarrow> hub_inv st'"
  by (elim callback_received_state) (auto simp: hub_inv_def config_inv_def dest: coins_add_distinct)

lemma execute_inv:
  assumes run: "hub_execute deps env st info msg = Ok (st', resp)" and inv: "hub_inv st"
  shows "hub_inv st'"
proof (cases msg)
  case (Receive x1)
  with run show ?thesis by (auto intro: queue_inv [OF _ inv] elim!: receive_state)
next
  case (Bond x2)
  with run inv show ?thesis by (auto simp: ok_simps dest: bond_state)
next
  case Donate
  with run inv show ?thesis by (auto simp: ok_simps dest: bond_state)
next
  case (WithdrawUnbonded x4)
  with run show ?thesis by (auto simp: ok_simps intro: withdraw_inv [OF _ inv])
next
  case (AddValidator x5)
  with run inv show ?thesis by (auto simp: hub_inv_def config_inv_def elim!: add_validator_state)
next
  case (RemoveValidator x6)
  with run inv show ?thesis by (auto simp: hub_inv_def config_inv_def elim!: remove_validator_state)
next
  case (TransferOwnership x7)
  with run inv show ?thesis by (auto simp: hub_inv_def elim!: transfer_state)
next
  case DropOwnershipProposal
  with run inv show ?thesis by (auto simp: hub_inv_def dest: drop_state)
next
  case AcceptOwnership
  with run inv show ?thesis by (auto simp: hub_inv_def config_inv_def dest!: accept_state)
next
  case Harvest
  with run inv show ?thesis by (auto dest: harvest_state)
next
  case TuneDelegations
  with run show ?thesis by (auto intro: tune_inv [OF _ inv])
next
  case (Rebalance x12)
  with run inv show ?thesis by (auto dest: rebalance_state)
next
  case Reconcile
  with run show ?thesis by (auto intro: reconcile_inv [OF _ inv])
next
  case SubmitBatch
  with run show ?thesis by (auto intro: submit_inv [OF _ inv])
next
  case (Vote x15 y15)
  with run inv show ?thesis by (auto dest: vote_state)
next
  case (VoteWeighted x16 y16)
  with run inv show ?thesis by (auto dest: vote_weighted_state)
next
  case (Callback x17)
  with run show ?thesis
    by (auto simp: hub_callback_def intro: reinvest_inv [OF _ inv] callback_received_inv [OF _ inv]
        split: if_splits hub_callback_msg.splits)
next
  case (UpdateConfig x18)
  with run update_config_inv [OF _ inv] show ?thesis by auto
qed

inductive hub_step :: "hub_state \<Rightarrow> hub_state \<Rightarrow> bool" where
  step_execute: "hub_execute deps env st info msg = Ok (st', resp) \<Longrightarrow> hub_step st st'"
| step_reply: "hub_reply deps st r = Ok (st', resp) \<Longrightarrow> hub_step st st'"
| step_migrate: "hub_migrate deps st = Ok (st', resp) \<Longrightarrow> hub_step st st'"

inductive hub_reachable :: "hub_state \<Rightarrow> bool" where
  reach_start: "hub_instantiate deps env empty_hub_state msg = Ok (st, resp) \<Longrightarrow> hub_reachable st"
| reach_step: "hub_reachable st \<Longrightarrow> hub_step st st' \<Longrightarrow> hub_reachable st'"

lemma step_inv: "hub_step st st' \<Longrightarrow> hub_inv st \<Longrightarrow> hub_inv st'"
proof (induction rule: hub_step.induct)
  case (step_execute deps env st info msg st' resp)
  then show ?case by (rule execute_inv)
next
  case (step_reply deps st r st' resp)
  then show ?case by (auto simp: hub_reply_def register_stake_token_def ok_simps hub_inv_def split: if_splits)
next
  case (step_migrate deps st st' resp)
  then show ?case by (auto simp: hub_migrate_def hub_inv_def)
qed

lemma reachable_inv: "hub_reachable st \<Longrightarrow> hub_inv st"
  by (induction rule: hub_reachable.induct) (auto intro: instantiate_inv step_inv)

end
