(* ===== verification/HubSample.thy ===== *)
theory HubSample
  imports HubInvariant
begin

text \<open>
  A concrete chain (two validators holding 60 and 40, a token supply of 50) and a concrete run of the hub on it, step by
  step, each state reachable: the inputs on which the properties of the hub are instantiated.
\<close>

section \<open>A concrete hub\<close>

definition sample_deps :: "u128 \<Rightarrow> hub_deps" where
  "sample_deps balance = \<lparr>dep_addr_validate = Ok,
     dep_all_delegations = (\<lambda>_. Ok [(''va'', mk_coin 60 CONTRACT_DENOM), (''vb'', mk_coin 40 CONTRACT_DENOM)]),
     dep_delegation = (\<lambda>_ v. Ok (Some (mk_coin (if v = ''va'' then 60 else 40) CONTRACT_DENOM))),
     dep_balance = (\<lambda>_ _. Ok balance), dep_total_supply = (\<lambda>_. Ok 50), dep_validator = (\<lambda>_. Ok ()),
     dep_amp_tune_info = (\<lambda>_. Ok \<lparr>ag_tune_ts = 0, ag_vamp_points = [(''va'', 30), (''vb'', 10)]\<rparr>),
     dep_emp_tune_info = (\<lambda>_. Err NotFound),
     dep_amp_validator_infos = (\<lambda>_ _. Err NotFound), dep_emp_validator_infos = (\<lambda>_ _. Err NotFound),
     dep_show_decimal = nat_str, dep_version = ''1.1.1''\<rparr>"

definition sample_env :: "u64 \<Rightarrow> env" where
  "sample_env t = \<lparr>env_height = 1, env_time = t, env_contract = ''hub''\<rparr>"

definition sample_init :: hub_instantiate_msg where
  "sample_init = \<lparr>im_cw20_code_id = 1, im_owner = ''owner'', im_name = ''n'', im_symbol = ''s'', im_decimals = 6,
     im_epoch_period = 100, im_unbond_period = 200, im_validators = [''va'', ''vb'', ''va''],
     im_protocol_fee_contract = ''fee'', im_protocol_reward_fee = 10 ^ 16, im_delegation_strategy = None,
     im_vote_operator = None\<rparr>"

text \<open>Instantiated, the token registered, two users queued and the batch submitted; then it ended and was reconciled
  at a loss of five.\<close>

definition sample_hub :: "addr option \<Rightarrow> pending_batch \<Rightarrow> batches \<Rightarrow> requests \<Rightarrow> hub_state" where
  "sample_hub token p prev reqs = empty_hub_state\<lparr>
     hub_owner := Some ''owner'', hub_stake_token := token, hub_epoch_period := Some 100, hub_unbond_period := Some 200,
     hub_validators := Some [''va'', ''vb''], hub_unlocked_coins := Some [], hub_pending_batch := Some p,
     hub_previous_batches := prev, hub_unbond_requests := reqs,
     hub_fee_config := Some \<lparr>fc_protocol_fee_contract = ''fee'', fc_protocol_reward_fee = 10 ^ 16\<rparr>,
     hub_delegation_strategy := Some Uniform, hub_allow_donations := Some False,
     hub_contract_info := Some (CONTRACT_NAME, ''1.1.1'')\<rparr>"

definition sample_pending :: "u64 \<Rightarrow> u128 \<Rightarrow> u64 \<Rightarrow> pending_batch" where
  "sample_pending i x t = \<lparr>pb_id = i, pb_ustake_to_burn = x, pb_est_unbond_start_time = t\<rparr>"

definition sample_batch :: "bool \<Rightarrow> u128 \<Rightarrow> batches" where
  "sample_batch reconciled y = [(1, \<lparr>b_id = 1, b_reconciled = reconciled, b_total_shares = 10, b_uluna_unclaimed = y,
     b_est_unbond_end_time = 1400\<rparr>)]"

definition sample_request :: "addr \<Rightarrow> u128 \<Rightarrow> (u64 \<times> addr) \<times> unbond_request" where
  "sample_request u x = ((1, u), \<lparr>ur_id = 1, ur_user = u, ur_shares = x\<rparr>)"

definition from_user :: "addr \<Rightarrow> message_info" where
  "from_user u = \<lparr>info_sender = u, info_funds = []\<rparr>"

definition queue_msg :: "addr \<Rightarrow> u128 \<Rightarrow> hub_execute_msg" where
  "queue_msg user x = Receive \<lparr>cw20_sender = user, cw20_amount = x, cw20_payload = Decoded (QueueUnbond None)\<rparr>"

definition hub_queued :: hub_state where
  "hub_queued = sample_hub (Some ''token'') (sample_pending 1 10 1100) [] [sample_request ''alice'' 6, sample_request ''bob'' 4]"

definition hub_submitted :: hub_state where
  "hub_submitted = sample_hub (Some ''token'') (sample_pending 2 0 1300) (sample_batch False 20)
     [sample_request ''alice'' 6, sample_request ''bob'' 4]"

definition hub_ended :: hub_state where
  "hub_ended = sample_hub (Some ''token'') (sample_pending 2 0 1300) (sample_batch True 15)
     [sample_request ''alice'' 6, sample_request ''bob'' 4]"

definition yields :: "hub_result \<Rightarrow> hub_state \<Rightarrow> bool" where
  "yields r st = (case r of Ok (st', _) \<Rightarrow> st' = st | _ \<Rightarrow> False)"

lemma yieldsD: "yields r st \<Longrightarrow> \<exists>resp. r = Ok (st, resp)"
  by (cases r) (auto simp: yields_def)

lemma reach_by_message: "hub_reachable st \<Longrightarrow> yields (hub_execute deps env st info msg) st' \<Longrightarrow> hub_reachable st'"
  using reach_step step_execute yieldsD by blast

lemma hub_start_reachable: "hub_reachable (sample_hub None (sample_pending 1 0 1100) [] [])"
proof -
  have "yields (hub_instantiate (sample_deps 1000) (sample_env 1000) empty_hub_state sample_init)
      (sample_hub None (sample_pending 1 0 1100) [] [])" by code_simp
  then show ?thesis using reach_start yieldsD by blast
qed

lemma hub_registered_reachable: "hub_reachable (sample_hub (Some ''token'') (sample_pending 1 0 1100) [] [])"
proof -
  have "yields (hub_reply (sample_deps 1000) (sample_hub None (sample_pending 1 0 1100) [] []) \<lparr>reply_id = 1, reply_result =
     SubMsgOk [new_event ''instantiate'' [(''_contract_address'', ''token'')]]\<rparr>)
      (sample_hub (Some ''token'') (sample_pending 1 0 1100) [] [])" by code_simp
  then show ?thesis using reach_step [OF hub_start_reachable] step_reply yieldsD by blast
qed

lemma hub_queued_reachable: "hub_reachable hub_queued"
proof -
  have "yields (hub_execute (sample_deps 1000) (sample_env 1010) (sample_hub (Some ''token'') (sample_pending 1 0 1100) [] [])
      (from_user ''token'') (queue_msg ''alice'' 6))
      (sample_hub (Some ''token'') (sample_pending 1 6 1100) [] [sample_request ''alice'' 6])" by code_simp
  note one = reach_by_message [OF hub_registered_reachable this]
  have "yields (hub_execute (sample_deps 1000) (sample_env 1020)
      (sample_hub (Some ''token'') (sample_pending 1 6 1100) [] [sample_request ''alice'' 6])
      (from_user ''token'') (queue_msg ''bob'' 4)) hub_queued" by code_simp
  then show ?thesis by (rule reach_by_message [OF one])
qed

lemma hub_submitted_reachable: "hub_reachable hub_submitted"
proof -
  have "yields (hub_execute (sample_deps 1000) (sample_env 1200) hub_queued (from_user ''bob'') SubmitBatch) hub_submitted"
    by code_simp
  then show ?thesis by (rule reach_by_message [OF hub_queued_reachable])
qed

lemma hub_ended_reachable: "hub_reachable hub_ended"
proof -
  have "yields (hub_execute (sample_deps 15) (sample_env 1500) hub_submitted (from_user ''bob'') Reconcile) hub_ended"
    by code_simp
  then show ?thesis by (rule reach_by_message [OF hub_submitted_reachable])
qed

end
