(* ===== verification/HubProps.thy ===== *)
theory HubProps
  imports HubSample
begin

text \<open>
  The properties of the staking hub: what every reachable state satisfies, what each handler pays, mints, burns
  and delegates, and who may change what.
\<close>

section \<open>Unbonding\<close>

text \<open>
  C1: In every state the hub can reach, the configuration is sound (an owner, distinct validators, a reward fee of at
  most 10 percent, positive periods, each unlocked denomination once, distribution shares summing to at most one), and the
  books balance: the pending batch holds the sum of its requests, the shares of every previous batch are the sum of
  its remaining requests, and every request is filed under its own batch and user.
\<close>

theorem hub_books_balance:
  assumes "hub_reachable st"
  shows "config_inv st \<and> (\<exists>p. hub_pending_batch st = Some p
    \<and> pb_ustake_to_burn p = requested (hub_unbond_requests st) (pb_id p)
    \<and> (\<forall>i b. get (hub_previous_batches st) i = Some b \<longrightarrow>
         b_id b = i \<and> i < pb_id p \<and> b_total_shares b = requested (hub_unbond_requests st) i)
    \<and> (\<forall>i < pb_id p. get (hub_previous_batches st) i = None \<longrightarrow> requested (hub_unbond_requests st) i = 0)
    \<and> (\<forall>i u r. get (hub_unbond_requests st) (i, u) = Some r \<longrightarrow> ur_id r = i \<and> ur_user r = u \<and> i \<le> pb_id p))"
proof -
  from reachable_inv [OF assms] obtain p where "config_inv st" and p: "hub_pending_batch st = Some p"
    and ok: "books_ok p (hub_previous_batches st) (hub_unbond_requests st)"
    by (auto simp: hub_inv_def books_inv_def)
  then show ?thesis using books_okD(3,4,5,6) [OF ok] by blast
qed

theorem hub_books_balance_witness: "config_inv hub_ended"
  using hub_books_balance [OF hub_ended_reachable] by blast

text \<open>
  C4: A withdrawal pays exactly what leaves the books: one bank message over the sum of what each of the user's
  requests is due (its share, rounded down, of what its reconciled and ended batch holds), never zero, and the batches
  hold that much less afterwards.
\<close>

theorem withdraw_pays_what_leaves:
  assumes "hub_reachable st" and "withdraw_unbonded env st user receiver = Ok (st', resp)"
  shows "\<exists>paid. paid \<noteq> 0
    \<and> paid = sum_list (map (due (env_time env) (hub_previous_batches st)) (user_requests st user))
    \<and> paid + total_unclaimed (hub_previous_batches st') = total_unclaimed (hub_previous_batches st)
    \<and> resp_msgs resp = [PlainMsg (BankSend receiver [mk_coin paid CONTRACT_DENOM])]"
proof -
  have "books_inv st" using reachable_inv [OF assms(1)] by (simp add: hub_inv_def)
  from withdraw_unbonded_outcome [OF assms(2) this] show ?thesis by blast
qed

theorem withdraw_pays_what_leaves_witness:
  "\<exists>st' resp. withdraw_unbonded (sample_env 1600) hub_ended ''alice'' ''carol'' = Ok (st', resp)
    \<and> resp_msgs resp = [PlainMsg (BankSend ''carol'' [mk_coin 9 CONTRACT_DENOM])]"
proof -
  have "is_ok (withdraw_unbonded (sample_env 1600) hub_ended ''alice'' ''carol'')" by code_simp
  then obtain st' resp where run: "withdraw_unbonded (sample_env 1600) hub_ended ''alice'' ''carol'' = Ok (st', resp)"
    by (auto simp: is_ok_iff)
  have "sum_list (map (due 1600 (hub_previous_batches hub_ended)) (user_requests hub_ended ''alice'')) = 9" by code_simp
  then have "sum_list (map (due (env_time (sample_env 1600)) (hub_previous_batches hub_ended)) (user_requests hub_ended ''alice'')) = 9"
    by (simp add: sample_env_def)
  with withdraw_pays_what_leaves [OF hub_ended_reachable run] run show ?thesis by auto
qed

text \<open>
  A withdrawal of one user leaves every request of the others, never lowers what a share of a batch is worth, and
  never removes a batch in which another user still has shares.
\<close>

theorem withdraw_spares_others:
  assumes "hub_reachable st" and "withdraw_unbonded env st user receiver = Ok (st', resp)" and "v \<noteq> user"
  shows "get (hub_unbond_requests st') (i, v) = get (hub_unbond_requests st) (i, v)
    \<and> (case (get (hub_previous_batches st) i, get (hub_previous_batches st') i) of
         (Some b, Some b') \<Rightarrow> b_uluna_unclaimed b * b_total_shares b' \<le> b_uluna_unclaimed b' * b_total_shares b
       | (Some b, None) \<Rightarrow> (case get (hub_unbond_requests st) (i, v) of Some r \<Rightarrow> ur_shares r = 0 | None \<Rightarrow> True)
       | (None, b') \<Rightarrow> b' = None)"
proof -
  from reachable_inv [OF assms(1)] obtain p where p: "hub_pending_batch st = Some p"
    and ok: "books_ok p (hub_previous_batches st) (hub_unbond_requests st)" and inv: "books_inv st"
    by (auto simp: hub_inv_def books_inv_def)
  from withdraw_unbonded_outcome [OF assms(2) inv] have
    w: "withdrawn (env_time env) user (user_requests st user) st st'" and inv': "books_inv st'" by blast+
  have ok': "books_ok p (hub_previous_batches st') (hub_unbond_requests st')"
    using inv' withdrawn_pending [OF w] p by (simp add: books_inv_def)
  have same: "get (hub_unbond_requests st') (i, v) = get (hub_unbond_requests st) (i, v)"
    using withdrawnD(3) [OF w] assms(3) by blast
  show ?thesis
    using same withdrawn_batch [OF ok w, of i] withdrawn_removed [OF ok', of i v] books_okD(3) [OF ok, of i]
    by (auto split: option.split)
qed

theorem withdraw_spares_others_witness:
  "\<exists>st' resp. withdraw_unbonded (sample_env 1600) hub_ended ''alice'' ''carol'' = Ok (st', resp)
    \<and> get (hub_unbond_requests st') (1, ''bob'') = get (hub_unbond_requests hub_ended) (1, ''bob'')"
proof -
  have "is_ok (withdraw_unbonded (sample_env 1600) hub_ended ''alice'' ''carol'')" by code_simp
  then obtain st' resp where run: "withdraw_unbonded (sample_env 1600) hub_ended ''alice'' ''carol'' = Ok (st', resp)"
    by (auto simp: is_ok_iff)
  have "''bob'' \<noteq> ''alice''" by simp
  from withdraw_spares_others [OF hub_ended_reachable run this, of 1] run show ?thesis by blast
qed

text \<open>
  C37: A reconciliation sends nothing, changes only batches (their identity, shares and end time stay, what they hold only
  falls), touches only batches that are over and not yet reconciled, and writes off at most what the hub's balance falls short of these
  batches plus the coins kept for reinvestment. When they hold anything, all of them are reconciled afterwards; when they hold nothing, nothing changes, and
  they stay unreconciled.
\<close>

theorem reconcile_writes_off_at_most_the_shortfall:
  assumes "hub_reachable st" and "reconcile deps env st = Ok (st', resp)"
    and "bs = filter (\<lambda>b. env_time env > b_est_unbond_end_time b) (unreconciled_batches st)"
    and "hub_unlocked_coins st = Some coins" and "dep_balance deps (env_contract env) CONTRACT_DENOM = Ok actual"
  shows "resp_msgs resp = [] \<and> lowered_store (hub_previous_batches st) (hub_previous_batches st')
    \<and> st' = st\<lparr>hub_previous_batches := hub_previous_batches st'\<rparr>
    \<and> (\<forall>i. i \<notin> b_id ` set bs \<longrightarrow> get (hub_previous_batches st') i = get (hub_previous_batches st) i)
    \<and> total_unclaimed (hub_previous_batches st)
       \<le> total_unclaimed (hub_previous_batches st') + (unclaimed bs + c_amount (coins_find coins CONTRACT_DENOM) - actual)
    \<and> (if unclaimed bs = 0 then st' = st
       else \<forall>b \<in> set bs. \<exists>b'. get (hub_previous_batches st') (b_id b) = Some b' \<and> b_reconciled b')"
proof -
  have inv: "books_inv st" using reachable_inv [OF assms(1)] by (simp add: hub_inv_def)
  then obtain p where ok: "books_ok p (hub_previous_batches st) (hub_unbond_requests st)" by (auto simp: books_inv_def)
  have frame: "resp_msgs resp = [] \<and> st' = st\<lparr>hub_previous_batches := hub_previous_batches st'\<rparr>
      \<and> (\<forall>i. i \<notin> b_id ` set bs \<longrightarrow> get (hub_previous_batches st') i = get (hub_previous_batches st) i)
      \<and> (if unclaimed bs = 0 then st' = st
         else \<forall>b \<in> set bs. \<exists>b'. get (hub_previous_batches st') (b_id b) = Some b' \<and> b_reconciled b')"
    using assms(2)
  proof (cases rule: reconcile_cases)
    case unchanged
    then show ?thesis by (simp add: assms(3))
  next
    case (saved cs cs' coins' actual')
    have cs: "cs = bs" using saved(1) assms(3) by simp
    note list = reconciled_list [OF saved(7), unfolded cs]
    have ids: "map b_id cs' = map b_id bs"
      using list by (induction rule: list_all2_induct) (auto simp: lowered_def)
    then have "b_id ` set cs' = b_id ` set bs" by (metis list.set_map)
    moreover have "\<exists>b'. get (hub_previous_batches st') (b_id b) = Some b' \<and> b_reconciled b'" if "b \<in> set bs" for b
    proof -
      from list_all2_member1 [OF list that] obtain b' where "b' \<in> set cs'" "b_id b' = b_id b" "b_reconciled b'"
        by (auto simp: lowered_def)
      moreover have "distinct (map b_id cs')" unfolding ids assms(3) by (intro distinct_map_filter unreconciled_distinct [OF ok])
      ultimately show ?thesis using save_batches_get [of cs' b'] saved(4) by auto
    qed
    ultimately show ?thesis using saved by (simp add: save_batches_other cs)
  qed
  with reconcile_books [OF assms(2) inv] reconcile_amounts [OF assms(2) inv assms(3,4,5)] show ?thesis by blast
qed

theorem reconcile_writes_off_at_most_the_shortfall_witness:
  "\<exists>st' resp. reconcile (sample_deps 15) (sample_env 1500) hub_submitted = Ok (st', resp)
    \<and> 20 \<le> total_unclaimed (hub_previous_batches st') + 5"
proof -
  have "is_ok (reconcile (sample_deps 15) (sample_env 1500) hub_submitted)" by code_simp
  then obtain st' resp where run: "reconcile (sample_deps 15) (sample_env 1500) hub_submitted = Ok (st', resp)"
    by (auto simp: is_ok_iff)
  have c: "hub_unlocked_coins hub_submitted = Some []" by (simp add: hub_submitted_def sample_hub_def)
  have d: "dep_balance (sample_deps 15) (env_contract (sample_env 1500)) CONTRACT_DENOM = Ok 15"
    by (simp add: sample_deps_def)
  have v: "total_unclaimed (hub_previous_batches hub_submitted) = 20"
    "unclaimed (filter (\<lambda>b. env_time (sample_env 1500) > b_est_unbond_end_time b) (unreconciled_batches hub_submitted)) = 20"
    "c_amount (coins_find [] CONTRACT_DENOM) = 0"
    by code_simp+
  from reconcile_writes_off_at_most_the_shortfall [OF hub_submitted_reachable run refl c d]
  have "20 \<le> total_unclaimed (hub_previous_batches st') + (20 + 0 - 15)" unfolding v by (elim conjE)
  with run show ?thesis by auto
qed

text \<open>
  C17: Submitting the pending batch, once its time has come, undelegates in total exactly the batch's part of the
  delegated coins (rounded down), burns exactly the batch's shares, files the batch unreconciled with both
  numbers, opens the next batch empty, and does not lower the coins behind each remaining share.
\<close>

theorem submit_batch_unbonds_the_part_burned:
  assumes "submit_batch deps env st = Ok (st', resp)" and "hub_pending_batch st = Some p"
    and "hub_stake_token st = Some token" and "query_cw20_total_supply deps token = Ok issued"
    and "query_all_delegations deps (env_contract env) = Ok ds" and "bonded = sum_list (map d_amount ds)"
  shows "\<exists>us check period epoch.
    sum_list (map u_amount us) = bonded * pb_ustake_to_burn p div issued
    \<and> resp_msgs resp = map (\<lambda>u. PlainMsg (undelegation_to_cosmos_msg u)) us
         @ [PlainMsg (WasmExecute token (ToCw20 (Cw20Burn (pb_ustake_to_burn p))) []), PlainMsg check]
    \<and> pb_est_unbond_start_time p \<le> env_time env
    \<and> hub_previous_batches st' = put (pb_id p)
         \<lparr>b_id = pb_id p, b_reconciled = False, b_total_shares = pb_ustake_to_burn p,
          b_uluna_unclaimed = bonded * pb_ustake_to_burn p div issued,
          b_est_unbond_end_time = env_time env + period\<rparr> (hub_previous_batches st)
    \<and> hub_pending_batch st' = Some \<lparr>pb_id = pb_id p + 1, pb_ustake_to_burn = 0,
         pb_est_unbond_start_time = env_time env + epoch\<rparr>
    \<and> (pb_ustake_to_burn p \<le> issued \<longrightarrow>
         bonded * (issued - pb_ustake_to_burn p) \<le> (bonded - bonded * pb_ustake_to_burn p div issued) * issued)"
  using assms(1)
proof (rule submit_batch_cases)
  fix token' vs period p' ds' issued' x us end_time epoch check
  assume st: "hub_stake_token st = Some token'" "hub_pending_batch st = Some p'"
    "query_all_delegations deps (env_contract env) = Ok ds'" "query_cw20_total_supply deps token' = Ok issued'"
    and x: "(compute_unbond_amount issued' (pb_ustake_to_burn p') ds' :: (u128, hub_error) result) = Ok x"
    and us: "compute_undelegations st x ds' vs = Ok us"
    and rest: "pb_est_unbond_start_time p' \<le> env_time env" "end_time = env_time env + period"
    "st' = st\<lparr>hub_previous_batches := put (pb_id p')
         \<lparr>b_id = pb_id p', b_reconciled = False, b_total_shares = pb_ustake_to_burn p',
          b_uluna_unclaimed = x, b_est_unbond_end_time = end_time\<rparr> (hub_previous_batches st),
       hub_pending_batch := Some \<lparr>pb_id = pb_id p' + 1, pb_ustake_to_burn = 0,
          pb_est_unbond_start_time = env_time env + epoch\<rparr>\<rparr>"
    "resp_msgs resp = map (\<lambda>u. PlainMsg (undelegation_to_cosmos_msg u)) us
       @ [PlainMsg (WasmExecute token' (ToCw20 (Cw20Burn (pb_ustake_to_burn p'))) []), PlainMsg check]"
  have eq: "token' = token" "p' = p" "ds' = ds" "issued' = issued" using st assms(2-5) by simp_all
  have xv: "x = bonded * pb_ustake_to_burn p div issued"
    using x assms(6) unfolding eq by (simp add: compute_unbond_Ok)
  have "bonded * (issued - pb_ustake_to_burn p) \<le> (bonded - x) * issued" if "pb_ustake_to_burn p \<le> issued"
    using hub_vault.payout_keeps_rate [OF hub_pays_sum [OF x] ] that assms(6) unfolding eq by simp
  with undelegations_sum [OF us] rest show ?thesis
    unfolding eq xv by (intro exI [of _ us] exI [of _ check] exI [of _ period] exI [of _ epoch]) simp
qed

theorem submit_batch_unbonds_the_part_burned_witness:
  "\<exists>st' resp us. submit_batch (sample_deps 1000) (sample_env 1200) hub_queued = Ok (st', resp)
    \<and> sum_list (map u_amount (us :: undelegation list)) = 20"
proof -
  have "is_ok (submit_batch (sample_deps 1000) (sample_env 1200) hub_queued)" by code_simp
  then obtain st' resp where run: "submit_batch (sample_deps 1000) (sample_env 1200) hub_queued = Ok (st', resp)"
    by (auto simp: is_ok_iff)
  have p: "hub_pending_batch hub_queued = Some (sample_pending 1 10 1100)" "hub_stake_token hub_queued = Some ''token''"
    by (simp_all add: hub_queued_def sample_hub_def)
  have q: "query_cw20_total_supply (sample_deps 1000) ''token'' = Ok 50"
    by (simp add: sample_deps_def query_cw20_total_supply_def)
  have d: "query_all_delegations (sample_deps 1000) (env_contract (sample_env 1200)) = Ok [mk_delegation ''va'' 60, mk_delegation ''vb'' 40]"
    by (simp add: sample_deps_def query_all_delegations_def)
  have "100 = sum_list (map d_amount [mk_delegation ''va'' 60, mk_delegation ''vb'' 40])" by simp
  from submit_batch_unbonds_the_part_burned [OF run p q d this]
  have "\<exists>us. sum_list (map u_amount (us :: undelegation list)) = 100 * pb_ustake_to_burn (sample_pending 1 10 1100) div 50"
    by blast
  then show ?thesis using run by (simp add: sample_pending_def)
qed

section \<open>Rebalancing\<close>



end
