(* ===== verification/HubFunds.thy ===== *)
theory HubFunds
  imports HubSample
begin

text \<open>
  The properties of the hub's deposits and rewards: what a deposit delegates and mints, that no deposit gains from the
  others, when donations are taken, and how rewards are recorded, split and reinvested.
\<close>

section \<open>Where a deposit goes\<close>

lemma smallest_delegation_facts:
  "smallest_delegation d ds \<in> set (d # ds)
    \<and> (\<forall>x \<in> set (d # ds). d_amount (smallest_delegation d ds) \<le> d_amount x)"
proof (induction ds arbitrary: d)
  case Nil
  then show ?case by simp
next
  case (Cons e ds)
  show ?case
    using Cons.IH [of e] Cons.IH [of d] by (cases "d_amount e < d_amount d") (auto intro: order.trans)
qed

text \<open>The delegations a deposit is measured against: of the whitelist in uniform mode, all of them otherwise.\<close>

lemma find_new_delegation_cases:
  assumes "find_new_delegation st deps env x = Ok (new, ds)"
  obtains d rest where "ds = d # rest" and "new = mk_delegation (d_validator (smallest_delegation d rest)) x"
proof -
  from assms obtain es where "(case es of [] \<Rightarrow> Panic
      | d # rest \<Rightarrow> Ok (mk_delegation (d_validator (smallest_delegation d rest)) x, es))
        = (Ok (new, ds) :: (_, std_error) result)"
    unfolding find_new_delegation_def and_then_Ok by blast
  then show ?thesis using that by (cases es) auto
qed

lemma find_new_delegation_facts:
  assumes "find_new_delegation st deps env x = Ok (new, ds)"
  shows "d_amount new = x"
    and "\<exists>d \<in> set ds. d_validator d = d_validator new \<and> (\<forall>e \<in> set ds. d_amount d \<le> d_amount e)"
proof -
  from assms obtain d rest where ds: "ds = d # rest"
    and new: "new = mk_delegation (d_validator (smallest_delegation d rest)) x"
    by (rule find_new_delegation_cases)
  show "d_amount new = x" by (simp add: new)
  show "\<exists>d \<in> set ds. d_validator d = d_validator new \<and> (\<forall>e \<in> set ds. d_amount d \<le> d_amount e)"
    using smallest_delegation_facts [of d rest] unfolding ds new by (intro bexI [of _ "smallest_delegation d rest"]) auto
qed

lemma check_received_coin_facts:
  assumes "check_received_coin_msg deps env off = Ok m"
  shows "\<exists>a. m = callback_into_cosmos_msg (CheckReceivedCoin (mk_coin a CONTRACT_DENOM)) (env_contract env)
    \<and> dep_balance deps (env_contract env) CONTRACT_DENOM = Ok (a + unwrap_or off 0)"
  using assms by (cases off) (auto simp: check_received_coin_msg_def ok_simps)

lemma bond_cases:
  assumes "bond deps env st receiver x donate = Ok (st', resp)"
  obtains token new ds supplied minted check where
    "hub_stake_token st = Some token" "find_new_delegation st deps env x = Ok (new, ds)"
    "query_cw20_total_supply deps token = Ok supplied"
    "if donate then hub_allow_donations st \<noteq> Some False
     else (compute_mint_amount supplied x ds :: (u128, hub_error) result) = Ok minted"
    "check_received_coin_msg deps env (Some x) = Ok check"
    "resp_msgs resp = PlainMsg (delegation_to_cosmos_msg new)
       # (if donate then [] else [PlainMsg (WasmExecute token (ToCw20 (Cw20Mint receiver minted)) [])]) @ [PlainMsg check]"
  using assms by (cases donate) (auto simp: bond_def Let_def ok_simps split: if_splits)

text \<open>
  A deposit is one coin of the staked denomination, delegated whole to a validator with the smallest delegation, and
  mints shares to the receiver in proportion to the delegated coins (rounded down; one to one when nothing is delegated),
  so that the coins behind a share do not fall; the surplus check that follows ignores the deposit itself.
\<close>

theorem bond_mints_in_proportion:
  assumes "hub_execute deps env st info (Bond receiver) = Ok (st', resp)"
  shows "\<exists>x to new ds bonded token issued minted balance.
    info_funds info = [mk_coin x CONTRACT_DENOM] \<and> x \<noteq> 0 \<and> st' = st
    \<and> receiver_or_sender deps receiver (info_sender info) = Ok to
    \<and> find_new_delegation st deps env x = Ok (new, ds) \<and> d_amount new = x \<and> bonded = sum_list (map d_amount ds)
    \<and> (\<exists>d \<in> set ds. d_validator d = d_validator new \<and> (\<forall>e \<in> set ds. d_amount d \<le> d_amount e))
    \<and> hub_stake_token st = Some token \<and> query_cw20_total_supply deps token = Ok issued
    \<and> minted = (if bonded = 0 then x else issued * x div bonded)
    \<and> bonded * (issued + minted) \<le> (bonded + x) * issued
    \<and> dep_balance deps (env_contract env) CONTRACT_DENOM = Ok (balance + x)
    \<and> resp_msgs resp =
        [PlainMsg (delegation_to_cosmos_msg new),
         PlainMsg (WasmExecute token (ToCw20 (Cw20Mint to minted)) []),
         PlainMsg (callback_into_cosmos_msg (CheckReceivedCoin (mk_coin balance CONTRACT_DENOM)) (env_contract env))]"
proof -
  from assms obtain to x where to: "receiver_or_sender deps receiver (info_sender info) = Ok to"
    and x: "x \<noteq> 0" "info_funds info = [mk_coin x CONTRACT_DENOM]" and run: "bond deps env st to x False = Ok (st', resp)"
    by (auto simp: ok_simps)
  from run show ?thesis
  proof (rule bond_cases)
    fix token new ds issued minted check
    assume b: "hub_stake_token st = Some token" "find_new_delegation st deps env x = Ok (new, ds)"
      "query_cw20_total_supply deps token = Ok issued"
      and "if False then hub_allow_donations st \<noteq> Some False
        else (compute_mint_amount issued x ds :: (u128, hub_error) result) = Ok minted"
      and check: "check_received_coin_msg deps env (Some x) = Ok check"
      and msgs: "resp_msgs resp = PlainMsg (delegation_to_cosmos_msg new)
       # (if False then [] else [PlainMsg (WasmExecute token (ToCw20 (Cw20Mint to minted)) [])]) @ [PlainMsg check]"
    then have mint: "(compute_mint_amount issued x ds :: (u128, hub_error) result) = Ok minted" by simp
    obtain balance where bal: "check = callback_into_cosmos_msg (CheckReceivedCoin (mk_coin balance CONTRACT_DENOM)) (env_contract env)"
      "dep_balance deps (env_contract env) CONTRACT_DENOM = Ok (balance + x)"
      using check_received_coin_facts [OF check] by auto
    have "minted = (if sum_list (map d_amount ds) = 0 then x else issued * x div sum_list (map d_amount ds))"
      using mint unfolding compute_mint_Ok by presburger
    note facts = x(2,1) bond_state [OF run] to b(2) find_new_delegation_facts(1) [OF b(2)] refl
      find_new_delegation_facts(2) [OF b(2)] b(1,3) this hub_vault.deposit_keeps_rate [OF hub_issues_sum [OF mint]] bal(2)
    show ?thesis
      by (intro exI conjI; (rule facts)?) (simp add: msgs bal(1))
  qed
qed

definition deposit_of :: "addr \<Rightarrow> u128 \<Rightarrow> message_info" where
  "deposit_of u x = \<lparr>info_sender = u, info_funds = [mk_coin x CONTRACT_DENOM]\<rparr>"

theorem bond_mints_in_proportion_witness:
  "\<exists>resp to. hub_execute (sample_deps 1000) (sample_env 1200) hub_queued (deposit_of ''carol'' 10) (Bond None) = Ok (hub_queued, resp)
    \<and> PlainMsg (WasmExecute ''token'' (ToCw20 (Cw20Mint to 5)) []) \<in> set (resp_msgs resp)"
proof -
  have "is_ok (hub_execute (sample_deps 1000) (sample_env 1200) hub_queued (deposit_of ''carol'' 10) (Bond None))" by code_simp
  then obtain st' resp where run: "hub_execute (sample_deps 1000) (sample_env 1200) hub_queued (deposit_of ''carol'' 10) (Bond None) = Ok (st', resp)"
    by (auto simp: is_ok_iff)
  have ds: "find_new_delegation hub_queued (sample_deps 1000) (sample_env 1200) 10
      = Ok (mk_delegation ''vb'' 10, [mk_delegation ''va'' 60, mk_delegation ''vb'' 40])" by code_simp
  have token: "hub_stake_token hub_queued = Some ''token''" by (simp add: hub_queued_def sample_hub_def)
  have sup: "query_cw20_total_supply (sample_deps 1000) ''token'' = Ok 50"
    by (simp add: sample_deps_def query_cw20_total_supply_def)
  have ten: "info_funds (deposit_of ''carol'' 10) = [mk_coin 10 CONTRACT_DENOM]" by (simp add: deposit_of_def)
  from bond_mints_in_proportion [OF run] obtain to x new ds' bonded token issued minted m1 m2 where
    e: "info_funds (deposit_of ''carol'' 10) = [mk_coin x CONTRACT_DENOM]" "st' = hub_queued"
    "find_new_delegation hub_queued (sample_deps 1000) (sample_env 1200) x = Ok (new, ds')" "bonded = sum_list (map d_amount ds')"
    "hub_stake_token hub_queued = Some token" "query_cw20_total_supply (sample_deps 1000) token = Ok issued"
    "minted = (if bonded = 0 then x else issued * x div bonded)"
    "resp_msgs resp = [m1, PlainMsg (WasmExecute token (ToCw20 (Cw20Mint to minted)) []), m2]"
    by blast
  have "x = 10" using e(1) ten by (simp add: mk_coin_def)
  then have "minted = 5" "token = ''token''" using e ds token sup by auto
  with run e(2,8) show ?thesis by auto
qed

text \<open>
  Nobody gains by depositing and unbonding again: if the shares minted for a deposit are redeemed against the
  delegations grown by exactly the deposit, at most the deposit comes back.
\<close>

theorem deposit_and_unbond_never_gains:
  assumes "(compute_mint_amount issued x ds :: (u128, 'e) result) = Ok minted"
    and "(compute_unbond_amount (issued + minted) minted ds' :: (u128, 'f) result) = Ok back"
    and "sum_list (map d_amount ds') = sum_list (map d_amount ds) + x"
    and "0 < sum_list (map d_amount ds) \<or> issued = 0"
  shows "back \<le> x"
  using hub_vault.round_trip_never_gains [OF hub_issues_sum [OF assms(1)]] hub_pays_sum [OF assms(2)] assms(3,4) by simp

theorem deposit_and_unbond_never_gains_witness: "(18 :: u128) \<le> 20"
proof (rule deposit_and_unbond_never_gains)
  show "(compute_mint_amount 50 20 [mk_delegation ''va'' 101] :: (u128, std_error) result) = Ok 9" by code_simp
  show "(compute_unbond_amount (50 + 9) 9 [mk_delegation ''va'' 121] :: (u128, std_error) result) = Ok 18" by code_simp
qed simp_all

section \<open>Donations\<close>

text \<open>
  A donation is taken only when donations are not disabled; it delegates the whole coin and mints nothing.
\<close>

theorem donation_mints_nothing:
  assumes "hub_execute deps env st info Donate = Ok (st', resp)"
  shows "hub_allow_donations st \<noteq> Some False \<and> st' = st
    \<and> (\<exists>x new balance. info_funds info = [mk_coin x CONTRACT_DENOM] \<and> d_amount new = x \<and> x \<noteq> 0
        \<and> resp_msgs resp = [PlainMsg (delegation_to_cosmos_msg new),
            PlainMsg (callback_into_cosmos_msg (CheckReceivedCoin (mk_coin balance CONTRACT_DENOM)) (env_contract env))])"
proof -
  from assms obtain x where x: "x \<noteq> 0" "info_funds info = [mk_coin x CONTRACT_DENOM]"
    and run: "bond deps env st (info_sender info) x True = Ok (st', resp)"
    by (auto simp: ok_simps)
  from run show ?thesis
  proof (rule bond_cases)
    fix token new ds issued minted check
    assume "find_new_delegation st deps env x = Ok (new, ds)"
      and "if True then hub_allow_donations st \<noteq> Some False
        else (compute_mint_amount issued x ds :: (u128, hub_error) result) = Ok minted"
      and "check_received_coin_msg deps env (Some x) = Ok check"
      and "resp_msgs resp = PlainMsg (delegation_to_cosmos_msg new)
       # (if True then [] else [PlainMsg (WasmExecute token (ToCw20 (Cw20Mint (info_sender info) minted)) [])]) @ [PlainMsg check]"
    with find_new_delegation_facts(1) check_received_coin_facts x bond_state [OF run] show ?thesis by fastforce
  qed
qed

theorem donation_mints_nothing_witness:
  "\<exists>resp. hub_execute (sample_deps 1000) (sample_env 1200) (hub_queued\<lparr>hub_allow_donations := Some True\<rparr>)
      (deposit_of ''carol'' 10) Donate = Ok (hub_queued\<lparr>hub_allow_donations := Some True\<rparr>, resp)
    \<and> length (resp_msgs resp) = 2"
proof -
  let ?st = "hub_queued\<lparr>hub_allow_donations := Some True\<rparr>"
  have "is_ok (hub_execute (sample_deps 1000) (sample_env 1200) ?st (deposit_of ''carol'' 10) Donate)" by code_simp
  then obtain st' resp where run: "hub_execute (sample_deps 1000) (sample_env 1200) ?st (deposit_of ''carol'' 10) Donate = Ok (st', resp)"
    by (auto simp: is_ok_iff)
  from donation_mints_nothing [OF run] have "st' = ?st" "length (resp_msgs resp) = 2" by auto
  with run show ?thesis by auto
qed

section \<open>Rewards\<close>

text \<open>
  The surplus check adds to the coins kept for reinvestment exactly what the hub's balance of the denomination
  exceeds the snapshot by, to no other denomination, and only the hub itself can ask for it.
\<close>

theorem received_coin_adds_the_surplus:
  assumes "hub_execute deps env st info (Callback (CheckReceivedCoin snap)) = Ok (st', resp)"
    and "dep_balance deps (env_contract env) (c_denom snap) = Ok balance"
    and "hub_unlocked_coins st = Some coins"
  shows "info_sender info = env_contract env \<and> (\<exists>coins'. hub_unlocked_coins st' = Some coins'
    \<and> st' = st\<lparr>hub_unlocked_coins := Some coins'\<rparr>
    \<and> (\<forall>denom. c_amount (coins_find coins' denom) =
         c_amount (coins_find coins denom) + (if denom = c_denom snap then balance - c_amount snap else 0)))"
proof -
  from assms(1) have sender: "info_sender info = env_contract env"
    and run: "callback_received_coin deps env st snap = Ok (st', resp)"
    by (auto simp: hub_callback_def split: if_splits)
  show ?thesis
  proof (cases "balance > c_amount snap")
    case True
    with run assms(2,3) obtain coins' where
      "coins_add coins (mk_coin (balance - c_amount snap) (c_denom snap)) = Ok coins'"
      and "st' = st\<lparr>hub_unlocked_coins := Some coins'\<rparr>"
      by (auto simp: callback_received_coin_def Let_def ok_simps)
    with coins_find_add [of coins _ coins'] sender show ?thesis by auto
  next
    case False
    with run assms(2) have "st' = st" by (auto simp: callback_received_coin_def)
    with False sender assms(3) show ?thesis by (intro conjI exI [of _ coins]) auto
  qed
qed

theorem received_coin_adds_the_surplus_witness:
  "\<exists>st' resp coins'. hub_execute (sample_deps 1000) (sample_env 1200) hub_queued (from_user ''hub'')
      (Callback (CheckReceivedCoin (mk_coin 900 CONTRACT_DENOM))) = Ok (st', resp)
    \<and> hub_unlocked_coins st' = Some coins' \<and> c_amount (coins_find coins' CONTRACT_DENOM) = 100"
proof -
  let ?m = "Callback (CheckReceivedCoin (mk_coin 900 CONTRACT_DENOM))"
  have "is_ok (hub_execute (sample_deps 1000) (sample_env 1200) hub_queued (from_user ''hub'') ?m)" by code_simp
  then obtain st' resp where run: "hub_execute (sample_deps 1000) (sample_env 1200) hub_queued (from_user ''hub'') ?m = Ok (st', resp)"
    by (auto simp: is_ok_iff)
  have b: "dep_balance (sample_deps 1000) (env_contract (sample_env 1200)) (c_denom (mk_coin 900 CONTRACT_DENOM)) = Ok 1000"
    by (simp add: sample_deps_def)
  have c: "hub_unlocked_coins hub_queued = Some []" by (simp add: hub_queued_def sample_hub_def)
  have "coins_find [] CONTRACT_DENOM = mk_coin 0 CONTRACT_DENOM" by (simp add: coins_find_def)
  with received_coin_adds_the_surplus [OF run b c] run show ?thesis by fastforce
qed

text \<open>
  Reinvesting splits the coins kept for it into the protocol fee (the configured share, rounded down, at most a
  tenth in any reachable state) and the rest, which is delegated to a smallest delegation; nothing is lost, the
  coins are cleared, other denominations stay.
\<close>

theorem reinvest_splits_rewards:
  assumes "hub_reachable st" and "reinvest deps env st = Ok (st', resp)"
  shows "\<exists>coins available fees fee new ds.
    hub_unlocked_coins st = Some coins \<and> hub_fee_config st = Some fees
    \<and> available = c_amount (coins_find coins CONTRACT_DENOM)
    \<and> fee = available * fc_protocol_reward_fee fees div DEC_ONE \<and> fee * 10 \<le> available
    \<and> find_new_delegation st deps env (available - fee) = Ok (new, ds) \<and> d_amount new + fee = available
    \<and> st' = st\<lparr>hub_unlocked_coins := Some (filter (\<lambda>c. c_denom c \<noteq> CONTRACT_DENOM) coins)\<rparr>
    \<and> resp_msgs resp = PlainMsg (delegation_to_cosmos_msg new)
        # (if fee \<noteq> 0 then [PlainMsg (BankSend (fc_protocol_fee_contract fees) [mk_coin fee CONTRACT_DENOM])] else [])"
proof -
  from assms(2) obtain coins fees c new ds where
    c: "hub_unlocked_coins st = Some coins" "hub_fee_config st = Some fees"
      "find (\<lambda>c. c_denom c = CONTRACT_DENOM) coins = Some c"
    and new: "find_new_delegation st deps env (c_amount c - c_amount c * fc_protocol_reward_fee fees div DEC_ONE) = Ok (new, ds)"
    and st': "st' = st\<lparr>hub_unlocked_coins := Some (filter (\<lambda>c. c_denom c \<noteq> CONTRACT_DENOM) coins)\<rparr>"
    and msgs: "resp_msgs resp = PlainMsg (delegation_to_cosmos_msg new)
        # (if c_amount c * fc_protocol_reward_fee fees div DEC_ONE \<noteq> 0
           then [PlainMsg (BankSend (fc_protocol_fee_contract fees)
             [mk_coin (c_amount c * fc_protocol_reward_fee fees div DEC_ONE) CONTRACT_DENOM])] else [])"
    by (auto simp: reinvest_def Let_def ok_simps saturating_sub_def send_fee_to_cosmos_msg_def)
  define fee where "fee = c_amount c * fc_protocol_reward_fee fees div DEC_ONE"
  from reachable_inv [OF assms(1)] c(2) have "fc_protocol_reward_fee fees \<le> DEC_ONE div 10"
    by (auto simp: hub_inv_def config_inv_def)
  then have "fc_protocol_reward_fee fees * 10 \<le> DEC_ONE" by (simp add: DEC_ONE_def)
  then have "c_amount c * (fc_protocol_reward_fee fees * 10) div DEC_ONE \<le> c_amount c" by (rule multiply_ratio_le)
  moreover have "fee * 10 \<le> c_amount c * (fc_protocol_reward_fee fees * 10) div DEC_ONE"
  proof -
    have "fee * DEC_ONE * 10 \<le> c_amount c * fc_protocol_reward_fee fees * 10"
      unfolding fee_def by (intro mult_right_mono div_times_less_eq_dividend) simp
    then show ?thesis by (simp add: less_eq_div_iff_mult_less_eq ac_simps)
  qed
  ultimately have ten: "fee * 10 \<le> c_amount c" by simp
  have "d_amount new + fee = c_amount c" using find_new_delegation_facts(1) [OF new] ten by (simp add: fee_def)
  then show ?thesis
    using c new [folded fee_def] st' msgs [folded fee_def] ten fee_def
    by (intro exI [of _ coins] exI [of _ "c_amount c"] exI [of _ fees] exI [of _ fee] exI [of _ new] exI [of _ ds])
      (simp add: coins_find_def)
qed

definition hub_rewarded :: hub_state where
  "hub_rewarded = hub_queued\<lparr>hub_unlocked_coins := Some [mk_coin 100 CONTRACT_DENOM]\<rparr>"

lemma hub_rewarded_reachable: "hub_reachable hub_rewarded"
proof -
  have "yields (hub_execute (sample_deps 1000) (sample_env 1020) hub_queued (from_user ''hub'')
      (Callback (CheckReceivedCoin (mk_coin 900 CONTRACT_DENOM)))) hub_rewarded" by code_simp
  then show ?thesis by (rule reach_by_message [OF hub_queued_reachable])
qed

theorem reinvest_splits_rewards_witness:
  "\<exists>st' resp new. \<exists>fees :: fee_config. reinvest (sample_deps 1000) (sample_env 1030) hub_rewarded = Ok (st', resp)
    \<and> resp_msgs resp = [PlainMsg (delegation_to_cosmos_msg new),
        PlainMsg (BankSend (fc_protocol_fee_contract fees) [mk_coin 1 CONTRACT_DENOM])] \<and> d_amount new = 99"
proof -
  have "is_ok (reinvest (sample_deps 1000) (sample_env 1030) hub_rewarded)" by code_simp
  then obtain st' resp where run: "reinvest (sample_deps 1000) (sample_env 1030) hub_rewarded = Ok (st', resp)"
    by (auto simp: is_ok_iff)
  have c: "hub_unlocked_coins hub_rewarded = Some [mk_coin 100 CONTRACT_DENOM]" by (simp add: hub_rewarded_def)
  have f: "map_option fc_protocol_reward_fee (hub_fee_config hub_rewarded) = Some (10 ^ 16)"
    by (simp add: hub_rewarded_def hub_queued_def sample_hub_def)
  have h: "c_amount (coins_find [mk_coin 100 CONTRACT_DENOM] CONTRACT_DENOM) = 100" by (simp add: coins_find_def)
  from reinvest_splits_rewards [OF hub_rewarded_reachable run] obtain coins available fees fee new where
    e: "hub_unlocked_coins hub_rewarded = Some coins" "hub_fee_config hub_rewarded = Some fees"
    "available = c_amount (coins_find coins CONTRACT_DENOM)"
    "fee = available * fc_protocol_reward_fee fees div DEC_ONE" "d_amount new + fee = available"
    "resp_msgs resp = PlainMsg (delegation_to_cosmos_msg new)
        # (if fee \<noteq> 0 then [PlainMsg (BankSend (fc_protocol_fee_contract fees) [mk_coin fee CONTRACT_DENOM])] else [])"
    by blast
  have "available = 100" using e(1,3) c h by simp
  then have "fee = 1" using e(2,4) f by (simp add: DEC_ONE_def)
  then have "d_amount new = 99" using e(5) \<open>available = 100\<close> by simp
  moreover have "resp_msgs resp = [PlainMsg (delegation_to_cosmos_msg new),
      PlainMsg (BankSend (fc_protocol_fee_contract fees) [mk_coin 1 CONTRACT_DENOM])]"
    using e(6) \<open>fee = 1\<close> by simp
  ultimately show ?thesis using run by blast
qed

text \<open>
  A harvest withdraws the rewards of every validator that holds a delegation of the staked denomination, then asks for the
  surplus over the balance held before, then reinvests; it writes nothing itself.
\<close>

theorem harvest_collects_then_reinvests:
  assumes "harvest deps env st = Ok (st', resp)"
  shows "\<exists>ds balance. query_all_delegations deps (env_contract env) = Ok ds
    \<and> (\<forall>d \<in> set ds. d_amount d \<noteq> 0)
    \<and> dep_balance deps (env_contract env) CONTRACT_DENOM = Ok balance \<and> st' = st
    \<and> resp_msgs resp = map (\<lambda>d. PlainMsg (WithdrawDelegatorReward (d_validator d))) ds
        @ [PlainMsg (callback_into_cosmos_msg (CheckReceivedCoin (mk_coin balance CONTRACT_DENOM)) (env_contract env)),
           PlainMsg (callback_into_cosmos_msg Reinvest (env_contract env))]"
proof -
  from assms obtain ds check where ds: "query_all_delegations deps (env_contract env) = Ok ds"
    and check: "check_received_coin_msg deps env None = Ok check"
    and msgs: "resp_msgs resp = map (\<lambda>d. PlainMsg (WithdrawDelegatorReward (d_validator d))) ds
        @ [PlainMsg check, PlainMsg (callback_into_cosmos_msg Reinvest (env_contract env))]"
    by (auto simp: harvest_def ok_simps)
  have "\<forall>d \<in> set ds. d_amount d \<noteq> 0" using ds by (auto simp: query_all_delegations_def ok_simps)
  then show ?thesis using ds msgs check_received_coin_facts [OF check] harvest_state [OF assms] by auto
qed

theorem harvest_collects_then_reinvests_witness:
  "\<exists>st' resp. harvest (sample_deps 1000) (sample_env 1030) hub_rewarded = Ok (st', resp) \<and> st' = hub_rewarded"
proof -
  have "is_ok (harvest (sample_deps 1000) (sample_env 1030) hub_rewarded)" by code_simp
  then obtain st' resp where run: "harvest (sample_deps 1000) (sample_env 1030) hub_rewarded = Ok (st', resp)"
    by (auto simp: is_ok_iff)
  from harvest_collects_then_reinvests [OF run] run show ?thesis by blast
qed

end
