(* ===== verification/HubControl.thy ===== *)
theory HubControl
  imports HubFunds
begin

text \<open>
  Who controls the hub: what only the owner writes, how a call of anyone else fails, how ownership moves, who votes, and what
  a tuning may store.
\<close>

text \<open>The part of the storage that is configuration.\<close>

definition config_of :: "hub_state \<Rightarrow>
    (addr option \<times> addr option) \<times> string list option \<times> fee_config option \<times> delegation_strategy option
     \<times> wanted_delegations_share option \<times> bool option \<times> addr option \<times> u64 option \<times> u64 option" where
  "config_of st = ((hub_owner st, hub_new_owner st), hub_validators st, hub_fee_config st, hub_delegation_strategy st,
     hub_delegation_goal st, hub_allow_donations st, hub_vote_operator st, hub_epoch_period st, hub_unbond_period st)"

fun owner_message :: "hub_execute_msg \<Rightarrow> bool" where
  "owner_message (AddValidator _) = True"
| "owner_message (RemoveValidator _) = True"
| "owner_message (TransferOwnership _) = True"
| "owner_message DropOwnershipProposal = True"
| "owner_message TuneDelegations = True"
| "owner_message (Rebalance _) = True"
| "owner_message (UpdateConfig _) = True"
| "owner_message _ = False"

lemma queue_config: "queue_unbond env st r x = Ok (st', resp) \<Longrightarrow> config_of st' = config_of st"
  by (elim queue_unbond_cases) (simp add: config_of_def)

lemma submit_config: "submit_batch deps env st = Ok (st', resp) \<Longrightarrow> config_of st' = config_of st"
  by (elim submit_batch_cases) (simp add: config_of_def)

lemma reconcile_config: "reconcile deps env st = Ok (st', resp) \<Longrightarrow> config_of st' = config_of st"
  by (elim reconcile_cases) (simp_all add: config_of_def)

lemma withdraw_step_config: "withdraw_step t u (st, x, ids) r = Ok (st', x', ids') \<Longrightarrow> config_of st' = config_of st"
  by (auto simp: withdraw_step_def config_of_def ok_simps split: option.splits if_splits)

lemma withdraw_config:
  assumes "withdraw_unbonded env st u rc = Ok (st', resp)"
  shows "config_of st' = config_of st"
proof -
  from assms obtain x ids where fold: "try_fold (withdraw_step (env_time env) u) (st, 0, []) (map snd (requests_of_user st u)) = Ok (st', x, ids)"
    by (auto simp: withdraw_unbonded_def ok_simps Let_def split: if_splits)
  have "config_of (fst (st', x, ids)) = config_of st"
    by (rule try_fold_invariant [OF fold, where P = "\<lambda>acc. config_of (fst acc) = config_of st"])
      (auto dest: withdraw_step_config)
  then show ?thesis by simp
qed

lemma callback_config: "hub_callback deps env st info cb = Ok (st', resp) \<Longrightarrow> config_of st' = config_of st"
  by (auto simp: hub_callback_def config_of_def split: if_splits hub_callback_msg.splits
      elim!: reinvest_state callback_received_state)

text \<open>
  Whatever message is executed, the configuration (owner and proposal, validators, fees, strategy, distribution goal,
  donation switch, vote operator, periods) is as before unless the owner sent it; the only exception is the proposed owner
  accepting, which makes the sender the owner, clears the proposal and changes nothing else.
\<close>

theorem only_the_owner_configures:
  assumes "hub_execute deps env st info msg = Ok (st', resp)"
  shows "config_of st' = config_of st
    \<or> owner_message msg \<and> hub_owner st = Some (info_sender info)
    \<or> msg = AcceptOwnership \<and> hub_new_owner st = Some (info_sender info)
       \<and> st' = st\<lparr>hub_owner := Some (info_sender info), hub_new_owner := None\<rparr>"
proof (cases msg)
  case (Receive x1)
  with assms show ?thesis by (auto elim!: receive_state dest: queue_config)
next
  case (Bond x2)
  with assms show ?thesis by (auto simp: ok_simps dest: bond_state)
next
  case Donate
  with assms show ?thesis by (auto simp: ok_simps dest: bond_state)
next
  case (WithdrawUnbonded x4)
  with assms show ?thesis by (auto simp: ok_simps dest: withdraw_config)
next
  case (UpdateConfig x18)
  with assms show ?thesis by (auto simp: update_config_def ok_simps)
qed (use assms in \<open>auto elim!: add_validator_state remove_validator_state transfer_state tune_state
    dest: drop_state accept_state harvest_state rebalance_state vote_state vote_weighted_state
      reconcile_config submit_config callback_config\<close>)

theorem only_the_owner_configures_witness:
  "\<exists>st' resp. hub_execute (sample_deps 1000) (sample_env 1200) hub_queued (from_user ''owner'') (AddValidator ''vc'') = Ok (st', resp)
    \<and> (config_of st' = config_of hub_queued \<or> hub_owner hub_queued = Some ''owner'')"
proof -
  let ?r = "hub_execute (sample_deps 1000) (sample_env 1200) hub_queued (from_user ''owner'') (AddValidator ''vc'')"
  have "is_ok ?r" by code_simp
  then obtain st' resp where run: "?r = Ok (st', resp)" by (auto simp: is_ok_iff)
  from only_the_owner_configures [OF run] run show ?thesis by (auto simp: from_user_def)
qed

text \<open>
  A message for the owner sent by anyone else fails with \<open>Unauthorized\<close>, whatever its content and whatever the
  chain answers; nothing is stored or sent.
\<close>

theorem owner_messages_are_guarded:
  assumes "owner_message msg" and "hub_owner st = Some owner" and "info_sender info \<noteq> owner"
  shows "hub_execute deps env st info msg = Err Unauthorized"
proof -
  have "assert_owner st (info_sender info) = Err Unauthorized"
    using assms(2,3) by (simp add: assert_owner_def)
  with assms(1) show ?thesis
    by (cases msg) (simp_all add: add_validator_def remove_validator_def transfer_ownership_def
        drop_ownership_proposal_def tune_delegations_def rebalance_def update_config_def)
qed

theorem owner_messages_are_guarded_witness:
  "hub_execute (sample_deps 1000) (sample_env 1200) hub_queued (from_user ''bob'') (TransferOwnership ''bob'') = Err Unauthorized"
  by (rule owner_messages_are_guarded [where owner = "''owner''"])
    (simp_all add: hub_queued_def sample_hub_def from_user_def)

lemma update_config_owner:
  assumes "update_config deps st s msg = Ok (st', resp)"
  shows "hub_owner st' = hub_owner st"
proof -
  have fees: "update_fee_config deps msg a = Ok b \<Longrightarrow> hub_owner b = hub_owner a" for a b
    by (auto simp: update_fee_config_def ok_simps split: if_splits option.splits)
  have periods: "update_periods msg a = Ok b \<Longrightarrow> hub_owner b = hub_owner a" for a b
    by (auto simp: update_periods_def ok_simps split: if_splits option.splits)
  have strategy: "update_strategy deps msg a = Ok b \<Longrightarrow> hub_owner b = hub_owner a" for a b
    by (auto simp: update_strategy_def ok_simps split: option.splits)
  from assms show ?thesis
    by (auto simp: update_config_def Let_def ok_simps dest!: fees periods strategy split: option.splits)
qed

lemma execute_owner:
  assumes "hub_execute deps env st info msg = Ok (st', resp)"
  shows "hub_owner st' = hub_owner st \<or>
    hub_new_owner st = Some (info_sender info) \<and> st' = st\<lparr>hub_owner := Some (info_sender info), hub_new_owner := None\<rparr>"
proof (cases msg)
  case (Receive x1)
  with assms show ?thesis by (auto simp: config_of_def elim!: receive_state dest!: queue_config)
next
  case (Bond x2)
  with assms show ?thesis by (auto simp: ok_simps dest: bond_state)
next
  case Donate
  with assms show ?thesis by (auto simp: ok_simps dest: bond_state)
next
  case (WithdrawUnbonded x4)
  with assms show ?thesis by (auto simp: ok_simps config_of_def dest!: withdraw_config)
next
  case (UpdateConfig x18)
  with assms show ?thesis by (auto dest: update_config_owner)
next
  case Reconcile
  with assms show ?thesis by (auto simp: config_of_def dest!: reconcile_config)
next
  case SubmitBatch
  with assms show ?thesis by (auto simp: config_of_def dest!: submit_config)
next
  case (Callback cb)
  with assms show ?thesis by (auto simp: config_of_def dest!: callback_config)
qed (use assms in \<open>auto elim!: add_validator_state remove_validator_state transfer_state tune_state
    dest: drop_state accept_state harvest_state rebalance_state vote_state vote_weighted_state\<close>)

text \<open>
  The owner changes only in the second step of a transfer: a message, reply or migration after which the owner differs
  was the acceptance, it made the account proposed before the owner, cleared the proposal and changed nothing else.
\<close>

theorem ownership_moves_in_two_steps:
  assumes "hub_step st st'" and "hub_owner st' \<noteq> hub_owner st"
  shows "hub_new_owner st \<noteq> None \<and> st' = st\<lparr>hub_owner := hub_new_owner st, hub_new_owner := None\<rparr>"
  using assms
proof (induction rule: hub_step.induct)
  case (step_execute deps env st info msg st' resp)
  from execute_owner [OF step_execute(1)] show ?case using step_execute(2) by auto
next
  case (step_reply deps st r st' resp)
  then show ?case by (auto simp: hub_reply_def register_stake_token_def ok_simps split: if_splits)
next
  case (step_migrate deps st st' resp)
  then show ?case by (auto simp: hub_migrate_def set_contract_version_def)
qed

theorem ownership_moves_in_two_steps_witness:
  "\<exists>st'. hub_step (hub_queued\<lparr>hub_new_owner := Some ''eve''\<rparr>) st' \<and> hub_owner st' = Some ''eve''"
proof -
  let ?st = "hub_queued\<lparr>hub_new_owner := Some ''eve''\<rparr>"
  let ?st' = "hub_queued\<lparr>hub_owner := Some ''eve''\<rparr>"
  have "yields (hub_execute (sample_deps 1000) (sample_env 1200) ?st (from_user ''eve'') AcceptOwnership) ?st'" by code_simp
  then have step: "hub_step ?st ?st'" using step_execute yieldsD by blast
  have "hub_owner ?st' \<noteq> hub_owner ?st" by (simp add: hub_queued_def sample_hub_def)
  from ownership_moves_in_two_steps [OF step this]
  have eq: "?st' = ?st\<lparr>hub_owner := hub_new_owner ?st, hub_new_owner := None\<rparr>" by (rule conjunct2)
  have "hub_owner ?st' = Some ''eve''" by (subst eq) simp
  with step show ?thesis by blast
qed

text \<open>
  A tuning in gauge mode stores a distribution over at most the configured number of whitelisted validators, each named
  once, with shares that sum to at most one; in uniform mode it clears the stored distribution.
\<close>

theorem tuning_stores_a_sound_goal:
  assumes "hub_reachable st" and "tune_delegations deps env st sender = Ok (st', resp)"
    and "hub_validators st = Some validators"
  shows "case unwrap_or (hub_delegation_strategy st) Uniform of
      Uniform \<Rightarrow> hub_delegation_goal st' = None
    | Gauges amp emp factor mn mx n \<Rightarrow> (\<exists>g. hub_delegation_goal st' = Some g
        \<and> length (wd_shares g) \<le> n \<and> distinct (map fst (wd_shares g)) \<and> fst ` set (wd_shares g) \<subseteq> set validators
        \<and> sum_list (map snd (wd_shares g)) \<le> DEC_ONE \<and> wd_tune_time g = env_time env)"
proof -
  have dist: "distinct validators" using reachable_inv [OF assms(1)] assms(3) by (auto simp: hub_inv_def config_inv_def)
  from assms(2) obtain w save where w: "get_wanted_delegations st env deps TuneInfoGaugeLoader = Ok (w, save)"
    and st': "st' = st\<lparr>hub_delegation_goal := (if save then Some w else None)\<rparr>"
    by (rule tune_state)
  note S = wanted_sound [OF w assms(3) dist]
  show ?thesis
  proof (cases "unwrap_or (hub_delegation_strategy st) Uniform")
    case Uniform
    with S(4) st' show ?thesis by simp
  next
    case (Gauges amp emp f mn mx n)
    have "wd_tune_time w = env_time env" using w Gauges by (auto simp: get_wanted_delegations_def ok_simps)
    with S(1,2,3) S(4) S(5) [OF Gauges] st' Gauges show ?thesis by (simp add: shares_ok_def)
  qed
qed

text \<open>A hub in gauge mode: the owner switched the strategy.\<close>

definition hub_gauges :: hub_state where
  "hub_gauges = hub_queued\<lparr>hub_delegation_strategy := Some (Gauges ''amp'' None 10000 100 9000 5)\<rparr>"

lemma hub_gauges_reachable: "hub_reachable hub_gauges"
proof -
  have "yields (hub_execute (sample_deps 1000) (sample_env 1020) hub_queued (from_user ''owner'')
      (UpdateConfig \<lparr>uc_protocol_fee_contract = None, uc_protocol_reward_fee = None,
        uc_delegation_strategy = Some (Gauges ''amp'' None 10000 100 9000 5), uc_allow_donations = None,
        uc_vote_operator = None, uc_epoch_period = None, uc_unbond_period = None\<rparr>)) hub_gauges" by code_simp
  then show ?thesis by (rule reach_by_message [OF hub_queued_reachable])
qed

lemma hub_gauges_wanted: "is_ok (get_wanted_delegations hub_gauges (sample_env 1700000000) (sample_deps 1000) TuneInfoGaugeLoader)"
  by (simp add: get_wanted_delegations_def hub_gauges_def hub_queued_def sample_hub_def bps_try_from_def bps_decimal_def
      BPS_MAX_def num_defs U128_MAX_def DEC_ONE_def from_amps_def from_emps_def sample_deps_def sample_env_def
      validator_score_def context_points_def Let_def get_def normalize_shares_def get_period_def EPOCH_START_def
      sorted_desc_def)

theorem tuning_stores_a_sound_goal_witness:
  "\<exists>st' resp g. tune_delegations (sample_deps 1000) (sample_env 1700000000) hub_gauges ''owner'' = Ok (st', resp)
    \<and> hub_delegation_goal st' = Some g \<and> length (wd_shares g) \<le> 5"
proof -
  have "assert_owner hub_gauges ''owner'' = Ok ()"
    by (simp add: hub_gauges_def hub_queued_def sample_hub_def ok_simps)
  then have "is_ok (tune_delegations (sample_deps 1000) (sample_env 1700000000) hub_gauges ''owner'')"
    using hub_gauges_wanted by (auto simp: tune_delegations_def is_ok_iff Let_def)
  then obtain st' resp where run: "tune_delegations (sample_deps 1000) (sample_env 1700000000) hub_gauges ''owner'' = Ok (st', resp)"
    by (auto simp: is_ok_iff)
  have v: "hub_validators hub_gauges = Some [''va'', ''vb'']" by (simp add: hub_gauges_def hub_queued_def sample_hub_def)
  have s: "unwrap_or (hub_delegation_strategy hub_gauges) Uniform = Gauges ''amp'' None 10000 100 9000 5"
    by (simp add: hub_gauges_def)
  from tuning_stores_a_sound_goal [OF hub_gauges_reachable run v] run show ?thesis unfolding s by auto
qed

end
