(* ===== verification/HubQueries.thy ===== *)
theory HubQueries
  imports HubSample
begin

text \<open>
  The queries of the hub (\<open>contracts/hub/src/queries.rs\<close>, and the preparation of the distribution in
  \<open>math.rs\<close>): configuration and state, the wanted delegations, and the paginated lists of batches and requests.
\<close>

section \<open>Responses\<close>

record hub_config_response =
  cr_owner :: string
  cr_new_owner :: "string option"
  cr_stake_token :: string
  cr_epoch_period :: u64
  cr_unbond_period :: u64
  cr_validators :: "string list"
  cr_fee_config :: fee_config
  cr_delegation_strategy :: delegation_strategy

record hub_state_response =
  sr_total_ustake :: u128
  sr_total_uluna :: u128
  sr_exchange_rate :: decimal
  sr_unlocked_coins :: "coin list"
  sr_unbonding :: u128
  sr_available :: u128
  sr_tvl_uluna :: u128

record wanted_delegations_response =
  wr_tune_time_period :: "(u64 \<times> u64) option"
  wr_delegations :: "(string \<times> u128) list"

record request_details =
  rd_id :: u64
  rd_shares :: u128
  rd_state :: string
  rd_batch :: "batch option"
  rd_pending :: "pending_batch option"

definition MAX_LIMIT :: nat where "MAX_LIMIT = 30"
definition DEFAULT_LIMIT :: nat where "DEFAULT_LIMIT = 10"

definition page_limit :: "nat option \<Rightarrow> nat" where
  "page_limit limit = min (unwrap_or limit DEFAULT_LIMIT) MAX_LIMIT"

section \<open>Configuration and state\<close>

definition query_config :: "hub_state \<Rightarrow> (hub_config_response, std_error) result" where
  "query_config st =
     and_then (load_item (hub_owner st)) (\<lambda>owner.
     and_then (load_item (hub_stake_token st)) (\<lambda>token.
     and_then (load_item (hub_epoch_period st)) (\<lambda>epoch.
     and_then (load_item (hub_unbond_period st)) (\<lambda>unbond.
     and_then (load_item (hub_validators st)) (\<lambda>validators.
     and_then (load_item (hub_fee_config st)) (\<lambda>fees.
     Ok \<lparr>cr_owner = owner, cr_new_owner = hub_new_owner st, cr_stake_token = token, cr_epoch_period = epoch,
         cr_unbond_period = unbond, cr_validators = validators, cr_fee_config = fees,
         cr_delegation_strategy = unwrap_or (hub_delegation_strategy st) Uniform\<rparr>))))))"

definition query_state :: "hub_deps \<Rightarrow> env \<Rightarrow> hub_state \<Rightarrow> (hub_state_response, std_error) result" where
  "query_state deps env st =
     and_then (load_item (hub_stake_token st)) (\<lambda>token.
     and_then (query_cw20_total_supply deps token) (\<lambda>total_ustake.
     and_then (query_all_delegations deps (env_contract env)) (\<lambda>ds.
     and_then (sum_delegations ds) (\<lambda>total_uluna.
     and_then (u128_sum (map b_uluna_unclaimed
         (filter (\<lambda>b. b_est_unbond_end_time b > env_time env) (unreconciled_batches st)))) (\<lambda>unbonding.
     and_then (dep_balance deps (env_contract env) CONTRACT_DENOM) (\<lambda>available.
     and_then (if total_ustake = 0 then Ok DEC_ONE else dec_from_ratio total_uluna total_ustake) (\<lambda>rate.
     and_then (load_item (hub_unlocked_coins st)) (\<lambda>coins.
     and_then (checked_add total_uluna unbonding) (\<lambda>bonded.
     and_then (checked_add bonded available) (\<lambda>tvl.
     Ok \<lparr>sr_total_ustake = total_ustake, sr_total_uluna = total_uluna, sr_exchange_rate = rate,
         sr_unlocked_coins = coins, sr_unbonding = unbonding, sr_available = available, sr_tvl_uluna = tvl\<rparr>))))))))))"

section \<open>Wanted delegations\<close>

definition get_uluna_per_validator_prepared ::
    "hub_state \<Rightarrow> hub_deps \<Rightarrow> addr \<Rightarrow> wanted_delegations_share option \<Rightarrow> string list option \<Rightarrow>
     (utoken_per_validator \<times> u128 option \<times> u128 option \<times> wanted_delegations_share option, std_error) result" where
  "get_uluna_per_validator_prepared st deps contract goal validators =
     and_then (query_all_delegations deps contract) (\<lambda>ds.
     and_then (sum_delegations ds) (\<lambda>staked.
     and_then (case validators of Some vs \<Rightarrow> Ok vs | None \<Rightarrow> load_item (hub_validators st)) (\<lambda>vs.
     get_uluna_per_validator st staked vs goal)))"

text \<open>By amount descending, then by address ascending; the argument is the hash map in the order it happens to be iterated.\<close>

definition sort_delegations :: "(string \<times> u128) list \<Rightarrow> (string \<times> u128) list" where
  "sort_delegations ds = sorted_desc snd (sort_key fst ds)"

definition wanted_response ::
    "utoken_per_validator \<times> u128 option \<times> u128 option \<times> wanted_delegations_share option \<Rightarrow> wanted_delegations_response" where
  "wanted_response r = (case r of (upv, _, _, share) \<Rightarrow>
     \<lparr>wr_tune_time_period = map_option (\<lambda>s. (wd_tune_time s, wd_tune_period s)) share,
      wr_delegations = sort_delegations (entries upv)\<rparr>)"

definition wanted_delegations :: "hub_deps \<Rightarrow> env \<Rightarrow> hub_state \<Rightarrow> (wanted_delegations_response, std_error) result" where
  "wanted_delegations deps env st =
     and_then (get_uluna_per_validator_prepared st deps (env_contract env) None None) (\<lambda>r. Ok (wanted_response r))"

definition simulate_wanted_delegations ::
    "hub_deps \<Rightarrow> env \<Rightarrow> hub_state \<Rightarrow> u64 option \<Rightarrow> (wanted_delegations_response, std_error) result" where
  "simulate_wanted_delegations deps env st period =
     and_then (get_period (env_time env)) (\<lambda>current.
     and_then (u64_add current 1) (\<lambda>following.
     and_then (load_item (hub_validators st)) (\<lambda>validators.
     and_then (get_wanted_delegations st env deps (PeriodGaugeLoader (unwrap_or period following) validators))
       (\<lambda>(goal, _).
     and_then (get_uluna_per_validator_prepared st deps (env_contract env) (Some goal) (Some validators))
       (\<lambda>r. Ok (wanted_response r))))))"

section \<open>Batches and requests\<close>

definition query_pending_batch :: "hub_state \<Rightarrow> (pending_batch, std_error) result" where
  "query_pending_batch st = load_item (hub_pending_batch st)"

definition query_previous_batch :: "hub_state \<Rightarrow> u64 \<Rightarrow> (batch, std_error) result" where
  "query_previous_batch st i = load_item (get (hub_previous_batches st) i)"

definition query_previous_batches :: "hub_state \<Rightarrow> u64 option \<Rightarrow> nat option \<Rightarrow> batch list" where
  "query_previous_batches st start_after limit =
     map snd (page start_after (page_limit limit) (entries (hub_previous_batches st)))"

text \<open>An invalid start address is ignored.\<close>

definition requests_of_batch :: "hub_state \<Rightarrow> u64 \<Rightarrow> (addr \<times> unbond_request) list" where
  "requests_of_batch st i =
     map (\<lambda>e. (snd (fst e), snd e)) (filter (\<lambda>e. fst (fst e) = i) (entries (hub_unbond_requests st)))"

definition unbond_requests_by_batch ::
    "hub_deps \<Rightarrow> hub_state \<Rightarrow> u64 \<Rightarrow> string option \<Rightarrow> nat option \<Rightarrow> (addr \<times> u128) list" where
  "unbond_requests_by_batch deps st i start_after limit =
     (let start = (case start_after of
            Some s \<Rightarrow> (case dep_addr_validate deps s of Ok a \<Rightarrow> Some a | _ \<Rightarrow> None)
          | None \<Rightarrow> None)
      in map (\<lambda>e. (ur_user (snd e), ur_shares (snd e))) (page start (page_limit limit) (requests_of_batch st i)))"

definition user_page ::
    "hub_deps \<Rightarrow> hub_state \<Rightarrow> string \<Rightarrow> u64 option \<Rightarrow> nat option \<Rightarrow> (unbond_request list, std_error) result" where
  "user_page deps st user start_after limit =
     and_then (dep_addr_validate deps user) (\<lambda>a.
     Ok (map snd (page (map_option (\<lambda>i. (i, a)) start_after) (page_limit limit) (requests_of_user st user))))"

definition unbond_requests_by_user ::
    "hub_deps \<Rightarrow> hub_state \<Rightarrow> string \<Rightarrow> u64 option \<Rightarrow> nat option \<Rightarrow> ((u64 \<times> u128) list, std_error) result" where
  "unbond_requests_by_user deps st user start_after limit =
     and_then (user_page deps st user start_after limit) (\<lambda>rs. Ok (map (\<lambda>r. (ur_id r, ur_shares r)) rs))"

definition details_of :: "env \<Rightarrow> hub_state \<Rightarrow> pending_batch \<Rightarrow> unbond_request \<Rightarrow> (request_details, std_error) result" where
  "details_of env st pending r =
     (if pb_id pending = ur_id r then
        Ok \<lparr>rd_id = ur_id r, rd_shares = ur_shares r, rd_state = ''PENDING'', rd_batch = None, rd_pending = Some pending\<rparr>
      else
        and_then (load_item (get (hub_previous_batches st) (ur_id r))) (\<lambda>b.
        Ok \<lparr>rd_id = ur_id r, rd_shares = ur_shares r,
            rd_state = (if b_est_unbond_end_time b < env_time env then ''COMPLETED'' else ''UNBONDING''),
            rd_batch = Some b, rd_pending = None\<rparr>))"

definition unbond_requests_by_user_details ::
    "hub_deps \<Rightarrow> env \<Rightarrow> hub_state \<Rightarrow> string \<Rightarrow> u64 option \<Rightarrow> nat option \<Rightarrow> (request_details list, std_error) result" where
  "unbond_requests_by_user_details deps env st user start_after limit =
     and_then (dep_addr_validate deps user) (\<lambda>_.
     and_then (load_item (hub_pending_batch st)) (\<lambda>pending.
     and_then (user_page deps st user start_after limit) (\<lambda>rs.
     traverse (details_of env st pending) rs)))"

section \<open>Sorting does not depend on the hash map\<close>

lemma sorted_desc_stable: "filter (\<lambda>x. g x = k) (sorted_desc g xs) = filter (\<lambda>x. g x = k) xs"
  by (simp add: sorted_desc_def rev_filter [symmetric] sort_key_stable)

lemma sorted_lexI:
  fixes g :: "'a \<Rightarrow> 'k::linorder"
  assumes "sorted_wrt (\<lambda>p q. g q \<le> g p) xs" and "\<And>k. sorted_wrt R (filter (\<lambda>x. g x = k) xs)"
  shows "sorted_wrt (\<lambda>p q. g q < g p \<or> g p = g q \<and> R p q) xs"
  using assms
proof (induction xs)
  case Nil
  then show ?case by simp
next
  case (Cons x xs)
  have "g y < g x \<or> g x = g y \<and> R x y" if y: "y \<in> set xs" for y
  proof (cases "g y = g x")
    case True
    then show ?thesis using Cons.prems(2) [of "g x"] y by auto
  next
    case False
    then show ?thesis using Cons.prems(1) y by auto
  qed
  moreover have "sorted_wrt R (filter (\<lambda>z. g z = k) xs)" for k
    using Cons.prems(2) [of k] by (simp split: if_splits)
  ultimately show ?case using Cons by simp
qed

text \<open>
  The order in which the hash map yields its entries does not matter: the delegations come sorted by amount descending and,
  at equal amounts, by address ascending, and every order of the same entries gives the same answer.
\<close>

theorem sort_delegations_canonical:
  assumes "distinct (map fst ds)" and "mset ds' = mset ds"
  shows "sort_delegations ds' = sort_delegations ds
    \<and> mset (sort_delegations ds) = mset ds
    \<and> sorted_wrt (\<lambda>p q. snd q < snd p \<or> snd p = snd q \<and> fst p < fst q) (sort_delegations ds)"
proof (intro conjI)
  have "inj_on fst (set ds')" using assms mset_eq_setD [OF assms(2)] by (simp add: distinct_map)
  then have "sort_key fst ds' = sort_key fst ds"
    by (intro sort_key_inj_key_eq) (simp_all add: assms(2))
  then show "sort_delegations ds' = sort_delegations ds" by (simp add: sort_delegations_def)
  show "mset (sort_delegations ds) = mset ds" by (simp add: sort_delegations_def sorted_desc_def)
  have "distinct (map fst (sort_key fst ds))"
    using assms(1) by (metis mset_eq_imp_distinct_iff mset_map mset_sort)
  then have "sorted_wrt (<) (map fst (sort_key fst ds))" by (simp add: strict_sorted_iff)
  then have byname: "sorted_wrt (\<lambda>p q. fst p < fst q) (sort_key fst ds)" by (simp add: sorted_wrt_map)
  show "sorted_wrt (\<lambda>p q. snd q < snd p \<or> snd p = snd q \<and> fst p < fst q) (sort_delegations ds)"
    unfolding sort_delegations_def
    by (rule sorted_lexI [OF sorted_desc_sorted]) (simp add: sorted_desc_stable sorted_wrt_filter byname)
qed

theorem sort_delegations_canonical_witness:
  "sort_delegations [(''b'', 5), (''a'', 5), (''c'', 9)] = sort_delegations [(''c'', 9), (''a'', 5), (''b'', 5)]"
  using sort_delegations_canonical [of "[(''c'', 9), (''a'', 5), (''b'', 5)]" "[(''b'', 5), (''a'', 5), (''c'', 9)]"] by simp

section \<open>What the queries promise\<close>

text \<open>
  The wanted delegations of a reachable hub sum to at most what is delegated, name every validator once and carry the time and
  period of the stored distribution when there is one.
\<close>

theorem wanted_delegations_within_stake:
  assumes "hub_reachable st" and "wanted_delegations deps env st = Ok r"
    and "query_all_delegations deps (env_contract env) = Ok ds"
  shows "sum_list (map snd (wr_delegations r)) \<le> sum_list (map d_amount ds)
    \<and> distinct (map fst (wr_delegations r))
    \<and> wr_tune_time_period r = map_option (\<lambda>g. (wd_tune_time g, wd_tune_period g)) (hub_delegation_goal st)"
proof -
  from assms(2,3) obtain vs upv add remove g where
    upv: "get_uluna_per_validator st (sum_list (map d_amount ds)) vs None = Ok (upv, add, remove, g)"
    and r: "r = wanted_response (upv, add, remove, g)"
    by (auto simp: wanted_delegations_def get_uluna_per_validator_prepared_def sum_delegations_def ok_simps)
  have g: "g = hub_delegation_goal st" using upv by (auto simp: get_uluna_per_validator_def Let_def ok_simps)
  have "goal_ok g"
    using reachable_inv [OF assms(1)] unfolding g
    by (cases "hub_delegation_goal st") (auto simp: hub_inv_def config_inv_def)
  note F = get_uluna_per_validator_facts [OF upv this]
  have m: "mset (sort_delegations (entries upv)) = mset (entries upv)" by (simp add: sort_delegations_def sorted_desc_def)
  have "mset (map snd (sort_delegations (entries upv))) = mset (map snd (entries upv))"
    "mset (map fst (sort_delegations (entries upv))) = mset (map fst (entries upv))"
    using m by simp_all
  then have "sum_list (map snd (sort_delegations (entries upv))) = upv_total upv"
    "distinct (map fst (sort_delegations (entries upv)))"
    using om.keys_distinct [OF F(2)] by (metis sum_mset_sum_list upv_total_def, metis mset_eq_imp_distinct_iff)
  with F(4) r g show ?thesis by (simp add: wanted_response_def)
qed

theorem wanted_delegations_within_stake_witness:
  "\<exists>r. wanted_delegations (sample_deps 1000) (sample_env 1200) hub_queued = Ok r \<and> sum_list (map snd (wr_delegations r)) \<le> 100"
proof -
  have "is_ok (wanted_delegations (sample_deps 1000) (sample_env 1200) hub_queued)" by code_simp
  then obtain r where run: "wanted_delegations (sample_deps 1000) (sample_env 1200) hub_queued = Ok r"
    by (auto simp: is_ok_iff)
  have d: "query_all_delegations (sample_deps 1000) (env_contract (sample_env 1200)) = Ok [mk_delegation ''va'' 60, mk_delegation ''vb'' 40]"
    by (simp add: sample_deps_def query_all_delegations_def)
  from wanted_delegations_within_stake [OF hub_queued_reachable run d] run show ?thesis by auto
qed

text \<open>
  A page of the previous batches of a reachable hub holds at most 30 batches, each as it is stored, by strictly ascending id,
  all after the start; no stored batch between the start and the end of the page is left out, so asking on from the last id
  visits every batch exactly once.
\<close>

theorem previous_batches_pages:
  assumes "hub_reachable st" and "bs = query_previous_batches st start_after limit"
  shows "length bs \<le> MAX_LIMIT \<and> sorted_wrt (<) (map b_id bs)
    \<and> (\<forall>b \<in> set bs. get (hub_previous_batches st) (b_id b) = Some b \<and> after start_after (b_id b))
    \<and> (\<forall>i b. bs \<noteq> [] \<and> get (hub_previous_batches st) i = Some b \<and> after start_after i \<and> i \<le> b_id (last bs) \<longrightarrow> b \<in> set bs)"
proof -
  from reachable_inv [OF assms(1)] obtain p where
    ok: "books_ok p (hub_previous_batches st) (hub_unbond_requests st)"
    by (auto simp: hub_inv_def books_inv_def)
  note D = books_okD [OF ok]
  let ?es = "entries (hub_previous_batches st)" and ?p = "page start_after (page_limit limit) (entries (hub_previous_batches st))"
  have srt: "keys_sorted ?es" by (rule om.entries_keys_sorted [OF D(1)])
  note P = page_bounds [OF srt]
  have bs: "bs = map snd ?p" by (simp add: assms(2) query_previous_batches_def)
  have stored: "get (hub_previous_batches st) (fst e) = Some (snd e) \<and> b_id (snd e) = fst e" if "e \<in> set ?es" for e
    using that D(3) om.in_entries [OF D(1), of "fst e" "snd e"] by auto
  then have ids: "map b_id bs = map fst ?p"
    unfolding bs map_map comp_def by (intro map_cong refl) (use subsetD [OF P(3)] stored in blast)
  have "page_limit limit \<le> MAX_LIMIT" by (simp add: page_limit_def)
  then have "length bs \<le> MAX_LIMIT" unfolding bs length_map by (rule order.trans [OF P(1)])
  moreover have "sorted_wrt (<) (map b_id bs)" unfolding ids using P(2) by (simp add: keys_sorted_def)
  moreover have "get (hub_previous_batches st) (b_id b) = Some b \<and> after start_after (b_id b)" if "b \<in> set bs" for b
  proof -
    from that obtain e where e: "e \<in> set ?p" "b = snd e" by (auto simp: bs)
    moreover have "after start_after (fst e)" using e(1) by (auto simp: page_def dest: in_set_takeD)
    ultimately show ?thesis using stored [OF subsetD [OF P(3) e(1)]] by simp
  qed
  moreover have "b \<in> set bs" if "bs \<noteq> []" "get (hub_previous_batches st) i = Some b" "after start_after i" "i \<le> b_id (last bs)" for i b
  proof -
    have ne: "?p \<noteq> []" using that(1) by (simp add: bs)
    have "b_id (last bs) = fst (last ?p)" using ids that(1) ne by (metis last_map)
    moreover have "(i, b) \<in> set ?es" using that(2) om.in_entries [OF D(1)] by simp
    ultimately have "(i, b) \<in> set ?p"
      using page_complete [OF srt ne, of "(i, b)"] that(3,4) by simp
    then show ?thesis unfolding bs by force
  qed
  ultimately show ?thesis by blast
qed

theorem previous_batches_pages_witness:
  "length (query_previous_batches hub_ended None (Some 1000)) \<le> MAX_LIMIT"
  using previous_batches_pages [OF hub_ended_reachable refl] by blast

end
