(* ===== verification/EscrowState.thy ===== *)
theory EscrowState
  imports ErisLib
begin

text \<open>
  The data of the voting escrow (\<open>contracts/amp-governance/voting_escrow\<close>): the messages and
  answers of \<open>packages/eris/src/voting_escrow.rs\<close>, the errors, and the storage of
  \<open>state.rs\<close>. A user locks ampLP tokens until a period (a week); a lock gives voting power
  (vAMP): a fixed part, the locked amount, and a part that decays to zero at the end of the lock.
  \<open>HISTORY\<close> keeps a checkpoint (\<open>point\<close>) per account and period, the total under the
  account of the contract itself.
\<close>

section \<open>Errors\<close>

datatype escrow_error =
    StdError std_error
  | Cw20Base string
  | OverflowErr
  | OverflowLocation string
  | EscrowUnauthorized
  | LockAlreadyExists
  | LockDoesNotExist
  | UserNotFound string
  | LockTimeLimitsError
  | LockPeriodsError
  | LockHasNotExpired
  | LockExpired
  | AddressBlacklisted string
  | AddressNotBlacklisted string
  | AddressBlacklistDuplicated string
  | AddressBlacklistEmpty
  | MarketingInfoValidationError string
  | LogoTooBig
  | InvalidXmlPreamble
  | InvalidPngHeader
  | CheckpointInitializationFailed
  | EscrowMigrationError string

abbreviation estd :: "('a, std_error) result \<Rightarrow> ('a, escrow_error) result" where
  "estd \<equiv> map_err StdError"

section \<open>State (state.rs)\<close>

record escrow_config =
  ec_owner :: addr
  ec_guardian_addr :: "addr option"
  ec_deposit_token_addr :: addr
  ec_logo_urls_whitelist :: "string list"
  ec_push_update_contracts :: "addr list"

record point =
  pt_power :: u128
  pt_start :: u64
  pt_end :: u64
  pt_slope :: u128
  pt_fixed :: u128

record lock =
  lk_amount :: u128
  lk_start :: u64
  lk_end :: u64
  lk_last_extend_lock_period :: u64

text \<open>
  Logos and the items of \<open>cw20-base\<close> the contract stores: token information, marketing
  information and the logo. Bytes are characters. The ownership proposal of
  \<open>astroport::common\<close> is only handed through and kept as its serialisation.
\<close>

datatype logo = LogoUrl string | EmbeddedSvg string | EmbeddedPng string
datatype logo_info = LogoInfoUrl string | LogoInfoEmbedded

record token_info =
  ti_name :: string
  ti_symbol :: string
  ti_decimals :: nat
  ti_total_supply :: u128
  ti_mint :: "(addr \<times> u128 option) option"

record marketing_info =
  mi_project :: "string option"
  mi_description :: "string option"
  mi_logo :: "logo_info option"
  mi_marketing :: "addr option"

record cw20_items =
  cw_token_info :: "token_info option"
  cw_marketing_info :: "marketing_info option"
  cw_logo :: "logo option"

type_synonym ownership_proposal = string
type_synonym history = "(addr \<times> u64, point) store"

record escrow_state =
  ve_config :: "escrow_config option"
  ve_locked :: "(addr, lock) store"
  ve_history :: history
  ve_slope_changes :: "(u64, u128) store"
  ve_last_slope_change :: "u64 option"
  ve_ownership_proposal :: "ownership_proposal option"
  ve_blacklist :: "addr list option"
  ve_cw20 :: cw20_items
  ve_contract_info :: "(string \<times> string) option"

definition empty_escrow :: escrow_state where
  "empty_escrow = \<lparr>ve_config = None, ve_locked = [], ve_history = [], ve_slope_changes = [],
     ve_last_slope_change = None, ve_ownership_proposal = None, ve_blacklist = None,
     ve_cw20 = \<lparr>cw_token_info = None, cw_marketing_info = None, cw_logo = None\<rparr>,
     ve_contract_info = None\<rparr>"

section \<open>Messages\<close>

record update_marketing_info =
  um_project :: "string option"
  um_description :: "string option"
  um_marketing :: "string option"
  um_logo :: "logo option"

record escrow_instantiate_msg =
  ei_owner :: string
  ei_guardian_addr :: "string option"
  ei_deposit_token_addr :: string
  ei_marketing :: "update_marketing_info option"
  ei_logo_urls_whitelist :: "string list"

datatype cw20_hook_msg =
    CreateLock u64
  | DepositFor string
  | ExtendLockAmount "bool option"

datatype escrow_execute_msg =
    ExtendLockTime u64
  | ReceiveToken "cw20_hook_msg decoded cw20_receive_msg"
  | Withdraw
  | ProposeNewOwner string u64
  | DropProposal
  | ClaimOwnership
  | UpdateBlacklist "string list option" "string list option"
  | UpdateMarketing "string option" "string option" "string option"
  | UploadLogo logo
  | UpdateEscrowConfig "string option" "string list option"
  | SetLogoUrlsWhitelist "string list"

record lock_info =
  li_amount :: u128
  li_coefficient :: decimal
  li_start :: u64
  li_end :: u64
  li_slope :: u128
  li_fixed_amount :: u128
  li_voting_power :: u128

text \<open>The payloads of its messages: a transfer of the deposit token, and the update it pushes to the
  contracts that follow the votes.\<close>

datatype escrow_payload = ToToken cw20_msg | UpdateVote addr lock_info

type_synonym escrow_msg = "escrow_payload cosmos_msg"
type_synonym escrow_response = "escrow_payload response"

datatype blacklisted_voters_response = VotersBlacklisted | VotersNotBlacklisted string

datatype escrow_query_msg =
    CheckVotersAreBlacklisted "string list"
  | BlacklistedVoters "string option" "nat option"
  | TotalVamp
  | UserVamp string
  | TotalVampAt u64
  | TotalVampAtPeriod u64
  | UserVampAt string u64
  | UserVampAtPeriod string u64
  | LockInfo string
  | UserDepositAtHeight string u64
  | EscrowConfig
  | Balance string
  | TokenInfo
  | MarketingInfo
  | DownloadLogo

record token_info_response =
  tr_name :: string
  tr_symbol :: string
  tr_decimals :: nat
  tr_total_supply :: u128

datatype escrow_answer =
    VotersAnswer blacklisted_voters_response
  | AddrsAnswer "addr list"
  | VampAnswer u128
  | LockInfoAnswer lock_info
  | DepositAnswer u128
  | ConfigAnswer escrow_config
  | BalanceAnswer u128
  | TokenInfoAnswer token_info_response
  | MarketingInfoAnswer marketing_info
  | DownloadLogoAnswer logo

section \<open>What the escrow calls\<close>

text \<open>
  Address validation, the ownership functions of \<open>astroport::common\<close>, the marketing functions and
  queries of \<open>cw20-base\<close>, and the snapshot of a lock at a block height (\<open>SnapshotMap\<close> of
  \<open>cw-storage-plus\<close>) are parameters. A claim yields the new owner, which the escrow's callback
  stores.
\<close>

record escrow_deps =
  ed_addr_validate :: "string \<Rightarrow> (addr, std_error) result"
  ed_propose_new_owner :: "message_info \<Rightarrow> env \<Rightarrow> string \<Rightarrow> u64 \<Rightarrow> addr \<Rightarrow> ownership_proposal option \<Rightarrow>
    (ownership_proposal option \<times> escrow_response, std_error) result"
  ed_drop_ownership_proposal :: "message_info \<Rightarrow> addr \<Rightarrow> ownership_proposal option \<Rightarrow>
    (ownership_proposal option \<times> escrow_response, std_error) result"
  ed_claim_ownership :: "message_info \<Rightarrow> env \<Rightarrow> ownership_proposal option \<Rightarrow>
    (addr \<times> ownership_proposal option \<times> escrow_response, std_error) result"
  ed_update_marketing :: "env \<Rightarrow> message_info \<Rightarrow> string option \<Rightarrow> string option \<Rightarrow> string option \<Rightarrow> cw20_items \<Rightarrow>
    (cw20_items \<times> escrow_response, string) result"
  ed_upload_logo :: "env \<Rightarrow> message_info \<Rightarrow> logo \<Rightarrow> cw20_items \<Rightarrow> (cw20_items \<times> escrow_response, string) result"
  ed_lock_at_height :: "addr \<Rightarrow> u64 \<Rightarrow> (lock option, std_error) result"
  ed_version :: string
  ed_query_marketing_info :: "cw20_items \<Rightarrow> (marketing_info, std_error) result"
  ed_query_download_logo :: "cw20_items \<Rightarrow> (logo, std_error) result"

end
