(* ===== verification/EscrowUtils.thy ===== *)
theory EscrowUtils
  imports EscrowState
begin

text \<open>
  The guards, the slope schedule and the checkpoints of the escrow (\<open>utils.rs\<close>, and
  \<open>checkpoint_total\<close>, \<open>checkpoint\<close> of \<open>contract.rs\<close>).
\<close>

section \<open>Guards\<close>

definition assert_time_limits :: "u64 \<Rightarrow> (unit, escrow_error) result" where
  "assert_time_limits time =
     (if \<not> (WEEK \<le> time \<and> time \<le> MAX_LOCK_TIME) then Err LockTimeLimitsError else Ok ())"

definition assert_periods_remaining :: "u64 \<Rightarrow> (unit, escrow_error) result" where
  "assert_periods_remaining periods =
     (if periods < MIN_LOCK_PERIODS then Err LockPeriodsError else Ok ())"

definition assert_token :: "escrow_state \<Rightarrow> addr \<Rightarrow> (unit, escrow_error) result" where
  "assert_token st sender =
     and_then (estd (load_item (ve_config st))) (\<lambda>cfg.
       if sender \<noteq> ec_deposit_token_addr cfg then Err EscrowUnauthorized else Ok ())"

definition assert_blacklist :: "escrow_state \<Rightarrow> addr \<Rightarrow> (unit, escrow_error) result" where
  "assert_blacklist st a =
     and_then (estd (load_item (ve_blacklist st))) (\<lambda>bl.
       if a \<in> set bl then Err (AddressBlacklisted a) else Ok ())"

lemma guards_Ok [ok_simps]:
  "assert_time_limits t = Ok u \<longleftrightarrow> WEEK \<le> t \<and> t \<le> MAX_LOCK_TIME"
  "assert_periods_remaining n = Ok u \<longleftrightarrow> MIN_LOCK_PERIODS \<le> n"
  "assert_token st a = Ok u \<longleftrightarrow> (\<exists>cfg. ve_config st = Some cfg \<and> a = ec_deposit_token_addr cfg)"
  "assert_blacklist st a = Ok u \<longleftrightarrow> (\<exists>bl. ve_blacklist st = Some bl \<and> a \<notin> set bl)"
  by (auto simp: assert_time_limits_def assert_periods_remaining_def assert_token_def assert_blacklist_def
      ok_simps split: if_splits)

section \<open>Voting power of a point\<close>

text \<open>\<open>calc_voting_power(point, period)\<close>: the shift is zero when the product overflows.\<close>

definition point_voting_power :: "point \<Rightarrow> u64 \<Rightarrow> (u128, 'e) result" where
  "point_voting_power p period =
     and_then (u64_sub period (pt_start p)) (\<lambda>dt.
       let shift = (case checked_mul (pt_slope p) dt of Ok s \<Rightarrow> s | _ \<Rightarrow> 0) in
       Ok (case checked_sub (pt_power p) shift of Ok v \<Rightarrow> v | _ \<Rightarrow> 0))"

section \<open>Checkpoints\<close>

definition checkpoints_of :: "history \<Rightarrow> addr \<Rightarrow> (u64, point) store" where
  "checkpoints_of h a = prefix_of h a"

definition fetch_last_checkpoint :: "escrow_state \<Rightarrow> addr \<Rightarrow> u64 \<Rightarrow> (u64 \<times> point) option" where
  "fetch_last_checkpoint st a period_key = newest_upto period_key (checkpoints_of (ve_history st) a)"

definition save_point :: "addr \<Rightarrow> u64 \<Rightarrow> point \<Rightarrow> escrow_state \<Rightarrow> escrow_state" where
  "save_point a period p st = st\<lparr>ve_history := put (a, period) p (ve_history st)\<rparr>"

section \<open>The slope schedule\<close>

definition cancel_scheduled_slope :: "u128 \<Rightarrow> u64 \<Rightarrow> escrow_state \<Rightarrow> escrow_state \<times> u64" where
  "cancel_scheduled_slope slope period st =
     (let last_slope_change = unwrap_or (ve_last_slope_change st) 0 in
      if period > last_slope_change then
        (case get (ve_slope_changes st) period of
           Some old \<Rightarrow>
             (if saturating_sub old slope \<noteq> 0
              then st\<lparr>ve_slope_changes := put period (old - slope) (ve_slope_changes st)\<rparr>
              else st\<lparr>ve_slope_changes := del period (ve_slope_changes st)\<rparr>, last_slope_change)
         | None \<Rightarrow> (st, last_slope_change))
      else (st, last_slope_change))"

definition schedule_slope_change :: "u128 \<Rightarrow> u64 \<Rightarrow> escrow_state \<Rightarrow> (escrow_state, escrow_error) result" where
  "schedule_slope_change slope period st =
     (if slope \<noteq> 0 then
        and_then (case get (ve_slope_changes st) period of Some old \<Rightarrow> u128_add old slope | None \<Rightarrow> Ok slope)
          (\<lambda>new. Ok (st\<lparr>ve_slope_changes := put period new (ve_slope_changes st)\<rparr>))
      else Ok st)"

definition fetch_slope_changes :: "escrow_state \<Rightarrow> u64 \<Rightarrow> u64 \<Rightarrow> (u64 \<times> u128) list" where
  "fetch_slope_changes st last_slope_change period =
     filter (\<lambda>e. last_slope_change < fst e \<and> fst e \<le> period) (entries (ve_slope_changes st))"

section \<open>Total voting power\<close>

definition recalc_step ::
    "addr \<Rightarrow> escrow_state \<times> point \<Rightarrow> u64 \<times> u128 \<Rightarrow> (escrow_state \<times> point, escrow_error) result" where
  "recalc_step contract acc change =
     (case acc of (st, p) \<Rightarrow>
      and_then (point_voting_power p (fst change)) (\<lambda>power.
      let p' = p\<lparr>pt_power := power, pt_start := fst change, pt_slope := saturating_sub (pt_slope p) (snd change)\<rparr>
      in Ok (save_point contract (fst change) p' st, p')))"

definition recalc_points :: "addr \<Rightarrow> u64 \<Rightarrow> point \<Rightarrow> escrow_state \<Rightarrow> (escrow_state \<times> point, escrow_error) result" where
  "recalc_points contract cur_period p st =
     (let last_slope_change = unwrap_or (ve_last_slope_change st) 0 in
      if last_slope_change < cur_period then
        and_then (try_fold (recalc_step contract) (st, p) (fetch_slope_changes st last_slope_change cur_period))
          (\<lambda>(st', p'). Ok (st'\<lparr>ve_last_slope_change := Some cur_period\<rparr>, p'))
      else Ok (st, p))"

definition checkpoint_total ::
    "env \<Rightarrow> u128 option \<Rightarrow> u128 option \<Rightarrow> u128 option \<Rightarrow> u128 option \<Rightarrow> u128 \<Rightarrow> u128 \<Rightarrow> escrow_state \<Rightarrow>
     (escrow_state, escrow_error) result" where
  "checkpoint_total env add_voting_power add_amount reduce_power reduce_amount old_slope new_slope st =
     and_then (estd (get_period (env_time env))) (\<lambda>cur_period.
     let contract = env_contract env; add_power = unwrap_or add_voting_power 0; add_amt = unwrap_or add_amount 0 in
     case fetch_last_checkpoint st contract cur_period of
       Some (_, point) \<Rightarrow>
         and_then (recalc_points contract cur_period point st) (\<lambda>(st', p).
         and_then (point_voting_power p cur_period) (\<lambda>power.
         and_then (u128_add power add_power) (\<lambda>raised.
         and_then (u128_add (saturating_sub (pt_slope p) old_slope) new_slope) (\<lambda>slope.
         and_then (u128_add (pt_fixed p) add_amt) (\<lambda>fixed.
         Ok (save_point contract cur_period
              (p\<lparr>pt_power := saturating_sub raised (unwrap_or reduce_power 0), pt_slope := slope,
                 pt_start := cur_period, pt_fixed := saturating_sub fixed (unwrap_or reduce_amount 0)\<rparr>) st'))))))
     | None \<Rightarrow>
         Ok (save_point contract cur_period
              \<lparr>pt_power = add_power, pt_start = cur_period, pt_end = 0, pt_slope = new_slope, pt_fixed = add_amt\<rparr> st))"

section \<open>Voting power of a user\<close>

text \<open>The new slope of a user that has a checkpoint, the power to add, and the state: an extended lock
  is computed anew from the whole amount, a deposit adds to what is left.\<close>

definition new_user_slope ::
    "addr \<Rightarrow> u128 \<Rightarrow> u64 \<Rightarrow> u64 \<Rightarrow> point \<Rightarrow> u128 \<Rightarrow> escrow_state \<Rightarrow> (escrow_state \<times> u128 \<times> u128, escrow_error) result" where
  "new_user_slope a add_amt cur_period end' p current_power st =
     (let dt = saturating_sub end' cur_period in
      if dt \<noteq> 0 then
        (if end' > pt_end p then
           and_then (estd (load_item (get (ve_locked st) a))) (\<lambda>lock.
           and_then (calc_coefficient dt) (\<lambda>coefficient.
           and_then (estd (checked_mul_uint coefficient (lk_amount lock))) (\<lambda>raw.
           and_then (estd (adjust_vp_and_slope raw dt)) (\<lambda>(slope, new_voting_power).
           Ok (st\<lparr>ve_locked := put a (lock\<lparr>lk_last_extend_lock_period := cur_period\<rparr>) (ve_locked st)\<rparr>,
               slope, saturating_sub new_voting_power current_power)))))
         else
           and_then (calc_coefficient dt) (\<lambda>coefficient.
           and_then (estd (checked_mul_uint coefficient add_amt)) (\<lambda>raw.
           and_then (map_err (\<lambda>_. OverflowErr) (checked_add current_power raw)) (\<lambda>sum.
           and_then (estd (adjust_vp_and_slope sum dt)) (\<lambda>(slope, new_voting_power).
           Ok (st, slope, saturating_sub new_voting_power current_power))))))
      else Ok (st, 0, 0))"

text \<open>The new point of the user, the power it adds to the total and the slope it gives up.\<close>

definition next_user_point ::
    "env \<Rightarrow> addr \<Rightarrow> u128 \<Rightarrow> u64 option \<Rightarrow> u64 \<Rightarrow> escrow_state \<Rightarrow>
     (escrow_state \<times> point \<times> u128 \<times> u128, escrow_error) result" where
  "next_user_point env a add_amt new_end cur_period st =
     (case fetch_last_checkpoint st a cur_period of
        Some (_, p) \<Rightarrow>
          (let end' = unwrap_or new_end (pt_end p) in
           and_then (point_voting_power p cur_period) (\<lambda>current_power.
           and_then (new_user_slope a add_amt cur_period end' p current_power st) (\<lambda>(st1, new_slope, add_voting_power).
           let (st2, last_slope_change) = cancel_scheduled_slope (pt_slope p) (pt_end p) st1;
               old_slope = (if pt_end p > last_slope_change then pt_slope p else 0) in
           and_then (u128_add current_power add_voting_power) (\<lambda>power.
           and_then (u128_add (pt_fixed p) add_amt) (\<lambda>fixed.
           Ok (st2, \<lparr>pt_power = power, pt_start = cur_period, pt_end = end', pt_slope = new_slope, pt_fixed = fixed\<rparr>,
               add_voting_power, old_slope))))))
      | None \<Rightarrow>
          and_then (ok_or CheckpointInitializationFailed new_end) (\<lambda>end'.
          and_then (u64_sub end' cur_period) (\<lambda>dt.
          and_then (calc_coefficient dt) (\<lambda>coefficient.
          and_then (estd (checked_mul_uint coefficient add_amt)) (\<lambda>raw.
          and_then (estd (adjust_vp_and_slope raw dt)) (\<lambda>(slope, power).
          Ok (st, \<lparr>pt_power = power, pt_start = cur_period, pt_end = end', pt_slope = slope, pt_fixed = add_amt\<rparr>,
              power, 0)))))))"

definition checkpoint ::
    "env \<Rightarrow> addr \<Rightarrow> u128 option \<Rightarrow> u64 option \<Rightarrow> escrow_state \<Rightarrow> (escrow_state, escrow_error) result" where
  "checkpoint env a add_amount new_end st =
     and_then (estd (get_period (env_time env))) (\<lambda>cur_period.
     let add_amt = unwrap_or add_amount 0 in
     and_then (next_user_point env a add_amt new_end cur_period st) (\<lambda>(st1, p, add_voting_power, old_slope).
     and_then (schedule_slope_change (pt_slope p) (pt_end p) st1) (\<lambda>st2.
     checkpoint_total env (Some add_voting_power) (Some add_amt) None None old_slope (pt_slope p)
       (save_point a cur_period p st2))))"

end
