(* ===== verification/Escrow.thy ===== *)
theory Escrow
  imports EscrowUtils
begin

text \<open>
  The checks on marketing texts, links and logos (\<open>marketing_validation.rs\<close>). A string is its
  list of bytes: a character outside ASCII consists of bytes from 128 upwards, none of which any
  check accepts, so a check of all characters is a check of all bytes.
\<close>

definition ascii_alphanumeric :: "char \<Rightarrow> bool" where
  "ascii_alphanumeric c = (let n = of_char c :: nat in
     48 \<le> n \<and> n \<le> 57 \<or> 65 \<le> n \<and> n \<le> 90 \<or> 97 \<le> n \<and> n \<le> 122)"

definition ascii_whitespace :: "char \<Rightarrow> bool" where
  "ascii_whitespace c = ((of_char c :: nat) \<in> {9, 10, 12, 13, 32})"

text \<open>The quotes are written as codes: \<open>0x27\<close> is the apostrophe, \<open>0x22\<close> the double quote.\<close>

definition SAFE_TEXT_CHARS :: string where
  "SAFE_TEXT_CHARS = ''!&?#()*+'' @ [CHR 0x27] @ ''-.,/'' @ [CHR 0x22]"

definition SAFE_LINK_CHARS :: string where
  "SAFE_LINK_CHARS = ''-_:/?#@!$&()*+,;=.~[]'' @ [CHR 0x27] @ ''%''"

definition LOGO_SIZE_CAP :: nat where "LOGO_SIZE_CAP = 5 * 1024"

definition text_char :: "char \<Rightarrow> bool" where
  "text_char c = (ascii_alphanumeric c \<or> ascii_whitespace c \<or> c \<in> set SAFE_TEXT_CHARS)"

definition link_char :: "char \<Rightarrow> bool" where
  "link_char c = (ascii_alphanumeric c \<or> c \<in> set SAFE_LINK_CHARS)"

definition validate_text :: "string \<Rightarrow> string \<Rightarrow> (unit, escrow_error) result" where
  "validate_text txt name =
     (if \<exists>c \<in> set txt. \<not> text_char c
      then Err (MarketingInfoValidationError (name @ '' contains invalid characters: '' @ txt))
      else Ok ())"

definition validate_link :: "string \<Rightarrow> (unit, escrow_error) result" where
  "validate_link link =
     (if \<exists>c \<in> set link. \<not> link_char c
      then Err (StdError (GenericErr (''Link contains invalid characters: '' @ link)))
      else Ok ())"

definition ends_with :: "string \<Rightarrow> string \<Rightarrow> bool" where
  "ends_with s suf = (take (length suf) (rev s) = rev suf)"

definition starts_with :: "string \<Rightarrow> string \<Rightarrow> bool" where
  "starts_with s pre = (take (length pre) s = pre)"

definition validate_whitelist_links :: "string list \<Rightarrow> (unit, escrow_error) result" where
  "validate_whitelist_links links =
     try_fold (\<lambda>_ link.
       if \<not> ends_with link ''/''
       then Err (MarketingInfoValidationError (''Whitelist link should end with '' @ [CHR 0x27] @ ''/'' @ [CHR 0x27] @ '': '' @ link))
       else validate_link link) () links"

definition check_link :: "string \<Rightarrow> string list \<Rightarrow> (unit, escrow_error) result" where
  "check_link link whitelisted_links =
     (if \<not> is_ok (validate_link link)
      then Err (MarketingInfoValidationError (''Logo link is invalid: '' @ link))
      else if \<not> (\<exists>wl \<in> set whitelisted_links. starts_with link wl)
      then Err (MarketingInfoValidationError (''Logo link is not whitelisted: '' @ link))
      else Ok ())"

text \<open>The first piece of \<open>split_inclusive\<close> at the closing bracket: up to and with the first one, all
  of the data when there is none, and no piece of empty data.\<close>

definition first_piece :: "string \<Rightarrow> string option" where
  "first_piece bs = (if bs = [] then None
     else Some (takeWhile (\<lambda>c. c \<noteq> CHR ''>'') bs @ take 1 (dropWhile (\<lambda>c. c \<noteq> CHR ''>'') bs)))"

definition verify_xml_preamble :: "string \<Rightarrow> (unit, escrow_error) result" where
  "verify_xml_preamble bs =
     and_then (ok_or InvalidXmlPreamble (first_piece bs)) (\<lambda>preamble.
       if starts_with preamble ''<?xml '' \<and> ends_with preamble ''?>'' then Ok () else Err InvalidXmlPreamble)"

definition verify_xml_logo :: "string \<Rightarrow> (unit, escrow_error) result" where
  "verify_xml_logo bs =
     and_then (verify_xml_preamble bs) (\<lambda>_.
       if length bs > LOGO_SIZE_CAP then Err LogoTooBig else Ok ())"

definition PNG_HEADER :: string where
  "PNG_HEADER = [CHR 0x89, CHR ''P'', CHR ''N'', CHR ''G'', CHR 0x0d, CHR 0x0a, CHR 0x1a, CHR 0x0a]"

definition verify_png_logo :: "string \<Rightarrow> (unit, escrow_error) result" where
  "verify_png_logo bs =
     (if length bs > LOGO_SIZE_CAP then Err LogoTooBig
      else if \<not> starts_with bs PNG_HEADER then Err InvalidPngHeader
      else Ok ())"

fun verify_logo :: "logo \<Rightarrow> (unit, escrow_error) result" where
  "verify_logo (EmbeddedSvg bs) = verify_xml_logo bs"
| "verify_logo (EmbeddedPng bs) = verify_png_logo bs"
| "verify_logo (LogoUrl url) = Ok ()"

definition validate_marketing_info ::
    "string option \<Rightarrow> string option \<Rightarrow> logo option \<Rightarrow> string list \<Rightarrow> (unit, escrow_error) result" where
  "validate_marketing_info project description logo whitelisted_links =
     and_then (case description of Some d \<Rightarrow> validate_text d ''description'' | None \<Rightarrow> Ok ()) (\<lambda>_.
     and_then (case project of Some p \<Rightarrow> validate_text p ''project'' | None \<Rightarrow> Ok ()) (\<lambda>_.
     and_then (case logo of Some (LogoUrl url) \<Rightarrow> check_link url whitelisted_links | _ \<Rightarrow> Ok ()) (\<lambda>_.
     case logo of Some l \<Rightarrow> verify_logo l | None \<Rightarrow> Ok ())))"

section \<open>What an accepted logo looks like\<close>

lemma validate_link_Ok: "validate_link l = Ok u \<longleftrightarrow> (\<forall>c \<in> set l. link_char c)"
  by (auto simp: validate_link_def)

lemma starts_with_iff: "starts_with s pre \<longleftrightarrow> (\<exists>rest. s = pre @ rest)"
  by (metis append_eq_conv_conj append_take_drop_id starts_with_def)

lemma first_piece_starts: "first_piece bs = Some p \<Longrightarrow> \<exists>rest. bs = p @ rest"
proof -
  assume "first_piece bs = Some p"
  then have p: "p = takeWhile (\<lambda>c. c \<noteq> CHR ''>'') bs @ take 1 (dropWhile (\<lambda>c. c \<noteq> CHR ''>'') bs)"
    by (auto simp: first_piece_def split: if_splits)
  have "bs = p @ drop 1 (dropWhile (\<lambda>c. c \<noteq> CHR ''>'') bs)"
    unfolding p by (metis append.assoc append_take_drop_id takeWhile_dropWhile_id)
  then show ?thesis by blast
qed

fun logo_accepted :: "logo \<Rightarrow> string list \<Rightarrow> bool" where
  "logo_accepted (LogoUrl url) wl = ((\<forall>c \<in> set url. link_char c) \<and> (\<exists>w \<in> set wl. starts_with url w))"
| "logo_accepted (EmbeddedSvg bs) wl = (length bs \<le> LOGO_SIZE_CAP \<and> starts_with bs ''<?xml '')"
| "logo_accepted (EmbeddedPng bs) wl = (length bs \<le> LOGO_SIZE_CAP \<and> starts_with bs PNG_HEADER)"

lemma validated_logo:
  assumes "validate_marketing_info p d (Some l) wl = Ok u"
  shows "logo_accepted l wl"
proof (cases l)
  case (LogoUrl url)
  then show ?thesis using assms
    by (auto simp: validate_marketing_info_def ok_simps check_link_def is_ok_iff validate_link_Ok split: if_splits)
next
  case (EmbeddedSvg bs)
  then have "verify_xml_logo bs = Ok u"
    using assms by (auto simp: validate_marketing_info_def ok_simps)
  then obtain pr where pr: "first_piece bs = Some pr" "starts_with pr ''<?xml ''" and len: "length bs \<le> LOGO_SIZE_CAP"
    by (auto simp: verify_xml_logo_def verify_xml_preamble_def ok_simps split: if_splits)
  obtain rest where "bs = pr @ rest" using first_piece_starts [OF pr(1)] by blast
  then have "starts_with bs ''<?xml ''" using pr(2) unfolding starts_with_iff by auto
  with EmbeddedSvg len show ?thesis by simp
next
  case (EmbeddedPng bs)
  then show ?thesis using assms
    by (auto simp: validate_marketing_info_def ok_simps verify_png_logo_def split: if_splits)
qed

text \<open>
  The handlers of the voting escrow (\<open>contract.rs\<close>): every message as a function from the state to
  the next state and the response, in the order of the source.
\<close>

type_synonym escrow_result = "(escrow_state \<times> escrow_response, escrow_error) result"

section \<open>Lock information\<close>

definition voting_parts :: "point option \<Rightarrow> u64 \<Rightarrow> (u128 \<times> u128 \<times> u128, 'e) result" where
  "voting_parts p cur_period =
     (case p of
        Some p \<Rightarrow>
          if pt_start p = cur_period then Ok (pt_power p, pt_slope p, pt_fixed p)
          else and_then (point_voting_power p cur_period) (\<lambda>power. Ok (power, pt_slope p, pt_fixed p))
      | None \<Rightarrow> Ok (0, 0, 0))"

definition get_user_lock_info ::
    "escrow_deps \<Rightarrow> env \<Rightarrow> escrow_state \<Rightarrow> string \<Rightarrow> (lock_info, escrow_error) result" where
  "get_user_lock_info deps env st user =
     and_then (estd (ed_addr_validate deps user)) (\<lambda>a.
     case get (ve_locked st) a of
       Some lock \<Rightarrow>
         and_then (estd (get_period (env_time env))) (\<lambda>cur_period.
         and_then (voting_parts (map_option snd (fetch_last_checkpoint st a cur_period)) cur_period)
           (\<lambda>(voting_power, slope, fixed_amount).
         and_then (u64_sub (lk_end lock) (lk_last_extend_lock_period lock)) (\<lambda>interval.
         and_then (calc_coefficient interval) (\<lambda>coefficient.
         Ok \<lparr>li_amount = lk_amount lock, li_coefficient = coefficient, li_start = lk_start lock,
             li_end = lk_end lock, li_slope = slope, li_fixed_amount = fixed_amount,
             li_voting_power = voting_power\<rparr>))))
     | None \<Rightarrow> Err (UserNotFound a))"

text \<open>Only a known lock is pushed; an error is dropped, a panic is not.\<close>

fun get_push_update_msgs ::
    "escrow_config \<Rightarrow> addr \<Rightarrow> (lock_info, escrow_error) result \<Rightarrow> (escrow_msg list, escrow_error) result" where
  "get_push_update_msgs cfg sender (Ok li) =
     Ok (map (\<lambda>c. WasmExecute c (UpdateVote sender li) []) (ec_push_update_contracts cfg))"
| "get_push_update_msgs cfg sender (Err e) = Ok []"
| "get_push_update_msgs cfg sender Panic = Panic"

definition get_push_update_msgs_multi ::
    "escrow_deps \<Rightarrow> env \<Rightarrow> escrow_state \<Rightarrow> escrow_config \<Rightarrow> addr list \<Rightarrow> (escrow_msg list, escrow_error) result" where
  "get_push_update_msgs_multi deps env st cfg senders =
     and_then (traverse (\<lambda>a. get_push_update_msgs cfg a (get_user_lock_info deps env st a)) senders)
       (\<lambda>mss. Ok (concat mss))"

text \<open>The response of the handlers that change a lock.\<close>

definition lock_response ::
    "escrow_deps \<Rightarrow> env \<Rightarrow> escrow_state \<Rightarrow> addr \<Rightarrow> string \<Rightarrow> escrow_result" where
  "lock_response deps env st user action =
     and_then (estd (load_item (ve_config st))) (\<lambda>cfg.
     and_then (get_user_lock_info deps env st user) (\<lambda>li.
     and_then (get_push_update_msgs cfg user (Ok li)) (\<lambda>msgs.
     Ok (st, add_messages (add_attributes new_response
       [(''action'', action), (''voting_power'', nat_str (li_voting_power li)),
        (''fixed_power'', nat_str (li_fixed_amount li)), (''lock_end'', nat_str (li_end li))]) msgs))))"

section \<open>Locks\<close>

definition create_lock ::
    "escrow_deps \<Rightarrow> env \<Rightarrow> escrow_state \<Rightarrow> addr \<Rightarrow> u128 \<Rightarrow> u64 \<Rightarrow> escrow_result" where
  "create_lock deps env st user amount time =
     and_then (assert_time_limits time) (\<lambda>_.
     and_then (estd (get_period (env_time env))) (\<lambda>block_period.
     let periods = get_periods_count time in
     and_then (u64_add block_period periods) (\<lambda>end'.
     and_then (assert_periods_remaining periods) (\<lambda>_.
     and_then (case get (ve_locked st) user of
         Some lock \<Rightarrow> if lk_amount lock \<noteq> 0 then Err LockAlreadyExists else Ok ()
       | None \<Rightarrow> Ok ()) (\<lambda>_.
     let st1 = st\<lparr>ve_locked := put user \<lparr>lk_amount = amount, lk_start = block_period, lk_end = end',
           lk_last_extend_lock_period = block_period\<rparr> (ve_locked st)\<rparr> in
     and_then (checkpoint env user (Some amount) (Some end') st1) (\<lambda>st2.
     lock_response deps env st2 user ''veamp/create_lock''))))))"

text \<open>The update of the lock in a deposit, and the new end when the lock is extended to the minimum.\<close>

definition deposit_lock ::
    "u64 \<Rightarrow> u128 \<Rightarrow> bool option \<Rightarrow> lock \<Rightarrow> (lock \<times> u64 option, escrow_error) result" where
  "deposit_lock block_period amount extend_to_min_periods lock =
     and_then
       (if extend_to_min_periods = Some True then
          and_then (u64_add block_period MIN_LOCK_PERIODS) (\<lambda>min_end.
          if lk_end lock < min_end then Ok (lock\<lparr>lk_end := min_end\<rparr>, Some min_end) else Ok (lock, None))
        else if lk_end lock \<le> block_period then Err LockExpired
        else and_then (u64_sub (lk_end lock) block_period) (\<lambda>remaining.
          and_then (assert_periods_remaining remaining) (\<lambda>_. Ok (lock, None))))
       (\<lambda>(lock', new_end).
     and_then (u128_add (lk_amount lock') amount) (\<lambda>total.
     Ok (lock'\<lparr>lk_amount := total\<rparr>, new_end)))"

definition deposit_for ::
    "escrow_deps \<Rightarrow> env \<Rightarrow> escrow_state \<Rightarrow> u128 \<Rightarrow> addr \<Rightarrow> bool option \<Rightarrow> escrow_result" where
  "deposit_for deps env st amount user extend_to_min_periods =
     (case get (ve_locked st) user of
        Some lock \<Rightarrow>
          if lk_amount lock \<noteq> 0 then
            and_then (estd (get_period (env_time env))) (\<lambda>block_period.
            and_then (deposit_lock block_period amount extend_to_min_periods lock) (\<lambda>(lock', new_end).
            and_then (checkpoint env user (Some amount) new_end (st\<lparr>ve_locked := put user lock' (ve_locked st)\<rparr>)) (\<lambda>st2.
            lock_response deps env st2 user ''veamp/deposit_for'')))
          else Err LockDoesNotExist
      | None \<Rightarrow> Err LockDoesNotExist)"

definition active_lock :: "escrow_state \<Rightarrow> addr \<Rightarrow> (lock, escrow_error) result" where
  "active_lock st a =
     (case get (ve_locked st) a of
        Some lock \<Rightarrow> if lk_amount lock \<noteq> 0 then Ok lock else Err LockDoesNotExist
      | None \<Rightarrow> Err LockDoesNotExist)"

definition withdraw_lock :: "escrow_deps \<Rightarrow> env \<Rightarrow> escrow_state \<Rightarrow> addr \<Rightarrow> escrow_result" where
  "withdraw_lock deps env st sender =
     and_then (active_lock st sender) (\<lambda>lock.
     and_then (estd (get_period (env_time env))) (\<lambda>cur_period.
     if lk_end lock > cur_period then Err LockHasNotExpired
     else
       and_then (estd (load_item (ve_config st))) (\<lambda>cfg.
       let transfer_msg = WasmExecute (ec_deposit_token_addr cfg) (ToToken (Cw20Transfer sender (lk_amount lock))) [];
           amount = lk_amount lock;
           st1 = st\<lparr>ve_locked := put sender (lock\<lparr>lk_amount := 0\<rparr>) (ve_locked st)\<rparr>;
           st2 = save_point sender cur_period
             \<lparr>pt_power = 0, pt_start = cur_period, pt_end = cur_period, pt_slope = 0, pt_fixed = 0\<rparr> st1 in
       and_then (checkpoint_total env None None None (Some amount) 0 0 st2) (\<lambda>st3.
       and_then (get_push_update_msgs cfg sender (get_user_lock_info deps env st3 sender)) (\<lambda>msgs.
       Ok (st3, add_attributes (add_messages (add_message new_response transfer_msg) msgs)
         [(''action'', ''veamp/withdraw'')]))))))"

definition extend_lock_time :: "escrow_deps \<Rightarrow> env \<Rightarrow> escrow_state \<Rightarrow> addr \<Rightarrow> u64 \<Rightarrow> escrow_result" where
  "extend_lock_time deps env st user time =
     and_then (assert_blacklist st user) (\<lambda>_.
     and_then (active_lock st user) (\<lambda>lock.
     and_then (assert_time_limits time) (\<lambda>_.
     and_then (estd (get_period (env_time env))) (\<lambda>block_period.
     and_then (u64_add (max (lk_end lock) block_period) (get_periods_count time)) (\<lambda>end'.
     and_then (u64_sub end' block_period) (\<lambda>periods.
     and_then (assert_periods_remaining periods) (\<lambda>_.
     and_then (get_s_from_period end') (\<lambda>end_time.
     and_then (u64_sub end_time (env_time env)) (\<lambda>remaining.
     and_then (assert_time_limits remaining) (\<lambda>_.
     let st1 = st\<lparr>ve_locked := put user (lock\<lparr>lk_end := end'\<rparr>) (ve_locked st)\<rparr> in
     and_then (checkpoint env user None (Some end') st1) (\<lambda>st2.
     lock_response deps env st2 user ''veamp/extend_lock_time'')))))))))))"

definition receive_cw20 ::
    "escrow_deps \<Rightarrow> env \<Rightarrow> escrow_state \<Rightarrow> message_info \<Rightarrow> cw20_hook_msg decoded cw20_receive_msg \<Rightarrow> escrow_result" where
  "receive_cw20 deps env st info msg =
     and_then (assert_token st (info_sender info)) (\<lambda>_.
     and_then (estd (ed_addr_validate deps (cw20_sender msg))) (\<lambda>sender.
     and_then (assert_blacklist st sender) (\<lambda>_.
     and_then (estd (from_binary (cw20_payload msg))) (\<lambda>hook.
     case hook of
       CreateLock time \<Rightarrow> create_lock deps env st sender (cw20_amount msg) time
     | ExtendLockAmount to_min \<Rightarrow> deposit_for deps env st (cw20_amount msg) sender to_min
     | DepositFor user \<Rightarrow>
         and_then (estd (ed_addr_validate deps user)) (\<lambda>a.
         and_then (assert_blacklist st a) (\<lambda>_.
         deposit_for deps env st (cw20_amount msg) a None))))))"

section \<open>The blacklist\<close>

text \<open>One address that is appended: its checkpoint is reset, and its power, slope and amount are added to
  what the total loses. (\<open>used_addr\<close> is the set of addresses seen.)\<close>

definition append_step ::
    "u64 \<Rightarrow> escrow_state \<times> addr list \<times> u128 \<times> u128 \<times> u128 \<Rightarrow> addr \<Rightarrow>
     (escrow_state \<times> addr list \<times> u128 \<times> u128 \<times> u128, escrow_error) result" where
  "append_step cur_period acc a =
     (case acc of (st, used, total_vp, slopes, amount) \<Rightarrow>
      if a \<in> set used then Err (AddressBlacklistDuplicated a)
      else
        (case fetch_last_checkpoint st a cur_period of
           Some (_, p) \<Rightarrow>
             (let st1 = save_point a cur_period
                \<lparr>pt_power = 0, pt_start = cur_period, pt_end = cur_period, pt_slope = 0, pt_fixed = 0\<rparr> st in
              and_then (point_voting_power p cur_period) (\<lambda>cur_power.
              if cur_power = 0 then Ok (st1, a # used, total_vp, slopes, amount)
              else
                and_then (u128_add total_vp cur_power) (\<lambda>total_vp'.
                and_then (u128_add slopes (pt_slope p)) (\<lambda>slopes'.
                and_then (u128_add amount (pt_fixed p)) (\<lambda>amount'.
                Ok (fst (cancel_scheduled_slope (pt_slope p) (pt_end p) st1), a # used, total_vp', slopes', amount'))))))
         | None \<Rightarrow> Ok (st, a # used, total_vp, slopes, amount)))"

definition remove_step ::
    "env \<Rightarrow> escrow_state \<times> addr list \<Rightarrow> addr \<Rightarrow> (escrow_state \<times> addr list, escrow_error) result" where
  "remove_step env acc a =
     (case acc of (st, used) \<Rightarrow>
      if a \<in> set used then Err (AddressBlacklistDuplicated a)
      else
        (case get (ve_locked st) a of
           Some lock \<Rightarrow>
             and_then (checkpoint env a (Some (lk_amount lock)) (Some (lk_end lock)) st) (\<lambda>st'. Ok (st', a # used))
         | None \<Rightarrow> Ok (st, a # used)))"

text \<open>The checkpoints of both lists: the appended addresses first, then the total they lose, then the removed ones.\<close>

definition blacklist_points ::
    "env \<Rightarrow> u64 \<Rightarrow> addr list \<Rightarrow> addr list \<Rightarrow> escrow_state \<Rightarrow> (escrow_state, escrow_error) result" where
  "blacklist_points env cur_period added dropped st =
     and_then (try_fold (append_step cur_period) (st, [], 0, 0, 0) added)
       (\<lambda>(st1, used, reduce_total_vp, old_slopes, old_amount).
     and_then
       (if reduce_total_vp \<noteq> 0 \<or> old_slopes \<noteq> 0
        then checkpoint_total env None None (Some reduce_total_vp) (Some old_amount) old_slopes 0 st1
        else Ok st1) (\<lambda>st2.
     and_then (try_fold (remove_step env) (st2, used) dropped) (\<lambda>(st3, _). Ok st3)))"

definition update_blacklist ::
    "escrow_deps \<Rightarrow> env \<Rightarrow> escrow_state \<Rightarrow> addr \<Rightarrow> string list option \<Rightarrow> string list option \<Rightarrow> escrow_result" where
  "update_blacklist deps env st sender append_opt remove_opt =
     and_then (estd (load_item (ve_config st))) (\<lambda>cfg.
     if sender \<noteq> ec_owner cfg \<and> Some sender \<noteq> ec_guardian_addr cfg then Err EscrowUnauthorized
     else
       let append_addrs = unwrap_or append_opt []; remove_addrs = unwrap_or remove_opt [] in
       and_then (estd (load_item (ve_blacklist st))) (\<lambda>blacklist.
       and_then (estd (validate_addresses (ed_addr_validate deps) append_addrs)) (\<lambda>appended.
       and_then (estd (validate_addresses (ed_addr_validate deps) remove_addrs)) (\<lambda>removed.
       let append = filter (\<lambda>a. a \<notin> set blacklist) appended; remove = filter (\<lambda>a. a \<in> set blacklist) removed in
       if append = [] \<and> remove = [] then Err AddressBlacklistEmpty
       else
         and_then (estd (get_period (env_time env))) (\<lambda>cur_period.
         and_then (blacklist_points env cur_period append remove st) (\<lambda>st3.
         and_then (estd (load_item (ve_blacklist st3))) (\<lambda>bl.
         let st4 = st3\<lparr>ve_blacklist := Some (filter (\<lambda>a. a \<notin> set remove) bl @ append)\<rparr>;
             attrs = [(''action'', ''veamp/update_blacklist'')]
               @ (if append_addrs \<noteq> [] then [(''added_addresses'', join '','' append_addrs)] else [])
               @ (if remove_addrs \<noteq> [] then [(''removed_addresses'', join '','' remove_addrs)] else []) in
         and_then (get_push_update_msgs_multi deps env st4 cfg append) (\<lambda>msgs1.
         and_then (get_push_update_msgs_multi deps env st4 cfg remove) (\<lambda>msgs2.
         Ok (st4, add_messages (add_messages (add_attributes new_response attrs) msgs1) msgs2))))))))))"

end
