(* ===== verification/EscrowContract.thy ===== *)
theory EscrowContract
  imports Escrow
begin

text \<open>
  The entry points of the voting escrow (\<open>contract.rs\<close>): instantiation, the dispatch of the
  messages, the configuration, the queries and the migration.
\<close>

section \<open>Instantiation\<close>

definition ESCROW_CONTRACT_NAME :: string where "ESCROW_CONTRACT_NAME = ''eris-voting-escrow''"

fun logo_info_of :: "logo \<Rightarrow> logo_info" where
  "logo_info_of (LogoUrl url) = LogoInfoUrl url"
| "logo_info_of (EmbeddedSvg bs) = LogoInfoEmbedded"
| "logo_info_of (EmbeddedPng bs) = LogoInfoEmbedded"

text \<open>The marketing part of the instantiation: the stored logo and marketing information.\<close>

definition init_marketing ::
    "escrow_deps \<Rightarrow> string list \<Rightarrow> update_marketing_info \<Rightarrow> cw20_items \<Rightarrow> (cw20_items, escrow_error) result" where
  "init_marketing deps whitelist m items =
     (if whitelist = [] then Err (MarketingInfoValidationError ''Logo URLs whitelist can not be empty'')
      else
        and_then (validate_marketing_info (um_project m) (um_description m) (um_logo m) whitelist) (\<lambda>_.
        let items1 = (case um_logo m of Some l \<Rightarrow> items\<lparr>cw_logo := Some l\<rparr> | None \<Rightarrow> items) in
        and_then (estd (addr_opt_validate (ed_addr_validate deps) (um_marketing m))) (\<lambda>marketing.
        Ok (items1\<lparr>cw_marketing_info := Some \<lparr>mi_project = um_project m, mi_description = um_description m,
              mi_logo = map_option logo_info_of (um_logo m), mi_marketing = marketing\<rparr>\<rparr>))))"

definition escrow_instantiate ::
    "escrow_deps \<Rightarrow> env \<Rightarrow> escrow_instantiate_msg \<Rightarrow> escrow_state \<Rightarrow> escrow_result" where
  "escrow_instantiate deps env msg st =
     and_then (estd (ed_addr_validate deps (ei_deposit_token_addr msg))) (\<lambda>token.
     and_then (validate_whitelist_links (ei_logo_urls_whitelist msg)) (\<lambda>_.
     and_then (estd (addr_opt_validate (ed_addr_validate deps) (ei_guardian_addr msg))) (\<lambda>guardian.
     and_then (estd (ed_addr_validate deps (ei_owner msg))) (\<lambda>owner.
     and_then (estd (get_period (env_time env))) (\<lambda>cur_period.
     let st1 = save_point (env_contract env) cur_period
           \<lparr>pt_power = 0, pt_start = cur_period, pt_end = 0, pt_slope = 0, pt_fixed = 0\<rparr>
           (st\<lparr>ve_contract_info := Some (ESCROW_CONTRACT_NAME, ed_version deps),
               ve_config := Some \<lparr>ec_owner = owner, ec_guardian_addr = guardian, ec_deposit_token_addr = token,
                 ec_logo_urls_whitelist = ei_logo_urls_whitelist msg, ec_push_update_contracts = []\<rparr>,
               ve_blacklist := Some []\<rparr>) in
     and_then (case ei_marketing msg of
         Some m \<Rightarrow> init_marketing deps (ei_logo_urls_whitelist msg) m (ve_cw20 st1)
       | None \<Rightarrow> Ok (ve_cw20 st1)) (\<lambda>items.
     Ok (st1\<lparr>ve_cw20 := items\<lparr>cw_token_info := Some \<lparr>ti_name = ''Vote Escrowed ampLP'', ti_symbol = ''vAMP'',
           ti_decimals = 6, ti_total_supply = 0, ti_mint = Some (env_contract env, None)\<rparr>\<rparr>\<rparr>, new_response)))))))"

section \<open>Configuration\<close>

definition update_escrow_config ::
    "escrow_deps \<Rightarrow> escrow_state \<Rightarrow> addr \<Rightarrow> string option \<Rightarrow> string list option \<Rightarrow> escrow_result" where
  "update_escrow_config deps st sender new_guardian push_update_contracts =
     and_then (estd (load_item (ve_config st))) (\<lambda>cfg.
     if ec_owner cfg \<noteq> sender then Err EscrowUnauthorized
     else
       and_then (case new_guardian of
           Some g \<Rightarrow> and_then (estd (ed_addr_validate deps g)) (\<lambda>a. Ok (cfg\<lparr>ec_guardian_addr := Some a\<rparr>))
         | None \<Rightarrow> Ok cfg) (\<lambda>cfg1.
       and_then (case push_update_contracts of
           Some cs \<Rightarrow> and_then (estd (traverse (ed_addr_validate deps) cs)) (\<lambda>as. Ok (cfg1\<lparr>ec_push_update_contracts := as\<rparr>))
         | None \<Rightarrow> Ok cfg1) (\<lambda>cfg2.
       Ok (st\<lparr>ve_config := Some cfg2\<rparr>, add_attribute new_response ''action'' ''veamp/execute_update_config''))))"

definition set_logo_urls_whitelist :: "escrow_state \<Rightarrow> addr \<Rightarrow> string list \<Rightarrow> escrow_result" where
  "set_logo_urls_whitelist st sender whitelist =
     and_then (estd (load_item (ve_config st))) (\<lambda>cfg.
     and_then (estd (load_item (cw_marketing_info (ve_cw20 st)))) (\<lambda>marketing.
     if sender \<noteq> ec_owner cfg \<and> Some sender \<noteq> mi_marketing marketing then Err EscrowUnauthorized
     else
       and_then (validate_whitelist_links whitelist) (\<lambda>_.
       Ok (st\<lparr>ve_config := Some (cfg\<lparr>ec_logo_urls_whitelist := whitelist\<rparr>)\<rparr>,
           add_attribute new_response ''action'' ''veamp/set_logo_urls_whitelist''))))"

section \<open>Messages\<close>

fun escrow_execute :: "escrow_deps \<Rightarrow> env \<Rightarrow> escrow_state \<Rightarrow> message_info \<Rightarrow> escrow_execute_msg \<Rightarrow> escrow_result" where
  "escrow_execute deps env st info (ExtendLockTime time) = extend_lock_time deps env st (info_sender info) time"
| "escrow_execute deps env st info (ReceiveToken msg) = receive_cw20 deps env st info msg"
| "escrow_execute deps env st info Withdraw = withdraw_lock deps env st (info_sender info)"
| "escrow_execute deps env st info (ProposeNewOwner new_owner expires_in) =
     and_then (estd (load_item (ve_config st))) (\<lambda>cfg.
     and_then (estd (ed_propose_new_owner deps info env new_owner expires_in (ec_owner cfg) (ve_ownership_proposal st)))
       (\<lambda>(proposal, resp). Ok (st\<lparr>ve_ownership_proposal := proposal\<rparr>, resp)))"
| "escrow_execute deps env st info DropProposal =
     and_then (estd (load_item (ve_config st))) (\<lambda>cfg.
     and_then (estd (ed_drop_ownership_proposal deps info (ec_owner cfg) (ve_ownership_proposal st)))
       (\<lambda>(proposal, resp). Ok (st\<lparr>ve_ownership_proposal := proposal\<rparr>, resp)))"
| "escrow_execute deps env st info ClaimOwnership =
     and_then (estd (ed_claim_ownership deps info env (ve_ownership_proposal st))) (\<lambda>(new_owner, proposal, resp).
     and_then (estd (load_item (ve_config st))) (\<lambda>cfg.
     Ok (st\<lparr>ve_config := Some (cfg\<lparr>ec_owner := new_owner\<rparr>), ve_ownership_proposal := proposal\<rparr>, resp)))"
| "escrow_execute deps env st info (UpdateBlacklist append_addrs remove_addrs) =
     update_blacklist deps env st (info_sender info) append_addrs remove_addrs"
| "escrow_execute deps env st info (UpdateMarketing project description marketing) =
     and_then (validate_marketing_info project description None []) (\<lambda>_.
     and_then (map_err Cw20Base (ed_update_marketing deps env info project description marketing (ve_cw20 st)))
       (\<lambda>(items, resp). Ok (st\<lparr>ve_cw20 := items\<rparr>, resp)))"
| "escrow_execute deps env st info (UploadLogo logo) =
     and_then (estd (load_item (ve_config st))) (\<lambda>cfg.
     and_then (validate_marketing_info None None (Some logo) (ec_logo_urls_whitelist cfg)) (\<lambda>_.
     and_then (map_err Cw20Base (ed_upload_logo deps env info logo (ve_cw20 st)))
       (\<lambda>(items, resp). Ok (st\<lparr>ve_cw20 := items\<rparr>, resp))))"
| "escrow_execute deps env st info (UpdateEscrowConfig new_guardian push_update_contracts) =
     update_escrow_config deps st (info_sender info) new_guardian push_update_contracts"
| "escrow_execute deps env st info (SetLogoUrlsWhitelist whitelist) =
     set_logo_urls_whitelist st (info_sender info) whitelist"

definition escrow_migrate :: "escrow_deps \<Rightarrow> escrow_state \<Rightarrow> escrow_result" where
  "escrow_migrate deps st =
     and_then (estd (load_item (ve_contract_info st))) (\<lambda>(contract, version).
     let st1 = st\<lparr>ve_contract_info := Some (ESCROW_CONTRACT_NAME, ed_version deps)\<rparr> in
     if contract \<noteq> ESCROW_CONTRACT_NAME
     then Err (EscrowMigrationError (''contract_name does not match: prev: '' @ contract @ '', new: '' @ ed_version deps))
     else Ok (st1, add_attributes new_response
       [(''previous_contract_name'', contract), (''previous_contract_version'', version),
        (''new_contract_name'', ESCROW_CONTRACT_NAME), (''new_contract_version'', ed_version deps)]))"

section \<open>Queries\<close>

definition check_voters_are_blacklisted ::
    "escrow_deps \<Rightarrow> escrow_state \<Rightarrow> string list \<Rightarrow> (blacklisted_voters_response, escrow_error) result" where
  "check_voters_are_blacklisted deps st voters =
     and_then (estd (load_item (ve_blacklist st))) (\<lambda>bl.
       let check = (\<lambda>acc voter. case acc of
             VotersNotBlacklisted v \<Rightarrow> Ok acc
           | VotersBlacklisted \<Rightarrow>
               and_then (estd (ed_addr_validate deps voter)) (\<lambda>a.
                 Ok (if a \<in> set bl then VotersBlacklisted else VotersNotBlacklisted voter)))
       in try_fold check VotersBlacklisted voters)"

definition VE_MAX_LIMIT :: nat where "VE_MAX_LIMIT = 30"
definition VE_DEFAULT_LIMIT :: nat where "VE_DEFAULT_LIMIT = 10"

fun position :: "('a \<Rightarrow> bool) \<Rightarrow> 'a list \<Rightarrow> nat option" where
  "position P [] = None"
| "position P (x # xs) = (if P x then Some 0 else map_option Suc (position P xs))"

definition get_blacklisted_voters ::
    "escrow_deps \<Rightarrow> escrow_state \<Rightarrow> string option \<Rightarrow> nat option \<Rightarrow> (addr list, escrow_error) result" where
  "get_blacklisted_voters deps st start_after limit =
     (let n = min (unwrap_or limit VE_DEFAULT_LIMIT) VE_MAX_LIMIT in
      and_then (estd (load_item (ve_blacklist st))) (\<lambda>bl.
      if bl = [] then Ok []
      else
        let black_list = sort bl in
        and_then (case start_after of
            Some s \<Rightarrow>
              and_then (estd (ed_addr_validate deps s)) (\<lambda>start_addr.
              and_then (ok_or (AddressNotBlacklisted start_addr) (position (\<lambda>a. a = start_addr) black_list))
                (\<lambda>i. Ok (i + 1)))
          | None \<Rightarrow> Ok 0) (\<lambda>start_index.
        let end_index = min (start_index + n) (length black_list) in
        Ok (drop start_index (take end_index black_list)))))"

definition get_user_deposit_at_height :: "escrow_deps \<Rightarrow> string \<Rightarrow> u64 \<Rightarrow> (u128, std_error) result" where
  "get_user_deposit_at_height deps user block_height =
     and_then (ed_addr_validate deps user) (\<lambda>a.
     and_then (ed_lock_at_height deps a block_height) (\<lambda>l.
     Ok (case l of Some lock \<Rightarrow> lk_amount lock | None \<Rightarrow> 0)))"

definition get_user_vamp_at_period ::
    "escrow_deps \<Rightarrow> escrow_state \<Rightarrow> string \<Rightarrow> u64 \<Rightarrow> (u128, std_error) result" where
  "get_user_vamp_at_period deps st user period =
     and_then (ed_addr_validate deps user) (\<lambda>a.
     case map_option snd (fetch_last_checkpoint st a period) of
       Some p \<Rightarrow>
         if pt_start p = period then u128_add (pt_power p) (pt_fixed p)
         else if pt_end p \<le> period then Ok (pt_fixed p)
         else and_then (point_voting_power p period) (\<lambda>power. u128_add power (pt_fixed p))
     | None \<Rightarrow> Ok 0)"

definition get_user_vamp ::
    "escrow_deps \<Rightarrow> env \<Rightarrow> escrow_state \<Rightarrow> string \<Rightarrow> u64 option \<Rightarrow> (u128, std_error) result" where
  "get_user_vamp deps env st user time =
     and_then (get_period (unwrap_or time (env_time env))) (\<lambda>period.
     get_user_vamp_at_period deps st user period)"

definition get_user_balance :: "escrow_deps \<Rightarrow> env \<Rightarrow> escrow_state \<Rightarrow> string \<Rightarrow> (u128, std_error) result" where
  "get_user_balance deps env st user = get_user_vamp deps env st user None"

text \<open>The query replays the scheduled changes from the last checkpoint; a slope that would become negative panics
  here, where the checkpoint stops at zero.\<close>

definition replay_step :: "point \<Rightarrow> u64 \<times> u128 \<Rightarrow> (point, std_error) result" where
  "replay_step p change =
     and_then (point_voting_power p (fst change)) (\<lambda>power.
     and_then (u128_sub (pt_slope p) (snd change)) (\<lambda>slope.
     Ok (p\<lparr>pt_power := power, pt_start := fst change, pt_slope := slope\<rparr>)))"

definition get_total_vamp_at_period :: "env \<Rightarrow> escrow_state \<Rightarrow> u64 \<Rightarrow> (u128, std_error) result" where
  "get_total_vamp_at_period env st period =
     (let p = (case fetch_last_checkpoint st (env_contract env) period of
          Some (_, p) \<Rightarrow> p
        | None \<Rightarrow> \<lparr>pt_power = 0, pt_start = period, pt_end = period, pt_slope = 0, pt_fixed = 0\<rparr>) in
      if pt_start p = period then u128_add (pt_power p) (pt_fixed p)
      else
        and_then (try_fold replay_step p (fetch_slope_changes st (pt_start p) period)) (\<lambda>p'.
        and_then (point_voting_power p' period) (\<lambda>power.
        u128_add power (pt_fixed p'))))"

definition get_total_vamp :: "env \<Rightarrow> escrow_state \<Rightarrow> u64 option \<Rightarrow> (u128, std_error) result" where
  "get_total_vamp env st time =
     and_then (get_period (unwrap_or time (env_time env))) (\<lambda>period. get_total_vamp_at_period env st period)"

definition query_token_info :: "env \<Rightarrow> escrow_state \<Rightarrow> (token_info_response, std_error) result" where
  "query_token_info env st =
     and_then (load_item (cw_token_info (ve_cw20 st))) (\<lambda>info.
     and_then (get_total_vamp env st None) (\<lambda>total.
     Ok \<lparr>tr_name = ti_name info, tr_symbol = ti_symbol info, tr_decimals = ti_decimals info,
         tr_total_supply = total\<rparr>))"

text \<open>The answers are values of their types; the source serialises them.\<close>

fun escrow_query :: "escrow_deps \<Rightarrow> env \<Rightarrow> escrow_state \<Rightarrow> escrow_query_msg \<Rightarrow> (escrow_answer, escrow_error) result" where
  "escrow_query deps env st (CheckVotersAreBlacklisted voters) =
     and_then (check_voters_are_blacklisted deps st voters) (\<lambda>r. Ok (VotersAnswer r))"
| "escrow_query deps env st (BlacklistedVoters start_after limit) =
     and_then (get_blacklisted_voters deps st start_after limit) (\<lambda>r. Ok (AddrsAnswer r))"
| "escrow_query deps env st TotalVamp = and_then (estd (get_total_vamp env st None)) (\<lambda>r. Ok (VampAnswer r))"
| "escrow_query deps env st (UserVamp user) = and_then (estd (get_user_vamp deps env st user None)) (\<lambda>r. Ok (VampAnswer r))"
| "escrow_query deps env st (TotalVampAt time) = and_then (estd (get_total_vamp env st (Some time))) (\<lambda>r. Ok (VampAnswer r))"
| "escrow_query deps env st (TotalVampAtPeriod period) =
     and_then (estd (get_total_vamp_at_period env st period)) (\<lambda>r. Ok (VampAnswer r))"
| "escrow_query deps env st (UserVampAt user time) =
     and_then (estd (get_user_vamp deps env st user (Some time))) (\<lambda>r. Ok (VampAnswer r))"
| "escrow_query deps env st (UserVampAtPeriod user period) =
     and_then (estd (get_user_vamp_at_period deps st user period)) (\<lambda>r. Ok (VampAnswer r))"
| "escrow_query deps env st (LockInfo user) = and_then (get_user_lock_info deps env st user) (\<lambda>r. Ok (LockInfoAnswer r))"
| "escrow_query deps env st (UserDepositAtHeight user height) =
     and_then (estd (get_user_deposit_at_height deps user height)) (\<lambda>r. Ok (DepositAnswer r))"
| "escrow_query deps env st EscrowConfig = and_then (estd (load_item (ve_config st))) (\<lambda>cfg. Ok (ConfigAnswer cfg))"
| "escrow_query deps env st (Balance address) = and_then (estd (get_user_balance deps env st address)) (\<lambda>r. Ok (BalanceAnswer r))"
| "escrow_query deps env st TokenInfo = and_then (estd (query_token_info env st)) (\<lambda>r. Ok (TokenInfoAnswer r))"
| "escrow_query deps env st MarketingInfo =
     and_then (estd (ed_query_marketing_info deps (ve_cw20 st))) (\<lambda>r. Ok (MarketingInfoAnswer r))"
| "escrow_query deps env st DownloadLogo =
     and_then (estd (ed_query_download_logo deps (ve_cw20 st))) (\<lambda>r. Ok (DownloadLogoAnswer r))"

end
