(* ===== verification/EscrowTotals.thy ===== *)
theory EscrowTotals
  imports EscrowContract
begin

text \<open>
  What a checkpoint reads and writes: the lookup of the last checkpoint in terms of single lookups,
  and for \<open>checkpoint_total\<close> and \<open>checkpoint\<close> the parts of the state they leave alone.
\<close>

section \<open>The history of one account\<close>

lemma get_checkpoints_of: "get (checkpoints_of h a) k = get h (a, k)"
  by (simp add: checkpoints_of_def get_prefix_of)

lemma wf_checkpoints_of: "wf_store h \<Longrightarrow> wf_store (checkpoints_of h a)"
  by (simp add: checkpoints_of_def wf_prefix_of)

lemma fetch_cong:
  assumes "wf_store (ve_history st)" and "wf_store (ve_history st')"
    and "\<And>k. get (ve_history st') (a, k) = get (ve_history st) (a, k)"
  shows "fetch_last_checkpoint st' a p = fetch_last_checkpoint st a p"
proof -
  have "checkpoints_of (ve_history st') a = checkpoints_of (ve_history st) a"
    using assms by (intro wf_store_eqI) (simp_all add: wf_checkpoints_of get_checkpoints_of)
  then show ?thesis by (simp add: fetch_last_checkpoint_def)
qed

lemma fetch_None:
  assumes "wf_store (ve_history st)"
  shows "fetch_last_checkpoint st a p = None \<longleftrightarrow> (\<forall>k \<le> p. get (ve_history st) (a, k) = None)"
  using newest_prefix_None [OF assms] by (simp add: fetch_last_checkpoint_def checkpoints_of_def entries_def)

lemma fetch_Some:
  assumes "wf_store (ve_history st)"
  shows "fetch_last_checkpoint st a p = Some (k, pt) \<longleftrightarrow>
    get (ve_history st) (a, k) = Some pt \<and> k \<le> p
    \<and> (\<forall>k'. k < k' \<longrightarrow> k' \<le> p \<longrightarrow> get (ve_history st) (a, k') = None)"
  using newest_prefix_Some [OF assms] by (simp add: fetch_last_checkpoint_def checkpoints_of_def entries_def)

section \<open>Well-formed histories\<close>

text \<open>Every checkpoint is filed under its start and none lies in the future; its numbers fit.\<close>

definition point_fits :: "point \<Rightarrow> bool" where
  "point_fits p \<longleftrightarrow> pt_power p \<le> U128_MAX \<and> pt_slope p \<le> U128_MAX \<and> pt_fixed p \<le> U128_MAX"

definition hist_ok :: "u64 \<Rightarrow> history \<Rightarrow> bool" where
  "hist_ok T h \<longleftrightarrow> wf_store h \<and> (\<forall>a k p. get h (a, k) = Some p \<longrightarrow> pt_start p = k \<and> k \<le> T \<and> point_fits p)"

lemma hist_okD:
  assumes "hist_ok T h"
  shows "wf_store h" and "get h (a, k) = Some p \<Longrightarrow> pt_start p = k"
    and "get h (a, k) = Some p \<Longrightarrow> k \<le> T" and "get h (a, k) = Some p \<Longrightarrow> point_fits p"
  using assms by (auto simp: hist_ok_def)

lemma hist_ok_mono: "hist_ok T h \<Longrightarrow> T \<le> T' \<Longrightarrow> hist_ok T' h"
  unfolding hist_ok_def using le_trans by blast

lemma hist_ok_put:
  "hist_ok T h \<Longrightarrow> k \<le> T \<Longrightarrow> pt_start p = k \<Longrightarrow> point_fits p \<Longrightarrow> hist_ok T (put (a, k) p h)"
  by (auto simp: hist_ok_def store_simps)

lemma fetch_point:
  assumes "hist_ok T (ve_history st)" and "fetch_last_checkpoint st a q = Some (k, p)"
  shows "pt_start p = k" and "k \<le> q" and "k \<le> T" and "point_fits p"
    and "get (ve_history st) (a, k) = Some p"
proof -
  have g: "get (ve_history st) (a, k) = Some p \<and> k \<le> q"
    using assms(2) fetch_Some [OF hist_okD(1) [OF assms(1)], of a q k p] by simp
  then show "pt_start p = k" "k \<le> q" "k \<le> T" "point_fits p" "get (ve_history st) (a, k) = Some p"
    using hist_okD(2-4) [OF assms(1)] by blast+
qed

text \<open>After the newest period nothing changes.\<close>

lemma fetch_later:
  assumes "hist_ok T (ve_history st)" and "T \<le> p"
  shows "fetch_last_checkpoint st a p = fetch_last_checkpoint st a T"
proof (cases "fetch_last_checkpoint st a T")
  case None
  then have "fetch_last_checkpoint st a p = None"
    using assms hist_okD [OF assms(1)] by (simp add: fetch_None) (metis not_None_eq)
  with None show ?thesis by simp
next
  case (Some e)
  obtain k pt where e: "e = (k, pt)" by force
  have "fetch_last_checkpoint st a p = Some (k, pt)"
    using Some assms hist_okD [OF assms(1)] unfolding e
    by (simp add: fetch_Some) (metis le_trans not_None_eq)
  with Some e show ?thesis by simp
qed

lemma save_point_simps [simp]:
  "ve_history (save_point a k p st) = put (a, k) p (ve_history st)"
  "ve_locked (save_point a k p st) = ve_locked st"
  "ve_config (save_point a k p st) = ve_config st"
  "ve_blacklist (save_point a k p st) = ve_blacklist st"
  "ve_slope_changes (save_point a k p st) = ve_slope_changes st"
  "ve_last_slope_change (save_point a k p st) = ve_last_slope_change st"
  "ve_cw20 (save_point a k p st) = ve_cw20 st"
  "ve_contract_info (save_point a k p st) = ve_contract_info st"
  "ve_ownership_proposal (save_point a k p st) = ve_ownership_proposal st"
  by (simp_all add: save_point_def)

lemma fetch_saved: "wf_store (ve_history st) \<Longrightarrow> fetch_last_checkpoint (save_point a k p st) a k = Some (k, p)"
  by (simp add: fetch_Some store_simps)

lemma fetch_save_other:
  "wf_store (ve_history st) \<Longrightarrow> b \<noteq> a \<Longrightarrow> fetch_last_checkpoint (save_point a k p st) b q = fetch_last_checkpoint st b q"
  by (intro fetch_cong) (auto simp: store_simps)

section \<open>The power of a point\<close>

lemma point_voting_power_Ok [ok_simps]:
  "point_voting_power p t = Ok v \<longleftrightarrow> pt_start p \<le> t \<and>
     v = pt_power p - (if pt_slope p * (t - pt_start p) \<le> U128_MAX then pt_slope p * (t - pt_start p) else 0)"
  by (auto simp: point_voting_power_def ok_simps num_defs Let_def split: if_splits)

lemma point_voting_power_le: "point_voting_power p t = Ok v \<Longrightarrow> v \<le> pt_power p"
  by (auto simp: ok_simps)

section \<open>What a total checkpoint leaves alone\<close>

text \<open>Two states agree up to the total history and the last slope change.\<close>

definition same_but_total :: "addr \<Rightarrow> escrow_state \<Rightarrow> escrow_state \<Rightarrow> bool" where
  "same_but_total c st st' \<longleftrightarrow>
     st' = st\<lparr>ve_history := ve_history st', ve_last_slope_change := ve_last_slope_change st'\<rparr>
     \<and> (\<forall>a k. a \<noteq> c \<longrightarrow> get (ve_history st') (a, k) = get (ve_history st) (a, k))"

lemma same_but_totalD:
  assumes "same_but_total c st st'"
  shows "ve_locked st' = ve_locked st" and "ve_config st' = ve_config st" and "ve_blacklist st' = ve_blacklist st"
    and "ve_slope_changes st' = ve_slope_changes st" and "ve_cw20 st' = ve_cw20 st"
    and "ve_contract_info st' = ve_contract_info st" and "ve_ownership_proposal st' = ve_ownership_proposal st"
  using assms unfolding same_but_total_def by (metis escrow_state.select_convs escrow_state.surjective escrow_state.update_convs)+

lemma same_but_total_save: "same_but_total c st (save_point c k p st)"
  by (simp add: same_but_total_def save_point_def store_simps)

lemma same_but_total_trans:
  "same_but_total c st st' \<Longrightarrow> same_but_total c st' st'' \<Longrightarrow> same_but_total c st st''"
  unfolding same_but_total_def by (cases st, cases st', cases st'') auto

lemma same_but_total_last: "same_but_total c st (st\<lparr>ve_last_slope_change := l\<rparr>)"
  by (simp add: same_but_total_def)

lemma same_but_total_fetch:
  assumes "same_but_total c st st'" and "wf_store (ve_history st)" and "wf_store (ve_history st')" and "a \<noteq> c"
  shows "fetch_last_checkpoint st' a p = fetch_last_checkpoint st a p"
  using assms by (intro fetch_cong) (auto simp: same_but_total_def)

text \<open>
  The total voting power. \<open>synced\<close> says that no scheduled change lies between the last checkpoint of
  the total and the period up to which changes were applied; under it a checkpoint of the total
  cannot run backwards, and the query that replays the schedule sees what a checkpoint would store.
\<close>

definition last_change :: "escrow_state \<Rightarrow> u64" where
  "last_change st = unwrap_or (ve_last_slope_change st) 0"

definition synced :: "addr \<Rightarrow> u64 \<Rightarrow> escrow_state \<Rightarrow> bool" where
  "synced c T st \<longleftrightarrow> wf_store (ve_slope_changes st) \<and> last_change st \<le> T
     \<and> (\<exists>S p. fetch_last_checkpoint st c T = Some (S, p)
          \<and> (\<forall>e \<in> set (ve_slope_changes st). last_change st < fst e \<longleftrightarrow> S < fst e))"

lemma synced_later:
  assumes "synced c T st" and "hist_ok T (ve_history st)" and "T \<le> T'"
  shows "synced c T' st"
  using assms fetch_later [OF assms(2,3)] by (auto simp: synced_def)

section \<open>Replaying scheduled changes\<close>

lemma recalc_step_Ok:
  assumes "recalc_step c (st, p) e = Ok (st', p')"
  shows "pt_start p \<le> fst e" and "pt_start p' = fst e" and "pt_power p' \<le> pt_power p"
    and "pt_slope p' = pt_slope p - snd e" and "pt_fixed p' = pt_fixed p" and "pt_end p' = pt_end p"
    and "st' = save_point c (fst e) p' st" and "point_voting_power p (fst e) = (Ok (pt_power p') :: (u128, escrow_error) result)"
  using assms by (auto simp: recalc_step_def ok_simps num_defs Let_def)

lemma recalc_loop_effect:
  assumes "try_fold (recalc_step c) (st, p) es = Ok (st', p')"
    and "hist_ok T (ve_history st)" and "pt_start p \<le> T" and "point_fits p" and "\<And>e. e \<in> set es \<Longrightarrow> fst e \<le> T"
  shows "same_but_total c st st' \<and> hist_ok T (ve_history st') \<and> pt_start p' \<le> T \<and> point_fits p'
    \<and> pt_fixed p' = pt_fixed p \<and> ve_last_slope_change st' = ve_last_slope_change st"
  using assms
proof (induction es arbitrary: st p)
  case Nil
  then show ?case by (auto simp: same_but_total_def)
next
  case (Cons e es)
  then obtain st1 p1 where s: "recalc_step c (st, p) e = Ok (st1, p1)"
    and rest: "try_fold (recalc_step c) (st1, p1) es = Ok (st', p')"
    by (auto simp: ok_simps)
  note k = recalc_step_Ok [OF s]
  have le: "fst e \<le> T" using Cons.prems(5) by simp
  have fits: "point_fits p1" using k(3-5) Cons.prems(4) by (auto simp: point_fits_def)
  have h1: "hist_ok T (ve_history st1)"
    unfolding k(7) using Cons.prems(2) le k(2) fits by (simp add: hist_ok_put)
  from Cons.IH [OF rest h1 _ fits] Cons.prems(5) le k(2)
  have IH: "same_but_total c st1 st' \<and> hist_ok T (ve_history st') \<and> pt_start p' \<le> T \<and> point_fits p'
      \<and> pt_fixed p' = pt_fixed p1 \<and> ve_last_slope_change st' = ve_last_slope_change st1" by simp
  have "same_but_total c st st1" unfolding k(7) by (rule same_but_total_save)
  with IH k(5,7) show ?case by (auto intro: same_but_total_trans)
qed

lemma recalc_loop_defined:
  assumes "sorted_wrt (<) (map fst es)" and "\<And>e. e \<in> set es \<Longrightarrow> pt_start p \<le> fst e"
  shows "\<exists>st' p'. try_fold (recalc_step c) (st, p) es = Ok (st', p')"
  using assms
proof (induction es arbitrary: st p)
  case Nil
  then show ?case by simp
next
  case (Cons e es)
  have "pt_start p \<le> fst e" using Cons.prems(2) by simp
  then obtain st1 p1 where s: "recalc_step c (st, p) e = Ok (st1, p1)"
    by (auto simp: recalc_step_def point_voting_power_def num_defs Let_def)
  have "\<And>e'. e' \<in> set es \<Longrightarrow> pt_start p1 \<le> fst e'"
    using Cons.prems(1) recalc_step_Ok(2) [OF s] by (auto intro: less_imp_le)
  with Cons.IH [of p1 st1] Cons.prems(1) s show ?case by simp
qed

lemma fetch_slope_changes_sorted:
  "wf_store (ve_slope_changes st) \<Longrightarrow> sorted_wrt (<) (map fst (fetch_slope_changes st l p))"
  using keys_sorted_filter [of "ve_slope_changes st"]
  by (simp add: wf_store_def fetch_slope_changes_def entries_def keys_sorted_def)

lemma fetch_slope_changes_bounds: "e \<in> set (fetch_slope_changes st l p) \<Longrightarrow> l < fst e \<and> fst e \<le> p"
  by (auto simp: fetch_slope_changes_def)

section \<open>A checkpoint of the total\<close>

lemma recalc_points_effect:
  assumes "recalc_points c cur p st = Ok (st', p')"
    and "hist_ok cur (ve_history st)" and "pt_start p \<le> cur" and "point_fits p" and "last_change st \<le> cur"
  shows "same_but_total c st st' \<and> hist_ok cur (ve_history st') \<and> pt_start p' \<le> cur \<and> point_fits p'
    \<and> pt_fixed p' = pt_fixed p \<and> last_change st' = cur"
proof (cases "last_change st < cur")
  case True
  then obtain st1 where f: "try_fold (recalc_step c) (st, p) (fetch_slope_changes st (last_change st) cur) = Ok (st1, p')"
    and st': "st' = st1\<lparr>ve_last_slope_change := Some cur\<rparr>"
    using assms(1) by (auto simp: recalc_points_def last_change_def ok_simps Let_def)
  from recalc_loop_effect [OF f assms(2-4)] fetch_slope_changes_bounds
  have e: "same_but_total c st st1" "hist_ok cur (ve_history st1)" "pt_start p' \<le> cur" "point_fits p'"
    "pt_fixed p' = pt_fixed p" by blast+
  have "same_but_total c st st'" unfolding st' by (rule same_but_total_trans [OF e(1) same_but_total_last])
  with e show ?thesis by (simp add: st' last_change_def)
next
  case False
  then have "st' = st" "p' = p" using assms(1) by (auto simp: recalc_points_def last_change_def Let_def)
  with False assms show ?thesis by (auto simp: same_but_total_def)
qed

lemma checkpoint_total_step:
  assumes "checkpoint_total env avp aa rp ra os ns st = Ok st'" and "get_period (env_time env) = Ok cur"
    and "fetch_last_checkpoint st (env_contract env) cur = Some (S, p0)"
  shows "\<exists>st1 p power. recalc_points (env_contract env) cur p0 st = Ok (st1, p)
    \<and> point_voting_power p cur = (Ok power :: (u128, escrow_error) result)
    \<and> power + unwrap_or avp 0 \<le> U128_MAX \<and> pt_slope p - os + ns \<le> U128_MAX \<and> pt_fixed p + unwrap_or aa 0 \<le> U128_MAX
    \<and> st' = save_point (env_contract env) cur
        (p\<lparr>pt_power := power + unwrap_or avp 0 - unwrap_or rp 0, pt_slope := pt_slope p - os + ns,
           pt_start := cur, pt_fixed := pt_fixed p + unwrap_or aa 0 - unwrap_or ra 0\<rparr>) st1"
  using assms(1)
  by (auto simp: checkpoint_total_def assms(2,3) and_then_Ok num_Ok saturating_sub_def Let_def)

lemma checkpoint_total_effect:
  assumes "checkpoint_total env avp aa rp ra os ns st = Ok st'" and "get_period (env_time env) = Ok cur"
    and "hist_ok cur (ve_history st)" and "synced (env_contract env) cur st"
  shows "same_but_total (env_contract env) st st'" and "hist_ok cur (ve_history st')"
    and "synced (env_contract env) cur st'"
proof -
  let ?c = "env_contract env"
  obtain S p0 where f: "fetch_last_checkpoint st ?c cur = Some (S, p0)" and wf: "wf_store (ve_slope_changes st)"
    and L: "last_change st \<le> cur" using assms(4) by (auto simp: synced_def)
  obtain st1 p power q where r: "recalc_points ?c cur p0 st = Ok (st1, p)"
    and v: "point_voting_power p cur = (Ok power :: (u128, escrow_error) result)"
    and b: "power + unwrap_or avp 0 \<le> U128_MAX" "pt_slope p - os + ns \<le> U128_MAX" "pt_fixed p + unwrap_or aa 0 \<le> U128_MAX"
    and q: "q = p\<lparr>pt_power := power + unwrap_or avp 0 - unwrap_or rp 0, pt_slope := pt_slope p - os + ns,
           pt_start := cur, pt_fixed := pt_fixed p + unwrap_or aa 0 - unwrap_or ra 0\<rparr>"
    and st': "st' = save_point ?c cur q st1"
    using checkpoint_total_step [OF assms(1,2) f] by auto
  note p0 = fetch_point [OF assms(3) f]
  have e: "same_but_total ?c st st1" "hist_ok cur (ve_history st1)" "last_change st1 = cur"
    using recalc_points_effect [OF r assms(3) _ p0(4) L] p0(1,3) by auto
  have fits: "point_fits q" using b by (auto simp: q point_fits_def)
  show s: "same_but_total ?c st st'" unfolding st' by (rule same_but_total_trans [OF e(1) same_but_total_save])
  show "hist_ok cur (ve_history st')" unfolding st' using e(2) fits by (simp add: hist_ok_put q)
  have "fetch_last_checkpoint st' ?c cur = Some (cur, q)"
    unfolding st' by (rule fetch_saved [OF hist_okD(1) [OF e(2)]])
  moreover have "last_change st' = cur" using e(3) by (simp add: st' last_change_def)
  moreover have "ve_slope_changes st' = ve_slope_changes st" by (rule same_but_totalD [OF s])
  ultimately show "synced ?c cur st'" using wf by (auto simp: synced_def)
qed

text \<open>A checkpoint that adds nothing cannot fail.\<close>

lemma checkpoint_total_defined:
  assumes "get_period (env_time env) = Ok cur" and "hist_ok cur (ve_history st)"
    and "synced (env_contract env) cur st"
  shows "\<exists>st'. checkpoint_total env None None rp ra os 0 st = Ok st'"
proof -
  let ?c = "env_contract env"
  obtain S p0 where f: "fetch_last_checkpoint st ?c cur = Some (S, p0)" and wf: "wf_store (ve_slope_changes st)"
    and L: "last_change st \<le> cur"
    and S: "\<forall>e \<in> set (ve_slope_changes st). last_change st < fst e \<longleftrightarrow> S < fst e"
    using assms(3) by (auto simp: synced_def)
  note p0 = fetch_point [OF assms(2) f]
  have "\<exists>st1 p. try_fold (recalc_step ?c) (st, p0) (fetch_slope_changes st (last_change st) cur) = Ok (st1, p)"
    using S p0(1)
    by (intro recalc_loop_defined fetch_slope_changes_sorted wf)
      (auto simp: fetch_slope_changes_def entries_def intro: less_imp_le)
  then obtain st1 p where r: "recalc_points ?c cur p0 st = Ok (st1, p)"
    by (cases "last_change st < cur") (auto simp: recalc_points_def last_change_def Let_def)
  have e: "pt_start p \<le> cur" "point_fits p"
    using recalc_points_effect [OF r assms(2) _ p0(4) L] p0(1,3) by auto
  obtain power where v: "point_voting_power p cur = (Ok power :: (u128, escrow_error) result)"
    using e(1) by (auto simp: point_voting_power_def num_defs Let_def)
  have "power \<le> U128_MAX" "pt_slope p - os \<le> U128_MAX" "pt_fixed p \<le> U128_MAX"
    using point_voting_power_le [OF v] e(2) by (auto simp: point_fits_def)
  then show ?thesis
    by (auto simp: checkpoint_total_def assms(1) f r v num_defs Let_def)
qed

section \<open>The query sees what a checkpoint stores\<close>

lemma replay_is_recalc:
  assumes "try_fold (recalc_step c) (st, p) es = Ok (st', p')" and "try_fold replay_step p es = Ok q"
  shows "q = p'"
  using assms
proof (induction es arbitrary: st p)
  case Nil
  then show ?case by simp
next
  case (Cons e es)
  from Cons.prems(1) obtain st1 p1 where s: "recalc_step c (st, p) e = Ok (st1, p1)"
    and rest: "try_fold (recalc_step c) (st1, p1) es = Ok (st', p')" by (auto simp: ok_simps)
  from Cons.prems(2) obtain q1 where t: "replay_step p e = Ok q1" and rest2: "try_fold replay_step q1 es = Ok q"
    by (auto simp: ok_simps)
  have "q1 = p1" using s t by (auto simp: recalc_step_def replay_step_def ok_simps saturating_sub_def Let_def)
  with Cons.IH [OF rest] rest2 show ?case by simp
qed

lemma replayed_changes:
  assumes "synced c T st" and "fetch_last_checkpoint st c T = Some (S, p)"
  shows "fetch_slope_changes st S q = fetch_slope_changes st (last_change st) q"
  using assms by (auto simp: synced_def fetch_slope_changes_def entries_def intro: filter_cong)

lemma total_query_is_checkpoint:
  assumes "checkpoint_total env None None None None 0 0 st = Ok st'" and "get_period (env_time env) = Ok cur"
    and "hist_ok cur (ve_history st)" and "synced (env_contract env) cur st"
    and "get_total_vamp_at_period env st cur = Ok v"
  shows "get_total_vamp_at_period env st' cur = Ok v"
proof -
  let ?c = "env_contract env"
  obtain S p0 where f: "fetch_last_checkpoint st ?c cur = Some (S, p0)" and L: "last_change st \<le> cur"
    using assms(4) by (auto simp: synced_def)
  note p0 = fetch_point [OF assms(3) f]
  obtain st1 p power where r: "recalc_points ?c cur p0 st = Ok (st1, p)"
    and pw: "point_voting_power p cur = (Ok power :: (u128, escrow_error) result)"
    and st': "st' = save_point ?c cur (p\<lparr>pt_power := power, pt_slope := pt_slope p, pt_start := cur, pt_fixed := pt_fixed p\<rparr>) st1"
    using checkpoint_total_step [OF assms(1,2) f] by auto
  have e: "hist_ok cur (ve_history st1)"
    using recalc_points_effect [OF r assms(3) _ p0(4) L] p0(1,3) by auto
  have new: "get_total_vamp_at_period env st' cur = u128_add power (pt_fixed p)"
    unfolding st' get_total_vamp_at_period_def
    by (simp add: fetch_saved [OF hist_okD(1) [OF e]])
  show ?thesis
  proof (cases "S = cur")
    case True
    then have "pt_start p0 = cur" using p0(1) by simp
    moreover have "fetch_slope_changes st S cur = []" using True by (simp add: fetch_slope_changes_def)
    ultimately have "p = p0" "power = pt_power p0"
      using r pw True replayed_changes [OF assms(4) f, of cur]
      by (auto simp: recalc_points_def last_change_def ok_simps Let_def split: if_splits)
    then show ?thesis using assms(5) f new \<open>pt_start p0 = cur\<close> by (simp add: get_total_vamp_at_period_def)
  next
    case False
    then obtain q power' where q: "try_fold replay_step p0 (fetch_slope_changes st S cur) = Ok q"
      and pw': "point_voting_power q cur = (Ok power' :: (u128, std_error) result)" and v: "u128_add power' (pt_fixed q) = (Ok v :: (u128, std_error) result)"
      using assms(5) f p0(1) by (auto simp: get_total_vamp_at_period_def ok_simps)
    have "q = p"
    proof (cases "last_change st < cur")
      case True
      then obtain st2 where "try_fold (recalc_step ?c) (st, p0) (fetch_slope_changes st S cur) = Ok (st2, p)"
        using r replayed_changes [OF assms(4) f, of cur]
        by (auto simp: recalc_points_def last_change_def ok_simps Let_def)
      from replay_is_recalc [OF this q] show ?thesis .
    next
      case False
      then have "fetch_slope_changes st S cur = []"
        unfolding replayed_changes [OF assms(4) f] by (auto simp: fetch_slope_changes_def)
      with q r False show ?thesis by (auto simp: recalc_points_def last_change_def Let_def)
    qed
    with pw pw' v new show ?thesis by (auto simp: ok_simps)
  qed
qed

end
