(* ===== verification/EscrowUser.thy ===== *)
theory EscrowUser
  imports EscrowTotals
begin

text \<open>
  A checkpoint of a user: the new point carries the locked amount as its fixed part, its decaying part stays
  within the most a lock of 105 weeks gives, and only the user's own point, the total and the slope
  schedule are written.
\<close>

text \<open>The bound on the decaying part: the coefficient of 105 weeks is \<open>90 * 105 / 1040\<close>. (A lock is created for at most 104
  weeks, an extension that starts late in a week can reach into the 105th.)\<close>

definition within :: "u128 \<Rightarrow> point \<Rightarrow> bool" where
  "within A p \<longleftrightarrow> pt_power p * 1040 \<le> 9450 * A"

lemma within_0: "within 0 p \<longleftrightarrow> pt_power p = 0"
  by (simp add: within_def)

lemma scaled_bound: "a \<le> 105 \<Longrightarrow> 90 * a * A \<le> 9450 * A" for a A :: nat
  using mult_le_mono1 [of "90 * a" 9450 A] by simp

lemma coefficient_mul_bound:
  assumes "calc_coefficient dt = (Ok coef :: (decimal, 'e) result)" and "checked_mul_uint coef A = Ok raw"
  shows "raw * 1040 \<le> 90 * dt * A"
proof (cases "coef = 0 \<or> A = 0")
  case True
  then have "raw = 0" using assms(2) by (auto simp: checked_mul_uint_def)
  then show ?thesis by simp
next
  case False
  then have raw: "raw = A * coef div DEC_ONE"
    using assms(2) by (auto simp: checked_mul_uint_def Let_def split: if_splits)
  have coef: "coef * 1040 \<le> 90 * dt * DEC_ONE"
    using assms(1) div_times_less_eq_dividend [of "90 * dt * DEC_ONE" 1040] by (simp add: ok_simps)
  have "raw * 1040 * DEC_ONE = (A * coef div DEC_ONE) * DEC_ONE * 1040" by (simp add: raw)
  also have "\<dots> \<le> A * coef * 1040" using div_times_less_eq_dividend [of "A * coef" DEC_ONE] by simp
  also have "\<dots> \<le> A * (90 * dt * DEC_ONE)" using mult_le_mono2 [OF coef, of A] by (simp add: mult.assoc)
  finally have "(raw * 1040) * DEC_ONE \<le> (90 * dt * A) * DEC_ONE" by (simp add: ac_simps)
  moreover have "0 < DEC_ONE" by (simp add: DEC_ONE_def)
  ultimately show ?thesis by simp
qed

lemma new_user_slope_effect:
  assumes "new_user_slope a add cur end' p current st = Ok (st1, slope, avp)"
    and "get (ve_locked st) a = Some lk" and "lk_amount lk = A + add" and "current * 1040 \<le> 9450 * A"
    and "end' \<le> cur + 105"
  shows "(current + avp) * 1040 \<le> 9450 * (A + add)"
    and "st1 = (if pt_end p < end' \<and> cur < end'
           then st\<lparr>ve_locked := put a (lk\<lparr>lk_last_extend_lock_period := cur\<rparr>) (ve_locked st)\<rparr> else st)"
    and "slope \<noteq> 0 \<Longrightarrow> cur < end'"
proof -
  let ?dt = "end' - cur"
  have dt: "?dt \<le> 105" using assms(5) by simp
  have "(current + avp) * 1040 \<le> 9450 * (A + add)
    \<and> st1 = (if pt_end p < end' \<and> cur < end'
           then st\<lparr>ve_locked := put a (lk\<lparr>lk_last_extend_lock_period := cur\<rparr>) (ve_locked st)\<rparr> else st)
    \<and> (slope \<noteq> 0 \<longrightarrow> cur < end')"
  proof (cases "?dt = 0")
    case True
    then have "st1 = st" "slope = 0" "avp = 0"
      using assms(1) by (auto simp: new_user_slope_def saturating_sub_def Let_def)
    with True assms(4) show ?thesis by simp
  next
    case False
    then have lt: "cur < end'" by simp
    show ?thesis
    proof (cases "pt_end p < end'")
      case True
      then obtain coef raw vp where c: "calc_coefficient ?dt = (Ok coef :: (decimal, escrow_error) result)"
        and m: "checked_mul_uint coef (A + add) = Ok raw" and ad: "adjust_vp_and_slope raw ?dt = Ok (slope, vp)"
        and st1: "st1 = st\<lparr>ve_locked := put a (lk\<lparr>lk_last_extend_lock_period := cur\<rparr>) (ve_locked st)\<rparr>"
        and avp: "avp = vp - current"
        using assms(1-3) False
        by (auto simp: new_user_slope_def saturating_sub_def Let_def and_then_Ok map_err_Ok)
      have "vp * 1040 \<le> 90 * ?dt * (A + add)"
        using coefficient_mul_bound [OF c m] adjusted_vp_bounds(1) [OF ad] by simp
      also have "\<dots> \<le> 9450 * (A + add)" by (rule scaled_bound [OF dt])
      finally have "(current + avp) * 1040 \<le> 9450 * (A + add)"
        using assms(4) unfolding avp by (cases "vp \<le> current") auto
      with st1 True lt show ?thesis by simp
    next
      case ne: False
      then obtain coef raw vp where c: "calc_coefficient ?dt = (Ok coef :: (decimal, escrow_error) result)"
        and m: "checked_mul_uint coef add = Ok raw" and ad: "adjust_vp_and_slope (current + raw) ?dt = Ok (slope, vp)"
        and st1: "st1 = st" and avp: "avp = vp - current"
        using assms(1) False
        by (auto simp: new_user_slope_def saturating_sub_def Let_def and_then_Ok map_err_Ok num_Ok)
      have "raw * 1040 \<le> 9450 * add" by (rule le_trans [OF coefficient_mul_bound [OF c m] scaled_bound [OF dt]])
      moreover have "current + avp \<le> current + raw" using adjusted_vp_bounds(1) [OF ad] unfolding avp by simp
      ultimately have "(current + avp) * 1040 \<le> 9450 * (A + add)" using assms(4) by (simp add: algebra_simps)
      with st1 ne lt show ?thesis by simp
    qed
  qed
  then show "(current + avp) * 1040 \<le> 9450 * (A + add)"
    "st1 = (if pt_end p < end' \<and> cur < end'
       then st\<lparr>ve_locked := put a (lk\<lparr>lk_last_extend_lock_period := cur\<rparr>) (ve_locked st)\<rparr> else st)"
    "slope \<noteq> 0 \<Longrightarrow> cur < end'" by blast+
qed

section \<open>The slope schedule\<close>

text \<open>Two states agree up to the slope schedule, whose keys only shrink or grow beyond a period.\<close>

definition same_but_slopes :: "u64 \<Rightarrow> escrow_state \<Rightarrow> escrow_state \<Rightarrow> bool" where
  "same_but_slopes cur st st' \<longleftrightarrow> st' = st\<lparr>ve_slope_changes := ve_slope_changes st'\<rparr>
     \<and> (wf_store (ve_slope_changes st) \<longrightarrow> wf_store (ve_slope_changes st'))
     \<and> (\<forall>e \<in> set (ve_slope_changes st'). fst e \<in> fst ` set (ve_slope_changes st) \<or> cur < fst e)"

lemma same_but_slopesD:
  assumes "same_but_slopes cur st st'"
  shows "ve_locked st' = ve_locked st" and "ve_config st' = ve_config st" and "ve_blacklist st' = ve_blacklist st"
    and "ve_history st' = ve_history st" and "ve_cw20 st' = ve_cw20 st" and "ve_last_slope_change st' = ve_last_slope_change st"
    and "ve_contract_info st' = ve_contract_info st" and "ve_ownership_proposal st' = ve_ownership_proposal st"
proof -
  have e: "st' = st\<lparr>ve_slope_changes := ve_slope_changes st'\<rparr>" using assms by (simp add: same_but_slopes_def)
  show "ve_locked st' = ve_locked st" by (subst e) simp
  show "ve_config st' = ve_config st" by (subst e) simp
  show "ve_blacklist st' = ve_blacklist st" by (subst e) simp
  show "ve_history st' = ve_history st" by (subst e) simp
  show "ve_cw20 st' = ve_cw20 st" by (subst e) simp
  show "ve_last_slope_change st' = ve_last_slope_change st" by (subst e) simp
  show "ve_contract_info st' = ve_contract_info st" by (subst e) simp
  show "ve_ownership_proposal st' = ve_ownership_proposal st" by (subst e) simp
qed

lemma same_but_slopes_trans:
  assumes a: "same_but_slopes cur st st'" and b: "same_but_slopes cur st' st''"
  shows "same_but_slopes cur st st''"
proof -
  have "st'' = st\<lparr>ve_slope_changes := ve_slope_changes st''\<rparr>"
    using a b unfolding same_but_slopes_def by (cases st, cases st', cases st'') auto
  moreover have "\<forall>e \<in> set (ve_slope_changes st''). fst e \<in> fst ` set (ve_slope_changes st) \<or> cur < fst e"
  proof
    fix e assume "e \<in> set (ve_slope_changes st'')"
    then consider "cur < fst e" | e' where "e' \<in> set (ve_slope_changes st')" "fst e = fst e'"
      using b unfolding same_but_slopes_def by blast
    then show "fst e \<in> fst ` set (ve_slope_changes st) \<or> cur < fst e"
      using a unfolding same_but_slopes_def by cases auto
  qed
  ultimately show ?thesis using a b by (simp add: same_but_slopes_def)
qed

lemma keys_del: "fst ` set (del k s) \<subseteq> fst ` set s"
  by (auto simp: del_def)

lemma keys_known: "get s k = Some v \<Longrightarrow> k \<in> fst ` set s"
  unfolding get_def by (metis domI dom_map_of_conv_image_fst)

lemma same_but_slopes_refl: "same_but_slopes cur st st"
  by (simp add: same_but_slopes_def)

lemma same_but_slopes_put:
  assumes "k \<in> fst ` set (ve_slope_changes st) \<or> cur < k"
  shows "same_but_slopes cur st (st\<lparr>ve_slope_changes := put k v (ve_slope_changes st)\<rparr>)"
proof -
  have "fst e \<in> insert k (fst ` set (ve_slope_changes st))" if "e \<in> set (put k v (ve_slope_changes st))" for e
    using that keys_put [of k v "ve_slope_changes st"] by blast
  then have "\<forall>e \<in> set (put k v (ve_slope_changes st)). fst e \<in> fst ` set (ve_slope_changes st) \<or> cur < fst e"
    using assms by blast
  then show ?thesis by (simp add: same_but_slopes_def)
qed

lemma same_but_slopes_del: "same_but_slopes cur st (st\<lparr>ve_slope_changes := del k (ve_slope_changes st)\<rparr>)"
  using keys_del [of k "ve_slope_changes st"] by (auto simp: same_but_slopes_def)

lemma cancel_scheduled_slope_effect:
  assumes "cancel_scheduled_slope slope p st = (st', l)"
  shows "same_but_slopes cur st st'" and "l = last_change st"
proof -
  show "same_but_slopes cur st st'"
    using assms same_but_slopes_refl same_but_slopes_del
    by (auto simp: cancel_scheduled_slope_def Let_def dest: keys_known intro!: same_but_slopes_put
        split: if_splits option.splits)
  show "l = last_change st"
    using assms by (auto simp: cancel_scheduled_slope_def last_change_def Let_def split: if_splits option.splits)
qed

lemma schedule_slope_change_effect:
  assumes "schedule_slope_change slope p st = Ok st'" and "slope \<noteq> 0 \<Longrightarrow> cur < p"
  shows "same_but_slopes cur st st'"
  using assms same_but_slopes_refl
  by (auto simp: schedule_slope_change_def and_then_Ok intro!: same_but_slopes_put split: if_splits)

lemma synced_slopes:
  assumes "synced c cur st" and "same_but_slopes cur st st'" and "hist_ok cur (ve_history st)"
  shows "synced c cur st'"
proof -
  note d = same_but_slopesD [OF assms(2)]
  obtain S p where f: "fetch_last_checkpoint st c cur = Some (S, p)" and L: "last_change st \<le> cur"
    and wf: "wf_store (ve_slope_changes st)"
    and e: "\<forall>e \<in> set (ve_slope_changes st). last_change st < fst e \<longleftrightarrow> S < fst e"
    using assms(1) by (auto simp: synced_def)
  have S: "S \<le> cur" by (rule fetch_point(2) [OF assms(3) f])
  have "\<forall>e \<in> set (ve_slope_changes st'). last_change st < fst e \<longleftrightarrow> S < fst e"
  proof
    fix x assume "x \<in> set (ve_slope_changes st')"
    then consider "cur < fst x" | x' where "x' \<in> set (ve_slope_changes st)" "fst x = fst x'"
      using assms(2) unfolding same_but_slopes_def by blast
    then show "last_change st < fst x \<longleftrightarrow> S < fst x" using e L S by cases auto
  qed
  moreover have "fetch_last_checkpoint st' c cur = Some (S, p)" using f d(4) by (simp add: fetch_last_checkpoint_def)
  ultimately show ?thesis
    using L wf assms(2) d(6) by (simp add: synced_def last_change_def same_but_slopes_def)
qed

section \<open>The new point of a user\<close>

lemma adjusted_slope_fits: "adjust_vp_and_slope vp dt = Ok (slope, vp') \<Longrightarrow> slope \<le> U128_MAX"
proof -
  assume "adjust_vp_and_slope vp dt = Ok (slope, vp')"
  then have "slope \<le> slope * dt" and fits: "slope * dt \<le> U128_MAX" by (auto simp: adjust_vp_and_slope_Ok)
  then show ?thesis by (rule le_trans)
qed

lemma new_user_slope_fits: "new_user_slope a add cur end' p current st = Ok (st1, slope, avp) \<Longrightarrow> slope \<le> U128_MAX"
  by (auto simp: new_user_slope_def Let_def and_then_Ok map_err_Ok dest: adjusted_slope_fits split: if_splits)

text \<open>What is known of a user before a checkpoint: \<open>A\<close> is the amount its last point accounts for.\<close>

definition prior :: "escrow_state \<Rightarrow> addr \<Rightarrow> u64 \<Rightarrow> u128 \<Rightarrow> u64 option \<Rightarrow> bool" where
  "prior st a cur A new_end = (case fetch_last_checkpoint st a cur of
      None \<Rightarrow> A = 0 \<and> new_end \<noteq> None
    | Some (k, p) \<Rightarrow> pt_fixed p = A \<and> within A p \<and> (new_end = None \<longrightarrow> pt_end p \<le> cur + 105))"

definition last_end :: "escrow_state \<Rightarrow> addr \<Rightarrow> u64 \<Rightarrow> u64" where
  "last_end st a cur = (case fetch_last_checkpoint st a cur of Some (k, p) \<Rightarrow> pt_end p | None \<Rightarrow> 0)"

text \<open>The lock is stamped when the checkpoint moves the end of an existing point forward.\<close>

definition stamped :: "escrow_state \<Rightarrow> addr \<Rightarrow> lock \<Rightarrow> u64 \<Rightarrow> u64 \<Rightarrow> (addr, lock) store" where
  "stamped st a lk cur end' =
     (if fetch_last_checkpoint st a cur \<noteq> None \<and> last_end st a cur < end' \<and> cur < end'
      then put a (lk\<lparr>lk_last_extend_lock_period := cur\<rparr>) (ve_locked st) else ve_locked st)"

lemma next_user_point_effect:
  assumes n: "next_user_point env a add new_end cur st = Ok (st1, p, avp, os)"
    and prior: "prior st a cur A new_end"
    and lk: "get (ve_locked st) a = Some lk" "lk_amount lk = A + add"
    and e: "\<forall>e. new_end = Some e \<longrightarrow> e \<le> cur + 105" and fit: "add \<le> U128_MAX"
  shows "pt_start p = cur \<and> pt_fixed p = A + add \<and> within (A + add) p \<and> point_fits p
    \<and> pt_end p = unwrap_or new_end (last_end st a cur) \<and> (pt_slope p \<noteq> 0 \<longrightarrow> cur < pt_end p)
    \<and> same_but_slopes cur (st\<lparr>ve_locked := stamped st a lk cur (pt_end p)\<rparr>) st1"
proof (cases "fetch_last_checkpoint st a cur")
  case None
  then have A: "A = 0" using prior by (simp add: prior_def)
  from n None obtain end' coef raw slope vp where e': "new_end = Some end'" "cur \<le> end'"
    and c: "calc_coefficient (end' - cur) = (Ok coef :: (decimal, escrow_error) result)"
    and m: "checked_mul_uint coef add = Ok raw" and ad: "adjust_vp_and_slope raw (end' - cur) = Ok (slope, vp)"
    and p: "st1 = st" "p = \<lparr>pt_power = vp, pt_start = cur, pt_end = end', pt_slope = slope, pt_fixed = add\<rparr>"
    by (auto simp: next_user_point_def and_then_Ok map_err_Ok ok_or_Ok num_Ok)
  have "end' - cur \<le> 105" using e e'(1) by simp
  from scaled_bound [OF this, of add] coefficient_mul_bound [OF c m] adjusted_vp_bounds(1) [OF ad]
  have "vp * 1040 \<le> 9450 * add" by linarith
  moreover have "0 < end' - cur" "vp \<le> U128_MAX" using ad by (auto simp: adjust_vp_and_slope_Ok)
  ultimately show ?thesis
    using None A e' p adjusted_slope_fits [OF ad] fit same_but_slopes_refl
    by (simp add: within_def point_fits_def stamped_def)
next
  case (Some kp)
  obtain k p0 where kp: "kp = (k, p0)" by force
  note f = Some [unfolded kp]
  let ?fin = "unwrap_or new_end (pt_end p0)"
  from prior f have A: "pt_fixed p0 = A" "within A p0" "new_end = None \<Longrightarrow> pt_end p0 \<le> cur + 105"
    by (auto simp: prior_def)
  have le: "?fin \<le> cur + 105" using A(3) e by (cases new_end) auto
  from n f obtain current st0 slope where cp: "point_voting_power p0 cur = (Ok current :: (u128, escrow_error) result)"
    and ns: "new_user_slope a add cur ?fin p0 current st = Ok (st0, slope, avp)"
    and ca: "fst (cancel_scheduled_slope (pt_slope p0) (pt_end p0) st0) = st1"
    and b: "current + avp \<le> U128_MAX" "pt_fixed p0 + add \<le> U128_MAX"
    and p: "p = \<lparr>pt_power = current + avp, pt_start = cur, pt_end = ?fin, pt_slope = slope, pt_fixed = pt_fixed p0 + add\<rparr>"
    by (auto simp: next_user_point_def and_then_Ok num_Ok Let_def case_prod_unfold)
  have "current * 1040 \<le> 9450 * A"
    using point_voting_power_le [OF cp] A(2) unfolding within_def by (meson le_trans mult_le_mono1)
  note s = new_user_slope_effect [OF ns lk this le]
  have le: "last_end st a cur = pt_end p0" using f by (simp add: last_end_def)
  have "st0 = st\<lparr>ve_locked := stamped st a lk cur ?fin\<rparr>" unfolding s(2) stamped_def le using f by simp
  moreover have "same_but_slopes cur st0 st1"
    unfolding ca [symmetric] by (rule cancel_scheduled_slope_effect(1) [OF prod.collapse [symmetric]])
  ultimately
  have "same_but_slopes cur (st\<lparr>ve_locked := stamped st a lk cur ?fin\<rparr>) st1" by simp
  then show ?thesis
    using s(1,3) p b A(1) new_user_slope_fits [OF ns] by (simp add: within_def point_fits_def le)
qed

section \<open>The checkpoint of a user\<close>

lemma checkpoint_effect:
  assumes c: "checkpoint env a add_opt new_end st = Ok st'" and per: "get_period (env_time env) = Ok cur"
    and h: "hist_ok cur (ve_history st)" and sy: "synced (env_contract env) cur st" and ne: "a \<noteq> env_contract env"
    and prior: "prior st a cur A new_end"
    and lk: "get (ve_locked st) a = Some lk" "lk_amount lk = A + unwrap_or add_opt 0"
    and e: "\<forall>e. new_end = Some e \<longrightarrow> e \<le> cur + 105" and fit: "unwrap_or add_opt 0 \<le> U128_MAX"
  shows "hist_ok cur (ve_history st')" and "synced (env_contract env) cur st'"
    and "ve_locked st' = stamped st a lk cur (unwrap_or new_end (last_end st a cur))"
    and "ve_config st' = ve_config st" and "ve_blacklist st' = ve_blacklist st"
    and "ve_cw20 st' = ve_cw20 st" and "ve_contract_info st' = ve_contract_info st"
    and "ve_ownership_proposal st' = ve_ownership_proposal st"
    and "\<And>b q. b \<noteq> a \<Longrightarrow> b \<noteq> env_contract env \<Longrightarrow> fetch_last_checkpoint st' b q = fetch_last_checkpoint st b q"
    and "\<exists>p. fetch_last_checkpoint st' a cur = Some (cur, p) \<and> pt_fixed p = A + unwrap_or add_opt 0
      \<and> within (A + unwrap_or add_opt 0) p \<and> pt_end p = unwrap_or new_end (last_end st a cur)"
proof -
  let ?add = "unwrap_or add_opt 0" and ?c = "env_contract env"
  from c per obtain st1 p avp os st2 where n: "next_user_point env a ?add new_end cur st = Ok (st1, p, avp, os)"
    and s: "schedule_slope_change (pt_slope p) (pt_end p) st1 = Ok st2"
    and t: "checkpoint_total env (Some avp) (Some ?add) None None os (pt_slope p) (save_point a cur p st2) = Ok st'"
    by (auto simp: checkpoint_def and_then_Ok map_err_Ok Let_def)
  let ?st0 = "st\<lparr>ve_locked := stamped st a lk cur (pt_end p)\<rparr>"
  from next_user_point_effect [OF n prior lk e fit]
  have p: "pt_start p = cur" "pt_fixed p = A + ?add" "within (A + ?add) p" "point_fits p"
    "pt_end p = unwrap_or new_end (last_end st a cur)" "pt_slope p \<noteq> 0 \<Longrightarrow> cur < pt_end p"
    and s1: "same_but_slopes cur ?st0 st1" by blast+
  have s2: "same_but_slopes cur ?st0 st2"
    by (rule same_but_slopes_trans [OF s1 schedule_slope_change_effect [OF s p(6)]])
  note d = same_but_slopesD [OF s2]
  have sy0: "synced ?c cur ?st0"
    using sy by (simp add: synced_def fetch_last_checkpoint_def last_change_def)
  have h2: "hist_ok cur (ve_history st2)" using d(4) h by simp
  have sy2: "synced ?c cur st2" using synced_slopes [OF sy0 s2] h by simp
  let ?st3 = "save_point a cur p st2"
  have h3: "hist_ok cur (ve_history ?st3)" using h2 p(1,4) by (simp add: hist_ok_put)
  have fc: "fetch_last_checkpoint ?st3 b q = fetch_last_checkpoint st b q" if "b \<noteq> a" for b q
  proof -
    have "fetch_last_checkpoint ?st3 b q = fetch_last_checkpoint st2 b q"
      by (rule fetch_save_other [OF hist_okD(1) [OF h2] that])
    then show ?thesis using d(4) by (simp add: fetch_last_checkpoint_def)
  qed
  have "fetch_last_checkpoint ?st3 ?c cur = fetch_last_checkpoint st2 ?c cur"
    using ne by (intro fetch_save_other [OF hist_okD(1) [OF h2]]) simp
  then have sy3: "synced ?c cur ?st3" using sy2 by (simp add: synced_def last_change_def)
  note t3 = checkpoint_total_effect [OF t per h3 sy3]
  note sd = same_but_totalD [OF t3(1)]
  show "hist_ok cur (ve_history st')" "synced ?c cur st'" by (rule t3)+
  show "ve_locked st' = stamped st a lk cur (unwrap_or new_end (last_end st a cur))"
    using sd(1) d(1) p(5) by simp
  show "ve_config st' = ve_config st" "ve_blacklist st' = ve_blacklist st" "ve_cw20 st' = ve_cw20 st"
    "ve_contract_info st' = ve_contract_info st" "ve_ownership_proposal st' = ve_ownership_proposal st"
    using sd d by simp_all
  have fetch': "fetch_last_checkpoint st' b q = fetch_last_checkpoint ?st3 b q" if "b \<noteq> ?c" for b q
    by (rule same_but_total_fetch [OF t3(1) hist_okD(1) [OF h3] hist_okD(1) [OF t3(2)] that])
  then show "fetch_last_checkpoint st' b q = fetch_last_checkpoint st b q" if "b \<noteq> a" "b \<noteq> ?c" for b q
    using that fc by simp
  have "fetch_last_checkpoint st' a cur = Some (cur, p)"
    unfolding fetch' [OF ne] by (rule fetch_saved [OF hist_okD(1) [OF h2]])
  with p show "\<exists>p. fetch_last_checkpoint st' a cur = Some (cur, p) \<and> pt_fixed p = A + ?add
      \<and> within (A + ?add) p \<and> pt_end p = unwrap_or new_end (last_end st a cur)" by blast
qed

end
