(* ===== verification/EscrowSteps.thy ===== *)
theory EscrowSteps
  imports EscrowUser
begin

text \<open>
  The invariant of the voting escrow and the states it can reach. For every user the last checkpoint
  accounts for exactly the locked amount, or for nothing while the user is blacklisted.
\<close>

section \<open>The invariant\<close>

definition locked_amount :: "escrow_state \<Rightarrow> addr \<Rightarrow> u128" where
  "locked_amount st a = (case get (ve_locked st) a of Some lk \<Rightarrow> lk_amount lk | None \<Rightarrow> 0)"

definition counted :: "addr set \<Rightarrow> escrow_state \<Rightarrow> addr \<Rightarrow> u128" where
  "counted B st a = (if a \<in> B then 0 else locked_amount st a)"

definition user_ok :: "addr set \<Rightarrow> u64 \<Rightarrow> escrow_state \<Rightarrow> addr \<Rightarrow> bool" where
  "user_ok B T st a = (case fetch_last_checkpoint st a T of
      None \<Rightarrow> counted B st a = 0
    | Some (k, p) \<Rightarrow> pt_fixed p = counted B st a \<and> within (counted B st a) p
        \<and> (counted B st a \<noteq> 0 \<longrightarrow> (\<exists>lk. get (ve_locked st) a = Some lk \<and> pt_end p = lk_end lk)))"

definition lock_ok :: "u64 \<Rightarrow> lock \<Rightarrow> bool" where
  "lock_ok T lk \<longleftrightarrow> lk_last_extend_lock_period lk \<le> T \<and> lk_last_extend_lock_period lk \<le> lk_end lk
     \<and> lk_end lk \<le> lk_last_extend_lock_period lk + 105 \<and> lk_amount lk \<le> U128_MAX"

definition core_inv :: "addr set \<Rightarrow> addr \<Rightarrow> u64 \<Rightarrow> escrow_state \<Rightarrow> bool" where
  "core_inv B c T st \<longleftrightarrow> hist_ok T (ve_history st) \<and> synced c T st \<and> wf_store (ve_locked st)
     \<and> (\<forall>a lk. get (ve_locked st) a = Some lk \<longrightarrow> a \<noteq> c \<and> lock_ok T lk)
     \<and> (\<forall>a. a \<noteq> c \<longrightarrow> user_ok B T st a)"

definition escrow_inv :: "addr \<Rightarrow> u64 \<Rightarrow> escrow_state \<Rightarrow> bool" where
  "escrow_inv c T st \<longleftrightarrow> ve_config st \<noteq> None
     \<and> (\<exists>bl. ve_blacklist st = Some bl \<and> distinct bl \<and> c \<notin> set bl \<and> core_inv (set bl) c T st)"

lemma core_invD:
  assumes "core_inv B c T st"
  shows "hist_ok T (ve_history st)" and "synced c T st" and "wf_store (ve_locked st)"
    and "get (ve_locked st) a = Some lk \<Longrightarrow> a \<noteq> c" and "get (ve_locked st) a = Some lk \<Longrightarrow> lock_ok T lk"
    and "a \<noteq> c \<Longrightarrow> user_ok B T st a"
  using assms by (auto simp: core_inv_def)

lemma lock_ok_mono: "lock_ok T lk \<Longrightarrow> T \<le> T' \<Longrightarrow> lock_ok T' lk"
  by (simp add: lock_ok_def)

lemma core_inv_later:
  assumes "core_inv B c T st" and "T \<le> T'"
  shows "core_inv B c T' st"
proof -
  note i = core_invD [OF assms(1)]
  have "user_ok B T' st a" if "a \<noteq> c" for a
    using i(6) [OF that] by (simp add: user_ok_def fetch_later [OF i(1) assms(2)])
  then show ?thesis
    using i hist_ok_mono [OF i(1) assms(2)] synced_later [OF i(2,1) assms(2)] lock_ok_mono [OF _ assms(2)]
    by (auto simp: core_inv_def)
qed

lemma escrow_inv_later: "escrow_inv c T st \<Longrightarrow> T \<le> T' \<Longrightarrow> escrow_inv c T' st"
  using core_inv_later by (auto simp: escrow_inv_def)

text \<open>Only the history, the locks and the schedule matter.\<close>

lemma core_inv_cong:
  assumes "ve_history st' = ve_history st" and "ve_locked st' = ve_locked st"
    and "ve_slope_changes st' = ve_slope_changes st" and "ve_last_slope_change st' = ve_last_slope_change st"
  shows "core_inv B c T st' = core_inv B c T st"
  unfolding core_inv_def synced_def user_ok_def counted_def locked_amount_def fetch_last_checkpoint_def last_change_def
  by (simp only: assms)

section \<open>Preservation by the checkpoints\<close>

lemma user_ok_cong:
  assumes "fetch_last_checkpoint st' b T = fetch_last_checkpoint st b T"
    and "get (ve_locked st') b = get (ve_locked st) b" and "b \<in> B' \<longleftrightarrow> b \<in> B"
  shows "user_ok B' T st' b = user_ok B T st b"
proof -
  have "counted B' st' b = counted B st b" by (simp add: counted_def locked_amount_def assms)
  then show ?thesis by (simp only: user_ok_def assms)
qed

lemma core_checkpoint_total:
  assumes inv: "core_inv B (env_contract env) cur st" and per: "get_period (env_time env) = Ok cur"
    and t: "checkpoint_total env avp aa rp ra os ns st = Ok st'"
  shows "core_inv B (env_contract env) cur st'"
proof -
  note i = core_invD [OF inv]
  note e = checkpoint_total_effect [OF t per i(1,2)]
  note d = same_but_totalD [OF e(1)]
  have "user_ok B cur st' a" if "a \<noteq> env_contract env" for a
    using i(6) [OF that] same_but_total_fetch [OF e(1) hist_okD(1) [OF i(1)] hist_okD(1) [OF e(2)] that] d(1)
    by (simp add: user_ok_cong [of st' a cur st])
  then show ?thesis using e(2,3) d(1) i(3-5) by (simp add: core_inv_def)
qed

text \<open>A state in which everything but the account \<open>a\<close> is in order.\<close>

definition all_but :: "addr \<Rightarrow> addr set \<Rightarrow> addr \<Rightarrow> u64 \<Rightarrow> escrow_state \<Rightarrow> bool" where
  "all_but a B c T st \<longleftrightarrow> hist_ok T (ve_history st) \<and> synced c T st \<and> wf_store (ve_locked st)
     \<and> (\<forall>b lk. get (ve_locked st) b = Some lk \<longrightarrow> b \<noteq> c \<and> (b \<noteq> a \<longrightarrow> lock_ok T lk))
     \<and> (\<forall>b. b \<noteq> c \<longrightarrow> b \<noteq> a \<longrightarrow> user_ok B T st b)"

lemma all_but_core: "core_inv B c T st \<Longrightarrow> all_but a B c T st"
  by (simp add: core_inv_def all_but_def)

lemma all_but_locked:
  assumes "core_inv B c T st" and "a \<noteq> c"
  shows "all_but a B c T (st\<lparr>ve_locked := put a lk (ve_locked st)\<rparr>)"
proof -
  note i = core_invD [OF assms(1)]
  have "user_ok B T (st\<lparr>ve_locked := put a lk (ve_locked st)\<rparr>) b" if "b \<noteq> c" "b \<noteq> a" for b
    using i(6) [OF that(1)] that(2)
    by (subst user_ok_cong [of _ b T st]) (auto simp: fetch_last_checkpoint_def store_simps)
  then show ?thesis
    using i assms(2) by (auto simp: all_but_def synced_def fetch_last_checkpoint_def last_change_def store_simps)
qed

lemma core_checkpoint:
  assumes inv: "all_but a B (env_contract env) cur st" and per: "get_period (env_time env) = Ok cur"
    and c: "checkpoint env a add_opt new_end st = Ok st'" and ne: "a \<noteq> env_contract env"
    and prior: "prior st a cur A new_end"
    and lk: "get (ve_locked st) a = Some lk" "lk_amount lk = A + unwrap_or add_opt 0"
    and e: "\<forall>e. new_end = Some e \<longrightarrow> e \<le> cur + 105" and fit: "unwrap_or add_opt 0 \<le> U128_MAX"
    and B': "a \<notin> B'" "\<And>b. b \<noteq> a \<Longrightarrow> b \<in> B' \<longleftrightarrow> b \<in> B"
    and end': "lk_end lk = unwrap_or new_end (last_end st a cur)"
    and final: "\<And>lk'. get (stamped st a lk cur (lk_end lk)) a = Some lk' \<Longrightarrow> lock_ok cur lk'"
  shows "core_inv B' (env_contract env) cur st'"
proof -
  have h: "hist_ok cur (ve_history st)" and sy: "synced (env_contract env) cur st" and wf: "wf_store (ve_locked st)"
    and locks: "\<And>b lk. get (ve_locked st) b = Some lk \<Longrightarrow> b \<noteq> env_contract env \<and> (b \<noteq> a \<longrightarrow> lock_ok cur lk)"
    and users: "\<And>b. b \<noteq> env_contract env \<Longrightarrow> b \<noteq> a \<Longrightarrow> user_ok B cur st b"
    using inv by (auto simp: all_but_def)
  note x = checkpoint_effect [OF c per h sy ne prior lk e fit]
  have lo: "ve_locked st' = stamped st a lk cur (lk_end lk)" using x(3) end' by simp
  have other: "get (ve_locked st') b = get (ve_locked st) b" if "b \<noteq> a" for b
    using that by (simp add: lo stamped_def store_simps)
  have "\<exists>lk'. get (ve_locked st') a = Some lk' \<and> lk_amount lk' = lk_amount lk \<and> lk_end lk' = lk_end lk"
    using lk(1) by (simp add: lo stamped_def store_simps)
  then obtain lk' where lk': "get (ve_locked st') a = Some lk'" "lk_amount lk' = lk_amount lk" "lk_end lk' = lk_end lk"
    by blast
  have "user_ok B' cur st' b" if b: "b \<noteq> env_contract env" for b
  proof (cases "b = a")
    case True
    with x(10) lk' lk(2) end' B'(1) show ?thesis by (auto simp: user_ok_def counted_def locked_amount_def)
  next
    case False
    then show ?thesis
      using users [OF b False] x(9) [OF False b] other [OF False] B'(2) [OF False]
      by (simp add: user_ok_cong [of st' b cur st B' B])
  qed
  moreover have "b \<noteq> env_contract env \<and> lock_ok cur l" if "get (ve_locked st') b = Some l" for b l
  proof (cases "b = a")
    case True
    with that final [of l] ne show ?thesis by (simp add: lo)
  next
    case False
    with that locks [of b l] other show ?thesis by simp
  qed
  moreover have "wf_store (ve_locked st')" using wf by (simp add: lo stamped_def)
  ultimately show ?thesis using x(1,2) by (simp add: core_inv_def)
qed

text \<open>What \<open>prior\<close> asks of a user in order.\<close>

lemma core_prior:
  assumes "core_inv B c cur st" and "a \<noteq> c" and "new_end = None \<Longrightarrow> counted B st a \<noteq> 0"
  shows "prior st a cur (counted B st a) new_end"
proof -
  note i = core_invD [OF assms(1)]
  have u: "user_ok B cur st a" by (rule i(6) [OF assms(2)])
  show ?thesis
  proof (cases "fetch_last_checkpoint st a cur")
    case None
    with u assms(3) show ?thesis by (auto simp: user_ok_def prior_def)
  next
    case (Some e)
    then obtain k p where f: "fetch_last_checkpoint st a cur = Some (k, p)" by (cases e) auto
    have "pt_end p \<le> cur + 105" if "new_end = None"
    proof -
      have nz: "counted B st a \<noteq> 0" using assms(3) that by simp
      obtain lk where "get (ve_locked st) a = Some lk" "pt_end p = lk_end lk"
        using u f nz by (auto simp: user_ok_def)
      then show ?thesis using i(5) [of a lk] by (simp add: lock_ok_def)
    qed
    with u f show ?thesis by (simp add: user_ok_def prior_def)
  qed
qed

lemma prior_locked: "prior (st\<lparr>ve_locked := l\<rparr>) a cur A e = prior st a cur A e"
  by (simp add: prior_def fetch_last_checkpoint_def)

lemma last_end_locked: "last_end (st\<lparr>ve_locked := l\<rparr>) a cur = last_end st a cur"
  by (simp add: last_end_def fetch_last_checkpoint_def)

lemma counted_last_end:
  assumes "core_inv B c cur st" and "a \<noteq> c" and "counted B st a \<noteq> 0" and "get (ve_locked st) a = Some lk"
  shows "last_end st a cur = lk_end lk" and "fetch_last_checkpoint st a cur \<noteq> None"
  using core_invD(6) [OF assms(1,2)] assms(3,4)
  by (auto simp: user_ok_def last_end_def split: option.splits)

text \<open>
  Every handler of the escrow keeps the invariant: the handlers that change a lock through one lemma about a
  written lock and its checkpoint, the blacklist through the loops over the addresses.
\<close>

section \<open>What the handlers leave alone\<close>

definition same_admin :: "escrow_state \<Rightarrow> escrow_state \<Rightarrow> bool" where
  "same_admin st st' \<longleftrightarrow> ve_config st' = ve_config st \<and> ve_blacklist st' = ve_blacklist st \<and> ve_cw20 st' = ve_cw20 st
     \<and> ve_contract_info st' = ve_contract_info st \<and> ve_ownership_proposal st' = ve_ownership_proposal st"

lemma same_admin_trans: "same_admin st st' \<Longrightarrow> same_admin st' st'' \<Longrightarrow> same_admin st st''"
  by (simp add: same_admin_def)

lemma same_admin_locked: "same_admin st (st\<lparr>ve_locked := l\<rparr>)" and same_admin_save: "same_admin st (save_point a k p st)"
  by (simp_all add: same_admin_def)

lemma same_admin_total: "same_but_total c st st' \<Longrightarrow> same_admin st st'"
  by (simp add: same_admin_def same_but_totalD)

lemma same_admin_slopes: "same_but_slopes c st st' \<Longrightarrow> same_admin st st'"
  by (simp add: same_admin_def same_but_slopesD)

lemma checkpoint_total_admin:
  assumes "checkpoint_total env avp aa rp ra os ns st = Ok st'" and "get_period (env_time env) = Ok cur"
    and "core_inv B (env_contract env) cur st"
  shows "same_admin st st'" and "ve_locked st' = ve_locked st"
  using checkpoint_total_effect(1) [OF assms(1,2) core_invD(1,2) [OF assms(3)]]
  by (simp_all add: same_admin_total same_but_totalD)

lemma lock_response_Ok:
  assumes "lock_response deps env st user act = Ok (st', resp)"
  shows "st' = st" and "\<exists>cfg li. ve_config st = Some cfg \<and> get_user_lock_info deps env st user = Ok li
    \<and> resp_msgs resp = map (\<lambda>c. PlainMsg (WasmExecute c (UpdateVote user li) [])) (ec_push_update_contracts cfg)"
  using assms by (auto simp: lock_response_def ok_simps)

section \<open>A lock is written and checkpointed\<close>

lemma lock_step:
  assumes inv: "core_inv B (env_contract env) cur st" and per: "get_period (env_time env) = Ok cur"
    and a: "a \<noteq> env_contract env" "a \<notin> B"
    and c: "checkpoint env a add_opt new_end (st\<lparr>ve_locked := put a lk (ve_locked st)\<rparr>) = Ok st'"
    and amt: "lk_amount lk = locked_amount st a + unwrap_or add_opt 0" "unwrap_or add_opt 0 \<le> U128_MAX"
    and none: "new_end = None \<Longrightarrow> counted B st a \<noteq> 0 \<and> lk_end lk = last_end st a cur \<and> lock_ok cur lk"
    and some: "\<And>e. new_end = Some e \<Longrightarrow> lk_end lk = e \<and> e \<le> cur + 105 \<and> lk_amount lk \<le> U128_MAX
      \<and> (lock_ok cur lk \<or> fetch_last_checkpoint st a cur \<noteq> None \<and> last_end st a cur < e \<and> cur < e)"
  shows "core_inv B (env_contract env) cur st'" and "same_admin st st'"
    and "\<exists>lk'. ve_locked st' = put a lk' (ve_locked st) \<and> lk_amount lk' = lk_amount lk \<and> lk_end lk' = lk_end lk"
    and "\<exists>p. fetch_last_checkpoint st' a cur = Some (cur, p) \<and> pt_end p = lk_end lk"
    and "\<And>b q. b \<noteq> a \<Longrightarrow> b \<noteq> env_contract env \<Longrightarrow> fetch_last_checkpoint st' b q = fetch_last_checkpoint st b q"
proof -
  let ?st = "st\<lparr>ve_locked := put a lk (ve_locked st)\<rparr>"
  have cnt: "counted B st a = locked_amount st a" using a by (simp add: counted_def)
  have prior: "prior ?st a cur (locked_amount st a) new_end"
    using core_prior [OF inv a(1), of new_end] none unfolding prior_locked cnt by blast
  have got: "get (ve_locked ?st) a = Some lk" by (simp add: store_simps)
  have e: "\<forall>e. new_end = Some e \<longrightarrow> e \<le> cur + 105" using some by blast
  have end': "lk_end lk = unwrap_or new_end (last_end ?st a cur)"
    using none some unfolding last_end_locked by (cases new_end) auto
  have final: "lock_ok cur lk'" if "get (stamped ?st a lk cur (lk_end lk)) a = Some lk'" for lk'
  proof (cases new_end)
    case None
    then have "stamped ?st a lk cur (lk_end lk) = ve_locked ?st" using none by (simp add: stamped_def last_end_locked)
    with that None none show ?thesis by (simp add: store_simps)
  next
    case (Some e)
    note s = some [OF Some]
    have f: "fetch_last_checkpoint ?st a cur = fetch_last_checkpoint st a cur" by (simp add: fetch_last_checkpoint_def)
    show ?thesis
    proof (cases "fetch_last_checkpoint st a cur \<noteq> None \<and> last_end st a cur < e \<and> cur < e")
      case True
      then have "lk' = lk\<lparr>lk_last_extend_lock_period := cur\<rparr>"
        using that s by (simp add: stamped_def f last_end_locked store_simps)
      with s True show ?thesis by (simp add: lock_ok_def)
    next
      case False
      then have "lk' = lk" using that s unfolding stamped_def f last_end_locked by (auto simp: store_simps)
      with s False show ?thesis by blast
    qed
  qed
  have h: "hist_ok cur (ve_history ?st)" "synced (env_contract env) cur ?st"
    using all_but_locked [OF inv a(1), of lk] by (simp_all add: all_but_def)
  note x = checkpoint_effect [OF c per h a(1) prior got amt(1) e amt(2)]
  show "core_inv B (env_contract env) cur st'"
    using core_checkpoint [OF all_but_locked [OF inv a(1)] per c a(1) prior got amt(1) e amt(2) a(2) _ end' final] by blast
  show "same_admin st st'" using x(4-8) by (simp add: same_admin_def)
  show "\<exists>lk'. ve_locked st' = put a lk' (ve_locked st) \<and> lk_amount lk' = lk_amount lk \<and> lk_end lk' = lk_end lk"
  proof (cases "ve_locked st' = put a lk (ve_locked st)")
    case False
    then have "ve_locked st' = put a (lk\<lparr>lk_last_extend_lock_period := cur\<rparr>) (put a lk (ve_locked st))"
      using x(3) by (auto simp: stamped_def split: if_splits)
    also have "\<dots> = put a (lk\<lparr>lk_last_extend_lock_period := cur\<rparr>) (ve_locked st)"
      using core_invD(3) [OF inv] by (intro wf_store_eqI) (simp_all add: store_simps)
    finally show ?thesis by auto
  qed auto
  show "\<exists>p. fetch_last_checkpoint st' a cur = Some (cur, p) \<and> pt_end p = lk_end lk"
    using x(10) end' by auto
  show "fetch_last_checkpoint st' b q = fetch_last_checkpoint st b q" if "b \<noteq> a" "b \<noteq> env_contract env" for b q
    using x(9) [OF that] by (simp add: fetch_last_checkpoint_def)
qed

section \<open>The handlers of locks\<close>

lemma max_periods: "t \<le> MAX_LOCK_TIME \<Longrightarrow> get_periods_count t \<le> 104"
  using div_le_mono [of t MAX_LOCK_TIME WEEK] max_lock_periods by (simp add: get_periods_count_def)

lemma create_lock_step:
  assumes "create_lock deps env st a amount time = Ok (st', resp)"
    and inv: "core_inv B (env_contract env) cur st" and per: "get_period (env_time env) = Ok cur"
    and a: "a \<noteq> env_contract env" "a \<notin> B" and fit: "amount \<le> U128_MAX"
  shows "core_inv B (env_contract env) cur st'" and "same_admin st st'" and "locked_amount st a = 0"
    and "\<exists>lk'. ve_locked st' = put a lk' (ve_locked st) \<and> lk_amount lk' = amount \<and> lk_end lk' = cur + get_periods_count time"
    and "MIN_LOCK_PERIODS \<le> get_periods_count time" and "get_periods_count time \<le> 104"
proof -
  let ?lk = "\<lparr>lk_amount = amount, lk_start = cur, lk_end = cur + get_periods_count time, lk_last_extend_lock_period = cur\<rparr>"
  from assms(1) per obtain st2 where t: "time \<le> MAX_LOCK_TIME" and m: "MIN_LOCK_PERIODS \<le> get_periods_count time"
    and z: "locked_amount st a = 0"
    and c: "checkpoint env a (Some amount) (Some (cur + get_periods_count time)) (st\<lparr>ve_locked := put a ?lk (ve_locked st)\<rparr>) = Ok st2"
    and r: "lock_response deps env st2 a ''veamp/create_lock'' = Ok (st', resp)"
    by (auto simp: create_lock_def and_then_Ok map_err_Ok num_Ok guards_Ok locked_amount_def Let_def
        split: option.splits if_splits)
  have p: "get_periods_count time \<le> 104" by (rule max_periods [OF t])
  note s = lock_step [OF inv per a c]
  show "core_inv B (env_contract env) cur st'" "same_admin st st'"
    "\<exists>lk'. ve_locked st' = put a lk' (ve_locked st) \<and> lk_amount lk' = amount \<and> lk_end lk' = cur + get_periods_count time"
    unfolding lock_response_Ok(1) [OF r] using s(1-3) p z fit by (simp_all add: lock_ok_def)
  show "locked_amount st a = 0" "MIN_LOCK_PERIODS \<le> get_periods_count time" "get_periods_count time \<le> 104" using z m p .
qed

lemma deposit_lock_Ok:
  assumes "deposit_lock cur amount ext lk = Ok (lk', new_end)"
  shows "lk_amount lk' = lk_amount lk + amount" and "lk_amount lk' \<le> U128_MAX"
    and "lk_last_extend_lock_period lk' = lk_last_extend_lock_period lk"
    and "new_end = None \<and> lk_end lk' = lk_end lk
      \<or> new_end = Some (cur + 3) \<and> lk_end lk' = cur + 3 \<and> lk_end lk < cur + 3"
  using assms by (auto simp: deposit_lock_def and_then_Ok num_Ok MIN_LOCK_PERIODS_def split: if_splits)

lemma deposit_for_step:
  assumes "deposit_for deps env st amount a ext = Ok (st', resp)"
    and inv: "core_inv B (env_contract env) cur st" and per: "get_period (env_time env) = Ok cur"
    and a: "a \<noteq> env_contract env" "a \<notin> B" and fit: "amount \<le> U128_MAX"
  shows "core_inv B (env_contract env) cur st'" and "same_admin st st'" and "locked_amount st a \<noteq> 0"
    and "\<exists>lk'. ve_locked st' = put a lk' (ve_locked st) \<and> lk_amount lk' = locked_amount st a + amount"
proof -
  from assms(1) per obtain lk lk2 ne st2 where lk: "get (ve_locked st) a = Some lk" "lk_amount lk \<noteq> 0"
    and d: "deposit_lock cur amount ext lk = Ok (lk2, ne)"
    and c: "checkpoint env a (Some amount) ne (st\<lparr>ve_locked := put a lk2 (ve_locked st)\<rparr>) = Ok st2"
    and r: "lock_response deps env st2 a ''veamp/deposit_for'' = Ok (st', resp)"
    by (auto simp: deposit_for_def and_then_Ok map_err_Ok split: option.splits if_splits)
  note d = deposit_lock_Ok [OF d]
  have amt: "locked_amount st a = lk_amount lk" using lk by (simp add: locked_amount_def)
  have cnt: "counted B st a \<noteq> 0" using lk a amt by (simp add: counted_def)
  note le = counted_last_end [OF inv a(1) cnt lk(1)]
  note ok = core_invD(5) [OF inv lk(1)]
  note s = lock_step [OF inv per a c]
  show "core_inv B (env_contract env) cur st'" "same_admin st st'"
    "\<exists>lk'. ve_locked st' = put a lk' (ve_locked st) \<and> lk_amount lk' = locked_amount st a + amount"
    unfolding lock_response_Ok(1) [OF r]
    using s(1-3) d amt cnt le ok fit by (auto simp: lock_ok_def)
  show "locked_amount st a \<noteq> 0" using amt lk by simp
qed

lemma extended_end:
  assumes "get_period now = Ok cur" and "get_s_from_period e = Ok t" and "now \<le> t" and "t - now \<le> MAX_LOCK_TIME"
  shows "e \<le> cur + 105"
proof -
  have p: "EPOCH_START \<le> now" "cur = (now - EPOCH_START) div WEEK" using assms(1) by (auto simp: get_period_Ok)
  have t: "t = EPOCH_START + e * WEEK" using assms(2) by (auto simp: get_s_from_period_def and_then_Ok num_Ok)
  have "e * WEEK \<le> MAX_LOCK_TIME + (now - EPOCH_START)" using assms(3,4) p(1) unfolding t by simp
  also have "\<dots> < MAX_LOCK_TIME + (cur * WEEK + WEEK)"
    using dividend_less_div_times [of WEEK "now - EPOCH_START"] p(2) by simp
  also have "\<dots> < (cur + 106) * WEEK" by (simp add: algebra_simps WEEK_def MAX_LOCK_TIME_def)
  finally show ?thesis by (simp add: WEEK_def)
qed

lemma extend_lock_time_step:
  assumes "extend_lock_time deps env st a time = Ok (st', resp)"
    and inv: "core_inv B (env_contract env) cur st" and per: "get_period (env_time env) = Ok cur"
    and a: "a \<noteq> env_contract env" "a \<notin> B"
  shows "core_inv B (env_contract env) cur st'" and "same_admin st st'" and "locked_amount st a \<noteq> 0"
    and "\<exists>lk lk'. get (ve_locked st) a = Some lk \<and> ve_locked st' = put a lk' (ve_locked st)
      \<and> lk_amount lk' = lk_amount lk \<and> lk_end lk' = max (lk_end lk) cur + get_periods_count time"
    and "max (lk_end (the (get (ve_locked st) a))) cur + get_periods_count time \<le> cur + 105"
proof -
  from assms(1) per obtain lk e t st2 where lk: "get (ve_locked st) a = Some lk" "lk_amount lk \<noteq> 0"
    and e: "e = max (lk_end lk) cur + get_periods_count time" "MIN_LOCK_PERIODS \<le> e - cur"
    and t: "get_s_from_period e = (Ok t :: (u64, escrow_error) result)" "env_time env \<le> t" "t - env_time env \<le> MAX_LOCK_TIME" "WEEK \<le> time"
    and c: "checkpoint env a None (Some e) (st\<lparr>ve_locked := put a (lk\<lparr>lk_end := e\<rparr>) (ve_locked st)\<rparr>) = Ok st2"
    and r: "lock_response deps env st2 a ''veamp/extend_lock_time'' = Ok (st', resp)"
    by (auto simp: extend_lock_time_def active_lock_def and_then_Ok map_err_Ok num_Ok guards_Ok Let_def
        split: option.splits if_splits)
  have amt: "locked_amount st a = lk_amount lk" using lk by (simp add: locked_amount_def)
  have cnt: "counted B st a \<noteq> 0" using lk a amt by (simp add: counted_def)
  note le = counted_last_end [OF inv a(1) cnt lk(1)]
  note ok = core_invD(5) [OF inv lk(1)]
  have e105: "e \<le> cur + 105" by (rule extended_end [OF per t(1-3)])
  have "0 < get_periods_count time" using t(4) by (simp add: get_periods_count_def div_greater_zero_iff)
  then have lt: "last_end st a cur < e" "cur < e" unfolding le e(1) by auto
  note s = lock_step [OF inv per a c]
  have S: "core_inv B (env_contract env) cur st2" "same_admin st st2"
    "\<exists>lk'. ve_locked st2 = put a lk' (ve_locked st) \<and> lk_amount lk' = lk_amount lk \<and> lk_end lk' = e"
    using s(1-3) amt cnt le ok e105 lt by (auto simp: lock_ok_def)
  have eq: "st' = st2" by (rule lock_response_Ok(1) [OF r])
  show "core_inv B (env_contract env) cur st'" "same_admin st st'" using S unfolding eq by blast+
  show "\<exists>lk lk'. get (ve_locked st) a = Some lk \<and> ve_locked st' = put a lk' (ve_locked st)
      \<and> lk_amount lk' = lk_amount lk \<and> lk_end lk' = max (lk_end lk) cur + get_periods_count time"
    using S(3) lk(1) e(1) unfolding eq by auto
  show "max (lk_end (the (get (ve_locked st) a))) cur + get_periods_count time \<le> cur + 105"
    using e105 lk(1) e(1) by simp
  show "locked_amount st a \<noteq> 0" using amt lk by simp
qed

end
