(* ===== verification/EscrowReach.thy ===== *)
theory EscrowReach
  imports EscrowSteps
begin

text \<open>
  The withdrawal and the blacklist keep the invariant, and so does every message: the invariant holds
  in every state the escrow can reach by messages of other accounts at non-decreasing block times.
\<close>

section \<open>A reset point\<close>

abbreviation zero_point :: "u64 \<Rightarrow> point" where
  "zero_point cur \<equiv> \<lparr>pt_power = 0, pt_start = cur, pt_end = cur, pt_slope = 0, pt_fixed = 0\<rparr>"

lemma core_reset:
  assumes inv: "all_but a B c cur st" and ne: "a \<noteq> c" and z: "a \<in> B \<or> locked_amount st a = 0"
    and lk: "\<And>lk. get (ve_locked st) a = Some lk \<Longrightarrow> lock_ok cur lk"
  shows "core_inv B c cur (save_point a cur (zero_point cur) st)"
proof -
  let ?st = "save_point a cur (zero_point cur) st"
  have h: "hist_ok cur (ve_history st)" and sy: "synced c cur st" and wf: "wf_store (ve_locked st)"
    and locks: "\<And>b lk. get (ve_locked st) b = Some lk \<Longrightarrow> b \<noteq> c \<and> (b \<noteq> a \<longrightarrow> lock_ok cur lk)"
    and users: "\<And>b. b \<noteq> c \<Longrightarrow> b \<noteq> a \<Longrightarrow> user_ok B cur st b"
    using inv by (auto simp: all_but_def)
  have h': "hist_ok cur (ve_history ?st)" using h by (simp add: hist_ok_put point_fits_def)
  have f: "fetch_last_checkpoint ?st b q = fetch_last_checkpoint st b q" if "b \<noteq> a" for b q
    by (rule fetch_save_other [OF hist_okD(1) [OF h] that])
  have "user_ok B cur ?st b" if b: "b \<noteq> c" for b
  proof (cases "b = a")
    case True
    have "counted B ?st a = 0" using z by (auto simp: counted_def locked_amount_def)
    with True fetch_saved [OF hist_okD(1) [OF h], of a cur "zero_point cur"] show ?thesis
      by (simp add: user_ok_def within_def)
  next
    case False
    with users [OF b False] f [OF False] show ?thesis by (simp add: user_ok_cong [of ?st b cur st])
  qed
  moreover have "synced c cur ?st"
    using sy f [OF ne [symmetric]] by (simp add: synced_def last_change_def)
  moreover have "lock_ok cur l" "b \<noteq> c" if "get (ve_locked ?st) b = Some l" for b l
    using that locks [of b l] lk by (cases "b = a"; simp)+
  ultimately show ?thesis using h' wf by (auto simp: core_inv_def)
qed

section \<open>Withdrawal\<close>

lemma withdraw_lock_step:
  assumes "withdraw_lock deps env st a = Ok (st', resp)"
    and inv: "core_inv B (env_contract env) cur st" and per: "get_period (env_time env) = Ok cur"
    and a: "a \<noteq> env_contract env"
  shows "core_inv B (env_contract env) cur st'" and "same_admin st st'"
    and "\<exists>lk cfg pushes. get (ve_locked st) a = Some lk \<and> lk_amount lk \<noteq> 0 \<and> lk_end lk \<le> cur \<and> ve_config st = Some cfg
      \<and> ve_locked st' = put a (lk\<lparr>lk_amount := 0\<rparr>) (ve_locked st)
      \<and> get_push_update_msgs cfg a (get_user_lock_info deps env st' a) = Ok pushes
      \<and> resp_msgs resp = PlainMsg (WasmExecute (ec_deposit_token_addr cfg) (ToToken (Cw20Transfer a (lk_amount lk))) [])
          # map PlainMsg pushes"
proof -
  from assms(1) per obtain lk cfg pushes where lk: "get (ve_locked st) a = Some lk" "lk_amount lk \<noteq> 0" "lk_end lk \<le> cur"
    and cfg: "ve_config st = Some cfg"
    and t: "checkpoint_total env None None None (Some (lk_amount lk)) 0 0
      (save_point a cur (zero_point cur) (st\<lparr>ve_locked := put a (lk\<lparr>lk_amount := 0\<rparr>) (ve_locked st)\<rparr>)) = Ok st'"
    and p: "get_push_update_msgs cfg a (get_user_lock_info deps env st' a) = Ok pushes"
    and r: "resp_msgs resp = PlainMsg (WasmExecute (ec_deposit_token_addr cfg) (ToToken (Cw20Transfer a (lk_amount lk))) [])
          # map PlainMsg pushes"
    by (auto simp: withdraw_lock_def active_lock_def and_then_Ok map_err_Ok load_item_Ok Let_def split: option.splits if_splits)
  let ?st1 = "st\<lparr>ve_locked := put a (lk\<lparr>lk_amount := 0\<rparr>) (ve_locked st)\<rparr>"
  note ok = core_invD(5) [OF inv lk(1)]
  have "locked_amount ?st1 a = 0" by (simp add: locked_amount_def store_simps)
  moreover have "lock_ok cur l" if "get (ve_locked ?st1) a = Some l" for l
    using that ok by (auto simp: store_simps lock_ok_def)
  ultimately have c: "core_inv B (env_contract env) cur (save_point a cur (zero_point cur) ?st1)"
    using all_but_locked [OF inv a] by (intro core_reset a) auto
  note x = checkpoint_total_admin [OF t per c]
  show "core_inv B (env_contract env) cur st'" by (rule core_checkpoint_total [OF c per t])
  show "same_admin st st'" using x(1) by (simp add: same_admin_def)
  show "\<exists>lk cfg pushes. get (ve_locked st) a = Some lk \<and> lk_amount lk \<noteq> 0 \<and> lk_end lk \<le> cur \<and> ve_config st = Some cfg
      \<and> ve_locked st' = put a (lk\<lparr>lk_amount := 0\<rparr>) (ve_locked st)
      \<and> get_push_update_msgs cfg a (get_user_lock_info deps env st' a) = Ok pushes
      \<and> resp_msgs resp = PlainMsg (WasmExecute (ec_deposit_token_addr cfg) (ToToken (Cw20Transfer a (lk_amount lk))) [])
          # map PlainMsg pushes"
    using lk cfg p r x(2) by auto
qed

section \<open>The blacklist\<close>

lemma core_cancel:
  assumes "core_inv B c cur st"
  shows "core_inv B c cur (fst (cancel_scheduled_slope s p st))"
proof -
  have sl: "same_but_slopes cur st (fst (cancel_scheduled_slope s p st))"
    by (rule cancel_scheduled_slope_effect(1) [OF prod.collapse [symmetric]])
  note d = same_but_slopesD [OF sl] and i = core_invD [OF assms]
  have "user_ok B cur (fst (cancel_scheduled_slope s p st)) a" if "a \<noteq> c" for a
    using i(6) [OF that] d(1,4) by (subst user_ok_cong [of _ a cur st]) (simp_all add: fetch_last_checkpoint_def)
  then show ?thesis
    using i d(1,4) synced_slopes [OF i(2) sl i(1)] by (simp add: core_inv_def)
qed

lemma append_step_effect:
  assumes "append_step cur (st, used, v, s, x) a = Ok (st', used', v', s', x')"
    and inv: "core_inv B c cur st" and ne: "a \<noteq> c"
  shows "core_inv (insert a B) c cur st'" and "same_admin st st'" and "ve_locked st' = ve_locked st"
    and "used' = a # used" and "a \<notin> set used"
proof -
  let ?z = "save_point a cur (zero_point cur) st"
  have others: "user_ok (insert a B) cur st b" if "b \<noteq> c" "b \<noteq> a" for b
    using core_invD(6) [OF inv that(1)] that(2) by (simp add: user_ok_cong [of st b cur st "insert a B" B])
  have ab: "all_but a (insert a B) c cur st"
    using core_invD [OF inv] others by (auto simp: all_but_def)
  have z: "core_inv (insert a B) c cur ?z"
    using core_invD(5) [OF inv] by (intro core_reset [OF ab ne]) auto
  have cases: "used' = a # used \<and> a \<notin> set used
    \<and> (fetch_last_checkpoint st a cur = None \<and> st' = st \<or> st' = ?z
       \<or> (\<exists>q e. st' = fst (cancel_scheduled_slope q e ?z)))"
    using assms(1)
    by (auto simp: append_step_def and_then_Ok num_Ok Let_def split: if_splits option.splits) blast
  then show "used' = a # used" "a \<notin> set used" by blast+
  have none: "core_inv (insert a B) c cur st" if "fetch_last_checkpoint st a cur = None"
  proof -
    have "user_ok (insert a B) cur st a" using that by (simp add: user_ok_def counted_def)
    with others core_invD [OF inv] show ?thesis unfolding core_inv_def by blast
  qed
  show "core_inv (insert a B) c cur st'" using cases none z core_cancel [OF z] by auto
  have sl: "same_but_slopes cur ?z (fst (cancel_scheduled_slope q e ?z))" for q e
    by (rule cancel_scheduled_slope_effect(1) [OF prod.collapse [symmetric]])
  then have "same_admin st (fst (cancel_scheduled_slope q e ?z))" for q e
    by (rule same_admin_trans [OF same_admin_save same_admin_slopes])
  then show "same_admin st st'" using cases same_admin_save by (auto simp: same_admin_def)
  have "ve_locked (fst (cancel_scheduled_slope q e ?z)) = ve_locked st" for q e
    using same_but_slopesD(1) [OF sl] by simp
  then show "ve_locked st' = ve_locked st" using cases by auto
qed

lemma append_loop:
  assumes "try_fold (append_step cur) (st, used, v, s, x) as = Ok (st', used', v', s', x')"
    and "core_inv B c cur st" and "c \<notin> set as"
  shows "core_inv (B \<union> set as) c cur st' \<and> same_admin st st' \<and> ve_locked st' = ve_locked st
    \<and> set used' = set used \<union> set as \<and> distinct as \<and> set as \<inter> set used = {}"
  using assms
proof (induction as arbitrary: st used v s x B)
  case Nil
  then show ?case by (simp add: same_admin_def)
next
  case (Cons a as)
  from Cons.prems(1) obtain st1 used1 v1 s1 x1 where s: "append_step cur (st, used, v, s, x) a = Ok (st1, used1, v1, s1, x1)"
    and rest: "try_fold (append_step cur) (st1, used1, v1, s1, x1) as = Ok (st', used', v', s', x')"
    by (auto simp: ok_simps)
  have ne: "a \<noteq> c" using Cons.prems(3) by auto
  note e = append_step_effect [OF s Cons.prems(2) ne]
  from Cons.IH [OF rest e(1)] Cons.prems(3) e show ?case by (auto intro: same_admin_trans)
qed

lemma remove_step_effect:
  assumes "remove_step env (st, used) a = Ok (st', used')" and per: "get_period (env_time env) = Ok cur"
    and inv: "core_inv B (env_contract env) cur st" and ne: "a \<noteq> env_contract env" "a \<in> B"
  shows "core_inv (B - {a}) (env_contract env) cur st'" and "same_admin st st'"
    and "\<And>b. locked_amount st' b = locked_amount st b" and "used' = a # used" and "a \<notin> set used"
proof -
  note i = core_invD [OF inv]
  show "used' = a # used" "a \<notin> set used"
    using assms(1) by (auto simp: remove_step_def and_then_Ok split: if_splits option.splits)
  have "core_inv (B - {a}) (env_contract env) cur st' \<and> same_admin st st' \<and> (\<forall>b. locked_amount st' b = locked_amount st b)"
  proof (cases "get (ve_locked st) a")
    case None
    then have "st' = st" using assms(1) by (auto simp: remove_step_def split: if_splits)
    moreover have "user_ok (B - {a}) cur st b" if "b \<noteq> env_contract env" for b
    proof (cases "b = a")
      case True
      have "counted (B - {a}) st a = counted B st a" using None ne by (simp add: counted_def locked_amount_def)
      with i(6) [OF ne(1)] True show ?thesis by (simp only: user_ok_def)
    next
      case False
      with i(6) [OF that] show ?thesis by (simp add: user_ok_cong [of st b cur st "B - {a}" B])
    qed
    ultimately show ?thesis using i by (simp add: core_inv_def same_admin_def)
  next
    case (Some lk)
    then have c: "checkpoint env a (Some (lk_amount lk)) (Some (lk_end lk)) st = Ok st'"
      using assms(1) by (auto simp: remove_step_def and_then_Ok split: if_splits)
    note ok = i(5) [OF Some]
    have prior: "prior st a cur 0 (Some (lk_end lk))"
      using core_prior [OF inv ne(1), of "Some (lk_end lk)"] ne(2) by (simp add: counted_def)
    have amt: "lk_amount lk = 0 + unwrap_or (Some (lk_amount lk)) 0" "unwrap_or (Some (lk_amount lk)) 0 \<le> U128_MAX"
      and e: "\<forall>e. Some (lk_end lk) = Some e \<longrightarrow> e \<le> cur + 105"
      and le: "lk_end lk = unwrap_or (Some (lk_end lk)) (last_end st a cur)"
      using ok by (auto simp: lock_ok_def)
    have final: "lock_ok cur l" if "get (stamped st a lk cur (lk_end lk)) a = Some l" for l
      using that ok Some by (auto simp: stamped_def store_simps lock_ok_def split: if_splits)
    have core: "core_inv (B - {a}) (env_contract env) cur st'"
      using core_checkpoint [OF all_but_core [OF inv] per c ne(1) prior Some amt(1) e amt(2) _ _ le final] by simp
    note x = checkpoint_effect [OF c per i(1,2) ne(1) prior Some amt(1) e amt(2)]
    have "locked_amount st' b = locked_amount st b" for b
      using Some x(3) by (simp add: locked_amount_def stamped_def store_simps)
    with core x(4-8) show ?thesis by (simp add: same_admin_def)
  qed
  then show "core_inv (B - {a}) (env_contract env) cur st'" "same_admin st st'"
    "\<And>b. locked_amount st' b = locked_amount st b" by blast+
qed

lemma remove_loop:
  assumes "try_fold (remove_step env) (st, used) as = Ok (st', used')" and per: "get_period (env_time env) = Ok cur"
    and "core_inv B (env_contract env) cur st" and "env_contract env \<notin> set as" and "set as \<subseteq> B \<union> set used"
  shows "core_inv (B - set as) (env_contract env) cur st' \<and> same_admin st st'
    \<and> (\<forall>b. locked_amount st' b = locked_amount st b) \<and> set as \<inter> set used = {} \<and> distinct as"
  using assms(1,3-5)
proof (induction as arbitrary: st used B)
  case Nil
  then show ?case by (simp add: same_admin_def)
next
  case (Cons a as)
  from Cons.prems(1) obtain st1 used1 where s: "remove_step env (st, used) a = Ok (st1, used1)"
    and rest: "try_fold (remove_step env) (st1, used1) as = Ok (st', used')"
    by (cases "remove_step env (st, used) a") auto
  have "a \<notin> set used" using s by (auto simp: remove_step_def split: if_splits)
  with Cons.prems(3,4) have ne: "a \<noteq> env_contract env" "a \<in> B" by auto
  note e = remove_step_effect [OF s per Cons.prems(2) ne]
  have sub: "set as \<subseteq> (B - {a}) \<union> set used1" using Cons.prems(4) e(4) by auto
  have "core_inv (B - {a} - set as) (env_contract env) cur st' \<and> same_admin st1 st'
    \<and> (\<forall>b. locked_amount st' b = locked_amount st1 b) \<and> set as \<inter> set used1 = {} \<and> distinct as"
    using Cons.IH [OF rest e(1) _ sub] Cons.prems(3) by simp
  moreover have "B - {a} - set as = B - set (a # as)" by auto
  ultimately show ?case using e by (auto intro: same_admin_trans)
qed

lemma validated_not:
  assumes "validate_addresses v ss = Ok as" and "\<And>s. s \<in> set ss \<Longrightarrow> v s \<noteq> Ok c"
  shows "c \<notin> set as"
  using assms unfolding validate_addresses_def traverse_Ok_list_all2
  by (induction ss as rule: list_all2_induct) auto

lemma blacklist_points_Ok:
  assumes "blacklist_points env cur as rs st = Ok st3"
  shows "\<exists>st1 used v s x st2 used3. try_fold (append_step cur) (st, [], 0, 0, 0) as = Ok (st1, used, v, s, x)
    \<and> (if v \<noteq> 0 \<or> s \<noteq> 0 then checkpoint_total env None None (Some v) (Some x) s 0 st1 else Ok st1) = Ok st2
    \<and> try_fold (remove_step env) (st2, used) rs = Ok (st3, used3)"
proof -
  from assms obtain st1 used v s x where a: "try_fold (append_step cur) (st, [], 0, 0, 0) as = Ok (st1, used, v, s, x)"
    by (cases "try_fold (append_step cur) (st, [], 0, 0, 0) as") (auto simp: blacklist_points_def)
  let ?t = "if v \<noteq> 0 \<or> s \<noteq> 0 then checkpoint_total env None None (Some v) (Some x) s 0 st1 else Ok st1"
  have b: "and_then ?t (\<lambda>st2. and_then (try_fold (remove_step env) (st2, used) rs) (\<lambda>(st3, _). Ok st3)) = Ok st3"
    using assms unfolding blacklist_points_def a and_then.simps prod.case .
  then obtain st2 where t: "?t = Ok st2"
    and c: "and_then (try_fold (remove_step env) (st2, used) rs) (\<lambda>(st3, _). Ok st3) = Ok st3"
    unfolding and_then_Ok by blast
  from c obtain used3 where "try_fold (remove_step env) (st2, used) rs = Ok (st3, used3)"
    by (cases "try_fold (remove_step env) (st2, used) rs") auto
  with a t show ?thesis by blast
qed

lemma update_blacklist_Ok:
  assumes "update_blacklist deps env st sender app rem = Ok (st', resp)" and "get_period (env_time env) = Ok cur"
  obtains cfg bl appended removed st3 bl3 ms1 ms2
    where "ve_config st = Some cfg" "sender = ec_owner cfg \<or> Some sender = ec_guardian_addr cfg"
    "ve_blacklist st = Some bl"
    "validate_addresses (ed_addr_validate deps) (unwrap_or app []) = Ok appended"
    "validate_addresses (ed_addr_validate deps) (unwrap_or rem []) = Ok removed"
    "blacklist_points env cur (filter (\<lambda>a. a \<notin> set bl) appended) (filter (\<lambda>a. a \<in> set bl) removed) st = Ok st3"
    "ve_blacklist st3 = Some bl3"
    "st' = st3\<lparr>ve_blacklist := Some (filter (\<lambda>a. a \<notin> set (filter (\<lambda>a. a \<in> set bl) removed)) bl3 @ filter (\<lambda>a. a \<notin> set bl) appended)\<rparr>"
    "get_push_update_msgs_multi deps env st' cfg (filter (\<lambda>a. a \<notin> set bl) appended) = Ok ms1"
    "get_push_update_msgs_multi deps env st' cfg (filter (\<lambda>a. a \<in> set bl) removed) = Ok ms2"
    "resp_msgs resp = map PlainMsg ms1 @ map PlainMsg ms2"
proof -
  note u = assms(1) [unfolded update_blacklist_def Let_def and_then_Ok map_err_Ok load_item_Ok guard_Ok result.inject
      prod.inject assms(2)]
  from u show thesis
  proof (elim exE conjE, goal_cases)
    case (1 cfg bl appended removed cur' st3 bl3 ms1 ms2)
    then show ?case by (intro that [of cfg bl appended removed st3 bl3 ms1 ms2]) (simp_all, auto)
  qed
qed

lemma update_blacklist_step:
  assumes u: "update_blacklist deps env st sender app rem = Ok (st', resp)"
    and inv: "escrow_inv (env_contract env) cur st" and per: "get_period (env_time env) = Ok cur"
    and names: "\<And>s. s \<in> set (unwrap_or app [] @ unwrap_or rem []) \<Longrightarrow> ed_addr_validate deps s \<noteq> Ok (env_contract env)"
  shows "escrow_inv (env_contract env) cur st'" and "\<And>b. locked_amount st' b = locked_amount st b"
    and "st' = st\<lparr>ve_history := ve_history st', ve_locked := ve_locked st', ve_slope_changes := ve_slope_changes st',
           ve_last_slope_change := ve_last_slope_change st', ve_blacklist := ve_blacklist st'\<rparr>"
    and "\<exists>cfg. ve_config st = Some cfg \<and> (sender = ec_owner cfg \<or> Some sender = ec_guardian_addr cfg)"
    and "\<exists>bl appended removed. ve_blacklist st = Some bl
      \<and> validate_addresses (ed_addr_validate deps) (unwrap_or app []) = Ok appended
      \<and> validate_addresses (ed_addr_validate deps) (unwrap_or rem []) = Ok removed
      \<and> ve_blacklist st' = Some (filter (\<lambda>a. a \<notin> set (filter (\<lambda>a. a \<in> set bl) removed)) bl @ filter (\<lambda>a. a \<notin> set bl) appended)"
proof -
  let ?c = "env_contract env"
  obtain cfg bl appended removed st3 bl3 ms1 ms2
    where cfg: "ve_config st = Some cfg" "sender = ec_owner cfg \<or> Some sender = ec_guardian_addr cfg"
    and bl: "ve_blacklist st = Some bl"
    and va: "validate_addresses (ed_addr_validate deps) (unwrap_or app []) = Ok appended"
    and vr: "validate_addresses (ed_addr_validate deps) (unwrap_or rem []) = Ok removed"
    and pts: "blacklist_points env cur (filter (\<lambda>a. a \<notin> set bl) appended) (filter (\<lambda>a. a \<in> set bl) removed) st = Ok st3"
    and b3: "ve_blacklist st3 = Some bl3"
    and st': "st' = st3\<lparr>ve_blacklist := Some (filter (\<lambda>a. a \<notin> set (filter (\<lambda>a. a \<in> set bl) removed)) bl3 @ filter (\<lambda>a. a \<notin> set bl) appended)\<rparr>"
    by (rule update_blacklist_Ok [OF u per])
  let ?app = "filter (\<lambda>a. a \<notin> set bl) appended" and ?rem = "filter (\<lambda>a. a \<in> set bl) removed"
  have core: "core_inv (set bl) ?c cur st" "distinct bl" "?c \<notin> set bl" using inv bl by (auto simp: escrow_inv_def)
  from blacklist_points_Ok [OF pts] obtain st1 used v s x st2 used3
    where f1: "try_fold (append_step cur) (st, [], 0, 0, 0) ?app = Ok (st1, used, v, s, x)"
    and f2: "(if v \<noteq> 0 \<or> s \<noteq> 0 then checkpoint_total env None None (Some v) (Some x) s 0 st1 else Ok st1) = Ok st2"
    and f3: "try_fold (remove_step env) (st2, used) ?rem = Ok (st3, used3)"
    by blast
  have na: "?c \<notin> set ?app" using validated_not [OF va] names by auto
  have nr: "?c \<notin> set ?rem" using validated_not [OF vr] names by auto
  have a1: "core_inv (set bl \<union> set ?app) ?c cur st1" "same_admin st st1" "ve_locked st1 = ve_locked st"
    "set used = set ?app" "distinct ?app"
    using append_loop [OF f1 core(1) na] by simp_all
  have a2: "core_inv (set bl \<union> set ?app) ?c cur st2" "same_admin st1 st2" "ve_locked st2 = ve_locked st1"
  proof -
    have "core_inv (set bl \<union> set ?app) ?c cur st2 \<and> same_admin st1 st2 \<and> ve_locked st2 = ve_locked st1"
    proof (cases "v \<noteq> 0 \<or> s \<noteq> 0")
      case True
      then have t: "checkpoint_total env None None (Some v) (Some x) s 0 st1 = Ok st2" using f2 by simp
      show ?thesis using core_checkpoint_total [OF a1(1) per t] checkpoint_total_admin [OF t per a1(1)] by simp
    next
      case False
      then show ?thesis using f2 a1(1) by (simp add: same_admin_def)
    qed
    then show "core_inv (set bl \<union> set ?app) ?c cur st2" "same_admin st1 st2" "ve_locked st2 = ve_locked st1" by blast+
  qed
  have sub: "set ?rem \<subseteq> (set bl \<union> set ?app) \<union> set used" by auto
  have a3: "core_inv (set bl \<union> set ?app - set ?rem) ?c cur st3" "same_admin st2 st3"
    "\<And>b. locked_amount st3 b = locked_amount st2 b"
    using remove_loop [OF f3 per a2(1) nr sub] by simp_all
  have adm: "same_admin st st3" using a1(2) a2(2) a3(2) by (blast intro: same_admin_trans)
  then have bl3: "bl3 = bl" using b3 bl by (simp add: same_admin_def)
  have "set (filter (\<lambda>a. a \<notin> set ?rem) bl @ ?app) = set bl \<union> set ?app - set ?rem" by auto
  moreover have "core_inv (set bl \<union> set ?app - set ?rem) ?c cur st'"
    using a3(1) unfolding st' by (subst core_inv_cong) simp_all
  moreover have "distinct (filter (\<lambda>a. a \<notin> set ?rem) bl @ ?app)" using core(2) a1(5) by auto
  moreover have "?c \<notin> set (filter (\<lambda>a. a \<notin> set ?rem) bl @ ?app)" using core(3) na by auto
  ultimately show "escrow_inv ?c cur st'"
    using adm cfg by (simp add: escrow_inv_def st' bl3 same_admin_def)
  show "locked_amount st' b = locked_amount st b" for b
    using a3(3) [of b] a2(3) a1(3) by (simp add: locked_amount_def st')
  show "st' = st\<lparr>ve_history := ve_history st', ve_locked := ve_locked st', ve_slope_changes := ve_slope_changes st',
      ve_last_slope_change := ve_last_slope_change st', ve_blacklist := ve_blacklist st'\<rparr>"
    using adm unfolding st' by (cases st, cases st3) (simp add: same_admin_def)
  show "\<exists>cfg. ve_config st = Some cfg \<and> (sender = ec_owner cfg \<or> Some sender = ec_guardian_addr cfg)" using cfg by blast
  show "\<exists>bl appended removed. ve_blacklist st = Some bl
      \<and> validate_addresses (ed_addr_validate deps) (unwrap_or app []) = Ok appended
      \<and> validate_addresses (ed_addr_validate deps) (unwrap_or rem []) = Ok removed
      \<and> ve_blacklist st' = Some (filter (\<lambda>a. a \<notin> set (filter (\<lambda>a. a \<in> set bl) removed)) bl @ filter (\<lambda>a. a \<notin> set bl) appended)"
    using bl va vr st' bl3 by auto
qed

section \<open>Messages\<close>

fun received :: "escrow_execute_msg \<Rightarrow> u128" where
  "received (ReceiveToken m) = cw20_amount m"
| "received _ = 0"

text \<open>The addresses a message names.\<close>

fun named :: "escrow_execute_msg \<Rightarrow> string list" where
  "named (ReceiveToken m) = cw20_sender m # (case cw20_payload m of Decoded (DepositFor u) \<Rightarrow> [u] | _ \<Rightarrow> [])"
| "named (UpdateBlacklist a r) = unwrap_or a [] @ unwrap_or r []"
| "named _ = []"

text \<open>Messages of other accounts that do not name the escrow itself, with an amount in the range of its type.\<close>

definition from_outside :: "escrow_deps \<Rightarrow> env \<Rightarrow> message_info \<Rightarrow> escrow_execute_msg \<Rightarrow> bool" where
  "from_outside deps env info msg \<longleftrightarrow> info_sender info \<noteq> env_contract env
     \<and> (\<forall>s \<in> set (named msg). ed_addr_validate deps s \<noteq> Ok (env_contract env)) \<and> received msg \<le> U128_MAX"

lemma escrow_inv_cong:
  assumes "escrow_inv c T st" and "core_inv B c T st \<Longrightarrow> core_inv B c T st'" and "ve_blacklist st = Some bl" and "B = set bl"
    and "ve_blacklist st' = ve_blacklist st" and "ve_config st' \<noteq> None"
  shows "escrow_inv c T st'"
  using assms by (auto simp: escrow_inv_def)

lemma same_admin_inv:
  assumes "escrow_inv c T st" and "ve_blacklist st = Some bl" and "core_inv (set bl) c T st'" and "same_admin st st'"
  shows "escrow_inv c T st'"
  using assms by (auto simp: escrow_inv_def same_admin_def)

text \<open>What a transferred deposit does.\<close>

lemma receive_cw20_step:
  assumes "receive_cw20 deps env st info m = Ok (st', resp)"
    and inv: "escrow_inv (env_contract env) cur st" and per: "get_period (env_time env) = Ok cur"
    and out: "from_outside deps env info (ReceiveToken m)"
  shows "escrow_inv (env_contract env) cur st'" and "same_admin st st'"
    and "\<exists>a lk' cfg. ve_config st = Some cfg \<and> info_sender info = ec_deposit_token_addr cfg
      \<and> ve_locked st' = put a lk' (ve_locked st) \<and> lk_amount lk' = locked_amount st a + cw20_amount m
      \<and> (\<exists>r. lock_response deps env st' a r = Ok (st', resp))"
proof -
  let ?c = "env_contract env"
  have fit: "cw20_amount m \<le> U128_MAX" using out by (simp add: from_outside_def)
  obtain bl where bl: "ve_blacklist st = Some bl" and core: "core_inv (set bl) ?c cur st"
    using inv by (auto simp: escrow_inv_def)
  from assms(1) obtain cfg s hook where cfg: "ve_config st = Some cfg" "info_sender info = ec_deposit_token_addr cfg"
    and s: "ed_addr_validate deps (cw20_sender m) = Ok s" "s \<notin> set bl" and hook: "cw20_payload m = Decoded hook"
    and rest: "(case hook of
       CreateLock time \<Rightarrow> create_lock deps env st s (cw20_amount m) time
     | ExtendLockAmount to_min \<Rightarrow> deposit_for deps env st (cw20_amount m) s to_min
     | DepositFor user \<Rightarrow>
         and_then (estd (ed_addr_validate deps user)) (\<lambda>a.
         and_then (assert_blacklist st a) (\<lambda>_.
         deposit_for deps env st (cw20_amount m) a None))) = Ok (st', resp)"
    using bl by (cases "cw20_payload m") (auto simp: receive_cw20_def and_then_Ok map_err_Ok guards_Ok)
  have ns: "s \<noteq> ?c" using out s by (auto simp: from_outside_def)
  have G: "core_inv (set bl) ?c cur st' \<and> same_admin st st' \<and> (\<exists>a lk'. ve_locked st' = put a lk' (ve_locked st)
      \<and> lk_amount lk' = locked_amount st a + cw20_amount m \<and> (\<exists>r. lock_response deps env st' a r = Ok (st', resp)))"
  proof (cases hook)
    case (CreateLock time)
    then have c: "create_lock deps env st s (cw20_amount m) time = Ok (st', resp)" using rest by simp
    note x = create_lock_step [OF c core per ns s(2) fit]
    have "\<exists>r. lock_response deps env st' s r = Ok (st', resp)"
      using c by (auto simp: create_lock_def and_then_Ok Let_def dest: lock_response_Ok(1))
    with x(1,2) x(3) x(4) show ?thesis by (metis add_0)
  next
    case (ExtendLockAmount to_min)
    then have c: "deposit_for deps env st (cw20_amount m) s to_min = Ok (st', resp)" using rest by simp
    note x = deposit_for_step [OF c core per ns s(2) fit]
    have "\<exists>r. lock_response deps env st' s r = Ok (st', resp)"
      using c by (auto simp: deposit_for_def and_then_Ok dest: lock_response_Ok(1) split: option.splits if_splits)
    with x show ?thesis by auto
  next
    case (DepositFor user)
    then obtain a where a: "ed_addr_validate deps user = Ok a" "a \<notin> set bl"
      and c: "deposit_for deps env st (cw20_amount m) a None = Ok (st', resp)"
      using rest bl by (auto simp: and_then_Ok map_err_Ok guards_Ok)
    have na: "a \<noteq> ?c" using out a(1) hook DepositFor by (auto simp: from_outside_def)
    note x = deposit_for_step [OF c core per na a(2) fit]
    have "\<exists>r. lock_response deps env st' a r = Ok (st', resp)"
      using c by (auto simp: deposit_for_def and_then_Ok dest: lock_response_Ok(1) split: option.splits if_splits)
    with x show ?thesis by auto
  qed
  show "escrow_inv ?c cur st'" using G same_admin_inv [OF inv bl] by blast
  show "same_admin st st'" using G by blast
  show "\<exists>a lk' cfg. ve_config st = Some cfg \<and> info_sender info = ec_deposit_token_addr cfg
      \<and> ve_locked st' = put a lk' (ve_locked st) \<and> lk_amount lk' = locked_amount st a + cw20_amount m
      \<and> (\<exists>r. lock_response deps env st' a r = Ok (st', resp))"
    using G cfg by blast
qed

text \<open>The messages that touch no lock.\<close>

fun administrative :: "escrow_execute_msg \<Rightarrow> bool" where
  "administrative (ExtendLockTime t) = False"
| "administrative (ReceiveToken m) = False"
| "administrative Withdraw = False"
| "administrative (UpdateBlacklist a r) = False"
| "administrative _ = True"

lemma administrative_step:
  assumes "escrow_execute deps env st info msg = Ok (st', resp)" and "administrative msg"
  shows "st' = st\<lparr>ve_config := ve_config st', ve_ownership_proposal := ve_ownership_proposal st', ve_cw20 := ve_cw20 st'\<rparr>"
    and "ve_config st \<noteq> None \<Longrightarrow> ve_config st' \<noteq> None"
  using assms by (cases msg; auto simp: and_then_Ok map_err_Ok update_escrow_config_def set_logo_urls_whitelist_def Let_def
      split: if_splits option.splits)+

theorem escrow_execute_inv:
  assumes x: "escrow_execute deps env st info msg = Ok (st', resp)"
    and inv: "escrow_inv (env_contract env) cur st" and per: "get_period (env_time env) = Ok cur"
    and out: "from_outside deps env info msg"
  shows "escrow_inv (env_contract env) cur st'"
proof -
  obtain bl where bl: "ve_blacklist st = Some bl" and core: "core_inv (set bl) (env_contract env) cur st"
    using inv by (auto simp: escrow_inv_def)
  have ns: "info_sender info \<noteq> env_contract env" using out by (simp add: from_outside_def)
  show ?thesis
  proof (cases "administrative msg")
    case True
    note a = administrative_step [OF x True]
    have "core_inv (set bl) (env_contract env) cur st'"
      using core by (subst a(1), subst core_inv_cong) simp_all
    moreover have "ve_blacklist st' = ve_blacklist st" by (subst a(1)) simp
    ultimately show ?thesis using inv bl a(2) by (auto simp: escrow_inv_def)
  next
    case False
    then consider (extend) t where "msg = ExtendLockTime t" | (receive) m where "msg = ReceiveToken m"
      | (withdraw) "msg = Withdraw" | (blacklist) a r where "msg = UpdateBlacklist a r"
      by (cases msg) auto
    then show ?thesis
    proof cases
      case extend
      then have e: "extend_lock_time deps env st (info_sender info) t = Ok (st', resp)" using x by simp
      have nb: "info_sender info \<notin> set bl" using e bl by (auto simp: extend_lock_time_def and_then_Ok guards_Ok)
      show ?thesis
        using extend_lock_time_step(1,2) [OF e core per ns nb] by (rule same_admin_inv [OF inv bl])
    next
      case receive
      with x receive_cw20_step(1) [OF _ inv per] out show ?thesis by auto
    next
      case withdraw
      then have w: "withdraw_lock deps env st (info_sender info) = Ok (st', resp)" using x by simp
      show ?thesis using withdraw_lock_step(1,2) [OF w core per ns] by (rule same_admin_inv [OF inv bl])
    next
      case blacklist
      then have u: "update_blacklist deps env st (info_sender info) a r = Ok (st', resp)" using x by simp
      show ?thesis
        using out blacklist by (intro update_blacklist_step(1) [OF u inv per]) (auto simp: from_outside_def)
    qed
  qed
qed

section \<open>Reachable states\<close>

inductive escrow_reachable :: "addr \<Rightarrow> u64 \<Rightarrow> escrow_state \<Rightarrow> bool" where
  escrow_start: "escrow_instantiate deps env msg empty_escrow = Ok (st, resp) \<Longrightarrow> get_period (env_time env) = Ok T
    \<Longrightarrow> escrow_reachable (env_contract env) T st"
| escrow_message: "escrow_reachable (env_contract env) T st \<Longrightarrow> escrow_execute deps env st info msg = Ok (st', resp)
    \<Longrightarrow> from_outside deps env info msg \<Longrightarrow> get_period (env_time env) = Ok T' \<Longrightarrow> T \<le> T'
    \<Longrightarrow> escrow_reachable (env_contract env) T' st'"
| escrow_migration: "escrow_reachable c T st \<Longrightarrow> escrow_migrate deps st = Ok (st', resp) \<Longrightarrow> escrow_reachable c T st'"
| escrow_wait: "escrow_reachable c T st \<Longrightarrow> T \<le> T' \<Longrightarrow> escrow_reachable c T' st"

lemma escrow_start_inv:
  assumes "escrow_instantiate deps env msg empty_escrow = Ok (st, resp)" and "get_period (env_time env) = Ok T"
  shows "escrow_inv (env_contract env) T st"
proof -
  have st: "ve_history st = [((env_contract env, T), \<lparr>pt_power = 0, pt_start = T, pt_end = 0, pt_slope = 0, pt_fixed = 0\<rparr>)]"
    "ve_locked st = []" "ve_slope_changes st = []" "ve_last_slope_change st = None" "ve_blacklist st = Some []" "ve_config st \<noteq> None"
    using assms by (auto simp: escrow_instantiate_def empty_escrow_def and_then_Ok map_err_Ok Let_def)
  have h: "hist_ok T (ve_history st)" by (auto simp: hist_ok_def st wf_store_def get_def point_fits_def)
  have "fetch_last_checkpoint st (env_contract env) T = Some (T, \<lparr>pt_power = 0, pt_start = T, pt_end = 0, pt_slope = 0, pt_fixed = 0\<rparr>)"
    unfolding fetch_Some [OF hist_okD(1) [OF h]] by (simp add: st get_def)
  then have "synced (env_contract env) T st" by (simp add: synced_def st last_change_def)
  moreover have "user_ok {} T st a" if "a \<noteq> env_contract env" for a
  proof -
    have "fetch_last_checkpoint st a T = None"
      unfolding fetch_None [OF hist_okD(1) [OF h]] using that by (simp add: st get_def)
    then show ?thesis by (simp add: user_ok_def counted_def locked_amount_def st store_simps)
  qed
  ultimately show ?thesis using h by (simp add: escrow_inv_def core_inv_def st store_simps)
qed

theorem escrow_reachable_inv: "escrow_reachable c T st \<Longrightarrow> escrow_inv c T st"
proof (induction rule: escrow_reachable.induct)
  case (escrow_start deps env msg st resp T)
  then show ?case by (rule escrow_start_inv)
next
  case (escrow_message env T st deps info msg st' resp T')
  show ?case
    by (rule escrow_execute_inv [OF escrow_message.hyps(2) escrow_inv_later [OF escrow_message.IH escrow_message.hyps(5)]
          escrow_message.hyps(4,3)])
next
  case (escrow_migration c T st deps st' resp)
  then obtain x where "st' = st\<lparr>ve_contract_info := x\<rparr>"
    by (auto simp: escrow_migrate_def and_then_Ok Let_def split: if_splits)
  then show ?case using escrow_migration.IH core_inv_cong [of st' st] by (simp add: escrow_inv_def)
next
  case (escrow_wait c T st T')
  then show ?case using escrow_inv_later by blast
qed

lemma reachable_core: "escrow_reachable c T st \<Longrightarrow> ve_blacklist st = Some bl \<Longrightarrow> core_inv (set bl) c T st"
  using escrow_reachable_inv by (force simp: escrow_inv_def)

lemma reachable_blacklist: "escrow_reachable c T st \<Longrightarrow> \<exists>bl. ve_blacklist st = Some bl"
  using escrow_reachable_inv by (force simp: escrow_inv_def)

lemma reachable_config: "escrow_reachable c T st \<Longrightarrow> \<exists>cfg. ve_config st = Some cfg"
  using escrow_reachable_inv by (force simp: escrow_inv_def)

lemma reachable_history: "escrow_reachable c T st \<Longrightarrow> hist_ok T (ve_history st)"
  using reachable_blacklist reachable_core core_invD(1) by blast

lemma reachable_synced: "escrow_reachable c T st \<Longrightarrow> synced c T st"
  using reachable_blacklist reachable_core core_invD(2) by blast

end
