(* ===== verification/EscrowBooks.thy ===== *)
theory EscrowBooks
  imports EscrowReach
begin

text \<open>
  What the escrow owes and pays: the sum of the locked amounts, and the transfers of the deposit token in a
  response. Beside it, the past of the voting power: a message writes no user's checkpoint before its own period.
\<close>

section \<open>The locked total\<close>

definition locked_total :: "escrow_state \<Rightarrow> u128" where
  "locked_total st = sum_list (map (\<lambda>e. lk_amount (snd e)) (entries (ve_locked st)))"

lemma locked_total_put:
  assumes "wf_store (ve_locked st)" and "ve_locked st' = put a lk (ve_locked st)"
  shows "locked_total st' + locked_amount st a = locked_total st + lk_amount lk"
  using om.total_put [OF assms(1), of "\<lambda>e. lk_amount (snd e)" a lk]
  by (auto simp: locked_total_def locked_amount_def assms(2) split: option.splits)

lemma locked_total_sum:
  assumes "wf_store (ve_locked st)" and "finite K" and "fst ` set (ve_locked st) \<subseteq> K"
  shows "locked_total st = sum (locked_amount st) K"
proof -
  let ?s = "ve_locked st"
  have d: "distinct (map fst ?s)" using assms(1) by (simp add: wf_store_def strict_sorted_iff)
  have v: "locked_amount st (fst e) = lk_amount (snd e)" if "e \<in> set ?s" for e
    using map_of_is_SomeI [OF d, of "fst e" "snd e"] that by (simp add: locked_amount_def get_def)
  have "locked_total st = sum (\<lambda>e. lk_amount (snd e)) (set ?s)"
    using d by (simp add: locked_total_def entries_def sum_list_distinct_conv_sum_set distinct_map)
  also have "\<dots> = sum (\<lambda>e. locked_amount st (fst e)) (set ?s)" using v by simp
  also have "\<dots> = sum (locked_amount st) (fst ` set ?s)" using d by (simp add: distinct_map sum.reindex)
  also have "\<dots> = sum (locked_amount st) K"
  proof (rule sum.mono_neutral_left [OF assms(2,3)])
    show "\<forall>a\<in>K - fst ` set ?s. locked_amount st a = 0"
      by (force simp: locked_amount_def get_def split: option.split dest!: map_of_SomeD)
  qed
  finally show ?thesis .
qed

lemma locked_total_cong:
  assumes "wf_store (ve_locked st)" and "wf_store (ve_locked st')" and "\<And>b. locked_amount st' b = locked_amount st b"
  shows "locked_total st' = locked_total st"
proof -
  let ?K = "fst ` set (ve_locked st) \<union> fst ` set (ve_locked st')"
  have "locked_total st' = sum (locked_amount st') ?K" by (rule locked_total_sum [OF assms(2)]) auto
  also have "\<dots> = sum (locked_amount st) ?K" using assms(3) by simp
  also have "\<dots> = locked_total st" by (rule locked_total_sum [OF assms(1), symmetric]) auto
  finally show ?thesis .
qed

section \<open>What a response pays\<close>

fun paid_by :: "escrow_payload sub_msg \<Rightarrow> u128" where
  "paid_by (PlainMsg (WasmExecute c (ToToken (Cw20Transfer a x)) funds)) = x"
| "paid_by _ = 0"

definition paid_out :: "escrow_response \<Rightarrow> u128" where
  "paid_out r = sum_list (map paid_by (resp_msgs r))"

lemma pushes_pay_nothing: "get_push_update_msgs cfg a r = Ok ms \<Longrightarrow> m \<in> set ms \<Longrightarrow> paid_by (PlainMsg m) = 0"
  by (cases r) auto

lemma pushes_sum: "get_push_update_msgs cfg a r = Ok ms \<Longrightarrow> sum_list (map (\<lambda>m. paid_by (PlainMsg m)) ms) = 0"
  using pushes_pay_nothing by (simp add: sum_list_eq_0_iff)

lemma multi_pushes_sum:
  assumes "get_push_update_msgs_multi deps env st cfg as = Ok ms"
  shows "sum_list (map (\<lambda>m. paid_by (PlainMsg m)) ms) = 0"
proof -
  obtain mss where "traverse (\<lambda>a. get_push_update_msgs cfg a (get_user_lock_info deps env st a)) as = Ok mss"
    and ms: "ms = concat mss" using assms by (auto simp: get_push_update_msgs_multi_def and_then_Ok)
  then have "list_all2 (\<lambda>a m. get_push_update_msgs cfg a (get_user_lock_info deps env st a) = Ok m) as mss"
    by (simp add: traverse_Ok_list_all2)
  then have "\<forall>m \<in> set (concat mss). paid_by (PlainMsg m) = 0"
    by (induction rule: list_all2_induct) (auto dest: pushes_pay_nothing)
  then show ?thesis by (simp add: ms sum_list_eq_0_iff)
qed

lemma lock_response_pays:
  assumes "lock_response deps env st a act = Ok (st', resp)"
  shows "paid_out resp = 0"
  using lock_response_Ok(2) [OF assms] by (auto simp: paid_out_def sum_list_eq_0_iff)

lemma update_blacklist_pays:
  assumes "update_blacklist deps env st sender app rem = Ok (st', resp)" and "get_period (env_time env) = Ok cur"
  shows "paid_out resp = 0"
  by (rule update_blacklist_Ok [OF assms]) (use multi_pushes_sum in \<open>simp add: paid_out_def comp_def\<close>)

lemma extend_lock_time_pays: "extend_lock_time deps env st a t = Ok (st', resp) \<Longrightarrow> paid_out resp = 0"
  by (auto simp: extend_lock_time_def and_then_Ok Let_def dest: lock_response_pays)

section \<open>The balance of a message\<close>

lemma escrow_message_balance:
  assumes x: "escrow_execute deps env st info msg = Ok (st', resp)"
    and inv: "escrow_inv (env_contract env) cur st" and per: "get_period (env_time env) = Ok cur"
    and out: "from_outside deps env info msg"
  shows "locked_total st' + (if administrative msg then 0 else paid_out resp) = locked_total st + received msg"
proof -
  obtain bl where bl: "ve_blacklist st = Some bl" and core: "core_inv (set bl) (env_contract env) cur st"
    using inv by (auto simp: escrow_inv_def)
  note wf = core_invD(3) [OF core]
  have ns: "info_sender info \<noteq> env_contract env" using out by (simp add: from_outside_def)
  show ?thesis
  proof (cases "administrative msg")
    case True
    then have r: "received msg = 0" by (cases msg) simp_all
    have "ve_locked st' = ve_locked st" by (subst administrative_step(1) [OF x True]) simp
    with True r show ?thesis by (simp add: locked_total_def)
  next
    case False
    then consider (extend) t where "msg = ExtendLockTime t" | (receive) m where "msg = ReceiveToken m"
      | (withdraw) "msg = Withdraw" | (blacklist) a r where "msg = UpdateBlacklist a r"
      by (cases msg) auto
    then show ?thesis
    proof cases
      case extend
      then have e: "extend_lock_time deps env st (info_sender info) t = Ok (st', resp)" using x by simp
      have nb: "info_sender info \<notin> set bl" using e bl by (auto simp: extend_lock_time_def and_then_Ok guards_Ok)
      obtain lk lk' where lk: "get (ve_locked st) (info_sender info) = Some lk"
        "ve_locked st' = put (info_sender info) lk' (ve_locked st)" "lk_amount lk' = lk_amount lk"
        using extend_lock_time_step(4) [OF e core per ns nb] by blast
      have "locked_total st' = locked_total st"
        using locked_total_put [OF wf lk(2)] lk(1,3) by (simp add: locked_amount_def)
      then show ?thesis using extend extend_lock_time_pays [OF e] by simp
    next
      case receive
      then have r: "receive_cw20 deps env st info m = Ok (st', resp)" using x by simp
      obtain a lk' act where lk: "ve_locked st' = put a lk' (ve_locked st)" "lk_amount lk' = locked_amount st a + cw20_amount m"
        and lr: "lock_response deps env st' a act = Ok (st', resp)"
        using receive_cw20_step(3) [OF r inv per] out receive by blast
      show ?thesis
        using locked_total_put [OF wf lk(1)] lk(2) receive lock_response_pays [OF lr] by simp
    next
      case withdraw
      then have w: "withdraw_lock deps env st (info_sender info) = Ok (st', resp)" using x by simp
      obtain lk cfg pushes where lk: "get (ve_locked st) (info_sender info) = Some lk"
        and l': "ve_locked st' = put (info_sender info) (lk\<lparr>lk_amount := 0\<rparr>) (ve_locked st)"
        and p: "get_push_update_msgs cfg (info_sender info) (get_user_lock_info deps env st' (info_sender info)) = Ok pushes"
        and m: "resp_msgs resp = PlainMsg (WasmExecute (ec_deposit_token_addr cfg)
            (ToToken (Cw20Transfer (info_sender info) (lk_amount lk))) []) # map PlainMsg pushes"
        using withdraw_lock_step(3) [OF w core per ns] by blast
      have "paid_out resp = lk_amount lk" using pushes_sum [OF p] by (simp add: paid_out_def m comp_def)
      then show ?thesis using locked_total_put [OF wf l'] lk withdraw by (simp add: locked_amount_def)
    next
      case blacklist
      then have u: "update_blacklist deps env st (info_sender info) a r = Ok (st', resp)" using x by simp
      have "\<And>s. s \<in> set (unwrap_or a [] @ unwrap_or r []) \<Longrightarrow> ed_addr_validate deps s \<noteq> Ok (env_contract env)"
        using out blacklist by (auto simp: from_outside_def)
      note s = update_blacklist_step [OF u inv per this]
      have "wf_store (ve_locked st')" using s(1) core_invD(3) by (auto simp: escrow_inv_def)
      then show ?thesis
        using locked_total_cong [OF wf _ s(2)] update_blacklist_pays [OF u per] blacklist by simp
    qed
  qed
qed

section \<open>The voting power of a user\<close>

lemma user_vamp_bounds:
  assumes core: "core_inv B c T st" and "T \<le> q" and "ed_addr_validate deps user = Ok a" and "a \<noteq> c"
    and "11 * counted B st a \<le> U128_MAX"
  shows "\<exists>v. get_user_vamp_at_period deps st user q = Ok v \<and> counted B st a \<le> v
    \<and> (v - counted B st a) * 1040 \<le> 9450 * counted B st a"
proof -
  note i = core_invD [OF core]
  have u: "user_ok B T st a" by (rule i(6) [OF assms(4)])
  have f: "fetch_last_checkpoint st a q = fetch_last_checkpoint st a T" by (rule fetch_later [OF i(1) assms(2)])
  show ?thesis
  proof (cases "fetch_last_checkpoint st a T")
    case None
    with u f assms(3) show ?thesis by (simp add: user_ok_def get_user_vamp_at_period_def)
  next
    case (Some e)
    then obtain k p where p: "fetch_last_checkpoint st a T = Some (k, p)" by (cases e) auto
    with u have fx: "pt_fixed p = counted B st a" and w: "pt_power p * 1040 \<le> 9450 * counted B st a"
      by (simp_all add: user_ok_def within_def)
    have k: "pt_start p \<le> q" using fetch_point [OF i(1) p] assms(2) by simp
    then obtain v where v: "point_voting_power p q = (Ok v :: (u128, std_error) result)" "v \<le> pt_power p"
      by (simp add: point_voting_power_Ok)
    have "pt_power p + counted B st a \<le> U128_MAX" "v + counted B st a \<le> U128_MAX" using w v(2) assms(5) by linarith+
    then show ?thesis
      using w v p f fx assms(3) by (simp add: get_user_vamp_at_period_def num_defs)
  qed
qed

lemma unlocked_vamp:
  assumes "core_inv B c T st" and "T \<le> q" and "ed_addr_validate deps user = Ok a" and "a \<noteq> c" and "counted B st a = 0"
  shows "get_user_vamp_at_period deps st user q = Ok 0"
  using user_vamp_bounds [OF assms(1-4)] assms(5) by auto

text \<open>Between checkpoints the power of a point decays as the interface of \<open>ErisLib\<close> demands.\<close>

definition point_power :: "point \<Rightarrow> u64 \<Rightarrow> u128" where
  "point_power p t = (case (point_voting_power p t :: (u128, std_error) result) of Ok v \<Rightarrow> v | _ \<Rightarrow> 0)"

interpretation ve: decaying_power point_power pt_start pt_power pt_slope
  "\<lambda>p t. pt_slope p * (t - pt_start p) \<le> U128_MAX"
proof
  fix p :: point and t t' :: u64
  show "point_power p (pt_start p) = pt_power p"
    by (simp add: point_power_def point_voting_power_def num_defs)
  show "pt_slope p * (t - pt_start p) \<le> U128_MAX \<Longrightarrow> pt_start p \<le> t \<Longrightarrow>
      point_power p t = pt_power p - pt_slope p * (t - pt_start p)"
    by (simp add: point_power_def point_voting_power_def num_defs Let_def)
  assume "pt_slope p * (t' - pt_start p) \<le> U128_MAX" "t \<le> t'"
  then show "pt_slope p * (t - pt_start p) \<le> U128_MAX" by (meson diff_le_mono le_trans mult_le_mono2)
qed

lemma point_power_Ok:
  assumes "point_voting_power p t = Ok v"
  shows "point_power p t = v"
proof -
  have "point_voting_power p t = (Ok v :: (u128, std_error) result)" using assms by (simp add: point_voting_power_Ok)
  then show ?thesis by (simp add: point_power_def)
qed

section \<open>An expired lock can be withdrawn\<close>

lemma lock_info_defined:
  assumes core: "core_inv B c cur st" and per: "get_period (env_time env) = Ok cur"
    and lk: "get (ve_locked st) a = Some lk" and val: "ed_addr_validate deps a = Ok a"
  shows "\<exists>li. get_user_lock_info deps env st a = Ok li"
proof -
  note ok = core_invD(5) [OF core lk]
  have "\<exists>parts. voting_parts (map_option snd (fetch_last_checkpoint st a cur)) cur
      = (Ok parts :: (u128 \<times> u128 \<times> u128, escrow_error) result)"
  proof (cases "fetch_last_checkpoint st a cur")
    case (Some e)
    then obtain k p where p: "fetch_last_checkpoint st a cur = Some (k, p)" by (cases e) auto
    then have "pt_start p \<le> cur" using fetch_point [OF core_invD(1) [OF core] p] by simp
    then have "\<exists>v. point_voting_power p cur = (Ok v :: (u128, escrow_error) result)" by (simp add: point_voting_power_Ok)
    with p show ?thesis by (auto simp: voting_parts_def)
  qed (simp add: voting_parts_def)
  then obtain parts where "voting_parts (map_option snd (fetch_last_checkpoint st a cur)) cur
      = (Ok parts :: (u128 \<times> u128 \<times> u128, escrow_error) result)" ..
  moreover have "\<exists>co. calc_coefficient (lk_end lk - lk_last_extend_lock_period lk) = (Ok co :: (decimal, escrow_error) result)"
  proof -
    have d: "lk_end lk - lk_last_extend_lock_period lk \<le> 105" using ok unfolding lock_ok_def by linarith
    have "90 * (lk_end lk - lk_last_extend_lock_period lk) * DEC_ONE div 1040 \<le> 90 * 105 * DEC_ONE"
      using d by (intro order_trans [OF div_le_dividend] mult_le_mono1 mult_le_mono2)
    also have "\<dots> \<le> U128_MAX" by (simp add: DEC_ONE_def U128_MAX_def)
    finally show ?thesis using d by (simp add: calc_coefficient_Ok U64_MAX_def)
  qed
  ultimately show ?thesis
    using lk val per ok
    by (cases parts) (auto simp: get_user_lock_info_def and_then_Ok map_err_Ok num_Ok lock_ok_def)
qed

text \<open>What is told about a user without voting power.\<close>

lemma lock_info_unlocked:
  assumes core: "core_inv B c cur st" and per: "get_period (env_time env) = Ok cur" and val: "ed_addr_validate deps a = Ok a"
    and "a \<noteq> c" and "counted B st a = 0" and li: "get_user_lock_info deps env st a = Ok li"
  shows "li_voting_power li = 0 \<and> li_fixed_amount li = 0"
proof (cases "fetch_last_checkpoint st a cur")
  case None
  with li per val show ?thesis by (auto simp: get_user_lock_info_def and_then_Ok map_err_Ok voting_parts_def split: option.splits)
next
  case (Some e)
  then obtain k p where p: "fetch_last_checkpoint st a cur = Some (k, p)" by (cases e) auto
  have "user_ok B cur st a" using core_invD(6) [OF core] assms(4) by blast
  then have "pt_fixed p = 0" "pt_power p = 0" using p assms(5) by (simp_all add: user_ok_def within_def)
  moreover have "pt_start p \<le> cur" using fetch_point [OF core_invD(1) [OF core] p] by simp
  ultimately show ?thesis using li per val p
    by (auto simp: get_user_lock_info_def and_then_Ok map_err_Ok voting_parts_def point_voting_power_Ok split: option.splits if_splits)
qed

lemma withdraw_defined:
  assumes inv: "escrow_inv (env_contract env) cur st" and per: "get_period (env_time env) = Ok cur"
    and lk: "get (ve_locked st) a = Some lk" "lk_amount lk \<noteq> 0" "lk_end lk \<le> cur"
    and val: "ed_addr_validate deps a = Ok a" and cfg: "ve_config st = Some cfg"
  shows "\<exists>st' resp li. withdraw_lock deps env st a = Ok (st', resp) \<and> ve_locked st' = put a (lk\<lparr>lk_amount := 0\<rparr>) (ve_locked st) \<and>
    get_user_lock_info deps env st' a = Ok li \<and> li_amount li = 0 \<and> li_voting_power li = 0 \<and> li_fixed_amount li = 0 \<and>
    resp_msgs resp = PlainMsg (WasmExecute (ec_deposit_token_addr cfg) (ToToken (Cw20Transfer a (lk_amount lk))) []) #
      map (\<lambda>c. PlainMsg (WasmExecute c (UpdateVote a li) [])) (ec_push_update_contracts cfg)"
proof -
  obtain bl where bl: "ve_blacklist st = Some bl" and core: "core_inv (set bl) (env_contract env) cur st"
    using inv by (auto simp: escrow_inv_def)
  note i = core_invD [OF core]
  have a: "a \<noteq> env_contract env" by (rule i(4) [OF lk(1)])
  let ?st1 = "st\<lparr>ve_locked := put a (lk\<lparr>lk_amount := 0\<rparr>) (ve_locked st)\<rparr>"
  let ?st2 = "save_point a cur (zero_point cur) ?st1"
  have "locked_amount ?st1 a = 0" by (simp add: locked_amount_def store_simps)
  moreover have "lock_ok cur l" if "get (ve_locked ?st1) a = Some l" for l
    using that i(5) [OF lk(1)] by (auto simp: store_simps lock_ok_def)
  ultimately have c: "core_inv (set bl) (env_contract env) cur ?st2"
    using all_but_locked [OF core a] by (intro core_reset a) auto
  obtain st3 where t: "checkpoint_total env None None None (Some (lk_amount lk)) 0 0 ?st2 = Ok st3"
    using checkpoint_total_defined [OF per core_invD(1,2) [OF c]] by blast
  have c3: "core_inv (set bl) (env_contract env) cur st3" by (rule core_checkpoint_total [OF c per t])
  have locked: "ve_locked st3 = put a (lk\<lparr>lk_amount := 0\<rparr>) (ve_locked st)"
    using checkpoint_total_admin(2) [OF t per c] by simp
  then have l3: "get (ve_locked st3) a = Some (lk\<lparr>lk_amount := 0\<rparr>)" by (simp add: store_simps)
  obtain li where li: "get_user_lock_info deps env st3 a = Ok li"
    using lock_info_defined [OF c3 per l3 val] by blast
  have "counted (set bl) st3 a = 0" by (simp add: counted_def locked_amount_def l3)
  then have "li_voting_power li = 0 \<and> li_fixed_amount li = 0" by (rule lock_info_unlocked [OF c3 per val a _ li])
  moreover have "li_amount li = 0" using li l3 val by (auto simp: get_user_lock_info_def and_then_Ok map_err_Ok)
  moreover obtain resp where "withdraw_lock deps env st a = Ok (st3, resp)"
    and "resp_msgs resp = PlainMsg (WasmExecute (ec_deposit_token_addr cfg) (ToToken (Cw20Transfer a (lk_amount lk))) []) #
      map (\<lambda>c. PlainMsg (WasmExecute c (UpdateVote a li) [])) (ec_push_update_contracts cfg)"
    using lk per cfg t li by (auto simp: withdraw_lock_def active_lock_def and_then_Ok map_err_Ok load_item_Ok Let_def)
  ultimately show ?thesis using locked li by blast
qed

end
