(* ===== verification/EscrowPast.thy ===== *)
theory EscrowPast
  imports EscrowReach
begin

text \<open>
  The past of the voting power. A message files checkpoints of users only under its own period, so a user's voting power
  of an earlier period never changes.
\<close>

section \<open>Where a checkpoint writes\<close>

text \<open>A lookup up to a period depends on the points up to that period.\<close>

lemma fetch_upto_cong:
  assumes wf: "wf_store (ve_history st)" "wf_store (ve_history st')"
    and eq: "\<And>k. k \<le> p \<Longrightarrow> get (ve_history st') (a, k) = get (ve_history st) (a, k)"
  shows "fetch_last_checkpoint st' a p = fetch_last_checkpoint st a p"
proof (cases "fetch_last_checkpoint st a p")
  case None
  then have "fetch_last_checkpoint st' a p = None" using eq by (simp add: fetch_None wf)
  with None show ?thesis by simp
next
  case (Some e)
  then obtain k q where f: "fetch_last_checkpoint st a p = Some (k, q)" by (cases e) auto
  then have "fetch_last_checkpoint st' a p = Some (k, q)" using eq by (auto simp: fetch_Some wf)
  with f show ?thesis by simp
qed

text \<open>The points of users (of accounts other than \<open>c\<close>) outside \<open>W\<close> are the same.\<close>

definition writes :: "addr \<Rightarrow> (addr \<times> u64) set \<Rightarrow> escrow_state \<Rightarrow> escrow_state \<Rightarrow> bool" where
  "writes c W st st' \<longleftrightarrow> (\<forall>a k. a \<noteq> c \<longrightarrow> (a, k) \<notin> W \<longrightarrow> get (ve_history st') (a, k) = get (ve_history st) (a, k))"

lemma writes_trans: "writes c W st st' \<Longrightarrow> writes c W st' st'' \<Longrightarrow> writes c W st st''"
  by (simp add: writes_def)

lemma writes_mono: "writes c W st st' \<Longrightarrow> W \<subseteq> W' \<Longrightarrow> writes c W' st st'"
  by (auto simp: writes_def)

lemma writes_history: "ve_history st' = ve_history st \<Longrightarrow> writes c W st st'"
  by (simp add: writes_def)

lemma writes_save: "a = c \<or> (a, k) \<in> W \<Longrightarrow> writes c W st (save_point a k p st)"
  by (auto simp: writes_def store_simps)

lemma recalc_points_writes:
  assumes "recalc_points c cur p st = Ok (st', p')"
  shows "writes c {} st st'"
proof -
  let ?es = "fetch_slope_changes st (unwrap_or (ve_last_slope_change st) 0) cur"
  have step: "writes c {} st (fst s')" if "writes c {} st (fst s)" and "recalc_step c s e = Ok s'" for s s' e
  proof -
    have "writes c {} (fst s) (fst s')"
      using that(2) by (cases s) (auto simp: recalc_step_def and_then_Ok Let_def intro: writes_save)
    with that(1) show ?thesis by (rule writes_trans)
  qed
  consider "st' = st" | st2 p2 where "try_fold (recalc_step c) (st, p) ?es = Ok (st2, p2)" "ve_history st' = ve_history st2"
    using assms by (auto simp: recalc_points_def and_then_Ok Let_def split: if_splits)
  then show ?thesis
  proof cases
    case 1
    then show ?thesis by (simp add: writes_history)
  next
    case 2
    have "writes c {} st (fst (st2, p2))"
      by (rule try_fold_invariant [OF 2(1)]) (use step in \<open>auto simp: writes_history\<close>)
    then show ?thesis by (rule writes_trans [OF _ writes_history]) (simp add: 2(2))
  qed
qed

lemma checkpoint_total_writes:
  assumes "checkpoint_total env avp aa rp ra os ns st = Ok st'"
  shows "writes (env_contract env) {} st st'"
proof (cases "get_period (env_time env)")
  case (Ok cur)
  show ?thesis
  proof (cases "fetch_last_checkpoint st (env_contract env) cur")
    case None
    with assms Ok show ?thesis by (auto simp: checkpoint_total_def Let_def intro: writes_save)
  next
    case (Some e)
    obtain S p0 where e: "e = (S, p0)" by (cases e)
    obtain st1 p q where "recalc_points (env_contract env) cur p0 st = Ok (st1, p)" "st' = save_point (env_contract env) cur q st1"
      using checkpoint_total_step [OF assms Ok] Some e by blast
    then show ?thesis using recalc_points_writes writes_trans writes_save by blast
  qed
qed (use assms in \<open>simp_all add: checkpoint_total_def\<close>)

lemma cancel_history: "ve_history (fst (cancel_scheduled_slope s p st)) = ve_history st"
  by (simp add: cancel_scheduled_slope_def Let_def split: option.split)

lemma next_user_point_history:
  assumes "next_user_point env a add ne cur st = Ok (st1, p, v, s)"
  shows "ve_history st1 = ve_history st"
proof -
  have new: "ve_history t = ve_history st" if "new_user_slope a add cur e q pw st = Ok (t, sl, v)" for e q pw t sl v
    using that by (auto simp: new_user_slope_def Let_def and_then_Ok map_err_Ok split: if_splits)
  show ?thesis
  proof (cases "fetch_last_checkpoint st a cur")
    case None
    with assms show ?thesis by (auto simp: next_user_point_def and_then_Ok)
  next
    case (Some e)
    obtain k q where e: "e = (k, q)" by (cases e)
    from assms Some e obtain end' pw t sl v where "new_user_slope a add cur end' q pw st = Ok (t, sl, v)"
      and "st1 = fst (cancel_scheduled_slope (pt_slope q) (pt_end q) t)"
      by (auto simp: next_user_point_def and_then_Ok Let_def case_prod_unfold)
    then show ?thesis using new cancel_history by metis
  qed
qed

lemma checkpoint_writes:
  assumes "checkpoint env a add ne st = Ok st'" and "get_period (env_time env) = Ok cur"
  shows "writes (env_contract env) {(a, cur)} st st'"
proof -
  from assms obtain st1 p v s where n: "next_user_point env a (unwrap_or add 0) ne cur st = Ok (st1, p, v, s)"
    and r: "and_then (schedule_slope_change (pt_slope p) (pt_end p) st1) (\<lambda>st2.
      checkpoint_total env (Some v) (Some (unwrap_or add 0)) None None s (pt_slope p) (save_point a cur p st2)) = Ok st'"
    by (cases "next_user_point env a (unwrap_or add 0) ne cur st")
       (auto simp: checkpoint_def Let_def simp del: and_then_Ok)
  from r obtain st2 where s: "schedule_slope_change (pt_slope p) (pt_end p) st1 = Ok st2"
    and t: "checkpoint_total env (Some v) (Some (unwrap_or add 0)) None None s (pt_slope p) (save_point a cur p st2) = Ok st'"
    unfolding and_then_Ok by blast
  have "ve_history st2 = ve_history st1"
    using s by (auto simp: schedule_slope_change_def and_then_Ok split: if_splits option.splits)
  then have w: "writes (env_contract env) {(a, cur)} st st2"
    by (simp add: writes_history next_user_point_history [OF n])
  have "writes (env_contract env) {(a, cur)} st2 (save_point a cur p st2)" by (rule writes_save) simp
  moreover have "writes (env_contract env) {(a, cur)} (save_point a cur p st2) st'"
    by (rule writes_mono [OF checkpoint_total_writes [OF t]]) simp
  ultimately show ?thesis using w writes_trans by blast
qed

section \<open>Where a message writes\<close>

abbreviation now :: "u64 \<Rightarrow> (addr \<times> u64) set" where
  "now cur \<equiv> UNIV \<times> {cur}"

lemma writes_now: "writes c {(a, cur)} st st' \<Longrightarrow> writes c (now cur) st st'"
  by (rule writes_mono) auto

lemma checkpointed_lock:
  assumes "checkpoint env a add ne (st\<lparr>ve_locked := l\<rparr>) = Ok st'" and "get_period (env_time env) = Ok cur"
  shows "writes (env_contract env) {(a, cur)} st st'"
  using checkpoint_writes [OF assms] by (simp add: writes_def)

lemma withdraw_lock_writes:
  assumes "withdraw_lock deps env st a = Ok (st', resp)" and "get_period (env_time env) = Ok cur"
  shows "writes (env_contract env) {(a, cur)} st st'"
proof -
  from assms obtain l x where t: "checkpoint_total env None None None (Some x) 0 0 (save_point a cur (zero_point cur) (st\<lparr>ve_locked := l\<rparr>)) = Ok st'"
    by (auto simp: withdraw_lock_def and_then_Ok map_err_Ok Let_def split: if_splits)
  have "writes (env_contract env) {(a, cur)} st (save_point a cur (zero_point cur) (st\<lparr>ve_locked := l\<rparr>))"
    by (auto simp: writes_def store_simps)
  then show ?thesis by (rule writes_trans [OF _ writes_mono [OF checkpoint_total_writes [OF t]]]) simp
qed

lemma append_step_writes:
  assumes "append_step cur acc a = Ok acc'"
  shows "writes c (now cur) (fst acc) (fst acc')"
proof -
  obtain st used v s x where acc: "acc = (st, used, v, s, x)" by (cases acc) auto
  let ?z = "save_point a cur (zero_point cur) st"
  have z: "writes c (now cur) st ?z" by (rule writes_save) simp
  then have y: "writes c (now cur) st (fst (cancel_scheduled_slope q e ?z))" for q e
    by (rule writes_trans [OF _ writes_history]) (simp add: cancel_history)
  show ?thesis
    using assms z y writes_history [of st st]
    by (auto simp: append_step_def acc and_then_Ok Let_def split: if_splits option.splits)
qed

lemma remove_step_writes:
  assumes "remove_step env acc a = Ok acc'" and "get_period (env_time env) = Ok cur"
  shows "writes (env_contract env) (now cur) (fst acc) (fst acc')"
  using assms
  by (cases acc) (auto simp: remove_step_def and_then_Ok writes_history split: if_splits option.splits
      intro: writes_now [OF checkpoint_writes])

lemma blacklist_points_writes:
  assumes "blacklist_points env cur as rs st = Ok st3" and per: "get_period (env_time env) = Ok cur"
  shows "writes (env_contract env) (now cur) st st3"
proof -
  let ?w = "writes (env_contract env) (now cur)"
  obtain st1 used v s x st2 used3 where a: "try_fold (append_step cur) (st, [], 0, 0, 0) as = Ok (st1, used, v, s, x)"
    and t: "(if v \<noteq> 0 \<or> s \<noteq> 0 then checkpoint_total env None None (Some v) (Some x) s 0 st1 else Ok st1) = Ok st2"
    and r: "try_fold (remove_step env) (st2, used) rs = Ok (st3, used3)"
    using blacklist_points_Ok [OF assms(1)] by blast
  have "?w st (fst (st1, used, v, s, x))"
    by (rule try_fold_invariant [OF a]) (use append_step_writes writes_trans in \<open>auto simp: writes_history\<close>)
  moreover have "?w st1 st2"
    using t writes_mono [OF checkpoint_total_writes, of env None None "Some v" "Some x" s 0 st1 st2 "now cur"]
    by (auto simp: writes_history split: if_splits)
  moreover have "?w st2 (fst (st3, used3))"
    by (rule try_fold_invariant [OF r]) (use remove_step_writes [OF _ per] writes_trans in \<open>auto simp: writes_history\<close>)
  ultimately show ?thesis using writes_trans by (metis fst_conv)
qed

lemma update_blacklist_writes:
  assumes "update_blacklist deps env st sender app rem = Ok (st', resp)" and "get_period (env_time env) = Ok cur"
  shows "writes (env_contract env) (now cur) st st'"
  by (rule update_blacklist_Ok [OF assms]) (use blacklist_points_writes [OF _ assms(2)] in \<open>simp add: writes_def\<close>)

lemma lock_messages_write:
  assumes "get_period (env_time env) = Ok cur"
  shows "create_lock deps env st a x t = Ok (st', resp) \<Longrightarrow> writes (env_contract env) (now cur) st st'"
    and "deposit_for deps env st x a ext = Ok (st', resp) \<Longrightarrow> writes (env_contract env) (now cur) st st'"
    and "extend_lock_time deps env st a t = Ok (st', resp) \<Longrightarrow> writes (env_contract env) (now cur) st st'"
  using checkpointed_lock [OF _ assms, THEN writes_now]
  by (auto simp: create_lock_def deposit_for_def extend_lock_time_def and_then_Ok Let_def
      dest!: lock_response_Ok(1) split: option.splits if_splits)

lemma escrow_execute_writes:
  assumes "escrow_execute deps env st info msg = Ok (st', resp)" and per: "get_period (env_time env) = Ok cur"
  shows "writes (env_contract env) (now cur) st st'"
proof (cases "administrative msg")
  case True
  show ?thesis by (subst administrative_step(1) [OF assms(1) True]) (simp add: writes_def)
next
  case False
  then consider (extend) t where "msg = ExtendLockTime t" | (receive) m where "msg = ReceiveToken m"
    | (withdraw) "msg = Withdraw" | (blacklist) a r where "msg = UpdateBlacklist a r"
    by (cases msg) auto
  then show ?thesis
  proof cases
    case extend
    then show ?thesis using assms(1) lock_messages_write(3) [OF per] by simp
  next
    case receive
    then obtain s hook where "(case hook of
       CreateLock time \<Rightarrow> create_lock deps env st s (cw20_amount m) time
     | ExtendLockAmount to_min \<Rightarrow> deposit_for deps env st (cw20_amount m) s to_min
     | DepositFor user \<Rightarrow>
         and_then (estd (ed_addr_validate deps user)) (\<lambda>a.
         and_then (assert_blacklist st a) (\<lambda>_.
         deposit_for deps env st (cw20_amount m) a None))) = Ok (st', resp)"
      using assms(1) by (auto simp: receive_cw20_def and_then_Ok simp del: cw20_hook_msg.case)
    then show ?thesis using lock_messages_write(1,2) [OF per] by (cases hook) (auto simp: and_then_Ok)
  next
    case withdraw
    then show ?thesis using assms(1) writes_now [OF withdraw_lock_writes [OF _ per]] by simp
  next
    case blacklist
    then show ?thesis using assms(1) update_blacklist_writes [OF _ per] by simp
  qed
qed

end
