(* ===== verification/EscrowSample.thy ===== *)
theory EscrowSample
  imports EscrowReach
begin

text \<open>A concrete escrow for the witnesses: every address is valid, and the third-party functions do nothing.\<close>

definition ve_deps :: escrow_deps where
  "ve_deps = \<lparr>ed_addr_validate = (\<lambda>a. Ok a),
     ed_propose_new_owner = (\<lambda>info env new_owner expires owner p.
       if info_sender info = owner then Ok (Some new_owner, new_response) else Err (GenericErr ''Unauthorized'')),
     ed_drop_ownership_proposal = (\<lambda>info owner p.
       if info_sender info = owner then Ok (None, new_response) else Err (GenericErr ''Unauthorized'')),
     ed_claim_ownership = (\<lambda>info env p. case p of
         Some a \<Rightarrow> if info_sender info = a then Ok (a, None, new_response) else Err (GenericErr ''Unauthorized'')
       | None \<Rightarrow> Err (GenericErr ''Ownership proposal not found'')),
     ed_update_marketing = (\<lambda>env info project description marketing items. Ok (items, new_response)),
     ed_upload_logo = (\<lambda>env info logo items. Ok (items, new_response)),
     ed_lock_at_height = (\<lambda>a h. Ok None),
     ed_version = ''1.0.0'', ed_query_marketing_info = (\<lambda>items. load_item (cw_marketing_info items)),
     ed_query_download_logo = (\<lambda>items. load_item (cw_logo items))\<rparr>"

text \<open>The block in a given week, at its beginning.\<close>

definition at_week :: "u64 \<Rightarrow> env" where
  "at_week w = \<lparr>env_height = w, env_time = EPOCH_START + w * WEEK, env_contract = ''escrow''\<rparr>"

definition ve_init :: escrow_instantiate_msg where
  "ve_init = \<lparr>ei_owner = ''owner'', ei_guardian_addr = Some ''guardian'', ei_deposit_token_addr = ''token'',
     ei_marketing = None, ei_logo_urls_whitelist = []\<rparr>"

definition by_sender :: "addr \<Rightarrow> message_info" where
  "by_sender a = \<lparr>info_sender = a, info_funds = []\<rparr>"

text \<open>A transfer of the deposit token with a hook.\<close>

definition locking :: "addr \<Rightarrow> u128 \<Rightarrow> cw20_hook_msg \<Rightarrow> escrow_execute_msg" where
  "locking a x hook = ReceiveToken \<lparr>cw20_sender = a, cw20_amount = x, cw20_payload = Decoded hook\<rparr>"

text \<open>A history of messages: week, sender, message.\<close>

fun run_messages :: "(u64 \<times> addr \<times> escrow_execute_msg) list \<Rightarrow> escrow_state \<Rightarrow> (escrow_state, escrow_error) result" where
  "run_messages [] st = Ok st"
| "run_messages ((w, a, m) # ms) st =
     and_then (escrow_execute ve_deps (at_week w) st (by_sender a) m) (\<lambda>(st', _). run_messages ms st')"

definition escrow_run :: "(u64 \<times> addr \<times> escrow_execute_msg) list \<Rightarrow> (escrow_state, escrow_error) result" where
  "escrow_run ms = and_then (escrow_instantiate ve_deps (at_week 0) ve_init empty_escrow) (\<lambda>(st, _). run_messages ms st)"

section \<open>A concrete run\<close>

text \<open>Started in week 0; alice locks 1040 for ten weeks and bob 2080 for fifty in week 1.\<close>

definition sample_point :: "u64 \<Rightarrow> u64 \<Rightarrow> u128 \<Rightarrow> u128 \<Rightarrow> u128 \<Rightarrow> point" where
  "sample_point s e vp slope fixed =
     \<lparr>pt_power = vp, pt_start = s, pt_end = e, pt_slope = slope, pt_fixed = fixed\<rparr>"

definition sample_lock :: "addr \<Rightarrow> u128 \<Rightarrow> u64 \<Rightarrow> addr \<times> lock" where
  "sample_lock a x e = (a, \<lparr>lk_amount = x, lk_start = 1, lk_end = e, lk_last_extend_lock_period = 1\<rparr>)"

definition sample_escrow :: "(addr, lock) store \<Rightarrow> history \<Rightarrow> (u64, u128) store \<Rightarrow> u64 option \<Rightarrow> escrow_state" where
  "sample_escrow locks h slopes l = \<lparr>
     ve_config = Some \<lparr>ec_owner = ''owner'', ec_guardian_addr = Some ''guardian'', ec_deposit_token_addr = ''token'',
       ec_logo_urls_whitelist = [], ec_push_update_contracts = []\<rparr>,
     ve_locked = locks, ve_history = h, ve_slope_changes = slopes, ve_last_slope_change = l,
     ve_ownership_proposal = None, ve_blacklist = Some [],
     ve_cw20 = \<lparr>cw_token_info = Some \<lparr>ti_name = ''Vote Escrowed ampLP'', ti_symbol = ''vAMP'', ti_decimals = 6,
       ti_total_supply = 0, ti_mint = Some (''escrow'', None)\<rparr>, cw_marketing_info = None, cw_logo = None\<rparr>,
     ve_contract_info = Some (ESCROW_CONTRACT_NAME, ''1.0.0'')\<rparr>"

definition escrow_started :: escrow_state where
  "escrow_started = sample_escrow [] [((''escrow'', 0), sample_point 0 0 0 0 0)] [] None"

definition escrow_alice :: escrow_state where
  "escrow_alice = sample_escrow [sample_lock ''alice'' 1040 11]
     [((''alice'', 1), sample_point 1 11 890 89 1040), ((''escrow'', 0), sample_point 0 0 0 0 0),
      ((''escrow'', 1), sample_point 1 0 890 89 1040)] [(11, 89)] (Some 1)"

definition escrow_both :: escrow_state where
  "escrow_both = sample_escrow [sample_lock ''alice'' 1040 11, sample_lock ''bob'' 2080 51]
     [((''alice'', 1), sample_point 1 11 890 89 1040), ((''bob'', 1), sample_point 1 51 8950 179 2080),
      ((''escrow'', 0), sample_point 0 0 0 0 0), ((''escrow'', 1), sample_point 1 0 9840 268 3120)]
     [(11, 89), (51, 179)] (Some 1)"

definition gives :: "escrow_result \<Rightarrow> escrow_state \<Rightarrow> bool" where
  "gives r st = (case r of Ok (st', _) \<Rightarrow> st' = st | _ \<Rightarrow> False)"

lemma givesD: "gives r st \<Longrightarrow> \<exists>resp. r = Ok (st, resp)"
  by (cases r) (auto simp: gives_def)

lemma sample_period [simp]: "get_period (env_time (at_week w)) = Ok w" "env_contract (at_week w) = ''escrow''"
  by (simp_all add: get_period_Ok at_week_def)

lemma started_gives: "gives (escrow_instantiate ve_deps (at_week 0) ve_init empty_escrow) escrow_started"
  by code_simp

lemma alice_gives: "gives (escrow_execute ve_deps (at_week 1) escrow_started (by_sender ''token'')
    (locking ''alice'' 1040 (CreateLock (10 * WEEK)))) escrow_alice"
  by code_simp

lemma both_gives: "gives (escrow_execute ve_deps (at_week 1) escrow_alice (by_sender ''token'')
    (locking ''bob'' 2080 (CreateLock (50 * WEEK)))) escrow_both"
  by code_simp

lemma sample_step:
  assumes "escrow_reachable ''escrow'' T st" and "gives (escrow_execute ve_deps (at_week w) st (by_sender a) msg) st'"
    and "from_outside ve_deps (at_week w) (by_sender a) msg" and "T \<le> w"
  shows "escrow_reachable ''escrow'' w st'"
  using escrow_message [of "at_week w" T st ve_deps "by_sender a" msg st'] assms givesD by fastforce

lemma locking_outside:
  "from_outside ve_deps (at_week w) (by_sender ''token'') (locking a x (CreateLock t)) \<longleftrightarrow> a \<noteq> ''escrow'' \<and> x \<le> U128_MAX"
  by (auto simp: from_outside_def by_sender_def locking_def ve_deps_def at_week_def)

lemma escrow_started_reachable: "escrow_reachable ''escrow'' 0 escrow_started"
  using givesD [OF started_gives] escrow_start [of ve_deps "at_week 0" ve_init escrow_started _ 0] by auto

lemma escrow_alice_reachable: "escrow_reachable ''escrow'' 1 escrow_alice"
  by (rule sample_step [OF escrow_started_reachable alice_gives]) (simp_all add: locking_outside U128_MAX_def)

lemma escrow_both_reachable: "escrow_reachable ''escrow'' 1 escrow_both"
  by (rule sample_step [OF escrow_alice_reachable both_gives]) (simp_all add: locking_outside U128_MAX_def)

lemma sample_valid [simp]: "ed_addr_validate ve_deps a = Ok a"
  by (simp add: ve_deps_def)

lemma sample_views [simp]:
  "ve_blacklist (sample_escrow l h s e) = Some []" "ve_locked (sample_escrow l h s e) = l"
  "ve_history (sample_escrow l h s e) = h"
  by (simp_all add: sample_escrow_def)

lemma sample_owned: "locked_amount escrow_both ''alice'' = 1040" "ve_blacklist escrow_both = Some []"
  "locked_amount escrow_alice ''alice'' = 1040" "ve_blacklist escrow_alice = Some []"
  by (simp_all add: locked_amount_def escrow_both_def escrow_alice_def sample_lock_def get_def)

text \<open>In week 20 alice's lock has expired: she withdraws, or extends it by ten weeks.\<close>

definition escrow_left :: escrow_state where
  "escrow_left = sample_escrow [(''alice'', \<lparr>lk_amount = 0, lk_start = 1, lk_end = 11, lk_last_extend_lock_period = 1\<rparr>)]
     [((''alice'', 1), sample_point 1 11 890 89 1040), ((''alice'', 20), sample_point 20 20 0 0 0),
      ((''escrow'', 0), sample_point 0 0 0 0 0), ((''escrow'', 1), sample_point 1 0 890 89 1040),
      ((''escrow'', 11), sample_point 11 0 0 0 1040), ((''escrow'', 20), sample_point 20 0 0 0 0)] [(11, 89)] (Some 20)"

definition escrow_extended :: escrow_state where
  "escrow_extended = sample_escrow
     [(''alice'', \<lparr>lk_amount = 1040, lk_start = 1, lk_end = 30, lk_last_extend_lock_period = 20\<rparr>), sample_lock ''bob'' 2080 51]
     [((''alice'', 1), sample_point 1 11 890 89 1040), ((''alice'', 20), sample_point 20 30 890 89 1040),
      ((''bob'', 1), sample_point 1 51 8950 179 2080), ((''escrow'', 0), sample_point 0 0 0 0 0),
      ((''escrow'', 1), sample_point 1 0 9840 268 3120), ((''escrow'', 20), sample_point 20 0 5638 268 3120)]
     [(30, 89), (51, 179)] (Some 20)"

lemma alice_leaves: "gives (escrow_execute ve_deps (at_week 20) escrow_alice (by_sender ''alice'') Withdraw) escrow_left"
  by code_simp

lemma alice_extends:
  "gives (escrow_execute ve_deps (at_week 20) escrow_both (by_sender ''alice'') (ExtendLockTime (10 * WEEK))) escrow_extended"
  by code_simp

lemma own_message_outside:
  "a \<noteq> ''escrow'' \<Longrightarrow> from_outside ve_deps (at_week w) (by_sender a) Withdraw"
  "a \<noteq> ''escrow'' \<Longrightarrow> from_outside ve_deps (at_week w) (by_sender a) (ExtendLockTime t)"
  by (simp_all add: from_outside_def by_sender_def)

text \<open>In week 2 the guardian puts alice on the blacklist.\<close>

definition escrow_barred :: escrow_state where
  "escrow_barred = (sample_escrow [sample_lock ''alice'' 1040 11, sample_lock ''bob'' 2080 51]
     [((''alice'', 1), sample_point 1 11 890 89 1040), ((''alice'', 2), sample_point 2 2 0 0 0),
      ((''bob'', 1), sample_point 1 51 8950 179 2080), ((''escrow'', 0), sample_point 0 0 0 0 0),
      ((''escrow'', 1), sample_point 1 0 9840 268 3120), ((''escrow'', 2), sample_point 2 0 8771 179 2080)]
     [(51, 179)] (Some 2))\<lparr>ve_blacklist := Some [''alice'']\<rparr>"

lemma guardian_bars: "gives (escrow_execute ve_deps (at_week 2) escrow_both (by_sender ''guardian'')
    (UpdateBlacklist (Some [''alice'']) None)) escrow_barred"
  by code_simp

lemma barring_outside:
  "from_outside ve_deps (at_week w) (by_sender ''guardian'') (UpdateBlacklist (Some [a]) None) \<longleftrightarrow> a \<noteq> ''escrow''"
  by (simp add: from_outside_def by_sender_def)

lemma escrow_barred_reachable: "escrow_reachable ''escrow'' 2 escrow_barred"
  by (rule sample_step [OF escrow_both_reachable guardian_bars]) (simp_all add: barring_outside)

end
