(* ===== verification/EscrowProps.thy ===== *)
theory EscrowProps
  imports EscrowBooks EscrowPast EscrowSample
begin

text \<open>
  The properties of the voting escrow: what the voting power of a lock is, what the escrow owes and pays, who may change
  what, and that an expired lock can always be withdrawn.
\<close>

section \<open>Locks and deposits\<close>

text \<open>
  C2: In every state the escrow can reach, the voting power of a user at the current or a later period is defined, is
  at least the locked amount, and exceeds it by at most 9.09 times the amount (the coefficient of 105 weeks); a user without a
  lock or on the blacklist has no voting power.
\<close>

theorem voting_power_within_bounds:
  assumes "escrow_reachable c T st" and "T \<le> q" and "ed_addr_validate deps user = Ok a" and "a \<noteq> c"
    and "ve_blacklist st = Some bl" and "A = (if a \<in> set bl then 0 else locked_amount st a)" and "11 * A \<le> U128_MAX"
  shows "\<exists>v. get_user_vamp_at_period deps st user q = Ok v \<and> A \<le> v \<and> (v - A) * 1040 \<le> 9450 * A"
  using user_vamp_bounds [OF reachable_core [OF assms(1,5)] assms(2-4)] assms(7) by (simp add: counted_def assms(6))

theorem voting_power_within_bounds_witness:
  "\<exists>v. get_user_vamp_at_period ve_deps escrow_both ''alice'' 5 = Ok v \<and> 1040 \<le> v \<and> (v - 1040) * 1040 \<le> 9450 * 1040"
  using voting_power_within_bounds [OF escrow_both_reachable, of 5 ve_deps "''alice''" "''alice''" "[]" 1040]
  by (simp add: sample_owned U128_MAX_def)

text \<open>
  C6: The escrow owes what it received and did not pay back: with every message the sum of the locked amounts grows by the
  deposit received and falls by the transfers in the response, and only the deposit token can deposit.
\<close>

theorem escrow_owes_what_it_received:
  assumes "escrow_reachable (env_contract env) T st" and "from_outside deps env info msg"
    and "escrow_execute deps env st info msg = Ok (st', resp)"
    and "get_period (env_time env) = Ok cur" and "T \<le> cur"
  shows "locked_total st' + (if administrative msg then 0 else paid_out resp) = locked_total st + received msg
    \<and> (received msg \<noteq> 0 \<longrightarrow> map_option ec_deposit_token_addr (ve_config st) = Some (info_sender info))"
proof -
  have inv: "escrow_inv (env_contract env) cur st"
    by (rule escrow_inv_later [OF escrow_reachable_inv [OF assms(1)] assms(5)])
  have "map_option ec_deposit_token_addr (ve_config st) = Some (info_sender info)" if "received msg \<noteq> 0"
  proof -
    obtain m where "msg = ReceiveToken m" using \<open>received msg \<noteq> 0\<close> by (cases msg) simp_all
    with assms(3) show ?thesis by (auto simp: receive_cw20_def and_then_Ok guards_Ok)
  qed
  then show ?thesis using escrow_message_balance [OF assms(3) inv assms(4,2)] by blast
qed

theorem escrow_owes_what_it_received_witness:
  "\<exists>resp. escrow_execute ve_deps (at_week 20) escrow_alice (by_sender ''alice'') Withdraw = Ok (escrow_left, resp)
    \<and> locked_total escrow_left + paid_out resp = locked_total escrow_alice"
proof -
  obtain resp where x: "escrow_execute ve_deps (at_week 20) escrow_alice (by_sender ''alice'') Withdraw = Ok (escrow_left, resp)"
    using givesD [OF alice_leaves] ..
  then show ?thesis
    using escrow_owes_what_it_received [OF _ own_message_outside(1) x sample_period(1), of 1]
    by (simp add: escrow_alice_reachable del: One_nat_def)
qed

text \<open>
  A withdrawal is possible only when the lock of the sender has expired; it pays exactly the locked amount to the
  sender, notifies the configured contracts, empties this lock and no other, and leaves the sender no voting power.
\<close>

theorem withdraw_pays_expired_lock:
  assumes "escrow_reachable (env_contract env) T st" and "info_sender info = a" and "a \<noteq> env_contract env"
    and "escrow_execute deps env st info Withdraw = Ok (st', resp)"
    and "get_period (env_time env) = Ok cur" and "T \<le> cur"
  shows "\<exists>lk cfg pushes. get (ve_locked st) a = Some lk \<and> lk_amount lk \<noteq> 0 \<and> lk_end lk \<le> cur \<and> ve_config st = Some cfg
    \<and> ve_locked st' = put a (lk\<lparr>lk_amount := 0\<rparr>) (ve_locked st)
    \<and> get_push_update_msgs cfg a (get_user_lock_info deps env st' a) = Ok pushes
    \<and> resp_msgs resp = PlainMsg (WasmExecute (ec_deposit_token_addr cfg) (ToToken (Cw20Transfer a (lk_amount lk))) [])
        # map PlainMsg pushes
    \<and> (\<forall>q \<ge> cur. ed_addr_validate deps a = Ok a \<longrightarrow> get_user_vamp_at_period deps st' a q = Ok 0)"
proof -
  obtain bl where core: "core_inv (set bl) (env_contract env) cur st"
    using core_inv_later [OF reachable_core [OF assms(1)] assms(6)] reachable_blacklist [OF assms(1)] by blast
  have w: "withdraw_lock deps env st a = Ok (st', resp)" using assms(2,4) by simp
  note s = withdraw_lock_step [OF w core assms(5,3)]
  from s(3) obtain lk where l': "ve_locked st' = put a (lk\<lparr>lk_amount := 0\<rparr>) (ve_locked st)" by blast
  have "counted (set bl) st' a = 0" by (simp add: counted_def locked_amount_def l' store_simps)
  then have "get_user_vamp_at_period deps st' a q = Ok 0" if "cur \<le> q" "ed_addr_validate deps a = Ok a" for q
    using unlocked_vamp [OF s(1) that assms(3)] by simp
  with s(3) show ?thesis by auto
qed

theorem withdraw_pays_expired_lock_witness:
  "\<exists>resp pushes. escrow_execute ve_deps (at_week 20) escrow_alice (by_sender ''alice'') Withdraw = Ok (escrow_left, resp)
    \<and> resp_msgs resp = PlainMsg (WasmExecute ''token'' (ToToken (Cw20Transfer ''alice'' 1040)) []) # map PlainMsg pushes"
proof -
  obtain resp where x: "escrow_execute ve_deps (at_week 20) escrow_alice (by_sender ''alice'') Withdraw = Ok (escrow_left, resp)"
    using givesD [OF alice_leaves] ..
  have "get (ve_locked escrow_alice) ''alice'' = Some (snd (sample_lock ''alice'' 1040 11))"
    "ve_config escrow_alice = ve_config (sample_escrow [] [] [] None)"
    by (simp_all add: escrow_alice_def sample_escrow_def sample_lock_def get_def)
  with x withdraw_pays_expired_lock [OF _ _ _ x sample_period(1), of 1 "''alice''"] show ?thesis
    by (auto simp: escrow_alice_reachable by_sender_def sample_lock_def sample_escrow_def simp del: One_nat_def)
qed

text \<open>
  C28: The escrow never refuses to pay an expired lock back: in every state it can reach, the withdrawal of the owner of an expired lock is
  accepted, no checkpoint of the total fails or panics, the lock is emptied and no other is touched, and the messages are the transfer of exactly
  the locked amount of the deposit token to the owner and, for each contract the escrow notifies, the news that the owner has no voting power
  left. (This is the escrow's part: the transaction also needs those messages to be carried out, and a notified contract that fails,
  as a proposal gauge does on a total power of zero, reverts it.)
\<close>

theorem expired_lock_can_be_withdrawn:
  assumes "escrow_reachable (env_contract env) T st" and "get_period (env_time env) = Ok cur" and "T \<le> cur"
    and "get (ve_locked st) a = Some lk" and "lk_amount lk \<noteq> 0" and "lk_end lk \<le> cur"
    and "ed_addr_validate deps a = Ok a" and "info_sender info = a"
  shows "\<exists>st' resp cfg li. escrow_execute deps env st info Withdraw = Ok (st', resp) \<and> ve_config st = Some cfg \<and>
    ve_locked st' = put a (lk\<lparr>lk_amount := 0\<rparr>) (ve_locked st) \<and>
    get_user_lock_info deps env st' a = Ok li \<and> li_amount li = 0 \<and> li_voting_power li = 0 \<and> li_fixed_amount li = 0 \<and>
    resp_msgs resp = PlainMsg (WasmExecute (ec_deposit_token_addr cfg) (ToToken (Cw20Transfer a (lk_amount lk))) []) #
      map (\<lambda>c. PlainMsg (WasmExecute c (UpdateVote a li) [])) (ec_push_update_contracts cfg)"
proof -
  have inv: "escrow_inv (env_contract env) cur st" by (rule escrow_inv_later [OF escrow_reachable_inv [OF assms(1)] assms(3)])
  then obtain cfg where cfg: "ve_config st = Some cfg" by (auto simp: escrow_inv_def)
  from withdraw_defined [OF inv assms(2,4-7) cfg] cfg assms(8) show ?thesis by auto
qed

theorem expired_lock_can_be_withdrawn_witness:
  "\<exists>st' resp. escrow_execute ve_deps (at_week 11) escrow_both (by_sender ''alice'') Withdraw = Ok (st', resp) \<and>
    PlainMsg (WasmExecute ''token'' (ToToken (Cw20Transfer ''alice'' 1040)) []) \<in> set (resp_msgs resp)"
proof -
  have "\<exists>st' resp cfg li. escrow_execute ve_deps (at_week 11) escrow_both (by_sender ''alice'') Withdraw = Ok (st', resp) \<and> ve_config escrow_both = Some cfg \<and>
    ve_locked st' = put ''alice'' ((snd (sample_lock ''alice'' 1040 11))\<lparr>lk_amount := 0\<rparr>) (ve_locked escrow_both) \<and>
    get_user_lock_info ve_deps (at_week 11) st' ''alice'' = Ok li \<and> li_amount li = 0 \<and> li_voting_power li = 0 \<and> li_fixed_amount li = 0 \<and>
    resp_msgs resp = PlainMsg (WasmExecute (ec_deposit_token_addr cfg) (ToToken (Cw20Transfer ''alice'' (lk_amount (snd (sample_lock ''alice'' 1040 11))))) []) #
      map (\<lambda>c. PlainMsg (WasmExecute c (UpdateVote ''alice'' li) [])) (ec_push_update_contracts cfg)"
    by (rule expired_lock_can_be_withdrawn [of "at_week 11" 1 escrow_both 11 "''alice''" "snd (sample_lock ''alice'' 1040 11)"])
       (use escrow_both_reachable in \<open>auto simp: escrow_both_def sample_lock_def get_def by_sender_def\<close>)
  moreover have "ve_config escrow_both = Some cfg \<Longrightarrow> ec_deposit_token_addr cfg = ''token''" for cfg
    by (auto simp: escrow_both_def sample_escrow_def)
  moreover have "lk_amount (snd (sample_lock ''alice'' 1040 11)) = 1040" by (simp add: sample_lock_def)
  ultimately show ?thesis by (metis list.set_intros(1))
qed

text \<open>
  C39: No message rewrites the past: a user's voting power at a period before the message's own is the same
  after it as before.
\<close>

theorem past_voting_power_fixed:
  assumes "escrow_reachable (env_contract env) T st" and "from_outside deps env info msg"
    and "escrow_execute deps env st info msg = Ok (st', resp)"
    and "get_period (env_time env) = Ok cur" and "T \<le> cur" and "q < cur"
    and "ed_addr_validate deps user = Ok a" and "a \<noteq> env_contract env"
  shows "get_user_vamp_at_period deps st' user q = get_user_vamp_at_period deps st user q"
proof -
  note wf = hist_okD(1) [OF reachable_history]
  have w: "writes (env_contract env) (now cur) st st'" by (rule escrow_execute_writes [OF assms(3,4)])
  have wf': "wf_store (ve_history st')" by (rule wf [OF escrow_message [OF assms(1,3,2,4,5)]])
  have "fetch_last_checkpoint st' a q = fetch_last_checkpoint st a q"
    using fetch_upto_cong [OF wf [OF assms(1)] wf'] w assms(6,8) by (simp add: writes_def)
  then show ?thesis by (simp add: get_user_vamp_at_period_def assms(7))
qed

theorem past_voting_power_fixed_witness:
  "\<exists>st' resp. escrow_execute ve_deps (at_week 20) escrow_alice (by_sender ''alice'') Withdraw = Ok (st', resp)
    \<and> get_user_vamp_at_period ve_deps st' ''alice'' 3 = get_user_vamp_at_period ve_deps escrow_alice ''alice'' 3"
proof -
  obtain st' resp where x: "escrow_execute ve_deps (at_week 20) escrow_alice (by_sender ''alice'') Withdraw = Ok (st', resp)"
    using alice_leaves givesD by blast
  have "get_user_vamp_at_period ve_deps st' ''alice'' 3 = get_user_vamp_at_period ve_deps escrow_alice ''alice'' 3"
    using past_voting_power_fixed [OF _ own_message_outside(1) x sample_period(1), of 1 3 "''alice''" "''alice''"]
    by (simp add: escrow_alice_reachable del: One_nat_def)
  with x show ?thesis by blast
qed

text \<open>
  The point a new lock gets, the votes it gives over time, and the properties of the escrow's roles, blacklist and queries.
\<close>

section \<open>The point of a new lock\<close>

lemma checkpoint_point:
  assumes "checkpoint env a add ne st = Ok st'" and per: "get_period (env_time env) = Ok cur"
    and a: "a \<noteq> env_contract env" and wf: "wf_store (ve_history st')"
  shows "\<exists>st1 p v s. next_user_point env a (unwrap_or add 0) ne cur st = Ok (st1, p, v, s)
    \<and> fetch_last_checkpoint st' a cur = Some (cur, p)"
proof -
  from assms(1) per obtain st1 p v s where n: "next_user_point env a (unwrap_or add 0) ne cur st = Ok (st1, p, v, s)"
    and r: "and_then (schedule_slope_change (pt_slope p) (pt_end p) st1) (\<lambda>st2.
      checkpoint_total env (Some v) (Some (unwrap_or add 0)) None None s (pt_slope p) (save_point a cur p st2)) = Ok st'"
    by (cases "next_user_point env a (unwrap_or add 0) ne cur st") (auto simp: checkpoint_def Let_def simp del: and_then_Ok)
  from r obtain st2 where
    t: "checkpoint_total env (Some v) (Some (unwrap_or add 0)) None None s (pt_slope p) (save_point a cur p st2) = Ok st'"
    unfolding and_then_Ok by blast
  have "get (ve_history st') (a, cur) = Some p"
    using checkpoint_total_writes [OF t] a by (simp add: writes_def store_simps)
  with n show ?thesis by (auto simp: fetch_Some [OF wf])
qed

text \<open>The coefficient of a lock of \<open>n\<close> weeks, applied to an amount and split over the weeks.\<close>

definition lock_slope :: "u64 \<Rightarrow> u128 \<Rightarrow> u128" where
  "lock_slope n amount = amount * (90 * n * DEC_ONE div 1040) div DEC_ONE div n"

lemma first_point:
  assumes n: "next_user_point env a amount (Some (cur + n)) cur st = Ok (st1, p, v, s)"
    and lk: "get (ve_locked st) a = Some lk" "lk_amount lk = amount" and pos: "0 < n"
    and empty: "\<And>k q. fetch_last_checkpoint st a cur = Some (k, q) \<Longrightarrow> pt_power q = 0 \<and> pt_fixed q = 0"
  shows "p = \<lparr>pt_power = lock_slope n amount * n, pt_start = cur, pt_end = cur + n, pt_slope = lock_slope n amount,
      pt_fixed = amount\<rparr>"
proof (cases "fetch_last_checkpoint st a cur")
  case None
  with n show ?thesis
    by (auto simp: next_user_point_def and_then_Ok map_err_Ok num_Ok calc_coefficient_Ok checked_mul_uint_Ok
        adjust_vp_and_slope_Ok lock_slope_def mult.commute [of DEC_ONE n])
next
  case (Some e)
  obtain k q where e: "e = (k, q)" by (cases e)
  have z: "pt_power q = 0" "pt_fixed q = 0" using empty Some e by blast+
  from n Some e obtain pw t sl v where pw: "point_voting_power q cur = (Ok pw :: (u128, escrow_error) result)"
    and new: "new_user_slope a amount cur (cur + n) q pw st = Ok (t, sl, v)"
    and p: "p = \<lparr>pt_power = pw + v, pt_start = cur, pt_end = cur + n, pt_slope = sl, pt_fixed = pt_fixed q + amount\<rparr>"
    by (auto simp: next_user_point_def and_then_Ok num_Ok Let_def case_prod_unfold)
  have "pw = 0" using point_voting_power_le [OF pw] z by simp
  then have "sl = lock_slope n amount \<and> v = lock_slope n amount * n"
    using new pos lk
    by (auto simp: new_user_slope_def Let_def and_then_Ok map_err_Ok load_item_Ok calc_coefficient_Ok checked_mul_uint_Ok
        num_Ok adjust_vp_and_slope_Ok lock_slope_def saturating_sub_def split: if_splits)
  then show ?thesis using p \<open>pw = 0\<close> z by simp
qed

lemma create_lock_point:
  assumes c: "create_lock deps env st a amount time = Ok (st', resp)"
    and inv: "core_inv B (env_contract env) cur st" and per: "get_period (env_time env) = Ok cur"
    and a: "a \<noteq> env_contract env" "a \<notin> B" and fit: "amount \<le> U128_MAX" and n: "n = get_periods_count time"
  shows "fetch_last_checkpoint st' a cur = Some (cur, \<lparr>pt_power = lock_slope n amount * n, pt_start = cur,
      pt_end = cur + n, pt_slope = lock_slope n amount, pt_fixed = amount\<rparr>)"
    and "lock_slope n amount * n * 1040 \<le> 9450 * amount"
proof -
  let ?lk = "\<lparr>lk_amount = amount, lk_start = cur, lk_end = cur + n, lk_last_extend_lock_period = cur\<rparr>"
  let ?st1 = "st\<lparr>ve_locked := put a ?lk (ve_locked st)\<rparr>"
  note s = create_lock_step [OF c inv per a fit]
  have ck: "checkpoint env a (Some amount) (Some (cur + n)) ?st1 = Ok st'"
    using c per n by (auto simp: create_lock_def and_then_Ok map_err_Ok num_Ok Let_def dest!: lock_response_Ok(1))
  obtain st1 p v sl where np: "next_user_point env a amount (Some (cur + n)) cur ?st1 = Ok (st1, p, v, sl)"
    and f: "fetch_last_checkpoint st' a cur = Some (cur, p)"
    using checkpoint_point [OF ck per a(1) hist_okD(1) [OF core_invD(1) [OF s(1)]]] by auto
  have z: "counted B st a = 0" using s(3) by (simp add: counted_def)
  have e: "pt_power q = 0 \<and> pt_fixed q = 0" if "fetch_last_checkpoint ?st1 a cur = Some (k, q)" for k q
    using that core_invD(6) [OF inv a(1)] z by (auto simp: fetch_last_checkpoint_def user_ok_def within_def)
  have pos: "0 < n" using s(5) n by (simp add: MIN_LOCK_PERIODS_def)
  have lk: "get (ve_locked ?st1) a = Some ?lk" "lk_amount ?lk = amount" by (simp_all add: store_simps)
  have p: "p = \<lparr>pt_power = lock_slope n amount * n, pt_start = cur, pt_end = cur + n, pt_slope = lock_slope n amount,
      pt_fixed = amount\<rparr>"
    by (rule first_point [OF np lk pos e])
  show "fetch_last_checkpoint st' a cur = Some (cur, \<lparr>pt_power = lock_slope n amount * n, pt_start = cur,
      pt_end = cur + n, pt_slope = lock_slope n amount, pt_fixed = amount\<rparr>)"
    using f p by simp
  have "locked_amount st' a = amount" using s(4) by (auto simp: locked_amount_def store_simps)
  then have "within amount p" using core_invD(6) [OF s(1) a(1)] f a(2) by (simp add: user_ok_def counted_def)
  then show "lock_slope n amount * n * 1040 \<le> 9450 * amount" unfolding within_def p by (simp only: point.select_convs)
qed

lemma vamp_of_point:
  assumes "hist_ok cur (ve_history st)" and "ed_addr_validate deps user = Ok a"
    and "fetch_last_checkpoint st a cur = Some (cur, \<lparr>pt_power = s * n, pt_start = cur, pt_end = cur + n, pt_slope = s, pt_fixed = x\<rparr>)"
    and "s * n + x \<le> U128_MAX"
  shows "get_user_vamp_at_period deps st user (cur + k) = Ok (x + s * (n - k))"
proof -
  have f: "fetch_last_checkpoint st a (cur + k) = fetch_last_checkpoint st a cur" by (rule fetch_later [OF assms(1)]) simp
  show ?thesis
  proof (cases "k < n")
    case True
    then have "s * k \<le> s * n" by simp
    then have "s * k \<le> U128_MAX" using assms(4) by linarith
    moreover have "s * n - s * k + x \<le> U128_MAX" using assms(4) by linarith
    ultimately show ?thesis
      using True f assms(2-4) by (simp add: get_user_vamp_at_period_def point_voting_power_def num_defs diff_mult_distrib2 add.commute [of x])
  next
    case False
    then show ?thesis
      using f assms(2-4) by (simp add: get_user_vamp_at_period_def num_defs)
  qed
qed

text \<open>
  A new lock of \<open>n\<close> weeks (between 3 and 104) gives exactly the locked amount plus a part that falls by the same slope
  each week and is zero at the end: \<open>amount + slope * (n - k)\<close> votes \<open>k\<close> weeks later, with the slope of the
  coefficient \<open>90 n / 1040\<close>.
\<close>

theorem new_lock_decays_linearly:
  assumes "escrow_reachable (env_contract env) T st" and "from_outside deps env info (ReceiveToken m)"
    and "escrow_execute deps env st info (ReceiveToken m) = Ok (st', resp)"
    and "get_period (env_time env) = Ok cur" and "T \<le> cur"
    and "cw20_payload m = Decoded (CreateLock time)" and "ed_addr_validate deps (cw20_sender m) = Ok a"
    and "ed_addr_validate deps user = Ok a" and "n = get_periods_count time" and "11 * cw20_amount m \<le> U128_MAX"
  shows "3 \<le> n \<and> n \<le> 104
    \<and> (\<forall>k. get_user_vamp_at_period deps st' user (cur + k) = Ok (cw20_amount m + lock_slope n (cw20_amount m) * (n - k)))"
proof -
  obtain bl where bl: "ve_blacklist st = Some bl" using reachable_blacklist [OF assms(1)] ..
  have core: "core_inv (set bl) (env_contract env) cur st"
    by (rule core_inv_later [OF reachable_core [OF assms(1) bl] assms(5)])
  have c: "create_lock deps env st a (cw20_amount m) time = Ok (st', resp)" and nb: "a \<notin> set bl"
    using assms(3,6,7) bl by (auto simp: receive_cw20_def and_then_Ok map_err_Ok guards_Ok)
  have na: "a \<noteq> env_contract env" and fit: "cw20_amount m \<le> U128_MAX"
    using assms(2,7) by (auto simp: from_outside_def)
  note s = create_lock_step [OF c core assms(4) na nb fit] and p = create_lock_point [OF c core assms(4) na nb fit assms(9)]
  have "lock_slope n (cw20_amount m) * n + cw20_amount m \<le> U128_MAX" using p(2) assms(10) by linarith
  then show ?thesis
    using vamp_of_point [OF core_invD(1) [OF s(1)] assms(8) p(1)] s(5,6) assms(9) by (simp add: MIN_LOCK_PERIODS_def)
qed

theorem new_lock_decays_linearly_witness:
  "\<forall>k. get_user_vamp_at_period ve_deps escrow_alice ''alice'' (1 + k) = Ok (1040 + lock_slope 10 1040 * (10 - k))"
proof -
  obtain resp where x: "escrow_execute ve_deps (at_week 1) escrow_started (by_sender ''token'')
      (locking ''alice'' 1040 (CreateLock (10 * WEEK))) = Ok (escrow_alice, resp)"
    using givesD [OF alice_gives] ..
  show ?thesis
    using new_lock_decays_linearly [OF _ _ x [unfolded locking_def] sample_period(1), of 0 "10 * WEEK" "''alice''" "''alice''" 10]
    by (simp add: escrow_started_reachable locking_outside [unfolded locking_def] get_periods_count_def WEEK_def U128_MAX_def)
qed

text \<open>
  Between checkpoints the voting power of a user never grows (as long as the product of slope and elapsed weeks fits
  128 bits), and once the lock has ended only the locked amount is left.
\<close>

theorem voting_power_never_grows:
  assumes "escrow_reachable c T st" and "ed_addr_validate deps user = Ok a" and "fetch_last_checkpoint st a T = Some (k, p)"
    and "T \<le> q" and "q \<le> q'" and "pt_slope p * (q' - k) \<le> U128_MAX"
    and "get_user_vamp_at_period deps st user q = Ok v" and "get_user_vamp_at_period deps st user q' = Ok v'"
  shows "v' \<le> v \<and> (pt_end p \<le> q' \<longrightarrow> k < q' \<longrightarrow> v' = pt_fixed p)"
proof -
  note h = reachable_history [OF assms(1)]
  have k: "pt_start p = k" "k \<le> T" using fetch_point [OF h assms(3)] by simp_all
  have f: "fetch_last_checkpoint st a t = Some (k, p)" if "T \<le> t" for t
    using fetch_later [OF h that] assms(3) by simp
  have val: "w = (if t = k then pt_power p else if pt_end p \<le> t then 0 else point_power p t) + pt_fixed p"
    if "T \<le> t" "get_user_vamp_at_period deps st user t = Ok w" for t w
    using that(2) f [OF that(1)] assms(2) k
    by (auto simp: get_user_vamp_at_period_def and_then_Ok num_Ok point_power_Ok split: if_splits)
  have anti: "point_power p q' \<le> point_power p q"
    using ve.power_antimono [of p q' q] assms(4-6) k by simp
  have first: "point_power p q \<le> pt_power p" "point_power p q' \<le> pt_power p"
    using ve.power_le_initial [of p q] ve.power_le_initial [of p q'] ve.ok_mono [of p q' q] assms(4-6) k by simp_all
  show ?thesis
    using val [OF assms(4,7)] val [OF order.trans [OF assms(4,5)] assms(8)] anti first assms(4,5) k(2) by auto
qed

theorem voting_power_never_grows_witness:
  "\<exists>v v'. get_user_vamp_at_period ve_deps escrow_alice ''alice'' 5 = Ok v
    \<and> get_user_vamp_at_period ve_deps escrow_alice ''alice'' 20 = Ok v' \<and> v' \<le> v \<and> v' = 1040"
proof -
  have f: "fetch_last_checkpoint escrow_alice ''alice'' 1 = Some (1, sample_point 1 11 890 89 1040)" by code_simp
  have v: "get_user_vamp_at_period ve_deps escrow_alice ''alice'' 5 = Ok 1574"
    "get_user_vamp_at_period ve_deps escrow_alice ''alice'' 20 = Ok 1040" by code_simp+
  show ?thesis
    using voting_power_never_grows [OF escrow_alice_reachable sample_valid f _ _ _ v] v
    by (simp add: sample_point_def U128_MAX_def)
qed

end
