(* ===== verification/EscrowRules.thy ===== *)
theory EscrowRules
  imports EscrowSample
begin

text \<open>
  Who may change what in the voting escrow, what its blacklist refuses, and what its queries answer.
\<close>

section \<open>Roles\<close>

text \<open>
  The token of the escrow never changes, the owner changes only by claiming a proposal, guardian and pushed contracts only by
  the owner, the accepted logo links only by the owner or the marketing account, and the blacklist only by the owner or the guardian.
\<close>

theorem escrow_roles:
  assumes "escrow_reachable (env_contract env) T st" and "from_outside deps env info msg"
    and "escrow_execute deps env st info msg = Ok (st', resp)"
    and "get_period (env_time env) = Ok cur" and "T \<le> cur" and "ve_config st = Some cfg"
  shows "\<exists>cfg'. ve_config st' = Some cfg' \<and> ec_deposit_token_addr cfg' = ec_deposit_token_addr cfg
    \<and> (ec_owner cfg' \<noteq> ec_owner cfg \<longrightarrow> msg = ClaimOwnership
        \<and> (\<exists>p r. ed_claim_ownership deps info env (ve_ownership_proposal st) = Ok (ec_owner cfg', p, r)))
    \<and> (ec_guardian_addr cfg' \<noteq> ec_guardian_addr cfg \<or> ec_push_update_contracts cfg' \<noteq> ec_push_update_contracts cfg
        \<longrightarrow> info_sender info = ec_owner cfg)
    \<and> (ec_logo_urls_whitelist cfg' \<noteq> ec_logo_urls_whitelist cfg \<longrightarrow> info_sender info = ec_owner cfg
        \<or> (\<exists>mi. cw_marketing_info (ve_cw20 st) = Some mi \<and> mi_marketing mi = Some (info_sender info)))
    \<and> (ve_blacklist st' \<noteq> ve_blacklist st \<longrightarrow>
        info_sender info = ec_owner cfg \<or> Some (info_sender info) = ec_guardian_addr cfg)"
    (is "\<exists>cfg'. ?P cfg'")
proof -
  have inv: "escrow_inv (env_contract env) cur st"
    by (rule escrow_inv_later [OF escrow_reachable_inv [OF assms(1)] assms(5)])
  obtain bl where bl: "ve_blacklist st = Some bl" and core: "core_inv (set bl) (env_contract env) cur st"
    using inv by (auto simp: escrow_inv_def)
  have ns: "info_sender info \<noteq> env_contract env" using assms(2) by (simp add: from_outside_def)
  have same: "?P cfg" if "same_admin st st'" using that assms(6) by (simp add: same_admin_def)
  show ?thesis
  proof (cases "administrative msg")
    case True
    have b: "ve_blacklist st' = ve_blacklist st" by (subst administrative_step(1) [OF assms(3) True]) simp
    show ?thesis
      using assms(3,6) True b
      by (cases msg; auto simp: and_then_Ok map_err_Ok load_item_Ok update_escrow_config_def set_logo_urls_whitelist_def
          split: if_splits option.splits)
  next
    case False
    then consider (extend) t where "msg = ExtendLockTime t" | (receive) m where "msg = ReceiveToken m"
      | (withdraw) "msg = Withdraw" | (blacklist) a r where "msg = UpdateBlacklist a r"
      by (cases msg) auto
    then show ?thesis
    proof cases
      case extend
      then have e: "extend_lock_time deps env st (info_sender info) t = Ok (st', resp)" using assms(3) by simp
      have nb: "info_sender info \<notin> set bl" using e bl by (auto simp: extend_lock_time_def and_then_Ok guards_Ok)
      from extend_lock_time_step(2) [OF e core assms(4) ns nb] same show ?thesis by blast
    next
      case receive
      have "same_admin st st'" by (rule receive_cw20_step(2) [OF _ inv assms(4)]) (use assms(2,3) receive in auto)
      with same show ?thesis by blast
    next
      case withdraw
      then have "withdraw_lock deps env st (info_sender info) = Ok (st', resp)" using assms(3) by simp
      from withdraw_lock_step(2) [OF this core assms(4) ns] same show ?thesis by blast
    next
      case blacklist
      then have u: "update_blacklist deps env st (info_sender info) a r = Ok (st', resp)" using assms(3) by simp
      have "\<And>s. s \<in> set (unwrap_or a [] @ unwrap_or r []) \<Longrightarrow> ed_addr_validate deps s \<noteq> Ok (env_contract env)"
        using assms(2) blacklist by (auto simp: from_outside_def)
      note s = update_blacklist_step [OF u inv assms(4) this]
      have "ve_config st' = ve_config st" using arg_cong [OF s(3), of ve_config] by simp
      then show ?thesis using s(4) assms(6) by simp
    qed
  qed
qed

theorem escrow_roles_witness:
  "\<exists>cfg. ve_config escrow_left = Some cfg \<and> ec_deposit_token_addr cfg = ''token''"
proof -
  obtain resp where x: "escrow_execute ve_deps (at_week 20) escrow_alice (by_sender ''alice'') Withdraw = Ok (escrow_left, resp)"
    using givesD [OF alice_leaves] ..
  obtain cfg where c: "ve_config escrow_alice = Some cfg" "ec_deposit_token_addr cfg = ''token''"
    by (simp add: escrow_alice_def sample_escrow_def)
  from escrow_roles [OF _ own_message_outside(1) x sample_period(1) _ c(1), of 1] c(2) show ?thesis
    by (auto simp: escrow_alice_reachable simp del: One_nat_def)
qed

section \<open>The blacklist\<close>

text \<open>
  A blacklisted account can neither extend its lock, nor lock or deposit tokens, nor receive a deposit of another: each of these
  messages is refused with the account's name.
\<close>

theorem blacklisted_accounts_are_refused:
  assumes "ve_blacklist st = Some bl" and "a \<in> set bl" and "ve_config st = Some cfg"
  shows "(info_sender info = a \<longrightarrow> escrow_execute deps env st info (ExtendLockTime t) = Err (AddressBlacklisted a))
    \<and> (info_sender info = ec_deposit_token_addr cfg \<longrightarrow> ed_addr_validate deps (cw20_sender m) = Ok a \<longrightarrow>
         escrow_execute deps env st info (ReceiveToken m) = Err (AddressBlacklisted a))
    \<and> (info_sender info = ec_deposit_token_addr cfg \<longrightarrow> ed_addr_validate deps (cw20_sender m) = Ok s \<longrightarrow> s \<notin> set bl \<longrightarrow>
         cw20_payload m = Decoded (DepositFor u) \<longrightarrow> ed_addr_validate deps u = Ok a \<longrightarrow>
         escrow_execute deps env st info (ReceiveToken m) = Err (AddressBlacklisted a))"
  using assms by (simp add: extend_lock_time_def receive_cw20_def assert_blacklist_def assert_token_def load_item_def)

theorem blacklisted_accounts_are_refused_witness:
  "escrow_execute ve_deps (at_week 2) (escrow_alice\<lparr>ve_blacklist := Some [''alice'']\<rparr>) (by_sender ''alice'')
     (ExtendLockTime WEEK) = Err (AddressBlacklisted ''alice'')"
  using blacklisted_accounts_are_refused [of "escrow_alice\<lparr>ve_blacklist := Some [''alice'']\<rparr>" "[''alice'']" "''alice''"
      "the (ve_config escrow_alice)" "by_sender ''alice''" ve_deps "at_week 2" WEEK]
  by (simp add: by_sender_def escrow_alice_def sample_escrow_def)

text \<open>
  Updating the blacklist changes it to exactly the former addresses without the removed ones, followed by the appended ones
  that were not on it, and it leaves every locked amount and everything but votes, schedule and blacklist as it was.
\<close>

theorem blacklist_is_updated_exactly:
  assumes "escrow_reachable (env_contract env) T st" and "from_outside deps env info (UpdateBlacklist app rem)"
    and "escrow_execute deps env st info (UpdateBlacklist app rem) = Ok (st', resp)"
    and "get_period (env_time env) = Ok cur" and "T \<le> cur" and "ve_blacklist st = Some bl"
    and "validate_addresses (ed_addr_validate deps) (unwrap_or app []) = Ok appended"
    and "validate_addresses (ed_addr_validate deps) (unwrap_or rem []) = Ok removed"
  shows "ve_blacklist st' = Some (filter (\<lambda>a. a \<notin> set removed) bl @ filter (\<lambda>a. a \<notin> set bl) appended)
    \<and> (\<forall>b. locked_amount st' b = locked_amount st b)
    \<and> st' = st\<lparr>ve_history := ve_history st', ve_locked := ve_locked st', ve_slope_changes := ve_slope_changes st',
         ve_last_slope_change := ve_last_slope_change st', ve_blacklist := ve_blacklist st'\<rparr>"
proof -
  have inv: "escrow_inv (env_contract env) cur st"
    by (rule escrow_inv_later [OF escrow_reachable_inv [OF assms(1)] assms(5)])
  have u: "update_blacklist deps env st (info_sender info) app rem = Ok (st', resp)" using assms(3) by simp
  have "\<And>s. s \<in> set (unwrap_or app [] @ unwrap_or rem []) \<Longrightarrow> ed_addr_validate deps s \<noteq> Ok (env_contract env)"
    using assms(2) by (auto simp: from_outside_def)
  note s = update_blacklist_step [OF u inv assms(4) this]
  have "filter (\<lambda>a. a \<notin> set (filter (\<lambda>a. a \<in> set bl) removed)) bl = filter (\<lambda>a. a \<notin> set removed) bl"
    by (rule filter_cong) auto
  with s(5) assms(6-8) have "ve_blacklist st' = Some (filter (\<lambda>a. a \<notin> set removed) bl @ filter (\<lambda>a. a \<notin> set bl) appended)"
    by simp
  with s(2,3) show ?thesis by blast
qed

theorem blacklist_is_updated_exactly_witness:
  "ve_blacklist escrow_barred = Some ([] @ [''alice'']) \<and> (\<forall>b. locked_amount escrow_barred b = locked_amount escrow_both b)"
proof -
  obtain resp where x: "escrow_execute ve_deps (at_week 2) escrow_both (by_sender ''guardian'')
      (UpdateBlacklist (Some [''alice'']) None) = Ok (escrow_barred, resp)"
    using givesD [OF guardian_bars] ..
  show ?thesis
    using blacklist_is_updated_exactly [OF _ _ x sample_period(1) _ sample_owned(2), of 1 "[''alice'']" "[]"]
    by (simp add: escrow_both_reachable barring_outside validate_addresses_def del: One_nat_def)
qed

section \<open>Queries\<close>

text \<open>
  The total voting power that the query replays is what a checkpoint in the same period stores: the checkpoint cannot fail,
  and the query gives the same answer before and after it.
\<close>

theorem total_query_agrees_with_checkpoint:
  assumes "escrow_reachable (env_contract env) T st" and "get_period (env_time env) = Ok cur" and "T \<le> cur"
    and "get_total_vamp_at_period env st cur = Ok v"
  shows "\<exists>st'. checkpoint_total env None None None None 0 0 st = Ok st' \<and> get_total_vamp_at_period env st' cur = Ok v"
proof -
  have h: "hist_ok cur (ve_history st)" by (rule hist_ok_mono [OF reachable_history [OF assms(1)] assms(3)])
  have sy: "synced (env_contract env) cur st"
    by (rule synced_later [OF reachable_synced [OF assms(1)] reachable_history [OF assms(1)] assms(3)])
  obtain st' where t: "checkpoint_total env None None None None 0 0 st = Ok st'"
    using checkpoint_total_defined [OF assms(2) h sy] by blast
  then show ?thesis using total_query_is_checkpoint [OF t assms(2) h sy assms(4)] by blast
qed

theorem total_query_agrees_with_checkpoint_witness:
  "\<exists>st'. checkpoint_total (at_week 20) None None None None 0 0 escrow_both = Ok st'
    \<and> get_total_vamp_at_period (at_week 20) st' 20 = Ok 8669"
proof -
  have "get_total_vamp_at_period (at_week 20) escrow_both 20 = Ok 8669" by code_simp
  then show ?thesis
    using total_query_agrees_with_checkpoint [of "at_week 20" 1 escrow_both 20 8669]
    by (simp add: escrow_both_reachable del: One_nat_def)
qed


lemma check_voters_stop:
  "try_fold (\<lambda>acc voter. case acc of
       VotersNotBlacklisted v \<Rightarrow> Ok acc
     | VotersBlacklisted \<Rightarrow> and_then (g voter) (\<lambda>a. Ok (if a \<in> B then VotersBlacklisted else VotersNotBlacklisted voter)))
     (VotersNotBlacklisted v) vs = Ok (VotersNotBlacklisted v)"
  by (induction vs) auto

lemma check_voters_fold:
  assumes "list_all2 (\<lambda>v a. g v = Ok a) vs as"
  shows "try_fold (\<lambda>acc voter. case acc of
       VotersNotBlacklisted v \<Rightarrow> Ok acc
     | VotersBlacklisted \<Rightarrow> and_then (g voter) (\<lambda>a. Ok (if a \<in> B then VotersBlacklisted else VotersNotBlacklisted voter)))
     VotersBlacklisted vs = Ok (case find (\<lambda>(v, a). a \<notin> B) (zip vs as) of
       None \<Rightarrow> VotersBlacklisted | Some (v, a) \<Rightarrow> VotersNotBlacklisted v)"
  using assms by (induction rule: list_all2_induct) (auto simp: check_voters_stop)

lemma position_sorted:
  fixes xs :: "'a::linorder list"
  assumes "sorted_wrt (<) xs" and "a \<in> set xs"
  shows "\<exists>i. position (\<lambda>x. x = a) xs = Some i \<and> drop (i + 1) xs = filter (\<lambda>x. a < x) xs"
  using assms
proof (induction xs)
  case (Cons x xs)
  show ?case
  proof (cases "x = a")
    case True
    then have "filter (\<lambda>x. a < x) xs = xs" using Cons.prems(1) by (intro filter_True) auto
    with True show ?thesis by simp
  next
    case False
    then have "a \<in> set xs" "\<not> a < x" using Cons.prems by auto
    with Cons False show ?thesis by auto
  qed
qed simp

lemma position_absent: "a \<notin> set xs \<Longrightarrow> position (\<lambda>x. x = a) xs = None"
  by (induction xs) auto

text \<open>
  The question whether voters are blacklisted is answered with the first voter that is not; the pages of the blacklist are
  in ascending order without gaps: the page after an address holds the smallest blacklisted addresses above it, at most 30,
  and asking after an address that is not blacklisted is an error.
\<close>

theorem blacklist_queries_exact:
  assumes "escrow_reachable c T st" and "ve_blacklist st = Some bl"
    and "traverse (ed_addr_validate deps) voters = Ok as" and "ed_addr_validate deps s = Ok start" and "bl \<noteq> []"
    and "first = (\<lambda>xs. take (min (unwrap_or limit VE_DEFAULT_LIMIT) 30) xs)"
  shows "check_voters_are_blacklisted deps st voters = Ok (case find (\<lambda>(v, a). a \<notin> set bl) (zip voters as) of
         None \<Rightarrow> VotersBlacklisted | Some (v, a) \<Rightarrow> VotersNotBlacklisted v)
    \<and> get_blacklisted_voters deps st None limit = Ok (first (sort bl))
    \<and> get_blacklisted_voters deps st (Some s) limit =
        (if start \<in> set bl then Ok (first (filter (\<lambda>x. start < x) (sort bl))) else Err (AddressNotBlacklisted start))"
proof -
  have "distinct bl" using escrow_reachable_inv [OF assms(1)] assms(2) by (auto simp: escrow_inv_def)
  then have sorted: "sorted_wrt (<) (sort bl)" by (simp add: strict_sorted_iff)
  let ?n = "min (unwrap_or limit VE_DEFAULT_LIMIT) 30"
  have cut: "drop i (take (min (i + ?n) (length xs)) xs) = take ?n (drop i xs)" for i and xs :: "addr list"
    by (simp add: drop_take min_def)
  have "check_voters_are_blacklisted deps st voters = Ok (case find (\<lambda>(v, a). a \<notin> set bl) (zip voters as) of
         None \<Rightarrow> VotersBlacklisted | Some (v, a) \<Rightarrow> VotersNotBlacklisted v)"
  proof -
    have "list_all2 (\<lambda>v a. estd (ed_addr_validate deps v) = Ok a) voters as"
      using assms(3) by (simp add: traverse_Ok_list_all2 map_err_Ok)
    from check_voters_fold [OF this, of "set bl"] show ?thesis
      by (simp add: check_voters_are_blacklisted_def assms(2) load_item_def)
  qed
  moreover have "get_blacklisted_voters deps st None limit = Ok (first (sort bl))"
    using cut [of 0 "sort bl"] assms(2,5,6) by (simp add: get_blacklisted_voters_def load_item_def VE_MAX_LIMIT_def Let_def)
  moreover have "get_blacklisted_voters deps st (Some s) limit =
        (if start \<in> set bl then Ok (first (filter (\<lambda>x. start < x) (sort bl))) else Err (AddressNotBlacklisted start))"
  proof (cases "start \<in> set bl")
    case True
    then obtain i where i: "position (\<lambda>x. x = start) (sort bl) = Some i"
      "drop (i + 1) (sort bl) = filter (\<lambda>x. start < x) (sort bl)"
      using position_sorted [OF sorted, of start] by auto
    with True cut [of "i + 1" "sort bl"] assms(2,4-6) show ?thesis
      by (simp add: get_blacklisted_voters_def load_item_def VE_MAX_LIMIT_def Let_def)
  next
    case False
    then have "position (\<lambda>x. x = start) (sort bl) = None" by (simp add: position_absent)
    with False assms(2,4,5) show ?thesis
      by (simp add: get_blacklisted_voters_def load_item_def Let_def)
  qed
  ultimately show ?thesis by blast
qed

theorem blacklist_queries_exact_witness:
  "check_voters_are_blacklisted ve_deps escrow_barred [''alice'', ''bob''] = Ok (VotersNotBlacklisted ''bob'')
    \<and> get_blacklisted_voters ve_deps escrow_barred None None = Ok [''alice'']
    \<and> get_blacklisted_voters ve_deps escrow_barred (Some ''bob'') None = Err (AddressNotBlacklisted ''bob'')"
proof -
  have "traverse (ed_addr_validate ve_deps) [''alice'', ''bob''] = Ok [''alice'', ''bob'']" by simp
  from blacklist_queries_exact [OF escrow_barred_reachable _ this, of "[''alice'']" "''bob''" "''bob''" "take 10" None]
  show ?thesis by (simp add: escrow_barred_def VE_DEFAULT_LIMIT_def)
qed

text \<open>
  Where the total voting power departs from the sum of the users' powers: four short runs, evaluated. (The powers of the users are
  exact; only the total is affected.)
\<close>

definition totals :: "escrow_result \<Rightarrow> u64 \<Rightarrow> addr list \<Rightarrow> ((u128, std_error) result \<times> (u128, std_error) result list) option" where
  "totals r w us = (case r of
     Ok (st, _) \<Rightarrow> Some (get_total_vamp_at_period (at_week w) st w, map (\<lambda>u. get_user_vamp_at_period ve_deps st u w) us)
   | _ \<Rightarrow> None)"

lemma totals_Ok: "totals (Ok (st, r)) w us =
    Some (get_total_vamp_at_period (at_week w) st w, map (\<lambda>u. get_user_vamp_at_period ve_deps st u w) us)"
  by (simp add: totals_def)

text \<open>Before any of it the total is the sum: 1040 of alice, whose lock has expired, and 7629 of bob.\<close>

lemma total_is_the_sum_before:
  "get_total_vamp_at_period (at_week 20) escrow_both 20 = Ok 8669"
  "get_user_vamp_at_period ve_deps escrow_both ''alice'' 20 = Ok 1040"
  "get_user_vamp_at_period ve_deps escrow_both ''bob'' 20 = Ok 7629"
  by code_simp+

text \<open>
  Extending an expired lock: the slope change at its old end is cancelled although the total had not yet passed it, so
  the total goes on falling by the slope of the expired lock: 8758 instead of 1930 + 7629.
\<close>

lemma extending_an_expired_lock_undercounts:
  "totals (escrow_execute ve_deps (at_week 20) escrow_both (by_sender ''alice'') (ExtendLockTime (10 * WEEK))) 20 [''alice'', ''bob'']
    = Some (Ok 8758, [Ok 1930, Ok 7629])"
  by code_simp

text \<open>
  A withdrawal while on the blacklist: the total lost the amount when the user was blacklisted, and loses it again.
\<close>

lemma withdrawal_on_the_blacklist_subtracts_twice:
  "totals (escrow_execute ve_deps (at_week 20) escrow_barred (by_sender ''alice'') Withdraw) 20 [''alice'', ''bob'']
    = Some (Ok 6589, [Ok 0, Ok 7629])"
  by code_simp

text \<open>
  Blacklisting an expired lock: with no decaying power left, its fixed amount stays in the total.
\<close>

lemma blacklisting_an_expired_lock_keeps_its_amount:
  "totals (escrow_execute ve_deps (at_week 20) escrow_both (by_sender ''guardian'') (UpdateBlacklist (Some [''alice'']) None)) 20
     [''alice'', ''bob''] = Some (Ok 8669, [Ok 0, Ok 7629])"
  by code_simp

text \<open>
  Extending a young lock by few weeks: the new power is rounded below the current one, so power and slope no longer agree
  and a remainder of the power stays in the total after the end: 132 instead of 104.
\<close>

definition escrow_small :: escrow_state where
  "escrow_small = sample_escrow [sample_lock ''alice'' 104 53]
     [((''alice'', 1), sample_point 1 53 468 9 104), ((''escrow'', 0), sample_point 0 0 0 0 0),
      ((''escrow'', 1), sample_point 1 0 468 9 104)] [(53, 9)] (Some 1)"

lemma small_gives: "gives (escrow_execute ve_deps (at_week 1) escrow_started (by_sender ''token'')
    (locking ''alice'' 104 (CreateLock (52 * WEEK)))) escrow_small"
  by code_simp

lemma escrow_small_reachable: "escrow_reachable ''escrow'' 1 escrow_small"
  by (rule sample_step [OF escrow_started_reachable small_gives]) (simp_all add: locking_outside U128_MAX_def)

lemma short_extension_leaves_a_remainder:
  "totals (escrow_execute ve_deps (at_week 1) escrow_small (by_sender ''alice'') (ExtendLockTime (3 * WEEK))) 56 [''alice'']
    = Some (Ok 132, [Ok 104])"
  by code_simp

text \<open>
  The total voting power is not always the sum of the users' powers. Before each run it is. Extending an expired lock
  undercounts it, a withdrawal while on the blacklist takes the amount out twice, blacklisting an expired lock leaves its
  amount in, and a short extension of a young lock leaves a remainder after the end.
\<close>

theorem total_can_depart_from_the_sum:
  "totals (Ok (escrow_both, new_response)) 20 [''alice'', ''bob''] = Some (Ok (1040 + 7629), [Ok 1040, Ok 7629])
    \<and> totals (escrow_execute ve_deps (at_week 20) escrow_both (by_sender ''alice'') (ExtendLockTime (10 * WEEK))) 20 [''alice'', ''bob'']
        = Some (Ok 8758, [Ok 1930, Ok 7629])
    \<and> totals (escrow_execute ve_deps (at_week 20) escrow_barred (by_sender ''alice'') Withdraw) 20 [''alice'', ''bob'']
        = Some (Ok 6589, [Ok 0, Ok 7629])
    \<and> totals (escrow_execute ve_deps (at_week 20) escrow_both (by_sender ''guardian'') (UpdateBlacklist (Some [''alice'']) None)) 20
        [''alice'', ''bob''] = Some (Ok 8669, [Ok 0, Ok 7629])
    \<and> totals (escrow_execute ve_deps (at_week 1) escrow_small (by_sender ''alice'') (ExtendLockTime (3 * WEEK))) 56 [''alice'']
        = Some (Ok 132, [Ok 104])
    \<and> escrow_reachable ''escrow'' 1 escrow_both \<and> escrow_reachable ''escrow'' 2 escrow_barred
    \<and> escrow_reachable ''escrow'' 1 escrow_small"
  using total_is_the_sum_before extending_an_expired_lock_undercounts withdrawal_on_the_blacklist_subtracts_twice
    blacklisting_an_expired_lock_keeps_its_amount short_extension_leaves_a_remainder
    escrow_both_reachable escrow_barred_reachable escrow_small_reachable
  by (simp only: totals_Ok list.map) (simp add: numeral_plus_numeral)

end
