(* ===== verification/EscrowPushes.thy ===== *)
theory EscrowPushes
  imports EscrowBooks
begin

text \<open>
  What the escrow tells the contracts that follow the votes: a message that changes the counted amount of a user pushes the
  user's new lock to each of them, and every pushed lock is the lock of the user after the message.
\<close>

section \<open>The pushed lock\<close>

definition counted_by :: "escrow_state \<Rightarrow> addr \<Rightarrow> u128" where
  "counted_by st a = counted (set (unwrap_or (ve_blacklist st) [])) st a"

lemma counted_by_blacklist: "ve_blacklist st = Some bl \<Longrightarrow> counted_by st a = counted (set bl) st a"
  by (simp add: counted_by_def)

lemma lock_info_fixed:
  assumes inv: "escrow_inv c cur st" and per: "get_period (env_time env) = Ok cur"
    and li: "get_user_lock_info deps env st u = Ok li" and a: "ed_addr_validate deps u = Ok a"
  shows "li_fixed_amount li = counted_by st a"
proof -
  obtain bl where bl: "ve_blacklist st = Some bl" and core: "core_inv (set bl) c cur st"
    using inv by (auto simp: escrow_inv_def)
  from li a per obtain lk parts where lk: "get (ve_locked st) a = Some lk"
    and v: "voting_parts (map_option snd (fetch_last_checkpoint st a cur)) cur = (Ok parts :: (u128 \<times> u128 \<times> u128, escrow_error) result)"
    and f: "li_fixed_amount li = snd (snd parts)"
    by (auto simp: get_user_lock_info_def and_then_Ok map_err_Ok split: option.splits)
  have "user_ok (set bl) cur st a" by (rule core_invD(6) [OF core core_invD(4) [OF core lk]])
  with v f show ?thesis
    by (cases "fetch_last_checkpoint st a cur")
      (auto simp: voting_parts_def user_ok_def counted_by_blacklist [OF bl] and_then_Ok split: if_splits)
qed

section \<open>The pushes of a response\<close>

definition update_for :: "addr \<Rightarrow> addr \<Rightarrow> lock_info \<Rightarrow> escrow_payload sub_msg" where
  "update_for c a li = PlainMsg (WasmExecute c (UpdateVote a li) [])"

definition tells_truth :: "escrow_deps \<Rightarrow> env \<Rightarrow> escrow_state \<Rightarrow> escrow_payload sub_msg list \<Rightarrow> bool" where
  "tells_truth deps env st msgs \<longleftrightarrow>
     (\<forall>c a li funds. PlainMsg (WasmExecute c (UpdateVote a li) funds) \<in> set msgs \<longrightarrow> get_user_lock_info deps env st a = Ok li)"

definition tells_all :: "addr list \<Rightarrow> addr \<Rightarrow> escrow_payload sub_msg list \<Rightarrow> bool" where
  "tells_all followers a msgs \<longleftrightarrow> (\<forall>c \<in> set followers. \<exists>li. update_for c a li \<in> set msgs)"

lemma tells_truth_append [simp]: "tells_truth deps env st (xs @ ys) \<longleftrightarrow> tells_truth deps env st xs \<and> tells_truth deps env st ys"
  unfolding tells_truth_def set_append Un_iff by blast

lemma tells_all_append: "tells_all cs a xs \<or> tells_all cs a ys \<Longrightarrow> tells_all cs a (xs @ ys)"
  by (auto simp: tells_all_def)

lemma tells_all_Cons: "tells_all cs a ms \<Longrightarrow> tells_all cs a (m # ms)"
  by (force simp: tells_all_def)

lemma single_push:
  assumes "get_push_update_msgs cfg a (get_user_lock_info deps env st a) = Ok ms"
  shows "tells_truth deps env st (map PlainMsg ms)"
    and "get_user_lock_info deps env st a = Ok li \<Longrightarrow> tells_all (ec_push_update_contracts cfg) a (map PlainMsg ms)"
  using assms by (cases "get_user_lock_info deps env st a"; force simp: tells_truth_def tells_all_def update_for_def)+

lemma multi_push:
  assumes "get_push_update_msgs_multi deps env st cfg as = Ok ms"
  shows "tells_truth deps env st (map PlainMsg ms)"
    and "a \<in> set as \<Longrightarrow> get_user_lock_info deps env st a = Ok li \<Longrightarrow> tells_all (ec_push_update_contracts cfg) a (map PlainMsg ms)"
proof -
  obtain mss where mss: "list_all2 (\<lambda>a m. get_push_update_msgs cfg a (get_user_lock_info deps env st a) = Ok m) as mss"
    and ms: "ms = concat mss" using assms by (auto simp: get_push_update_msgs_multi_def and_then_Ok traverse_Ok_list_all2)
  from mss have "tells_truth deps env st (map PlainMsg (concat mss)) \<and>
    (a \<in> set as \<longrightarrow> get_user_lock_info deps env st a = Ok li \<longrightarrow> tells_all (ec_push_update_contracts cfg) a (map PlainMsg (concat mss)))"
  proof (induction as mss rule: list_all2_induct)
    case Nil
    then show ?case by (simp add: tells_truth_def)
  next
    case (Cons b bs m ms)
    then show ?case using single_push [OF Cons.hyps(1)] by (auto intro: tells_all_append)
  qed
  then show "tells_truth deps env st (map PlainMsg ms)"
    "a \<in> set as \<Longrightarrow> get_user_lock_info deps env st a = Ok li \<Longrightarrow> tells_all (ec_push_update_contracts cfg) a (map PlainMsg ms)"
    by (simp_all add: ms)
qed

section \<open>Every change is pushed\<close>

text \<open>Validation returns the address it was given, and a sender is an address.\<close>

definition proper_addresses :: "escrow_deps \<Rightarrow> message_info \<Rightarrow> bool" where
  "proper_addresses deps info \<longleftrightarrow> ed_addr_validate deps (info_sender info) = Ok (info_sender info)
     \<and> (\<forall>s a. ed_addr_validate deps s = Ok a \<longrightarrow> a = s)"

definition announces :: "escrow_deps \<Rightarrow> env \<Rightarrow> escrow_config \<Rightarrow> escrow_state \<Rightarrow> escrow_state \<Rightarrow> escrow_response \<Rightarrow> bool" where
  "announces deps env cfg st st' resp \<longleftrightarrow> tells_truth deps env st' (resp_msgs resp)
     \<and> (\<forall>a. counted_by st' a \<noteq> counted_by st a \<longrightarrow> tells_all (ec_push_update_contracts cfg) a (resp_msgs resp))"

lemma lock_response_announces:
  assumes r: "lock_response deps env st' a act = Ok (st', resp)" and adm: "same_admin st st'" "ve_config st = Some cfg"
    and lk: "ve_locked st' = put a lk (ve_locked st)"
  shows "announces deps env cfg st st' resp"
proof -
  from lock_response_Ok(2) [OF r] adm obtain li where li: "get_user_lock_info deps env st' a = Ok li"
    and m: "resp_msgs resp = map (\<lambda>c. update_for c a li) (ec_push_update_contracts cfg)"
    by (auto simp: same_admin_def update_for_def)
  have "counted_by st' b = counted_by st b" if "b \<noteq> a" for b
    using that lk adm(1) by (simp add: counted_by_def counted_def locked_amount_def store_simps same_admin_def)
  with li show ?thesis by (auto simp: announces_def tells_truth_def tells_all_def m update_for_def)
qed

lemma withdraw_announces:
  assumes w: "withdraw_lock deps env st a = Ok (st', resp)" and core: "core_inv B (env_contract env) cur st"
    and per: "get_period (env_time env) = Ok cur" and ne: "a \<noteq> env_contract env" and val: "ed_addr_validate deps a = Ok a"
    and cfg: "ve_config st = Some cfg"
  shows "announces deps env cfg st st' resp"
proof -
  note s = withdraw_lock_step [OF w core per ne]
  from s(3) cfg obtain lk ms where lk: "ve_locked st' = put a (lk\<lparr>lk_amount := 0\<rparr>) (ve_locked st)"
    and ms: "get_push_update_msgs cfg a (get_user_lock_info deps env st' a) = Ok ms"
    and m: "resp_msgs resp = PlainMsg (WasmExecute (ec_deposit_token_addr cfg) (ToToken (Cw20Transfer a (lk_amount lk))) [])
          # map PlainMsg ms"
    by auto
  have "get (ve_locked st') a = Some (lk\<lparr>lk_amount := 0\<rparr>)" by (simp add: lk store_simps)
  from lock_info_defined [OF s(1) per this val] obtain li where "get_user_lock_info deps env st' a = Ok li" ..
  note p = single_push(1) [OF ms] single_push(2) [OF ms this]
  have "counted_by st' b = counted_by st b" if "b \<noteq> a" for b
    using that lk s(2) by (simp add: counted_by_def counted_def locked_amount_def store_simps same_admin_def)
  then have "counted_by st' b \<noteq> counted_by st b \<Longrightarrow> b = a" for b by blast
  moreover have "tells_truth deps env st' (resp_msgs resp)" using p(1) by (simp add: m tells_truth_def)
  ultimately show ?thesis using tells_all_Cons [OF p(2)] by (auto simp: announces_def m)
qed

lemma update_blacklist_announces:
  assumes u: "update_blacklist deps env st sender app rem = Ok (st', resp)"
    and inv: "escrow_inv (env_contract env) cur st" and per: "get_period (env_time env) = Ok cur"
    and names: "\<And>s. s \<in> set (unwrap_or app [] @ unwrap_or rem []) \<Longrightarrow> ed_addr_validate deps s \<noteq> Ok (env_contract env)"
    and val: "\<And>s a. ed_addr_validate deps s = Ok a \<Longrightarrow> ed_addr_validate deps a = Ok a"
    and cfg: "ve_config st = Some cfg"
  shows "announces deps env cfg st st' resp"
proof -
  note s = update_blacklist_step [OF u inv per names]
  show ?thesis
  proof (rule update_blacklist_Ok [OF u per])
    fix cfg' bl appended removed st3 bl3 ms1 ms2
    assume c: "ve_config st = Some cfg'" and bl: "ve_blacklist st = Some bl"
      and va: "validate_addresses (ed_addr_validate deps) (unwrap_or app []) = Ok appended"
      and vr: "validate_addresses (ed_addr_validate deps) (unwrap_or rem []) = Ok removed"
      and p1: "get_push_update_msgs_multi deps env st' cfg' (filter (\<lambda>a. a \<notin> set bl) appended) = Ok ms1"
      and p2: "get_push_update_msgs_multi deps env st' cfg' (filter (\<lambda>a. a \<in> set bl) removed) = Ok ms2"
      and m: "resp_msgs resp = map PlainMsg ms1 @ map PlainMsg ms2"
    have [simp]: "cfg' = cfg" using c cfg by simp
    let ?app = "filter (\<lambda>a. a \<notin> set bl) appended" and ?rem = "filter (\<lambda>a. a \<in> set bl) removed"
    have bl': "ve_blacklist st' = Some (filter (\<lambda>a. a \<notin> set ?rem) bl @ ?app)"
      using s(5) bl va vr by auto
    have "tells_all (ec_push_update_contracts cfg) a (resp_msgs resp)" if ch: "counted_by st' a \<noteq> counted_by st a" for a
    proof -
      have set': "set (filter (\<lambda>a. a \<notin> set ?rem) bl @ ?app) = (set bl - set ?rem) \<union> set ?app" by auto
      have changed: "a \<in> set ?app \<or> a \<in> set ?rem"
        using ch s(2) [of a] unfolding counted_by_blacklist [OF bl] counted_by_blacklist [OF bl'] counted_def set'
        by (auto split: if_splits)
      have "locked_amount st a \<noteq> 0"
        using ch s(2) [of a] by (auto simp: counted_by_def counted_def split: if_splits)
      with s(2) [of a] obtain lk where lk: "get (ve_locked st') a = Some lk"
        by (auto simp: locked_amount_def split: option.splits)
      have "\<exists>s. ed_addr_validate deps s = Ok a"
        using changed va vr unfolding validate_addresses_def traverse_Ok_list_all2
        by (auto simp: list_all2_conv_all_nth in_set_conv_nth)
      then have "ed_addr_validate deps a = Ok a" using val by blast
      moreover obtain bl2 where "core_inv (set bl2) (env_contract env) cur st'"
        using s(1) by (auto simp: escrow_inv_def)
      ultimately obtain li where "get_user_lock_info deps env st' a = Ok li"
        using lock_info_defined [OF _ per lk] by blast
      with multi_push(2) [OF p1, of a li] multi_push(2) [OF p2, of a li] changed show ?thesis
        by (auto simp: m intro: tells_all_append)
    qed
    then show ?thesis using multi_push(1) [OF p1] multi_push(1) [OF p2] by (simp add: announces_def m)
  qed
qed

lemma escrow_execute_announces:
  assumes x: "escrow_execute deps env st info msg = Ok (st', resp)" and nadm: "\<not> administrative msg"
    and inv: "escrow_inv (env_contract env) cur st" and per: "get_period (env_time env) = Ok cur"
    and out: "from_outside deps env info msg" and val: "proper_addresses deps info" and cfg: "ve_config st = Some cfg"
  shows "announces deps env cfg st st' resp"
proof -
  obtain bl where bl: "ve_blacklist st = Some bl" and core: "core_inv (set bl) (env_contract env) cur st"
    using inv by (auto simp: escrow_inv_def)
  have ns: "info_sender info \<noteq> env_contract env" using out by (simp add: from_outside_def)
  from nadm consider (extend) t where "msg = ExtendLockTime t" | (receive) m where "msg = ReceiveToken m"
    | (withdraw) "msg = Withdraw" | (blacklist) a r where "msg = UpdateBlacklist a r"
    by (cases msg) auto
  then show ?thesis
  proof cases
    case extend
    then have e: "extend_lock_time deps env st (info_sender info) t = Ok (st', resp)" using x by simp
    have nb: "info_sender info \<notin> set bl" using e bl by (auto simp: extend_lock_time_def and_then_Ok guards_Ok)
    note s = extend_lock_time_step [OF e core per ns nb]
    have "\<exists>r. lock_response deps env st' (info_sender info) r = Ok (st', resp)"
      using e by (auto simp: extend_lock_time_def and_then_Ok Let_def dest: lock_response_Ok(1))
    with s(4) lock_response_announces [OF _ s(2) cfg] show ?thesis by blast
  next
    case receive
    then have r: "receive_cw20 deps env st info m = Ok (st', resp)" using x by simp
    have "from_outside deps env info (ReceiveToken m)" using out receive by simp
    note s = receive_cw20_step [OF r inv per this]
    from s(3) lock_response_announces [OF _ s(2) cfg] show ?thesis by blast
  next
    case withdraw
    then have w: "withdraw_lock deps env st (info_sender info) = Ok (st', resp)" using x by simp
    show ?thesis using withdraw_announces [OF w core per ns _ cfg] val by (simp add: proper_addresses_def)
  next
    case blacklist
    then have u: "update_blacklist deps env st (info_sender info) a r = Ok (st', resp)" using x by simp
    have "\<And>s. s \<in> set (unwrap_or a [] @ unwrap_or r []) \<Longrightarrow> ed_addr_validate deps s \<noteq> Ok (env_contract env)"
      using out blacklist by (auto simp: from_outside_def)
    moreover have "ed_addr_validate deps s = Ok b \<Longrightarrow> ed_addr_validate deps b = Ok b" for s b
      using val by (auto simp: proper_addresses_def)
    ultimately show ?thesis using update_blacklist_announces [OF u inv per _ _ cfg] by blast
  qed
qed

end
