(* ===== verification/GaugeBooks.thy ===== *)
theory GaugeBooks
  imports EscrowState HubState
begin

text \<open>
  Storage that survives an error. A handler that fails reverts its storage; but where the code catches an error (the gauges do,
  when a user is removed), what was written before the error stays. An action returns its outcome and the state reached.
\<close>

type_synonym ('s, 'a, 'e) action = "'s \<Rightarrow> ('a, 'e) result \<times> 's"

fun act_then :: "('a, 'e) result \<times> 's \<Rightarrow> ('a \<Rightarrow> ('s, 'b, 'e) action) \<Rightarrow> ('b, 'e) result \<times> 's" where
  "act_then (Ok x, s) k = k x s"
| "act_then (Err e, s) k = (Err e, s)"
| "act_then (Panic, s) k = (Panic, s)"

text \<open>A step that writes only when it succeeds, and one that reads only.\<close>

fun act_atomic :: "('a \<times> 's, 'e) result \<Rightarrow> 's \<Rightarrow> ('a, 'e) result \<times> 's" where
  "act_atomic (Ok (x, s')) s = (Ok x, s')"
| "act_atomic (Err e) s = (Err e, s)"
| "act_atomic Panic s = (Panic, s)"

definition act_read :: "('a, 'e) result \<Rightarrow> ('s, 'a, 'e) action" where
  "act_read r s = (r, s)"

fun act_each :: "('a \<Rightarrow> ('s, unit, 'e) action) \<Rightarrow> 'a list \<Rightarrow> ('s, unit, 'e) action" where
  "act_each f [] s = (Ok (), s)"
| "act_each f (x # xs) s = act_then (f x s) (\<lambda>_ s'. act_each f xs s')"

text \<open>The result of an action whose error is handed on: the storage counts only on success.\<close>

fun committed :: "('a, 'e) result \<times> 's \<Rightarrow> ('a \<times> 's, 'e) result" where
  "committed (Ok x, s) = Ok (x, s)"
| "committed (Err e, s) = Err e"
| "committed (Panic, s) = Panic"

lemma act_then_Ok: "act_then m k = (Ok y, s') \<longleftrightarrow> (\<exists>x s. m = (Ok x, s) \<and> k x s = (Ok y, s'))"
  by (cases "(m, k)" rule: act_then.cases) auto

lemma act_read_Ok: "act_read r s = (Ok x, s') \<longleftrightarrow> r = Ok x \<and> s' = s"
  by (auto simp: act_read_def)

lemma act_atomic_Ok: "act_atomic r s = (Ok x, s') \<longleftrightarrow> r = Ok (x, s')"
  by (cases "(r, s)" rule: act_atomic.cases) auto

lemma committed_Ok: "committed m = Ok (x, s) \<longleftrightarrow> m = (Ok x, s)"
  by (cases m rule: committed.cases) auto

lemmas act_simps = act_then_Ok act_read_Ok act_atomic_Ok committed_Ok

text \<open>What every step preserves, the loop preserves, whether it succeeds or not.\<close>

lemma act_each_preserves:
  assumes "P s" and "\<And>x s. x \<in> set xs \<Longrightarrow> P s \<Longrightarrow> P (snd (f x s))"
  shows "P (snd (act_each f xs s))"
  using assms
proof (induction xs arbitrary: s)
  case Nil
  then show ?case by simp
next
  case (Cons x xs)
  obtain r t where x: "f x s = (r, t)" by (cases "f x s")
  have "P t" using Cons.prems(2) [of x s] Cons.prems(1) x by simp
  with Cons x show ?case by (cases r) auto
qed

text \<open>
  The books of a gauge (\<open>contracts/amp-governance/amp_gauges/src/utils.rs\<close>): for each validator the decaying voting power
  at the periods in which it changed, the slope changes scheduled for later periods, and the fixed amount by period.
\<close>

section \<open>State\<close>

record voted_info =
  vi_power :: u128
  vi_slope :: u128

definition default_info :: voted_info where
  "default_info = \<lparr>vi_power = 0, vi_slope = 0\<rparr>"

record gauge_books =
  gb_votes :: "(u64 \<times> string, voted_info) store"
  gb_validators :: "(string, unit) store"
  gb_periods :: "(string \<times> u64, unit) store"
  gb_slopes :: "(string \<times> u64, u128) store"
  gb_fixed :: "(string \<times> u64, u128) store"

definition empty_books :: gauge_books where
  "empty_books = \<lparr>gb_votes = [], gb_validators = [], gb_periods = [], gb_slopes = [], gb_fixed = []\<rparr>"

section \<open>Operations with voting power and slope\<close>

datatype vote_operation = OpAdd | OpSub

fun op_calc_slope :: "vote_operation \<Rightarrow> u128 \<Rightarrow> u128 \<Rightarrow> basic_points \<Rightarrow> (u128, 'e) result" where
  "op_calc_slope OpAdd cur_slope slope bps = and_then (bps_mul_uint bps slope) (\<lambda>x. u128_add cur_slope x)"
| "op_calc_slope OpSub cur_slope slope bps = and_then (bps_mul_uint bps slope) (\<lambda>x. Ok (saturating_sub cur_slope x))"

fun op_calc_voting_power :: "vote_operation \<Rightarrow> u128 \<Rightarrow> u128 \<Rightarrow> basic_points \<Rightarrow> (u128, 'e) result" where
  "op_calc_voting_power OpAdd cur_vp vp bps = and_then (bps_mul_uint bps vp) (\<lambda>x. u128_add cur_vp x)"
| "op_calc_voting_power OpSub cur_vp vp bps = and_then (bps_mul_uint bps vp) (\<lambda>x. Ok (saturating_sub cur_vp x))"

section \<open>Lookups\<close>

text \<open>The last period strictly before the given one in which a validator was recorded.\<close>

definition fetch_last_validator_period :: "gauge_books \<Rightarrow> u64 \<Rightarrow> string \<Rightarrow> u64 option" where
  "fetch_last_validator_period gb period v =
     (case filter (\<lambda>e. fst e < period) (prefix_of (gb_periods gb) v) of
        [] \<Rightarrow> None
      | e # es \<Rightarrow> Some (fst (last (e # es))))"

definition fetch_last_validator_fixed :: "gauge_books \<Rightarrow> u64 \<Rightarrow> string \<Rightarrow> u128 option" where
  "fetch_last_validator_fixed gb period v = map_option snd (newest_upto period (prefix_of (gb_fixed gb) v))"

definition fetch_last_validator_fixed_value :: "gauge_books \<Rightarrow> u64 \<Rightarrow> string \<Rightarrow> u128" where
  "fetch_last_validator_fixed_value gb period v = unwrap_or (fetch_last_validator_fixed gb period v) 0"

definition gauge_slope_changes :: "gauge_books \<Rightarrow> string \<Rightarrow> u64 \<Rightarrow> u64 \<Rightarrow> (u64 \<times> u128) list" where
  "gauge_slope_changes gb v last_period period =
     filter (\<lambda>e. last_period < fst e \<and> fst e \<le> period) (prefix_of (gb_slopes gb) v)"

section \<open>The voting power of a validator\<close>

definition add_validator_to_active :: "string \<Rightarrow> gauge_books \<Rightarrow> gauge_books" where
  "add_validator_to_active v gb =
     (if get (gb_validators gb) v = None then gb\<lparr>gb_validators := put v () (gb_validators gb)\<rparr> else gb)"

definition save_voted :: "u64 \<Rightarrow> string \<Rightarrow> voted_info \<Rightarrow> gauge_books \<Rightarrow> gauge_books" where
  "save_voted period v info gb =
     gb\<lparr>gb_periods := put (v, period) () (gb_periods gb), gb_votes := put (period, v) info (gb_votes gb)\<rparr>"

text \<open>One passed period: the power decays to it, the slope changes there.\<close>

definition passed_info :: "voted_info \<Rightarrow> u64 \<Rightarrow> u64 \<times> u128 \<Rightarrow> (voted_info, 'e) result" where
  "passed_info info prev change =
     and_then (calc_voting_power (vi_slope info) (vi_power info) prev (fst change)) (\<lambda>vp.
     Ok \<lparr>vi_power = vp, vi_slope = saturating_sub (vi_slope info) (snd change)\<rparr>)"

definition passed_step_mut ::
    "string \<Rightarrow> gauge_books \<times> voted_info \<times> u64 \<Rightarrow> u64 \<times> u128 \<Rightarrow> (gauge_books \<times> voted_info \<times> u64, std_error) result" where
  "passed_step_mut v acc change =
     (case acc of (gb, info, prev) \<Rightarrow>
      and_then (passed_info info prev change) (\<lambda>info'. Ok (save_voted (fst change) v info' gb, info', fst change)))"

datatype voted_result = UnchangedInfo voted_info | NewInfo voted_info

definition get_validator_info_mut :: "u64 \<Rightarrow> string \<Rightarrow> gauge_books \<Rightarrow> (voted_result \<times> gauge_books, std_error) result" where
  "get_validator_info_mut period v gb =
     (case get (gb_votes gb) (period, v) of
        Some info \<Rightarrow> Ok (UnchangedInfo info, gb)
      | None \<Rightarrow>
          (case fetch_last_validator_period gb period v of
             Some prev \<Rightarrow>
               and_then (load_item (get (gb_votes gb) (prev, v))) (\<lambda>info.
               and_then (try_fold (passed_step_mut v) (gb, info, prev) (gauge_slope_changes gb v prev period)) (\<lambda>(gb', info', prev').
               and_then (calc_voting_power (vi_slope info') (vi_power info') prev' period) (\<lambda>vp.
               Ok (NewInfo (info'\<lparr>vi_power := vp\<rparr>), gb'))))
           | None \<Rightarrow> Ok (NewInfo default_info, gb)))"

fun info_of :: "voted_result \<Rightarrow> voted_info" where
  "info_of (UnchangedInfo info) = info"
| "info_of (NewInfo info) = info"

definition update_validator_info ::
    "u64 \<Rightarrow> string \<Rightarrow> (basic_points \<times> u128 \<times> u128 \<times> vote_operation) option \<Rightarrow>
     (gauge_books, voted_info, std_error) action" where
  "update_validator_info period v changes gb =
     (let gb1 = add_validator_to_active v gb in
      act_then (act_atomic (get_validator_info_mut period v gb1) gb1) (\<lambda>r gb2.
      case changes of
        Some (bps, vp, slope, op) \<Rightarrow>
          act_then (act_read (op_calc_slope op (vi_slope (info_of r)) slope bps) gb2) (\<lambda>slope' gb3.
          act_then (act_read (op_calc_voting_power op (vi_power (info_of r)) vp bps) gb3) (\<lambda>vp' gb4.
          let info = \<lparr>vi_power = vp', vi_slope = slope'\<rparr> in (Ok info, save_voted period v info gb4)))
      | None \<Rightarrow>
          (case r of
             NewInfo info \<Rightarrow> (Ok info, save_voted period v info gb2)
           | UnchangedInfo info \<Rightarrow> (Ok info, gb2))))"

definition passed_step ::
    "voted_info \<times> u64 \<Rightarrow> u64 \<times> u128 \<Rightarrow> (voted_info \<times> u64, std_error) result" where
  "passed_step acc change = (case acc of (info, prev) \<Rightarrow> and_then (passed_info info prev change) (\<lambda>info'. Ok (info', fst change)))"

text \<open>The query: the same calculation, without saving.\<close>

definition get_validator_info :: "u64 \<Rightarrow> string \<Rightarrow> gauge_books \<Rightarrow> (gauge_validator_info, std_error) result" where
  "get_validator_info period v gb =
     (let fixed = fetch_last_validator_fixed_value gb period v in
      case get (gb_votes gb) (period, v) of
        Some info \<Rightarrow> Ok \<lparr>gv_voting_power = vi_power info, gv_fixed_amount = fixed, gv_slope = vi_slope info\<rparr>
      | None \<Rightarrow>
          (case fetch_last_validator_period gb period v of
             Some prev \<Rightarrow>
               and_then (load_item (get (gb_votes gb) (prev, v))) (\<lambda>info.
               and_then (try_fold passed_step (info, prev) (gauge_slope_changes gb v prev period)) (\<lambda>(info', prev').
               and_then (calc_voting_power (vi_slope info') (vi_power info') prev' period) (\<lambda>vp.
               Ok \<lparr>gv_voting_power = vp, gv_fixed_amount = fixed, gv_slope = vi_slope info'\<rparr>)))
           | None \<Rightarrow> Ok \<lparr>gv_voting_power = 0, gv_fixed_amount = fixed, gv_slope = 0\<rparr>))"

section \<open>Votes\<close>

definition vote_for_validator ::
    "u64 \<Rightarrow> string \<Rightarrow> basic_points \<Rightarrow> u128 \<Rightarrow> u128 \<Rightarrow> u64 \<Rightarrow> (gauge_books, unit, std_error) action" where
  "vote_for_validator period v bps vp slope lock_end gb =
     act_then (act_atomic
       (and_then (u64_add lock_end 1) (\<lambda>end'.
        and_then (bps_mul_uint bps slope) (\<lambda>part.
        and_then (case get (gb_slopes gb) (v, end') of Some saved \<Rightarrow> u128_add saved part | None \<Rightarrow> Ok part) (\<lambda>new.
        Ok ((), gb\<lparr>gb_slopes := put (v, end') new (gb_slopes gb)\<rparr>))))) gb) (\<lambda>_ gb1.
     act_then (update_validator_info period v (Some (bps, vp, slope, OpAdd)) gb1) (\<lambda>_ gb2. (Ok (), gb2)))"

definition add_fixed_vamp :: "u64 \<Rightarrow> string \<Rightarrow> u128 \<Rightarrow> (gauge_books, unit, std_error) action" where
  "add_fixed_vamp period v vamps gb =
     (let gb1 = add_validator_to_active v gb in
      act_then (act_read (checked_add (fetch_last_validator_fixed_value gb1 period v) vamps) gb1) (\<lambda>new gb2.
      (Ok (), gb2\<lparr>gb_fixed := put (v, period) new (gb_fixed gb2)\<rparr>)))"

definition remove_fixed_vamp :: "u64 \<Rightarrow> string \<Rightarrow> u128 \<Rightarrow> (gauge_books, unit, std_error) action" where
  "remove_fixed_vamp period v vamps gb =
     (let gb1 = add_validator_to_active v gb in
      act_then (act_read (map_err (\<lambda>_. GenericErr ''remove_fixed_vamp: could not sub last with current'')
        (checked_sub (fetch_last_validator_fixed_value gb1 period v) vamps)) gb1) (\<lambda>new gb2.
      (Ok (), gb2\<lparr>gb_fixed := put (v, period) new (gb_fixed gb2)\<rparr>)))"

text \<open>The cancelled part of a scheduled slope change. The change must be there: the source loads it.\<close>

definition cancel_gauge_slope ::
    "u64 \<Rightarrow> string \<Rightarrow> basic_points \<Rightarrow> u128 \<Rightarrow> u64 \<Rightarrow> gauge_books \<Rightarrow> (unit \<times> gauge_books, std_error) result" where
  "cancel_gauge_slope period v old_bps old_slope old_lock_end gb =
     and_then (u64_add old_lock_end 1) (\<lambda>end'.
     if unwrap_or (fetch_last_validator_period gb period v) period < end' then
       and_then (load_item (get (gb_slopes gb) (v, end'))) (\<lambda>old.
       and_then (bps_mul_uint old_bps old_slope) (\<lambda>part.
       Ok ((), if saturating_sub old part \<noteq> 0
               then gb\<lparr>gb_slopes := put (v, end') (saturating_sub old part) (gb_slopes gb)\<rparr>
               else gb\<lparr>gb_slopes := del (v, end') (gb_slopes gb)\<rparr>)))
     else Ok ((), gb))"

definition cancel_user_changes ::
    "u64 \<Rightarrow> string \<Rightarrow> basic_points \<Rightarrow> u128 \<Rightarrow> u128 \<Rightarrow> u64 \<Rightarrow> (gauge_books, unit, std_error) action" where
  "cancel_user_changes period v old_bps old_vp old_slope old_lock_end gb =
     act_then (act_atomic (cancel_gauge_slope period v old_bps old_slope old_lock_end gb) gb) (\<lambda>_ gb1.
     act_then (update_validator_info period v (Some (old_bps, old_vp, old_slope, OpSub)) gb1) (\<lambda>_ gb2. (Ok (), gb2)))"

end
