(* ===== verification/AmpGauge.thy ===== *)
theory AmpGauge
  imports GaugeBooks
begin

text \<open>
  The amp gauges (\<open>contracts/amp-governance/amp_gauges\<close>): holders of voting power vote for validators in basis points. A vote
  counts from the next period on; the escrow pushes every change of a lock, and the gauge then applies the stored votes with
  the new power. Tuning collects the validators' power, which the hub reads as its delegation goal.
\<close>

section \<open>State and messages\<close>

datatype gauge_error =
    GaugeStd std_error
  | GaugeUnauthorized
  | ZeroVotingPower
  | InvalidValidatorAddress string
  | DuplicatedValidators
  | TuneNoValidators
  | GaugeMigrationError

abbreviation gstd :: "('a, std_error) result \<Rightarrow> ('a, gauge_error) result" where
  "gstd \<equiv> map_err GaugeStd"

record amp_config =
  ac_owner :: addr
  ac_escrow_addr :: addr
  ac_hub_addr :: addr
  ac_validators_limit :: u64

record amp_user =
  au_vote_ts :: u64
  au_voting_power :: u128
  au_slope :: u128
  au_lock_end :: u64
  au_votes :: "(string \<times> basic_points) list"
  au_fixed_amount :: u128

definition default_amp_user :: amp_user where
  "default_amp_user = \<lparr>au_vote_ts = 0, au_voting_power = 0, au_slope = 0, au_lock_end = 0, au_votes = [], au_fixed_amount = 0\<rparr>"

record amp_state =
  am_config :: "amp_config option"
  am_books :: gauge_books
  am_users :: "(addr, amp_user) store"
  am_tune_info :: "amp_gauge_info option"
  am_ownership_proposal :: "ownership_proposal option"
  am_contract_info :: "(string \<times> string) option"

definition empty_amp :: amp_state where
  "empty_amp = \<lparr>am_config = None, am_books = empty_books, am_users = [], am_tune_info = None,
     am_ownership_proposal = None, am_contract_info = None\<rparr>"

record amp_instantiate_msg =
  ai_owner :: string
  ai_escrow_addr :: string
  ai_hub_addr :: string
  ai_validators_limit :: u64

datatype amp_execute_msg =
    Vote "(string \<times> u16) list"
  | AmpUpdateVote string lock_info
  | TuneVamp
  | AmpUpdateConfig "u64 option"
  | RemoveUser string
  | AmpProposeNewOwner string u64
  | AmpDropProposal
  | AmpClaimOwnership

record amp_user_response =
  ur_vote_ts :: u64
  ur_voting_power :: u128
  ur_slope :: u128
  ur_lock_end :: u64
  ur_votes :: "(string \<times> u16) list"
  ur_fixed_amount :: u128
  ur_current_power :: u128

text \<open>
  What the gauge calls: the lock of a user at the escrow, the validators of the hub, address validation, the ownership functions
  of \<open>astroport::common\<close>, and the rendering of an error. The gauge sends no messages.
\<close>

type_synonym amp_response = "unit response"

record gauge_deps =
  gd_addr_validate :: "string \<Rightarrow> (addr, std_error) result"
  gd_lock_info :: "addr \<Rightarrow> addr \<Rightarrow> (lock_info, std_error) result"
  gd_hub_validators :: "addr \<Rightarrow> (string list, std_error) result"
  gd_propose_new_owner :: "message_info \<Rightarrow> env \<Rightarrow> string \<Rightarrow> u64 \<Rightarrow> addr \<Rightarrow> ownership_proposal option \<Rightarrow>
    (ownership_proposal option \<times> amp_response, std_error) result"
  gd_drop_ownership_proposal :: "message_info \<Rightarrow> addr \<Rightarrow> ownership_proposal option \<Rightarrow>
    (ownership_proposal option \<times> amp_response, std_error) result"
  gd_claim_ownership :: "message_info \<Rightarrow> env \<Rightarrow> ownership_proposal option \<Rightarrow>
    (addr \<times> ownership_proposal option \<times> amp_response, std_error) result"
  gd_show_error :: "gauge_error \<Rightarrow> string"
  gd_version :: string

type_synonym amp_result = "(amp_state \<times> amp_response, gauge_error) result"

definition AMP_CONTRACT_NAME :: string where "AMP_CONTRACT_NAME = ''amp-gauges''"

definition amp_assert_owner :: "amp_config \<Rightarrow> addr \<Rightarrow> (unit, std_error) result" where
  "amp_assert_owner cfg a = (if a \<noteq> ac_owner cfg then Err (GenericErr ''unauthorized'') else Ok ())"

definition amp_instantiate :: "gauge_deps \<Rightarrow> env \<Rightarrow> amp_instantiate_msg \<Rightarrow> amp_state \<Rightarrow> amp_result" where
  "amp_instantiate deps env msg st =
     and_then (gstd (gd_addr_validate deps (ai_owner msg))) (\<lambda>owner.
     and_then (gstd (gd_addr_validate deps (ai_escrow_addr msg))) (\<lambda>escrow.
     and_then (gstd (gd_addr_validate deps (ai_hub_addr msg))) (\<lambda>hub.
     Ok (st\<lparr>am_contract_info := Some (AMP_CONTRACT_NAME, gd_version deps),
            am_config := Some \<lparr>ac_owner = owner, ac_escrow_addr = escrow, ac_hub_addr = hub,
              ac_validators_limit = ai_validators_limit msg\<rparr>,
            am_tune_info := Some \<lparr>ag_tune_ts = env_time env, ag_vamp_points = []\<rparr>\<rparr>, new_response))))"

section \<open>Votes\<close>

text \<open>The votes of a user are taken out of the books: the fixed part always, the decaying part while the lock runs.\<close>

definition remove_votes_of_user :: "amp_user \<Rightarrow> u64 \<Rightarrow> (gauge_books, unit, std_error) action" where
  "remove_votes_of_user ui block_period gb =
     (if au_lock_end ui > block_period then
        act_then (act_read (and_then (get_period (au_vote_ts ui)) (\<lambda>last_vote.
          calc_voting_power (au_slope ui) (au_voting_power ui) last_vote block_period)) gb) (\<lambda>old_vp.
        act_each (\<lambda>(v, bps) gb1.
          act_then (act_read (u64_add block_period 1) gb1) (\<lambda>next gb2.
          act_then (act_read (bps_mul_uint bps (au_fixed_amount ui)) gb2) (\<lambda>fixed gb3.
          act_then (remove_fixed_vamp next v fixed gb3) (\<lambda>_.
          cancel_user_changes next v bps old_vp (au_slope ui) (au_lock_end ui))))) (au_votes ui))
      else
        act_each (\<lambda>(v, bps) gb1.
          act_then (act_read (u64_add block_period 1) gb1) (\<lambda>next gb2.
          act_then (act_read (bps_mul_uint bps (au_fixed_amount ui)) gb2) (\<lambda>fixed.
          remove_fixed_vamp next v fixed))) (au_votes ui) gb)"

definition apply_votes_of_user ::
    "(string \<times> basic_points) list \<Rightarrow> u64 \<Rightarrow> u128 \<Rightarrow> lock_info \<Rightarrow> (gauge_books, unit, std_error) action" where
  "apply_votes_of_user votes block_period user_vp li gb =
     act_each (\<lambda>(v, bps) gb1.
       act_then (act_read (u64_add block_period 1) gb1) (\<lambda>next gb2.
       act_then (act_read (bps_mul_uint bps (li_fixed_amount li)) gb2) (\<lambda>fixed gb3.
       act_then (add_fixed_vamp next v fixed gb3) (\<lambda>_.
       vote_for_validator next v bps user_vp (li_slope li) (li_end li))))) votes gb"

text \<open>The votes are applied and the user's record is written.\<close>

definition save_votes ::
    "env \<Rightarrow> addr \<Rightarrow> (string \<times> basic_points) list \<Rightarrow> u64 \<Rightarrow> lock_info \<Rightarrow> amp_state \<Rightarrow> (amp_state, gauge_error) result" where
  "save_votes env user votes block_period li st =
     and_then (gstd (committed (apply_votes_of_user votes block_period (li_voting_power li) li (am_books st)))) (\<lambda>(_, gb).
     Ok (st\<lparr>am_books := gb, am_users := put user
       \<lparr>au_vote_ts = env_time env, au_voting_power = li_voting_power li, au_slope = li_slope li, au_lock_end = li_end li,
        au_votes = votes, au_fixed_amount = li_fixed_amount li\<rparr> (am_users st)\<rparr>))"

definition check_vote :: "string list \<Rightarrow> string \<times> u16 \<Rightarrow> (string \<times> basic_points, gauge_error) result" where
  "check_vote allowed vote =
     (case vote of (v, bps) \<Rightarrow>
      if v \<notin> set allowed then Err (InvalidValidatorAddress v)
      else and_then (gstd (bps_try_from bps)) (\<lambda>b. Ok (v, b)))"

definition handle_vote :: "gauge_deps \<Rightarrow> env \<Rightarrow> amp_state \<Rightarrow> message_info \<Rightarrow> (string \<times> u16) list \<Rightarrow> amp_result" where
  "handle_vote deps env st info votes =
     (let user = info_sender info in
      and_then (gstd (get_period (env_time env))) (\<lambda>block_period.
      and_then (gstd (load_item (am_config st))) (\<lambda>cfg.
      and_then (gstd (gd_lock_info deps (ac_escrow_addr cfg) user)) (\<lambda>li.
      and_then (u128_add (li_voting_power li) (li_fixed_amount li)) (\<lambda>vamp.
      if vamp = 0 then Err ZeroVotingPower
      else
        let ui = unwrap_or (get (am_users st) user) default_amp_user in
        if length votes \<noteq> card (fst ` set votes) then Err DuplicatedValidators
        else
          and_then (gstd (gd_hub_validators deps (ac_hub_addr cfg))) (\<lambda>allowed.
          and_then (traverse (check_vote allowed) votes) (\<lambda>votes'.
          and_then (gstd (try_fold bps_checked_add 0 (map snd votes'))) (\<lambda>_.
          and_then (gstd (committed (remove_votes_of_user ui block_period (am_books st)))) (\<lambda>(_, gb).
          and_then (save_votes env user votes' block_period li (st\<lparr>am_books := gb\<rparr>)) (\<lambda>st'.
          Ok (st', add_attributes new_response [(''action'', ''vamp/vote''), (''vAMP'', nat_str vamp)])))))))))))"

definition update_vote :: "gauge_deps \<Rightarrow> env \<Rightarrow> amp_state \<Rightarrow> message_info \<Rightarrow> string \<Rightarrow> lock_info \<Rightarrow> amp_result" where
  "update_vote deps env st info user_str li =
     and_then (gstd (get_period (env_time env))) (\<lambda>block_period.
     and_then (gstd (load_item (am_config st))) (\<lambda>cfg.
     if info_sender info \<noteq> ac_escrow_addr cfg then Err GaugeUnauthorized
     else
       and_then (gstd (gd_addr_validate deps user_str)) (\<lambda>user.
       case get (am_users st) user of
         Some ui \<Rightarrow>
           and_then (gstd (committed (remove_votes_of_user ui block_period (am_books st)))) (\<lambda>(_, gb).
           if li_voting_power li = 0 \<and> li_fixed_amount li = 0 then
             Ok (st\<lparr>am_books := gb, am_users := put user
                   \<lparr>au_vote_ts = env_time env, au_voting_power = 0, au_slope = li_slope li, au_lock_end = li_end li,
                    au_votes = au_votes ui, au_fixed_amount = li_fixed_amount li\<rparr> (am_users st)\<rparr>,
                 add_attribute new_response ''action'' ''vamp/update_vote_removed'')
           else
             and_then (u128_add (li_voting_power li) (li_fixed_amount li)) (\<lambda>vamp.
             and_then (save_votes env user (au_votes ui) block_period li (st\<lparr>am_books := gb\<rparr>)) (\<lambda>st'.
             Ok (st', add_attributes new_response [(''action'', ''vamp/update_vote_changed''), (''vAMP'', nat_str vamp)]))))
       | None \<Rightarrow> Ok (st, add_attribute new_response ''action'' ''vamp/update_vote_noop''))))"

text \<open>
  The owner removes a user. An error in taking out the votes is reported in an attribute only: the user is gone, and what was
  written before the error stays.
\<close>

definition remove_user :: "gauge_deps \<Rightarrow> env \<Rightarrow> amp_state \<Rightarrow> message_info \<Rightarrow> string \<Rightarrow> amp_result" where
  "remove_user deps env st info user_str =
     and_then (gstd (load_item (am_config st))) (\<lambda>cfg.
     and_then (gstd (amp_assert_owner cfg (info_sender info))) (\<lambda>_.
     and_then (gstd (gd_addr_validate deps user_str)) (\<lambda>user.
     case get (am_users st) user of
       Some ui \<Rightarrow>
         and_then (gstd (get_period (env_time env))) (\<lambda>block_period.
         case remove_votes_of_user ui block_period (am_books st) of
           (Ok _, gb) \<Rightarrow>
             Ok (st\<lparr>am_users := del user (am_users st), am_books := gb\<rparr>,
               add_attributes new_response [(''action'', ''vamp/remove_user''), (''remove_votes'', ''ok'')])
         | (Err e, gb) \<Rightarrow>
             Ok (st\<lparr>am_users := del user (am_users st), am_books := gb\<rparr>,
               add_attributes new_response [(''action'', ''vamp/remove_user''), (''remove_votes'', gd_show_error deps (GaugeStd e))])
         | (Panic, gb) \<Rightarrow> Panic)
     | None \<Rightarrow> Ok (st, add_attribute new_response ''action'' ''vamp/remove_user_noop''))))"

section \<open>Tuning\<close>

definition filter_validators ::
    "gauge_deps \<Rightarrow> addr \<Rightarrow> (string \<times> u128) list \<Rightarrow> u64 \<Rightarrow> ((string \<times> u128) list, std_error) result" where
  "filter_validators deps hub validators limit =
     and_then (gd_hub_validators deps hub) (\<lambda>allowed. Ok (take limit (filter (\<lambda>e. fst e \<in> set allowed) validators)))"

definition tune_step ::
    "u64 \<Rightarrow> gauge_books \<times> (string \<times> u128) list \<Rightarrow> string \<Rightarrow> (gauge_books \<times> (string \<times> u128) list, std_error) result" where
  "tune_step block_period acc v =
     (case acc of (gb, votes) \<Rightarrow>
      and_then (committed (update_validator_info block_period v None gb)) (\<lambda>(info, gb1).
      and_then (checked_add (vi_power info) (fetch_last_validator_fixed_value gb1 block_period v)) (\<lambda>vamp.
      and_then (if vamp = 0 then and_then (u64_add block_period 1) (\<lambda>next. Ok (fetch_last_validator_fixed_value gb1 next v = 0))
                else Ok False) (\<lambda>drop_it.
      Ok (if drop_it then gb1\<lparr>gb_validators := del v (gb_validators gb1)\<rparr> else gb1, votes @ [(v, vamp)])))))"

definition tune_vamp :: "gauge_deps \<Rightarrow> env \<Rightarrow> amp_state \<Rightarrow> message_info \<Rightarrow> amp_result" where
  "tune_vamp deps env st info =
     and_then (gstd (load_item (am_config st))) (\<lambda>cfg.
     and_then (gstd (amp_assert_owner cfg (info_sender info))) (\<lambda>_.
     and_then (gstd (get_period (env_time env))) (\<lambda>block_period.
     and_then (gstd (try_fold (tune_step block_period) (am_books st, []) (map fst (entries (gb_validators (am_books st))))))
       (\<lambda>(gb, votes).
     and_then (gstd (load_item (am_tune_info st))) (\<lambda>tune.
     and_then (gstd (filter_validators deps (ac_hub_addr cfg) (sorted_desc snd (filter (\<lambda>e. snd e \<noteq> 0) votes))
       (ac_validators_limit cfg))) (\<lambda>points.
     if points = [] then Err TuneNoValidators
     else
       Ok (st\<lparr>am_books := gb, am_tune_info := Some (tune\<lparr>ag_vamp_points := points, ag_tune_ts := env_time env\<rparr>)\<rparr>,
         add_attributes (add_attribute new_response ''action'' ''vamp/tune_vamp'')
           (map (\<lambda>p. (''vamp'', fst p @ ''='' @ nat_str (snd p))) points))))))))"

section \<open>Messages\<close>

definition amp_update_config :: "amp_state \<Rightarrow> addr \<Rightarrow> u64 option \<Rightarrow> amp_result" where
  "amp_update_config st sender validators_limit =
     and_then (gstd (load_item (am_config st))) (\<lambda>cfg.
     and_then (gstd (amp_assert_owner cfg sender)) (\<lambda>_.
     Ok (st\<lparr>am_config := Some (case validators_limit of Some n \<Rightarrow> cfg\<lparr>ac_validators_limit := n\<rparr> | None \<Rightarrow> cfg)\<rparr>,
       add_attribute new_response ''action'' ''vamp/update_config'')))"

fun amp_execute :: "gauge_deps \<Rightarrow> env \<Rightarrow> amp_state \<Rightarrow> message_info \<Rightarrow> amp_execute_msg \<Rightarrow> amp_result" where
  "amp_execute deps env st info (Vote votes) = handle_vote deps env st info votes"
| "amp_execute deps env st info (AmpUpdateVote user li) = update_vote deps env st info user li"
| "amp_execute deps env st info (RemoveUser user) = remove_user deps env st info user"
| "amp_execute deps env st info TuneVamp = tune_vamp deps env st info"
| "amp_execute deps env st info (AmpUpdateConfig limit) = amp_update_config st (info_sender info) limit"
| "amp_execute deps env st info (AmpProposeNewOwner new_owner expires_in) =
     and_then (gstd (load_item (am_config st))) (\<lambda>cfg.
     and_then (gstd (gd_propose_new_owner deps info env new_owner expires_in (ac_owner cfg) (am_ownership_proposal st)))
       (\<lambda>(proposal, resp). Ok (st\<lparr>am_ownership_proposal := proposal\<rparr>, resp)))"
| "amp_execute deps env st info AmpDropProposal =
     and_then (gstd (load_item (am_config st))) (\<lambda>cfg.
     and_then (gstd (gd_drop_ownership_proposal deps info (ac_owner cfg) (am_ownership_proposal st)))
       (\<lambda>(proposal, resp). Ok (st\<lparr>am_ownership_proposal := proposal\<rparr>, resp)))"
| "amp_execute deps env st info AmpClaimOwnership =
     and_then (gstd (gd_claim_ownership deps info env (am_ownership_proposal st))) (\<lambda>(new_owner, proposal, resp).
     and_then (gstd (load_item (am_config st))) (\<lambda>cfg.
     Ok (st\<lparr>am_config := Some (cfg\<lparr>ac_owner := new_owner\<rparr>), am_ownership_proposal := proposal\<rparr>, resp)))"

definition amp_migrate :: "gauge_deps \<Rightarrow> amp_state \<Rightarrow> amp_result" where
  "amp_migrate deps st =
     and_then (gstd (load_item (am_contract_info st))) (\<lambda>(contract, version).
     let st1 = st\<lparr>am_contract_info := Some (AMP_CONTRACT_NAME, gd_version deps)\<rparr> in
     if contract \<noteq> AMP_CONTRACT_NAME
     then Err (GaugeStd (GenericErr (''contract_name does not match: prev: '' @ contract @ '', new: '' @ gd_version deps)))
     else Ok (st1, add_attributes new_response
       [(''previous_contract_name'', contract), (''previous_contract_version'', version),
        (''new_contract_name'', AMP_CONTRACT_NAME), (''new_contract_version'', gd_version deps)]))"

section \<open>Queries\<close>

text \<open>The time of the last vote of a stored user is valid; an invalid one counts as the current period.\<close>

definition amp_user_response_of :: "amp_user \<Rightarrow> u64 \<Rightarrow> (amp_user_response, std_error) result" where
  "amp_user_response_of ui period =
     (let last = (case get_period (au_vote_ts ui) of Ok p \<Rightarrow> p | _ \<Rightarrow> period) in
      and_then (calc_voting_power (au_slope ui) (au_voting_power ui) last period) (\<lambda>vp.
      and_then (checked_add (au_fixed_amount ui) vp) (\<lambda>current.
      Ok \<lparr>ur_vote_ts = au_vote_ts ui, ur_voting_power = au_voting_power ui, ur_slope = au_slope ui,
          ur_lock_end = au_lock_end ui, ur_votes = au_votes ui, ur_fixed_amount = au_fixed_amount ui,
          ur_current_power = current\<rparr>)))"

definition amp_user_info :: "gauge_deps \<Rightarrow> env \<Rightarrow> amp_state \<Rightarrow> string \<Rightarrow> (amp_user_response, std_error) result" where
  "amp_user_info deps env st user_str =
     and_then (gd_addr_validate deps user_str) (\<lambda>user.
     and_then (ok_or (GenericErr ''User not found'') (get (am_users st) user)) (\<lambda>ui.
     and_then (get_period (env_time env)) (\<lambda>block_period. amp_user_response_of ui block_period)))"

definition amp_user_infos ::
    "gauge_deps \<Rightarrow> env \<Rightarrow> amp_state \<Rightarrow> string option \<Rightarrow> nat option \<Rightarrow> ((addr \<times> amp_user_response) list, std_error) result" where
  "amp_user_infos deps env st start_after limit =
     (let n = min (unwrap_or limit 10) 30;
          start = (case start_after of
              Some s \<Rightarrow> (case gd_addr_validate deps s of Ok a \<Rightarrow> Some a | _ \<Rightarrow> None)
            | None \<Rightarrow> None) in
      and_then (get_period (env_time env)) (\<lambda>block_period.
      traverse (\<lambda>(a, ui). and_then (amp_user_response_of ui block_period) (\<lambda>r. Ok (a, r)))
        (page start n (entries (am_users st)))))"

definition amp_validator_infos ::
    "env \<Rightarrow> amp_state \<Rightarrow> string list option \<Rightarrow> u64 option \<Rightarrow> ((string \<times> gauge_validator_info) list, std_error) result" where
  "amp_validator_infos env st validator_addrs period_opt =
     and_then (get_period (env_time env)) (\<lambda>block_period.
     let period = unwrap_or period_opt block_period;
         addrs = unwrap_or validator_addrs (map fst (entries (gb_validators (am_books st)))) in
     traverse (\<lambda>v. and_then (get_validator_info period v (am_books st)) (\<lambda>i. Ok (v, i))) addrs)"

definition amp_validator_info :: "env \<Rightarrow> amp_state \<Rightarrow> string \<Rightarrow> u64 option \<Rightarrow> (gauge_validator_info, std_error) result" where
  "amp_validator_info env st v period_opt =
     and_then (get_period (env_time env)) (\<lambda>block_period.
     get_validator_info (unwrap_or period_opt block_period) v (am_books st))"

datatype amp_query_msg =
    AmpUserInfo string
  | AmpUserInfos "string option" "nat option"
  | AmpTuneInfo
  | AmpConfig
  | AmpValidatorInfo string
  | AmpValidatorInfoAtPeriod string u64
  | AmpValidatorInfos "string list option" "u64 option"

datatype amp_answer =
    AmpUserAnswer amp_user_response
  | AmpUsersAnswer "(addr \<times> amp_user_response) list"
  | AmpTuneAnswer amp_gauge_info
  | AmpConfigAnswer amp_config
  | AmpValidatorAnswer gauge_validator_info
  | AmpValidatorsAnswer "(string \<times> gauge_validator_info) list"

fun amp_query :: "gauge_deps \<Rightarrow> env \<Rightarrow> amp_state \<Rightarrow> amp_query_msg \<Rightarrow> (amp_answer, std_error) result" where
  "amp_query deps env st (AmpUserInfo user) = and_then (amp_user_info deps env st user) (\<lambda>r. Ok (AmpUserAnswer r))"
| "amp_query deps env st (AmpUserInfos start_after limit) =
     and_then (amp_user_infos deps env st start_after limit) (\<lambda>r. Ok (AmpUsersAnswer r))"
| "amp_query deps env st AmpTuneInfo = and_then (load_item (am_tune_info st)) (\<lambda>r. Ok (AmpTuneAnswer r))"
| "amp_query deps env st AmpConfig = and_then (load_item (am_config st)) (\<lambda>r. Ok (AmpConfigAnswer r))"
| "amp_query deps env st (AmpValidatorInfo v) = and_then (amp_validator_info env st v None) (\<lambda>r. Ok (AmpValidatorAnswer r))"
| "amp_query deps env st (AmpValidatorInfos addrs period) =
     and_then (amp_validator_infos env st addrs period) (\<lambda>r. Ok (AmpValidatorsAnswer r))"
| "amp_query deps env st (AmpValidatorInfoAtPeriod v period) =
     and_then (amp_validator_info env st v (Some period)) (\<lambda>r. Ok (AmpValidatorAnswer r))"

end
