(* ===== verification/GaugeShares.thy ===== *)
theory GaugeShares
  imports AmpGauge
begin

text \<open>
  The fixed amounts in the books of the amp gauges: they cover, for every validator, the shares of all users that voted for it.
\<close>

section \<open>Who writes the fixed amounts\<close>

text \<open>The fixed amount of a validator at a period, and books that hold none beyond a period.\<close>

abbreviation fixed_at :: "gauge_books \<Rightarrow> u64 \<Rightarrow> string \<Rightarrow> u128" where
  "fixed_at \<equiv> fetch_last_validator_fixed_value"

definition fixed_ok :: "u64 \<Rightarrow> gauge_books \<Rightarrow> bool" where
  "fixed_ok B gb \<longleftrightarrow> wf_store (gb_fixed gb) \<and> (\<forall>v k. k > B \<longrightarrow> get (gb_fixed gb) (v, k) = None)"

lemma fixed_at_cong: "gb_fixed gb' = gb_fixed gb \<Longrightarrow> fixed_at gb' p v = fixed_at gb p v"
  by (simp add: fetch_last_validator_fixed_value_def fetch_last_validator_fixed_def)

lemma fixed_ok_cong: "gb_fixed gb' = gb_fixed gb \<Longrightarrow> fixed_ok B gb' = fixed_ok B gb"
  by (simp add: fixed_ok_def)

lemma fixed_at_put:
  assumes "wf_store (gb_fixed gb)" and "gb_fixed gb' = put (v, p) x (gb_fixed gb)"
  shows "fixed_at gb' p w = (if w = v then x else fixed_at gb p w)"
proof (cases "w = v")
  case True
  have "newest_upto p (prefix_of (gb_fixed gb') v) = Some (p, x)"
    using assms by (subst newest_prefix_Some) (auto simp: store_simps)
  with True show ?thesis by (simp add: fetch_last_validator_fixed_value_def fetch_last_validator_fixed_def)
next
  case False
  have "prefix_of (gb_fixed gb') w = prefix_of (gb_fixed gb) w"
    using assms False by (intro wf_store_eqI) (simp_all add: wf_prefix_of get_prefix_of store_simps)
  with False show ?thesis by (simp add: fetch_last_validator_fixed_value_def fetch_last_validator_fixed_def)
qed

lemma fixed_ok_put: "fixed_ok B gb \<Longrightarrow> p \<le> B \<Longrightarrow> gb_fixed gb' = put (v, p) x (gb_fixed gb) \<Longrightarrow> fixed_ok B gb'"
  by (auto simp: fixed_ok_def store_simps)

lemma fixed_ok_mono: "fixed_ok B gb \<Longrightarrow> B \<le> B' \<Longrightarrow> fixed_ok B' gb"
  by (auto simp: fixed_ok_def)

text \<open>Beyond the last entry the fixed amount does not change.\<close>

lemma fixed_at_later:
  assumes "fixed_ok B gb" and "B \<le> p"
  shows "fixed_at gb p v = fixed_at gb B v"
proof -
  have wf: "wf_store (gb_fixed gb)" and none: "\<And>k. k > B \<Longrightarrow> get (gb_fixed gb) (v, k) = None"
    using assms(1) by (simp_all add: fixed_ok_def)
  have "newest_upto p (prefix_of (gb_fixed gb) v) = newest_upto B (prefix_of (gb_fixed gb) v)"
  proof (cases "newest_upto B (prefix_of (gb_fixed gb) v)")
    case None
    then have "\<forall>k \<le> B. get (gb_fixed gb) (v, k) = None" by (simp add: newest_prefix_None [OF wf])
    with none have "\<forall>k \<le> p. get (gb_fixed gb) (v, k) = None" by (metis not_le)
    then have "newest_upto p (prefix_of (gb_fixed gb) v) = None" by (simp add: newest_prefix_None [OF wf])
    with None show ?thesis by simp
  next
    case (Some e)
    then obtain k x where e: "newest_upto B (prefix_of (gb_fixed gb) v) = Some (k, x)" by (cases e) auto
    then have "newest_upto p (prefix_of (gb_fixed gb) v) = Some (k, x)"
      using none assms(2) unfolding newest_prefix_Some [OF wf] by (metis le_trans not_le)
    with e show ?thesis by simp
  qed
  then show ?thesis by (simp add: fetch_last_validator_fixed_value_def fetch_last_validator_fixed_def)
qed

lemma add_active_fixed [simp]: "gb_fixed (add_validator_to_active v gb) = gb_fixed gb"
  by (simp add: add_validator_to_active_def)

lemma save_voted_fixed [simp]: "gb_fixed (save_voted p v i gb) = gb_fixed gb"
  by (simp add: save_voted_def)

lemma info_mut_fixed:
  assumes "get_validator_info_mut p v gb = Ok (r, gb')"
  shows "gb_fixed gb' = gb_fixed gb"
proof -
  have step: "gb_fixed (fst acc') = gb_fixed gb" if "gb_fixed (fst acc) = gb_fixed gb" "passed_step_mut v acc e = Ok acc'" for acc e acc'
    using that by (cases acc) (auto simp: passed_step_mut_def and_then_Ok)
  have loop: "gb_fixed (fst acc') = gb_fixed gb" if "try_fold (passed_step_mut v) (gb, i, q) es = Ok acc'" for i q es acc'
    by (rule try_fold_invariant [OF that]) (use step in auto)
  show ?thesis using assms loop
    by (force simp: get_validator_info_mut_def and_then_Ok split: option.splits)
qed

lemma act_atomic_fixed:
  assumes "\<And>x gb'. r = Ok (x, gb') \<Longrightarrow> gb_fixed gb' = gb_fixed gb"
  shows "gb_fixed (snd (act_atomic r gb)) = gb_fixed gb"
  using assms by (cases "(r, gb)" rule: act_atomic.cases) auto

lemma act_then_snd:
  assumes "P (snd m)" and "\<And>x s. m = (Ok x, s) \<Longrightarrow> P s \<Longrightarrow> P (snd (k x s))"
  shows "P (snd (act_then m k))"
  using assms by (cases "(m, k)" rule: act_then.cases) auto

lemma update_validator_info_fixed: "gb_fixed (snd (update_validator_info p v ch gb)) = gb_fixed gb"
proof -
  have a: "gb_fixed (snd (act_atomic (get_validator_info_mut p v (add_validator_to_active v gb)) (add_validator_to_active v gb)))
      = gb_fixed gb"
    by (subst act_atomic_fixed) (auto dest: info_mut_fixed)
  show ?thesis unfolding update_validator_info_def Let_def
    by (rule act_then_snd [where P = "\<lambda>g. gb_fixed g = gb_fixed gb", OF a])
      (auto simp: act_read_def split: option.split voted_result.split
        intro!: act_then_snd [where P = "\<lambda>g. gb_fixed g = gb_fixed gb"])
qed

lemma cancel_user_changes_fixed: "gb_fixed (snd (cancel_user_changes p v b vp s e gb)) = gb_fixed gb"
proof -
  have a: "gb_fixed (snd (act_atomic (cancel_gauge_slope p v b s e gb) gb)) = gb_fixed gb"
    by (rule act_atomic_fixed) (auto simp: cancel_gauge_slope_def and_then_Ok split: if_splits)
  show ?thesis unfolding cancel_user_changes_def
    by (rule act_then_snd [where P = "\<lambda>g. gb_fixed g = gb_fixed gb", OF a])
      (auto simp: update_validator_info_fixed intro!: act_then_snd [where P = "\<lambda>g. gb_fixed g = gb_fixed gb"]
        dest: update_validator_info_fixed [THEN sym, THEN trans])
qed

lemma vote_for_validator_fixed: "gb_fixed (snd (vote_for_validator p v b vp s e gb)) = gb_fixed gb"
  unfolding vote_for_validator_def
  by (rule act_then_snd [where P = "\<lambda>g. gb_fixed g = gb_fixed gb"], rule act_atomic_fixed)
    (auto simp: and_then_Ok update_validator_info_fixed intro!: act_then_snd [where P = "\<lambda>g. gb_fixed g = gb_fixed gb"]
      dest: update_validator_info_fixed [THEN sym, THEN trans])

lemma add_fixed_vamp_Ok:
  "add_fixed_vamp p v x gb = (Ok u, gb') \<Longrightarrow> gb_fixed gb' = put (v, p) (fixed_at gb p v + x) (gb_fixed gb)"
  by (auto simp: add_fixed_vamp_def Let_def act_then_Ok act_read_def num_Ok fixed_at_cong [of "add_validator_to_active v gb" gb])

lemma remove_fixed_vamp_outcome:
  "x \<le> fixed_at gb p v \<Longrightarrow> gb_fixed (snd (remove_fixed_vamp p v x gb)) = put (v, p) (fixed_at gb p v - x) (gb_fixed gb)"
  "\<not> x \<le> fixed_at gb p v \<Longrightarrow> gb_fixed (snd (remove_fixed_vamp p v x gb)) = gb_fixed gb"
  "fst (remove_fixed_vamp p v x gb) = Ok () \<longleftrightarrow> x \<le> fixed_at gb p v"
  by (auto simp: remove_fixed_vamp_def Let_def act_read_def checked_sub_def
      fixed_at_cong [of "add_validator_to_active v gb" gb])

section \<open>Shares\<close>

text \<open>The part of a fixed amount that a list of votes gives to a validator.\<close>

definition share :: "(string \<times> basic_points) list \<Rightarrow> u128 \<Rightarrow> string \<Rightarrow> u128" where
  "share votes x v = sum_list (map (\<lambda>(w, b). if w = v then x * b div BPS_MAX else 0) votes)"

lemma share_simps [simp]:
  "share [] x v = 0"
  "share ((w, b) # votes) x v = (if w = v then x * b div BPS_MAX else 0) + share votes x v"
  by (simp_all add: share_def)

lemma share_0 [simp]: "share votes 0 v = 0"
  by (induction votes) auto

lemma bps_mul_uint_Ok: "bps_mul_uint b x = Ok y \<longleftrightarrow> y = x * b div BPS_MAX \<and> y \<le> U128_MAX"
  by (auto simp: bps_mul_uint_def BPS_MAX_def ok_simps)

text \<open>What a step does to the fixed amounts: nothing is lost beyond the part, and exactly the part on success.\<close>

definition gives_back :: "u64 \<Rightarrow> gauge_books \<Rightarrow> (unit, 'e) result \<times> gauge_books \<Rightarrow> (string \<Rightarrow> u128) \<Rightarrow> bool" where
  "gives_back n gb m part \<longleftrightarrow> fixed_ok n (snd m)
     \<and> (\<forall>v. fixed_at gb n v \<le> fixed_at (snd m) n v + part v)
     \<and> (fst m = Ok () \<longrightarrow> (\<forall>v. fixed_at gb n v = fixed_at (snd m) n v + part v))"

lemma gives_back_each:
  assumes "\<And>v b gb. fixed_ok n gb \<Longrightarrow> gives_back n gb (f (v, b) gb) (\<lambda>w. if v = w then x * b div BPS_MAX else 0)"
    and "fixed_ok n gb"
  shows "gives_back n gb (act_each f votes gb) (share votes x)"
  using assms(2)
proof (induction votes arbitrary: gb)
  case Nil
  then show ?case by (simp add: gives_back_def)
next
  case (Cons e votes)
  obtain v b where e: "e = (v, b)" by (cases e)
  obtain r gb1 where f: "f (v, b) gb = (r, gb1)" by (cases "f (v, b) gb")
  note step = assms(1) [OF Cons.prems, of v b, unfolded f]
  show ?case
  proof (cases r)
    case (Ok u)
    have ok: "fixed_ok n gb1" and eq: "\<And>w. fixed_at gb n w = fixed_at gb1 n w + (if v = w then x * b div BPS_MAX else 0)"
      using step Ok by (simp_all add: gives_back_def)
    have rest: "gives_back n gb1 (act_each f votes gb1) (share votes x)" by (rule Cons.IH [OF ok])
    have run: "act_each f (e # votes) gb = act_each f votes gb1" by (simp add: e f Ok)
    show ?thesis unfolding run using rest eq by (auto simp: gives_back_def e)
  qed (use step e f in \<open>auto simp: gives_back_def intro: trans_le_add1 order_trans\<close>)
qed

lemma remove_step_gives_back:
  assumes ok: "fixed_ok n gb" and y: "y = x * b div BPS_MAX"
  shows "gives_back n gb (remove_fixed_vamp n v y gb) (\<lambda>w. if v = w then x * b div BPS_MAX else 0)"
proof (cases "y \<le> fixed_at gb n v")
  case True
  note p = remove_fixed_vamp_outcome(1) [OF True]
  have wf: "wf_store (gb_fixed gb)" using ok by (simp add: fixed_ok_def)
  show ?thesis
    using fixed_at_put [OF wf p] fixed_ok_put [OF ok _ p] True y by (auto simp: gives_back_def)
next
  case False
  note p = remove_fixed_vamp_outcome(2) [OF False]
  show ?thesis
    using fixed_at_cong [OF p] fixed_ok_cong [OF p] ok remove_fixed_vamp_outcome(3) [of n v y gb] False by (simp add: gives_back_def)
qed

lemma gives_back_read:
  assumes "\<And>y. r = Ok y \<Longrightarrow> gives_back n gb (k y gb) part" and "fixed_ok n gb"
  shows "gives_back n gb (act_then (act_read r gb) k) part"
  using assms by (cases r) (auto simp: act_read_def gives_back_def)

lemma gives_back_then:
  assumes "gives_back n gb m part" and "\<And>s. gb_fixed (snd (k () s)) = gb_fixed s"
  shows "gives_back n gb (act_then m k) part"
proof (cases "(m, k)" rule: act_then.cases)
  case (1 u s k')
  then show ?thesis
    using assms fixed_at_cong [OF assms(2), of s n] fixed_ok_cong [OF assms(2), of n s]
    by (auto simp: gives_back_def)
qed (use assms in \<open>auto simp: gives_back_def\<close>)

lemma remove_votes_gives_back:
  assumes ok: "fixed_ok (p + 1) gb"
  shows "gives_back (p + 1) gb (remove_votes_of_user ui p gb) (share (au_votes ui) (au_fixed_amount ui))"
proof -
  have simple: "gives_back (p + 1) gb (remove_fixed_vamp n v y gb) (\<lambda>w. if v = w then x * b div BPS_MAX else 0)"
    if "fixed_ok (p + 1) gb" "u64_add p 1 = Ok n" "bps_mul_uint b x = Ok y" for gb n v b x y
    using that remove_step_gives_back [OF that(1)] by (simp add: num_Ok bps_mul_uint_Ok)
  have full: "gives_back (p + 1) gb (act_then (remove_fixed_vamp n v y gb) (\<lambda>_. cancel_user_changes n v b vp s e))
      (\<lambda>w. if v = w then x * b div BPS_MAX else 0)"
    if "fixed_ok (p + 1) gb" "u64_add p 1 = Ok n" "bps_mul_uint b x = Ok y" for gb n v b x y vp s e
    by (rule gives_back_then [OF simple [OF that] cancel_user_changes_fixed])
  show ?thesis
  proof (cases "au_lock_end ui > p")
    case True
    show ?thesis unfolding remove_votes_of_user_def if_P [OF True] split_beta
      by (intro gives_back_read gives_back_each) (use ok in \<open>simp_all only: prod.case fst_conv snd_conv full\<close>)
  next
    case False
    show ?thesis unfolding remove_votes_of_user_def if_not_P [OF False] split_beta
      by (intro gives_back_read gives_back_each) (use ok in \<open>simp_all only: prod.case fst_conv snd_conv simple\<close>)
  qed
qed

text \<open>
  The fixed amounts of the validators are the shares of the users that voted for them, in every state the amp gauge can reach
  by messages at non-decreasing block times.
\<close>

section \<open>The invariant\<close>

definition user_share :: "string \<Rightarrow> amp_user \<Rightarrow> u128" where
  "user_share v ui = share (au_votes ui) (au_fixed_amount ui) v"

definition shares_of :: "(addr, amp_user) store \<Rightarrow> string \<Rightarrow> u128" where
  "shares_of users v = sum_list (map (\<lambda>e. user_share v (snd e)) (entries users))"

definition stored_share :: "(addr, amp_user) store \<Rightarrow> addr \<Rightarrow> string \<Rightarrow> u128" where
  "stored_share users a v = (case get users a of Some ui \<Rightarrow> user_share v ui | None \<Rightarrow> 0)"

text \<open>Nothing a user voted is missing; with \<open>exact\<close>, nothing else is counted either.\<close>

definition books_balance :: "bool \<Rightarrow> u64 \<Rightarrow> gauge_books \<Rightarrow> (addr, amp_user) store \<Rightarrow> bool" where
  "books_balance exact p gb users \<longleftrightarrow> wf_store users \<and> fixed_ok (p + 1) gb
     \<and> (\<forall>v. shares_of users v \<le> fixed_at gb (p + 1) v)
     \<and> (exact \<longrightarrow> (\<forall>v. fixed_at gb (p + 1) v = shares_of users v))"

abbreviation amp_inv :: "bool \<Rightarrow> u64 \<Rightarrow> amp_state \<Rightarrow> bool" where
  "amp_inv exact p st \<equiv> books_balance exact p (am_books st) (am_users st)"

lemma shares_put: "wf_store users \<Longrightarrow> shares_of (put a ui users) v + stored_share users a v = shares_of users v + user_share v ui"
  using om.total_put [of users "\<lambda>e. user_share v (snd e)" a ui]
  by (auto simp: shares_of_def stored_share_def split: option.splits)

lemma shares_del: "wf_store users \<Longrightarrow> shares_of (del a users) v + stored_share users a v = shares_of users v"
  using om.total_del [of users "\<lambda>e. user_share v (snd e)" a]
  by (auto simp: shares_of_def stored_share_def split: option.splits)

lemma books_balance_empty: "gb_fixed gb = [] \<Longrightarrow> books_balance True p gb []"
  by (simp add: books_balance_def fixed_ok_def shares_of_def entries_def store_simps
      fetch_last_validator_fixed_value_def fetch_last_validator_fixed_def prefix_of_def newest_upto_def)

lemma books_balance_cong:
  assumes "gb_fixed gb' = gb_fixed gb"
  shows "books_balance exact p gb' users = books_balance exact p gb users"
  using fixed_at_cong [OF assms] fixed_ok_cong [OF assms] by (simp add: books_balance_def)

lemma books_balance_later:
  assumes "books_balance exact p gb users" and "p \<le> q"
  shows "books_balance exact q gb users"
proof -
  have "fixed_ok (p + 1) gb" "p + 1 \<le> q + 1" using assms by (simp_all add: books_balance_def)
  then show ?thesis
    using assms fixed_at_later [of "p + 1" gb "q + 1"] fixed_ok_mono [of "p + 1" gb "q + 1"] by (simp add: books_balance_def)
qed

lemma books_balance_weaken: "books_balance exact p gb users \<Longrightarrow> books_balance False p gb users"
  by (simp add: books_balance_def)

section \<open>Votes in and out\<close>

lemma apply_votes_adds:
  assumes "apply_votes_of_user votes p vp li gb = (Ok (), gb')" and "fixed_ok (p + 1) gb"
  shows "fixed_ok (p + 1) gb' \<and> (\<forall>v. fixed_at gb' (p + 1) v = fixed_at gb (p + 1) v + share votes (li_fixed_amount li) v)"
  using assms
proof (induction votes arbitrary: gb)
  case Nil
  then show ?case by (simp add: apply_votes_of_user_def)
next
  case (Cons e votes)
  let ?x = "li_fixed_amount li"
  obtain v b where e: "e = (v, b)" by (cases e)
  from Cons.prems(1) obtain gb2 gb3 where add: "add_fixed_vamp (p + 1) v (?x * b div BPS_MAX) gb = (Ok (), gb2)"
    and vote: "vote_for_validator (p + 1) v b vp (li_slope li) (li_end li) gb2 = (Ok (), gb3)"
    and rest: "apply_votes_of_user votes p vp li gb3 = (Ok (), gb')"
    by (auto simp: apply_votes_of_user_def e act_simps num_Ok bps_mul_uint_Ok)
  note put = add_fixed_vamp_Ok [OF add]
  have same: "gb_fixed gb3 = gb_fixed gb2"
    using vote_for_validator_fixed [of "p + 1" v b vp "li_slope li" "li_end li" gb2] unfolding vote by simp
  have "wf_store (gb_fixed gb)" using Cons.prems(2) by (simp add: fixed_ok_def)
  note at = fixed_at_put [OF this put]
  have "fixed_ok (p + 1) gb3"
    using fixed_ok_put [OF Cons.prems(2) order.refl put] fixed_ok_cong [OF same] by simp
  moreover have "fixed_at gb3 (p + 1) w = (if w = v then fixed_at gb (p + 1) v + ?x * b div BPS_MAX else fixed_at gb (p + 1) w)" for w
    by (simp only: fixed_at_cong [OF same] at)
  ultimately show ?case using Cons.IH [OF rest] by (auto simp: e)
qed

lemma remove_votes_outcome:
  assumes "fixed_ok (p + 1) gb" and "remove_votes_of_user ui p gb = (r, gb')"
  shows "fixed_ok (p + 1) gb'" and "fixed_at gb (p + 1) v \<le> fixed_at gb' (p + 1) v + user_share v ui"
    and "r = Ok () \<Longrightarrow> fixed_at gb (p + 1) v = fixed_at gb' (p + 1) v + user_share v ui"
  using remove_votes_gives_back [OF assms(1), of ui] assms(2) by (simp_all add: gives_back_def user_share_def)

lemma user_share_default [simp]: "user_share v default_amp_user = 0"
  by (simp add: user_share_def default_amp_user_def)

lemma stored_share_or: "stored_share users a v = user_share v (unwrap_or (get users a) default_amp_user)"
  by (simp add: stored_share_def unwrap_or_def split: option.split)

text \<open>A user's votes are replaced.\<close>

lemma balance_revote:
  assumes inv: "books_balance exact p gb users"
    and out: "remove_votes_of_user (unwrap_or (get users a) default_amp_user) p gb = (Ok (), gb1)"
    and into: "apply_votes_of_user votes p vp li gb1 = (Ok (), gb2)"
    and ui: "au_votes ui = votes" "au_fixed_amount ui = li_fixed_amount li"
  shows "books_balance exact p gb2 (put a ui users)"
proof -
  have ok: "fixed_ok (p + 1) gb" and wf: "wf_store users" using inv by (simp_all add: books_balance_def)
  note r = remove_votes_outcome [OF ok out]
  note i = apply_votes_adds [OF into r(1)]
  have "fixed_at gb2 (p + 1) v + stored_share users a v = fixed_at gb (p + 1) v + user_share v ui" for v
    using r(3) [OF refl, of v] i by (simp add: stored_share_or user_share_def ui)
  moreover note shares_put [OF wf, of a ui]
  ultimately show ?thesis
    using inv i wf unfolding books_balance_def by (metis add_le_cancel_right add_le_mono1 add_right_cancel om.invar_put)
qed

text \<open>A user's votes count nothing any more.\<close>

lemma balance_clear:
  assumes inv: "books_balance exact p gb users" and out: "remove_votes_of_user old p gb = (Ok (), gb1)"
    and old: "get users a = Some old" and ui: "au_fixed_amount ui = 0"
  shows "books_balance exact p gb1 (put a ui users)"
proof -
  have ok: "fixed_ok (p + 1) gb" and wf: "wf_store users" using inv by (simp_all add: books_balance_def)
  note r = remove_votes_outcome [OF ok out]
  have "fixed_at gb1 (p + 1) v + stored_share users a v = fixed_at gb (p + 1) v" for v
    using r(3) [OF refl, of v] by (simp add: stored_share_def old)
  moreover have "shares_of (put a ui users) v + stored_share users a v = shares_of users v" for v
    using shares_put [OF wf, of a ui v] by (simp add: user_share_def ui)
  ultimately show ?thesis
    using inv r(1) wf unfolding books_balance_def by (metis add_le_cancel_right add_right_cancel om.invar_put)
qed

text \<open>A user is removed, whether or not the votes could be taken out.\<close>

lemma balance_removed:
  assumes inv: "books_balance exact p gb users" and out: "remove_votes_of_user old p gb = (r, gb1)"
    and old: "get users a = Some old" and ex: "exact' \<Longrightarrow> exact \<and> r = Ok ()"
  shows "books_balance exact' p gb1 (del a users)"
proof -
  have ok: "fixed_ok (p + 1) gb" and wf: "wf_store users" using inv by (simp_all add: books_balance_def)
  note r = remove_votes_outcome [OF ok out]
  have d: "shares_of (del a users) v + user_share v old = shares_of users v" for v
    using shares_del [OF wf, of a v] by (simp add: stored_share_def old)
  have "shares_of (del a users) v \<le> fixed_at gb1 (p + 1) v" for v
  proof -
    have "shares_of users v \<le> fixed_at gb (p + 1) v" using inv by (simp add: books_balance_def)
    with d [of v] r(2) [of v] show ?thesis by linarith
  qed
  moreover have "fixed_at gb1 (p + 1) v = shares_of (del a users) v" if "exact'" for v
  proof -
    have "fixed_at gb (p + 1) v = shares_of users v" using inv ex [OF that] by (simp add: books_balance_def)
    with d [of v] r(3) [of v] ex [OF that] show ?thesis by linarith
  qed
  ultimately show ?thesis using wf r(1) by (simp add: books_balance_def)
qed

end
