(* ===== verification/GaugeReach.thy ===== *)
theory GaugeReach
  imports GaugeShares
begin

text \<open>Every message of the amp gauge keeps the balance of the fixed amounts; the states it can reach.\<close>

section \<open>The handlers\<close>

lemma committed_iff: "committed m = Ok z \<longleftrightarrow> m = (Ok (fst z), snd z)"
  by (cases m rule: committed.cases; cases z) auto

lemma save_votes_Ok:
  "save_votes env user votes p li st = Ok st' \<longleftrightarrow>
    (\<exists>gb. apply_votes_of_user votes p (li_voting_power li) li (am_books st) = (Ok (), gb)
      \<and> st' = st\<lparr>am_books := gb, am_users := put user
       \<lparr>au_vote_ts = env_time env, au_voting_power = li_voting_power li, au_slope = li_slope li, au_lock_end = li_end li,
        au_votes = votes, au_fixed_amount = li_fixed_amount li\<rparr> (am_users st)\<rparr>)"
  by (auto simp: save_votes_def and_then_Ok map_err_Ok committed_Ok)

text \<open>What a successful vote did.\<close>

lemma handle_vote_Ok:
  assumes "handle_vote deps env st info votes = Ok (st', resp)"
  obtains p cfg li allowed votes' gb gb' where "get_period (env_time env) = Ok p" "am_config st = Some cfg"
    "gd_lock_info deps (ac_escrow_addr cfg) (info_sender info) = Ok li"
    "li_voting_power li + li_fixed_amount li \<noteq> 0" "length votes = card (fst ` set votes)"
    "gd_hub_validators deps (ac_hub_addr cfg) = Ok allowed" "traverse (check_vote allowed) votes = Ok votes'"
    "is_ok (try_fold bps_checked_add 0 (map snd votes') :: (basic_points, std_error) result)"
    "remove_votes_of_user (unwrap_or (get (am_users st) (info_sender info)) default_amp_user) p (am_books st) = (Ok (), gb)"
    "apply_votes_of_user votes' p (li_voting_power li) li gb = (Ok (), gb')"
    "st' = st\<lparr>am_books := gb', am_users := put (info_sender info)
       \<lparr>au_vote_ts = env_time env, au_voting_power = li_voting_power li, au_slope = li_slope li, au_lock_end = li_end li,
        au_votes = votes', au_fixed_amount = li_fixed_amount li\<rparr> (am_users st)\<rparr>"
proof -
  note u = assms [unfolded handle_vote_def Let_def and_then_Ok map_err_Ok load_item_Ok guard_Ok split_beta committed_iff save_votes_Ok]
  show thesis
    using u by (elim exE conjE) (rule that, auto simp: num_Ok is_ok_iff)
qed

lemma update_vote_Ok:
  assumes "update_vote deps env st info u li = Ok (st', resp)"
  obtains (none) a where "gd_addr_validate deps u = Ok a" "get (am_users st) a = None" "st' = st"
  | (cleared) a p ui gb where "gd_addr_validate deps u = Ok a" "get (am_users st) a = Some ui" "get_period (env_time env) = Ok p"
      "remove_votes_of_user ui p (am_books st) = (Ok (), gb)" "li_voting_power li = 0" "li_fixed_amount li = 0"
      "st' = st\<lparr>am_books := gb, am_users := put a \<lparr>au_vote_ts = env_time env, au_voting_power = 0, au_slope = li_slope li,
         au_lock_end = li_end li, au_votes = au_votes ui, au_fixed_amount = li_fixed_amount li\<rparr> (am_users st)\<rparr>"
  | (changed) a p ui gb gb' where "gd_addr_validate deps u = Ok a" "get (am_users st) a = Some ui" "get_period (env_time env) = Ok p"
      "remove_votes_of_user ui p (am_books st) = (Ok (), gb)"
      "apply_votes_of_user (au_votes ui) p (li_voting_power li) li gb = (Ok (), gb')"
      "st' = st\<lparr>am_books := gb', am_users := put a \<lparr>au_vote_ts = env_time env, au_voting_power = li_voting_power li,
         au_slope = li_slope li, au_lock_end = li_end li, au_votes = au_votes ui, au_fixed_amount = li_fixed_amount li\<rparr> (am_users st)\<rparr>"
proof -
  note u = assms [unfolded update_vote_def Let_def and_then_Ok map_err_Ok load_item_Ok guard_Ok]
  show thesis
  proof (cases "get (am_users st) (case gd_addr_validate deps u of Ok a \<Rightarrow> a | _ \<Rightarrow> [])")
    case None
    with u show thesis by (elim exE conjE) (rule none, auto)
  next
    case (Some ui)
    show thesis
    proof (cases "li_voting_power li = 0 \<and> li_fixed_amount li = 0")
      case True
      with u Some obtain p a gb where f: "gd_addr_validate deps u = Ok a" "get (am_users st) a = Some ui"
          "get_period (env_time env) = Ok p" "remove_votes_of_user ui p (am_books st) = (Ok (), gb)"
        and s: "st' = st\<lparr>am_books := gb, am_users := put a \<lparr>au_vote_ts = env_time env, au_voting_power = 0, au_slope = li_slope li,
         au_lock_end = li_end li, au_votes = au_votes ui, au_fixed_amount = li_fixed_amount li\<rparr> (am_users st)\<rparr>"
        by (auto simp: and_then_Ok map_err_Ok committed_Ok)
      show thesis using True by (intro cleared [OF f _ _ s]) auto
    next
      case False
      with u Some obtain p a x gb st1 where f: "get_period (env_time env) = Ok p" "gd_addr_validate deps u = Ok a"
        "get (am_users st) a = Some ui" "remove_votes_of_user ui p (am_books st) = (Ok (), gb)"
        and s: "save_votes env a (au_votes ui) p li (st\<lparr>am_books := gb\<rparr>) = Ok st1" "st' = st1"
        by (auto simp: and_then_Ok map_err_Ok committed_Ok)
      from s obtain gb' where "apply_votes_of_user (au_votes ui) p (li_voting_power li) li gb = (Ok (), gb')"
        "st' = st\<lparr>am_books := gb', am_users := put a \<lparr>au_vote_ts = env_time env, au_voting_power = li_voting_power li,
         au_slope = li_slope li, au_lock_end = li_end li, au_votes = au_votes ui, au_fixed_amount = li_fixed_amount li\<rparr> (am_users st)\<rparr>"
        by (auto simp: save_votes_Ok)
      with f show thesis by (intro changed) auto
    qed
  qed
qed

lemma remove_user_Ok:
  assumes "remove_user deps env st info u = Ok (st', resp)"
  obtains (none) a where "gd_addr_validate deps u = Ok a" "get (am_users st) a = None" "st' = st"
  | (gone) a p ui r gb where "gd_addr_validate deps u = Ok a" "get (am_users st) a = Some ui" "get_period (env_time env) = Ok p"
      "remove_votes_of_user ui p (am_books st) = (r, gb)" "r \<noteq> Panic"
      "st' = st\<lparr>am_users := del a (am_users st), am_books := gb\<rparr>"
      "resp = add_attributes new_response [(''action'', ''vamp/remove_user''),
         (''remove_votes'', case r of Err e \<Rightarrow> gd_show_error deps (GaugeStd e) | _ \<Rightarrow> ''ok'')]"
proof -
  note u = assms [unfolded remove_user_def Let_def and_then_Ok map_err_Ok load_item_Ok guard_Ok]
  show thesis
  proof (cases "get (am_users st) (case gd_addr_validate deps u of Ok a \<Rightarrow> a | _ \<Rightarrow> [])")
    case None
    with u show thesis by (elim exE conjE) (rule none, auto)
  next
    case (Some ui)
    with u obtain a p where f: "gd_addr_validate deps u = Ok a" "get (am_users st) a = Some ui" "get_period (env_time env) = Ok p"
      by (auto simp: and_then_Ok map_err_Ok)
    obtain r gb where r: "remove_votes_of_user ui p (am_books st) = (r, gb)" by (cases "remove_votes_of_user ui p (am_books st)")
    show thesis using u f r by (intro gone [OF f r]) (cases r; auto simp: and_then_Ok map_err_Ok)+
  qed
qed

lemma tune_step_fixed: "tune_step p acc v = Ok acc' \<Longrightarrow> gb_fixed (fst acc') = gb_fixed (fst acc)"
  using update_validator_info_fixed [of p v None "fst acc"]
  by (cases acc) (auto simp: tune_step_def and_then_Ok committed_Ok)

lemma tune_vamp_Ok:
  assumes "tune_vamp deps env st info = Ok (st', resp)"
  obtains cfg p gb votes tune points where "am_config st = Some cfg" "info_sender info = ac_owner cfg"
    "get_period (env_time env) = Ok p"
    "try_fold (tune_step p) (am_books st, []) (map fst (entries (gb_validators (am_books st)))) = Ok (gb, votes)"
    "am_tune_info st = Some tune"
    "filter_validators deps (ac_hub_addr cfg) (sorted_desc snd (filter (\<lambda>e. snd e \<noteq> 0) votes)) (ac_validators_limit cfg) = Ok points"
    "points \<noteq> []"
    "st' = st\<lparr>am_books := gb, am_tune_info := Some (tune\<lparr>ag_vamp_points := points, ag_tune_ts := env_time env\<rparr>)\<rparr>"
proof -
  note u = assms [unfolded tune_vamp_def Let_def and_then_Ok map_err_Ok load_item_Ok guard_Ok split_beta]
  show thesis
    using u by (elim exE conjE) (rule that, auto simp: amp_assert_owner_def split: if_splits)
qed

section \<open>Every message keeps the balance\<close>

text \<open>The message is no removal of a user whose votes cannot be taken out (the gauge goes on after that error).\<close>

fun removes_cleanly :: "gauge_deps \<Rightarrow> env \<Rightarrow> amp_state \<Rightarrow> amp_execute_msg \<Rightarrow> bool" where
  "removes_cleanly deps env st (RemoveUser u) =
     (case and_then (gd_addr_validate deps u) (\<lambda>a.
             case get (am_users st) a of
               Some ui \<Rightarrow> and_then (get_period (env_time env)) (\<lambda>p. fst (remove_votes_of_user ui p (am_books st)))
             | None \<Rightarrow> Ok ()) of
        Ok _ \<Rightarrow> True
      | _ \<Rightarrow> False)"
| "removes_cleanly deps env st _ = True"

lemma removes_cleanly_user:
  assumes "removes_cleanly deps env st (RemoveUser u)" and "gd_addr_validate deps u = Ok a" and "get (am_users st) a = Some ui"
    and "get_period (env_time env) = Ok p" and "remove_votes_of_user ui p (am_books st) = (r, gb)"
  shows "r = Ok ()"
  using assms by (cases r) auto

lemma tune_keeps_fixed:
  assumes "try_fold (tune_step p) (gb0, []) vs = Ok (gb, votes)"
  shows "gb_fixed gb = gb_fixed gb0"
proof -
  have "gb_fixed (fst (gb, votes)) = gb_fixed gb0"
    by (rule try_fold_invariant [OF assms]) (auto dest: tune_step_fixed)
  then show ?thesis by simp
qed

lemma remove_user_balance:
  assumes "remove_user deps env st info u = Ok (st', resp)" and inv: "amp_inv exact p st"
    and per: "get_period (env_time env) = Ok p"
  shows "amp_inv (exact \<and> removes_cleanly deps env st (RemoveUser u)) p st'"
  using assms(1)
proof (cases rule: remove_user_Ok)
  case none
  with inv show ?thesis by (auto simp: books_balance_def)
next
  case (gone a q ui r gb)
  with per have q: "q = p" by simp
  have "exact \<and> r = Ok ()" if "exact \<and> removes_cleanly deps env st (RemoveUser u)"
    using that removes_cleanly_user [OF _ gone(1-4)] by simp
  from balance_removed [OF inv gone(4) [unfolded q] gone(2) this] gone(6) show ?thesis by simp
qed

lemma update_vote_balance:
  assumes "update_vote deps env st info u li = Ok (st', resp)" and inv: "amp_inv exact p st"
    and per: "get_period (env_time env) = Ok p"
  shows "amp_inv exact p st'"
  using assms(1)
proof (cases rule: update_vote_Ok)
  case (cleared a q ui gb)
  with per have q: "q = p" by simp
  show ?thesis using balance_clear [OF inv cleared(4) [unfolded q] cleared(2)] cleared(6,7) by simp
next
  case (changed a q ui gb gb')
  with per have q: "q = p" by simp
  have out: "remove_votes_of_user (unwrap_or (get (am_users st) a) default_amp_user) p (am_books st) = (Ok (), gb)"
    using changed(2,4) q by simp
  show ?thesis using balance_revote [OF inv out changed(5) [unfolded q]] changed(6) by simp
qed (use inv in simp)

lemma amp_execute_balance:
  assumes "amp_execute deps env st info msg = Ok (st', resp)" and inv: "amp_inv exact p st"
    and per: "get_period (env_time env) = Ok p"
  shows "amp_inv (exact \<and> removes_cleanly deps env st msg) p st'"
proof (cases msg)
  case (Vote votes)
  with assms(1) have "handle_vote deps env st info votes = Ok (st', resp)" by simp
  then show ?thesis
  proof (cases rule: handle_vote_Ok)
    case (1 q cfg li allowed votes' gb gb')
    with per have q: "q = p" by simp
    show ?thesis using balance_revote [OF inv 1(9,10) [unfolded q]] 1(11) Vote by simp
  qed
next
  case (AmpUpdateVote u li)
  with assms update_vote_balance [OF _ inv per] show ?thesis by simp
next
  case (RemoveUser u)
  with assms remove_user_balance [OF _ inv per] show ?thesis by simp
next
  case TuneVamp
  with assms(1) have "tune_vamp deps env st info = Ok (st', resp)" by simp
  then show ?thesis
  proof (cases rule: tune_vamp_Ok)
    case (1 cfg q gb votes tune points)
    show ?thesis using books_balance_cong [OF tune_keeps_fixed [OF 1(4)]] inv 1(8) TuneVamp by simp
  qed
qed (use assms in \<open>auto simp: amp_update_config_def and_then_Ok\<close>)

section \<open>Reachable states\<close>

text \<open>
  The flag says that no user was removed whose votes could not be taken out; the period is that of the last message.
\<close>

inductive amp_reachable :: "bool \<Rightarrow> u64 \<Rightarrow> amp_state \<Rightarrow> bool" where
  amp_start: "amp_instantiate deps env msg empty_amp = Ok (st, resp) \<Longrightarrow> get_period (env_time env) = Ok p \<Longrightarrow> amp_reachable True p st"
| amp_message: "amp_reachable exact T st \<Longrightarrow> amp_execute deps env st info msg = Ok (st', resp) \<Longrightarrow>
    get_period (env_time env) = Ok p \<Longrightarrow> T \<le> p \<Longrightarrow> amp_reachable (exact \<and> removes_cleanly deps env st msg) p st'"
| amp_migration: "amp_reachable exact T st \<Longrightarrow> amp_migrate deps st = Ok (st', resp) \<Longrightarrow> amp_reachable exact T st'"
| amp_wait: "amp_reachable exact T st \<Longrightarrow> T \<le> p \<Longrightarrow> amp_reachable exact p st"

lemma amp_reachable_inv: "amp_reachable exact T st \<Longrightarrow> amp_inv exact T st"
proof (induction rule: amp_reachable.induct)
  case (amp_start deps env msg st resp p)
  then have "gb_fixed (am_books st) = []" "am_users st = []"
    by (auto simp: amp_instantiate_def and_then_Ok empty_amp_def empty_books_def)
  then show ?case by (simp add: books_balance_empty)
next
  case (amp_message exact T st deps env info msg st' resp p)
  from amp_execute_balance [OF amp_message.hyps(2) books_balance_later [OF amp_message.IH amp_message.hyps(4)] amp_message.hyps(3)]
  show ?case .
next
  case (amp_migration exact T st deps st' resp)
  then have "am_books st' = am_books st" "am_users st' = am_users st"
    by (auto simp: amp_migrate_def and_then_Ok Let_def guard_Ok)
  with amp_migration.IH show ?case by simp
next
  case (amp_wait exact T st p)
  from books_balance_later [OF amp_wait.IH amp_wait.hyps(2)] show ?case .
qed

end
