(* ===== verification/VoteSystem.thy ===== *)
theory VoteSystem
  imports EscrowPushes GaugeReach
begin

text \<open>
  The voting escrow and the amp gauge together: the gauge asks the escrow for a lock when a user votes, and every push of the
  escrow is delivered to the gauge in the same transaction.
\<close>

section \<open>Delivery of the pushes\<close>

text \<open>The updates of a response that are meant for the gauge, and their execution, sent by the escrow; an error reverts all.\<close>

fun push_to :: "addr \<Rightarrow> escrow_payload sub_msg \<Rightarrow> (addr \<times> lock_info) option" where
  "push_to gauge (PlainMsg (WasmExecute c (UpdateVote a li) funds)) = (if c = gauge then Some (a, li) else None)"
| "push_to gauge _ = None"

definition pushes_to :: "addr \<Rightarrow> escrow_payload sub_msg list \<Rightarrow> (addr \<times> lock_info) list" where
  "pushes_to gauge ms = List.map_filter (push_to gauge) ms"

fun deliver :: "gauge_deps \<Rightarrow> env \<Rightarrow> addr \<Rightarrow> (addr \<times> lock_info) list \<Rightarrow> amp_state \<Rightarrow> (amp_state, gauge_error) result" where
  "deliver deps env escrow [] st = Ok st"
| "deliver deps env escrow ((a, li) # ps) st =
     and_then (amp_execute deps env st \<lparr>info_sender = escrow, info_funds = []\<rparr> (AmpUpdateVote a li))
       (\<lambda>(st', _). deliver deps env escrow ps st')"

lemma push_to_Some: "push_to g m = Some (a, li) \<longleftrightarrow> (\<exists>funds. m = PlainMsg (WasmExecute g (UpdateVote a li) funds))"
  by (cases "(g, m)" rule: push_to.cases) auto

lemma in_pushes_to: "(a, li) \<in> set (pushes_to g ms) \<longleftrightarrow> (\<exists>funds. PlainMsg (WasmExecute g (UpdateVote a li) funds) \<in> set ms)"
  by (force simp: pushes_to_def map_filter_def push_to_Some)

text \<open>The fixed amount of a stored vote is a given function of the user.\<close>

definition amounts_are :: "(addr \<Rightarrow> u128) \<Rightarrow> (addr \<Rightarrow> bool) \<Rightarrow> amp_state \<Rightarrow> bool" where
  "amounts_are f P st \<longleftrightarrow> (\<forall>a ui. P a \<longrightarrow> get (am_users st) a = Some ui \<longrightarrow> au_fixed_amount ui = f a)"

lemma amounts_put:
  assumes "amounts_are f P st" and "am_users st' = put a ui (am_users st)" and "au_fixed_amount ui = f a"
  shows "amounts_are f (\<lambda>b. P b \<or> b = a) st'"
  using assms by (auto simp: amounts_are_def store_simps)

text \<open>Validation returns the address it was given.\<close>

definition same_address :: "gauge_deps \<Rightarrow> bool" where
  "same_address deps \<longleftrightarrow> (\<forall>s a. gd_addr_validate deps s = Ok a \<longrightarrow> a = s)"

lemma update_vote_amount:
  assumes "update_vote deps env st info a li = Ok (st', resp)" and "same_address deps"
    and "li_fixed_amount li = f a" and "amounts_are f P st"
  shows "amounts_are f (\<lambda>b. P b \<or> b = a) st'" and "am_config st' = am_config st"
proof -
  have "amounts_are f (\<lambda>b. P b \<or> b = a) st' \<and> am_config st' = am_config st"
    using assms(1)
  proof (cases rule: update_vote_Ok)
    case (none b)
    then have "b = a" using assms(2) by (auto simp: same_address_def)
    with none assms(4) show ?thesis by (auto simp: amounts_are_def)
  next
    case (cleared b p ui gb)
    then have "b = a" using assms(2) by (auto simp: same_address_def)
    with cleared(7) assms(3) amounts_put [OF assms(4)] show ?thesis by simp
  next
    case (changed b p ui gb gb')
    then have "b = a" using assms(2) by (auto simp: same_address_def)
    with changed(6) assms(3) amounts_put [OF assms(4)] show ?thesis by simp
  qed
  then show "amounts_are f (\<lambda>b. P b \<or> b = a) st'" "am_config st' = am_config st" by blast+
qed

lemma deliver_amounts:
  assumes "deliver deps env e ps st = Ok st'" and "same_address deps" and "amounts_are f P st"
    and "\<forall>(a, li) \<in> set ps. li_fixed_amount li = f a"
  shows "amounts_are f (\<lambda>b. P b \<or> b \<in> fst ` set ps) st' \<and> am_config st' = am_config st"
  using assms(1,3,4)
proof (induction ps arbitrary: st P)
  case Nil
  then show ?case by simp
next
  case (Cons q ps)
  obtain a li where q: "q = (a, li)" by (cases q)
  with Cons.prems(1) obtain st1 r where u: "update_vote deps env st \<lparr>info_sender = e, info_funds = []\<rparr> a li = Ok (st1, r)"
    and rest: "deliver deps env e ps st1 = Ok st'"
    by (auto simp: and_then_Ok)
  have fx: "li_fixed_amount li = f a" using Cons.prems(3) q by simp
  note s = update_vote_amount [OF u assms(2) fx Cons.prems(2)]
  have told: "\<forall>(a, li) \<in> set ps. li_fixed_amount li = f a" using Cons.prems(3) by simp
  from Cons.IH [OF rest s(1) told] s(2) show ?case by (simp add: q amounts_are_def disj_assoc)
qed

section \<open>Reachable states of both\<close>

text \<open>
  The gauge was started for the escrow. Before the gauge is registered the escrow does not tell it anything: a message of the escrow is
  \<open>heard\<close> when the gauge is among the contracts the escrow pushes to, or when it changes the amount of no user whose vote the gauge
  stores. The gauge's messages come from other accounts, and it reads the lock of a voter from the escrow.
\<close>

definition followed_by :: "escrow_state \<Rightarrow> addr \<Rightarrow> bool" where
  "followed_by st gauge \<longleftrightarrow> (\<exists>cfg. ve_config st = Some cfg \<and> gauge \<in> set (ec_push_update_contracts cfg))"

definition heard :: "addr \<Rightarrow> amp_state \<Rightarrow> escrow_state \<Rightarrow> escrow_state \<Rightarrow> bool" where
  "heard gauge g es es' \<longleftrightarrow> followed_by es gauge \<or> (\<forall>a. get (am_users g) a \<noteq> None \<longrightarrow> counted_by es' a = counted_by es a)"

definition asks :: "gauge_deps \<Rightarrow> addr \<Rightarrow> escrow_deps \<Rightarrow> env \<Rightarrow> escrow_state \<Rightarrow> bool" where
  "asks gd escrow deps env st \<longleftrightarrow> (\<forall>a li. gd_lock_info gd escrow a = Ok li \<longrightarrow>
     ed_addr_validate deps a = Ok a \<and> get_user_lock_info deps env st a = Ok li)"

inductive votes_reachable :: "addr \<Rightarrow> addr \<Rightarrow> bool \<Rightarrow> u64 \<Rightarrow> escrow_state \<Rightarrow> amp_state \<Rightarrow> bool" for escrow :: addr and gauge :: addr where
  votes_start: "escrow_reachable escrow T es \<Longrightarrow> amp_instantiate gd env msg empty_amp = Ok (g, resp) \<Longrightarrow>
    gd_addr_validate gd (ai_escrow_addr msg) = Ok escrow \<Longrightarrow> get_period (env_time env) = Ok T \<Longrightarrow>
    votes_reachable escrow gauge True T es g"
| votes_escrow: "votes_reachable escrow gauge exact T es g \<Longrightarrow> env_contract env = escrow \<Longrightarrow>
    escrow_execute deps env es info msg = Ok (es', resp) \<Longrightarrow> from_outside deps env info msg \<Longrightarrow> proper_addresses deps info \<Longrightarrow>
    \<not> administrative msg \<Longrightarrow> heard gauge g es es' \<Longrightarrow> get_period (env_time env) = Ok p \<Longrightarrow> T \<le> p \<Longrightarrow>
    same_address gd \<Longrightarrow> deliver gd env escrow (pushes_to gauge (resp_msgs resp)) g = Ok g' \<Longrightarrow>
    votes_reachable escrow gauge exact p es' g'"
| votes_admin: "votes_reachable escrow gauge exact T es g \<Longrightarrow> env_contract env = escrow \<Longrightarrow>
    escrow_execute deps env es info msg = Ok (es', resp) \<Longrightarrow> from_outside deps env info msg \<Longrightarrow> administrative msg \<Longrightarrow>
    get_period (env_time env) = Ok p \<Longrightarrow> T \<le> p \<Longrightarrow> votes_reachable escrow gauge exact p es' g"
| votes_gauge: "votes_reachable escrow gauge exact T es g \<Longrightarrow> amp_execute gd env g info msg = Ok (g', resp) \<Longrightarrow>
    info_sender info \<noteq> escrow \<Longrightarrow> same_address gd \<Longrightarrow> env_time env = env_time eenv \<Longrightarrow> asks gd escrow deps eenv es \<Longrightarrow>
    get_period (env_time env) = Ok p \<Longrightarrow> T \<le> p \<Longrightarrow>
    votes_reachable escrow gauge (exact \<and> removes_cleanly gd env g msg) p es g'"
| votes_migrations: "votes_reachable escrow gauge exact T es g \<Longrightarrow>
    escrow_migrate deps es = Ok (es', r1) \<Longrightarrow> amp_migrate gd g = Ok (g', r2) \<Longrightarrow> votes_reachable escrow gauge exact T es' g'"

definition in_step :: "addr \<Rightarrow> escrow_state \<Rightarrow> amp_state \<Rightarrow> bool" where
  "in_step escrow es g \<longleftrightarrow> (\<exists>cfg. am_config g = Some cfg \<and> ac_escrow_addr cfg = escrow)
     \<and> amounts_are (counted_by es) (\<lambda>_. True) g"

lemma gauge_message_in_step:
  assumes x: "amp_execute gd env g info msg = Ok (g', resp)" and ne: "info_sender info \<noteq> escrow"
    and inv: "escrow_inv escrow p es" and per: "get_period (env_time env) = Ok p" "env_time env = env_time eenv"
    and asks: "asks gd escrow deps eenv es" and st: "in_step escrow es g"
  shows "in_step escrow es g'"
proof -
  obtain cfg where cfg: "am_config g = Some cfg" "ac_escrow_addr cfg = escrow" and am: "amounts_are (counted_by es) (\<lambda>_. True) g"
    using st by (auto simp: in_step_def)
  show ?thesis
  proof (cases msg)
    case (Vote votes)
    with x have "handle_vote gd env g info votes = Ok (g', resp)" by simp
    then show ?thesis
    proof (cases rule: handle_vote_Ok)
      case (1 q cfg' li allowed votes' gb gb')
      have l: "gd_lock_info gd escrow (info_sender info) = Ok li" using 1(2,3) cfg by simp
      with asks have v: "ed_addr_validate deps (info_sender info) = Ok (info_sender info)"
        "get_user_lock_info deps eenv es (info_sender info) = Ok li"
        by (simp_all add: asks_def)
      have "get_period (env_time eenv) = Ok p" using per by simp
      from lock_info_fixed [OF inv this v(2,1)] have "li_fixed_amount li = counted_by es (info_sender info)" .
      then have "amounts_are (counted_by es) (\<lambda>b. True \<or> b = info_sender info) g'"
        by (intro amounts_put [OF am]) (auto simp: 1(11))
      then show ?thesis using cfg by (simp add: in_step_def 1(11))
    qed
  next
    case (AmpUpdateVote u li)
    with x cfg ne show ?thesis by (auto simp: update_vote_def and_then_Ok)
  next
    case (RemoveUser u)
    with x have "remove_user gd env g info u = Ok (g', resp)" by simp
    then show ?thesis
      by (cases rule: remove_user_Ok) (use cfg am in \<open>auto simp: in_step_def amounts_are_def store_simps\<close>)
  next
    case TuneVamp
    with x have "tune_vamp gd env g info = Ok (g', resp)" by simp
    then show ?thesis
      by (cases rule: tune_vamp_Ok) (use cfg am in \<open>auto simp: in_step_def amounts_are_def\<close>)
  qed (use x cfg am in \<open>auto simp: in_step_def amounts_are_def amp_update_config_def and_then_Ok split: option.splits\<close>)
qed

lemma escrow_message_in_step:
  assumes x: "escrow_execute deps env es info msg = Ok (es', resp)" and out: "from_outside deps env info msg"
    and val: "proper_addresses deps info" and nadm: "\<not> administrative msg" and fol: "heard gauge g es es'"
    and inv: "escrow_inv (env_contract env) p es" and per: "get_period (env_time env) = Ok p" and same: "same_address gd"
    and d: "deliver gd env (env_contract env) (pushes_to gauge (resp_msgs resp)) g = Ok g'"
    and st: "in_step (env_contract env) es g" and inv': "escrow_inv (env_contract env) p es'"
  shows "in_step (env_contract env) es' g'"
proof -
  let ?ps = "pushes_to gauge (resp_msgs resp)"
  obtain cfg where cfg: "ve_config es = Some cfg" using inv by (auto simp: escrow_inv_def)
  have ann: "announces deps env cfg es es' resp" by (rule escrow_execute_announces [OF x nadm inv per out val cfg])
  have truth: "li_fixed_amount li = counted_by es' a" if "(a, li) \<in> set ?ps" for a li
  proof -
    have li: "get_user_lock_info deps env es' a = Ok li"
      using that ann by (auto simp: announces_def tells_truth_def in_pushes_to)
    then obtain b where b: "ed_addr_validate deps a = Ok b" by (auto simp: get_user_lock_info_def and_then_Ok map_err_Ok)
    have "li_fixed_amount li = counted_by es' b" by (rule lock_info_fixed [OF inv' per li b])
    moreover have "b = a" using val b by (auto simp: proper_addresses_def)
    ultimately show ?thesis by simp
  qed
  have start: "amounts_are (counted_by es') (\<lambda>a. counted_by es' a = counted_by es a) g"
    using st by (auto simp: in_step_def amounts_are_def)
  have "amounts_are (counted_by es') (\<lambda>_. True) g' \<and> am_config g' = am_config g"
  proof (cases "followed_by es gauge")
    case True
    then have push: "gauge \<in> set (ec_push_update_contracts cfg)" using cfg by (simp add: followed_by_def)
    from deliver_amounts [OF d same start] truth
    have a: "amounts_are (counted_by es') (\<lambda>b. counted_by es' b = counted_by es b \<or> b \<in> fst ` set ?ps) g'"
      and c: "am_config g' = am_config g"
      by auto
    have "b \<in> fst ` set ?ps" if "counted_by es' b \<noteq> counted_by es b" for b
    proof -
      from that ann push obtain li where "update_for gauge b li \<in> set (resp_msgs resp)"
        unfolding announces_def tells_all_def by blast
      then have "(b, li) \<in> set ?ps" by (auto simp: in_pushes_to update_for_def)
      then show ?thesis by force
    qed
    with a c show ?thesis unfolding amounts_are_def by blast
  next
    case False
    then have "amounts_are (counted_by es') (\<lambda>_. True) g" using fol start by (auto simp: heard_def amounts_are_def)
    from deliver_amounts [OF d same this] truth show ?thesis by (auto simp: amounts_are_def)
  qed
  then show ?thesis using st by (simp add: in_step_def)
qed

lemma deliver_reachable:
  assumes "deliver deps env e ps st = Ok st'" and "amp_reachable exact p st" and "get_period (env_time env) = Ok p"
  shows "amp_reachable exact p st'"
  using assms(1,2)
proof (induction ps arbitrary: st)
  case Nil
  then show ?case by simp
next
  case (Cons q ps)
  obtain a li where q: "q = (a, li)" by (cases q)
  with Cons.prems(1) obtain st1 r where
    u: "amp_execute deps env st \<lparr>info_sender = e, info_funds = []\<rparr> (AmpUpdateVote a li) = Ok (st1, r)"
    and rest: "deliver deps env e ps st1 = Ok st'"
    by (auto simp: and_then_Ok)
  from amp_message [OF Cons.prems(2) u assms(3) order.refl] have "amp_reachable exact p st1" by simp
  from Cons.IH [OF rest this] show ?case .
qed

lemma votes_reachable_inv:
  assumes "votes_reachable escrow gauge exact T es g"
  shows "escrow_reachable escrow T es \<and> amp_reachable exact T g \<and> in_step escrow es g"
  using assms
proof (induction rule: votes_reachable.induct)
  case (votes_start T es gd env msg g resp)
  then have "am_users g = []" "gb_fixed (am_books g) = []" "\<exists>cfg. am_config g = Some cfg \<and> ac_escrow_addr cfg = escrow"
    by (auto simp: amp_instantiate_def and_then_Ok empty_amp_def empty_books_def)
  with votes_start amp_start [OF votes_start.hyps(2,4)] show ?case by (simp add: in_step_def amounts_are_def store_simps)
next
  case (votes_escrow exact T es g env deps info msg es' resp p gd g')
  let ?e = "env_contract env"
  have e: "?e = escrow" by fact
  have r: "escrow_reachable ?e T es" and b: "amp_reachable exact p g" and s: "in_step ?e es g"
    using votes_escrow amp_wait by auto
  have r': "escrow_reachable ?e p es'"
    by (rule escrow_message [OF r votes_escrow.hyps(3,4) votes_escrow.hyps(8,9)])
  have inv: "escrow_inv ?e p es" "escrow_inv ?e p es'"
    using escrow_inv_later [OF escrow_reachable_inv [OF r] votes_escrow.hyps(9)] escrow_reachable_inv [OF r'] by auto
  have d: "deliver gd env ?e (pushes_to gauge (resp_msgs resp)) g = Ok g'" using votes_escrow.hyps e by simp
  note st = escrow_message_in_step [OF votes_escrow.hyps(3-7) inv(1) votes_escrow.hyps(8,10) d s inv(2)]
  show ?case using r' st deliver_reachable [OF d b votes_escrow.hyps(8)] e by simp
next
  case (votes_admin exact T es g env deps info msg es' resp p)
  have r: "escrow_reachable (env_contract env) T es" using votes_admin by simp
  have r': "escrow_reachable (env_contract env) p es'"
    by (rule escrow_message [OF r votes_admin.hyps(3,4) votes_admin.hyps(6,7)])
  have "counted_by es' a = counted_by es a" for a
    by (subst administrative_step(1) [OF votes_admin.hyps(3,5)]) (simp add: counted_by_def counted_def locked_amount_def)
  moreover have "amp_reachable exact p g" by (rule amp_wait) (use votes_admin in auto)
  ultimately show ?case using r' votes_admin by (simp add: in_step_def amounts_are_def)
next
  case (votes_gauge exact T es g gd env info msg g' resp eenv deps p)
  have inv: "escrow_inv escrow p es"
    by (rule escrow_inv_later [OF escrow_reachable_inv]) (use votes_gauge in auto)
  have "amp_reachable exact T g" using votes_gauge by blast
  from amp_message [OF this votes_gauge.hyps(2,7,8)]
    gauge_message_in_step [OF votes_gauge.hyps(2,3) inv votes_gauge.hyps(7,5,6)] votes_gauge
  show ?case using escrow_wait by blast
next
  case (votes_migrations exact T es g deps es' r1 gd g' r2)
  have "am_users g' = am_users g" "am_config g' = am_config g"
    using votes_migrations.hyps(3) by (auto simp: amp_migrate_def and_then_Ok Let_def guard_Ok)
  moreover have "counted_by es' a = counted_by es a" for a
    using votes_migrations.hyps(2) by (auto simp: escrow_migrate_def and_then_Ok Let_def guard_Ok counted_by_def counted_def locked_amount_def)
  ultimately show ?case using votes_migrations escrow_migration amp_migration by (auto simp: in_step_def amounts_are_def)
qed

end
