(* ===== verification/GaugeSample.thy ===== *)
theory GaugeSample
  imports VoteSystem EscrowSample
begin

text \<open>
  A concrete run of escrow and amp gauge for the witnesses: the escrow follows the gauge, alice and bob lock and vote, and alice is put
  on the blacklist.
\<close>

section \<open>The world of the gauge\<close>

text \<open>Every address is valid, the escrow answers from its state, the hub knows three validators.\<close>

definition vamp_deps :: "escrow_state \<Rightarrow> u64 \<Rightarrow> gauge_deps" where
  "vamp_deps es w = \<lparr>gd_addr_validate = (\<lambda>a. Ok a),
     gd_lock_info = (\<lambda>c a. if c = ''escrow''
       then map_err (\<lambda>_. GenericErr ''Querier contract error'') (get_user_lock_info ve_deps (at_week w) es a)
       else Err (GenericErr ''Querier system error'')),
     gd_hub_validators = (\<lambda>c. if c = ''hub'' then Ok [''v1'', ''v2'', ''v3''] else Err (GenericErr ''Querier system error'')),
     gd_propose_new_owner = (\<lambda>info env new_owner expires owner p.
       if info_sender info = owner then Ok (Some new_owner, new_response) else Err (GenericErr ''Unauthorized'')),
     gd_drop_ownership_proposal = (\<lambda>info owner p.
       if info_sender info = owner then Ok (None, new_response) else Err (GenericErr ''Unauthorized'')),
     gd_claim_ownership = (\<lambda>info env p. case p of
         Some a \<Rightarrow> if info_sender info = a then Ok (a, None, new_response) else Err (GenericErr ''Unauthorized'')
       | None \<Rightarrow> Err (GenericErr ''Ownership proposal not found'')),
     gd_show_error = (\<lambda>e. ''error''), gd_version = ''1.0.0''\<rparr>"

definition vamp_init :: amp_instantiate_msg where
  "vamp_init = \<lparr>ai_owner = ''owner'', ai_escrow_addr = ''escrow'', ai_hub_addr = ''hub'', ai_validators_limit = 2\<rparr>"

definition with_gauge :: "escrow_state \<Rightarrow> escrow_state" where
  "with_gauge st = st\<lparr>ve_config := Some \<lparr>ec_owner = ''owner'', ec_guardian_addr = Some ''guardian'', ec_deposit_token_addr = ''token'',
       ec_logo_urls_whitelist = [], ec_push_update_contracts = [''gauge'']\<rparr>\<rparr>"

definition sample_gauge :: "gauge_books \<Rightarrow> (addr, amp_user) store \<Rightarrow> amp_gauge_info \<Rightarrow> amp_state" where
  "sample_gauge gb us tune = \<lparr>am_config = Some \<lparr>ac_owner = ''owner'', ac_escrow_addr = ''escrow'', ac_hub_addr = ''hub'',
       ac_validators_limit = 2\<rparr>, am_books = gb, am_users = us, am_tune_info = Some tune,
     am_ownership_proposal = None, am_contract_info = Some (AMP_CONTRACT_NAME, ''1.0.0'')\<rparr>"

definition week_time :: "u64 \<Rightarrow> u64" where "week_time w = EPOCH_START + w * WEEK"

definition sample_voter :: "u64 \<Rightarrow> u128 \<Rightarrow> u128 \<Rightarrow> u64 \<Rightarrow> (string \<times> basic_points) list \<Rightarrow> u128 \<Rightarrow> amp_user" where
  "sample_voter w vp slope e votes fixed = \<lparr>au_vote_ts = week_time w, au_voting_power = vp, au_slope = slope, au_lock_end = e,
     au_votes = votes, au_fixed_amount = fixed\<rparr>"

definition untuned :: amp_gauge_info where
  "untuned = \<lparr>ag_tune_ts = week_time 0, ag_vamp_points = []\<rparr>"

definition gauge_started :: amp_state where
  "gauge_started = sample_gauge empty_books [] untuned"

text \<open>Week 1: alice votes 60 to 40 for two validators, bob gives half of his power to the second.\<close>

definition books_both :: gauge_books where
  "books_both = \<lparr>gb_votes = [((2, ''v1''), \<lparr>vi_power = 534, vi_slope = 53\<rparr>), ((2, ''v2''), \<lparr>vi_power = 4831, vi_slope = 124\<rparr>)],
     gb_validators = [(''v1'', ()), (''v2'', ())], gb_periods = [((''v1'', 2), ()), ((''v2'', 2), ())],
     gb_slopes = [((''v1'', 12), 53), ((''v2'', 12), 35), ((''v2'', 52), 89)],
     gb_fixed = [((''v1'', 2), 624), ((''v2'', 2), 1456)]\<rparr>"

definition books_alice :: gauge_books where
  "books_alice = \<lparr>gb_votes = [((2, ''v1''), \<lparr>vi_power = 534, vi_slope = 53\<rparr>), ((2, ''v2''), \<lparr>vi_power = 356, vi_slope = 35\<rparr>)],
     gb_validators = [(''v1'', ()), (''v2'', ())], gb_periods = [((''v1'', 2), ()), ((''v2'', 2), ())],
     gb_slopes = [((''v1'', 12), 53), ((''v2'', 12), 35)], gb_fixed = [((''v1'', 2), 624), ((''v2'', 2), 416)]\<rparr>"

definition alice_votes :: "(string \<times> u16) list" where "alice_votes = [(''v1'', 6000), (''v2'', 4000)]"

definition alice_voter :: "addr \<times> amp_user" where "alice_voter = (''alice'', sample_voter 1 890 89 11 alice_votes 1040)"
definition bob_voter :: "addr \<times> amp_user" where "bob_voter = (''bob'', sample_voter 1 8950 179 51 [(''v2'', 5000)] 2080)"

definition gauge_alice :: amp_state where
  "gauge_alice = sample_gauge books_alice [alice_voter] untuned"

definition gauge_both :: amp_state where
  "gauge_both = sample_gauge books_both [alice_voter, bob_voter] untuned"

text \<open>Week 2: alice is put on the blacklist; the gauge takes her votes out from the next period on.\<close>

definition books_barred :: gauge_books where
  "books_barred = \<lparr>gb_votes = [((2, ''v1''), \<lparr>vi_power = 534, vi_slope = 53\<rparr>), ((2, ''v2''), \<lparr>vi_power = 4831, vi_slope = 124\<rparr>),
       ((3, ''v1''), \<lparr>vi_power = 1, vi_slope = 0\<rparr>), ((3, ''v2''), \<lparr>vi_power = 4387, vi_slope = 89\<rparr>)],
     gb_validators = [(''v1'', ()), (''v2'', ())],
     gb_periods = [((''v1'', 2), ()), ((''v1'', 3), ()), ((''v2'', 2), ()), ((''v2'', 3), ())],
     gb_slopes = [((''v2'', 52), 89)],
     gb_fixed = [((''v1'', 2), 624), ((''v1'', 3), 0), ((''v2'', 2), 1456), ((''v2'', 3), 1040)]\<rparr>"

definition gauge_barred :: amp_state where
  "gauge_barred = sample_gauge books_barred [(''alice'', sample_voter 2 0 0 11 alice_votes 0), bob_voter] untuned"

section \<open>The run\<close>

definition leads :: "amp_result \<Rightarrow> amp_state \<Rightarrow> bool" where
  "leads r st = (case r of Ok (st', _) \<Rightarrow> st' = st | _ \<Rightarrow> False)"

lemma leadsD: "leads r st \<Longrightarrow> \<exists>resp. r = Ok (st, resp)"
  by (cases r) (auto simp: leads_def)

text \<open>A message of the escrow and the delivery of its pushes.\<close>

definition both_lead :: "escrow_result \<Rightarrow> (amp_state \<Rightarrow> (addr \<times> lock_info) list \<Rightarrow> (amp_state, gauge_error) result) \<Rightarrow>
    amp_state \<Rightarrow> escrow_state \<Rightarrow> amp_state \<Rightarrow> bool" where
  "both_lead r d g es' g' = (case r of
     Ok (st', resp) \<Rightarrow> st' = es' \<and> (case d g (pushes_to ''gauge'' (resp_msgs resp)) of Ok g1 \<Rightarrow> g1 = g' | _ \<Rightarrow> False)
   | _ \<Rightarrow> False)"

abbreviation deliver_sample :: "escrow_state \<Rightarrow> u64 \<Rightarrow> amp_state \<Rightarrow> (addr \<times> lock_info) list \<Rightarrow> (amp_state, gauge_error) result" where
  "deliver_sample es w g ps \<equiv> deliver (vamp_deps es w) (at_week w) ''escrow'' ps g"

lemma both_leadD:
  assumes "both_lead r (deliver_sample es w) g es' g'"
  shows "\<exists>resp. r = Ok (es', resp) \<and> deliver (vamp_deps es w) (at_week w) ''escrow'' (pushes_to ''gauge'' (resp_msgs resp)) g = Ok g'"
proof (cases r)
  case (Ok p)
  then obtain st resp where r: "r = Ok (st, resp)" by (cases p) auto
  then show ?thesis
    using assms by (cases "deliver_sample es w g (pushes_to ''gauge'' (resp_msgs resp))") (simp_all add: both_lead_def)
qed (use assms in \<open>simp_all add: both_lead_def\<close>)

lemma gauge_starts: "leads (amp_instantiate (vamp_deps escrow_started 0) (at_week 0) vamp_init empty_amp) gauge_started"
  by code_simp

lemma owner_follows: "gives (escrow_execute ve_deps (at_week 0) escrow_started (by_sender ''owner'')
    (UpdateEscrowConfig None (Some [''gauge'']))) (with_gauge escrow_started)"
  by code_simp

lemma alice_locks: "both_lead (escrow_execute ve_deps (at_week 1) (with_gauge escrow_started) (by_sender ''token'')
    (locking ''alice'' 1040 (CreateLock (10 * WEEK)))) (deliver_sample (with_gauge escrow_started) 1) gauge_started
    (with_gauge escrow_alice) gauge_started"
  by code_simp

lemma bob_locks: "both_lead (escrow_execute ve_deps (at_week 1) (with_gauge escrow_alice) (by_sender ''token'')
    (locking ''bob'' 2080 (CreateLock (50 * WEEK)))) (deliver_sample (with_gauge escrow_alice) 1) gauge_started
    (with_gauge escrow_both) gauge_started"
  by code_simp

lemma alice_votes_run: "leads (amp_execute (vamp_deps (with_gauge escrow_both) 1) (at_week 1) gauge_started (by_sender ''alice'')
    (Vote alice_votes)) gauge_alice"
  by code_simp

lemma bob_votes_run: "leads (amp_execute (vamp_deps (with_gauge escrow_both) 1) (at_week 1) gauge_alice (by_sender ''bob'')
    (Vote [(''v2'', 5000)])) gauge_both"
  by code_simp

lemma alice_barred_run: "both_lead (escrow_execute ve_deps (at_week 2) (with_gauge escrow_both) (by_sender ''guardian'')
    (UpdateBlacklist (Some [''alice'']) None)) (deliver_sample (with_gauge escrow_both) 2) gauge_both
    (with_gauge escrow_barred) gauge_barred"
  by code_simp

section \<open>The run is reachable\<close>

lemma sample_same_address [simp]: "same_address (vamp_deps es w)"
  by (simp add: same_address_def vamp_deps_def)

lemma sample_asks [simp]: "asks (vamp_deps es w) ''escrow'' ve_deps (at_week w) es"
  by (simp add: asks_def vamp_deps_def map_err_Ok)

lemma sample_proper [simp]: "proper_addresses ve_deps (by_sender a)"
  by (simp add: proper_addresses_def)

lemma with_gauge_follows [simp]: "followed_by (with_gauge st) ''gauge''"
  by (simp add: followed_by_def with_gauge_def)

lemma votes_sample_escrow:
  assumes "votes_reachable ''escrow'' ''gauge'' exact T es g" and "both_lead (escrow_execute ve_deps (at_week w) es (by_sender a) msg)
      (deliver_sample es w) g es' g'"
    and "from_outside ve_deps (at_week w) (by_sender a) msg" and "\<not> administrative msg" and "followed_by es ''gauge''" and "T \<le> w"
  shows "votes_reachable ''escrow'' ''gauge'' exact w es' g'"
proof -
  from both_leadD [OF assms(2)] obtain resp where "escrow_execute ve_deps (at_week w) es (by_sender a) msg = Ok (es', resp)"
    "deliver (vamp_deps es w) (at_week w) ''escrow'' (pushes_to ''gauge'' (resp_msgs resp)) g = Ok g'" by blast
  moreover have "heard ''gauge'' g es es'" using assms(5) by (simp add: heard_def)
  ultimately show ?thesis
    using votes_escrow [OF assms(1) sample_period(2) _ assms(3) sample_proper assms(4) _ sample_period(1) assms(6) sample_same_address] by blast
qed

lemma votes_sample_gauge:
  assumes "votes_reachable ''escrow'' ''gauge'' True T es g" and "leads (amp_execute (vamp_deps es w) (at_week w) g (by_sender a) msg) g'"
    and "a \<noteq> ''escrow''" and "T \<le> w" and "removes_cleanly (vamp_deps es w) (at_week w) g msg"
  shows "votes_reachable ''escrow'' ''gauge'' True w es g'"
proof -
  from leadsD [OF assms(2)] obtain resp where x: "amp_execute (vamp_deps es w) (at_week w) g (by_sender a) msg = Ok (g', resp)" ..
  have "info_sender (by_sender a) \<noteq> ''escrow''" using assms(3) by (simp add: by_sender_def)
  from votes_gauge [OF assms(1) x this sample_same_address refl sample_asks sample_period(1) assms(4)] assms(5)
  show ?thesis by simp
qed

lemma votes_reachable_started: "votes_reachable ''escrow'' ''gauge'' True 0 (with_gauge escrow_started) gauge_started"
proof -
  from leadsD [OF gauge_starts] obtain r where
    i: "amp_instantiate (vamp_deps escrow_started 0) (at_week 0) vamp_init empty_amp = Ok (gauge_started, r)" ..
  have s: "votes_reachable ''escrow'' ''gauge'' True 0 escrow_started gauge_started"
    by (rule votes_start [OF escrow_started_reachable i _ sample_period(1)]) (simp add: vamp_deps_def vamp_init_def)
  from givesD [OF owner_follows] obtain r' where x: "escrow_execute ve_deps (at_week 0) escrow_started (by_sender ''owner'')
    (UpdateEscrowConfig None (Some [''gauge''])) = Ok (with_gauge escrow_started, r')" ..
  show ?thesis
    by (rule votes_admin [OF s sample_period(2) x _ _ sample_period(1)]) (simp_all add: from_outside_def by_sender_def)
qed

lemma votes_reachable_both: "votes_reachable ''escrow'' ''gauge'' True 1 (with_gauge escrow_both) gauge_both"
proof -
  have a: "votes_reachable ''escrow'' ''gauge'' True 1 (with_gauge escrow_alice) gauge_started"
    by (rule votes_sample_escrow [OF votes_reachable_started alice_locks]) (simp_all add: locking_outside U128_MAX_def, simp add: locking_def)
  have b: "votes_reachable ''escrow'' ''gauge'' True 1 (with_gauge escrow_both) gauge_started"
    by (rule votes_sample_escrow [OF a bob_locks]) (simp_all add: locking_outside U128_MAX_def, simp add: locking_def)
  have v: "votes_reachable ''escrow'' ''gauge'' True 1 (with_gauge escrow_both) gauge_alice"
    by (rule votes_sample_gauge [OF b alice_votes_run]) simp_all
  show ?thesis by (rule votes_sample_gauge [OF v bob_votes_run]) simp_all
qed

lemma votes_reachable_barred: "votes_reachable ''escrow'' ''gauge'' True 2 (with_gauge escrow_barred) gauge_barred"
  by (rule votes_sample_escrow [OF votes_reachable_both alice_barred_run]) (simp_all add: barring_outside)

end
