(* ===== verification/GaugeVotes.thy ===== *)
theory GaugeVotes
  imports GaugeReach
begin

text \<open>
  What a vote must look like, and that every stored vote does: distinct validators, at most ten thousand basis points. So the
  shares of a user never exceed the user's fixed amount. Beside it, who may do what.
\<close>

section \<open>Well-formed votes\<close>

definition votes_ok :: "(string \<times> basic_points) list \<Rightarrow> bool" where
  "votes_ok votes \<longleftrightarrow> distinct (map fst votes) \<and> sum_list (map snd votes) \<le> BPS_MAX"

lemma check_vote_Ok: "check_vote allowed (v, b) = Ok y \<longleftrightarrow> v \<in> set allowed \<and> b \<le> BPS_MAX \<and> y = (v, b)"
  by (auto simp: check_vote_def and_then_Ok map_err_Ok bps_try_from_Ok)

lemma check_votes_Ok:
  assumes "traverse (check_vote allowed) votes = Ok votes'"
  shows "votes' = votes" and "fst ` set votes \<subseteq> set allowed"
proof -
  have "votes' = votes \<and> fst ` set votes \<subseteq> set allowed"
    using assms unfolding traverse_Ok_list_all2
    by (induction votes votes' rule: list_all2_induct) (auto simp: check_vote_Ok)
  then show "votes' = votes" "fst ` set votes \<subseteq> set allowed" by blast+
qed

lemma vote_votes_ok:
  assumes "length votes = card (fst ` set votes)"
    and "is_ok (try_fold bps_checked_add 0 (map snd votes) :: (basic_points, std_error) result)"
  shows "votes_ok votes"
proof -
  have "distinct (map fst votes)" using assms(1) by (intro card_distinct) simp
  moreover from assms(2) obtain s where "try_fold bps_checked_add 0 (map snd votes) = (Ok s :: (basic_points, std_error) result)"
    by (auto simp: is_ok_iff)
  from bps_fold_sum [OF this] have "sum_list (map snd votes) \<le> BPS_MAX" by simp
  ultimately show ?thesis by (simp add: votes_ok_def)
qed

definition stored_votes_ok :: "amp_state \<Rightarrow> bool" where
  "stored_votes_ok st \<longleftrightarrow> (\<forall>a ui. get (am_users st) a = Some ui \<longrightarrow> votes_ok (au_votes ui))"

lemma stored_votes_put: "stored_votes_ok st \<Longrightarrow> am_users st' = put a ui (am_users st) \<Longrightarrow> votes_ok (au_votes ui) \<Longrightarrow> stored_votes_ok st'"
  by (auto simp: stored_votes_ok_def store_simps)

lemma amp_execute_votes_ok:
  assumes x: "amp_execute deps env st info msg = Ok (st', resp)" and ok: "stored_votes_ok st"
  shows "stored_votes_ok st'"
proof (cases msg)
  case (Vote votes)
  with x have "handle_vote deps env st info votes = Ok (st', resp)" by simp
  then show ?thesis
  proof (cases rule: handle_vote_Ok)
    case (1 p cfg li allowed votes' gb gb')
    have "votes' = votes" by (rule check_votes_Ok(1) [OF 1(7)])
    with vote_votes_ok [OF 1(5)] 1(8) have "votes_ok votes'" by simp
    then show ?thesis by (intro stored_votes_put [OF ok]) (auto simp: 1(11))
  qed
next
  case (AmpUpdateVote u li)
  with x have "update_vote deps env st info u li = Ok (st', resp)" by simp
  then show ?thesis
    by (cases rule: update_vote_Ok) (use ok in \<open>auto simp: stored_votes_ok_def store_simps\<close>)
next
  case (RemoveUser u)
  with x have "remove_user deps env st info u = Ok (st', resp)" by simp
  then show ?thesis
    by (cases rule: remove_user_Ok) (use ok in \<open>auto simp: stored_votes_ok_def store_simps\<close>)
next
  case TuneVamp
  with x have "tune_vamp deps env st info = Ok (st', resp)" by simp
  then show ?thesis by (cases rule: tune_vamp_Ok) (use ok in \<open>simp add: stored_votes_ok_def\<close>)
qed (use x ok in \<open>auto simp: stored_votes_ok_def amp_update_config_def and_then_Ok split: option.splits\<close>)

lemma amp_reachable_votes_ok: "amp_reachable exact T st \<Longrightarrow> stored_votes_ok st"
proof (induction rule: amp_reachable.induct)
  case (amp_start deps env msg st resp p)
  then have "am_users st = []" by (auto simp: amp_instantiate_def and_then_Ok empty_amp_def)
  then show ?case by (simp add: stored_votes_ok_def store_simps)
next
  case (amp_message exact T st deps env info msg st' resp p)
  from amp_execute_votes_ok [OF amp_message.hyps(2) amp_message.IH] show ?case .
next
  case (amp_migration exact T st deps st' resp)
  then have "am_users st' = am_users st" by (auto simp: amp_migrate_def and_then_Ok Let_def guard_Ok)
  with amp_migration.IH show ?case by (simp add: stored_votes_ok_def)
qed

text \<open>The shares of a vote, summed over any validators.\<close>

lemma share_sum_le:
  assumes "distinct vs"
  shows "sum_list (map (share votes x) vs) * BPS_MAX \<le> x * sum_list (map snd votes)"
proof (induction votes)
  case Nil
  then show ?case by simp
next
  case (Cons e votes)
  obtain w b where e: "e = (w, b)" by (cases e)
  have one: "sum_list (map (\<lambda>v. if w = v then c else 0) vs) \<le> c" for c :: nat
    using assms by (induction vs) (auto simp: sum_list_eq_0_iff)
  have "share (e # votes) x = (\<lambda>v. (if w = v then x * b div BPS_MAX else 0) + share votes x v)" by (simp add: e fun_eq_iff)
  then have "sum_list (map (share (e # votes) x) vs)
      = sum_list (map (\<lambda>v. if w = v then x * b div BPS_MAX else 0) vs) + sum_list (map (share votes x) vs)"
    by (simp add: sum_list_addf)
  also have "\<dots> * BPS_MAX \<le> x * b + x * sum_list (map snd votes)"
  proof -
    have "sum_list (map (\<lambda>v. if w = v then x * b div BPS_MAX else 0) vs) * BPS_MAX \<le> x * b"
      by (rule order_trans [OF mult_le_mono1 [OF one] div_times_less_eq_dividend])
    with Cons.IH show ?thesis by (simp add: add_mult_distrib)
  qed
  finally show ?case by (simp add: e add_mult_distrib2 del: share_simps)
qed

lemma share_sum_total:
  assumes "votes_ok votes" and "distinct vs"
  shows "sum_list (map (share votes x) vs) \<le> x"
proof -
  have "sum_list (map (share votes x) vs) * BPS_MAX \<le> x * BPS_MAX"
    using share_sum_le [OF assms(2)] assms(1) by (metis le_trans mult_le_mono2 votes_ok_def)
  then show ?thesis by (simp add: BPS_MAX_def)
qed

section \<open>Roles\<close>

fun amp_owner_message :: "amp_execute_msg \<Rightarrow> bool" where
  "amp_owner_message TuneVamp = True"
| "amp_owner_message (RemoveUser u) = True"
| "amp_owner_message (AmpUpdateConfig l) = True"
| "amp_owner_message _ = False"

lemma amp_execute_roles:
  assumes "amp_execute deps env st info msg = Ok (st', resp)"
  shows "amp_owner_message msg \<Longrightarrow> map_option ac_owner (am_config st) = Some (info_sender info)"
    and "msg = AmpUpdateVote u li \<Longrightarrow> map_option ac_escrow_addr (am_config st) = Some (info_sender info)"
proof -
  show "map_option ac_owner (am_config st) = Some (info_sender info)" if "amp_owner_message msg"
  proof (cases msg)
    case TuneVamp
    with assms have "tune_vamp deps env st info = Ok (st', resp)" by simp
    then show ?thesis by (cases rule: tune_vamp_Ok) simp
  next
    case (RemoveUser u)
    note x = assms [unfolded RemoveUser amp_execute.simps remove_user_def and_then_Ok map_err_Ok load_item_Ok amp_assert_owner_def guard_Ok]
    then show ?thesis by (elim exE conjE) simp
  next
    case (AmpUpdateConfig l)
    note x = assms [unfolded AmpUpdateConfig amp_execute.simps amp_update_config_def and_then_Ok map_err_Ok load_item_Ok
        amp_assert_owner_def guard_Ok]
    then show ?thesis by (elim exE conjE) simp
  qed (use that in simp_all)
  show "map_option ac_escrow_addr (am_config st) = Some (info_sender info)" if m: "msg = AmpUpdateVote u li"
    using assms [unfolded m amp_execute.simps update_vote_def and_then_Ok map_err_Ok load_item_Ok guard_Ok]
    by (elim exE conjE) simp
qed

text \<open>The record of a user changes by the user's own vote, by an update of the escrow and by the owner's removal only.\<close>

lemma amp_execute_users:
  assumes x: "amp_execute deps env st info msg = Ok (st', resp)" and other: "get (am_users st') a \<noteq> get (am_users st) a"
  shows "info_sender info = a \<and> (\<exists>votes. msg = Vote votes)
    \<or> map_option ac_escrow_addr (am_config st) = Some (info_sender info) \<and> (\<exists>u li. msg = AmpUpdateVote u li \<and> gd_addr_validate deps u = Ok a)
    \<or> map_option ac_owner (am_config st) = Some (info_sender info) \<and> (\<exists>u. msg = RemoveUser u \<and> gd_addr_validate deps u = Ok a)"
proof (cases msg)
  case (Vote votes)
  with x have "handle_vote deps env st info votes = Ok (st', resp)" by simp
  then show ?thesis by (cases rule: handle_vote_Ok) (use other Vote in \<open>auto simp: store_simps split: if_splits\<close>)
next
  case (AmpUpdateVote u li)
  note r = amp_execute_roles(2) [OF x AmpUpdateVote]
  from AmpUpdateVote x have "update_vote deps env st info u li = Ok (st', resp)" by simp
  then show ?thesis
    by (cases rule: update_vote_Ok) (use other r AmpUpdateVote in \<open>auto simp: store_simps split: if_splits\<close>)
next
  case (RemoveUser u)
  note r = amp_execute_roles(1) [OF x, unfolded RemoveUser]
  from RemoveUser x have "remove_user deps env st info u = Ok (st', resp)" by simp
  then show ?thesis
    by (cases rule: remove_user_Ok) (use other r RemoveUser in \<open>auto simp: store_simps split: if_splits\<close>)
next
  case TuneVamp
  with x have "tune_vamp deps env st info = Ok (st', resp)" by simp
  then show ?thesis by (cases rule: tune_vamp_Ok) (use other in simp)
qed (use x other in \<open>auto simp: amp_update_config_def and_then_Ok split: option.splits\<close>)

end
