(* ===== verification/GaugeRecords.thy ===== *)
theory GaugeRecords
  imports AmpGauge
begin

text \<open>
  The records of the gauge's books: what every operation keeps of them, and that the query calculates what an update would store.
\<close>

section \<open>Invariants of the books\<close>

lemma passed_step_mut_Ok: "passed_step_mut v (gb, i, q) e = Ok acc \<longleftrightarrow>
    (\<exists>i'. passed_info i q e = (Ok i' :: (voted_info, std_error) result) \<and> acc = (save_voted (fst e) v i' gb, i', fst e))"
  by (auto simp: passed_step_mut_def and_then_Ok)

text \<open>The writes the operations are made of; an invariant of these is one of every operation up to the period \<open>n\<close>.\<close>

locale books_keep =
  fixes P :: "u64 \<Rightarrow> gauge_books \<Rightarrow> bool"
  assumes active: "P n gb \<Longrightarrow> P n (gb\<lparr>gb_validators := put v () (gb_validators gb)\<rparr>)"
    and inactive: "P n gb \<Longrightarrow> P n (gb\<lparr>gb_validators := del v (gb_validators gb)\<rparr>)"
    and voted: "P n gb \<Longrightarrow> k \<le> n \<Longrightarrow> P n (save_voted k v i gb)"
    and slope: "P n gb \<Longrightarrow> P n (gb\<lparr>gb_slopes := put (v, e) x (gb_slopes gb)\<rparr>)"
    and no_slope: "P n gb \<Longrightarrow> P n (gb\<lparr>gb_slopes := del (v, e) (gb_slopes gb)\<rparr>)"
    and fixed: "P n gb \<Longrightarrow> k \<le> n \<Longrightarrow> P n (gb\<lparr>gb_fixed := put (v, k) x (gb_fixed gb)\<rparr>)"
begin

lemma keep_active: "P n gb \<Longrightarrow> P n (add_validator_to_active v gb)"
  by (simp add: add_validator_to_active_def active)

lemma keep_then: "P n (snd m) \<Longrightarrow> (\<And>x s. m = (Ok x, s) \<Longrightarrow> P n s \<Longrightarrow> P n (snd (k x s))) \<Longrightarrow> P n (snd (act_then m k))"
  by (cases "(m, k)" rule: act_then.cases) auto

lemma keep_atomic: "P n gb \<Longrightarrow> (\<And>x gb'. r = Ok (x, gb') \<Longrightarrow> P n gb') \<Longrightarrow> P n (snd (act_atomic r gb))"
  by (cases "(r, gb)" rule: act_atomic.cases) auto

lemma keep_read: "P n gb \<Longrightarrow> (\<And>x. P n (snd (k x gb))) \<Longrightarrow> P n (snd (act_then (act_read r gb) k))"
  by (cases r) (simp_all add: act_read_def)

lemma keep_each: "P n gb \<Longrightarrow> (\<And>x gb. P n gb \<Longrightarrow> P n (snd (f x gb))) \<Longrightarrow> P n (snd (act_each f xs gb))"
  by (rule act_each_preserves)

lemma keep_passed:
  assumes "try_fold (passed_step_mut v) (gb, i, q) es = Ok acc" and "P n gb" and "\<And>e. e \<in> set es \<Longrightarrow> fst e \<le> n"
  shows "P n (fst acc)"
  using assms
proof (induction es arbitrary: gb i q)
  case Nil
  then show ?case by auto
next
  case (Cons e es)
  from Cons.prems(1) obtain acc1 where "passed_step_mut v (gb, i, q) e = Ok acc1" "try_fold (passed_step_mut v) acc1 es = Ok acc"
    by (auto simp: and_then_Ok)
  then obtain i' where "try_fold (passed_step_mut v) (save_voted (fst e) v i' gb, i', fst e) es = Ok acc"
    by (auto simp: passed_step_mut_Ok)
  from Cons.IH [OF this voted] Cons.prems show ?case by simp
qed

lemma keep_info_mut:
  assumes "get_validator_info_mut p v gb = Ok (r, gb')" and "P n gb" and "p \<le> n"
  shows "P n gb'"
proof (cases "get (gb_votes gb) (p, v)")
  case (Some i)
  with assms show ?thesis by (simp add: get_validator_info_mut_def)
next
  case None
  show ?thesis
  proof (cases "fetch_last_validator_period gb p v")
    case (Some q)
    with None assms(1) obtain i acc where "try_fold (passed_step_mut v) (gb, i, q) (gauge_slope_changes gb v q p) = Ok acc" "gb' = fst acc"
      by (auto simp: get_validator_info_mut_def and_then_Ok split_beta)
    moreover have "e \<in> set (gauge_slope_changes gb v q p) \<Longrightarrow> fst e \<le> n" for e
      using assms(3) by (auto simp: gauge_slope_changes_def)
    ultimately show ?thesis using keep_passed assms(2) by blast
  next
    case no: None
    with None assms show ?thesis by (simp add: get_validator_info_mut_def)
  qed
qed

lemma keep_update: "P n gb \<Longrightarrow> p \<le> n \<Longrightarrow> P n (snd (update_validator_info p v ch gb))"
  unfolding update_validator_info_def Let_def
  by (intro keep_then keep_atomic keep_active)
    (auto intro: keep_info_mut keep_active intro!: keep_read voted split: option.split voted_result.split)

lemma keep_cancel: "P n gb \<Longrightarrow> p \<le> n \<Longrightarrow> P n (snd (cancel_user_changes p v b vp s e gb))"
  unfolding cancel_user_changes_def
  by (intro keep_then keep_atomic keep_update)
    (auto simp: cancel_gauge_slope_def and_then_Ok split: if_splits intro: slope no_slope)

lemma keep_vote: "P n gb \<Longrightarrow> p \<le> n \<Longrightarrow> P n (snd (vote_for_validator p v b vp s e gb))"
  unfolding vote_for_validator_def
  by (intro keep_then keep_atomic keep_update) (auto simp: and_then_Ok intro: slope)

lemma keep_add_fixed: "P n gb \<Longrightarrow> p \<le> n \<Longrightarrow> P n (snd (add_fixed_vamp p v x gb))"
  unfolding add_fixed_vamp_def Let_def by (intro keep_read keep_active) (simp_all add: fixed keep_active)

lemma keep_remove_fixed: "P n gb \<Longrightarrow> p \<le> n \<Longrightarrow> P n (snd (remove_fixed_vamp p v x gb))"
  unfolding remove_fixed_vamp_def Let_def by (intro keep_read keep_active) (simp_all add: fixed keep_active)

lemma keep_remove_votes: "P (p + 1) gb \<Longrightarrow> P (p + 1) (snd (remove_votes_of_user ui p gb))"
  unfolding remove_votes_of_user_def
  by (auto simp: act_read_def num_defs split_beta
      intro!: keep_each keep_then keep_read keep_remove_fixed keep_cancel split: if_split)

lemma keep_apply_votes: "P (p + 1) gb \<Longrightarrow> P (p + 1) (snd (apply_votes_of_user votes p vp li gb))"
  unfolding apply_votes_of_user_def
  by (auto simp: act_read_def num_defs split_beta intro!: keep_each keep_then keep_read keep_add_fixed keep_vote)

end

text \<open>
  The stores are sorted, the two records of a validator's periods agree, and nothing is recorded beyond the period \<open>n\<close>.
\<close>

definition books_ok :: "u64 \<Rightarrow> gauge_books \<Rightarrow> bool" where
  "books_ok n gb \<longleftrightarrow> wf_store (gb_votes gb) \<and> wf_store (gb_validators gb) \<and> wf_store (gb_periods gb)
     \<and> wf_store (gb_slopes gb) \<and> wf_store (gb_fixed gb)
     \<and> (\<forall>v k. get (gb_periods gb) (v, k) \<noteq> None \<longleftrightarrow> get (gb_votes gb) (k, v) \<noteq> None)
     \<and> (\<forall>v k. get (gb_periods gb) (v, k) \<noteq> None \<longrightarrow> k \<le> n)"

interpretation books: books_keep books_ok
  by unfold_locales (auto simp: books_ok_def save_voted_def store_simps)

lemma books_ok_mono: "books_ok n gb \<Longrightarrow> n \<le> n' \<Longrightarrow> books_ok n' gb"
  unfolding books_ok_def by (meson order_trans)

lemma books_ok_empty: "books_ok n empty_books"
  by (simp add: books_ok_def empty_books_def store_simps)

section \<open>The query calculates what an update stores\<close>

text \<open>What the records of one validator are, without those of the others.\<close>

definition same_for :: "string \<Rightarrow> gauge_books \<Rightarrow> gauge_books \<Rightarrow> bool" where
  "same_for w gb gb' \<longleftrightarrow> (\<forall>k. get (gb_votes gb') (k, w) = get (gb_votes gb) (k, w))
     \<and> prefix_of (gb_periods gb') w = prefix_of (gb_periods gb) w \<and> prefix_of (gb_slopes gb') w = prefix_of (gb_slopes gb) w
     \<and> prefix_of (gb_fixed gb') w = prefix_of (gb_fixed gb) w"

lemma same_for_refl [simp]: "same_for w gb gb"
  by (simp add: same_for_def)

lemma same_for_trans: "same_for w gb gb' \<Longrightarrow> same_for w gb' gb'' \<Longrightarrow> same_for w gb gb''"
  by (simp add: same_for_def)

lemma prefix_of_put_other: "a \<noteq> b \<Longrightarrow> prefix_of (put (a, k) x s) b = prefix_of s b"
  unfolding prefix_of_def entries_def by (induction s) auto

lemma same_for_active [simp]: "same_for w gb (add_validator_to_active v gb)"
  by (simp add: same_for_def add_validator_to_active_def)

lemma same_for_voted: "w \<noteq> v \<Longrightarrow> same_for w gb (save_voted k v i gb)"
  by (simp add: same_for_def save_voted_def store_simps prefix_of_put_other)

lemma query_same: "same_for w gb gb' \<Longrightarrow> get_validator_info p w gb' = get_validator_info p w gb"
  by (simp add: same_for_def get_validator_info_def fetch_last_validator_fixed_value_def fetch_last_validator_fixed_def
      fetch_last_validator_period_def gauge_slope_changes_def Let_def split: option.split)

lemma passed_fold_same:
  assumes "try_fold (passed_step_mut v) (gb, i, q) es = Ok (gb', r)" and "w \<noteq> v"
  shows "same_for w gb gb'"
  using assms(1)
proof (induction es arbitrary: gb i q)
  case Nil
  then show ?case by simp
next
  case (Cons e es)
  from Cons.prems obtain acc where "passed_step_mut v (gb, i, q) e = Ok acc" "try_fold (passed_step_mut v) acc es = Ok (gb', r)"
    by (auto simp: and_then_Ok)
  then obtain i' where "try_fold (passed_step_mut v) (save_voted (fst e) v i' gb, i', fst e) es = Ok (gb', r)"
    by (auto simp: passed_step_mut_Ok)
  from same_for_trans [OF same_for_voted [OF assms(2)] Cons.IH [OF this]] show ?case .
qed

lemma info_mut_same:
  assumes "get_validator_info_mut p v gb = Ok (r, gb')" and "w \<noteq> v"
  shows "same_for w gb gb'"
  using assms passed_fold_same
  by (auto simp: get_validator_info_mut_def and_then_Ok split_beta split: option.splits)

lemma update_none_cases:
  assumes "update_validator_info p v None gb = (Ok i, gb')"
  obtains (old) "get_validator_info_mut p v (add_validator_to_active v gb) = Ok (UnchangedInfo i, gb')"
  | (new) gb1 where "get_validator_info_mut p v (add_validator_to_active v gb) = Ok (NewInfo i, gb1)" "gb' = save_voted p v i gb1"
proof -
  have "\<exists>r gb1. get_validator_info_mut p v (add_validator_to_active v gb) = Ok (r, gb1)
    \<and> (case r of NewInfo info \<Rightarrow> (Ok info, save_voted p v info gb1) | UnchangedInfo info \<Rightarrow> (Ok info, gb1)) = (Ok i :: (voted_info, std_error) result, gb')"
    using assms by (simp add: update_validator_info_def Let_def act_then_Ok act_atomic_Ok)
  then obtain r gb1 where r: "get_validator_info_mut p v (add_validator_to_active v gb) = Ok (r, gb1)"
    and c: "(case r of NewInfo info \<Rightarrow> (Ok info, save_voted p v info gb1) | UnchangedInfo info \<Rightarrow> (Ok info, gb1)) = (Ok i :: (voted_info, std_error) result, gb')"
    by blast
  show thesis using r c old new by (cases r) auto
qed

lemma update_none_same: "update_validator_info p v None gb = (Ok i, gb') \<Longrightarrow> w \<noteq> v \<Longrightarrow> same_for w gb gb'"
  by (erule update_none_cases)
    (auto dest!: info_mut_same intro: same_for_trans [OF same_for_active] same_for_trans [OF _ same_for_voted])

text \<open>The loop of the update and the loop of the query calculate the same.\<close>

lemma passed_steps:
  "passed_step_mut v (gb, i, q) e = and_then (passed_info i q e) (\<lambda>i'. Ok (save_voted (fst e) v i' gb, i', fst e))"
  "passed_step (i, q) e = and_then (passed_info i q e) (\<lambda>i'. Ok (i', fst e))"
  by (simp_all add: passed_step_mut_def passed_step_def)

lemma passed_fold_agrees:
  "and_then (try_fold (passed_step_mut v) (gb, i, q) es) (\<lambda>acc. k (fst (snd acc)) (snd (snd acc)))
    = and_then (try_fold passed_step (i, q) es) (\<lambda>acc. k (fst acc) (snd acc))"
proof (induction es arbitrary: gb i q)
  case Nil
  then show ?case by simp
next
  case (Cons e es)
  show ?case by (cases "passed_info i q e :: (voted_info, std_error) result") (simp_all add: passed_steps Cons.IH)
qed

definition info_response :: "voted_info \<Rightarrow> u128 \<Rightarrow> gauge_validator_info" where
  "info_response i fixed = \<lparr>gv_voting_power = vi_power i, gv_fixed_amount = fixed, gv_slope = vi_slope i\<rparr>"

lemma query_by_mut:
  "get_validator_info p v gb = and_then (get_validator_info_mut p v gb)
     (\<lambda>r. Ok (info_response (info_of (fst r)) (fetch_last_validator_fixed_value gb p v)))"
proof (cases "get (gb_votes gb) (p, v)")
  case Some
  then show ?thesis by (simp add: get_validator_info_def get_validator_info_mut_def info_response_def)
next
  case none: None
  show ?thesis
  proof (cases "fetch_last_validator_period gb p v")
    case None
    with none show ?thesis by (simp add: get_validator_info_def get_validator_info_mut_def info_response_def default_info_def)
  next
    case (Some q)
    define fin :: "voted_info \<Rightarrow> u64 \<Rightarrow> (gauge_validator_info, std_error) result" where "fin i' q' = and_then (calc_voting_power (vi_slope i') (vi_power i') q' p)
      (\<lambda>vp. Ok (info_response (i'\<lparr>vi_power := vp\<rparr>) (fetch_last_validator_fixed_value gb p v)))" for i' q'
    have "get_validator_info p v gb = and_then (load_item (get (gb_votes gb) (q, v))) (\<lambda>i.
        and_then (try_fold passed_step (i, q) (gauge_slope_changes gb v q p)) (\<lambda>acc. fin (fst acc) (snd acc)))"
      using none Some by (simp add: get_validator_info_def fin_def info_response_def case_prod_unfold)
    also have "\<dots> = and_then (load_item (get (gb_votes gb) (q, v))) (\<lambda>i.
        and_then (try_fold (passed_step_mut v) (gb, i, q) (gauge_slope_changes gb v q p)) (\<lambda>acc. fin (fst (snd acc)) (snd (snd acc))))"
      by (simp only: passed_fold_agrees)
    also have "\<dots> = and_then (get_validator_info_mut p v gb)
        (\<lambda>r. Ok (info_response (info_of (fst r)) (fetch_last_validator_fixed_value gb p v)))"
      using none Some by (simp add: get_validator_info_mut_def fin_def case_prod_unfold and_then_assoc)
    finally show ?thesis .
  qed
qed

lemma update_none_result:
  "fst (update_validator_info p v None gb)
    = and_then (get_validator_info_mut p v (add_validator_to_active v gb)) (\<lambda>r. Ok (info_of (fst r)))"
proof (cases "get_validator_info_mut p v (add_validator_to_active v gb)")
  case (Ok r)
  then show ?thesis by (cases r; cases "fst r") (simp_all add: update_validator_info_def Let_def)
qed (simp_all add: update_validator_info_def Let_def)

lemma query_by_update:
  "get_validator_info p v gb = and_then (fst (update_validator_info p v None gb))
     (\<lambda>i. Ok (info_response i (fetch_last_validator_fixed_value gb p v)))"
proof -
  let ?gb = "add_validator_to_active v gb"
  have f: "fetch_last_validator_fixed_value ?gb p v = fetch_last_validator_fixed_value gb p v"
    by (simp add: fetch_last_validator_fixed_value_def fetch_last_validator_fixed_def add_validator_to_active_def)
  have "get_validator_info p v gb = get_validator_info p v ?gb" by (simp add: query_same [OF same_for_active])
  also have "\<dots> = and_then (fst (update_validator_info p v None gb))
      (\<lambda>i. Ok (info_response i (fetch_last_validator_fixed_value gb p v)))"
    by (simp add: query_by_mut [of p v ?gb] update_none_result and_then_assoc f)
  finally show ?thesis .
qed

section \<open>The query never fails\<close>

lemma calc_voting_power_defined: "calc_voting_power s vp a b = Ok x \<longleftrightarrow> a \<le> b \<and> x = vp - (if s * (b - a) \<le> U128_MAX then s * (b - a) else 0)"
  by (auto simp: calc_voting_power_def and_then_Ok num_defs Let_def)

lemma passed_fold_defined:
  assumes "keys_sorted es" and "\<And>e. e \<in> set es \<Longrightarrow> q < fst e"
  shows "\<exists>i' q'. try_fold passed_step (i, q) es = Ok (i', q') \<and> (q' = q \<or> (\<exists>e \<in> set es. q' = fst e))"
  using assms
proof (induction es arbitrary: i q)
  case Nil
  then show ?case by simp
next
  case (Cons e es)
  obtain i1 where i1: "passed_info i q e = (Ok i1 :: (voted_info, std_error) result)"
    using Cons.prems(2) [of e] by (auto simp: passed_info_def and_then_Ok calc_voting_power_defined)
  have "keys_sorted es" "\<And>d. d \<in> set es \<Longrightarrow> fst e < fst d"
    using Cons.prems(1) by (simp_all add: keys_sorted_iff)
  from Cons.IH [OF this, of i1] i1 show ?case by (auto simp: passed_steps)
qed

lemma last_period_Some:
  assumes "books_ok n gb" and "fetch_last_validator_period gb p v = Some q"
  shows "q < p" and "get (gb_votes gb) (q, v) \<noteq> None" and "q < k \<Longrightarrow> k < p \<Longrightarrow> get (gb_votes gb) (k, v) = None"
proof -
  let ?es = "prefix_of (gb_periods gb) v" let ?fs = "filter (\<lambda>e. fst e < p) ?es"
  have wf: "wf_store ?es" and rec: "get (gb_periods gb) (w, k) \<noteq> None \<longleftrightarrow> get (gb_votes gb) (k, w) \<noteq> None" for w k
    using assms(1) by (simp_all add: books_ok_def wf_prefix_of)
  have srt: "keys_sorted ?fs" using om.entries_keys_sorted [OF wf] by (simp add: entries_def keys_sorted_filter)
  have ne: "?fs \<noteq> []" and q: "q = fst (last ?fs)"
    using assms(2) by (auto simp: fetch_last_validator_period_def split: list.splits)
  have inl: "last ?fs \<in> set ?fs" by (rule last_in_set [OF ne])
  have member: "get (gb_periods gb) (v, k) \<noteq> None \<longleftrightarrow> (\<exists>u. (k, u) \<in> set ?es)" for k
    using om.in_entries [OF wf, of k] by (auto simp: entries_def get_prefix_of)
  show "q < p" using inl q by simp
  have "last ?fs = (q, ())" using q by (simp add: prod_eq_iff)
  then have "(q, ()) \<in> set ?es" using inl filter_is_subset [of "\<lambda>e. fst e < p" ?es] by auto
  with member rec show "get (gb_votes gb) (q, v) \<noteq> None" by blast
  show "get (gb_votes gb) (k, v) = None" if "q < k" "k < p"
  proof (rule ccontr)
    assume "get (gb_votes gb) (k, v) \<noteq> None"
    with member rec obtain u where "(k, u) \<in> set ?es" by blast
    then have "(k, u) \<in> set ?fs" using that by simp
    from keys_sorted_le_last [OF srt this] q that show False by simp
  qed
qed

lemma slope_changes_sorted:
  assumes "books_ok n gb"
  shows "keys_sorted (gauge_slope_changes gb v a b)" and "e \<in> set (gauge_slope_changes gb v a b) \<Longrightarrow> a < fst e \<and> fst e \<le> b"
  using om.entries_keys_sorted [of "prefix_of (gb_slopes gb) v"] assms
  by (auto simp: gauge_slope_changes_def books_ok_def wf_prefix_of entries_def keys_sorted_filter)

lemma query_defined:
  assumes "books_ok n gb"
  shows "\<exists>i. get_validator_info p v gb = Ok i"
proof (cases "get (gb_votes gb) (p, v)")
  case (Some i)
  then show ?thesis by (simp add: get_validator_info_def)
next
  case none: None
  show ?thesis
  proof (cases "fetch_last_validator_period gb p v")
    case None
    with none show ?thesis by (simp add: get_validator_info_def)
  next
    case (Some q)
    note l = last_period_Some [OF assms Some]
    obtain i where i: "get (gb_votes gb) (q, v) = Some i" using l(2) by blast
    obtain i' q' where f: "try_fold passed_step (i, q) (gauge_slope_changes gb v q p) = Ok (i', q')"
      and q': "q' = q \<or> (\<exists>e \<in> set (gauge_slope_changes gb v q p). q' = fst e)"
      using passed_fold_defined [of "gauge_slope_changes gb v q p" q i] slope_changes_sorted [OF assms] by blast
    have "q' \<le> p" using q' l(1) slope_changes_sorted(2) [OF assms] by auto
    then show ?thesis
      using none Some i f by (auto simp: get_validator_info_def and_then_Ok calc_voting_power_defined load_item_Ok Let_def)
  qed
qed

end
