(* ===== verification/GaugeReplay.thy ===== *)
theory GaugeReplay
  imports GaugeRecords
begin

text \<open>
  The power of a validator at a period replays the scheduled slope changes from the last record; records saved on the way do not
  change what later periods see.
\<close>

section \<open>Replaying the slope changes\<close>

definition decayed :: "voted_info \<Rightarrow> u64 \<Rightarrow> voted_info" where
  "decayed i dt = i\<lparr>vi_power := vi_power i - vi_slope i * dt\<rparr>"

fun power_at :: "voted_info \<Rightarrow> u64 \<Rightarrow> (u64 \<times> u128) list \<Rightarrow> u64 \<Rightarrow> voted_info" where
  "power_at i q [] p = decayed i (p - q)"
| "power_at i q (e # es) p =
     power_at ((decayed i (fst e - q))\<lparr>vi_slope := vi_slope i - snd e\<rparr>) (fst e) es p"

lemma decayed_simps [simp]: "vi_slope (decayed i d) = vi_slope i" "vi_power (decayed i d) = vi_power i - vi_slope i * d"
  by (simp_all add: decayed_def)

lemma decayed_twice: "decayed (decayed i a) b = decayed i (a + b)"
  by (simp add: decayed_def add_mult_distrib2)

lemma power_at_slope: "vi_slope (power_at i q es p) \<le> vi_slope i"
proof (induction es arbitrary: i q)
  case Nil
  then show ?case by simp
next
  case (Cons e es)
  show ?case using Cons.IH [of "(decayed i (fst e - q))\<lparr>vi_slope := vi_slope i - snd e\<rparr>" "fst e"] by simp
qed

lemma power_at_zero: "vi_power i = 0 \<Longrightarrow> vi_slope i = 0 \<Longrightarrow> power_at i q es p = i"
  by (induction es arbitrary: i q) (auto simp: decayed_def)

lemma power_at_here:
  assumes "\<And>e. e \<in> set es \<Longrightarrow> p < fst e" and "q \<le> p" and "p \<le> r"
  shows "power_at i q es r = power_at (decayed i (p - q)) p es r"
proof (cases es)
  case Nil
  then show ?thesis using assms(2,3) by (simp add: decayed_twice)
next
  case (Cons e ds)
  then have "p < fst e" using assms(1) [of e] by simp
  then have "p - q + (fst e - p) = fst e - q" using assms(2) by simp
  then show ?thesis by (simp add: Cons decayed_twice)
qed

lemma power_at_append:
  assumes "keys_sorted (es @ ds)" and "\<And>e. e \<in> set es \<Longrightarrow> q < fst e \<and> fst e \<le> p" and "\<And>e. e \<in> set ds \<Longrightarrow> p < fst e"
    and "q \<le> p" and "p \<le> r"
  shows "power_at i q (es @ ds) r = power_at (power_at i q es p) p ds r"
  using assms
proof (induction es arbitrary: i q)
  case Nil
  then show ?case using power_at_here [of ds p q r i] by simp
next
  case (Cons e es)
  have "keys_sorted (es @ ds)" "\<And>d. d \<in> set es \<Longrightarrow> fst e < fst d" using Cons.prems(1) by (simp_all add: keys_sorted_iff)
  with Cons.IH [of "fst e"] Cons.prems show ?case by simp
qed

section \<open>The query in closed form\<close>

text \<open>The slopes of the stored records are small enough for the product with the passed periods to be calculated.\<close>

definition slopes_fit :: "gauge_books \<Rightarrow> u64 \<Rightarrow> bool" where
  "slopes_fit gb r \<longleftrightarrow> (\<forall>k v i. get (gb_votes gb) (k, v) = Some i \<longrightarrow> vi_slope i * r \<le> U128_MAX)"

lemma calc_decayed:
  assumes "s * r \<le> U128_MAX" and "a \<le> b" and "b \<le> r"
  shows "calc_voting_power s vp a b = Ok (vp - s * (b - a))"
proof -
  have "s * (b - a) \<le> U128_MAX" by (rule order_trans [OF mult_le_mono2 assms(1)]) (use assms in simp)
  then show ?thesis using assms(2) by (simp add: calc_voting_power_defined)
qed

lemma passed_fold_power:
  assumes "keys_sorted es" and "\<And>e. e \<in> set es \<Longrightarrow> q < fst e \<and> fst e \<le> p" and "vi_slope i * p \<le> U128_MAX" and "q \<le> p"
  shows "\<exists>i' q'. try_fold passed_step (i, q) es = Ok (i', q') \<and> q' \<le> p \<and> vi_slope i' \<le> vi_slope i
    \<and> power_at i q es p = decayed i' (p - q')"
  using assms
proof (induction es arbitrary: i q)
  case Nil
  then show ?case by simp
next
  case (Cons e es)
  let ?i = "(decayed i (fst e - q))\<lparr>vi_slope := vi_slope i - snd e\<rparr>"
  have e: "q < fst e" "fst e \<le> p" using Cons.prems(2) by simp_all
  have "calc_voting_power (vi_slope i) (vi_power i) q (fst e) = (Ok (vi_power i - vi_slope i * (fst e - q)) :: (u128, std_error) result)"
    using calc_decayed [OF Cons.prems(3), of q "fst e"] e by simp
  then have s: "passed_step (i, q) e = Ok (?i, fst e)"
    by (simp add: passed_steps passed_info_def num_defs)
  have srt: "keys_sorted es" and after: "\<And>d. d \<in> set es \<Longrightarrow> fst e < fst d \<and> fst d \<le> p"
    using Cons.prems(1,2) by (simp_all add: keys_sorted_iff)
  have "vi_slope ?i * p \<le> U128_MAX" by (rule order_trans [OF mult_le_mono1 Cons.prems(3)]) simp
  from Cons.IH [OF srt after this] e(2) obtain i' q' where "try_fold passed_step (?i, fst e) es = Ok (i', q')" "q' \<le> p"
    "vi_slope i' \<le> vi_slope ?i" "power_at ?i (fst e) es p = decayed i' (p - q')" by auto
  then show ?case by (auto simp: s intro: le_trans)
qed

lemma query_power_at:
  assumes "books_ok n gb" and "get (gb_votes gb) (p, v) = None" and "fetch_last_validator_period gb p v = Some q"
    and "get (gb_votes gb) (q, v) = Some i" and fit: "vi_slope i * p \<le> U128_MAX"
  shows "get_validator_info p v gb = Ok (info_response (power_at i q (gauge_slope_changes gb v q p) p) (fetch_last_validator_fixed_value gb p v))"
proof -
  note l = last_period_Some [OF assms(1,3)]
  let ?es = "gauge_slope_changes gb v q p"
  have "\<exists>i' q'. try_fold passed_step (i, q) ?es = Ok (i', q') \<and> q' \<le> p \<and> vi_slope i' \<le> vi_slope i
    \<and> power_at i q ?es p = decayed i' (p - q')"
    by (rule passed_fold_power [OF slope_changes_sorted(1) [OF assms(1)] _ fit])
      (use l(1) slope_changes_sorted(2) [OF assms(1)] in auto)
  then obtain i' q' where f: "try_fold passed_step (i, q) ?es = Ok (i', q')" "q' \<le> p" "vi_slope i' \<le> vi_slope i"
    "power_at i q ?es p = decayed i' (p - q')" by blast
  have "vi_slope i' * p \<le> U128_MAX" using fit f(3) by (meson le_trans mult_le_mono1)
  then have "calc_voting_power (vi_slope i') (vi_power i') q' p = (Ok (vi_power i' - vi_slope i' * (p - q')) :: (u128, std_error) result)"
    using calc_decayed [of "vi_slope i'" p q' p] f(2) by simp
  with f assms(2-4) show ?thesis by (simp add: get_validator_info_def info_response_def load_item_def)
qed

section \<open>Saved records are transparent\<close>

lemma last_period_None:
  assumes "books_ok n gb"
  shows "fetch_last_validator_period gb p v = None \<longleftrightarrow> (\<forall>k < p. get (gb_votes gb) (k, v) = None)"
proof -
  let ?es = "prefix_of (gb_periods gb) v"
  have wf: "wf_store ?es" using assms by (simp add: books_ok_def wf_prefix_of)
  have rec: "get (gb_periods gb) (v, k) = None \<longleftrightarrow> get (gb_votes gb) (k, v) = None" for k
    using assms unfolding books_ok_def by blast
  have "fetch_last_validator_period gb p v = None \<longleftrightarrow> filter (\<lambda>e. fst e < p) ?es = []"
    by (simp add: fetch_last_validator_period_def split: list.split)
  also have "\<dots> \<longleftrightarrow> (\<forall>k < p. get ?es k = None)"
  proof -
    have "x = None \<longleftrightarrow> x \<noteq> Some ()" for x :: "unit option" by (cases x) auto
    then show ?thesis using om.entries_eq_set [OF wf] by (auto simp: entries_def filter_empty_conv)
  qed
  finally show ?thesis by (simp add: get_prefix_of rec)
qed

lemma last_period_Some_iff:
  assumes "books_ok n gb"
  shows "fetch_last_validator_period gb p v = Some q \<longleftrightarrow>
    q < p \<and> get (gb_votes gb) (q, v) \<noteq> None \<and> (\<forall>k. q < k \<longrightarrow> k < p \<longrightarrow> get (gb_votes gb) (k, v) = None)"
proof
  assume "fetch_last_validator_period gb p v = Some q"
  from last_period_Some [OF assms this]
  show "q < p \<and> get (gb_votes gb) (q, v) \<noteq> None \<and> (\<forall>k. q < k \<longrightarrow> k < p \<longrightarrow> get (gb_votes gb) (k, v) = None)" by blast
next
  assume q: "q < p \<and> get (gb_votes gb) (q, v) \<noteq> None \<and> (\<forall>k. q < k \<longrightarrow> k < p \<longrightarrow> get (gb_votes gb) (k, v) = None)"
  then have "fetch_last_validator_period gb p v \<noteq> None" by (auto simp: last_period_None [OF assms])
  then obtain q' where q': "fetch_last_validator_period gb p v = Some q'" by blast
  from last_period_Some [OF assms q'] q have "q' = q" by (meson linorder_neqE_nat)
  with q' show "fetch_last_validator_period gb p v = Some q" by simp
qed

lemma passed_fold_records:
  assumes "try_fold (passed_step_mut v) (gb, i, q) es = Ok (gb', acc)"
  shows "gb_slopes gb' = gb_slopes gb \<and> gb_fixed gb' = gb_fixed gb
    \<and> (\<forall>k. k \<notin> fst ` set es \<longrightarrow> get (gb_votes gb') (k, v) = get (gb_votes gb) (k, v))"
  using assms
proof (induction es arbitrary: gb i q)
  case Nil
  then show ?case by simp
next
  case (Cons e es)
  from Cons.prems obtain a where "passed_step_mut v (gb, i, q) e = Ok a" "try_fold (passed_step_mut v) a es = Ok (gb', acc)"
    by (auto simp: and_then_Ok)
  then obtain i' where "try_fold (passed_step_mut v) (save_voted (fst e) v i' gb, i', fst e) es = Ok (gb', acc)"
    by (auto simp: passed_step_mut_Ok)
  from Cons.IH [OF this] show ?case by (simp add: save_voted_def store_simps)
qed

lemma info_mut_records:
  assumes "get_validator_info_mut p v gb = Ok (NewInfo i, gb')" and "books_ok n gb"
  shows "get (gb_votes gb) (p, v) = None" and "gb_slopes gb' = gb_slopes gb" and "gb_fixed gb' = gb_fixed gb"
    and "p < k \<Longrightarrow> get (gb_votes gb') (k, v) = get (gb_votes gb) (k, v)"
proof -
  show none: "get (gb_votes gb) (p, v) = None"
    using assms(1) by (auto simp: get_validator_info_mut_def split: option.splits)
  have "gb_slopes gb' = gb_slopes gb \<and> gb_fixed gb' = gb_fixed gb \<and> (p < k \<longrightarrow> get (gb_votes gb') (k, v) = get (gb_votes gb) (k, v))" for k
  proof (cases "fetch_last_validator_period gb p v")
    case None
    with none assms(1) show ?thesis by (simp add: get_validator_info_mut_def)
  next
    case (Some q)
    with none assms(1) obtain i0 acc where "try_fold (passed_step_mut v) (gb, i0, q) (gauge_slope_changes gb v q p) = Ok (gb', acc)"
      by (auto simp: get_validator_info_mut_def and_then_Ok split_beta)
    moreover have "p < k \<Longrightarrow> k \<notin> fst ` set (gauge_slope_changes gb v q p)"
      using slope_changes_sorted(2) [OF assms(2), of _ v q p] by fastforce
    ultimately show ?thesis using passed_fold_records by blast
  qed
  then show "gb_slopes gb' = gb_slopes gb" "gb_fixed gb' = gb_fixed gb"
    "p < k \<Longrightarrow> get (gb_votes gb') (k, v) = get (gb_votes gb) (k, v)" by blast+
qed

lemma slope_changes_split:
  assumes "books_ok n gb" and "q \<le> p" and "p \<le> r"
  shows "gauge_slope_changes gb v q r = gauge_slope_changes gb v q p @ gauge_slope_changes gb v p r"
proof -
  have srt: "keys_sorted (prefix_of (gb_slopes gb) v)"
    using om.entries_keys_sorted [of "prefix_of (gb_slopes gb) v"] assms(1) by (simp add: books_ok_def wf_prefix_of entries_def)
  have "filter (\<lambda>e. q < fst e \<and> fst e \<le> r) es = filter (\<lambda>e. q < fst e \<and> fst e \<le> p) es @ filter (\<lambda>e. p < fst e \<and> fst e \<le> r) es"
    if "keys_sorted es" for es :: "(nat \<times> nat) list"
    using that
  proof (induction es)
    case (Cons e es)
    have s: "keys_sorted es" "\<And>d. d \<in> set es \<Longrightarrow> fst e < fst d" using Cons.prems by (simp_all add: keys_sorted_iff)
    have "p < fst e \<Longrightarrow> filter (\<lambda>d. q < fst d \<and> fst d \<le> p) es = []" using s(2) by (fastforce simp: filter_empty_conv)
    with Cons.IH [OF s(1)] assms(2,3) show ?case by auto
  qed simp
  from this [OF srt] show ?thesis by (simp add: gauge_slope_changes_def)
qed

text \<open>After an update the last record before a later period is the same, or the one just saved.\<close>

lemma update_new_query:
  assumes ok: "books_ok n gb" and ok': "books_ok n gb'" and none: "get (gb_votes gb) (p, v) = None"
    and sl: "gb_slopes gb' = gb_slopes gb" and fx: "gb_fixed gb' = gb_fixed gb"
    and now: "get (gb_votes gb') (p, v) = Some i" and later: "\<And>k. p < k \<Longrightarrow> get (gb_votes gb') (k, v) = get (gb_votes gb) (k, v)"
    and q: "get_validator_info p v gb = Ok (info_response i (fetch_last_validator_fixed_value gb p v))"
    and fit: "slopes_fit gb r" and pr: "p < r"
  shows "get_validator_info r v gb' = get_validator_info r v gb"
proof -
  have changes: "gauge_slope_changes gb' v a b = gauge_slope_changes gb v a b" for a b
    by (simp add: gauge_slope_changes_def sl)
  have fixed': "fetch_last_validator_fixed_value gb' b w = fetch_last_validator_fixed_value gb b w" for b w
    by (simp add: fetch_last_validator_fixed_value_def fetch_last_validator_fixed_def fx)
  have fit': "get (gb_votes gb) (k, v) = Some j \<Longrightarrow> t \<le> r \<Longrightarrow> vi_slope j * t \<le> U128_MAX" for k j t
    using fit(1) unfolding slopes_fit_def by (meson le_trans mult_le_mono2)
  have at_r: "get (gb_votes gb') (r, v) = get (gb_votes gb) (r, v)" using later pr by simp
  show ?thesis
  proof (cases "get (gb_votes gb) (r, v)")
    case (Some j)
    with at_r show ?thesis by (simp add: get_validator_info_def fixed')
  next
    case r: None
    show ?thesis
    proof (cases "\<exists>k. p < k \<and> k < r \<and> get (gb_votes gb) (k, v) \<noteq> None")
      case True
      then have "fetch_last_validator_period gb r v \<noteq> None" by (auto simp: last_period_None [OF ok])
      then obtain l where l: "fetch_last_validator_period gb r v = Some l" by blast
      note L = last_period_Some [OF ok l]
      have "p < l"
      proof (rule ccontr)
        assume "\<not> p < l"
        with True L(3) show False by (meson le_less_trans not_le_imp_less)
      qed
      then have "fetch_last_validator_period gb' r v = Some l"
        using L later unfolding last_period_Some_iff [OF ok'] by (metis order_less_trans)
      moreover obtain j where "get (gb_votes gb) (l, v) = Some j" using L(2) by blast
      ultimately show ?thesis
        using query_power_at [OF ok r l, of j] query_power_at [OF ok' _ _, of r v l j] at_r r later [OF \<open>p < l\<close>] fit'
        by (simp add: changes fixed')
    next
      case False
      have l': "fetch_last_validator_period gb' r v = Some p"
        using now pr later False unfolding last_period_Some_iff [OF ok'] by (metis option.distinct(1))
      show ?thesis
      proof (cases "fetch_last_validator_period gb p v")
        case (Some l)
        note L = last_period_Some [OF ok Some]
        obtain j where j: "get (gb_votes gb) (l, v) = Some j" using L(2) by blast
        have lr: "fetch_last_validator_period gb r v = Some l"
          using L pr none False unfolding last_period_Some_iff [OF ok] by (metis linorder_neqE_nat order_less_trans)
        have i: "i = power_at j l (gauge_slope_changes gb v l p) p"
          using q query_power_at [OF ok none Some j fit' [OF j]] pr by (simp add: info_response_def)
        have "vi_slope i \<le> vi_slope j" unfolding i by (rule power_at_slope)
        then have "vi_slope i * r \<le> U128_MAX" using fit' [OF j order.refl] by (meson le_trans mult_le_mono1)
        then have "get_validator_info r v gb' = Ok (info_response (power_at i p (gauge_slope_changes gb v p r) r)
            (fetch_last_validator_fixed_value gb r v))"
          using query_power_at [OF ok' _ l' now] at_r r by (simp add: changes fixed')
        also have "power_at i p (gauge_slope_changes gb v p r) r = power_at j l (gauge_slope_changes gb v l r) r"
        proof -
          have s: "gauge_slope_changes gb v l r = gauge_slope_changes gb v l p @ gauge_slope_changes gb v p r"
            using slope_changes_split [OF ok] L(1) pr by simp
          show ?thesis unfolding i s
            by (rule power_at_append [symmetric])
              (use slope_changes_sorted [OF ok] L(1) pr s in \<open>auto simp flip: s\<close>)
        qed
        also have "Ok (info_response \<dots> (fetch_last_validator_fixed_value gb r v)) = get_validator_info r v gb"
          using query_power_at [OF ok r lr j fit' [OF j]] by simp
        finally show ?thesis .
      next
        case no: None
        have "get (gb_votes gb) (k, v) = None" if "k < r" for k
          using that no none False unfolding last_period_None [OF ok] by (metis linorder_neqE_nat)
        then have lr: "fetch_last_validator_period gb r v = None" by (simp add: last_period_None [OF ok])
        have z: "vi_power i = 0" "vi_slope i = 0"
          using q no none by (simp_all add: get_validator_info_def info_response_def)
        have "get_validator_info r v gb' = Ok (info_response i (fetch_last_validator_fixed_value gb r v))"
          using query_power_at [OF ok' _ l' now] at_r r z power_at_zero [OF z] by (simp add: changes fixed')
        then show ?thesis using r lr z by (simp add: get_validator_info_def info_response_def)
      qed
    qed
  qed
qed

lemma update_none_query:
  assumes ok: "books_ok n gb" and u: "update_validator_info p v None gb = (Ok i, gb')" and n: "p \<le> n"
    and fit: "slopes_fit gb r" and pr: "p \<le> r"
  shows "get_validator_info r w gb' = get_validator_info r w gb"
proof (cases "w = v")
  case False
  then show ?thesis by (rule query_same [OF update_none_same [OF u]])
next
  case True
  let ?gb = "add_validator_to_active v gb"
  have okA: "books_ok n ?gb" by (rule books.keep_active [OF ok])
  have ok': "books_ok n gb'" using books.keep_update [OF ok n, of v None] by (simp add: u)
  have same: "get_validator_info b v ?gb = get_validator_info b v gb" for b by (rule query_same) simp
  from u show ?thesis
  proof (cases rule: update_none_cases)
    case old
    then have "gb' = ?gb" by (auto simp: get_validator_info_mut_def and_then_Ok split: option.splits)
    with same True show ?thesis by simp
  next
    case (new gb1)
    note m = info_mut_records [OF new(1) okA]
    have fitA: "slopes_fit ?gb r" using fit by (simp add: slopes_fit_def add_validator_to_active_def)
    have q: "get_validator_info p v ?gb = Ok (info_response i (fetch_last_validator_fixed_value ?gb p v))"
      unfolding query_by_mut new(1) by simp
    have now: "get (gb_votes gb') (p, v) = Some i" by (simp add: new(2) save_voted_def store_simps)
    have fx: "gb_fixed gb' = gb_fixed ?gb" "gb_slopes gb' = gb_slopes ?gb" using m(2,3) by (simp_all add: new(2) save_voted_def)
    show ?thesis
    proof (cases "p = r")
      case True
      then have "get_validator_info r v gb' = Ok (info_response i (fetch_last_validator_fixed_value ?gb p v))"
        using now fx by (simp add: get_validator_info_def info_response_def fetch_last_validator_fixed_value_def fetch_last_validator_fixed_def)
      with q same \<open>w = v\<close> True show ?thesis by simp
    next
      case False
      have later: "get (gb_votes gb') (k, v) = get (gb_votes ?gb) (k, v)" if "p < k" for k
        using m(4) [OF that] that by (simp add: new(2) save_voted_def store_simps)
      have "get_validator_info r v gb' = get_validator_info r v ?gb"
        using update_new_query [OF okA ok' m(1) fx(2,1) now later q fitA] False pr by simp
      with same \<open>w = v\<close> show ?thesis by simp
    qed
  qed
qed

end
