(* ===== verification/GaugeTune.thy ===== *)
theory GaugeTune
  imports GaugeReplay GaugeReach
begin

text \<open>Tuning: the points are the best validators by the power the query showed before. And the records of every reachable state.\<close>

section \<open>Tuning\<close>

text \<open>The power of a validator as the query shows it.\<close>

definition vamp_at :: "gauge_books \<Rightarrow> u64 \<Rightarrow> string \<Rightarrow> u128" where
  "vamp_at gb p v = (case get_validator_info p v gb of Ok i \<Rightarrow> gv_voting_power i + gv_fixed_amount i | _ \<Rightarrow> 0)"

lemma vamp_at_update:
  assumes "update_validator_info p v None gb = (Ok i, gb')"
  shows "vamp_at gb p v = vi_power i + fetch_last_validator_fixed_value gb p v"
  by (simp add: vamp_at_def query_by_update assms info_response_def)

text \<open>
  Tuning goes through the active validators: each step updates the record of one validator, notes its power and may make it inactive.
  Both gauges tune this way.
\<close>

locale tuning =
  fixes p :: u64
    and step :: "gauge_books \<times> (string \<times> u128) list \<Rightarrow> string \<Rightarrow> (gauge_books \<times> (string \<times> u128) list, std_error) result"
  assumes step: "step (gb, votes) v = Ok (gb', votes') \<Longrightarrow> \<exists>i gb1. update_validator_info p v None gb = (Ok i, gb1)
      \<and> votes' = votes @ [(v, vi_power i + fetch_last_validator_fixed_value gb p v)]
      \<and> (gb' = gb1 \<or> gb' = gb1\<lparr>gb_validators := del v (gb_validators gb1)\<rparr>)"
begin

lemma step_Ok:
  assumes "step (gb, votes) v = Ok (gb', votes')"
  obtains i gb1 where "update_validator_info p v None gb = (Ok i, gb1)"
    "votes' = votes @ [(v, vi_power i + fetch_last_validator_fixed_value gb p v)]"
    "gb' = gb1 \<or> gb' = gb1\<lparr>gb_validators := del v (gb_validators gb1)\<rparr>"
  using step [OF assms] by blast

lemma fold_records:
  assumes "try_fold step (gb, votes) vs = Ok (gb', votes')" and "books_ok n gb" and "p \<le> n"
  shows "books_ok n gb'"
  using assms
proof (induction vs arbitrary: gb votes)
  case Nil
  then show ?case by simp
next
  case (Cons v vs)
  from Cons.prems(1) obtain gb1 votes1 where s: "step (gb, votes) v = Ok (gb1, votes1)"
    and rest: "try_fold step (gb1, votes1) vs = Ok (gb', votes')"
    by (auto simp: and_then_Ok)
  from s obtain i gb2 where u: "update_validator_info p v None gb = (Ok i, gb2)"
    and g: "gb1 = gb2 \<or> gb1 = gb2\<lparr>gb_validators := del v (gb_validators gb2)\<rparr>"
    by (rule step_Ok)
  have "books_ok n gb2" using books.keep_update [OF Cons.prems(2,3), of v None] by (simp add: u)
  then have "books_ok n gb1" using g books.inactive by blast
  from Cons.IH [OF rest this Cons.prems(3)] show ?case .
qed

lemma fold_fixed: "try_fold step (gb, votes) vs = Ok (gb', votes') \<Longrightarrow> gb_fixed gb' = gb_fixed gb"
proof (induction vs arbitrary: gb votes)
  case Nil
  then show ?case by simp
next
  case (Cons v vs)
  from Cons.prems obtain gb1 votes1 where s: "step (gb, votes) v = Ok (gb1, votes1)"
    and rest: "try_fold step (gb1, votes1) vs = Ok (gb', votes')"
    by (auto simp: and_then_Ok)
  from s obtain i gb2 where u: "update_validator_info p v None gb = (Ok i, gb2)"
    and g: "gb1 = gb2 \<or> gb1 = gb2\<lparr>gb_validators := del v (gb_validators gb2)\<rparr>"
    by (rule step_Ok)
  have "gb_fixed gb1 = gb_fixed gb" using update_validator_info_fixed [of p v None gb] g by (auto simp: u)
  with Cons.IH [OF rest] show ?case by simp
qed

lemma fold_votes:
  assumes "try_fold step (gb, votes) vs = Ok (gb', votes')" and "distinct vs"
  shows "votes' = votes @ map (\<lambda>v. (v, vamp_at gb p v)) vs"
  using assms
proof (induction vs arbitrary: gb votes)
  case Nil
  then show ?case by simp
next
  case (Cons v vs)
  from Cons.prems(1) obtain gb1 votes1 where s: "step (gb, votes) v = Ok (gb1, votes1)"
    and rest: "try_fold step (gb1, votes1) vs = Ok (gb', votes')"
    by (auto simp: and_then_Ok)
  from s obtain i gb2 where u: "update_validator_info p v None gb = (Ok i, gb2)"
    and v1: "votes1 = votes @ [(v, vi_power i + fetch_last_validator_fixed_value gb p v)]"
    and g: "gb1 = gb2 \<or> gb1 = gb2\<lparr>gb_validators := del v (gb_validators gb2)\<rparr>"
    by (rule step_Ok)
  have "vamp_at gb1 p w = vamp_at gb p w" if "w \<in> set vs" for w
  proof -
    have "w \<noteq> v" using that Cons.prems(2) by auto
    then have "same_for w gb gb1" using update_none_same [OF u] g by (auto simp: same_for_def)
    then show ?thesis by (simp add: vamp_at_def query_same)
  qed
  with Cons.IH [OF rest] Cons.prems(2) show ?case by (simp add: v1 vamp_at_update [OF u])
qed

end

lemma tune_step_Ok:
  assumes "tune_step p (gb, votes) v = Ok (gb', votes')"
  shows "\<exists>i gb1. update_validator_info p v None gb = (Ok i, gb1)
    \<and> votes' = votes @ [(v, vi_power i + fetch_last_validator_fixed_value gb p v)]
    \<and> (gb' = gb1 \<or> gb' = gb1\<lparr>gb_validators := del v (gb_validators gb1)\<rparr>)"
proof -
  from assms obtain i gb1 where u: "update_validator_info p v None gb = (Ok i, gb1)"
    and v: "votes' = votes @ [(v, vi_power i + fetch_last_validator_fixed_value gb1 p v)]"
    and g: "gb' = gb1 \<or> gb' = gb1\<lparr>gb_validators := del v (gb_validators gb1)\<rparr>"
    by (auto simp: tune_step_def and_then_Ok committed_Ok num_Ok split: if_splits)
  have "fetch_last_validator_fixed_value gb1 p v = fetch_last_validator_fixed_value gb p v"
    using fixed_at_cong [OF update_validator_info_fixed [of p v None gb]] by (simp add: u)
  with u v g show ?thesis by auto
qed

interpretation amp_tuning: tuning p "tune_step p" for p
  by unfold_locales (rule tune_step_Ok)

text \<open>A prefix of a list in descending order holds the greatest.\<close>

lemma take_greatest:
  assumes "sorted_wrt (\<lambda>x y. f y \<le> f x) xs" and "x \<in> set xs" and "x \<notin> set (take n xs)" and "y \<in> set (take n xs)"
  shows "f x \<le> f y" and "length (take n xs) = n"
proof -
  have "sorted_wrt (\<lambda>x y. f y \<le> f x) (take n xs @ drop n xs)" using assms(1) by simp
  moreover have "x \<in> set (drop n xs)" using assms(2,3) by (metis Un_iff append_take_drop_id set_append)
  ultimately show "f x \<le> f y" using assms(4) unfolding sorted_wrt_append by blast
  show "length (take n xs) = n" using assms(2,3) by (metis le_cases length_take min.absorb2 take_all)
qed

text \<open>The points are the best of the active and known validators.\<close>

definition best_of :: "gauge_books \<Rightarrow> u64 \<Rightarrow> string list \<Rightarrow> nat \<Rightarrow> (string \<times> u128) list \<Rightarrow> bool" where
  "best_of gb p allowed limit points \<longleftrightarrow> length points \<le> limit
     \<and> distinct (map fst points) \<and> sorted_wrt (\<lambda>x y. snd y \<le> snd x) points
     \<and> (\<forall>(v, x) \<in> set points. x = vamp_at gb p v \<and> x \<noteq> 0 \<and> v \<in> set allowed \<and> get (gb_validators gb) v \<noteq> None)
     \<and> (\<forall>v. get (gb_validators gb) v \<noteq> None \<longrightarrow> v \<in> set allowed \<longrightarrow> vamp_at gb p v \<noteq> 0 \<longrightarrow> v \<notin> fst ` set points \<longrightarrow>
         length points = limit \<and> (\<forall>(w, x) \<in> set points. vamp_at gb p v \<le> x))"

lemma points_best:
  assumes wf: "wf_store (gb_validators gb)"
    and votes: "votes = map (\<lambda>v. (v, vamp_at gb p v)) (map fst (entries (gb_validators gb)))"
    and pts: "points = take limit (filter (\<lambda>e. fst e \<in> set allowed) (sorted_desc snd (filter (\<lambda>e. snd e \<noteq> 0) votes)))"
    and ne: "points \<noteq> []"
  shows "best_of gb p allowed limit points"
proof -
  let ?vs = "map fst (entries (gb_validators gb))"
  have dv: "distinct ?vs" by (rule om.keys_distinct [OF wf])
  define cand where "cand = filter (\<lambda>e. fst e \<in> set allowed) (sorted_desc snd (filter (\<lambda>e. snd e \<noteq> 0) votes))"
  have points: "points = take limit cand" by (simp add: pts cand_def)
  have srt: "sorted_wrt (\<lambda>x y. snd y \<le> snd x) cand"
    unfolding cand_def by (intro sorted_wrt_filter sorted_desc_sorted)
  have active: "v \<in> set ?vs \<longleftrightarrow> get (gb_validators gb) v \<noteq> None" for v
    using om.entries_eq_set [OF wf] by force
  have cset: "(v, x) \<in> set cand \<longleftrightarrow> v \<in> set allowed \<and> x = vamp_at gb p v \<and> x \<noteq> 0 \<and> get (gb_validators gb) v \<noteq> None" for v x
    using active [of v] by (auto simp: cand_def votes)
  have "distinct (map fst votes)" using dv by (simp add: votes comp_def)
  then have "distinct (map fst (filter (\<lambda>e. snd e \<noteq> 0) votes))" by (rule distinct_map_filter)
  then have "distinct (map fst (sorted_desc snd (filter (\<lambda>e. snd e \<noteq> 0) votes)))" by simp
  then have "distinct (map fst cand)" unfolding cand_def by (rule distinct_map_filter)
  then have dp: "distinct (map fst points)" by (simp add: points take_map [symmetric])
  have sub: "set points \<subseteq> set cand" by (simp add: points set_take_subset)
  have out: "length points = limit \<and> (\<forall>(w, x) \<in> set points. vamp_at gb p v \<le> x)"
    if "get (gb_validators gb) v \<noteq> None" "v \<in> set allowed" "vamp_at gb p v \<noteq> 0" "v \<notin> fst ` set points" for v
  proof -
    let ?e = "(v, vamp_at gb p v)"
    have c: "?e \<in> set cand" using cset that by simp
    have n: "?e \<notin> set (take limit cand)" using that(4) by (force simp: points)
    obtain y where y: "y \<in> set points" using ne by (cases points) auto
    show ?thesis using take_greatest [OF srt c n] y by (auto simp: points)
  qed
  have srtp: "sorted_wrt (\<lambda>x y. snd y \<le> snd x) points" unfolding points by (rule sorted_wrt_take [OF srt])
  show ?thesis
    unfolding best_of_def using dp srtp sub cset out by (auto simp: points)
qed

section \<open>The records of reachable states\<close>

definition amp_records :: "u64 \<Rightarrow> amp_state \<Rightarrow> bool" where
  "amp_records T st \<longleftrightarrow> books_ok (T + 1) (am_books st)"

lemma remove_votes_records: "books_ok (p + 1) gb \<Longrightarrow> remove_votes_of_user ui p gb = (r, gb') \<Longrightarrow> books_ok (p + 1) gb'"
  using books.keep_remove_votes [of p gb ui] by simp

lemma apply_votes_records: "books_ok (p + 1) gb \<Longrightarrow> apply_votes_of_user votes p vp li gb = (r, gb') \<Longrightarrow> books_ok (p + 1) gb'"
  using books.keep_apply_votes [of p gb votes vp li] by simp

lemma amp_execute_records:
  assumes x: "amp_execute deps env st info msg = Ok (st', resp)" and per: "get_period (env_time env) = Ok p"
    and ok: "amp_records p st"
  shows "amp_records p st'"
proof -
  have gb: "books_ok (p + 1) (am_books st)" using ok by (simp add: amp_records_def)
  show ?thesis
  proof (cases msg)
    case (Vote votes)
    with x have "handle_vote deps env st info votes = Ok (st', resp)" by simp
    then show ?thesis
    proof (cases rule: handle_vote_Ok)
      case (1 q cfg li allowed votes' gb1 gb2)
      with per have q: "q = p" by simp
      from apply_votes_records [OF remove_votes_records [OF gb 1(9) [unfolded q]] 1(10) [unfolded q]]
      show ?thesis by (simp add: amp_records_def 1(11))
    qed
  next
    case (AmpUpdateVote u li)
    with x have "update_vote deps env st info u li = Ok (st', resp)" by simp
    then show ?thesis
    proof (cases rule: update_vote_Ok)
      case (cleared a q ui gb1)
      with per have q: "q = p" by simp
      from remove_votes_records [OF gb cleared(4) [unfolded q]] show ?thesis by (simp add: amp_records_def cleared(7))
    next
      case (changed a q ui gb1 gb2)
      with per have q: "q = p" by simp
      from apply_votes_records [OF remove_votes_records [OF gb changed(4) [unfolded q]] changed(5) [unfolded q]]
      show ?thesis by (simp add: amp_records_def changed(6))
    qed (use ok in simp)
  next
    case (RemoveUser u)
    with x have "remove_user deps env st info u = Ok (st', resp)" by simp
    then show ?thesis
    proof (cases rule: remove_user_Ok)
      case (gone a q ui r gb1)
      with per have q: "q = p" by simp
      from remove_votes_records [OF gb gone(4) [unfolded q]] show ?thesis by (simp add: amp_records_def gone(6))
    qed (use ok in simp)
  next
    case TuneVamp
    with x have "tune_vamp deps env st info = Ok (st', resp)" by simp
    then show ?thesis
    proof (cases rule: tune_vamp_Ok)
      case (1 cfg q gb1 votes tune points)
      with per have q: "q = p" by simp
      from amp_tuning.fold_records [OF 1(4) [unfolded q] gb] show ?thesis by (simp add: amp_records_def 1(8))
    qed
  qed (use x ok in \<open>auto simp: amp_records_def amp_update_config_def and_then_Ok split: option.splits\<close>)
qed

lemma amp_reachable_records: "amp_reachable exact T st \<Longrightarrow> amp_records T st"
proof (induction rule: amp_reachable.induct)
  case (amp_start deps env msg st resp p)
  then have "am_books st = empty_books" by (auto simp: amp_instantiate_def and_then_Ok empty_amp_def)
  then show ?case by (simp add: amp_records_def books_ok_empty)
next
  case (amp_message exact T st deps env info msg st' resp p)
  then have "amp_records p st" by (auto simp: amp_records_def intro: books_ok_mono)
  from amp_execute_records [OF amp_message.hyps(2,3) this] show ?case .
next
  case (amp_migration exact T st deps st' resp)
  then have "am_books st' = am_books st" by (auto simp: amp_migrate_def and_then_Ok Let_def guard_Ok)
  with amp_migration.IH show ?case by (simp add: amp_records_def)
next
  case (amp_wait exact T st p)
  then show ?case by (auto simp: amp_records_def intro: books_ok_mono)
qed

end
