(* ===== verification/GaugeProps.thy ===== *)
theory GaugeProps
  imports GaugeSample GaugeVotes GaugeTune
begin

text \<open>
  The properties of the amp gauge, alone and with the escrow it follows.
\<close>

section \<open>Votes and locks\<close>

lemma shares_by_escrow:
  assumes "in_step escrow es g" and "wf_store (am_users g)"
  shows "shares_of (am_users g) v = sum_list (map (\<lambda>e. share (au_votes (snd e)) (counted_by es (fst e)) v) (entries (am_users g)))"
proof -
  have "user_share v (snd e) = share (au_votes (snd e)) (counted_by es (fst e)) v" if "e \<in> set (entries (am_users g))" for e
  proof -
    have "get (am_users g) (fst e) = Some (snd e)" using om.in_entries [OF assms(2), of "fst e" "snd e"] that by simp
    with assms(1) show ?thesis by (simp add: in_step_def amounts_are_def user_share_def)
  qed
  then show ?thesis unfolding shares_of_def by (metis (no_types, lifting) map_eq_conv)
qed

text \<open>
  C8: The gauge counts what the escrow holds: in every state the two can reach together, the fixed amount of a validator for the next
  period covers the shares of all voters, by their votes, of the amount the escrow counts for them now (the locked
  amount, or nothing while blacklisted). It is exactly the sum of the shares, unless the owner removed a user whose votes could not
  be taken out. Messages of the escrow are free until the gauge is registered there, as long as they change no lock of a user who has voted
  already; changes to the lock of such a user are only followed while the escrow's list of contracts to notify contains the gauge.
\<close>

theorem votes_count_locked_amounts:
  assumes "votes_reachable escrow gauge exact T es g"
  shows "sum_list (map (\<lambda>e. share (au_votes (snd e)) (counted_by es (fst e)) v) (entries (am_users g)))
      \<le> fetch_last_validator_fixed_value (am_books g) (T + 1) v
    \<and> (exact \<longrightarrow> fetch_last_validator_fixed_value (am_books g) (T + 1) v
        = sum_list (map (\<lambda>e. share (au_votes (snd e)) (counted_by es (fst e)) v) (entries (am_users g))))"
proof -
  from votes_reachable_inv [OF assms] have b: "amp_inv exact T g" and s: "in_step escrow es g"
    using amp_reachable_inv by blast+
  have "wf_store (am_users g)" using b by (simp add: books_balance_def)
  from shares_by_escrow [OF s this] b show ?thesis by (simp add: books_balance_def)
qed

theorem votes_count_locked_amounts_witness:
  "fetch_last_validator_fixed_value (am_books gauge_both) (1 + 1) ''v2''
    = sum_list (map (\<lambda>e. share (au_votes (snd e)) (counted_by (with_gauge escrow_both) (fst e)) ''v2'') (entries (am_users gauge_both)))"
  using votes_count_locked_amounts [OF votes_reachable_both, of "''v2''"] by simp

lemma sum_shares_le:
  assumes "stored_votes_ok g" and "in_step escrow es g" and "wf_store (am_users g)" and "distinct vs"
  shows "sum_list (map (shares_of (am_users g)) vs) \<le> sum_list (map (\<lambda>e. counted_by es (fst e)) (entries (am_users g)))"
proof -
  let ?E = "entries (am_users g)"
  have "sum_list (map (shares_of (am_users g)) vs) = sum_list (map (\<lambda>e. sum_list (map (share (au_votes (snd e)) (counted_by es (fst e))) vs)) ?E)"
    unfolding shares_by_escrow [OF assms(2,3), abs_def] by (induction vs) (simp_all add: sum_list_addf)
  also have "\<dots> \<le> sum_list (map (\<lambda>e. counted_by es (fst e)) ?E)"
  proof (rule sum_list_map_mono)
    fix e assume "e \<in> set ?E"
    then have "get (am_users g) (fst e) = Some (snd e)" using om.in_entries [OF assms(3), of "fst e" "snd e"] by simp
    then have "votes_ok (au_votes (snd e))" using assms(1) by (auto simp: stored_votes_ok_def)
    then show "sum_list (map (share (au_votes (snd e)) (counted_by es (fst e))) vs) \<le> counted_by es (fst e)"
      by (rule share_sum_total [OF _ assms(4)])
  qed
  finally show ?thesis .
qed

lemma counted_le_locked_total:
  assumes "escrow_inv c T es" and "distinct (map fst E)"
  shows "sum_list (map (\<lambda>e. counted_by es (fst e)) E) \<le> locked_total es"
proof -
  have wf: "wf_store (ve_locked es)" using assms(1) core_invD(3) by (auto simp: escrow_inv_def)
  let ?K = "fst ` set (ve_locked es) \<union> fst ` set E"
  have "sum_list (map (\<lambda>e. counted_by es (fst e)) E) = sum_list (map (counted_by es) (map fst E))" by (simp add: comp_def)
  also have "\<dots> = sum (counted_by es) (fst ` set E)" using assms(2) by (simp add: sum_list_distinct_conv_sum_set del: map_map)
  also have "\<dots> \<le> sum (locked_amount es) (fst ` set E)" by (rule sum_mono) (simp add: counted_by_def counted_def)
  also have "\<dots> \<le> sum (locked_amount es) ?K" by (rule sum_mono2) auto
  also have "\<dots> = locked_total es" by (rule locked_total_sum [OF wf, symmetric]) auto
  finally show ?thesis .
qed

text \<open>
  No deposit is counted twice: in every state escrow and gauge can reach together (unless a user had to be removed with votes left
  behind), the fixed amounts of any distinct validators together are at most all deposits the escrow holds.
\<close>

theorem validators_count_at_most_the_deposits:
  assumes "votes_reachable escrow gauge True T es g" and "distinct vs"
  shows "sum_list (map (fetch_last_validator_fixed_value (am_books g) (T + 1)) vs) \<le> locked_total es"
proof -
  from votes_reachable_inv [OF assms(1)] have r: "escrow_reachable escrow T es" and a: "amp_reachable True T g"
    and s: "in_step escrow es g" by blast+
  have b: "amp_inv True T g" by (rule amp_reachable_inv [OF a])
  then have wf: "wf_store (am_users g)" and fx: "fixed_at (am_books g) (T + 1) v = shares_of (am_users g) v" for v
    by (simp_all add: books_balance_def)
  have "sum_list (map (fixed_at (am_books g) (T + 1)) vs) = sum_list (map (shares_of (am_users g)) vs)"
    using fx by (simp cong: map_cong)
  also have "\<dots> \<le> sum_list (map (\<lambda>e. counted_by es (fst e)) (entries (am_users g)))"
    by (rule sum_shares_le [OF amp_reachable_votes_ok [OF a] s wf assms(2)])
  also have "\<dots> \<le> locked_total es"
    by (rule counted_le_locked_total [OF escrow_reachable_inv [OF r] om.keys_distinct [OF wf]])
  finally show ?thesis .
qed

theorem validators_count_at_most_the_deposits_witness:
  "sum_list (map (fetch_last_validator_fixed_value (am_books gauge_both) (1 + 1)) [''v1'', ''v2'']) \<le> locked_total (with_gauge escrow_both)"
  using validators_count_at_most_the_deposits [OF votes_reachable_both, of "[''v1'', ''v2'']"] by simp

text \<open>
  C38: The escrow keeps its followers informed: after every message that changes a lock or the blacklist, each contract in its list
  is sent the new lock of each user whose counted amount changed, and every lock it is sent is the one the escrow's own query returns
  after the message.
\<close>

theorem escrow_pushes_every_change:
  assumes "escrow_reachable (env_contract env) T st" and "get_period (env_time env) = Ok p" and "T \<le> p"
    and "escrow_execute deps env st info msg = Ok (st', resp)" and "\<not> administrative msg"
    and "from_outside deps env info msg" and "proper_addresses deps info" and "ve_config st = Some cfg"
  shows "(\<forall>a c. counted_by st' a \<noteq> counted_by st a \<longrightarrow> c \<in> set (ec_push_update_contracts cfg) \<longrightarrow>
      (\<exists>li. PlainMsg (WasmExecute c (UpdateVote a li) []) \<in> set (resp_msgs resp)))
    \<and> (\<forall>a c li funds. PlainMsg (WasmExecute c (UpdateVote a li) funds) \<in> set (resp_msgs resp) \<longrightarrow>
      get_user_lock_info deps env st' a = Ok li)"
proof -
  have "escrow_inv (env_contract env) p st" by (rule escrow_inv_later [OF escrow_reachable_inv [OF assms(1)] assms(3)])
  from escrow_execute_announces [OF assms(4,5) this assms(2,6,7,8)]
  have "announces deps env cfg st st' resp" .
  then show ?thesis unfolding announces_def tells_truth_def tells_all_def update_for_def by blast
qed

theorem escrow_pushes_every_change_witness:
  "\<exists>resp li. escrow_execute ve_deps (at_week 2) (with_gauge escrow_both) (by_sender ''guardian'')
      (UpdateBlacklist (Some [''alice'']) None) = Ok (with_gauge escrow_barred, resp)
    \<and> PlainMsg (WasmExecute ''gauge'' (UpdateVote ''alice'' li) []) \<in> set (resp_msgs resp)"
proof -
  obtain resp where x: "escrow_execute ve_deps (at_week 2) (with_gauge escrow_both) (by_sender ''guardian'')
      (UpdateBlacklist (Some [''alice'']) None) = Ok (with_gauge escrow_barred, resp)"
    using both_leadD [OF alice_barred_run] by blast
  have r: "escrow_reachable ''escrow'' 1 (with_gauge escrow_both)" using votes_reachable_inv [OF votes_reachable_both] by blast
  have c: "counted_by (with_gauge escrow_barred) ''alice'' \<noteq> counted_by (with_gauge escrow_both) ''alice''" by code_simp
  from escrow_pushes_every_change [OF _ sample_period(1) _ x _ _ sample_proper, of 1] r c
  show ?thesis using x by (auto simp: barring_outside with_gauge_def)
qed

text \<open>
  What a successful vote does: the voter has voting power, the validators are distinct and known to the hub, and the basis points
  are at most ten thousand in total. The record of the voter holds the vote and the lock as the escrow gave it, no other record
  changes, and for the next period each validator loses the voter's old share of the fixed amount and gains the new one.
\<close>

theorem vote_is_recorded:
  assumes "amp_reachable exact T st" and "amp_execute deps env st info (Vote votes) = Ok (st', resp)"
    and "get_period (env_time env) = Ok p" and "T \<le> p"
  shows "\<exists>cfg li allowed. am_config st = Some cfg \<and> gd_lock_info deps (ac_escrow_addr cfg) (info_sender info) = Ok li
    \<and> gd_hub_validators deps (ac_hub_addr cfg) = Ok allowed \<and> li_voting_power li + li_fixed_amount li \<noteq> 0
    \<and> distinct (map fst votes) \<and> fst ` set votes \<subseteq> set allowed \<and> sum_list (map snd votes) \<le> 10000
    \<and> am_users st' = put (info_sender info) \<lparr>au_vote_ts = env_time env, au_voting_power = li_voting_power li, au_slope = li_slope li,
        au_lock_end = li_end li, au_votes = votes, au_fixed_amount = li_fixed_amount li\<rparr> (am_users st)
    \<and> (\<forall>v. fetch_last_validator_fixed_value (am_books st') (p + 1) v + stored_share (am_users st) (info_sender info) v
        = fetch_last_validator_fixed_value (am_books st) (p + 1) v + share votes (li_fixed_amount li) v)"
proof -
  have inv: "fixed_ok (p + 1) (am_books st)"
    using books_balance_later [OF amp_reachable_inv [OF assms(1)] assms(4)] by (simp add: books_balance_def)
  from assms(2) have "handle_vote deps env st info votes = Ok (st', resp)" by simp
  then show ?thesis
  proof (cases rule: handle_vote_Ok)
    case (1 q cfg li allowed votes' gb gb')
    have q: "q = p" using 1(1) assms(3) by simp
    note c = check_votes_Ok [OF 1(7)]
    have ok: "votes_ok votes" using vote_votes_ok [OF 1(5)] 1(8) c(1) by simp
    note r = remove_votes_outcome [OF inv 1(9) [unfolded q]]
    note a = apply_votes_adds [OF 1(10) [unfolded q] r(1)]
    have "fixed_at gb' (p + 1) v + stored_share (am_users st) (info_sender info) v = fixed_at (am_books st) (p + 1) v + share votes (li_fixed_amount li) v" for v
      using r(3) [OF refl, of v] a c(1) by (simp add: stored_share_or)
    then show ?thesis
      using 1(2-6) c ok by (intro exI [of _ cfg] exI [of _ li] exI [of _ allowed]) (simp add: 1(11) votes_ok_def BPS_MAX_def)
  qed
qed

theorem vote_is_recorded_witness:
  "\<exists>resp (li :: lock_info). amp_execute (vamp_deps (with_gauge escrow_both) 1) (at_week 1) gauge_started (by_sender ''alice'') (Vote alice_votes) = Ok (gauge_alice, resp)
    \<and> am_users gauge_alice = put ''alice'' \<lparr>au_vote_ts = env_time (at_week 1), au_voting_power = li_voting_power li, au_slope = li_slope li,
        au_lock_end = li_end li, au_votes = alice_votes, au_fixed_amount = li_fixed_amount li\<rparr> (am_users gauge_started)"
proof -
  from leadsD [OF alice_votes_run] obtain resp where x: "amp_execute (vamp_deps (with_gauge escrow_both) 1) (at_week 1) gauge_started
    (by_sender ''alice'') (Vote alice_votes) = Ok (gauge_alice, resp)" ..
  have r: "amp_reachable True 0 gauge_started" using votes_reachable_inv [OF votes_reachable_started] by blast
  have s: "info_sender (by_sender ''alice'') = ''alice''" by (simp add: by_sender_def)
  from vote_is_recorded [OF r x sample_period(1) le0] obtain li :: lock_info where
    "am_users gauge_alice = put ''alice'' \<lparr>au_vote_ts = env_time (at_week 1), au_voting_power = li_voting_power li, au_slope = li_slope li,
        au_lock_end = li_end li, au_votes = alice_votes, au_fixed_amount = li_fixed_amount li\<rparr> (am_users gauge_started)"
    unfolding s by (elim exE conjE) (rule that, assumption)
  with x show ?thesis by (intro exI [of _ resp] exI [of _ li] conjI)
qed

section \<open>Roles\<close>

text \<open>
  Who may do what at the gauge: tuning, removing a user and changing the limit need the owner; updates of votes come from the
  escrow only; and the record of a user changes by the user's own vote, by an update of the escrow for this user, or by the owner's
  removal of this user.
\<close>

theorem gauge_roles:
  assumes "amp_execute deps env st info msg = Ok (st', resp)" and "am_config st = Some cfg"
  shows "(amp_owner_message msg \<longrightarrow> info_sender info = ac_owner cfg)
    \<and> (\<forall>u li. msg = AmpUpdateVote u li \<longrightarrow> info_sender info = ac_escrow_addr cfg)
    \<and> (\<forall>a. get (am_users st') a \<noteq> get (am_users st) a \<longrightarrow>
        info_sender info = a \<and> (\<exists>votes. msg = Vote votes)
        \<or> info_sender info = ac_escrow_addr cfg \<and> (\<exists>u li. msg = AmpUpdateVote u li \<and> gd_addr_validate deps u = Ok a)
        \<or> info_sender info = ac_owner cfg \<and> (\<exists>u. msg = RemoveUser u \<and> gd_addr_validate deps u = Ok a))"
  using amp_execute_roles [OF assms(1)] amp_execute_users [OF assms(1)] assms(2) by fastforce

theorem gauge_roles_witness:
  "\<exists>resp. amp_execute (vamp_deps (with_gauge escrow_both) 1) (at_week 1) gauge_started (by_sender ''alice'') (Vote alice_votes) = Ok (gauge_alice, resp)
    \<and> get (am_users gauge_alice) ''bob'' = get (am_users gauge_started) ''bob''"
proof -
  from leadsD [OF alice_votes_run] obtain resp where x: "amp_execute (vamp_deps (with_gauge escrow_both) 1) (at_week 1) gauge_started
    (by_sender ''alice'') (Vote alice_votes) = Ok (gauge_alice, resp)" ..
  from gauge_roles [OF x, of "the (am_config gauge_started)"] x show ?thesis
    by (auto simp: by_sender_def gauge_started_def sample_gauge_def)
qed

text \<open>
  The properties of tuning and of the queries of the amp gauge, and a run in which the escrow cannot take a voter off its blacklist.
\<close>

section \<open>Tuning\<close>

text \<open>
  C30: Tuning stores the best validators: the points are in descending order and at most as many as the limit; each belongs to a
  distinct validator that is active and known to the hub, and is the voting power (decaying and fixed) the query showed
  before for this period, not zero. A validator with voting power that is active and known but left out is not above any of them,
  and then the limit is used up.
\<close>

theorem tuning_ranks_validators:
  assumes "amp_reachable exact T st" and "amp_execute deps env st info TuneVamp = Ok (st', resp)"
    and "get_period (env_time env) = Ok p"
  shows "\<exists>cfg tune allowed. am_config st = Some cfg \<and> am_tune_info st' = Some tune \<and> ag_tune_ts tune = env_time env
    \<and> gd_hub_validators deps (ac_hub_addr cfg) = Ok allowed
    \<and> ag_vamp_points tune \<noteq> [] \<and> length (ag_vamp_points tune) \<le> ac_validators_limit cfg
    \<and> distinct (map fst (ag_vamp_points tune)) \<and> sorted_wrt (\<lambda>x y. snd y \<le> snd x) (ag_vamp_points tune)
    \<and> (\<forall>(v, x) \<in> set (ag_vamp_points tune). x = vamp_at (am_books st) p v \<and> x \<noteq> 0 \<and> v \<in> set allowed
        \<and> get (gb_validators (am_books st)) v \<noteq> None)
    \<and> (\<forall>v. get (gb_validators (am_books st)) v \<noteq> None \<longrightarrow> v \<in> set allowed \<longrightarrow> vamp_at (am_books st) p v \<noteq> 0 \<longrightarrow>
        v \<notin> fst ` set (ag_vamp_points tune) \<longrightarrow>
        length (ag_vamp_points tune) = ac_validators_limit cfg \<and> (\<forall>(w, x) \<in> set (ag_vamp_points tune). vamp_at (am_books st) p v \<le> x))"
proof -
  have wf: "wf_store (gb_validators (am_books st))"
    using amp_reachable_records [OF assms(1)] by (simp add: amp_records_def books_ok_def)
  from assms(2) have "tune_vamp deps env st info = Ok (st', resp)" by simp
  then show ?thesis
  proof (cases rule: tune_vamp_Ok)
    case (1 cfg q gb votes tune points)
    have q: "q = p" using 1(3) assms(3) by simp
    have votes: "votes = map (\<lambda>v. (v, vamp_at (am_books st) p v)) (map fst (entries (gb_validators (am_books st))))"
      using amp_tuning.fold_votes [OF 1(4) [unfolded q] om.keys_distinct [OF wf]] by simp
    from 1(6) obtain allowed where al: "gd_hub_validators deps (ac_hub_addr cfg) = Ok allowed"
      and pts: "points = take (ac_validators_limit cfg)
        (filter (\<lambda>e. fst e \<in> set allowed) (sorted_desc snd (filter (\<lambda>e. snd e \<noteq> 0) votes)))"
      by (auto simp: filter_validators_def and_then_Ok)
    from points_best [OF wf votes pts 1(7)] 1(1,7) al show ?thesis
      by (intro exI [of _ cfg] exI [of _ "tune\<lparr>ag_vamp_points := points, ag_tune_ts := env_time env\<rparr>"] exI [of _ allowed])
        (simp add: 1(8) best_of_def)
  qed
qed

definition gauge_tuned :: amp_state where
  "gauge_tuned = gauge_both\<lparr>am_tune_info := Some \<lparr>ag_tune_ts = week_time 2, ag_vamp_points = [(''v2'', 6287), (''v1'', 1158)]\<rparr>\<rparr>"

lemma owner_tunes: "leads (amp_execute (vamp_deps (with_gauge escrow_both) 2) (at_week 2) gauge_both (by_sender ''owner'') TuneVamp) gauge_tuned"
  by code_simp

lemma gauge_both_reachable: "amp_reachable True 1 gauge_both"
  using votes_reachable_inv [OF votes_reachable_both] by blast

theorem tuning_ranks_validators_witness:
  "\<exists>resp. amp_execute (vamp_deps (with_gauge escrow_both) 2) (at_week 2) gauge_both (by_sender ''owner'') TuneVamp = Ok (gauge_tuned, resp)
    \<and> vamp_at (am_books gauge_both) 2 ''v2'' = 6287"
proof -
  from leadsD [OF owner_tunes] obtain resp where
    x: "amp_execute (vamp_deps (with_gauge escrow_both) 2) (at_week 2) gauge_both (by_sender ''owner'') TuneVamp = Ok (gauge_tuned, resp)" ..
  from tuning_ranks_validators [OF gauge_both_reachable x sample_period(1)]
  have "vamp_at (am_books gauge_both) 2 ''v2'' = 6287" by (auto simp: gauge_tuned_def)
  with x show ?thesis by blast
qed

section \<open>Queries\<close>

text \<open>
  Calculating and storing agree: the query of a validator's power shows exactly what an update for that period stores, and
  whatever an update stores on its way leaves every query of that or a later period, for any validator, as it was (while
  slope times period fits into 128 bits).
\<close>

theorem saved_records_are_transparent:
  assumes "amp_reachable exact T st" and "p \<le> T + 1" and "p \<le> r" and "slopes_fit (am_books st) r"
    and "update_validator_info p v None (am_books st) = (Ok i, gb')"
  shows "get_validator_info p v (am_books st) = Ok \<lparr>gv_voting_power = vi_power i,
      gv_fixed_amount = fetch_last_validator_fixed_value (am_books st) p v, gv_slope = vi_slope i\<rparr>
    \<and> get_validator_info r w gb' = get_validator_info r w (am_books st)"
  using update_none_query [OF _ assms(5,2,4,3)] amp_reachable_records [OF assms(1)]
  by (simp add: query_by_update assms(5) info_response_def amp_records_def)

lemma both_slopes_fit:
  assumes "r \<le> 100"
  shows "slopes_fit (am_books gauge_both) r"
  unfolding slopes_fit_def
proof (intro allI impI)
  fix k v i assume "get (gb_votes (am_books gauge_both)) (k, v) = Some i"
  then have "vi_slope i \<le> 124"
    by (auto simp: gauge_both_def sample_gauge_def books_both_def get_def split: if_splits)
  then have "vi_slope i * r \<le> 124 * 100" using assms by (rule mult_le_mono)
  then show "vi_slope i * r \<le> U128_MAX" by (simp add: U128_MAX_def)
qed

theorem saved_records_are_transparent_witness:
  "\<exists>i gb'. update_validator_info 2 ''v2'' None (am_books gauge_both) = (Ok i, gb')
    \<and> get_validator_info 40 ''v2'' gb' = get_validator_info 40 ''v2'' (am_books gauge_both)"
proof -
  obtain r gb' where u: "update_validator_info 2 ''v2'' None (am_books gauge_both) = (r, gb')"
    by (cases "update_validator_info 2 ''v2'' None (am_books gauge_both)")
  have "case fst (update_validator_info 2 ''v2'' None (am_books gauge_both)) of Ok i \<Rightarrow> True | _ \<Rightarrow> False" by code_simp
  then obtain i where i: "r = Ok i" by (cases r) (simp_all add: u)
  have fit: "slopes_fit (am_books gauge_both) 40" by (rule both_slopes_fit) simp
  from saved_records_are_transparent [OF gauge_both_reachable _ _ fit u [unfolded i]] u i show ?thesis by auto
qed

text \<open>
  The queries of validators answer in every state the gauge can reach: for any period, past or future, and any name, no record is
  missing and no calculation fails.
\<close>

theorem validator_queries_answer:
  assumes "amp_reachable exact T st" and "get_period (env_time env) = Ok p"
  shows "(\<exists>i. amp_query deps env st (AmpValidatorInfo v) = Ok (AmpValidatorAnswer i))
    \<and> (\<exists>i. amp_query deps env st (AmpValidatorInfoAtPeriod v q) = Ok (AmpValidatorAnswer i))
    \<and> (\<exists>is. amp_query deps env st (AmpValidatorInfos vs_opt q_opt) = Ok (AmpValidatorsAnswer is))"
proof -
  have ok: "books_ok (T + 1) (am_books st)" using amp_reachable_records [OF assms(1)] by (simp add: amp_records_def)
  define f where "f t w = (SOME i. get_validator_info t w (am_books st) = Ok i)" for t w
  have f: "get_validator_info t w (am_books st) = Ok (f t w)" for t w
    unfolding f_def using someI_ex [OF query_defined [OF ok, of t w]] .
  have "traverse (\<lambda>w. and_then (get_validator_info t w (am_books st)) (\<lambda>i. Ok (w, i))) ws = Ok (map (\<lambda>w. (w, f t w)) ws)" for t ws
    by (rule traverse_Ok_map) (simp add: f)
  then show ?thesis by (simp add: amp_validator_info_def amp_validator_infos_def assms(2) f Let_def)
qed

theorem validator_queries_answer_witness:
  "\<exists>i. amp_query (vamp_deps (with_gauge escrow_both) 1) (at_week 1) gauge_both (AmpValidatorInfoAtPeriod ''v1'' 30) = Ok (AmpValidatorAnswer i)"
  using validator_queries_answer [OF gauge_both_reachable sample_period(1), of "vamp_deps (with_gauge escrow_both) 1" 1 "''v1''" 30 None None]
  by blast

section \<open>A voter cannot leave the blacklist\<close>

text \<open>
  In week 2 alice, who voted, is on the blacklist; her record at the gauge keeps the end of her lock, in week 11, with a slope of zero, and
  the slope changes of her votes are gone. Taking her off the blacklist pushes her lock to the gauge, which tries to cancel
  a slope change that no longer exists and fails; so the message to the escrow fails as a whole, and with it any other.
\<close>

definition unbar_messages :: "(addr \<times> lock_info) list" where
  "unbar_messages = (case escrow_execute ve_deps (at_week 2) (with_gauge escrow_barred) (by_sender ''guardian'')
      (UpdateBlacklist None (Some [''alice''])) of
    Ok (_, resp) \<Rightarrow> pushes_to ''gauge'' (resp_msgs resp) | _ \<Rightarrow> [])"

lemma unbar_fails: "map fst unbar_messages = [''alice'']
    \<and> deliver (vamp_deps (with_gauge escrow_barred) 2) (at_week 2) ''escrow'' unbar_messages gauge_barred = Err (GaugeStd NotFound)"
  by code_simp

text \<open>
  A blacklisted voter cannot be taken off the blacklist while the lock runs: there is a state escrow and gauge reach
  together in which the escrow accepts the removal from the blacklist and pushes the voter's lock, but the gauge refuses the push
  with a missing slope change, so the transaction fails.
\<close>

theorem voter_cannot_leave_the_blacklist:
  "votes_reachable ''escrow'' ''gauge'' True 2 (with_gauge escrow_barred) gauge_barred
    \<and> map fst unbar_messages = [''alice'']
    \<and> deliver (vamp_deps (with_gauge escrow_barred) 2) (at_week 2) ''escrow'' unbar_messages gauge_barred = Err (GaugeStd NotFound)"
  using votes_reachable_barred unbar_fails by blast

end
