(* ===== verification/EmpGauge.thy ===== *)
theory EmpGauge
  imports AmpGauge
begin

text \<open>
  The emp gauges (\<open>contracts/amp-governance/emp_gauges\<close>): the owner grants merit points to validators, for good or decaying over
  a number of periods, and each grant is followed by a tuning, which the hub reads as its delegation goal. The books are those of
  the amp gauges, kept by a copy of the code; the copy is written out here and shown to do the same.
\<close>

section \<open>The books\<close>

datatype emp_operation = EmpAdd

fun emp_calc_slope :: "emp_operation \<Rightarrow> u128 \<Rightarrow> u128 \<Rightarrow> basic_points \<Rightarrow> (u128, 'e) result" where
  "emp_calc_slope EmpAdd cur_slope slope bps = and_then (bps_mul_uint bps slope) (\<lambda>x. u128_add cur_slope x)"

fun emp_calc_voting_power :: "emp_operation \<Rightarrow> u128 \<Rightarrow> u128 \<Rightarrow> basic_points \<Rightarrow> (u128, 'e) result" where
  "emp_calc_voting_power EmpAdd cur_vp vp bps = and_then (bps_mul_uint bps vp) (\<lambda>x. u128_add cur_vp x)"

definition fetch_last_validator_fixed_emps :: "gauge_books \<Rightarrow> u64 \<Rightarrow> string \<Rightarrow> u128 option" where
  "fetch_last_validator_fixed_emps gb period v = map_option snd (newest_upto period (prefix_of (gb_fixed gb) v))"

definition fetch_last_validator_fixed_emps_value :: "gauge_books \<Rightarrow> u64 \<Rightarrow> string \<Rightarrow> u128" where
  "fetch_last_validator_fixed_emps_value gb period v = unwrap_or (fetch_last_validator_fixed_emps gb period v) 0"

definition emp_get_validator_info_mut :: "u64 \<Rightarrow> string \<Rightarrow> gauge_books \<Rightarrow> (voted_result \<times> gauge_books, std_error) result" where
  "emp_get_validator_info_mut period v gb =
     (case get (gb_votes gb) (period, v) of
        Some info \<Rightarrow> Ok (UnchangedInfo info, gb)
      | None \<Rightarrow>
          (case fetch_last_validator_period gb period v of
             Some prev \<Rightarrow>
               and_then (load_item (get (gb_votes gb) (prev, v))) (\<lambda>info.
               and_then (try_fold (passed_step_mut v) (gb, info, prev) (gauge_slope_changes gb v prev period)) (\<lambda>(gb', info', prev').
               and_then (calc_voting_power (vi_slope info') (vi_power info') prev' period) (\<lambda>vp.
               Ok (NewInfo (info'\<lparr>vi_power := vp\<rparr>), gb'))))
           | None \<Rightarrow> Ok (NewInfo default_info, gb)))"

definition emp_update_validator_info ::
    "u64 \<Rightarrow> string \<Rightarrow> (basic_points \<times> u128 \<times> u128 \<times> emp_operation) option \<Rightarrow>
     (gauge_books, voted_info, std_error) action" where
  "emp_update_validator_info period v changes gb =
     (let gb1 = add_validator_to_active v gb in
      act_then (act_atomic (emp_get_validator_info_mut period v gb1) gb1) (\<lambda>r gb2.
      case changes of
        Some (bps, vp, slope, op) \<Rightarrow>
          act_then (act_read (emp_calc_slope op (vi_slope (info_of r)) slope bps) gb2) (\<lambda>slope' gb3.
          act_then (act_read (emp_calc_voting_power op (vi_power (info_of r)) vp bps) gb3) (\<lambda>vp' gb4.
          let info = \<lparr>vi_power = vp', vi_slope = slope'\<rparr> in (Ok info, save_voted period v info gb4)))
      | None \<Rightarrow>
          (case r of
             NewInfo info \<Rightarrow> (Ok info, save_voted period v info gb2)
           | UnchangedInfo info \<Rightarrow> (Ok info, gb2))))"

definition emp_get_validator_info :: "u64 \<Rightarrow> string \<Rightarrow> gauge_books \<Rightarrow> (gauge_validator_info, std_error) result" where
  "emp_get_validator_info period v gb =
     (let fixed = fetch_last_validator_fixed_emps_value gb period v in
      case get (gb_votes gb) (period, v) of
        Some info \<Rightarrow> Ok \<lparr>gv_voting_power = vi_power info, gv_fixed_amount = fixed, gv_slope = vi_slope info\<rparr>
      | None \<Rightarrow>
          (case fetch_last_validator_period gb period v of
             Some prev \<Rightarrow>
               and_then (load_item (get (gb_votes gb) (prev, v))) (\<lambda>info.
               and_then (try_fold passed_step (info, prev) (gauge_slope_changes gb v prev period)) (\<lambda>(info', prev').
               and_then (calc_voting_power (vi_slope info') (vi_power info') prev' period) (\<lambda>vp.
               Ok \<lparr>gv_voting_power = vp, gv_fixed_amount = fixed, gv_slope = vi_slope info'\<rparr>)))
           | None \<Rightarrow>
               if fixed \<noteq> 0 then Ok \<lparr>gv_voting_power = 0, gv_fixed_amount = fixed, gv_slope = 0\<rparr>
               else Ok \<lparr>gv_voting_power = 0, gv_fixed_amount = 0, gv_slope = 0\<rparr>))"

definition emp_vote_for_validator ::
    "u64 \<Rightarrow> string \<Rightarrow> u128 \<Rightarrow> u128 \<Rightarrow> u64 \<Rightarrow> (gauge_books, unit, std_error) action" where
  "emp_vote_for_validator period v vp slope lock_end gb =
     act_then (act_atomic
       (and_then (u64_add lock_end 1) (\<lambda>end'.
        and_then (case get (gb_slopes gb) (v, end') of Some saved \<Rightarrow> u128_add saved slope | None \<Rightarrow> Ok slope) (\<lambda>new.
        Ok ((), gb\<lparr>gb_slopes := put (v, end') new (gb_slopes gb)\<rparr>)))) gb) (\<lambda>_ gb1.
     act_then (emp_update_validator_info period v (Some (BPS_MAX, vp, slope, EmpAdd)) gb1) (\<lambda>_ gb2. (Ok (), gb2)))"

definition add_fixed_emp :: "u64 \<Rightarrow> string \<Rightarrow> u128 \<Rightarrow> (gauge_books, unit, std_error) action" where
  "add_fixed_emp period v uemps gb =
     (let gb1 = add_validator_to_active v gb in
      act_then (act_read (checked_add (fetch_last_validator_fixed_emps_value gb1 period v) uemps) gb1) (\<lambda>new gb2.
      (Ok (), gb2\<lparr>gb_fixed := put (v, period) new (gb_fixed gb2)\<rparr>)))"

section \<open>The copy does the same\<close>

lemma emp_fixed_same [simp]: "fetch_last_validator_fixed_emps_value = fetch_last_validator_fixed_value"
  by (intro ext) (simp add: fetch_last_validator_fixed_emps_value_def fetch_last_validator_fixed_emps_def
      fetch_last_validator_fixed_value_def fetch_last_validator_fixed_def)

lemma emp_info_mut_same [simp]: "emp_get_validator_info_mut = get_validator_info_mut"
  by (intro ext) (simp add: emp_get_validator_info_mut_def get_validator_info_mut_def)

lemma emp_info_same [simp]: "emp_get_validator_info = get_validator_info"
  by (intro ext) (simp add: emp_get_validator_info_def get_validator_info_def Let_def cong: option.case_cong)

lemma emp_calc_same [simp]:
  "emp_calc_slope op c s b = op_calc_slope OpAdd c s b" "emp_calc_voting_power op c vp b = op_calc_voting_power OpAdd c vp b"
  by (cases op; simp)+

lemma emp_update_same:
  "emp_update_validator_info p v ch gb = update_validator_info p v (map_option (\<lambda>(b, vp, s, op). (b, vp, s, OpAdd)) ch) gb"
  by (cases ch) (simp_all add: emp_update_validator_info_def update_validator_info_def Let_def split: prod.split)

lemma add_fixed_emp_same [simp]: "add_fixed_emp = add_fixed_vamp"
  by (intro ext) (simp add: add_fixed_emp_def add_fixed_vamp_def)

section \<open>State and messages\<close>

datatype emp_error =
    EmpStd std_error
  | EmpInvalidValidatorAddress string
  | EmpDuplicatedValidators
  | EmpTuneNoValidators
  | EmpMigrationError

abbreviation estd :: "('a, std_error) result \<Rightarrow> ('a, emp_error) result" where
  "estd \<equiv> map_err EmpStd"

record emp_config =
  emc_owner :: addr
  emc_hub_addr :: addr
  emc_validators_limit :: u64

record emp_state =
  em_config :: "emp_config option"
  em_books :: gauge_books
  em_tune_info :: "emp_gauge_info option"
  em_ownership_proposal :: "ownership_proposal option"
  em_contract_info :: "(string \<times> string) option"

definition empty_emp :: emp_state where
  "empty_emp = \<lparr>em_config = None, em_books = empty_books, em_tune_info = None, em_ownership_proposal = None, em_contract_info = None\<rparr>"

record emp_instantiate_msg =
  emi_owner :: string
  emi_hub_addr :: string
  emi_validators_limit :: u64

record emp_info =
  ep_umerit_points :: u128
  ep_decaying_period :: "u64 option"

type_synonym add_emp_info = "string \<times> emp_info list"

datatype emp_execute_msg =
    AddEmps "add_emp_info list"
  | TuneEmps
  | EmpUpdateConfig "u64 option"
  | EmpProposeNewOwner string u64
  | EmpDropProposal
  | EmpClaimOwnership

text \<open>What the gauge calls: address validation, the validators of the hub, the ownership functions of \<open>astroport::common\<close>.\<close>

type_synonym emp_response = "emp_execute_msg response"

record emp_deps =
  emd_addr_validate :: "string \<Rightarrow> (addr, std_error) result"
  emd_hub_validators :: "addr \<Rightarrow> (string list, std_error) result"
  emd_propose_new_owner :: "message_info \<Rightarrow> env \<Rightarrow> string \<Rightarrow> u64 \<Rightarrow> addr \<Rightarrow> ownership_proposal option \<Rightarrow>
    (ownership_proposal option \<times> emp_response, std_error) result"
  emd_drop_ownership_proposal :: "message_info \<Rightarrow> addr \<Rightarrow> ownership_proposal option \<Rightarrow>
    (ownership_proposal option \<times> emp_response, std_error) result"
  emd_claim_ownership :: "message_info \<Rightarrow> env \<Rightarrow> ownership_proposal option \<Rightarrow>
    (addr \<times> ownership_proposal option \<times> emp_response, std_error) result"
  emd_version :: string

type_synonym emp_result = "(emp_state \<times> emp_response, emp_error) result"

definition EMP_CONTRACT_NAME :: string where "EMP_CONTRACT_NAME = ''emp-gauges''"

definition emp_assert_owner :: "emp_config \<Rightarrow> addr \<Rightarrow> (unit, std_error) result" where
  "emp_assert_owner cfg a = (if a \<noteq> emc_owner cfg then Err (GenericErr ''unauthorized'') else Ok ())"

definition assert_owner_or_self :: "emp_config \<Rightarrow> addr \<Rightarrow> addr \<Rightarrow> (unit, std_error) result" where
  "assert_owner_or_self cfg a contract =
     (if a \<noteq> emc_owner cfg \<and> a \<noteq> contract then Err (GenericErr ''unauthorized'') else Ok ())"

definition get_tune_msg :: "addr \<Rightarrow> emp_execute_msg cosmos_msg" where
  "get_tune_msg contract = WasmExecute contract TuneEmps []"

definition emp_instantiate :: "emp_deps \<Rightarrow> env \<Rightarrow> emp_instantiate_msg \<Rightarrow> emp_state \<Rightarrow> emp_result" where
  "emp_instantiate deps env msg st =
     and_then (estd (emd_addr_validate deps (emi_owner msg))) (\<lambda>owner.
     and_then (estd (emd_addr_validate deps (emi_hub_addr msg))) (\<lambda>hub.
     and_then (estd (get_period (env_time env))) (\<lambda>block_period.
     Ok (st\<lparr>em_contract_info := Some (EMP_CONTRACT_NAME, emd_version deps),
            em_config := Some \<lparr>emc_owner = owner, emc_hub_addr = hub, emc_validators_limit = emi_validators_limit msg\<rparr>,
            em_tune_info := Some \<lparr>eg_tune_ts = env_time env, eg_tune_period = block_period, eg_emp_points = []\<rparr>\<rparr>, new_response))))"

section \<open>Granting points\<close>

text \<open>One grant: decaying points lose the same amount each period, the others stay. The grants of one validator in order.\<close>

definition grant :: "u64 \<Rightarrow> string \<Rightarrow> gauge_books \<Rightarrow> emp_info \<Rightarrow> (gauge_books, std_error) result" where
  "grant block_period v gb emp =
     (case ep_decaying_period emp of
        Some dt \<Rightarrow>
          and_then (u64_add block_period dt) (\<lambda>end'.
          and_then (adjust_vp_and_slope (ep_umerit_points emp) dt) (\<lambda>(slope, vp).
          and_then (committed (emp_vote_for_validator block_period v vp slope end' gb)) (\<lambda>(_, gb'). Ok gb')))
      | None \<Rightarrow> and_then (committed (add_fixed_emp block_period v (ep_umerit_points emp) gb)) (\<lambda>(_, gb'). Ok gb'))"

definition grant_all :: "u64 \<Rightarrow> string list \<Rightarrow> gauge_books \<Rightarrow> add_emp_info \<Rightarrow> (gauge_books, emp_error) result" where
  "grant_all block_period validators gb emp =
     (if fst emp \<notin> set validators then Err (EmpInvalidValidatorAddress (fst emp))
      else estd (try_fold (grant block_period (fst emp)) gb (snd emp)))"

definition add_emps :: "emp_deps \<Rightarrow> env \<Rightarrow> emp_state \<Rightarrow> message_info \<Rightarrow> add_emp_info list \<Rightarrow> emp_result" where
  "add_emps deps env st info validator_emps =
     and_then (estd (load_item (em_config st))) (\<lambda>cfg.
     and_then (estd (emp_assert_owner cfg (info_sender info))) (\<lambda>_.
     and_then (estd (get_period (env_time env))) (\<lambda>block_period.
     if length validator_emps \<noteq> card (fst ` set validator_emps) then Err EmpDuplicatedValidators
     else
       and_then (estd (emd_hub_validators deps (emc_hub_addr cfg))) (\<lambda>validators.
       and_then (try_fold (grant_all block_period validators) (em_books st) validator_emps) (\<lambda>gb.
       Ok (st\<lparr>em_books := gb\<rparr>,
         add_attribute (add_message new_response (get_tune_msg (env_contract env))) ''action'' ''emp/vote''))))))"

section \<open>Tuning\<close>

definition emp_filter_validators ::
    "emp_deps \<Rightarrow> addr \<Rightarrow> (string \<times> u128) list \<Rightarrow> u64 \<Rightarrow> ((string \<times> u128) list, std_error) result" where
  "emp_filter_validators deps hub validators limit =
     and_then (emd_hub_validators deps hub) (\<lambda>allowed. Ok (take limit (filter (\<lambda>e. fst e \<in> set allowed) validators)))"

definition emp_tune_step ::
    "u64 \<Rightarrow> gauge_books \<times> (string \<times> u128) list \<Rightarrow> string \<Rightarrow> (gauge_books \<times> (string \<times> u128) list, std_error) result" where
  "emp_tune_step block_period acc v =
     (case acc of (gb, votes) \<Rightarrow>
      and_then (committed (emp_update_validator_info block_period v None gb)) (\<lambda>(info, gb1).
      and_then (checked_add (vi_power info) (fetch_last_validator_fixed_emps_value gb1 block_period v)) (\<lambda>emps.
      Ok (if emps = 0 then gb1\<lparr>gb_validators := del v (gb_validators gb1)\<rparr> else gb1, votes @ [(v, emps)]))))"

definition tune_emps :: "emp_deps \<Rightarrow> env \<Rightarrow> emp_state \<Rightarrow> message_info \<Rightarrow> emp_result" where
  "tune_emps deps env st info =
     and_then (estd (load_item (em_config st))) (\<lambda>cfg.
     and_then (estd (assert_owner_or_self cfg (info_sender info) (env_contract env))) (\<lambda>_.
     and_then (estd (load_item (em_tune_info st))) (\<lambda>tune.
     and_then (estd (get_period (env_time env))) (\<lambda>block_period.
     and_then (estd (try_fold (emp_tune_step block_period) (em_books st, []) (map fst (entries (gb_validators (em_books st))))))
       (\<lambda>(gb, votes).
     and_then (estd (emp_filter_validators deps (emc_hub_addr cfg) (sorted_desc snd (filter (\<lambda>e. snd e \<noteq> 0) votes))
       (emc_validators_limit cfg))) (\<lambda>points.
     if points = [] then Err EmpTuneNoValidators
     else
       Ok (st\<lparr>em_books := gb,
              em_tune_info := Some \<lparr>eg_tune_ts = env_time env, eg_tune_period = block_period, eg_emp_points = points\<rparr>\<rparr>,
         add_attributes (add_attribute (add_attribute new_response ''action'' ''emp/tune_emps'') ''next_period'' (nat_str block_period))
           (map (\<lambda>p. (''emps'', fst p @ ''='' @ nat_str (snd p))) points))))))))"

section \<open>Messages\<close>

definition emp_update_config :: "emp_state \<Rightarrow> addr \<Rightarrow> u64 option \<Rightarrow> emp_result" where
  "emp_update_config st sender validators_limit =
     and_then (estd (load_item (em_config st))) (\<lambda>cfg.
     and_then (estd (emp_assert_owner cfg sender)) (\<lambda>_.
     Ok (st\<lparr>em_config := Some (case validators_limit of Some n \<Rightarrow> cfg\<lparr>emc_validators_limit := n\<rparr> | None \<Rightarrow> cfg)\<rparr>,
       add_attribute new_response ''action'' ''emp/update_config'')))"

fun emp_execute :: "emp_deps \<Rightarrow> env \<Rightarrow> emp_state \<Rightarrow> message_info \<Rightarrow> emp_execute_msg \<Rightarrow> emp_result" where
  "emp_execute deps env st info (AddEmps emps) = add_emps deps env st info emps"
| "emp_execute deps env st info TuneEmps = tune_emps deps env st info"
| "emp_execute deps env st info (EmpUpdateConfig limit) = emp_update_config st (info_sender info) limit"
| "emp_execute deps env st info (EmpProposeNewOwner new_owner expires_in) =
     and_then (estd (load_item (em_config st))) (\<lambda>cfg.
     and_then (estd (emd_propose_new_owner deps info env new_owner expires_in (emc_owner cfg) (em_ownership_proposal st)))
       (\<lambda>(proposal, resp). Ok (st\<lparr>em_ownership_proposal := proposal\<rparr>, resp)))"
| "emp_execute deps env st info EmpDropProposal =
     and_then (estd (load_item (em_config st))) (\<lambda>cfg.
     and_then (estd (emd_drop_ownership_proposal deps info (emc_owner cfg) (em_ownership_proposal st)))
       (\<lambda>(proposal, resp). Ok (st\<lparr>em_ownership_proposal := proposal\<rparr>, resp)))"
| "emp_execute deps env st info EmpClaimOwnership =
     and_then (estd (emd_claim_ownership deps info env (em_ownership_proposal st))) (\<lambda>(new_owner, proposal, resp).
     and_then (estd (load_item (em_config st))) (\<lambda>cfg.
     Ok (st\<lparr>em_config := Some (cfg\<lparr>emc_owner := new_owner\<rparr>), em_ownership_proposal := proposal\<rparr>, resp)))"

definition emp_migrate :: "emp_deps \<Rightarrow> emp_state \<Rightarrow> emp_result" where
  "emp_migrate deps st =
     and_then (estd (load_item (em_contract_info st))) (\<lambda>(contract, version).
     let st1 = st\<lparr>em_contract_info := Some (EMP_CONTRACT_NAME, emd_version deps)\<rparr> in
     if contract \<noteq> EMP_CONTRACT_NAME
     then Err (EmpStd (GenericErr (''contract_name does not match: prev: '' @ contract @ '', new: '' @ emd_version deps)))
     else Ok (st1, add_attributes new_response
       [(''previous_contract_name'', contract), (''previous_contract_version'', version),
        (''new_contract_name'', EMP_CONTRACT_NAME), (''new_contract_version'', emd_version deps)]))"

section \<open>Queries\<close>

definition emp_validator_infos ::
    "env \<Rightarrow> emp_state \<Rightarrow> string list option \<Rightarrow> u64 option \<Rightarrow> ((string \<times> gauge_validator_info) list, std_error) result" where
  "emp_validator_infos env st validator_addrs period_opt =
     and_then (get_period (env_time env)) (\<lambda>block_period.
     let period = unwrap_or period_opt block_period;
         addrs = unwrap_or validator_addrs (map fst (entries (gb_validators (em_books st)))) in
     traverse (\<lambda>v. and_then (emp_get_validator_info period v (em_books st)) (\<lambda>i. Ok (v, i))) addrs)"

definition emp_validator_info :: "env \<Rightarrow> emp_state \<Rightarrow> string \<Rightarrow> u64 option \<Rightarrow> (gauge_validator_info, std_error) result" where
  "emp_validator_info env st v period_opt =
     and_then (get_period (env_time env)) (\<lambda>block_period.
     emp_get_validator_info (unwrap_or period_opt block_period) v (em_books st))"

datatype emp_query_msg =
    EmpTuneInfo
  | EmpConfig
  | EmpValidatorInfo string
  | EmpValidatorInfoAtPeriod string u64
  | EmpValidatorInfos "string list option" "u64 option"

datatype emp_answer =
    EmpTuneAnswer emp_gauge_info
  | EmpConfigAnswer emp_config
  | EmpValidatorAnswer gauge_validator_info
  | EmpValidatorsAnswer "(string \<times> gauge_validator_info) list"

fun emp_query :: "env \<Rightarrow> emp_state \<Rightarrow> emp_query_msg \<Rightarrow> (emp_answer, std_error) result" where
  "emp_query env st EmpTuneInfo = and_then (load_item (em_tune_info st)) (\<lambda>r. Ok (EmpTuneAnswer r))"
| "emp_query env st EmpConfig = and_then (load_item (em_config st)) (\<lambda>r. Ok (EmpConfigAnswer r))"
| "emp_query env st (EmpValidatorInfo v) = and_then (emp_validator_info env st v None) (\<lambda>r. Ok (EmpValidatorAnswer r))"
| "emp_query env st (EmpValidatorInfos addrs period) =
     and_then (emp_validator_infos env st addrs period) (\<lambda>r. Ok (EmpValidatorsAnswer r))"
| "emp_query env st (EmpValidatorInfoAtPeriod v period) =
     and_then (emp_validator_info env st v (Some period)) (\<lambda>r. Ok (EmpValidatorAnswer r))"

end
