(* ===== verification/EmpFacts.thy ===== *)
theory EmpFacts
  imports EmpGauge GaugeTune
begin

text \<open>What a grant of points does to the books of the emp gauges, and the records of every reachable state.\<close>

section \<open>One grant\<close>

lemma slope_put_later:
  assumes "p < e"
  shows "get_validator_info p w (gb\<lparr>gb_slopes := put (v, e) x (gb_slopes gb)\<rparr>) = get_validator_info p w gb"
proof -
  have "filter (\<lambda>d. q < fst d \<and> fst d \<le> p) (prefix_of (put (v, e) x s) w) = filter (\<lambda>d. q < fst d \<and> fst d \<le> p) (prefix_of s w)"
    for q and s :: "(string \<times> u64, u128) store"
    using assms unfolding prefix_of_def entries_def by (induction s) auto
  then show ?thesis
    by (simp add: get_validator_info_def gauge_slope_changes_def fetch_last_validator_period_def
        fetch_last_validator_fixed_value_def fetch_last_validator_fixed_def Let_def split: option.split)
qed

lemma bps_max_times: "bps_mul_uint BPS_MAX x = Ok y \<longleftrightarrow> y = x \<and> x \<le> U128_MAX"
  by (auto simp: bps_mul_uint_Ok BPS_MAX_def)

text \<open>A decaying vote at the current period: the change of the slope is scheduled, and the record of the period is rewritten.\<close>

lemma emp_vote_Ok:
  assumes "emp_vote_for_validator p v vp s e gb = (Ok u, gb')"
  obtains r gb1 where
    "get_validator_info_mut p v (add_validator_to_active v
       (gb\<lparr>gb_slopes := put (v, e + 1) (unwrap_or (get (gb_slopes gb) (v, e + 1)) 0 + s) (gb_slopes gb)\<rparr>)) = Ok (r, gb1)"
    "gb' = save_voted p v \<lparr>vi_power = vi_power (info_of r) + vp, vi_slope = vi_slope (info_of r) + s\<rparr> gb1"
proof -
  note u = assms [unfolded emp_vote_for_validator_def act_then_Ok act_atomic_Ok emp_update_same update_validator_info_def Let_def]
  from u obtain new gb0 r gb1 where
    new: "(case get (gb_slopes gb) (v, e + 1) of Some saved \<Rightarrow> u128_add saved s | None \<Rightarrow> Ok s) = (Ok new :: (u128, std_error) result)"
    and gb0: "gb0 = gb\<lparr>gb_slopes := put (v, e + 1) new (gb_slopes gb)\<rparr>"
    and r: "get_validator_info_mut p v (add_validator_to_active v gb0) = Ok (r, gb1)"
    and s: "gb' = save_voted p v \<lparr>vi_power = vi_power (info_of r) + vp, vi_slope = vi_slope (info_of r) + s\<rparr> gb1"
    by (auto simp: and_then_Ok num_Ok act_then_Ok act_atomic_Ok act_read_Ok bps_max_times)
  have "new = unwrap_or (get (gb_slopes gb) (v, e + 1)) 0 + s" using new by (auto simp: num_Ok split: option.splits)
  with that r s gb0 show thesis by blast
qed

lemma emp_vote_query:
  assumes "emp_vote_for_validator p v vp s e gb = (Ok u, gb')" and "p \<le> e"
  shows "get_validator_info p w gb' = and_then (get_validator_info p w gb) (\<lambda>i.
    Ok (if w = v then i\<lparr>gv_voting_power := gv_voting_power i + vp, gv_slope := gv_slope i + s\<rparr> else i))"
proof -
  from assms(1) obtain r gb1 where
    m: "get_validator_info_mut p v (add_validator_to_active v
       (gb\<lparr>gb_slopes := put (v, e + 1) (unwrap_or (get (gb_slopes gb) (v, e + 1)) 0 + s) (gb_slopes gb)\<rparr>)) = Ok (r, gb1)"
    and g: "gb' = save_voted p v \<lparr>vi_power = vi_power (info_of r) + vp, vi_slope = vi_slope (info_of r) + s\<rparr> gb1"
    by (rule emp_vote_Ok)
  let ?gb0 = "add_validator_to_active v
       (gb\<lparr>gb_slopes := put (v, e + 1) (unwrap_or (get (gb_slopes gb) (v, e + 1)) 0 + s) (gb_slopes gb)\<rparr>)"
  have before: "get_validator_info p x ?gb0 = get_validator_info p x gb" for x
    by (subst query_same [OF same_for_active]) (rule slope_put_later, use assms(2) in simp)
  show ?thesis
  proof (cases "w = v")
    case True
    have "fetch_last_validator_fixed_value gb' p v = fetch_last_validator_fixed_value ?gb0 p v"
      using info_mut_fixed [OF m] by (intro fixed_at_cong) (simp add: g)
    moreover have "get (gb_votes gb') (p, v) = Some \<lparr>vi_power = vi_power (info_of r) + vp, vi_slope = vi_slope (info_of r) + s\<rparr>"
      by (simp add: g save_voted_def store_simps)
    ultimately have "get_validator_info p v gb' = Ok \<lparr>gv_voting_power = vi_power (info_of r) + vp,
        gv_fixed_amount = fetch_last_validator_fixed_value ?gb0 p v, gv_slope = vi_slope (info_of r) + s\<rparr>"
      by (simp add: get_validator_info_def)
    moreover have "get_validator_info p v gb = Ok (info_response (info_of r) (fetch_last_validator_fixed_value ?gb0 p v))"
      unfolding before [symmetric] query_by_mut [of p v ?gb0] m by simp
    ultimately show ?thesis using True by (simp add: info_response_def)
  next
    case False
    have "same_for w ?gb0 gb'" unfolding g
      by (rule same_for_trans [OF info_mut_same [OF m False] same_for_voted [OF False]])
    with before False show ?thesis by (cases "get_validator_info p w gb") (simp_all add: query_same)
  qed
qed

lemma fixed_emp_query:
  assumes "add_fixed_vamp p v x gb = (Ok u, gb')" and "wf_store (gb_fixed gb)"
  shows "get_validator_info p w gb' = and_then (get_validator_info p w gb) (\<lambda>i.
    Ok (if w = v then i\<lparr>gv_fixed_amount := gv_fixed_amount i + x\<rparr> else i))"
proof -
  have gb': "gb' = (add_validator_to_active v gb)\<lparr>gb_fixed := put (v, p) (fixed_at gb p v + x) (gb_fixed gb)\<rparr>"
    using assms(1) by (auto simp: add_fixed_vamp_def Let_def act_then_Ok act_read_def num_Ok
        fixed_at_cong [of "add_validator_to_active v gb" gb])
  have f: "fixed_at gb' p w = (if w = v then fixed_at gb p v + x else fixed_at gb p w)"
    by (rule fixed_at_put [OF assms(2)]) (simp add: gb')
  have rest: "gb_votes gb' = gb_votes gb" "gb_periods gb' = gb_periods gb" "gb_slopes gb' = gb_slopes gb"
    by (simp_all add: gb' add_validator_to_active_def)
  show ?thesis
    by (simp add: get_validator_info_def rest f fetch_last_validator_period_def gauge_slope_changes_def Let_def case_prod_unfold
        and_then_assoc split: option.split)
qed

section \<open>What a grant is worth\<close>

text \<open>
  Points that decay over \<open>dt\<close> periods lose \<open>points div dt\<close> in each; what does not divide evenly is not granted.
\<close>

fun granted_power :: "emp_info \<Rightarrow> u128" where
  "granted_power e = (case ep_decaying_period e of Some dt \<Rightarrow> ep_umerit_points e div dt * dt | None \<Rightarrow> 0)"

fun granted_slope :: "emp_info \<Rightarrow> u128" where
  "granted_slope e = (case ep_decaying_period e of Some dt \<Rightarrow> ep_umerit_points e div dt | None \<Rightarrow> 0)"

fun granted_fixed :: "emp_info \<Rightarrow> u128" where
  "granted_fixed e = (case ep_decaying_period e of Some dt \<Rightarrow> 0 | None \<Rightarrow> ep_umerit_points e)"

text \<open>What the grants of a message give to one validator.\<close>

definition grants_of :: "add_emp_info list \<Rightarrow> string \<Rightarrow> emp_info list" where
  "grants_of emps v = concat (map snd (filter (\<lambda>e. fst e = v) emps))"

definition with_grants :: "emp_info list \<Rightarrow> gauge_validator_info \<Rightarrow> gauge_validator_info" where
  "with_grants es i = \<lparr>gv_voting_power = gv_voting_power i + sum_list (map granted_power es),
     gv_fixed_amount = gv_fixed_amount i + sum_list (map granted_fixed es),
     gv_slope = gv_slope i + sum_list (map granted_slope es)\<rparr>"

lemma with_grants_simps [simp]:
  "with_grants [] i = i"
  "with_grants es (with_grants ds i) = with_grants (ds @ es) i"
  by (simp_all add: with_grants_def add.assoc)

lemma with_grant:
  "ep_decaying_period e = None \<Longrightarrow> with_grants [e] i = i\<lparr>gv_fixed_amount := gv_fixed_amount i + ep_umerit_points e\<rparr>"
  "ep_decaying_period e = Some dt \<Longrightarrow> with_grants [e] i = i\<lparr>gv_voting_power := gv_voting_power i + ep_umerit_points e div dt * dt,
     gv_slope := gv_slope i + ep_umerit_points e div dt\<rparr>"
  by (intro gauge_validator_info.equality; simp add: with_grants_def)+

definition emp_records :: "u64 \<Rightarrow> gauge_books \<Rightarrow> bool" where
  "emp_records T gb \<longleftrightarrow> books_ok T gb \<and> fixed_ok T gb"

lemma emp_vote_same:
  assumes "s \<le> U128_MAX"
  shows "emp_vote_for_validator p v vp s e gb = vote_for_validator p v BPS_MAX vp s e gb"
proof -
  have "bps_mul_uint BPS_MAX s = (Ok s :: (u128, std_error) result)" using assms by (simp add: bps_max_times)
  then show ?thesis by (simp add: emp_vote_for_validator_def vote_for_validator_def emp_update_same)
qed

lemma grant_Ok:
  assumes "grant p v gb e = Ok gb'" and "emp_records p gb"
  shows "emp_records p gb'" and "get_validator_info p w gb' = and_then (get_validator_info p w gb)
    (\<lambda>i. Ok (if w = v then with_grants [e] i else i))"
proof -
  have "emp_records p gb' \<and> get_validator_info p w gb' = and_then (get_validator_info p w gb)
    (\<lambda>i. Ok (if w = v then with_grants [e] i else i))"
  proof (cases "ep_decaying_period e")
    case None
    with assms(1) have x: "add_fixed_vamp p v (ep_umerit_points e) gb = (Ok (), gb')"
      by (auto simp: grant_def and_then_Ok committed_Ok)
    have b: "books_ok p gb" using assms(2) by (simp add: emp_records_def)
    have ok: "books_ok p gb'" using books.keep_add_fixed [OF b order_refl, of v "ep_umerit_points e"] by (simp add: x)
    have "fixed_ok p gb'" using fixed_ok_put [OF _ order_refl add_fixed_vamp_Ok [OF x]] assms(2) by (simp add: emp_records_def)
    moreover have "get_validator_info p w gb' = and_then (get_validator_info p w gb)
      (\<lambda>i. Ok (if w = v then i\<lparr>gv_fixed_amount := gv_fixed_amount i + ep_umerit_points e\<rparr> else i))"
      by (rule fixed_emp_query [OF x]) (use assms(2) in \<open>simp add: emp_records_def fixed_ok_def\<close>)
    ultimately show ?thesis using ok None by (cases "w = v") (simp_all add: emp_records_def with_grant)
  next
    case (Some dt)
    with assms(1) have x: "emp_vote_for_validator p v (ep_umerit_points e div dt * dt) (ep_umerit_points e div dt) (p + dt) gb = (Ok (), gb')"
      and dt: "0 < dt" "ep_umerit_points e div dt * dt \<le> U128_MAX"
      by (auto simp: grant_def and_then_Ok committed_Ok num_Ok adjust_vp_and_slope_Ok)
    have "ep_umerit_points e div dt \<le> ep_umerit_points e div dt * dt" using dt(1) by simp
    then have s: "ep_umerit_points e div dt \<le> U128_MAX" using dt(2) by (rule order_trans)
    note y = x [unfolded emp_vote_same [OF s]]
    have b: "books_ok p gb" using assms(2) by (simp add: emp_records_def)
    have ok: "books_ok p gb'" using books.keep_vote [OF b order_refl, of v BPS_MAX] unfolding arg_cong [OF y, of snd, simplified, symmetric] .
    have "gb_fixed gb' = gb_fixed gb" using vote_for_validator_fixed unfolding arg_cong [OF y, of snd, simplified, symmetric] .
    from fixed_ok_cong [OF this] have fixed: "fixed_ok p gb'" using assms(2) by (simp add: emp_records_def)
    note q = emp_vote_query [OF x le_add1, of w]
    have "get_validator_info p w gb' = and_then (get_validator_info p w gb) (\<lambda>i. Ok (if w = v then with_grants [e] i else i))"
      unfolding q with_grant(2) [OF Some] ..
    with fixed ok show ?thesis by (simp only: emp_records_def)
  qed
  then show "emp_records p gb'" "get_validator_info p w gb' = and_then (get_validator_info p w gb)
    (\<lambda>i. Ok (if w = v then with_grants [e] i else i))" by blast+
qed

lemma and_then_id [simp]: "and_then m Ok = m"
  by (cases m) auto

lemma grant_all_step:
  "grant_all p allowed gb e = Ok gb' \<longleftrightarrow> fst e \<in> set allowed \<and> try_fold (grant p (fst e)) gb (snd e) = Ok gb'"
  by (simp add: grant_all_def map_err_Ok)

lemma grants_Ok:
  assumes "try_fold (grant p v) gb es = Ok gb'" and "emp_records p gb"
  shows "emp_records p gb' \<and> get_validator_info p w gb' = and_then (get_validator_info p w gb)
    (\<lambda>i. Ok (if w = v then with_grants es i else i))"
  using assms
proof (induction es arbitrary: gb)
  case Nil
  then show ?case by (cases "w = v") simp_all
next
  case (Cons e es)
  from Cons.prems(1) obtain gb1 where g: "grant p v gb e = Ok gb1" and rest: "try_fold (grant p v) gb1 es = Ok gb'"
    by (auto simp: and_then_Ok)
  note g1 = grant_Ok [OF g Cons.prems(2)]
  from Cons.IH [OF rest g1(1)] g1(2) [of w] show ?case by (cases "w = v") (simp_all add: and_then_assoc)
qed

lemma grant_all_Ok:
  assumes "try_fold (grant_all p allowed) gb emps = Ok gb'" and "emp_records p gb"
  shows "emp_records p gb' \<and> fst ` set emps \<subseteq> set allowed
    \<and> get_validator_info p w gb' = and_then (get_validator_info p w gb) (\<lambda>i. Ok (with_grants (grants_of emps w) i))"
  using assms
proof (induction emps arbitrary: gb)
  case Nil
  then show ?case by (simp add: grants_of_def)
next
  case (Cons e emps)
  from Cons.prems(1) obtain gb1 where a: "fst e \<in> set allowed" and g: "try_fold (grant p (fst e)) gb (snd e) = Ok gb1"
    and rest: "try_fold (grant_all p allowed) gb1 emps = Ok gb'"
    by (auto simp: and_then_Ok grant_all_step)
  note g1 = grants_Ok [OF g Cons.prems(2), of w]
  from Cons.IH [OF rest conjunct1 [OF g1]] g1 a show ?case
    by (cases "fst e = w") (auto simp: and_then_assoc grants_of_def)
qed

section \<open>The handlers\<close>

lemma add_emps_Ok:
  assumes "add_emps deps env st info emps = Ok (st', resp)"
  obtains cfg p allowed gb where "em_config st = Some cfg" "info_sender info = emc_owner cfg" "get_period (env_time env) = Ok p"
    "length emps = card (fst ` set emps)" "emd_hub_validators deps (emc_hub_addr cfg) = Ok allowed"
    "try_fold (grant_all p allowed) (em_books st) emps = Ok gb" "st' = st\<lparr>em_books := gb\<rparr>"
    "resp = add_attribute (add_message new_response (get_tune_msg (env_contract env))) ''action'' ''emp/vote''"
  using assms by (auto simp: add_emps_def and_then_Ok map_err_Ok load_item_Ok guard_Ok emp_assert_owner_def split: if_splits)

lemma tune_emps_Ok:
  assumes "tune_emps deps env st info = Ok (st', resp)"
  obtains cfg tune p gb votes points where "em_config st = Some cfg"
    "info_sender info = emc_owner cfg \<or> info_sender info = env_contract env" "get_period (env_time env) = Ok p"
    "try_fold (emp_tune_step p) (em_books st, []) (map fst (entries (gb_validators (em_books st)))) = Ok (gb, votes)"
    "em_tune_info st = Some tune"
    "emp_filter_validators deps (emc_hub_addr cfg) (sorted_desc snd (filter (\<lambda>e. snd e \<noteq> 0) votes)) (emc_validators_limit cfg) = Ok points"
    "points \<noteq> []"
    "st' = st\<lparr>em_books := gb, em_tune_info := Some \<lparr>eg_tune_ts = env_time env, eg_tune_period = p, eg_emp_points = points\<rparr>\<rparr>"
  using assms by (auto simp: tune_emps_def and_then_Ok map_err_Ok load_item_Ok guard_Ok assert_owner_or_self_def split: if_splits)

lemma emp_tune_step_Ok:
  assumes "emp_tune_step p (gb, votes) v = Ok (gb', votes')"
  shows "\<exists>i gb1. update_validator_info p v None gb = (Ok i, gb1)
    \<and> votes' = votes @ [(v, vi_power i + fetch_last_validator_fixed_value gb p v)]
    \<and> (gb' = gb1 \<or> gb' = gb1\<lparr>gb_validators := del v (gb_validators gb1)\<rparr>)"
proof -
  from assms obtain i gb1 where u: "update_validator_info p v None gb = (Ok i, gb1)"
    and v: "votes' = votes @ [(v, vi_power i + fetch_last_validator_fixed_value gb1 p v)]"
    and g: "gb' = gb1 \<or> gb' = gb1\<lparr>gb_validators := del v (gb_validators gb1)\<rparr>"
    by (auto simp: emp_tune_step_def and_then_Ok committed_Ok num_Ok emp_update_same split: if_splits)
  have "fetch_last_validator_fixed_value gb1 p v = fetch_last_validator_fixed_value gb p v"
    using fixed_at_cong [OF update_validator_info_fixed [of p v None gb]] by (simp add: u)
  with u v g show ?thesis by auto
qed

interpretation emp_tuning: tuning p "emp_tune_step p" for p
  by unfold_locales (rule emp_tune_step_Ok)

section \<open>Reachable states\<close>

inductive emp_reachable :: "u64 \<Rightarrow> emp_state \<Rightarrow> bool" where
  emp_start: "emp_instantiate deps env msg empty_emp = Ok (st, resp) \<Longrightarrow> get_period (env_time env) = Ok p \<Longrightarrow> emp_reachable p st"
| emp_message: "emp_reachable T st \<Longrightarrow> emp_execute deps env st info msg = Ok (st', resp) \<Longrightarrow>
    get_period (env_time env) = Ok p \<Longrightarrow> T \<le> p \<Longrightarrow> emp_reachable p st'"
| emp_migration: "emp_reachable T st \<Longrightarrow> emp_migrate deps st = Ok (st', resp) \<Longrightarrow> emp_reachable T st'"
| emp_wait: "emp_reachable T st \<Longrightarrow> T \<le> p \<Longrightarrow> emp_reachable p st"

lemma emp_records_mono: "emp_records T gb \<Longrightarrow> T \<le> p \<Longrightarrow> emp_records p gb"
  by (auto simp: emp_records_def intro: books_ok_mono fixed_ok_mono)

lemma emp_execute_records:
  assumes x: "emp_execute deps env st info msg = Ok (st', resp)" and per: "get_period (env_time env) = Ok p"
    and ok: "emp_records p (em_books st)"
  shows "emp_records p (em_books st')"
proof (cases msg)
  case (AddEmps emps)
  with x have "add_emps deps env st info emps = Ok (st', resp)" by simp
  then show ?thesis
  proof (cases rule: add_emps_Ok)
    case (1 cfg q allowed gb)
    with per have "q = p" by simp
    with grant_all_Ok [OF 1(6)] ok show ?thesis by (simp add: 1(7))
  qed
next
  case TuneEmps
  with x have "tune_emps deps env st info = Ok (st', resp)" by simp
  then show ?thesis
  proof (cases rule: tune_emps_Ok)
    case (1 cfg tune q gb votes points)
    with per have q: "q = p" by simp
    have "books_ok p gb" by (rule emp_tuning.fold_records [OF 1(4) [unfolded q]]) (use ok in \<open>simp_all add: emp_records_def\<close>)
    moreover have "fixed_ok p gb"
      using fixed_ok_cong [OF emp_tuning.fold_fixed [OF 1(4)], of p] ok by (simp add: emp_records_def)
    ultimately show ?thesis by (simp add: 1(8) emp_records_def)
  qed
qed (use x ok in \<open>auto simp: emp_update_config_def and_then_Ok split: option.splits\<close>)

lemma emp_reachable_records: "emp_reachable T st \<Longrightarrow> emp_records T (em_books st)"
proof (induction rule: emp_reachable.induct)
  case (emp_start deps env msg st resp p)
  then have "em_books st = empty_books" by (auto simp: emp_instantiate_def and_then_Ok empty_emp_def)
  then show ?case by (simp add: emp_records_def books_ok_empty fixed_ok_def) (simp add: empty_books_def store_simps)
next
  case (emp_message T st deps env info msg st' resp p)
  from emp_execute_records [OF emp_message.hyps(2,3) emp_records_mono [OF emp_message.IH emp_message.hyps(4)]] show ?case .
next
  case (emp_migration T st deps st' resp)
  then have "em_books st' = em_books st" by (auto simp: emp_migrate_def and_then_Ok Let_def guard_Ok)
  with emp_migration.IH show ?case by simp
next
  case (emp_wait T st p)
  from emp_records_mono [OF emp_wait.IH emp_wait.hyps(2)] show ?case .
qed

end
