(* ===== verification/EmpProps.thy ===== *)
theory EmpProps
  imports EmpFacts GaugeSample
begin

text \<open>The properties of the emp gauges: granting, tuning, roles, and what an expired grant costs the others.\<close>

section \<open>A concrete run\<close>

definition emp_sample_deps :: emp_deps where
  "emp_sample_deps = \<lparr>emd_addr_validate = (\<lambda>a. Ok a),
     emd_hub_validators = (\<lambda>c. if c = ''hub'' then Ok [''v1'', ''v2'', ''v3''] else Err (GenericErr ''Querier system error'')),
     emd_propose_new_owner = (\<lambda>info env new_owner expires owner p.
       if info_sender info = owner then Ok (Some new_owner, new_response) else Err (GenericErr ''Unauthorized'')),
     emd_drop_ownership_proposal = (\<lambda>info owner p.
       if info_sender info = owner then Ok (None, new_response) else Err (GenericErr ''Unauthorized'')),
     emd_claim_ownership = (\<lambda>info env p. case p of
         Some a \<Rightarrow> if info_sender info = a then Ok (a, None, new_response) else Err (GenericErr ''Unauthorized'')
       | None \<Rightarrow> Err (GenericErr ''Ownership proposal not found'')), emd_version = ''1.0.0''\<rparr>"

definition sample_emp :: "gauge_books \<Rightarrow> emp_gauge_info \<Rightarrow> emp_state" where
  "sample_emp gb tune = \<lparr>em_config = Some \<lparr>emc_owner = ''owner'', emc_hub_addr = ''hub'', emc_validators_limit = 2\<rparr>, em_books = gb,
     em_tune_info = Some tune, em_ownership_proposal = None, em_contract_info = Some (EMP_CONTRACT_NAME, ''1.0.0'')\<rparr>"

definition emp_started :: emp_state where
  "emp_started = sample_emp empty_books \<lparr>eg_tune_ts = week_time 1, eg_tune_period = 1, eg_emp_points = []\<rparr>"

definition sample_grants :: "add_emp_info list" where
  "sample_grants = [(''v1'', [\<lparr>ep_umerit_points = 1000, ep_decaying_period = Some 10\<rparr>, \<lparr>ep_umerit_points = 10000, ep_decaying_period = Some 100\<rparr>]),
     (''v2'', [\<lparr>ep_umerit_points = 70, ep_decaying_period = None\<rparr>, \<lparr>ep_umerit_points = 5, ep_decaying_period = None\<rparr>])]"

definition books_granted :: gauge_books where
  "books_granted = \<lparr>gb_votes = [((1, ''v1''), \<lparr>vi_power = 11000, vi_slope = 200\<rparr>)], gb_validators = [(''v1'', ()), (''v2'', ())],
     gb_periods = [((''v1'', 1), ())], gb_slopes = [((''v1'', 12), 100), ((''v1'', 102), 100)], gb_fixed = [((''v2'', 1), 75)]\<rparr>"

definition emp_granted :: emp_state where
  "emp_granted = sample_emp books_granted \<lparr>eg_tune_ts = week_time 1, eg_tune_period = 1, eg_emp_points = []\<rparr>"

definition emp_leads :: "emp_result \<Rightarrow> emp_state \<Rightarrow> bool" where
  "emp_leads r st = (case r of Ok (st', _) \<Rightarrow> st' = st | _ \<Rightarrow> False)"

lemma emp_leadsD: "emp_leads r st \<Longrightarrow> \<exists>resp. r = Ok (st, resp)"
  by (cases r) (auto simp: emp_leads_def)

lemma emp_start_run: "emp_leads (emp_instantiate emp_sample_deps (at_week 1)
    \<lparr>emi_owner = ''owner'', emi_hub_addr = ''hub'', emi_validators_limit = 2\<rparr> empty_emp) emp_started"
  by code_simp

lemma emp_grant_run: "emp_leads (emp_execute emp_sample_deps (at_week 1) emp_started (by_sender ''owner'') (AddEmps sample_grants)) emp_granted"
  by code_simp

lemma emp_started_reachable: "emp_reachable 1 emp_started"
  using emp_leadsD [OF emp_start_run] emp_start sample_period(1) by blast

section \<open>Granting\<close>

text \<open>
  C35: The owner grants merit points to distinct validators known to the hub, and nobody else can. For every validator the query
  of the current period then shows, on top of what it showed before, the fixed points and the decaying points of its grants (rounded
  down to a multiple of the periods they decay over), decaying with the sum of their slopes; validators without a grant
  are shown unchanged. The response asks the gauge itself to tune, and nothing else.
\<close>

theorem points_are_granted:
  assumes "emp_reachable T st" and "emp_execute deps env st info (AddEmps emps) = Ok (st', resp)"
    and "get_period (env_time env) = Ok p" and "T \<le> p"
  shows "\<exists>cfg allowed. em_config st = Some cfg \<and> info_sender info = emc_owner cfg
    \<and> emd_hub_validators deps (emc_hub_addr cfg) = Ok allowed \<and> distinct (map fst emps) \<and> fst ` set emps \<subseteq> set allowed
    \<and> (\<forall>v. \<exists>i. emp_get_validator_info p v (em_books st) = Ok i
        \<and> emp_get_validator_info p v (em_books st') = Ok (with_grants (grants_of emps v) i))
    \<and> st' = st\<lparr>em_books := em_books st'\<rparr>
    \<and> resp_msgs resp = [PlainMsg (WasmExecute (env_contract env) TuneEmps [])]"
proof -
  have ok: "emp_records p (em_books st)" by (rule emp_records_mono [OF emp_reachable_records [OF assms(1)] assms(4)])
  from assms(2) have "add_emps deps env st info emps = Ok (st', resp)" by simp
  then show ?thesis
  proof (cases rule: add_emps_Ok)
    case (1 cfg q allowed gb)
    have q: "q = p" using 1(3) assms(3) by simp
    note g = grant_all_Ok [OF 1(6) [unfolded q] ok]
    have "distinct (map fst emps)" using 1(4) by (simp add: card_distinct)
    moreover have "\<exists>i. get_validator_info p v (em_books st) = Ok i \<and> get_validator_info p v gb = Ok (with_grants (grants_of emps v) i)" for v
    proof -
      obtain i where "get_validator_info p v (em_books st) = Ok i"
        using query_defined [of p "em_books st" p v] ok by (auto simp: emp_records_def)
      with g [of v] show ?thesis by simp
    qed
    ultimately show ?thesis
      using 1(1,2,5) g by (intro exI [of _ cfg] exI [of _ allowed]) (simp add: 1(7,8) get_tune_msg_def)
  qed
qed

theorem points_are_granted_witness:
  "\<exists>i. emp_get_validator_info 1 ''v1'' (em_books emp_started) = Ok i
    \<and> emp_get_validator_info 1 ''v1'' (em_books emp_granted) = Ok (with_grants (grants_of sample_grants ''v1'') i)"
proof -
  from emp_leadsD [OF emp_grant_run] obtain resp where
    x: "emp_execute emp_sample_deps (at_week 1) emp_started (by_sender ''owner'') (AddEmps sample_grants) = Ok (emp_granted, resp)" ..
  from points_are_granted [OF emp_started_reachable x sample_period(1) order_refl] show ?thesis by blast
qed

section \<open>Tuning\<close>

text \<open>
  Tuning is for the owner and for the gauge itself. It stores the best validators, which the hub reads: at most as many as the
  limit, in descending order, each active, known to the hub and with the points (decaying and fixed) the query shows for this
  period, none of them zero; a validator with points that is left out is not above any of them.
\<close>

theorem emp_tuning_ranks_validators:
  assumes "emp_reachable T st" and "emp_execute deps env st info TuneEmps = Ok (st', resp)"
    and "get_period (env_time env) = Ok p"
  shows "\<exists>cfg tune allowed. em_config st = Some cfg \<and> info_sender info \<in> {emc_owner cfg, env_contract env}
    \<and> emp_query env st' EmpTuneInfo = Ok (EmpTuneAnswer tune) \<and> eg_tune_ts tune = env_time env \<and> eg_tune_period tune = p
    \<and> emd_hub_validators deps (emc_hub_addr cfg) = Ok allowed \<and> eg_emp_points tune \<noteq> []
    \<and> best_of (em_books st) p allowed (emc_validators_limit cfg) (eg_emp_points tune)"
proof -
  have wf: "wf_store (gb_validators (em_books st))"
    using emp_reachable_records [OF assms(1)] by (simp add: emp_records_def books_ok_def)
  from assms(2) have "tune_emps deps env st info = Ok (st', resp)" by simp
  then show ?thesis
  proof (cases rule: tune_emps_Ok)
    case (1 cfg tune q gb votes points)
    have q: "q = p" using 1(3) assms(3) by simp
    have votes: "votes = map (\<lambda>v. (v, vamp_at (em_books st) p v)) (map fst (entries (gb_validators (em_books st))))"
      using emp_tuning.fold_votes [OF 1(4) [unfolded q] om.keys_distinct [OF wf]] by simp
    from 1(6) obtain allowed where al: "emd_hub_validators deps (emc_hub_addr cfg) = Ok allowed"
      and pts: "points = take (emc_validators_limit cfg)
        (filter (\<lambda>e. fst e \<in> set allowed) (sorted_desc snd (filter (\<lambda>e. snd e \<noteq> 0) votes)))"
      by (auto simp: emp_filter_validators_def and_then_Ok)
    from points_best [OF wf votes pts 1(7)] 1(1,2,7) al show ?thesis by (auto simp: 1(8) q)
  qed
qed

lemma emp_granted_reachable: "emp_reachable 1 emp_granted"
  using emp_leadsD [OF emp_grant_run] emp_message [OF emp_started_reachable _ sample_period(1) order_refl] by blast

definition emp_tuned :: emp_state where
  "emp_tuned = sample_emp (books_granted\<lparr>gb_votes := [((1, ''v1''), \<lparr>vi_power = 11000, vi_slope = 200\<rparr>), ((1, ''v2''), default_info)],
      gb_periods := [((''v1'', 1), ()), ((''v2'', 1), ())]\<rparr>)
     \<lparr>eg_tune_ts = week_time 1, eg_tune_period = 1, eg_emp_points = [(''v1'', 11000), (''v2'', 75)]\<rparr>"

lemma emp_tune_run: "emp_leads (emp_execute emp_sample_deps (at_week 1) emp_granted (by_sender ''escrow'') TuneEmps) emp_tuned"
  by code_simp

theorem emp_tuning_ranks_validators_witness:
  "best_of (em_books emp_granted) 1 [''v1'', ''v2'', ''v3''] 2 [(''v1'', 11000), (''v2'', 75)]"
proof -
  from emp_leadsD [OF emp_tune_run] obtain resp where
    x: "emp_execute emp_sample_deps (at_week 1) emp_granted (by_sender ''escrow'') TuneEmps = Ok (emp_tuned, resp)" ..
  from emp_tuning_ranks_validators [OF emp_granted_reachable x sample_period(1)] show ?thesis
    by (auto simp: emp_tuned_def sample_emp_def emp_granted_def emp_sample_deps_def)
qed

section \<open>An expired grant\<close>

lemma active_sel:
  "gb_votes (add_validator_to_active v gb) = gb_votes gb" "gb_periods (add_validator_to_active v gb) = gb_periods gb"
  "gb_slopes (add_validator_to_active v gb) = gb_slopes gb"
  by (simp_all add: add_validator_to_active_def)

lemma emp_first_vote:
  assumes "emp_vote_for_validator p v vp s e gb = (Ok u, gb')" and "books_ok n gb" and "\<And>k. get (gb_votes gb) (k, v) = None"
    and "get (gb_slopes gb) (v, e + 1) = None"
  shows "get (gb_votes gb') (p, v) = Some \<lparr>vi_power = vp, vi_slope = s\<rparr>"
    and "k \<noteq> p \<Longrightarrow> get (gb_votes gb') (k, v) = None" and "gb_slopes gb' = put (v, e + 1) s (gb_slopes gb)"
proof -
  define E where "E = e + 1"
  let ?gb0 = "add_validator_to_active v (gb\<lparr>gb_slopes := put (v, E) s (gb_slopes gb)\<rparr>)"
  have "fetch_last_validator_period gb p v = None" by (simp add: last_period_None [OF assms(2)] assms(3))
  then have "fetch_last_validator_period ?gb0 p v = None" by (simp add: fetch_last_validator_period_def active_sel)
  then have m: "get_validator_info_mut p v ?gb0 = Ok (NewInfo default_info, ?gb0)"
    by (simp add: get_validator_info_mut_def active_sel assms(3))
  from assms(1) obtain r gb1 where "get_validator_info_mut p v ?gb0 = Ok (r, gb1)"
    and g: "gb' = save_voted p v \<lparr>vi_power = vi_power (info_of r) + vp, vi_slope = vi_slope (info_of r) + s\<rparr> gb1"
    by (rule emp_vote_Ok) (use assms(4) in \<open>simp add: E_def\<close>)
  with m have "r = NewInfo default_info" "gb1 = ?gb0" by auto
  then show "get (gb_votes gb') (p, v) = Some \<lparr>vi_power = vp, vi_slope = s\<rparr>"
    and "k \<noteq> p \<Longrightarrow> get (gb_votes gb') (k, v) = None" and "gb_slopes gb' = put (v, e + 1) s (gb_slopes gb)"
    using assms(3) by (simp_all add: g save_voted_def store_simps active_sel default_info_def E_def)
qed

lemma emp_next_vote:
  assumes "emp_vote_for_validator p v vp s e gb = (Ok u, gb')" and "get (gb_votes gb) (p, v) = Some i"
    and "get (gb_slopes gb) (v, e + 1) = None"
  shows "get (gb_votes gb') (p, v) = Some \<lparr>vi_power = vi_power i + vp, vi_slope = vi_slope i + s\<rparr>"
    and "k \<noteq> p \<Longrightarrow> get (gb_votes gb') (k, v) = get (gb_votes gb) (k, v)" and "gb_slopes gb' = put (v, e + 1) s (gb_slopes gb)"
proof -
  define E where "E = e + 1"
  let ?gb0 = "add_validator_to_active v (gb\<lparr>gb_slopes := put (v, E) s (gb_slopes gb)\<rparr>)"
  have m: "get_validator_info_mut p v ?gb0 = Ok (UnchangedInfo i, ?gb0)"
    by (simp add: get_validator_info_mut_def active_sel assms(2))
  from assms(1) obtain r gb1 where "get_validator_info_mut p v ?gb0 = Ok (r, gb1)"
    and g: "gb' = save_voted p v \<lparr>vi_power = vi_power (info_of r) + vp, vi_slope = vi_slope (info_of r) + s\<rparr> gb1"
    by (rule emp_vote_Ok) (use assms(3) in \<open>simp add: E_def\<close>)
  with m have "r = UnchangedInfo i" "gb1 = ?gb0" by auto
  then show "get (gb_votes gb') (p, v) = Some \<lparr>vi_power = vi_power i + vp, vi_slope = vi_slope i + s\<rparr>"
    and "k \<noteq> p \<Longrightarrow> get (gb_votes gb') (k, v) = get (gb_votes gb) (k, v)" and "gb_slopes gb' = put (v, e + 1) s (gb_slopes gb)"
    by (simp_all add: g save_voted_def store_simps active_sel E_def)
qed

text \<open>The arithmetic of two decaying grants after the shorter one has expired.\<close>

lemma two_grants_decay:
  fixes s t m n d :: nat
  assumes "m < d" and "d \<le> n"
  shows "(s * m + t * n - (s + t) * (m + 1)) - t * (d - (m + 1)) = t * (n - d) - s"
proof -
  obtain j where d: "d = m + 1 + j" using assms(1) less_iff_Suc_add by auto
  obtain k where n: "n = d + k" using assms(2) le_iff_add by blast
  have "s * m + t * n - (s + t) * (m + 1) = t * j + t * k - s"
    by (simp add: n d algebra_simps)
  then show ?thesis by (simp add: d n algebra_simps)
qed

lemma grant_decaying:
  assumes "grant p v gb \<lparr>ep_umerit_points = a, ep_decaying_period = Some m\<rparr> = Ok gb'"
  shows "emp_vote_for_validator p v (a div m * m) (a div m) (p + m) gb = (Ok (), gb')" and "0 < m"
  using assms by (auto simp: grant_def and_then_Ok committed_Ok num_Ok adjust_vp_and_slope_Ok)

text \<open>
  An expired grant takes one slope too much. When a validator without records is granted \<open>a\<close> points over \<open>m\<close> periods and
  \<open>b\<close> points over \<open>n > m\<close>, then from the period after the first has expired until the second expires, the query shows
  \<open>a div m\<close> points less than the \<open>b div n * (p + n - r)\<close> that are left of the second grant alone: the slope of the first goes on for
  one period after its points are used up.
\<close>

theorem expired_points_cost_a_slope:
  assumes "emp_reachable T st" and "T \<le> p" and "get_period (env_time env) = Ok p"
    and "emp_execute deps env st info (AddEmps [(v, [\<lparr>ep_umerit_points = a, ep_decaying_period = Some m\<rparr>,
        \<lparr>ep_umerit_points = b, ep_decaying_period = Some n\<rparr>])]) = Ok (st', resp)"
    and "\<And>k. get (gb_votes (em_books st)) (k, v) = None" and "\<And>k. get (gb_slopes (em_books st)) (v, k) = None"
    and "p + m < r" and "r \<le> p + n" and "(a div m + b div n) * r \<le> U128_MAX"
  shows "\<exists>i. emp_get_validator_info r v (em_books st') = Ok i \<and> gv_voting_power i = b div n * (p + n - r) - a div m"
proof -
  let ?s = "a div m" and ?t = "b div n"
  have ok: "emp_records p (em_books st)" by (rule emp_records_mono [OF emp_reachable_records [OF assms(1)] assms(2)])
  from assms(4) have "add_emps deps env st info [(v, [\<lparr>ep_umerit_points = a, ep_decaying_period = Some m\<rparr>,
        \<lparr>ep_umerit_points = b, ep_decaying_period = Some n\<rparr>])] = Ok (st', resp)" by simp
  then obtain gb1 gb2 where g1: "grant p v (em_books st) \<lparr>ep_umerit_points = a, ep_decaying_period = Some m\<rparr> = Ok gb1"
    and g2: "grant p v gb1 \<lparr>ep_umerit_points = b, ep_decaying_period = Some n\<rparr> = Ok gb2" and st': "em_books st' = gb2"
    using assms(3) by (auto elim!: add_emps_Ok simp: and_then_Ok grant_all_step)
  note ok1 = grant_Ok(1) [OF g1 ok] note ok2 = grant_Ok(1) [OF g2 ok1]
  have b: "books_ok p (em_books st)" "books_ok p gb2" using ok ok2 by (simp_all add: emp_records_def)
  note f1 = emp_first_vote [OF grant_decaying(1) [OF g1] b(1) assms(5,6)]
  have n1: "get (gb_slopes gb1) (v, p + n + 1) = None" using assms(6,7,8) by (simp add: f1(3) store_simps)
  note f2 = emp_next_vote [OF grant_decaying(1) [OF g2] f1(1) n1]
  let ?i = "\<lparr>vi_power = ?s * m + ?t * n, vi_slope = ?s + ?t\<rparr>"
  have now: "get (gb_votes gb2) (p, v) = Some ?i" and other: "\<And>k. k \<noteq> p \<Longrightarrow> get (gb_votes gb2) (k, v) = None"
    using f2(1,2) f1(2) by simp_all
  have last: "fetch_last_validator_period gb2 r v = Some p"
    using assms(7) now other by (auto simp: last_period_Some_iff [OF b(2)])
  have "prefix_of (gb_slopes gb2) v = [(p + m + 1, ?s), (p + n + 1, ?t)]"
  proof (rule wf_store_eqI)
    show "wf_store (prefix_of (gb_slopes gb2) v)" using b(2) by (simp add: books_ok_def wf_prefix_of)
    show "wf_store [(p + m + 1, ?s), (p + n + 1, ?t)]" using assms(7,8) by (simp add: wf_store_def)
    show "get (prefix_of (gb_slopes gb2) v) k = get [(p + m + 1, ?s), (p + n + 1, ?t)] k" for k
      using assms(6,7,8) by (simp add: get_prefix_of f2(3) f1(3) store_simps) (simp add: get_def)
  qed
  then have changes: "gauge_slope_changes gb2 v p r = [(p + m + 1, ?s)]"
    using assms(7,8) by (simp add: gauge_slope_changes_def)
  have q: "get_validator_info r v gb2 = Ok (info_response (power_at ?i p [(p + m + 1, ?s)] r) (fetch_last_validator_fixed_value gb2 r v))"
    using query_power_at [OF b(2) other last now] assms(7,9) by (simp add: changes)
  have "vi_power (power_at ?i p [(p + m + 1, ?s)] r) = (?s * m + ?t * n - (?s + ?t) * (m + 1)) - ?t * (r - p - (m + 1))"
    by (simp add: diff_diff_left)
  also have "\<dots> = ?t * (n - (r - p)) - ?s" by (rule two_grants_decay) (use assms(7,8) in simp_all)
  also have "n - (r - p) = p + n - r" using assms(7,8) by simp
  finally show ?thesis using q st' by (simp add: info_response_def)
qed

theorem expired_points_cost_a_slope_witness:
  "\<exists>st' resp i. emp_execute emp_sample_deps (at_week 1) emp_started (by_sender ''owner'')
      (AddEmps [(''v1'', [\<lparr>ep_umerit_points = 1000, ep_decaying_period = Some 10\<rparr>, \<lparr>ep_umerit_points = 10000, ep_decaying_period = Some 100\<rparr>])])
      = Ok (st', resp)
    \<and> emp_get_validator_info 12 ''v1'' (em_books st') = Ok i \<and> gv_voting_power i = 8900 - 100"
proof -
  have "is_ok (emp_execute emp_sample_deps (at_week 1) emp_started (by_sender ''owner'')
      (AddEmps [(''v1'', [\<lparr>ep_umerit_points = 1000, ep_decaying_period = Some 10\<rparr>, \<lparr>ep_umerit_points = 10000, ep_decaying_period = Some 100\<rparr>])]))"
    by code_simp
  then obtain st' resp where x: "emp_execute emp_sample_deps (at_week 1) emp_started (by_sender ''owner'')
      (AddEmps [(''v1'', [\<lparr>ep_umerit_points = 1000, ep_decaying_period = Some 10\<rparr>, \<lparr>ep_umerit_points = 10000, ep_decaying_period = Some 100\<rparr>])])
      = Ok (st', resp)" by (auto simp: is_ok_iff)
  have none: "get (gb_votes (em_books emp_started)) (k, v) = None" "get (gb_slopes (em_books emp_started)) (v, k) = None" for k v
    by (simp_all add: emp_started_def sample_emp_def empty_books_def store_simps)
  have "\<exists>i. emp_get_validator_info 12 ''v1'' (em_books st') = Ok i \<and> gv_voting_power i = 10000 div 100 * (1 + 100 - 12) - 1000 div 10"
    by (rule expired_points_cost_a_slope [OF emp_started_reachable order_refl sample_period(1) x none]) (simp_all add: U128_MAX_def)
  with x show ?thesis by auto
qed

end
