(* ===== verification/PropGauge.thy ===== *)
theory PropGauge
  imports EscrowState HubState
begin

text \<open>
  The proposal gauges (\<open>contracts/amp-governance/prop_gauges\<close>): holders of voting power vote on governance proposals of the chain.
  A vote counts with the power the voter will have when the proposal ends; when enough of the total has voted, the gauge lets
  the hub vote on the chain with what the hub has staked.
\<close>

section \<open>State and messages\<close>

datatype prop_error =
    PropStd std_error
  | PropUnauthorized
  | PropZeroVotingPower
  | PropInvalidValidatorAddress string
  | PropDuplicatedValidators
  | PropTuneNoValidators
  | PropMigrationError

abbreviation pstd :: "('a, std_error) result \<Rightarrow> ('a, prop_error) result" where
  "pstd \<equiv> map_err PropStd"

record prop_config =
  pc_owner :: addr
  pc_escrow_addr :: addr
  pc_hub_addr :: addr
  pc_quorum_bps :: u16
  pc_use_weighted_vote :: bool

record prop_info =
  pi_period :: u64
  pi_end_time_s :: u64
  pi_yes_vp :: u128
  pi_no_vp :: u128
  pi_abstain_vp :: u128
  pi_nwv_vp :: u128
  pi_total_vp :: u128
  pi_current_vote :: "vote_option option"

record prop_user =
  pu_user :: addr
  pu_current_vote :: vote_option
  pu_vp :: u128

record prop_state =
  pg_config :: "prop_config option"
  pg_props :: "(u64, prop_info) store"
  pg_ownership_proposal :: "ownership_proposal option"
  pg_users :: "(u64 \<times> addr, prop_user) store"
  pg_voters :: "(u64 \<times> u128 \<times> addr, vote_option) store"
  pg_contract_info :: "(string \<times> string) option"

definition empty_props :: prop_state where
  "empty_props = \<lparr>pg_config = None, pg_props = [], pg_ownership_proposal = None, pg_users = [], pg_voters = [], pg_contract_info = None\<rparr>"

record prop_instantiate_msg =
  pim_owner :: string
  pim_escrow_addr :: string
  pim_hub_addr :: string
  pim_quorum_bps :: u16
  pim_use_weighted_vote :: bool

datatype prop_execute_msg =
    InitProp u64 u64
  | PropVote u64 vote_option
  | PropUpdateVote string lock_info
  | PropUpdateConfig "u16 option" "bool option"
  | PropRemoveUser string
  | RemoveProp u64
  | PropProposeNewOwner string u64
  | PropDropProposal
  | PropClaimOwnership

text \<open>
  What the gauge calls: the lock of a user and the total power at a period from the escrow, address validation (one of them
  from \<open>astroport\<close>), the ownership functions of \<open>astroport::common\<close>. It sends messages to the hub only.
\<close>

type_synonym prop_response = "hub_execute_msg response"

record prop_deps =
  pd_addr_validate :: "string \<Rightarrow> (addr, std_error) result"
  pd_addr_validate_to_lower :: "string \<Rightarrow> (addr, std_error) result"
  pd_lock_info :: "addr \<Rightarrow> addr \<Rightarrow> (lock_info, std_error) result"
  pd_total_vamp :: "addr \<Rightarrow> u64 \<Rightarrow> (u128, std_error) result"
  pd_propose_new_owner :: "message_info \<Rightarrow> env \<Rightarrow> string \<Rightarrow> u64 \<Rightarrow> addr \<Rightarrow> ownership_proposal option \<Rightarrow>
    (ownership_proposal option \<times> prop_response, std_error) result"
  pd_drop_ownership_proposal :: "message_info \<Rightarrow> addr \<Rightarrow> ownership_proposal option \<Rightarrow>
    (ownership_proposal option \<times> prop_response, std_error) result"
  pd_claim_ownership :: "message_info \<Rightarrow> env \<Rightarrow> ownership_proposal option \<Rightarrow>
    (addr \<times> ownership_proposal option \<times> prop_response, std_error) result"
  pd_version :: string

type_synonym prop_result = "(prop_state \<times> prop_response, prop_error) result"

definition PROP_CONTRACT_NAME :: string where "PROP_CONTRACT_NAME = ''prop-gauges''"

definition prop_assert_owner :: "prop_config \<Rightarrow> addr \<Rightarrow> (unit, std_error) result" where
  "prop_assert_owner cfg a = (if a \<noteq> pc_owner cfg then Err (GenericErr ''unauthorized'') else Ok ())"

definition prop_instantiate :: "prop_deps \<Rightarrow> prop_instantiate_msg \<Rightarrow> prop_state \<Rightarrow> prop_result" where
  "prop_instantiate deps msg st =
     and_then (pstd (bps_try_from (pim_quorum_bps msg))) (\<lambda>_.
     and_then (pstd (pd_addr_validate_to_lower deps (pim_owner msg))) (\<lambda>owner.
     and_then (pstd (pd_addr_validate_to_lower deps (pim_escrow_addr msg))) (\<lambda>escrow.
     and_then (pstd (pd_addr_validate_to_lower deps (pim_hub_addr msg))) (\<lambda>hub.
     Ok (st\<lparr>pg_contract_info := Some (PROP_CONTRACT_NAME, pd_version deps),
            pg_config := Some \<lparr>pc_owner = owner, pc_escrow_addr = escrow, pc_hub_addr = hub,
              pc_quorum_bps = pim_quorum_bps msg, pc_use_weighted_vote = pim_use_weighted_vote msg\<rparr>\<rparr>, new_response)))))"

text \<open>
  The index of the proposals by end time orders by end time, then by id; an inclusive lower bound \<open>(t, 0)\<close> and an exclusive upper
  bound \<open>(t, 0)\<close> cut by end time only.
\<close>

definition props_by_time :: "prop_state \<Rightarrow> (u64 \<times> prop_info) list" where
  "props_by_time st = sort_key (\<lambda>e. (pi_end_time_s (snd e), fst e)) (entries (pg_props st))"

definition all_active_props :: "prop_state \<Rightarrow> env \<Rightarrow> (u64 \<times> prop_info) list" where
  "all_active_props st env = filter (\<lambda>e. env_time env \<le> pi_end_time_s (snd e)) (props_by_time st)"

definition get_user_info :: "prop_state \<Rightarrow> u64 \<Rightarrow> addr \<Rightarrow> prop_user option" where
  "get_user_info st proposal_id a = get (pg_users st) (proposal_id, a)"

section \<open>What a proposal wants\<close>

definition voted_vp :: "prop_info \<Rightarrow> (u128, 'e) result" where
  "voted_vp prop =
     and_then (u128_add (pi_yes_vp prop) (pi_no_vp prop)) (\<lambda>a.
     and_then (u128_add a (pi_abstain_vp prop)) (\<lambda>b.
     u128_add b (pi_nwv_vp prop)))"

definition reached_quorum :: "prop_info \<Rightarrow> u128 \<Rightarrow> u16 \<Rightarrow> (bool, std_error) result" where
  "reached_quorum prop total_vp quorum =
     and_then (voted_vp prop) (\<lambda>current.
     and_then (dec_from_ratio current total_vp) (\<lambda>voted.
     and_then (bps_try_from quorum) (\<lambda>bps.
     and_then (bps_decimal bps) (\<lambda>q.
     Ok (\<not> voted < q)))))"

definition dec_floor :: "decimal \<Rightarrow> decimal" where
  "dec_floor d = d div DEC_ONE * DEC_ONE"

text \<open>The share of one option, in thousandths, rounded down.\<close>

definition weight_of :: "u128 \<Rightarrow> u128 \<Rightarrow> (decimal, 'e) result" where
  "weight_of vp voted =
     and_then (u128_mul vp 1000) (\<lambda>x.
     and_then (dec_from_ratio x voted) (\<lambda>d.
     u128_div (dec_floor d) 1000))"

text \<open>What rounding left over, or gave too much, goes to the first weight.\<close>

definition settle_weights :: "(decimal \<times> vote_option) list \<Rightarrow> ((decimal \<times> vote_option) list, 'e) result" where
  "settle_weights votes =
     and_then (dec_sum (map fst votes)) (\<lambda>sum.
     if sum < DEC_ONE then
       (case votes of
          [] \<Rightarrow> Panic
        | (w, v) # vs \<Rightarrow> and_then (dec_add w (DEC_ONE - sum)) (\<lambda>w'. Ok ((w', v) # vs)))
     else if sum > DEC_ONE then
       (case votes of
          [] \<Rightarrow> Panic
        | (w, v) # vs \<Rightarrow> and_then (u128_sub w (sum - DEC_ONE)) (\<lambda>w'. Ok ((w', v) # vs)))
     else Ok votes)"

definition get_weighted_votes :: "prop_info \<Rightarrow> ((decimal \<times> vote_option) list, 'e) result" where
  "get_weighted_votes prop =
     and_then (voted_vp prop) (\<lambda>voted.
     if voted = 0 then Ok []
     else
       and_then (weight_of (pi_yes_vp prop) voted) (\<lambda>yes.
       and_then (weight_of (pi_no_vp prop) voted) (\<lambda>no.
       and_then (weight_of (pi_abstain_vp prop) voted) (\<lambda>abstain.
       and_then (weight_of (pi_nwv_vp prop) voted) (\<lambda>nwv.
       settle_weights (filter (\<lambda>v. fst v \<noteq> 0) [(yes, VoteYes), (no, VoteNo), (abstain, VoteAbstain), (nwv, VoteNoWithVeto)]))))))"

definition get_wanted_vote :: "prop_info \<Rightarrow> u128 \<Rightarrow> u16 \<Rightarrow> (vote_option option, std_error) result" where
  "get_wanted_vote prop total_vp quorum =
     and_then (voted_vp prop) (\<lambda>current.
     and_then (dec_from_ratio current total_vp) (\<lambda>voted.
     and_then (bps_try_from quorum) (\<lambda>bps.
     and_then (bps_decimal bps) (\<lambda>q.
     Ok (if voted < q then None
         else if pi_yes_vp prop \<ge> pi_no_vp prop \<and> pi_yes_vp prop \<ge> pi_abstain_vp prop \<and> pi_yes_vp prop \<ge> pi_nwv_vp prop
         then Some VoteYes
         else if pi_no_vp prop \<ge> pi_abstain_vp prop \<and> pi_no_vp prop \<ge> pi_nwv_vp prop then Some VoteNo
         else if pi_nwv_vp prop \<ge> pi_abstain_vp prop then Some VoteNoWithVeto
         else Some VoteAbstain)))))"

section \<open>Votes (vote.rs)\<close>

fun tally :: "vote_option \<Rightarrow> prop_info \<Rightarrow> u128" where
  "tally VoteYes prop = pi_yes_vp prop"
| "tally VoteNo prop = pi_no_vp prop"
| "tally VoteAbstain prop = pi_abstain_vp prop"
| "tally VoteNoWithVeto prop = pi_nwv_vp prop"

fun set_tally :: "vote_option \<Rightarrow> u128 \<Rightarrow> prop_info \<Rightarrow> prop_info" where
  "set_tally VoteYes x prop = prop\<lparr>pi_yes_vp := x\<rparr>"
| "set_tally VoteNo x prop = prop\<lparr>pi_no_vp := x\<rparr>"
| "set_tally VoteAbstain x prop = prop\<lparr>pi_abstain_vp := x\<rparr>"
| "set_tally VoteNoWithVeto x prop = prop\<lparr>pi_nwv_vp := x\<rparr>"

definition remove_vote_of_user :: "prop_info \<Rightarrow> prop_user \<Rightarrow> (prop_info, std_error) result" where
  "remove_vote_of_user prop user =
     (if pu_vp user = 0 then Ok prop
      else and_then (checked_sub (tally (pu_current_vote user) prop) (pu_vp user)) (\<lambda>x.
        Ok (set_tally (pu_current_vote user) x prop)))"

definition calc_voting_power_for_prop :: "u64 \<Rightarrow> lock_info \<Rightarrow> prop_info \<Rightarrow> (u128, 'e) result" where
  "calc_voting_power_for_prop current_period li prop =
     (if current_period = pi_period prop then u128_add (li_voting_power li) (li_fixed_amount li)
      else if li_end li \<le> pi_period prop then Ok (li_fixed_amount li)
      else and_then (calc_voting_power (li_slope li) (li_voting_power li) current_period (pi_period prop)) (\<lambda>vp.
        u128_add vp (li_fixed_amount li)))"

definition apply_vote_of_user ::
    "env \<Rightarrow> prop_info \<Rightarrow> lock_info \<Rightarrow> vote_option \<Rightarrow> addr \<Rightarrow> (prop_info \<times> prop_user, std_error) result" where
  "apply_vote_of_user env prop li vote user =
     and_then (get_period (env_time env)) (\<lambda>current_period.
     and_then (calc_voting_power_for_prop current_period li prop) (\<lambda>vp.
     if vp = 0 then Ok (prop, \<lparr>pu_user = user, pu_current_vote = VoteAbstain, pu_vp = vp\<rparr>)
     else
       and_then (checked_add (tally vote prop) vp) (\<lambda>x.
       Ok (set_tally vote x prop, \<lparr>pu_user = user, pu_current_vote = vote, pu_vp = vp\<rparr>))))"

definition vote_msg :: "addr \<Rightarrow> u64 \<Rightarrow> vote_option \<Rightarrow> hub_execute_msg cosmos_msg" where
  "vote_msg hub proposal_id vote = WasmExecute hub (Vote proposal_id vote) []"

definition vote_weighted_msg :: "addr \<Rightarrow> u64 \<Rightarrow> (decimal \<times> vote_option) list \<Rightarrow> hub_execute_msg cosmos_msg" where
  "vote_weighted_msg hub proposal_id votes = WasmExecute hub (VoteWeighted proposal_id votes) []"

text \<open>
  The change from what the proposal stands for to what is wanted, as a message, with what it then stands for. A proposal that falls
  back below the quorum after the hub has voted asks for an abstention.
\<close>

definition wanted_msg ::
    "addr \<Rightarrow> u64 \<Rightarrow> vote_option option \<Rightarrow> vote_option option \<Rightarrow> hub_execute_msg cosmos_msg option \<times> vote_option option" where
  "wanted_msg hub proposal_id current_vote wanted =
     (if wanted \<noteq> current_vote then
        (case wanted of
           Some w \<Rightarrow> (Some (vote_msg hub proposal_id w), wanted)
         | None \<Rightarrow>
             if current_vote \<noteq> None \<and> current_vote \<noteq> Some VoteAbstain
             then (Some (vote_msg hub proposal_id VoteAbstain), Some VoteAbstain)
             else (None, wanted))
      else (None, wanted))"

text \<open>The message for the hub, if one is due, with the total power and the proposal.\<close>

definition get_vote_msg ::
    "prop_deps \<Rightarrow> prop_config \<Rightarrow> prop_info \<Rightarrow> u64 \<Rightarrow>
     (hub_execute_msg cosmos_msg option \<times> u128 \<times> prop_info, prop_error) result" where
  "get_vote_msg deps cfg prop proposal_id =
     and_then (pstd (pd_total_vamp deps (pc_escrow_addr cfg) (pi_period prop))) (\<lambda>total_vp.
     if pc_use_weighted_vote cfg then
       and_then (pstd (reached_quorum prop total_vp (pc_quorum_bps cfg))) (\<lambda>reached.
       and_then (if reached
           then and_then (get_weighted_votes prop) (\<lambda>votes. Ok (Some (vote_weighted_msg (pc_hub_addr cfg) proposal_id votes)))
           else Ok None) (\<lambda>msg.
       Ok (msg, total_vp, prop\<lparr>pi_current_vote := None\<rparr>)))
     else
       and_then (pstd (get_wanted_vote prop total_vp (pc_quorum_bps cfg))) (\<lambda>wanted.
       Ok (fst (wanted_msg (pc_hub_addr cfg) proposal_id (pi_current_vote prop) wanted), total_vp,
         prop\<lparr>pi_current_vote := snd (wanted_msg (pc_hub_addr cfg) proposal_id (pi_current_vote prop) wanted)\<rparr>)))"

definition update_vote_state ::
    "prop_deps \<Rightarrow> env \<Rightarrow> prop_state \<Rightarrow> prop_config \<Rightarrow> addr \<Rightarrow> u64 \<Rightarrow> prop_info option \<Rightarrow> vote_option \<Rightarrow> prop_user \<Rightarrow> lock_info \<Rightarrow>
     (prop_state \<times> prop_user \<times> hub_execute_msg cosmos_msg option, prop_error) result" where
  "update_vote_state deps env st cfg sender proposal_id prop_opt vote user_info li =
     and_then (case prop_opt of
         Some p \<Rightarrow> Ok p
       | None \<Rightarrow> pstd (map_err (\<lambda>_. GenericErr (''proposal with id '' @ nat_str proposal_id @ '' not initialized''))
           (load_item (get (pg_props st) proposal_id)))) (\<lambda>prop.
     and_then (pstd (remove_vote_of_user prop user_info)) (\<lambda>prop1.
     and_then (pstd (apply_vote_of_user env prop1 li vote sender)) (\<lambda>(prop2, user).
     and_then (get_vote_msg deps cfg prop2 proposal_id) (\<lambda>(msg, total_vp, prop3).
     Ok (st\<lparr>pg_props := put proposal_id (prop3\<lparr>pi_total_vp := total_vp\<rparr>) (pg_props st),
            pg_users := put (proposal_id, sender) user (pg_users st),
            pg_voters := put (proposal_id, pu_vp user, sender) (pu_current_vote user)
              (del (proposal_id, pu_vp user_info, sender) (pg_voters st))\<rparr>, user, msg)))))"

section \<open>Handlers (contract.rs)\<close>

definition init_prop :: "prop_deps \<Rightarrow> env \<Rightarrow> prop_state \<Rightarrow> message_info \<Rightarrow> u64 \<Rightarrow> u64 \<Rightarrow> prop_result" where
  "init_prop deps env st info proposal_id end_time_s =
     and_then (pstd (load_item (pg_config st))) (\<lambda>cfg.
     and_then (pstd (prop_assert_owner cfg (info_sender info))) (\<lambda>_.
     if get (pg_props st) proposal_id \<noteq> None
     then Err (PropStd (GenericErr (''prop '' @ nat_str proposal_id @ '' already initialized.'')))
     else if end_time_s < env_time env then Err (PropStd (GenericErr ''End time can't be in the past.''))
     else
       and_then (pstd (get_period end_time_s)) (\<lambda>period.
       and_then (pstd (pd_total_vamp deps (pc_escrow_addr cfg) period)) (\<lambda>total_vp.
       Ok (st\<lparr>pg_props := put proposal_id
             \<lparr>pi_period = period, pi_end_time_s = end_time_s, pi_yes_vp = 0, pi_no_vp = 0, pi_abstain_vp = 0, pi_nwv_vp = 0,
              pi_total_vp = total_vp, pi_current_vote = None\<rparr> (pg_props st)\<rparr>,
           add_attributes new_response [(''action'', ''prop/init_prop''), (''prop'', nat_str proposal_id), (''end'', nat_str period)])))))"

definition prop_handle_vote :: "prop_deps \<Rightarrow> env \<Rightarrow> prop_state \<Rightarrow> message_info \<Rightarrow> u64 \<Rightarrow> vote_option \<Rightarrow> prop_result" where
  "prop_handle_vote deps env st info proposal_id vote =
     and_then (pstd (load_item (pg_config st))) (\<lambda>cfg.
     and_then (pstd (pd_lock_info deps (pc_escrow_addr cfg) (info_sender info))) (\<lambda>li.
     and_then (u128_add (li_voting_power li) (li_fixed_amount li)) (\<lambda>vamp.
     if vamp = 0 then Err PropZeroVotingPower
     else
       let user_info = unwrap_or (get_user_info st proposal_id (info_sender info))
             \<lparr>pu_user = info_sender info, pu_current_vote = VoteAbstain, pu_vp = 0\<rparr> in
       and_then (update_vote_state deps env st cfg (info_sender info) proposal_id None vote user_info li) (\<lambda>(st', user, msg).
       Ok (st', add_attributes (add_optional_message new_response msg)
         [(''action'', ''prop/vote''), (''vp'', nat_str (pu_vp user))])))))"

text \<open>One proposal of an update by the escrow: the user's vote stays, its power changes.\<close>

definition update_one :: "prop_deps \<Rightarrow> env \<Rightarrow> prop_config \<Rightarrow> addr \<Rightarrow> lock_info \<Rightarrow> prop_state \<times> prop_response \<Rightarrow> u64 \<times> prop_info \<Rightarrow> prop_result" where
  "update_one deps env cfg user li acc e =
     (case (acc, e) of ((st, resp), (proposal_id, prop)) \<Rightarrow>
      case get_user_info st proposal_id user of
        Some user_info \<Rightarrow>
          and_then (update_vote_state deps env st cfg user proposal_id (Some prop) (pu_current_vote user_info) user_info li) (\<lambda>(st', _, msg).
          Ok (st', add_attribute (add_optional_message resp msg) ''prop'' (nat_str proposal_id)))
      | None \<Rightarrow> Ok (st, resp))"

definition prop_update_vote :: "prop_deps \<Rightarrow> env \<Rightarrow> prop_state \<Rightarrow> message_info \<Rightarrow> string \<Rightarrow> lock_info \<Rightarrow> prop_result" where
  "prop_update_vote deps env st info user_str li =
     and_then (pstd (pd_addr_validate deps user_str)) (\<lambda>user.
     and_then (pstd (load_item (pg_config st))) (\<lambda>cfg.
     if info_sender info \<noteq> pc_escrow_addr cfg then Err PropUnauthorized
     else
       and_then (try_fold (update_one deps env cfg user li) (st, new_response) (all_active_props st env)) (\<lambda>(st', resp).
       Ok (st', add_attribute resp ''action'' ''prop/update_vote''))))"

definition remove_one :: "prop_deps \<Rightarrow> prop_config \<Rightarrow> addr \<Rightarrow> prop_state \<times> prop_response \<Rightarrow> u64 \<times> prop_info \<Rightarrow> prop_result" where
  "remove_one deps cfg user_addr acc e =
     (case (acc, e) of ((st, resp), (proposal_id, prop)) \<Rightarrow>
      case get_user_info st proposal_id user_addr of
        Some user \<Rightarrow>
          and_then (pstd (remove_vote_of_user prop user)) (\<lambda>prop1.
          and_then (get_vote_msg deps cfg prop1 proposal_id) (\<lambda>(msg, total_vp, prop2).
          Ok (st\<lparr>pg_props := put proposal_id (prop2\<lparr>pi_total_vp := total_vp\<rparr>) (pg_props st),
                 pg_users := del (proposal_id, user_addr) (pg_users st),
                 pg_voters := del (proposal_id, pu_vp user, user_addr) (pg_voters st)\<rparr>,
              add_attribute (add_optional_message resp msg) ''removed-id'' (nat_str proposal_id))))
      | None \<Rightarrow> Ok (st, resp))"

definition prop_remove_user :: "prop_deps \<Rightarrow> env \<Rightarrow> prop_state \<Rightarrow> message_info \<Rightarrow> string \<Rightarrow> prop_result" where
  "prop_remove_user deps env st info user_str =
     and_then (pstd (load_item (pg_config st))) (\<lambda>cfg.
     and_then (pstd (prop_assert_owner cfg (info_sender info))) (\<lambda>_.
     and_then (pstd (pd_addr_validate_to_lower deps user_str)) (\<lambda>user_addr.
     and_then (try_fold (remove_one deps cfg user_addr) (st, new_response) (all_active_props st env)) (\<lambda>(st', resp).
     Ok (st', add_attribute resp ''action'' ''prop/remove_user'')))))"

definition remove_prop :: "prop_state \<Rightarrow> message_info \<Rightarrow> u64 \<Rightarrow> prop_result" where
  "remove_prop st info proposal_id =
     and_then (pstd (load_item (pg_config st))) (\<lambda>cfg.
     and_then (pstd (prop_assert_owner cfg (info_sender info))) (\<lambda>_.
     Ok (st\<lparr>pg_props := del proposal_id (pg_props st)\<rparr>, add_attribute new_response ''action'' ''prop/remove_prop'')))"

definition prop_update_config :: "prop_state \<Rightarrow> addr \<Rightarrow> u16 option \<Rightarrow> bool option \<Rightarrow> prop_result" where
  "prop_update_config st sender quorum_bps use_weighted_vote =
     and_then (pstd (load_item (pg_config st))) (\<lambda>cfg.
     and_then (pstd (prop_assert_owner cfg sender)) (\<lambda>_.
     and_then (case quorum_bps of
         Some q \<Rightarrow> and_then (pstd (bps_try_from q)) (\<lambda>_. Ok (cfg\<lparr>pc_quorum_bps := q\<rparr>))
       | None \<Rightarrow> Ok cfg) (\<lambda>cfg1.
     Ok (st\<lparr>pg_config := Some (case use_weighted_vote of Some w \<Rightarrow> cfg1\<lparr>pc_use_weighted_vote := w\<rparr> | None \<Rightarrow> cfg1)\<rparr>,
       add_attribute new_response ''action'' ''prop/update_config''))))"

fun prop_execute :: "prop_deps \<Rightarrow> env \<Rightarrow> prop_state \<Rightarrow> message_info \<Rightarrow> prop_execute_msg \<Rightarrow> prop_result" where
  "prop_execute deps env st info (InitProp i end_time_s) = init_prop deps env st info i end_time_s"
| "prop_execute deps env st info (PropVote i vote) = prop_handle_vote deps env st info i vote"
| "prop_execute deps env st info (PropUpdateVote user li) = prop_update_vote deps env st info user li"
| "prop_execute deps env st info (PropRemoveUser user) = prop_remove_user deps env st info user"
| "prop_execute deps env st info (RemoveProp i) = remove_prop st info i"
| "prop_execute deps env st info (PropUpdateConfig quorum weighted) = prop_update_config st (info_sender info) quorum weighted"
| "prop_execute deps env st info (PropProposeNewOwner new_owner expires_in) =
     and_then (pstd (load_item (pg_config st))) (\<lambda>cfg.
     and_then (pstd (pd_propose_new_owner deps info env new_owner expires_in (pc_owner cfg) (pg_ownership_proposal st)))
       (\<lambda>(proposal, resp). Ok (st\<lparr>pg_ownership_proposal := proposal\<rparr>, resp)))"
| "prop_execute deps env st info PropDropProposal =
     and_then (pstd (load_item (pg_config st))) (\<lambda>cfg.
     and_then (pstd (pd_drop_ownership_proposal deps info (pc_owner cfg) (pg_ownership_proposal st)))
       (\<lambda>(proposal, resp). Ok (st\<lparr>pg_ownership_proposal := proposal\<rparr>, resp)))"
| "prop_execute deps env st info PropClaimOwnership =
     and_then (pstd (pd_claim_ownership deps info env (pg_ownership_proposal st))) (\<lambda>(new_owner, proposal, resp).
     and_then (pstd (load_item (pg_config st))) (\<lambda>cfg.
     Ok (st\<lparr>pg_config := Some (cfg\<lparr>pc_owner := new_owner\<rparr>), pg_ownership_proposal := proposal\<rparr>, resp)))"

definition prop_migrate :: "prop_deps \<Rightarrow> prop_state \<Rightarrow> prop_result" where
  "prop_migrate deps st =
     and_then (pstd (load_item (pg_contract_info st))) (\<lambda>(contract, version).
     let st1 = st\<lparr>pg_contract_info := Some (PROP_CONTRACT_NAME, pd_version deps)\<rparr> in
     if contract \<noteq> PROP_CONTRACT_NAME
     then Err (PropStd (GenericErr (''contract_name does not match: prev: '' @ contract @ '', new: '' @ pd_version deps)))
     else Ok (st1, add_attributes new_response
       [(''previous_contract_name'', contract), (''previous_contract_version'', version),
        (''new_contract_name'', PROP_CONTRACT_NAME), (''new_contract_version'', pd_version deps)]))"

section \<open>Queries (queries.rs)\<close>

definition prop_limit :: "nat option \<Rightarrow> nat" where
  "prop_limit limit = min (unwrap_or limit 10) 30"

definition get_active_props :: "env \<Rightarrow> prop_state \<Rightarrow> u64 option \<Rightarrow> nat option \<Rightarrow> ((u64 \<times> prop_info) list, std_error) result" where
  "get_active_props env st start_after limit =
     and_then (case start_after of
         Some t \<Rightarrow> if t > env_time env then u64_add t 1 else Ok (env_time env)
       | None \<Rightarrow> Ok (env_time env)) (\<lambda>least.
     Ok (take (prop_limit limit) (filter (\<lambda>e. least \<le> pi_end_time_s (snd e)) (props_by_time st))))"

definition get_finished_props :: "env \<Rightarrow> prop_state \<Rightarrow> u64 option \<Rightarrow> nat option \<Rightarrow> (u64 \<times> prop_info) list" where
  "get_finished_props env st start_after limit =
     (let bound = (case start_after of Some t \<Rightarrow> min t (env_time env) | None \<Rightarrow> env_time env) in
      take (prop_limit limit) (rev (filter (\<lambda>e. pi_end_time_s (snd e) < bound) (props_by_time st))))"

definition get_prop_detail ::
    "prop_deps \<Rightarrow> prop_state \<Rightarrow> string option \<Rightarrow> u64 \<Rightarrow> (prop_info \<times> prop_user option, std_error) result" where
  "get_prop_detail deps st user proposal_id =
     and_then (load_item (get (pg_props st) proposal_id)) (\<lambda>prop.
     case user of
       Some u \<Rightarrow> and_then (pd_addr_validate deps u) (\<lambda>a. Ok (prop, get_user_info st proposal_id a))
     | None \<Rightarrow> Ok (prop, None))"

text \<open>The voters of a proposal by falling power; the bound is a pair of power and address.\<close>

definition get_prop_voters :: "prop_state \<Rightarrow> u64 \<Rightarrow> (u128 \<times> string) option \<Rightarrow> nat option \<Rightarrow> (u128 \<times> addr \<times> vote_option) list" where
  "get_prop_voters st proposal_id start_after limit =
     map (\<lambda>e. (fst (fst e), snd (fst e), snd e))
       (take (prop_limit limit)
         (rev (filter (\<lambda>e. case start_after of Some b \<Rightarrow> fst e < b | None \<Rightarrow> True) (prefix_of (pg_voters st) proposal_id))))"

text \<open>The votes of a user by falling proposal id; the exclusive bound is the pair of an id and the text \<open>a\<close>.\<close>

definition get_user_votes ::
    "prop_deps \<Rightarrow> prop_state \<Rightarrow> string \<Rightarrow> u64 option \<Rightarrow> nat option \<Rightarrow> ((u64 \<times> vote_option \<times> u128) list, std_error) result" where
  "get_user_votes deps st user_str start_after limit =
     and_then (pd_addr_validate deps user_str) (\<lambda>user.
     Ok (map (\<lambda>e. (fst (fst e), pu_current_vote (snd e), pu_vp (snd e)))
       (take (prop_limit limit)
         (rev (filter (\<lambda>e. pu_user (snd e) = user \<and> (case start_after of Some b \<Rightarrow> fst e < (b, ''a'') | None \<Rightarrow> True))
           (entries (pg_users st)))))))"

datatype prop_query_msg =
    PropConfig
  | ActiveProps "u64 option" "nat option"
  | FinishedProps "u64 option" "nat option"
  | PropDetail "string option" u64
  | UserVotes string "u64 option" "nat option"
  | PropVoters u64 "(u128 \<times> string) option" "nat option"

datatype prop_answer =
    PropConfigAnswer prop_config
  | PropsAnswer "(u64 \<times> prop_info) list"
  | PropDetailAnswer prop_info "prop_user option"
  | UserVotesAnswer "(u64 \<times> vote_option \<times> u128) list"
  | PropVotersAnswer "(u128 \<times> addr \<times> vote_option) list"

fun prop_query :: "prop_deps \<Rightarrow> env \<Rightarrow> prop_state \<Rightarrow> prop_query_msg \<Rightarrow> (prop_answer, std_error) result" where
  "prop_query deps env st PropConfig = and_then (load_item (pg_config st)) (\<lambda>c. Ok (PropConfigAnswer c))"
| "prop_query deps env st (ActiveProps start_after limit) = and_then (get_active_props env st start_after limit) (\<lambda>r. Ok (PropsAnswer r))"
| "prop_query deps env st (FinishedProps start_after limit) = Ok (PropsAnswer (get_finished_props env st start_after limit))"
| "prop_query deps env st (PropDetail user i) = and_then (get_prop_detail deps st user i) (\<lambda>(p, u). Ok (PropDetailAnswer p u))"
| "prop_query deps env st (UserVotes user start_after limit) =
     and_then (get_user_votes deps st user start_after limit) (\<lambda>r. Ok (UserVotesAnswer r))"
| "prop_query deps env st (PropVoters i start_after limit) = Ok (PropVotersAnswer (get_prop_voters st i start_after limit))"

end
