(* ===== verification/PropFacts.thy ===== *)
theory PropFacts
  imports PropGauge
begin

text \<open>
  Every change of a vote on a proposal is a recast: the old power of a voter is taken out, the new power added, and the vote of the
  hub is brought up to date. The tallies are the sums of the votes, and the hub has voted what the gauge has counted.
\<close>

section \<open>Tallies\<close>

text \<open>What the record of a user counts for an option; what all records of a proposal count for it.\<close>

definition counts :: "vote_option \<Rightarrow> prop_user \<Rightarrow> u128" where
  "counts c u = (if pu_current_vote u = c then pu_vp u else 0)"

definition cast_for :: "(u64 \<times> addr, prop_user) store \<Rightarrow> u64 \<Rightarrow> vote_option \<Rightarrow> u128" where
  "cast_for users i c = sum_list (map (\<lambda>e. if fst (fst e) = i then counts c (snd e) else 0) (entries users))"

definition user_or_new :: "prop_state \<Rightarrow> u64 \<Rightarrow> addr \<Rightarrow> prop_user" where
  "user_or_new st i a = unwrap_or (get_user_info st i a) \<lparr>pu_user = a, pu_current_vote = VoteAbstain, pu_vp = 0\<rparr>"

lemma counts_new: "get (pg_users st) (i, a) = None \<Longrightarrow> counts c (user_or_new st i a) = 0"
  by (simp add: user_or_new_def get_user_info_def counts_def)

lemma tally_set_tally [simp]: "tally c (set_tally d x p) = (if c = d then x else tally c p)"
  by (cases c; cases d) simp_all

lemma set_tally_frame [simp]:
  "pi_period (set_tally c x p) = pi_period p" "pi_end_time_s (set_tally c x p) = pi_end_time_s p"
  "pi_current_vote (set_tally c x p) = pi_current_vote p" "pi_total_vp (set_tally c x p) = pi_total_vp p"
  by (cases c; simp)+

lemma tally_frame [simp]:
  "tally c (p\<lparr>pi_current_vote := v\<rparr>) = tally c p" "tally c (p\<lparr>pi_total_vp := t\<rparr>) = tally c p"
  by (cases c; simp)+

definition same_prop :: "prop_info \<Rightarrow> prop_info \<Rightarrow> bool" where
  "same_prop p q \<longleftrightarrow> pi_period q = pi_period p \<and> pi_end_time_s q = pi_end_time_s p \<and> pi_current_vote q = pi_current_vote p"

lemma remove_vote_tally:
  assumes "remove_vote_of_user p u = Ok q"
  shows "tally c q + counts c u = tally c p" and "same_prop p q"
  using assms by (auto simp: remove_vote_of_user_def and_then_Ok num_Ok counts_def same_prop_def split: if_splits)

lemma apply_vote_tally:
  assumes "apply_vote_of_user env p li vote a = Ok (q, u)"
  shows "tally c q = tally c p + counts c u" and "same_prop p q" and "pu_user u = a"
    and "\<exists>t. get_period (env_time env) = Ok t
      \<and> calc_voting_power_for_prop t li p = (Ok (pu_vp u) :: (u128, std_error) result)"
    and "pu_vp u \<noteq> 0 \<Longrightarrow> pu_current_vote u = vote"
proof -
  from assms obtain t vp where t: "get_period (env_time env) = Ok t"
    and vp: "calc_voting_power_for_prop t li p = (Ok vp :: (u128, std_error) result)"
    and r: "(if vp = 0 then Ok (p, \<lparr>pu_user = a, pu_current_vote = VoteAbstain, pu_vp = vp\<rparr>)
      else and_then (checked_add (tally vote p) vp) (\<lambda>x.
        Ok (set_tally vote x p, \<lparr>pu_user = a, pu_current_vote = vote, pu_vp = vp\<rparr>))) = Ok (q, u)"
    by (auto simp: apply_vote_of_user_def and_then_Ok)
  have "(vp = 0 \<and> q = p \<and> u = \<lparr>pu_user = a, pu_current_vote = VoteAbstain, pu_vp = vp\<rparr>)
    \<or> (vp \<noteq> 0 \<and> q = set_tally vote (tally vote p + vp) p \<and> u = \<lparr>pu_user = a, pu_current_vote = vote, pu_vp = vp\<rparr>)"
    using r by (cases "vp = 0") (auto simp: and_then_Ok num_Ok)
  then show "tally c q = tally c p + counts c u" and "same_prop p q" and "pu_user u = a"
    and "\<exists>t. get_period (env_time env) = Ok t
      \<and> calc_voting_power_for_prop t li p = (Ok (pu_vp u) :: (u128, std_error) result)"
    and "pu_vp u \<noteq> 0 \<Longrightarrow> pu_current_vote u = vote"
    using t vp by (auto simp: counts_def same_prop_def)
qed

section \<open>Recasting a vote\<close>

text \<open>The votes a response sends to the hub, and the last one of a proposal.\<close>

fun vote_of :: "hub_execute_msg sub_msg \<Rightarrow> (u64 \<times> vote_option) list" where
  "vote_of (PlainMsg (WasmExecute hub (Vote i v) funds)) = [(i, v)]"
| "vote_of _ = []"

definition hub_votes :: "prop_response \<Rightarrow> (u64 \<times> vote_option) list" where
  "hub_votes resp = concat (map vote_of (resp_msgs resp))"

definition last_vote :: "(u64 \<times> vote_option) list \<Rightarrow> u64 \<Rightarrow> vote_option option" where
  "last_vote log i = map_of (rev log) i"

lemma last_vote_simps [simp]:
  "last_vote [] i = None"
  "last_vote (log @ [(j, v)]) i = (if i = j then Some v else last_vote log i)"
  by (simp_all add: last_vote_def)

definition msg_votes :: "hub_execute_msg cosmos_msg option \<Rightarrow> (u64 \<times> vote_option) list" where
  "msg_votes msg = (case msg of Some m \<Rightarrow> vote_of (PlainMsg m) | None \<Rightarrow> [])"

lemma hub_votes_simps [simp]:
  "hub_votes new_response = []"
  "hub_votes (add_optional_message resp msg) = hub_votes resp @ msg_votes msg"
  "hub_votes (add_attribute resp k v) = hub_votes resp"
  "hub_votes (add_attributes resp as) = hub_votes resp"
  by (simp_all add: hub_votes_def msg_votes_def add_optional_message_def split: option.split)

definition recast ::
    "prop_deps \<Rightarrow> prop_config \<Rightarrow> u64 \<Rightarrow> addr \<Rightarrow> prop_user option \<Rightarrow> prop_state \<Rightarrow> prop_state \<Rightarrow> hub_execute_msg cosmos_msg option \<Rightarrow> bool" where
  "recast deps cfg i a new st st' msg \<longleftrightarrow> (\<exists>p0 p2 total p3. get (pg_props st) i = Some p0
     \<and> (\<forall>c. tally c p2 + counts c (user_or_new st i a) = tally c p0 + (case new of Some u \<Rightarrow> counts c u | None \<Rightarrow> 0))
     \<and> same_prop p0 p2 \<and> get_vote_msg deps cfg p2 i = Ok (msg, total, p3)
     \<and> (case new of Some u \<Rightarrow> pu_user u = a | None \<Rightarrow> get (pg_users st) (i, a) \<noteq> None)
     \<and> st' = st\<lparr>pg_props := put i (p3\<lparr>pi_total_vp := total\<rparr>) (pg_props st),
         pg_users := (case new of Some u \<Rightarrow> put (i, a) u (pg_users st) | None \<Rightarrow> del (i, a) (pg_users st)),
         pg_voters := (case new of Some u \<Rightarrow> put (i, pu_vp u, a) (pu_current_vote u) (del (i, pu_vp (user_or_new st i a), a) (pg_voters st))
           | None \<Rightarrow> del (i, pu_vp (user_or_new st i a), a) (pg_voters st))\<rparr>)"

lemma update_vote_state_recast:
  assumes "update_vote_state deps env st cfg a i prop_opt vote (user_or_new st i a) li = Ok (st', user, msg)"
    and "\<And>p. prop_opt = Some p \<Longrightarrow> get (pg_props st) i = Some p"
  shows "recast deps cfg i a (Some user) st st' msg"
proof -
  from assms(1) obtain p0 p1 p2 total p3 where
    p0: "(case prop_opt of Some p \<Rightarrow> Ok p | None \<Rightarrow> pstd (map_err (\<lambda>_. GenericErr (''proposal with id '' @ nat_str i @ '' not initialized''))
           (load_item (get (pg_props st) i)))) = Ok p0"
    and p1: "remove_vote_of_user p0 (user_or_new st i a) = Ok p1"
    and p2: "apply_vote_of_user env p1 li vote a = Ok (p2, user)"
    and p3: "get_vote_msg deps cfg p2 i = Ok (msg, total, p3)"
    and st': "st' = st\<lparr>pg_props := put i (p3\<lparr>pi_total_vp := total\<rparr>) (pg_props st), pg_users := put (i, a) user (pg_users st),
            pg_voters := put (i, pu_vp user, a) (pu_current_vote user) (del (i, pu_vp (user_or_new st i a), a) (pg_voters st))\<rparr>"
    by (auto simp: update_vote_state_def and_then_Ok map_err_Ok)
  have "get (pg_props st) i = Some p0" using p0 assms(2) by (auto simp: map_err_Ok load_item_Ok split: option.splits)
  moreover note remove_vote_tally [OF p1] apply_vote_tally [OF p2]
  ultimately show ?thesis
    unfolding recast_def using p3 st'
    by (intro exI [of _ p0] exI [of _ p2] exI [of _ total] exI [of _ p3]) (auto simp: same_prop_def)
qed

inductive recasts ::
    "prop_deps \<Rightarrow> prop_config \<Rightarrow> addr \<Rightarrow> prop_state \<Rightarrow> (u64 \<times> vote_option) list \<Rightarrow> prop_state \<Rightarrow> (u64 \<times> vote_option) list \<Rightarrow> bool"
  for deps cfg a st log where
  recasts_none: "recasts deps cfg a st log st log"
| recasts_next: "recasts deps cfg a st log st1 log1 \<Longrightarrow> recast deps cfg i a new st1 st2 msg \<Longrightarrow>
    recasts deps cfg a st log st2 (log1 @ msg_votes msg)"

lemma recasts_first:
  assumes "recasts deps cfg a st1 log1 st2 log2" and "recast deps cfg i a new st st1 msg" and "log1 = log @ msg_votes msg"
  shows "recasts deps cfg a st log st2 log2"
  using assms
proof (induction rule: recasts.induct)
  case recasts_none
  then show ?case using recasts.recasts_next [OF recasts.recasts_none] by blast
next
  case (recasts_next st1' log1' j new' st2' msg')
  then show ?case by (blast intro: recasts.recasts_next)
qed

lemma recast_props: "recast deps cfg i a new st st' msg \<Longrightarrow> j \<noteq> i \<Longrightarrow> get (pg_props st') j = get (pg_props st) j"
  by (auto simp: recast_def store_simps)

lemma recast_config: "recast deps cfg i a new st st' msg \<Longrightarrow> pg_config st' = pg_config st"
  by (auto simp: recast_def)

lemma recasts_config: "recasts deps cfg a st log st' log' \<Longrightarrow> pg_config st' = pg_config st"
  by (induction rule: recasts.induct) (auto dest: recast_config)

text \<open>A loop over proposals, each as it was at the start, whose steps recast one vote or do nothing.\<close>

lemma loop_recasts:
  assumes "try_fold step (st, resp) es = Ok (st', resp')"
    and "\<And>st resp i p st' resp'. step (st, resp) (i, p) = Ok (st', resp') \<Longrightarrow> get (pg_props st) i = Some p \<Longrightarrow>
      st' = st \<and> resp' = resp \<or> (\<exists>new msg. recast deps cfg i a new st st' msg \<and> hub_votes resp' = hub_votes resp @ msg_votes msg)"
    and "\<And>e. e \<in> set es \<Longrightarrow> get (pg_props st) (fst e) = Some (snd e)" and "distinct (map fst es)"
  shows "recasts deps cfg a st (hub_votes resp) st' (hub_votes resp')"
  using assms(1,3,4)
proof (induction es arbitrary: st resp)
  case Nil
  then show ?case by (auto intro: recasts_none)
next
  case (Cons e es)
  obtain i p where e: "e = (i, p)" by (cases e)
  from Cons.prems(1) obtain st1 resp1 where s: "step (st, resp) (i, p) = Ok (st1, resp1)"
    and rest: "try_fold step (st1, resp1) es = Ok (st', resp')"
    by (auto simp: and_then_Ok e)
  have i: "get (pg_props st) i = Some p" using Cons.prems(2) [of e] by (simp add: e)
  from assms(2) [OF s i] show ?case
  proof (elim disjE exE conjE)
    assume "st1 = st" "resp1 = resp"
    then show ?thesis using Cons.IH [OF rest] Cons.prems(2,3) by simp
  next
    fix new msg assume r: "recast deps cfg i a new st st1 msg" and h: "hub_votes resp1 = hub_votes resp @ msg_votes msg"
    have "get (pg_props st1) (fst d) = Some (snd d)" if "d \<in> set es" for d
    proof -
      have "fst d \<noteq> i" using Cons.prems(3) that by (force simp: e)
      then show ?thesis using recast_props [OF r] Cons.prems(2) [of d] that by simp
    qed
    then have "recasts deps cfg a st1 (hub_votes resp1) st' (hub_votes resp')" using Cons.IH [OF rest] Cons.prems(3) by simp
    from recasts_first [OF this r h] show ?thesis .
  qed
qed

lemma active_props:
  assumes "wf_store (pg_props st)"
  shows "e \<in> set (all_active_props st env) \<longleftrightarrow> get (pg_props st) (fst e) = Some (snd e) \<and> env_time env \<le> pi_end_time_s (snd e)"
    and "distinct (map fst (all_active_props st env))"
proof -
  show "e \<in> set (all_active_props st env) \<longleftrightarrow> get (pg_props st) (fst e) = Some (snd e) \<and> env_time env \<le> pi_end_time_s (snd e)"
    using om.in_entries [OF assms, of "fst e" "snd e"] by (auto simp: all_active_props_def props_by_time_def)
  have "mset (map fst (props_by_time st)) = mset (map fst (entries (pg_props st)))"
    by (simp add: props_by_time_def)
  then have "distinct (map fst (props_by_time st))"
    using om.keys_distinct [OF assms] by (metis mset_eq_imp_distinct_iff)
  then show "distinct (map fst (all_active_props st env))" unfolding all_active_props_def by (rule distinct_map_filter)
qed

end
