(* ===== verification/PropReach.thy ===== *)
theory PropReach
  imports PropFacts
begin

text \<open>The states the proposal gauge can reach, with the log of the votes sent to the hub, and what holds in all of them.\<close>

section \<open>The invariants\<close>

text \<open>The stores are sorted, and the list of voters mirrors the records of the users.\<close>

definition voters_ok :: "prop_state \<Rightarrow> bool" where
  "voters_ok st \<longleftrightarrow> wf_store (pg_props st) \<and> wf_store (pg_users st) \<and> wf_store (pg_voters st)
     \<and> (\<forall>i a u. get (pg_users st) (i, a) = Some u \<longrightarrow> pu_user u = a)
     \<and> (\<forall>i x a c. get (pg_voters st) (i, x, a) = Some c \<longleftrightarrow>
         (\<exists>u. get (pg_users st) (i, a) = Some u \<and> pu_vp u = x \<and> pu_current_vote u = c))"

text \<open>The tallies of a proposal are the sums of the votes cast for it, and votes are cast for existing proposals only.\<close>

definition tallies_ok :: "prop_state \<Rightarrow> bool" where
  "tallies_ok st \<longleftrightarrow> (\<forall>i p c. get (pg_props st) i = Some p \<longrightarrow> tally c p = cast_for (pg_users st) i c)
     \<and> (\<forall>i a. get (pg_users st) (i, a) \<noteq> None \<longrightarrow> get (pg_props st) i \<noteq> None)"

text \<open>What a proposal stands for is what the hub voted last; standing for nothing, the hub has not voted or has abstained.\<close>

definition stands_for :: "vote_option option \<Rightarrow> vote_option option \<Rightarrow> bool" where
  "stands_for current sent \<longleftrightarrow> (case current of Some v \<Rightarrow> sent = Some v | None \<Rightarrow> sent \<in> {None, Some VoteAbstain})"

definition sent_ok :: "prop_state \<Rightarrow> (u64 \<times> vote_option) list \<Rightarrow> bool" where
  "sent_ok st log \<longleftrightarrow> (\<forall>i. case get (pg_props st) i of
     Some p \<Rightarrow> stands_for (pi_current_vote p) (last_vote log i) | None \<Rightarrow> last_vote log i = None)"

section \<open>Recasting keeps them\<close>

lemma cast_for_put:
  assumes "wf_store users"
  shows "cast_for (put (i, a) u users) j c + (if j = i then (case get users (i, a) of Some u0 \<Rightarrow> counts c u0 | None \<Rightarrow> 0) else 0)
    = cast_for users j c + (if j = i then counts c u else 0)"
  using om.total_put [OF assms, of "\<lambda>e. if fst (fst e) = j then counts c (snd e) else 0" "(i, a)" u]
  by (auto simp: cast_for_def split: option.splits if_splits)

lemma cast_for_del:
  assumes "wf_store users"
  shows "cast_for (del (i, a) users) j c + (if j = i then (case get users (i, a) of Some u0 \<Rightarrow> counts c u0 | None \<Rightarrow> 0) else 0)
    = cast_for users j c"
  using om.total_del [OF assms, of "\<lambda>e. if fst (fst e) = j then counts c (snd e) else 0" "(i, a)"]
  by (auto simp: cast_for_def split: option.splits if_splits)

lemma counts_old: "counts c (user_or_new st i a) = (case get (pg_users st) (i, a) of Some u \<Rightarrow> counts c u | None \<Rightarrow> 0)"
  by (auto simp: user_or_new_def get_user_info_def counts_def split: option.split)

lemma get_vote_msg_frame:
  assumes "get_vote_msg deps cfg p i = Ok (msg, tot, q)"
  shows "\<exists>v. q = p\<lparr>pi_current_vote := v\<rparr>"
  using assms by (auto simp: get_vote_msg_def and_then_Ok map_err_Ok split: if_splits)

lemma recastE:
  assumes "recast deps cfg i a new st st' msg"
  obtains p0 p2 tot p3 where "get (pg_props st) i = Some p0"
    "\<And>c. tally c p2 + counts c (user_or_new st i a) = tally c p0 + (case new of Some u \<Rightarrow> counts c u | None \<Rightarrow> 0)"
    "same_prop p0 p2" "get_vote_msg deps cfg p2 i = Ok (msg, tot, p3)"
    "pg_props st' = put i (p3\<lparr>pi_total_vp := tot\<rparr>) (pg_props st)"
    "pg_users st' = (case new of Some u \<Rightarrow> put (i, a) u (pg_users st) | None \<Rightarrow> del (i, a) (pg_users st))"
  using assms unfolding recast_def by (elim exE conjE) (rule that, simp_all)

lemma recast_voters:
  assumes r: "recast deps cfg i a new st st' msg" and ok: "voters_ok st"
  shows "voters_ok st'"
proof -
  let ?u0 = "user_or_new st i a"
  from r have users: "pg_users st' = (case new of Some u \<Rightarrow> put (i, a) u (pg_users st) | None \<Rightarrow> del (i, a) (pg_users st))"
    and voters: "pg_voters st' = (case new of Some u \<Rightarrow> put (i, pu_vp u, a) (pu_current_vote u) (del (i, pu_vp ?u0, a) (pg_voters st))
           | None \<Rightarrow> del (i, pu_vp ?u0, a) (pg_voters st))"
    and new: "case new of Some u \<Rightarrow> pu_user u = a | None \<Rightarrow> get (pg_users st) (i, a) \<noteq> None"
    and props: "wf_store (pg_props st')"
    using ok by (auto simp: recast_def voters_ok_def)
  have old: "get (pg_voters st) (i, x, a) = Some c \<Longrightarrow> x = pu_vp ?u0" for x c
    using ok by (auto simp: voters_ok_def user_or_new_def get_user_info_def)
  have wf: "wf_store (pg_users st')" "wf_store (pg_voters st')" using ok by (auto simp: users voters voters_ok_def split: option.split)
  have names: "get (pg_users st') (j, b) = Some u \<Longrightarrow> pu_user u = b" for j b u
    using ok new by (auto simp: users voters_ok_def store_simps split: option.splits if_splits)
  have mirror: "get (pg_voters st') (j, x, b) = Some c \<longleftrightarrow>
      (\<exists>u. get (pg_users st') (j, b) = Some u \<and> pu_vp u = x \<and> pu_current_vote u = c)" for j x b c
  proof (cases "j = i \<and> b = a")
    case True
    then show ?thesis using old by (cases new) (auto simp: users voters store_simps)
  next
    case False
    then have "get (pg_voters st') (j, x, b) = get (pg_voters st) (j, x, b)" "get (pg_users st') (j, b) = get (pg_users st) (j, b)"
      by (auto simp: users voters store_simps split: option.split)
    with ok show ?thesis by (simp add: voters_ok_def)
  qed
  from props wf names mirror show ?thesis unfolding voters_ok_def by blast
qed

lemma recast_tallies:
  assumes r: "recast deps cfg i a new st st' msg" and v: "voters_ok st" and ok: "tallies_ok st"
  shows "tallies_ok st'"
proof -
  let ?add = "\<lambda>c. case new of Some u \<Rightarrow> counts c u | None \<Rightarrow> 0"
  from r obtain p0 p2 tot p3 where p0: "get (pg_props st) i = Some p0"
    and t: "\<And>c. tally c p2 + counts c (user_or_new st i a) = tally c p0 + ?add c"
    and m: "get_vote_msg deps cfg p2 i = Ok (msg, tot, p3)"
    and props: "pg_props st' = put i (p3\<lparr>pi_total_vp := tot\<rparr>) (pg_props st)"
    and users: "pg_users st' = (case new of Some u \<Rightarrow> put (i, a) u (pg_users st) | None \<Rightarrow> del (i, a) (pg_users st))"
    by (rule recastE) (rule that; simp)
  have wf: "wf_store (pg_users st)" using v by (simp add: voters_ok_def)
  have sums: "cast_for (pg_users st') j c + (if j = i then counts c (user_or_new st i a) else 0)
      = cast_for (pg_users st) j c + (if j = i then ?add c else 0)" for j c
    using cast_for_put [OF wf, of i a _ j c] cast_for_del [OF wf, of i a j c]
    by (cases new) (auto simp: users counts_old)
  obtain w where p3: "p3 = p2\<lparr>pi_current_vote := w\<rparr>" using get_vote_msg_frame [OF m] by blast
  have "tally c p = cast_for (pg_users st') j c" if "get (pg_props st') j = Some p" for j p c
  proof (cases "j = i")
    case True
    then have "p = p3\<lparr>pi_total_vp := tot\<rparr>" using that by (simp add: props store_simps)
    then have "tally c p = tally c p2" by (simp add: p3)
    moreover have "tally c p0 = cast_for (pg_users st) i c" using ok p0 by (simp add: tallies_ok_def)
    ultimately show ?thesis using t [of c] sums [of i c] True by simp
  next
    case False
    then show ?thesis using that ok sums [of j c] by (simp add: props tallies_ok_def store_simps)
  qed
  moreover have "get (pg_props st') j \<noteq> None" if "get (pg_users st') (j, b) \<noteq> None" for j b
  proof (cases "j = i")
    case False
    then have "get (pg_users st) (j, b) \<noteq> None" using that by (auto simp: users store_simps split: option.splits if_splits)
    with ok have "get (pg_props st) j \<noteq> None" unfolding tallies_ok_def by blast
    with False show ?thesis by (simp add: props store_simps)
  qed (simp add: props store_simps)
  ultimately show ?thesis unfolding tallies_ok_def by blast
qed

text \<open>Without weighted votes, the message keeps what the proposal stands for in step with what the hub voted.\<close>

lemma get_vote_msg_plain:
  assumes "get_vote_msg deps cfg p i = Ok (msg, tot, q)" and "\<not> pc_use_weighted_vote cfg"
  obtains wanted where "pd_total_vamp deps (pc_escrow_addr cfg) (pi_period p) = Ok tot"
    "get_wanted_vote p tot (pc_quorum_bps cfg) = Ok wanted"
    "msg = fst (wanted_msg (pc_hub_addr cfg) i (pi_current_vote p) wanted)"
    "pi_current_vote q = snd (wanted_msg (pc_hub_addr cfg) i (pi_current_vote p) wanted)"
  using assms by (auto simp: get_vote_msg_def and_then_Ok map_err_Ok)

lemma msg_votes_simps [simp]:
  "msg_votes None = []" "msg_votes (Some (vote_msg hub i v)) = [(i, v)]"
  by (simp_all add: msg_votes_def vote_msg_def)

lemma wanted_msg_stands:
  assumes "stands_for current (last_vote log i)"
  shows "stands_for (snd (wanted_msg hub i current wanted)) (last_vote (log @ msg_votes (fst (wanted_msg hub i current wanted))) i)"
    and "j \<noteq> i \<Longrightarrow> last_vote (log @ msg_votes (fst (wanted_msg hub i current wanted))) j = last_vote log j"
  using assms by (cases wanted; cases current; auto simp: wanted_msg_def stands_for_def)+

lemma get_vote_msg_stands:
  assumes "get_vote_msg deps cfg p i = Ok (msg, tot, q)" and "\<not> pc_use_weighted_vote cfg"
    and "stands_for (pi_current_vote p) (last_vote log i)"
  shows "stands_for (pi_current_vote q) (last_vote (log @ msg_votes msg) i)"
    and "j \<noteq> i \<Longrightarrow> last_vote (log @ msg_votes msg) j = last_vote log j"
  using get_vote_msg_plain [OF assms(1,2)] wanted_msg_stands [OF assms(3)] by metis+

lemma recast_sent:
  assumes r: "recast deps cfg i a new st st' msg" and "\<not> pc_use_weighted_vote cfg" and ok: "sent_ok st log"
  shows "sent_ok st' (log @ msg_votes msg)"
proof -
  from r obtain p0 p2 tot p3 where p0: "get (pg_props st) i = Some p0" and same: "same_prop p0 p2"
    and m: "get_vote_msg deps cfg p2 i = Ok (msg, tot, p3)"
    and props: "pg_props st' = put i (p3\<lparr>pi_total_vp := tot\<rparr>) (pg_props st)"
    by (rule recastE) (rule that; simp)
  have "stands_for (pi_current_vote p2) (last_vote log i)"
    using ok [unfolded sent_ok_def, rule_format, of i] p0 same by (simp add: same_prop_def)
  note s = get_vote_msg_stands [OF m assms(2) this]
  show ?thesis unfolding sent_ok_def
  proof
    fix j
    show "case get (pg_props st') j of Some p \<Rightarrow> stands_for (pi_current_vote p) (last_vote (log @ msg_votes msg) j)
      | None \<Rightarrow> last_vote (log @ msg_votes msg) j = None"
    proof (cases "j = i")
      case True
      then show ?thesis using s(1) by (simp add: props store_simps)
    next
      case False
      then show ?thesis using s(2) [OF False] ok [unfolded sent_ok_def, rule_format, of j]
        by (simp add: props store_simps split: option.split option.split_asm)
    qed
  qed
qed

lemma recasts_keep:
  assumes "recasts deps cfg a st log st' log'" and "voters_ok st"
  shows "voters_ok st'" and "tallies_ok st \<Longrightarrow> tallies_ok st'"
    and "\<not> pc_use_weighted_vote cfg \<Longrightarrow> sent_ok st log \<Longrightarrow> sent_ok st' log'"
proof -
  have "voters_ok st' \<and> (tallies_ok st \<longrightarrow> tallies_ok st') \<and> (\<not> pc_use_weighted_vote cfg \<longrightarrow> sent_ok st log \<longrightarrow> sent_ok st' log')"
    using assms
  proof (induction rule: recasts.induct)
    case recasts_none
    then show ?case by simp
  next
    case (recasts_next st1 log1 i new st2 msg)
    then show ?case
      using recast_voters [OF recasts_next.hyps(2)] recast_tallies [OF recasts_next.hyps(2)] recast_sent [OF recasts_next.hyps(2)] by blast
  qed
  then show "voters_ok st'" "tallies_ok st \<Longrightarrow> tallies_ok st'"
    "\<not> pc_use_weighted_vote cfg \<Longrightarrow> sent_ok st log \<Longrightarrow> sent_ok st' log'" by blast+
qed

section \<open>The handlers\<close>

lemma handle_vote_recast:
  assumes "prop_handle_vote deps env st info i vote = Ok (st', resp)"
  obtains cfg li user msg where "pg_config st = Some cfg" "pd_lock_info deps (pc_escrow_addr cfg) (info_sender info) = Ok li"
    "li_voting_power li + li_fixed_amount li \<noteq> 0"
    "update_vote_state deps env st cfg (info_sender info) i None vote (user_or_new st i (info_sender info)) li = Ok (st', user, msg)"
    "recast deps cfg i (info_sender info) (Some user) st st' msg" "hub_votes resp = msg_votes msg"
    "resp_msgs resp = resp_msgs (add_optional_message new_response msg)"
proof -
  from assms obtain cfg li user msg where f: "pg_config st = Some cfg"
      "pd_lock_info deps (pc_escrow_addr cfg) (info_sender info) = Ok li"
      "li_voting_power li + li_fixed_amount li \<noteq> 0"
    and u: "update_vote_state deps env st cfg (info_sender info) i None vote (user_or_new st i (info_sender info)) li = Ok (st', user, msg)"
    and resp: "resp = add_attributes (add_optional_message new_response msg) [(''action'', ''prop/vote''), (''vp'', nat_str (pu_vp user))]"
    by (auto simp: prop_handle_vote_def and_then_Ok map_err_Ok load_item_Ok guard_Ok Let_def num_Ok user_or_new_def)
  have "recast deps cfg i (info_sender info) (Some user) st st' msg" by (rule update_vote_state_recast [OF u]) simp
  with f u show thesis by (rule that) (simp_all add: resp)
qed

lemma update_one_recast:
  assumes "update_one deps env cfg a li (st, resp) (i, p) = Ok (st', resp')" and "get (pg_props st) i = Some p"
  shows "st' = st \<and> resp' = resp \<or> (\<exists>new msg. recast deps cfg i a new st st' msg \<and> hub_votes resp' = hub_votes resp @ msg_votes msg)"
proof (cases "get_user_info st i a")
  case None
  with assms(1) show ?thesis by (simp add: update_one_def)
next
  case (Some u)
  then have uo: "user_or_new st i a = u" by (simp add: user_or_new_def)
  from Some assms(1) obtain user msg where
    x: "update_vote_state deps env st cfg a i (Some p) (pu_current_vote u) (user_or_new st i a) li = Ok (st', user, msg)"
    and r: "resp' = add_attribute (add_optional_message resp msg) ''prop'' (nat_str i)"
    by (auto simp: update_one_def and_then_Ok uo)
  have "recast deps cfg i a (Some user) st st' msg" by (rule update_vote_state_recast [OF x]) (use assms(2) in simp)
  moreover have "hub_votes resp' = hub_votes resp @ msg_votes msg" by (simp add: r)
  ultimately show ?thesis by blast
qed

lemma remove_one_recast:
  assumes "remove_one deps cfg a (st, resp) (i, p) = Ok (st', resp')" and "get (pg_props st) i = Some p"
  shows "st' = st \<and> resp' = resp \<or> (\<exists>new msg. recast deps cfg i a new st st' msg \<and> hub_votes resp' = hub_votes resp @ msg_votes msg)"
proof (cases "get_user_info st i a")
  case None
  with assms(1) show ?thesis by (simp add: remove_one_def)
next
  case (Some u)
  then have uo: "user_or_new st i a = u" and ne: "get (pg_users st) (i, a) \<noteq> None" by (simp_all add: user_or_new_def get_user_info_def)
  from Some assms(1) obtain p1 tot p2 msg where p1: "remove_vote_of_user p u = Ok p1"
    and m: "get_vote_msg deps cfg p1 i = Ok (msg, tot, p2)"
    and st': "st' = st\<lparr>pg_props := put i (p2\<lparr>pi_total_vp := tot\<rparr>) (pg_props st), pg_users := del (i, a) (pg_users st),
                 pg_voters := del (i, pu_vp u, a) (pg_voters st)\<rparr>"
    and r: "resp' = add_attribute (add_optional_message resp msg) ''removed-id'' (nat_str i)"
    by (auto simp: remove_one_def and_then_Ok map_err_Ok)
  have "recast deps cfg i a None st st' msg"
    unfolding recast_def uo using assms(2) remove_vote_tally [OF p1] m ne st'
    by (intro exI [of _ p] exI [of _ p1] exI [of _ tot] exI [of _ p2]) auto
  moreover have "hub_votes resp' = hub_votes resp @ msg_votes msg" by (simp add: r)
  ultimately show ?thesis by blast
qed

lemma update_vote_recasts:
  assumes "prop_update_vote deps env st info u li = Ok (st', resp)" and "wf_store (pg_props st)"
  obtains cfg a where "pg_config st = Some cfg" "info_sender info = pc_escrow_addr cfg" "pd_addr_validate deps u = Ok a"
    "recasts deps cfg a st [] st' (hub_votes resp)"
proof -
  from assms(1) obtain a cfg resp1 where f: "pg_config st = Some cfg" "info_sender info = pc_escrow_addr cfg" "pd_addr_validate deps u = Ok a"
    and l: "try_fold (update_one deps env cfg a li) (st, new_response) (all_active_props st env) = Ok (st', resp1)"
    and r: "resp = add_attribute resp1 ''action'' ''prop/update_vote''"
    by (auto simp: prop_update_vote_def and_then_Ok map_err_Ok load_item_Ok guard_Ok)
  have "recasts deps cfg a st (hub_votes new_response) st' (hub_votes resp1)"
    by (rule loop_recasts [OF l update_one_recast]) (use active_props [OF assms(2)] in auto)
  with f show thesis by (intro that) (simp_all add: r)
qed

lemma remove_user_recasts:
  assumes "prop_remove_user deps env st info u = Ok (st', resp)" and "wf_store (pg_props st)"
  obtains cfg a where "pg_config st = Some cfg" "info_sender info = pc_owner cfg" "pd_addr_validate_to_lower deps u = Ok a"
    "recasts deps cfg a st [] st' (hub_votes resp)"
proof -
  from assms(1) obtain a cfg resp1 where f: "pg_config st = Some cfg" "info_sender info = pc_owner cfg" "pd_addr_validate_to_lower deps u = Ok a"
    and l: "try_fold (remove_one deps cfg a) (st, new_response) (all_active_props st env) = Ok (st', resp1)"
    and r: "resp = add_attribute resp1 ''action'' ''prop/remove_user''"
    by (auto simp: prop_remove_user_def and_then_Ok map_err_Ok load_item_Ok guard_Ok prop_assert_owner_def)
  have "recasts deps cfg a st (hub_votes new_response) st' (hub_votes resp1)"
    by (rule loop_recasts [OF l remove_one_recast]) (use active_props [OF assms(2)] in auto)
  with f show thesis by (intro that) (simp_all add: r)
qed

section \<open>Reachable states\<close>

text \<open>The ownership functions of \<open>astroport::common\<close> answer with attributes only.\<close>

definition ownership_sends_nothing :: "prop_deps \<Rightarrow> bool" where
  "ownership_sends_nothing deps \<longleftrightarrow>
     (\<forall>info env a e owner p q resp. pd_propose_new_owner deps info env a e owner p = Ok (q, resp) \<longrightarrow> resp_msgs resp = [])
     \<and> (\<forall>info owner p q resp. pd_drop_ownership_proposal deps info owner p = Ok (q, resp) \<longrightarrow> resp_msgs resp = [])
     \<and> (\<forall>info env p owner q resp. pd_claim_ownership deps info env p = Ok (owner, q, resp) \<longrightarrow> resp_msgs resp = [])"

fun removes_a_prop :: "prop_execute_msg \<Rightarrow> bool" where
  "removes_a_prop (RemoveProp i) = True"
| "removes_a_prop _ = False"

definition weighted_mode :: "prop_state \<Rightarrow> bool" where
  "weighted_mode st = (case pg_config st of Some cfg \<Rightarrow> pc_use_weighted_vote cfg | None \<Rightarrow> False)"

text \<open>
  A history of messages: the first flag says that no proposal was removed, the second that weighted votes were never switched on; the
  log holds the votes sent to the hub.
\<close>

inductive prop_reachable :: "bool \<Rightarrow> bool \<Rightarrow> prop_state \<Rightarrow> (u64 \<times> vote_option) list \<Rightarrow> bool" where
  prop_start: "prop_instantiate deps msg empty_props = Ok (st, resp) \<Longrightarrow> prop_reachable True (\<not> weighted_mode st) st []"
| prop_message: "prop_reachable kept plain st log \<Longrightarrow> prop_execute deps env st info msg = Ok (st', resp) \<Longrightarrow>
    ownership_sends_nothing deps \<Longrightarrow>
    prop_reachable (kept \<and> \<not> removes_a_prop msg) (plain \<and> \<not> weighted_mode st') st' (log @ hub_votes resp)"
| prop_migration: "prop_reachable kept plain st log \<Longrightarrow> prop_migrate deps st = Ok (st', resp) \<Longrightarrow> prop_reachable kept plain st' log"

definition prop_inv :: "bool \<Rightarrow> bool \<Rightarrow> prop_state \<Rightarrow> (u64 \<times> vote_option) list \<Rightarrow> bool" where
  "prop_inv kept plain st log \<longleftrightarrow> voters_ok st \<and> (kept \<longrightarrow> tallies_ok st) \<and> (plain \<longrightarrow> \<not> weighted_mode st)
     \<and> (kept \<and> plain \<longrightarrow> sent_ok st log)"

lemma recasts_inv:
  assumes "recasts deps cfg a st [] st' votes" and "pg_config st = Some cfg" and "prop_inv kept plain st log"
  shows "prop_inv kept plain st' (log @ votes)"
proof -
  have shift: "recasts deps cfg a st log st' (log @ votes)" using assms(1)
  proof (induction rule: recasts.induct)
    case recasts_none
    then show ?case using recasts.recasts_none by simp
  next
    case (recasts_next st1 log1 i new st2 msg)
    then show ?case using recasts.recasts_next by (simp flip: append_assoc)
  qed
  have "weighted_mode st' = weighted_mode st" using recasts_config [OF assms(1)] by (simp add: weighted_mode_def)
  then show ?thesis using recasts_keep [OF shift] assms(2,3) by (auto simp: prop_inv_def weighted_mode_def)
qed

lemma sums_of_unused: "wf_store users \<Longrightarrow> (\<And>a. get users (i, a) = None) \<Longrightarrow> cast_for users i c = 0"
  using om.in_entries [of users] by (fastforce simp: cast_for_def)

lemma init_prop_inv:
  assumes "init_prop deps env st info i e = Ok (st', resp)" and "prop_inv kept plain st log"
  shows "prop_inv kept plain st' (log @ hub_votes resp)"
proof -
  from assms(1) obtain period tot where none: "get (pg_props st) i = None"
    and st': "st' = st\<lparr>pg_props := put i \<lparr>pi_period = period, pi_end_time_s = e, pi_yes_vp = 0, pi_no_vp = 0, pi_abstain_vp = 0,
        pi_nwv_vp = 0, pi_total_vp = tot, pi_current_vote = None\<rparr> (pg_props st)\<rparr>" and v: "hub_votes resp = []"
    by (auto simp: init_prop_def and_then_Ok map_err_Ok guard_Ok)
  have "tallies_ok st'" if ok: "tallies_ok st" and vo: "voters_ok st"
  proof -
    have "get (pg_users st) (i, a) = None" for a using ok none unfolding tallies_ok_def by blast
    then have "cast_for (pg_users st) i c = 0" for c using sums_of_unused vo by (simp add: voters_ok_def)
    moreover have "tally c \<lparr>pi_period = period, pi_end_time_s = e, pi_yes_vp = 0, pi_no_vp = 0, pi_abstain_vp = 0,
        pi_nwv_vp = 0, pi_total_vp = tot, pi_current_vote = None\<rparr> = 0" for c by (cases c) simp_all
    ultimately show ?thesis using ok by (auto simp: tallies_ok_def st' store_simps)
  qed
  moreover have "sent_ok st' log" if "sent_ok st log"
    unfolding sent_ok_def
  proof
    fix j
    show "case get (pg_props st') j of Some p \<Rightarrow> stands_for (pi_current_vote p) (last_vote log j) | None \<Rightarrow> last_vote log j = None"
      using that [unfolded sent_ok_def, rule_format, of j] none by (cases "j = i") (simp_all add: st' store_simps stands_for_def)
  qed
  ultimately show ?thesis using assms(2) v by (auto simp: prop_inv_def voters_ok_def weighted_mode_def st')
qed

lemma prop_execute_inv:
  assumes x: "prop_execute deps env st info msg = Ok (st', resp)" and q: "ownership_sends_nothing deps"
    and inv: "prop_inv kept plain st log"
  shows "prop_inv (kept \<and> \<not> removes_a_prop msg) (plain \<and> \<not> weighted_mode st') st' (log @ hub_votes resp)"
proof -
  have wf: "wf_store (pg_props st)" using inv by (simp add: prop_inv_def voters_ok_def)
  have weaker: "prop_inv kept plain st' (log @ hub_votes resp) \<Longrightarrow> ?thesis" by (auto simp: prop_inv_def)
  have same: "prop_inv (kept \<and> \<not> removes_a_prop msg) (plain \<and> \<not> weighted_mode st') st' (log @ hub_votes resp)"
    if "pg_props st' = pg_props st" "pg_users st' = pg_users st" "pg_voters st' = pg_voters st" "hub_votes resp = []"
    using inv that by (auto simp: prop_inv_def voters_ok_def tallies_ok_def sent_ok_def)
  show ?thesis
  proof (cases msg)
    case (InitProp i e)
    with x have "init_prop deps env st info i e = Ok (st', resp)" by simp
    from weaker [OF init_prop_inv [OF this inv]] show ?thesis .
  next
    case (PropVote i vote)
    with x have "prop_handle_vote deps env st info i vote = Ok (st', resp)" by simp
    then show ?thesis
    proof (cases rule: handle_vote_recast)
      case (1 cfg li user m)
      have "recasts deps cfg (info_sender info) st [] st' (hub_votes resp)"
        using recasts_next [OF recasts_none 1(5), of "[]"] 1(6) by simp
      from weaker [OF recasts_inv [OF this 1(1) inv]] show ?thesis .
    qed
  next
    case (PropUpdateVote u li)
    with x have "prop_update_vote deps env st info u li = Ok (st', resp)" by simp
    then obtain cfg a where "pg_config st = Some cfg" "recasts deps cfg a st [] st' (hub_votes resp)"
      by (rule update_vote_recasts [OF _ wf])
    from weaker [OF recasts_inv [OF this(2,1) inv]] show ?thesis .
  next
    case (PropRemoveUser u)
    with x have "prop_remove_user deps env st info u = Ok (st', resp)" by simp
    then obtain cfg a where "pg_config st = Some cfg" "recasts deps cfg a st [] st' (hub_votes resp)"
      by (rule remove_user_recasts [OF _ wf])
    from weaker [OF recasts_inv [OF this(2,1) inv]] show ?thesis .
  next
    case (RemoveProp i)
    with x have "st' = st\<lparr>pg_props := del i (pg_props st)\<rparr>" "hub_votes resp = []"
      by (auto simp: remove_prop_def and_then_Ok map_err_Ok)
    then show ?thesis using inv RemoveProp by (auto simp: prop_inv_def voters_ok_def)
  next
    case (PropUpdateConfig qb w)
    with x show ?thesis by (intro same) (auto simp: prop_update_config_def and_then_Ok map_err_Ok)
  next
    case (PropProposeNewOwner a e)
    with x q show ?thesis
      by (intro same) (auto simp: and_then_Ok map_err_Ok ownership_sends_nothing_def hub_votes_def)
  next
    case PropDropProposal
    with x q show ?thesis
      by (intro same) (auto simp: and_then_Ok map_err_Ok ownership_sends_nothing_def hub_votes_def)
  next
    case PropClaimOwnership
    with x q show ?thesis
      by (intro same) (auto simp: and_then_Ok map_err_Ok ownership_sends_nothing_def hub_votes_def)
  qed
qed

lemma prop_reachable_inv: "prop_reachable kept plain st log \<Longrightarrow> prop_inv kept plain st log"
proof (induction rule: prop_reachable.induct)
  case (prop_start deps msg st resp)
  then have "pg_props st = []" "pg_users st = []" "pg_voters st = []"
    by (auto simp: prop_instantiate_def and_then_Ok empty_props_def)
  then show ?case by (simp add: prop_inv_def voters_ok_def tallies_ok_def sent_ok_def store_simps)
next
  case (prop_message kept plain st log deps env info msg st' resp)
  from prop_execute_inv [OF prop_message.hyps(2,3) prop_message.IH] show ?case .
next
  case (prop_migration kept plain st log deps st' resp)
  then have "pg_props st' = pg_props st" "pg_users st' = pg_users st" "pg_voters st' = pg_voters st" "pg_config st' = pg_config st"
    by (auto simp: prop_migrate_def and_then_Ok Let_def guard_Ok)
  with prop_migration.IH show ?case
    by (simp add: prop_inv_def voters_ok_def tallies_ok_def sent_ok_def weighted_mode_def)
qed

end
