(* ===== verification/PropSample.thy ===== *)
theory PropSample
  imports PropReach EscrowSample
begin

text \<open>A concrete run of the proposal gauge over the escrow of alice and bob.\<close>

text \<open>Every address is valid, the escrow answers from its state in the given week.\<close>

definition prop_sample_deps :: "escrow_state \<Rightarrow> u64 \<Rightarrow> prop_deps" where
  "prop_sample_deps es w = \<lparr>pd_addr_validate = (\<lambda>a. Ok a), pd_addr_validate_to_lower = (\<lambda>a. Ok a),
     pd_lock_info = (\<lambda>c a. if c = ''escrow''
       then map_err (\<lambda>_. GenericErr ''Querier contract error'') (get_user_lock_info ve_deps (at_week w) es a)
       else Err (GenericErr ''Querier system error'')),
     pd_total_vamp = (\<lambda>c period. if c = ''escrow'' then get_total_vamp_at_period (at_week w) es period
       else Err (GenericErr ''Querier system error'')),
     pd_propose_new_owner = (\<lambda>info env new_owner expires owner p.
       if info_sender info = owner then Ok (Some new_owner, new_response) else Err (GenericErr ''Unauthorized'')),
     pd_drop_ownership_proposal = (\<lambda>info owner p.
       if info_sender info = owner then Ok (None, new_response) else Err (GenericErr ''Unauthorized'')),
     pd_claim_ownership = (\<lambda>info env p. case p of
         Some a \<Rightarrow> if info_sender info = a then Ok (a, None, new_response) else Err (GenericErr ''Unauthorized'')
       | None \<Rightarrow> Err (GenericErr ''Ownership proposal not found'')), pd_version = ''1.0.0''\<rparr>"

definition prop_init :: prop_instantiate_msg where
  "prop_init = \<lparr>pim_owner = ''owner'', pim_escrow_addr = ''escrow'', pim_hub_addr = ''hub'', pim_quorum_bps = 1000,
     pim_use_weighted_vote = False\<rparr>"

definition sample_prop :: "u128 \<Rightarrow> u128 \<Rightarrow> u128 \<Rightarrow> vote_option option \<Rightarrow> prop_info" where
  "sample_prop yes no tot current = \<lparr>pi_period = 25, pi_end_time_s = EPOCH_START + 25 * WEEK, pi_yes_vp = yes, pi_no_vp = no,
     pi_abstain_vp = 0, pi_nwv_vp = 0, pi_total_vp = tot, pi_current_vote = current\<rparr>"

definition sample_voted :: "(addr \<times> vote_option \<times> u128) list \<Rightarrow> (u64 \<times> addr, prop_user) store" where
  "sample_voted vs = map (\<lambda>(a, c, x). ((7, a), \<lparr>pu_user = a, pu_current_vote = c, pu_vp = x\<rparr>)) vs"

definition sample_props :: "(u64 \<times> prop_info) list \<Rightarrow> (addr \<times> vote_option \<times> u128) list \<Rightarrow> prop_state" where
  "sample_props ps vs = \<lparr>pg_config = Some \<lparr>pc_owner = ''owner'', pc_escrow_addr = ''escrow'', pc_hub_addr = ''hub'',
       pc_quorum_bps = 1000, pc_use_weighted_vote = False\<rparr>, pg_props = ps, pg_ownership_proposal = None,
     pg_users = sample_voted vs, pg_voters = map (\<lambda>(a, c, x). ((7, x, a), c)) vs,
     pg_contract_info = Some (PROP_CONTRACT_NAME, ''1.0.0'')\<rparr>"

text \<open>Week 1: proposal 7 ends in week 25; alice votes yes, bob, with more power, votes no.\<close>

definition props_started :: prop_state where "props_started = sample_props [] []"
definition props_open :: prop_state where "props_open = sample_props [(7, sample_prop 0 0 7774 None)] []"
definition props_alice :: prop_state where
  "props_alice = sample_props [(7, sample_prop 1040 0 7774 (Some VoteYes))] [(''alice'', VoteYes, 1040)]"
definition props_both :: prop_state where
  "props_both = sample_props [(7, sample_prop 1040 6734 7774 (Some VoteNo))] [(''alice'', VoteYes, 1040), (''bob'', VoteNo, 6734)]"

definition prop_leads :: "prop_result \<Rightarrow> prop_state \<Rightarrow> (u64 \<times> vote_option) list \<Rightarrow> bool" where
  "prop_leads r st votes = (case r of Ok (st', resp) \<Rightarrow> st' = st \<and> hub_votes resp = votes | _ \<Rightarrow> False)"

lemma prop_leadsD: "prop_leads r st votes \<Longrightarrow> \<exists>resp. r = Ok (st, resp) \<and> hub_votes resp = votes"
  by (cases r) (auto simp: prop_leads_def)

abbreviation props_run :: "escrow_state \<Rightarrow> u64 \<Rightarrow> prop_state \<Rightarrow> addr \<Rightarrow> prop_execute_msg \<Rightarrow> prop_result" where
  "props_run es w st a msg \<equiv> prop_execute (prop_sample_deps es w) (at_week w) st (by_sender a) msg"

lemma props_start: "prop_leads (prop_instantiate (prop_sample_deps escrow_both 1) prop_init empty_props) props_started []"
  by code_simp

lemma props_opens: "prop_leads (props_run escrow_both 1 props_started ''owner'' (InitProp 7 (EPOCH_START + 25 * WEEK))) props_open []"
  by code_simp

lemma props_alice_votes: "prop_leads (props_run escrow_both 1 props_open ''alice'' (PropVote 7 VoteYes)) props_alice [(7, VoteYes)]"
  by code_simp

lemma props_bob_votes: "prop_leads (props_run escrow_both 1 props_alice ''bob'' (PropVote 7 VoteNo)) props_both [(7, VoteNo)]"
  by code_simp

lemma sample_ownership [simp]: "ownership_sends_nothing (prop_sample_deps es w)"
  by (auto simp: ownership_sends_nothing_def prop_sample_deps_def split: if_splits option.splits)

lemma props_step:
  assumes "prop_reachable kept plain st log" and "prop_leads (props_run es w st a msg) st' votes"
  shows "prop_reachable (kept \<and> \<not> removes_a_prop msg) (plain \<and> \<not> weighted_mode st') st' (log @ votes)"
proof -
  from prop_leadsD [OF assms(2)] obtain resp where x: "props_run es w st a msg = Ok (st', resp)" "hub_votes resp = votes" by blast
  from prop_message [OF assms(1) x(1)] x(2) show ?thesis by simp
qed

lemma sample_plain [simp]: "\<not> weighted_mode (sample_props ps vs)"
  by (simp add: weighted_mode_def sample_props_def)

lemma props_started_reachable: "prop_reachable True True props_started []"
proof -
  from prop_leadsD [OF props_start] obtain resp where
    "prop_instantiate (prop_sample_deps escrow_both 1) prop_init empty_props = Ok (props_started, resp)" by blast
  from prop_start [OF this] show ?thesis by (simp add: props_started_def)
qed

lemma props_open_reachable: "prop_reachable True True props_open []"
  using props_step [OF props_started_reachable props_opens] by (simp add: props_open_def)

lemma props_alice_reachable: "prop_reachable True True props_alice [(7, VoteYes)]"
  using props_step [OF props_open_reachable props_alice_votes] by (simp add: props_alice_def)

lemma props_both_reachable: "prop_reachable True True props_both [(7, VoteYes), (7, VoteNo)]"
  using props_step [OF props_alice_reachable props_bob_votes] by (simp add: props_both_def)

end
