(* ===== verification/PropProps.thy ===== *)
theory PropProps
  imports PropSample
begin

text \<open>The weights of a weighted vote: thousandths that sum to exactly one.\<close>

definition MILLI :: decimal where "MILLI = 1000000000000000"

lemma milli_one: "DEC_ONE = 1000 * MILLI"
  by (simp add: DEC_ONE_def MILLI_def)

lemma milli_pos [simp]: "0 < MILLI" by (simp add: MILLI_def)

definition thousandths :: "prop_info \<Rightarrow> u128 \<Rightarrow> vote_option \<Rightarrow> nat" where
  "thousandths p v c = 1000 * tally c p div v"

lemma weight_of_milli:
  assumes "vp \<le> v" and "0 < v" and "1000 * v \<le> U128_MAX"
  shows "weight_of vp v = Ok (1000 * vp div v * MILLI)"
proof -
  have x: "1000 * vp \<le> U128_MAX" using assms(1,3) by linarith
  have "1000 * vp * DEC_ONE div v div DEC_ONE = 1000 * vp * DEC_ONE div (v * DEC_ONE)" by (rule div_mult2_eq [symmetric])
  also have "\<dots> = 1000 * vp div v" by simp
  finally have fl: "dec_floor (1000 * vp * DEC_ONE div v) = 1000 * vp div v * DEC_ONE" by (simp add: dec_floor_def)
  have "1000 * vp * DEC_ONE \<le> 1000 * DEC_ONE * v" using assms(1) by simp
  then have "1000 * vp * DEC_ONE div v \<le> 1000 * DEC_ONE" using assms(2) by (metis div_le_mono div_mult_self_is_m)
  also have "1000 * DEC_ONE \<le> U128_MAX" by (simp add: DEC_ONE_def U128_MAX_def)
  finally have d: "1000 * vp * DEC_ONE div v \<le> U128_MAX" .
  have "weight_of vp v = and_then (dec_from_ratio (1000 * vp) v) (\<lambda>d. u128_div (dec_floor d) 1000)"
    using x by (simp add: weight_of_def u128_mul_def bounded_def mult.commute)
  also have "dec_from_ratio (1000 * vp) v = (Ok (1000 * vp * DEC_ONE div v) :: (decimal, 'a) result)"
    using d assms(2) by (simp add: dec_Ok)
  finally have "weight_of vp v = (u128_div (dec_floor (1000 * vp * DEC_ONE div v)) 1000 :: (decimal, 'a) result)" by simp
  also have "\<dots> = Ok (1000 * vp div v * MILLI)" unfolding fl by (simp add: u128_div_def milli_one)
  finally show ?thesis .
qed

abbreviation all_options :: "vote_option list" where
  "all_options \<equiv> [VoteYes, VoteNo, VoteAbstain, VoteNoWithVeto]"

lemma all_options_complete: "c \<in> set all_options"
  by (cases c) simp_all

lemma weighted_votes_form:
  assumes v: "v = pi_yes_vp p + pi_no_vp p + pi_abstain_vp p + pi_nwv_vp p" and pos: "0 < v" and fit: "1000 * v \<le> U128_MAX"
  shows "\<exists>d ds. filter (\<lambda>c. thousandths p v c \<noteq> 0) all_options = d # ds
    \<and> get_weighted_votes p = Ok ((thousandths p v d * MILLI + (DEC_ONE - sum_list (map (thousandths p v) all_options) * MILLI), d)
        # map (\<lambda>c. (thousandths p v c * MILLI, c)) ds)"
    and "sum_list (map (thousandths p v) all_options) \<le> 1000" and "997 \<le> sum_list (map (thousandths p v) all_options)"
proof -
  let ?k = "thousandths p v" let ?s = "sum_list (map ?k all_options)" let ?cs = "filter (\<lambda>c. ?k c \<noteq> 0) all_options"
  have le: "?k c * v \<le> 1000 * tally c p" and gt: "1000 * tally c p < (?k c + 1) * v" for c
    using dividend_less_div_times [OF pos, of "1000 * tally c p"] by (simp_all add: thousandths_def div_times_less_eq_dividend algebra_simps)
  have "?s * v \<le> 1000 * v" using le [of VoteYes] le [of VoteNo] le [of VoteAbstain] le [of VoteNoWithVeto] v by (simp add: algebra_simps)
  then show s: "?s \<le> 1000" using pos by simp
  have "1000 * v < (?s + 4) * v"
    using gt [of VoteYes] gt [of VoteNo] gt [of VoteAbstain] gt [of VoteNoWithVeto] v by (simp add: algebra_simps)
  then show s': "997 \<le> ?s" using pos by simp
  have "sum_list (map ?k ?cs) = ?s" by simp
  then have "?cs \<noteq> []" using s' by (intro notI) simp
  then obtain d ds where ds: "?cs = d # ds" by (cases ?cs) auto
  have t: "tally c p \<le> v" for c using v by (cases c) simp_all
  have w: "weight_of (tally c p) v = Ok (?k c * MILLI)" for c
    using weight_of_milli [OF t pos fit] by (simp add: thousandths_def)
  have votes: "filter (\<lambda>e. fst e \<noteq> 0) [(?k VoteYes * MILLI, VoteYes), (?k VoteNo * MILLI, VoteNo), (?k VoteAbstain * MILLI, VoteAbstain),
      (?k VoteNoWithVeto * MILLI, VoteNoWithVeto)] = map (\<lambda>c. (?k c * MILLI, c)) ?cs" by simp
  have sum: "sum_list (map fst (map (\<lambda>c. (?k c * MILLI, c)) ?cs)) = ?s * MILLI" by (simp add: algebra_simps)
  have one: "?s * MILLI \<le> DEC_ONE" using s by (simp add: milli_one)
  have fits: "DEC_ONE \<le> U128_MAX" by (simp add: DEC_ONE_def U128_MAX_def)
  have dsum: "dec_sum (map fst (map (\<lambda>c. (?k c * MILLI, c)) ?cs)) = (Ok (?s * MILLI) :: (decimal, 'e) result)"
    using one fits sum by (simp add: dec_Ok del: map_map filter.simps)
  have V: "voted_vp p = (Ok v :: (u128, 'e) result)" using fit v by (simp add: voted_vp_def num_Ok u128_add_def bounded_def)
  note w' = w [of VoteYes, simplified] w [of VoteNo, simplified] w [of VoteAbstain, simplified] w [of VoteNoWithVeto, simplified]
  have kd: "?k d * MILLI \<le> ?s * MILLI" using sum_list_le_member [of d all_options ?k] all_options_complete by simp
  have "x + (y - z) \<le> y" if "x \<le> z" "z \<le> y" for x y z :: nat using that by simp
  from this [OF kd one] fits have "?k d * MILLI + (DEC_ONE - ?s * MILLI) \<le> U128_MAX" by (rule order_trans)
  then have add: "dec_add (?k d * MILLI) (DEC_ONE - ?s * MILLI) = (Ok (?k d * MILLI + (DEC_ONE - ?s * MILLI)) :: (decimal, 'e) result)"
    unfolding dec_Ok by (rule conjI [OF refl])
  have "get_weighted_votes p = (settle_weights (map (\<lambda>c. (?k c * MILLI, c)) ?cs) :: (_, 'e) result)"
    unfolding get_weighted_votes_def V and_then.simps if_not_P [OF pos [unfolded neq0_conv [symmetric]]] w' votes ..
  also have "\<dots> = Ok ((?k d * MILLI + (DEC_ONE - ?s * MILLI), d) # map (\<lambda>c. (?k c * MILLI, c)) ds)"
  proof -
    define S where "S = ?s"
    note f = dsum [folded S_def, unfolded ds] add [folded S_def] one [folded S_def]
    have "(settle_weights (map (\<lambda>c. (?k c * MILLI, c)) (d # ds)) :: (_, 'e) result)
        = Ok ((?k d * MILLI + (DEC_ONE - S * MILLI), d) # map (\<lambda>c. (?k c * MILLI, c)) ds)"
      unfolding settle_weights_def f(1) using f(3) by (simp add: f(2) not_less)
    then show ?thesis unfolding ds S_def .
  qed
  finally have "get_weighted_votes p = (Ok ((?k d * MILLI + (DEC_ONE - ?s * MILLI), d) # map (\<lambda>c. (?k c * MILLI, c)) ds) :: (_, 'e) result)" .
  with ds show "\<exists>d ds. ?cs = d # ds \<and> get_weighted_votes p = Ok ((?k d * MILLI + (DEC_ONE - ?s * MILLI), d)
        # map (\<lambda>c. (?k c * MILLI, c)) ds)" by blast
qed

text \<open>The properties of the proposal gauges: tallies, the vote of the hub, weighted votes, and two ways to get stuck.\<close>

section \<open>Tallies\<close>

text \<open>
  C12: The tallies are the votes: as long as no proposal is removed, the power counted for each option of a proposal is the sum of
  the powers of the users whose stored vote is that option. In any history the list of voters, ordered by power, mirrors the
  stored votes one to one.
\<close>

theorem tallies_are_the_votes:
  assumes "prop_reachable kept plain st log"
  shows "(kept \<longrightarrow> (\<forall>i p c. get (pg_props st) i = Some p \<longrightarrow> tally c p = cast_for (pg_users st) i c))
    \<and> (\<forall>i x a c. get (pg_voters st) (i, x, a) = Some c \<longleftrightarrow>
        (\<exists>u. get (pg_users st) (i, a) = Some u \<and> pu_vp u = x \<and> pu_current_vote u = c))"
  using prop_reachable_inv [OF assms] by (simp add: prop_inv_def voters_ok_def tallies_ok_def)

theorem tallies_are_the_votes_witness:
  "cast_for (pg_users props_both) 7 VoteNo = 6734"
proof -
  have "get (pg_props props_both) 7 = Some (sample_prop 1040 6734 7774 (Some VoteNo))"
    by (simp add: props_both_def sample_props_def get_def)
  with tallies_are_the_votes [OF props_both_reachable] have "tally VoteNo (sample_prop 1040 6734 7774 (Some VoteNo)) = cast_for (pg_users props_both) 7 VoteNo"
    by blast
  then show ?thesis by (simp add: sample_prop_def)
qed

section \<open>The vote of the hub\<close>

text \<open>
  The gauge knows what the hub has voted: in a history without weighted votes and without removed proposals, what a
  proposal stands for is the last vote sent to the hub; a proposal that stands for nothing has sent no vote, or an abstention.
\<close>

theorem current_vote_is_the_last_sent:
  assumes "prop_reachable True True st log" and "get (pg_props st) i = Some p"
  shows "(\<forall>v. pi_current_vote p = Some v \<longrightarrow> last_vote log i = Some v)
    \<and> (pi_current_vote p = None \<longrightarrow> last_vote log i \<in> {None, Some VoteAbstain})"
proof -
  have "sent_ok st log" using prop_reachable_inv [OF assms(1)] by (simp add: prop_inv_def)
  from this [unfolded sent_ok_def, rule_format, of i] assms(2) show ?thesis by (auto simp: stands_for_def)
qed

theorem current_vote_is_the_last_sent_witness:
  "last_vote [(7, VoteYes), (7, VoteNo)] 7 = Some VoteNo"
proof -
  have "get (pg_props props_both) 7 = Some (sample_prop 1040 6734 7774 (Some VoteNo))"
    by (simp add: props_both_def sample_props_def get_def)
  from current_vote_is_the_last_sent [OF props_both_reachable this] show ?thesis by (simp add: sample_prop_def)
qed

lemma calc_same_prop: "same_prop p q \<Longrightarrow> calc_voting_power_for_prop t li q = calc_voting_power_for_prop t li p"
  by (simp add: calc_voting_power_for_prop_def same_prop_def)

lemma wanted_frame [simp]:
  "get_wanted_vote (p\<lparr>pi_current_vote := v\<rparr>) tot quorum = get_wanted_vote p tot quorum"
  "get_wanted_vote (p\<lparr>pi_total_vp := x\<rparr>) tot quorum = get_wanted_vote p tot quorum"
  by (cases p; simp only: get_wanted_vote_def voted_vp_def prop_info.select_convs prop_info.update_convs)+

text \<open>
  What a successful vote does (without weighted votes). The voter has voting power now; the vote counts with the power of the lock at the
  end of the proposal, in place of the voter's former vote. The total power is taken from the escrow anew. When the quorum
  is reached, the hub is told the leading option unless the proposal already stands for it; below the quorum a vote of the
  hub other than an abstention is turned into an abstention. Other proposals and other users are left alone.
\<close>

theorem vote_counts:
  assumes "prop_execute deps env st info (PropVote i v) = Ok (st', resp)" and "pg_config st = Some cfg" and "\<not> pc_use_weighted_vote cfg"
  shows "\<exists>li p p' u t wanted. pd_lock_info deps (pc_escrow_addr cfg) (info_sender info) = Ok li
    \<and> li_voting_power li + li_fixed_amount li \<noteq> 0 \<and> get (pg_props st) i = Some p \<and> get (pg_props st') i = Some p'
    \<and> get (pg_users st') (i, info_sender info) = Some u \<and> get_period (env_time env) = Ok t
    \<and> calc_voting_power_for_prop t li p = (Ok (pu_vp u) :: (u128, std_error) result) \<and> (pu_vp u \<noteq> 0 \<longrightarrow> pu_current_vote u = v)
    \<and> (\<forall>c. tally c p' + counts c (user_or_new st i (info_sender info)) = tally c p + counts c u)
    \<and> pd_total_vamp deps (pc_escrow_addr cfg) (pi_period p) = Ok (pi_total_vp p')
    \<and> get_wanted_vote p' (pi_total_vp p') (pc_quorum_bps cfg) = Ok wanted
    \<and> (case wanted of
         Some w \<Rightarrow> pi_current_vote p' = Some w
           \<and> resp_msgs resp = (if pi_current_vote p = Some w then [] else [PlainMsg (WasmExecute (pc_hub_addr cfg) (Vote i w) [])])
       | None \<Rightarrow> if pi_current_vote p \<in> {None, Some VoteAbstain} then pi_current_vote p' = None \<and> resp_msgs resp = []
           else pi_current_vote p' = Some VoteAbstain \<and> resp_msgs resp = [PlainMsg (WasmExecute (pc_hub_addr cfg) (Vote i VoteAbstain) [])])
    \<and> (\<forall>j. j \<noteq> i \<longrightarrow> get (pg_props st') j = get (pg_props st) j)
    \<and> (\<forall>k. k \<noteq> (i, info_sender info) \<longrightarrow> get (pg_users st') k = get (pg_users st) k)"
proof -
  let ?a = "info_sender info"
  from assms(1) have "prop_handle_vote deps env st info i v = Ok (st', resp)" by simp
  then show ?thesis
  proof (cases rule: handle_vote_recast)
    case (1 cfg' li user msg)
    have cfg: "cfg' = cfg" using 1(1) assms(2) by simp
    from 1(4) obtain p p1 p2 tot p3 where p: "get (pg_props st) i = Some p"
      and p1: "remove_vote_of_user p (user_or_new st i ?a) = Ok p1" and p2: "apply_vote_of_user env p1 li v ?a = Ok (p2, user)"
      and p3: "get_vote_msg deps cfg p2 i = Ok (msg, tot, p3)"
      and st': "st' = st\<lparr>pg_props := put i (p3\<lparr>pi_total_vp := tot\<rparr>) (pg_props st), pg_users := put (i, ?a) user (pg_users st),
            pg_voters := put (i, pu_vp user, ?a) (pu_current_vote user) (del (i, pu_vp (user_or_new st i ?a), ?a) (pg_voters st))\<rparr>"
      by (auto simp: update_vote_state_def and_then_Ok map_err_Ok load_item_Ok cfg)
    note r = remove_vote_tally [OF p1] note a = apply_vote_tally [OF p2]
    obtain w where w: "p3 = p2\<lparr>pi_current_vote := w\<rparr>" using get_vote_msg_frame [OF p3] by blast
    from get_vote_msg_plain [OF p3 assms(3)] obtain wanted where
      t: "pd_total_vamp deps (pc_escrow_addr cfg) (pi_period p2) = Ok tot" and wa: "get_wanted_vote p2 tot (pc_quorum_bps cfg) = Ok wanted"
      and m: "msg = fst (wanted_msg (pc_hub_addr cfg) i (pi_current_vote p2) wanted)"
      and c: "pi_current_vote p3 = snd (wanted_msg (pc_hub_addr cfg) i (pi_current_vote p2) wanted)" by blast
    have same: "pi_current_vote p2 = pi_current_vote p" "pi_period p2 = pi_period p" using r(2) a(2) by (simp_all add: same_prop_def)
    obtain n where n: "get_period (env_time env) = Ok n" "calc_voting_power_for_prop n li p1 = (Ok (pu_vp user) :: (u128, std_error) result)"
      using a(4) by blast
    have power: "calc_voting_power_for_prop n li p = (Ok (pu_vp user) :: (u128, std_error) result)"
      using n(2) by (simp only: calc_same_prop [OF r(2)])
    have tallies: "tally x (p3\<lparr>pi_total_vp := tot\<rparr>) + counts x (user_or_new st i ?a) = tally x p + counts x user" for x
      using r(1) [of x] a(1) [of x] by (simp add: w)
    show ?thesis
      using 1(2,3,7) p n(1) power a(5) tallies t wa m c same
      by (intro exI [of _ li] exI [of _ p] exI [of _ "p3\<lparr>pi_total_vp := tot\<rparr>"] exI [of _ user] exI [of _ n] exI [of _ wanted])
        (auto simp: cfg st' store_simps w wanted_msg_def vote_msg_def split: option.splits)
  qed
qed

theorem vote_counts_witness:
  "\<exists>resp u. props_run escrow_both 1 props_alice ''bob'' (PropVote 7 VoteNo) = Ok (props_both, resp)
    \<and> get (pg_users props_both) (7, ''bob'') = Some u \<and> counts VoteNo u = 6734"
proof -
  from prop_leadsD [OF props_bob_votes] obtain resp where
    x: "props_run escrow_both 1 props_alice ''bob'' (PropVote 7 VoteNo) = Ok (props_both, resp)" by blast
  have c: "pg_config props_alice = Some \<lparr>pc_owner = ''owner'', pc_escrow_addr = ''escrow'', pc_hub_addr = ''hub'',
       pc_quorum_bps = 1000, pc_use_weighted_vote = False\<rparr>" by (simp add: props_alice_def sample_props_def)
  from vote_counts [OF x c] x show ?thesis
    by (auto simp: by_sender_def props_both_def sample_props_def sample_voted_def get_def counts_def)
qed

section \<open>Weighted votes\<close>

text \<open>
  The weights of a weighted vote sum to exactly one, whatever was voted (as long as a thousand times the voted power fits into 128
  bits): each option that is listed, is listed once, with a positive number of thousandths that is its share rounded down, except
  that the first gets what rounding left over, at most three thousandths; an option that is not listed has less than a thousandth.
\<close>

theorem weighted_votes_sum_to_one:
  assumes "v = pi_yes_vp p + pi_no_vp p + pi_abstain_vp p + pi_nwv_vp p" and "0 < v" and "1000 * v \<le> U128_MAX"
  shows "\<exists>votes. get_weighted_votes p = (Ok votes :: (_, prop_error) result) \<and> sum_list (map fst votes) = DEC_ONE \<and> distinct (map snd votes)
    \<and> (\<forall>(w, c) \<in> set votes. \<exists>k. 0 < k \<and> w = k * (DEC_ONE div 1000) \<and> 1000 * tally c p < (k + 1) * v \<and> k * v \<le> 1000 * tally c p + 3 * v)
    \<and> (\<forall>c. c \<notin> snd ` set votes \<longrightarrow> 1000 * tally c p < v)"
proof -
  let ?k = "thousandths p v" let ?s = "sum_list (map ?k all_options)"
  from weighted_votes_form [OF assms] obtain d ds where ds: "filter (\<lambda>c. ?k c \<noteq> 0) all_options = d # ds"
    and g: "get_weighted_votes p = (Ok ((?k d * MILLI + (DEC_ONE - ?s * MILLI), d) # map (\<lambda>c. (?k c * MILLI, c)) ds) :: (_, prop_error) result)" by blast
  note s = weighted_votes_form(2,3) [OF assms]
  let ?votes = "(?k d * MILLI + (DEC_ONE - ?s * MILLI), d) # map (\<lambda>c. (?k c * MILLI, c)) ds"
  have le: "?k c * v \<le> 1000 * tally c p" and gt: "1000 * tally c p < (?k c + 1) * v" for c
    using dividend_less_div_times [OF assms(2), of "1000 * tally c p"] by (simp_all add: thousandths_def div_times_less_eq_dividend algebra_simps)
  have milli: "DEC_ONE div 1000 = MILLI" by (simp add: milli_one)
  have "DEC_ONE - ?s * MILLI = (1000 - ?s) * MILLI" by (simp add: milli_one diff_mult_distrib)
  then have first: "?k d * MILLI + (DEC_ONE - ?s * MILLI) = (?k d + (1000 - ?s)) * MILLI" by (simp add: add_mult_distrib)
  have total_ds: "?k d + sum_list (map ?k ds) = ?s"
  proof -
    have "sum_list (map ?k (filter (\<lambda>c. ?k c \<noteq> 0) all_options)) = ?s" by simp
    from this [unfolded ds] show ?thesis by simp
  qed
  have sum: "sum_list (map fst ?votes) = DEC_ONE"
  proof -
    have "sum_list (map fst ?votes) = ?k d * MILLI + (DEC_ONE - ?s * MILLI) + sum_list (map (\<lambda>c. ?k c * MILLI) ds)"
      by (simp add: comp_def)
    also have "\<dots> = (?k d + (1000 - ?s)) * MILLI + sum_list (map ?k ds) * MILLI"
      by (simp only: first sum_list_mult_const)
    also have "\<dots> = (?k d + sum_list (map ?k ds) + (1000 - ?s)) * MILLI" by (simp only: add_mult_distrib)
    also have "\<dots> = 1000 * MILLI" using s(1) unfolding total_ds by simp
    finally show ?thesis by (simp add: milli_one)
  qed
  have dist: "distinct (map snd ?votes)"
  proof -
    have "distinct (d # ds)" unfolding ds [symmetric] by (rule distinct_filter) simp
    then show ?thesis by (simp add: comp_def)
  qed
  have mem: "c \<in> set (d # ds) \<longleftrightarrow> 0 < ?k c" for c unfolding ds [symmetric] using all_options_complete [of c] by auto
  have each: "\<exists>k. 0 < k \<and> w = k * (DEC_ONE div 1000) \<and> 1000 * tally c p < (k + 1) * v \<and> k * v \<le> 1000 * tally c p + 3 * v"
    if e: "(w, c) \<in> set ?votes" for w c
  proof (cases "(w, c) = (?k d * MILLI + (DEC_ONE - ?s * MILLI), d)")
    case True
    then have c: "c = d" and w: "w = (?k d + (1000 - ?s)) * MILLI" using first by simp_all
    have "?k d * v + (1000 - ?s) * v \<le> 1000 * tally d p + 3 * v"
      by (rule add_mono [OF le mult_le_mono1]) (use s(2) in simp)
    moreover have "1000 * tally d p < (?k d + (1000 - ?s) + 1) * v"
      by (rule less_le_trans [OF gt]) simp
    ultimately show ?thesis
      using mem [of d] unfolding c w milli by (intro exI [of _ "?k d + (1000 - ?s)"]) (simp add: add_mult_distrib)
  next
    case False
    then have "c \<in> set ds" and w: "w = ?k c * MILLI" using e by auto
    with mem [of c] le [of c] gt [of c] show ?thesis unfolding w milli by (intro exI [of _ "?k c"]) simp
  qed
  have missing: "1000 * tally c p < v" if "c \<notin> snd ` set ?votes" for c
  proof -
    have "c \<notin> set (d # ds)" using that by (force simp: image_image)
    with mem gt [of c] show ?thesis by simp
  qed
  from g sum dist each missing show ?thesis by (intro exI [of _ ?votes]) blast
qed

theorem weighted_votes_sum_to_one_witness:
  "\<exists>votes. get_weighted_votes (sample_prop 10 20 0 None) = (Ok votes :: (_, prop_error) result) \<and> sum_list (map fst votes) = DEC_ONE"
proof -
  have "(30::u128) = pi_yes_vp (sample_prop 10 20 0 None) + pi_no_vp (sample_prop 10 20 0 None)
      + pi_abstain_vp (sample_prop 10 20 0 None) + pi_nwv_vp (sample_prop 10 20 0 None)" by (simp add: sample_prop_def)
  from weighted_votes_sum_to_one [OF this] show ?thesis by (auto simp: U128_MAX_def)
qed

end
