(* ===== verification/PropStuck.thy ===== *)
theory PropStuck
  imports PropSample
begin

text \<open>Two ways in which the proposal gauge stops its voters: a proposal initialised again, and a total power of zero.\<close>

section \<open>What a loop over the active proposals must do\<close>

lemma recast_users: "recast deps cfg j a new st st' msg \<Longrightarrow> i \<noteq> j \<Longrightarrow> get (pg_users st') (i, b) = get (pg_users st) (i, b)"
  by (auto simp: recast_def store_simps split: option.splits)

lemma loop_reaches:
  assumes "try_fold step (st, resp) es = Ok r" and "(i, p) \<in> set es"
    and "\<And>st resp i p st' resp'. step (st, resp) (i, p) = Ok (st', resp') \<Longrightarrow> get (pg_props st) i = Some p \<Longrightarrow>
      st' = st \<and> resp' = resp \<or> (\<exists>new msg. recast deps cfg i a new st st' msg \<and> hub_votes resp' = hub_votes resp @ msg_votes msg)"
    and "\<And>e. e \<in> set es \<Longrightarrow> get (pg_props st) (fst e) = Some (snd e)" and "distinct (map fst es)"
  shows "\<exists>st1 resp1 r1. step (st1, resp1) (i, p) = Ok r1 \<and> get (pg_users st1) (i, a) = get (pg_users st) (i, a)"
  using assms(1,2,4,5)
proof (induction es arbitrary: st resp)
  case Nil
  then show ?case by simp
next
  case (Cons e es)
  obtain j q where e: "e = (j, q)" by (cases e)
  from Cons.prems(1) obtain st1 resp1 where s: "step (st, resp) (j, q) = Ok (st1, resp1)"
    and rest: "try_fold step (st1, resp1) es = Ok r"
    by (auto simp: and_then_Ok e)
  show ?case
  proof (cases "(j, q) = (i, p)")
    case True
    then show ?thesis using s by auto
  next
    case False
    with Cons.prems(2) e have m: "(i, p) \<in> set es" by auto
    have j: "get (pg_props st) j = Some q" using Cons.prems(3) [of e] by (simp add: e)
    have fresh: "fst d \<noteq> j" if "d \<in> set es" for d using Cons.prems(4) that by (force simp: e)
    from assms(3) [OF s j] have r: "st1 = st \<or> (\<exists>new msg. recast deps cfg j a new st st1 msg)" by blast
    have keep: "get (pg_props st1) (fst d) = Some (snd d)" if "d \<in> set es" for d
      using r recast_props fresh [OF that] Cons.prems(3) [of d] that by auto
    have users: "get (pg_users st1) (i, a) = get (pg_users st) (i, a)"
      using r recast_users fresh [OF m] by auto
    from Cons.IH [OF rest m keep] Cons.prems(4) users show ?thesis by (auto simp: e)
  qed
qed

lemma update_reaches:
  assumes "prop_update_vote deps env st info u li = Ok r" and "pd_addr_validate deps u = Ok a"
    and "wf_store (pg_props st)" and "get (pg_props st) i = Some p" and "env_time env \<le> pi_end_time_s p"
  obtains cfg st1 resp1 r1 where "pg_config st = Some cfg" "update_one deps env cfg a li (st1, resp1) (i, p) = Ok r1"
    "get (pg_users st1) (i, a) = get (pg_users st) (i, a)"
proof -
  from assms(1,2) obtain cfg r0 where c: "pg_config st = Some cfg"
    and l: "try_fold (update_one deps env cfg a li) (st, new_response) (all_active_props st env) = Ok r0"
    by (auto simp: prop_update_vote_def and_then_Ok map_err_Ok load_item_Ok guard_Ok)
  have m: "(i, p) \<in> set (all_active_props st env)" using active_props [OF assms(3)] assms(4,5) by simp
  have act: "\<And>e. e \<in> set (all_active_props st env) \<Longrightarrow> get (pg_props st) (fst e) = Some (snd e)"
    using active_props(1) [OF assms(3)] by blast
  have "\<exists>st1 resp1 r1. update_one deps env cfg a li (st1, resp1) (i, p) = Ok r1 \<and> get (pg_users st1) (i, a) = get (pg_users st) (i, a)"
    by (rule loop_reaches [OF l m _ act active_props(2) [OF assms(3)]]) (erule (1) update_one_recast)
  with that [OF c] show thesis by (elim exE conjE)
qed

lemma removal_reaches:
  assumes "prop_remove_user deps env st info u = Ok r" and "pd_addr_validate_to_lower deps u = Ok a"
    and "wf_store (pg_props st)" and "get (pg_props st) i = Some p" and "env_time env \<le> pi_end_time_s p"
  obtains cfg st1 resp1 r1 where "pg_config st = Some cfg" "remove_one deps cfg a (st1, resp1) (i, p) = Ok r1"
    "get (pg_users st1) (i, a) = get (pg_users st) (i, a)"
proof -
  from assms(1,2) obtain cfg r0 where c: "pg_config st = Some cfg"
    and l: "try_fold (remove_one deps cfg a) (st, new_response) (all_active_props st env) = Ok r0"
    by (auto simp: prop_remove_user_def and_then_Ok map_err_Ok load_item_Ok guard_Ok)
  have m: "(i, p) \<in> set (all_active_props st env)" using active_props [OF assms(3)] assms(4,5) by simp
  have act: "\<And>e. e \<in> set (all_active_props st env) \<Longrightarrow> get (pg_props st) (fst e) = Some (snd e)"
    using active_props(1) [OF assms(3)] by blast
  have "\<exists>st1 resp1 r1. remove_one deps cfg a (st1, resp1) (i, p) = Ok r1 \<and> get (pg_users st1) (i, a) = get (pg_users st) (i, a)"
    by (rule loop_reaches [OF l m _ act active_props(2) [OF assms(3)]]) (erule (1) remove_one_recast)
  with that [OF c] show thesis by (elim exE conjE)
qed

section \<open>A proposal initialised again\<close>

lemma stale_vote_refused: "tally (pu_current_vote u) p < pu_vp u \<Longrightarrow> \<not> is_ok (remove_vote_of_user p u)"
  by (auto simp: remove_vote_of_user_def checked_sub_def)

text \<open>
  A proposal that is removed and initialised again locks its voters. Removing a proposal leaves the stored votes; after it was
  initialised again, a user who had voted with some power can neither vote on it, nor can an update of the escrow for this user
  (and with it the message of the escrow that caused the update), nor the removal of the user succeed while the proposal is active:
  each takes the old vote out of tallies that no longer hold it.
\<close>

theorem reinitialised_proposal_locks_voters:
  assumes "prop_reachable kept plain st log"
    and "prop_execute deps1 env1 st info1 (RemoveProp i) = Ok (st1, resp1)"
    and "prop_execute deps2 env2 st1 info2 (InitProp i e) = Ok (st2, resp2)"
    and "get (pg_users st) (i, a) = Some u" and "pu_vp u \<noteq> 0"
  shows "(info_sender info = a \<longrightarrow> \<not> is_ok (prop_execute deps env st2 info (PropVote i v)))
    \<and> (env_time env \<le> e \<and> pd_addr_validate deps s = Ok a \<longrightarrow> \<not> is_ok (prop_execute deps env st2 info (PropUpdateVote s li)))
    \<and> (env_time env \<le> e \<and> pd_addr_validate_to_lower deps s = Ok a \<longrightarrow> \<not> is_ok (prop_execute deps env st2 info (PropRemoveUser s)))"
proof -
  have s1: "st1 = st\<lparr>pg_props := del i (pg_props st)\<rparr>"
    using assms(2) by (auto simp: remove_prop_def and_then_Ok map_err_Ok)
  from assms(3) obtain p where p: "get (pg_props st2) i = Some p" "\<And>c. tally c p = 0" "pi_end_time_s p = e"
    and u2: "pg_users st2 = pg_users st"
  proof -
    from assms(3) obtain period tot where s2: "st2 = st1\<lparr>pg_props := put i \<lparr>pi_period = period, pi_end_time_s = e, pi_yes_vp = 0,
        pi_no_vp = 0, pi_abstain_vp = 0, pi_nwv_vp = 0, pi_total_vp = tot, pi_current_vote = None\<rparr> (pg_props st1)\<rparr>"
      by (auto simp: init_prop_def and_then_Ok map_err_Ok guard_Ok)
    let ?p = "\<lparr>pi_period = period, pi_end_time_s = e, pi_yes_vp = 0, pi_no_vp = 0, pi_abstain_vp = 0, pi_nwv_vp = 0,
        pi_total_vp = tot, pi_current_vote = None\<rparr>"
    have "tally c ?p = 0" for c by (cases c) simp_all
    then show thesis by (intro that [of ?p]) (simp_all add: s2 s1 store_simps)
  qed
  have "wf_store (pg_props st)" using prop_reachable_inv [OF assms(1)] by (simp add: prop_inv_def voters_ok_def)
  then have wf: "wf_store (pg_props st2)"
    using assms(3) by (auto simp: s1 init_prop_def and_then_Ok map_err_Ok guard_Ok)
  have no: "\<not> is_ok (remove_vote_of_user p u)" by (rule stale_vote_refused) (use p(2) assms(5) in simp)
  have vote: "\<not> is_ok (prop_execute deps env st2 info (PropVote i v))" if "info_sender info = a"
  proof
    assume "is_ok (prop_execute deps env st2 info (PropVote i v))"
    then obtain st3 r3 where "prop_handle_vote deps env st2 info i v = Ok (st3, r3)" by (auto simp: is_ok_iff)
    then show False
    proof (cases rule: handle_vote_recast)
      case (1 cfg li user msg)
      have "user_or_new st2 i (info_sender info) = u" using assms(4) that by (simp add: user_or_new_def get_user_info_def u2)
      with 1(4) p(1) no show False by (auto simp: update_vote_state_def and_then_Ok map_err_Ok load_item_Ok is_ok_iff)
    qed
  qed
  have update: "\<not> is_ok (prop_execute deps env st2 info (PropUpdateVote s li))"
    if active: "env_time env \<le> e" and valid: "pd_addr_validate deps s = Ok a"
  proof
    assume "is_ok (prop_execute deps env st2 info (PropUpdateVote s li))"
    then obtain r where "prop_update_vote deps env st2 info s li = Ok r" by (auto simp: is_ok_iff)
    moreover have "env_time env \<le> pi_end_time_s p" using active p(3) by simp
    ultimately obtain cfg st3 r3 r4 where
      "update_one deps env cfg a li (st3, r3) (i, p) = Ok r4" "get (pg_users st3) (i, a) = get (pg_users st2) (i, a)"
      by (rule update_reaches [OF _ valid wf p(1)])
    with assms(4) no show False
      by (auto simp: update_one_def get_user_info_def u2 update_vote_state_def and_then_Ok map_err_Ok is_ok_iff)
  qed
  have removal: "\<not> is_ok (prop_execute deps env st2 info (PropRemoveUser s))"
    if active: "env_time env \<le> e" and valid: "pd_addr_validate_to_lower deps s = Ok a"
  proof
    assume "is_ok (prop_execute deps env st2 info (PropRemoveUser s))"
    then obtain r where "prop_remove_user deps env st2 info s = Ok r" by (auto simp: is_ok_iff)
    moreover have "env_time env \<le> pi_end_time_s p" using active p(3) by simp
    ultimately obtain cfg st3 r3 r4 where
      "remove_one deps cfg a (st3, r3) (i, p) = Ok r4" "get (pg_users st3) (i, a) = get (pg_users st2) (i, a)"
      by (rule removal_reaches [OF _ valid wf p(1)])
    with assms(4) no show False
      by (auto simp: remove_one_def get_user_info_def u2 and_then_Ok map_err_Ok is_ok_iff)
  qed
  from vote update removal show ?thesis by blast
qed

definition props_gone :: prop_state where "props_gone = sample_props [] [(''alice'', VoteYes, 1040)]"
definition props_again :: prop_state where "props_again = sample_props [(7, sample_prop 0 0 7774 None)] [(''alice'', VoteYes, 1040)]"

lemma props_removed: "prop_leads (props_run escrow_both 2 props_alice ''owner'' (RemoveProp 7)) props_gone []"
  by code_simp

lemma props_reopened: "prop_leads (props_run escrow_both 2 props_gone ''owner'' (InitProp 7 (EPOCH_START + 25 * WEEK))) props_again []"
  by code_simp

theorem reinitialised_proposal_locks_voters_witness:
  "\<not> is_ok (props_run escrow_both 2 props_again ''alice'' (PropVote 7 VoteYes))
    \<and> \<not> is_ok (props_run escrow_both 2 props_again ''owner'' (PropRemoveUser ''alice''))"
proof -
  from prop_leadsD [OF props_removed] obtain r1 where
    r: "props_run escrow_both 2 props_alice ''owner'' (RemoveProp 7) = Ok (props_gone, r1)" by blast
  from prop_leadsD [OF props_reopened] obtain r2 where
    i: "props_run escrow_both 2 props_gone ''owner'' (InitProp 7 (EPOCH_START + 25 * WEEK)) = Ok (props_again, r2)" by blast
  have u: "get (pg_users props_alice) (7, ''alice'') = Some \<lparr>pu_user = ''alice'', pu_current_vote = VoteYes, pu_vp = 1040\<rparr>"
    by (simp add: props_alice_def sample_props_def sample_voted_def get_def)
  have n: "pu_vp \<lparr>pu_user = ''alice'', pu_current_vote = VoteYes, pu_vp = 1040\<rparr> \<noteq> 0" by simp
  note f = reinitialised_proposal_locks_voters [OF props_alice_reachable r i u n]
  have "\<not> is_ok (props_run escrow_both 2 props_again ''alice'' (PropVote 7 VoteYes))"
    using f by (simp add: by_sender_def del: prop_execute.simps)
  moreover have "\<not> is_ok (props_run escrow_both 2 props_again ''owner'' (PropRemoveUser ''alice''))"
    using f [of "by_sender ''owner''" "prop_sample_deps escrow_both 2" "at_week 2" VoteYes "''alice''"]
    by (simp add: prop_sample_deps_def at_week_def del: prop_execute.simps)
  ultimately show ?thesis ..
qed

section \<open>A total power of zero\<close>

lemma zero_total_no_msg:
  assumes "pd_total_vamp deps (pc_escrow_addr cfg) (pi_period p) = Ok 0"
  shows "\<not> is_ok (get_vote_msg deps cfg p i)"
proof
  assume "is_ok (get_vote_msg deps cfg p i)"
  then obtain r where "get_vote_msg deps cfg p i = Ok r" by (auto simp: is_ok_iff)
  with assms show False
    by (auto simp: get_vote_msg_def reached_quorum_def get_wanted_vote_def and_then_Ok map_err_Ok dec_Ok split: if_splits)
qed

text \<open>
  When nobody has voting power at the end of an active proposal any more, the update of a voter cannot succeed: the quorum is the
  quotient by the total power, and the division by zero aborts the message, and with it the message of the escrow that caused it.
  So the last holder of a lock who has voted cannot withdraw the expired lock before the proposal has ended.
\<close>

theorem zero_total_stops_updates:
  assumes "prop_reachable kept plain st log" and "pg_config st = Some cfg"
    and "get (pg_props st) i = Some p" and "env_time env \<le> pi_end_time_s p" and "get (pg_users st) (i, a) = Some u"
    and "pd_addr_validate deps s = Ok a" and "pd_total_vamp deps (pc_escrow_addr cfg) (pi_period p) = Ok 0"
  shows "\<not> is_ok (prop_execute deps env st info (PropUpdateVote s li))"
proof
  assume "is_ok (prop_execute deps env st info (PropUpdateVote s li))"
  then obtain r where x: "prop_update_vote deps env st info s li = Ok r" by (auto simp: is_ok_iff)
  have wf: "wf_store (pg_props st)" using prop_reachable_inv [OF assms(1)] by (simp add: prop_inv_def voters_ok_def)
  from update_reaches [OF x assms(6) wf assms(3,4)] obtain cfg' st3 r3 r4 where c: "pg_config st = Some cfg'"
    and o: "update_one deps env cfg' a li (st3, r3) (i, p) = Ok r4" "get (pg_users st3) (i, a) = get (pg_users st) (i, a)" .
  have "update_one deps env cfg a li (st3, r3) (i, p) = Ok r4" "get (pg_users st3) (i, a) = Some u" using c o assms(2,5) by simp_all
  then obtain p1 p2 user m where "remove_vote_of_user p u = Ok p1" "apply_vote_of_user env p1 li (pu_current_vote u) a = Ok (p2, user)"
    and m: "get_vote_msg deps cfg p2 i = Ok m"
    by (auto simp: update_one_def get_user_info_def update_vote_state_def and_then_Ok map_err_Ok)
  then have "pi_period p2 = pi_period p" using remove_vote_tally(2) apply_vote_tally(2) unfolding same_prop_def by metis
  then show False using zero_total_no_msg [of deps cfg p2 i] assms(7) m by simp
qed

text \<open>Alice holds the only lock. She votes in week 1; in week 20 her lock has expired and she withdraws, and the gauge refuses the update.\<close>

definition props_alone :: prop_state where
  "props_alone = sample_props [(7, sample_prop 1040 0 1040 (Some VoteYes))] [(''alice'', VoteYes, 1040)]"

lemma props_alone_runs:
  "prop_leads (props_run escrow_alice 1 props_started ''owner'' (InitProp 7 (EPOCH_START + 25 * WEEK)))
    (sample_props [(7, sample_prop 0 0 1040 None)] []) []"
  "prop_leads (props_run escrow_alice 1 (sample_props [(7, sample_prop 0 0 1040 None)] []) ''alice'' (PropVote 7 VoteYes)) props_alone [(7, VoteYes)]"
  by code_simp+

lemma props_alone_reachable: "prop_reachable True True props_alone [(7, VoteYes)]"
  using props_step [OF props_step [OF props_started_reachable props_alone_runs(1)] props_alone_runs(2)]
  by (simp add: props_alone_def)

lemma left_total: "pd_total_vamp (prop_sample_deps escrow_left 20) ''escrow'' 25 = Ok 0"
proof -
  have "case pd_total_vamp (prop_sample_deps escrow_left 20) ''escrow'' 25 of Ok x \<Rightarrow> x = 0 | _ \<Rightarrow> False" by code_simp
  then show ?thesis by (simp split: result.splits)
qed

theorem zero_total_stops_updates_witness:
  "\<exists>resp. escrow_execute ve_deps (at_week 20) escrow_alice (by_sender ''alice'') Withdraw = Ok (escrow_left, resp)
    \<and> (\<forall>li. \<not> is_ok (props_run escrow_left 20 props_alone ''escrow'' (PropUpdateVote ''alice'' li)))"
proof -
  have v: "get (pg_props props_alone) 7 = Some (sample_prop 1040 0 1040 (Some VoteYes))"
      "get (pg_users props_alone) (7, ''alice'') = Some \<lparr>pu_user = ''alice'', pu_current_vote = VoteYes, pu_vp = 1040\<rparr>"
    by (simp_all add: props_alone_def sample_props_def sample_voted_def get_def)
  have c: "pg_config props_alone = Some \<lparr>pc_owner = ''owner'', pc_escrow_addr = ''escrow'', pc_hub_addr = ''hub'',
       pc_quorum_bps = 1000, pc_use_weighted_vote = False\<rparr>" by (simp add: props_alone_def sample_props_def)
  have t: "env_time (at_week 20) \<le> pi_end_time_s (sample_prop 1040 0 1040 (Some VoteYes))" by (simp add: at_week_def sample_prop_def)
  have a: "pd_addr_validate (prop_sample_deps escrow_left 20) ''alice'' = Ok ''alice''" by (simp add: prop_sample_deps_def)
  have z: "pd_total_vamp (prop_sample_deps escrow_left 20) (pc_escrow_addr \<lparr>pc_owner = ''owner'', pc_escrow_addr = ''escrow'',
      pc_hub_addr = ''hub'', pc_quorum_bps = 1000, pc_use_weighted_vote = False\<rparr>) (pi_period (sample_prop 1040 0 1040 (Some VoteYes))) = Ok 0"
    using left_total by (simp add: sample_prop_def)
  from zero_total_stops_updates [OF props_alone_reachable c v(1) t v(2) a z] givesD [OF alice_leaves] show ?thesis by blast
qed

end
