(* ===== verification/Assets.thy ===== *)
theory Assets
  imports ErisLib
begin

text \<open>
  The assets the compounding contracts move (\<open>packages/eris/src/adapters/asset.rs\<close> and the asset functions of \<open>helper.rs\<close>). An
  asset is a native coin or a CW20 token with an amount; the data types are those of \<open>astroport::asset\<close> as the code matches on them.
  What the code calls of that crate (the printed name of an asset, its bytes, the check that a native coin was sent along, a balance) is not part of the
  repository: it is a record of functions, an argument of the definitions that use it.
\<close>

section \<open>Assets and token messages\<close>

datatype asset_info = NativeToken string | TokenAsset addr

record asset =
  as_info :: asset_info
  as_amount :: u128

definition with_balance :: "asset_info \<Rightarrow> u128 \<Rightarrow> asset" where
  "with_balance i a = \<lparr>as_info = i, as_amount = a\<rparr>"

abbreviation token_asset :: "addr \<Rightarrow> u128 \<Rightarrow> asset" where
  "token_asset a \<equiv> with_balance (TokenAsset a)"

fun is_native :: "asset_info \<Rightarrow> bool" where
  "is_native (NativeToken d) = True"
| "is_native (TokenAsset a) = False"

abbreviation is_native_token :: "asset \<Rightarrow> bool" where
  "is_native_token a \<equiv> is_native (as_info a)"

lemma with_balance_sel [simp]: "as_info (with_balance i a) = i" "as_amount (with_balance i a) = a"
  by (simp_all add: with_balance_def)

lemma with_balance_id [simp]: "with_balance (as_info a) (as_amount a) = a"
  by (simp add: with_balance_def)

record asset_lib =
  al_to_string :: "asset_info \<Rightarrow> string"
  al_as_bytes :: "asset_info \<Rightarrow> string"
  al_check :: "asset_info \<Rightarrow> (unit, std_error) result"
  al_assert_sent :: "asset \<Rightarrow> message_info \<Rightarrow> (unit, std_error) result"
  al_query_pool :: "asset_info \<Rightarrow> addr \<Rightarrow> (u128, std_error) result"

datatype expiration = AtHeight u64 | AtTime u64 | Never

text \<open>The messages of a CW20 token; \<open>'p\<close> is the payload of a token sent to a contract.\<close>

datatype 'p token_msg =
    TokenTransfer addr u128
  | TokenSend addr u128 'p
  | TokenTransferFrom addr addr u128
  | TokenIncreaseAllowance addr u128 "expiration option"
  | TokenMint addr u128
  | TokenBurn u128

section \<open>adapters/asset.rs\<close>

text \<open>\<open>wrap\<close> puts a token message among the payloads of the calling contract.\<close>

fun transfer_msg :: "('p token_msg \<Rightarrow> 'm) \<Rightarrow> asset_info \<Rightarrow> u128 \<Rightarrow> addr \<Rightarrow> 'm cosmos_msg" where
  "transfer_msg wrap (TokenAsset t) amount recipient = WasmExecute t (wrap (TokenTransfer recipient amount)) []"
| "transfer_msg wrap (NativeToken d) amount recipient = BankSend recipient [mk_coin amount d]"

fun transfer_from_msg :: "('p token_msg \<Rightarrow> 'm) \<Rightarrow> asset_info \<Rightarrow> u128 \<Rightarrow> addr \<Rightarrow> addr \<Rightarrow> ('m cosmos_msg, std_error) result" where
  "transfer_from_msg wrap (TokenAsset t) amount owner recipient =
     Ok (WasmExecute t (wrap (TokenTransferFrom owner recipient amount)) [])"
| "transfer_from_msg wrap (NativeToken d) amount owner recipient =
     Err (GenericErr ''TransferFrom does not apply to native tokens'')"

definition increase_allowance_msg ::
    "asset_lib \<Rightarrow> ('p token_msg \<Rightarrow> 'm) \<Rightarrow> asset \<Rightarrow> addr \<Rightarrow> expiration option \<Rightarrow> 'm cosmos_msg" where
  "increase_allowance_msg lib wrap a spender expires =
     WasmExecute (al_to_string lib (as_info a)) (wrap (TokenIncreaseAllowance spender (as_amount a) expires)) []"

text \<open>Returns what is appended to the messages.\<close>

definition deposit_asset ::
    "asset_lib \<Rightarrow> ('p token_msg \<Rightarrow> 'm) \<Rightarrow> asset \<Rightarrow> message_info \<Rightarrow> addr \<Rightarrow> ('m cosmos_msg list, std_error) result" where
  "deposit_asset lib wrap a info recipient =
     (if as_amount a = 0 then Ok []
      else case as_info a of
        TokenAsset t \<Rightarrow> and_then (transfer_from_msg wrap (as_info a) (as_amount a) (info_sender info) recipient) (\<lambda>m. Ok [m])
      | NativeToken d \<Rightarrow> and_then (al_assert_sent lib a info) (\<lambda>_. Ok []))"

definition query_balances :: "asset_lib \<Rightarrow> asset_info list \<Rightarrow> addr \<Rightarrow> (asset list, std_error) result" where
  "query_balances lib assets a =
     traverse (\<lambda>i. and_then (al_query_pool lib i a) (\<lambda>amount. Ok (with_balance i amount))) assets"

text \<open>Collecting pairs into a hash map keeps the last value of a key.\<close>

definition max_of :: "asset list option \<Rightarrow> asset_info \<Rightarrow> u128 option" where
  "max_of limits i = (case limits of None \<Rightarrow> None | Some ms \<Rightarrow> map_of (rev (map (\<lambda>a. (as_info a, as_amount a)) ms)) i)"

definition query_balance_diff ::
    "asset_lib \<Rightarrow> asset list \<Rightarrow> addr \<Rightarrow> asset list option \<Rightarrow> (asset list, std_error) result" where
  "query_balance_diff lib assets a max_amount =
     and_then (traverse (\<lambda>b.
        and_then (al_query_pool lib (as_info b) a) (\<lambda>balance.
        and_then (checked_sub balance (as_amount b)) (\<lambda>amount.
        Ok (with_balance (as_info b)
              (case max_of max_amount (as_info b) of
                 Some m \<Rightarrow> if m \<noteq> 0 then min amount m else amount
               | None \<Rightarrow> amount))))) assets) (\<lambda>diffs.
     Ok (filter (\<lambda>b. as_amount b \<noteq> 0) diffs))"

section \<open>helper.rs\<close>

definition assert_uniq_assets :: "asset_lib \<Rightarrow> asset list \<Rightarrow> (unit, std_error) result" where
  "assert_uniq_assets lib assets =
     (if \<not> distinct (map (\<lambda>a. al_to_string lib (as_info a)) assets) then Err (GenericErr ''duplicated asset'') else Ok ())"

definition fund_or_allow ::
    "asset_lib \<Rightarrow> ('p token_msg \<Rightarrow> 'm) \<Rightarrow> env \<Rightarrow> addr \<Rightarrow> message_info option \<Rightarrow> coin list \<times> 'm cosmos_msg list \<Rightarrow> asset \<Rightarrow>
      (coin list \<times> 'm cosmos_msg list, std_error) result" where
  "fund_or_allow lib wrap env spender deposit_info = (\<lambda>(funds, msgs) a.
     and_then (case deposit_info of Some i \<Rightarrow> deposit_asset lib wrap a i (env_contract env) | None \<Rightarrow> Ok []) (\<lambda>deposits.
     if as_amount a = 0 then Ok (funds, msgs @ deposits)
     else if is_native_token a then
       Ok (funds @ [mk_coin (as_amount a) (al_to_string lib (as_info a))], msgs @ deposits)
     else and_then (u64_add (env_height env) 1) (\<lambda>h.
       Ok (funds, msgs @ deposits @ [increase_allowance_msg lib wrap a spender (Some (AtHeight h))]))))"

definition funds_or_allowance ::
    "asset_lib \<Rightarrow> ('p token_msg \<Rightarrow> 'm) \<Rightarrow> env \<Rightarrow> addr \<Rightarrow> asset list \<Rightarrow> message_info option \<Rightarrow>
      (coin list \<times> 'm cosmos_msg list, std_error) result" where
  "funds_or_allowance lib wrap env spender assets deposit_info =
     try_fold (fund_or_allow lib wrap env spender deposit_info) ([], []) assets"

text \<open>\<open>funds.sort_by(|a, b| a.denom.cmp(&b.denom))\<close>\<close>

definition sort_funds :: "coin list \<Rightarrow> coin list" where
  "sort_funds = sort_key c_denom"

section \<open>What was sent along\<close>

text \<open>
  The documented behaviour of \<open>assert_sent_native_token_balance\<close>, for the properties that rest on it: a native asset passes exactly when
  the coin of this denomination among the sent coins has the amount of the asset, or when none is there and the amount is zero.
\<close>

definition sent_amount :: "coin list \<Rightarrow> string \<Rightarrow> u128" where
  "sent_amount coins d = (case find (\<lambda>c. c_denom c = d) coins of Some c \<Rightarrow> c_amount c | None \<Rightarrow> 0)"

definition checks_sent :: "asset_lib \<Rightarrow> bool" where
  "checks_sent lib \<longleftrightarrow> (\<forall>d amount info. al_assert_sent lib (with_balance (NativeToken d) amount) info =
     (if sent_amount (info_funds info) d = amount then Ok ()
      else Err (GenericErr ''Native token balance mismatch between the argument and the transferred'')))"

lemma sent_amount_perm:
  assumes "distinct (map c_denom cs)" and "mset cs = mset cs'"
  shows "sent_amount cs d = sent_amount cs' d"
proof -
  have map_of: "sent_amount ds d = (case map_of (map (\<lambda>c. (c_denom c, c_amount c)) ds) d of Some a \<Rightarrow> a | None \<Rightarrow> 0)" for ds
    unfolding sent_amount_def by (induction ds) auto
  have keys: "map fst (map (\<lambda>c. (c_denom c, c_amount c)) ds) = map c_denom ds" for ds by simp
  have "distinct (map c_denom cs')"
    using assms by (metis distinct_map mset_eq_imp_distinct_iff mset_map)
  moreover have "set (map (\<lambda>c. (c_denom c, c_amount c)) cs) = set (map (\<lambda>c. (c_denom c, c_amount c)) cs')"
    using assms(2) by (metis mset_map set_mset_mset)
  ultimately have "map_of (map (\<lambda>c. (c_denom c, c_amount c)) cs) = map_of (map (\<lambda>c. (c_denom c, c_amount c)) cs')"
    using assms(1) by (intro map_of_inject_set [THEN iffD2]) (simp_all only: keys)
  then show ?thesis by (simp only: map_of)
qed

lemma sent_amount_sorted: "distinct (map c_denom cs) \<Longrightarrow> sent_amount (sort_funds cs) d = sent_amount cs d"
  by (metis mset_sort sent_amount_perm sort_funds_def)

lemma deposit_native:
  assumes "checks_sent lib" and "as_info a = NativeToken d" and "deposit_asset lib wrap a info r = Ok ms"
  shows "ms = []" and "as_amount a = 0 \<or> sent_amount (info_funds info) d = as_amount a"
proof -
  have "al_assert_sent lib a info = al_assert_sent lib (with_balance (NativeToken d) (as_amount a)) info"
    using assms(2) by (metis with_balance_id)
  then show "ms = []" and "as_amount a = 0 \<or> sent_amount (info_funds info) d = as_amount a"
    using assms by (auto simp: deposit_asset_def checks_sent_def ok_simps split: if_splits)
qed

end
