(* ===== verification/Farm.thy ===== *)
theory Farm
  imports Assets
begin

text \<open>
  The auto-compounding farm (\<open>contracts/amp-compounder/astroport_farm\<close>): holders of one LP token bond it and get amp LP shares; the
  farm stakes the LP at a generator, and the controller compounds the rewards of the generator into more LP, so that a share stands for
  more and more LP. The compound proxy, which turns rewards into LP, is a contract of its own.
\<close>

section \<open>Types and state\<close>

datatype farm_error =
    FarmStd std_error
  | FarmUnauthorized
  | FarmInvalidMessage
  | FarmUnbondExceedBalance
  | FarmConfigValueTooHigh string
  | FarmMinimumReceive u128 u128

abbreviation fstd :: "('a, std_error) result \<Rightarrow> ('a, farm_error) result" where
  "fstd \<equiv> map_err FarmStd"

record farm_config =
  fa_owner :: addr
  fa_staking_contract :: addr
  fa_compound_proxy :: addr
  fa_controller :: addr
  fa_fee :: decimal
  fa_fee_collector :: addr
  fa_delay :: u64
  fa_lp_token :: addr
  fa_base_reward_token :: addr

record farm_totals =
  fs_amp_lp_token :: addr
  fs_total_bond_share :: u128

record farm_proposal =
  fp_owner :: addr
  fp_ttl :: u64

record farm_state =
  fm_config :: "farm_config option"
  fm_state :: "farm_totals option"
  fm_history :: "(u64, decimal) store"
  fm_proposal :: "farm_proposal option"

definition empty_farm :: farm_state where
  "empty_farm = \<lparr>fm_config = None, fm_state = None, fm_history = [], fm_proposal = None\<rparr>"

record token_init =
  ti_cw20_code_id :: u64
  ti_name :: string
  ti_symbol :: string
  ti_decimals :: nat

record farm_instantiate_msg =
  fim_owner :: string
  fim_staking_contract :: string
  fim_compound_proxy :: string
  fim_controller :: string
  fim_fee :: decimal
  fim_fee_collector :: string
  fim_deposit_profit_delay_s :: u64
  fim_liquidity_token :: string
  fim_base_reward_token :: string
  fim_amp_lp :: token_init

datatype farm_callback_msg =
    FarmStake u128 "u128 option"
  | FarmBondTo addr u128 "u128 option"

datatype farm_hook_msg =
    FarmBondHook "string option"
  | FarmUnbondHook "string option"

datatype farm_execute_msg =
    FarmReceive "farm_hook_msg decoded cw20_receive_msg"
  | FarmUpdateConfig "string option" "string option" "decimal option" "string option" "u64 option"
  | FarmCompound "u128 option" "decimal option"
  | FarmBondAssets "asset list" "u128 option" "bool option" "decimal option" "string option"
  | FarmProposeNewOwner string u64
  | FarmDropProposal
  | FarmClaimOwnership
  | FarmCallback farm_callback_msg

text \<open>
  What the farm sends: to CW20 tokens, to the generator (a deposit is an LP token sent to it with a payload), to the compound proxy and
  to itself.
\<close>

datatype generator_hook = GenDeposit

datatype farm_payload =
    ToToken "generator_hook token_msg"
  | GenWithdraw addr u128
  | GenClaimRewards "addr list"
  | ProxyCompound addr "asset list" "bool option" "string option" "decimal option"
  | ToFarm farm_execute_msg
  | InitToken string string nat addr

type_synonym farm_msg = "farm_payload cosmos_msg"
type_synonym farm_response = "farm_payload response"
type_synonym farm_result = "(farm_state \<times> farm_response, farm_error) result"

record lp_state =
  ls_contract_addr :: addr
  ls_liquidity_token :: addr
  ls_assets :: "asset list"
  ls_total_share :: u128

text \<open>The answers of other contracts: balances of a token, the stake and the pending rewards at the generator, the state of the pair.\<close>

record farm_deps =
  fd_addr_validate :: "string \<Rightarrow> (addr, std_error) result"
  fd_assets :: asset_lib
  fd_token_balance :: "addr \<Rightarrow> addr \<Rightarrow> (u128, std_error) result"
  fd_deposit :: "addr \<Rightarrow> addr \<Rightarrow> addr \<Rightarrow> (u128, std_error) result"
  fd_pending_token :: "addr \<Rightarrow> addr \<Rightarrow> addr \<Rightarrow> (u128 \<times> asset list option, std_error) result"
  fd_lp_state :: "addr \<Rightarrow> string \<Rightarrow> (lp_state, std_error) result"

section \<open>Messages to other contracts\<close>

definition token_mint :: "addr \<Rightarrow> u128 \<Rightarrow> addr \<Rightarrow> farm_msg" where
  "token_mint t amount receiver = WasmExecute t (ToToken (TokenMint receiver amount)) []"

definition token_burn :: "addr \<Rightarrow> u128 \<Rightarrow> farm_msg" where
  "token_burn t amount = WasmExecute t (ToToken (TokenBurn amount)) []"

definition token_instantiate :: "token_init \<Rightarrow> string \<Rightarrow> addr \<Rightarrow> farm_msg" where
  "token_instantiate t owner contract =
     WasmInstantiate (Some owner) (ti_cw20_code_id t) (InitToken (ti_name t) (ti_symbol t) (ti_decimals t) contract) []
       ''Eris Amplified Compounder Token''"

definition deposit_msg :: "addr \<Rightarrow> addr \<Rightarrow> u128 \<Rightarrow> farm_msg" where
  "deposit_msg generator lp_token amount = WasmExecute lp_token (ToToken (TokenSend generator amount GenDeposit)) []"

definition withdraw_msg :: "addr \<Rightarrow> addr \<Rightarrow> u128 \<Rightarrow> farm_msg" where
  "withdraw_msg generator lp_token amount = WasmExecute generator (GenWithdraw lp_token amount) []"

definition claim_rewards_msg :: "addr \<Rightarrow> addr list \<Rightarrow> farm_msg" where
  "claim_rewards_msg generator lp_tokens = WasmExecute generator (GenClaimRewards lp_tokens) []"

definition compound_msg :: "addr \<Rightarrow> asset list \<Rightarrow> coin list \<Rightarrow> bool option \<Rightarrow> decimal option \<Rightarrow> addr \<Rightarrow> farm_msg" where
  "compound_msg proxy rewards funds no_swap slippage_tolerance staking_token =
     WasmExecute proxy (ProxyCompound staking_token rewards no_swap None slippage_tolerance) (sort_funds funds)"

definition farm_callback_into_msg :: "farm_callback_msg \<Rightarrow> addr \<Rightarrow> farm_msg" where
  "farm_callback_into_msg msg contract = WasmExecute contract (ToFarm (FarmCallback msg)) []"

section \<open>Shares (\<open>state.rs\<close>)\<close>

definition calc_bond_share :: "farm_totals \<Rightarrow> u128 \<Rightarrow> u128 \<Rightarrow> (u128, 'e) result" where
  "calc_bond_share s bond_amount lp_balance =
     (if fs_total_bond_share s = 0 \<or> lp_balance = 0 then Ok bond_amount
      else multiply_ratio bond_amount (fs_total_bond_share s) lp_balance)"

definition calc_bond_amount :: "farm_totals \<Rightarrow> u128 \<Rightarrow> u128 \<Rightarrow> (u128, 'e) result" where
  "calc_bond_amount s lp_balance bond_share =
     (if fs_total_bond_share s = 0 then Ok 0
      else multiply_ratio lp_balance bond_share (fs_total_bond_share s))"

definition calc_exchange_rate :: "farm_totals \<Rightarrow> u128 \<Rightarrow> (decimal, 'e) result" where
  "calc_exchange_rate s total_lp =
     (if fs_total_bond_share s = 0 then Ok DEC_ONE
      else dec_from_ratio total_lp (fs_total_bond_share s))"

definition RELAVANT_EXCHANGE_RATES :: nat where "RELAVANT_EXCHANGE_RATES = 3"

text \<open>The newest rates, newest first.\<close>

definition relevant_rates :: "(u64, decimal) store \<Rightarrow> (u64 \<times> decimal) list" where
  "relevant_rates history = take RELAVANT_EXCHANGE_RATES (rev (entries history))"

text \<open>
  The first and last of the relevant rates give the growth of the rate over their distance in time, scaled to the delay: one plus this growth
  is what a new deposit is divided by.
\<close>

definition delay_factor :: "u64 \<Rightarrow> u64 \<times> decimal \<Rightarrow> u64 \<times> decimal \<Rightarrow> (decimal, std_error) result" where
  "delay_factor seconds current oldest =
     and_then (u64_sub (fst current) (fst oldest)) (\<lambda>delta_time_s.
     let delta_rate = snd current - snd oldest in
     and_then (dec_from_ratio delta_rate (snd oldest)) (\<lambda>delta_rate_percent.
     and_then (dec_from_ratio seconds delta_time_s) (\<lambda>f.
     and_then (dec_checked_mul delta_rate_percent f) (\<lambda>factor.
     dec_checked_add factor DEC_ONE))))"

definition calc_adjusted_share :: "u64 \<Rightarrow> (u64, decimal) store \<Rightarrow> u128 \<Rightarrow> (u128, std_error) result" where
  "calc_adjusted_share seconds history bond_share =
     (if seconds = 0 then Ok bond_share
      else let exchange_rates = relevant_rates history in
        if length exchange_rates < 2 then Ok bond_share
        else
          and_then (delay_factor seconds (exchange_rates ! 0) (exchange_rates ! (length exchange_rates - 1))) (\<lambda>factor_plus_one.
          and_then (dec_from_ratio DEC_ONE factor_plus_one) (\<lambda>inverse.
          multiply_ratio bond_share inverse DEC_ONE)))"

section \<open>Bonding (\<open>bond.rs\<close>)\<close>

definition bond_assets ::
    "farm_deps \<Rightarrow> env \<Rightarrow> message_info \<Rightarrow> asset list \<Rightarrow> u128 option \<Rightarrow> bool option \<Rightarrow> decimal option \<Rightarrow> addr \<Rightarrow> farm_state \<Rightarrow> farm_result" where
  "bond_assets deps env info assets minimum_receive no_swap slippage_tolerance receiver st =
     and_then (fstd (load_item (fm_config st))) (\<lambda>config.
     and_then (fstd (assert_uniq_assets (fd_assets deps) assets)) (\<lambda>_.
     and_then (fstd (funds_or_allowance (fd_assets deps) ToToken env (fa_compound_proxy config) assets (Some info))) (\<lambda>(funds, messages).
     and_then (fstd (fd_token_balance deps (fa_lp_token config) (env_contract env))) (\<lambda>prev_balance.
     Ok (st, add_attribute (add_messages new_response (messages @
         [compound_msg (fa_compound_proxy config) assets funds no_swap slippage_tolerance (fa_lp_token config),
          farm_callback_into_msg (FarmBondTo receiver prev_balance minimum_receive) (env_contract env)]))
       ''action'' ''ampf/bond_assets'')))))"

definition bond_internal :: "farm_deps \<Rightarrow> env \<Rightarrow> farm_config \<Rightarrow> addr \<Rightarrow> u128 \<Rightarrow> farm_state \<Rightarrow> farm_result" where
  "bond_internal deps env config staker_addr amount st =
     and_then (fstd (fd_deposit deps (fa_staking_contract config) (fa_lp_token config) (env_contract env))) (\<lambda>lp_balance.
     and_then (fstd (load_item (fm_state st))) (\<lambda>state.
     and_then (calc_bond_share state amount lp_balance) (\<lambda>bond_share.
     and_then (fstd (calc_adjusted_share (fa_delay config) (fm_history st) bond_share)) (\<lambda>bond_share_adjusted.
     and_then (u128_add (fs_total_bond_share state) bond_share_adjusted) (\<lambda>total_bond_share.
     Ok (st\<lparr>fm_state := Some (state\<lparr>fs_total_bond_share := total_bond_share\<rparr>)\<rparr>,
       add_attributes (add_messages new_response
         [token_mint (fs_amp_lp_token state) bond_share_adjusted staker_addr,
          deposit_msg (fa_staking_contract config) (fa_lp_token config) amount])
         [(''action'', ''ampf/bond''), (''amount'', nat_str amount), (''bond_amount'', nat_str amount),
          (''bond_share_adjusted'', nat_str bond_share_adjusted), (''bond_share'', nat_str bond_share)]))))))"

definition check_minimum :: "u128 option \<Rightarrow> u128 \<Rightarrow> (unit, farm_error) result" where
  "check_minimum minimum_receive amount =
     (case minimum_receive of
        Some m \<Rightarrow> if amount < m then Err (FarmMinimumReceive m amount) else Ok ()
      | None \<Rightarrow> Ok ())"

definition bond_to :: "farm_deps \<Rightarrow> env \<Rightarrow> addr \<Rightarrow> u128 \<Rightarrow> u128 option \<Rightarrow> farm_state \<Rightarrow> farm_result" where
  "bond_to deps env recipient prev_balance minimum_receive st =
     and_then (fstd (load_item (fm_config st))) (\<lambda>config.
     and_then (fstd (fd_token_balance deps (fa_lp_token config) (env_contract env))) (\<lambda>balance.
     and_then (u128_sub balance prev_balance) (\<lambda>amount.
     and_then (check_minimum minimum_receive amount) (\<lambda>_.
     bond_internal deps env config recipient amount st))))"

definition farm_bond :: "farm_deps \<Rightarrow> env \<Rightarrow> message_info \<Rightarrow> string \<Rightarrow> u128 \<Rightarrow> farm_state \<Rightarrow> farm_result" where
  "farm_bond deps env info sender_addr amount st =
     and_then (fstd (fd_addr_validate deps sender_addr)) (\<lambda>staker_addr.
     and_then (fstd (load_item (fm_config st))) (\<lambda>config.
     if fa_lp_token config \<noteq> info_sender info then Err FarmUnauthorized
     else bond_internal deps env config staker_addr amount st))"

definition farm_unbond :: "farm_deps \<Rightarrow> env \<Rightarrow> message_info \<Rightarrow> string \<Rightarrow> u128 \<Rightarrow> farm_state \<Rightarrow> farm_result" where
  "farm_unbond deps env info sender_addr amount st =
     and_then (fstd (fd_addr_validate deps sender_addr)) (\<lambda>staker_addr.
     and_then (fstd (load_item (fm_state st))) (\<lambda>state.
     if fs_amp_lp_token state \<noteq> info_sender info then Err FarmUnauthorized
     else
       and_then (fstd (load_item (fm_config st))) (\<lambda>config.
       and_then (fstd (fd_deposit deps (fa_staking_contract config) (fa_lp_token config) (env_contract env))) (\<lambda>lp_balance.
       and_then (calc_bond_amount state lp_balance amount) (\<lambda>bond_amount.
       and_then (fstd (checked_sub (fs_total_bond_share state) amount)) (\<lambda>total_bond_share.
       Ok (st\<lparr>fm_state := Some (state\<lparr>fs_total_bond_share := total_bond_share\<rparr>)\<rparr>,
         add_attributes (add_messages new_response
           [token_burn (fs_amp_lp_token state) amount,
            withdraw_msg (fa_staking_contract config) (fa_lp_token config) bond_amount,
            transfer_msg ToToken (TokenAsset (fa_lp_token config)) bond_amount staker_addr])
           [(''action'', ''ampf/unbond''), (''staker_addr'', staker_addr), (''amount'', nat_str bond_amount)])))))))"

section \<open>Compounding (\<open>compound.rs\<close>)\<close>

text \<open>One reward is split into a commission and the part that is compounded; the state of the loop is what has been collected so far.\<close>

record compound_run =
  cr_msgs :: "farm_msg list"
  cr_rewards :: "asset list"
  cr_funds :: "coin list"
  cr_attrs :: "attribute list"

definition compound_one :: "farm_deps \<Rightarrow> env \<Rightarrow> farm_config \<Rightarrow> u128 \<Rightarrow> compound_run \<Rightarrow> asset \<Rightarrow> (compound_run, farm_error) result" where
  "compound_one deps env config lp_balance run asset =
     (if as_amount asset \<noteq> 0 \<and> lp_balance \<noteq> 0 then
        and_then (multiply_ratio (as_amount asset) (fa_fee config) DEC_ONE) (\<lambda>commission_amount.
        and_then (fstd (checked_sub (as_amount asset) commission_amount)) (\<lambda>compound_amount.
        and_then (if compound_amount = 0 then Ok run
          else let compound_asset = with_balance (as_info asset) compound_amount in
            and_then (case as_info asset of
               NativeToken denom \<Rightarrow> Ok (run\<lparr>cr_funds := cr_funds run @ [mk_coin (as_amount asset) denom]\<rparr>)
             | TokenAsset t \<Rightarrow> and_then (u64_add (env_height env) 1) (\<lambda>h.
                 Ok (run\<lparr>cr_msgs := cr_msgs run @ [increase_allowance_msg (fd_assets deps) ToToken compound_asset
                   (fa_compound_proxy config) (Some (AtHeight h))]\<rparr>))) (\<lambda>run.
            Ok (run\<lparr>cr_rewards := cr_rewards run @ [compound_asset]\<rparr>))) (\<lambda>run.
        let run = (if commission_amount = 0 then run
          else run\<lparr>cr_msgs := cr_msgs run @ [transfer_msg ToToken (as_info asset) commission_amount (fa_fee_collector config)]\<rparr>) in
        Ok (run\<lparr>cr_attrs := cr_attrs run @
          [(''token'', al_to_string (fd_assets deps) (as_info asset)), (''compound_amount'', nat_str compound_amount),
           (''commission_amount'', nat_str commission_amount)]\<rparr>))))
      else Ok run)"

definition compound_messages ::
    "farm_deps \<Rightarrow> env \<Rightarrow> farm_config \<Rightarrow> u128 option \<Rightarrow> decimal option \<Rightarrow> compound_run \<Rightarrow> (farm_msg list, farm_error) result" where
  "compound_messages deps env config minimum_receive slippage_tolerance run =
     (if cr_rewards run = [] then Ok (cr_msgs run)
      else and_then (fstd (fd_token_balance deps (fa_lp_token config) (env_contract env))) (\<lambda>prev_balance.
        Ok (cr_msgs run @
          [compound_msg (fa_compound_proxy config) (cr_rewards run) (cr_funds run) None slippage_tolerance (fa_lp_token config),
           farm_callback_into_msg (FarmStake prev_balance minimum_receive) (env_contract env)])))"

definition farm_compound :: "farm_deps \<Rightarrow> env \<Rightarrow> message_info \<Rightarrow> u128 option \<Rightarrow> decimal option \<Rightarrow> farm_state \<Rightarrow> farm_result" where
  "farm_compound deps env info minimum_receive slippage_tolerance st =
     and_then (fstd (load_item (fm_config st))) (\<lambda>config.
     if info_sender info \<noteq> fa_controller config then Err FarmUnauthorized
     else
       let staking_token = fa_lp_token config in
       and_then (fstd (fd_pending_token deps (fa_staking_contract config) staking_token (env_contract env))) (\<lambda>(pending, pending_on_proxy).
       and_then (fstd (fd_deposit deps (fa_staking_contract config) staking_token (env_contract env))) (\<lambda>lp_balance.
       let rewards = token_asset (fa_base_reward_token config) pending # unwrap_or pending_on_proxy [] in
       and_then (try_fold (compound_one deps env config lp_balance)
           \<lparr>cr_msgs = [claim_rewards_msg (fa_staking_contract config) [staking_token]], cr_rewards = [], cr_funds = [], cr_attrs = []\<rparr> rewards) (\<lambda>run.
       and_then (compound_messages deps env config minimum_receive slippage_tolerance run) (\<lambda>messages.
       Ok (st, add_attributes (add_attribute (add_messages new_response messages) ''action'' ''ampf/compound'') (cr_attrs run)))))))"

definition farm_stake :: "farm_deps \<Rightarrow> env \<Rightarrow> u128 \<Rightarrow> u128 option \<Rightarrow> farm_state \<Rightarrow> farm_result" where
  "farm_stake deps env prev_balance minimum_receive st =
     and_then (fstd (load_item (fm_config st))) (\<lambda>config.
     and_then (fstd (fd_token_balance deps (fa_lp_token config) (env_contract env))) (\<lambda>balance.
     and_then (u128_sub balance prev_balance) (\<lambda>amount.
     and_then (check_minimum minimum_receive amount) (\<lambda>_.
     and_then (fstd (fd_deposit deps (fa_staking_contract config) (fa_lp_token config) (env_contract env))) (\<lambda>current_lp.
     and_then (fstd (checked_add current_lp amount)) (\<lambda>total_lp.
     and_then (fstd (load_item (fm_state st))) (\<lambda>state.
     and_then (calc_exchange_rate state total_lp) (\<lambda>exchange_rate.
     Ok (st\<lparr>fm_history := put (env_time env) exchange_rate (fm_history st)\<rparr>,
       add_attributes (add_message new_response (deposit_msg (fa_staking_contract config) (fa_lp_token config) amount))
         [(''action'', ''ampf/stake''), (''staking_token'', fa_lp_token config), (''amount'', nat_str amount)])))))))))"

section \<open>Ownership (\<open>ownership.rs\<close>)\<close>

definition farm_propose_new_owner :: "farm_deps \<Rightarrow> message_info \<Rightarrow> env \<Rightarrow> string \<Rightarrow> u64 \<Rightarrow> addr \<Rightarrow> farm_state \<Rightarrow>
    (farm_state \<times> farm_response, std_error) result" where
  "farm_propose_new_owner deps info env new_owner expires_in owner st =
     (if info_sender info \<noteq> owner then Err (GenericErr ''Unauthorized'')
      else and_then (fd_addr_validate deps new_owner) (\<lambda>new_owner.
        if new_owner = owner then Err (GenericErr ''New owner cannot be same'')
        else if expires_in > 14 * 24 * 60 * 60 then Err (GenericErr ''Expiry must be in less than 14 days'')
        else and_then (u64_add (env_time env) expires_in) (\<lambda>ttl.
          Ok (st\<lparr>fm_proposal := Some \<lparr>fp_owner = new_owner, fp_ttl = ttl\<rparr>\<rparr>,
            add_attributes new_response [(''action'', ''propose_new_owner''), (''new_owner'', new_owner)]))))"

definition farm_drop_ownership_proposal :: "message_info \<Rightarrow> addr \<Rightarrow> farm_state \<Rightarrow> (farm_state \<times> farm_response, std_error) result" where
  "farm_drop_ownership_proposal info owner st =
     (if info_sender info \<noteq> owner then Err (GenericErr ''Unauthorized'')
      else Ok (st\<lparr>fm_proposal := None\<rparr>, add_attributes new_response [(''action'', ''drop_ownership_proposal'')]))"

text \<open>The callback of the contract stores the new owner in its configuration.\<close>

definition farm_claim_ownership :: "message_info \<Rightarrow> env \<Rightarrow> farm_state \<Rightarrow> (farm_state \<times> farm_response, std_error) result" where
  "farm_claim_ownership info env st =
     and_then (ok_or (GenericErr ''Ownership proposal not found'') (fm_proposal st)) (\<lambda>p.
     if info_sender info \<noteq> fp_owner p then Err (GenericErr ''Unauthorized'')
     else if env_time env > fp_ttl p then Err (GenericErr ''Ownership proposal expired'')
     else and_then (load_item (fm_config st)) (\<lambda>config.
       Ok (st\<lparr>fm_proposal := None, fm_config := Some (config\<lparr>fa_owner := fp_owner p\<rparr>)\<rparr>,
         add_attributes new_response [(''action'', ''claim_ownership''), (''new_owner'', fp_owner p)])))"

section \<open>Entry points (\<open>contract.rs\<close>, \<open>execute.rs\<close>)\<close>

definition validate_percentage :: "decimal \<Rightarrow> string \<Rightarrow> (unit, std_error) result" where
  "validate_percentage v field = (if v > DEC_ONE then Err (GenericErr (field @ '' must be 0 to 1'')) else Ok ())"

definition validate_deposit_profit_delay :: "u64 \<Rightarrow> (u64, farm_error) result" where
  "validate_deposit_profit_delay s = (if s > WEEK then Err (FarmConfigValueTooHigh ''deposit_profit_delay_s'') else Ok s)"

definition TOKEN_INSTANTIATE_REPLY :: u64 where "TOKEN_INSTANTIATE_REPLY = 1"

definition farm_instantiate :: "farm_deps \<Rightarrow> env \<Rightarrow> farm_instantiate_msg \<Rightarrow> farm_state \<Rightarrow> farm_result" where
  "farm_instantiate deps env msg st =
     and_then (fstd (validate_percentage (fim_fee msg) ''fee'')) (\<lambda>_.
     and_then (fstd (fd_addr_validate deps (fim_owner msg))) (\<lambda>owner.
     and_then (fstd (fd_addr_validate deps (fim_staking_contract msg))) (\<lambda>staking_contract.
     and_then (fstd (fd_addr_validate deps (fim_compound_proxy msg))) (\<lambda>compound_proxy.
     and_then (fstd (fd_addr_validate deps (fim_controller msg))) (\<lambda>controller.
     and_then (fstd (fd_addr_validate deps (fim_fee_collector msg))) (\<lambda>fee_collector.
     and_then (fstd (fd_addr_validate deps (fim_liquidity_token msg))) (\<lambda>lp_token.
     and_then (fstd (fd_addr_validate deps (fim_base_reward_token msg))) (\<lambda>base_reward_token.
     and_then (validate_deposit_profit_delay (fim_deposit_profit_delay_s msg)) (\<lambda>delay.
     Ok (st\<lparr>fm_config := Some \<lparr>fa_owner = owner, fa_staking_contract = staking_contract, fa_compound_proxy = compound_proxy,
           fa_controller = controller, fa_fee = fim_fee msg, fa_fee_collector = fee_collector, fa_delay = delay,
           fa_lp_token = lp_token, fa_base_reward_token = base_reward_token\<rparr>\<rparr>,
       add_submessage new_response
         (ReplyOnSuccess (token_instantiate (fim_amp_lp msg) (fim_owner msg) (env_contract env)) TOKEN_INSTANTIATE_REPLY)))))))))))"

definition register_amp_lp_token :: "farm_deps \<Rightarrow> event list \<Rightarrow> farm_state \<Rightarrow> (farm_state \<times> farm_response, std_error) result" where
  "register_amp_lp_token deps events st =
     and_then (ok_or (GenericErr ''cannot find `instantiate` event'') (find (\<lambda>e. ev_type e = ''instantiate'') events)) (\<lambda>event.
     and_then (ok_or (GenericErr ''cannot find `_contract_address` attribute'')
         (find (\<lambda>a. fst a = ''_contract_address'') (ev_attrs event))) (\<lambda>attribute.
     and_then (fd_addr_validate deps (snd attribute)) (\<lambda>contract_addr.
     Ok (st\<lparr>fm_state := Some \<lparr>fs_amp_lp_token = contract_addr, fs_total_bond_share = 0\<rparr>\<rparr>, new_response))))"

definition farm_reply :: "farm_deps \<Rightarrow> reply \<Rightarrow> farm_state \<Rightarrow> (farm_state \<times> farm_response, std_error) result" where
  "farm_reply deps r st =
     (if reply_id r = TOKEN_INSTANTIATE_REPLY then and_then (unwrap_reply r) (\<lambda>events. register_amp_lp_token deps events st)
      else Err (GenericErr (''invalid reply id: '' @ nat_str (reply_id r) @ ''; must be 1'')))"

definition farm_receive_cw20 :: "farm_deps \<Rightarrow> env \<Rightarrow> message_info \<Rightarrow> farm_hook_msg decoded cw20_receive_msg \<Rightarrow> farm_state \<Rightarrow> farm_result" where
  "farm_receive_cw20 deps env info msg st =
     (case from_binary (cw20_payload msg) of
        Ok (FarmBondHook staker_addr) \<Rightarrow>
          farm_bond deps env info (unwrap_or staker_addr (cw20_sender msg)) (cw20_amount msg) st
      | Ok (FarmUnbondHook receiver) \<Rightarrow>
          farm_unbond deps env info (unwrap_or receiver (cw20_sender msg)) (cw20_amount msg) st
      | _ \<Rightarrow> Err FarmInvalidMessage)"

definition validated_or :: "(string \<Rightarrow> (addr, std_error) result) \<Rightarrow> string option \<Rightarrow> addr \<Rightarrow> (addr, farm_error) result" where
  "validated_or validate new old = (case new of Some s \<Rightarrow> fstd (validate s) | None \<Rightarrow> Ok old)"

definition farm_update_config ::
    "farm_deps \<Rightarrow> message_info \<Rightarrow> string option \<Rightarrow> string option \<Rightarrow> decimal option \<Rightarrow> string option \<Rightarrow> u64 option \<Rightarrow> farm_state \<Rightarrow> farm_result" where
  "farm_update_config deps info compound_proxy controller fee fee_collector deposit_profit_delay_s st =
     and_then (fstd (load_item (fm_config st))) (\<lambda>config.
     if info_sender info \<noteq> fa_owner config then Err FarmUnauthorized
     else
       and_then (validated_or (fd_addr_validate deps) compound_proxy (fa_compound_proxy config)) (\<lambda>compound_proxy.
       and_then (validated_or (fd_addr_validate deps) controller (fa_controller config)) (\<lambda>controller.
       and_then (case fee of
           Some f \<Rightarrow> and_then (fstd (validate_percentage f ''fee'')) (\<lambda>_. Ok f)
         | None \<Rightarrow> Ok (fa_fee config)) (\<lambda>fee.
       and_then (validated_or (fd_addr_validate deps) fee_collector (fa_fee_collector config)) (\<lambda>fee_collector.
       and_then (case deposit_profit_delay_s of
           Some s \<Rightarrow> validate_deposit_profit_delay s
         | None \<Rightarrow> Ok (fa_delay config)) (\<lambda>delay.
       Ok (st\<lparr>fm_config := Some (config\<lparr>fa_compound_proxy := compound_proxy, fa_controller := controller, fa_fee := fee,
             fa_fee_collector := fee_collector, fa_delay := delay\<rparr>)\<rparr>,
         add_attributes new_response [(''action'', ''ampf/update_config'')])))))))"

definition farm_handle_callback :: "farm_deps \<Rightarrow> env \<Rightarrow> message_info \<Rightarrow> farm_callback_msg \<Rightarrow> farm_state \<Rightarrow> farm_result" where
  "farm_handle_callback deps env info msg st =
     (if info_sender info \<noteq> env_contract env then Err FarmUnauthorized
      else case msg of
        FarmStake prev_balance minimum_receive \<Rightarrow> farm_stake deps env prev_balance minimum_receive st
      | FarmBondTo recipient prev_balance minimum_receive \<Rightarrow> bond_to deps env recipient prev_balance minimum_receive st)"

fun farm_execute :: "farm_deps \<Rightarrow> env \<Rightarrow> message_info \<Rightarrow> farm_execute_msg \<Rightarrow> farm_state \<Rightarrow> farm_result" where
  "farm_execute deps env info (FarmReceive msg) st = farm_receive_cw20 deps env info msg st"
| "farm_execute deps env info (FarmUpdateConfig compound_proxy controller fee fee_collector delay) st =
     farm_update_config deps info compound_proxy controller fee fee_collector delay st"
| "farm_execute deps env info (FarmBondAssets assets minimum_receive no_swap slippage_tolerance receiver) st =
     and_then (fstd (addr_opt_validate (fd_addr_validate deps) receiver)) (\<lambda>receiver.
     bond_assets deps env info assets minimum_receive no_swap slippage_tolerance (unwrap_or receiver (info_sender info)) st)"
| "farm_execute deps env info (FarmCompound minimum_receive slippage_tolerance) st =
     farm_compound deps env info minimum_receive slippage_tolerance st"
| "farm_execute deps env info (FarmProposeNewOwner owner expires_in) st =
     and_then (fstd (load_item (fm_config st))) (\<lambda>config.
     fstd (farm_propose_new_owner deps info env owner expires_in (fa_owner config) st))"
| "farm_execute deps env info FarmDropProposal st =
     and_then (fstd (load_item (fm_config st))) (\<lambda>config.
     fstd (farm_drop_ownership_proposal info (fa_owner config) st))"
| "farm_execute deps env info FarmClaimOwnership st = fstd (farm_claim_ownership info env st)"
| "farm_execute deps env info (FarmCallback msg) st = farm_handle_callback deps env info msg st"

section \<open>Queries (\<open>queries.rs\<close>)\<close>

record farm_user_info =
  fui_user_lp_amount :: u128
  fui_user_amp_lp_amount :: u128

record farm_user_info_response =
  fur_user_lp_amount :: u128
  fur_user_amp_lp_amount :: u128
  fur_total_lp :: u128
  fur_total_amp_lp :: u128

record farm_config_response =
  fcr_lp_token :: addr
  fcr_amp_lp_token :: addr
  fcr_owner :: addr
  fcr_staking_contract :: addr
  fcr_compound_proxy :: addr
  fcr_controller :: addr
  fcr_fee :: decimal
  fcr_fee_collector :: addr
  fcr_base_reward_token :: addr
  fcr_deposit_profit_delay_s :: u64

record farm_state_response =
  fsr_total_lp :: u128
  fsr_total_amp_lp :: u128
  fsr_exchange_rate :: decimal
  fsr_pair_contract :: addr
  fsr_locked_assets :: "asset list"
  fsr_user_info :: "farm_user_info option"

record exchange_rates_response =
  xr_exchange_rates :: "(u64 \<times> decimal) list"
  xr_apr :: "decimal option"

definition farm_query_config :: "farm_state \<Rightarrow> (farm_config_response, std_error) result" where
  "farm_query_config st =
     and_then (load_item (fm_config st)) (\<lambda>config.
     and_then (load_item (fm_state st)) (\<lambda>state.
     Ok \<lparr>fcr_lp_token = fa_lp_token config, fcr_amp_lp_token = fs_amp_lp_token state, fcr_owner = fa_owner config,
       fcr_staking_contract = fa_staking_contract config, fcr_compound_proxy = fa_compound_proxy config,
       fcr_controller = fa_controller config, fcr_fee = fa_fee config, fcr_fee_collector = fa_fee_collector config,
       fcr_base_reward_token = fa_base_reward_token config, fcr_deposit_profit_delay_s = fa_delay config\<rparr>))"

text \<open>\<open>.ok()?\<close>: an error leaves the information out, a panic in it does not return.\<close>

fun ok_option :: "('a, 'e) result \<Rightarrow> ('a option, 'f) result" where
  "ok_option (Ok x) = Ok (Some x)"
| "ok_option (Err e) = Ok None"
| "ok_option Panic = Panic"

definition farm_state_user :: "farm_deps \<Rightarrow> farm_totals \<Rightarrow> u128 \<Rightarrow> string \<Rightarrow> (farm_user_info, std_error) result" where
  "farm_state_user deps state total_lp a =
     and_then (fd_addr_validate deps a) (\<lambda>a.
     and_then (fd_token_balance deps (fs_amp_lp_token state) a) (\<lambda>user_amp_lp_amount.
     and_then (calc_bond_amount state total_lp user_amp_lp_amount) (\<lambda>user_lp_amount.
     Ok \<lparr>fui_user_lp_amount = user_lp_amount, fui_user_amp_lp_amount = user_amp_lp_amount\<rparr>)))"

definition farm_query_state :: "farm_deps \<Rightarrow> env \<Rightarrow> string option \<Rightarrow> farm_state \<Rightarrow> (farm_state_response, std_error) result" where
  "farm_query_state deps env a st =
     and_then (load_item (fm_state st)) (\<lambda>state.
     and_then (load_item (fm_config st)) (\<lambda>config.
     and_then (fd_deposit deps (fa_staking_contract config) (fa_lp_token config) (env_contract env)) (\<lambda>total_lp.
     and_then (fd_lp_state deps (fa_compound_proxy config) (fa_lp_token config)) (\<lambda>lp_state.
     and_then (dec_from_ratio total_lp (ls_total_share lp_state)) (\<lambda>asset_factor.
     and_then (traverse (\<lambda>b. and_then (multiply_ratio (as_amount b) asset_factor DEC_ONE) (\<lambda>amount.
         Ok (with_balance (as_info b) amount))) (ls_assets lp_state)) (\<lambda>locked_assets.
     and_then (case a of None \<Rightarrow> Ok None | Some a \<Rightarrow> ok_option (farm_state_user deps state total_lp a)) (\<lambda>user_info.
     and_then (calc_exchange_rate state total_lp) (\<lambda>exchange_rate.
     Ok \<lparr>fsr_total_lp = total_lp, fsr_total_amp_lp = fs_total_bond_share state, fsr_exchange_rate = exchange_rate,
       fsr_pair_contract = ls_contract_addr lp_state, fsr_locked_assets = locked_assets, fsr_user_info = user_info\<rparr>))))))))"

definition farm_query_user_info :: "farm_deps \<Rightarrow> env \<Rightarrow> string \<Rightarrow> farm_state \<Rightarrow> (farm_user_info_response, std_error) result" where
  "farm_query_user_info deps env a st =
     and_then (fd_addr_validate deps a) (\<lambda>staker.
     and_then (load_item (fm_state st)) (\<lambda>state.
     and_then (load_item (fm_config st)) (\<lambda>config.
     and_then (fd_deposit deps (fa_staking_contract config) (fa_lp_token config) (env_contract env)) (\<lambda>total_lp.
     and_then (fd_token_balance deps (fs_amp_lp_token state) staker) (\<lambda>user_amp_lp_amount.
     and_then (calc_bond_amount state total_lp user_amp_lp_amount) (\<lambda>user_lp_amount.
     Ok \<lparr>fur_user_lp_amount = user_lp_amount, fur_user_amp_lp_amount = user_amp_lp_amount, fur_total_lp = total_lp,
       fur_total_amp_lp = fs_total_bond_share state\<rparr>))))))"

definition DAY :: u64 where "DAY = 24 * 60 * 60"

text \<open>The rates before \<open>start_after\<close>, newest first.\<close>

definition rates_before :: "u64 option \<Rightarrow> nat \<Rightarrow> (u64, decimal) store \<Rightarrow> (u64 \<times> decimal) list" where
  "rates_before start_after limit history =
     take limit (rev (filter (\<lambda>e. case start_after of None \<Rightarrow> True | Some s \<Rightarrow> fst e < s) (entries history)))"

definition rates_apr :: "(u64 \<times> decimal) list \<Rightarrow> (decimal option, std_error) result" where
  "rates_apr exchange_rates =
     (if length exchange_rates > 1 then
        let current = exchange_rates ! 0; oldest = exchange_rates ! (length exchange_rates - 1) in
        and_then (u64_sub (fst current) (fst oldest)) (\<lambda>delta_time_s.
        and_then (dec_from_ratio DAY delta_time_s) (\<lambda>r.
        and_then (dec_from_ratio r (snd oldest)) (\<lambda>q.
        and_then (dec_checked_mul (snd current - snd oldest) q) (\<lambda>apr.
        Ok (Some apr)))))
      else Ok None)"

definition farm_query_exchange_rates :: "u64 option \<Rightarrow> nat option \<Rightarrow> farm_state \<Rightarrow> (exchange_rates_response, std_error) result" where
  "farm_query_exchange_rates start_after limit st =
     (let rates = rates_before start_after (min (unwrap_or limit 10) 30) (fm_history st) in
      and_then (rates_apr rates) (\<lambda>apr.
      Ok \<lparr>xr_exchange_rates = rates, xr_apr = apr\<rparr>))"

datatype farm_query_msg =
    FarmConfigQuery
  | FarmUserInfoQuery string
  | FarmStateQuery "string option"
  | FarmExchangeRatesQuery "u64 option" "nat option"

datatype farm_answer =
    FarmConfigAnswer farm_config_response
  | FarmUserInfoAnswer farm_user_info_response
  | FarmStateAnswer farm_state_response
  | FarmExchangeRatesAnswer exchange_rates_response

fun farm_query :: "farm_deps \<Rightarrow> env \<Rightarrow> farm_query_msg \<Rightarrow> farm_state \<Rightarrow> (farm_answer, std_error) result" where
  "farm_query deps env FarmConfigQuery st = and_then (farm_query_config st) (\<lambda>r. Ok (FarmConfigAnswer r))"
| "farm_query deps env (FarmUserInfoQuery a) st = and_then (farm_query_user_info deps env a st) (\<lambda>r. Ok (FarmUserInfoAnswer r))"
| "farm_query deps env (FarmStateQuery a) st = and_then (farm_query_state deps env a st) (\<lambda>r. Ok (FarmStateAnswer r))"
| "farm_query deps env (FarmExchangeRatesQuery start_after limit) st =
     and_then (farm_query_exchange_rates start_after limit st) (\<lambda>r. Ok (FarmExchangeRatesAnswer r))"

definition farm_migrate :: "farm_state \<Rightarrow> (farm_state \<times> farm_response, std_error) result" where
  "farm_migrate st = Ok (st, new_response)"

end
