(* ===== verification/FarmBooks.thy ===== *)
theory FarmBooks
  imports Farm ShareVault
begin

text \<open>
  What the messages of the farm do outside it: LP staked and withdrawn at the generator, amp LP minted and burned. The books are the state
  of the farm, the LP staked for it and the supply of amp LP, each moved by the messages of every response; others may stake for
  the farm at any time. The farm is a vault in the sense of \<open>ShareVault\<close>: its shares are issued and paid by the two calculations of
  \<open>state.rs\<close>, the issue reduced by the profit delay.
\<close>

section \<open>The farm as a vault\<close>

lemma calc_bond_share_Ok [ok_simps]:
  "calc_bond_share s a T = Ok m \<longleftrightarrow>
     (if fs_total_bond_share s = 0 \<or> T = 0 then m = a
      else m = a * fs_total_bond_share s div T \<and> m \<le> U128_MAX)"
  by (auto simp: calc_bond_share_def ok_simps)

lemma calc_bond_amount_Ok [ok_simps]:
  "calc_bond_amount s T x = Ok r \<longleftrightarrow>
     (if fs_total_bond_share s = 0 then r = 0
      else r = T * x div fs_total_bond_share s \<and> r \<le> U128_MAX)"
  by (auto simp: calc_bond_amount_def ok_simps)

lemma delay_factor_Ok:
  "delay_factor seconds (t1, r1) (t0, r0) = Ok f \<longleftrightarrow>
     t0 < t1 \<and> 0 < r0 \<and> (r1 - r0) * DEC_ONE div r0 \<le> U128_MAX \<and> seconds * DEC_ONE div (t1 - t0) \<le> U128_MAX \<and>
     f = ((r1 - r0) * DEC_ONE div r0) * (seconds * DEC_ONE div (t1 - t0)) div DEC_ONE + DEC_ONE \<and> f \<le> U128_MAX"
  by (auto simp: delay_factor_def ok_simps Let_def)

lemma delay_factor_ge: "delay_factor seconds a b = Ok f \<Longrightarrow> DEC_ONE \<le> f"
  by (cases a; cases b) (auto simp: delay_factor_Ok)

text \<open>The factor a deposit is divided by; one without a delay, or with fewer than two rates.\<close>

definition rate_growth :: "u64 \<Rightarrow> (u64, decimal) store \<Rightarrow> decimal option" where
  "rate_growth seconds history =
     (let rs = relevant_rates history in
      if seconds = 0 \<or> length rs < 2 then Some DEC_ONE
      else case (delay_factor seconds (rs ! 0) (rs ! (length rs - 1)) :: (decimal, std_error) result) of Ok f \<Rightarrow> Some f | _ \<Rightarrow> None)"

lemma rate_growth_ge: "rate_growth seconds history = Some f \<Longrightarrow> DEC_ONE \<le> f"
  by (auto simp: rate_growth_def Let_def delay_factor_ge split: if_splits result.splits)

lemma dec_inverse_mult_le: "(DEC_ONE * DEC_ONE div f) * f \<le> DEC_ONE * DEC_ONE" for f :: nat
  by (simp add: div_times_less_eq_dividend)

lemma adjusted_share:
  assumes "calc_adjusted_share seconds history share = Ok m"
  obtains f where "rate_growth seconds history = Some f" and "m * f \<le> share * DEC_ONE" and "m \<le> share"
proof (cases "seconds = 0 \<or> length (relevant_rates history) < 2")
  case True
  then have "m = share" using assms by (auto simp: calc_adjusted_share_def Let_def split: if_splits)
  moreover have "rate_growth seconds history = Some DEC_ONE" using True by (simp add: rate_growth_def Let_def)
  ultimately show ?thesis using that by simp
next
  case False
  then obtain f i where f: "delay_factor seconds (relevant_rates history ! 0)
        (relevant_rates history ! (length (relevant_rates history) - 1)) = Ok f"
    and i: "i = DEC_ONE * DEC_ONE div f" and m: "m = share * i div DEC_ONE"
    using assms by (auto simp: calc_adjusted_share_def Let_def ok_simps split: if_splits)
  have "m * DEC_ONE \<le> share * i" unfolding m by (rule div_times_less_eq_dividend)
  then have "m * DEC_ONE * f \<le> share * i * f" by (rule mult_le_mono1)
  also have "share * i * f \<le> share * (DEC_ONE * DEC_ONE)"
    using mult_le_mono2 [OF dec_inverse_mult_le [of f], of share] by (simp add: i mult.assoc)
  finally have "DEC_ONE * (m * f) \<le> DEC_ONE * (share * DEC_ONE)" by (simp add: ac_simps)
  then have le: "m * f \<le> share * DEC_ONE" using DEC_ONE_pos by (metis mult_le_cancel1)
  have "m * DEC_ONE \<le> m * f" by (rule mult_le_mono2 [OF delay_factor_ge [OF f]])
  also note le
  finally have "m \<le> share" using DEC_ONE_pos by (metis mult_le_cancel2)
  moreover have "rate_growth seconds history = Some f" using False f by (simp add: rate_growth_def Let_def)
  ultimately show ?thesis using that le by blast
qed

text \<open>The relations of the vault: an issue while assets without shares are left is not one (the first deposit then takes them over).\<close>

definition farm_issues :: "u64 \<Rightarrow> (u64, decimal) store \<Rightarrow> u128 \<Rightarrow> u128 \<Rightarrow> u128 \<Rightarrow> u128 \<Rightarrow> bool" where
  "farm_issues seconds history S T a m \<longleftrightarrow> (S = 0 \<longrightarrow> T = 0) \<and>
     (\<exists>share. calc_bond_share \<lparr>fs_amp_lp_token = [], fs_total_bond_share = S\<rparr> a T = (Ok share :: (u128, std_error) result) \<and>
       calc_adjusted_share seconds history share = Ok m)"

definition farm_pays :: "u128 \<Rightarrow> u128 \<Rightarrow> u128 \<Rightarrow> u128 \<Rightarrow> bool" where
  "farm_pays S T s r \<longleftrightarrow> 0 < S \<and> r = T * s div S"

interpretation farm_vault: rounding_vault "farm_issues seconds history" farm_pays for seconds history
proof
  fix S T a m s r :: nat
  show "m * T \<le> a * S" if "farm_issues seconds history S T a m" and "0 < T"
  proof -
    from that obtain share where share: "share = a * S div T" and m: "calc_adjusted_share seconds history share = Ok m"
      by (auto simp: farm_issues_def ok_simps)
    from m have "m \<le> share" by (rule adjusted_share)
    then have "m * T \<le> share * T" by simp
    also have "\<dots> \<le> a * S" unfolding share by (rule div_times_less_eq_dividend)
    finally show ?thesis .
  qed
  show "farm_pays S T s r \<Longrightarrow> r * S \<le> s * T"
    by (auto simp: farm_pays_def mult.commute [of T s] div_times_less_eq_dividend)
  show "farm_pays S T s r \<Longrightarrow> s * T < (r + 1) * S"
    using dividend_less_div_times [of S "s * T"] by (auto simp: farm_pays_def mult.commute [of T s])
qed

section \<open>The books\<close>

fun payload_total :: "(addr \<Rightarrow> farm_payload \<Rightarrow> nat) \<Rightarrow> farm_payload sub_msg list \<Rightarrow> nat" where
  "payload_total f [] = 0"
| "payload_total f (s # ss) =
     (case s of PlainMsg (WasmExecute a p funds) \<Rightarrow> f a p | _ \<Rightarrow> 0) + payload_total f ss"

definition staked_by :: "farm_config \<Rightarrow> farm_payload sub_msg list \<Rightarrow> nat" where
  "staked_by c = payload_total (\<lambda>a p. case p of
     ToToken (TokenSend g amount GenDeposit) \<Rightarrow> if a = fa_lp_token c \<and> g = fa_staking_contract c then amount else 0 | _ \<Rightarrow> 0)"

definition withdrawn_by :: "farm_config \<Rightarrow> farm_payload sub_msg list \<Rightarrow> nat" where
  "withdrawn_by c = payload_total (\<lambda>a p. case p of
     GenWithdraw t amount \<Rightarrow> if a = fa_staking_contract c \<and> t = fa_lp_token c then amount else 0 | _ \<Rightarrow> 0)"

definition minted_by :: "farm_totals \<Rightarrow> farm_payload sub_msg list \<Rightarrow> nat" where
  "minted_by s = payload_total (\<lambda>a p. case p of
     ToToken (TokenMint r amount) \<Rightarrow> if a = fs_amp_lp_token s then amount else 0 | _ \<Rightarrow> 0)"

definition burned_by :: "farm_totals \<Rightarrow> farm_payload sub_msg list \<Rightarrow> nat" where
  "burned_by s = payload_total (\<lambda>a p. case p of
     ToToken (TokenBurn amount) \<Rightarrow> if a = fs_amp_lp_token s then amount else 0 | _ \<Rightarrow> 0)"

lemmas book_defs = staked_by_def withdrawn_by_def minted_by_def burned_by_def

record farm_books =
  fb_farm :: farm_state
  fb_staked :: u128
  fb_supply :: u128

definition book :: "farm_config \<Rightarrow> farm_totals \<Rightarrow> farm_books \<Rightarrow> farm_state \<times> farm_response \<Rightarrow> farm_books" where
  "book c s b = (\<lambda>(st, r). \<lparr>fb_farm = st,
     fb_staked = fb_staked b + staked_by c (resp_msgs r) - withdrawn_by c (resp_msgs r),
     fb_supply = fb_supply b + minted_by s (resp_msgs r) - burned_by s (resp_msgs r)\<rparr>)"

text \<open>
  A step: the farm handles a message while the generator answers with what is staked, and its messages are carried out; or somebody stakes
  LP for the farm.
\<close>

inductive farm_step :: "farm_books \<Rightarrow> farm_books \<Rightarrow> bool" where
  handles: "farm_step b (book c s b (st', r))"
    if "fm_config (fb_farm b) = Some c" and "fm_state (fb_farm b) = Some s"
    and "fd_deposit deps (fa_staking_contract c) (fa_lp_token c) (env_contract env) = Ok (fb_staked b)"
    and "farm_execute deps env info msg (fb_farm b) = Ok (st', r)"
| staked_for_it: "farm_step b (b\<lparr>fb_staked := fb_staked b + x\<rparr>)"

definition farm_starts :: "farm_books \<Rightarrow> bool" where
  "farm_starts b \<longleftrightarrow> fb_supply b = 0 \<and> (\<exists>deps env msg r st r' st'. farm_instantiate deps env msg empty_farm = Ok (st, r) \<and>
     farm_reply deps r' st = Ok (fb_farm b, st'))"

inductive farm_reachable :: "farm_books \<Rightarrow> bool" where
  start: "farm_starts b \<Longrightarrow> farm_reachable b"
| step: "farm_reachable b \<Longrightarrow> farm_step b b' \<Longrightarrow> farm_reachable b'"

text \<open>A run while shares are outstanding.\<close>

inductive farm_runs :: "farm_books \<Rightarrow> farm_books \<Rightarrow> bool" where
  here: "farm_runs b b"
| further: "farm_runs b b' \<Longrightarrow> 0 < fb_supply b' \<Longrightarrow> farm_step b' b'' \<Longrightarrow> farm_runs b b''"

section \<open>What a message does to the books\<close>

text \<open>Most messages of the farm move neither staked LP nor amp LP.\<close>

fun idle_payload :: "farm_payload \<Rightarrow> bool" where
  "idle_payload (ToToken (TokenSend g amount h)) = False"
| "idle_payload (ToToken (TokenMint r amount)) = False"
| "idle_payload (ToToken (TokenBurn amount)) = False"
| "idle_payload (GenWithdraw t amount) = False"
| "idle_payload p = True"

fun idle_msg :: "farm_msg \<Rightarrow> bool" where
  "idle_msg (WasmExecute a p funds) = idle_payload p"
| "idle_msg m = True"

definition idle :: "farm_msg list \<Rightarrow> bool" where
  "idle ms \<longleftrightarrow> (\<forall>m\<in>set ms. idle_msg m)"

lemma idle_simps [simp]:
  "idle []" "idle (m # ms) \<longleftrightarrow> idle_msg m \<and> idle ms" "idle (ms @ ns) \<longleftrightarrow> idle ms \<and> idle ns"
  by (auto simp: idle_def)

lemma idle_payload_zero:
  assumes "idle_payload p"
  shows "(case p of ToToken (TokenSend g amount GenDeposit) \<Rightarrow> d g amount | _ \<Rightarrow> 0) = (0::nat)"
    and "(case p of GenWithdraw t amount \<Rightarrow> w t amount | _ \<Rightarrow> 0) = (0::nat)"
    and "(case p of ToToken (TokenMint r amount) \<Rightarrow> m r amount | _ \<Rightarrow> 0) = (0::nat)"
    and "(case p of ToToken (TokenBurn amount) \<Rightarrow> b amount | _ \<Rightarrow> 0) = (0::nat)"
  using assms by (cases p rule: idle_payload.cases; simp)+

lemma payload_total_append [simp]: "payload_total f (ms @ ns) = payload_total f ms + payload_total f ns"
  by (induction ms) simp_all

lemma payload_total_idle:
  assumes "idle ms" and "\<And>a p. idle_payload p \<Longrightarrow> f a p = 0"
  shows "payload_total f (map PlainMsg ms) = 0"
  using assms by (induction ms) (auto split: cosmos_msg.split)

lemma idle_totals:
  assumes "idle ms"
  shows "staked_by c (map PlainMsg ms) = 0" "withdrawn_by c (map PlainMsg ms) = 0"
    "minted_by s (map PlainMsg ms) = 0" "burned_by s (map PlainMsg ms) = 0"
  unfolding book_defs using assms by (rule payload_total_idle, simp only: idle_payload_zero)+

lemma transfer_idle [simp]: "idle_msg (transfer_msg ToToken i a r)"
  by (cases i) simp_all

lemma allowance_idle [simp]: "idle_msg (increase_allowance_msg lib ToToken a sp ex)"
  by (simp add: increase_allowance_msg_def)

lemma deposit_asset_idle: "deposit_asset lib ToToken a info r = Ok ms \<Longrightarrow> idle ms"
  by (auto simp: deposit_asset_def ok_simps split: if_splits asset_info.splits)

lemma funds_or_allowance_idle:
  assumes "funds_or_allowance lib ToToken env sp assets (Some info) = Ok (funds, ms)"
  shows "idle ms"
proof -
  have "idle (snd (funds, ms))"
    by (rule try_fold_invariant [OF assms [unfolded funds_or_allowance_def], where P = "\<lambda>x. idle (snd x)"])
      (auto simp: fund_or_allow_def ok_simps deposit_asset_idle split: if_splits)
  then show ?thesis by simp
qed

lemma compound_one_idle:
  assumes "compound_one deps env c T run a = Ok run'" and "idle (cr_msgs run)"
  shows "idle (cr_msgs run')"
  using assms by (auto simp: compound_one_def ok_simps Let_def split: if_splits asset_info.splits)

lemma resp_add_attributes [simp]: "resp_msgs (add_attributes r as) = resp_msgs r"
  by (simp add: add_attributes_def)

text \<open>The three things a message can do: issue shares for LP, pay LP for shares, or neither.\<close>

definition issued :: "farm_config \<Rightarrow> farm_totals \<Rightarrow> u128 \<Rightarrow> farm_state \<Rightarrow> u128 \<Rightarrow> u128 \<Rightarrow> farm_state \<Rightarrow> farm_response \<Rightarrow> bool" where
  "issued c s T st a m st' r \<longleftrightarrow>
     st' = st\<lparr>fm_state := Some (s\<lparr>fs_total_bond_share := fs_total_bond_share s + m\<rparr>)\<rparr> \<and>
     (\<exists>share. calc_bond_share s a T = (Ok share :: (u128, std_error) result) \<and> calc_adjusted_share (fa_delay c) (fm_history st) share = Ok m) \<and>
     staked_by c (resp_msgs r) = a \<and> withdrawn_by c (resp_msgs r) = 0 \<and>
     minted_by s (resp_msgs r) = m \<and> burned_by s (resp_msgs r) = 0"

definition redeemed :: "farm_config \<Rightarrow> farm_totals \<Rightarrow> u128 \<Rightarrow> farm_state \<Rightarrow> u128 \<Rightarrow> u128 \<Rightarrow> farm_state \<Rightarrow> farm_response \<Rightarrow> bool" where
  "redeemed c s T st x paid st' r \<longleftrightarrow> x \<le> fs_total_bond_share s \<and>
     st' = st\<lparr>fm_state := Some (s\<lparr>fs_total_bond_share := fs_total_bond_share s - x\<rparr>)\<rparr> \<and>
     calc_bond_amount s T x = (Ok paid :: (u128, std_error) result) \<and>
     staked_by c (resp_msgs r) = 0 \<and> withdrawn_by c (resp_msgs r) = paid \<and>
     minted_by s (resp_msgs r) = 0 \<and> burned_by s (resp_msgs r) = x"

definition untouched :: "farm_config \<Rightarrow> farm_totals \<Rightarrow> farm_state \<Rightarrow> farm_state \<Rightarrow> farm_response \<Rightarrow> bool" where
  "untouched c s st st' r \<longleftrightarrow> fm_state st' = Some s \<and>
     (\<exists>c'. fm_config st' = Some c' \<and> fa_lp_token c' = fa_lp_token c \<and> fa_staking_contract c' = fa_staking_contract c) \<and>
     withdrawn_by c (resp_msgs r) = 0 \<and> minted_by s (resp_msgs r) = 0 \<and> burned_by s (resp_msgs r) = 0"

lemma bond_internal_issues:
  assumes "bond_internal deps env c staker a st = Ok (st', r)" and "fm_state st = Some s"
    and "fd_deposit deps (fa_staking_contract c) (fa_lp_token c) (env_contract env) = Ok T"
  shows "\<exists>m. issued c s T st a m st' r"
  using assms by (auto simp: bond_internal_def issued_def ok_simps book_defs token_mint_def deposit_msg_def calc_bond_share_Ok)

lemma farm_bond_issues:
  assumes "farm_bond deps env info sender a st = Ok (st', r)" and "fm_config st = Some c" and "fm_state st = Some s"
    and "fd_deposit deps (fa_staking_contract c) (fa_lp_token c) (env_contract env) = Ok T"
  shows "\<exists>m. issued c s T st a m st' r"
  using assms by (auto simp: farm_bond_def ok_simps split: if_splits intro: bond_internal_issues)

lemma bond_to_issues:
  assumes "bond_to deps env recipient prev minimum st = Ok (st', r)" and "fm_config st = Some c" and "fm_state st = Some s"
    and "fd_deposit deps (fa_staking_contract c) (fa_lp_token c) (env_contract env) = Ok T"
  shows "\<exists>a m. issued c s T st a m st' r"
  using assms by (auto simp: bond_to_def ok_simps intro: bond_internal_issues)

lemma farm_unbond_redeems:
  assumes "farm_unbond deps env info sender x st = Ok (st', r)" and "fm_config st = Some c" and "fm_state st = Some s"
    and "fd_deposit deps (fa_staking_contract c) (fa_lp_token c) (env_contract env) = Ok T"
  shows "\<exists>paid. redeemed c s T st x paid st' r"
  using assms by (auto simp: farm_unbond_def redeemed_def ok_simps book_defs token_burn_def withdraw_msg_def calc_bond_amount_Ok split: if_splits)

lemma idle_untouched:
  assumes "resp_msgs r = map PlainMsg ms" and "idle ms" and "fm_state st' = Some s"
    and "\<exists>c'. fm_config st' = Some c' \<and> fa_lp_token c' = fa_lp_token c \<and> fa_staking_contract c' = fa_staking_contract c"
  shows "untouched c s st st' r"
  using assms by (simp add: untouched_def idle_totals)

end
