(* ===== verification/FarmProps.thy ===== *)
theory FarmProps
  imports FarmBooks
begin

text \<open>
  Properties of the compounding farm: the shares recorded are the amp LP in circulation, what they are worth never falls, a deposit earns nothing
  of the growth the delay covers, and what compounding does with the rewards.
\<close>

section \<open>Every message\<close>

lemma bond_assets_untouched:
  assumes "bond_assets deps env info as mr ns sl recv st = Ok (st', r)" and "fm_config st = Some c" and "fm_state st = Some s"
  shows "untouched c s st st' r"
proof -
  obtain fs ms b where "funds_or_allowance (fd_assets deps) ToToken env (fa_compound_proxy c) as (Some info) = Ok (fs, ms)"
    and "st' = st" and "resp_msgs r = map PlainMsg (ms @ [compound_msg (fa_compound_proxy c) as fs ns sl (fa_lp_token c),
      farm_callback_into_msg (FarmBondTo recv b mr) (env_contract env)])"
    using assms by (auto simp: bond_assets_def ok_simps)
  with assms funds_or_allowance_idle show ?thesis
    by (intro idle_untouched [where ms = "ms @ [compound_msg (fa_compound_proxy c) as fs ns sl (fa_lp_token c),
      farm_callback_into_msg (FarmBondTo recv b mr) (env_contract env)]"]) (auto simp: compound_msg_def farm_callback_into_msg_def)
qed

lemma farm_compound_outcome:
  assumes "farm_compound deps env info mr sl st = Ok (st', r)" and "fm_config st = Some c"
  obtains pending others T run ms where "info_sender info = fa_controller c" and "st' = st"
    and "fd_pending_token deps (fa_staking_contract c) (fa_lp_token c) (env_contract env) = Ok (pending, others)"
    and "fd_deposit deps (fa_staking_contract c) (fa_lp_token c) (env_contract env) = Ok T"
    and "try_fold (compound_one deps env c T)
      \<lparr>cr_msgs = [claim_rewards_msg (fa_staking_contract c) [fa_lp_token c]], cr_rewards = [], cr_funds = [], cr_attrs = []\<rparr>
      (token_asset (fa_base_reward_token c) pending # unwrap_or others []) = Ok run"
    and "resp_msgs r = map PlainMsg ms"
    and "cr_rewards run = [] \<and> ms = cr_msgs run \<or> cr_rewards run \<noteq> [] \<and> (\<exists>b. ms = cr_msgs run @
      [compound_msg (fa_compound_proxy c) (cr_rewards run) (cr_funds run) None sl (fa_lp_token c),
       farm_callback_into_msg (FarmStake b mr) (env_contract env)])"
proof -
  obtain pending others T run ms where facts: "info_sender info = fa_controller c"
      "fd_pending_token deps (fa_staking_contract c) (fa_lp_token c) (env_contract env) = Ok (pending, others)"
      "fd_deposit deps (fa_staking_contract c) (fa_lp_token c) (env_contract env) = Ok T"
      "try_fold (compound_one deps env c T)
        \<lparr>cr_msgs = [claim_rewards_msg (fa_staking_contract c) [fa_lp_token c]], cr_rewards = [], cr_funds = [], cr_attrs = []\<rparr>
        (token_asset (fa_base_reward_token c) pending # unwrap_or others []) = Ok run"
    and ms: "compound_messages deps env c mr sl run = Ok ms" and res: "st' = st" "resp_msgs r = map PlainMsg ms"
    using assms by (auto simp: farm_compound_def Let_def ok_simps split: if_splits)
  then show ?thesis by (intro that [of pending others T run ms]) (auto simp: compound_messages_def ok_simps split: if_splits)
qed

lemma compound_untouched:
  assumes "farm_compound deps env info mr sl st = Ok (st', r)" and "fm_config st = Some c" and "fm_state st = Some s"
  shows "untouched c s st st' r"
proof (rule farm_compound_outcome [OF assms(1,2)])
  fix pending others T run ms
  assume st: "st' = st" and r: "resp_msgs r = map PlainMsg ms"
    and run: "try_fold (compound_one deps env c T)
      \<lparr>cr_msgs = [claim_rewards_msg (fa_staking_contract c) [fa_lp_token c]], cr_rewards = [], cr_funds = [], cr_attrs = []\<rparr>
      (token_asset (fa_base_reward_token c) pending # unwrap_or others []) = Ok run"
    and ms: "cr_rewards run = [] \<and> ms = cr_msgs run \<or> cr_rewards run \<noteq> [] \<and> (\<exists>b. ms = cr_msgs run @
      [compound_msg (fa_compound_proxy c) (cr_rewards run) (cr_funds run) None sl (fa_lp_token c),
       farm_callback_into_msg (FarmStake b mr) (env_contract env)])"
  have "idle (cr_msgs run)"
    by (rule try_fold_invariant [OF run, where P = "\<lambda>x. idle (cr_msgs x)"])
      (auto simp: claim_rewards_msg_def intro: compound_one_idle)
  with ms have "idle ms" by (auto simp: compound_msg_def farm_callback_into_msg_def)
  with r st assms show ?thesis by (intro idle_untouched [where ms = ms]) auto
qed

lemma stake_untouched:
  assumes "farm_stake deps env prev mr st = Ok (st', r)" and "fm_config st = Some c" and "fm_state st = Some s"
  shows "untouched c s st st' r"
  using assms by (auto simp: farm_stake_def untouched_def ok_simps book_defs deposit_msg_def)

lemma farm_message_effect:
  assumes "farm_execute deps env info msg st = Ok (st', r)" and "fm_config st = Some c" and "fm_state st = Some s"
    and "fd_deposit deps (fa_staking_contract c) (fa_lp_token c) (env_contract env) = Ok T"
  shows "(\<exists>a m. issued c s T st a m st' r) \<or> (\<exists>x paid. redeemed c s T st x paid st' r) \<or> untouched c s st st' r"
proof (cases msg)
  case (FarmReceive m)
  then show ?thesis using assms(1)
    by (auto simp: farm_receive_cw20_def split: result.splits farm_hook_msg.splits
        dest!: farm_bond_issues [OF _ assms(2-4)] farm_unbond_redeems [OF _ assms(2-4)])
next
  case (FarmCallback m)
  then show ?thesis using assms(1)
    by (auto simp: farm_handle_callback_def split: if_splits farm_callback_msg.splits
        dest!: bond_to_issues [OF _ assms(2-4)] stake_untouched [OF _ assms(2,3)])
next
  case (FarmBondAssets as mr ns sl recv)
  then show ?thesis using assms bond_assets_untouched by (auto simp: ok_simps)
next
  case (FarmCompound mr sl)
  then show ?thesis using assms compound_untouched by auto
next
  case (FarmUpdateConfig p co f fc d)
  then have "untouched c s st st' r" using assms
    by (intro idle_untouched [where ms = "[]"]) (auto simp: farm_update_config_def ok_simps split: if_splits)
  then show ?thesis by simp
next
  case (FarmProposeNewOwner o' e)
  then have "untouched c s st st' r" using assms
    by (intro idle_untouched [where ms = "[]"]) (auto simp: farm_propose_new_owner_def ok_simps split: if_splits)
  then show ?thesis by simp
next
  case FarmDropProposal
  then have "untouched c s st st' r" using assms
    by (intro idle_untouched [where ms = "[]"]) (auto simp: farm_drop_ownership_proposal_def ok_simps split: if_splits)
  then show ?thesis by simp
next
  case FarmClaimOwnership
  then have "untouched c s st st' r" using assms
    by (intro idle_untouched [where ms = "[]"]) (auto simp: farm_claim_ownership_def ok_simps split: if_splits)
  then show ?thesis by simp
qed

section \<open>The books along a run\<close>

definition books_match :: "farm_books \<Rightarrow> bool" where
  "books_match b \<longleftrightarrow> (\<exists>c s. fm_config (fb_farm b) = Some c \<and> fm_state (fb_farm b) = Some s \<and> fs_total_bond_share s = fb_supply b)"

lemma start_books: "farm_starts b \<Longrightarrow> books_match b"
  by (cases b) (auto simp: farm_starts_def books_match_def farm_reply_def register_amp_lp_token_def farm_instantiate_def ok_simps split: if_splits)

text \<open>One step keeps the books, and the staked LP behind a share does not fall.\<close>

lemma step_books:
  assumes "farm_step b b'" and "books_match b"
  shows "books_match b' \<and> (0 < fb_supply b \<longrightarrow> fb_staked b * fb_supply b' \<le> fb_staked b' * fb_supply b)"
  using assms
proof cases
  case (handles c s deps env info msg st' r)
  note eff = farm_message_effect [OF handles(5,2,3,4)]
  have S: "fs_total_bond_share s = fb_supply b" using assms(2) handles by (auto simp: books_match_def)
  consider (issue) a m where "issued c s (fb_staked b) (fb_farm b) a m st' r"
    | (redeem) x paid where "redeemed c s (fb_staked b) (fb_farm b) x paid st' r"
    | (idle) "untouched c s (fb_farm b) st' r"
    using eff by blast
  then show ?thesis
  proof cases
    case issue
    then have "farm_issues (fa_delay c) (fm_history (fb_farm b)) (fb_supply b) (fb_staked b) a m" if "0 < fb_supply b"
      using that S by (auto simp: issued_def farm_issues_def calc_bond_share_def)
    from farm_vault.deposit_keeps_rate [OF this] issue show ?thesis
      using handles S by (auto simp: books_match_def issued_def book_def)
  next
    case redeem
    then have "farm_pays (fb_supply b) (fb_staked b) x paid" if "0 < fb_supply b"
      using that S by (auto simp: redeemed_def farm_pays_def calc_bond_amount_Ok)
    from farm_vault.payout_keeps_rate [OF this] redeem show ?thesis
      using handles S by (auto simp: books_match_def redeemed_def book_def)
  next
    case idle
    then show ?thesis using handles S by (auto simp: books_match_def untouched_def book_def)
  qed
next
  case (staked_for_it x)
  then show ?thesis using assms(2) by (auto simp: books_match_def)
qed

lemma reachable_books: "farm_reachable b \<Longrightarrow> books_match b"
  by (induction rule: farm_reachable.induct) (auto simp: start_books step_books)

lemma rate_trans:
  fixes T1 :: nat
  assumes "T1 * S2 \<le> T2 * S1" and "T2 * S3 \<le> T3 * S2" and "0 < S2"
  shows "T1 * S3 \<le> T3 * S1"
proof -
  have "T1 * S3 * S2 \<le> T2 * S1 * S3" using mult_le_mono1 [OF assms(1), of S3] by (simp add: ac_simps)
  also have "\<dots> \<le> T3 * S2 * S1" using mult_le_mono1 [OF assms(2), of S1] by (simp add: ac_simps)
  finally have "T1 * S3 * S2 \<le> T3 * S1 * S2" by (simp add: ac_simps)
  with assms(3) show ?thesis by simp
qed

lemma runs_books:
  assumes "farm_runs b b'" and "books_match b"
  shows "books_match b' \<and> fb_staked b * fb_supply b' \<le> fb_staked b' * fb_supply b"
  using assms
proof (induction rule: farm_runs.induct)
  case (here b)
  then show ?case by simp
next
  case (further b b' b'')
  with step_books [OF further(3)] rate_trans show ?case by blast
qed

text \<open>
  The claims on the compounding farm, with one farm as the example: Alice bonds, the controller compounds twice a day apart, Bob bonds.
\<close>

section \<open>A farm\<close>

definition sample_lib :: asset_lib where
  "sample_lib = \<lparr>al_to_string = (\<lambda>i. case i of NativeToken d \<Rightarrow> d | TokenAsset a \<Rightarrow> a),
     al_as_bytes = (\<lambda>i. case i of NativeToken d \<Rightarrow> d | TokenAsset a \<Rightarrow> a), al_check = (\<lambda>_. Ok ()),
     al_assert_sent = (\<lambda>a info. case as_info a of TokenAsset t \<Rightarrow> Ok ()
       | NativeToken d \<Rightarrow> if sent_amount (info_funds info) d = as_amount a then Ok ()
           else Err (GenericErr ''Native token balance mismatch between the argument and the transferred'')),
     al_query_pool = (\<lambda>_ _. Ok 0)\<rparr>"

lemma sample_lib_checks: "checks_sent sample_lib"
  by (simp add: checks_sent_def sample_lib_def)

definition farm_at :: "u64 \<Rightarrow> env" where
  "farm_at t = \<lparr>env_height = 7, env_time = t, env_contract = ''farm''\<rparr>"

definition asks_farm :: "addr \<Rightarrow> message_info" where
  "asks_farm a = \<lparr>info_sender = a, info_funds = []\<rparr>"

text \<open>The generator holds \<open>staked\<close>, the farm itself \<open>held\<close> LP.\<close>

definition farm_world :: "u128 \<Rightarrow> u128 \<Rightarrow> farm_deps" where
  "farm_world staked held = \<lparr>fd_addr_validate = (\<lambda>a. if a = [] then Err (GenericErr ''empty'') else Ok a), fd_assets = sample_lib,
     fd_token_balance = (\<lambda>_ _. Ok held), fd_deposit = (\<lambda>_ _ _. Ok staked),
     fd_pending_token = (\<lambda>_ _ _. Ok (1000, Some [with_balance (NativeToken ''uluna'') 500])), fd_lp_state = (\<lambda>_ _. Err NotFound)\<rparr>"

definition farm_init :: farm_instantiate_msg where
  "farm_init = \<lparr>fim_owner = ''owner'', fim_staking_contract = ''generator'', fim_compound_proxy = ''proxy'', fim_controller = ''controller'',
     fim_fee = 50000000000000000, fim_fee_collector = ''fees'', fim_deposit_profit_delay_s = 86400, fim_liquidity_token = ''lp'',
     fim_base_reward_token = ''astro'', fim_amp_lp = \<lparr>ti_cw20_code_id = 3, ti_name = ''amp'', ti_symbol = ''AMP'', ti_decimals = 6\<rparr>\<rparr>"

definition farm_config0 :: farm_config where
  "farm_config0 = \<lparr>fa_owner = ''owner'', fa_staking_contract = ''generator'', fa_compound_proxy = ''proxy'', fa_controller = ''controller'',
     fa_fee = 50000000000000000, fa_fee_collector = ''fees'', fa_delay = 86400, fa_lp_token = ''lp'', fa_base_reward_token = ''astro''\<rparr>"

definition farm_with :: "u128 \<Rightarrow> (u64 \<times> decimal) list \<Rightarrow> farm_state" where
  "farm_with shares history = \<lparr>fm_config = Some farm_config0,
     fm_state = Some \<lparr>fs_amp_lp_token = ''amplp'', fs_total_bond_share = shares\<rparr>, fm_history = history, fm_proposal = None\<rparr>"

definition lp_bond :: "addr \<Rightarrow> u128 \<Rightarrow> farm_execute_msg" where
  "lp_bond a amount = FarmReceive \<lparr>cw20_sender = a, cw20_amount = amount, cw20_payload = Decoded (FarmBondHook None)\<rparr>"

definition lp_stake :: "u128 \<Rightarrow> farm_execute_msg" where
  "lp_stake prev = FarmCallback (FarmStake prev None)"

lemmas farm_sample_defs = farm_at_def asks_farm_def farm_world_def farm_config0_def farm_with_def lp_bond_def lp_stake_def

definition leads_farm :: "(farm_state \<times> farm_response, farm_error) result \<Rightarrow> farm_state \<Rightarrow> bool" where
  "leads_farm res st \<longleftrightarrow> (case res of Ok (st', r) \<Rightarrow> st' = st | _ \<Rightarrow> False)"

lemma leads_farmD: "leads_farm res st \<Longrightarrow> \<exists>r. res = Ok (st, r)"
  by (auto simp: leads_farm_def split: result.splits)

lemma farm_starts_sample: "farm_starts \<lparr>fb_farm = farm_with 0 [], fb_staked = 0, fb_supply = 0\<rparr>"
proof -
  have "leads_farm (farm_instantiate (farm_world 0 0) (farm_at 1) farm_init empty_farm) ((farm_with 0 []) \<lparr>fm_state := None\<rparr>)"
    by code_simp
  then obtain r where "farm_instantiate (farm_world 0 0) (farm_at 1) farm_init empty_farm = Ok ((farm_with 0 []) \<lparr>fm_state := None\<rparr>, r)"
    using leads_farmD by blast
  moreover have "farm_reply (farm_world 0 0) \<lparr>reply_id = 1, reply_result = SubMsgOk
      [\<lparr>ev_type = ''instantiate'', ev_attrs = [(''_contract_address'', ''amplp'')]\<rparr>]\<rparr> ((farm_with 0 []) \<lparr>fm_state := None\<rparr>) =
    Ok (farm_with 0 [], new_response)"
    by (simp add: farm_reply_def TOKEN_INSTANTIATE_REPLY_def unwrap_reply_def register_amp_lp_token_def farm_sample_defs)
  ultimately show ?thesis unfolding farm_starts_def by (metis farm_books.select_convs(1,3))
qed

definition first_rates :: "(u64 \<times> decimal) list" where
  "first_rates = [(1000000, 1000000000000000000), (1086400, 1100000000000000000)]"

definition alice_bonded :: farm_books where "alice_bonded = \<lparr>fb_farm = farm_with 1000 [], fb_staked = 1000, fb_supply = 1000\<rparr>"
definition rate_noted :: farm_books where
  "rate_noted = \<lparr>fb_farm = farm_with 1000 [(1000000, 1000000000000000000)], fb_staked = 1000, fb_supply = 1000\<rparr>"
definition compounded :: farm_books where "compounded = \<lparr>fb_farm = farm_with 1000 first_rates, fb_staked = 1100, fb_supply = 1000\<rparr>"
definition bob_bonded :: farm_books where "bob_bonded = \<lparr>fb_farm = farm_with 1909 first_rates, fb_staked = 2200, fb_supply = 1909\<rparr>"

definition steps_to :: "farm_deps \<Rightarrow> env \<Rightarrow> addr \<Rightarrow> farm_execute_msg \<Rightarrow> farm_books \<Rightarrow> farm_books \<Rightarrow> bool" where
  "steps_to deps env sender msg b b' \<longleftrightarrow>
     (case (fm_config (fb_farm b), fm_state (fb_farm b)) of
        (Some c, Some s) \<Rightarrow> fd_deposit deps (fa_staking_contract c) (fa_lp_token c) (env_contract env) = Ok (fb_staked b) \<and>
          (case farm_execute deps env (asks_farm sender) msg (fb_farm b) of Ok x \<Rightarrow> book c s b x = b' | _ \<Rightarrow> False)
      | _ \<Rightarrow> False)"

lemma steps_toD: "steps_to deps env sender msg b b' \<Longrightarrow> farm_step b b'"
  by (auto simp: steps_to_def split: option.splits result.splits intro: farm_step.handles)

lemma bob_adjusted: "calc_adjusted_share 86400 first_rates 1000 = Ok 909"
  by (simp add: calc_adjusted_share_def first_rates_def relevant_rates_def RELAVANT_EXCHANGE_RATES_def entries_def delay_factor_def
      num_defs DEC_ONE_def U64_MAX_def U128_MAX_def)

lemma bob_bonds:
  "\<exists>r. farm_execute (farm_world 1100 40) (farm_at 1086500) (asks_farm ''lp'') (lp_bond ''bob'' 1100) (farm_with 1000 first_rates) =
      Ok (farm_with 1909 first_rates, r) \<and>
    resp_msgs r = map PlainMsg [token_mint ''amplp'' 909 ''bob'', deposit_msg ''generator'' ''lp'' 1100]"
  by (simp add: farm_sample_defs farm_receive_cw20_def farm_bond_def bond_internal_def calc_bond_share_def bob_adjusted num_defs U128_MAX_def)

lemma sample_steps:
  "steps_to (farm_world 0 0) (farm_at 5) ''lp'' (lp_bond ''alice'' 1000) \<lparr>fb_farm = farm_with 0 [], fb_staked = 0, fb_supply = 0\<rparr> alice_bonded"
  "steps_to (farm_world 1000 40) (farm_at 1000000) ''farm'' (lp_stake 40) alice_bonded rate_noted"
  "steps_to (farm_world 1000 140) (farm_at 1086400) ''farm'' (lp_stake 40) rate_noted compounded"
  by code_simp+

lemma bob_steps: "steps_to (farm_world 1100 40) (farm_at 1086500) ''lp'' (lp_bond ''bob'' 1100) compounded bob_bonded"
  using bob_bonds by (auto simp: steps_to_def compounded_def bob_bonded_def farm_with_def farm_config0_def farm_at_def farm_world_def
      book_def book_defs token_mint_def deposit_msg_def)

lemma alice_reachable: "farm_reachable alice_bonded"
  by (rule farm_reachable.step [OF farm_reachable.start [OF farm_starts_sample] steps_toD [OF sample_steps(1)]])

lemma sample_run: "farm_runs alice_bonded bob_bonded"
proof -
  have "farm_runs alice_bonded rate_noted"
    by (rule farm_runs.further [OF farm_runs.here _ steps_toD [OF sample_steps(2)]]) (simp add: alice_bonded_def)
  then have "farm_runs alice_bonded compounded"
    by (rule farm_runs.further [OF _ _ steps_toD [OF sample_steps(3)]]) (simp add: rate_noted_def)
  then show ?thesis
    by (rule farm_runs.further [OF _ _ steps_toD [OF bob_steps]]) (simp add: compounded_def)
qed

section \<open>What shares are worth\<close>

text \<open>
  C3: The shares the farm records are exactly the amp LP it has minted less what it has burned, and what they are worth never falls: along
  any sequence of messages to the farm (bonding with LP or with other assets, unbonding, compounding, configuration, ownership,
  its own callbacks) and of stakes made for it by others, as long as shares are outstanding, the LP that a number of shares is
  redeemed for does not decrease.
\<close>

theorem shares_never_lose_value:
  assumes "farm_reachable b" and "farm_runs b b'" and "0 < fb_supply b"
    and "fm_state (fb_farm b) = Some s" and "fm_state (fb_farm b') = Some s'"
    and "calc_bond_amount s (fb_staked b) x = (Ok paid :: (u128, std_error) result)" and "0 < fb_supply b'"
    and "calc_bond_amount s' (fb_staked b') x = (Ok paid' :: (u128, std_error) result)"
  shows "fs_total_bond_share s = fb_supply b \<and> fs_total_bond_share s' = fb_supply b' \<and> paid \<le> paid'"
proof (intro conjI)
  have "books_match b" by (rule reachable_books [OF assms(1)])
  then show S: "fs_total_bond_share s = fb_supply b" using assms(4) by (simp add: books_match_def)
  from runs_books [OF assms(2) \<open>books_match b\<close>]
  have "books_match b'" and rate: "fb_staked b * fb_supply b' \<le> fb_staked b' * fb_supply b" by simp_all
  then show S': "fs_total_bond_share s' = fb_supply b'" using assms(5) by (simp add: books_match_def)
  have "farm_pays (fb_supply b) (fb_staked b) x paid" "farm_pays (fb_supply b') (fb_staked b') x paid'"
    using assms(3,6-8) S S' by (simp_all add: farm_pays_def calc_bond_amount_Ok)
  then show "paid \<le> paid'" using rate by (rule farm_vault.payout_mono_in_rate)
qed

theorem shares_never_lose_value_witness:
  "(1000::nat) \<le> 1152 \<and> fb_supply bob_bonded = 1909"
proof -
  have "calc_bond_amount \<lparr>fs_amp_lp_token = ''amplp'', fs_total_bond_share = 1000\<rparr> (fb_staked alice_bonded) 1000 = (Ok 1000 :: (u128, std_error) result)"
    and "calc_bond_amount \<lparr>fs_amp_lp_token = ''amplp'', fs_total_bond_share = 1909\<rparr> (fb_staked bob_bonded) 1000 = (Ok 1152 :: (u128, std_error) result)"
    by code_simp+
  note at = shares_never_lose_value [OF alice_reachable sample_run _ _ _ this(1) _ this(2)]
  show ?thesis using at by (simp add: alice_bonded_def bob_bonded_def farm_with_def)
qed

text \<open>
  C19: A deposit earns nothing of the growth that the profit delay covers. Take the three newest recorded exchange rates at the time of the
  deposit: from the oldest to the newest the rate grew by a factor, and this growth per second, over the delay, gives
  \<open>f\<close>. Whenever the shares minted for the deposit are redeemed while the LP behind a share is at most \<open>f\<close> times what it was at the deposit, they
  pay at most the LP deposited.
\<close>

theorem profit_is_delayed:
  assumes "farm_execute deps env info (FarmReceive msg) st = Ok (st', r)" and "cw20_payload msg = Decoded (FarmBondHook staker)"
    and "fm_config st = Some c" and "fm_state st = Some s" and "0 < fs_total_bond_share s" and "0 < T" and "0 < fa_delay c"
    and "fd_deposit deps (fa_staking_contract c) (fa_lp_token c) (env_contract env) = Ok T"
    and "relevant_rates (fm_history st) = (t1, r1) # rates @ [(t0, r0)]"
    and "f = DEC_ONE + ((r1 - r0) * DEC_ONE div r0) * (fa_delay c * DEC_ONE div (t1 - t0)) div DEC_ONE"
    and "T' * fs_total_bond_share s * DEC_ONE \<le> T * fs_total_bond_share s' * f" and "0 < fs_total_bond_share s'"
    and "calc_bond_amount s' T' (minted_by s (resp_msgs r)) = (Ok paid :: (u128, std_error) result)"
  shows "paid \<le> cw20_amount msg"
proof -
  let ?S = "fs_total_bond_share s" and ?S' = "fs_total_bond_share s'" and ?a = "cw20_amount msg" and ?m = "minted_by s (resp_msgs r)"
  from assms(1,2) have "farm_bond deps env info (unwrap_or staker (cw20_sender msg)) ?a st = Ok (st', r)"
    by (simp add: farm_receive_cw20_def)
  from farm_bond_issues [OF this assms(3,4,8)] obtain m where "issued c s T st ?a m st' r" by blast
  then obtain share where share: "share = ?a * ?S div T" and adj: "calc_adjusted_share (fa_delay c) (fm_history st) share = Ok ?m"
    using assms(5,6) by (auto simp: issued_def calc_bond_share_Ok)
  from adj obtain g where g: "rate_growth (fa_delay c) (fm_history st) = Some g" and m: "?m * g \<le> share * DEC_ONE"
    by (rule adjusted_share)
  have g: "g = f"
    using g assms(7,9,10) by (auto simp: rate_growth_def Let_def delay_factor_Ok nth_append split: result.splits)
  have rd: "share * T \<le> ?a * ?S" unfolding share by (rule div_times_less_eq_dividend)
  have pr: "paid * ?S' \<le> T' * ?m"
    using assms(12,13) by (auto simp: calc_bond_amount_Ok div_times_less_eq_dividend)
  have "paid * (?S' * (?S * DEC_ONE)) \<le> T' * ?m * (?S * DEC_ONE)"
    using mult_le_mono1 [OF pr, of "?S * DEC_ONE"] by (simp only: mult.assoc)
  also have "\<dots> = ?m * (T' * ?S * DEC_ONE)" by (simp only: ac_simps)
  also have "\<dots> \<le> ?m * (T * ?S' * f)" by (rule mult_le_mono2 [OF assms(11)])
  also have "\<dots> = (?m * g) * (T * ?S')" by (simp only: ac_simps g)
  also have "\<dots> \<le> (share * DEC_ONE) * (T * ?S')" by (rule mult_le_mono1 [OF m])
  also have "\<dots> = share * T * (DEC_ONE * ?S')" by (simp only: ac_simps)
  also have "\<dots> \<le> ?a * ?S * (DEC_ONE * ?S')" by (rule mult_le_mono1 [OF rd])
  also have "\<dots> = ?a * (?S' * (?S * DEC_ONE))" by (simp only: ac_simps)
  finally show ?thesis using assms(5,12) DEC_ONE_pos by (metis mult_le_cancel2 nat_0_less_mult_iff)
qed

theorem profit_is_delayed_witness:
  "(1099::nat) \<le> cw20_amount \<lparr>cw20_sender = ''bob'', cw20_amount = 1100, cw20_payload = Decoded (FarmBondHook None)\<rparr>"
proof -
  let ?s = "\<lparr>fs_amp_lp_token = ''amplp'', fs_total_bond_share = 1000\<rparr>" and ?s' = "\<lparr>fs_amp_lp_token = ''amplp'', fs_total_bond_share = 1909\<rparr>"
  obtain r where run: "farm_execute (farm_world 1100 40) (farm_at 1086500) (asks_farm ''lp'') (lp_bond ''bob'' 1100)
      (farm_with 1000 first_rates) = Ok (farm_with 1909 first_rates, r)"
    and ms: "resp_msgs r = map PlainMsg [token_mint ''amplp'' 909 ''bob'', deposit_msg ''generator'' ''lp'' 1100]"
    using bob_bonds by blast
  have m: "minted_by ?s (resp_msgs r) = 909"
    by (simp add: ms book_defs token_mint_def deposit_msg_def)
  have rates: "relevant_rates (fm_history (farm_with 1000 first_rates)) =
      (1086400, 1100000000000000000) # [] @ [(1000000, 1000000000000000000)]"
    by (simp add: relevant_rates_def RELAVANT_EXCHANGE_RATES_def farm_with_def first_rates_def entries_def)
  have paid: "calc_bond_amount ?s' 2309 (minted_by ?s (resp_msgs r)) = (Ok 1099 :: (u128, std_error) result)"
    unfolding m by code_simp
  show ?thesis
    by (rule profit_is_delayed [OF run [unfolded lp_bond_def] _ _ _ _ _ _ _ rates refl _ _ paid, where T = 1100 and c = farm_config0])
      (simp_all add: farm_sample_defs DEC_ONE_def)
qed

end
