(* ===== verification/Swaps.thy ===== *)
theory Swaps
  imports Assets
begin

text \<open>
  The adapters to pairs, routers and factories of other protocols (\<open>packages/eris/src/adapters/pair.rs\<close>, \<open>router.rs\<close>, \<open>factory.rs\<close>), and the
  256-bit arithmetic of the contracts that swap. What the other contracts answer is a record of functions.
\<close>

section \<open>256-bit integers and decimals\<close>

definition U256_MAX :: nat where "U256_MAX = 2 ^ 256 - 1"

lemma U256_MAX_code [code]:
  "U256_MAX = 115792089237316195423570985008687907853269984665640564039457584007913129639935"
  by (simp add: U256_MAX_def)

definition u256_add :: "nat \<Rightarrow> nat \<Rightarrow> (nat, 'e) result" where "u256_add a b = bounded U256_MAX (a + b)"
definition u256_mul :: "nat \<Rightarrow> nat \<Rightarrow> (nat, 'e) result" where "u256_mul a b = bounded U256_MAX (a * b)"
definition u256_div :: "nat \<Rightarrow> nat \<Rightarrow> (nat, 'e) result" where "u256_div a b = (if b = 0 then Panic else Ok (a div b))"
definition u256_sub :: "nat \<Rightarrow> nat \<Rightarrow> (nat, 'e) result" where "u256_sub a b = (if b \<le> a then Ok (a - b) else Panic)"

text \<open>\<open>Decimal256::from_ratio\<close>, and the product of an integer and a \<open>Decimal256\<close>, rounded down.\<close>

definition dec256_from_ratio :: "nat \<Rightarrow> nat \<Rightarrow> (nat, 'e) result" where
  "dec256_from_ratio n d = (if d = 0 then Panic else bounded U256_MAX (n * DEC_ONE div d))"

definition u256_mul_dec :: "nat \<Rightarrow> nat \<Rightarrow> (nat, 'e) result" where
  "u256_mul_dec a d = bounded U256_MAX (a * d div DEC_ONE)"

definition to_u128 :: "nat \<Rightarrow> (u128, std_error) result" where
  "to_u128 a = (if a \<le> U128_MAX then Ok a else Err (GenericErr ''overflow''))"

text \<open>The integer square root: the greatest integer whose square is not above the argument, one binary digit at a time.\<close>

fun isqrt :: "nat \<Rightarrow> nat" where
  "isqrt n = (if n = 0 then 0 else let r = 2 * isqrt (n div 4) in if (r + 1) * (r + 1) \<le> n then r + 1 else r)"

declare isqrt.simps [simp del]

lemma isqrt_bounds: "isqrt n * isqrt n \<le> n \<and> n < (isqrt n + 1) * (isqrt n + 1)"
proof (induction n rule: isqrt.induct)
  case (1 n)
  show ?case
  proof (cases "n = 0")
    case True
    then show ?thesis by (simp add: isqrt.simps)
  next
    case False
    define r where "r = isqrt (n div 4)"
    from 1 False have lo: "r * r \<le> n div 4" and hi: "n div 4 < (r + 1) * (r + 1)" by (simp_all add: r_def)
    from lo have lo': "(2 * r) * (2 * r) \<le> n" by simp
    from hi have "n < 4 * ((r + 1) * (r + 1))" by simp
    then have hi': "n < (2 * r + 2) * (2 * r + 2)" by (simp add: algebra_simps)
    have "isqrt n = (if (2 * r + 1) * (2 * r + 1) \<le> n then 2 * r + 1 else 2 * r)"
      using False by (subst isqrt.simps) (simp add: r_def Let_def)
    then show ?thesis using lo' hi' by (auto simp: not_le)
  qed
qed

lemma isqrt_le: "isqrt n * isqrt n \<le> n" and isqrt_less: "n < (isqrt n + 1) * (isqrt n + 1)"
  using isqrt_bounds by blast+

lemma isqrt_unique:
  assumes "r * r \<le> n" and "n < (r + 1) * (r + 1)"
  shows "isqrt n = r"
proof (rule antisym)
  show "isqrt n \<le> r"
  proof (rule ccontr)
    assume "\<not> isqrt n \<le> r"
    then have "(r + 1) * (r + 1) \<le> isqrt n * isqrt n" by (intro mult_le_mono) simp_all
    with isqrt_le [of n] assms(2) show False by simp
  qed
  show "r \<le> isqrt n"
  proof (rule ccontr)
    assume "\<not> r \<le> isqrt n"
    then have "(isqrt n + 1) * (isqrt n + 1) \<le> r * r" by (intro mult_le_mono) simp_all
    with isqrt_less [of n] assms(1) show False by simp
  qed
qed

text \<open>The product of two roots is at most the root of the product.\<close>

lemma isqrt_mult_le:
  assumes "x * y \<le> z * z"
  shows "isqrt x * isqrt y \<le> z"
proof (rule ccontr)
  define p where "p = isqrt x * isqrt y"
  assume "\<not> isqrt x * isqrt y \<le> z"
  then have less: "z < p" by (simp add: p_def)
  then have "0 < p" by simp
  with less have "z * z < p * p" by (intro mult_strict_mono) simp_all
  also have "p * p = (isqrt x * isqrt x) * (isqrt y * isqrt y)" by (simp only: p_def ac_simps)
  also have "\<dots> \<le> x * y" by (intro mult_le_mono isqrt_le)
  finally show False using assms by simp
qed

lemma u256_Ok [ok_simps]:
  "u256_add a b = Ok y \<longleftrightarrow> y = a + b \<and> a + b \<le> U256_MAX"
  "u256_mul a b = Ok y \<longleftrightarrow> y = a * b \<and> a * b \<le> U256_MAX"
  "u256_div a b = Ok y \<longleftrightarrow> b \<noteq> 0 \<and> y = a div b"
  "u256_sub a b = Ok y \<longleftrightarrow> y = a - b \<and> b \<le> a"
  "dec256_from_ratio n d = Ok y \<longleftrightarrow> d \<noteq> 0 \<and> y = n * DEC_ONE div d \<and> n * DEC_ONE div d \<le> U256_MAX"
  "u256_mul_dec a d = Ok y \<longleftrightarrow> y = a * d div DEC_ONE \<and> a * d div DEC_ONE \<le> U256_MAX"
  "to_u128 a = Ok y \<longleftrightarrow> y = a \<and> a \<le> U128_MAX"
  by (auto simp: u256_add_def u256_mul_def u256_div_def u256_sub_def dec256_from_ratio_def u256_mul_dec_def to_u128_def ok_simps)

section \<open>Pairs, routers and factories\<close>

datatype pair_type = Xyk | Stable | CustomPair string

record pair_info =
  pr_contract_addr :: addr
  pr_liquidity_token :: addr
  pr_asset_infos :: "asset_info list"
  pr_pair_type :: pair_type

record pool_response =
  po_assets :: "asset list"
  po_total_share :: u128

datatype router_type = RtAstroSwap | RtTerraSwap | RtTokenSwap

datatype swap_operation =
    OpAstroSwap asset_info asset_info
  | OpTerraSwap asset_info asset_info
  | OpTokenSwap asset_info asset_info

text \<open>Messages to pairs and routers, and what is sent along with a token to one of them.\<close>

datatype swap_msg =
    PairSwap asset "decimal option" "decimal option" "string option"
  | PairProvideLiquidity "asset list" "decimal option" "string option"
  | RouterSwapOperations "swap_operation list" "u128 option" "addr option" "decimal option"

datatype swap_hook =
    PairSwapHook "decimal option" "decimal option" "string option"
  | RouterSwapOperationsHook "swap_operation list" "u128 option" "addr option" "decimal option"

record dex =
  dx_pair_info :: "addr \<Rightarrow> (pair_info, std_error) result"
  dx_query_pools :: "pair_info \<Rightarrow> addr \<Rightarrow> (asset list, std_error) result"
  dx_pool_info :: "addr \<Rightarrow> (pool_response, std_error) result"
  dx_simulate :: "addr \<Rightarrow> asset \<Rightarrow> asset_info option \<Rightarrow> (u128, std_error) result"
  dx_factory_pair :: "addr \<Rightarrow> asset_info list \<Rightarrow> (pair_info, std_error) result"
  dx_router_simulate :: "addr \<Rightarrow> u128 \<Rightarrow> swap_operation list \<Rightarrow> (u128, std_error) result"
  dx_supply :: "addr \<Rightarrow> (u128, std_error) result"
  dx_precision :: "asset_info \<Rightarrow> (nat, std_error) result"
  dx_stable_amp :: "addr \<Rightarrow> (u128 decoded option, std_error) result"

text \<open>The payloads of the calling contract: a token message that carries a hook, and a message to a pair or router.\<close>

record 'm swap_wrap =
  sw_token :: "swap_hook token_msg \<Rightarrow> 'm"
  sw_swap :: "swap_msg \<Rightarrow> 'm"

text \<open>Indexing panics out of range.\<close>

definition at_index :: "'a list \<Rightarrow> nat \<Rightarrow> ('a, 'e) result" where
  "at_index xs i = (if i < length xs then Ok (xs ! i) else Panic)"

lemma at_index_Ok [ok_simps]: "at_index xs i = Ok x \<longleftrightarrow> i < length xs \<and> x = xs ! i"
  by (auto simp: at_index_def)

subsection \<open>adapters/pair.rs\<close>

definition simulate_to_asset :: "dex \<Rightarrow> addr \<Rightarrow> pair_info \<Rightarrow> asset \<Rightarrow> (asset, std_error) result" where
  "simulate_to_asset dex pair pi offer =
     and_then (at_index (pr_asset_infos pi) 0) (\<lambda>first.
     and_then (if as_info offer = first then at_index (pr_asset_infos pi) 1 else Ok first) (\<lambda>ask.
     and_then (dx_simulate dex pair offer (Some ask)) (\<lambda>amount.
     Ok (with_balance ask amount))))"

definition swap_msg :: "'m swap_wrap \<Rightarrow> addr \<Rightarrow> asset \<Rightarrow> decimal option \<Rightarrow> decimal option \<Rightarrow> string option \<Rightarrow> 'm cosmos_msg" where
  "swap_msg w pair a belief_price max_spread recipient =
     (case as_info a of
        TokenAsset t \<Rightarrow> WasmExecute t (sw_token w (TokenSend pair (as_amount a) (PairSwapHook belief_price max_spread recipient))) []
      | NativeToken d \<Rightarrow> WasmExecute pair (sw_swap w (PairSwap a belief_price max_spread None)) [mk_coin (as_amount a) d])"

definition provide_liquidity_msg ::
    "'m swap_wrap \<Rightarrow> addr \<Rightarrow> asset list \<Rightarrow> decimal option \<Rightarrow> string option \<Rightarrow> coin list \<Rightarrow> 'm cosmos_msg" where
  "provide_liquidity_msg w pair assets slippage_tolerance receiver funds =
     WasmExecute pair (sw_swap w (PairProvideLiquidity assets slippage_tolerance receiver)) (sort_funds funds)"

subsection \<open>adapters/router.rs\<close>

fun swap_op :: "router_type \<Rightarrow> asset_info \<Rightarrow> asset_info \<Rightarrow> swap_operation" where
  "swap_op RtAstroSwap offer ask = OpAstroSwap offer ask"
| "swap_op RtTerraSwap offer ask = OpTerraSwap offer ask"
| "swap_op RtTokenSwap offer ask = OpTokenSwap offer ask"

fun swap_ops_from :: "router_type \<Rightarrow> asset_info \<Rightarrow> asset_info list \<Rightarrow> swap_operation list" where
  "swap_ops_from t previous [] = []"
| "swap_ops_from t previous (a # as) = swap_op t previous a # swap_ops_from t a as"

fun create_swap_operations :: "router_type \<Rightarrow> asset_info list \<Rightarrow> (swap_operation list, std_error) result" where
  "create_swap_operations t [] = Err (GenericErr ''required asset'')"
| "create_swap_operations t (a # as) = Ok (swap_ops_from t a as)"

fun get_offer_asset_info :: "swap_operation \<Rightarrow> asset_info" where
  "get_offer_asset_info (OpAstroSwap offer ask) = offer"
| "get_offer_asset_info (OpTerraSwap offer ask) = offer"
| "get_offer_asset_info (OpTokenSwap offer ask) = offer"

definition execute_swap_operations_msg ::
    "'m swap_wrap \<Rightarrow> addr \<Rightarrow> asset \<Rightarrow> swap_operation list \<Rightarrow> u128 option \<Rightarrow> addr option \<Rightarrow> decimal option \<Rightarrow> 'm cosmos_msg" where
  "execute_swap_operations_msg w router offer operations minimum_receive recipient max_spread =
     (case as_info offer of
        TokenAsset t \<Rightarrow> WasmExecute t
          (sw_token w (TokenSend router (as_amount offer) (RouterSwapOperationsHook operations minimum_receive recipient max_spread))) []
      | NativeToken d \<Rightarrow> WasmExecute router
          (sw_swap w (RouterSwapOperations operations minimum_receive recipient max_spread)) [mk_coin (as_amount offer) d])"

subsection \<open>adapters/factory.rs\<close>

definition factory_create_swap ::
    "dex \<Rightarrow> 'm swap_wrap \<Rightarrow> addr \<Rightarrow> asset \<Rightarrow> asset_info \<Rightarrow> decimal \<Rightarrow> string option \<Rightarrow> ('m cosmos_msg, std_error) result" where
  "factory_create_swap dex w factory offer wanted max_spread recipient =
     and_then (dx_factory_pair dex factory [as_info offer, wanted]) (\<lambda>pi.
     Ok (swap_msg w (pr_contract_addr pi) offer None (Some max_spread) recipient))"

definition factory_simulate :: "dex \<Rightarrow> addr \<Rightarrow> asset \<Rightarrow> asset_info \<Rightarrow> (asset, std_error) result" where
  "factory_simulate dex factory offer wanted =
     and_then (dx_factory_pair dex factory [as_info offer, wanted]) (\<lambda>pi.
     simulate_to_asset dex (pr_contract_addr pi) pi offer)"

end
