(* ===== verification/Proxy.thy ===== *)
theory Proxy
  imports Swaps
begin

text \<open>
  The compound proxy (\<open>contracts/amp-compounder/compound_proxy\<close>): it receives rewards, swaps them along registered routes to a token of the
  pair, swaps the part of it that balances the two sides, and provides the result as liquidity to the pair. The steps run as messages the contract
  sends to itself.
\<close>

section \<open>Types and state\<close>

datatype proxy_error =
    ProxyStd std_error
  | ProxyUnauthorized
  | ProxyAddPairContractDuplicated string
  | ProxyWantedTokenNotInPair string
  | ProxySlippageTooHigh

abbreviation xstd :: "('a, std_error) result \<Rightarrow> ('a, proxy_error) result" where
  "xstd \<equiv> map_err ProxyStd"

record proxy_config =
  px_factory :: "addr option"
  px_owner :: addr

record lp_config =
  lc_pair_info :: pair_info
  lc_commission_bps :: u64
  lc_slippage_tolerance :: decimal
  lc_wanted_token :: asset_info

datatype route_type =
    RoutePath addr router_type "asset_info list"
  | RoutePairProxy pair_info

record route_config =
  rc_key :: "asset_info \<times> asset_info"
  rc_route_type :: route_type

text \<open>
  A route is stored under the bytes of its two ends. The first part of such a key is written with its length in front, so the store is
  ordered by this length first.
\<close>

type_synonym route_key = "nat \<times> string \<times> string"
type_synonym ownership_item = string

record proxy_state =
  ps_config :: "proxy_config option"
  ps_ownership_proposal :: "ownership_item option"
  ps_lps :: "(string, lp_config) store"
  ps_routes :: "(route_key, route_config) store"
  ps_default_max_spread :: "u64 option"

definition empty_proxy :: proxy_state where
  "empty_proxy = \<lparr>ps_config = None, ps_ownership_proposal = None, ps_lps = [], ps_routes = [], ps_default_max_spread = None\<rparr>"

record lp_init =
  li_pair_contract :: string
  li_commission_bps :: u64
  li_slippage_tolerance :: decimal
  li_wanted_token :: asset_info

datatype route_init =
    InitPath string router_type "asset_info list"
  | InitPairProxy "asset_info option" string

record route_delete =
  rd_from :: asset_info
  rd_to :: asset_info
  rd_both :: "bool option"

record proxy_instantiate_msg =
  pxi_lps :: "lp_init list"
  pxi_routes :: "route_init list"
  pxi_factory :: "string option"
  pxi_owner :: string

datatype proxy_callback_msg =
    OptimalSwap string
  | ProvideLiquidity "asset list" string "decimal option" string
  | SendSwapResult asset_info string

record proxy_update =
  pu_factory :: "string option"
  pu_remove_factory :: "bool option"
  pu_upsert_lps :: "lp_init list option"
  pu_delete_lps :: "string list option"
  pu_insert_routes :: "route_init list option"
  pu_delete_routes :: "route_delete list option"
  pu_default_max_spread :: "u64 option"

datatype proxy_execute_msg =
    ProxyCompoundMsg string "asset list" "string option" "bool option" "decimal option"
  | ProxyMultiSwap asset_info "asset list" "string option"
  | ProxyProposeNewOwner string u64
  | ProxyUpdateConfig proxy_update
  | ProxyDropProposal
  | ProxyClaimOwnership
  | ProxyCallback proxy_callback_msg

datatype proxy_payload =
    ProxyToken "swap_hook token_msg"
  | ProxySwap swap_msg
  | ToProxy proxy_execute_msg

definition proxy_wrap :: "proxy_payload swap_wrap" where
  "proxy_wrap = \<lparr>sw_token = ProxyToken, sw_swap = ProxySwap\<rparr>"

type_synonym proxy_msg = "proxy_payload cosmos_msg"
type_synonym proxy_response = "proxy_payload response"
type_synonym proxy_result = "(proxy_state \<times> proxy_response, proxy_error) result"

record proxy_deps =
  xd_addr_validate :: "string \<Rightarrow> (addr, std_error) result"
  xd_assets :: asset_lib
  xd_dex :: dex
  xd_into_msg :: "asset \<Rightarrow> string \<Rightarrow> (proxy_msg, std_error) result"
  xd_minimum_liquidity :: u128
  xd_propose_new_owner :: "message_info \<Rightarrow> env \<Rightarrow> string \<Rightarrow> u64 \<Rightarrow> addr \<Rightarrow> ownership_item option \<Rightarrow>
    (ownership_item option \<times> proxy_response, std_error) result"
  xd_drop_ownership_proposal :: "message_info \<Rightarrow> addr \<Rightarrow> ownership_item option \<Rightarrow>
    (ownership_item option \<times> proxy_response, std_error) result"
  xd_claim_ownership :: "message_info \<Rightarrow> env \<Rightarrow> ownership_item option \<Rightarrow>
    (addr \<times> ownership_item option \<times> proxy_response, std_error) result"

definition proxy_callback_into_msg :: "proxy_callback_msg \<Rightarrow> addr \<Rightarrow> proxy_msg" where
  "proxy_callback_into_msg msg contract = WasmExecute contract (ToProxy (ProxyCallback msg)) []"

section \<open>State (\<open>state.rs\<close>)\<close>

definition proxy_assert_owner :: "proxy_state \<Rightarrow> addr \<Rightarrow> (unit, std_error) result" where
  "proxy_assert_owner st sender =
     and_then (load_item (ps_config st)) (\<lambda>config.
     if sender = px_owner config then Ok () else Err (GenericErr ''unauthorized: sender is not owner''))"

definition dec_percent :: "u64 \<Rightarrow> decimal" where "dec_percent x = x * 10000000000000000"

definition get_default_max_spread :: "proxy_state \<Rightarrow> decimal" where
  "get_default_max_spread st = dec_percent (unwrap_or (ps_default_max_spread st) 10)"

definition route_key :: "proxy_deps \<Rightarrow> asset_info \<Rightarrow> asset_info \<Rightarrow> route_key" where
  "route_key deps a b =
     (length (al_as_bytes (xd_assets deps) a), al_as_bytes (xd_assets deps) a, al_as_bytes (xd_assets deps) b)"

definition route_create_swap :: "route_config \<Rightarrow> asset \<Rightarrow> decimal \<Rightarrow> addr option \<Rightarrow> (proxy_msg, std_error) result" where
  "route_create_swap rc offer max_spread recipient =
     (case rc_route_type rc of
        RoutePath router rt route \<Rightarrow> and_then (create_swap_operations rt route) (\<lambda>ops.
          Ok (execute_swap_operations_msg proxy_wrap router offer ops None recipient (Some max_spread)))
      | RoutePairProxy pi \<Rightarrow> Ok (swap_msg proxy_wrap (pr_contract_addr pi) offer None (Some max_spread) recipient))"

definition route_simulate :: "dex \<Rightarrow> route_config \<Rightarrow> asset \<Rightarrow> (asset, std_error) result" where
  "route_simulate dex rc offer =
     (case rc_route_type rc of
        RoutePath router rt route \<Rightarrow> and_then (create_swap_operations rt route) (\<lambda>ops.
          and_then (dx_router_simulate dex router (as_amount offer) ops) (\<lambda>amount.
          and_then (at_index route (length route - 1)) (\<lambda>ask. Ok (with_balance ask amount))))
      | RoutePairProxy pi \<Rightarrow> simulate_to_asset dex (pr_contract_addr pi) pi offer)"

definition validate_slippage :: "decimal \<Rightarrow> (decimal, proxy_error) result" where
  "validate_slippage d = (if d > dec_percent 50 then Err ProxySlippageTooHigh else Ok d)"

definition validate_commission :: "u64 \<Rightarrow> (u64, std_error) result" where
  "validate_commission bps = (if bps \<ge> 10000 then Err (GenericErr ''commission rate must be 0 to 9999'') else Ok bps)"

definition proxy_validate_percentage :: "decimal \<Rightarrow> string \<Rightarrow> (decimal, std_error) result" where
  "proxy_validate_percentage v field = (if v > DEC_ONE then Err (GenericErr (field @ '' must be 0 to 1'')) else Ok v)"

definition remove_lp :: "proxy_deps \<Rightarrow> proxy_state \<Rightarrow> string \<Rightarrow> (proxy_state, std_error) result" where
  "remove_lp deps st lp_token =
     and_then (xd_addr_validate deps lp_token) (\<lambda>k.
     if get (ps_lps st) k = None then Err (GenericErr (''Lp '' @ k @ '' not found''))
     else Ok (st\<lparr>ps_lps := del k (ps_lps st)\<rparr>))"

definition add_lp :: "proxy_deps \<Rightarrow> proxy_state \<Rightarrow> lp_init \<Rightarrow> (proxy_state, proxy_error) result" where
  "add_lp deps st lp =
     and_then (xstd (xd_addr_validate deps (li_pair_contract lp))) (\<lambda>pair_contract.
     and_then (xstd (dx_pair_info (xd_dex deps) pair_contract)) (\<lambda>pair_info.
     if li_wanted_token lp \<notin> set (pr_asset_infos pair_info) then
       Err (ProxyWantedTokenNotInPair (al_to_string (xd_assets deps) (li_wanted_token lp)))
     else
       and_then (validate_slippage (li_slippage_tolerance lp)) (\<lambda>_.
       and_then (case pr_pair_type pair_info of
           CustomPair t \<Rightarrow> Err (ProxyStd (GenericErr ''Custom pair type not supported''))
         | _ \<Rightarrow> Ok ()) (\<lambda>_.
       and_then (xstd (validate_commission (li_commission_bps lp))) (\<lambda>commission_bps.
       and_then (xstd (proxy_validate_percentage (li_slippage_tolerance lp) ''slippage_tolerance'')) (\<lambda>slippage_tolerance.
       Ok (st\<lparr>ps_lps := put (pr_liquidity_token pair_info) \<lparr>lc_pair_info = pair_info, lc_commission_bps = commission_bps,
         lc_slippage_tolerance = slippage_tolerance, lc_wanted_token = li_wanted_token lp\<rparr> (ps_lps st)\<rparr>)))))))"

definition delete_route :: "proxy_deps \<Rightarrow> proxy_state \<Rightarrow> asset_info \<Rightarrow> asset_info \<Rightarrow> bool \<Rightarrow> (proxy_state, std_error) result" where
  "delete_route deps st a b both =
     (if get (ps_routes st) (route_key deps a b) = None then Err (GenericErr ''Route not found'')
      else let st' = st\<lparr>ps_routes := del (route_key deps a b) (ps_routes st)\<rparr> in
        if both then
          if get (ps_routes st') (route_key deps b a) = None then Err (GenericErr ''Route not found'')
          else Ok (st'\<lparr>ps_routes := del (route_key deps b a) (ps_routes st')\<rparr>)
        else Ok st')"

definition checked_save_route ::
    "proxy_deps \<Rightarrow> asset_info \<Rightarrow> asset_info \<Rightarrow> route_type \<Rightarrow> proxy_state \<Rightarrow> (proxy_state, std_error) result" where
  "checked_save_route deps a b rt st =
     (if get (ps_routes st) (route_key deps a b) \<noteq> None then Err (GenericErr ''Route already registered'')
      else Ok (st\<lparr>ps_routes := put (route_key deps a b) \<lparr>rc_key = (a, b), rc_route_type = rt\<rparr> (ps_routes st)\<rparr>))"

text \<open>Every segment is checked before the next one is compared with the earlier ones.\<close>

fun check_segments :: "asset_lib \<Rightarrow> string list \<Rightarrow> asset_info list \<Rightarrow> (unit, std_error) result" where
  "check_segments lib seen [] = Ok ()"
| "check_segments lib seen (s # ss) =
     and_then (al_check lib s) (\<lambda>_.
     if al_to_string lib s \<in> set seen then Err (GenericErr (''Segment '' @ al_to_string lib s @ '' duplicated''))
     else check_segments lib (al_to_string lib s # seen) ss)"

fun add_route :: "proxy_deps \<Rightarrow> proxy_state \<Rightarrow> route_init \<Rightarrow> (proxy_state, std_error) result" where
  "add_route deps st (InitPath router rt route) =
     and_then (check_segments (xd_assets deps) [] route) (\<lambda>_.
     and_then (at_index route 0) (\<lambda>start.
     and_then (at_index route (length route - 1)) (\<lambda>finish.
     and_then (xd_addr_validate deps router) (\<lambda>router.
     and_then (checked_save_route deps start finish (RoutePath router rt route) st) (\<lambda>st.
     checked_save_route deps finish start (RoutePath router rt (rev route)) st)))))"
| "add_route deps st (InitPairProxy single_direction_from pair_contract) =
     and_then (xd_addr_validate deps pair_contract) (\<lambda>pair_contract.
     and_then (dx_pair_info (xd_dex deps) pair_contract) (\<lambda>pair_info.
     if length (pr_asset_infos pair_info) \<noteq> 2 then Err (GenericErr ''Currently only pairs with 2 assets supported'')
     else
       let asset1 = pr_asset_infos pair_info ! 0; asset2 = pr_asset_infos pair_info ! 1; rt = RoutePairProxy pair_info in
       case single_direction_from of
         Some a \<Rightarrow>
           if a = asset1 then checked_save_route deps asset1 asset2 rt st
           else if a = asset2 then checked_save_route deps asset2 asset1 rt st
           else Err (GenericErr (''Provided start asset '' @ al_to_string (xd_assets deps) a @ '' not in pair.''))
       | None \<Rightarrow>
           and_then (checked_save_route deps asset1 asset2 rt st) (\<lambda>st.
           checked_save_route deps asset2 asset1 rt st)))"

end
