(* ===== verification/ProxyExec.thy ===== *)
theory ProxyExec
  imports Proxy
begin

text \<open>
  The handlers of the compound proxy (\<open>execute.rs\<close>, \<open>contract.rs\<close>) and its queries (\<open>queries.rs\<close>).
\<close>

section \<open>The optimal swap\<close>

definition COMMISSION_DENOM :: u64 where "COMMISSION_DENOM = 10000"

definition get_swap_amount :: "nat \<Rightarrow> nat \<Rightarrow> nat \<Rightarrow> nat \<Rightarrow> u64 \<Rightarrow> (u128, std_error) result" where
  "get_swap_amount amount_a amount_b pool_a pool_b commission_bps =
     and_then (u256_add amount_a pool_a) (\<lambda>pool_ax.
     and_then (u256_add amount_b pool_b) (\<lambda>pool_bx.
     and_then (u256_mul pool_ax pool_b) (\<lambda>area_ax.
     and_then (u256_mul pool_bx pool_a) (\<lambda>area_bx.
     and_then (u64_mul commission_bps commission_bps) (\<lambda>c2.
     and_then (u256_mul c2 area_ax) (\<lambda>a1.
     and_then (u64_sub COMMISSION_DENOM commission_bps) (\<lambda>rest.
     and_then (u64_mul 4 rest) (\<lambda>rest4.
     and_then (u64_mul rest4 COMMISSION_DENOM) (\<lambda>c4.
     and_then (u256_mul c4 area_bx) (\<lambda>a2.
     and_then (u256_add a1 a2) (\<lambda>a.
     and_then (u256_mul commission_bps area_ax) (\<lambda>b1.
     and_then (u256_mul (isqrt area_ax) (isqrt a)) (\<lambda>b2.
     and_then (u256_add b1 b2) (\<lambda>b.
     and_then (u64_mul 2 COMMISSION_DENOM) (\<lambda>d.
     and_then (u256_div b d) (\<lambda>q.
     and_then (u256_div q pool_bx) (\<lambda>r.
     to_u128 (r - pool_a))))))))))))))))))"

definition simulate_swap :: "nat \<Rightarrow> nat \<Rightarrow> nat \<Rightarrow> nat \<Rightarrow> (u128, std_error) result" where
  "simulate_swap offer_pool ask_pool offer_amount commission_rate =
     and_then (u256_mul offer_pool ask_pool) (\<lambda>cp.
     and_then (dec256_from_ratio ask_pool 1) (\<lambda>ask.
     and_then (u256_add offer_pool offer_amount) (\<lambda>offer_after.
     and_then (dec256_from_ratio cp offer_after) (\<lambda>ask_after.
     and_then (u256_sub ask ask_after) (\<lambda>diff.
     and_then (u256_mul_dec 1 diff) (\<lambda>return_amount.
     and_then (u256_mul_dec return_amount commission_rate) (\<lambda>commission_amount.
     and_then (u256_sub return_amount commission_amount) (\<lambda>return_amount.
     to_u128 return_amount))))))))"

record optimal_swap =
  os_swap_a :: u128
  os_swap_b :: u128
  os_return_a :: u128
  os_return_b :: u128

definition no_swap_result :: optimal_swap where
  "no_swap_result = \<lparr>os_swap_a = 0, os_swap_b = 0, os_return_a = 0, os_return_b = 0\<rparr>"

text \<open>The swap of one side for the other: the amount, what it returns, and the message unless nothing would be returned.\<close>

definition swap_side ::
    "lp_config \<Rightarrow> asset_info \<Rightarrow> nat \<Rightarrow> nat \<Rightarrow> nat \<Rightarrow> nat \<Rightarrow> decimal \<Rightarrow> (u128 \<times> u128 \<times> proxy_msg list, std_error) result" where
  "swap_side lp info provide_a provide_b pool_a pool_b max_spread =
     and_then (get_swap_amount provide_a provide_b pool_a pool_b (lc_commission_bps lp)) (\<lambda>swap_amount.
     if swap_amount = 0 then Ok (0, 0, [])
     else
       and_then (dec256_from_ratio (lc_commission_bps lp) COMMISSION_DENOM) (\<lambda>rate.
       and_then (simulate_swap pool_a pool_b swap_amount rate) (\<lambda>return_amount.
       if return_amount = 0 then Ok (0, 0, [])
       else Ok (swap_amount, return_amount,
         [swap_msg proxy_wrap (pr_contract_addr (lc_pair_info lp)) (with_balance info swap_amount) None (Some max_spread) None]))))"

definition calculate_optimal_swap ::
    "dex \<Rightarrow> lp_config \<Rightarrow> asset \<Rightarrow> asset \<Rightarrow> decimal \<Rightarrow> (optimal_swap \<times> proxy_msg list, std_error) result" where
  "calculate_optimal_swap dex lp asset_a asset_b max_spread =
     and_then (dx_query_pools dex (lc_pair_info lp) (pr_contract_addr (lc_pair_info lp))) (\<lambda>pools.
     and_then (at_index pools 0) (\<lambda>pool_0.
     and_then (at_index pools 1) (\<lambda>pool_1.
     and_then (u256_mul (as_amount asset_a) (as_amount pool_1)) (\<lambda>provide_a_area.
     and_then (u256_mul (as_amount asset_b) (as_amount pool_0)) (\<lambda>provide_b_area.
     if provide_a_area > provide_b_area then
       and_then (swap_side lp (as_info asset_a) (as_amount asset_a) (as_amount asset_b) (as_amount pool_0) (as_amount pool_1) max_spread)
         (\<lambda>(swap, ret, msgs). Ok (no_swap_result\<lparr>os_swap_a := swap, os_return_b := ret\<rparr>, msgs))
     else if provide_a_area < provide_b_area then
       and_then (swap_side lp (as_info asset_b) (as_amount asset_b) (as_amount asset_a) (as_amount pool_1) (as_amount pool_0) max_spread)
         (\<lambda>(swap, ret, msgs). Ok (no_swap_result\<lparr>os_swap_b := swap, os_return_a := ret\<rparr>, msgs))
     else Ok (no_swap_result, []))))))"

definition optimal_swap :: "proxy_deps \<Rightarrow> env \<Rightarrow> string \<Rightarrow> proxy_state \<Rightarrow> proxy_result" where
  "optimal_swap deps env lp_addr st =
     and_then (xstd (load_item (get (ps_lps st) lp_addr))) (\<lambda>lp.
     and_then (case pr_pair_type (lc_pair_info lp) of
         Stable \<Rightarrow> Ok []
       | _ \<Rightarrow>
         and_then (xstd (dx_query_pools (xd_dex deps) (lc_pair_info lp) (env_contract env))) (\<lambda>assets.
         and_then (at_index assets 0) (\<lambda>asset_a.
         and_then (at_index assets 1) (\<lambda>asset_b.
         if as_amount asset_a \<noteq> 0 \<or> as_amount asset_b \<noteq> 0 then
           and_then (xstd (calculate_optimal_swap (xd_dex deps) lp asset_a asset_b (get_default_max_spread st))) (\<lambda>(swap, msgs). Ok msgs)
         else Ok [])))) (\<lambda>messages.
     Ok (st, add_attribute (add_messages new_response messages) ''action'' ''ampc/optimal_swap'')))"

section \<open>Compounding\<close>

text \<open>The message that swaps a reward to the wanted token: a registered route, else a pair of the factory.\<close>

definition swap_reward :: "proxy_deps \<Rightarrow> proxy_state \<Rightarrow> addr option \<Rightarrow> asset \<Rightarrow> asset_info \<Rightarrow> addr option \<Rightarrow> (proxy_msg, proxy_error) result" where
  "swap_reward deps st factory reward wanted recipient =
     (case get (ps_routes st) (route_key deps (as_info reward) wanted) of
        Some rc \<Rightarrow> xstd (route_create_swap rc reward (get_default_max_spread st) recipient)
      | None \<Rightarrow>
        (case factory of
           Some f \<Rightarrow> xstd (factory_create_swap (xd_dex deps) proxy_wrap f reward wanted (get_default_max_spread st) recipient)
         | None \<Rightarrow> Err (ProxyStd (GenericErr (''did not find route '' @ al_to_string (xd_assets deps) (as_info reward) @ ''-'' @
             al_to_string (xd_assets deps) wanted)))))"

definition deposit_reward :: "proxy_deps \<Rightarrow> env \<Rightarrow> message_info \<Rightarrow> asset \<Rightarrow> (proxy_msg list, proxy_error) result" where
  "deposit_reward deps env info reward = xstd (deposit_asset (xd_assets deps) ProxyToken reward info (env_contract env))"

definition compound_reward ::
    "proxy_deps \<Rightarrow> env \<Rightarrow> message_info \<Rightarrow> proxy_state \<Rightarrow> addr option \<Rightarrow> lp_config \<Rightarrow>
      proxy_msg list \<times> (asset_info \<times> u128) list \<Rightarrow> asset \<Rightarrow> (proxy_msg list \<times> (asset_info \<times> u128) list, proxy_error) result" where
  "compound_reward deps env info st factory lp = (\<lambda>(messages, natives) reward.
     and_then (deposit_reward deps env info reward) (\<lambda>deposits.
     and_then (if as_info reward \<in> set (pr_asset_infos (lc_pair_info lp)) then Ok []
       else and_then (swap_reward deps st factory reward (lc_wanted_token lp) None) (\<lambda>m. Ok [m])) (\<lambda>swaps.
     Ok (messages @ deposits @ swaps,
       if is_native_token reward then (as_info reward, as_amount reward) # natives else natives))))"

definition balance_before :: "(asset_info \<times> u128) list \<Rightarrow> asset \<Rightarrow> (asset, std_error) result" where
  "balance_before natives a =
     and_then (checked_sub (as_amount a) (unwrap_or (map_of natives (as_info a)) 0)) (\<lambda>balance.
     Ok (with_balance (as_info a) balance))"

definition proxy_compound ::
    "proxy_deps \<Rightarrow> env \<Rightarrow> message_info \<Rightarrow> asset list \<Rightarrow> addr \<Rightarrow> bool option \<Rightarrow> decimal option \<Rightarrow> string \<Rightarrow> proxy_state \<Rightarrow> proxy_result" where
  "proxy_compound deps env info rewards receiver no_swap slippage_tolerance lp_token st =
     and_then (xstd (assert_uniq_assets (xd_assets deps) rewards)) (\<lambda>_.
     and_then (xstd (load_item (ps_config st))) (\<lambda>config.
     and_then (ok_or (ProxyStd (GenericErr (''did not find lp '' @ lp_token))) (get (ps_lps st) lp_token)) (\<lambda>lp.
     and_then (try_fold (compound_reward deps env info st (px_factory config) lp) ([], []) rewards) (\<lambda>(messages, natives).
     let swap = (if unwrap_or no_swap False then []
       else [proxy_callback_into_msg (OptimalSwap lp_token) (env_contract env)]) in
     and_then (xstd (dx_query_pools (xd_dex deps) (lc_pair_info lp) (env_contract env))) (\<lambda>assets.
     and_then (xstd (traverse (balance_before natives) assets)) (\<lambda>prev_balances.
     Ok (st, add_attribute (add_messages new_response (messages @ swap @
       [proxy_callback_into_msg (ProvideLiquidity prev_balances receiver slippage_tolerance lp_token) (env_contract env)]))
       ''action'' ''ampc/compound'')))))))"

definition multi_reward ::
    "proxy_deps \<Rightarrow> env \<Rightarrow> message_info \<Rightarrow> proxy_state \<Rightarrow> addr option \<Rightarrow> asset_info \<Rightarrow> addr \<Rightarrow>
      proxy_msg list \<times> bool \<Rightarrow> asset \<Rightarrow> (proxy_msg list \<times> bool, proxy_error) result" where
  "multi_reward deps env info st factory wanted receiver = (\<lambda>(messages, send_back) reward.
     and_then (deposit_reward deps env info reward) (\<lambda>deposits.
     if as_info reward = wanted then Ok (messages @ deposits, True)
     else and_then (swap_reward deps st factory reward wanted (Some receiver)) (\<lambda>m.
       Ok (messages @ deposits @ [m], send_back))))"

definition multi_swap :: "proxy_deps \<Rightarrow> env \<Rightarrow> message_info \<Rightarrow> asset_info \<Rightarrow> asset list \<Rightarrow> addr \<Rightarrow> proxy_state \<Rightarrow> proxy_result" where
  "multi_swap deps env info wanted rewards receiver st =
     and_then (xstd (assert_uniq_assets (xd_assets deps) rewards)) (\<lambda>_.
     and_then (xstd (load_item (ps_config st))) (\<lambda>config.
     and_then (try_fold (multi_reward deps env info st (px_factory config) wanted receiver) ([], False) rewards) (\<lambda>(messages, send_back).
     Ok (st, add_attribute (add_messages new_response (messages @
         (if send_back then [proxy_callback_into_msg (SendSwapResult wanted receiver) (env_contract env)] else [])))
       ''action'' ''ampc/multi_swap''))))"

definition send_swap_result :: "proxy_deps \<Rightarrow> env \<Rightarrow> asset_info \<Rightarrow> string \<Rightarrow> proxy_state \<Rightarrow> proxy_result" where
  "send_swap_result deps env token receiver st =
     and_then (xstd (al_query_pool (xd_assets deps) token (env_contract env))) (\<lambda>amount.
     and_then (xstd (xd_into_msg deps (with_balance token amount) receiver)) (\<lambda>m.
     Ok (st, add_attribute (add_message new_response m) ''action'' ''ampc/send_swap_result'')))"

text \<open>What came in since the balances were noted: the assets to provide, the coins to send along, the allowances.\<close>

definition provide_asset ::
    "proxy_deps \<Rightarrow> env \<Rightarrow> addr \<Rightarrow> (asset_info \<times> u128) list \<Rightarrow> asset list \<times> coin list \<times> proxy_msg list \<Rightarrow> asset \<Rightarrow>
      (asset list \<times> coin list \<times> proxy_msg list, std_error) result" where
  "provide_asset deps env pair prev = (\<lambda>(provided, funds, messages) asset.
     and_then (checked_sub (as_amount asset) (unwrap_or (map_of prev (as_info asset)) 0)) (\<lambda>amount.
     let a = with_balance (as_info asset) amount in
     if amount = 0 then Ok (provided @ [a], funds, messages)
     else if is_native_token asset then
       Ok (provided @ [a], funds @ [mk_coin amount (al_to_string (xd_assets deps) (as_info a))], messages)
     else and_then (u64_add (env_height env) 1) (\<lambda>h.
       Ok (provided @ [a], funds,
         messages @ [increase_allowance_msg (xd_assets deps) ProxyToken a pair (Some (AtHeight h))]))))"

definition provide_liquidity ::
    "proxy_deps \<Rightarrow> env \<Rightarrow> asset list \<Rightarrow> string \<Rightarrow> decimal option \<Rightarrow> string \<Rightarrow> proxy_state \<Rightarrow> proxy_result" where
  "provide_liquidity deps env prev_balances receiver slippage_tolerance lp_addr st =
     and_then (xstd (load_item (get (ps_lps st) lp_addr))) (\<lambda>lp.
     let pair_contract = pr_contract_addr (lc_pair_info lp) in
     and_then (xstd (dx_query_pools (xd_dex deps) (lc_pair_info lp) (env_contract env))) (\<lambda>assets.
     let prev = rev (map (\<lambda>a. (as_info a, as_amount a)) prev_balances) in
     and_then (xstd (try_fold (provide_asset deps env pair_contract prev) ([], [], []) assets)) (\<lambda>(provided, funds, messages).
     Ok (st, add_attribute (add_attribute (add_messages new_response (messages @
         [provide_liquidity_msg proxy_wrap pair_contract provided
            (Some (unwrap_or slippage_tolerance (lc_slippage_tolerance lp))) (Some receiver) funds]))
       ''action'' ''ampc/provide_liquidity'') ''receiver'' receiver))))"

definition proxy_handle_callback :: "proxy_deps \<Rightarrow> env \<Rightarrow> message_info \<Rightarrow> proxy_callback_msg \<Rightarrow> proxy_state \<Rightarrow> proxy_result" where
  "proxy_handle_callback deps env info msg st =
     (if info_sender info \<noteq> env_contract env then Err ProxyUnauthorized
      else case msg of
        OptimalSwap lp_addr \<Rightarrow> optimal_swap deps env lp_addr st
      | ProvideLiquidity prev_balances receiver slippage_tolerance lp_addr \<Rightarrow>
          provide_liquidity deps env prev_balances receiver slippage_tolerance lp_addr st
      | SendSwapResult token receiver \<Rightarrow> send_swap_result deps env token receiver st)"

end
