(* ===== verification/ProxyContract.thy ===== *)
theory ProxyContract
  imports ProxyExec
begin

text \<open>
  The configuration, entry points and queries of the compound proxy (\<open>execute.rs\<close>, \<open>contract.rs\<close>, \<open>queries.rs\<close>) and the simulation of a
  compounding (\<open>simulation.rs\<close>).
\<close>

section \<open>Configuration and entry points\<close>

text \<open>The pair contracts of one message are pairwise different, compared as they are written.\<close>

fun add_lps :: "proxy_deps \<Rightarrow> string list \<Rightarrow> proxy_state \<Rightarrow> lp_init list \<Rightarrow> (proxy_state, proxy_error) result" where
  "add_lps deps used st [] = Ok st"
| "add_lps deps used st (lp # lps) =
     (if li_pair_contract lp \<in> set used then Err (ProxyAddPairContractDuplicated (li_pair_contract lp))
      else and_then (add_lp deps st lp) (\<lambda>st. add_lps deps (li_pair_contract lp # used) st lps))"

definition update_factory :: "proxy_deps \<Rightarrow> proxy_update \<Rightarrow> proxy_config \<Rightarrow> (proxy_config, proxy_error) result" where
  "update_factory deps u config =
     (case pu_factory u of
        Some f \<Rightarrow> and_then (xstd (xd_addr_validate deps f)) (\<lambda>f. Ok (config\<lparr>px_factory := Some f\<rparr>))
      | None \<Rightarrow> Ok (if pu_remove_factory u = Some True then config\<lparr>px_factory := None\<rparr> else config))"

definition proxy_update_config :: "proxy_deps \<Rightarrow> message_info \<Rightarrow> proxy_update \<Rightarrow> proxy_state \<Rightarrow> proxy_result" where
  "proxy_update_config deps info u st =
     and_then (xstd (proxy_assert_owner st (info_sender info))) (\<lambda>_.
     and_then (xstd (load_item (ps_config st))) (\<lambda>config.
     and_then (update_factory deps u config) (\<lambda>config.
     and_then (xstd (try_fold (remove_lp deps) (st\<lparr>ps_config := Some config\<rparr>) (unwrap_or (pu_delete_lps u) []))) (\<lambda>st.
     and_then (add_lps deps [] st (unwrap_or (pu_upsert_lps u) [])) (\<lambda>st.
     and_then (xstd (try_fold (\<lambda>st r. delete_route deps st (rd_from r) (rd_to r) (unwrap_or (rd_both r) True)) st
         (unwrap_or (pu_delete_routes u) []))) (\<lambda>st.
     and_then (xstd (try_fold (add_route deps) st (unwrap_or (pu_insert_routes u) []))) (\<lambda>st.
     and_then (case pu_default_max_spread u of
         Some s \<Rightarrow> and_then (validate_slippage (dec_percent s)) (\<lambda>_. Ok (st\<lparr>ps_default_max_spread := Some s\<rparr>))
       | None \<Rightarrow> Ok st) (\<lambda>st.
     Ok (st, add_attribute new_response ''action'' ''ampc/update_config'')))))))))"

definition proxy_instantiate :: "proxy_deps \<Rightarrow> proxy_instantiate_msg \<Rightarrow> proxy_state \<Rightarrow> proxy_result" where
  "proxy_instantiate deps msg st =
     and_then (xstd (addr_opt_validate (xd_addr_validate deps) (pxi_factory msg))) (\<lambda>factory.
     and_then (xstd (xd_addr_validate deps (pxi_owner msg))) (\<lambda>owner.
     and_then (add_lps deps [] (st\<lparr>ps_config := Some \<lparr>px_factory = factory, px_owner = owner\<rparr>\<rparr>) (pxi_lps msg)) (\<lambda>st.
     and_then (xstd (try_fold (add_route deps) st (pxi_routes msg))) (\<lambda>st.
     Ok (st, add_attribute new_response ''action'' ''ampc/instantiate'')))))"

fun proxy_execute :: "proxy_deps \<Rightarrow> env \<Rightarrow> message_info \<Rightarrow> proxy_execute_msg \<Rightarrow> proxy_state \<Rightarrow> proxy_result" where
  "proxy_execute deps env info (ProxyCompoundMsg lp_token rewards receiver no_swap slippage_tolerance) st =
     and_then (xstd (addr_opt_validate (xd_addr_validate deps) receiver)) (\<lambda>receiver.
     proxy_compound deps env info rewards (unwrap_or receiver (info_sender info)) no_swap slippage_tolerance lp_token st)"
| "proxy_execute deps env info (ProxyMultiSwap into assets receiver) st =
     and_then (xstd (addr_opt_validate (xd_addr_validate deps) receiver)) (\<lambda>receiver.
     multi_swap deps env info into assets (unwrap_or receiver (info_sender info)) st)"
| "proxy_execute deps env info (ProxyUpdateConfig u) st = proxy_update_config deps info u st"
| "proxy_execute deps env info (ProxyProposeNewOwner owner expires_in) st =
     and_then (xstd (load_item (ps_config st))) (\<lambda>config.
     and_then (xstd (xd_propose_new_owner deps info env owner expires_in (px_owner config) (ps_ownership_proposal st))) (\<lambda>(p, r).
     Ok (st\<lparr>ps_ownership_proposal := p\<rparr>, r)))"
| "proxy_execute deps env info ProxyDropProposal st =
     and_then (xstd (load_item (ps_config st))) (\<lambda>config.
     and_then (xstd (xd_drop_ownership_proposal deps info (px_owner config) (ps_ownership_proposal st))) (\<lambda>(p, r).
     Ok (st\<lparr>ps_ownership_proposal := p\<rparr>, r)))"
| "proxy_execute deps env info ProxyClaimOwnership st =
     and_then (xstd (xd_claim_ownership deps info env (ps_ownership_proposal st))) (\<lambda>(new_owner, p, r).
     and_then (xstd (load_item (ps_config st))) (\<lambda>config.
     Ok (st\<lparr>ps_config := Some (config\<lparr>px_owner := new_owner\<rparr>), ps_ownership_proposal := p\<rparr>, r)))"
| "proxy_execute deps env info (ProxyCallback msg) st = proxy_handle_callback deps env info msg st"

definition proxy_migrate :: "proxy_state \<Rightarrow> (proxy_state \<times> proxy_response, std_error) result" where
  "proxy_migrate st = Ok (st, new_response)"

section \<open>Queries\<close>

record lp_state_response =
  lsr_contract_addr :: addr
  lsr_liquidity_token :: addr
  lsr_assets :: "asset list"
  lsr_total_share :: u128

datatype route_type_item =
    PathItem string router_type "string list"
  | PairProxyItem string "string list"

record route_item =
  rti_key :: "string \<times> string"
  rti_route_type :: route_type_item

definition proxy_query_config :: "proxy_state \<Rightarrow> (addr option \<times> addr, std_error) result" where
  "proxy_query_config st = and_then (load_item (ps_config st)) (\<lambda>c. Ok (px_factory c, px_owner c))"

definition get_lp :: "proxy_state \<Rightarrow> string \<Rightarrow> (lp_config, std_error) result" where
  "get_lp st lp_addr = load_item (get (ps_lps st) lp_addr)"

definition get_lp_state :: "proxy_deps \<Rightarrow> proxy_state \<Rightarrow> string \<Rightarrow> (lp_state_response, std_error) result" where
  "get_lp_state deps st lp_addr =
     and_then (load_item (get (ps_lps st) lp_addr)) (\<lambda>lp.
     and_then (dx_pool_info (xd_dex deps) (pr_contract_addr (lc_pair_info lp))) (\<lambda>pool.
     Ok \<lparr>lsr_contract_addr = pr_contract_addr (lc_pair_info lp), lsr_liquidity_token = pr_liquidity_token (lc_pair_info lp),
       lsr_assets = po_assets pool, lsr_total_share = po_total_share pool\<rparr>))"

definition proxy_limit :: "nat option \<Rightarrow> nat" where "proxy_limit limit = min (unwrap_or limit 10) 30"

definition get_lps :: "proxy_state \<Rightarrow> string option \<Rightarrow> nat option \<Rightarrow> lp_config list" where
  "get_lps st start_after limit = map snd (page start_after (proxy_limit limit) (entries (ps_lps st)))"

definition route_item_of :: "asset_lib \<Rightarrow> route_config \<Rightarrow> route_item" where
  "route_item_of lib v =
     \<lparr>rti_key = (al_to_string lib (fst (rc_key v)), al_to_string lib (snd (rc_key v))),
      rti_route_type = (case rc_route_type v of
          RoutePath router rt route \<Rightarrow> PathItem router rt (map (al_to_string lib) route)
        | RoutePairProxy pi \<Rightarrow> PairProxyItem (pr_contract_addr pi) (map (al_to_string lib) (pr_asset_infos pi)))\<rparr>"

definition get_routes :: "proxy_deps \<Rightarrow> proxy_state \<Rightarrow> (asset_info \<times> asset_info) option \<Rightarrow> nat option \<Rightarrow> route_item list" where
  "get_routes deps st start_after limit =
     map (\<lambda>e. route_item_of (xd_assets deps) (snd e))
       (page (map_option (\<lambda>(a, b). route_key deps a b) start_after) (proxy_limit limit) (entries (ps_routes st)))"

section \<open>Simulation (\<open>simulation.rs\<close>)\<close>

text \<open>\<open>checked_u8_mul\<close> adds \<open>b\<close> times; every partial sum must fit.\<close>

definition u256_checked_add :: "nat \<Rightarrow> nat \<Rightarrow> nat option" where
  "u256_checked_add a b = (if a + b \<le> U256_MAX then Some (a + b) else None)"

definition u256_checked_mul :: "nat \<Rightarrow> nat \<Rightarrow> nat option" where
  "u256_checked_mul a b = (if a * b \<le> U256_MAX then Some (a * b) else None)"

definition u256_checked_div :: "nat \<Rightarrow> nat \<Rightarrow> nat option" where
  "u256_checked_div a b = (if b = 0 then None else Some (a div b))"

fun checked_u8_mul :: "nat \<Rightarrow> nat \<Rightarrow> nat option" where
  "checked_u8_mul a (Suc (Suc b)) = Option.bind (checked_u8_mul a (Suc b)) (\<lambda>r. u256_checked_add r a)"
| "checked_u8_mul a b = Some a"

definition N_COINS :: nat where "N_COINS = 2"
definition AMP_PRECISION :: u64 where "AMP_PRECISION = 100"
definition ITERATIONS :: nat where "ITERATIONS = 32"

definition calculate_step :: "nat \<Rightarrow> u64 \<Rightarrow> u128 \<Rightarrow> nat \<Rightarrow> nat option" where
  "calculate_step initial_d leverage sum_x d_product =
     Option.bind (u256_checked_mul leverage sum_x) (\<lambda>lm.
     let leverage_mul = lm div AMP_PRECISION in
     Option.bind (checked_u8_mul d_product N_COINS) (\<lambda>d_p_mul.
     Option.bind (u256_checked_add leverage_mul d_p_mul) (\<lambda>l.
     Option.bind (u256_checked_mul l initial_d) (\<lambda>l_val.
     Option.bind (if AMP_PRECISION \<le> leverage then Some (leverage - AMP_PRECISION) else None) (\<lambda>lev.
     Option.bind (u256_checked_mul initial_d lev) (\<lambda>ls.
     let leverage_sub = ls div AMP_PRECISION in
     Option.bind (checked_u8_mul d_product (N_COINS + 1)) (\<lambda>n_coins_sum.
     Option.bind (u256_checked_add leverage_sub n_coins_sum) (\<lambda>r_val.
     u256_checked_div l_val r_val))))))))"

text \<open>Newton's method, at most \<open>n\<close> rounds, stopping when the value does not change.\<close>

fun newton_d :: "nat \<Rightarrow> u64 \<Rightarrow> nat \<Rightarrow> nat \<Rightarrow> u128 \<Rightarrow> nat \<Rightarrow> nat option" where
  "newton_d 0 leverage a2 b2 sum_x d = Some d"
| "newton_d (Suc n) leverage a2 b2 sum_x d =
     Option.bind (u256_checked_mul d d) (\<lambda>p.
     Option.bind (u256_checked_div p a2) (\<lambda>p.
     Option.bind (u256_checked_mul p d) (\<lambda>p.
     Option.bind (u256_checked_div p b2) (\<lambda>p.
     Option.bind (calculate_step d leverage sum_x p) (\<lambda>d'.
     if d' = d then Some d' else newton_d n leverage a2 b2 sum_x d')))))"

definition compute_d :: "u64 \<Rightarrow> u128 \<Rightarrow> u128 \<Rightarrow> u128 option" where
  "compute_d leverage amount_a amount_b =
     Option.bind (checked_u8_mul amount_a N_COINS) (\<lambda>a.
     Option.bind (u256_checked_add a 1) (\<lambda>a2.
     Option.bind (checked_u8_mul amount_b N_COINS) (\<lambda>b.
     Option.bind (u256_checked_add b 1) (\<lambda>b2.
     if amount_a + amount_b > U128_MAX then None
     else if amount_a + amount_b = 0 then Some 0
     else Option.bind (newton_d ITERATIONS leverage a2 b2 (amount_a + amount_b) (amount_a + amount_b)) (\<lambda>d.
       if d \<le> U128_MAX then Some d else None)))))"

definition adjust_precision :: "u128 \<Rightarrow> nat \<Rightarrow> nat \<Rightarrow> (u128, std_error) result" where
  "adjust_precision v current new =
     (if current = new then Ok v
      else if current < new then and_then (bounded U128_MAX (10 ^ (new - current))) (\<lambda>p. checked_mul v p)
      else and_then (bounded U128_MAX (10 ^ (current - new))) (\<lambda>p. checked_div v p))"

record compound_simulation =
  csr_lp_amount :: u128
  csr_swap_a :: u128
  csr_swap_b :: u128
  csr_return_a :: u128
  csr_return_b :: u128

definition simulate_reward :: "proxy_deps \<Rightarrow> proxy_state \<Rightarrow> addr option \<Rightarrow> lp_config \<Rightarrow> asset \<Rightarrow> (asset, std_error) result" where
  "simulate_reward deps st factory lp reward =
     (if as_info reward \<in> set (pr_asset_infos (lc_pair_info lp)) then Ok reward
      else case get (ps_routes st) (route_key deps (as_info reward) (lc_wanted_token lp)) of
        Some rc \<Rightarrow> route_simulate (xd_dex deps) rc reward
      | None \<Rightarrow> (case factory of
          Some f \<Rightarrow> factory_simulate (xd_dex deps) f reward (lc_wanted_token lp)
        | None \<Rightarrow> Err (GenericErr ''no route found'')))"

definition add_simulated ::
    "proxy_deps \<Rightarrow> proxy_state \<Rightarrow> addr option \<Rightarrow> lp_config \<Rightarrow> asset_info \<Rightarrow> asset_info \<Rightarrow> u128 \<times> u128 \<Rightarrow> asset \<Rightarrow> (u128 \<times> u128, std_error) result" where
  "add_simulated deps st factory lp info_a info_b = (\<lambda>(amount_a, amount_b) reward.
     and_then (simulate_reward deps st factory lp reward) (\<lambda>a.
     if as_info a = info_a then and_then (u128_add amount_a (as_amount a)) (\<lambda>x. Ok (x, amount_b))
     else if as_info a = info_b then and_then (u128_add amount_b (as_amount a)) (\<lambda>x. Ok (amount_a, x))
     else Err (GenericErr ''Invalid reward'')))"

definition minimum_liquidity :: "proxy_deps \<Rightarrow> u128 \<Rightarrow> (u128, std_error) result" where
  "minimum_liquidity deps a =
     (case checked_sub a (xd_minimum_liquidity deps) of
        Ok x \<Rightarrow> Ok x | Err e \<Rightarrow> Err (GenericErr ''minimum liquidity not reached'') | Panic \<Rightarrow> Panic)"

text \<open>The swap takes from one side and adds to the other, in what is provided and in the pools.\<close>

definition after_swap :: "optimal_swap \<Rightarrow> u128 \<Rightarrow> u128 \<Rightarrow> u128 \<Rightarrow> u128 \<Rightarrow> (u128 \<times> u128 \<times> u128 \<times> u128, std_error) result" where
  "after_swap os amount_a amount_b pool_a pool_b =
     and_then (if os_swap_a os = 0 then Ok (amount_a, amount_b, pool_a, pool_b)
       else and_then (u128_sub amount_a (os_swap_a os)) (\<lambda>aa. and_then (u128_add amount_b (os_return_b os)) (\<lambda>ab.
         and_then (u128_add pool_a (os_swap_a os)) (\<lambda>pa. and_then (u128_sub pool_b (os_return_b os)) (\<lambda>pb. Ok (aa, ab, pa, pb))))))
     (\<lambda>(amount_a, amount_b, pool_a, pool_b).
     if os_swap_b os = 0 then Ok (amount_a, amount_b, pool_a, pool_b)
     else and_then (u128_sub amount_b (os_swap_b os)) (\<lambda>ab. and_then (u128_add amount_a (os_return_a os)) (\<lambda>aa.
       and_then (u128_add pool_b (os_swap_b os)) (\<lambda>pb. and_then (u128_sub pool_a (os_return_a os)) (\<lambda>pa. Ok (aa, ab, pa, pb))))))"

definition simulate_xyk ::
    "proxy_deps \<Rightarrow> proxy_state \<Rightarrow> lp_config \<Rightarrow> asset \<Rightarrow> asset \<Rightarrow> asset list \<Rightarrow> u128 \<Rightarrow> (compound_simulation, std_error) result" where
  "simulate_xyk deps st lp asset_a asset_b pools total_share =
     and_then (calculate_optimal_swap (xd_dex deps) lp asset_a asset_b (get_default_max_spread st)) (\<lambda>(os, msgs).
     and_then (at_index pools 0) (\<lambda>pool_0.
     and_then (at_index pools 1) (\<lambda>pool_1.
     and_then (after_swap os (as_amount asset_a) (as_amount asset_b) (as_amount pool_0) (as_amount pool_1)) (\<lambda>(aa, ab, pa, pb).
     and_then (if total_share = 0 then minimum_liquidity deps (isqrt (aa * ab))
       else and_then (multiply_ratio aa total_share pa) (\<lambda>x. and_then (multiply_ratio ab total_share pb) (\<lambda>y. Ok (min x y)))) (\<lambda>lp_amount.
     Ok \<lparr>csr_lp_amount = lp_amount, csr_swap_a = os_swap_a os, csr_swap_b = os_swap_b os,
       csr_return_a = os_return_a os, csr_return_b = os_return_b os\<rparr>)))))"

definition stable_leverage :: "proxy_deps \<Rightarrow> addr \<Rightarrow> (u64, std_error) result" where
  "stable_leverage deps pair =
     and_then (dx_stable_amp (xd_dex deps) pair) (\<lambda>params.
     and_then (ok_or (GenericErr ''params not found'') params) (\<lambda>p.
     and_then (from_binary p) (\<lambda>amp.
     and_then (u128_mul amp AMP_PRECISION) (\<lambda>amp.
     and_then (u128_mul amp N_COINS) (\<lambda>l.
     if l \<le> U64_MAX then Ok l else Err (GenericErr ''Overflow in leverage''))))))"

definition simulate_stable ::
    "proxy_deps \<Rightarrow> lp_config \<Rightarrow> asset \<Rightarrow> asset \<Rightarrow> asset list \<Rightarrow> u128 \<Rightarrow> (compound_simulation, std_error) result" where
  "simulate_stable deps lp asset_a asset_b pools total_share =
     and_then (dx_precision (xd_dex deps) (as_info asset_a)) (\<lambda>p0.
     and_then (dx_precision (xd_dex deps) (as_info asset_b)) (\<lambda>p1.
     let greater = max p0 p1 in
     and_then (adjust_precision (as_amount asset_a) p0 greater) (\<lambda>deposit_0.
     and_then (adjust_precision (as_amount asset_b) p1 greater) (\<lambda>deposit_1.
     and_then (if total_share = 0 then
         and_then (dx_precision (xd_dex deps) (TokenAsset (pr_liquidity_token (lc_pair_info lp)))) (\<lambda>lp_precision.
         and_then (adjust_precision (isqrt (deposit_0 * deposit_1)) greater lp_precision) (\<lambda>x.
         minimum_liquidity deps x))
       else
         and_then (stable_leverage deps (pr_contract_addr (lc_pair_info lp))) (\<lambda>leverage.
         and_then (at_index pools 0) (\<lambda>pool_0.
         and_then (adjust_precision (as_amount pool_0) p0 greater) (\<lambda>a0.
         and_then (at_index pools 1) (\<lambda>pool_1.
         and_then (adjust_precision (as_amount pool_1) p1 greater) (\<lambda>a1.
         and_then (unwrap (compute_d leverage a0 a1)) (\<lambda>d_before.
         and_then (checked_add a0 deposit_0) (\<lambda>a0.
         and_then (checked_add a1 deposit_1) (\<lambda>a1.
         and_then (unwrap (compute_d leverage a0 a1)) (\<lambda>d_after.
         if d_before \<ge> d_after then Ok 0
         else multiply_ratio total_share (d_after - d_before) d_before)))))))))) (\<lambda>lp_amount.
     Ok \<lparr>csr_lp_amount = lp_amount, csr_swap_a = 0, csr_swap_b = 0, csr_return_a = 0, csr_return_b = 0\<rparr>)))))"

definition query_compound_simulation ::
    "proxy_deps \<Rightarrow> proxy_state \<Rightarrow> asset list \<Rightarrow> string \<Rightarrow> (compound_simulation, std_error) result" where
  "query_compound_simulation deps st rewards lp_token =
     and_then (assert_uniq_assets (xd_assets deps) rewards) (\<lambda>_.
     and_then (load_item (get (ps_lps st) lp_token)) (\<lambda>lp.
     and_then (load_item (ps_config st)) (\<lambda>config.
     and_then (at_index (pr_asset_infos (lc_pair_info lp)) 0) (\<lambda>info_a.
     and_then (at_index (pr_asset_infos (lc_pair_info lp)) 1) (\<lambda>info_b.
     and_then (try_fold (add_simulated deps st (px_factory config) lp info_a info_b) (0, 0) rewards) (\<lambda>(amount_a, amount_b).
     and_then (dx_query_pools (xd_dex deps) (lc_pair_info lp) (pr_contract_addr (lc_pair_info lp))) (\<lambda>pools.
     and_then (dx_supply (xd_dex deps) (pr_liquidity_token (lc_pair_info lp))) (\<lambda>total_share.
     case pr_pair_type (lc_pair_info lp) of
       Xyk \<Rightarrow> simulate_xyk deps st lp (with_balance info_a amount_a) (with_balance info_b amount_b) pools total_share
     | Stable \<Rightarrow> simulate_stable deps lp (with_balance info_a amount_a) (with_balance info_b amount_b) pools total_share
     | CustomPair t \<Rightarrow> Err (GenericErr ''Custom pair type not supported'')))))))))"

datatype proxy_query_msg =
    ProxyConfigQuery
  | GetLpQuery string
  | GetLpStateQuery string
  | GetLpsQuery "string option" "nat option"
  | GetRoutesQuery "(asset_info \<times> asset_info) option" "nat option"
  | CompoundSimulationQuery "asset list" string

datatype proxy_answer =
    ProxyConfigAnswer "addr option" addr
  | LpAnswer lp_config
  | LpStateAnswer lp_state_response
  | LpsAnswer "lp_config list"
  | RoutesAnswer "route_item list"
  | SimulationAnswer compound_simulation

fun proxy_query :: "proxy_deps \<Rightarrow> proxy_query_msg \<Rightarrow> proxy_state \<Rightarrow> (proxy_answer, std_error) result" where
  "proxy_query deps ProxyConfigQuery st = and_then (proxy_query_config st) (\<lambda>(f, ow). Ok (ProxyConfigAnswer f ow))"
| "proxy_query deps (GetLpQuery lp_addr) st = and_then (get_lp st lp_addr) (\<lambda>r. Ok (LpAnswer r))"
| "proxy_query deps (GetLpStateQuery lp_addr) st = and_then (get_lp_state deps st lp_addr) (\<lambda>r. Ok (LpStateAnswer r))"
| "proxy_query deps (GetLpsQuery start_after limit) st = Ok (LpsAnswer (get_lps st start_after limit))"
| "proxy_query deps (GetRoutesQuery start_after limit) st = Ok (RoutesAnswer (get_routes deps st start_after limit))"
| "proxy_query deps (CompoundSimulationQuery rewards lp_token) st =
     and_then (query_compound_simulation deps st rewards lp_token) (\<lambda>r. Ok (SimulationAnswer r))"

end
