(* ===== verification/ProxyReach.thy ===== *)
theory ProxyReach
  imports ProxyContract
begin

text \<open>
  The arithmetic of the optimal swap: the amount offered is never more than what is there and never goes past the point where both sides are
  in the proportion of the pool, and the simulated return leaves the product of the pools as large as it was, up to the rounding of
  an 18-digit decimal.
\<close>

section \<open>The amount to swap\<close>

lemma get_swap_amount_outcome:
  assumes "get_swap_amount a b pa pb c = Ok s"
  obtains A B z where "A = (a + pa) * pb" and "B = (b + pb) * pa" and "0 < b + pb" and "c \<le> COMMISSION_DENOM"
    and "z = (c * A + isqrt A * isqrt (c * c * A + 4 * (COMMISSION_DENOM - c) * COMMISSION_DENOM * B)) div (2 * COMMISSION_DENOM)"
    and "s = z div (b + pb) - pa" and "s \<le> U128_MAX"
proof -
  note [simp del] = isqrt.simps
  from assms show ?thesis
    by (intro that [OF refl refl _ _ refl]) (auto simp: get_swap_amount_def ok_simps COMMISSION_DENOM_def)
qed

text \<open>What is offered first is in excess: \<open>b * pa \<le> a * pb\<close>.\<close>

lemma swap_amount_le:
  assumes "get_swap_amount a b pa pb c = Ok s" and "b * pa \<le> a * pb"
  shows "s \<le> a"
proof (rule get_swap_amount_outcome [OF assms(1)])
  fix A B z
  let ?D = COMMISSION_DENOM
  define R where "R = c * c * A + 4 * (?D - c) * ?D * B"
  assume A: "A = (a + pa) * pb" and B: "B = (b + pb) * pa" and pos: "0 < b + pb" and c: "c \<le> ?D" and s: "s = z div (b + pb) - pa"
    and z: "z = (c * A + isqrt A * isqrt (c * c * A + 4 * (?D - c) * ?D * B)) div (2 * ?D)"
  have AB: "B \<le> A" using assms(2) by (simp add: A B algebra_simps)
  obtain e where e: "?D = c + e" using c le_Suc_ex by blast
  have "R \<le> c * c * A + 4 * (?D - c) * ?D * A" unfolding R_def using AB by (intro add_left_mono mult_le_mono2)
  also have "\<dots> = (c + 2 * e) * (c + 2 * e) * A" unfolding e by (simp add: algebra_simps)
  finally have "A * R \<le> ((c + 2 * e) * A) * ((c + 2 * e) * A)"
    using mult_le_mono2 [of R _ A] by (simp add: ac_simps)
  then have "isqrt A * isqrt R \<le> (c + 2 * e) * A" by (rule isqrt_mult_le)
  then have "c * A + isqrt A * isqrt R \<le> (2 * ?D) * A" unfolding e by (simp add: algebra_simps)
  then have "z \<le> (2 * ?D) * A div (2 * ?D)" unfolding z R_def [symmetric] by (rule div_le_mono)
  then have "z \<le> (a + pa) * pb" by (simp add: A COMMISSION_DENOM_def)
  also have "\<dots> \<le> (a + pa) * (b + pb)" by (intro mult_le_mono2) simp
  finally have "z div (b + pb) \<le> (a + pa) * (b + pb) div (b + pb)" by (rule div_le_mono)
  with pos show ?thesis by (simp add: s)
qed

text \<open>
  At the balance point, what remains of the offered side and what there is then of the other side are in the proportion of the pools after the
  swap, the commission left in the pool; with the pool of the offered side \<open>y\<close> after the swap, that is a quadratic equation
  in \<open>y\<close>. Below its solution the offered side is still the one in excess.
\<close>

definition within_balance :: "u64 \<Rightarrow> nat \<Rightarrow> nat \<Rightarrow> nat \<Rightarrow> nat \<Rightarrow> nat \<Rightarrow> bool" where
  "within_balance c a b pa pb s \<longleftrightarrow>
     (let y = pa + s in
      COMMISSION_DENOM * (b + pb) * (y * y) \<le> c * ((a + pa) * pb) * y + (COMMISSION_DENOM - c) * ((a + pa) * pb) * pa)"

lemma swap_amount_within_balance:
  assumes "get_swap_amount a b pa pb c = Ok s" and "0 < s"
  shows "within_balance c a b pa pb s"
proof (rule get_swap_amount_outcome [OF assms(1)])
  fix A B z
  let ?D = COMMISSION_DENOM
  define R where "R = c * c * A + 4 * (?D - c) * ?D * B"
  define y where "y = pa + s"
  define w where "w = y * (b + pb)"
  define P where "P = b + pb"
  assume A: "A = (a + pa) * pb" and B: "B = (b + pb) * pa" and pos: "0 < b + pb" and s: "s = z div (b + pb) - pa"
    and z: "z = (c * A + isqrt A * isqrt (c * c * A + 4 * (?D - c) * ?D * B)) div (2 * ?D)"
  have "y = z div (b + pb)" using assms(2) s by (simp add: y_def)
  then have "w \<le> z" unfolding w_def by (simp add: div_times_less_eq_dividend)
  then have "w * (2 * ?D) \<le> z * (2 * ?D)" by (rule mult_le_mono1)
  also have "\<dots> \<le> c * A + isqrt A * isqrt R" unfolding z R_def by (rule div_times_less_eq_dividend)
  finally have le: "w * (2 * ?D) \<le> c * A + isqrt A * isqrt R" .
  have "?D * (w * w) \<le> c * A * w + (?D - c) * A * B"
  proof (cases "w * (2 * ?D) \<le> c * A")
    case True
    then have "w * (w * (2 * ?D)) \<le> w * (c * A)" by (rule mult_le_mono2)
    then have "2 * (?D * (w * w)) \<le> c * A * w" by (simp only: ac_simps)
    then have "?D * (w * w) \<le> c * A * w" by linarith
    then show ?thesis by (rule trans_le_add1)
  next
    case False
    then obtain d where d: "w * (2 * ?D) = c * A + d" using le_Suc_ex [of "c * A" "w * (2 * ?D)"] by auto
    with le have "d * d \<le> (isqrt A * isqrt R) * (isqrt A * isqrt R)" by (intro mult_le_mono) simp_all
    also have "\<dots> = (isqrt A * isqrt A) * (isqrt R * isqrt R)" by (simp only: ac_simps)
    also have "\<dots> \<le> A * R" by (intro mult_le_mono isqrt_le)
    finally have dd: "d * d \<le> A * R" .
    have "(w * (2 * ?D)) * (w * (2 * ?D)) = (c * A) * (w * (2 * ?D)) + d * (c * A) + d * d"
      unfolding d by (simp add: algebra_simps)
    also have "\<dots> = 2 * ((c * A) * (w * (2 * ?D))) + d * d - (c * A) * (c * A)"
      unfolding d by (simp add: algebra_simps)
    also have "\<dots> \<le> 2 * ((c * A) * (w * (2 * ?D))) + A * R - (c * A) * (c * A)" using dd by (intro diff_le_mono) simp
    also have "\<dots> = 4 * ?D * (c * A * w) + 4 * ?D * ((?D - c) * A * B)"
      unfolding R_def by (simp add: algebra_simps)
    finally have "4 * ?D * (?D * (w * w)) \<le> 4 * ?D * (c * A * w + (?D - c) * A * B)" by (simp add: algebra_simps)
    then show ?thesis by (simp add: COMMISSION_DENOM_def)
  qed
  moreover have "?D * (w * w) = P * (?D * P * (y * y))" by (simp only: w_def P_def ac_simps)
  moreover have "c * A * w + (?D - c) * A * B = P * (c * A * y + (?D - c) * A * pa)"
    by (simp only: w_def B P_def [symmetric] distrib_left ac_simps)
  ultimately have "P * (?D * P * (y * y)) \<le> P * (c * A * y + (?D - c) * A * pa)" by simp
  then have "?D * P * (y * y) \<le> c * A * y + (?D - c) * A * pa" using pos by (simp only: P_def mult_le_cancel1)
  then show ?thesis by (simp only: within_balance_def Let_def A y_def P_def)
qed

section \<open>The simulated return\<close>

lemma simulate_swap_product:
  assumes "simulate_swap offer ask amount rate = Ok r"
  shows "r \<le> ask" and "offer * ask \<le> (offer + amount) * (ask - r) + (offer + amount) div DEC_ONE"
proof -
  define o' where "o' = offer + amount"
  define q where "q = offer * ask * DEC_ONE div o'"
  define r0 where "r0 = (ask * DEC_ONE - q) div DEC_ONE"
  have pos: "0 < o'" and q: "q \<le> ask * DEC_ONE" and r: "r \<le> r0"
    using assms by (auto simp: simulate_swap_def ok_simps o'_def q_def r0_def)
  have le: "r0 * DEC_ONE + q \<le> ask * DEC_ONE"
    using div_times_less_eq_dividend [of "ask * DEC_ONE - q" DEC_ONE] q unfolding r0_def by linarith
  then have "r0 * DEC_ONE \<le> ask * DEC_ONE" by linarith
  then have r0: "r0 \<le> ask" by simp
  then show "r \<le> ask" using r by simp
  have "q \<le> (ask - r0) * DEC_ONE" using le by (simp add: diff_mult_distrib)
  then have "q + 1 \<le> (ask - r0) * DEC_ONE + 1" by simp
  then have "o' * (q + 1) \<le> o' * ((ask - r0) * DEC_ONE + 1)" by (rule mult_le_mono2)
  moreover have "offer * ask * DEC_ONE < o' * (q + 1)"
    using dividend_less_div_times [OF pos, of "offer * ask * DEC_ONE"] by (simp add: q_def algebra_simps)
  ultimately have "offer * ask * DEC_ONE < o' * (ask - r0) * DEC_ONE + o'" by (simp add: algebra_simps)
  then have "offer * ask * DEC_ONE < (o' * (ask - r0) + o' div DEC_ONE) * DEC_ONE + DEC_ONE"
    using dividend_less_div_times [OF DEC_ONE_pos, of o'] by (simp add: algebra_simps)
  then have "offer * ask * DEC_ONE < (o' * (ask - r0) + o' div DEC_ONE + 1) * DEC_ONE" by (simp add: algebra_simps)
  then have "offer * ask \<le> o' * (ask - r0) + o' div DEC_ONE" by (simp only: mult_less_cancel2) simp
  also have "\<dots> \<le> o' * (ask - r) + o' div DEC_ONE" using r by (simp add: diff_le_mono2)
  finally show "offer * ask \<le> (offer + amount) * (ask - r) + (offer + amount) div DEC_ONE" by (simp only: o'_def)
qed

text \<open>
  The reachable states of the compound proxy and their invariant: what is stored is well formed. The library of assets is the same in every
  step, since the keys of the routes are written with it; the answers of other contracts may differ.
\<close>

section \<open>The invariant\<close>

definition lp_sound :: "string \<Rightarrow> lp_config \<Rightarrow> bool" where
  "lp_sound k lp \<longleftrightarrow> k = pr_liquidity_token (lc_pair_info lp) \<and> lc_commission_bps lp < 10000 \<and>
     lc_slippage_tolerance lp \<le> dec_percent 50 \<and> lc_wanted_token lp \<in> set (pr_asset_infos (lc_pair_info lp)) \<and>
     (pr_pair_type (lc_pair_info lp) = Xyk \<or> pr_pair_type (lc_pair_info lp) = Stable)"

text \<open>A path starts and ends with the assets it is stored under; a pair stands for a swap between its two assets.\<close>

fun route_connects :: "route_type \<Rightarrow> asset_info \<Rightarrow> asset_info \<Rightarrow> bool" where
  "route_connects (RoutePath router rt route) a b \<longleftrightarrow> route \<noteq> [] \<and> hd route = a \<and> last route = b"
| "route_connects (RoutePairProxy pi) a b \<longleftrightarrow> pr_asset_infos pi = [a, b] \<or> pr_asset_infos pi = [b, a]"

definition key_of :: "asset_lib \<Rightarrow> asset_info \<Rightarrow> asset_info \<Rightarrow> route_key" where
  "key_of lib a b = (length (al_as_bytes lib a), al_as_bytes lib a, al_as_bytes lib b)"

definition route_sound :: "asset_lib \<Rightarrow> route_key \<Rightarrow> route_config \<Rightarrow> bool" where
  "route_sound lib k rc \<longleftrightarrow> k = key_of lib (fst (rc_key rc)) (snd (rc_key rc)) \<and>
     route_connects (rc_route_type rc) (fst (rc_key rc)) (snd (rc_key rc))"

definition proxy_inv :: "asset_lib \<Rightarrow> proxy_state \<Rightarrow> bool" where
  "proxy_inv lib st \<longleftrightarrow> wf_store (ps_lps st) \<and> wf_store (ps_routes st) \<and>
     (\<forall>k lp. get (ps_lps st) k = Some lp \<longrightarrow> lp_sound k lp) \<and>
     (\<forall>k rc. get (ps_routes st) k = Some rc \<longrightarrow> route_sound lib k rc) \<and>
     (\<forall>s. ps_default_max_spread st = Some s \<longrightarrow> s \<le> 50)"

inductive proxy_reachable :: "asset_lib \<Rightarrow> proxy_state \<Rightarrow> bool" for lib :: asset_lib where
  start: "proxy_reachable lib st" if "proxy_instantiate deps msg empty_proxy = Ok (st, r)" and "xd_assets deps = lib"
| step: "proxy_reachable lib st'" if "proxy_reachable lib st" and "proxy_execute deps env info msg st = Ok (st', r)"
    and "xd_assets deps = lib"

section \<open>Every operation keeps it\<close>

lemma route_key_of: "xd_assets deps = lib \<Longrightarrow> route_key deps a b = key_of lib a b"
  by (simp add: route_key_def key_of_def)

lemma proxy_inv_frame:
  "proxy_inv lib (st\<lparr>ps_config := c\<rparr>) = proxy_inv lib st" "proxy_inv lib (st\<lparr>ps_ownership_proposal := p\<rparr>) = proxy_inv lib st"
  by (simp_all add: proxy_inv_def)

lemma remove_lp_inv: "remove_lp deps st k = Ok st' \<Longrightarrow> proxy_inv lib st \<Longrightarrow> proxy_inv lib st'"
  by (auto simp: remove_lp_def proxy_inv_def ok_simps store_simps split: if_splits)

lemma add_lp_inv:
  assumes "add_lp deps st lp = Ok st'" and "proxy_inv lib st"
  shows "proxy_inv lib st'"
proof -
  obtain pi where pi: "li_wanted_token lp \<in> set (pr_asset_infos pi)" "li_slippage_tolerance lp \<le> dec_percent 50"
      "\<And>t. pr_pair_type pi \<noteq> CustomPair t" "li_commission_bps lp < 10000"
    and st': "st' = st\<lparr>ps_lps := put (pr_liquidity_token pi) \<lparr>lc_pair_info = pi, lc_commission_bps = li_commission_bps lp,
         lc_slippage_tolerance = li_slippage_tolerance lp, lc_wanted_token = li_wanted_token lp\<rparr> (ps_lps st)\<rparr>"
    using assms(1)
    by (auto simp: add_lp_def ok_simps validate_slippage_def validate_commission_def proxy_validate_percentage_def
        split: if_splits pair_type.splits)
  have "pr_pair_type pi = Xyk \<or> pr_pair_type pi = Stable" using pi(3) by (cases "pr_pair_type pi") auto
  then show ?thesis using assms(2) pi unfolding st' proxy_inv_def lp_sound_def by (auto simp: store_simps)
qed

lemma add_lps_inv: "add_lps deps used st lps = Ok st' \<Longrightarrow> proxy_inv lib st \<Longrightarrow> proxy_inv lib st'"
  by (induction deps used st lps rule: add_lps.induct) (auto simp: ok_simps add_lp_inv split: if_splits)

lemma delete_route_inv: "delete_route deps st a b both = Ok st' \<Longrightarrow> proxy_inv lib st \<Longrightarrow> proxy_inv lib st'"
  by (auto simp: delete_route_def proxy_inv_def Let_def store_simps split: if_splits)

lemma checked_save_route_inv:
  assumes "checked_save_route deps a b rt st = Ok st'" and "proxy_inv lib st" and "xd_assets deps = lib" and "route_connects rt a b"
  shows "proxy_inv lib st'"
  using assms by (auto simp: checked_save_route_def proxy_inv_def route_sound_def route_key_of store_simps split: if_splits)

lemma two_infos: "length xs = 2 \<Longrightarrow> xs = [xs ! 0, xs ! Suc 0]"
  by (cases xs; cases "tl xs") auto

lemma add_route_inv:
  assumes "add_route deps st r = Ok st'" and "proxy_inv lib st" and lib: "xd_assets deps = lib"
  shows "proxy_inv lib st'"
proof (cases r)
  case (InitPath router rt route)
  then obtain a st1 where ne: "route \<noteq> []"
    and s1: "checked_save_route deps (route ! 0) (route ! (length route - 1)) (RoutePath a rt route) st = Ok st1"
    and s2: "checked_save_route deps (route ! (length route - 1)) (route ! 0) (RoutePath a rt (rev route)) st1 = Ok st'"
    using assms(1) by (auto simp: ok_simps)
  from ne have ends: "route ! 0 = hd route" "route ! (length route - 1) = last route" by (simp_all add: hd_conv_nth last_conv_nth)
  have "proxy_inv lib st1" using checked_save_route_inv [OF s1 assms(2) lib] ne ends by simp
  then show ?thesis using checked_save_route_inv [OF s2 _ lib] ne ends by (simp add: hd_rev last_rev)
next
  case (InitPairProxy dir pair)
  then obtain pi where two: "length (pr_asset_infos pi) = 2"
    and save: "(case dir of
         Some a \<Rightarrow>
           if a = pr_asset_infos pi ! 0 then checked_save_route deps (pr_asset_infos pi ! 0) (pr_asset_infos pi ! Suc 0) (RoutePairProxy pi) st
           else if a = pr_asset_infos pi ! Suc 0 then checked_save_route deps (pr_asset_infos pi ! Suc 0) (pr_asset_infos pi ! 0) (RoutePairProxy pi) st
           else Err (GenericErr (''Provided start asset '' @ al_to_string (xd_assets deps) a @ '' not in pair.''))
       | None \<Rightarrow>
           and_then (checked_save_route deps (pr_asset_infos pi ! 0) (pr_asset_infos pi ! Suc 0) (RoutePairProxy pi) st) (\<lambda>st.
           checked_save_route deps (pr_asset_infos pi ! Suc 0) (pr_asset_infos pi ! 0) (RoutePairProxy pi) st)) = Ok st'"
    using assms(1) by (auto simp: ok_simps Let_def split: if_splits)
  have conn: "route_connects (RoutePairProxy pi) (pr_asset_infos pi ! 0) (pr_asset_infos pi ! Suc 0)"
      "route_connects (RoutePairProxy pi) (pr_asset_infos pi ! Suc 0) (pr_asset_infos pi ! 0)"
    using two_infos [OF two] by simp_all
  note keep = checked_save_route_inv [OF _ _ lib conn(1)] checked_save_route_inv [OF _ _ lib conn(2)]
  show ?thesis using save assms(2) keep by (cases dir) (auto simp: and_then_Ok split: if_splits)
qed

lemma update_config_inv_proxy:
  assumes "proxy_update_config deps info u st = Ok (st', r)" and "proxy_inv lib st" and lib: "xd_assets deps = lib"
  shows "proxy_inv lib st'"
proof -
  obtain c s1 s2 s3 s4 where s1: "try_fold (remove_lp deps) (st\<lparr>ps_config := Some c\<rparr>) (unwrap_or (pu_delete_lps u) []) = Ok s1"
    and s2: "add_lps deps [] s1 (unwrap_or (pu_upsert_lps u) []) = Ok s2"
    and s3: "try_fold (\<lambda>st r. delete_route deps st (rd_from r) (rd_to r) (unwrap_or (rd_both r) True)) s2 (unwrap_or (pu_delete_routes u) []) = Ok s3"
    and s4: "try_fold (add_route deps) s3 (unwrap_or (pu_insert_routes u) []) = Ok s4"
    and last: "(case pu_default_max_spread u of
         Some s \<Rightarrow> and_then (validate_slippage (dec_percent s)) (\<lambda>_. Ok (s4\<lparr>ps_default_max_spread := Some s\<rparr>))
       | None \<Rightarrow> Ok s4) = Ok st'"
    using assms(1) by (auto simp: proxy_update_config_def ok_simps)
  have "proxy_inv lib (st\<lparr>ps_config := Some c\<rparr>)" using assms(2) by (simp add: proxy_inv_frame)
  from s1 this have "proxy_inv lib s1" by (rule try_fold_invariant) (rule remove_lp_inv)
  with s2 have "proxy_inv lib s2" by (rule add_lps_inv)
  with s3 have "proxy_inv lib s3" by (rule try_fold_invariant) (rule delete_route_inv)
  with s4 have "proxy_inv lib s4" by (rule try_fold_invariant) (rule add_route_inv [OF _ _ lib])
  then show ?thesis using last
    by (auto simp: proxy_inv_def ok_simps validate_slippage_def dec_percent_def split: option.splits if_splits)
qed

lemma proxy_handlers_keep_state:
  "proxy_compound deps env info as recv ns sl lp st = Ok (st', r) \<Longrightarrow> st' = st"
  "multi_swap deps env info w as recv' st = Ok (st', r) \<Longrightarrow> st' = st"
  "proxy_handle_callback deps env info msg st = Ok (st', r) \<Longrightarrow> st' = st"
  by (auto simp: proxy_compound_def multi_swap_def proxy_handle_callback_def optimal_swap_def provide_liquidity_def send_swap_result_def
      ok_simps Let_def split: if_splits proxy_callback_msg.splits)

lemma proxy_execute_inv:
  assumes "proxy_execute deps env info msg st = Ok (st', r)" and "proxy_inv lib st" and lib: "xd_assets deps = lib"
  shows "proxy_inv lib st'"
proof (cases msg)
  case (ProxyUpdateConfig u)
  then show ?thesis using assms update_config_inv_proxy by simp
qed (use assms in \<open>auto simp: ok_simps proxy_inv_frame dest: proxy_handlers_keep_state\<close>)

lemma proxy_instantiate_inv:
  assumes "proxy_instantiate deps msg empty_proxy = Ok (st', r)" and lib: "xd_assets deps = lib"
  shows "proxy_inv lib st'"
proof -
  obtain c s1 where s1: "add_lps deps [] (empty_proxy\<lparr>ps_config := Some c\<rparr>) (pxi_lps msg) = Ok s1"
    and s2: "try_fold (add_route deps) s1 (pxi_routes msg) = Ok st'"
    using assms(1) by (auto simp: proxy_instantiate_def ok_simps)
  have "proxy_inv lib (empty_proxy\<lparr>ps_config := Some c\<rparr>)" by (simp add: proxy_inv_def empty_proxy_def store_simps)
  with s1 have "proxy_inv lib s1" by (rule add_lps_inv)
  with s2 show ?thesis by (rule try_fold_invariant) (rule add_route_inv [OF _ _ lib])
qed

lemma proxy_reachable_inv: "proxy_reachable lib st \<Longrightarrow> proxy_inv lib st"
  by (induction rule: proxy_reachable.induct) (auto intro: proxy_instantiate_inv proxy_execute_inv)

end
