(* ===== verification/FarmRewards.thy ===== *)
theory FarmRewards
  imports FarmProps ProxyReach
begin

text \<open>
  What compounding does with the rewards, and what the compound proxy makes of the message: the farm's message and the proxy's handler run
  together.
\<close>

section \<open>The loop over the rewards in closed form\<close>

definition commission :: "farm_config \<Rightarrow> asset \<Rightarrow> u128" where
  "commission c a = as_amount a * fa_fee c div DEC_ONE"

definition forwarded :: "farm_config \<Rightarrow> asset \<Rightarrow> bool" where
  "forwarded c a \<longleftrightarrow> commission c a < as_amount a"

definition reward_left :: "farm_config \<Rightarrow> asset \<Rightarrow> asset" where
  "reward_left c a = with_balance (as_info a) (as_amount a - commission c a)"

definition reward_coins :: "asset \<Rightarrow> coin list" where
  "reward_coins a = (case as_info a of NativeToken d \<Rightarrow> [mk_coin (as_amount a) d] | TokenAsset t \<Rightarrow> [])"

definition reward_msgs :: "farm_deps \<Rightarrow> env \<Rightarrow> farm_config \<Rightarrow> asset \<Rightarrow> farm_msg list" where
  "reward_msgs deps env c a =
     (if forwarded c a \<and> \<not> is_native_token a
      then [increase_allowance_msg (fd_assets deps) ToToken (reward_left c a) (fa_compound_proxy c) (Some (AtHeight (env_height env + 1)))]
      else []) @
     (if commission c a = 0 then [] else [transfer_msg ToToken (as_info a) (commission c a) (fa_fee_collector c)])"

lemma compound_one_closed:
  assumes "compound_one deps env c T run a = Ok run'" and "T \<noteq> 0"
  shows "commission c a \<le> as_amount a" and "cr_msgs run' = cr_msgs run @ reward_msgs deps env c a"
    and "cr_rewards run' = cr_rewards run @ map (reward_left c) (filter (forwarded c) [a])"
    and "cr_funds run' = cr_funds run @ concat (map reward_coins (filter (forwarded c) [a]))"
proof -
  have zero: "commission c a = 0" if "as_amount a = 0" using that by (simp add: commission_def)
  show "commission c a \<le> as_amount a" and "cr_msgs run' = cr_msgs run @ reward_msgs deps env c a"
    and "cr_rewards run' = cr_rewards run @ map (reward_left c) (filter (forwarded c) [a])"
    and "cr_funds run' = cr_funds run @ concat (map reward_coins (filter (forwarded c) [a]))"
    using assms zero
    by (cases "commission c a = 0"; cases "as_info a";
        auto simp: compound_one_def commission_def [symmetric] ok_simps Let_def forwarded_def reward_left_def reward_coins_def reward_msgs_def
          split: if_splits)+
qed

lemma compound_run_closed:
  assumes "try_fold (compound_one deps env c T) run rs = Ok run'" and "T \<noteq> 0"
  shows "(\<forall>a\<in>set rs. commission c a \<le> as_amount a) \<and> cr_msgs run' = cr_msgs run @ concat (map (reward_msgs deps env c) rs)
    \<and> cr_rewards run' = cr_rewards run @ map (reward_left c) (filter (forwarded c) rs)
    \<and> cr_funds run' = cr_funds run @ concat (map reward_coins (filter (forwarded c) rs))"
  using assms
proof (induction rs arbitrary: run)
  case Nil
  then show ?case by simp
next
  case (Cons a rs)
  then obtain run1 where one: "compound_one deps env c T run a = Ok run1"
    and rest: "try_fold (compound_one deps env c T) run1 rs = Ok run'" by (auto simp: ok_simps)
  from Cons.IH [OF rest Cons.prems(2)] compound_one_closed [OF one Cons.prems(2)] show ?case by simp
qed

lemma compound_closed:
  assumes "farm_execute deps env info (FarmCompound mr sl) st = Ok (st', r)" and "fm_config st = Some c"
    and "fd_deposit deps (fa_staking_contract c) (fa_lp_token c) (env_contract env) = Ok T" and "T \<noteq> 0"
    and "fd_pending_token deps (fa_staking_contract c) (fa_lp_token c) (env_contract env) = Ok (pending, others)"
    and "rs = token_asset (fa_base_reward_token c) pending # unwrap_or others []"
  obtains b where "\<forall>a\<in>set rs. commission c a \<le> as_amount a"
    and "resp_msgs r = map PlainMsg ([claim_rewards_msg (fa_staking_contract c) [fa_lp_token c]] @ concat (map (reward_msgs deps env c) rs) @
      (if filter (forwarded c) rs = [] then []
       else [compound_msg (fa_compound_proxy c) (map (reward_left c) (filter (forwarded c) rs))
               (concat (map reward_coins (filter (forwarded c) rs))) None sl (fa_lp_token c),
             farm_callback_into_msg (FarmStake b mr) (env_contract env)]))"
proof -
  from assms(1) have "farm_compound deps env info mr sl st = Ok (st', r)" by simp
  from farm_compound_outcome [OF this assms(2)] obtain run ms where
    run: "try_fold (compound_one deps env c T)
      \<lparr>cr_msgs = [claim_rewards_msg (fa_staking_contract c) [fa_lp_token c]], cr_rewards = [], cr_funds = [], cr_attrs = []\<rparr> rs = Ok run"
    and r: "resp_msgs r = map PlainMsg ms"
    and ms: "cr_rewards run = [] \<and> ms = cr_msgs run \<or> cr_rewards run \<noteq> [] \<and> (\<exists>b. ms = cr_msgs run @
      [compound_msg (fa_compound_proxy c) (cr_rewards run) (cr_funds run) None sl (fa_lp_token c),
       farm_callback_into_msg (FarmStake b mr) (env_contract env)])"
    using assms(3,5,6) by (metis prod.inject result.inject(1))
  from compound_run_closed [OF run assms(4)] r ms show ?thesis
    by (cases "filter (forwarded c) rs = []") (auto intro: that)
qed

section \<open>Token rewards\<close>

definition allowed_by :: "farm_config \<Rightarrow> addr \<Rightarrow> farm_payload sub_msg list \<Rightarrow> nat" where
  "allowed_by c t = payload_total (\<lambda>a p. case p of
     ToToken (TokenIncreaseAllowance sp amount ex) \<Rightarrow> if a = t \<and> sp = fa_compound_proxy c then amount else 0 | _ \<Rightarrow> 0)"

definition charged_by :: "farm_config \<Rightarrow> addr \<Rightarrow> farm_payload sub_msg list \<Rightarrow> nat" where
  "charged_by c t = payload_total (\<lambda>a p. case p of
     ToToken (TokenTransfer recipient amount) \<Rightarrow> if a = t \<and> recipient = fa_fee_collector c then amount else 0 | _ \<Rightarrow> 0)"

definition rewards_in :: "addr \<Rightarrow> asset list \<Rightarrow> nat" where
  "rewards_in t rs = sum_list (map as_amount (filter (\<lambda>a. as_info a = TokenAsset t) rs))"

lemma reward_msgs_total:
  assumes "\<forall>a\<in>set rs. commission c a \<le> as_amount a" and "\<And>a. al_to_string (fd_assets deps) (TokenAsset a) = a"
  shows "allowed_by c t (map PlainMsg (concat (map (reward_msgs deps env c) rs))) +
    charged_by c t (map PlainMsg (concat (map (reward_msgs deps env c) rs))) = rewards_in t rs"
  using assms(1)
proof (induction rs)
  case Nil
  then show ?case by (simp add: allowed_by_def charged_by_def rewards_in_def)
next
  case (Cons a rs)
  have one: "allowed_by c t (map PlainMsg (reward_msgs deps env c a)) + charged_by c t (map PlainMsg (reward_msgs deps env c a)) =
      (if as_info a = TokenAsset t then as_amount a else 0)"
    using Cons.prems assms(2)
    by (cases "as_info a") (auto simp: reward_msgs_def allowed_by_def charged_by_def forwarded_def reward_left_def increase_allowance_msg_def)
  have "allowed_by c t (map PlainMsg (concat (map (reward_msgs deps env c) (a # rs)))) +
      charged_by c t (map PlainMsg (concat (map (reward_msgs deps env c) (a # rs)))) =
    (allowed_by c t (map PlainMsg (reward_msgs deps env c a)) + charged_by c t (map PlainMsg (reward_msgs deps env c a))) +
    (allowed_by c t (map PlainMsg (concat (map (reward_msgs deps env c) rs))) +
     charged_by c t (map PlainMsg (concat (map (reward_msgs deps env c) rs))))"
    by (simp add: allowed_by_def charged_by_def)
  also have "\<dots> = rewards_in t (a # rs)" using one Cons by (simp add: rewards_in_def)
  finally show ?case .
qed

lemma other_msgs_total:
  "allowed_by c t (map PlainMsg [claim_rewards_msg g lps]) = 0" "charged_by c t (map PlainMsg [claim_rewards_msg g lps]) = 0"
  "allowed_by c t (map PlainMsg [compound_msg p rw fs ns sl lp, farm_callback_into_msg m f]) = 0"
  "charged_by c t (map PlainMsg [compound_msg p rw fs ns sl lp, farm_callback_into_msg m f]) = 0"
  "allowed_by c t [] = 0" "charged_by c t [] = 0"
  "allowed_by c t (ms @ ns') = allowed_by c t ms + allowed_by c t ns'" "charged_by c t (ms @ ns') = charged_by c t ms + charged_by c t ns'"
  by (simp_all add: allowed_by_def charged_by_def claim_rewards_msg_def compound_msg_def farm_callback_into_msg_def)

text \<open>Every operation on the token that the messages contain, whoever it is for.\<close>

fun token_op :: "addr \<Rightarrow> farm_msg \<Rightarrow> generator_hook token_msg list" where
  "token_op t (WasmExecute a (ToToken op) funds) = (if a = t then [op] else [])"
| "token_op t _ = []"

fun token_ops :: "addr \<Rightarrow> farm_payload sub_msg list \<Rightarrow> generator_hook token_msg list" where
  "token_ops t [] = []"
| "token_ops t (PlainMsg m # ms) = token_op t m @ token_ops t ms"
| "token_ops t (ReplyOnSuccess m k # ms) = token_op t m @ token_ops t ms"

text \<open>The operations that a reward of the token is meant to cause: the proxy may take what the commission leaves, the collector gets the commission.\<close>

definition reward_ops :: "env \<Rightarrow> farm_config \<Rightarrow> asset \<Rightarrow> generator_hook token_msg list" where
  "reward_ops env c a =
     (if commission c a < as_amount a
      then [TokenIncreaseAllowance (fa_compound_proxy c) (as_amount a - commission c a) (Some (AtHeight (env_height env + 1)))] else []) @
     (if commission c a = 0 then [] else [TokenTransfer (fa_fee_collector c) (commission c a)])"

lemma token_ops_append [simp]: "token_ops t (ms @ ns) = token_ops t ms @ token_ops t ns"
  by (induction t ms rule: token_ops.induct) simp_all

lemma reward_msgs_ops:
  assumes "\<And>a. al_to_string (fd_assets deps) (TokenAsset a) = a"
  shows "token_ops t (map PlainMsg (concat (map (reward_msgs deps env c) rs))) =
    concat (map (reward_ops env c) (filter (\<lambda>a. as_info a = TokenAsset t) rs))"
proof (induction rs)
  case (Cons a rs)
  have "token_ops t (map PlainMsg (reward_msgs deps env c a)) = (if as_info a = TokenAsset t then reward_ops env c a else [])"
    using assms by (cases "as_info a") (auto simp: reward_msgs_def reward_ops_def forwarded_def reward_left_def increase_allowance_msg_def)
  with Cons show ?case by simp
qed simp

lemma other_msgs_ops:
  "token_ops t (map PlainMsg [claim_rewards_msg g lps]) = []"
  "token_ops t (map PlainMsg [compound_msg p rw fs ns sl lp, farm_callback_into_msg m f]) = []" "token_ops t [] = []"
  by (simp_all add: claim_rewards_msg_def compound_msg_def farm_callback_into_msg_def)

text \<open>
  C23: Compounding spends every token reward exactly. When the controller compounds and the farm has LP staked, then of each CW20 token the only
  operations in the messages are, for each reward the generator reports in it (the base reward and the rewards of the proxies), that the compound
  proxy may take the reward less the commission, and a transfer of the commission to the fee collector. What the two get adds up to the rewards:
  nothing stays behind, and nothing else of the token is given away. (The printed name of a token is its address.)
\<close>

theorem compounding_spends_token_rewards:
  assumes "farm_execute deps env info (FarmCompound mr sl) st = Ok (st', r)" and "fm_config st = Some c"
    and "fd_deposit deps (fa_staking_contract c) (fa_lp_token c) (env_contract env) = Ok T" and "0 < T"
    and "fd_pending_token deps (fa_staking_contract c) (fa_lp_token c) (env_contract env) = Ok (pending, others)"
    and "\<And>a. al_to_string (fd_assets deps) (TokenAsset a) = a"
  defines "rewards \<equiv> token_asset (fa_base_reward_token c) pending # unwrap_or others []"
  shows "token_ops t (resp_msgs r) = concat (map (reward_ops env c) (filter (\<lambda>a. as_info a = TokenAsset t) rewards)) \<and>
    list_all (\<lambda>a. commission c a \<le> as_amount a) rewards \<and>
    allowed_by c t (resp_msgs r) + charged_by c t (resp_msgs r) = rewards_in t rewards"
proof -
  define rs where "rs = token_asset (fa_base_reward_token c) pending # unwrap_or others []"
  from assms(4) have T: "T \<noteq> 0" by simp
  from compound_closed [OF assms(1-3) T assms(5) rs_def] obtain b where le: "\<forall>a\<in>set rs. commission c a \<le> as_amount a"
    and r: "resp_msgs r = map PlainMsg ([claim_rewards_msg (fa_staking_contract c) [fa_lp_token c]] @ concat (map (reward_msgs deps env c) rs) @
      (if filter (forwarded c) rs = [] then []
       else [compound_msg (fa_compound_proxy c) (map (reward_left c) (filter (forwarded c) rs))
               (concat (map reward_coins (filter (forwarded c) rs))) None sl (fa_lp_token c),
             farm_callback_into_msg (FarmStake b mr) (env_contract env)]))" by blast
  have "allowed_by c t (resp_msgs r) = allowed_by c t (map PlainMsg (concat (map (reward_msgs deps env c) rs)))"
    and "charged_by c t (resp_msgs r) = charged_by c t (map PlainMsg (concat (map (reward_msgs deps env c) rs)))"
    unfolding r map_append by (simp_all only: other_msgs_total split: if_split) (simp_all add: other_msgs_total)
  moreover have "token_ops t (resp_msgs r) = token_ops t (map PlainMsg (concat (map (reward_msgs deps env c) rs)))"
    unfolding r map_append token_ops_append by (simp only: other_msgs_ops split: if_split) (simp add: other_msgs_ops)
  ultimately show ?thesis using reward_msgs_total [OF le assms(6), of t env] reward_msgs_ops [OF assms(6), of t env c rs] le
    by (simp add: rs_def rewards_def list_all_iff)
qed

definition controller_compounds :: "farm_state \<times> farm_response" where
  "controller_compounds = (case farm_execute (farm_world 1000 40) (farm_at 9) (asks_farm ''controller'') (FarmCompound None None) (farm_with 1000 []) of
     Ok x \<Rightarrow> x | _ \<Rightarrow> (empty_farm, new_response))"

lemma controller_runs: "farm_execute (farm_world 1000 40) (farm_at 9) (asks_farm ''controller'') (FarmCompound None None) (farm_with 1000 []) =
    Ok (fst controller_compounds, snd controller_compounds)"
proof -
  have "is_ok (farm_execute (farm_world 1000 40) (farm_at 9) (asks_farm ''controller'') (FarmCompound None None) (farm_with 1000 []))"
    by (simp add: farm_sample_defs farm_compound_def compound_one_def compound_messages_def num_defs DEC_ONE_def U128_MAX_def U64_MAX_def
        with_balance_def Let_def)
  then show ?thesis by (auto simp: is_ok_iff controller_compounds_def)
qed

theorem compounding_spends_token_rewards_witness:
  "token_ops ''astro'' (resp_msgs (snd controller_compounds)) =
      [TokenIncreaseAllowance (fa_compound_proxy farm_config0) 950 (Some (AtHeight 8)), TokenTransfer (fa_fee_collector farm_config0) 50] \<and>
   allowed_by farm_config0 ''astro'' (resp_msgs (snd controller_compounds)) + charged_by farm_config0 ''astro'' (resp_msgs (snd controller_compounds)) = 1000"
proof -
  let ?rs = "token_asset (fa_base_reward_token farm_config0) 1000 # unwrap_or (Some [with_balance (NativeToken ''uluna'') 500]) []"
  have "token_ops ''astro'' (resp_msgs (snd controller_compounds)) = concat (map (reward_ops (farm_at 9) farm_config0) (filter (\<lambda>a. as_info a = TokenAsset ''astro'') ?rs)) \<and>
    list_all (\<lambda>a. commission farm_config0 a \<le> as_amount a) ?rs \<and>
    allowed_by farm_config0 ''astro'' (resp_msgs (snd controller_compounds)) + charged_by farm_config0 ''astro'' (resp_msgs (snd controller_compounds)) =
    rewards_in ''astro'' ?rs"
    by (rule compounding_spends_token_rewards [OF controller_runs, where T = 1000]) (simp_all add: farm_sample_defs sample_lib_def)
  then show ?thesis by (simp add: rewards_in_def reward_ops_def commission_def farm_sample_defs DEC_ONE_def)
qed

section \<open>Native rewards\<close>

lemma try_fold_member:
  "try_fold f s xs = Ok s' \<Longrightarrow> x \<in> set xs \<Longrightarrow> \<exists>s1 s2. f s1 x = Ok s2"
  by (induction xs arbitrary: s) (auto simp: ok_simps)

lemma reward_coins_sent:
  assumes "distinct (map as_info as)" and "a \<in> set as" and "as_info a = NativeToken d"
  shows "sent_amount (concat (map reward_coins as)) d = as_amount a"
    and "distinct (map c_denom (concat (map reward_coins as)))"
proof -
  have denoms: "c_denom ` set (concat (map reward_coins bs)) = {d. NativeToken d \<in> as_info ` set bs}" for bs
  proof (induction bs)
    case (Cons b bs)
    have "concat (map reward_coins (b # bs)) = reward_coins b @ concat (map reward_coins bs)" by simp
    then show ?case using Cons by (cases "as_info b") (auto simp: reward_coins_def image_Un simp del: set_concat)
  qed simp
  have "distinct (map c_denom (concat (map reward_coins bs)))" if "distinct (map as_info bs)" for bs
    using that
  proof (induction bs)
    case (Cons b bs)
    then have new: "as_info b \<notin> as_info ` set bs" by auto
    show ?case
    proof (cases "as_info b")
      case (NativeToken d)
      then have b: "reward_coins b = [mk_coin (as_amount b) d]" by (simp add: reward_coins_def)
      from new denoms [of bs] NativeToken have "d \<notin> c_denom ` set (concat (map reward_coins bs))" by simp
      with Cons show ?thesis by (simp add: b del: set_concat)
    next
      case (TokenAsset t)
      then have "reward_coins b = []" by (simp add: reward_coins_def)
      with Cons show ?thesis by simp
    qed
  qed simp
  then show "distinct (map c_denom (concat (map reward_coins as)))" using assms(1) by blast
  show "sent_amount (concat (map reward_coins as)) d = as_amount a"
    using assms
  proof (induction as)
    case (Cons b bs)
    show ?case
    proof (cases "b = a")
      case True
      then show ?thesis using Cons.prems by (simp add: reward_coins_def sent_amount_def)
    next
      case False
      then have a: "a \<in> set bs" and "as_info b \<noteq> NativeToken d" using Cons.prems by force+
      then have "find (\<lambda>c. c_denom c = d) (reward_coins b @ cs) = find (\<lambda>c. c_denom c = d) cs" for cs
        by (cases "as_info b") (auto simp: reward_coins_def)
      then show ?thesis using Cons a by (simp add: sent_amount_def)
    qed
  qed simp
qed

lemma proxy_compound_deposits:
  assumes "proxy_execute deps env info (ProxyCompoundMsg lp rewards recv ns sl) st = Ok (st', r)" and "a \<in> set rewards"
  shows "\<exists>ms. deposit_asset (xd_assets deps) ProxyToken a info (env_contract env) = Ok ms"
proof -
  obtain f lpc msgs where "try_fold (compound_reward deps env info st f lpc) ([], []) rewards = Ok msgs"
    using assms(1) by (auto simp: proxy_compound_def ok_simps)
  from try_fold_member [OF this assms(2)] show ?thesis by (auto simp: compound_reward_def deposit_reward_def ok_simps)
qed

text \<open>
  C25: A native reward stops compounding. When one of the rewards the generator reports is a native coin, and its commission is neither
  nothing nor everything, the farm declares the reward less the commission to the compound proxy but sends the whole reward along; the proxy
  compares the two and refuses, whatever its state. So the transaction of the controller fails, for the other rewards as well.
\<close>

theorem native_rewards_cannot_be_compounded:
  assumes "farm_execute deps env info (FarmCompound mr sl) st = Ok (st', r)" and "fm_config st = Some c"
    and "fd_deposit deps (fa_staking_contract c) (fa_lp_token c) (env_contract env) = Ok T" and "0 < T"
    and "fd_pending_token deps (fa_staking_contract c) (fa_lp_token c) (env_contract env) = Ok (pending, Some others)"
    and "distinct (map as_info (token_asset (fa_base_reward_token c) pending # others))"
    and "reward \<in> set others" and "as_info reward = NativeToken d"
    and "0 < commission c reward" and "commission c reward < as_amount reward"
    and "checks_sent (xd_assets pdeps)"
  shows "(\<exists>lp rewards ns recv sl' funds.
      PlainMsg (WasmExecute (fa_compound_proxy c) (ProxyCompound lp rewards ns recv sl') funds) \<in> set (resp_msgs r))
    \<and> (\<forall>lp rewards ns recv sl' funds.
      PlainMsg (WasmExecute (fa_compound_proxy c) (ProxyCompound lp rewards ns recv sl') funds) \<in> set (resp_msgs r) \<longrightarrow>
      \<not> is_ok (proxy_execute pdeps penv \<lparr>info_sender = env_contract env, info_funds = funds\<rparr>
        (ProxyCompoundMsg lp rewards recv ns sl') pst))"
proof -
  define rs where "rs = token_asset (fa_base_reward_token c) pending # others"
  define kept where "kept = filter (forwarded c) rs"
  from assms(4) have T: "T \<noteq> 0" by simp
  have rs: "rs = token_asset (fa_base_reward_token c) pending # unwrap_or (Some others) []" by (simp add: rs_def)
  have mem: "reward \<in> set kept" using assms(7,10) by (simp add: kept_def rs_def forwarded_def)
  then have ne: "kept \<noteq> []" by auto
  from compound_closed [OF assms(1-3) T assms(5) rs] ne obtain b where
    r: "resp_msgs r = map PlainMsg ([claim_rewards_msg (fa_staking_contract c) [fa_lp_token c]] @ concat (map (reward_msgs deps env c) rs) @
      [compound_msg (fa_compound_proxy c) (map (reward_left c) kept) (concat (map reward_coins kept)) None sl (fa_lp_token c),
       farm_callback_into_msg (FarmStake b mr) (env_contract env)])"
    unfolding kept_def by (smt (verit))
  let ?funds = "sort_funds (concat (map reward_coins kept))"
  have only: "lp = fa_lp_token c \<and> rewards = map (reward_left c) kept \<and> funds = ?funds"
    if "PlainMsg (WasmExecute (fa_compound_proxy c) (ProxyCompound lp rewards ns recv sl') funds) \<in> set (resp_msgs r)"
    for lp rewards ns recv sl' funds
  proof -
    have "transfer_msg ToToken i x t \<noteq> WasmExecute p (ProxyCompound lp rewards ns recv sl') funds" for i x t p by (cases i) auto
    with that show ?thesis
      by (auto simp: r claim_rewards_msg_def compound_msg_def farm_callback_into_msg_def reward_msgs_def increase_allowance_msg_def
          split: if_splits) (metis)+
  qed
  have dist: "distinct (map as_info kept)"
    unfolding kept_def rs_def by (rule distinct_map_filter [OF assms(6)])
  have refused: "\<not> is_ok (proxy_execute pdeps penv \<lparr>info_sender = env_contract env, info_funds = ?funds\<rparr>
        (ProxyCompoundMsg lp (map (reward_left c) kept) recv ns sl') pst)" for lp recv ns sl'
  proof
    assume "is_ok (proxy_execute pdeps penv \<lparr>info_sender = env_contract env, info_funds = ?funds\<rparr>
        (ProxyCompoundMsg lp (map (reward_left c) kept) recv ns sl') pst)"
    then obtain st2 r2 where "proxy_execute pdeps penv \<lparr>info_sender = env_contract env, info_funds = ?funds\<rparr>
        (ProxyCompoundMsg lp (map (reward_left c) kept) recv ns sl') pst = Ok (st2, r2)" by (metis is_ok_iff surj_pair)
    from proxy_compound_deposits [OF this, of "reward_left c reward"] mem
    obtain ms where "deposit_asset (xd_assets pdeps) ProxyToken (reward_left c reward)
        \<lparr>info_sender = env_contract env, info_funds = ?funds\<rparr> (env_contract penv) = Ok ms" by auto
    from deposit_native(2) [OF assms(11) _ this, of d] assms(8,10)
    have "sent_amount ?funds d = as_amount reward - commission c reward" by (simp add: reward_left_def)
    moreover have "sent_amount ?funds d = as_amount reward"
      using reward_coins_sent [OF dist mem assms(8)] sent_amount_sorted by simp
    ultimately show False using assms(9,10) by simp
  qed
  show ?thesis
  proof (intro conjI allI impI)
    show "\<exists>lp rewards ns recv sl' funds.
      PlainMsg (WasmExecute (fa_compound_proxy c) (ProxyCompound lp rewards ns recv sl') funds) \<in> set (resp_msgs r)"
    proof (intro exI)
      show "PlainMsg (WasmExecute (fa_compound_proxy c) (ProxyCompound (fa_lp_token c) (map (reward_left c) kept) None None sl) ?funds) \<in>
        set (resp_msgs r)" by (simp add: r compound_msg_def)
    qed
    fix lp rewards ns recv sl' funds
    assume "PlainMsg (WasmExecute (fa_compound_proxy c) (ProxyCompound lp rewards ns recv sl') funds) \<in> set (resp_msgs r)"
    from only [OF this] refused show "\<not> is_ok (proxy_execute pdeps penv \<lparr>info_sender = env_contract env, info_funds = funds\<rparr>
        (ProxyCompoundMsg lp rewards recv ns sl') pst)" by simp
  qed
qed

definition proxy_world :: proxy_deps where
  "proxy_world = \<lparr>xd_addr_validate = (\<lambda>a. if a = [] then Err (GenericErr ''empty'') else Ok a), xd_assets = sample_lib,
     xd_dex = \<lparr>dx_pair_info = (\<lambda>a. Ok \<lparr>pr_contract_addr = a, pr_liquidity_token = ''lp'',
           pr_asset_infos = [TokenAsset ''astro'', NativeToken ''uluna''], pr_pair_type = Xyk\<rparr>),
       dx_query_pools = (\<lambda>_ a. if a = ''pair'' then Ok [token_asset ''astro'' 1000000, with_balance (NativeToken ''uluna'') 4000000]
           else Ok [token_asset ''astro'' 30000, with_balance (NativeToken ''uluna'') 500]),
       dx_pool_info = (\<lambda>_. Err NotFound), dx_simulate = (\<lambda>_ _ _. Ok 0), dx_factory_pair = (\<lambda>_ _. Err NotFound),
       dx_router_simulate = (\<lambda>_ _ _. Ok 0), dx_supply = (\<lambda>_. Ok 2000000), dx_precision = (\<lambda>_. Ok 6), dx_stable_amp = (\<lambda>_. Ok None)\<rparr>,
     xd_into_msg = (\<lambda>a r. Ok (transfer_msg ProxyToken (as_info a) (as_amount a) r)), xd_minimum_liquidity = 1000,
     xd_propose_new_owner = (\<lambda>_ _ n _ _ _. Ok (Some n, new_response)), xd_drop_ownership_proposal = (\<lambda>_ _ _. Ok (None, new_response)),
     xd_claim_ownership = (\<lambda>_ _ p. case p of Some n \<Rightarrow> Ok (n, None, new_response) | None \<Rightarrow> Err NotFound)\<rparr>"

theorem native_rewards_cannot_be_compounded_witness:
  "\<exists>lp rewards ns recv sl funds.
     PlainMsg (WasmExecute ''proxy'' (ProxyCompound lp rewards ns recv sl) funds) \<in> set (resp_msgs (snd controller_compounds)) \<and>
     \<not> is_ok (proxy_execute proxy_world (farm_at 9) \<lparr>info_sender = ''farm'', info_funds = funds\<rparr>
       (ProxyCompoundMsg lp rewards recv ns sl) empty_proxy)"
proof -
  have checks: "checks_sent (xd_assets proxy_world)" by (simp add: proxy_world_def sample_lib_checks)
  have "(\<exists>lp rewards ns recv sl' funds.
      PlainMsg (WasmExecute (fa_compound_proxy farm_config0) (ProxyCompound lp rewards ns recv sl') funds) \<in> set (resp_msgs (snd controller_compounds)))
    \<and> (\<forall>lp rewards ns recv sl' funds.
      PlainMsg (WasmExecute (fa_compound_proxy farm_config0) (ProxyCompound lp rewards ns recv sl') funds) \<in> set (resp_msgs (snd controller_compounds)) \<longrightarrow>
      \<not> is_ok (proxy_execute proxy_world (farm_at 9) \<lparr>info_sender = env_contract (farm_at 9), info_funds = funds\<rparr>
        (ProxyCompoundMsg lp rewards recv ns sl') empty_proxy))"
    by (rule native_rewards_cannot_be_compounded [OF controller_runs _ _ _ _ _ _ _ _ _ checks, where T = 1000 and pending = 1000
          and others = "[with_balance (NativeToken ''uluna'') 500]" and reward = "with_balance (NativeToken ''uluna'') 500" and d = "''uluna''"])
      (simp_all add: farm_sample_defs commission_def DEC_ONE_def)
  then show ?thesis by (simp add: farm_config0_def farm_at_def del: proxy_execute.simps) blast
qed

end
