(* ===== verification/ProxyProps.thy ===== *)
theory ProxyProps
  imports FarmRewards
begin

text \<open>
  Properties of the compound proxy: the swap before providing liquidity, the soundness of what is configured, and a swap that loses its
  receiver.
\<close>

section \<open>The optimal swap\<close>

lemma swap_side_outcome:
  assumes "swap_side lp info a b pa pb spread = Ok (s, ret, msgs)" and "b * pa \<le> a * pb"
  shows "s \<le> a" and "s = 0 \<Longrightarrow> ret = 0 \<and> msgs = []"
    and "0 < s \<Longrightarrow> within_balance (lc_commission_bps lp) a b pa pb s \<and>
      msgs = [swap_msg proxy_wrap (pr_contract_addr (lc_pair_info lp)) (with_balance info s) None (Some spread) None] \<and>
      ret \<le> pb \<and> pa * pb \<le> (pa + s) * (pb - ret) + (pa + s) div DEC_ONE"
proof -
  obtain s0 where s0: "get_swap_amount a b pa pb (lc_commission_bps lp) = Ok s0" and s: "s = s0 \<or> s = 0"
    using assms(1) by (auto simp: swap_side_def ok_simps split: if_splits)
  show "s \<le> a" using swap_amount_le [OF s0 assms(2)] s by auto
  show "s = 0 \<Longrightarrow> ret = 0 \<and> msgs = []" using assms(1) by (auto simp: swap_side_def ok_simps split: if_splits)
  assume "0 < s"
  then show "within_balance (lc_commission_bps lp) a b pa pb s \<and>
      msgs = [swap_msg proxy_wrap (pr_contract_addr (lc_pair_info lp)) (with_balance info s) None (Some spread) None] \<and>
      ret \<le> pb \<and> pa * pb \<le> (pa + s) * (pb - ret) + (pa + s) div DEC_ONE"
    using assms(1) simulate_swap_product swap_amount_within_balance
    by (auto simp: swap_side_def and_then_Ok split: if_splits)
qed

definition astro_uluna :: lp_config where
  "astro_uluna = \<lparr>lc_pair_info = \<lparr>pr_contract_addr = ''pair'', pr_liquidity_token = ''lp'',
       pr_asset_infos = [TokenAsset ''astro'', NativeToken ''uluna''], pr_pair_type = Xyk\<rparr>,
     lc_commission_bps = 30, lc_slippage_tolerance = 10000000000000000, lc_wanted_token = TokenAsset ''astro''\<rparr>"

definition sample_swap :: optimal_swap where
  "sample_swap = \<lparr>os_swap_a = 14848, os_swap_b = 0, os_return_a = 0, os_return_b = 58348\<rparr>"

lemma sample_roots: "isqrt 4120000000000 = 2029778" "isqrt 1595403108000000000000 = 39942497518"
  by (rule isqrt_unique; simp)+

lemma sample_amount: "get_swap_amount 30000 500 1000000 4000000 30 = Ok 14848"
  by (simp add: get_swap_amount_def COMMISSION_DENOM_def num_defs u256_add_def u256_mul_def u256_div_def to_u128_def sample_roots
      U256_MAX_def U128_MAX_def U64_MAX_def)

lemma sample_return: "simulate_swap 1000000 4000000 14848 3000000000000000 = Ok 58348"
  by (simp add: simulate_swap_def num_defs u256_add_def u256_mul_def u256_sub_def u256_mul_dec_def dec256_from_ratio_def to_u128_def
      U256_MAX_def U128_MAX_def DEC_ONE_def)

lemma sample_swaps:
  "calculate_optimal_swap (xd_dex proxy_world) astro_uluna (token_asset ''astro'' 30000) (with_balance (NativeToken ''uluna'') 500) 100000000000000000 =
    Ok (sample_swap, [swap_msg proxy_wrap ''pair'' (token_asset ''astro'' 14848) None (Some 100000000000000000) None])"
  by (simp add: calculate_optimal_swap_def proxy_world_def astro_uluna_def at_index_def u256_mul_def num_defs U256_MAX_def swap_side_def
      sample_amount dec256_from_ratio_def COMMISSION_DENOM_def DEC_ONE_def sample_return sample_swap_def no_swap_result_def)

lemma sample_pools: "dx_query_pools (xd_dex proxy_world) (lc_pair_info astro_uluna) (pr_contract_addr (lc_pair_info astro_uluna)) =
    Ok (token_asset ''astro'' 1000000 # with_balance (NativeToken ''uluna'') 4000000 # [])"
  by (simp add: proxy_world_def astro_uluna_def)

text \<open>
  C14: Before the proxy provides liquidity it swaps one of the two assets, and this swap is sound: it never offers more than the proxy has, it
  offers only one side, and it never goes past the point where what the proxy then holds of both assets is in the proportion
  of the pool, so the side that was in excess stays the one in excess (\<open>within_balance\<close>). When there is something to swap, exactly one
  message offers this amount to the pair.
\<close>

theorem optimal_swap_is_sound:
  assumes "calculate_optimal_swap dex lp a b spread = Ok (os, msgs)"
    and "dx_query_pools dex (lc_pair_info lp) (pr_contract_addr (lc_pair_info lp)) = Ok (pool_a # pool_b # pools)"
  shows "os_swap_a os \<le> as_amount a \<and> os_swap_b os \<le> as_amount b \<and> (os_swap_a os = 0 \<or> os_swap_b os = 0) \<and>
    (0 < os_swap_a os \<longrightarrow> within_balance (lc_commission_bps lp) (as_amount a) (as_amount b) (as_amount pool_a) (as_amount pool_b) (os_swap_a os) \<and>
      msgs = [swap_msg proxy_wrap (pr_contract_addr (lc_pair_info lp)) (with_balance (as_info a) (os_swap_a os)) None (Some spread) None]) \<and>
    (0 < os_swap_b os \<longrightarrow> within_balance (lc_commission_bps lp) (as_amount b) (as_amount a) (as_amount pool_b) (as_amount pool_a) (os_swap_b os) \<and>
      msgs = [swap_msg proxy_wrap (pr_contract_addr (lc_pair_info lp)) (with_balance (as_info b) (os_swap_b os)) None (Some spread) None]) \<and>
    (os_swap_a os = 0 \<and> os_swap_b os = 0 \<longrightarrow> msgs = [])"
proof -
  let ?a = "as_amount a" and ?b = "as_amount b" and ?pa = "as_amount pool_a" and ?pb = "as_amount pool_b"
  consider (first) s ret where "?b * ?pa \<le> ?a * ?pb" "swap_side lp (as_info a) ?a ?b ?pa ?pb spread = Ok (s, ret, msgs)"
      "os = no_swap_result\<lparr>os_swap_a := s, os_return_b := ret\<rparr>"
    | (second) s ret where "?a * ?pb \<le> ?b * ?pa" "swap_side lp (as_info b) ?b ?a ?pb ?pa spread = Ok (s, ret, msgs)"
      "os = no_swap_result\<lparr>os_swap_b := s, os_return_a := ret\<rparr>"
    | (none) "os = no_swap_result" "msgs = []"
    using assms by (auto simp: calculate_optimal_swap_def ok_simps split: if_splits)
  then show ?thesis
  proof cases
    case first
    from swap_side_outcome [OF first(2,1)] show ?thesis by (auto simp: first(3) no_swap_result_def)
  next
    case second
    have "?a * ?pb \<le> ?b * ?pa" by (rule second(1))
    from swap_side_outcome [OF second(2) this] show ?thesis by (auto simp: second(3) no_swap_result_def)
  next
    case none
    then show ?thesis by (simp add: no_swap_result_def)
  qed
qed

theorem optimal_swap_is_sound_witness:
  "os_swap_a sample_swap \<le> 30000 \<and> within_balance 30 30000 500 1000000 4000000 (os_swap_a sample_swap)"
  using optimal_swap_is_sound [OF sample_swaps sample_pools] by (simp add: sample_swap_def astro_uluna_def)

text \<open>
  The return the proxy expects from its swap never drains the pair: the pool of what is asked for keeps at least the product of the
  pools divided by the new pool of what is offered, up to the last digit of an 18-digit decimal (a product short by less than a
  \<open>10^18\<close>-th of the offered pool); so the commission is always left in the pool.
\<close>

theorem swap_keeps_the_product:
  assumes "calculate_optimal_swap dex lp a b spread = Ok (os, msgs)"
    and "dx_query_pools dex (lc_pair_info lp) (pr_contract_addr (lc_pair_info lp)) = Ok (pool_a # pool_b # pools)"
  shows "os_return_a os \<le> as_amount pool_a \<and> os_return_b os \<le> as_amount pool_b \<and>
    as_amount pool_a * as_amount pool_b \<le>
      (as_amount pool_a + os_swap_a os - os_return_a os) * (as_amount pool_b + os_swap_b os - os_return_b os) +
      (as_amount pool_a + os_swap_a os + as_amount pool_b + os_swap_b os) div DEC_ONE"
proof -
  let ?a = "as_amount a" and ?b = "as_amount b" and ?pa = "as_amount pool_a" and ?pb = "as_amount pool_b"
  consider (first) s ret where "?b * ?pa \<le> ?a * ?pb" "swap_side lp (as_info a) ?a ?b ?pa ?pb spread = Ok (s, ret, msgs)"
      "os = no_swap_result\<lparr>os_swap_a := s, os_return_b := ret\<rparr>"
    | (second) s ret where "?a * ?pb \<le> ?b * ?pa" "swap_side lp (as_info b) ?b ?a ?pb ?pa spread = Ok (s, ret, msgs)"
      "os = no_swap_result\<lparr>os_swap_b := s, os_return_a := ret\<rparr>"
    | (none) "os = no_swap_result" "msgs = []"
    using assms by (auto simp: calculate_optimal_swap_def ok_simps split: if_splits)
  then show ?thesis
  proof cases
    case first
    have "ret \<le> ?pb \<and> ?pa * ?pb \<le> (?pa + s) * (?pb - ret) + (?pa + s) div DEC_ONE"
      using swap_side_outcome [OF first(2,1)] by (cases "s = 0") auto
    moreover have "(?pa + s) div DEC_ONE \<le> (?pa + s + ?pb) div DEC_ONE" by (rule div_le_mono) simp
    ultimately show ?thesis by (simp add: first(3) no_swap_result_def)
  next
    case second
    have "ret \<le> ?pa \<and> ?pb * ?pa \<le> (?pb + s) * (?pa - ret) + (?pb + s) div DEC_ONE"
      using swap_side_outcome [OF second(2,1)] by (cases "s = 0") auto
    moreover have "(?pb + s) div DEC_ONE \<le> (?pa + (?pb + s)) div DEC_ONE" by (rule div_le_mono) simp
    ultimately show ?thesis by (simp add: second(3) no_swap_result_def mult.commute add.assoc)
  next
    case none
    then show ?thesis by (simp add: no_swap_result_def)
  qed
qed

theorem swap_keeps_the_product_witness: "(1000000::nat) * 4000000 \<le> (1000000 + 14848) * (4000000 - 58348)"
  using swap_keeps_the_product [OF sample_swaps sample_pools] by (simp add: sample_swap_def DEC_ONE_def)

section \<open>Configuration\<close>

text \<open>
  C24: What the proxy stores is well formed, whatever the owner sends: every registered LP is stored under the LP token of its pair, with a
  commission below 100%, a slippage of at most 50%, a wanted token that is one of the assets of the pair, and a pair type the proxy
  handles; every route is stored under the two assets it connects, so a path starts and ends with them, and a pair is one of the two; the default
  spread is at most 50%.
\<close>

theorem proxy_state_is_well_formed:
  assumes "proxy_reachable lib st"
  shows "(\<forall>k lp. get (ps_lps st) k = Some lp \<longrightarrow> lp_sound k lp) \<and>
    (\<forall>k rc. get (ps_routes st) k = Some rc \<longrightarrow> route_sound lib k rc) \<and> get_default_max_spread st \<le> dec_percent 50"
  using proxy_reachable_inv [OF assms]
  by (cases "ps_default_max_spread st") (auto simp: proxy_inv_def get_default_max_spread_def dec_percent_def)

definition proxy_started :: proxy_state where
  "proxy_started = \<lparr>ps_config = Some \<lparr>px_factory = None, px_owner = ''owner''\<rparr>, ps_ownership_proposal = None,
     ps_lps = [(''lp'', astro_uluna)], ps_routes = [], ps_default_max_spread = None\<rparr>"

lemma proxy_started_reachable: "proxy_reachable sample_lib proxy_started"
proof (rule proxy_reachable.start)
  show "proxy_instantiate proxy_world \<lparr>pxi_lps = [\<lparr>li_pair_contract = ''pair'', li_commission_bps = 30,
      li_slippage_tolerance = 10000000000000000, li_wanted_token = TokenAsset ''astro''\<rparr>], pxi_routes = [], pxi_factory = None,
      pxi_owner = ''owner''\<rparr> empty_proxy = Ok (proxy_started, add_attribute new_response ''action'' ''ampc/instantiate'')"
    by (simp add: proxy_instantiate_def proxy_world_def addr_opt_validate_def add_lp_def validate_slippage_def dec_percent_def
        validate_commission_def proxy_validate_percentage_def DEC_ONE_def empty_proxy_def proxy_started_def astro_uluna_def)
qed (simp add: proxy_world_def)

theorem proxy_state_is_well_formed_witness: "lp_sound ''lp'' astro_uluna \<and> get_default_max_spread proxy_started \<le> dec_percent 50"
  using proxy_state_is_well_formed [OF proxy_started_reachable] by (auto simp: proxy_started_def get_def)

text \<open>
  C40: Deleting a route undoes adding it: after a path has been added, deleting it from its first asset to its last in both directions
  restores the stored routes exactly, whatever other routes there are.
\<close>

theorem deleting_a_route_undoes_adding_it:
  assumes "proxy_reachable lib st" and "add_route deps st (InitPath router rt route) = Ok st'"
  shows "delete_route deps st' (hd route) (last route) True = Ok st"
proof -
  let ?k = "route_key deps (hd route) (last route)" and ?k' = "route_key deps (last route) (hd route)"
  obtain a st1 where ne: "route \<noteq> []"
    and s1: "checked_save_route deps (route ! 0) (route ! (length route - 1)) (RoutePath a rt route) st = Ok st1"
    and s2: "checked_save_route deps (route ! (length route - 1)) (route ! 0) (RoutePath a rt (rev route)) st1 = Ok st'"
    using assms(2) by (auto simp: ok_simps)
  from ne have ends: "route ! 0 = hd route" "route ! (length route - 1) = last route" by (simp_all add: hd_conv_nth last_conv_nth)
  obtain v v' where st1: "st1 = st\<lparr>ps_routes := put ?k v (ps_routes st)\<rparr>" and none: "get (ps_routes st) ?k = None"
    and st': "st' = st1\<lparr>ps_routes := put ?k' v' (ps_routes st1)\<rparr>" and none': "get (ps_routes st1) ?k' = None"
    using s1 s2 unfolding ends by (auto simp: checked_save_route_def split: if_splits)
  have wf: "wf_store (ps_routes st)" using proxy_reachable_inv [OF assms(1)] by (simp add: proxy_inv_def)
  have dist: "?k' \<noteq> ?k" using none' by (auto simp: st1 store_simps)
  have "del ?k' (del ?k (put ?k' v' (put ?k v (ps_routes st)))) = ps_routes st"
    by (rule wf_store_eqI) (use wf none none' dist in \<open>auto simp: st1 store_simps split: if_splits\<close>)
  then show ?thesis using dist by (simp add: delete_route_def st' st1 store_simps Let_def)
qed

definition proxy_routed :: proxy_state where
  "proxy_routed = proxy_started\<lparr>ps_routes :=
     [((4, ''luna'', ''usdc''), \<lparr>rc_key = (TokenAsset ''luna'', TokenAsset ''usdc''),
         rc_route_type = RoutePath ''router'' RtAstroSwap [TokenAsset ''luna'', TokenAsset ''astro'', TokenAsset ''usdc'']\<rparr>),
      ((4, ''usdc'', ''luna''), \<lparr>rc_key = (TokenAsset ''usdc'', TokenAsset ''luna''),
         rc_route_type = RoutePath ''router'' RtAstroSwap [TokenAsset ''usdc'', TokenAsset ''astro'', TokenAsset ''luna'']\<rparr>)]\<rparr>"

theorem deleting_a_route_undoes_adding_it_witness:
  "delete_route proxy_world proxy_routed (TokenAsset ''luna'') (TokenAsset ''usdc'') True = Ok proxy_started"
proof -
  have "case add_route proxy_world proxy_started (InitPath ''router'' RtAstroSwap [TokenAsset ''luna'', TokenAsset ''astro'', TokenAsset ''usdc'']) of
      Ok st \<Rightarrow> st = proxy_routed | _ \<Rightarrow> False"
    by code_simp
  then have "add_route proxy_world proxy_started (InitPath ''router'' RtAstroSwap [TokenAsset ''luna'', TokenAsset ''astro'', TokenAsset ''usdc'']) =
      Ok proxy_routed" by (auto split: result.splits simp del: add_route.simps)
  from deleting_a_route_undoes_adding_it [OF proxy_started_reachable this] show ?thesis by simp
qed

section \<open>Swaps of native coins\<close>

text \<open>
  A native coin that is swapped through a pair forgets who should receive the result. When the only asset of a multi-swap is a native
  coin other than the wanted asset and no path of a router is registered for it, the proxy sends one swap to a pair, and this message is the
  same whoever the receiver is: it names no receiver, so the pair pays the proxy, and the proxy sends nothing on.
\<close>

theorem native_swap_forgets_the_receiver:
  assumes "multi_swap deps env info wanted [reward] receiver st = Ok (st', r)" and "as_info reward = NativeToken d"
    and "wanted \<noteq> NativeToken d"
    and "\<And>rc. get (ps_routes st) (route_key deps (NativeToken d) wanted) = Some rc \<Longrightarrow> \<exists>pi. rc_route_type rc = RoutePairProxy pi"
  shows "(\<exists>pair. resp_msgs r = [PlainMsg (WasmExecute pair
      (ProxySwap (PairSwap reward None (Some (get_default_max_spread st)) None)) [mk_coin (as_amount reward) d])]) \<and>
    (\<forall>other. multi_swap deps env info wanted [reward] other st = Ok (st', r))"
proof -
  have deposits: "ms = []" if "deposit_reward deps env info reward = Ok ms" for ms
    using that assms(2) by (auto simp: deposit_reward_def deposit_asset_def ok_simps split: if_splits)
  have swap: "swap_reward deps st f reward wanted (Some recv) = swap_reward deps st f reward wanted None" for f recv
    using assms(2,4)
    by (auto simp: swap_reward_def route_create_swap_def factory_create_swap_def swap_msg_def split: option.splits)
  have same: "multi_swap deps env info wanted [reward] other st = multi_swap deps env info wanted [reward] receiver st" for other
    using assms(2,3) by (simp add: multi_swap_def multi_reward_def swap and_then_assoc)
  have pair: "\<exists>pair. m = WasmExecute pair (ProxySwap (PairSwap reward None (Some (get_default_max_spread st)) None)) [mk_coin (as_amount reward) d]"
    if "swap_reward deps st f reward wanted recv = Ok m" for f recv m
    using that assms(2,4)
    by (fastforce simp: swap_reward_def route_create_swap_def factory_create_swap_def swap_msg_def proxy_wrap_def ok_simps split: option.splits)
  obtain f ms m where "deposit_reward deps env info reward = Ok ms" and "swap_reward deps st f reward wanted (Some receiver) = Ok m"
    and "resp_msgs r = map PlainMsg (ms @ [m])"
    using assms(1-3) by (auto simp: multi_swap_def multi_reward_def ok_simps split: if_splits)
  with deposits pair have "\<exists>pair. resp_msgs r = [PlainMsg (WasmExecute pair
      (ProxySwap (PairSwap reward None (Some (get_default_max_spread st)) None)) [mk_coin (as_amount reward) d])]" by fastforce
  then show ?thesis using same assms(1) by simp
qed

definition proxy_paired :: proxy_state where
  "proxy_paired = proxy_started\<lparr>ps_routes :=
     [((5, ''uluna'', ''astro''), \<lparr>rc_key = (NativeToken ''uluna'', TokenAsset ''astro''), rc_route_type = RoutePairProxy (lc_pair_info astro_uluna)\<rparr>)]\<rparr>"

theorem native_swap_forgets_the_receiver_witness:
  "multi_swap proxy_world (farm_at 9) \<lparr>info_sender = ''alice'', info_funds = [mk_coin 70 ''uluna'']\<rparr> (TokenAsset ''astro'')
      [with_balance (NativeToken ''uluna'') 70] ''alice'' proxy_paired =
    multi_swap proxy_world (farm_at 9) \<lparr>info_sender = ''alice'', info_funds = [mk_coin 70 ''uluna'']\<rparr> (TokenAsset ''astro'')
      [with_balance (NativeToken ''uluna'') 70] ''bob'' proxy_paired"
proof -
  have "is_ok (multi_swap proxy_world (farm_at 9) \<lparr>info_sender = ''alice'', info_funds = [mk_coin 70 ''uluna'']\<rparr> (TokenAsset ''astro'')
      [with_balance (NativeToken ''uluna'') 70] ''alice'' proxy_paired)"
    by code_simp
  then obtain st' r where run: "multi_swap proxy_world (farm_at 9) \<lparr>info_sender = ''alice'', info_funds = [mk_coin 70 ''uluna'']\<rparr>
      (TokenAsset ''astro'') [with_balance (NativeToken ''uluna'') 70] ''alice'' proxy_paired = Ok (st', r)" by (metis is_ok_iff surj_pair)
  have "\<exists>pi. rc_route_type rc = RoutePairProxy pi"
    if "get (ps_routes proxy_paired) (route_key proxy_world (NativeToken ''uluna'') (TokenAsset ''astro'')) = Some rc" for rc
    using that by (auto simp: proxy_paired_def get_def split: if_splits)
  from native_swap_forgets_the_receiver [OF run _ _ this] run show ?thesis by simp
qed

end
