(* ===== verification/PairProxy.thy ===== *)
theory PairProxy
  imports Swaps
begin

text \<open>
  The pair proxy (\<open>contracts/amp-compounder/pair_proxy\<close>): it looks like a pair of two assets, and swaps one end of a fixed route
  to the other by sending what it receives on to a router.
\<close>

section \<open>Types and state\<close>

datatype pair_error =
    PairStd std_error
  | PairUnauthorized
  | PairInvalidAsset
  | PairDuplicatedAssets
  | PairMustProvideNAssets
  | PairSwapLimitExceeded

abbreviation pxstd :: "('a, std_error) result \<Rightarrow> ('a, pair_error) result" where
  "pxstd \<equiv> map_err PairStd"

definition MAX_ASSETS :: nat where "MAX_ASSETS = 50"

record pair_config =
  pc_pair_info :: pair_info
  pc_asset_infos :: "asset_info list"
  pc_router :: addr
  pc_router_type :: router_type
  pc_offer_precision :: nat
  pc_ask_precision :: nat

record pair_instantiate_msg =
  pim_asset_infos :: "asset_info list"
  pim_router :: string
  pim_router_type :: router_type
  pim_offer_precision :: "nat option"
  pim_ask_precision :: "nat option"

datatype pair_hook_msg = PairHookSwap "decimal option" "decimal option" "string option"

datatype pair_execute_msg =
    PairReceive "pair_hook_msg decoded cw20_receive_msg"
  | PairSwapMsg asset "decimal option" "decimal option" "string option"

datatype pair_query_msg =
    PairInfoQuery
  | PairConfigQuery
  | PairSimulationQuery asset "asset_info option"

datatype pair_payload =
    PairToken "swap_hook token_msg"
  | PairRouter swap_msg

definition pair_wrap :: "pair_payload swap_wrap" where
  "pair_wrap = \<lparr>sw_token = PairToken, sw_swap = PairRouter\<rparr>"

type_synonym pair_response = "pair_payload response"

text \<open>The only stored item is the configuration.\<close>

type_synonym pair_state = "pair_config option"
type_synonym pair_result = "(pair_state \<times> pair_response, pair_error) result"

record pair_deps =
  pd_addr_validate :: "string \<Rightarrow> (addr, std_error) result"
  pd_assets :: asset_lib
  pd_dex :: dex

section \<open>Instantiation\<close>

fun check_assets :: "asset_lib \<Rightarrow> string list \<Rightarrow> asset_info list \<Rightarrow> (unit, pair_error) result" where
  "check_assets lib seen [] = Ok ()"
| "check_assets lib seen (a # as) =
     and_then (pxstd (al_check lib a)) (\<lambda>_.
     if al_to_string lib a \<in> set seen then Err PairDuplicatedAssets
     else check_assets lib (al_to_string lib a # seen) as)"

definition precision_of :: "pair_deps \<Rightarrow> nat option \<Rightarrow> asset_info \<Rightarrow> (nat, std_error) result" where
  "precision_of deps given a = (case given of Some p \<Rightarrow> Ok p | None \<Rightarrow> dx_precision (pd_dex deps) a)"

definition pair_instantiate :: "pair_deps \<Rightarrow> env \<Rightarrow> pair_instantiate_msg \<Rightarrow> pair_state \<Rightarrow> pair_result" where
  "pair_instantiate deps env msg st =
     (let as = pim_asset_infos msg in
      if length as = 0 then Err PairMustProvideNAssets
      else if length as > MAX_ASSETS then Err PairSwapLimitExceeded
      else
        and_then (check_assets (pd_assets deps) [] as) (\<lambda>_.
        and_then (pxstd (precision_of deps (pim_offer_precision msg) (hd as))) (\<lambda>offer_precision.
        and_then (pxstd (precision_of deps (pim_ask_precision msg) (last as))) (\<lambda>ask_precision.
        and_then (pxstd (pd_addr_validate deps (pim_router msg))) (\<lambda>router.
        Ok (Some \<lparr>pc_pair_info = \<lparr>pr_contract_addr = env_contract env, pr_liquidity_token = [],
              pr_asset_infos = [hd as, last as], pr_pair_type = CustomPair ''pair_proxy''\<rparr>,
            pc_asset_infos = as, pc_router = router, pc_router_type = pim_router_type msg,
            pc_offer_precision = offer_precision, pc_ask_precision = ask_precision\<rparr>, new_response))))))"

section \<open>Swapping\<close>

text \<open>\<open>10u128.pow(p)\<close> panics when it overflows.\<close>

definition pow10 :: "nat \<Rightarrow> (u128, 'e) result" where
  "pow10 p = bounded U128_MAX (10 ^ p)"

definition compute_minimum_receive :: "u128 \<Rightarrow> decimal \<Rightarrow> decimal \<Rightarrow> nat \<Rightarrow> nat \<Rightarrow> (u128, 'e) result" where
  "compute_minimum_receive offer_amount belief_price max_spread offer_precision ask_precision =
     and_then (pow10 ask_precision) (\<lambda>ask.
     and_then (pow10 offer_precision) (\<lambda>offer.
     and_then (dec_from_ratio ask offer) (\<lambda>dec_adj.
     and_then (dec_from_ratio dec_adj belief_price) (\<lambda>micro_price.
     and_then (multiply_ratio offer_amount micro_price DEC_ONE) (\<lambda>expected.
     and_then (u128_sub DEC_ONE max_spread) (\<lambda>factor.
     multiply_ratio expected factor DEC_ONE))))))"

text \<open>The route from the offered end, with the precisions of the offered and the other end.\<close>

definition route_from :: "pair_config \<Rightarrow> asset_info \<Rightarrow> 'e \<Rightarrow> (asset_info list \<times> nat \<times> nat, 'e) result" where
  "route_from config offer e =
     and_then (at_index (pc_asset_infos config) 0) (\<lambda>first.
     if offer = first then Ok (pc_asset_infos config, pc_offer_precision config, pc_ask_precision config)
     else if offer = last (pc_asset_infos config) then
       Ok (rev (pc_asset_infos config), pc_ask_precision config, pc_offer_precision config)
     else Err e)"

definition pair_swap ::
    "pair_deps \<Rightarrow> message_info \<Rightarrow> addr \<Rightarrow> asset \<Rightarrow> decimal option \<Rightarrow> decimal option \<Rightarrow> addr option \<Rightarrow> pair_state \<Rightarrow> pair_result" where
  "pair_swap deps info sender offer_asset belief_price max_spread receiver st =
     and_then (pxstd (al_assert_sent (pd_assets deps) offer_asset info)) (\<lambda>_.
     and_then (pxstd (load_item st)) (\<lambda>config.
     and_then (route_from config (as_info offer_asset) PairInvalidAsset) (\<lambda>(route, offer_precision, ask_precision).
     and_then (pxstd (create_swap_operations (pc_router_type config) route)) (\<lambda>operations.
     and_then (case (belief_price, max_spread) of
         (Some bp, Some ms) \<Rightarrow>
           and_then (compute_minimum_receive (as_amount offer_asset) bp ms offer_precision ask_precision) (\<lambda>m. Ok (Some m))
       | _ \<Rightarrow> Ok None) (\<lambda>minimum_receive.
     Ok (st, add_attribute (add_message new_response
       (execute_swap_operations_msg pair_wrap (pc_router config) offer_asset operations minimum_receive
          (Some (unwrap_or receiver sender)) max_spread)) ''action'' ''swap''))))))"

definition opt_addr :: "pair_deps \<Rightarrow> string option \<Rightarrow> (addr option, pair_error) result" where
  "opt_addr deps a = (case a of Some s \<Rightarrow> and_then (pxstd (pd_addr_validate deps s)) (\<lambda>x. Ok (Some x)) | None \<Rightarrow> Ok None)"

definition pair_receive_cw20 ::
    "pair_deps \<Rightarrow> message_info \<Rightarrow> pair_hook_msg decoded cw20_receive_msg \<Rightarrow> pair_state \<Rightarrow> pair_result" where
  "pair_receive_cw20 deps info msg st =
     (case from_binary (cw20_payload msg) of
        Ok (PairHookSwap belief_price max_spread receiver) \<Rightarrow>
          and_then (opt_addr deps receiver) (\<lambda>to_addr.
          pair_swap deps info (cw20_sender msg) (token_asset (info_sender info) (cw20_amount msg)) belief_price max_spread to_addr st)
      | Err e \<Rightarrow> Err (PairStd e)
      | Panic \<Rightarrow> Panic)"

fun pair_execute :: "pair_deps \<Rightarrow> message_info \<Rightarrow> pair_execute_msg \<Rightarrow> pair_state \<Rightarrow> pair_result" where
  "pair_execute deps info (PairReceive msg) st = pair_receive_cw20 deps info msg st"
| "pair_execute deps info (PairSwapMsg offer_asset belief_price max_spread receiver) st =
     and_then (pxstd (al_check (pd_assets deps) (as_info offer_asset))) (\<lambda>_.
     if \<not> is_native_token offer_asset then Err PairUnauthorized
     else
       and_then (opt_addr deps receiver) (\<lambda>to_addr.
       pair_swap deps info (info_sender info) offer_asset belief_price max_spread to_addr st))"

section \<open>Queries and migration\<close>

record simulation_response =
  sr_return_amount :: u128
  sr_spread_amount :: u128
  sr_commission_amount :: u128

definition pair_query_simulation :: "pair_deps \<Rightarrow> asset \<Rightarrow> pair_state \<Rightarrow> (simulation_response, std_error) result" where
  "pair_query_simulation deps offer_asset st =
     and_then (load_item st) (\<lambda>config.
     and_then (route_from config (as_info offer_asset) (GenericErr ''Invalid asset'')) (\<lambda>(route, offer_precision, ask_precision).
     and_then (create_swap_operations (pc_router_type config) route) (\<lambda>operations.
     and_then (dx_router_simulate (pd_dex deps) (pc_router config) (as_amount offer_asset) operations) (\<lambda>amount.
     Ok \<lparr>sr_return_amount = amount, sr_spread_amount = 0, sr_commission_amount = 0\<rparr>))))"

datatype pair_answer =
    PairInfoAnswer pair_info
  | PairConfigAnswer pair_config
  | PairSimulationAnswer simulation_response

fun pair_query :: "pair_deps \<Rightarrow> pair_query_msg \<Rightarrow> pair_state \<Rightarrow> (pair_answer, std_error) result" where
  "pair_query deps PairInfoQuery st = and_then (load_item st) (\<lambda>config. Ok (PairInfoAnswer (pc_pair_info config)))"
| "pair_query deps PairConfigQuery st = and_then (load_item st) (\<lambda>config. Ok (PairConfigAnswer config))"
| "pair_query deps (PairSimulationQuery offer_asset ask) st =
     and_then (pair_query_simulation deps offer_asset st) (\<lambda>r. Ok (PairSimulationAnswer r))"

definition pair_migrate :: "pair_state \<Rightarrow> (pair_state \<times> pair_response, std_error) result" where
  "pair_migrate st = Ok (st, new_response)"

text \<open>Properties of the pair proxy: where a swap goes, and what it asks for at least.\<close>

fun op_ask :: "swap_operation \<Rightarrow> asset_info" where
  "op_ask (OpAstroSwap offer ask) = ask"
| "op_ask (OpTerraSwap offer ask) = ask"
| "op_ask (OpTokenSwap offer ask) = ask"

lemma swap_op_ends [simp]: "get_offer_asset_info (swap_op t a b) = a" "op_ask (swap_op t a b) = b"
  by (cases t; simp)+

lemma swap_ops_ends:
  "map get_offer_asset_info (swap_ops_from t a as) = butlast (a # as)" "map op_ask (swap_ops_from t a as) = as"
  by (induction as arbitrary: a) auto

text \<open>The operations of a route pass through its assets in order.\<close>

lemma route_operations:
  assumes "create_swap_operations t route = Ok ops"
  shows "map get_offer_asset_info ops = butlast route" and "map op_ask ops = tl route" and "route \<noteq> []"
  using assms swap_ops_ends by (cases route; auto)+

lemma minimum_receive_le:
  assumes "compute_minimum_receive offer price spread po pa = Ok m"
  shows "spread \<le> DEC_ONE" and "m * price * 10 ^ po \<le> offer * 10 ^ pa * (DEC_ONE - spread)"
proof -
  define e where "e = 10 ^ pa * DEC_ONE div 10 ^ po"
  define mp where "mp = e * DEC_ONE div price"
  define x where "x = offer * mp div DEC_ONE"
  from assms have m: "m = x * (DEC_ONE - spread) div DEC_ONE" and s: "spread \<le> DEC_ONE"
    by (auto simp: compute_minimum_receive_def pow10_def ok_simps e_def mp_def x_def)
  from s show "spread \<le> DEC_ONE" .
  have A: "m * DEC_ONE \<le> x * (DEC_ONE - spread)" unfolding m by (simp add: div_times_less_eq_dividend)
  have B: "x * DEC_ONE \<le> offer * mp" unfolding x_def by (simp add: div_times_less_eq_dividend)
  have C: "mp * price \<le> e * DEC_ONE" unfolding mp_def by (simp add: div_times_less_eq_dividend)
  have D: "e * 10 ^ po \<le> 10 ^ pa * DEC_ONE" unfolding e_def by (rule div_times_less_eq_dividend)
  have "(m * DEC_ONE) * (x * DEC_ONE) * (mp * price) * (e * 10 ^ po) \<le>
      (x * (DEC_ONE - spread)) * (offer * mp) * (e * DEC_ONE) * (10 ^ pa * DEC_ONE)"
    by (rule mult_le_mono [OF mult_le_mono [OF mult_le_mono [OF A B] C] D])
  then have "(x * mp * e * DEC_ONE * DEC_ONE) * (m * price * 10 ^ po) \<le> (x * mp * e * DEC_ONE * DEC_ONE) * (offer * 10 ^ pa * (DEC_ONE - spread))"
    by (simp add: ac_simps)
  then have "x * mp * e = 0 \<or> m * price * 10 ^ po \<le> offer * 10 ^ pa * (DEC_ONE - spread)"
    by (simp del: mult_eq_0_iff) (metis mult_le_cancel1 DEC_ONE_pos mult_eq_0_iff gr0I)
  moreover have "x * mp * e = 0 \<Longrightarrow> m = 0" by (auto simp: m x_def mp_def)
  ultimately show "m * price * 10 ^ po \<le> offer * 10 ^ pa * (DEC_ONE - spread)" by auto
qed

text \<open>What a message offers, for whom, and its receiver.\<close>

fun offered :: "message_info \<Rightarrow> pair_execute_msg \<Rightarrow> (asset \<times> addr \<times> decimal option \<times> decimal option \<times> string option) option" where
  "offered info (PairSwapMsg a bp ms to) = Some (a, info_sender info, bp, ms, to)"
| "offered info (PairReceive m) = (case cw20_payload m of
     Decoded (PairHookSwap bp ms to) \<Rightarrow> Some (token_asset (info_sender info) (cw20_amount m), cw20_sender m, bp, ms, to)
   | Undecodable \<Rightarrow> None)"

text \<open>The price of the route seen from the offered asset: the precisions of the offered and of the other end.\<close>

definition seen_from :: "pair_config \<Rightarrow> asset_info \<Rightarrow> asset_info list \<times> nat \<times> nat" where
  "seen_from c a = (if a = hd (pc_asset_infos c) then (pc_asset_infos c, pc_offer_precision c, pc_ask_precision c)
     else (rev (pc_asset_infos c), pc_ask_precision c, pc_offer_precision c))"

lemma route_from_seen:
  assumes "route_from c a e = Ok (route, po, pa)"
  shows "seen_from c a = (route, po, pa)" and "hd route = a" and "route \<noteq> []"
proof -
  have h: "as \<noteq> [] \<Longrightarrow> as ! 0 = hd as" for as :: "asset_info list" by (simp add: hd_conv_nth)
  from assms h [of "pc_asset_infos c"] show "seen_from c a = (route, po, pa)" "hd route = a" "route \<noteq> []"
    by (auto simp: route_from_def seen_from_def ok_simps hd_rev split: if_splits)
qed

text \<open>
  C27: The pair proxy sends what it is offered on along its route. It accepts either end of the route, sends exactly the offered asset to the
  router in one message, with operations that pass through the assets of the route from the offered end to the other, for the receiver that is
  named or else the sender. When a belief price and a spread are given, the minimum the router has to return never asks for more than the
  belief price allows after the spread.
\<close>

theorem pair_swap_follows_the_route:
  assumes "pair_execute deps info msg (Some c) = Ok (st', r)" and "offered info msg = Some (a, sender, bp, ms, to)"
  defines "route \<equiv> fst (seen_from c (as_info a))" and "po \<equiv> fst (snd (seen_from c (as_info a)))" and "pa \<equiv> snd (snd (seen_from c (as_info a)))"
  shows "st' = Some c \<and> hd route = as_info a \<and> route \<in> {pc_asset_infos c, rev (pc_asset_infos c)} \<and>
    (\<exists>ops minimum receiver. resp_msgs r = [PlainMsg (execute_swap_operations_msg pair_wrap (pc_router c) a ops minimum (Some receiver) ms)] \<and>
       map get_offer_asset_info ops = butlast route \<and> map op_ask ops = tl route \<and>
       (case to of None \<Rightarrow> receiver = sender | Some t \<Rightarrow> pd_addr_validate deps t = Ok receiver) \<and>
       (case (bp, ms) of
          (Some price, Some spread) \<Rightarrow> \<exists>m. minimum = Some m \<and> spread \<le> DEC_ONE \<and>
            m * price * 10 ^ po \<le> as_amount a * 10 ^ pa * (DEC_ONE - spread)
        | _ \<Rightarrow> minimum = None))"
proof -
  from assms(1,2) obtain ra where to: "opt_addr deps to = Ok ra" and sw: "pair_swap deps info sender a bp ms ra (Some c) = Ok (st', r)"
    by (cases msg) (auto simp: pair_receive_cw20_def ok_simps split: if_splits decoded.splits pair_hook_msg.splits)
  from sw obtain route' po' pa' ops minimum where rf: "route_from c (as_info a) PairInvalidAsset = Ok (route', po', pa')"
      and ops: "create_swap_operations (pc_router_type c) route' = Ok ops"
      and mn: "(case (bp, ms) of (Some bp, Some ms) \<Rightarrow> and_then (compute_minimum_receive (as_amount a) bp ms po' pa') (\<lambda>m. Ok (Some m))
        | _ \<Rightarrow> Ok None) = (Ok minimum :: (_, pair_error) result)" and st': "st' = Some c"
      and r: "resp_msgs r = [PlainMsg (execute_swap_operations_msg pair_wrap (pc_router c) a ops minimum (Some (unwrap_or ra sender)) ms)]"
    by (auto simp: pair_swap_def ok_simps)
  note seen = route_from_seen [OF rf]
  have route: "route = route'" "po = po'" "pa = pa'" by (simp_all add: route_def po_def pa_def seen(1))
  have "route' \<in> {pc_asset_infos c, rev (pc_asset_infos c)}" using seen(1) by (auto simp: seen_from_def split: if_splits)
  moreover have "case to of None \<Rightarrow> unwrap_or ra sender = sender | Some t \<Rightarrow> pd_addr_validate deps t = Ok (unwrap_or ra sender)"
    using to by (cases to) (auto simp: opt_addr_def ok_simps)
  moreover have "case (bp, ms) of
      (Some price, Some spread) \<Rightarrow> \<exists>m. minimum = Some m \<and> spread \<le> DEC_ONE \<and>
        m * price * 10 ^ po' \<le> as_amount a * 10 ^ pa' * (DEC_ONE - spread) | _ \<Rightarrow> minimum = None"
    using mn minimum_receive_le by (cases bp; cases ms) (auto simp: ok_simps)
  moreover note route_operations [OF ops] seen(2) st' r
  ultimately show ?thesis unfolding route by blast
qed

text \<open>A pair proxy from luna over astro to usdc, asked to swap usdc back to luna.\<close>

definition pair_sample :: pair_config where
  "pair_sample = \<lparr>pc_pair_info = \<lparr>pr_contract_addr = ''pair'', pr_liquidity_token = [],
       pr_asset_infos = [NativeToken ''uluna'', TokenAsset ''usdc''], pr_pair_type = CustomPair ''pair_proxy''\<rparr>,
     pc_asset_infos = [NativeToken ''uluna'', TokenAsset ''astro'', TokenAsset ''usdc''], pc_router = ''router'',
     pc_router_type = RtAstroSwap, pc_offer_precision = 6, pc_ask_precision = 6\<rparr>"

definition pair_world :: pair_deps where
  "pair_world = \<lparr>pd_addr_validate = Ok, pd_assets = \<lparr>al_to_string = (\<lambda>a. case a of NativeToken d \<Rightarrow> d | TokenAsset c \<Rightarrow> c),
       al_as_bytes = (\<lambda>a. case a of NativeToken d \<Rightarrow> d | TokenAsset c \<Rightarrow> c), al_check = (\<lambda>_. Ok ()), al_assert_sent = (\<lambda>_ _. Ok ()),
       al_query_pool = (\<lambda>_ _. Ok 0)\<rparr>,
     pd_dex = \<lparr>dx_pair_info = (\<lambda>_. Err NotFound), dx_query_pools = (\<lambda>_ _. Err NotFound), dx_pool_info = (\<lambda>_. Err NotFound),
       dx_simulate = (\<lambda>_ _ _. Err NotFound), dx_factory_pair = (\<lambda>_ _. Err NotFound), dx_router_simulate = (\<lambda>_ _ _. Err NotFound),
       dx_supply = (\<lambda>_. Err NotFound), dx_precision = (\<lambda>_. Ok 6), dx_stable_amp = (\<lambda>_. Err NotFound)\<rparr>\<rparr>"

theorem pair_swap_follows_the_route_witness:
  "\<exists>r ops minimum receiver. pair_execute pair_world \<lparr>info_sender = ''usdc'', info_funds = []\<rparr>
      (PairReceive \<lparr>cw20_sender = ''bob'', cw20_amount = 1000, cw20_payload = Decoded (PairHookSwap (Some 2000000000000000000) (Some 100000000000000000) None)\<rparr>)
      (Some pair_sample) = Ok (Some pair_sample, r) \<and>
    map get_offer_asset_info ops = [TokenAsset ''usdc'', TokenAsset ''astro''] \<and> minimum = Some 450 \<and>
    resp_msgs r = [PlainMsg (execute_swap_operations_msg pair_wrap ''router'' (token_asset ''usdc'' 1000) ops minimum (Some receiver) (Some 100000000000000000))]"
proof -
  let ?i = "\<lparr>info_sender = ''usdc'', info_funds = []\<rparr>"
  let ?m = "PairReceive \<lparr>cw20_sender = ''bob'', cw20_amount = 1000, cw20_payload = Decoded (PairHookSwap (Some 2000000000000000000) (Some 100000000000000000) None)\<rparr>"
  let ?ops = "[OpAstroSwap (TokenAsset ''usdc'') (TokenAsset ''astro''), OpAstroSwap (TokenAsset ''astro'') (NativeToken ''uluna'')]"
  have "compute_minimum_receive 1000 2000000000000000000 100000000000000000 6 6 = (Ok 450 :: (_, pair_error) result)"
    by (simp add: compute_minimum_receive_def pow10_def num_defs U128_MAX_code DEC_ONE_code)
  then have run: "pair_execute pair_world ?i ?m (Some pair_sample) = Ok (Some pair_sample, add_attribute (add_message new_response
      (execute_swap_operations_msg pair_wrap ''router'' (token_asset ''usdc'' 1000) ?ops (Some 450) (Some ''bob'') (Some 100000000000000000))) ''action'' ''swap'')"
    by (simp add: pair_receive_cw20_def pair_swap_def pair_world_def pair_sample_def route_from_def at_index_def opt_addr_def)
  have off: "offered ?i ?m = Some (token_asset ''usdc'' 1000, ''bob'', Some 2000000000000000000, Some 100000000000000000, None)" by simp
  from pair_swap_follows_the_route [OF run off] have "hd (fst (seen_from pair_sample (TokenAsset ''usdc''))) = TokenAsset ''usdc''" by simp
  then show ?thesis
    by (intro exI [of _ "add_attribute (add_message new_response
      (execute_swap_operations_msg pair_wrap ''router'' (token_asset ''usdc'' 1000) ?ops (Some 450) (Some ''bob'') (Some 100000000000000000))) ''action'' ''swap''"]
        exI [of _ ?ops] exI [of _ "Some 450"] exI [of _ "''bob''"]) (use run in simp)
qed

end
