(* ===== verification/FeesCollector.thy ===== *)
theory FeesCollector
  imports Swaps
begin

text \<open>
  The fees collector (\<open>contracts/amp-compounder/fees_collector\<close>): it swaps the fees it holds to one stablecoin, over bridge assets where
  there is no direct pair, and distributes the stablecoin to its targets. The swaps over bridges run as messages the contract sends to itself,
  with a depth that bounds them.
\<close>

section \<open>Types and state\<close>

datatype fees_error =
    FeesStd std_error
  | FeesUnauthorized
  | FeesInvalidBridge asset_info asset_info
  | FeesInvalidBridgeDestination asset_info
  | FeesMaxBridgeDepth u64
  | FeesCannotSwap asset_info
  | FeesIncorrectMaxSpread
  | FeesDuplicatedAsset

abbreviation cstd :: "('a, std_error) result \<Rightarrow> ('a, fees_error) result" where
  "cstd \<equiv> map_err FeesStd"

text \<open>A binary message of a target is passed on as it is.\<close>

type_synonym binary = string

datatype target_type = TargetWeight | FillUpFirst u128 "u128 option"

record target_config =
  tg_addr :: addr
  tg_weight :: u64
  tg_msg :: "binary option"
  tg_type :: target_type

record asset_with_limit =
  aw_info :: asset_info
  aw_limit :: "u128 option"

record fees_config =
  fe_owner :: addr
  fe_operator :: addr
  fe_factory :: addr
  fe_targets :: "target_config list"
  fe_stablecoin :: asset_info
  fe_max_spread :: decimal

record fees_state =
  fx_config :: "fees_config option"
  fx_bridges :: "(string, asset_info) store"
  fx_ownership_proposal :: "string option"

record fees_instantiate_msg =
  fei_owner :: string
  fei_operator :: string
  fei_factory :: string
  fei_stablecoin :: asset_info
  fei_targets :: "target_config list"
  fei_max_spread :: "decimal option"

datatype fees_execute_msg =
    FeesCollect "asset_with_limit list"
  | FeesUpdateConfig "string option" "string option" "target_config list option" "decimal option"
  | FeesUpdateBridges "(asset_info \<times> asset_info) list option" "asset_info list option"
  | FeesSwapBridgeAssets "asset_info list" u64
  | FeesDistribute
  | FeesProposeNewOwner string u64
  | FeesDropProposal
  | FeesClaimOwnership

datatype fees_query_msg =
    FeesConfigQuery
  | FeesBalancesQuery "asset_info list"
  | FeesBridgesQuery

datatype fees_hook = FeesSwapHook swap_hook | TargetHook binary

datatype fees_payload =
    FeesToken "fees_hook token_msg"
  | FeesSwap swap_msg
  | ToFees fees_execute_msg
  | TargetPayload binary

type_synonym fees_msg = "fees_payload cosmos_msg"
type_synonym fees_response = "fees_payload response"
type_synonym fees_result = "(fees_state \<times> fees_response, fees_error) result"

definition fees_wrap :: "fees_payload swap_wrap" where
  "fees_wrap = \<lparr>sw_token = (\<lambda>m. FeesToken (map_token_msg FeesSwapHook m)), sw_swap = FeesSwap\<rparr>"

record fees_deps =
  fcd_addr_validate :: "string \<Rightarrow> (addr, std_error) result"
  fcd_assets :: asset_lib
  fcd_dex :: dex
  fcd_propose_new_owner :: "message_info \<Rightarrow> env \<Rightarrow> string \<Rightarrow> u64 \<Rightarrow> addr \<Rightarrow> string option \<Rightarrow>
    (string option \<times> fees_response, std_error) result"
  fcd_drop_ownership_proposal :: "message_info \<Rightarrow> addr \<Rightarrow> string option \<Rightarrow> (string option \<times> fees_response, std_error) result"
  fcd_claim_ownership :: "message_info \<Rightarrow> env \<Rightarrow> string option \<Rightarrow> (addr \<times> string option \<times> fees_response, std_error) result"

definition fees_max_spread_default :: decimal where "fees_max_spread_default = 5 * 10000000000000000"
definition BRIDGES_INITIAL_DEPTH :: u64 where "BRIDGES_INITIAL_DEPTH = 0"
definition BRIDGES_MAX_DEPTH :: u64 where "BRIDGES_MAX_DEPTH = 2"
definition BRIDGES_EXECUTION_MAX_DEPTH :: u64 where "BRIDGES_EXECUTION_MAX_DEPTH = 3"

definition uluna :: asset_info where "uluna = NativeToken ''uluna''"

section \<open>Configuration\<close>

definition validate_target :: "fees_deps \<Rightarrow> target_config \<Rightarrow> (target_config, std_error) result" where
  "validate_target deps t =
     and_then (case tg_type t of
         TargetWeight \<Rightarrow> Ok ()
       | FillUpFirst filled_to min_fill \<Rightarrow>
           if tg_weight t > 0 then Err (GenericErr (''FillUp can't have a weight ('' @ nat_str (tg_weight t) @ '')'')) else Ok ()) (\<lambda>_.
     and_then (fcd_addr_validate deps (tg_addr t)) (\<lambda>a. Ok (t\<lparr>tg_addr := a\<rparr>)))"

definition check_max_spread :: "decimal \<Rightarrow> (decimal, fees_error) result" where
  "check_max_spread s = (if s > DEC_ONE then Err FeesIncorrectMaxSpread else Ok s)"

definition fees_instantiate :: "fees_deps \<Rightarrow> fees_instantiate_msg \<Rightarrow> fees_state \<Rightarrow> fees_result" where
  "fees_instantiate deps msg st =
     and_then (case fei_max_spread msg of Some s \<Rightarrow> check_max_spread s | None \<Rightarrow> Ok fees_max_spread_default) (\<lambda>max_spread.
     and_then (cstd (al_check (fcd_assets deps) (fei_stablecoin msg))) (\<lambda>_.
     and_then (cstd (fcd_addr_validate deps (fei_owner msg))) (\<lambda>owner.
     and_then (cstd (fcd_addr_validate deps (fei_operator msg))) (\<lambda>operator.
     and_then (cstd (fcd_addr_validate deps (fei_factory msg))) (\<lambda>factory.
     and_then (cstd (traverse (validate_target deps) (fei_targets msg))) (\<lambda>targets.
     Ok (st\<lparr>fx_config := Some \<lparr>fe_owner = owner, fe_operator = operator, fe_factory = factory, fe_targets = targets,
       fe_stablecoin = fei_stablecoin msg, fe_max_spread = max_spread\<rparr>\<rparr>, new_response)))))))"

definition set_validated ::
    "fees_deps \<Rightarrow> string option \<Rightarrow> (addr \<Rightarrow> fees_config \<Rightarrow> fees_config) \<Rightarrow> fees_config \<Rightarrow> (fees_config, fees_error) result" where
  "set_validated deps a upd config =
     (case a of Some s \<Rightarrow> and_then (cstd (fcd_addr_validate deps s)) (\<lambda>x. Ok (upd x config)) | None \<Rightarrow> Ok config)"

definition fees_update_config ::
    "fees_deps \<Rightarrow> message_info \<Rightarrow> string option \<Rightarrow> string option \<Rightarrow> target_config list option \<Rightarrow> decimal option \<Rightarrow> fees_state \<Rightarrow> fees_result" where
  "fees_update_config deps info operator factory target_list max_spread st =
     and_then (cstd (load_item (fx_config st))) (\<lambda>config.
     if info_sender info \<noteq> fe_owner config then Err FeesUnauthorized
     else
       and_then (set_validated deps operator (\<lambda>x c. c\<lparr>fe_operator := x\<rparr>) config) (\<lambda>config.
       and_then (set_validated deps factory (\<lambda>x c. c\<lparr>fe_factory := x\<rparr>) config) (\<lambda>config.
       and_then (case max_spread of
           Some s \<Rightarrow> and_then (check_max_spread s) (\<lambda>s. Ok (config\<lparr>fe_max_spread := s\<rparr>)) | None \<Rightarrow> Ok config) (\<lambda>config.
       and_then (case target_list of
           Some ts \<Rightarrow> and_then (cstd (traverse (validate_target deps) ts)) (\<lambda>ts. Ok (config\<lparr>fe_targets := ts\<rparr>))
         | None \<Rightarrow> Ok config) (\<lambda>config.
       Ok (st\<lparr>fx_config := Some config\<rparr>, add_attribute new_response ''action'' ''update_config''))))))"

section \<open>Swaps (\<open>utils.rs\<close>, \<open>contract.rs\<close>)\<close>

definition try_build_swap_msg :: "fees_deps \<Rightarrow> fees_config \<Rightarrow> asset_info \<Rightarrow> asset_info \<Rightarrow> u128 \<Rightarrow> (fees_msg, fees_error) result" where
  "try_build_swap_msg deps config offer ask amount =
     and_then (cstd (dx_factory_pair (fcd_dex deps) (fe_factory config) [offer, ask])) (\<lambda>pool.
     Ok (swap_msg fees_wrap (pr_contract_addr pool) (with_balance offer amount) None (Some (fe_max_spread config)) None))"

definition build_swap_bridge_msg :: "env \<Rightarrow> asset_info list \<Rightarrow> u64 \<Rightarrow> fees_msg" where
  "build_swap_bridge_msg env bridge_assets depth = WasmExecute (env_contract env) (ToFees (FeesSwapBridgeAssets bridge_assets depth)) []"

datatype swap_target = SwapStable fees_msg | SwapBridge asset_info fees_msg

text \<open>An error of the second or third attempt is dropped, and the next one is made.\<close>

definition fees_swap :: "fees_deps \<Rightarrow> fees_config \<Rightarrow> (string, asset_info) store \<Rightarrow> asset_info \<Rightarrow> u128 \<Rightarrow> (swap_target, fees_error) result" where
  "fees_swap deps config bridges from_token amount_in =
     (case get bridges (al_to_string (fcd_assets deps) from_token) of
        Some asset \<Rightarrow> and_then (try_build_swap_msg deps config from_token asset amount_in) (\<lambda>msg. Ok (SwapBridge asset msg))
      | None \<Rightarrow>
        (case try_build_swap_msg deps config from_token (fe_stablecoin config) amount_in of
           Ok msg \<Rightarrow> Ok (SwapStable msg)
         | Panic \<Rightarrow> Panic
         | Err e \<Rightarrow>
           if from_token \<noteq> uluna then
             (case try_build_swap_msg deps config from_token uluna amount_in of
                Ok msg \<Rightarrow> Ok (SwapBridge uluna msg)
              | Panic \<Rightarrow> Panic
              | Err e \<Rightarrow> Err (FeesCannotSwap from_token))
           else Err (FeesCannotSwap from_token)))"

text \<open>The bridge assets are collected in a hash map by their name; here they are sorted by name, one of the orders the map may give them.\<close>

definition swap_asset_step ::
    "fees_deps \<Rightarrow> env \<Rightarrow> fees_config \<Rightarrow> (string, asset_info) store \<Rightarrow> fees_msg list \<times> (string, asset_info) store \<Rightarrow> asset_with_limit \<Rightarrow>
      (fees_msg list \<times> (string, asset_info) store, fees_error) result" where
  "swap_asset_step deps env config bridges = (\<lambda>(messages, bridge_assets) a.
     and_then (cstd (al_query_pool (fcd_assets deps) (aw_info a) (env_contract env))) (\<lambda>balance.
     let balance = (case aw_limit a of Some limit \<Rightarrow> if limit < balance \<and> limit > 0 then limit else balance | None \<Rightarrow> balance) in
     if balance = 0 then Ok (messages, bridge_assets)
     else and_then (fees_swap deps config bridges (aw_info a) balance) (\<lambda>t.
       case t of
         SwapStable msg \<Rightarrow> Ok (messages @ [msg], bridge_assets)
       | SwapBridge asset msg \<Rightarrow> Ok (messages @ [msg], put (al_to_string (fcd_assets deps) asset) asset bridge_assets))))"

definition swap_assets ::
    "fees_deps \<Rightarrow> env \<Rightarrow> fees_config \<Rightarrow> (string, asset_info) store \<Rightarrow> asset_with_limit list \<Rightarrow> (fees_msg list \<times> asset_info list, fees_error) result" where
  "swap_assets deps env config bridges assets =
     and_then (try_fold (swap_asset_step deps env config bridges) ([], []) assets) (\<lambda>(messages, bridge_assets).
     Ok (messages, map snd (entries bridge_assets)))"

definition fees_collect :: "fees_deps \<Rightarrow> env \<Rightarrow> message_info \<Rightarrow> asset_with_limit list \<Rightarrow> fees_state \<Rightarrow> fees_result" where
  "fees_collect deps env info assets st =
     and_then (cstd (load_item (fx_config st))) (\<lambda>config.
     if info_sender info \<noteq> fe_operator config then Err FeesUnauthorized
     else if \<not> distinct (map (\<lambda>a. al_to_string (fcd_assets deps) (aw_info a)) assets) then Err FeesDuplicatedAsset
     else
       and_then (swap_assets deps env config (fx_bridges st) (filter (\<lambda>a. aw_info a \<noteq> fe_stablecoin config) assets)) (\<lambda>(messages, bridge_assets).
       Ok (st, add_attribute (add_messages new_response
         (messages @ (if messages \<noteq> [] \<and> bridge_assets \<noteq> [] then [build_swap_bridge_msg env bridge_assets BRIDGES_INITIAL_DEPTH] else []) @
          [WasmExecute (env_contract env) (ToFees FeesDistribute) []])) ''action'' ''ampfee/collect'')))"

definition swap_bridge_assets :: "fees_deps \<Rightarrow> env \<Rightarrow> message_info \<Rightarrow> asset_info list \<Rightarrow> u64 \<Rightarrow> fees_state \<Rightarrow> fees_result" where
  "swap_bridge_assets deps env info assets depth st =
     (if info_sender info \<noteq> env_contract env then Err FeesUnauthorized
      else if assets = [] then Ok (st, new_response)
      else if depth \<ge> BRIDGES_EXECUTION_MAX_DEPTH then Err (FeesMaxBridgeDepth depth)
      else
        and_then (cstd (load_item (fx_config st))) (\<lambda>config.
        and_then (swap_assets deps env config (fx_bridges st) (map (\<lambda>a. \<lparr>aw_info = a, aw_limit = None\<rparr>) assets)) (\<lambda>(messages, bridge_assets).
        if messages = [] then Err (FeesStd (GenericErr ''Empty swap messages''))
        else
          and_then (if bridge_assets = [] then Ok messages
            else and_then (u64_add depth 1) (\<lambda>d. Ok (messages @ [build_swap_bridge_msg env bridge_assets d]))) (\<lambda>messages.
          Ok (st, add_attribute (add_messages new_response messages) ''action'' ''ampfee/swap_bridge_assets'')))))"

section \<open>Distribution\<close>

text \<open>The transfer to a target (\<open>adapters/asset.rs\<close>): a target with a message receives the amount together with it.\<close>

definition transfer_msg_target :: "asset_info \<Rightarrow> u128 \<Rightarrow> target_config \<Rightarrow> fees_msg" where
  "transfer_msg_target a amount t =
     (case tg_msg t of
        Some msg \<Rightarrow>
          (case a of
             TokenAsset c \<Rightarrow> WasmExecute c (FeesToken (TokenSend (tg_addr t) amount (TargetHook msg))) []
           | NativeToken d \<Rightarrow> WasmExecute (tg_addr t) (TargetPayload msg) [mk_coin amount d])
      | None \<Rightarrow> transfer_msg FeesToken a amount (tg_addr t))"

record distribution =
  ds_total :: u128
  ds_msgs :: "fees_msg list"
  ds_attrs :: "attribute list"
  ds_weighted :: "target_config list"

definition fill_up ::
    "fees_deps \<Rightarrow> asset_info \<Rightarrow> target_config \<Rightarrow> u128 \<Rightarrow> u128 option \<Rightarrow> distribution \<Rightarrow> (distribution, std_error) result" where
  "fill_up deps stablecoin t filled_to min_fill d =
     and_then (al_query_pool (fcd_assets deps) stablecoin (tg_addr t)) (\<lambda>current.
     if filled_to > current then
       and_then (checked_sub filled_to current) (\<lambda>missing.
       let amount = min (ds_total d) missing in
       if amount > unwrap_or min_fill 0 then
         and_then (checked_sub (ds_total d) amount) (\<lambda>rest.
         Ok (d\<lparr>ds_total := rest, ds_msgs := ds_msgs d @ [transfer_msg_target stablecoin amount t],
           ds_attrs := ds_attrs d @ [(''type'', ''fill_up''), (''to'', tg_addr t), (''amount'', nat_str amount)]\<rparr>))
       else Ok d)
     else Ok d)"

definition distribute_target :: "fees_deps \<Rightarrow> asset_info \<Rightarrow> distribution \<Rightarrow> target_config \<Rightarrow> (distribution, std_error) result" where
  "distribute_target deps stablecoin d t =
     (case tg_type t of
        TargetWeight \<Rightarrow> Ok (d\<lparr>ds_weighted := ds_weighted d @ [t]\<rparr>)
      | FillUpFirst filled_to min_fill \<Rightarrow> fill_up deps stablecoin t filled_to min_fill d)"

definition distribute_weighted :: "asset_info \<Rightarrow> u128 \<Rightarrow> u64 \<Rightarrow> distribution \<Rightarrow> target_config \<Rightarrow> (distribution, std_error) result" where
  "distribute_weighted stablecoin total_amount total_weight d t =
     and_then (multiply_ratio total_amount (tg_weight t) total_weight) (\<lambda>amount.
     if amount = 0 then Ok d
     else Ok (d\<lparr>ds_msgs := ds_msgs d @ [transfer_msg_target stablecoin amount t],
       ds_attrs := ds_attrs d @ [(''to'', tg_addr t), (''amount'', nat_str amount)]\<rparr>))"

definition distribute :: "fees_deps \<Rightarrow> env \<Rightarrow> fees_config \<Rightarrow> (fees_msg list \<times> attribute list, std_error) result" where
  "distribute deps env config =
     (let stablecoin = fe_stablecoin config in
      and_then (al_query_pool (fcd_assets deps) stablecoin (env_contract env)) (\<lambda>total_amount.
      if total_amount = 0 then Ok ([], [])
      else
        and_then (try_fold (distribute_target deps stablecoin)
          \<lparr>ds_total = total_amount, ds_msgs = [], ds_attrs = [], ds_weighted = []\<rparr> (fe_targets config)) (\<lambda>d.
        and_then (bounded U64_MAX (sum_list (map tg_weight (ds_weighted d)))) (\<lambda>total_weight.
        and_then (try_fold (distribute_weighted stablecoin (ds_total d) total_weight) d (ds_weighted d)) (\<lambda>d.
        Ok (ds_msgs d, ds_attrs d @ [(''action'', ''ampfee/distribute_fees'')]))))))"

definition distribute_fees :: "fees_deps \<Rightarrow> env \<Rightarrow> message_info \<Rightarrow> fees_state \<Rightarrow> fees_result" where
  "distribute_fees deps env info st =
     (if info_sender info \<noteq> env_contract env then Err FeesUnauthorized
      else
        and_then (cstd (load_item (fx_config st))) (\<lambda>config.
        and_then (cstd (distribute deps env config)) (\<lambda>(msgs, attrs).
        Ok (st, add_attributes (add_messages new_response msgs) attrs))))"

section \<open>Bridges\<close>

text \<open>A bridge is followed to the stablecoin over at most \<open>BRIDGES_MAX_DEPTH\<close> further bridges.\<close>

function validate_bridge ::
    "fees_deps \<Rightarrow> (string, asset_info) store \<Rightarrow> addr \<Rightarrow> asset_info \<Rightarrow> asset_info \<Rightarrow> asset_info \<Rightarrow> u64 \<Rightarrow> (pair_info, fees_error) result" where
  "validate_bridge deps bridges factory from_token bridge_token stablecoin depth =
     and_then (cstd (dx_factory_pair (fcd_dex deps) factory [from_token, bridge_token])) (\<lambda>bridge_pool.
     case dx_factory_pair (fcd_dex deps) factory [bridge_token, stablecoin] of
       Ok pool \<Rightarrow> Ok bridge_pool
     | Panic \<Rightarrow> Panic
     | Err e \<Rightarrow>
         if depth \<ge> BRIDGES_MAX_DEPTH then Err (FeesMaxBridgeDepth depth)
         else
           and_then (ok_or (FeesInvalidBridgeDestination from_token) (get bridges (al_to_string (fcd_assets deps) bridge_token))) (\<lambda>next.
           and_then (validate_bridge deps bridges factory bridge_token next stablecoin (depth + 1)) (\<lambda>_. Ok bridge_pool)))"
  by pat_completeness auto

termination
  by (relation "measure (\<lambda>(_, _, _, _, _, _, depth). BRIDGES_MAX_DEPTH - depth)") (auto simp: BRIDGES_MAX_DEPTH_def)

declare validate_bridge.simps [simp del]

definition add_bridge :: "fees_deps \<Rightarrow> (string, asset_info) store \<Rightarrow> asset_info \<times> asset_info \<Rightarrow> ((string, asset_info) store, fees_error) result" where
  "add_bridge deps bridges = (\<lambda>(asset, bridge).
     if asset = bridge then Err (FeesInvalidBridge asset bridge)
     else Ok (put (al_to_string (fcd_assets deps) asset) bridge bridges))"

text \<open>The asset of a label: a token when the label is a valid address.\<close>

definition asset_of_label :: "fees_deps \<Rightarrow> string \<Rightarrow> (asset_info, fees_error) result" where
  "asset_of_label deps label =
     (case fcd_addr_validate deps label of Ok a \<Rightarrow> Ok (TokenAsset a) | Err e \<Rightarrow> Ok (NativeToken label) | Panic \<Rightarrow> Panic)"

definition check_bridge :: "fees_deps \<Rightarrow> fees_config \<Rightarrow> (string, asset_info) store \<Rightarrow> string \<times> asset_info \<Rightarrow> (pair_info, fees_error) result" where
  "check_bridge deps config bridges = (\<lambda>(label, bridge).
     and_then (asset_of_label deps label) (\<lambda>asset.
     validate_bridge deps bridges (fe_factory config) asset bridge (fe_stablecoin config) BRIDGES_INITIAL_DEPTH))"

definition update_bridges ::
    "fees_deps \<Rightarrow> message_info \<Rightarrow> (asset_info \<times> asset_info) list option \<Rightarrow> asset_info list option \<Rightarrow> fees_state \<Rightarrow> fees_result" where
  "update_bridges deps info add remove st =
     and_then (cstd (load_item (fx_config st))) (\<lambda>config.
     if info_sender info \<noteq> fe_operator config then Err FeesUnauthorized
     else
       let bridges = fold (\<lambda>a. del (al_to_string (fcd_assets deps) a)) (unwrap_or remove []) (fx_bridges st) in
       and_then (try_fold (add_bridge deps) bridges (unwrap_or add [])) (\<lambda>bridges.
       and_then (traverse (check_bridge deps config bridges) (entries bridges)) (\<lambda>_.
       Ok (st\<lparr>fx_bridges := bridges\<rparr>, add_attribute new_response ''action'' ''ampfee/update_bridges''))))"

section \<open>Entry points\<close>

fun fees_execute :: "fees_deps \<Rightarrow> env \<Rightarrow> message_info \<Rightarrow> fees_execute_msg \<Rightarrow> fees_state \<Rightarrow> fees_result" where
  "fees_execute deps env info (FeesCollect assets) st = fees_collect deps env info assets st"
| "fees_execute deps env info (FeesUpdateBridges add remove) st = update_bridges deps info add remove st"
| "fees_execute deps env info (FeesUpdateConfig operator factory target_list max_spread) st =
     fees_update_config deps info operator factory target_list max_spread st"
| "fees_execute deps env info (FeesSwapBridgeAssets assets depth) st = swap_bridge_assets deps env info assets depth st"
| "fees_execute deps env info FeesDistribute st = distribute_fees deps env info st"
| "fees_execute deps env info (FeesProposeNewOwner owner expires_in) st =
     and_then (cstd (load_item (fx_config st))) (\<lambda>config.
     and_then (cstd (fcd_propose_new_owner deps info env owner expires_in (fe_owner config) (fx_ownership_proposal st))) (\<lambda>(p, r).
     Ok (st\<lparr>fx_ownership_proposal := p\<rparr>, r)))"
| "fees_execute deps env info FeesDropProposal st =
     and_then (cstd (load_item (fx_config st))) (\<lambda>config.
     and_then (cstd (fcd_drop_ownership_proposal deps info (fe_owner config) (fx_ownership_proposal st))) (\<lambda>(p, r).
     Ok (st\<lparr>fx_ownership_proposal := p\<rparr>, r)))"
| "fees_execute deps env info FeesClaimOwnership st =
     and_then (cstd (fcd_claim_ownership deps info env (fx_ownership_proposal st))) (\<lambda>(new_owner, p, r).
     and_then (cstd (load_item (fx_config st))) (\<lambda>config.
     Ok (st\<lparr>fx_config := Some (config\<lparr>fe_owner := new_owner\<rparr>), fx_ownership_proposal := p\<rparr>, r)))"

definition fees_query_balances :: "fees_deps \<Rightarrow> env \<Rightarrow> asset_info list \<Rightarrow> (asset list, std_error) result" where
  "fees_query_balances deps env assets =
     and_then (traverse (\<lambda>a. and_then (al_query_pool (fcd_assets deps) a (env_contract env)) (\<lambda>b. Ok (with_balance a b))) assets) (\<lambda>bs.
     Ok (filter (\<lambda>b. as_amount b \<noteq> 0) bs))"

definition fees_query_bridges :: "fees_deps \<Rightarrow> fees_state \<Rightarrow> (string \<times> string) list" where
  "fees_query_bridges deps st = map (\<lambda>(bridge, asset). (bridge, al_to_string (fcd_assets deps) asset)) (entries (fx_bridges st))"

datatype fees_answer =
    FeesConfigAnswer fees_config
  | FeesBalancesAnswer "asset list"
  | FeesBridgesAnswer "(string \<times> string) list"

fun fees_query :: "fees_deps \<Rightarrow> env \<Rightarrow> fees_query_msg \<Rightarrow> fees_state \<Rightarrow> (fees_answer, std_error) result" where
  "fees_query deps env FeesConfigQuery st = and_then (load_item (fx_config st)) (\<lambda>c. Ok (FeesConfigAnswer c))"
| "fees_query deps env (FeesBalancesQuery assets) st = and_then (fees_query_balances deps env assets) (\<lambda>bs. Ok (FeesBalancesAnswer bs))"
| "fees_query deps env FeesBridgesQuery st = Ok (FeesBridgesAnswer (fees_query_bridges deps st))"

definition fees_migrate :: "fees_state \<Rightarrow> (fees_state \<times> fees_response, std_error) result" where
  "fees_migrate st = Ok (st, new_response)"

end
