(* ===== verification/FeesProps.thy ===== *)
theory FeesProps
  imports FeesCollector
begin

text \<open>
  Properties of the fees collector: what a distribution pays, that the messages the contract sends to itself come to an end, and what the
  validation of the bridges is worth.
\<close>

section \<open>Distribution\<close>

text \<open>The transfers of a distribution, as targets with amounts.\<close>

abbreviation transfers :: "asset_info \<Rightarrow> (target_config \<times> u128) list \<Rightarrow> fees_msg list" where
  "transfers s \<equiv> map (\<lambda>(t, x). transfer_msg_target s x t)"

text \<open>A fill-up brings its target at most to the amount it is filled to, and only when it is above its minimum.\<close>

definition fills_to :: "fees_deps \<Rightarrow> asset_info \<Rightarrow> target_config \<times> u128 \<Rightarrow> bool" where
  "fills_to deps s p \<longleftrightarrow> (\<exists>filled_to min_fill current. tg_type (fst p) = FillUpFirst filled_to min_fill \<and>
     al_query_pool (fcd_assets deps) s (tg_addr (fst p)) = Ok current \<and> current + snd p \<le> filled_to \<and> unwrap_or min_fill 0 < snd p)"

text \<open>
  What the distribution promises the targets that ask to be filled up, in the order of the configuration: each gets what it misses, or what is
  left, when that is above its minimum.
\<close>

definition missing_at :: "fees_deps \<Rightarrow> asset_info \<Rightarrow> target_config \<Rightarrow> u128" where
  "missing_at deps s t = (case (tg_type t, al_query_pool (fcd_assets deps) s (tg_addr t)) of
     (FillUpFirst filled_to min_fill, Ok current) \<Rightarrow> filled_to - current | _ \<Rightarrow> 0)"

definition least_fill :: "target_config \<Rightarrow> u128" where
  "least_fill t = (case tg_type t of FillUpFirst filled_to min_fill \<Rightarrow> unwrap_or min_fill 0 | TargetWeight \<Rightarrow> 0)"

fun fill_plan :: "fees_deps \<Rightarrow> asset_info \<Rightarrow> u128 \<Rightarrow> target_config list \<Rightarrow> (target_config \<times> u128) list" where
  "fill_plan deps s rest [] = []"
| "fill_plan deps s rest (t # ts) =
     (let x = min rest (missing_at deps s t) in
      if least_fill t < x then (t, x) # fill_plan deps s (rest - x) ts else fill_plan deps s rest ts)"

text \<open>When there is enough for all of them, each target that asks for more than its minimum gets exactly what it misses.\<close>

lemma fill_plan_enough:
  assumes "sum_list (map (missing_at deps s) ts) \<le> rest"
  shows "fill_plan deps s rest ts = map (\<lambda>t. (t, missing_at deps s t)) (filter (\<lambda>t. least_fill t < missing_at deps s t) ts)"
  using assms by (induction ts arbitrary: rest) (auto simp: Let_def min_def)

definition weight_shares :: "u128 \<Rightarrow> target_config list \<Rightarrow> (target_config \<times> u128) list" where
  "weight_shares rest ts = filter (\<lambda>p. snd p \<noteq> 0) (map (\<lambda>t. (t, rest * tg_weight t div sum_list (map tg_weight ts))) ts)"

lemma sum_nonzero: "sum_list (map snd (filter (\<lambda>p. snd p \<noteq> 0) ps)) = sum_list (map snd ps)" for ps :: "('a \<times> nat) list"
  by (induction ps) auto

lemma weight_shares_sum: "sum_list (map snd (weight_shares rest ts)) = sum_list (map (\<lambda>t. rest * tg_weight t div sum_list (map tg_weight ts)) ts)"
  unfolding weight_shares_def sum_nonzero by (simp add: comp_def)

lemma weight_shares_le: "sum_list (map snd (weight_shares rest ts)) \<le> rest"
proof -
  let ?W = "sum_list (map tg_weight ts)"
  have "sum_list (map (\<lambda>t. rest * tg_weight t div ?W) us) \<le> rest * sum_list (map tg_weight us) div ?W" for us
  proof (induction us)
    case Nil
    then show ?case by simp
  next
    case (Cons t us)
    have "rest * tg_weight t div ?W + rest * sum_list (map tg_weight us) div ?W \<le> (rest * tg_weight t + rest * sum_list (map tg_weight us)) div ?W"
      by (rule div_plus_div_le)
    with Cons show ?case by (simp add: algebra_simps)
  qed
  from this [of ts] have "sum_list (map (\<lambda>t. rest * tg_weight t div ?W) ts) \<le> rest"
    by (cases "?W = 0") (simp_all del: sum_list_eq_0_iff)
  then show ?thesis by (simp only: weight_shares_sum)
qed

lemma weight_shares_dust:
  assumes "sum_list (map tg_weight ts) \<noteq> 0"
  shows "rest < sum_list (map snd (weight_shares rest ts)) + length ts"
proof -
  let ?W = "sum_list (map tg_weight ts)"
  have each: "rest * w < (rest * w div ?W + 1) * ?W" for w
    using assms by (metis Suc_eq_plus1 dividend_less_div_times mult.commute mult_Suc gr0I)
  have le: "us \<noteq> [] \<Longrightarrow> rest * sum_list (map tg_weight us) < (sum_list (map (\<lambda>t. rest * tg_weight t div ?W) us) + length us) * ?W" for us
  proof (induction us)
    case Nil
    then show ?case by simp
  next
    case (Cons t us)
    show ?case
    proof (cases "us = []")
      case True
      then show ?thesis using each [of "tg_weight t"] by simp
    next
      case False
      with Cons.IH each [of "tg_weight t"] show ?thesis by (simp add: algebra_simps)
    qed
  qed
  have "ts \<noteq> []" using assms by auto
  from le [OF this] have "rest < sum_list (map (\<lambda>t. rest * tg_weight t div ?W) ts) + length ts"
    using assms by (simp add: mult_less_cancel2)
  then show ?thesis by (simp only: weight_shares_sum)
qed

lemma fill_loop:
  assumes "try_fold (distribute_target deps s) d ts = Ok d'"
  shows "ds_msgs d' = ds_msgs d @ transfers s (fill_plan deps s (ds_total d) ts) \<and> list_all (fills_to deps s) (fill_plan deps s (ds_total d) ts) \<and>
    ds_total d = ds_total d' + sum_list (map snd (fill_plan deps s (ds_total d) ts)) \<and>
    ds_weighted d' = ds_weighted d @ filter (\<lambda>t. tg_type t = TargetWeight) ts"
  using assms
proof (induction ts arbitrary: d)
  case Nil
  then show ?case by simp
next
  case (Cons t ts)
  then obtain e where e: "distribute_target deps s d t = Ok e" and rest: "try_fold (distribute_target deps s) e ts = Ok d'"
    by (auto simp: ok_simps)
  note f = Cons.IH [OF rest]
  show ?case
  proof (cases "tg_type t")
    case TargetWeight
    with e have "e = d\<lparr>ds_weighted := ds_weighted d @ [t]\<rparr>" by (simp add: distribute_target_def)
    with f TargetWeight show ?thesis by (simp add: missing_at_def)
  next
    case (FillUpFirst filled_to min_fill)
    with e obtain current where current: "al_query_pool (fcd_assets deps) s (tg_addr t) = Ok current"
      by (auto simp: distribute_target_def fill_up_def ok_simps)
    define x where "x = min (ds_total d) (missing_at deps s t)"
    have missing: "missing_at deps s t = filled_to - current" and least: "least_fill t = unwrap_or min_fill 0"
      using FillUpFirst current by (simp_all add: missing_at_def least_fill_def)
    show ?thesis
    proof (cases "least_fill t < x")
      case True
      with e FillUpFirst current have d: "ds_total e = ds_total d - x" "ds_msgs e = ds_msgs d @ [transfer_msg_target s x t]"
          "ds_weighted e = ds_weighted d"
        by (auto simp: distribute_target_def fill_up_def ok_simps Let_def x_def missing least split: if_splits)
      have le: "x \<le> ds_total d" by (simp add: x_def)
      have plan: "fill_plan deps s (ds_total d) (t # ts) = (t, x) # fill_plan deps s (ds_total d - x) ts"
        using True by (simp add: Let_def x_def)
      have "fills_to deps s (t, x)"
        using True FillUpFirst current by (auto simp: fills_to_def x_def missing least)
      with f d le FillUpFirst show ?thesis unfolding plan by auto
    next
      case False
      with e FillUpFirst current have "e = d"
        by (auto simp: distribute_target_def fill_up_def ok_simps Let_def x_def missing least split: if_splits)
      moreover have "fill_plan deps s (ds_total d) (t # ts) = fill_plan deps s (ds_total d) ts"
        unfolding fill_plan.simps Let_def x_def [symmetric] using False by (simp only: if_False)
      ultimately show ?thesis using f FillUpFirst by simp
    qed
  qed
qed

lemma weighted_loop:
  assumes "try_fold (distribute_weighted s rest W) d ts = Ok d'"
  shows "ds_msgs d' = ds_msgs d @ transfers s (filter (\<lambda>p. snd p \<noteq> 0) (map (\<lambda>t. (t, rest * tg_weight t div W)) ts)) \<and> (ts \<noteq> [] \<longrightarrow> W \<noteq> 0)"
  using assms
proof (induction ts arbitrary: d)
  case Nil
  then show ?case by simp
next
  case (Cons t ts)
  then obtain e where e: "distribute_weighted s rest W d t = Ok e" and r: "try_fold (distribute_weighted s rest W) e ts = Ok d'"
    by (auto simp: ok_simps)
  from Cons.IH [OF r] e show ?case
    by (auto simp: distribute_weighted_def ok_simps split: if_splits)
qed

text \<open>
  C11: A distribution first fills up the configured targets that ask for it, in their order: each gets what it misses, or what is still left, and
  nothing when that is not above its minimum; when the balance covers all that is missing, each gets exactly what it misses. The rest is divided
  among the weighted targets by their weights, rounded down. So it never pays more than the balance of the contract, and when there are weighted
  targets it leaves fewer units behind than there are of them.
\<close>

theorem distribution_pays_out_the_balance:
  assumes "fees_execute deps env info FeesDistribute st = Ok (st', r)" and "fx_config st = Some c"
    and "al_query_pool (fcd_assets deps) (fe_stablecoin c) (env_contract env) = Ok balance" and "balance \<noteq> 0"
  defines "weighted \<equiv> filter (\<lambda>t. tg_type t = TargetWeight) (fe_targets c)"
    and "fills \<equiv> fill_plan deps (fe_stablecoin c) balance (fe_targets c)"
    and "missing \<equiv> missing_at deps (fe_stablecoin c)"
  shows "info_sender info = env_contract env \<and> st' = st \<and>
    (\<exists>rest. balance = rest + sum_list (map snd fills) \<and> list_all (fills_to deps (fe_stablecoin c)) fills \<and>
       resp_msgs r = map PlainMsg (transfers (fe_stablecoin c) (fills @ weight_shares rest weighted)) \<and>
       sum_list (map snd (fills @ weight_shares rest weighted)) \<le> balance \<and>
       (weighted \<noteq> [] \<longrightarrow> balance < sum_list (map snd (fills @ weight_shares rest weighted)) + length weighted)) \<and>
    (sum_list (map missing (fe_targets c)) \<le> balance \<longrightarrow>
       fills = map (\<lambda>t. (t, missing t)) (filter (\<lambda>t. least_fill t < missing t) (fe_targets c)))"
proof -
  from assms(1,2) obtain msgs attrs where d: "distribute deps env c = Ok (msgs, attrs)" and sender: "info_sender info = env_contract env"
      and st: "st' = st" and r: "resp_msgs r = map PlainMsg msgs"
    by (auto simp: distribute_fees_def ok_simps split: if_splits)
  let ?s = "fe_stablecoin c"
  from d assms(3,4) obtain d1 d2 where
      fold: "try_fold (distribute_target deps ?s) \<lparr>ds_total = balance, ds_msgs = [], ds_attrs = [], ds_weighted = []\<rparr> (fe_targets c) = Ok d1"
      and shares: "try_fold (distribute_weighted ?s (ds_total d1) (sum_list (map tg_weight (ds_weighted d1)))) d1 (ds_weighted d1) = Ok d2"
      and msgs: "msgs = ds_msgs d2"
    by (auto simp: distribute_def ok_simps Let_def)
  from fill_loop [OF fold] have f: "ds_msgs d1 = transfers ?s fills" "list_all (fills_to deps ?s) fills"
      "balance = ds_total d1 + sum_list (map snd fills)" "ds_weighted d1 = weighted" by (auto simp: weighted_def fills_def)
  from weighted_loop [OF shares] have m: "msgs = transfers ?s (fills @ weight_shares (ds_total d1) weighted)"
    and W: "weighted \<noteq> [] \<longrightarrow> sum_list (map tg_weight weighted) \<noteq> 0"
    by (simp_all add: f msgs weight_shares_def)
  have "weighted \<noteq> [] \<longrightarrow> ds_total d1 < sum_list (map snd (weight_shares (ds_total d1) weighted)) + length weighted"
    using weight_shares_dust W by blast
  moreover have "sum_list (map missing (fe_targets c)) \<le> balance \<longrightarrow>
      fills = map (\<lambda>t. (t, missing t)) (filter (\<lambda>t. least_fill t < missing t) (fe_targets c))"
    using fill_plan_enough unfolding missing_def fills_def by blast
  ultimately show ?thesis using sender st r m f weight_shares_le [of "ds_total d1" weighted]
    by (intro conjI exI [of _ "ds_total d1"]) auto
qed


text \<open>A sample: one target is filled up to 500, the others share the rest by their weights.\<close>

definition fees_lib :: asset_lib where
  "fees_lib = \<lparr>al_to_string = (\<lambda>a. case a of NativeToken d \<Rightarrow> d | TokenAsset c \<Rightarrow> c),
     al_as_bytes = (\<lambda>a. case a of NativeToken d \<Rightarrow> d | TokenAsset c \<Rightarrow> c), al_check = (\<lambda>_. Ok ()), al_assert_sent = (\<lambda>_ _. Ok ()),
     al_query_pool = (\<lambda>_ a. Ok (if a = ''fees'' then 1000 else if a = ''safe'' then 200 else 0))\<rparr>"

definition fees_dex :: dex where
  "fees_dex = \<lparr>dx_pair_info = (\<lambda>_. Err NotFound), dx_query_pools = (\<lambda>_ _. Err NotFound), dx_pool_info = (\<lambda>_. Err NotFound),
     dx_simulate = (\<lambda>_ _ _. Err NotFound),
     dx_factory_pair = (\<lambda>f as. Ok \<lparr>pr_contract_addr = ''pool'', pr_liquidity_token = ''lp'', pr_asset_infos = as, pr_pair_type = Xyk\<rparr>),
     dx_router_simulate = (\<lambda>_ _ _. Err NotFound), dx_supply = (\<lambda>_. Err NotFound), dx_precision = (\<lambda>_. Err NotFound),
     dx_stable_amp = (\<lambda>_. Err NotFound)\<rparr>"

definition fees_world :: fees_deps where
  "fees_world = \<lparr>fcd_addr_validate = (\<lambda>a. if a \<in> {''a'', ''b'', ''c'', ''d'', ''e''} then Err (GenericErr ''address'') else Ok a),
     fcd_assets = fees_lib, fcd_dex = fees_dex, fcd_propose_new_owner = (\<lambda>_ _ _ _ _ p. Ok (p, new_response)),
     fcd_drop_ownership_proposal = (\<lambda>_ _ p. Ok (p, new_response)), fcd_claim_ownership = (\<lambda>_ _ _. Err NotFound)\<rparr>"

definition fees_env :: env where "fees_env = \<lparr>env_height = 1, env_time = 100, env_contract = ''fees''\<rparr>"

definition fees_sample_config :: fees_config where
  "fees_sample_config = \<lparr>fe_owner = ''owner'', fe_operator = ''op'', fe_factory = ''factory'',
     fe_targets = [\<lparr>tg_addr = ''alice'', tg_weight = 2, tg_msg = None, tg_type = TargetWeight\<rparr>,
       \<lparr>tg_addr = ''safe'', tg_weight = 0, tg_msg = None, tg_type = FillUpFirst 500 None\<rparr>,
       \<lparr>tg_addr = ''bob'', tg_weight = 1, tg_msg = Some ''stake'', tg_type = TargetWeight\<rparr>],
     fe_stablecoin = NativeToken ''usd'', fe_max_spread = fees_max_spread_default\<rparr>"

definition fees_sample :: "(string \<times> string) list \<Rightarrow> fees_state" where
  "fees_sample bridges = \<lparr>fx_config = Some fees_sample_config, fx_bridges = map (\<lambda>(a, b). (a, NativeToken b)) bridges,
     fx_ownership_proposal = None\<rparr>"

definition by_itself :: message_info where "by_itself = \<lparr>info_sender = ''fees'', info_funds = []\<rparr>"
definition by_operator :: message_info where "by_operator = \<lparr>info_sender = ''op'', info_funds = []\<rparr>"

theorem distribution_pays_out_the_balance_witness:
  "is_ok (fees_execute fees_world fees_env by_itself FeesDistribute (fees_sample [])) \<and>
   fill_plan fees_world (NativeToken ''usd'') 1000 (fe_targets fees_sample_config) =
     [(\<lparr>tg_addr = ''safe'', tg_weight = 0, tg_msg = None, tg_type = FillUpFirst 500 None\<rparr>, 300)] \<and>
   1000 < sum_list (map snd (fill_plan fees_world (NativeToken ''usd'') 1000 (fe_targets fees_sample_config) @ weight_shares 700
      (filter (\<lambda>t. tg_type t = TargetWeight) (fe_targets fees_sample_config)))) + 2"
proof -
  have ok: "is_ok (fees_execute fees_world fees_env by_itself FeesDistribute (fees_sample []))" by code_simp
  then obtain st' r where "fees_execute fees_world fees_env by_itself FeesDistribute (fees_sample []) = Ok (st', r)"
    by (auto simp: is_ok_iff)
  from distribution_pays_out_the_balance [OF this, of fees_sample_config 1000] ok show ?thesis
    by (auto simp: fees_sample_def fees_world_def fees_lib_def fees_env_def fees_sample_config_def missing_at_def least_fill_def)
qed

section \<open>The messages the contract sends to itself\<close>

text \<open>
  \<open>self_calls c\<close> relates a message to the messages that the contract at \<open>c\<close> sends to itself when it runs it, whatever the state, the
  block and the answers of the other contracts are. The ownership functions of \<open>astroport\<close> send no messages.
\<close>

definition plain_ownership :: "fees_deps \<Rightarrow> bool" where
  "plain_ownership deps \<longleftrightarrow>
     (\<forall>info env owner t cur p q r. fcd_propose_new_owner deps info env owner t cur p = Ok (q, r) \<longrightarrow> resp_msgs r = []) \<and>
     (\<forall>info cur p q r. fcd_drop_ownership_proposal deps info cur p = Ok (q, r) \<longrightarrow> resp_msgs r = []) \<and>
     (\<forall>info env p a q r. fcd_claim_ownership deps info env p = Ok (a, q, r) \<longrightarrow> resp_msgs r = [])"

definition self_calls :: "addr \<Rightarrow> (fees_execute_msg \<times> fees_execute_msg) set" where
  "self_calls c = {(m, m'). \<exists>deps env info st st' r. plain_ownership deps \<and> env_contract env = c \<and>
     fees_execute deps env info m st = Ok (st', r) \<and> PlainMsg (WasmExecute c (ToFees m') []) \<in> set (resp_msgs r)}"

fun call_rank :: "fees_execute_msg \<Rightarrow> nat" where
  "call_rank (FeesCollect assets) = 4"
| "call_rank (FeesSwapBridgeAssets assets depth) = 3 - depth"
| "call_rank _ = 0"

lemma swap_msg_foreign: "WasmExecute c (ToFees m) [] \<noteq> swap_msg fees_wrap pool a bp ms to"
  by (simp add: swap_msg_def fees_wrap_def split: asset_info.splits)

lemma transfer_msg_foreign: "WasmExecute c (ToFees m) [] \<noteq> transfer_msg_target a x t"
  by (simp add: transfer_msg_target_def split: asset_info.splits option.splits) (cases a; simp)

lemma built_swap_foreign: "try_build_swap_msg deps config a b x = Ok m' \<Longrightarrow> m' \<noteq> WasmExecute c (ToFees m) []"
  using swap_msg_foreign by (auto simp: try_build_swap_msg_def ok_simps) metis

fun target_msg :: "swap_target \<Rightarrow> fees_msg" where
  "target_msg (SwapStable m) = m"
| "target_msg (SwapBridge a m) = m"

lemma fees_swap_cases:
  assumes "fees_swap deps config bridges a x = Ok t"
  obtains b m where "t = SwapBridge b m" and "get bridges (al_to_string (fcd_assets deps) a) = Some b"
      and "try_build_swap_msg deps config a b x = Ok m"
    | m where "t = SwapStable m" and "get bridges (al_to_string (fcd_assets deps) a) = None"
      and "try_build_swap_msg deps config a (fe_stablecoin config) x = Ok m"
    | m where "t = SwapBridge uluna m" and "get bridges (al_to_string (fcd_assets deps) a) = None"
      and "try_build_swap_msg deps config a uluna x = Ok m"
  using assms by (auto simp: fees_swap_def ok_simps split: option.splits result.splits if_splits)

lemma fees_swap_foreign:
  assumes "fees_swap deps config bridges a x = Ok t" shows "target_msg t \<noteq> WasmExecute c (ToFees m) []"
  using assms by (elim fees_swap_cases) (simp_all add: built_swap_foreign)

lemma swap_asset_step_cases:
  assumes "swap_asset_step deps env config bridges s a = Ok s'"
  obtains "s' = s" and "al_query_pool (fcd_assets deps) (aw_info a) (env_contract env) = Ok 0"
    | x t where "fees_swap deps config bridges (aw_info a) x = Ok t" and "fst s' = fst s @ [target_msg t]"
      and "snd s' = (case t of SwapStable m \<Rightarrow> snd s | SwapBridge b m \<Rightarrow> put (al_to_string (fcd_assets deps) b) b (snd s))"
proof (cases s)
  case (Pair messages bs)
  from assms obtain balance where q: "al_query_pool (fcd_assets deps) (aw_info a) (env_contract env) = Ok balance"
    by (auto simp: Pair swap_asset_step_def ok_simps)
  define x where "x = (case aw_limit a of Some limit \<Rightarrow> if limit < balance \<and> limit > 0 then limit else balance | None \<Rightarrow> balance)"
  show thesis
  proof (cases "x = 0")
    case True
    with assms q have "s' = s" by (simp add: Pair swap_asset_step_def x_def Let_def)
    moreover from True have "balance = 0" by (simp add: x_def split: option.splits if_splits)
    ultimately show thesis using q that(1) by simp
  next
    case False
    with assms q have "and_then (fees_swap deps config bridges (aw_info a) x) (\<lambda>t. case t of SwapStable m \<Rightarrow> Ok (messages @ [m], bs)
        | SwapBridge b m \<Rightarrow> Ok (messages @ [m], put (al_to_string (fcd_assets deps) b) b bs)) = Ok s'"
      by (simp add: Pair swap_asset_step_def Let_def del: neq0_conv flip: x_def)
    then obtain t where "fees_swap deps config bridges (aw_info a) x = Ok t"
      and "(case t of SwapStable m \<Rightarrow> Ok (messages @ [m], bs)
         | SwapBridge b m \<Rightarrow> Ok (messages @ [m], put (al_to_string (fcd_assets deps) b) b bs)) = (Ok s' :: (_, fees_error) result)"
      by (auto simp: ok_simps)
    then show thesis by (cases t) (auto simp: Pair intro: that(2))
  qed
qed

lemma swap_assets_foreign:
  assumes "swap_assets deps env config bridges assets = Ok (msgs, bs)"
  shows "WasmExecute c (ToFees m) [] \<notin> set msgs"
proof -
  from assms obtain bm where loop: "try_fold (swap_asset_step deps env config bridges) ([], []) assets = Ok (msgs, bm)"
    by (auto simp: swap_assets_def ok_simps)
  have "WasmExecute c (ToFees m) [] \<notin> set (fst (msgs, bm))"
    by (rule try_fold_invariant [OF loop, of "\<lambda>p. WasmExecute c (ToFees m) [] \<notin> set (fst p)"])
      (auto elim!: swap_asset_step_cases dest: fees_swap_foreign [THEN not_sym])
  then show ?thesis by simp
qed

lemma distribute_foreign:
  assumes "distribute deps env config = Ok (msgs, attrs)"
  shows "WasmExecute c (ToFees m) [] \<notin> set msgs"
proof -
  have t: "WasmExecute c (ToFees m) [] \<notin> set (transfers s ps)" for s ps
    using transfer_msg_foreign by (induction ps) auto
  let ?s = "fe_stablecoin config"
  from assms consider "msgs = []"
    | total d1 d2 W where "try_fold (distribute_target deps ?s) \<lparr>ds_total = total, ds_msgs = [], ds_attrs = [], ds_weighted = []\<rparr> (fe_targets config) = Ok d1"
      and "try_fold (distribute_weighted ?s (ds_total d1) W) d1 (ds_weighted d1) = Ok d2" and "msgs = ds_msgs d2"
    by (auto simp: distribute_def ok_simps Let_def split: if_splits)
  then show ?thesis
  proof cases
    case 1
    then show ?thesis by simp
  next
    case 2
    from fill_loop [OF 2(1)] weighted_loop [OF 2(2)] 2(3) obtain ps qs where "msgs = transfers ?s ps @ transfers ?s qs" by auto
    with t show ?thesis by simp
  qed
qed

lemma self_call_cases:
  assumes "(m, m') \<in> self_calls c"
  obtains assets bs where "m = FeesCollect assets" and "m' = FeesSwapBridgeAssets bs 0"
    | assets where "m = FeesCollect assets" and "m' = FeesDistribute"
    | assets bs d where "m = FeesSwapBridgeAssets assets d" and "d < 3" and "m' = FeesSwapBridgeAssets bs (d + 1)"
proof -
  from assms obtain deps env info st st' r where plain: "plain_ownership deps" and c: "env_contract env = c"
      and run: "fees_execute deps env info m st = Ok (st', r)" and sent: "PlainMsg (WasmExecute c (ToFees m') []) \<in> set (resp_msgs r)"
    by (auto simp: self_calls_def)
  from run sent plain that show thesis
    by (cases m)
      (auto simp: fees_collect_def swap_bridge_assets_def distribute_fees_def update_bridges_def fees_update_config_def
        build_swap_bridge_msg_def BRIDGES_INITIAL_DEPTH_def BRIDGES_EXECUTION_MAX_DEPTH_def ok_simps c Let_def plain_ownership_def
        split: if_splits dest!: swap_assets_foreign [of _ _ _ _ _ _ _ c m'] distribute_foreign [of _ _ _ _ _ c m'])
qed

text \<open>A chain of bridges on which the depth is used up.\<close>

definition long_bridges :: fees_state where
  "long_bridges = fees_sample [(''a'', ''b''), (''b'', ''c''), (''c'', ''d''), (''d'', ''e'')]"

definition env_at :: "addr \<Rightarrow> env" where "env_at c = \<lparr>env_height = 1, env_time = 100, env_contract = c\<rparr>"

definition rich_world :: fees_deps where
  "rich_world = fees_world\<lparr>fcd_assets := fees_lib\<lparr>al_query_pool := \<lambda>_ _. Ok 1000\<rparr>\<rparr>"

lemma rich_plain: "plain_ownership rich_world"
  by (simp add: plain_ownership_def rich_world_def fees_world_def)

lemmas rich_defs = rich_world_def fees_world_def fees_lib_def fees_dex_def long_bridges_def fees_sample_def fees_sample_config_def env_at_def

lemma rich_swap:
  assumes "get (fx_bridges long_bridges) a = Some (NativeToken b)"
  shows "swap_assets rich_world (env_at c) fees_sample_config (fx_bridges long_bridges) [\<lparr>aw_info = NativeToken a, aw_limit = None\<rparr>] =
    Ok ([swap_msg fees_wrap ''pool'' (with_balance (NativeToken a) 1000) None (Some fees_max_spread_default) None], [NativeToken b])"
  using assms
  by (simp add: swap_assets_def swap_asset_step_def fees_swap_def try_build_swap_msg_def rich_world_def fees_world_def fees_lib_def fees_dex_def
      fees_sample_config_def entries_def)

lemma long_bridge [simp]:
  "get (fx_bridges long_bridges) ''a'' = Some (NativeToken ''b'')" "get (fx_bridges long_bridges) ''b'' = Some (NativeToken ''c'')"
  "get (fx_bridges long_bridges) ''c'' = Some (NativeToken ''d'')" "get (fx_bridges long_bridges) ''d'' = Some (NativeToken ''e'')"
  by (simp_all add: long_bridges_def fees_sample_def get_def)

lemma long_config [simp]: "fx_config long_bridges = Some fees_sample_config" "env_contract (env_at c) = c"
  by (simp_all add: long_bridges_def fees_sample_def env_at_def)

lemma chain_start: "(FeesCollect [\<lparr>aw_info = NativeToken ''a'', aw_limit = None\<rparr>], FeesSwapBridgeAssets [NativeToken ''b''] 0) \<in> self_calls c"
  unfolding self_calls_def mem_Collect_eq case_prod_conv
  by (rule exI [of _ rich_world], rule exI [of _ "env_at c"], rule exI [of _ by_operator], rule exI [of _ long_bridges])
    (auto simp: rich_plain fees_collect_def rich_swap by_operator_def build_swap_bridge_msg_def BRIDGES_INITIAL_DEPTH_def
      fees_sample_config_def [THEN arg_cong [of _ _ fe_operator]] fees_sample_config_def [THEN arg_cong [of _ _ fe_stablecoin]])

lemma chain_step:
  assumes "get (fx_bridges long_bridges) a = Some (NativeToken b)" and "d < 3"
  shows "(FeesSwapBridgeAssets [NativeToken a] d, FeesSwapBridgeAssets [NativeToken b] (d + 1)) \<in> self_calls c"
  unfolding self_calls_def mem_Collect_eq case_prod_conv
  by (rule exI [of _ rich_world], rule exI [of _ "env_at c"], rule exI [of _ "\<lparr>info_sender = c, info_funds = []\<rparr>"], rule exI [of _ long_bridges])
    (use assms in \<open>auto simp: rich_plain swap_bridge_assets_def rich_swap build_swap_bridge_msg_def BRIDGES_EXECUTION_MAX_DEPTH_def u64_add_def bounded_def U64_MAX_code\<close>)

lemma call_chain:
  assumes "n \<le> 4" shows "\<exists>m m'. (m, m') \<in> self_calls c ^^ n"
proof -
  let ?s = "\<lambda>a d. FeesSwapBridgeAssets [NativeToken a] d"
  let ?m = "FeesCollect [\<lparr>aw_info = NativeToken ''a'', aw_limit = None\<rparr>]"
  have 1: "(?m, ?s ''b'' 0) \<in> self_calls c ^^ 1" using chain_start by simp
  have 2: "(?m, ?s ''c'' 1) \<in> self_calls c ^^ Suc 1" using relpow_Suc_I [OF 1 chain_step [of "''b''" "''c''" 0]] by simp
  have 3: "(?m, ?s ''d'' 2) \<in> self_calls c ^^ Suc (Suc 1)"
    using relpow_Suc_I [OF 2 chain_step [of "''c''" "''d''" 1]] by (simp add: numeral_2_eq_2)
  have 4: "(?m, ?s ''e'' 3) \<in> self_calls c ^^ Suc (Suc (Suc 1))"
    using relpow_Suc_I [OF 3 chain_step [of "''d''" "''e''" 2]] by (simp add: numeral_3_eq_3)
  have 0: "(?m, ?m) \<in> self_calls c ^^ 0" by simp
  from assms have "n \<in> {0, 1, Suc 1, Suc (Suc 1), Suc (Suc (Suc 1))}" by auto
  with 0 1 2 3 4 show ?thesis by blast
qed

text \<open>
  C10: The messages the contract sends to itself come to an end: the relation between a message and those it sends to itself is well founded, and
  its chains have at most four steps (a collection, and swaps over bridges at the depths 0, 1 and 2), a length that is reached. Messages that
  a target's own payload carries are not counted.
\<close>

theorem collecting_terminates:
  "wf ((self_calls c)\<inverse>) \<and> {n. \<exists>m m'. (m, m') \<in> self_calls c ^^ n} = {..4}"
proof
  have less: "(m, m') \<in> self_calls c \<Longrightarrow> call_rank m' < call_rank m" for m m'
    by (elim self_call_cases) auto
  then have "(self_calls c)\<inverse> \<subseteq> measure call_rank" by auto
  then show "wf ((self_calls c)\<inverse>)" by (rule wf_subset [OF wf_measure])
  have "n + call_rank m' \<le> call_rank m" if "(m, m') \<in> self_calls c ^^ n" for n m m'
    using that
  proof (induction n arbitrary: m')
    case 0
    then show ?case by simp
  next
    case (Suc n)
    then obtain k where "(m, k) \<in> self_calls c ^^ n" and "(k, m') \<in> self_calls c" by auto
    from Suc.IH [OF this(1)] less [OF this(2)] show ?case by simp
  qed
  moreover have "call_rank m \<le> 4" for m by (cases m) auto
  ultimately have "{n. \<exists>m m'. (m, m') \<in> self_calls c ^^ n} \<subseteq> {..4}"
    using le_trans [OF le_trans [OF le_add1]] by blast
  moreover have "n \<in> {n. \<exists>m m'. (m, m') \<in> self_calls c ^^ n}" if "n \<le> 4" for n
    using call_chain [OF that] by auto
  ultimately show "{n. \<exists>m m'. (m, m') \<in> self_calls c ^^ n} = {..4}" by blast
qed


section \<open>Bridges\<close>

lemma put_entry: "(k, v) \<in> set (put k' v' s) \<Longrightarrow> (k, v) = (k', v') \<or> (k, v) \<in> set s"
  by (induction s) (auto split: if_splits)

lemma get_entry: "get s k = Some v \<Longrightarrow> (k, v) \<in> set (entries s)"
  by (simp add: get_def entries_def map_of_SomeD)

lemma traverse_member:
  assumes "traverse f xs = Ok ys" and "x \<in> set xs" shows "\<exists>y. f x = Ok y"
  using assms by (auto simp: traverse_Ok_list_all2 list_all2_conv_all_nth in_set_conv_nth)

lemma validated_pool:
  assumes "validate_bridge deps bridges factory a b s d = Ok p"
  shows "dx_factory_pair (fcd_dex deps) factory [a, b] = Ok p"
    and "(\<exists>q. dx_factory_pair (fcd_dex deps) factory [b, s] = Ok q) \<or>
      (\<exists>next q. get bridges (al_to_string (fcd_assets deps) b) = Some next \<and> validate_bridge deps bridges factory b next s (d + 1) = Ok q)"
  using assms unfolding validate_bridge.simps [of deps bridges factory a b s d]
  by (cases "dx_factory_pair (fcd_dex deps) factory [b, s]"; auto simp: ok_simps split: if_splits)+

lemma registered_validated:
  assumes "update_bridges deps info add remove st = Ok (st', r)" and "fx_config st = Some c"
    and "get (fx_bridges st') (al_to_string (fcd_assets deps) a) = Some b" and "asset_of_label deps (al_to_string (fcd_assets deps) a) = Ok a"
  shows "\<exists>p. validate_bridge deps (fx_bridges st') (fe_factory c) a b (fe_stablecoin c) BRIDGES_INITIAL_DEPTH = Ok p"
proof -
  from assms(1,2) obtain ps where "traverse (check_bridge deps c (fx_bridges st')) (entries (fx_bridges st')) = Ok ps"
    by (auto simp: update_bridges_def ok_simps Let_def split: if_splits)
  from traverse_member [OF this get_entry [OF assms(3)]] assms(4) show ?thesis
    by (auto simp: check_bridge_def ok_simps)
qed

lemma built_swap:
  assumes "dx_factory_pair (fcd_dex deps) (fe_factory c) [a, b] = Ok p"
  shows "try_build_swap_msg deps c a b x = Ok (swap_msg fees_wrap (pr_contract_addr p) (with_balance a x) None (Some (fe_max_spread c)) None)"
  using assms by (simp add: try_build_swap_msg_def)

text \<open>
  C18: When the operator's update of the bridges is accepted and the factory still gives the same answers, no swap over a bridge gets stuck for
  want of a pair: an asset with a registered bridge is swapped to the bridge, and the bridge itself can be swapped on, to its own bridge or to
  the stablecoin.
\<close>

theorem validated_bridges_can_be_swapped:
  assumes "fees_execute deps env info (FeesUpdateBridges add remove) st = Ok (st', r)" and "fx_config st = Some c"
    and "get (fx_bridges st') (al_to_string (fcd_assets deps) a) = Some b" and "asset_of_label deps (al_to_string (fcd_assets deps) a) = Ok a"
    and "asset_of_label deps (al_to_string (fcd_assets deps) b) = Ok b"
  shows "info_sender info = fe_operator c \<and> (\<exists>m. fees_swap deps c (fx_bridges st') a x = Ok (SwapBridge b m)) \<and>
    (\<exists>t. fees_swap deps c (fx_bridges st') b y = Ok t \<and>
      (case t of SwapBridge next m \<Rightarrow> get (fx_bridges st') (al_to_string (fcd_assets deps) b) = Some next
       | SwapStable m \<Rightarrow> get (fx_bridges st') (al_to_string (fcd_assets deps) b) = None))"
proof -
  let ?bs = "fx_bridges st'"
  have update: "update_bridges deps info add remove st = Ok (st', r)" using assms(1) by simp
  from registered_validated [OF update assms(2-4)] obtain p where
    p: "validate_bridge deps ?bs (fe_factory c) a b (fe_stablecoin c) BRIDGES_INITIAL_DEPTH = Ok p" by blast
  have first: "\<exists>m. fees_swap deps c ?bs a x = Ok (SwapBridge b m)"
    using built_swap [OF validated_pool(1) [OF p]] assms(3) by (simp add: fees_swap_def)
  have "\<exists>t. fees_swap deps c ?bs b y = Ok t \<and>
      (case t of SwapBridge next m \<Rightarrow> get ?bs (al_to_string (fcd_assets deps) b) = Some next
       | SwapStable m \<Rightarrow> get ?bs (al_to_string (fcd_assets deps) b) = None)"
  proof (cases "get ?bs (al_to_string (fcd_assets deps) b)")
    case None
    with validated_pool(2) [OF p] obtain q where "dx_factory_pair (fcd_dex deps) (fe_factory c) [b, fe_stablecoin c] = Ok q" by auto
    from built_swap [OF this] None show ?thesis by (simp add: fees_swap_def)
  next
    case (Some next')
    from registered_validated [OF update assms(2) Some assms(5)] obtain q where
      "validate_bridge deps ?bs (fe_factory c) b next' (fe_stablecoin c) BRIDGES_INITIAL_DEPTH = Ok q" by blast
    from built_swap [OF validated_pool(1) [OF this]] Some show ?thesis by (simp add: fees_swap_def)
  qed
  with first update assms(2) show ?thesis by (auto simp: update_bridges_def ok_simps split: if_splits)
qed

definition mutual :: "(asset_info \<times> asset_info) list" where
  "mutual = [(NativeToken ''a'', NativeToken ''b''), (NativeToken ''b'', NativeToken ''a'')]"

lemma mutual_accepted:
  "\<exists>r. fees_execute fees_world fees_env by_operator (FeesUpdateBridges (Some mutual) None) (fees_sample []) =
     Ok (fees_sample [(''a'', ''b''), (''b'', ''a'')], r)"
proof -
  have "case fees_execute fees_world fees_env by_operator (FeesUpdateBridges (Some mutual) None) (fees_sample []) of
      Ok (st, r) \<Rightarrow> st = fees_sample [(''a'', ''b''), (''b'', ''a'')] | _ \<Rightarrow> False"
    by (code_simp; simp add: validate_bridge.simps)
  then show ?thesis by (auto split: result.splits prod.splits)
qed

theorem validated_bridges_can_be_swapped_witness:
  "\<exists>m. fees_swap fees_world fees_sample_config (fx_bridges (fees_sample [(''a'', ''b''), (''b'', ''a'')])) (NativeToken ''a'') 5 =
    Ok (SwapBridge (NativeToken ''b'') m)"
proof -
  from mutual_accepted obtain r where
    "fees_execute fees_world fees_env by_operator (FeesUpdateBridges (Some mutual) None) (fees_sample []) =
     Ok (fees_sample [(''a'', ''b''), (''b'', ''a'')], r)" by blast
  from validated_bridges_can_be_swapped [OF this, of fees_sample_config "NativeToken ''a''" "NativeToken ''b''" 5 5] show ?thesis
    by (simp add: fees_sample_def get_def fees_world_def fees_lib_def asset_of_label_def)
qed

text \<open>
  \<open>completes world c st m\<close>: the transaction of the message \<open>m\<close> at the contract \<open>c\<close> in the state \<open>st\<close> can complete with all the
  messages the contract sends to itself, while the other contracts answer as \<open>world\<close> allows when the message is run. One message that
  fails makes it fail.
\<close>

inductive completes :: "(fees_execute_msg \<Rightarrow> fees_deps \<Rightarrow> bool) \<Rightarrow> addr \<Rightarrow> fees_state \<Rightarrow> fees_execute_msg \<Rightarrow> bool" for world c where
  run: "world m deps \<Longrightarrow> env_contract env = c \<Longrightarrow> fees_execute deps env info m st = Ok (st', r) \<Longrightarrow>
    (\<And>m'. PlainMsg (WasmExecute c (ToFees m') []) \<in> set (resp_msgs r) \<Longrightarrow> completes world c st' m') \<Longrightarrow> completes world c st m"

text \<open>A swapped asset with a registered bridge puts a bridge of that name among the bridge assets.\<close>

lemma swap_loop_bridges:
  assumes "try_fold (swap_asset_step deps env config bridges) s as = Ok s'" and "\<And>k v. get (snd s) k = Some v \<Longrightarrow> al_to_string (fcd_assets deps) v = k"
  shows "(\<forall>k v. get (snd s') k = Some v \<longrightarrow> al_to_string (fcd_assets deps) v = k) \<and> (\<forall>k. get (snd s) k \<noteq> None \<longrightarrow> get (snd s') k \<noteq> None) \<and>
    (fst s \<noteq> [] \<longrightarrow> fst s' \<noteq> []) \<and>
    (\<forall>a y. a \<in> set as \<longrightarrow> get bridges (al_to_string (fcd_assets deps) (aw_info a)) = Some y \<longrightarrow>
       al_query_pool (fcd_assets deps) (aw_info a) (env_contract env) \<noteq> Ok 0 \<longrightarrow> fst s' \<noteq> [] \<and> get (snd s') (al_to_string (fcd_assets deps) y) \<noteq> None)"
  using assms
proof (induction as arbitrary: s)
  case Nil
  then show ?case by auto
next
  case (Cons a as)
  then obtain e where step: "swap_asset_step deps env config bridges s a = Ok e" and rest: "try_fold (swap_asset_step deps env config bridges) e as = Ok s'"
    by (auto simp: ok_simps)
  from step Cons.prems(2) have keys: "get (snd e) k = Some v \<Longrightarrow> al_to_string (fcd_assets deps) v = k" for k v
    by (elim swap_asset_step_cases) (auto simp: om.get_put split: swap_target.splits if_splits)
  from step have mono: "get (snd s) k \<noteq> None \<Longrightarrow> get (snd e) k \<noteq> None" for k
    by (elim swap_asset_step_cases) (simp_all add: om.get_put split: swap_target.splits)
  from step have sent: "fst s \<noteq> [] \<Longrightarrow> fst e \<noteq> []"
    by (elim swap_asset_step_cases) simp_all
  have here: "fst e \<noteq> [] \<and> get (snd e) (al_to_string (fcd_assets deps) y) \<noteq> None"
    if "get bridges (al_to_string (fcd_assets deps) (aw_info a)) = Some y"
      and "al_query_pool (fcd_assets deps) (aw_info a) (env_contract env) \<noteq> Ok 0" for y
    using step that by (elim swap_asset_step_cases) (auto elim!: fees_swap_cases simp: om.get_put)
  from Cons.IH [OF rest keys] have
    ih: "\<forall>k v. get (snd s') k = Some v \<longrightarrow> al_to_string (fcd_assets deps) v = k" "\<forall>k. get (snd e) k \<noteq> None \<longrightarrow> get (snd s') k \<noteq> None"
      "fst e \<noteq> [] \<longrightarrow> fst s' \<noteq> []"
      "\<forall>a y. a \<in> set as \<longrightarrow> get bridges (al_to_string (fcd_assets deps) (aw_info a)) = Some y \<longrightarrow>
         al_query_pool (fcd_assets deps) (aw_info a) (env_contract env) \<noteq> Ok 0 \<longrightarrow> fst s' \<noteq> [] \<and> get (snd s') (al_to_string (fcd_assets deps) y) \<noteq> None"
    by blast+
  show ?case
  proof (intro conjI ih(1))
    show "\<forall>k. get (snd s) k \<noteq> None \<longrightarrow> get (snd s') k \<noteq> None" using ih(2) mono by blast
    show "fst s \<noteq> [] \<longrightarrow> fst s' \<noteq> []" using ih(3) sent by blast
    show "\<forall>b y. b \<in> set (a # as) \<longrightarrow> get bridges (al_to_string (fcd_assets deps) (aw_info b)) = Some y \<longrightarrow>
        al_query_pool (fcd_assets deps) (aw_info b) (env_contract env) \<noteq> Ok 0 \<longrightarrow> fst s' \<noteq> [] \<and> get (snd s') (al_to_string (fcd_assets deps) y) \<noteq> None"
      using ih(2-4) here by (metis set_ConsD)
  qed
qed

lemma swap_assets_bridges:
  assumes "swap_assets deps env config bridges as = Ok (msgs, bs)" and "a \<in> set as"
    and "get bridges (al_to_string (fcd_assets deps) (aw_info a)) = Some y"
    and "al_query_pool (fcd_assets deps) (aw_info a) (env_contract env) \<noteq> Ok 0"
  obtains y' where "msgs \<noteq> []" and "y' \<in> set bs" and "al_to_string (fcd_assets deps) y' = al_to_string (fcd_assets deps) y"
proof -
  from assms(1) obtain bm where loop: "try_fold (swap_asset_step deps env config bridges) ([], []) as = Ok (msgs, bm)"
    and bs: "bs = map snd (entries bm)" by (auto simp: swap_assets_def ok_simps)
  have empty: "get [] k = Some v \<Longrightarrow> al_to_string (fcd_assets deps) v = k" for k and v :: asset_info by (simp add: get_def)
  note l = swap_loop_bridges [OF loop, unfolded fst_conv snd_conv, OF empty]
  from l assms(2-4) have "msgs \<noteq> []" and "get bm (al_to_string (fcd_assets deps) y) \<noteq> None" by blast+
  then obtain y' where y': "get bm (al_to_string (fcd_assets deps) y) = Some y'" by auto
  from l y' have "al_to_string (fcd_assets deps) y' = al_to_string (fcd_assets deps) y" by blast
  moreover from get_entry [OF y'] bs have "y' \<in> set bs" by force
  ultimately show thesis using \<open>msgs \<noteq> []\<close> that by blast
qed

lemma bridge_message_sends:
  assumes "fees_execute deps env info (FeesSwapBridgeAssets xs d) st = Ok (st', r)" and "x \<in> set xs"
    and "get (fx_bridges st) (al_to_string (fcd_assets deps) x) = Some y" and "al_query_pool (fcd_assets deps) x (env_contract env) \<noteq> Ok 0"
  obtains bs y' where "st' = st" and "PlainMsg (WasmExecute (env_contract env) (ToFees (FeesSwapBridgeAssets bs (d + 1))) []) \<in> set (resp_msgs r)"
    and "y' \<in> set bs" and "al_to_string (fcd_assets deps) y' = al_to_string (fcd_assets deps) y"
proof -
  have "xs \<noteq> []" using assms(2) by auto
  with assms(1) obtain config msgs bs messages where
      swaps: "swap_assets deps env config (fx_bridges st) (map (\<lambda>a. \<lparr>aw_info = a, aw_limit = None\<rparr>) xs) = Ok (msgs, bs)"
      and m: "(if bs = [] then Ok msgs else and_then (u64_add d 1) (\<lambda>d. Ok (msgs @ [build_swap_bridge_msg env bs d]))) =
        (Ok messages :: (_, fees_error) result)"
      and r: "resp_msgs r = map PlainMsg messages" and st: "st' = st"
    unfolding fees_execute.simps swap_bridge_assets_def by (auto simp: ok_simps guard_Ok simp del: if_split)
  from m r have sent: "bs \<noteq> [] \<Longrightarrow> PlainMsg (WasmExecute (env_contract env) (ToFees (FeesSwapBridgeAssets bs (d + 1))) []) \<in> set (resp_msgs r)"
    by (auto simp: ok_simps build_swap_bridge_msg_def)
  from swap_assets_bridges [OF swaps, of "\<lparr>aw_info = x, aw_limit = None\<rparr>" y] assms(2-4) obtain y' where
    "y' \<in> set bs" "al_to_string (fcd_assets deps) y' = al_to_string (fcd_assets deps) y" by auto
  with sent st that show thesis by (metis empty_iff list.set(1))
qed

lemma collection_sends:
  assumes "fees_execute deps env info (FeesCollect as) st = Ok (st', r)" and "fx_config st = Some config" and "a \<in> set as"
    and "aw_info a \<noteq> fe_stablecoin config" and "get (fx_bridges st) (al_to_string (fcd_assets deps) (aw_info a)) = Some y"
    and "al_query_pool (fcd_assets deps) (aw_info a) (env_contract env) \<noteq> Ok 0"
  obtains bs y' where "st' = st" and "PlainMsg (WasmExecute (env_contract env) (ToFees (FeesSwapBridgeAssets bs 0)) []) \<in> set (resp_msgs r)"
    and "y' \<in> set bs" and "al_to_string (fcd_assets deps) y' = al_to_string (fcd_assets deps) y"
proof -
  from assms(1,2) obtain msgs bs where
      swaps: "swap_assets deps env config (fx_bridges st) (filter (\<lambda>a. aw_info a \<noteq> fe_stablecoin config) as) = Ok (msgs, bs)"
      and sent: "msgs \<noteq> [] \<Longrightarrow> bs \<noteq> [] \<Longrightarrow> PlainMsg (WasmExecute (env_contract env) (ToFees (FeesSwapBridgeAssets bs 0)) []) \<in> set (resp_msgs r)"
      and st: "st' = st"
    by (auto simp: fees_collect_def ok_simps guard_Ok build_swap_bridge_msg_def BRIDGES_INITIAL_DEPTH_def simp del: if_split)
  from swap_assets_bridges [OF swaps, of a y] assms(3-6) obtain y' where
    "msgs \<noteq> []" "y' \<in> set bs" "al_to_string (fcd_assets deps) y' = al_to_string (fcd_assets deps) y" by auto
  with sent st that show thesis by (metis empty_iff list.set(1))
qed

text \<open>
  C29: Bridges that pass the validation can still make every collection fail. When two assets are registered as bridges of each other (which
  is accepted when both have a pair with the stablecoin), swapping one of them over its bridge never completes: each step swaps back what the
  step before it has bought, and the message at depth three is refused. So every collection of such an asset, alone or with others, with a limit
  or without, fails as long as the contract holds some of it. Of the answers of the other contracts nothing is assumed but that the collected
  asset is held when the collection starts, and that those of the two a bridge message names, which have just been bought, are held when it runs; assets keep their names throughout.
\<close>

theorem mutual_bridges_never_complete:
  assumes "get (fx_bridges st) (names a) = Some b" and "get (fx_bridges st) (names b) = Some a"
    and "fx_config st = Some config" and "a \<noteq> fe_stablecoin config"
    and "\<And>m deps. world m deps \<Longrightarrow> al_to_string (fcd_assets deps) = names"
    and "\<And>as deps. world (FeesCollect as) deps \<Longrightarrow> a \<in> aw_info ` set as \<Longrightarrow> al_query_pool (fcd_assets deps) a c \<noteq> Ok 0"
    and "\<And>xs d deps x. world (FeesSwapBridgeAssets xs d) deps \<Longrightarrow> x \<in> set xs \<Longrightarrow> names x = names a \<or> names x = names b \<Longrightarrow>
      al_query_pool (fcd_assets deps) x c \<noteq> Ok 0"
  shows "(a \<in> set xs \<or> b \<in> set xs \<longrightarrow> \<not> completes world c st (FeesSwapBridgeAssets xs d)) \<and>
    (a \<in> aw_info ` set as \<longrightarrow> \<not> completes world c st (FeesCollect as))"
proof -
  have "completes world c s m \<Longrightarrow> s = st \<Longrightarrow> m = FeesSwapBridgeAssets xs d \<Longrightarrow> x \<in> set xs \<Longrightarrow> names x \<noteq> names a \<and> names x \<noteq> names b" for s m xs d x
  proof (induction arbitrary: xs d x rule: completes.induct)
    case (run m deps env info s s' r)
    note world = run.hyps(1) [unfolded run.prems(2)] and ex = run.hyps(3) [unfolded run.prems(1,2)]
    have names: "al_to_string (fcd_assets deps) = names" using run.hyps(1) assms(5) by blast
    have False if x: "names x = names w" "get (fx_bridges st) (names w) = Some y" and y: "w \<in> {a, b}" "y \<in> {a, b}" for w y
    proof -
      have nz: "al_query_pool (fcd_assets deps) x (env_contract env) \<noteq> Ok 0"
        using assms(7) [OF world run.prems(3)] x y run.hyps(2) by blast
      have bridge: "get (fx_bridges st) (al_to_string (fcd_assets deps) x) = Some y" using x by (simp add: names)
      from bridge_message_sends [OF ex run.prems(3) bridge nz] obtain bs y' where "s' = st"
          "PlainMsg (WasmExecute c (ToFees (FeesSwapBridgeAssets bs (d + 1))) []) \<in> set (resp_msgs r)" "y' \<in> set bs" "names y' = names y"
        using names run.hyps(2) by metis
      with run.IH [of "FeesSwapBridgeAssets bs (d + 1)" bs "d + 1" y'] y(2) show False by auto
    qed
    with assms(1,2) show ?case by blast
  qed
  then have swaps: "\<not> completes world c st (FeesSwapBridgeAssets xs d)" if "x \<in> set xs" and "names x = names a \<or> names x = names b" for xs d x
    using that by blast
  have "\<not> completes world c st (FeesCollect as)" if "a \<in> aw_info ` set as"
  proof
    from that obtain al where al: "al \<in> set as" "aw_info al = a" by auto
    assume "completes world c st (FeesCollect as)"
    then obtain deps env info st' r where w: "world (FeesCollect as) deps" "env_contract env = c"
        and ex: "fees_execute deps env info (FeesCollect as) st = Ok (st', r)"
        and onward: "\<And>m'. PlainMsg (WasmExecute c (ToFees m') []) \<in> set (resp_msgs r) \<Longrightarrow> completes world c st' m'"
      by (cases rule: completes.cases) auto
    have names: "al_to_string (fcd_assets deps) = names" using w(1) assms(5) by blast
    from collection_sends [OF ex assms(3) al(1), of b] al assms(1,4) assms(6) [OF w(1) that] w(2) obtain bs y' where "st' = st"
        "PlainMsg (WasmExecute c (ToFees (FeesSwapBridgeAssets bs 0)) []) \<in> set (resp_msgs r)" "y' \<in> set bs" "names y' = names b"
      unfolding names by metis
    with onward [of "FeesSwapBridgeAssets bs 0"] swaps [of y' bs 0] show False by simp
  qed
  with swaps show ?thesis by blast
qed

text \<open>A world in which the contract holds exactly the assets that a message names: what a swap offers is gone when the next message runs.\<close>

fun names_asset :: "fees_execute_msg \<Rightarrow> asset_info \<Rightarrow> bool" where
  "names_asset (FeesCollect as) x = list_ex (\<lambda>a. aw_info a = x) as"
| "names_asset (FeesSwapBridgeAssets xs d) x = (x \<in> set xs)"
| "names_asset _ x = False"

definition bought_world :: "fees_execute_msg \<Rightarrow> fees_deps" where
  "bought_world m = fees_world\<lparr>fcd_assets := fees_lib\<lparr>al_query_pool := \<lambda>x _. Ok (if names_asset m x then 1000 else 0)\<rparr>\<rparr>"

abbreviation "mutual_state \<equiv> fees_sample [(''a'', ''b''), (''b'', ''a'')]"

lemma bought_world_simps:
  "al_to_string (fcd_assets (bought_world m)) = al_to_string fees_lib"
  "al_query_pool (fcd_assets (bought_world m)) x c = Ok 0 \<longleftrightarrow> \<not> names_asset m x"
  by (simp_all add: bought_world_def)

theorem mutual_bridges_never_complete_witness:
  "(\<exists>r. fees_execute fees_world fees_env by_operator (FeesUpdateBridges (Some mutual) None) (fees_sample []) = Ok (mutual_state, r)) \<and>
   is_ok (fees_execute (bought_world (FeesCollect [\<lparr>aw_info = NativeToken ''a'', aw_limit = None\<rparr>])) fees_env by_operator
     (FeesCollect [\<lparr>aw_info = NativeToken ''a'', aw_limit = None\<rparr>]) mutual_state) \<and>
   \<not> completes (\<lambda>m deps. deps = bought_world m) ''fees'' mutual_state (FeesCollect [\<lparr>aw_info = NativeToken ''a'', aw_limit = None\<rparr>])"
proof -
  have "\<not> completes (\<lambda>m deps. deps = bought_world m) ''fees'' mutual_state (FeesCollect [\<lparr>aw_info = NativeToken ''a'', aw_limit = None\<rparr>])"
    by (rule mutual_bridges_never_complete [of mutual_state "al_to_string fees_lib" "NativeToken ''a''" "NativeToken ''b''" fees_sample_config
          "\<lambda>m deps. deps = bought_world m" "''fees''" _ _ "[\<lparr>aw_info = NativeToken ''a'', aw_limit = None\<rparr>]", THEN conjunct2, THEN mp])
      (auto simp: bought_world_simps list_ex_iff, simp_all add: fees_sample_def get_def fees_lib_def fees_sample_config_def)
  moreover have "is_ok (fees_execute (bought_world (FeesCollect [\<lparr>aw_info = NativeToken ''a'', aw_limit = None\<rparr>])) fees_env by_operator
     (FeesCollect [\<lparr>aw_info = NativeToken ''a'', aw_limit = None\<rparr>]) mutual_state)" by code_simp
  ultimately show ?thesis using mutual_accepted by blast
qed

end
