(* ===== verification/VaultState.thy ===== *)
theory VaultState
  imports Swaps
begin

text \<open>
  The arbitrage vault (\<open>contracts/arb-vault\<close>): messages, state and the adapters to the liquid-staking hubs whose tokens it buys and
  unbonds (\<open>lsds/\<close>). An adapter caches the answers to its queries for one message; the answers do not change during a message, so the
  model asks again.
\<close>

section \<open>Errors\<close>

text \<open>An error that carries the text of another error carries the error itself here.\<close>

datatype vault_error =
    VaultStd std_error
  | VaultUnauthorized
  | VaultInvalidZeroAmount
  | VaultAssetMismatch
  | VaultNothingToUnbond
  | VaultNothingToWithdraw
  | VaultNotEnoughProfit
  | VaultDoNotTakeLockedBalance
  | VaultNotEnoughFundsTakeable
  | VaultAlreadyExecuting
  | VaultNotExecuting
  | VaultNoWithdrawableAsset
  | VaultNotEnoughAssetsInThePool
  | VaultAssetUnknown
  | VaultCannotFindInstantiateEvent
  | VaultCannotFindContractAddress
  | VaultInvalidReplyId u64
  | VaultUnbondTimeTooHigh
  | VaultAdapterError string string std_error
  | VaultAdapterErrorNotWrapped string string
  | VaultCallbackOnlyCalledByContract
  | VaultCouldNotLoadTotalAssets vault_error
  | VaultCalculation string vault_error
  | VaultExpectingLPToken string
  | VaultNotSupportedProfitStep decimal
  | VaultOwnerCantBeSame
  | VaultExpiryTooLong
  | VaultProposalNotFound
  | VaultProposalExpired

abbreviation vstd :: "('a, std_error) result \<Rightarrow> ('a, vault_error) result" where
  "vstd \<equiv> map_err VaultStd"

definition adapter_error :: "string \<Rightarrow> string \<Rightarrow> ('a, std_error) result \<Rightarrow> ('a, vault_error) result" where
  "adapter_error adapter msg = map_err (VaultAdapterError adapter msg)"

section \<open>Configuration and state\<close>

datatype lsd_type =
    Eris addr addr
  | Backbone addr addr
  | Stader addr addr
  | Prism addr addr

record lsd_config =
  lsd_disabled :: bool
  lsd_kind :: lsd_type

datatype utilization_method = UtilizationSteps "(decimal \<times> decimal) list"

record vault_config =
  va_utoken :: string
  va_utilization :: utilization_method
  va_unbond_time_s :: u64
  va_lp_addr :: addr
  va_lsds :: "lsd_config list"

record vault_fees =
  vf_contract :: addr
  vf_performance :: decimal
  vf_withdraw :: decimal
  vf_immediate :: decimal

record balance_checkpoint =
  bc_vault_available :: u128
  bc_tvl_utoken :: u128

record unbond_history =
  uh_start_time :: u64
  uh_release_time :: u64
  uh_amount_asset :: u128

record vault_proposal =
  vp_owner :: addr
  vp_ttl :: u64

record exchange_point =
  xh_rate :: decimal
  xh_time :: u64

record vault_state =
  vs_config :: "vault_config option"
  vs_fee_config :: "vault_fees option"
  vs_owner :: "addr option"
  vs_proposal :: "vault_proposal option"
  vs_exchange_history :: "(u64, exchange_point) store"
  vs_unbond_history :: "(addr \<times> u64, unbond_history) store"
  vs_unbond_id :: "u64 option"
  vs_checkpoint :: "balance_checkpoint option"
  vs_locked :: "u128 option"

definition empty_vault :: vault_state where
  "empty_vault = \<lparr>vs_config = None, vs_fee_config = None, vs_owner = None, vs_proposal = None, vs_exchange_history = [],
     vs_unbond_history = [], vs_unbond_id = None, vs_checkpoint = None, vs_locked = None\<rparr>"

section \<open>Messages\<close>

record vault_instantiate_msg =
  vim_cw20_code_id :: u64
  vim_name :: string
  vim_symbol :: string
  vim_decimals :: nat
  vim_owner :: string
  vim_utoken :: string
  vim_utilization :: utilization_method
  vim_unbond_time_s :: u64
  vim_lsds :: "lsd_config list"
  vim_fee_config :: vault_fees

type_synonym binary_msg = string

record execute_sub_msg =
  es_contract_addr :: "string option"
  es_msg :: binary_msg
  es_funds_amount :: u128

datatype vault_callback_msg = AssertResult asset_info decimal

datatype vault_hook_msg = VaultUnbondHook "bool option"

datatype vault_execute_msg =
    VaultReceive "vault_hook_msg decoded cw20_receive_msg"
  | VaultProvideLiquidity asset "string option"
  | VaultWithdrawUnbonded
  | VaultWithdrawImmediate u64
  | VaultUpdateConfig "utilization_method option" "u64 option" "lsd_config list option" "vault_fees option"
  | VaultExecuteArbitrage execute_sub_msg asset_info decimal
  | VaultWithdrawLiquidity
  | VaultProposeNewOwner string u64
  | VaultDropProposal
  | VaultClaimOwnership
  | VaultCallback vault_callback_msg

text \<open>What the vault sends: to the LP token and the hubs' tokens, to the hubs, to the contract that carries out the arbitrage, to itself.\<close>

datatype lsd_hook = HubQueueUnbond | StaderQueueUndelegate | PrismUnbond

datatype vault_payload =
    VaultToken "lsd_hook token_msg"
  | HubWithdrawUnbonded
  | StaderWithdrawFunds u64
  | PrismWithdrawUnbonded
  | FlashLoan binary_msg
  | InitLpToken string string nat addr
  | ToVault vault_execute_msg

type_synonym vault_msg = "vault_payload cosmos_msg"
type_synonym vault_response = "vault_payload response"
type_synonym vault_result = "(vault_state \<times> vault_response, vault_error) result"

definition vault_callback_into_msg :: "vault_callback_msg \<Rightarrow> addr \<Rightarrow> vault_msg" where
  "vault_callback_into_msg msg contract = WasmExecute contract (ToVault (VaultCallback msg)) []"

section \<open>What the vault asks other contracts\<close>

text \<open>
  A hub of Eris or Backbone answers the requests of a wallet (batch and shares), the id of the pending batch, its exchange rate, and of an
  earlier batch whether it is reconciled, what is unclaimed and the shares. Stader answers the undelegations of a wallet, and of a batch, if it
  knows it, whether it is reconciled and its rate. Prism answers the requests, the history from a batch on, and what can be withdrawn.
\<close>

record hub_batch =
  hb_reconciled :: bool
  hb_unclaimed :: u128
  hb_total_shares :: u128

record prism_batch =
  pb_batch_id :: u64
  pb_released :: bool
  pb_withdraw_rate :: decimal

record lsd_queries =
  lq_requests :: "addr \<Rightarrow> addr \<Rightarrow> ((u64 \<times> u128) list, std_error) result"
  lq_pending_batch :: "addr \<Rightarrow> (u64, std_error) result"
  lq_previous_batch :: "addr \<Rightarrow> u64 \<Rightarrow> (hub_batch, std_error) result"
  lq_exchange_rate :: "addr \<Rightarrow> (decimal, std_error) result"
  lq_undelegations :: "addr \<Rightarrow> addr \<Rightarrow> ((u64 \<times> u128) list, std_error) result"
  lq_stader_batch :: "addr \<Rightarrow> u64 \<Rightarrow> ((bool \<times> decimal) option, std_error) result"
  lq_prism_requests :: "addr \<Rightarrow> addr \<Rightarrow> ((u64 \<times> u128) list, std_error) result"
  lq_prism_history :: "addr \<Rightarrow> u64 option \<Rightarrow> (prism_batch list, std_error) result"
  lq_prism_withdrawable :: "addr \<Rightarrow> addr \<Rightarrow> (u128, std_error) result"

record vault_deps =
  vd_addr_validate :: "string \<Rightarrow> (addr, std_error) result"
  vd_assets :: asset_lib
  vd_supply :: "addr \<Rightarrow> (u128, std_error) result"
  vd_lsds :: lsd_queries
  vd_into_msg :: "asset \<Rightarrow> addr \<Rightarrow> (vault_msg, std_error) result"

section \<open>Adapters (\<open>lsds/\<close>)\<close>

record cache_item =
  ci_token_amount :: u128
  ci_reconciled :: bool
  ci_exchange_rate :: decimal
  ci_batch_id :: u64

text \<open>\<open>eris.rs\<close> and \<open>steak.rs\<close> do the same; the name in their errors differs.\<close>

definition hub_record :: "lsd_queries \<Rightarrow> string \<Rightarrow> addr \<Rightarrow> u64 \<Rightarrow> u64 \<times> u128 \<Rightarrow> (cache_item, vault_error) result" where
  "hub_record q name hub current = (\<lambda>(batch_id, shares).
     if batch_id = current then
       and_then (adapter_error name ''query_state'' (lq_exchange_rate q hub)) (\<lambda>rate.
       Ok \<lparr>ci_token_amount = shares, ci_reconciled = False, ci_exchange_rate = rate, ci_batch_id = batch_id\<rparr>)
     else
       and_then (adapter_error name ''query_previous_batch'' (lq_previous_batch q hub batch_id)) (\<lambda>previous.
       and_then (dec_from_ratio (hb_unclaimed previous) (hb_total_shares previous)) (\<lambda>rate.
       Ok \<lparr>ci_token_amount = shares, ci_reconciled = hb_reconciled previous, ci_exchange_rate = rate, ci_batch_id = batch_id\<rparr>)))"

definition hub_records :: "lsd_queries \<Rightarrow> string \<Rightarrow> addr \<Rightarrow> addr \<Rightarrow> (cache_item list, vault_error) result" where
  "hub_records q name hub wallet =
     and_then (adapter_error name ''query_unbond_requests_by_user'' (lq_requests q hub wallet)) (\<lambda>result.
     if result = [] then Ok []
     else
       and_then (adapter_error name ''query_pending_batch'' (lq_pending_batch q hub)) (\<lambda>current.
       traverse (hub_record q name hub current) result))"

definition eris_records :: "lsd_queries \<Rightarrow> addr \<Rightarrow> addr \<Rightarrow> (cache_item list, vault_error) result" where
  "eris_records q = hub_records q ''eris''"

definition steak_records :: "lsd_queries \<Rightarrow> addr \<Rightarrow> addr \<Rightarrow> (cache_item list, vault_error) result" where
  "steak_records q = hub_records q ''steak''"

definition eris_unbond_msg :: "addr \<Rightarrow> addr \<Rightarrow> u128 \<Rightarrow> vault_msg" where
  "eris_unbond_msg hub cw20 amount = WasmExecute cw20 (VaultToken (TokenSend hub amount HubQueueUnbond)) []"

definition steak_unbond_msg :: "addr \<Rightarrow> addr \<Rightarrow> u128 \<Rightarrow> vault_msg" where
  "steak_unbond_msg hub cw20 amount = WasmExecute cw20 (VaultToken (TokenSend hub amount HubQueueUnbond)) []"

definition stader_unbond_msg :: "addr \<Rightarrow> addr \<Rightarrow> u128 \<Rightarrow> vault_msg" where
  "stader_unbond_msg hub cw20 amount = WasmExecute cw20 (VaultToken (TokenSend hub amount StaderQueueUndelegate)) []"

definition prism_unbond_msg :: "addr \<Rightarrow> addr \<Rightarrow> u128 \<Rightarrow> vault_msg" where
  "prism_unbond_msg hub cw20 amount = WasmExecute cw20 (VaultToken (TokenSend hub amount PrismUnbond)) []"

definition stader_record :: "lsd_queries \<Rightarrow> addr \<Rightarrow> u64 \<times> u128 \<Rightarrow> (cache_item, vault_error) result" where
  "stader_record q hub = (\<lambda>(batch_id, token_amount).
     and_then (adapter_error ''stader'' ''query_batch_undelegation'' (lq_stader_batch q hub batch_id)) (\<lambda>info.
     and_then (ok_or (VaultAdapterErrorNotWrapped ''stader'' ''expected batch'') info) (\<lambda>(reconciled, rate).
     Ok \<lparr>ci_token_amount = token_amount, ci_reconciled = reconciled, ci_exchange_rate = rate, ci_batch_id = batch_id\<rparr>)))"

definition stader_records :: "lsd_queries \<Rightarrow> addr \<Rightarrow> addr \<Rightarrow> (cache_item list, vault_error) result" where
  "stader_records q hub wallet =
     and_then (adapter_error ''stader'' ''query_user_undelegation_records'' (lq_undelegations q hub wallet)) (\<lambda>records.
     traverse (stader_record q hub) records)"

text \<open>The value of the records that are, or are not, reconciled; the sum panics when it overflows.\<close>

definition records_value :: "bool \<Rightarrow> cache_item list \<Rightarrow> (u128, vault_error) result" where
  "records_value reconciled items =
     and_then (traverse (\<lambda>b. multiply_ratio (ci_token_amount b) (ci_exchange_rate b) DEC_ONE) (filter (\<lambda>b. ci_reconciled b = reconciled) items)) u128_sum"

definition prism_step :: "lsd_queries \<Rightarrow> addr \<Rightarrow> u128 \<Rightarrow> u64 \<times> u128 \<Rightarrow> (u128, vault_error) result" where
  "prism_step q hub unbonding = (\<lambda>(batch_id, amount).
     and_then (adapter_error ''prism'' ''query_all_history'' (lq_prism_history q hub (if batch_id = 0 then None else Some (batch_id - 1)))) (\<lambda>history.
     and_then (case history of
         [] \<Rightarrow> and_then (adapter_error ''prism'' ''query_state'' (lq_exchange_rate q hub)) (\<lambda>rate. Ok (False, rate))
       | batch # rest \<Rightarrow>
           if pb_batch_id batch = batch_id then Ok (pb_released batch, pb_withdraw_rate batch)
           else Err (VaultAdapterErrorNotWrapped ''prism'' ''wrong_id'')) (\<lambda>(released, rate).
     if released then Ok unbonding
     else and_then (multiply_ratio amount rate DEC_ONE) (\<lambda>x. u128_add unbonding x))))"

definition prism_unbonding :: "lsd_queries \<Rightarrow> addr \<Rightarrow> addr \<Rightarrow> (u128, vault_error) result" where
  "prism_unbonding q hub wallet =
     and_then (adapter_error ''prism'' ''query_unbond_requests'' (lq_prism_requests q hub wallet)) (\<lambda>requests.
     try_fold (prism_step q hub) 0 requests)"

fun lsd_name :: "lsd_type \<Rightarrow> string" where
  "lsd_name (Eris hub cw20) = ''eris''"
| "lsd_name (Backbone hub cw20) = ''steak''"
| "lsd_name (Stader hub cw20) = ''stader''"
| "lsd_name (Prism hub cw20) = ''prism''"

fun lsd_token :: "lsd_type \<Rightarrow> addr" where
  "lsd_token (Eris hub cw20) = cw20"
| "lsd_token (Backbone hub cw20) = cw20"
| "lsd_token (Stader hub cw20) = cw20"
| "lsd_token (Prism hub cw20) = cw20"

definition lsd_asset :: "lsd_type \<Rightarrow> asset_info" where "lsd_asset l = TokenAsset (lsd_token l)"

fun lsd_unbond :: "lsd_type \<Rightarrow> u128 \<Rightarrow> vault_msg list" where
  "lsd_unbond (Eris hub cw20) amount = [eris_unbond_msg hub cw20 amount]"
| "lsd_unbond (Backbone hub cw20) amount = [steak_unbond_msg hub cw20 amount]"
| "lsd_unbond (Stader hub cw20) amount = [stader_unbond_msg hub cw20 amount]"
| "lsd_unbond (Prism hub cw20) amount = [prism_unbond_msg hub cw20 amount]"

definition eris_unbonding :: "lsd_queries \<Rightarrow> addr \<Rightarrow> addr \<Rightarrow> (u128, vault_error) result" where
  "eris_unbonding q hub wallet = and_then (eris_records q hub wallet) (records_value False)"

definition eris_withdrawable :: "lsd_queries \<Rightarrow> addr \<Rightarrow> addr \<Rightarrow> (u128, vault_error) result" where
  "eris_withdrawable q hub wallet = and_then (eris_records q hub wallet) (records_value True)"

definition steak_unbonding :: "lsd_queries \<Rightarrow> addr \<Rightarrow> addr \<Rightarrow> (u128, vault_error) result" where
  "steak_unbonding q hub wallet = and_then (steak_records q hub wallet) (records_value False)"

definition steak_withdrawable :: "lsd_queries \<Rightarrow> addr \<Rightarrow> addr \<Rightarrow> (u128, vault_error) result" where
  "steak_withdrawable q hub wallet = and_then (steak_records q hub wallet) (records_value True)"

definition stader_unbonding :: "lsd_queries \<Rightarrow> addr \<Rightarrow> addr \<Rightarrow> (u128, vault_error) result" where
  "stader_unbonding q hub wallet = and_then (stader_records q hub wallet) (records_value False)"

definition stader_withdrawable :: "lsd_queries \<Rightarrow> addr \<Rightarrow> addr \<Rightarrow> (u128, vault_error) result" where
  "stader_withdrawable q hub wallet = and_then (stader_records q hub wallet) (records_value True)"

definition stader_withdraw :: "lsd_queries \<Rightarrow> addr \<Rightarrow> addr \<Rightarrow> (vault_msg list, vault_error) result" where
  "stader_withdraw q hub wallet =
     and_then (stader_records q hub wallet) (\<lambda>items.
     Ok (map (\<lambda>b. WasmExecute hub (StaderWithdrawFunds (ci_batch_id b)) []) (filter ci_reconciled items)))"

fun lsd_unbonding :: "lsd_queries \<Rightarrow> addr \<Rightarrow> lsd_type \<Rightarrow> (u128, vault_error) result" where
  "lsd_unbonding q wallet (Eris hub cw20) = eris_unbonding q hub wallet"
| "lsd_unbonding q wallet (Backbone hub cw20) = steak_unbonding q hub wallet"
| "lsd_unbonding q wallet (Stader hub cw20) = stader_unbonding q hub wallet"
| "lsd_unbonding q wallet (Prism hub cw20) = prism_unbonding q hub wallet"

fun lsd_withdrawable :: "lsd_queries \<Rightarrow> addr \<Rightarrow> lsd_type \<Rightarrow> (u128, vault_error) result" where
  "lsd_withdrawable q wallet (Eris hub cw20) = eris_withdrawable q hub wallet"
| "lsd_withdrawable q wallet (Backbone hub cw20) = steak_withdrawable q hub wallet"
| "lsd_withdrawable q wallet (Stader hub cw20) = stader_withdrawable q hub wallet"
| "lsd_withdrawable q wallet (Prism hub cw20) = adapter_error ''prism'' ''query_withdrawable_unbonded'' (lq_prism_withdrawable q hub wallet)"

fun lsd_withdraw :: "lsd_queries \<Rightarrow> addr \<Rightarrow> lsd_type \<Rightarrow> (vault_msg list, vault_error) result" where
  "lsd_withdraw q wallet (Eris hub cw20) = Ok [WasmExecute hub HubWithdrawUnbonded []]"
| "lsd_withdraw q wallet (Backbone hub cw20) = Ok [WasmExecute hub HubWithdrawUnbonded []]"
| "lsd_withdraw q wallet (Stader hub cw20) = stader_withdraw q hub wallet"
| "lsd_withdraw q wallet (Prism hub cw20) = Ok [WasmExecute hub PrismWithdrawUnbonded []]"

fun lsd_factor :: "lsd_queries \<Rightarrow> lsd_type \<Rightarrow> (decimal, vault_error) result" where
  "lsd_factor q (Eris hub cw20) = adapter_error ''eris'' ''query_state'' (lq_exchange_rate q hub)"
| "lsd_factor q (Backbone hub cw20) = adapter_error ''steak'' ''query_state'' (lq_exchange_rate q hub)"
| "lsd_factor q (Stader hub cw20) = adapter_error ''stader'' ''query_state'' (lq_exchange_rate q hub)"
| "lsd_factor q (Prism hub cw20) = adapter_error ''prism'' ''query_state'' (lq_exchange_rate q hub)"

section \<open>The group of adapters (\<open>lsdgroup.rs\<close>, \<open>config_ex.rs\<close>)\<close>

definition lsd_group :: "vault_config \<Rightarrow> lsd_type list" where "lsd_group config = map lsd_kind (va_lsds config)"

definition lsd_get :: "lsd_type list \<Rightarrow> asset_info \<Rightarrow> (lsd_type, vault_error) result" where
  "lsd_get ls a = ok_or VaultAssetUnknown (find (\<lambda>l. lsd_asset l = a) ls)"

text \<open>The sum over the adapters stops at the first error.\<close>

definition sum_over :: "(lsd_type \<Rightarrow> (u128, vault_error) result) \<Rightarrow> lsd_type list \<Rightarrow> (u128, vault_error) result" where
  "sum_over f = try_fold (\<lambda>acc l. and_then (f l) (\<lambda>x. u128_add acc x)) 0"

definition get_unbonding :: "lsd_queries \<Rightarrow> addr \<Rightarrow> lsd_type list \<Rightarrow> (u128, vault_error) result" where
  "get_unbonding q wallet = sum_over (lsd_unbonding q wallet)"

definition get_withdrawable :: "lsd_queries \<Rightarrow> addr \<Rightarrow> lsd_type list \<Rightarrow> (u128, vault_error) result" where
  "get_withdrawable q wallet = sum_over (lsd_withdrawable q wallet)"

record claim_balance =
  cb_withdrawable :: u128
  cb_unbonding :: u128

definition get_balances :: "lsd_queries \<Rightarrow> addr \<Rightarrow> lsd_type list \<Rightarrow> (claim_balance list, vault_error) result" where
  "get_balances q wallet = traverse (\<lambda>l.
     and_then (lsd_withdrawable q wallet l) (\<lambda>w.
     and_then (lsd_unbonding q wallet l) (\<lambda>u.
     Ok \<lparr>cb_withdrawable = w, cb_unbonding = u\<rparr>)))"

definition withdraw_claim :: "lsd_queries \<Rightarrow> addr \<Rightarrow> vault_msg list \<times> attribute list \<Rightarrow> lsd_type \<Rightarrow> (vault_msg list \<times> attribute list, vault_error) result" where
  "withdraw_claim q wallet = (\<lambda>(messages, attributes) l.
     and_then (lsd_withdrawable q wallet l) (\<lambda>claimable.
     if claimable = 0 then Ok (messages, attributes)
     else and_then (lsd_withdraw q wallet l) (\<lambda>msgs.
       Ok (messages @ msgs, attributes @ [(''type'', lsd_name l), (''withdraw_amount'', nat_str claimable)]))))"

definition get_withdraw_msgs :: "lsd_queries \<Rightarrow> addr \<Rightarrow> lsd_type list \<Rightarrow> (vault_msg list \<times> attribute list, vault_error) result" where
  "get_withdraw_msgs q wallet = try_fold (withdraw_claim q wallet) ([], [(''action'', ''arb/execute_withdraw_liquidity'')])"

definition query_utoken_amount :: "vault_deps \<Rightarrow> env \<Rightarrow> vault_config \<Rightarrow> (u128, std_error) result" where
  "query_utoken_amount deps env config = al_query_pool (vd_assets deps) (NativeToken (va_utoken config)) (env_contract env)"

definition query_lp_supply :: "vault_deps \<Rightarrow> vault_config \<Rightarrow> (u128, std_error) result" where
  "query_lp_supply deps config = vd_supply deps (va_lp_addr config)"

record balances =
  ba_tvl_utoken :: u128
  ba_vault_total :: u128
  ba_vault_available :: u128
  ba_vault_takeable :: u128
  ba_locked :: u128
  ba_unbonding :: u128
  ba_withdrawable :: u128

text \<open>\<open>checked_sub\<close> with \<open>unwrap_or_default\<close> is the difference cut off at zero.\<close>

definition get_total_assets :: "vault_deps \<Rightarrow> env \<Rightarrow> vault_config \<Rightarrow> vault_state \<Rightarrow> (balances, vault_error) result" where
  "get_total_assets deps env config st =
     and_then (vstd (query_utoken_amount deps env config)) (\<lambda>available.
     and_then (vstd (load_item (vs_locked st))) (\<lambda>locked.
     and_then (get_unbonding (vd_lsds deps) (env_contract env) (lsd_group config)) (\<lambda>unbonding.
     and_then (get_withdrawable (vd_lsds deps) (env_contract env) (lsd_group config)) (\<lambda>withdrawable.
     and_then (vstd (checked_add available unbonding)) (\<lambda>x.
     and_then (vstd (checked_add x withdrawable)) (\<lambda>tvl.
     Ok \<lparr>ba_tvl_utoken = tvl, ba_vault_total = tvl - locked, ba_vault_available = available, ba_vault_takeable = available - locked,
       ba_locked = locked, ba_unbonding = unbonding, ba_withdrawable = withdrawable\<rparr>))))))"

definition get_total_assets_err :: "vault_deps \<Rightarrow> env \<Rightarrow> vault_config \<Rightarrow> vault_state \<Rightarrow> (balances, vault_error) result" where
  "get_total_assets_err deps env config st = map_err VaultCouldNotLoadTotalAssets (get_total_assets deps env config st)"

section \<open>Utilisation (\<open>balances_ex.rs\<close>, \<open>asserts.rs\<close>)\<close>

definition max_utilization_for_profit :: "vault_config \<Rightarrow> decimal \<Rightarrow> (decimal, vault_error) result" where
  "max_utilization_for_profit config profit =
     (case va_utilization config of UtilizationSteps steps \<Rightarrow>
        and_then (ok_or (VaultNotSupportedProfitStep profit) (find (\<lambda>s. fst s = profit) steps)) (\<lambda>s. Ok (snd s)))"

definition calc_vault_takeable :: "decimal \<Rightarrow> u128 \<Rightarrow> u128 \<Rightarrow> (u128, vault_error) result" where
  "calc_vault_takeable max_utilization vault_total vault_takeable =
     and_then (multiply_ratio vault_total max_utilization DEC_ONE) (\<lambda>part.
     and_then (vstd (checked_add part vault_takeable)) (\<lambda>x. Ok (x - vault_total)))"

definition calc_all_takeable_steps :: "vault_config \<Rightarrow> balances \<Rightarrow> ((decimal \<times> u128) list, vault_error) result" where
  "calc_all_takeable_steps config b =
     (case va_utilization config of UtilizationSteps steps \<Rightarrow>
        traverse (\<lambda>s. and_then (calc_vault_takeable (snd s) (ba_vault_total b) (ba_vault_takeable b)) (\<lambda>t. Ok (fst s, t))) steps)"

definition calc_takeable_for_profit :: "vault_config \<Rightarrow> balances \<Rightarrow> decimal \<Rightarrow> (u128, vault_error) result" where
  "calc_takeable_for_profit config b profit =
     and_then (max_utilization_for_profit config profit) (\<lambda>max_utilization.
     calc_vault_takeable max_utilization (ba_vault_total b) (ba_vault_takeable b))"

definition assert_max_amount :: "vault_config \<Rightarrow> balances \<Rightarrow> decimal \<Rightarrow> u128 \<Rightarrow> (unit, vault_error) result" where
  "assert_max_amount config b wanted_profit wanted_amount =
     and_then (calc_takeable_for_profit config b wanted_profit) (\<lambda>takeable.
     if takeable < wanted_amount then Err VaultNotEnoughFundsTakeable else Ok ())"

definition MIN_PROFIT :: decimal where "MIN_PROFIT = 5000000000000000"

definition assert_min_profit :: "decimal \<Rightarrow> (unit, vault_error) result" where
  "assert_min_profit wanted_profit = (if wanted_profit < MIN_PROFIT then Err VaultNotEnoughProfit else Ok ())"

section \<open>Fees and shares (\<open>helpers.rs\<close>, \<open>state.rs\<close>)\<close>

text \<open>The part of the pool fee that is left: one at the start of the unbonding, zero from its end on.\<close>

definition pool_fee_factor :: "u64 \<Rightarrow> unbond_history \<Rightarrow> (decimal, 'e) result" where
  "pool_fee_factor now h =
     and_then (u64_sub now (uh_start_time h)) (\<lambda>passed.
     and_then (u64_sub (uh_release_time h) (uh_start_time h)) (\<lambda>period.
     and_then (dec_from_ratio passed period) (\<lambda>progress.
     Ok (DEC_ONE - min progress DEC_ONE))))"

definition calc_fees :: "vault_fees \<Rightarrow> u128 \<Rightarrow> decimal \<Rightarrow> (u128 \<times> u128, 'e) result" where
  "calc_fees fee withdraw_amount factor =
     and_then (multiply_ratio withdraw_amount (vf_withdraw fee) DEC_ONE) (\<lambda>protocol_fee.
     and_then (bounded U128_MAX (factor * vf_immediate fee div DEC_ONE)) (\<lambda>f.
     and_then (multiply_ratio withdraw_amount f DEC_ONE) (\<lambda>pool_fee.
     Ok (protocol_fee, pool_fee))))"

definition get_share_from_deposit :: "vault_deps \<Rightarrow> vault_config \<Rightarrow> u128 \<Rightarrow> u128 \<Rightarrow> (u128, std_error) result" where
  "get_share_from_deposit deps config total_utoken deposit_amount =
     and_then (query_lp_supply deps config) (\<lambda>supply.
     if supply = 0 then Ok deposit_amount else multiply_ratio deposit_amount supply total_utoken)"

definition vault_assert_owner :: "vault_state \<Rightarrow> addr \<Rightarrow> (addr, vault_error) result" where
  "vault_assert_owner st sender =
     and_then (vstd (load_item (vs_owner st))) (\<lambda>owner. if sender = owner then Ok owner else Err VaultUnauthorized)"

definition assert_not_nested :: "vault_state \<Rightarrow> (unit, vault_error) result" where
  "assert_not_nested st = (case vs_checkpoint st of Some c \<Rightarrow> Err VaultAlreadyExecuting | None \<Rightarrow> Ok ())"

definition assert_is_nested :: "vault_state \<Rightarrow> (balance_checkpoint, vault_error) result" where
  "assert_is_nested st = ok_or VaultNotExecuting (vs_checkpoint st)"

definition add_to_unbond_history :: "addr \<Rightarrow> unbond_history \<Rightarrow> vault_state \<Rightarrow> (vault_state, vault_error) result" where
  "add_to_unbond_history sender element st =
     and_then (vstd (load_item (vs_locked st))) (\<lambda>locked.
     and_then (u128_add locked (uh_amount_asset element)) (\<lambda>locked.
     and_then (vstd (load_item (vs_unbond_id st))) (\<lambda>unbond_id.
     and_then (u64_add unbond_id 1) (\<lambda>next_id.
     Ok (st\<lparr>vs_locked := Some locked, vs_unbond_history := put (sender, unbond_id) element (vs_unbond_history st),
       vs_unbond_id := Some next_id\<rparr>)))))"

end
