(* ===== verification/Vault.thy ===== *)
theory Vault
  imports VaultState
begin

text \<open>
  The operations of the arbitrage vault (\<open>domain/\<close>, \<open>contract.rs\<close>). The hand-over of the owner is written out in
  \<open>ownership.rs\<close>; the version of the contract that \<open>cw2\<close> stores is left out.
\<close>

section \<open>Instantiation (\<open>instantiate.rs\<close>)\<close>

fun validate_lsd_type :: "vault_deps \<Rightarrow> lsd_type \<Rightarrow> (lsd_type, std_error) result" where
  "validate_lsd_type deps (Eris hub cw20) =
     and_then (vd_addr_validate deps hub) (\<lambda>h. and_then (vd_addr_validate deps cw20) (\<lambda>c. Ok (Eris h c)))"
| "validate_lsd_type deps (Backbone hub cw20) =
     and_then (vd_addr_validate deps hub) (\<lambda>h. and_then (vd_addr_validate deps cw20) (\<lambda>c. Ok (Backbone h c)))"
| "validate_lsd_type deps (Stader hub cw20) =
     and_then (vd_addr_validate deps hub) (\<lambda>h. and_then (vd_addr_validate deps cw20) (\<lambda>c. Ok (Stader h c)))"
| "validate_lsd_type deps (Prism hub cw20) =
     and_then (vd_addr_validate deps hub) (\<lambda>h. and_then (vd_addr_validate deps cw20) (\<lambda>c. Ok (Prism h c)))"

definition validate_lsd :: "vault_deps \<Rightarrow> lsd_config \<Rightarrow> (lsd_config, std_error) result" where
  "validate_lsd deps l = and_then (validate_lsd_type deps (lsd_kind l)) (\<lambda>k. Ok (l\<lparr>lsd_kind := k\<rparr>))"

definition validate_fee_config :: "vault_deps \<Rightarrow> vault_fees \<Rightarrow> (vault_fees, std_error) result" where
  "validate_fee_config deps f =
     (if vf_performance f > 200000000000000000 then Err (GenericErr ''Performance fee too high'')
      else if vf_withdraw f > 50000000000000000 then Err (GenericErr ''Protocol withdraw fee too high'')
      else if vf_immediate f > 100000000000000000 then Err (GenericErr ''Immediate withdraw fee too high'')
      else and_then (vd_addr_validate deps (vf_contract f)) (\<lambda>c. Ok (f\<lparr>vf_contract := c\<rparr>)))"

definition INSTANTIATE_TOKEN_REPLY_ID :: u64 where "INSTANTIATE_TOKEN_REPLY_ID = 1"

text \<open>The fee configuration of the message is not stored.\<close>

definition vault_instantiate :: "vault_deps \<Rightarrow> env \<Rightarrow> vault_instantiate_msg \<Rightarrow> vault_state \<Rightarrow> vault_result" where
  "vault_instantiate deps env msg st =
     and_then (vstd (traverse (validate_lsd deps) (vim_lsds msg))) (\<lambda>lsds.
     and_then (vstd (vd_addr_validate deps (vim_owner msg))) (\<lambda>owner.
     Ok (st\<lparr>vs_owner := Some owner,
         vs_config := Some \<lparr>va_utoken = vim_utoken msg, va_utilization = vim_utilization msg, va_unbond_time_s = vim_unbond_time_s msg,
           va_lp_addr = [], va_lsds = lsds\<rparr>,
         vs_unbond_id := Some 0, vs_locked := Some 0\<rparr>,
       add_submessage new_response (ReplyOnSuccess
         (WasmInstantiate (Some (vim_owner msg)) (vim_cw20_code_id msg)
            (InitLpToken (vim_name msg) (vim_symbol msg) (vim_decimals msg) (env_contract env)) [] ''Eris Arb Vault LP Token'')
         INSTANTIATE_TOKEN_REPLY_ID))))"

definition register_lp_token :: "vault_deps \<Rightarrow> event list \<Rightarrow> vault_state \<Rightarrow> vault_result" where
  "register_lp_token deps events st =
     and_then (ok_or VaultCannotFindInstantiateEvent (find (\<lambda>e. ev_type e = ''instantiate'') events)) (\<lambda>event.
     and_then (ok_or VaultCannotFindContractAddress
       (find (\<lambda>a. fst a = ''_contract_address'' \<or> fst a = ''_contract_addr'') (ev_attrs event))) (\<lambda>attribute.
     and_then (vstd (vd_addr_validate deps (snd attribute))) (\<lambda>contract_addr.
     and_then (vstd (load_item (vs_config st))) (\<lambda>config.
     Ok (st\<lparr>vs_config := Some (config\<lparr>va_lp_addr := contract_addr\<rparr>)\<rparr>, new_response)))))"

definition vault_reply :: "vault_deps \<Rightarrow> reply \<Rightarrow> vault_state \<Rightarrow> vault_result" where
  "vault_reply deps r st =
     (if reply_id r = INSTANTIATE_TOKEN_REPLY_ID then and_then (vstd (unwrap_reply r)) (\<lambda>events. register_lp_token deps events st)
      else Err (VaultInvalidReplyId (reply_id r)))"

section \<open>Arbitrage (\<open>execute.rs\<close>, \<open>callback.rs\<close>)\<close>

definition execute_arbitrage :: "vault_deps \<Rightarrow> env \<Rightarrow> message_info \<Rightarrow> execute_sub_msg \<Rightarrow> asset_info \<Rightarrow> decimal \<Rightarrow> vault_state \<Rightarrow> vault_result" where
  "execute_arbitrage deps env info message result_token wanted_profit st =
     (if es_funds_amount message = 0 then Err VaultInvalidZeroAmount
      else
        and_then (vstd (load_item (vs_config st))) (\<lambda>config.
        and_then (get_total_assets_err deps env config st) (\<lambda>b.
        and_then (lsd_get (lsd_group config) result_token) (\<lambda>_.
        and_then (assert_not_nested st) (\<lambda>_.
        and_then (assert_min_profit wanted_profit) (\<lambda>_.
        and_then (assert_max_amount config b wanted_profit (es_funds_amount message)) (\<lambda>_.
        and_then (case es_contract_addr message of
            Some a \<Rightarrow> vstd (vd_addr_validate deps a) | None \<Rightarrow> Ok (info_sender info)) (\<lambda>contract_addr.
        Ok (st\<lparr>vs_checkpoint := Some \<lparr>bc_vault_available = ba_vault_available b, bc_tvl_utoken = ba_tvl_utoken b\<rparr>\<rparr>,
          add_attribute (add_message (add_message new_response
            (WasmExecute contract_addr (FlashLoan (es_msg message)) [mk_coin (es_funds_amount message) (va_utoken config)]))
            (vault_callback_into_msg (AssertResult result_token wanted_profit) (env_contract env)))
            ''action'' ''arb/execute_arbitrage'')))))))))"

text \<open>\<open>Display\<close> of a decimal: without the fraction when it is zero, else without its trailing zeros.\<close>

definition dec_str :: "decimal \<Rightarrow> string" where
  "dec_str d =
     (let whole = nat_str (d div DEC_ONE); f = d mod DEC_ONE; s = nat_str f in
      if f = 0 then whole
      else whole @ ''.'' @ rev (dropWhile (\<lambda>c. c = CHR ''0'') (rev (replicate (18 - length s) (CHR ''0'') @ s))))"

text \<open>The performance fee is paid in the native coin when what may be taken allows it, else in the liquid token, of which less is unbonded then.\<close>

definition performance_fee ::
    "vault_deps \<Rightarrow> vault_config \<Rightarrow> vault_fees \<Rightarrow> lsd_type \<Rightarrow> decimal \<Rightarrow> u128 \<Rightarrow> u128 \<Rightarrow> balances \<Rightarrow>
      (u128 \<times> vault_msg \<times> attribute, vault_error) result" where
  "performance_fee deps config fees lsd xfactor xbalance fee_amount b =
     (if ba_vault_takeable b \<ge> fee_amount then
        and_then (vstd (vd_into_msg deps (with_balance (NativeToken (va_utoken config)) fee_amount) (vf_contract fees))) (\<lambda>msg.
        Ok (xbalance, msg, (''fee_amount'', nat_str fee_amount)))
      else
        and_then (dec_from_ratio DEC_ONE xfactor) (\<lambda>inverse.
        and_then (multiply_ratio fee_amount inverse DEC_ONE) (\<lambda>fee_xamount.
        and_then (vstd (checked_sub xbalance fee_xamount)) (\<lambda>unbond_xamount.
        and_then (vstd (vd_into_msg deps (with_balance (lsd_asset lsd) fee_xamount) (vf_contract fees))) (\<lambda>msg.
        Ok (unbond_xamount, msg, (''fee_xamount'', nat_str fee_xamount)))))))"

definition calculation :: "string \<Rightarrow> ('a, std_error) result \<Rightarrow> ('a, vault_error) result" where
  "calculation what = map_err (\<lambda>e. VaultCalculation what (VaultStd e))"

definition execute_assert_result :: "vault_deps \<Rightarrow> env \<Rightarrow> asset_info \<Rightarrow> decimal \<Rightarrow> vault_state \<Rightarrow> vault_result" where
  "execute_assert_result deps env result_token wanted_profit st =
     and_then (vstd (load_item (vs_config st))) (\<lambda>config.
     and_then (assert_is_nested st) (\<lambda>old.
     and_then (get_total_assets_err deps env config st) (\<lambda>b.
     and_then (vstd (query_lp_supply deps config)) (\<lambda>total_lp_supply.
     and_then (lsd_get (lsd_group config) result_token) (\<lambda>lsd.
     and_then (vstd (al_query_pool (vd_assets deps) (lsd_asset lsd) (env_contract env))) (\<lambda>xbalance.
     and_then (lsd_factor (vd_lsds deps) lsd) (\<lambda>xfactor.
     and_then (multiply_ratio xbalance xfactor DEC_ONE) (\<lambda>xvalue.
     and_then (vstd (checked_add (ba_tvl_utoken b) xvalue)) (\<lambda>new_value.
     and_then (calculation ''used balance'' (checked_sub (bc_vault_available old) (ba_vault_available b))) (\<lambda>used_balance.
     and_then (calculation ''profit'' (checked_sub new_value (bc_tvl_utoken old))) (\<lambda>profit.
     and_then (dec_from_ratio profit used_balance) (\<lambda>profit_percentage.
     and_then (bounded U128_MAX (wanted_profit * 900000000000000000 div DEC_ONE)) (\<lambda>min_profit_percent.
     if xbalance = 0 then Err VaultNothingToUnbond
     else if profit_percentage < min_profit_percent then Err VaultNotEnoughProfit
     else if ba_vault_available b < ba_locked b then Err VaultDoNotTakeLockedBalance
     else
       and_then (vstd (load_item (vs_fee_config st))) (\<lambda>fees.
       and_then (multiply_ratio profit (vf_performance fees) DEC_ONE) (\<lambda>fee_amount.
       and_then (performance_fee deps config fees lsd xfactor xbalance fee_amount b) (\<lambda>(unbond_xamount, fee_msg, fee_attribute).
       and_then (dec_from_ratio (ba_vault_total b) total_lp_supply) (\<lambda>exchange_rate.
       Ok (st\<lparr>vs_checkpoint := None,
           vs_exchange_history := put (env_time env div 86400) \<lparr>xh_rate = exchange_rate, xh_time = env_time env\<rparr> (vs_exchange_history st)\<rparr>,
         add_attributes (add_message (add_messages new_response (lsd_unbond lsd unbond_xamount)) fee_msg)
           [(''action'', ''arb/assert_result''), (''type'', lsd_name lsd), (''old_value'', nat_str (bc_tvl_utoken old)),
            (''new_value'', nat_str new_value), (''used_balance'', nat_str used_balance), (''xbalance'', nat_str xbalance),
            (''unbond_xamount'', nat_str unbond_xamount), (''xfactor'', dec_str xfactor), (''xvalue'', nat_str xvalue),
            (''profit'', nat_str profit), (''exchange_rate'', dec_str exchange_rate), fee_attribute]))))))))))))))))))"

definition vault_handle_callback :: "vault_deps \<Rightarrow> env \<Rightarrow> message_info \<Rightarrow> vault_callback_msg \<Rightarrow> vault_state \<Rightarrow> vault_result" where
  "vault_handle_callback deps env info msg st =
     (if env_contract env \<noteq> info_sender info then Err VaultCallbackOnlyCalledByContract
      else case msg of AssertResult result_token wanted_profit \<Rightarrow> execute_assert_result deps env result_token wanted_profit st)"

section \<open>Users (\<open>execute.rs\<close>)\<close>

definition execute_withdraw_liquidity :: "vault_deps \<Rightarrow> env \<Rightarrow> vault_state \<Rightarrow> vault_result" where
  "execute_withdraw_liquidity deps env st =
     and_then (vstd (load_item (vs_config st))) (\<lambda>config.
     and_then (assert_not_nested st) (\<lambda>_.
     and_then (get_withdraw_msgs (vd_lsds deps) (env_contract env) (lsd_group config)) (\<lambda>(messages, attributes).
     if messages = [] then Err VaultNothingToWithdraw
     else Ok (st, add_attributes (add_messages new_response messages) attributes))))"

definition mint_liquidity_token_message :: "vault_config \<Rightarrow> addr \<Rightarrow> u128 \<Rightarrow> vault_msg" where
  "mint_liquidity_token_message config recipient amount = WasmExecute (va_lp_addr config) (VaultToken (TokenMint recipient amount)) []"

definition create_burn_msg :: "vault_config \<Rightarrow> u128 \<Rightarrow> vault_msg" where
  "create_burn_msg config amount = WasmExecute (va_lp_addr config) (VaultToken (TokenBurn amount)) []"

definition execute_provide_liquidity :: "vault_deps \<Rightarrow> env \<Rightarrow> message_info \<Rightarrow> asset \<Rightarrow> string option \<Rightarrow> vault_state \<Rightarrow> vault_result" where
  "execute_provide_liquidity deps env info deposit recipient st =
     and_then (vstd (load_item (vs_config st))) (\<lambda>config.
     and_then (assert_not_nested st) (\<lambda>_.
     and_then (vstd (al_check (vd_assets deps) (as_info deposit))) (\<lambda>_.
     and_then (vstd (al_assert_sent (vd_assets deps) deposit info)) (\<lambda>_.
     if as_amount deposit = 0 then Err VaultInvalidZeroAmount
     else if as_info deposit \<noteq> NativeToken (va_utoken config) then Err VaultAssetMismatch
     else
       and_then (get_total_assets_err deps env config st) (\<lambda>b.
       and_then (vstd (checked_sub (ba_vault_total b) (as_amount deposit))) (\<lambda>vault_utoken.
       and_then (vstd (get_share_from_deposit deps config vault_utoken (as_amount deposit))) (\<lambda>share.
       and_then (case recipient of Some r \<Rightarrow> vstd (vd_addr_validate deps r) | None \<Rightarrow> Ok (info_sender info)) (\<lambda>recipient.
       Ok (st, add_attributes (add_messages new_response [mint_liquidity_token_message config recipient share])
         [(''action'', ''arb/provide_liquidity''), (''sender'', info_sender info), (''recipient'', recipient),
          (''vault_utoken'', nat_str vault_utoken), (''share'', nat_str share)]))))))))) "

text \<open>The text of a Boolean in an attribute.\<close>

definition bool_str :: "bool \<Rightarrow> string" where "bool_str b = (if b then ''true'' else ''false'')"

definition create_withdraw_msgs ::
    "vault_deps \<Rightarrow> env \<Rightarrow> vault_config \<Rightarrow> addr \<Rightarrow> u128 \<Rightarrow> decimal \<Rightarrow> u128 \<Rightarrow> vault_state \<Rightarrow> vault_result" where
  "create_withdraw_msgs deps env config receiver withdraw_amount factor take_from_locked st =
     (if withdraw_amount = 0 then Err VaultNoWithdrawableAsset
      else
        and_then (vstd (load_item (vs_locked st))) (\<lambda>locked.
        let locked_after = locked - take_from_locked in
        and_then (vstd (query_utoken_amount deps env config)) (\<lambda>available.
        let takeable = available - locked_after in
        if takeable < withdraw_amount then Err VaultNotEnoughAssetsInThePool
        else
          and_then (vstd (load_item (vs_fee_config st))) (\<lambda>fees.
          and_then (calc_fees fees withdraw_amount factor) (\<lambda>(protocol_fee, pool_fee).
          and_then (vstd (checked_sub withdraw_amount protocol_fee)) (\<lambda>x.
          and_then (vstd (checked_sub x pool_fee)) (\<lambda>receive_amount.
          and_then (if protocol_fee = 0 then Ok None
            else and_then (vstd (vd_into_msg deps (with_balance (NativeToken (va_utoken config)) protocol_fee) (vf_contract fees))) (\<lambda>m. Ok (Some m))) (\<lambda>fee_msg.
          and_then (vstd (vd_into_msg deps (with_balance (NativeToken (va_utoken config)) receive_amount) receiver)) (\<lambda>msg.
          Ok (st\<lparr>vs_locked := Some locked_after\<rparr>,
            add_attributes (add_optional_message (add_message new_response msg) fee_msg)
              [(''action'', ''arb/execute_withdraw''), (''from'', env_contract env), (''receiver'', receiver),
               (''withdraw_amount'', nat_str withdraw_amount), (''receive_amount'', nat_str receive_amount),
               (''protocol_fee'', nat_str protocol_fee), (''pool_fee'', nat_str pool_fee), (''immediate'', bool_str (pool_fee \<noteq> 0))])))))))))) "

definition queue_unbond_user ::
    "env \<Rightarrow> vault_config \<Rightarrow> addr \<Rightarrow> u128 \<Rightarrow> u128 \<Rightarrow> u128 \<Rightarrow> u128 \<Rightarrow> vault_state \<Rightarrow> vault_result" where
  "queue_unbond_user env config sender withdraw_amount tvl total_lp_supply lp_amount st =
     and_then (vstd (load_item (vs_fee_config st))) (\<lambda>fees.
     and_then (u64_add (env_time env) (va_unbond_time_s config)) (\<lambda>release_time.
     and_then (add_to_unbond_history sender
       \<lparr>uh_start_time = env_time env, uh_release_time = release_time, uh_amount_asset = withdraw_amount\<rparr> st) (\<lambda>st.
     and_then (multiply_ratio withdraw_amount (vf_withdraw fees) DEC_ONE) (\<lambda>protocol_fee.
     and_then (vstd (checked_sub withdraw_amount protocol_fee)) (\<lambda>receive_amount.
     and_then (vstd (checked_sub total_lp_supply lp_amount)) (\<lambda>supply_after.
     Ok (st, add_attributes new_response
       [(''action'', ''arb/execute_unbond''), (''from'', sender), (''tvl_utoken'', nat_str tvl),
        (''withdraw_amount'', nat_str withdraw_amount), (''receive_amount'', nat_str receive_amount),
        (''protocol_fee'', nat_str protocol_fee), (''new_total_supply'', nat_str supply_after),
        (''unbond_time_s'', nat_str (va_unbond_time_s config))])))))))"

definition execute_unbond_user ::
    "vault_deps \<Rightarrow> env \<Rightarrow> message_info \<Rightarrow> addr \<Rightarrow> u128 \<Rightarrow> bool option \<Rightarrow> vault_state \<Rightarrow> vault_result" where
  "execute_unbond_user deps env info sender lp_amount immediate st =
     and_then (vstd (load_item (vs_config st))) (\<lambda>config.
     and_then (assert_not_nested st) (\<lambda>_.
     if info_sender info \<noteq> va_lp_addr config then Err (VaultExpectingLPToken (info_sender info))
     else
       and_then (vstd (query_lp_supply deps config)) (\<lambda>total_lp_supply.
       and_then (get_total_assets_err deps env config st) (\<lambda>b.
       and_then (multiply_ratio (ba_vault_total b) lp_amount total_lp_supply) (\<lambda>withdraw_amount.
       and_then (if immediate = Some True then create_withdraw_msgs deps env config sender withdraw_amount DEC_ONE 0 st
         else queue_unbond_user env config sender withdraw_amount (ba_tvl_utoken b) total_lp_supply lp_amount st) (\<lambda>(st, response).
       Ok (st, add_attribute (add_message response (create_burn_msg config lp_amount)) ''burnt_amount'' (nat_str lp_amount))))))))"

definition execute_withdraw_unbonding_immediate :: "vault_deps \<Rightarrow> env \<Rightarrow> message_info \<Rightarrow> u64 \<Rightarrow> vault_state \<Rightarrow> vault_result" where
  "execute_withdraw_unbonding_immediate deps env info unbond_id st =
     and_then (vstd (load_item (vs_config st))) (\<lambda>config.
     and_then (assert_not_nested st) (\<lambda>_.
     and_then (vstd (load_item (get (vs_unbond_history st) (info_sender info, unbond_id)))) (\<lambda>h.
     and_then (pool_fee_factor (env_time env) h) (\<lambda>factor.
     and_then (create_withdraw_msgs deps env config (info_sender info) (uh_amount_asset h) factor (uh_amount_asset h) st) (\<lambda>(st, response).
     Ok (st\<lparr>vs_unbond_history := del (info_sender info, unbond_id) (vs_unbond_history st)\<rparr>, response))))))"

text \<open>The first requests of a user, in the order of their ids; all of them are removed, whether they are released or not.\<close>

definition first_requests :: "vault_state \<Rightarrow> addr \<Rightarrow> (u64 \<times> unbond_history) list" where
  "first_requests st user = take 30 (entries (prefix_of (vs_unbond_history st) user))"

definition execute_withdraw_unbonded :: "vault_deps \<Rightarrow> env \<Rightarrow> message_info \<Rightarrow> vault_state \<Rightarrow> vault_result" where
  "execute_withdraw_unbonded deps env info st =
     and_then (vstd (load_item (vs_config st))) (\<lambda>config.
     and_then (assert_not_nested st) (\<lambda>_.
     let unbond_history = first_requests st (info_sender info) in
     and_then (u128_sum (map (\<lambda>e. uh_amount_asset (snd e)) (filter (\<lambda>e. uh_release_time (snd e) \<le> env_time env) unbond_history))) (\<lambda>withdraw_amount.
     and_then (create_withdraw_msgs deps env config (info_sender info) withdraw_amount 0 withdraw_amount st) (\<lambda>(st, response).
     Ok (st\<lparr>vs_unbond_history := fold (\<lambda>e. del (info_sender info, fst e)) unbond_history (vs_unbond_history st)\<rparr>, response)))))"

definition vault_receive_cw20 :: "vault_deps \<Rightarrow> env \<Rightarrow> message_info \<Rightarrow> vault_hook_msg decoded cw20_receive_msg \<Rightarrow> vault_state \<Rightarrow> vault_result" where
  "vault_receive_cw20 deps env info msg st =
     (case from_binary (cw20_payload msg) of
        Ok (VaultUnbondHook immediate) \<Rightarrow>
          and_then (vstd (vd_addr_validate deps (cw20_sender msg))) (\<lambda>sender.
          execute_unbond_user deps env info sender (cw20_amount msg) immediate st)
      | Err e \<Rightarrow> Err (VaultStd e)
      | Panic \<Rightarrow> Panic)"

section \<open>Administration (\<open>config.rs\<close>, \<open>ownership.rs\<close>)\<close>

definition update_vault_config ::
    "vault_deps \<Rightarrow> utilization_method option \<Rightarrow> u64 option \<Rightarrow> lsd_config list option \<Rightarrow> vault_config \<Rightarrow> (vault_config, vault_error) result" where
  "update_vault_config deps utilization unbond_time lsds config =
     and_then (case unbond_time of
         Some t \<Rightarrow> if t > 100 * 24 * 60 * 60 then Err VaultUnbondTimeTooHigh else Ok (config\<lparr>va_unbond_time_s := t\<rparr>)
       | None \<Rightarrow> Ok config) (\<lambda>config.
     let config = (case utilization of Some u \<Rightarrow> config\<lparr>va_utilization := u\<rparr> | None \<Rightarrow> config) in
     case lsds of
       Some ls \<Rightarrow> and_then (vstd (traverse (validate_lsd deps) ls)) (\<lambda>ls. Ok (config\<lparr>va_lsds := ls\<rparr>))
     | None \<Rightarrow> Ok config)"

definition vault_update_config ::
    "vault_deps \<Rightarrow> message_info \<Rightarrow> utilization_method option \<Rightarrow> u64 option \<Rightarrow> lsd_config list option \<Rightarrow> vault_fees option \<Rightarrow>
      vault_state \<Rightarrow> vault_result" where
  "vault_update_config deps info utilization unbond_time lsds fee_config st =
     and_then (vault_assert_owner st (info_sender info)) (\<lambda>_.
     and_then (vstd (load_item (vs_config st))) (\<lambda>config.
     and_then (update_vault_config deps utilization unbond_time lsds config) (\<lambda>config.
     and_then (case fee_config of
         Some f \<Rightarrow> and_then (vstd (validate_fee_config deps f)) (\<lambda>f. Ok (Some f)) | None \<Rightarrow> Ok (vs_fee_config st)) (\<lambda>fees.
     Ok (st\<lparr>vs_config := Some config, vs_fee_config := fees\<rparr>, add_attribute new_response ''action'' ''update_config'')))))"

definition vault_propose_new_owner :: "vault_deps \<Rightarrow> env \<Rightarrow> message_info \<Rightarrow> string \<Rightarrow> u64 \<Rightarrow> vault_state \<Rightarrow> vault_result" where
  "vault_propose_new_owner deps env info new_owner expires_in st =
     and_then (vault_assert_owner st (info_sender info)) (\<lambda>owner.
     and_then (vstd (vd_addr_validate deps new_owner)) (\<lambda>new_owner.
     if new_owner = owner then Err VaultOwnerCantBeSame
     else if expires_in > 14 * 24 * 60 * 60 then Err VaultExpiryTooLong
     else and_then (u64_add (env_time env) expires_in) (\<lambda>ttl.
       Ok (st\<lparr>vs_proposal := Some \<lparr>vp_owner = new_owner, vp_ttl = ttl\<rparr>\<rparr>,
         add_attributes new_response [(''action'', ''propose_new_owner''), (''new_owner'', new_owner)]))))"

definition vault_drop_ownership_proposal :: "message_info \<Rightarrow> vault_state \<Rightarrow> vault_result" where
  "vault_drop_ownership_proposal info st =
     and_then (vault_assert_owner st (info_sender info)) (\<lambda>_.
     Ok (st\<lparr>vs_proposal := None\<rparr>, add_attributes new_response [(''action'', ''drop_ownership_proposal'')]))"

definition vault_claim_ownership :: "env \<Rightarrow> message_info \<Rightarrow> vault_state \<Rightarrow> vault_result" where
  "vault_claim_ownership env info st =
     and_then (ok_or VaultProposalNotFound (vs_proposal st)) (\<lambda>p.
     if info_sender info \<noteq> vp_owner p then Err VaultUnauthorized
     else if env_time env > vp_ttl p then Err VaultProposalExpired
     else Ok (st\<lparr>vs_proposal := None, vs_owner := Some (vp_owner p)\<rparr>,
       add_attributes new_response [(''action'', ''claim_ownership''), (''new_owner'', vp_owner p)]))"

fun vault_execute :: "vault_deps \<Rightarrow> env \<Rightarrow> message_info \<Rightarrow> vault_execute_msg \<Rightarrow> vault_state \<Rightarrow> vault_result" where
  "vault_execute deps env info (VaultUpdateConfig u t ls f) st = vault_update_config deps info u t ls f st"
| "vault_execute deps env info (VaultExecuteArbitrage message result_token wanted_profit) st =
     execute_arbitrage deps env info message result_token wanted_profit st"
| "vault_execute deps env info VaultWithdrawLiquidity st = execute_withdraw_liquidity deps env st"
| "vault_execute deps env info (VaultReceive msg) st = vault_receive_cw20 deps env info msg st"
| "vault_execute deps env info (VaultProvideLiquidity asset receiver) st = execute_provide_liquidity deps env info asset receiver st"
| "vault_execute deps env info VaultWithdrawUnbonded st = execute_withdraw_unbonded deps env info st"
| "vault_execute deps env info (VaultWithdrawImmediate unbond_id) st = execute_withdraw_unbonding_immediate deps env info unbond_id st"
| "vault_execute deps env info (VaultProposeNewOwner owner expires_in) st = vault_propose_new_owner deps env info owner expires_in st"
| "vault_execute deps env info VaultDropProposal st = vault_drop_ownership_proposal info st"
| "vault_execute deps env info VaultClaimOwnership st = vault_claim_ownership env info st"
| "vault_execute deps env info (VaultCallback msg) st = vault_handle_callback deps env info msg st"

text \<open>The queries of the arbitrage vault (\<open>query.rs\<close>) and its migration, which only sets the stored version.\<close>

section \<open>Answers\<close>

record vault_config_response =
  vcr_config :: vault_config
  vcr_fee_config :: vault_fees
  vcr_owner :: addr

record takeable_response =
  tr_takeable :: "u128 option"
  tr_steps :: "(decimal \<times> u128) list"

record unbond_item =
  ui_start_time :: u64
  ui_released :: bool
  ui_release_time :: u64
  ui_amount_asset :: u128
  ui_withdraw_protocol_fee :: u128
  ui_withdraw_pool_fee :: u128
  ui_id :: u64

record state_details =
  sd_claims :: "claim_balance list"
  sd_takeable_steps :: "(decimal \<times> u128) list"

record vault_state_response =
  vsr_exchange_rate :: decimal
  vsr_total_lp_supply :: u128
  vsr_balances :: balances
  vsr_details :: "state_details option"

record vault_user_info =
  vui_utoken_amount :: u128
  vui_lp_amount :: u128

record vault_rates_response =
  vrr_exchange_rates :: "(u64 \<times> exchange_point) list"
  vrr_apr :: "decimal option"

section \<open>Queries\<close>

definition vault_page_limit :: "nat option \<Rightarrow> nat" where
  "vault_page_limit limit = min (unwrap_or limit 10) 30"

definition vault_query_config :: "vault_state \<Rightarrow> (vault_config_response, vault_error) result" where
  "vault_query_config st =
     and_then (vstd (load_item (vs_config st))) (\<lambda>config.
     and_then (vstd (load_item (vs_fee_config st))) (\<lambda>fees.
     and_then (vstd (load_item (vs_owner st))) (\<lambda>owner.
     Ok \<lparr>vcr_config = config, vcr_fee_config = fees, vcr_owner = owner\<rparr>)))"

definition takeable_steps :: "vault_config \<Rightarrow> balances \<Rightarrow> ((decimal \<times> u128) list, vault_error) result" where
  "takeable_steps config b = map_err (VaultCalculation ''takeable for steps'') (calc_all_takeable_steps config b)"

definition query_takeable :: "vault_deps \<Rightarrow> env \<Rightarrow> decimal option \<Rightarrow> vault_state \<Rightarrow> (takeable_response, vault_error) result" where
  "query_takeable deps env wanted_profit st =
     and_then (vstd (load_item (vs_config st))) (\<lambda>config.
     and_then (get_total_assets_err deps env config st) (\<lambda>b.
     and_then (case wanted_profit of
         Some wanted \<Rightarrow> and_then (calc_takeable_for_profit config b wanted) (\<lambda>t. Ok (Some t)) | None \<Rightarrow> Ok None) (\<lambda>takeable.
     and_then (takeable_steps config b) (\<lambda>steps.
     Ok \<lparr>tr_takeable = takeable, tr_steps = steps\<rparr>))))"

text \<open>The request that may be withdrawn has \<open>released\<close> false: the field compares the other way around.\<close>

definition unbond_item_of :: "vault_fees \<Rightarrow> u64 \<Rightarrow> u64 \<times> unbond_history \<Rightarrow> (unbond_item, vault_error) result" where
  "unbond_item_of fees now = (\<lambda>(n, h).
     and_then (pool_fee_factor now h) (\<lambda>factor.
     and_then (map_err (VaultCalculation ''fees'') (calc_fees fees (uh_amount_asset h) factor)) (\<lambda>(protocol_fee, pool_fee).
     Ok \<lparr>ui_start_time = uh_start_time h, ui_released = (uh_release_time h > now), ui_release_time = uh_release_time h,
       ui_amount_asset = uh_amount_asset h, ui_withdraw_protocol_fee = protocol_fee, ui_withdraw_pool_fee = pool_fee, ui_id = n\<rparr>)))"

definition vault_query_unbond_requests ::
    "vault_deps \<Rightarrow> env \<Rightarrow> string \<Rightarrow> u64 option \<Rightarrow> nat option \<Rightarrow> vault_state \<Rightarrow> (unbond_item list, vault_error) result" where
  "vault_query_unbond_requests deps env a start_after limit st =
     and_then (vstd (vd_addr_validate deps a)) (\<lambda>a.
     and_then (vstd (load_item (vs_fee_config st))) (\<lambda>fees.
     traverse (unbond_item_of fees (env_time env))
       (page start_after (vault_page_limit limit) (entries (prefix_of (vs_unbond_history st) a)))))"

definition vault_query_state :: "vault_deps \<Rightarrow> env \<Rightarrow> bool option \<Rightarrow> vault_state \<Rightarrow> (vault_state_response, vault_error) result" where
  "vault_query_state deps env details st =
     and_then (vstd (load_item (vs_config st))) (\<lambda>config.
     and_then (vstd (query_lp_supply deps config)) (\<lambda>total_lp_supply.
     and_then (get_total_assets_err deps env config st) (\<lambda>b.
     and_then (if details = Some True then
         and_then (get_balances (vd_lsds deps) (env_contract env) (lsd_group config)) (\<lambda>claims.
         and_then (takeable_steps config b) (\<lambda>steps.
         Ok (Some \<lparr>sd_claims = claims, sd_takeable_steps = steps\<rparr>)))
       else Ok None) (\<lambda>details.
     and_then (dec_from_ratio (ba_vault_total b) total_lp_supply) (\<lambda>rate.
     Ok \<lparr>vsr_exchange_rate = rate, vsr_total_lp_supply = total_lp_supply, vsr_balances = b, vsr_details = details\<rparr>)))))"

definition vault_query_user_info :: "vault_deps \<Rightarrow> env \<Rightarrow> string \<Rightarrow> vault_state \<Rightarrow> (vault_user_info, vault_error) result" where
  "vault_query_user_info deps env a st =
     and_then (vstd (load_item (vs_config st))) (\<lambda>config.
     and_then (vstd (vd_addr_validate deps a)) (\<lambda>a.
     and_then (vstd (query_lp_supply deps config)) (\<lambda>total_lp_supply.
     and_then (get_total_assets_err deps env config st) (\<lambda>b.
     and_then (vstd (al_query_pool (vd_assets deps) (TokenAsset (va_lp_addr config)) a)) (\<lambda>lp_amount.
     and_then (multiply_ratio lp_amount (ba_vault_total b) total_lp_supply) (\<lambda>utoken_amount.
     Ok \<lparr>vui_utoken_amount = utoken_amount, vui_lp_amount = lp_amount\<rparr>))))))"

text \<open>The points before a day, newest first, and the daily growth between the oldest and the newest of them.\<close>

definition points_before :: "u64 option \<Rightarrow> nat \<Rightarrow> (u64, exchange_point) store \<Rightarrow> (u64 \<times> exchange_point) list" where
  "points_before start_after limit history =
     take limit (rev (filter (\<lambda>e. case start_after of None \<Rightarrow> True | Some s \<Rightarrow> fst e < s) (entries history)))"

definition points_apr :: "(u64 \<times> exchange_point) list \<Rightarrow> (decimal option, std_error) result" where
  "points_apr points =
     (if length points > 1 then
        let current = snd (points ! 0); oldest = snd (points ! (length points - 1)) in
        and_then (u64_sub (xh_time current) (xh_time oldest)) (\<lambda>delta_time_s.
        and_then (dec_from_ratio (24 * 60 * 60) delta_time_s) (\<lambda>r.
        and_then (dec_from_ratio r (xh_rate oldest)) (\<lambda>q.
        and_then (dec_checked_mul (xh_rate current - xh_rate oldest) q) (\<lambda>apr.
        Ok (Some apr)))))
      else Ok None)"

definition vault_query_exchange_rates :: "u64 option \<Rightarrow> nat option \<Rightarrow> vault_state \<Rightarrow> (vault_rates_response, std_error) result" where
  "vault_query_exchange_rates start_after limit st =
     (let points = points_before start_after (vault_page_limit limit) (vs_exchange_history st) in
      and_then (points_apr points) (\<lambda>apr.
      Ok \<lparr>vrr_exchange_rates = points, vrr_apr = apr\<rparr>))"

datatype vault_query_msg =
    VaultConfigQuery
  | VaultStateQuery "bool option"
  | VaultUserInfoQuery string
  | VaultTakeableQuery "decimal option"
  | VaultUnbondRequestsQuery string "u64 option" "nat option"
  | VaultExchangeRatesQuery "u64 option" "nat option"

datatype vault_answer =
    VaultConfigAnswer vault_config_response
  | VaultStateAnswer vault_state_response
  | VaultUserInfoAnswer vault_user_info
  | VaultTakeableAnswer takeable_response
  | VaultUnbondRequestsAnswer "unbond_item list"
  | VaultExchangeRatesAnswer vault_rates_response

fun vault_query :: "vault_deps \<Rightarrow> env \<Rightarrow> vault_query_msg \<Rightarrow> vault_state \<Rightarrow> (vault_answer, vault_error) result" where
  "vault_query deps env VaultConfigQuery st = and_then (vault_query_config st) (\<lambda>r. Ok (VaultConfigAnswer r))"
| "vault_query deps env (VaultStateQuery details) st = and_then (vault_query_state deps env details st) (\<lambda>r. Ok (VaultStateAnswer r))"
| "vault_query deps env (VaultUserInfoQuery a) st = and_then (vault_query_user_info deps env a st) (\<lambda>r. Ok (VaultUserInfoAnswer r))"
| "vault_query deps env (VaultTakeableQuery wanted) st = and_then (query_takeable deps env wanted st) (\<lambda>r. Ok (VaultTakeableAnswer r))"
| "vault_query deps env (VaultUnbondRequestsQuery a start_after limit) st =
     and_then (vault_query_unbond_requests deps env a start_after limit st) (\<lambda>r. Ok (VaultUnbondRequestsAnswer r))"
| "vault_query deps env (VaultExchangeRatesQuery start_after limit) st =
     and_then (vstd (vault_query_exchange_rates start_after limit st)) (\<lambda>r. Ok (VaultExchangeRatesAnswer r))"

definition vault_migrate :: "vault_state \<Rightarrow> vault_result" where
  "vault_migrate st = Ok (st, new_response)"

end
