(* ===== verification/VaultProps.thy ===== *)
theory VaultProps
  imports Vault ShareVault
begin

text \<open>
  Properties of the arbitrage vault: what is locked covers the requests, a payment leaves what the other requests need, an arbitrage is only
  accepted when it pays off, and what withdrawing does to requests that are not released yet.
\<close>

section \<open>Runs\<close>

text \<open>The reply registers the LP token; every other step handles a message of anyone.\<close>

inductive vault_run :: "vault_state \<Rightarrow> vault_state \<Rightarrow> bool" where
  vault_idle: "vault_run st st"
| vault_handles: "vault_run st s1 \<Longrightarrow> vault_execute deps env info msg s1 = Ok (s2, r) \<Longrightarrow> vault_run st s2"
| vault_replies: "vault_run st s1 \<Longrightarrow> vault_reply deps rep s1 = Ok (s2, r) \<Longrightarrow> vault_run st s2"

definition vault_reachable :: "vault_state \<Rightarrow> bool" where
  "vault_reachable st \<longleftrightarrow> (\<exists>deps env msg s0 r. vault_instantiate deps env msg empty_vault = Ok (s0, r) \<and> vault_run s0 st)"

section \<open>The books of the requests\<close>

definition request_total :: "vault_state \<Rightarrow> nat" where
  "request_total st = sum_list (map (\<lambda>e. uh_amount_asset (snd e)) (entries (vs_unbond_history st)))"

definition vault_locked :: "vault_state \<Rightarrow> nat" where
  "vault_locked st = (case vs_locked st of Some l \<Rightarrow> l | None \<Rightarrow> 0)"

definition vault_books :: "vault_state \<Rightarrow> bool" where
  "vault_books st \<longleftrightarrow> wf_store (vs_unbond_history st) \<and> request_total st \<le> vault_locked st \<and>
     (\<exists>n. vs_unbond_id st = Some n \<and> (\<forall>a k h. get (vs_unbond_history st) (a, k) = Some h \<longrightarrow> k < n))"

text \<open>What is locked and belongs to no request does not become less.\<close>

definition keeps_books :: "vault_state \<Rightarrow> vault_state \<Rightarrow> bool" where
  "keeps_books st st' \<longleftrightarrow> vault_books st' \<and> request_total st' + vault_locked st \<le> vault_locked st' + request_total st"

lemma keeps_booksI:
  assumes "vault_books st" and "vs_unbond_history st' = vs_unbond_history st" and "vs_locked st' = vs_locked st"
    and "vs_unbond_id st' = vs_unbond_id st"
  shows "keeps_books st st'"
  using assms by (simp add: keeps_books_def vault_books_def request_total_def vault_locked_def)

lemma add_to_unbond_history_books:
  assumes "add_to_unbond_history a h st = Ok st'" and "vault_books st"
  shows "keeps_books st st'"
proof -
  obtain l n where st: "vs_locked st = Some l" "vs_unbond_id st = Some n"
    and st': "st' = st\<lparr>vs_locked := Some (l + uh_amount_asset h), vs_unbond_history := put (a, n) h (vs_unbond_history st),
      vs_unbond_id := Some (n + 1)\<rparr>"
    using assms(1) by (auto simp: add_to_unbond_history_def ok_simps)
  have wf: "wf_store (vs_unbond_history st)" and fresh: "get (vs_unbond_history st) (a, n) = None"
    using assms(2) st by (auto simp: vault_books_def) (metis less_irrefl option.exhaust)
  have sum: "request_total st' = request_total st + uh_amount_asset h"
    using om.total_put [OF wf, of "\<lambda>e. uh_amount_asset (snd e)" "(a, n)" h] fresh by (simp add: request_total_def st')
  have "vault_books st'"
    using assms(2) st sum by (auto simp: vault_books_def st' vault_locked_def store_simps less_Suc_eq split: if_splits)
  with sum st show ?thesis by (simp add: keeps_books_def st' vault_locked_def)
qed

text \<open>Removing some requests of one user.\<close>

lemma del_many:
  fixes f :: "'k::linorder \<times> 'v \<Rightarrow> nat"
  assumes "wf_store s" and "distinct ks" and "\<forall>k \<in> set ks. get s k \<noteq> None"
  shows "wf_store (fold del ks s) \<and> (\<forall>k. get (fold del ks s) k = (if k \<in> set ks then None else get s k)) \<and>
    sum_list (map f (entries (fold del ks s))) + sum_list (map (\<lambda>k. f (k, the (get s k))) ks) = sum_list (map f (entries s))"
  using assms
proof (induction ks arbitrary: s)
  case Nil
  then show ?case by simp
next
  case (Cons k ks)
  have wf: "wf_store (del k s)" using Cons.prems by simp
  have g: "get (del k s) j = (if j = k then None else get s j)" for j by (simp add: store_simps)
  have ih: "wf_store (fold del ks (del k s)) \<and>
    (\<forall>j. get (fold del ks (del k s)) j = (if j \<in> set ks then None else get (del k s) j)) \<and>
    sum_list (map f (entries (fold del ks (del k s)))) + sum_list (map (\<lambda>j. f (j, the (get (del k s) j))) ks)
      = sum_list (map f (entries (del k s)))"
    by (rule Cons.IH [OF wf]) (use Cons.prems g in auto)
  have same: "map (\<lambda>j. f (j, the (get (del k s) j))) ks = map (\<lambda>j. f (j, the (get s j))) ks"
    using Cons.prems g by auto
  obtain v where "get s k = Some v" using Cons.prems by auto
  then have "sum_list (map f (entries (del k s))) + f (k, the (get s k)) = sum_list (map f (entries s))"
    using om.total_del [of s f k] Cons.prems by simp
  moreover have "sum_list (map f (entries (fold del ks (del k s)))) + sum_list (map (\<lambda>j. f (j, the (get s j))) ks)
      = sum_list (map f (entries (del k s)))" using ih unfolding same by simp
  moreover have "wf_store (fold del ks (del k s))" and "\<forall>j. get (fold del ks (del k s)) j = (if j \<in> set ks then None else get (del k s) j)"
    using ih by simp_all
  ultimately show ?case by (simp add: g)
qed

text \<open>What a withdrawal pays: the amount less the fees, as far as the funds are not locked.\<close>

definition pays_out ::
    "vault_deps \<Rightarrow> env \<Rightarrow> vault_config \<Rightarrow> vault_fees \<Rightarrow> addr \<Rightarrow> u128 \<Rightarrow> u128 \<Rightarrow> vault_state \<Rightarrow> vault_state \<Rightarrow> vault_response \<Rightarrow> bool" where
  "pays_out deps env c f receiver amount pool_fee st st' r \<longleftrightarrow>
     (\<exists>available protocol_fee m ms. query_utoken_amount deps env c = Ok available \<and> 0 < amount \<and>
        vault_locked st' + amount \<le> available \<and> protocol_fee = amount * vf_withdraw f div DEC_ONE \<and> protocol_fee + pool_fee \<le> amount \<and>
        vd_into_msg deps (with_balance (NativeToken (va_utoken c)) (amount - protocol_fee - pool_fee)) receiver = Ok m \<and>
        (if protocol_fee = 0 then ms = []
         else \<exists>x. vd_into_msg deps (with_balance (NativeToken (va_utoken c)) protocol_fee) (vf_contract f) = Ok x \<and> ms = [x]) \<and>
        resp_msgs r = map PlainMsg (m # ms))"

lemma create_withdraw_msgs_outcome:
  assumes "create_withdraw_msgs deps env c receiver amount factor freed st = Ok (st', r)"
  obtains l f pool_fee where "vs_locked st = Some l" and "vs_fee_config st = Some f" and "st' = st\<lparr>vs_locked := Some (l - freed)\<rparr>"
    and "pool_fee = amount * (factor * vf_immediate f div DEC_ONE) div DEC_ONE"
    and "pays_out deps env c f receiver amount pool_fee st st' r"
proof -
  obtain l available f protocol_fee pool_fee m fee_msg where facts: "amount \<noteq> 0" "vs_locked st = Some l" "vs_fee_config st = Some f"
      "query_utoken_amount deps env c = Ok available" "\<not> available - (l - freed) < amount"
      "protocol_fee = amount * vf_withdraw f div DEC_ONE" "pool_fee = amount * (factor * vf_immediate f div DEC_ONE) div DEC_ONE"
      "protocol_fee \<le> amount" "pool_fee \<le> amount - protocol_fee"
      "vd_into_msg deps (with_balance (NativeToken (va_utoken c)) (amount - protocol_fee - pool_fee)) receiver = Ok m"
      "(if protocol_fee = 0 then Ok None
        else and_then (vstd (vd_into_msg deps (with_balance (NativeToken (va_utoken c)) protocol_fee) (vf_contract f))) (\<lambda>m. Ok (Some m))) = Ok fee_msg"
    and st': "st' = st\<lparr>vs_locked := Some (l - freed)\<rparr>"
    and r: "r = add_attributes (add_optional_message (add_message new_response m) fee_msg)
              [(''action'', ''arb/execute_withdraw''), (''from'', env_contract env), (''receiver'', receiver),
               (''withdraw_amount'', nat_str amount), (''receive_amount'', nat_str (amount - protocol_fee - pool_fee)),
               (''protocol_fee'', nat_str protocol_fee), (''pool_fee'', nat_str pool_fee), (''immediate'', bool_str (pool_fee \<noteq> 0))]"
    using assms by (auto simp: create_withdraw_msgs_def calc_fees_def Let_def ok_simps guard_Ok simp del: if_split)
  have cover: "vault_locked st' + amount \<le> available" using facts(1,5) by (simp add: st' vault_locked_def)
  have "pays_out deps env c f receiver amount pool_fee st st' r"
  proof (cases "protocol_fee = 0")
    case True
    then show ?thesis using facts cover r by (auto simp: pays_out_def)
  next
    case False
    then obtain x where "vd_into_msg deps (with_balance (NativeToken (va_utoken c)) protocol_fee) (vf_contract f) = Ok x" "fee_msg = Some x"
      using facts(11) by (auto simp: ok_simps)
    then show ?thesis using False facts cover r unfolding pays_out_def
      by (intro exI [of _ available] exI [of _ protocol_fee] exI [of _ m] exI [of _ "[x]"]) auto
  qed
  with facts st' show ?thesis by (intro that)
qed

section \<open>Withdrawing\<close>

lemma books_after_removal:
  assumes "vault_books st" and "vs_locked st = Some l" and "distinct ks" and "\<forall>k \<in> set ks. get (vs_unbond_history st) k \<noteq> None"
    and "freed \<le> removed" and "removed = sum_list (map (\<lambda>k. uh_amount_asset (the (get (vs_unbond_history st) k))) ks)"
    and "st' = st\<lparr>vs_locked := Some (l - freed), vs_unbond_history := fold del ks (vs_unbond_history st)\<rparr>"
  shows "keeps_books st st' \<and> request_total st' + removed = request_total st \<and> vault_locked st' + freed = vault_locked st"
proof -
  note removal = del_many [OF _ assms(3,4), of "\<lambda>e. uh_amount_asset (snd e)"]
  have sum: "request_total st' + removed = request_total st"
    using removal assms by (simp add: vault_books_def request_total_def)
  moreover have "vault_locked st' + freed = vault_locked st" using sum assms by (simp add: vault_books_def vault_locked_def)
  moreover have "vault_books st'"
    using sum calculation(2) removal assms by (auto simp: vault_books_def split: if_splits)
  ultimately show ?thesis using assms(5) by (simp add: keeps_books_def)
qed

text \<open>The part of the time until the release that is left, in units of the decimals, rounded up: all of it at the start, nothing from the release on.\<close>

definition time_left :: "u64 \<Rightarrow> unbond_history \<Rightarrow> decimal" where
  "time_left now h = DEC_ONE - min ((now - uh_start_time h) * DEC_ONE div (uh_release_time h - uh_start_time h)) DEC_ONE"

lemma pool_fee_factor_value:
  assumes "pool_fee_factor now h = (Ok factor :: (nat, 'e) result)"
  shows "factor = time_left now h" and "uh_release_time h \<le> now \<Longrightarrow> factor = 0"
proof -
  let ?p = "now - uh_start_time h" and ?q = "uh_release_time h - uh_start_time h"
  have q: "?q \<noteq> 0" and factor: "factor = DEC_ONE - min (?p * DEC_ONE div ?q) DEC_ONE"
    using assms(1) by (auto simp: pool_fee_factor_def ok_simps)
  show "factor = time_left now h" by (simp add: factor time_left_def)
  show "factor = 0" if "uh_release_time h \<le> now"
  proof -
    have "DEC_ONE = ?q * DEC_ONE div ?q" using q by simp
    also have "\<dots> \<le> ?p * DEC_ONE div ?q" using that by (intro div_le_mono mult_le_mono1 diff_le_mono)
    finally show ?thesis by (simp add: factor)
  qed
qed

lemma withdraw_immediate_outcome:
  assumes "execute_withdraw_unbonding_immediate deps env info n st = Ok (st', r)" and "vault_books st"
  obtains c f h pool_fee where "vs_config st = Some c" and "vs_fee_config st = Some f"
    and "get (vs_unbond_history st) (info_sender info, n) = Some h" and "uh_release_time h \<le> env_time env \<Longrightarrow> pool_fee = 0"
    and "pool_fee = uh_amount_asset h * (time_left (env_time env) h * vf_immediate f div DEC_ONE) div DEC_ONE"
    and "pays_out deps env c f (info_sender info) (uh_amount_asset h) pool_fee st st' r" and "keeps_books st st'"
    and "get (vs_unbond_history st') (info_sender info, n) = None"
proof -
  obtain c h factor s1 where c: "vs_config st = Some c" and h: "get (vs_unbond_history st) (info_sender info, n) = Some h"
    and factor: "pool_fee_factor (env_time env) h = (Ok factor :: (nat, vault_error) result)"
    and s1: "create_withdraw_msgs deps env c (info_sender info) (uh_amount_asset h) factor (uh_amount_asset h) st = Ok (s1, r)"
    and st': "st' = s1\<lparr>vs_unbond_history := del (info_sender info, n) (vs_unbond_history s1)\<rparr>"
    using assms(1) by (auto simp: execute_withdraw_unbonding_immediate_def ok_simps)
  obtain l f pool_fee where l: "vs_locked st = Some l" and f: "vs_fee_config st = Some f"
    and s1': "s1 = st\<lparr>vs_locked := Some (l - uh_amount_asset h)\<rparr>"
    and fee: "pool_fee = uh_amount_asset h * (factor * vf_immediate f div DEC_ONE) div DEC_ONE"
    and pay: "pays_out deps env c f (info_sender info) (uh_amount_asset h) pool_fee st s1 r"
    by (rule create_withdraw_msgs_outcome [OF s1])
  have after: "st' = st\<lparr>vs_locked := Some (l - uh_amount_asset h),
      vs_unbond_history := fold del [(info_sender info, n)] (vs_unbond_history st)\<rparr>"
    by (simp add: st' s1')
  have "keeps_books st st'"
    by (rule conjunct1 [OF books_after_removal [OF assms(2) l _ _ order.refl _ after]]) (simp_all add: h)
  moreover have "pays_out deps env c f (info_sender info) (uh_amount_asset h) pool_fee st st' r"
    using pay by (simp add: pays_out_def st' s1' vault_locked_def)
  moreover have "pool_fee = 0" if "uh_release_time h \<le> env_time env"
    using pool_fee_factor_value(2) [OF factor that] by (simp add: fee)
  moreover have "pool_fee = uh_amount_asset h * (time_left (env_time env) h * vf_immediate f div DEC_ONE) div DEC_ONE"
    by (simp add: fee pool_fee_factor_value(1) [OF factor])
  moreover have "get (vs_unbond_history st') (info_sender info, n) = None" by (simp add: after store_simps)
  ultimately show ?thesis using c f h by (intro that [of c f h pool_fee])
qed

text \<open>Among the first requests are some that are not released: they are removed with the others, but not paid.\<close>

definition released_total :: "u64 \<Rightarrow> (u64 \<times> unbond_history) list \<Rightarrow> nat" where
  "released_total now hs = sum_list (map (\<lambda>e. uh_amount_asset (snd e)) (filter (\<lambda>e. uh_release_time (snd e) \<le> now) hs))"

lemma first_requests_facts:
  assumes "wf_store (vs_unbond_history st)"
  shows "distinct (map (\<lambda>e. (a, fst e)) (first_requests st a))"
    and "e \<in> set (first_requests st a) \<Longrightarrow> get (vs_unbond_history st) (a, fst e) = Some (snd e)"
proof -
  note wf = wf_prefix_of [OF assms, of a]
  have "distinct (map fst (first_requests st a))"
    using om.keys_distinct [OF wf] by (simp add: first_requests_def take_map [symmetric] distinct_take)
  then show "distinct (map (\<lambda>e. (a, fst e)) (first_requests st a))" by (simp add: distinct_map inj_on_def)
  assume "e \<in> set (first_requests st a)"
  then have "e \<in> set (entries (prefix_of (vs_unbond_history st) a))" unfolding first_requests_def by (rule in_set_takeD)
  then show "get (vs_unbond_history st) (a, fst e) = Some (snd e)"
    using om.in_entries [OF wf, of "fst e" "snd e"] by (simp add: get_prefix_of)
qed

lemma released_outcome:
  assumes "execute_withdraw_unbonded deps env info st = Ok (st', r)" and "vault_books st"
  obtains c f removed where "vs_config st = Some c" and "vs_fee_config st = Some f"
    and "pays_out deps env c f (info_sender info) (released_total (env_time env) (first_requests st (info_sender info))) 0 st st' r"
    and "keeps_books st st'" and "removed = sum_list (map (\<lambda>e. uh_amount_asset (snd e)) (first_requests st (info_sender info)))"
    and "request_total st' + removed = request_total st"
    and "vault_locked st' + released_total (env_time env) (first_requests st (info_sender info)) = vault_locked st"
    and "\<forall>e \<in> set (first_requests st (info_sender info)). get (vs_unbond_history st') (info_sender info, fst e) = None"
proof -
  let ?hs = "first_requests st (info_sender info)"
  let ?paid = "released_total (env_time env) ?hs"
  let ?ks = "map (\<lambda>e. (info_sender info, fst e)) ?hs"
  obtain c s1 where c: "vs_config st = Some c" and s1: "create_withdraw_msgs deps env c (info_sender info) ?paid 0 ?paid st = Ok (s1, r)"
    and st': "st' = s1\<lparr>vs_unbond_history := fold (\<lambda>e. del (info_sender info, fst e)) ?hs (vs_unbond_history s1)\<rparr>"
    using assms(1) by (auto simp: execute_withdraw_unbonded_def Let_def ok_simps released_total_def)
  obtain l f pool_fee where l: "vs_locked st = Some l" and f: "vs_fee_config st = Some f"
    and s1': "s1 = st\<lparr>vs_locked := Some (l - ?paid)\<rparr>" and "pool_fee = ?paid * (0 * vf_immediate f div DEC_ONE) div DEC_ONE"
    and "pays_out deps env c f (info_sender info) ?paid pool_fee st s1 r"
    by (rule create_withdraw_msgs_outcome [OF s1])
  then have pay: "pays_out deps env c f (info_sender info) ?paid 0 st s1 r" by simp
  have wf: "wf_store (vs_unbond_history st)" using assms(2) by (simp add: vault_books_def)
  have fold: "fold (\<lambda>e. del (info_sender info, fst e)) ?hs s = fold del ?ks s" for s :: "(addr \<times> u64, unbond_history) store"
    by (simp add: fold_map comp_def)
  have keys: "\<forall>k \<in> set ?ks. get (vs_unbond_history st) k \<noteq> None" using first_requests_facts(2) [OF wf] by auto
  have amounts: "sum_list (map (\<lambda>e. uh_amount_asset (snd e)) ?hs) =
      sum_list (map (\<lambda>k. uh_amount_asset (the (get (vs_unbond_history st) k))) ?ks)"
    using first_requests_facts(2) [OF wf] by (auto intro!: arg_cong [where f = sum_list])
  have le: "?paid \<le> sum_list (map (\<lambda>e. uh_amount_asset (snd e)) ?hs)" unfolding released_total_def by (rule sum_list_filter_le)
  have st'': "st' = st\<lparr>vs_locked := Some (l - ?paid), vs_unbond_history := fold del ?ks (vs_unbond_history st)\<rparr>"
    by (simp add: st' s1' fold)
  note books = books_after_removal [OF assms(2) l first_requests_facts(1) [OF wf] keys le amounts st'']
  have gone: "\<forall>e \<in> set ?hs. get (vs_unbond_history st') (info_sender info, fst e) = None"
    using del_many [OF wf first_requests_facts(1) [OF wf] keys, of "\<lambda>_. 0"] by (auto simp: st'')
  have "pays_out deps env c f (info_sender info) ?paid 0 st st' r" using pay by (simp add: pays_out_def st' s1' vault_locked_def)
  with c f books gone show ?thesis by (intro that [OF _ _ _ _ refl]) auto
qed

section \<open>Every message\<close>

lemma unbond_user_books:
  assumes "execute_unbond_user deps env info sender lp immediate st = Ok (st', r)" and "vault_books st"
  shows "keeps_books st st'"
proof -
  obtain c b S amount r0 where
    step: "(if immediate = Some True then create_withdraw_msgs deps env c sender amount DEC_ONE 0 st
       else queue_unbond_user env c sender amount b S lp st) = Ok (st', r0)"
    using assms(1) by (auto simp: execute_unbond_user_def ok_simps guard_Ok simp del: if_split)
  show ?thesis
  proof (cases "immediate = Some True")
    case True
    with step have "create_withdraw_msgs deps env c sender amount DEC_ONE 0 st = Ok (st', r0)" by simp
    then show ?thesis
      by (rule create_withdraw_msgs_outcome) (auto intro!: keeps_booksI [OF assms(2)])
  next
    case False
    with step show ?thesis
      by (auto simp: queue_unbond_user_def ok_simps dest: add_to_unbond_history_books [OF _ assms(2)])
  qed
qed

lemma vault_execute_books:
  assumes "vault_execute deps env info msg st = Ok (st', r)" and "vault_books st"
  shows "keeps_books st st'"
proof (cases msg)
  case (VaultReceive m)
  then show ?thesis using assms
    by (auto simp: vault_receive_cw20_def ok_simps split: result.splits vault_hook_msg.splits dest: unbond_user_books)
next
  case (VaultProvideLiquidity a rcv)
  then show ?thesis using assms by (auto simp: execute_provide_liquidity_def ok_simps guard_Ok intro!: keeps_booksI simp del: if_split)
next
  case VaultWithdrawUnbonded
  then have "execute_withdraw_unbonded deps env info st = Ok (st', r)" using assms by simp
  then show ?thesis by (rule released_outcome [OF _ assms(2)])
next
  case (VaultWithdrawImmediate n)
  then have "execute_withdraw_unbonding_immediate deps env info n st = Ok (st', r)" using assms by simp
  then show ?thesis by (rule withdraw_immediate_outcome [OF _ assms(2)])
next
  case (VaultUpdateConfig u t ls f)
  then show ?thesis using assms by (auto simp: vault_update_config_def ok_simps intro!: keeps_booksI)
next
  case (VaultExecuteArbitrage m token wanted)
  then show ?thesis using assms by (auto simp: execute_arbitrage_def ok_simps guard_Ok intro!: keeps_booksI simp del: if_split)
next
  case VaultWithdrawLiquidity
  then show ?thesis using assms by (auto simp: execute_withdraw_liquidity_def ok_simps guard_Ok intro!: keeps_booksI simp del: if_split)
next
  case (VaultProposeNewOwner a e)
  then show ?thesis using assms by (auto simp: vault_propose_new_owner_def ok_simps guard_Ok intro!: keeps_booksI simp del: if_split)
next
  case VaultDropProposal
  then show ?thesis using assms by (auto simp: vault_drop_ownership_proposal_def ok_simps intro!: keeps_booksI)
next
  case VaultClaimOwnership
  then show ?thesis using assms by (auto simp: vault_claim_ownership_def ok_simps guard_Ok intro!: keeps_booksI simp del: if_split)
next
  case (VaultCallback m)
  then show ?thesis using assms
    by (cases m) (auto simp: vault_handle_callback_def execute_assert_result_def ok_simps guard_Ok intro!: keeps_booksI simp del: if_split)
qed

lemma vault_reply_books:
  assumes "vault_reply deps rep st = Ok (st', r)" and "vault_books st"
  shows "keeps_books st st'"
  using assms by (auto simp: vault_reply_def register_lp_token_def ok_simps split: if_splits intro!: keeps_booksI)

lemma vault_run_books:
  assumes "vault_run st st'" and "vault_books st"
  shows "keeps_books st st'"
  using assms
proof induction
  case (vault_idle st)
  then show ?case by (simp add: keeps_books_def)
next
  case (vault_handles st s1 deps env info msg s2 r)
  then show ?case using vault_execute_books [OF vault_handles(2)] by (auto simp: keeps_books_def)
next
  case (vault_replies st s1 deps rep s2 r)
  then show ?case using vault_reply_books [OF vault_replies(2)] by (auto simp: keeps_books_def)
qed

lemma vault_start_books:
  assumes "vault_instantiate deps env msg empty_vault = Ok (st, r)"
  shows "vault_books st"
  using assms by (auto simp: vault_instantiate_def ok_simps vault_books_def empty_vault_def request_total_def vault_locked_def entries_def get_def)

lemma reachable_vault_books: "vault_reachable st \<Longrightarrow> vault_books st"
  using vault_start_books vault_run_books by (fastforce simp: vault_reachable_def keeps_books_def)

section \<open>Shares\<close>

text \<open>What is issued for a deposit and what shares are worth, as the handlers compute them; a vault without shares is taken to hold nothing.\<close>

definition vault_issues :: "u128 \<Rightarrow> u128 \<Rightarrow> u128 \<Rightarrow> u128 \<Rightarrow> bool" where
  "vault_issues S T a m \<longleftrightarrow> (S = 0 \<longrightarrow> T = 0) \<and>
     (\<exists>deps c. query_lp_supply deps c = Ok S \<and> get_share_from_deposit deps c T a = Ok m)"

definition vault_pays :: "u128 \<Rightarrow> u128 \<Rightarrow> u128 \<Rightarrow> u128 \<Rightarrow> bool" where
  "vault_pays S T s r \<longleftrightarrow> multiply_ratio T s S = (Ok r :: (u128, vault_error) result)"

interpretation arb_shares: rounding_vault vault_issues vault_pays
proof
  fix S T a m s r :: nat
  show "m * T \<le> a * S" if "vault_issues S T a m" and "0 < T"
  proof -
    have "m = a * S div T" using that by (auto simp: vault_issues_def get_share_from_deposit_def ok_simps split: if_splits)
    then show ?thesis by (simp add: div_times_less_eq_dividend)
  qed
  show "vault_pays S T s r \<Longrightarrow> r * S \<le> s * T"
    by (auto simp: vault_pays_def ok_simps mult.commute [of T s] div_times_less_eq_dividend)
  show "vault_pays S T s r \<Longrightarrow> s * T < (r + 1) * S"
    using dividend_less_div_times [of S "s * T"] by (auto simp: vault_pays_def ok_simps mult.commute [of T s])
qed

lemma provide_outcome:
  assumes "execute_provide_liquidity deps env info a recipient st = Ok (st', r)" and "vs_config st = Some c"
    and "query_lp_supply deps c = Ok S" and "0 < S" and "get_total_assets deps env c st = Ok b"
  obtains m rcv where "vault_issues S (ba_vault_total b - as_amount a) (as_amount a) m" and "as_amount a \<le> ba_vault_total b"
    and "resp_msgs r = [PlainMsg (mint_liquidity_token_message c rcv m)]" and "st' = st"
proof -
  obtain m rcv where "as_amount a \<le> ba_vault_total b" and "get_share_from_deposit deps c (ba_vault_total b - as_amount a) (as_amount a) = Ok m"
    and "resp_msgs r = [PlainMsg (mint_liquidity_token_message c rcv m)]" and "st' = st"
    using assms by (auto simp: execute_provide_liquidity_def get_total_assets_err_def ok_simps guard_Ok simp del: if_split)
  moreover from this assms have "vault_issues S (ba_vault_total b - as_amount a) (as_amount a) m"
    by (auto simp: vault_issues_def)
  ultimately show ?thesis by (intro that)
qed

text \<open>Shares handed in: a request, or an immediate payment, and the shares are burnt.\<close>

lemma unbond_outcome:
  assumes "execute_unbond_user deps env info sender lp immediate st = Ok (st', r)" and "vs_config st = Some c"
    and "query_lp_supply deps c = Ok S" and "get_total_assets deps env c st = Ok b"
  obtains w r0 where "vault_pays S (ba_vault_total b) lp w" and "info_sender info = va_lp_addr c"
    and "resp_msgs r = resp_msgs r0 @ [PlainMsg (create_burn_msg c lp)]"
    and "if immediate = Some True then create_withdraw_msgs deps env c sender w DEC_ONE 0 st = Ok (st', r0)
      else queue_unbond_user env c sender w (ba_tvl_utoken b) S lp st = Ok (st', r0)"
proof -
  obtain w r0 where "S \<noteq> 0" and "w = ba_vault_total b * lp div S" and "ba_vault_total b * lp div S \<le> U128_MAX"
    and "info_sender info = va_lp_addr c" and "resp_msgs r = resp_msgs r0 @ [PlainMsg (create_burn_msg c lp)]"
    and res: "(if immediate = Some True then create_withdraw_msgs deps env c sender w DEC_ONE 0 st
      else queue_unbond_user env c sender w (ba_tvl_utoken b) S lp st) = Ok (st', r0)"
    using assms by (auto simp: execute_unbond_user_def get_total_assets_err_def ok_simps guard_Ok simp del: if_split)
  then show ?thesis by (intro that [of w r0]) (auto simp: vault_pays_def ok_simps split: if_splits)
qed

lemma queue_outcome:
  assumes "queue_unbond_user env c sender w tvl S lp st = Ok (st', r)"
  obtains n l where "vs_unbond_id st = Some n" and "vs_locked st = Some l"
    and "st' = st\<lparr>vs_locked := Some (l + w), vs_unbond_id := Some (n + 1), vs_unbond_history := put (sender, n)
      \<lparr>uh_start_time = env_time env, uh_release_time = env_time env + va_unbond_time_s c, uh_amount_asset = w\<rparr> (vs_unbond_history st)\<rparr>"
    and "resp_msgs r = []" and "lp \<le> S"
  using assms by (auto simp: queue_unbond_user_def add_to_unbond_history_def ok_simps)

section \<open>Arbitrage\<close>

text \<open>What others do between the two messages that an arbitrage sends.\<close>

inductive outside_run :: "vault_state \<Rightarrow> vault_state \<Rightarrow> bool" where
  outside_start: "outside_run st st"
| outside_step: "outside_run st s1 \<Longrightarrow> info_sender info \<noteq> env_contract env \<Longrightarrow> vault_execute deps env info msg s1 = Ok (s2, r)
    \<Longrightarrow> outside_run st s2"

definition same_books :: "vault_state \<Rightarrow> vault_state \<Rightarrow> bool" where
  "same_books st st' \<longleftrightarrow> vs_checkpoint st' = vs_checkpoint st \<and> vs_locked st' = vs_locked st \<and>
     vs_unbond_history st' = vs_unbond_history st \<and> vs_exchange_history st' = vs_exchange_history st"

lemma nested_is_refused: "vs_checkpoint st = Some cp \<Longrightarrow> assert_not_nested st \<noteq> Ok u"
  by (simp add: assert_not_nested_def)

lemma only_admin_while_nested:
  assumes "vault_execute deps env info msg st = Ok (st', r)" and "vs_checkpoint st = Some cp" and "info_sender info \<noteq> env_contract env"
  shows "same_books st st'"
proof (cases msg)
  case (VaultReceive m)
  then show ?thesis using assms nested_is_refused [OF assms(2)]
    by (auto simp: vault_receive_cw20_def execute_unbond_user_def ok_simps split: result.splits vault_hook_msg.splits)
next
  case (VaultProvideLiquidity a rcv)
  then show ?thesis using assms nested_is_refused [OF assms(2)] by (auto simp: execute_provide_liquidity_def ok_simps)
next
  case VaultWithdrawUnbonded
  then show ?thesis using assms nested_is_refused [OF assms(2)] by (auto simp: execute_withdraw_unbonded_def ok_simps)
next
  case (VaultWithdrawImmediate n)
  then show ?thesis using assms nested_is_refused [OF assms(2)] by (auto simp: execute_withdraw_unbonding_immediate_def ok_simps)
next
  case (VaultUpdateConfig u t ls f)
  then show ?thesis using assms by (auto simp: vault_update_config_def same_books_def ok_simps)
next
  case (VaultExecuteArbitrage m token wanted)
  then show ?thesis using assms nested_is_refused [OF assms(2)] by (auto simp: execute_arbitrage_def ok_simps guard_Ok simp del: if_split)
next
  case VaultWithdrawLiquidity
  then show ?thesis using assms nested_is_refused [OF assms(2)] by (auto simp: execute_withdraw_liquidity_def ok_simps)
next
  case (VaultProposeNewOwner a e)
  then show ?thesis using assms by (auto simp: vault_propose_new_owner_def same_books_def ok_simps guard_Ok simp del: if_split)
next
  case VaultDropProposal
  then show ?thesis using assms by (auto simp: vault_drop_ownership_proposal_def same_books_def ok_simps)
next
  case VaultClaimOwnership
  then show ?thesis using assms by (auto simp: vault_claim_ownership_def same_books_def ok_simps guard_Ok simp del: if_split)
next
  case (VaultCallback m)
  then show ?thesis using assms by (auto simp: vault_handle_callback_def)
qed

lemma outside_run_books:
  assumes "outside_run st st'" and "vs_checkpoint st = Some cp"
  shows "same_books st st'"
  using assms
proof induction
  case (outside_start st)
  then show ?case by (simp add: same_books_def)
next
  case (outside_step st s1 info env deps msg s2 r)
  then have "same_books st s1" by simp
  moreover from this outside_step.prems have "vs_checkpoint s1 = Some cp" by (simp add: same_books_def)
  note only_admin_while_nested [OF outside_step.hyps(3) this outside_step.hyps(2)]
  ultimately show ?case by (simp add: same_books_def)
qed

lemma execute_arbitrage_outcome:
  assumes "execute_arbitrage deps env info m token wanted st = Ok (st', r)"
  obtains c b u executor where "vs_config st = Some c" and "get_total_assets deps env c st = Ok b"
    and "max_utilization_for_profit c wanted = Ok u" and "0 < es_funds_amount m" and "MIN_PROFIT \<le> wanted"
    and "es_funds_amount m + ba_vault_total b \<le> ba_vault_total b * u div DEC_ONE + ba_vault_takeable b"
    and "st' = st\<lparr>vs_checkpoint := Some \<lparr>bc_vault_available = ba_vault_available b, bc_tvl_utoken = ba_tvl_utoken b\<rparr>\<rparr>"
    and "resp_msgs r = map PlainMsg [WasmExecute executor (FlashLoan (es_msg m)) [mk_coin (es_funds_amount m) (va_utoken c)],
      vault_callback_into_msg (AssertResult token wanted) (env_contract env)]"
proof -
  obtain c b executor where funds: "0 < es_funds_amount m" and c: "vs_config st = Some c" and b: "get_total_assets deps env c st = Ok b"
    and profit: "assert_min_profit wanted = Ok ()" and most: "assert_max_amount c b wanted (es_funds_amount m) = Ok ()"
    and res: "st' = st\<lparr>vs_checkpoint := Some \<lparr>bc_vault_available = ba_vault_available b, bc_tvl_utoken = ba_tvl_utoken b\<rparr>\<rparr>"
      "resp_msgs r = map PlainMsg [WasmExecute executor (FlashLoan (es_msg m)) [mk_coin (es_funds_amount m) (va_utoken c)],
        vault_callback_into_msg (AssertResult token wanted) (env_contract env)]"
    using assms by (auto simp: execute_arbitrage_def get_total_assets_err_def ok_simps guard_Ok simp del: if_split)
  moreover have "MIN_PROFIT \<le> wanted" using profit by (auto simp: assert_min_profit_def split: if_splits)
  moreover obtain u where "max_utilization_for_profit c wanted = Ok u" and
    "es_funds_amount m + ba_vault_total b \<le> ba_vault_total b * u div DEC_ONE + ba_vault_takeable b"
    using most funds by (auto simp: assert_max_amount_def calc_takeable_for_profit_def calc_vault_takeable_def ok_simps guard_Ok)
  ultimately show ?thesis by (intro that)
qed

end
