(* ===== verification/VaultClaims.thy ===== *)
theory VaultClaims
  imports VaultProps
begin

text \<open>
  What the arbitrage vault guarantees, with a run of it: three deposits of shares are queued, an arbitrage takes place, and a user withdraws
  while one request is released and another is not.
\<close>

section \<open>A run\<close>

definition demo_vault_deps :: "u128 \<Rightarrow> u128 \<Rightarrow> vault_deps" where
  "demo_vault_deps available liquid =
     \<lparr>vd_addr_validate = Ok,
      vd_assets = \<lparr>al_to_string = (\<lambda>i. []), al_as_bytes = (\<lambda>i. []), al_check = (\<lambda>i. Ok ()), al_assert_sent = (\<lambda>a i. Ok ()),
        al_query_pool = (\<lambda>i a. Ok (case i of NativeToken d \<Rightarrow> available | TokenAsset t \<Rightarrow> liquid))\<rparr>,
      vd_supply = (\<lambda>t. Ok 1000),
      vd_lsds = \<lparr>lq_requests = (\<lambda>h w. Ok []), lq_pending_batch = (\<lambda>h. Ok 1),
        lq_previous_batch = (\<lambda>h b. Err NotFound), lq_exchange_rate = (\<lambda>h. Ok DEC_ONE), lq_undelegations = (\<lambda>h w. Ok []),
        lq_stader_batch = (\<lambda>h b. Ok None), lq_prism_requests = (\<lambda>h w. Ok []), lq_prism_history = (\<lambda>h b. Ok []),
        lq_prism_withdrawable = (\<lambda>h w. Ok 0)\<rparr>,
      vd_into_msg = (\<lambda>a to. Ok (transfer_msg VaultToken (as_info a) (as_amount a) to))\<rparr>"

definition demo_vault_env :: "u64 \<Rightarrow> env" where
  "demo_vault_env t = \<lparr>env_height = 1, env_time = t, env_contract = ''vault''\<rparr>"

definition vault_try :: "vault_deps \<Rightarrow> u64 \<Rightarrow> addr \<Rightarrow> vault_execute_msg \<Rightarrow> vault_state \<Rightarrow> vault_state" where
  "vault_try deps t sender msg st =
     (case vault_execute deps (demo_vault_env t) \<lparr>info_sender = sender, info_funds = []\<rparr> msg st of Ok (s, r) \<Rightarrow> s | _ \<Rightarrow> st)"

lemma vault_try_runs: "vault_run st s \<Longrightarrow> vault_run st (vault_try deps t sender msg s)"
  by (auto simp: vault_try_def intro: vault_handles split: result.split)

definition demo_vault_msg :: vault_instantiate_msg where
  "demo_vault_msg =
     \<lparr>vim_cw20_code_id = 1, vim_name = ''LP'', vim_symbol = ''LP'', vim_decimals = 6, vim_owner = ''own'', vim_utoken = ''uluna'',
      vim_utilization = UtilizationSteps [(10000000000000000, 500000000000000000)], vim_unbond_time_s = 1000,
      vim_lsds = [\<lparr>lsd_disabled = False, lsd_kind = Eris ''hub'' ''amp''\<rparr>],
      vim_fee_config = \<lparr>vf_contract = ''fee'', vf_performance = 0, vf_withdraw = 0, vf_immediate = 0\<rparr>\<rparr>"

definition vault_start :: vault_state where
  "vault_start = (case vault_instantiate (demo_vault_deps 0 0) (demo_vault_env 1) demo_vault_msg empty_vault
     of Ok (s, r) \<Rightarrow> s | _ \<Rightarrow> empty_vault)"

definition vault_with_token :: vault_state where
  "vault_with_token = (case vault_reply (demo_vault_deps 0 0)
     \<lparr>reply_id = 1, reply_result = SubMsgOk [new_event ''instantiate'' [(''_contract_address'', ''lp'')]]\<rparr> vault_start
     of Ok (s, r) \<Rightarrow> s | _ \<Rightarrow> vault_start)"

definition vault_with_fees :: vault_state where
  "vault_with_fees = vault_try (demo_vault_deps 0 0) 2 ''own'' (VaultUpdateConfig None None None
     (Some \<lparr>vf_contract = ''fee'', vf_performance = 100000000000000000, vf_withdraw = 10000000000000000, vf_immediate = 50000000000000000\<rparr>)) vault_with_token"

definition vault_hook :: "u128 \<Rightarrow> bool option \<Rightarrow> vault_execute_msg" where
  "vault_hook lp immediate =
     VaultReceive \<lparr>cw20_sender = ''ann'', cw20_amount = lp, cw20_payload = Decoded (VaultUnbondHook immediate)\<rparr>"

definition vault_queued :: vault_state where
  "vault_queued = vault_try (demo_vault_deps 5000 0) 600 ''lp'' (vault_hook 100 None)
     (vault_try (demo_vault_deps 5000 0) 100 ''lp'' (vault_hook 100 None) vault_with_fees)"

lemmas demo_vault_defs = demo_vault_deps_def demo_vault_env_def demo_vault_msg_def vault_hook_def query_utoken_amount_def query_lp_supply_def
  lsd_group_def get_unbonding_def get_withdrawable_def sum_over_def eris_unbonding_def eris_withdrawable_def eris_records_def hub_records_def records_value_def adapter_error_def
  get_total_assets_err_def get_total_assets_def load_item_def

lemmas demo_vault_ops = vault_instantiate_def validate_lsd_def vault_reply_def register_lp_token_def unwrap_reply_def new_event_def
  vault_update_config_def update_vault_config_def validate_fee_config_def vault_assert_owner_def vault_receive_cw20_def
  execute_unbond_user_def queue_unbond_user_def add_to_unbond_history_def assert_not_nested_def INSTANTIATE_TOKEN_REPLY_ID_def

lemma vault_start_state: "vault_start = empty_vault\<lparr>vs_owner := Some ''own'',
    vs_config := Some \<lparr>va_utoken = ''uluna'', va_utilization = UtilizationSteps [(10000000000000000, 500000000000000000)],
      va_unbond_time_s = 1000, va_lp_addr = [], va_lsds = [\<lparr>lsd_disabled = False, lsd_kind = Eris ''hub'' ''amp''\<rparr>]\<rparr>,
    vs_unbond_id := Some 0, vs_locked := Some 0\<rparr>"
  by (simp add: vault_start_def demo_vault_defs demo_vault_ops)

lemma vault_with_fees_state: "vault_with_fees = vault_start\<lparr>
    vs_config := Some \<lparr>va_utoken = ''uluna'', va_utilization = UtilizationSteps [(10000000000000000, 500000000000000000)],
      va_unbond_time_s = 1000, va_lp_addr = ''lp'', va_lsds = [\<lparr>lsd_disabled = False, lsd_kind = Eris ''hub'' ''amp''\<rparr>]\<rparr>,
    vs_fee_config := Some \<lparr>vf_contract = ''fee'', vf_performance = 100000000000000000, vf_withdraw = 10000000000000000,
      vf_immediate = 50000000000000000\<rparr>\<rparr>"
  by (simp add: vault_with_fees_def vault_try_def vault_with_token_def vault_start_state demo_vault_defs demo_vault_ops empty_vault_def)

lemma vault_queued_state: "vault_queued = vault_with_fees\<lparr>vs_locked := Some 950, vs_unbond_id := Some 2, vs_unbond_history :=
    [((''ann'', 0), \<lparr>uh_start_time = 100, uh_release_time = 1100, uh_amount_asset = 500\<rparr>),
     ((''ann'', 1), \<lparr>uh_start_time = 600, uh_release_time = 1600, uh_amount_asset = 450\<rparr>)]\<rparr>"
  by (simp add: vault_queued_def vault_try_def vault_with_fees_state vault_start_state empty_vault_def demo_vault_defs demo_vault_ops
      num_defs U128_MAX_code U64_MAX_code DEC_ONE_code)

lemma vault_queued_reachable: "vault_reachable vault_queued"
proof -
  have "vault_run vault_start vault_with_token"
    by (auto simp: vault_with_token_def intro: vault_replies vault_idle split: result.split)
  then have "vault_run vault_start vault_queued"
    unfolding vault_queued_def vault_with_fees_def by (intro vault_try_runs)
  moreover have "\<exists>r. vault_instantiate (demo_vault_deps 0 0) (demo_vault_env 1) demo_vault_msg empty_vault = Ok (vault_start, r)"
    by (simp add: vault_start_state demo_vault_defs demo_vault_ops)
  ultimately show ?thesis unfolding vault_reachable_def by blast
qed

section \<open>Payments\<close>

text \<open>
  C15: in every reachable state a user who withdraws, what is released of the first thirty requests or one request before its time, is paid the amount less
  the protocol fee and, before the release, the pool fee times the part of the waiting time that is left (none after the release). The funds of the vault
  cover, besides the amount, everything that stays locked, and that covers the requests that remain.
\<close>
theorem payments_spare_other_requests:
  assumes "vault_reachable st" and "vault_execute deps env info msg st = Ok (st', r)"
    and "msg = VaultWithdrawUnbonded \<or> msg = VaultWithdrawImmediate n"
  shows "\<exists>c f amount pool_fee. vs_config st = Some c \<and> vs_fee_config st = Some f \<and>
    pays_out deps env c f (info_sender info) amount pool_fee st st' r \<and> request_total st' \<le> vault_locked st' \<and>
    (if msg = VaultWithdrawUnbonded then amount = released_total (env_time env) (first_requests st (info_sender info)) \<and> pool_fee = 0
     else \<exists>h. get (vs_unbond_history st) (info_sender info, n) = Some h \<and> amount = uh_amount_asset h \<and>
       get (vs_unbond_history st') (info_sender info, n) = None \<and>
       pool_fee = amount * (time_left (env_time env) h * vf_immediate f div DEC_ONE) div DEC_ONE \<and>
       (uh_release_time h \<le> env_time env \<longrightarrow> pool_fee = 0))"
proof (cases "msg = VaultWithdrawUnbonded")
  case True
  then have step: "execute_withdraw_unbonded deps env info st = Ok (st', r)" using assms by simp
  show ?thesis
    by (rule released_outcome [OF step reachable_vault_books [OF assms(1)]])
      (use True in \<open>auto simp: keeps_books_def vault_books_def\<close>)
next
  case False
  then have step: "execute_withdraw_unbonding_immediate deps env info n st = Ok (st', r)" using assms by simp
  show ?thesis
    by (rule withdraw_immediate_outcome [OF step reachable_vault_books [OF assms(1)]])
      (use False in \<open>fastforce simp: keeps_books_def vault_books_def\<close>)
qed

lemma demo_withdraw: "\<exists>st' r. vault_execute (demo_vault_deps 5000 0) (demo_vault_env 1200) \<lparr>info_sender = ''ann'', info_funds = []\<rparr>
    VaultWithdrawUnbonded vault_queued = Ok (st', r)"
  by (simp add: vault_queued_state vault_with_fees_state vault_start_state empty_vault_def demo_vault_defs demo_vault_ops
      execute_withdraw_unbonded_def create_withdraw_msgs_def calc_fees_def first_requests_def prefix_of_def entries_def
      num_defs U128_MAX_code DEC_ONE_code)

theorem payments_spare_other_requests_witness:
  "\<exists>st' r c f amount pool_fee. vault_execute (demo_vault_deps 5000 0) (demo_vault_env 1200) \<lparr>info_sender = ''ann'', info_funds = []\<rparr>
      VaultWithdrawUnbonded vault_queued = Ok (st', r) \<and>
    pays_out (demo_vault_deps 5000 0) (demo_vault_env 1200) c f ''ann'' amount pool_fee vault_queued st' r \<and>
    amount = released_total 1200 (first_requests vault_queued ''ann'')"
proof -
  obtain st' r where step: "vault_execute (demo_vault_deps 5000 0) (demo_vault_env 1200) \<lparr>info_sender = ''ann'', info_funds = []\<rparr>
      VaultWithdrawUnbonded vault_queued = Ok (st', r)" using demo_withdraw by blast
  from payments_spare_other_requests [OF vault_queued_reachable step, of 0] step show ?thesis
    by (auto simp: demo_vault_env_def)
qed

section \<open>Requests that are lost\<close>

text \<open>
  C22: withdrawing what is unbonded removes, of the first thirty requests of the user, those that are not released yet as well. They are not paid, their
  amount stays locked whatever happens afterwards, and no request is left that could take it out.
\<close>
theorem unreleased_requests_are_lost:
  assumes "vault_reachable st" and "vault_execute deps env info VaultWithdrawUnbonded st = Ok (s1, r)"
    and "(n, h) \<in> set (first_requests st (info_sender info))" and "env_time env < uh_release_time h" and "vault_run s1 s2"
  shows "get (vs_unbond_history s1) (info_sender info, n) = None \<and> request_total s2 + uh_amount_asset h \<le> vault_locked s2"
proof -
  let ?hs = "first_requests st (info_sender info)"
  have step: "execute_withdraw_unbonded deps env info st = Ok (s1, r)" using assms(2) by simp
  obtain c f removed where "vs_config st = Some c" and "vs_fee_config st = Some f"
    and "pays_out deps env c f (info_sender info) (released_total (env_time env) ?hs) 0 st s1 r"
    and keep: "keeps_books st s1" and removed: "removed = sum_list (map (\<lambda>e. uh_amount_asset (snd e)) ?hs)"
    and total: "request_total s1 + removed = request_total st"
    and locked: "vault_locked s1 + released_total (env_time env) ?hs = vault_locked st"
    and gone: "\<forall>e \<in> set ?hs. get (vs_unbond_history s1) (info_sender info, fst e) = None"
    by (rule released_outcome [OF step reachable_vault_books [OF assms(1)]])
  have "uh_amount_asset h \<le> sum_list (map (\<lambda>e. uh_amount_asset (snd e)) (filter (\<lambda>e. \<not> uh_release_time (snd e) \<le> env_time env) ?hs))"
    using sum_list_le_member [of "(n, h)" "filter (\<lambda>e. \<not> uh_release_time (snd e) \<le> env_time env) ?hs" "\<lambda>e. uh_amount_asset (snd e)"] assms(3,4)
    by simp
  then have lost: "released_total (env_time env) ?hs + uh_amount_asset h \<le> removed"
    unfolding removed released_total_def
    using sum_list_filter_split [of "\<lambda>e. uh_amount_asset (snd e)" ?hs "\<lambda>e. uh_release_time (snd e) \<le> env_time env"] by simp
  have "keeps_books s1 s2" by (rule vault_run_books [OF assms(5)]) (use keep in \<open>simp add: keeps_books_def\<close>)
  then have "request_total s2 + vault_locked s1 \<le> vault_locked s2 + request_total s1" by (simp add: keeps_books_def)
  moreover have "request_total st \<le> vault_locked st" using reachable_vault_books [OF assms(1)] by (simp add: vault_books_def)
  ultimately have "request_total s2 + uh_amount_asset h \<le> vault_locked s2" using lost total locked by linarith
  then show ?thesis using gone assms(3) by auto
qed

theorem unreleased_requests_are_lost_witness:
  "\<exists>s1 r. vault_execute (demo_vault_deps 5000 0) (demo_vault_env 1200) \<lparr>info_sender = ''ann'', info_funds = []\<rparr>
      VaultWithdrawUnbonded vault_queued = Ok (s1, r) \<and>
    get (vs_unbond_history s1) (''ann'', 1) = None \<and> request_total s1 + 450 \<le> vault_locked s1"
proof -
  obtain s1 r where step: "vault_execute (demo_vault_deps 5000 0) (demo_vault_env 1200) \<lparr>info_sender = ''ann'', info_funds = []\<rparr>
      VaultWithdrawUnbonded vault_queued = Ok (s1, r)" using demo_withdraw by blast
  have "(Suc 0, \<lparr>uh_start_time = 600, uh_release_time = 1600, uh_amount_asset = 450\<rparr>) \<in> set (first_requests vault_queued ''ann'')"
    by (simp add: vault_queued_state first_requests_def prefix_of_def entries_def)
  from unreleased_requests_are_lost [OF vault_queued_reachable step _ _ vault_idle, of 1, simplified, OF this] step show ?thesis
    by (simp add: demo_vault_env_def)
qed

section \<open>Arbitrage\<close>

lemma assert_result_outcome:
  assumes "execute_assert_result deps env token wanted st = Ok (st', r)"
  obtains c old b lsd x rate where "vs_config st = Some c" and "vs_checkpoint st = Some old" and "get_total_assets deps env c st = Ok b"
    and "lsd_get (lsd_group c) token = Ok lsd" and "al_query_pool (vd_assets deps) token (env_contract env) = Ok x"
    and "lsd_factor (vd_lsds deps) lsd = Ok rate" and "ba_vault_available b \<le> bc_vault_available old"
    and "bc_tvl_utoken old \<le> ba_tvl_utoken b + x * rate div DEC_ONE" and "bc_vault_available old - ba_vault_available b \<noteq> 0"
    and "wanted * 900000000000000000 div DEC_ONE
      \<le> (ba_tvl_utoken b + x * rate div DEC_ONE - bc_tvl_utoken old) * DEC_ONE div (bc_vault_available old - ba_vault_available b)"
    and "x \<noteq> 0" and "ba_locked b \<le> ba_vault_available b" and "vs_checkpoint st' = None"
proof -
  obtain c old b lsd x rate where facts: "vs_config st = Some c" "vs_checkpoint st = Some old" "get_total_assets deps env c st = Ok b"
      "lsd_get (lsd_group c) token = Ok lsd" "al_query_pool (vd_assets deps) (lsd_asset lsd) (env_contract env) = Ok x"
      "lsd_factor (vd_lsds deps) lsd = Ok rate" "ba_vault_available b \<le> bc_vault_available old"
      "bc_tvl_utoken old \<le> ba_tvl_utoken b + x * rate div DEC_ONE" "bc_vault_available old - ba_vault_available b \<noteq> 0"
      "\<not> (ba_tvl_utoken b + x * rate div DEC_ONE - bc_tvl_utoken old) * DEC_ONE div (bc_vault_available old - ba_vault_available b)
        < wanted * 900000000000000000 div DEC_ONE"
      "x \<noteq> 0" "\<not> ba_vault_available b < ba_locked b" "vs_checkpoint st' = None"
    using assms by (auto simp: execute_assert_result_def get_total_assets_err_def assert_is_nested_def calculation_def ok_simps guard_Ok simp del: if_split)
  moreover have "lsd_asset lsd = token" using facts(4) by (auto simp: lsd_get_def ok_simps find_Some_iff)
  ultimately show ?thesis by (intro that [of c old b lsd x rate]) auto
qed

lemma least_profit:
  fixes p used gain :: nat
  assumes "4500000000000000 \<le> p" and "p * used \<le> gain * DEC_ONE"
  shows "9 * used \<le> 2000 * gain"
proof -
  have "4500000000000000 * used \<le> gain * DEC_ONE" using mult_le_mono1 [OF assms(1), of used] assms(2) by (rule order.trans)
  then show ?thesis by (simp add: DEC_ONE_def)
qed

lemma locked_of_balances: "get_total_assets deps env c st = Ok b \<Longrightarrow> ba_locked b = vault_locked st"
  by (auto simp: get_total_assets_def vault_locked_def ok_simps)

text \<open>
  C7: an arbitrage takes at most what the utilisation allows of what is not locked. Whatever other accounts send in between, the call only
  goes through if, at its end, the vault's value with the tokens received, at the rate of their hub, is not below what it was, the gain is at
  least nine tenths of the profit announced on what was used, so at least 0.45 percent, and the locked coins are there, of which no
  request was added or paid meanwhile.
\<close>
theorem arbitrage_pays_off:
  assumes "vault_execute d1 e1 i1 (VaultExecuteArbitrage m token wanted) st = Ok (s1, r1)" and "outside_run s1 s2"
    and "vault_execute d2 e2 i2 (VaultCallback (AssertResult token wanted)) s2 = Ok (s3, r3)"
  shows "\<exists>c1 b1 u c2 b2 lsd x rate. vs_config st = Some c1 \<and> get_total_assets d1 e1 c1 st = Ok b1 \<and> vs_config s2 = Some c2 \<and>
    get_total_assets d2 e2 c2 s2 = Ok b2 \<and> max_utilization_for_profit c1 wanted = Ok u \<and>
    es_funds_amount m + ba_vault_total b1 \<le> ba_vault_total b1 * u div DEC_ONE + ba_vault_takeable b1 \<and>
    lsd_get (lsd_group c2) token = Ok lsd \<and> al_query_pool (vd_assets d2) token (env_contract e2) = Ok x \<and>
    lsd_factor (vd_lsds d2) lsd = Ok rate \<and> ba_tvl_utoken b1 \<le> ba_tvl_utoken b2 + x * rate div DEC_ONE \<and>
    ba_vault_available b2 < ba_vault_available b1 \<and>
    (wanted * 900000000000000000 div DEC_ONE) * (ba_vault_available b1 - ba_vault_available b2)
      \<le> (ba_tvl_utoken b2 + x * rate div DEC_ONE - ba_tvl_utoken b1) * DEC_ONE \<and>
    9 * (ba_vault_available b1 - ba_vault_available b2) \<le> 2000 * (ba_tvl_utoken b2 + x * rate div DEC_ONE - ba_tvl_utoken b1) \<and>
    vault_locked st \<le> ba_vault_available b2 \<and> vs_unbond_history s2 = vs_unbond_history st \<and> vs_checkpoint s3 = None"
proof -
  have "execute_arbitrage d1 e1 i1 m token wanted st = Ok (s1, r1)" using assms(1) by simp
  then obtain c1 b1 u executor where c1: "vs_config st = Some c1" and b1: "get_total_assets d1 e1 c1 st = Ok b1"
    and u: "max_utilization_for_profit c1 wanted = Ok u" and "0 < es_funds_amount m" and min: "MIN_PROFIT \<le> wanted"
    and takes: "es_funds_amount m + ba_vault_total b1 \<le> ba_vault_total b1 * u div DEC_ONE + ba_vault_takeable b1"
    and s1: "s1 = st\<lparr>vs_checkpoint := Some \<lparr>bc_vault_available = ba_vault_available b1, bc_tvl_utoken = ba_tvl_utoken b1\<rparr>\<rparr>"
    and "resp_msgs r1 = map PlainMsg [WasmExecute executor (FlashLoan (es_msg m)) [mk_coin (es_funds_amount m) (va_utoken c1)],
      vault_callback_into_msg (AssertResult token wanted) (env_contract e1)]"
    by (rule execute_arbitrage_outcome)
  have same: "same_books s1 s2" by (rule outside_run_books [OF assms(2)]) (simp add: s1)
  have "execute_assert_result d2 e2 token wanted s2 = Ok (s3, r3)" using assms(3) by (auto simp: vault_handle_callback_def split: if_splits)
  then show ?thesis
  proof (rule assert_result_outcome)
    fix c2 :: vault_config and b2 :: balances and lsd x rate
    fix old :: balance_checkpoint
    let ?gain = "ba_tvl_utoken b2 + x * rate div DEC_ONE - bc_tvl_utoken old" and ?used = "bc_vault_available old - ba_vault_available b2"
    assume c2: "vs_config s2 = Some c2" and old: "vs_checkpoint s2 = Some old" and b2: "get_total_assets d2 e2 c2 s2 = Ok b2"
      and token: "lsd_get (lsd_group c2) token = Ok lsd" "al_query_pool (vd_assets d2) token (env_contract e2) = Ok x"
        "lsd_factor (vd_lsds d2) lsd = Ok rate" and used: "?used \<noteq> 0" and le: "bc_tvl_utoken old \<le> ba_tvl_utoken b2 + x * rate div DEC_ONE"
      and gain: "wanted * 900000000000000000 div DEC_ONE \<le> ?gain * DEC_ONE div ?used"
      and locked: "ba_locked b2 \<le> ba_vault_available b2" and finished: "vs_checkpoint s3 = None"
    have old_is: "bc_vault_available old = ba_vault_available b1" "bc_tvl_utoken old = ba_tvl_utoken b1"
      using old same by (simp_all add: s1 same_books_def)
    have percent: "(wanted * 900000000000000000 div DEC_ONE) * ?used \<le> ?gain * DEC_ONE"
      using mult_le_mono1 [OF gain, of ?used] div_times_less_eq_dividend [of "?gain * DEC_ONE" ?used] by linarith
    have "4500000000000000 \<le> wanted * 900000000000000000 div DEC_ONE"
      using div_le_mono [OF mult_le_mono1 [OF min, of 900000000000000000], of DEC_ONE] by (simp add: MIN_PROFIT_def DEC_ONE_def)
    then have "9 * ?used \<le> 2000 * ?gain" using percent by (rule least_profit)
    moreover have "vs_unbond_history s2 = vs_unbond_history st" "vault_locked s2 = vault_locked st"
      using same by (simp_all add: s1 same_books_def vault_locked_def)
    ultimately show ?thesis
      using c1 b1 u takes c2 b2 token used le percent locked finished locked_of_balances [OF b2] unfolding old_is by fastforce
  qed
qed

definition demo_flash :: execute_sub_msg where
  "demo_flash = \<lparr>es_contract_addr = Some ''trader'', es_msg = ''swap'', es_funds_amount = 1000\<rparr>"

definition demo_token :: asset_info where "demo_token = TokenAsset ''amp''"

definition vault_trading :: vault_state where
  "vault_trading = vault_queued\<lparr>vs_checkpoint := Some \<lparr>bc_vault_available = 5000, bc_tvl_utoken = 5000\<rparr>\<rparr>"

lemma demo_arbitrage: "\<exists>r. vault_execute (demo_vault_deps 5000 0) (demo_vault_env 700) \<lparr>info_sender = ''bot'', info_funds = []\<rparr>
    (VaultExecuteArbitrage demo_flash demo_token 10000000000000000) vault_queued = Ok (vault_trading, r)"
  by (simp add: vault_trading_def vault_queued_state vault_with_fees_state vault_start_state empty_vault_def demo_vault_defs demo_flash_def
      demo_token_def execute_arbitrage_def assert_not_nested_def assert_min_profit_def MIN_PROFIT_def assert_max_amount_def lsd_get_def
      lsd_asset_def calc_takeable_for_profit_def max_utilization_for_profit_def calc_vault_takeable_def num_defs U128_MAX_code DEC_ONE_code)

lemma demo_assert: "\<exists>st' r. vault_execute (demo_vault_deps 4000 1100) (demo_vault_env 700) \<lparr>info_sender = ''vault'', info_funds = []\<rparr>
    (VaultCallback (AssertResult demo_token 10000000000000000)) vault_trading = Ok (st', r)"
  by (simp add: vault_trading_def vault_queued_state vault_with_fees_state vault_start_state empty_vault_def demo_vault_defs
      demo_token_def vault_handle_callback_def execute_assert_result_def assert_is_nested_def lsd_get_def lsd_asset_def calculation_def
      performance_fee_def dec_from_ratio_def num_defs U128_MAX_code DEC_ONE_code)

theorem arbitrage_pays_off_witness:
  "\<exists>s3 r1 r3 (b1 :: balances) (b2 :: balances) x rate.
    vault_execute (demo_vault_deps 5000 0) (demo_vault_env 700) \<lparr>info_sender = ''bot'', info_funds = []\<rparr>
      (VaultExecuteArbitrage demo_flash demo_token 10000000000000000) vault_queued = Ok (vault_trading, r1) \<and>
    vault_execute (demo_vault_deps 4000 1100) (demo_vault_env 700) \<lparr>info_sender = ''vault'', info_funds = []\<rparr>
      (VaultCallback (AssertResult demo_token 10000000000000000)) vault_trading = Ok (s3, r3) \<and>
    9 * (ba_vault_available b1 - ba_vault_available b2) \<le> 2000 * (ba_tvl_utoken b2 + x * rate div DEC_ONE - ba_tvl_utoken b1) \<and>
    ba_vault_available b2 < ba_vault_available b1 \<and> vs_checkpoint s3 = None"
proof -
  obtain r1 where start: "vault_execute (demo_vault_deps 5000 0) (demo_vault_env 700) \<lparr>info_sender = ''bot'', info_funds = []\<rparr>
      (VaultExecuteArbitrage demo_flash demo_token 10000000000000000) vault_queued = Ok (vault_trading, r1)" using demo_arbitrage by blast
  obtain s3 r3 where finish: "vault_execute (demo_vault_deps 4000 1100) (demo_vault_env 700) \<lparr>info_sender = ''vault'', info_funds = []\<rparr>
      (VaultCallback (AssertResult demo_token 10000000000000000)) vault_trading = Ok (s3, r3)" using demo_assert by blast
  from arbitrage_pays_off [OF start outside_start finish] start finish show ?thesis by blast
qed

section \<open>Trades with the vault\<close>

text \<open>
  C34: while shares are outstanding, neither a deposit nor shares that are handed in lower the assets behind a share: what a deposit mints, and what a
  request or an immediate payment takes out, is rounded against the user. Unless the sender of the shares asks for an immediate payment, a request is recorded
  with its amount, and that much more is locked; an immediate payment follows the rules of every payment, with the whole pool fee of the stored
  configuration. In both cases the shares are burnt.
\<close>
theorem vault_trades_keep_the_rate:
  assumes "vault_execute deps env info msg st = Ok (st', r)" and "vs_config st = Some c" and "query_lp_supply deps c = Ok S" and "0 < S"
    and "get_total_assets deps env c st = Ok b"
  shows "case msg of
      VaultProvideLiquidity a rcv \<Rightarrow> \<exists>m to. resp_msgs r = [PlainMsg (mint_liquidity_token_message c to m)] \<and> st' = st \<and>
        as_amount a \<le> ba_vault_total b \<and> (ba_vault_total b - as_amount a) * (S + m) \<le> ba_vault_total b * S
    | VaultReceive w \<Rightarrow> info_sender info = va_lp_addr c \<and> (\<exists>amount user immediate r0. vd_addr_validate deps (cw20_sender w) = Ok user \<and>
        cw20_payload w = Decoded (VaultUnbondHook immediate) \<and>
        resp_msgs r = resp_msgs r0 @ [PlainMsg (create_burn_msg c (cw20_amount w))] \<and>
        (cw20_amount w \<le> S \<longrightarrow> amount \<le> ba_vault_total b \<and>
          ba_vault_total b * (S - cw20_amount w) \<le> (ba_vault_total b - amount) * S) \<and>
        (if immediate = Some True
         then \<exists>f. vs_fee_config st = Some f \<and> pays_out deps env c f user amount (amount * vf_immediate f div DEC_ONE) st st' r0
         else \<exists>n h. vs_unbond_id st = Some n \<and> get (vs_unbond_history st') (user, n) = Some h \<and> uh_amount_asset h = amount \<and>
            uh_release_time h = env_time env + va_unbond_time_s c \<and> vault_locked st' = vault_locked st + amount \<and> resp_msgs r0 = []))
    | _ \<Rightarrow> True"
proof (cases msg)
  case (VaultProvideLiquidity a rcv)
  then have "execute_provide_liquidity deps env info a rcv st = Ok (st', r)" using assms(1) by simp
  then show ?thesis
  proof (rule provide_outcome [OF _ assms(2-5)])
    fix m to
    assume issue: "vault_issues S (ba_vault_total b - as_amount a) (as_amount a) m" and le: "as_amount a \<le> ba_vault_total b"
      and res: "resp_msgs r = [PlainMsg (mint_liquidity_token_message c to m)]" "st' = st"
    from arb_shares.deposit_keeps_rate [OF issue] le res show ?thesis by (auto simp: VaultProvideLiquidity)
  qed
next
  case (VaultReceive w)
  obtain user immediate where user: "vd_addr_validate deps (cw20_sender w) = Ok user"
    and hook: "cw20_payload w = Decoded (VaultUnbondHook immediate)"
    and unbond: "execute_unbond_user deps env info user (cw20_amount w) immediate st = Ok (st', r)"
    using assms(1) VaultReceive
    by (cases "cw20_payload w") (auto simp: vault_receive_cw20_def ok_simps split: result.splits vault_hook_msg.splits)
  from unbond show ?thesis
  proof (rule unbond_outcome [OF _ assms(2,3,5)])
    fix amount r0
    assume pays: "vault_pays S (ba_vault_total b) (cw20_amount w) amount" and sender: "info_sender info = va_lp_addr c"
      and r: "resp_msgs r = resp_msgs r0 @ [PlainMsg (create_burn_msg c (cw20_amount w))]"
      and how: "if immediate = Some True then create_withdraw_msgs deps env c user amount DEC_ONE 0 st = Ok (st', r0)
        else queue_unbond_user env c user amount (ba_tvl_utoken b) S (cw20_amount w) st = Ok (st', r0)"
    have rate: "cw20_amount w \<le> S \<longrightarrow> amount \<le> ba_vault_total b \<and>
        ba_vault_total b * (S - cw20_amount w) \<le> (ba_vault_total b - amount) * S"
      using arb_shares.payout_le_assets [OF pays] arb_shares.payout_keeps_rate [OF pays] by simp
    have taken: "if immediate = Some True
         then \<exists>f. vs_fee_config st = Some f \<and> pays_out deps env c f user amount (amount * vf_immediate f div DEC_ONE) st st' r0
         else \<exists>n h. vs_unbond_id st = Some n \<and> get (vs_unbond_history st') (user, n) = Some h \<and> uh_amount_asset h = amount \<and>
            uh_release_time h = env_time env + va_unbond_time_s c \<and> vault_locked st' = vault_locked st + amount \<and> resp_msgs r0 = []"
    proof (cases "immediate = Some True")
      case True
      with how have "create_withdraw_msgs deps env c user amount DEC_ONE 0 st = Ok (st', r0)" by simp
      then show ?thesis by (rule create_withdraw_msgs_outcome) (simp add: True DEC_ONE_def)
    next
      case False
      with how have "queue_unbond_user env c user amount (ba_tvl_utoken b) S (cw20_amount w) st = Ok (st', r0)" by simp
      then show ?thesis by (rule queue_outcome) (simp add: False store_simps vault_locked_def)
    qed
    show ?thesis unfolding VaultReceive vault_execute_msg.case
      by (intro conjI exI [of _ amount] exI [of _ user] exI [of _ immediate] exI [of _ r0]) (rule sender user hook r rate taken)+
  qed
qed simp_all

lemma demo_unbond: "\<exists>st' r. vault_execute (demo_vault_deps 5000 0) (demo_vault_env 700) \<lparr>info_sender = ''lp'', info_funds = []\<rparr>
    (vault_hook 100 None) vault_queued = Ok (st', r)"
  by (simp add: vault_queued_state vault_with_fees_state vault_start_state empty_vault_def demo_vault_defs demo_vault_ops
      num_defs U128_MAX_code U64_MAX_code DEC_ONE_code)

theorem vault_trades_keep_the_rate_witness:
  "\<exists>st' r c b amount. vault_execute (demo_vault_deps 5000 0) (demo_vault_env 700) \<lparr>info_sender = ''lp'', info_funds = []\<rparr>
      (vault_hook 100 None) vault_queued = Ok (st', r) \<and>
    get_total_assets (demo_vault_deps 5000 0) (demo_vault_env 700) c vault_queued = Ok b \<and>
    amount \<le> ba_vault_total b \<and> ba_vault_total b * (1000 - 100) \<le> (ba_vault_total b - amount) * 1000"
proof -
  obtain st' r where step: "vault_execute (demo_vault_deps 5000 0) (demo_vault_env 700) \<lparr>info_sender = ''lp'', info_funds = []\<rparr>
    (vault_hook 100 None) vault_queued = Ok (st', r)" using demo_unbond by blast
  obtain c where c: "vs_config vault_queued = Some c" by (simp add: vault_queued_state vault_with_fees_state)
  moreover have "\<exists>b. get_total_assets (demo_vault_deps 5000 0) (demo_vault_env 700) c vault_queued = Ok b"
    using c by (auto simp: vault_queued_state vault_with_fees_state demo_vault_defs num_defs U128_MAX_code)
  then obtain b where "get_total_assets (demo_vault_deps 5000 0) (demo_vault_env 700) c vault_queued = Ok b" by blast
  moreover have "query_lp_supply (demo_vault_deps 5000 0) c = Ok 1000" by (simp add: demo_vault_defs)
  ultimately show ?thesis using step vault_trades_keep_the_rate [OF step, of c 1000 b] by (auto simp: vault_hook_def)
qed

section \<open>Without a fee configuration\<close>

text \<open>
  Instantiation does not store the fees of its message. Until the owner sets them no arbitrage can be completed, no shares can be
  handed in and nothing can be withdrawn.
\<close>

lemma instantiate_leaves_no_fees: "vault_instantiate deps env msg empty_vault = Ok (st, r) \<Longrightarrow> vs_fee_config st = None"
  by (auto simp: vault_instantiate_def empty_vault_def ok_simps)

fun needs_fees :: "vault_execute_msg \<Rightarrow> bool" where
  "needs_fees (VaultReceive m) = True"
| "needs_fees VaultWithdrawUnbonded = True"
| "needs_fees (VaultWithdrawImmediate n) = True"
| "needs_fees (VaultCallback m) = True"
| "needs_fees _ = False"

lemma no_payments_without_fees:
  assumes "vs_fee_config st = None" and "needs_fees msg"
  shows "vault_execute deps env info msg st \<noteq> Ok (st', r)"
proof
  assume step: "vault_execute deps env info msg st = Ok (st', r)"
  have none: "create_withdraw_msgs deps env c rcv a f l st \<noteq> Ok x" for c rcv a f l x
    using create_withdraw_msgs_outcome [of deps env c rcv a f l st "fst x" "snd x"] assms(1) by auto
  from step assms(2) show False
  proof (cases msg)
    case (VaultReceive m)
    then show ?thesis using step none assms(1)
      by (auto simp: vault_receive_cw20_def execute_unbond_user_def queue_unbond_user_def ok_simps split: result.splits vault_hook_msg.splits if_splits)
  next
    case VaultWithdrawUnbonded
    then show ?thesis using step none by (auto simp: execute_withdraw_unbonded_def Let_def ok_simps)
  next
    case (VaultWithdrawImmediate n)
    then show ?thesis using step none by (auto simp: execute_withdraw_unbonding_immediate_def ok_simps)
  next
    case (VaultCallback m)
    then show ?thesis using step assms(1)
      by (cases m) (auto simp: vault_handle_callback_def execute_assert_result_def ok_simps guard_Ok simp del: if_split)
  qed simp_all
qed

end
