(* ===== verification/Extractor.thy ===== *)
theory Extractor
  imports Assets
begin

text \<open>
  The amp extractor (\<open>contracts/amp-extractor\<close>): it holds liquid staking tokens for the holders of its LP token and sets aside
  a part of what the exchange rate of the hub has grown. The version of the contract that \<open>cw2\<close> stores is left out.
\<close>

section \<open>Messages and state\<close>

datatype liquid_staking_type = LiquidEris | LiquidStader | LiquidSteak

record extract_config =
  xc_yield_extract_addr :: addr
  xc_yield_extract_p :: decimal
  xc_hub_contract :: addr
  xc_interface :: liquid_staking_type

record extractor_instantiate_msg =
  xim_owner :: string
  xim_cw20_code_id :: u64
  xim_symbol :: string
  xim_decimals :: nat
  xim_name :: string
  xim_label :: string
  xim_hub_contract :: string
  xim_stake_token :: string
  xim_interface :: liquid_staking_type
  xim_yield_extract_addr :: string
  xim_yield_extract_p :: decimal

datatype extractor_hook_msg = ExtractorDeposit | ExtractorWithdraw

datatype extractor_execute_msg =
    ExtractorReceive "extractor_hook_msg decoded cw20_receive_msg"
  | ExtractorHarvest
  | ExtractorUpdateConfig "string option"
  | ExtractorTransferOwnership string
  | ExtractorAcceptOwnership

datatype extractor_payload =
    ExtractorToken "unit token_msg"
  | ExtractorInitToken string string nat addr

type_synonym extractor_response = "extractor_payload response"

record extractor_state =
  xs_owner :: "addr option"
  xs_new_owner :: "addr option"
  xs_lp_token :: "addr option"
  xs_stake_token :: "addr option"
  xs_extract_config :: "extract_config option"
  xs_stake_extracted :: "u128 option"
  xs_stake_harvested :: "u128 option"
  xs_last_exchange_rate :: "decimal option"

type_synonym extractor_result = "(extractor_state \<times> extractor_response, std_error) result"

definition empty_extractor :: extractor_state where
  "empty_extractor = \<lparr>xs_owner = None, xs_new_owner = None, xs_lp_token = None, xs_stake_token = None, xs_extract_config = None,
     xs_stake_extracted = None, xs_stake_harvested = None, xs_last_exchange_rate = None\<rparr>"

text \<open>What the contract asks: tokens for supply and balance, and the hub, by the shape of its answer, for its rate.\<close>

record extractor_deps =
  xd_addr_validate :: "string \<Rightarrow> (addr, std_error) result"
  xd_total_supply :: "addr \<Rightarrow> (u128, std_error) result"
  xd_balance :: "addr \<Rightarrow> addr \<Rightarrow> (u128, std_error) result"
  xd_eris_rate :: "addr \<Rightarrow> (decimal, std_error) result"
  xd_stader_rate :: "addr \<Rightarrow> (decimal, std_error) result"
  xd_steak_rate :: "addr \<Rightarrow> (decimal, std_error) result"

fun query_exchange_rate :: "extractor_deps \<Rightarrow> liquid_staking_type \<Rightarrow> addr \<Rightarrow> (decimal, std_error) result" where
  "query_exchange_rate deps LiquidEris hub = xd_eris_rate deps hub"
| "query_exchange_rate deps LiquidStader hub = xd_stader_rate deps hub"
| "query_exchange_rate deps LiquidSteak hub = xd_steak_rate deps hub"

definition extractor_assert_owner :: "extractor_state \<Rightarrow> addr \<Rightarrow> (unit, std_error) result" where
  "extractor_assert_owner st sender =
     and_then (load_item (xs_owner st)) (\<lambda>owner.
     if sender = owner then Ok () else Err (GenericErr ''unauthorized: sender is not owner''))"

section \<open>math.rs, constants.rs\<close>

definition lp_mint_amount :: "u128 \<Rightarrow> u128 \<Rightarrow> u128 \<Rightarrow> (u128, 'e) result" where
  "lp_mint_amount lp_supply stake_deposited stake_available =
     (if stake_available = 0 then Ok stake_deposited else multiply_ratio lp_supply stake_deposited stake_available)"

definition lp_withdraw_amount :: "u128 \<Rightarrow> u128 \<Rightarrow> u128 \<Rightarrow> (u128, 'e) result" where
  "lp_withdraw_amount lp_supply lp_to_burn stake_available =
     (if lp_supply = 0 then Ok 0 else multiply_ratio stake_available lp_to_burn lp_supply)"

definition yield_extract_max :: decimal where "yield_extract_max = DEC_ONE"
definition yield_extract_min :: decimal where "yield_extract_min = 0"

definition assert_valid_yield_extract :: "decimal \<Rightarrow> (unit, std_error) result" where
  "assert_valid_yield_extract p =
     (if p > yield_extract_max then Err (GenericErr (CHR 0x27 # ''yield_extract'' @ CHR 0x27 # '' greater than max''))
      else if p < yield_extract_min then Err (GenericErr (CHR 0x27 # ''yield_extract'' @ CHR 0x27 # '' less than min''))
      else Ok ())"

section \<open>Instantiation\<close>

definition extractor_instantiate :: "extractor_deps \<Rightarrow> env \<Rightarrow> extractor_instantiate_msg \<Rightarrow> extractor_state \<Rightarrow> extractor_result" where
  "extractor_instantiate deps env msg st =
     and_then (assert_valid_yield_extract (xim_yield_extract_p msg)) (\<lambda>_.
     and_then (xd_addr_validate deps (xim_owner msg)) (\<lambda>owner.
     and_then (xd_addr_validate deps (xim_stake_token msg)) (\<lambda>stake_token.
     and_then (xd_addr_validate deps (xim_yield_extract_addr msg)) (\<lambda>yield_addr.
     and_then (xd_addr_validate deps (xim_hub_contract msg)) (\<lambda>hub.
     Ok (st\<lparr>xs_owner := Some owner, xs_last_exchange_rate := Some 0, xs_stake_extracted := Some 0, xs_stake_harvested := Some 0,
         xs_stake_token := Some stake_token,
         xs_extract_config := Some \<lparr>xc_yield_extract_addr = yield_addr, xc_yield_extract_p = xim_yield_extract_p msg,
           xc_hub_contract = hub, xc_interface = xim_interface msg\<rparr>\<rparr>,
       add_submessage new_response (ReplyOnSuccess
         (WasmInstantiate (Some (xim_owner msg)) (xim_cw20_code_id msg)
           (ExtractorInitToken (xim_name msg) (xim_symbol msg) (xim_decimals msg) (env_contract env)) [] (xim_label msg)) 1)))))))"

definition register_extractor_lp :: "extractor_deps \<Rightarrow> event list \<Rightarrow> extractor_state \<Rightarrow> extractor_result" where
  "register_extractor_lp deps events st =
     and_then (ok_or (GenericErr ''cannot find `instantiate` event'') (find (\<lambda>e. ev_type e = ''instantiate'') events)) (\<lambda>event.
     and_then (ok_or (GenericErr ''cannot find `_contract_address` attribute'')
       (find (\<lambda>a. fst a = ''_contract_address'') (ev_attrs event))) (\<lambda>attribute.
     and_then (xd_addr_validate deps (snd attribute)) (\<lambda>contract_addr.
     Ok (st\<lparr>xs_lp_token := Some contract_addr\<rparr>, new_response))))"

definition extractor_reply :: "extractor_deps \<Rightarrow> reply \<Rightarrow> extractor_state \<Rightarrow> extractor_result" where
  "extractor_reply deps r st =
     (if reply_id r = 1 then and_then (unwrap_reply r) (\<lambda>events. register_extractor_lp deps events st)
      else Err (GenericErr (''invalid reply id: '' @ nat_str (reply_id r) @ ''; must be 1-3'')))"

section \<open>Extraction\<close>

text \<open>What is extracted when the rate has grown from \<open>before\<close> to \<open>now\<close>.\<close>

definition stake_to_extract :: "decimal \<Rightarrow> decimal \<Rightarrow> decimal \<Rightarrow> u128 \<Rightarrow> (u128, std_error) result" where
  "stake_to_extract now before part available =
     and_then (dec_from_ratio (now - before) now) (\<lambda>diff.
     and_then (dec_checked_mul diff part) (\<lambda>d.
     checked_mul_uint d available))"

definition extract_yield :: "extractor_deps \<Rightarrow> env \<Rightarrow> u128 option \<Rightarrow> extractor_state \<Rightarrow> (extractor_state \<times> u128, std_error) result" where
  "extract_yield deps env offset_balance st =
     and_then (load_item (xs_extract_config st)) (\<lambda>config.
     and_then (load_item (xs_stake_token st)) (\<lambda>stake_token.
     and_then (load_item (xs_stake_extracted st)) (\<lambda>stake_extracted.
     and_then (load_item (xs_last_exchange_rate st)) (\<lambda>before.
     and_then (query_exchange_rate deps (xc_interface config) (xc_hub_contract config)) (\<lambda>now.
     and_then (xd_balance deps stake_token (env_contract env)) (\<lambda>balance.
     and_then (case offset_balance of Some offset \<Rightarrow> checked_sub balance offset | None \<Rightarrow> Ok balance) (\<lambda>in_contract.
     and_then (checked_sub in_contract stake_extracted) (\<lambda>available.
     if now \<le> before then Ok (st, available)
     else if before = 0 then Ok (st\<lparr>xs_last_exchange_rate := Some now\<rparr>, available)
     else
       and_then (stake_to_extract now before (xc_yield_extract_p config) available) (\<lambda>more.
       and_then (checked_add stake_extracted more) (\<lambda>extracted.
       and_then (checked_sub in_contract extracted) (\<lambda>available.
       Ok (st\<lparr>xs_stake_extracted := Some extracted, xs_last_exchange_rate := Some now\<rparr>, available))))))))))))"

section \<open>Operations\<close>

definition extractor_harvest :: "extractor_deps \<Rightarrow> env \<Rightarrow> addr \<Rightarrow> extractor_state \<Rightarrow> extractor_result" where
  "extractor_harvest deps env user st =
     and_then (load_item (xs_stake_token st)) (\<lambda>stake_token.
     and_then (load_item (xs_extract_config st)) (\<lambda>config.
     and_then (extract_yield deps env None st) (\<lambda>(st, _).
     and_then (load_item (xs_stake_extracted st)) (\<lambda>extracted.
     and_then (load_item (xs_stake_harvested st)) (\<lambda>harvested.
     and_then (checked_add harvested extracted) (\<lambda>harvested.
     Ok (st\<lparr>xs_stake_extracted := Some 0, xs_stake_harvested := Some harvested\<rparr>,
       add_attribute (add_event
         (add_message new_response (WasmExecute stake_token (ExtractorToken (TokenTransfer (xc_yield_extract_addr config) extracted)) []))
         (new_event ''erisextractor/harvested'' [(''user'', user), (''stake_extracted'', nat_str extracted)]))
         ''action'' ''erisextractor/harvest'')))))))"

definition extractor_withdraw :: "extractor_deps \<Rightarrow> env \<Rightarrow> addr \<Rightarrow> u128 \<Rightarrow> extractor_state \<Rightarrow> extractor_result" where
  "extractor_withdraw deps env user lp_amount st =
     and_then (load_item (xs_stake_token st)) (\<lambda>stake_token.
     and_then (load_item (xs_lp_token st)) (\<lambda>lp_token.
     and_then (xd_total_supply deps lp_token) (\<lambda>lp_supply.
     and_then (extract_yield deps env None st) (\<lambda>(st, available).
     and_then (lp_withdraw_amount lp_supply lp_amount available) (\<lambda>amount.
     Ok (st, add_attribute (add_event (add_messages new_response
         [WasmExecute lp_token (ExtractorToken (TokenBurn lp_amount)) [],
          WasmExecute stake_token (ExtractorToken (TokenTransfer user amount)) []])
         (new_event ''erisextractor/withdrawn'' [(''user'', user), (''stake_withdrawn'', nat_str amount), (''lp_burned'', nat_str lp_amount)]))
         ''action'' ''erisextractor/withdraw''))))))"

definition extractor_deposit :: "extractor_deps \<Rightarrow> env \<Rightarrow> addr \<Rightarrow> u128 \<Rightarrow> extractor_state \<Rightarrow> extractor_result" where
  "extractor_deposit deps env receiver stake_deposited st =
     and_then (load_item (xs_lp_token st)) (\<lambda>lp_token.
     and_then (xd_total_supply deps lp_token) (\<lambda>lp_supply.
     and_then (extract_yield deps env (Some stake_deposited) st) (\<lambda>(st, available).
     and_then (lp_mint_amount lp_supply stake_deposited available) (\<lambda>amount.
     Ok (st, add_attribute (add_event
         (add_message new_response (WasmExecute lp_token (ExtractorToken (TokenMint receiver amount)) []))
         (new_event ''erisextractor/deposited''
           [(''receiver'', receiver), (''stake_deposited'', nat_str stake_deposited), (''lp_minted'', nat_str amount)]))
         ''action'' ''erisextractor/deposit'')))))"

definition extractor_transfer_ownership :: "extractor_deps \<Rightarrow> addr \<Rightarrow> string \<Rightarrow> extractor_state \<Rightarrow> extractor_result" where
  "extractor_transfer_ownership deps sender new_owner st =
     and_then (extractor_assert_owner st sender) (\<lambda>_.
     and_then (xd_addr_validate deps new_owner) (\<lambda>new_owner.
     Ok (st\<lparr>xs_new_owner := Some new_owner\<rparr>, add_attribute new_response ''action'' ''erisextractor/transfer_ownership'')))"

definition extractor_accept_ownership :: "addr \<Rightarrow> extractor_state \<Rightarrow> extractor_result" where
  "extractor_accept_ownership sender st =
     and_then (load_item (xs_owner st)) (\<lambda>previous_owner.
     and_then (load_item (xs_new_owner st)) (\<lambda>new_owner.
     if sender \<noteq> new_owner then Err (GenericErr ''unauthorized: sender is not new owner'')
     else Ok (st\<lparr>xs_owner := Some sender, xs_new_owner := None\<rparr>,
       add_attribute (add_event new_response (new_event ''erisextractor/ownership_transferred''
         [(''new_owner'', new_owner), (''previous_owner'', previous_owner)])) ''action'' ''erisextractor/transfer_ownership'')))"

definition extractor_update_config :: "extractor_deps \<Rightarrow> addr \<Rightarrow> string option \<Rightarrow> extractor_state \<Rightarrow> extractor_result" where
  "extractor_update_config deps sender yield_extract_addr st =
     and_then (extractor_assert_owner st sender) (\<lambda>_.
     and_then (load_item (xs_extract_config st)) (\<lambda>config.
     and_then (case yield_extract_addr of
         Some a \<Rightarrow> and_then (xd_addr_validate deps a) (\<lambda>a. Ok (config\<lparr>xc_yield_extract_addr := a\<rparr>))
       | None \<Rightarrow> Ok config) (\<lambda>config.
     Ok (st\<lparr>xs_extract_config := Some config\<rparr>, add_attribute new_response ''action'' ''erisextractor/update_config''))))"

definition extractor_receive ::
    "extractor_deps \<Rightarrow> env \<Rightarrow> message_info \<Rightarrow> extractor_hook_msg decoded cw20_receive_msg \<Rightarrow> extractor_state \<Rightarrow> extractor_result" where
  "extractor_receive deps env info msg st =
     and_then (from_binary (cw20_payload msg)) (\<lambda>hook.
     case hook of
       ExtractorWithdraw \<Rightarrow>
         and_then (load_item (xs_lp_token st)) (\<lambda>lp_token.
         if info_sender info \<noteq> lp_token then Err (GenericErr (''expecting LP token, received '' @ info_sender info))
         else and_then (xd_addr_validate deps (cw20_sender msg)) (\<lambda>user. extractor_withdraw deps env user (cw20_amount msg) st))
     | ExtractorDeposit \<Rightarrow>
         and_then (load_item (xs_stake_token st)) (\<lambda>stake_token.
         if info_sender info \<noteq> stake_token then Err (GenericErr (''expecting Stake token, received '' @ info_sender info))
         else and_then (xd_addr_validate deps (cw20_sender msg)) (\<lambda>user. extractor_deposit deps env user (cw20_amount msg) st)))"

fun extractor_execute :: "extractor_deps \<Rightarrow> env \<Rightarrow> message_info \<Rightarrow> extractor_execute_msg \<Rightarrow> extractor_state \<Rightarrow> extractor_result" where
  "extractor_execute deps env info (ExtractorReceive msg) st = extractor_receive deps env info msg st"
| "extractor_execute deps env info (ExtractorTransferOwnership new_owner) st = extractor_transfer_ownership deps (info_sender info) new_owner st"
| "extractor_execute deps env info ExtractorAcceptOwnership st = extractor_accept_ownership (info_sender info) st"
| "extractor_execute deps env info ExtractorHarvest st = extractor_harvest deps env (info_sender info) st"
| "extractor_execute deps env info (ExtractorUpdateConfig a) st = extractor_update_config deps (info_sender info) a st"

definition extractor_migrate :: "extractor_state \<Rightarrow> extractor_result" where
  "extractor_migrate st = Ok (st, new_response)"

section \<open>Queries\<close>

record extractor_config_response =
  xcr_hub_contract :: string
  xcr_interface :: liquid_staking_type
  xcr_lp_token :: string
  xcr_stake_token :: string
  xcr_owner :: string
  xcr_new_owner :: "string option"
  xcr_yield_extract_addr :: string
  xcr_yield_extract_p :: decimal

record extractor_state_response =
  xsr_total_lp :: u128
  xsr_stake_balance :: u128
  xsr_stake_extracted :: u128
  xsr_stake_harvested :: u128
  xsr_stake_available :: u128
  xsr_exchange_rate_lp_stake :: decimal
  xsr_exchange_rate_stake_uluna :: decimal
  xsr_tvl_uluna :: u128
  xsr_user_share :: "u128 option"
  xsr_user_received_asset :: "u128 option"

record share_response =
  xsh_received_asset :: u128
  xsh_share :: u128
  xsh_total_lp :: u128

definition extractor_query_config :: "extractor_state \<Rightarrow> (extractor_config_response, std_error) result" where
  "extractor_query_config st =
     and_then (load_item (xs_extract_config st)) (\<lambda>config.
     and_then (load_item (xs_owner st)) (\<lambda>owner.
     and_then (load_item (xs_lp_token st)) (\<lambda>lp_token.
     and_then (load_item (xs_stake_token st)) (\<lambda>stake_token.
     Ok \<lparr>xcr_hub_contract = xc_hub_contract config, xcr_interface = xc_interface config, xcr_lp_token = lp_token,
       xcr_stake_token = stake_token, xcr_owner = owner, xcr_new_owner = xs_new_owner st,
       xcr_yield_extract_addr = xc_yield_extract_addr config, xcr_yield_extract_p = xc_yield_extract_p config\<rparr>))))"

text \<open>The balance of an address, if one is given.\<close>

definition share_of :: "extractor_deps \<Rightarrow> addr \<Rightarrow> string option \<Rightarrow> (u128 option, std_error) result" where
  "share_of deps lp_token a = (case a of
     Some a \<Rightarrow> and_then (xd_addr_validate deps a) (\<lambda>a. and_then (xd_balance deps lp_token a) (\<lambda>s. Ok (Some s)))
   | None \<Rightarrow> Ok None)"

definition extractor_query_state :: "extractor_deps \<Rightarrow> env \<Rightarrow> string option \<Rightarrow> extractor_state \<Rightarrow> (extractor_state_response, std_error) result" where
  "extractor_query_state deps env a st =
     and_then (load_item (xs_extract_config st)) (\<lambda>config.
     and_then (load_item (xs_lp_token st)) (\<lambda>lp_token.
     and_then (xd_total_supply deps lp_token) (\<lambda>total_lp.
     and_then (load_item (xs_stake_token st)) (\<lambda>stake_token.
     and_then (xd_balance deps stake_token (env_contract env)) (\<lambda>balance.
     and_then (load_item (xs_stake_harvested st)) (\<lambda>harvested.
     and_then (load_item (xs_stake_extracted st)) (\<lambda>extracted.
     and_then (checked_sub balance extracted) (\<lambda>available.
     and_then (load_item (xs_last_exchange_rate st)) (\<lambda>before.
     and_then (query_exchange_rate deps (xc_interface config) (xc_hub_contract config)) (\<lambda>now.
     and_then (if now \<le> before \<or> before = 0 then Ok (extracted, available)
       else
         and_then (stake_to_extract now before (xc_yield_extract_p config) available) (\<lambda>more.
         and_then (checked_add extracted more) (\<lambda>extracted.
         and_then (checked_sub balance extracted) (\<lambda>available.
         Ok (extracted, available))))) (\<lambda>(extracted, available).
     and_then (if total_lp = 0 then Ok 0 else dec_from_ratio available total_lp) (\<lambda>lp_rate.
     and_then (share_of deps lp_token a) (\<lambda>user_share.
     and_then (case user_share of
         Some s \<Rightarrow> and_then (lp_withdraw_amount total_lp s available) (\<lambda>x. Ok (Some x)) | None \<Rightarrow> Ok None) (\<lambda>received.
     and_then (checked_mul_uint now balance) (\<lambda>tvl.
     Ok \<lparr>xsr_total_lp = total_lp, xsr_stake_balance = balance, xsr_stake_extracted = extracted, xsr_stake_harvested = harvested,
       xsr_stake_available = available, xsr_exchange_rate_lp_stake = lp_rate, xsr_exchange_rate_stake_uluna = now, xsr_tvl_uluna = tvl,
       xsr_user_share = user_share, xsr_user_received_asset = received\<rparr>)))))))))))))))"

definition extractor_query_share :: "extractor_deps \<Rightarrow> env \<Rightarrow> string option \<Rightarrow> extractor_state \<Rightarrow> (share_response, std_error) result" where
  "extractor_query_share deps env a st =
     and_then (load_item (xs_lp_token st)) (\<lambda>lp_token.
     and_then (load_item (xs_stake_token st)) (\<lambda>stake_token.
     and_then (load_item (xs_stake_extracted st)) (\<lambda>extracted.
     and_then (xd_total_supply deps lp_token) (\<lambda>total_lp.
     and_then (xd_balance deps stake_token (env_contract env)) (\<lambda>balance.
     and_then (checked_sub balance extracted) (\<lambda>available.
     and_then (share_of deps lp_token a) (\<lambda>share.
     and_then (lp_withdraw_amount total_lp (unwrap_or share 0) available) (\<lambda>received.
     Ok \<lparr>xsh_received_asset = received, xsh_share = unwrap_or share 0, xsh_total_lp = total_lp\<rparr>))))))))"

datatype extractor_query_msg =
    ExtractorConfigQuery
  | ExtractorStateQuery "string option"
  | ExtractorShareQuery "string option"

datatype extractor_answer =
    ExtractorConfigAnswer extractor_config_response
  | ExtractorStateAnswer extractor_state_response
  | ExtractorShareAnswer share_response

fun extractor_query :: "extractor_deps \<Rightarrow> env \<Rightarrow> extractor_query_msg \<Rightarrow> extractor_state \<Rightarrow> (extractor_answer, std_error) result" where
  "extractor_query deps env ExtractorConfigQuery st = and_then (extractor_query_config st) (\<lambda>r. Ok (ExtractorConfigAnswer r))"
| "extractor_query deps env (ExtractorStateQuery a) st = and_then (extractor_query_state deps env a st) (\<lambda>r. Ok (ExtractorStateAnswer r))"
| "extractor_query deps env (ExtractorShareQuery a) st = and_then (extractor_query_share deps env a st) (\<lambda>r. Ok (ExtractorShareAnswer r))"

end
