(* ===== verification/ExtractorProps.thy ===== *)
theory ExtractorProps
  imports Extractor ShareVault
begin

text \<open>
  Properties of the amp extractor. It is run together with the balance of staked tokens it holds and the supply of its LP token: what a share
  is worth, in coins at the rate last seen, never falls, and what is set aside is there.
\<close>

section \<open>Shares\<close>

definition lp_issues :: "u128 \<Rightarrow> u128 \<Rightarrow> u128 \<Rightarrow> u128 \<Rightarrow> bool" where
  "lp_issues S T a m \<longleftrightarrow> lp_mint_amount S a T = (Ok m :: (u128, std_error) result)"

definition lp_pays :: "u128 \<Rightarrow> u128 \<Rightarrow> u128 \<Rightarrow> u128 \<Rightarrow> bool" where
  "lp_pays S T s r \<longleftrightarrow> 0 < S \<and> lp_withdraw_amount S s T = (Ok r :: (u128, std_error) result)"

interpretation lp_shares: share_vault lp_issues lp_pays
proof
  fix S T a m s r :: nat
  show "m * T \<le> a * S" and "a * S < (m + 1) * T" if "lp_issues S T a m" and "0 < T"
    using that dividend_less_div_times [of T "a * S"]
    by (auto simp: lp_issues_def lp_mint_amount_def ok_simps mult.commute [of S a] div_times_less_eq_dividend)
  show "lp_issues S 0 a m \<Longrightarrow> m = a" by (auto simp: lp_issues_def lp_mint_amount_def)
  show "lp_pays S T s r \<Longrightarrow> r * S \<le> s * T" and "lp_pays S T s r \<Longrightarrow> s * T < (r + 1) * S"
    using dividend_less_div_times [of S "s * T"]
    by (auto simp: lp_pays_def lp_withdraw_amount_def ok_simps mult.commute [of T s] div_times_less_eq_dividend)
qed

section \<open>Extraction\<close>

lemma div_times_le: "a div b * b \<le> a" for a b :: nat
  by (rule div_times_less_eq_dividend)

lemma stake_to_extract_bound:
  assumes "stake_to_extract now before part available = Ok x" and "before \<le> now"
  shows "x * now * DEC_ONE \<le> available * (now - before) * part"
proof -
  let ?d = "(now - before) * DEC_ONE div now"
  have now: "now \<noteq> 0" and x: "x = available * (?d * part div DEC_ONE) div DEC_ONE"
    using assms(1) by (auto simp: stake_to_extract_def ok_simps)
  have "x * DEC_ONE * DEC_ONE \<le> available * (?d * part div DEC_ONE) * DEC_ONE" unfolding x by (intro mult_le_mono1 div_times_le)
  also have "\<dots> \<le> available * (?d * part)" unfolding mult.assoc by (intro mult_le_mono2 div_times_le)
  finally have "x * DEC_ONE * DEC_ONE * now \<le> available * part * (?d * now)" using mult_le_mono1 by (metis mult.assoc mult.commute)
  also have "\<dots> \<le> available * part * ((now - before) * DEC_ONE)" by (intro mult_le_mono2 div_times_le)
  finally have "x * now * DEC_ONE * DEC_ONE \<le> available * (now - before) * part * DEC_ONE" by (simp only: mult_ac)
  then show ?thesis by simp
qed

text \<open>Before an operation the contract holds \<open>T\<close> for the shares, at the rate \<open>R\<close>; extraction leaves \<open>T'\<close> at \<open>R'\<close>.\<close>

lemma extract_outcome:
  assumes "extract_yield deps env offset st = Ok (st', T')"
  obtains c token e R now B in_contract where "xs_extract_config st = Some c" and "xs_stake_token st = Some token"
    and "xs_stake_extracted st = Some e" and "xs_last_exchange_rate st = Some R"
    and "query_exchange_rate deps (xc_interface c) (xc_hub_contract c) = Ok now" and "xd_balance deps token (env_contract env) = Ok B"
    and "unwrap_or offset 0 \<le> B" and "in_contract = B - unwrap_or offset 0" and "e \<le> in_contract"
    and "st' = st \<and> T' = in_contract - e \<and> now \<le> R
      \<or> st' = st\<lparr>xs_last_exchange_rate := Some now\<rparr> \<and> T' = in_contract - e \<and> R = 0 \<and> 0 < now
      \<or> (\<exists>x. stake_to_extract now R (xc_yield_extract_p c) (in_contract - e) = Ok x \<and> R < now \<and> 0 < R \<and> e + x \<le> in_contract \<and>
          st' = st\<lparr>xs_stake_extracted := Some (e + x), xs_last_exchange_rate := Some now\<rparr> \<and> T' = in_contract - (e + x))"
proof -
  obtain c token e R now B in_contract where base: "xs_extract_config st = Some c" "xs_stake_token st = Some token"
      "xs_stake_extracted st = Some e" "xs_last_exchange_rate st = Some R"
      "query_exchange_rate deps (xc_interface c) (xc_hub_contract c) = Ok now" "xd_balance deps token (env_contract env) = Ok B"
    and offset: "(case offset of Some x \<Rightarrow> checked_sub B x | None \<Rightarrow> Ok B) = Ok in_contract" and e: "e \<le> in_contract"
    and rest: "(if now \<le> R then Ok (st, in_contract - e)
      else if R = 0 then Ok (st\<lparr>xs_last_exchange_rate := Some now\<rparr>, in_contract - e)
      else and_then (stake_to_extract now R (xc_yield_extract_p c) (in_contract - e)) (\<lambda>more.
        and_then (checked_add e more) (\<lambda>extracted.
        and_then (checked_sub in_contract extracted) (\<lambda>available.
        Ok (st\<lparr>xs_stake_extracted := Some extracted, xs_last_exchange_rate := Some now\<rparr>, available))))) = Ok (st', T')"
    using assms unfolding extract_yield_def by (simp only: ok_simps) blast
  have off: "unwrap_or offset 0 \<le> B" "in_contract = B - unwrap_or offset 0" using offset by (cases offset; simp add: ok_simps)+
  consider "now \<le> R" | "\<not> now \<le> R" "R = 0" | "\<not> now \<le> R" "R \<noteq> 0" by blast
  then have result: "st' = st \<and> T' = in_contract - e \<and> now \<le> R
      \<or> st' = st\<lparr>xs_last_exchange_rate := Some now\<rparr> \<and> T' = in_contract - e \<and> R = 0 \<and> 0 < now
      \<or> (\<exists>x. stake_to_extract now R (xc_yield_extract_p c) (in_contract - e) = Ok x \<and> R < now \<and> 0 < R \<and> e + x \<le> in_contract \<and>
          st' = st\<lparr>xs_stake_extracted := Some (e + x), xs_last_exchange_rate := Some now\<rparr> \<and> T' = in_contract - (e + x))"
    by cases (use rest in \<open>auto simp: ok_simps\<close>)
  show ?thesis by (rule that [OF base off e result])
qed

text \<open>What extraction keeps: the amounts add up, and what is left for the shares is worth as much as before at the new rate.\<close>

definition extracts_well :: "nat \<Rightarrow> extractor_state \<Rightarrow> extractor_state \<Rightarrow> nat \<Rightarrow> bool" where
  "extracts_well in_contract st st' T' \<longleftrightarrow> (\<exists>e R e' R'. xs_stake_extracted st = Some e \<and> xs_last_exchange_rate st = Some R \<and> e \<le> e' \<and>
     e' \<le> in_contract \<and> st' = st\<lparr>xs_stake_extracted := Some e', xs_last_exchange_rate := Some R'\<rparr> \<and> T' = in_contract - e' \<and>
     (in_contract - e) * R \<le> T' * R' \<and> (0 < in_contract - e \<longrightarrow> 0 < T'))"

lemma value_left:
  fixes T x R now part :: nat
  assumes "x * now * DEC_ONE \<le> T * (now - R) * part" and "part \<le> DEC_ONE" and "R \<le> now" and "x \<le> T"
  shows "T * R \<le> (T - x) * now"
proof -
  have "x * now * DEC_ONE \<le> T * (now - R) * DEC_ONE" using assms(1,2) by (meson le_trans mult_le_mono2)
  then have "x * now \<le> T * (now - R)" by simp
  moreover have "T * R + T * (now - R) = T * now" using assms(3) by (simp add: distrib_left [symmetric])
  ultimately have "T * R + x * now \<le> T * now" by linarith
  then show ?thesis by (simp add: diff_mult_distrib)
qed

lemma extract_keeps_value:
  assumes "extract_yield deps env offset st = Ok (st', T')" and "xs_extract_config st = Some c" and "xc_yield_extract_p c \<le> DEC_ONE"
    and "xs_stake_token st = Some token" and "xd_balance deps token (env_contract env) = Ok B"
  shows "unwrap_or offset 0 \<le> B" and "extracts_well (B - unwrap_or offset 0) st st' T'"
proof -
  obtain c' token' e R now B' in_contract where st: "xs_extract_config st = Some c'" "xs_stake_token st = Some token'"
    and e: "xs_stake_extracted st = Some e" and R: "xs_last_exchange_rate st = Some R"
    and "query_exchange_rate deps (xc_interface c') (xc_hub_contract c') = Ok now" and B': "xd_balance deps token' (env_contract env) = Ok B'"
    and off: "unwrap_or offset 0 \<le> B'" and in_contract: "in_contract = B' - unwrap_or offset 0" and le: "e \<le> in_contract"
    and result: "st' = st \<and> T' = in_contract - e \<and> now \<le> R
      \<or> st' = st\<lparr>xs_last_exchange_rate := Some now\<rparr> \<and> T' = in_contract - e \<and> R = 0 \<and> 0 < now
      \<or> (\<exists>x. stake_to_extract now R (xc_yield_extract_p c') (in_contract - e) = Ok x \<and> R < now \<and> 0 < R \<and> e + x \<le> in_contract \<and>
          st' = st\<lparr>xs_stake_extracted := Some (e + x), xs_last_exchange_rate := Some now\<rparr> \<and> T' = in_contract - (e + x))"
    by (rule extract_outcome [OF assms(1)])
  have same: "c' = c" "B' = B" using st B' assms(2,4,5) by simp_all
  then show "unwrap_or offset 0 \<le> B" using off by simp
  have "extracts_well in_contract st st' T'"
    using result
  proof (elim disjE exE conjE)
    assume "st' = st" and "T' = in_contract - e"
    then show ?thesis unfolding extracts_well_def
      by (intro exI [of _ e] exI [of _ R]) (use e R le in simp)
  next
    assume "st' = st\<lparr>xs_last_exchange_rate := Some now\<rparr>" and "T' = in_contract - e" and "R = 0"
    then show ?thesis unfolding extracts_well_def
      by (intro exI [of _ e] exI [of _ R] exI [of _ now]) (use e R le in simp)
  next
    fix x
    assume x: "stake_to_extract now R (xc_yield_extract_p c') (in_contract - e) = Ok x" and rate: "R < now" "0 < R"
      and ex: "e + x \<le> in_contract" and st': "st' = st\<lparr>xs_stake_extracted := Some (e + x), xs_last_exchange_rate := Some now\<rparr>"
      and T': "T' = in_contract - (e + x)"
    have bound: "x * now * DEC_ONE \<le> (in_contract - e) * (now - R) * xc_yield_extract_p c"
      using stake_to_extract_bound [OF x] rate same by simp
    have "(in_contract - e) * R \<le> ((in_contract - e) - x) * now"
      by (rule value_left [OF bound assms(3)]) (use rate ex in simp_all)
    then have "(in_contract - e) * R \<le> T' * now" by (simp add: T')
    moreover from this have "0 < in_contract - e \<longrightarrow> 0 < T'" using rate by (cases T') auto
    ultimately show ?thesis unfolding extracts_well_def
      by (intro exI [of _ e] exI [of _ R] exI [of _ "e + x"] exI [of _ now]) (use e R ex st' T' in simp)
  qed
  then show "extracts_well (B - unwrap_or offset 0) st st' T'" by (simp add: in_contract same)
qed

section \<open>The books\<close>

record extractor_books =
  xb_state :: extractor_state
  xb_staked :: nat
  xb_supply :: nat

fun token_flow :: "(addr \<Rightarrow> unit token_msg \<Rightarrow> nat) \<Rightarrow> extractor_payload sub_msg list \<Rightarrow> nat" where
  "token_flow f [] = 0"
| "token_flow f (PlainMsg (WasmExecute t (ExtractorToken m) funds) # ms) = f t m + token_flow f ms"
| "token_flow f (m # ms) = token_flow f ms"

definition minted_lp :: "addr \<Rightarrow> extractor_response \<Rightarrow> nat" where
  "minted_lp lp r = token_flow (\<lambda>t m. case m of TokenMint to x \<Rightarrow> if t = lp then x else 0 | _ \<Rightarrow> 0) (resp_msgs r)"

definition burnt_lp :: "addr \<Rightarrow> extractor_response \<Rightarrow> nat" where
  "burnt_lp lp r = token_flow (\<lambda>t m. case m of TokenBurn x \<Rightarrow> if t = lp then x else 0 | _ \<Rightarrow> 0) (resp_msgs r)"

definition sent_stake :: "addr \<Rightarrow> extractor_response \<Rightarrow> nat" where
  "sent_stake stake r = token_flow (\<lambda>t m. case m of TokenTransfer to x \<Rightarrow> if t = stake then x else 0 | _ \<Rightarrow> 0) (resp_msgs r)"

lemmas flow_defs = minted_lp_def burnt_lp_def sent_stake_def

fun sent_along :: "extractor_execute_msg \<Rightarrow> nat" where
  "sent_along (ExtractorReceive m) = cw20_amount m"
| "sent_along _ = 0"

text \<open>
  A token moves the amount before it calls the contract. The tokens carry out the contract's messages after the handler; they refuse to burn
  or send more than there is, which reverts the step. Anyone may send staked tokens without a message. A token that refuses further messages,
  as that of \<open>cw20-base\<close> refuses to mint zero, only reverts more steps: the runs below contain all that are possible with it.
\<close>

inductive extractor_step :: "extractor_books \<Rightarrow> extractor_books \<Rightarrow> bool" where
  extractor_handles: "xs_lp_token st = Some lp \<Longrightarrow> xs_stake_token st = Some stake \<Longrightarrow> lp \<noteq> stake \<Longrightarrow>
    arrived = (if info_sender info = stake then sent_along msg else 0) \<Longrightarrow>
    xd_total_supply deps lp = Ok S \<Longrightarrow> xd_balance deps stake (env_contract env) = Ok (B + arrived) \<Longrightarrow>
    extractor_execute deps env info msg st = Ok (st', r) \<Longrightarrow>
    burnt_lp lp r \<le> S + minted_lp lp r \<Longrightarrow> sent_stake stake r \<le> B + arrived \<Longrightarrow>
    extractor_step \<lparr>xb_state = st, xb_staked = B, xb_supply = S\<rparr>
      \<lparr>xb_state = st', xb_staked = B + arrived - sent_stake stake r, xb_supply = S + minted_lp lp r - burnt_lp lp r\<rparr>"
| extractor_gets: "extractor_step \<lparr>xb_state = st, xb_staked = B, xb_supply = S\<rparr> \<lparr>xb_state = st, xb_staked = B + x, xb_supply = S\<rparr>"

definition extractor_starts :: "extractor_books \<Rightarrow> bool" where
  "extractor_starts b \<longleftrightarrow> xb_supply b = 0 \<and> (\<exists>deps env msg s0 r0 deps' rep r. extractor_instantiate deps env msg empty_extractor = Ok (s0, r0) \<and>
     extractor_reply deps' rep s0 = Ok (xb_state b, r))"

definition set_aside :: "extractor_state \<Rightarrow> nat" where "set_aside st = unwrap_or (xs_stake_extracted st) 0"
definition rate_seen :: "extractor_state \<Rightarrow> nat" where "rate_seen st = unwrap_or (xs_last_exchange_rate st) 0"

text \<open>What the shares are worth.\<close>

definition shares_hold :: "extractor_books \<Rightarrow> nat" where "shares_hold b = xb_staked b - set_aside (xb_state b)"

definition extractor_ok :: "extractor_books \<Rightarrow> bool" where
  "extractor_ok b \<longleftrightarrow> (\<exists>c. xs_extract_config (xb_state b) = Some c \<and> xc_yield_extract_p c \<le> DEC_ONE) \<and>
     set_aside (xb_state b) \<le> xb_staked b"

text \<open>One step: the value of a share does not fall, and what is stranded stays.\<close>

definition value_kept :: "extractor_books \<Rightarrow> extractor_books \<Rightarrow> bool" where
  "value_kept b b' \<longleftrightarrow>
     shares_hold b * rate_seen (xb_state b) * xb_supply b' \<le> shares_hold b' * rate_seen (xb_state b') * xb_supply b \<and>
     (xb_supply b = 0 \<and> 0 < shares_hold b \<longrightarrow> xb_supply b' = 0 \<and> 0 < shares_hold b')"

lemma extracts_well_kept:
  assumes "extracts_well B st s1 T1" and "set_aside st' = set_aside s1 \<and> B' = T' + set_aside s1 \<or> set_aside st' = 0 \<and> B' = T'"
    and "rate_seen st' = rate_seen s1" and "xs_extract_config st' = xs_extract_config s1" and "T1 * S' \<le> T' * S"
    and "S = 0 \<Longrightarrow> 0 < T1 \<Longrightarrow> S' = 0 \<and> 0 < T'"
    and "xs_extract_config st = Some c" and "xc_yield_extract_p c \<le> DEC_ONE"
  shows "extractor_ok \<lparr>xb_state = st', xb_staked = B', xb_supply = S'\<rparr> \<and>
    value_kept \<lparr>xb_state = st, xb_staked = B, xb_supply = S\<rparr> \<lparr>xb_state = st', xb_staked = B', xb_supply = S'\<rparr>"
proof -
  obtain e R e' R' where e: "xs_stake_extracted st = Some e" "xs_last_exchange_rate st = Some R"
    and s1: "s1 = st\<lparr>xs_stake_extracted := Some e', xs_last_exchange_rate := Some R'\<rparr>"
    and T: "(B - e) * R \<le> T1 * R'" "0 < B - e \<longrightarrow> 0 < T1"
    using assms(1) by (auto simp: extracts_well_def)
  have T': "B' - set_aside st' = T'" using assms(2) by auto
  have "(B - e) * R * S' \<le> T1 * R' * S'" by (rule mult_le_mono1 [OF T(1)])
  also have "\<dots> = T1 * S' * R'" by simp
  also have "\<dots> \<le> T' * S * R'" by (rule mult_le_mono1 [OF assms(5)])
  finally have "(B - e) * R * S' \<le> T' * R' * S" by (simp only: mult_ac)
  then have "value_kept \<lparr>xb_state = st, xb_staked = B, xb_supply = S\<rparr> \<lparr>xb_state = st', xb_staked = B', xb_supply = S'\<rparr>"
    using e T(2) T' assms(3,6) by (simp add: value_kept_def shares_hold_def set_aside_def rate_seen_def s1)
  moreover have "extractor_ok \<lparr>xb_state = st', xb_staked = B', xb_supply = S'\<rparr>"
    using assms(2,4,7,8) by (auto simp: extractor_ok_def s1)
  ultimately show ?thesis by simp
qed

lemma withdraw_kept:
  assumes "extractor_withdraw deps env user x st = Ok (st', r)" and "xs_lp_token st = Some lp" and "xs_stake_token st = Some stake" and "lp \<noteq> stake"
    and "xd_total_supply deps lp = Ok S" and "xd_balance deps stake (env_contract env) = Ok B" and "burnt_lp lp r \<le> S + minted_lp lp r"
    and "sent_stake stake r \<le> B" and "xs_extract_config st = Some c" and "xc_yield_extract_p c \<le> DEC_ONE"
  shows "extractor_ok \<lparr>xb_state = st', xb_staked = B - sent_stake stake r, xb_supply = S + minted_lp lp r - burnt_lp lp r\<rparr> \<and>
    value_kept \<lparr>xb_state = st, xb_staked = B, xb_supply = S\<rparr>
      \<lparr>xb_state = st', xb_staked = B - sent_stake stake r, xb_supply = S + minted_lp lp r - burnt_lp lp r\<rparr>"
proof -
  obtain T1 w where ex: "extract_yield deps env None st = Ok (st', T1)" and w: "lp_withdraw_amount S x T1 = (Ok w :: (u128, std_error) result)"
    and flow: "minted_lp lp r = 0" "burnt_lp lp r = x" "sent_stake stake r = w"
    using assms(2-5) assms(1) by (auto simp: extractor_withdraw_def ok_simps flow_defs)
  have well: "extracts_well B st st' T1" using extract_keeps_value [OF ex assms(9,10,3,6)] by simp
  then have aside: "B = T1 + set_aside st'" by (auto simp: extracts_well_def set_aside_def)
  have x: "x \<le> S" using assms(7) flow by simp
  have pay: "w \<le> T1 \<and> T1 * (S - x) \<le> (T1 - w) * S"
  proof (cases "S = 0")
    case True
    then show ?thesis using w by (simp add: lp_withdraw_amount_def)
  next
    case False
    then have "lp_pays S T1 x w" using w by (simp add: lp_pays_def)
    then show ?thesis using lp_shares.payout_le_assets lp_shares.payout_keeps_rate x by blast
  qed
  have "S = 0 \<Longrightarrow> w = 0" using w by (auto simp: lp_withdraw_amount_def)
  then show ?thesis using pay aside x unfolding flow
    by (intro extracts_well_kept [OF well, where T' = "T1 - w", OF _ refl refl _ _ assms(9,10)]) auto
qed

lemma deposit_kept:
  assumes "extractor_deposit deps env user a st = Ok (st', r)" and "xs_lp_token st = Some lp" and "xs_stake_token st = Some stake" and "lp \<noteq> stake"
    and "xd_total_supply deps lp = Ok S" and "xd_balance deps stake (env_contract env) = Ok (B + a)"
    and "xs_extract_config st = Some c" and "xc_yield_extract_p c \<le> DEC_ONE"
  shows "extractor_ok \<lparr>xb_state = st', xb_staked = B + a - sent_stake stake r, xb_supply = S + minted_lp lp r - burnt_lp lp r\<rparr> \<and>
    value_kept \<lparr>xb_state = st, xb_staked = B, xb_supply = S\<rparr>
      \<lparr>xb_state = st', xb_staked = B + a - sent_stake stake r, xb_supply = S + minted_lp lp r - burnt_lp lp r\<rparr>"
proof -
  obtain T1 m where ex: "extract_yield deps env (Some a) st = Ok (st', T1)" and m: "lp_mint_amount S a T1 = (Ok m :: (u128, std_error) result)"
    and flow: "minted_lp lp r = m" "burnt_lp lp r = 0" "sent_stake stake r = 0"
    using assms(2-5) assms(1) by (auto simp: extractor_deposit_def ok_simps flow_defs)
  have well: "extracts_well B st st' T1" using extract_keeps_value [OF ex assms(7,8,3,6)] by simp
  then have aside: "B = T1 + set_aside st'" by (auto simp: extracts_well_def set_aside_def)
  have "lp_issues S T1 a m" using m by (simp add: lp_issues_def)
  then have keep: "T1 * (S + m) \<le> (T1 + a) * S" by (rule lp_shares.deposit_keeps_rate)
  have "S = 0 \<Longrightarrow> 0 < T1 \<Longrightarrow> m = 0" using m by (auto simp: lp_mint_amount_def ok_simps)
  then show ?thesis using keep aside unfolding flow
    by (intro extracts_well_kept [OF well, where T' = "T1 + a", OF _ refl refl _ _ assms(7,8)]) auto
qed

lemma harvest_kept:
  assumes "extractor_harvest deps env user st = Ok (st', r)" and "xs_lp_token st = Some lp" and "xs_stake_token st = Some stake" and "lp \<noteq> stake"
    and "xd_balance deps stake (env_contract env) = Ok B" and "xs_extract_config st = Some c" and "xc_yield_extract_p c \<le> DEC_ONE"
  shows "extractor_ok \<lparr>xb_state = st', xb_staked = B - sent_stake stake r, xb_supply = S + minted_lp lp r - burnt_lp lp r\<rparr> \<and>
    value_kept \<lparr>xb_state = st, xb_staked = B, xb_supply = S\<rparr>
      \<lparr>xb_state = st', xb_staked = B - sent_stake stake r, xb_supply = S + minted_lp lp r - burnt_lp lp r\<rparr>"
proof -
  obtain s1 T1 x h where ex: "extract_yield deps env None st = Ok (s1, T1)" and x: "xs_stake_extracted s1 = Some x"
    and st': "st' = s1\<lparr>xs_stake_extracted := Some 0, xs_stake_harvested := Some h\<rparr>"
    and flow: "minted_lp lp r = 0" "burnt_lp lp r = 0" "sent_stake stake r = x"
    using assms(2-4) assms(1) by (auto simp: extractor_harvest_def ok_simps flow_defs)
  have well: "extracts_well B st s1 T1" using extract_keeps_value [OF ex assms(6,7,3,5)] by simp
  then have aside: "B = T1 + x" using x by (auto simp: extracts_well_def)
  show ?thesis unfolding flow
    by (rule extracts_well_kept [OF well, where T' = T1, OF _ _ _ _ _ assms(6,7)])
      (use aside in \<open>auto simp: st' set_aside_def rate_seen_def\<close>)
qed

lemma idle_kept:
  assumes "extractor_ok \<lparr>xb_state = st, xb_staked = B, xb_supply = S\<rparr>" and "xs_stake_extracted st' = xs_stake_extracted st"
    and "xs_last_exchange_rate st' = xs_last_exchange_rate st" and "xs_extract_config st' = Some c'" and "xs_extract_config st = Some c"
    and "xc_yield_extract_p c' = xc_yield_extract_p c" and "resp_msgs r = []"
  shows "extractor_ok \<lparr>xb_state = st', xb_staked = B - sent_stake stake r, xb_supply = S + minted_lp lp r - burnt_lp lp r\<rparr> \<and>
    value_kept \<lparr>xb_state = st, xb_staked = B, xb_supply = S\<rparr>
      \<lparr>xb_state = st', xb_staked = B - sent_stake stake r, xb_supply = S + minted_lp lp r - burnt_lp lp r\<rparr>"
  using assms by (simp add: extractor_ok_def value_kept_def shares_hold_def set_aside_def rate_seen_def flow_defs)

lemma extractor_receive_cases:
  assumes "extractor_receive deps env info m st = Ok (st', r)" and "xs_lp_token st = Some lp" and "xs_stake_token st = Some stake"
  obtains user where "info_sender info = lp" and "extractor_withdraw deps env user (cw20_amount m) st = Ok (st', r)"
    | user where "info_sender info = stake" and "extractor_deposit deps env user (cw20_amount m) st = Ok (st', r)"
proof -
  obtain hook where "from_binary (cw20_payload m) = Ok hook" using assms(1) by (auto simp: extractor_receive_def ok_simps)
  then show ?thesis
    using assms that by (cases hook) (auto simp: extractor_receive_def ok_simps guard_Ok simp del: if_split)
qed

lemma extractor_step_kept:
  assumes "extractor_step b b'" and "extractor_ok b"
  shows "extractor_ok b' \<and> value_kept b b'"
  using assms(1)
proof cases
  case (extractor_handles st lp stake arrived info msg deps S env B st' r)
  obtain c where c: "xs_extract_config st = Some c" "xc_yield_extract_p c \<le> DEC_ONE"
    using assms(2) extractor_handles by (auto simp: extractor_ok_def)
  note ok = assms(2) [unfolded extractor_handles(1)]
  show ?thesis
  proof (cases msg)
    case (ExtractorReceive m)
    then have "extractor_receive deps env info m st = Ok (st', r)" using extractor_handles(9) by simp
    then show ?thesis
    proof (rule extractor_receive_cases [OF _ extractor_handles(3,4)])
      fix user
      assume sender: "info_sender info = lp" and step: "extractor_withdraw deps env user (cw20_amount m) st = Ok (st', r)"
      have "arrived = 0" using sender extractor_handles by simp
      with withdraw_kept [OF step extractor_handles(3-5,7) _ extractor_handles(10) _ c] extractor_handles show ?thesis by simp
    next
      fix user
      assume sender: "info_sender info = stake" and step: "extractor_deposit deps env user (cw20_amount m) st = Ok (st', r)"
      have "arrived = cw20_amount m" using sender extractor_handles ExtractorReceive by simp
      with deposit_kept [OF step extractor_handles(3-5,7) _ c] extractor_handles show ?thesis by simp
    qed
  next
    case ExtractorHarvest
    then have "arrived = 0" and "extractor_harvest deps env (info_sender info) st = Ok (st', r)" using extractor_handles by auto
    with harvest_kept [OF _ extractor_handles(3-5) _ c] extractor_handles show ?thesis by simp
  next
    case (ExtractorUpdateConfig a)
    then have "arrived = 0" using extractor_handles by simp
    moreover have "\<exists>c'. xs_extract_config st' = Some c' \<and> xc_yield_extract_p c' = xc_yield_extract_p c \<and> xs_stake_extracted st' = xs_stake_extracted st \<and>
        xs_last_exchange_rate st' = xs_last_exchange_rate st \<and> resp_msgs r = []"
      using extractor_handles(9) c ExtractorUpdateConfig
      by (cases a) (auto simp: extractor_update_config_def ok_simps)
    ultimately show ?thesis using idle_kept [OF ok _ _ _ c(1)] extractor_handles by auto
  next
    case (ExtractorTransferOwnership a)
    then have "arrived = 0" using extractor_handles by simp
    moreover have "xs_extract_config st' = Some c" "xs_stake_extracted st' = xs_stake_extracted st"
        "xs_last_exchange_rate st' = xs_last_exchange_rate st" "resp_msgs r = []"
      using extractor_handles(9) c ExtractorTransferOwnership by (auto simp: extractor_transfer_ownership_def ok_simps)
    ultimately show ?thesis using idle_kept [OF ok _ _ _ c(1) refl] extractor_handles by auto
  next
    case ExtractorAcceptOwnership
    then have "arrived = 0" using extractor_handles by simp
    moreover have "xs_extract_config st' = Some c" "xs_stake_extracted st' = xs_stake_extracted st"
        "xs_last_exchange_rate st' = xs_last_exchange_rate st" "resp_msgs r = []"
      using extractor_handles(9) c ExtractorAcceptOwnership by (auto simp: extractor_accept_ownership_def ok_simps guard_Ok simp del: if_split)
    ultimately show ?thesis using idle_kept [OF ok _ _ _ c(1) refl] extractor_handles by auto
  qed
next
  case (extractor_gets st B S x)
  then show ?thesis using assms(2)
    by (auto simp: extractor_ok_def value_kept_def shares_hold_def diff_le_mono intro!: mult_le_mono1)
qed

lemma extractor_start_ok: "extractor_starts b \<Longrightarrow> extractor_ok b"
  by (cases b) (auto simp: extractor_starts_def extractor_ok_def extractor_instantiate_def extractor_reply_def register_extractor_lp_def
      assert_valid_yield_extract_def yield_extract_max_def set_aside_def ok_simps split: if_splits)

lemma extractor_run_ok:
  assumes "extractor_step\<^sup>*\<^sup>* b0 b" and "extractor_ok b0"
  shows "extractor_ok b"
  using assms by (induction) (auto dest: extractor_step_kept)

lemma stranded_run:
  assumes "extractor_step\<^sup>*\<^sup>* b b'" and "extractor_ok b" and "xb_supply b = 0" and "0 < shares_hold b"
  shows "xb_supply b' = 0 \<and> 0 < shares_hold b'"
  using assms(1)
proof induction
  case base
  then show ?case using assms by simp
next
  case (step y z)
  then show ?case using extractor_step_kept [OF step.hyps(2) extractor_run_ok [OF step.hyps(1) assms(2)]] by (simp add: value_kept_def)
qed

section \<open>A run\<close>

definition demo_extractor_deps :: "u128 \<Rightarrow> u128 \<Rightarrow> decimal \<Rightarrow> extractor_deps" where
  "demo_extractor_deps S B rate = \<lparr>xd_addr_validate = Ok, xd_total_supply = (\<lambda>t. Ok S),
     xd_balance = (\<lambda>t a. Ok (if t = ''stake'' then B else S)), xd_eris_rate = (\<lambda>h. Ok rate), xd_stader_rate = (\<lambda>h. Ok rate),
     xd_steak_rate = (\<lambda>h. Ok rate)\<rparr>"

definition demo_extractor_env :: env where "demo_extractor_env = \<lparr>env_height = 1, env_time = 1, env_contract = ''extractor''\<rparr>"

definition demo_extractor :: "u128 \<Rightarrow> decimal \<Rightarrow> u128 \<Rightarrow> extractor_state" where
  "demo_extractor e rate h = \<lparr>xs_owner = Some ''own'', xs_new_owner = None, xs_lp_token = Some ''lp'', xs_stake_token = Some ''stake'',
     xs_extract_config = Some \<lparr>xc_yield_extract_addr = ''yield'', xc_yield_extract_p = 100000000000000000, xc_hub_contract = ''hub'',
       xc_interface = LiquidEris\<rparr>,
     xs_stake_extracted = Some e, xs_stake_harvested = Some h, xs_last_exchange_rate = Some rate\<rparr>"

definition demo_books :: "extractor_state \<Rightarrow> nat \<Rightarrow> nat \<Rightarrow> extractor_books" where
  "demo_books st B S = \<lparr>xb_state = st, xb_staked = B, xb_supply = S\<rparr>"

definition demo_deposit :: "u128 \<Rightarrow> extractor_execute_msg" where
  "demo_deposit x = ExtractorReceive \<lparr>cw20_sender = ''ann'', cw20_amount = x, cw20_payload = Decoded ExtractorDeposit\<rparr>"

lemma demo_extractor_starts: "extractor_starts (demo_books (demo_extractor 0 0 0) B 0)"
proof -
  let ?d = "demo_extractor_deps 0 0 0"
  let ?msg = "\<lparr>xim_owner = ''own'', xim_cw20_code_id = 1, xim_symbol = ''LP'', xim_decimals = 6, xim_name = ''LP'', xim_label = ''LP'',
     xim_hub_contract = ''hub'', xim_stake_token = ''stake'', xim_interface = LiquidEris, xim_yield_extract_addr = ''yield'',
     xim_yield_extract_p = 100000000000000000\<rparr>"
  let ?s0 = "(demo_extractor 0 0 0)\<lparr>xs_lp_token := None\<rparr>"
  have "\<exists>r. extractor_instantiate ?d demo_extractor_env ?msg empty_extractor = Ok (?s0, r)"
    by (simp add: extractor_instantiate_def assert_valid_yield_extract_def yield_extract_max_def yield_extract_min_def DEC_ONE_code
        demo_extractor_deps_def demo_extractor_def empty_extractor_def)
  moreover have "extractor_reply ?d \<lparr>reply_id = 1, reply_result = SubMsgOk [new_event ''instantiate'' [(''_contract_address'', ''lp'')]]\<rparr> ?s0
      = Ok (demo_extractor 0 0 0, new_response)"
    by (simp add: extractor_reply_def unwrap_reply_def register_extractor_lp_def new_event_def demo_extractor_deps_def demo_extractor_def)
  ultimately show ?thesis unfolding extractor_starts_def demo_books_def by force
qed

lemma demo_deposit_step:
  "extractor_step (demo_books (demo_extractor 0 0 0) 0 0) (demo_books (demo_extractor 0 1000000000000000000 0) 1000 1000)"
proof -
  let ?d = "demo_extractor_deps 0 1000 1000000000000000000"
  obtain r where "extractor_execute ?d demo_extractor_env \<lparr>info_sender = ''stake'', info_funds = []\<rparr> (demo_deposit 1000) (demo_extractor 0 0 0)
      = Ok (demo_extractor 0 1000000000000000000 0, r)"
    and "resp_msgs r = [PlainMsg (WasmExecute ''lp'' (ExtractorToken (TokenMint ''ann'' 1000)) [])]"
    by (simp add: demo_deposit_def extractor_receive_def extractor_deposit_def extract_yield_def lp_mint_amount_def num_defs
        demo_extractor_deps_def demo_extractor_def)
  then show ?thesis
    using extractor_handles [of "demo_extractor 0 0 0" "''lp''" "''stake''" 1000 "\<lparr>info_sender = ''stake'', info_funds = []\<rparr>" "demo_deposit 1000"
        ?d 0 demo_extractor_env 0 "demo_extractor 0 1000000000000000000 0" r]
    by (simp add: demo_books_def flow_defs demo_extractor_deps_def demo_extractor_def demo_deposit_def)
qed

lemma demo_harvest_step:
  "extractor_step (demo_books (demo_extractor 0 1000000000000000000 0) 1000 1000) (demo_books (demo_extractor 0 1250000000000000000 20) 980 1000)"
proof -
  let ?d = "demo_extractor_deps 1000 1000 1250000000000000000"
  obtain r where "extractor_execute ?d demo_extractor_env \<lparr>info_sender = ''bot'', info_funds = []\<rparr> ExtractorHarvest
      (demo_extractor 0 1000000000000000000 0) = Ok (demo_extractor 0 1250000000000000000 20, r)"
    and "resp_msgs r = [PlainMsg (WasmExecute ''stake'' (ExtractorToken (TokenTransfer ''yield'' 20)) [])]"
    by (simp add: extractor_harvest_def extract_yield_def stake_to_extract_def dec_from_ratio_def dec_checked_mul_def checked_mul_uint_def
        Let_def num_defs DEC_ONE_code U128_MAX_code demo_extractor_deps_def demo_extractor_def)
  then show ?thesis
    using extractor_handles [of "demo_extractor 0 1000000000000000000 0" "''lp''" "''stake''" 0 "\<lparr>info_sender = ''bot'', info_funds = []\<rparr>"
        ExtractorHarvest ?d 1000 demo_extractor_env 1000 "demo_extractor 0 1250000000000000000 20" r]
    by (simp add: demo_books_def flow_defs demo_extractor_deps_def demo_extractor_def)
qed

section \<open>Claims\<close>

text \<open>
  C9: the staked tokens set aside for the extraction are always there, and no message, whatever the rate of the hub does and whoever sends
  tokens in between, lowers the value of a share in coins at the rate last seen: extraction only takes from the growth, deposits and withdrawals
  round against the user.
\<close>
theorem extraction_spares_the_holders:
  assumes "extractor_starts b0" and "extractor_step\<^sup>*\<^sup>* b0 b" and "extractor_step b b'"
  shows "set_aside (xb_state b') \<le> xb_staked b' \<and>
    shares_hold b * rate_seen (xb_state b) * xb_supply b' \<le> shares_hold b' * rate_seen (xb_state b') * xb_supply b"
  using extractor_step_kept [OF assms(3) extractor_run_ok [OF assms(2) extractor_start_ok [OF assms(1)]]]
  by (simp add: extractor_ok_def value_kept_def)

theorem extraction_spares_the_holders_witness:
  "1000 * 1000000000000000000 * 1000 \<le> shares_hold (demo_books (demo_extractor 0 1250000000000000000 20) 980 1000) * 1250000000000000000 * 1000"
  using extraction_spares_the_holders [OF demo_extractor_starts r_into_rtranclp [where r = extractor_step, OF demo_deposit_step] demo_harvest_step]
  by (simp add: demo_books_def demo_extractor_def shares_hold_def rate_seen_def set_aside_def)

lemma stranded_deposit:
  assumes "extractor_ok b" and "xb_supply b = 0" and "0 < shares_hold b" and "xs_lp_token (xb_state b) = Some lp" and "xs_stake_token (xb_state b) = Some stake"
    and "xd_total_supply deps lp = Ok (xb_supply b)" and "xd_balance deps stake (env_contract env) = Ok (xb_staked b + a)"
    and "extractor_deposit deps env user a (xb_state b) = Ok (st', r)"
  shows "resp_msgs r = [PlainMsg (WasmExecute lp (ExtractorToken (TokenMint user 0)) [])]"
proof -
  obtain T1 m where ex: "extract_yield deps env (Some a) (xb_state b) = Ok (st', T1)"
    and m: "lp_mint_amount 0 a T1 = (Ok m :: (u128, std_error) result)"
    and r: "resp_msgs r = [PlainMsg (WasmExecute lp (ExtractorToken (TokenMint user m)) [])]"
    using assms(2,4,6,8) by (auto simp: extractor_deposit_def ok_simps)
  obtain c where c: "xs_extract_config (xb_state b) = Some c" "xc_yield_extract_p c \<le> DEC_ONE" using assms(1) by (auto simp: extractor_ok_def)
  have "extracts_well (xb_staked b) (xb_state b) st' T1" using extract_keeps_value [OF ex c assms(5,7)] by simp
  then have "0 < T1" using assms(3) by (auto simp: extracts_well_def shares_hold_def set_aside_def)
  with m have "m = 0" by (auto simp: lp_mint_amount_def ok_simps)
  with r show ?thesis by simp
qed

text \<open>
  C21: when staked tokens lie in the contract before anyone holds shares (one unit that anyone sends is enough), no deposit can ever issue shares
  again: whatever happens afterwards, the supply stays zero and what lies there stays, and the only message of a deposit that the contract
  accepts is to mint zero shares for the sender. The token of the repository (\<open>cw20-base\<close> 0.13.2, not modelled) refuses to mint zero,
  so every deposit reverts and the contract cannot be used any more; a token that does not refuse would keep the deposit and give nothing for it.
\<close>
theorem gifts_before_the_first_deposit_block_deposits:
  assumes "extractor_starts b0" and "extractor_step\<^sup>*\<^sup>* b0 b" and "xb_supply b = 0" and "0 < shares_hold b" and "extractor_step\<^sup>*\<^sup>* b b'"
    and "xs_lp_token (xb_state b') = Some lp" and "xs_stake_token (xb_state b') = Some stake"
    and "xd_total_supply deps lp = Ok (xb_supply b')" and "xd_balance deps stake (env_contract env) = Ok (xb_staked b' + cw20_amount m)"
    and "cw20_payload m = Decoded ExtractorDeposit" and "extractor_execute deps env info (ExtractorReceive m) (xb_state b') = Ok (st', r)"
  shows "xb_supply b' = 0 \<and> 0 < shares_hold b' \<and> info_sender info = stake \<and>
    (\<exists>user. xd_addr_validate deps (cw20_sender m) = Ok user \<and> resp_msgs r = [PlainMsg (WasmExecute lp (ExtractorToken (TokenMint user 0)) [])])"
proof -
  have start: "extractor_ok b" by (rule extractor_run_ok [OF assms(2) extractor_start_ok [OF assms(1)]])
  note kept = stranded_run [OF assms(5) start assms(3,4)]
  obtain user where "info_sender info = stake" and user: "xd_addr_validate deps (cw20_sender m) = Ok user"
    and deposit: "extractor_deposit deps env user (cw20_amount m) (xb_state b') = Ok (st', r)"
    using assms(7,10,11) by (auto simp: extractor_receive_def ok_simps guard_Ok simp del: if_split)
  moreover note stranded_deposit [OF extractor_run_ok [OF assms(5) start] kept [THEN conjunct1] kept [THEN conjunct2] assms(6-9) deposit]
  ultimately show ?thesis using kept by blast
qed

lemma demo_gift_step: "extractor_step (demo_books (demo_extractor 0 0 0) 0 0) (demo_books (demo_extractor 0 0 0) 1 0)"
  using extractor_gets [of "demo_extractor 0 0 0" 0 0 1] by (simp add: demo_books_def)

theorem gifts_before_the_first_deposit_block_deposits_witness:
  "\<exists>st' r. extractor_execute (demo_extractor_deps 0 1001 1000000000000000000) demo_extractor_env \<lparr>info_sender = ''stake'', info_funds = []\<rparr>
     (demo_deposit 1000) (demo_extractor 0 0 0) = Ok (st', r) \<and>
   resp_msgs r = [PlainMsg (WasmExecute ''lp'' (ExtractorToken (TokenMint ''ann'' 0)) [])]"
proof -
  let ?d = "demo_extractor_deps 0 1001 1000000000000000000"
  let ?m = "\<lparr>cw20_sender = ''ann'', cw20_amount = 1000, cw20_payload = Decoded ExtractorDeposit\<rparr>"
  obtain st' r where run: "extractor_execute ?d demo_extractor_env \<lparr>info_sender = ''stake'', info_funds = []\<rparr> (ExtractorReceive ?m)
      (xb_state (demo_books (demo_extractor 0 0 0) 1 0)) = Ok (st', r)"
    by (simp add: extractor_receive_def extractor_deposit_def extract_yield_def lp_mint_amount_def num_defs
        demo_extractor_deps_def demo_extractor_def demo_books_def)
  have "resp_msgs r = [PlainMsg (WasmExecute ''lp'' (ExtractorToken (TokenMint ''ann'' 0)) [])]"
    using gifts_before_the_first_deposit_block_deposits [OF demo_extractor_starts r_into_rtranclp [where r = extractor_step, OF demo_gift_step] _ _
        rtranclp.rtrancl_refl _ _ _ _ _ run, of "''lp''" "''stake''"]
    by (simp add: demo_books_def demo_extractor_def demo_extractor_deps_def shares_hold_def set_aside_def)
  with run show ?thesis by (auto simp: demo_deposit_def demo_books_def)
qed

text \<open>
  C31: the query of the state answers what an operation in the same block acts on: the amounts after the extraction that the operation starts with,
  and for a user, what handing in all shares pays.
\<close>
theorem state_query_agrees_with_withdrawal:
  assumes "extractor_query_state deps env (Some a) st = Ok q"
  shows "\<exists>st' user share paid r lp stake. extract_yield deps env None st = Ok (st', xsr_stake_available q) \<and>
    xs_stake_extracted st' = Some (xsr_stake_extracted q) \<and> xsr_user_share q = Some share \<and> xsr_user_received_asset q = Some paid \<and>
    xd_addr_validate deps a = Ok user \<and> xs_lp_token st = Some lp \<and> xs_stake_token st = Some stake \<and>
    extractor_withdraw deps env user share st = Ok (st', r) \<and>
    resp_msgs r = map PlainMsg [WasmExecute lp (ExtractorToken (TokenBurn share)) [], WasmExecute stake (ExtractorToken (TokenTransfer user paid)) []]"
proof -
  obtain c lp S stake B e R now x user share paid where base: "xs_extract_config st = Some c" "xs_lp_token st = Some lp"
      "xd_total_supply deps lp = Ok S" "xs_stake_token st = Some stake" "xd_balance deps stake (env_contract env) = Ok B"
      "xs_stake_extracted st = Some e" "e \<le> B" "xs_last_exchange_rate st = Some R"
      "query_exchange_rate deps (xc_interface c) (xc_hub_contract c) = Ok now"
    and ex: "(if now \<le> R \<or> R = 0 then Ok (e, B - e)
       else and_then (stake_to_extract now R (xc_yield_extract_p c) (B - e)) (\<lambda>more.
         and_then (checked_add e more) (\<lambda>extracted. and_then (checked_sub B extracted) (\<lambda>available. Ok (extracted, available))))) = Ok x"
    and user: "xd_addr_validate deps a = Ok user" and paid: "lp_withdraw_amount S share (snd x) = (Ok paid :: (u128, std_error) result)"
    and q: "xsr_stake_available q = snd x" "xsr_stake_extracted q = fst x" "xsr_user_share q = Some share" "xsr_user_received_asset q = Some paid"
    using assms by (auto simp: extractor_query_state_def share_of_def ok_simps simp del: if_split)
  obtain st' where st': "extract_yield deps env None st = Ok (st', snd x)" "xs_stake_extracted st' = Some (fst x)"
  proof -
    consider "now \<le> R" | "\<not> now \<le> R" "R = 0" | "\<not> now \<le> R" "R \<noteq> 0" by blast
    then show ?thesis
      by cases (use ex base that in \<open>auto simp: extract_yield_def ok_simps num_defs(8-9)\<close>)
  qed
  obtain r where "extractor_withdraw deps env user share st = Ok (st', r)" and
    "resp_msgs r = map PlainMsg [WasmExecute lp (ExtractorToken (TokenBurn share)) [], WasmExecute stake (ExtractorToken (TokenTransfer user paid)) []]"
    using base st' paid by (simp add: extractor_withdraw_def)
  then show ?thesis using st' q user base by auto
qed

theorem state_query_agrees_with_withdrawal_witness:
  "\<exists>q st' r. extractor_query_state (demo_extractor_deps 1000 1000 1250000000000000000) demo_extractor_env (Some ''ann'')
      (demo_extractor 0 1000000000000000000 0) = Ok q \<and> xsr_stake_available q = 980 \<and>
    extractor_withdraw (demo_extractor_deps 1000 1000 1250000000000000000) demo_extractor_env ''ann'' 1000
      (demo_extractor 0 1000000000000000000 0) = Ok (st', r)"
proof -
  have "\<exists>q. extractor_query_state (demo_extractor_deps 1000 1000 1250000000000000000) demo_extractor_env (Some ''ann'')
      (demo_extractor 0 1000000000000000000 0) = Ok q \<and> xsr_stake_available q = 980 \<and> xsr_user_share q = Some 1000"
    by (simp add: extractor_query_state_def stake_to_extract_def share_of_def lp_withdraw_amount_def dec_from_ratio_def dec_checked_mul_def
        checked_mul_uint_def Let_def num_defs DEC_ONE_code U128_MAX_code demo_extractor_deps_def demo_extractor_def)
  then obtain q where q: "extractor_query_state (demo_extractor_deps 1000 1000 1250000000000000000) demo_extractor_env (Some ''ann'')
      (demo_extractor 0 1000000000000000000 0) = Ok q" "xsr_stake_available q = 980" "xsr_user_share q = Some 1000" by blast
  from state_query_agrees_with_withdrawal [OF q(1)] q show ?thesis by (auto simp: demo_extractor_deps_def)
qed

section \<open>The query of a share\<close>

text \<open>The query of a user's share leaves out the extraction that is due, and promises more than is paid.\<close>

lemma share_query_promises_more:
  "\<exists>sh q. extractor_query_share (demo_extractor_deps 1000 1000 1250000000000000000) demo_extractor_env (Some ''ann'')
      (demo_extractor 0 1000000000000000000 0) = Ok sh \<and>
    extractor_query_state (demo_extractor_deps 1000 1000 1250000000000000000) demo_extractor_env (Some ''ann'')
      (demo_extractor 0 1000000000000000000 0) = Ok q \<and> xsh_received_asset sh = 1000 \<and> xsr_user_received_asset q = Some 980"
  by (simp add: extractor_query_share_def extractor_query_state_def stake_to_extract_def share_of_def lp_withdraw_amount_def dec_from_ratio_def
      dec_checked_mul_def checked_mul_uint_def Let_def num_defs DEC_ONE_code U128_MAX_code demo_extractor_deps_def demo_extractor_def)

end
