(* ===== verification/Ampz.thy ===== *)
theory Ampz
  imports Assets
begin

text \<open>
  Ampz (\<open>contracts/ampz\<close>): executions that users register and anyone may run when they are due. A run claims or takes assets in the name
  of the user (the user grants the contract the right to do so, \<open>MsgExec\<close>), swaps them if need be and deposits them. The protobuf
  encodings are payloads; the version of the contract that \<open>cw2\<close> stores is left out.
\<close>

section \<open>Messages\<close>

datatype ampz_source = Claim | AstroRewards "string list" | Wallet asset "u128 option"

datatype destination_state = DepositAmplifier | DepositFarm string

datatype destination_runtime = RunDepositAmplifier | RunDepositFarm "asset_info list" string

record schedule =
  sc_start :: "u64 option"
  sc_interval_s :: u64

record execution =
  ex_user :: string
  ex_source :: ampz_source
  ex_destination :: destination_state
  ex_schedule :: schedule

record astroport_config =
  ac_generator :: addr
  ac_coins :: "asset_info list"

record ampz_fees =
  af_fee_bps :: basic_points
  af_operator_bps :: basic_points
  af_receiver :: addr

record ampz_instantiate_msg =
  aim_owner :: string
  aim_controller :: string
  aim_hub :: string
  aim_farms :: "string list"
  aim_zapper :: string
  aim_astroport :: astroport_config
  aim_fee :: ampz_fees

datatype ampz_callback_msg =
    AuthzDeposit "asset list" "asset list option"
  | SwapInto "asset_info list" asset_info
  | FinishExecution destination_runtime addr

record callback_wrapper =
  cw_id :: u128
  cw_user :: addr
  cw_message :: ampz_callback_msg

record ampz_update =
  au_add_farms :: "string list option"
  au_remove_farms :: "string list option"
  au_controller :: "string option"
  au_zapper :: "string option"
  au_hub :: "string option"
  au_astroport :: "astroport_config option"
  au_fee :: "ampz_fees option"

datatype ampz_execute_msg =
    AmpzExecute u128
  | AmpzDeposit "asset list"
  | AddExecution bool execution
  | RemoveExecutions "u128 list option"
  | AmpzCallback callback_wrapper
  | AmpzTransferOwnership string
  | AmpzDropOwnershipProposal
  | AmpzAcceptOwnership
  | AmpzUpdateConfig ampz_update

fun try_get_uniq_key :: "ampz_source \<Rightarrow> string option" where
  "try_get_uniq_key Claim = Some ''claim''"
| "try_get_uniq_key (AstroRewards lps) = Some ''astro_rewards''"
| "try_get_uniq_key (Wallet over max_amount) = None"

fun to_runtime :: "asset_info list \<Rightarrow> destination_state \<Rightarrow> destination_runtime" where
  "to_runtime infos DepositAmplifier = RunDepositAmplifier"
| "to_runtime infos (DepositFarm farm) = RunDepositFarm infos farm"

text \<open>
  What the contract sends: to tokens, to the generator, the zapper, the farms, the hub, to itself, and messages in the name of a user, which
  the chain carries out when the user has granted it.
\<close>

datatype ampz_payload =
    AmpzToken "unit token_msg"
  | GeneratorClaim "string list"
  | ZapperMultiSwap "asset list" asset_info "string option"
  | FarmBond "asset list" "string option"
  | HubBond "string option"
  | ToAmpz ampz_execute_msg
  | MsgExec addr "any_msg list"
and any_msg =
    AnyWithdrawReward string string
  | AnyExecuteContract string addr ampz_payload "coin list"

type_synonym ampz_msg = "ampz_payload cosmos_msg"
type_synonym ampz_response = "ampz_payload response"

definition ampz_into_msg :: "ampz_callback_msg \<Rightarrow> addr \<Rightarrow> u128 \<Rightarrow> addr \<Rightarrow> ampz_msg" where
  "ampz_into_msg msg contract n user = WasmExecute contract (ToAmpz (AmpzCallback \<lparr>cw_id = n, cw_user = user, cw_message = msg\<rparr>)) []"

definition msg_exec :: "env \<Rightarrow> any_msg list \<Rightarrow> ampz_msg" where
  "msg_exec env msgs = Stargate ''/cosmos.authz.v1beta1.MsgExec'' (MsgExec (env_contract env) msgs)"

fun to_authz_msg :: "string \<Rightarrow> env \<Rightarrow> ampz_msg \<Rightarrow> (ampz_msg, std_error) result" where
  "to_authz_msg sender env (WasmExecute contract payload funds) = Ok (msg_exec env [AnyExecuteContract sender contract payload funds])"
| "to_authz_msg sender env _ = Err (GenericErr ''can not convert to proto msg'')"

section \<open>State\<close>

datatype ampz_error =
    AmpzStd std_error
  | AmpzOverflow
  | AmpzUnauthorized
  | AmpzSenderNotNewOwner
  | MustBeSameUser
  | ExecutionSourceCanOnlyBeUsedOnce
  | AmpzCallbackOnlyCalledByContract
  | AmpzNothingToDeposit
  | ExecutionInFuture u64
  | ExecutionNotFound u128
  | FarmNotSupported string
  | AmpzIsExecuting
  | AmpzIsNotExecuting
  | AmpzDuplicatedAsset
  | NoActiveDelegation
  | BalanceLessThanThreshold
  | AmpzNotSupported
  | AmpzMigrationError

abbreviation astd :: "('a, std_error) result \<Rightarrow> ('a, ampz_error) result" where
  "astd \<equiv> map_err AmpzStd"

record ampz_state =
  as_controller :: "addr option"
  as_zapper :: "addr option"
  as_astroport :: "astroport_config option"
  as_owner :: "addr option"
  as_new_owner :: "addr option"
  as_hub :: "addr option"
  as_farms :: "addr list option"
  as_id :: "u128 option"
  as_fee :: "ampz_fees option"
  as_executions :: "(u128, execution) store"
  as_last_execution :: "(u128, u64) store"
  as_user_source :: "(string \<times> string, u128) store"
  as_is_executing :: "bool option"

definition empty_ampz :: ampz_state where
  "empty_ampz = \<lparr>as_controller = None, as_zapper = None, as_astroport = None, as_owner = None, as_new_owner = None, as_hub = None,
     as_farms = None, as_id = None, as_fee = None, as_executions = [], as_last_execution = [], as_user_source = [], as_is_executing = None\<rparr>"

type_synonym ampz_result = "(ampz_state \<times> ampz_response, ampz_error) result"

text \<open>Delegations of an account with their coins, and \<open>Debug\<close> of an asset, are answers of the chain and of \<open>astroport\<close>.\<close>

record ampz_deps =
  zd_addr_validate :: "string \<Rightarrow> (addr, std_error) result"
  zd_assets :: asset_lib
  zd_delegations :: "addr \<Rightarrow> ((string \<times> coin) list, std_error) result"
  zd_debug :: "asset_info \<Rightarrow> string"

definition ampz_assert_owner :: "ampz_state \<Rightarrow> addr \<Rightarrow> (unit, ampz_error) result" where
  "ampz_assert_owner st sender =
     and_then (astd (load_item (as_owner st))) (\<lambda>owner. if sender = owner then Ok () else Err AmpzUnauthorized)"

definition get_by_id :: "ampz_state \<Rightarrow> u128 \<Rightarrow> (execution, ampz_error) result" where
  "get_by_id st n = ok_or (ExecutionNotFound n) (get (as_executions st) n)"

text \<open>The index by user: the executions of a user, by their ids.\<close>

definition get_by_user :: "ampz_state \<Rightarrow> string \<Rightarrow> (u128 \<times> execution) list" where
  "get_by_user st user = filter (\<lambda>e. ex_user (snd e) = user) (entries (as_executions st))"

definition AMPZ_DENOM :: string where "AMPZ_DENOM = ''uluna''"

text \<open>\<open>Display\<close> of an asset.\<close>

definition asset_str :: "ampz_deps \<Rightarrow> asset \<Rightarrow> string" where
  "asset_str deps a = nat_str (as_amount a) @ al_to_string (zd_assets deps) (as_info a)"

section \<open>Instantiation and administration\<close>

definition validate_astroport :: "ampz_deps \<Rightarrow> astroport_config \<Rightarrow> (astroport_config, std_error) result" where
  "validate_astroport deps c = and_then (zd_addr_validate deps (ac_generator c)) (\<lambda>g. Ok (c\<lparr>ac_generator := g\<rparr>))"

definition validate_ampz_fees :: "ampz_deps \<Rightarrow> ampz_fees \<Rightarrow> (ampz_fees, std_error) result" where
  "validate_ampz_fees deps f =
     (if af_fee_bps f > 500 then Err (GenericErr ''max fee is 5 %'')
      else if af_operator_bps f > 500 then Err (GenericErr ''max operator fee is 5 %'')
      else and_then (zd_addr_validate deps (af_receiver f)) (\<lambda>r. Ok (f\<lparr>af_receiver := r\<rparr>)))"

definition ampz_instantiate :: "ampz_deps \<Rightarrow> ampz_instantiate_msg \<Rightarrow> ampz_state \<Rightarrow> (ampz_state \<times> ampz_response, std_error) result" where
  "ampz_instantiate deps msg st =
     and_then (zd_addr_validate deps (aim_controller msg)) (\<lambda>controller.
     and_then (zd_addr_validate deps (aim_zapper msg)) (\<lambda>zapper.
     and_then (validate_astroport deps (aim_astroport msg)) (\<lambda>astroport.
     and_then (zd_addr_validate deps (aim_owner msg)) (\<lambda>owner.
     and_then (zd_addr_validate deps (aim_hub msg)) (\<lambda>hub.
     and_then (traverse (zd_addr_validate deps) (aim_farms msg)) (\<lambda>farms.
     and_then (validate_ampz_fees deps (aim_fee msg)) (\<lambda>fee.
     Ok (st\<lparr>as_controller := Some controller, as_zapper := Some zapper, as_astroport := Some astroport, as_owner := Some owner,
         as_hub := Some hub, as_farms := Some farms, as_id := Some 1, as_fee := Some fee\<rparr>, new_response))))))))"

fun push_new :: "addr list \<Rightarrow> addr list \<Rightarrow> addr list" where
  "push_new farms [] = farms"
| "push_new farms (f # fs) = push_new (if f \<in> set farms then farms else farms @ [f]) fs"

definition update_farms :: "ampz_deps \<Rightarrow> ampz_update \<Rightarrow> ampz_state \<Rightarrow> (ampz_state, ampz_error) result" where
  "update_farms deps msg st =
     and_then (case au_add_farms msg of
         Some fs \<Rightarrow>
           and_then (astd (traverse (zd_addr_validate deps) fs)) (\<lambda>fs.
           and_then (astd (load_item (as_farms st))) (\<lambda>farms. Ok (st\<lparr>as_farms := Some (push_new farms fs)\<rparr>)))
       | None \<Rightarrow> Ok st) (\<lambda>st.
     case au_remove_farms msg of
       Some fs \<Rightarrow>
         and_then (astd (traverse (zd_addr_validate deps) fs)) (\<lambda>fs.
         and_then (astd (load_item (as_farms st))) (\<lambda>farms. Ok (st\<lparr>as_farms := Some (filter (\<lambda>f. f \<notin> set fs) farms)\<rparr>)))
     | None \<Rightarrow> Ok st)"

text \<open>An optional new address of an item.\<close>

definition new_addr :: "ampz_deps \<Rightarrow> string option \<Rightarrow> addr option \<Rightarrow> (addr option, ampz_error) result" where
  "new_addr deps a old = (case a of Some s \<Rightarrow> and_then (astd (zd_addr_validate deps s)) (\<lambda>x. Ok (Some x)) | None \<Rightarrow> Ok old)"

definition ampz_update_config :: "ampz_deps \<Rightarrow> message_info \<Rightarrow> ampz_update \<Rightarrow> ampz_state \<Rightarrow> ampz_result" where
  "ampz_update_config deps info msg st =
     and_then (ampz_assert_owner st (info_sender info)) (\<lambda>_.
     and_then (update_farms deps msg st) (\<lambda>st.
     and_then (new_addr deps (au_controller msg) (as_controller st)) (\<lambda>controller.
     and_then (case au_astroport msg of
         Some c \<Rightarrow> and_then (astd (validate_astroport deps c)) (\<lambda>c. Ok (Some c)) | None \<Rightarrow> Ok (as_astroport st)) (\<lambda>astroport.
     and_then (new_addr deps (au_zapper msg) (as_zapper st)) (\<lambda>zapper.
     and_then (new_addr deps (au_hub msg) (as_hub st)) (\<lambda>hub.
     and_then (case au_fee msg of
         Some f \<Rightarrow> and_then (astd (validate_ampz_fees deps f)) (\<lambda>f. Ok (Some f)) | None \<Rightarrow> Ok (as_fee st)) (\<lambda>fee.
     Ok (st\<lparr>as_controller := controller, as_astroport := astroport, as_zapper := zapper, as_hub := hub, as_fee := fee\<rparr>,
       add_attribute new_response ''action'' ''ampz/update_config''))))))))"

definition ampz_transfer_ownership :: "ampz_deps \<Rightarrow> addr \<Rightarrow> string \<Rightarrow> ampz_state \<Rightarrow> ampz_result" where
  "ampz_transfer_ownership deps sender new_owner st =
     and_then (ampz_assert_owner st sender) (\<lambda>_.
     and_then (astd (zd_addr_validate deps new_owner)) (\<lambda>new_owner.
     Ok (st\<lparr>as_new_owner := Some new_owner\<rparr>, add_attribute new_response ''action'' ''ampz/transfer_ownership'')))"

definition ampz_drop_ownership_proposal :: "addr \<Rightarrow> ampz_state \<Rightarrow> ampz_result" where
  "ampz_drop_ownership_proposal sender st =
     and_then (ampz_assert_owner st sender) (\<lambda>_.
     Ok (st\<lparr>as_new_owner := None\<rparr>, add_attribute new_response ''action'' ''ampz/drop_ownership_proposal''))"

definition ampz_accept_ownership :: "addr \<Rightarrow> ampz_state \<Rightarrow> ampz_result" where
  "ampz_accept_ownership sender st =
     and_then (astd (load_item (as_owner st))) (\<lambda>previous_owner.
     and_then (astd (load_item (as_new_owner st))) (\<lambda>new_owner.
     if sender \<noteq> new_owner then Err AmpzSenderNotNewOwner
     else Ok (st\<lparr>as_owner := Some sender, as_new_owner := None\<rparr>,
       add_attribute (add_event new_response (new_event ''ampz/ownership_transferred''
         [(''new_owner'', new_owner), (''previous_owner'', previous_owner)])) ''action'' ''ampz/transfer_ownership'')))"

section \<open>Adding and removing executions (\<open>crud.rs\<close>)\<close>

definition check_destination :: "ampz_deps \<Rightarrow> ampz_state \<Rightarrow> destination_state \<Rightarrow> (unit, ampz_error) result" where
  "check_destination deps st d = (case d of
     DepositAmplifier \<Rightarrow> Ok ()
   | DepositFarm farm \<Rightarrow>
       and_then (astd (load_item (as_farms st))) (\<lambda>farms.
       and_then (astd (zd_addr_validate deps farm)) (\<lambda>farm.
       if farm \<notin> set farms then Err (FarmNotSupported farm) else Ok ())))"

text \<open>
  A source with a key is registered for the user; when it is overwritten the former execution is removed, and its time stays.
\<close>

definition register_source :: "bool \<Rightarrow> execution \<Rightarrow> u128 \<Rightarrow> ampz_state \<Rightarrow> (ampz_state, ampz_error) result" where
  "register_source overwrite e new_id st =
     (case try_get_uniq_key (ex_source e) of
        None \<Rightarrow> Ok st
      | Some source \<Rightarrow>
          and_then (if overwrite then
              (case get (as_user_source st) (ex_user e, source) of
                 Some old_id \<Rightarrow> Ok (st\<lparr>as_executions := del old_id (as_executions st),
                   as_user_source := del (ex_user e, source) (as_user_source st)\<rparr>)
               | None \<Rightarrow> Ok st)
            else if get (as_user_source st) (ex_user e, source) \<noteq> None then Err ExecutionSourceCanOnlyBeUsedOnce
            else Ok st) (\<lambda>st.
          Ok (st\<lparr>as_user_source := put (ex_user e, source) new_id (as_user_source st)\<rparr>)))"

definition add_execution :: "ampz_deps \<Rightarrow> env \<Rightarrow> message_info \<Rightarrow> execution \<Rightarrow> bool \<Rightarrow> ampz_state \<Rightarrow> ampz_result" where
  "add_execution deps env info e overwrite st =
     (if ex_user e \<noteq> info_sender info then Err MustBeSameUser
      else
        and_then (check_destination deps st (ex_destination e)) (\<lambda>_.
        and_then (astd (load_item (as_id st))) (\<lambda>new_id.
        and_then (register_source overwrite e new_id st) (\<lambda>st.
        and_then (u128_add new_id 1) (\<lambda>next_id.
        Ok (st\<lparr>as_executions := put new_id e (as_executions st),
            as_last_execution := put new_id (saturating_sub (unwrap_or (sc_start (ex_schedule e)) (env_time env)) (sc_interval_s (ex_schedule e)))
              (as_last_execution st),
            as_id := Some next_id\<rparr>,
          add_attributes new_response [(''action'', ''ampz/add_execution''), (''id'', nat_str new_id)]))))))"

text \<open>Removing an execution with its time and its source.\<close>

definition forget_execution :: "u128 \<Rightarrow> execution \<Rightarrow> ampz_state \<Rightarrow> ampz_state" where
  "forget_execution n e st = st\<lparr>as_executions := del n (as_executions st), as_last_execution := del n (as_last_execution st),
     as_user_source := (case try_get_uniq_key (ex_source e) of
       Some source \<Rightarrow> del (ex_user e, source) (as_user_source st) | None \<Rightarrow> as_user_source st)\<rparr>"

definition remove_execution :: "addr \<Rightarrow> ampz_state \<Rightarrow> u128 \<Rightarrow> (ampz_state, ampz_error) result" where
  "remove_execution sender st n =
     and_then (get_by_id st n) (\<lambda>e.
     if ex_user e \<noteq> sender then Err MustBeSameUser else Ok (forget_execution n e st))"

definition remove_executions :: "message_info \<Rightarrow> u128 list option \<Rightarrow> ampz_state \<Rightarrow> ampz_result" where
  "remove_executions info ids st =
     and_then (case ids of
         Some ns \<Rightarrow> and_then (try_fold (remove_execution (info_sender info)) st ns) (\<lambda>st. Ok (st, ns))
       | None \<Rightarrow>
           let es = get_by_user st (info_sender info) in
           Ok (fold (\<lambda>e. forget_execution (fst e) (snd e)) es st, map fst es)) (\<lambda>(st, ns).
     Ok (st, add_attributes (add_attribute new_response ''action'' ''ampz/remove_executions'')
       (map (\<lambda>n. (''removed_id'', nat_str n)) ns)))"

section \<open>Running an execution (\<open>execute.rs\<close>)\<close>

definition delegated_validators :: "ampz_deps \<Rightarrow> addr \<Rightarrow> (string list, std_error) result" where
  "delegated_validators deps delegator =
     and_then (zd_delegations deps delegator) (\<lambda>ds.
     Ok (map fst (filter (\<lambda>d. c_denom (snd d) = AMPZ_DENOM \<and> c_amount (snd d) \<noteq> 0) ds)))"

text \<open>
  What a source starts with: the assets concerned, the user's balances before, the limit of what is taken, whether a swap is needed, and the
  messages in the user's name.
\<close>

record source_plan =
  sp_infos :: "asset_info list"
  sp_balances :: "asset list"
  sp_max :: "asset list option"
  sp_swap :: bool
  sp_msgs :: "ampz_msg list"

definition plan_source :: "ampz_deps \<Rightarrow> env \<Rightarrow> ampz_state \<Rightarrow> addr \<Rightarrow> execution \<Rightarrow> (source_plan, ampz_error) result" where
  "plan_source deps env st user e = (case ex_source e of
     Claim \<Rightarrow>
       and_then (astd (delegated_validators deps user)) (\<lambda>validators.
       if validators = [] then Err NoActiveDelegation
       else
         and_then (astd (query_balances (zd_assets deps) [NativeToken AMPZ_DENOM] user)) (\<lambda>balances.
         Ok \<lparr>sp_infos = [NativeToken AMPZ_DENOM], sp_balances = balances, sp_max = None, sp_swap = False,
           sp_msgs = [msg_exec env (map (AnyWithdrawReward user) validators)]\<rparr>))
   | AstroRewards lps \<Rightarrow>
       and_then (astd (load_item (as_astroport st))) (\<lambda>astroport.
       and_then (astd (query_balances (zd_assets deps) (ac_coins astroport) user)) (\<lambda>balances.
       and_then (astd (to_authz_msg user env (WasmExecute (ac_generator astroport) (GeneratorClaim lps) []))) (\<lambda>msg.
       Ok \<lparr>sp_infos = ac_coins astroport, sp_balances = balances, sp_max = None, sp_swap = (ex_destination e = DepositAmplifier),
         sp_msgs = [msg]\<rparr>)))
   | Wallet over max_amount \<Rightarrow>
       and_then (astd (al_query_pool (zd_assets deps) (as_info over) user)) (\<lambda>current.
       if current \<le> as_amount over then Err BalanceLessThanThreshold
       else Ok \<lparr>sp_infos = [as_info over], sp_balances = [over], sp_max = map_option (\<lambda>m. [with_balance (as_info over) m]) max_amount,
         sp_swap = (ex_destination e = DepositAmplifier \<and> as_info over \<noteq> NativeToken AMPZ_DENOM), sp_msgs = []\<rparr>))"

definition execute_id :: "ampz_deps \<Rightarrow> env \<Rightarrow> message_info \<Rightarrow> u128 \<Rightarrow> ampz_state \<Rightarrow> ampz_result" where
  "execute_id deps env info n st =
     and_then (get_by_id st n) (\<lambda>e.
     and_then (astd (zd_addr_validate deps (ex_user e))) (\<lambda>user.
     and_then (astd (load_item (get (as_last_execution st) n))) (\<lambda>last_execution.
     if last_execution + sc_interval_s (ex_schedule e) > U64_MAX then Err AmpzOverflow
     else
       let next_execution = last_execution + sc_interval_s (ex_schedule e); ignore_schedule = (info_sender info = ex_user e) in
       if \<not> ignore_schedule \<and> next_execution > env_time env then Err (ExecutionInFuture next_execution)
       else if as_is_executing st \<noteq> None then Err AmpzIsExecuting
       else
         and_then (plan_source deps env st user e) (\<lambda>plan.
         let callback = (\<lambda>msg. ampz_into_msg msg (env_contract env) n user);
             native = NativeToken AMPZ_DENOM;
             infos = (if sp_swap plan then [native] else sp_infos plan);
             msgs = sp_msgs plan @ [callback (AuthzDeposit (sp_balances plan) (sp_max plan))]
               @ (if sp_swap plan then [callback (SwapInto (sp_infos plan) native)] else [])
               @ [callback (FinishExecution (to_runtime infos (ex_destination e)) (info_sender info))] in
         Ok (st\<lparr>as_last_execution := put n (env_time env) (as_last_execution st), as_is_executing := Some True\<rparr>,
           add_messages (add_attributes new_response [(''action'', ''ampz/execute_id''), (''id'', nat_str n)]) msgs)))))"

section \<open>The callbacks (\<open>callback.rs\<close>)\<close>

definition authz_deposit ::
    "ampz_deps \<Rightarrow> env \<Rightarrow> addr \<Rightarrow> asset list \<Rightarrow> asset list option \<Rightarrow> (ampz_msg list \<times> attribute list, ampz_error) result" where
  "authz_deposit deps env user before max_amount =
     and_then (astd (query_balance_diff (zd_assets deps) before user max_amount)) (\<lambda>balances.
     if balances = [] then Err AmpzNothingToDeposit
     else
       and_then (astd (funds_or_allowance (zd_assets deps) AmpzToken env (env_contract env) balances None)) (\<lambda>(funds, allowances).
       and_then (astd (traverse (to_authz_msg user env) allowances)) (\<lambda>allow_msgs.
       and_then (astd (to_authz_msg user env (WasmExecute (env_contract env) (ToAmpz (AmpzDeposit balances)) funds))) (\<lambda>deposit_msg.
       Ok (allow_msgs @ [deposit_msg], [(''type'', ''authz_deposit'')] @ map (\<lambda>a. (''amount'', asset_str deps a)) balances)))))"

definition swap_into ::
    "ampz_deps \<Rightarrow> env \<Rightarrow> ampz_state \<Rightarrow> asset_info list \<Rightarrow> asset_info \<Rightarrow> (ampz_msg list \<times> attribute list, ampz_error) result" where
  "swap_into deps env st infos into =
     and_then (astd (query_balances (zd_assets deps) (filter (\<lambda>i. i \<noteq> into) infos) (env_contract env))) (\<lambda>balances.
     let balances = filter (\<lambda>a. as_amount a \<noteq> 0) balances in
     if balances = [] then Ok ([], [(''type'', ''swap''), (''skipped-swap'', ''1''), (''to'', zd_debug deps into)])
     else
       and_then (astd (load_item (as_zapper st))) (\<lambda>zapper.
       and_then (astd (funds_or_allowance (zd_assets deps) AmpzToken env zapper balances None)) (\<lambda>(funds, allowances).
       Ok (allowances @ [WasmExecute zapper (ZapperMultiSwap balances into None) (sort_funds funds)],
         [(''type'', ''swap'')] @ map (\<lambda>a. (''from'', asset_str deps a)) balances @ [(''to'', zd_debug deps into)]))))"

definition amounts_as_attrs :: "ampz_deps \<Rightarrow> asset list \<Rightarrow> attribute list" where
  "amounts_as_attrs deps balances = map (\<lambda>a. (''amount'', asset_str deps a)) balances"

text \<open>The fee of one asset: what is deposited, and the messages that pay the protocol and the operator.\<close>

record fee_run =
  fr_result :: "asset list"
  fr_msgs :: "ampz_msg list"
  fr_attrs :: "attribute list"

definition fee_step ::
    "ampz_deps \<Rightarrow> ampz_fees \<Rightarrow> addr \<Rightarrow> addr \<Rightarrow> basic_points \<Rightarrow> fee_run \<Rightarrow> asset \<Rightarrow> (fee_run, std_error) result" where
  "fee_step deps fee controller operator operator_bps run a =
     (if as_amount a = 0 then Ok run
      else
        and_then (bps_decimal operator_bps) (\<lambda>operator_part.
        and_then (multiply_ratio (as_amount a) operator_part DEC_ONE) (\<lambda>operator_fee.
        and_then (bps_decimal (af_fee_bps fee)) (\<lambda>protocol_part.
        and_then (multiply_ratio (as_amount a) protocol_part DEC_ONE) (\<lambda>protocol_fee.
        and_then (checked_sub (as_amount a) operator_fee) (\<lambda>x.
        and_then (checked_sub x protocol_fee) (\<lambda>deposit_amount.
        and_then (if operator = af_receiver fee \<or> operator = controller then
            and_then (u128_add protocol_fee operator_fee) (\<lambda>p. Ok (p, 0)) else Ok (protocol_fee, operator_fee)) (\<lambda>(protocol_fee, operator_fee).
        Ok \<lparr>fr_result = fr_result run @ [with_balance (as_info a) deposit_amount],
          fr_msgs = fr_msgs run
            @ (if protocol_fee \<noteq> 0 then [transfer_msg AmpzToken (as_info a) protocol_fee (af_receiver fee)] else [])
            @ (if operator_fee \<noteq> 0 then [transfer_msg AmpzToken (as_info a) operator_fee operator] else []),
          fr_attrs = fr_attrs run
            @ (if protocol_fee \<noteq> 0 then [(''fee'', asset_str deps (with_balance (as_info a) protocol_fee))] else [])
            @ (if operator_fee \<noteq> 0 then [(''operator_fee'', asset_str deps (with_balance (as_info a) operator_fee))] else [])\<rparr>))))))))"

definition pay_fees :: "ampz_deps \<Rightarrow> ampz_state \<Rightarrow> asset list \<Rightarrow> addr \<Rightarrow> addr \<Rightarrow> (fee_run, std_error) result" where
  "pay_fees deps st balances operator user =
     and_then (load_item (as_fee st)) (\<lambda>fee.
     let operator_bps = (if user = operator then 0 else af_operator_bps fee) in
     and_then (bps_checked_add operator_bps (af_fee_bps fee)) (\<lambda>total_fee_bps.
     if total_fee_bps = 0 then Ok \<lparr>fr_result = balances, fr_msgs = [], fr_attrs = amounts_as_attrs deps balances\<rparr>
     else
       and_then (load_item (as_controller st)) (\<lambda>controller.
       and_then (try_fold (fee_step deps fee controller operator operator_bps) \<lparr>fr_result = [], fr_msgs = [], fr_attrs = []\<rparr> balances) (\<lambda>run.
       Ok (run\<lparr>fr_attrs := fr_attrs run @ amounts_as_attrs deps (fr_result run)\<rparr>)))))"

definition deposit_in_farm :: "ampz_deps \<Rightarrow> string \<Rightarrow> env \<Rightarrow> addr \<Rightarrow> asset list \<Rightarrow> (ampz_msg list, std_error) result" where
  "deposit_in_farm deps farm env user balances =
     and_then (zd_addr_validate deps farm) (\<lambda>farm.
     and_then (funds_or_allowance (zd_assets deps) AmpzToken env farm balances None) (\<lambda>(funds, allowances).
     Ok (allowances @ [WasmExecute farm (FarmBond balances (Some user)) (sort_funds funds)])))"

definition finish_execution ::
    "ampz_deps \<Rightarrow> env \<Rightarrow> ampz_state \<Rightarrow> addr \<Rightarrow> destination_runtime \<Rightarrow> addr \<Rightarrow> (ampz_msg list \<times> attribute list, ampz_error) result" where
  "finish_execution deps env st user destination executor = (case destination of
     RunDepositAmplifier \<Rightarrow>
       and_then (astd (al_query_pool (zd_assets deps) (NativeToken AMPZ_DENOM) (env_contract env))) (\<lambda>amount.
       if amount = 0 then Err AmpzNothingToDeposit
       else
         and_then (astd (pay_fees deps st [with_balance (NativeToken AMPZ_DENOM) amount] executor user)) (\<lambda>run.
         and_then (unwrap (if fr_result run = [] then None else Some (hd (fr_result run)))) (\<lambda>balance.
         and_then (astd (load_item (as_hub st))) (\<lambda>hub.
         Ok (fr_msgs run @ [WasmExecute hub (HubBond (Some user)) [mk_coin (as_amount balance) AMPZ_DENOM]],
           [(''type'', ''deposit_amplifier'')] @ fr_attrs run)))))
   | RunDepositFarm infos farm \<Rightarrow>
       and_then (astd (query_balances (zd_assets deps) infos (env_contract env))) (\<lambda>balances.
       and_then (astd (pay_fees deps st balances executor user)) (\<lambda>run.
       and_then (astd (deposit_in_farm deps farm env user (fr_result run))) (\<lambda>msgs.
       Ok (fr_msgs run @ msgs, [(''type'', ''deposit_farm'')] @ fr_attrs run)))))"

definition ampz_callback :: "ampz_deps \<Rightarrow> env \<Rightarrow> message_info \<Rightarrow> callback_wrapper \<Rightarrow> ampz_state \<Rightarrow> ampz_result" where
  "ampz_callback deps env info w st =
     (if env_contract env \<noteq> info_sender info then Err AmpzCallbackOnlyCalledByContract
      else
        let respond = (\<lambda>(msgs, attrs). add_messages (add_attributes (add_attribute new_response ''action'' ''ampz/callback'') attrs) msgs) in
        case cw_message w of
          AuthzDeposit before max_amount \<Rightarrow> and_then (authz_deposit deps env (cw_user w) before max_amount) (\<lambda>x. Ok (st, respond x))
        | SwapInto infos into \<Rightarrow> and_then (swap_into deps env st infos into) (\<lambda>x. Ok (st, respond x))
        | FinishExecution destination executor \<Rightarrow>
            and_then (finish_execution deps env st (cw_user w) destination executor) (\<lambda>x.
            Ok (st\<lparr>as_is_executing := None\<rparr>, respond x)))"

section \<open>Dispatch and queries\<close>

definition ampz_deposit :: "ampz_deps \<Rightarrow> env \<Rightarrow> message_info \<Rightarrow> asset list \<Rightarrow> ampz_state \<Rightarrow> ampz_result" where
  "ampz_deposit deps env info assets st =
     (if as_is_executing st = None then Err AmpzIsNotExecuting
      else if \<not> distinct (map (\<lambda>a. al_to_string (zd_assets deps) (as_info a)) assets) then Err AmpzDuplicatedAsset
      else
        and_then (astd (traverse (\<lambda>a. deposit_asset (zd_assets deps) AmpzToken a info (env_contract env)) assets)) (\<lambda>msgs.
        Ok (st, add_messages (add_attribute new_response ''action'' ''ampz/deposit'') (concat msgs))))"

fun ampz_execute :: "ampz_deps \<Rightarrow> env \<Rightarrow> message_info \<Rightarrow> ampz_execute_msg \<Rightarrow> ampz_state \<Rightarrow> ampz_result" where
  "ampz_execute deps env info (AmpzExecute n) st = execute_id deps env info n st"
| "ampz_execute deps env info (AddExecution overwrite e) st = add_execution deps env info e overwrite st"
| "ampz_execute deps env info (RemoveExecutions ids) st = remove_executions info ids st"
| "ampz_execute deps env info (AmpzCallback w) st = ampz_callback deps env info w st"
| "ampz_execute deps env info (AmpzTransferOwnership new_owner) st = ampz_transfer_ownership deps (info_sender info) new_owner st"
| "ampz_execute deps env info AmpzDropOwnershipProposal st = ampz_drop_ownership_proposal (info_sender info) st"
| "ampz_execute deps env info AmpzAcceptOwnership st = ampz_accept_ownership (info_sender info) st"
| "ampz_execute deps env info (AmpzUpdateConfig msg) st = ampz_update_config deps info msg st"
| "ampz_execute deps env info (AmpzDeposit assets) st = ampz_deposit deps env info assets st"

definition ampz_migrate :: "ampz_state \<Rightarrow> (ampz_state \<times> ampz_response, std_error) result" where
  "ampz_migrate st = Ok (st, add_attribute new_response ''new_contract_name'' ''eris-ampz'')"

record ampz_config_response =
  acr_hub :: string
  acr_farms :: "string list"
  acr_owner :: string
  acr_new_owner :: "string option"
  acr_controller :: string
  acr_zapper :: string
  acr_astroport :: astroport_config
  acr_fee :: ampz_fees

record execution_detail =
  xd_id :: u128
  xd_execution :: execution
  xd_last_execution :: u64
  xd_can_execute :: bool

definition ampz_query_config :: "ampz_state \<Rightarrow> (ampz_config_response, std_error) result" where
  "ampz_query_config st =
     and_then (load_item (as_owner st)) (\<lambda>owner.
     and_then (load_item (as_controller st)) (\<lambda>controller.
     and_then (load_item (as_hub st)) (\<lambda>hub.
     and_then (load_item (as_farms st)) (\<lambda>farms.
     and_then (load_item (as_astroport st)) (\<lambda>astroport.
     and_then (load_item (as_zapper st)) (\<lambda>zapper.
     and_then (load_item (as_fee st)) (\<lambda>fee.
     Ok \<lparr>acr_hub = hub, acr_farms = farms, acr_owner = owner, acr_new_owner = as_new_owner st, acr_controller = controller,
       acr_zapper = zapper, acr_astroport = astroport, acr_fee = fee\<rparr>)))))))"

text \<open>An execution with its time, and whether it is past due: the comparison is strict.\<close>

definition detail_of :: "env \<Rightarrow> ampz_state \<Rightarrow> u128 \<times> execution \<Rightarrow> (execution_detail, std_error) result" where
  "detail_of env st = (\<lambda>(n, e).
     and_then (load_item (get (as_last_execution st) n)) (\<lambda>last_execution.
     and_then (u64_add last_execution (sc_interval_s (ex_schedule e))) (\<lambda>due.
     Ok \<lparr>xd_id = n, xd_execution = e, xd_last_execution = last_execution, xd_can_execute = (due < env_time env)\<rparr>)))"

definition ampz_user_info :: "env \<Rightarrow> string \<Rightarrow> ampz_state \<Rightarrow> (execution_detail list, std_error) result" where
  "ampz_user_info env user st = traverse (detail_of env st) (get_by_user st user)"

definition ampz_query_execution :: "env \<Rightarrow> u128 \<Rightarrow> ampz_state \<Rightarrow> (execution_detail, std_error) result" where
  "ampz_query_execution env n st = and_then (load_item (get (as_executions st) n)) (\<lambda>e. detail_of env st (n, e))"

definition ampz_query_executions :: "u128 option \<Rightarrow> nat option \<Rightarrow> ampz_state \<Rightarrow> (u128 \<times> execution) list" where
  "ampz_query_executions start_after limit st = page start_after (min (unwrap_or limit 10) 30) (entries (as_executions st))"

datatype ampz_query_msg =
    AmpzConfigQuery
  | AmpzStateQuery
  | AmpzUserInfoQuery string
  | AmpzExecutionsQuery "u128 option" "nat option"
  | AmpzExecutionQuery u128

datatype ampz_answer =
    AmpzConfigAnswer ampz_config_response
  | AmpzStateAnswer u128
  | AmpzUserInfoAnswer "execution_detail list"
  | AmpzExecutionsAnswer "(u128 \<times> execution) list"
  | AmpzExecutionAnswer execution_detail

fun ampz_query :: "env \<Rightarrow> ampz_query_msg \<Rightarrow> ampz_state \<Rightarrow> (ampz_answer, std_error) result" where
  "ampz_query env AmpzConfigQuery st = and_then (ampz_query_config st) (\<lambda>r. Ok (AmpzConfigAnswer r))"
| "ampz_query env AmpzStateQuery st = and_then (load_item (as_id st)) (\<lambda>n. Ok (AmpzStateAnswer n))"
| "ampz_query env (AmpzUserInfoQuery user) st = and_then (ampz_user_info env user st) (\<lambda>r. Ok (AmpzUserInfoAnswer r))"
| "ampz_query env (AmpzExecutionsQuery start_after limit) st = Ok (AmpzExecutionsAnswer (ampz_query_executions start_after limit st))"
| "ampz_query env (AmpzExecutionQuery n) st = and_then (ampz_query_execution env n st) (\<lambda>r. Ok (AmpzExecutionAnswer r))"

end
