(* ===== verification/AmpzProps.thy ===== *)
theory AmpzProps
  imports Ampz
begin

text \<open>
  Properties of ampz: every user has at most one execution per kind of source, executions run by others keep the interval, and the fees are
  split off exactly.
\<close>

section \<open>Runs\<close>

text \<open>The time of the blocks does not decrease.\<close>

inductive ampz_run :: "u64 \<Rightarrow> ampz_state \<Rightarrow> u64 \<Rightarrow> ampz_state \<Rightarrow> bool" where
  ampz_idle: "ampz_run t st t st"
| ampz_handles: "ampz_run t st t1 s1 \<Longrightarrow> t1 \<le> env_time env \<Longrightarrow> ampz_execute deps env info msg s1 = Ok (s2, r) \<Longrightarrow> ampz_run t st (env_time env) s2"

definition ampz_reachable :: "ampz_state \<Rightarrow> bool" where
  "ampz_reachable st \<longleftrightarrow> (\<exists>deps msg s0 r t t'. ampz_instantiate deps msg empty_ampz = Ok (s0, r) \<and> ampz_run t s0 t' st)"

section \<open>The books\<close>

definition source_of :: "execution \<Rightarrow> (string \<times> string) option" where
  "source_of e = map_option (\<lambda>k. (ex_user e, k)) (try_get_uniq_key (ex_source e))"

text \<open>The index of the sources is exact.\<close>

definition linked :: "(u128, execution) store \<Rightarrow> (string \<times> string, u128) store \<Rightarrow> bool" where
  "linked ex src \<longleftrightarrow> (\<forall>s k. get src s = Some k \<longleftrightarrow> (\<exists>e. get ex k = Some e \<and> source_of e = Some s))"

lemma linkedD: "linked ex src \<Longrightarrow> get ex k = Some e \<Longrightarrow> source_of e = Some s \<Longrightarrow> get src s = Some k"
  unfolding linked_def by blast

lemma linked_del:
  assumes "linked ex src" and "get ex n = Some e"
  shows "linked (del n ex) (case source_of e of Some s \<Rightarrow> del s src | None \<Rightarrow> src)"
  unfolding linked_def
proof (intro allI)
  fix s k
  have old: "get src s = Some k \<longleftrightarrow> (\<exists>e. get ex k = Some e \<and> source_of e = Some s)" using assms(1) unfolding linked_def by blast
  show "get (case source_of e of Some s \<Rightarrow> del s src | None \<Rightarrow> src) s = Some k \<longleftrightarrow> (\<exists>e. get (del n ex) k = Some e \<and> source_of e = Some s)"
  proof (cases "source_of e = Some s")
    case True
    then have "get src s = Some n" by (rule linkedD [OF assms])
    with old True show ?thesis by (auto simp: store_simps)
  next
    case False
    then have "get (case source_of e of Some s \<Rightarrow> del s src | None \<Rightarrow> src) s = get src s"
      by (cases "source_of e") (auto simp: store_simps)
    moreover have "(\<exists>e. get (del n ex) k = Some e \<and> source_of e = Some s) \<longleftrightarrow> (\<exists>e. get ex k = Some e \<and> source_of e = Some s)"
      using assms(2) False by (auto simp: store_simps)
    ultimately show ?thesis using old by simp
  qed
qed

lemma linked_put:
  assumes "linked ex src" and "get ex n = None" and "\<And>s. source_of e = Some s \<Longrightarrow> get src s = None"
  shows "linked (put n e ex) (case source_of e of Some s \<Rightarrow> put s n src | None \<Rightarrow> src)"
  unfolding linked_def
proof (intro allI)
  fix s k
  have old: "get src s = Some k \<longleftrightarrow> (\<exists>e. get ex k = Some e \<and> source_of e = Some s)" using assms(1) unfolding linked_def by blast
  show "get (case source_of e of Some s \<Rightarrow> put s n src | None \<Rightarrow> src) s = Some k \<longleftrightarrow> (\<exists>x. get (put n e ex) k = Some x \<and> source_of x = Some s)"
  proof (cases "source_of e = Some s")
    case True
    with assms(3) old have "\<not> (\<exists>x. get ex k = Some x \<and> source_of x = Some s)" by simp
    with True show ?thesis by (auto simp: store_simps)
  next
    case False
    then have "get (case source_of e of Some s \<Rightarrow> put s n src | None \<Rightarrow> src) s = get src s"
      by (cases "source_of e") (auto simp: store_simps)
    with old False assms(2) show ?thesis by (auto simp: store_simps)
  qed
qed

definition ampz_books :: "ampz_state \<Rightarrow> bool" where
  "ampz_books st \<longleftrightarrow> wf_store (as_executions st) \<and> linked (as_executions st) (as_user_source st) \<and>
     (\<exists>n. as_id st = Some n \<and> (\<forall>k e. get (as_executions st) k = Some e \<longrightarrow> k < n \<and> get (as_last_execution st) k \<noteq> None)) \<and>
     (\<forall>f. as_fee st = Some f \<longrightarrow> af_fee_bps f \<le> 500 \<and> af_operator_bps f \<le> 500)"

definition same_ampz_books :: "ampz_state \<Rightarrow> ampz_state \<Rightarrow> bool" where
  "same_ampz_books st st' \<longleftrightarrow> as_executions st' = as_executions st \<and> as_user_source st' = as_user_source st \<and> as_id st' = as_id st \<and>
     as_last_execution st' = as_last_execution st"

lemma books_cong:
  assumes "ampz_books st" and "same_ampz_books st st'" and "\<And>f. as_fee st' = Some f \<Longrightarrow> af_fee_bps f \<le> 500 \<and> af_operator_bps f \<le> 500"
  shows "ampz_books st'"
  using assms by (simp add: ampz_books_def same_ampz_books_def)

lemma forget_books:
  assumes "ampz_books st" and "get (as_executions st) n = Some e"
  shows "ampz_books (forget_execution n e st)"
proof -
  have "linked (as_executions (forget_execution n e st)) (as_user_source (forget_execution n e st))"
    using linked_del [OF _ assms(2)] assms(1)
    by (cases "try_get_uniq_key (ex_source e)") (auto simp: ampz_books_def forget_execution_def source_of_def)
  with assms show ?thesis by (auto simp: ampz_books_def forget_execution_def store_simps)
qed

lemma forget_other: "n \<noteq> m \<Longrightarrow> get (as_executions (forget_execution n e st)) m = get (as_executions st) m"
  by (simp add: forget_execution_def store_simps)

lemma forget_sub: "get (as_executions (forget_execution n e st)) m = Some x \<Longrightarrow> get (as_executions st) m = Some x \<and>
    get (as_last_execution (forget_execution n e st)) m = get (as_last_execution st) m"
  by (auto simp: forget_execution_def store_simps split: if_splits)

text \<open>A new execution takes a fresh id; the former one of the same source, if any, is gone.\<close>

lemma register_source_outcome:
  assumes "register_source overwrite e n st = Ok s1" and "ampz_books st"
  obtains ex src where "linked ex src" and "wf_store ex" and "\<forall>k x. get ex k = Some x \<longrightarrow> get (as_executions st) k = Some x"
    and "\<forall>s. source_of e = Some s \<longrightarrow> get src s = None"
    and "s1 = st\<lparr>as_executions := ex, as_user_source := (case source_of e of Some s \<Rightarrow> put s n src | None \<Rightarrow> src)\<rparr>"
proof (cases "source_of e")
  case None
  then have "s1 = st" using assms(1) by (auto simp: register_source_def source_of_def split: option.splits)
  then show ?thesis using assms(2) None by (intro that [of "as_executions st" "as_user_source st"]) (auto simp: ampz_books_def)
next
  case (Some s)
  then obtain key where key: "try_get_uniq_key (ex_source e) = Some key" "s = (ex_user e, key)" by (auto simp: source_of_def)
  show ?thesis
  proof (cases "get (as_user_source st) s")
    case None
    then have "s1 = st\<lparr>as_user_source := put s n (as_user_source st)\<rparr>"
      using assms(1) key by (auto simp: register_source_def ok_simps split: if_splits)
    then show ?thesis using assms(2) None Some
      by (intro that [of "as_executions st" "as_user_source st"]) (auto simp: ampz_books_def)
  next
    case (Some old)
    then have s1: "s1 = st\<lparr>as_executions := del old (as_executions st), as_user_source := put s n (del s (as_user_source st))\<rparr>"
      using assms(1) key by (auto simp: register_source_def ok_simps split: if_splits)
    have "linked (as_executions st) (as_user_source st)" using assms(2) by (simp add: ampz_books_def)
    moreover from this Some obtain e0 where "get (as_executions st) old = Some e0" and "source_of e0 = Some s" unfolding linked_def by blast
    ultimately have "linked (del old (as_executions st)) (del s (as_user_source st))" using linked_del by fastforce
    then show ?thesis using assms(2) s1 \<open>source_of e = Some s\<close>
      by (intro that [of "del old (as_executions st)" "del s (as_user_source st)"]) (auto simp: ampz_books_def store_simps split: if_splits)
  qed
qed

lemma add_execution_outcome:
  assumes "add_execution deps env info e overwrite st = Ok (st', r)"
  obtains n s1 t where "ex_user e = info_sender info" and "as_id st = Some n" and "register_source overwrite e n st = Ok s1"
    and "st' = s1\<lparr>as_executions := put n e (as_executions s1), as_last_execution := put n t (as_last_execution s1), as_id := Some (n + 1)\<rparr>"
  using assms by (auto simp: add_execution_def ok_simps guard_Ok simp del: if_split)

lemma add_books:
  assumes "add_execution deps env info e overwrite st = Ok (st', r)" and "ampz_books st"
  shows "ampz_books st'" and "as_id st = Some n \<Longrightarrow> k < n \<Longrightarrow> get (as_executions st') k = Some x \<Longrightarrow>
    get (as_executions st) k = Some x \<and> get (as_last_execution st') k = get (as_last_execution st) k"
proof -
  obtain m s1 t where m: "as_id st = Some m" and reg: "register_source overwrite e m st = Ok s1" and
    st': "st' = s1\<lparr>as_executions := put m e (as_executions s1), as_last_execution := put m t (as_last_execution s1), as_id := Some (m + 1)\<rparr>"
    by (rule add_execution_outcome [OF assms(1)])
  obtain ex src where link: "linked ex src" and wf: "wf_store ex" and sub: "\<forall>k x. get ex k = Some x \<longrightarrow> get (as_executions st) k = Some x"
    and free: "\<forall>s. source_of e = Some s \<longrightarrow> get src s = None"
    and s1: "s1 = st\<lparr>as_executions := ex, as_user_source := (case source_of e of Some s \<Rightarrow> put s m src | None \<Rightarrow> src)\<rparr>"
    by (rule register_source_outcome [OF reg assms(2)])
  have ids: "get ex k = Some x \<Longrightarrow> k < m \<and> get (as_last_execution st) k \<noteq> None" for k x
    using sub assms(2) m by (fastforce simp: ampz_books_def)
  then have "get ex m = None" by (metis less_irrefl option.exhaust)
  from linked_put [OF link this free [rule_format]] have "linked (as_executions st') (as_user_source st')" by (simp add: st' s1)
  moreover have "wf_store (as_executions st')" using wf by (simp add: st' s1)
  moreover have "\<forall>k x. get (as_executions st') k = Some x \<longrightarrow> k < m + 1 \<and> get (as_last_execution st') k \<noteq> None"
    using ids by (auto simp: st' s1 store_simps less_Suc_eq split: if_splits)
  ultimately show "ampz_books st'" using assms(2) by (simp add: ampz_books_def st' s1)
  assume "as_id st = Some n" and "k < n" and "get (as_executions st') k = Some x"
  then show "get (as_executions st) k = Some x \<and> get (as_last_execution st') k = get (as_last_execution st) k"
    using m sub by (auto simp: st' s1 store_simps split: if_splits)
qed

section \<open>Every message\<close>

text \<open>Executions are never changed, only removed or added under a new id, and their time only moves to the time of the block.\<close>

definition ampz_kept :: "u64 \<Rightarrow> ampz_state \<Rightarrow> ampz_state \<Rightarrow> bool" where
  "ampz_kept now st st' \<longleftrightarrow> ampz_books st' \<and> (\<forall>n. as_id st = Some n \<longrightarrow> (\<exists>n'. as_id st' = Some n' \<and> n \<le> n') \<and>
     (\<forall>k x. k < n \<longrightarrow> get (as_executions st') k = Some x \<longrightarrow> get (as_executions st) k = Some x \<and>
       (get (as_last_execution st') k = get (as_last_execution st) k \<or> get (as_last_execution st') k = Some now)))"

lemma kept_refl: "ampz_books st \<Longrightarrow> ampz_kept now st st" by (simp add: ampz_kept_def)

lemma kept_trans:
  assumes "ampz_kept now st s1" and "ampz_kept now s1 s2" and "ampz_books st"
  shows "ampz_kept now st s2"
proof -
  obtain n where n: "as_id st = Some n" using assms(3) by (auto simp: ampz_books_def)
  obtain n1 where n1: "as_id s1 = Some n1" "n \<le> n1" using assms(1) n by (auto simp: ampz_kept_def)
  obtain n2 where n2: "as_id s2 = Some n2" "n1 \<le> n2" using assms(2) n1 by (auto simp: ampz_kept_def)
  have "get (as_executions st) k = Some x \<and> (get (as_last_execution s2) k = get (as_last_execution st) k \<or> get (as_last_execution s2) k = Some now)"
    if "k < n" "get (as_executions s2) k = Some x" for k x
  proof -
    have "k < n1" using that n1 by simp
    with assms(2) n1 that(2) have "get (as_executions s1) k = Some x \<and>
        (get (as_last_execution s2) k = get (as_last_execution s1) k \<or> get (as_last_execution s2) k = Some now)" by (auto simp: ampz_kept_def)
    moreover from this assms(1) n that(1) have "get (as_executions st) k = Some x \<and>
        (get (as_last_execution s1) k = get (as_last_execution st) k \<or> get (as_last_execution s1) k = Some now)" by (auto simp: ampz_kept_def)
    ultimately show ?thesis by auto
  qed
  with assms(2) n n1 n2 show ?thesis by (auto simp: ampz_kept_def)
qed

lemma kept_same:
  assumes "ampz_books st" and "same_ampz_books st st'" and "\<And>f. as_fee st' = Some f \<Longrightarrow> af_fee_bps f \<le> 500 \<and> af_operator_bps f \<le> 500"
  shows "ampz_kept now st st'"
  using books_cong [OF assms] assms(1,2) by (auto simp: ampz_kept_def same_ampz_books_def)

lemma kept_fee:
  assumes "ampz_books st" and "same_ampz_books st st'" and "as_fee st' = as_fee st"
  shows "ampz_kept now st st'"
  using kept_same [OF assms(1,2)] assms(1,3) by (simp add: ampz_books_def)

lemma forget_kept:
  assumes "ampz_books st" and "get (as_executions st) n = Some e"
  shows "ampz_kept now st (forget_execution n e st)"
  using forget_books [OF assms] by (auto simp: ampz_kept_def forget_execution_def store_simps split: if_splits)

lemma remove_one_kept:
  assumes "remove_execution sender st n = Ok st'" and "ampz_books st"
  shows "ampz_kept now st st'"
  using assms forget_kept by (auto simp: remove_execution_def get_by_id_def ok_simps guard_Ok simp del: if_split)

lemma remove_many_kept:
  assumes "try_fold (remove_execution sender) st ns = Ok st'" and "ampz_books st"
  shows "ampz_kept now st st'"
  using assms
proof (induction ns arbitrary: st)
  case Nil
  then show ?case by (simp add: kept_refl)
next
  case (Cons n ns)
  then obtain s1 where s1: "remove_execution sender st n = Ok s1" "try_fold (remove_execution sender) s1 ns = Ok st'" by (auto simp: ok_simps)
  have k: "ampz_kept now st s1" by (rule remove_one_kept [OF s1(1) Cons.prems(2)])
  then have "ampz_kept now s1 st'" using Cons.IH s1(2) by (simp add: ampz_kept_def)
  with k show ?case using kept_trans Cons.prems(2) by blast
qed

lemma forget_many_kept:
  assumes "distinct (map fst es)" and "\<forall>e \<in> set es. get (as_executions st) (fst e) = Some (snd e)" and "ampz_books st"
  shows "ampz_kept now st (fold (\<lambda>e. forget_execution (fst e) (snd e)) es st)"
  using assms
proof (induction es arbitrary: st)
  case Nil
  then show ?case by (simp add: kept_refl)
next
  case (Cons e es)
  let ?s = "forget_execution (fst e) (snd e) st"
  have k: "ampz_kept now st ?s" using Cons.prems by (intro forget_kept) auto
  have "\<forall>x \<in> set es. get (as_executions ?s) (fst x) = Some (snd x)"
  proof
    fix x
    assume x: "x \<in> set es"
    with Cons.prems(1) have "fst e \<noteq> fst x" by auto
    with x Cons.prems(2) show "get (as_executions ?s) (fst x) = Some (snd x)" by (simp add: forget_other)
  qed
  moreover have "distinct (map fst es)" using Cons.prems(1) by simp
  moreover have "ampz_books ?s" using k unfolding ampz_kept_def by blast
  ultimately have "ampz_kept now ?s (fold (\<lambda>e. forget_execution (fst e) (snd e)) es ?s)" by (intro Cons.IH)
  with kept_trans [OF k _ Cons.prems(3)] show ?case by simp
qed

lemma remove_executions_kept:
  assumes "remove_executions info ids st = Ok (st', r)" and "ampz_books st"
  shows "ampz_kept now st st'"
proof (cases ids)
  case None
  have wf: "wf_store (as_executions st)" using assms(2) by (simp add: ampz_books_def)
  have "distinct (map fst (get_by_user st (info_sender info)))"
    unfolding get_by_user_def by (rule distinct_map_filter [OF om.keys_distinct [OF wf]])
  moreover have "\<forall>e \<in> set (get_by_user st (info_sender info)). get (as_executions st) (fst e) = Some (snd e)"
    using om.in_entries [OF wf] by (auto simp: get_by_user_def)
  ultimately show ?thesis using forget_many_kept assms None by (auto simp: remove_executions_def Let_def)
next
  case (Some ns)
  then show ?thesis using assms remove_many_kept by (auto simp: remove_executions_def ok_simps)
qed

lemma execute_id_outcome:
  assumes "execute_id deps env info n st = Ok (st', r)"
  obtains e l user where "get (as_executions st) n = Some e" and "get (as_last_execution st) n = Some l" and "zd_addr_validate deps (ex_user e) = Ok user"
    and "info_sender info = ex_user e \<or> l + sc_interval_s (ex_schedule e) \<le> env_time env" and "as_is_executing st = None"
    and "st' = st\<lparr>as_last_execution := put n (env_time env) (as_last_execution st), as_is_executing := Some True\<rparr>"
  using assms by (auto simp: execute_id_def get_by_id_def Let_def ok_simps guard_Ok simp del: if_split)

lemma execute_id_kept:
  assumes "execute_id deps env info n st = Ok (st', r)" and "ampz_books st"
  shows "ampz_kept (env_time env) st st'"
proof -
  obtain e l user where e: "get (as_executions st) n = Some e" and l: "get (as_last_execution st) n = Some l" and
    st': "st' = st\<lparr>as_last_execution := put n (env_time env) (as_last_execution st), as_is_executing := Some True\<rparr>"
    by (rule execute_id_outcome [OF assms(1)])
  have "ampz_books st'" using assms(2) by (auto simp: st' ampz_books_def store_simps)
  then show ?thesis by (simp add: ampz_kept_def st' store_simps)
qed

lemma fees_within: "validate_ampz_fees deps f = Ok f' \<Longrightarrow> af_fee_bps f' \<le> 500 \<and> af_operator_bps f' \<le> 500"
  by (auto simp: validate_ampz_fees_def ok_simps guard_Ok split: if_splits)

lemma update_farms_same: "update_farms deps msg st = Ok st' \<Longrightarrow> \<exists>fs. st' = st\<lparr>as_farms := fs\<rparr>"
  by (cases "au_add_farms msg"; cases "au_remove_farms msg") (auto simp: update_farms_def ok_simps, (metis ampz_state.surjective ampz_state.update_convs(7))?)

lemma update_config_kept:
  assumes "ampz_update_config deps info msg st = Ok (st', r)" and "ampz_books st"
  shows "ampz_kept now st st'"
proof -
  obtain s1 c a z h f where s1: "update_farms deps msg st = Ok s1" and f: "(case au_fee msg of
         Some f \<Rightarrow> and_then (astd (validate_ampz_fees deps f)) (\<lambda>f. Ok (Some f)) | None \<Rightarrow> Ok (as_fee s1)) = Ok f"
    and st': "st' = s1\<lparr>as_controller := c, as_astroport := a, as_zapper := z, as_hub := h, as_fee := f\<rparr>"
    using assms(1) unfolding ampz_update_config_def by (auto simp only: ok_simps prod.inject result.inject)
  obtain fs where fs: "s1 = st\<lparr>as_farms := fs\<rparr>" using update_farms_same [OF s1] by blast
  have "af_fee_bps x \<le> 500 \<and> af_operator_bps x \<le> 500" if "f = Some x" for x
    using f that assms(2) fees_within by (cases "au_fee msg") (auto simp: ok_simps ampz_books_def fs)
  then show ?thesis by (intro kept_same [OF assms(2)]) (simp_all add: same_ampz_books_def st' fs)
qed

lemma ampz_step_kept:
  assumes "ampz_execute deps env info msg st = Ok (st', r)" and "ampz_books st"
  shows "ampz_kept (env_time env) st st'"
proof (cases msg)
  case (AmpzExecute n)
  then show ?thesis using assms execute_id_kept by simp
next
  case (AmpzDeposit as)
  then show ?thesis using assms by (auto simp: ampz_deposit_def ok_simps guard_Ok intro: kept_refl simp del: if_split)
next
  case (AddExecution o' e)
  then have add: "add_execution deps env info e o' st = Ok (st', r)" using assms by simp
  obtain n s1 t where "as_id st = Some n" "as_id st' = Some (n + 1)"
    by (rule add_execution_outcome [OF add]) auto
  then show ?thesis using add_books [OF add assms(2)] by (auto simp: ampz_kept_def)
next
  case (RemoveExecutions ids)
  then show ?thesis using assms remove_executions_kept by simp
next
  case (AmpzCallback w)
  then show ?thesis using assms
    by (auto simp: ampz_callback_def Let_def ok_simps split: if_splits ampz_callback_msg.splits
        intro!: kept_refl kept_fee simp: same_ampz_books_def)
next
  case (AmpzTransferOwnership a)
  then show ?thesis using assms by (auto simp: ampz_transfer_ownership_def ok_simps same_ampz_books_def intro!: kept_fee)
next
  case AmpzDropOwnershipProposal
  then show ?thesis using assms by (auto simp: ampz_drop_ownership_proposal_def ok_simps same_ampz_books_def intro!: kept_fee)
next
  case AmpzAcceptOwnership
  then show ?thesis using assms
    by (auto simp: ampz_accept_ownership_def ok_simps guard_Ok same_ampz_books_def intro!: kept_fee simp del: if_split)
next
  case (AmpzUpdateConfig m)
  then show ?thesis using assms update_config_kept by simp
qed

lemma ampz_start_books: "ampz_instantiate deps msg empty_ampz = Ok (st, r) \<Longrightarrow> ampz_books st"
  by (auto simp: ampz_instantiate_def empty_ampz_def ampz_books_def linked_def ok_simps get_def dest: fees_within)

lemma ampz_run_books: "ampz_run t st t' st' \<Longrightarrow> ampz_books st \<Longrightarrow> ampz_books st' \<and> t \<le> t'"
  by (induction rule: ampz_run.induct) (auto dest: ampz_step_kept simp: ampz_kept_def)

lemma reachable_ampz_books: "ampz_reachable st \<Longrightarrow> ampz_books st"
  using ampz_start_books ampz_run_books unfolding ampz_reachable_def by blast

text \<open>After a time was recorded, the execution stays what it is and its time does not go below it.\<close>

lemma ampz_run_time:
  assumes "ampz_run t st t' st'" and "ampz_books st" and "get (as_executions st) n = Some e" and "get (as_last_execution st) n = Some t"
    and "get (as_executions st') n = Some x"
  shows "x = e \<and> (\<exists>l. get (as_last_execution st') n = Some l \<and> t \<le> l)"
  using assms
proof (induction arbitrary: x rule: ampz_run.induct)
  case (ampz_idle t st)
  then show ?case by simp
next
  case (ampz_handles t st t1 s1 env deps info msg s2 r)
  note books = ampz_run_books [OF ampz_handles.hyps(1) ampz_handles.prems(1)]
  obtain m where m: "as_id st = Some m" "n < m" using ampz_handles.prems by (auto simp: ampz_books_def)
  have mono: "\<exists>m1. as_id s1 = Some m1 \<and> m \<le> m1"
    using ampz_handles.hyps(1) ampz_handles.prems(1) m(1)
  proof (induction arbitrary: m rule: ampz_run.induct)
    case (ampz_idle t st)
    then show ?case by simp
  next
    case (ampz_handles t st t1 s1 env deps info msg s2 r)
    then obtain m1 where m1: "as_id s1 = Some m1" "m \<le> m1" by blast
    have "ampz_kept (env_time env) s1 s2"
      using ampz_step_kept [OF ampz_handles.hyps(3)] ampz_run_books [OF ampz_handles.hyps(1) ampz_handles.prems(1)] by simp
    with m1 show ?case by (fastforce simp: ampz_kept_def)
  qed
  have "ampz_kept (env_time env) s1 s2" using ampz_step_kept [OF ampz_handles.hyps(3)] books by simp
  moreover obtain m1 where "as_id s1 = Some m1" "n < m1" using mono m(2) by auto
  ultimately have x: "get (as_executions s1) n = Some x" and
    last: "get (as_last_execution s2) n = get (as_last_execution s1) n \<or> get (as_last_execution s2) n = Some (env_time env)"
    using ampz_handles.prems(4) unfolding ampz_kept_def by blast+
  from ampz_handles.IH [OF ampz_handles.prems(1-3) x] obtain l where "x = e" "get (as_last_execution s1) n = Some l" "t \<le> l" by blast
  with last books ampz_handles.hyps(2) show ?case by auto
qed

section \<open>Fees\<close>

text \<open>How much of an asset a message moves away from the contract, and to whom.\<close>

fun moved :: "asset_info \<Rightarrow> ampz_msg \<Rightarrow> u128" where
  "moved i (WasmExecute t (AmpzToken (TokenTransfer to amount)) funds) = (if i = TokenAsset t then amount else 0)"
| "moved i (BankSend to coins) = sum_list (map (\<lambda>c. if i = NativeToken (c_denom c) then c_amount c else 0) coins)"
| "moved i _ = 0"

fun moved_to :: "ampz_msg \<Rightarrow> addr" where
  "moved_to (WasmExecute t (AmpzToken (TokenTransfer to amount)) funds) = to"
| "moved_to (BankSend to coins) = to"
| "moved_to _ = []"

definition moved_total :: "asset_info \<Rightarrow> ampz_msg list \<Rightarrow> nat" where
  "moved_total i ms = sum_list (map (moved i) ms)"

definition held_total :: "asset_info \<Rightarrow> asset list \<Rightarrow> nat" where
  "held_total i as = sum_list (map (\<lambda>a. if as_info a = i then as_amount a else 0) as)"

lemma totals_simps [simp]:
  "moved_total i [] = 0" "moved_total i (m # ms) = moved i m + moved_total i ms" "moved_total i (ms @ ms') = moved_total i ms + moved_total i ms'"
  "held_total i [] = 0" "held_total i (a # as) = (if as_info a = i then as_amount a else 0) + held_total i as"
  "held_total i (as @ as') = held_total i as + held_total i as'"
  by (simp_all add: moved_total_def held_total_def)

lemma moved_transfer [simp]:
  "moved i (transfer_msg AmpzToken j amount to) = (if i = j then amount else 0)"
  by (cases j) (simp_all add: mk_coin_def)

lemma moved_to_transfer [simp]: "moved_to (transfer_msg AmpzToken j amount to) = to"
  by (cases j) (simp_all only: transfer_msg.simps moved_to.simps)

text \<open>A fee is at most its share of the amount.\<close>

lemma fee_part_le:
  assumes "bps_decimal b = Ok d" and "multiply_ratio a d DEC_ONE = Ok fee" and "b \<le> 500"
  shows "20 * fee \<le> a"
proof -
  have d: "d = b * DEC_ONE div BPS_MAX" and f: "fee = a * d div DEC_ONE"
    using assms(1,2) by (auto simp: bps_decimal_def dec_from_ratio_def ok_simps split: if_splits)
  have "20 * d \<le> DEC_ONE" using assms(3) unfolding d by (simp add: BPS_MAX_def DEC_ONE_code)
  then have "20 * d * a \<le> DEC_ONE * a" by (rule mult_le_mono1)
  moreover have "fee * DEC_ONE \<le> a * d" unfolding f by (rule div_times_less_eq_dividend)
  then have "20 * (fee * DEC_ONE) \<le> 20 * (a * d)" by (rule mult_le_mono2)
  ultimately have "DEC_ONE * (20 * fee) \<le> DEC_ONE * a" by (simp only: ac_simps)
  then show ?thesis by (simp add: DEC_ONE_code)
qed

definition pay_msgs :: "ampz_fees \<Rightarrow> addr \<Rightarrow> asset_info \<Rightarrow> u128 \<Rightarrow> u128 \<Rightarrow> ampz_msg list" where
  "pay_msgs fee operator i p f =
     (if p \<noteq> 0 then [transfer_msg AmpzToken i p (af_receiver fee)] else []) @
     (if f \<noteq> 0 then [transfer_msg AmpzToken i f operator] else [])"

lemma pay_msgs_total [simp]: "moved_total i (pay_msgs fee operator j p f) = (if i = j then p + f else 0)"
  by (simp add: pay_msgs_def)

lemma pay_msgs_to: "m \<in> set (pay_msgs fee operator j p f) \<Longrightarrow> moved_to m = af_receiver fee \<or> f \<noteq> 0 \<and> moved_to m = operator"
  by (auto simp: pay_msgs_def split: if_splits)

lemma fee_step_outcome:
  assumes "fee_step deps fee controller operator ob run a = Ok run'" and "as_amount a \<noteq> 0"
  obtains od pd ofee pfee p f where "bps_decimal ob = (Ok od :: (decimal, std_error) result)" and "multiply_ratio (as_amount a) od DEC_ONE = (Ok ofee :: (u128, std_error) result)"
    and "bps_decimal (af_fee_bps fee) = (Ok pd :: (decimal, std_error) result)" and "multiply_ratio (as_amount a) pd DEC_ONE = (Ok pfee :: (u128, std_error) result)"
    and "ofee \<le> as_amount a" and "pfee \<le> as_amount a - ofee" and "p + f = pfee + ofee" and "f = 0 \<or> f = ofee"
    and "fr_result run' = fr_result run @ [with_balance (as_info a) (as_amount a - ofee - pfee)]"
    and "fr_msgs run' = fr_msgs run @ pay_msgs fee operator (as_info a) p f"
proof -
  note out = assms(1) [unfolded fee_step_def if_not_P [OF assms(2)] and_then_Ok]
  then show ?thesis
  proof (elim exE conjE, goal_cases)
    case (1 od ofee pd pfee x y pf)
    have run: "fr_result run' = fr_result run @ [with_balance (as_info a) y]"
      "fr_msgs run' = fr_msgs run @ pay_msgs fee operator (as_info a) (fst pf) (snd pf)"
      using 1(8) by (auto simp: pay_msgs_def case_prod_beta simp del: if_split)
    have "fst pf + snd pf = pfee + ofee" and "snd pf = 0 \<or> snd pf = ofee" using 1(7) by (auto simp: ok_simps split: if_splits)
    moreover have "ofee \<le> as_amount a" "pfee \<le> as_amount a - ofee" "y = as_amount a - ofee - pfee" using 1(5,6) by (auto simp: ok_simps)
    ultimately show ?case using run by (intro that [OF 1(1-4), of "fst pf" "snd pf"]) simp_all
  qed
qed

text \<open>What one asset adds: the deposited part and the fees make up the asset, and each fee is within its limit.\<close>

lemma fee_step_splits:
  assumes "fee_step deps fee controller operator ob run a = Ok run'" and "af_fee_bps fee \<le> 500" and "ob \<le> 500"
  shows "\<exists>as ms. fr_result run' = fr_result run @ as \<and> fr_msgs run' = fr_msgs run @ ms \<and>
    map as_info as = (if as_amount a = 0 then [] else [as_info a]) \<and>
    (\<forall>i. held_total i as + moved_total i ms = (if as_info a = i then as_amount a else 0)) \<and>
    (\<forall>i. 20 * moved_total i ms \<le> (if ob = 0 then 1 else 2) * (if as_info a = i then as_amount a else 0)) \<and>
    (\<forall>m \<in> set ms. moved_to m = af_receiver fee \<or> ob \<noteq> 0 \<and> moved_to m = operator)"
proof (cases "as_amount a = 0")
  case True
  then show ?thesis using assms(1) by (intro exI [of _ "[]"]) (auto simp: fee_step_def)
next
  case False
  then obtain od pd ofee pfee p f where od: "bps_decimal ob = (Ok od :: (decimal, std_error) result)" "multiply_ratio (as_amount a) od DEC_ONE = (Ok ofee :: (u128, std_error) result)"
    and pd: "bps_decimal (af_fee_bps fee) = (Ok pd :: (decimal, std_error) result)" "multiply_ratio (as_amount a) pd DEC_ONE = (Ok pfee :: (u128, std_error) result)"
    and rest: "ofee \<le> as_amount a" "pfee \<le> as_amount a - ofee" and p: "p + f = pfee + ofee" "f = 0 \<or> f = ofee"
    and res: "fr_result run' = fr_result run @ [with_balance (as_info a) (as_amount a - ofee - pfee)]"
    and ms: "fr_msgs run' = fr_msgs run @ pay_msgs fee operator (as_info a) p f"
    by (rule fee_step_outcome [OF assms(1)])
  have "20 * ofee \<le> as_amount a" "20 * pfee \<le> as_amount a" using fee_part_le od pd assms(2,3) by blast+
  moreover have none: "ofee = 0" if "ob = 0" using od that by (auto simp: bps_decimal_def dec_from_ratio_def ok_simps split: if_splits)
  ultimately have "20 * (p + f) \<le> (if ob = 0 then 1 else 2) * as_amount a" using p(1) by auto
  then have "\<forall>i. 20 * moved_total i (pay_msgs fee operator (as_info a) p f) \<le>
      (if ob = 0 then 1 else 2) * (if as_info a = i then as_amount a else 0)" by auto
  moreover have "moved_to m = af_receiver fee \<or> ob \<noteq> 0 \<and> moved_to m = operator" if "m \<in> set (pay_msgs fee operator (as_info a) p f)" for m
    using pay_msgs_to [OF that] none p(2) by auto
  moreover have "(as_amount a - ofee - pfee) + (p + f) = as_amount a" using rest p(1) by simp
  ultimately show ?thesis
    by (intro exI [of _ "[with_balance (as_info a) (as_amount a - ofee - pfee)]"] exI [of _ "pay_msgs fee operator (as_info a) p f"])
      (use False in \<open>auto simp: res ms\<close>)
qed

lemma fee_steps_split:
  assumes "try_fold (fee_step deps fee controller operator ob) run bs = Ok run'" and "af_fee_bps fee \<le> 500" and "ob \<le> 500"
  shows "\<exists>as ms. fr_result run' = fr_result run @ as \<and> fr_msgs run' = fr_msgs run @ ms \<and>
    map as_info as = map as_info (filter (\<lambda>b. as_amount b \<noteq> 0) bs) \<and>
    (\<forall>i. held_total i as + moved_total i ms = held_total i bs) \<and>
    (\<forall>i. 20 * moved_total i ms \<le> (if ob = 0 then 1 else 2) * held_total i bs) \<and>
    (\<forall>m \<in> set ms. moved_to m = af_receiver fee \<or> ob \<noteq> 0 \<and> moved_to m = operator)"
  using assms(1)
proof (induction bs arbitrary: run)
  case Nil
  then show ?case by (intro exI [of _ "[]"]) simp
next
  case (Cons b bs)
  then obtain r1 where r1: "fee_step deps fee controller operator ob run b = Ok r1" "try_fold (fee_step deps fee controller operator ob) r1 bs = Ok run'"
    by (auto simp: ok_simps)
  from fee_step_splits [OF r1(1) assms(2,3)] obtain as1 ms1 where s1: "fr_result r1 = fr_result run @ as1" "fr_msgs r1 = fr_msgs run @ ms1"
    "map as_info as1 = (if as_amount b = 0 then [] else [as_info b])"
    "\<forall>i. held_total i as1 + moved_total i ms1 = (if as_info b = i then as_amount b else 0)"
    "\<forall>i. 20 * moved_total i ms1 \<le> (if ob = 0 then 1 else 2) * (if as_info b = i then as_amount b else 0)"
    "\<forall>m \<in> set ms1. moved_to m = af_receiver fee \<or> ob \<noteq> 0 \<and> moved_to m = operator" by blast
  from Cons.IH [OF r1(2)] obtain as2 ms2 where s2: "fr_result run' = fr_result r1 @ as2" "fr_msgs run' = fr_msgs r1 @ ms2"
    "map as_info as2 = map as_info (filter (\<lambda>b. as_amount b \<noteq> 0) bs)"
    "\<forall>i. held_total i as2 + moved_total i ms2 = held_total i bs"
    "\<forall>i. 20 * moved_total i ms2 \<le> (if ob = 0 then 1 else 2) * held_total i bs"
    "\<forall>m \<in> set ms2. moved_to m = af_receiver fee \<or> ob \<noteq> 0 \<and> moved_to m = operator" by blast
  have sums: "held_total i (as1 @ as2) + moved_total i (ms1 @ ms2) = held_total i (b # bs)" for i
    using spec [OF s1(4), of i] spec [OF s2(4), of i] by simp
  have fees: "20 * moved_total i (ms1 @ ms2) \<le> (if ob = 0 then 1 else 2) * held_total i (b # bs)" for i
    using spec [OF s1(5), of i] spec [OF s2(5), of i] by (auto simp: distrib_left split: if_splits)
  show ?case using s1(1-3,6) s2(1-3,6) sums fees by (intro exI [of _ "as1 @ as2"] exI [of _ "ms1 @ ms2"]) auto
qed

lemma pay_fees_split:
  assumes "pay_fees deps st bs operator user = Ok run" and "ampz_books st"
  shows "\<exists>fee. as_fee st = Some fee \<and>
    ((\<forall>b \<in> set bs. as_amount b \<noteq> 0) \<longrightarrow> map as_info (fr_result run) = map as_info bs) \<and>
    (\<forall>i. held_total i (fr_result run) + moved_total i (fr_msgs run) = held_total i bs) \<and>
    (\<forall>i. 20 * moved_total i (fr_msgs run) \<le> (if user = operator then 1 else 2) * held_total i bs) \<and>
    (\<forall>m \<in> set (fr_msgs run). moved_to m = af_receiver fee \<or> user \<noteq> operator \<and> moved_to m = operator)"
proof -
  obtain fee where fee: "as_fee st = Some fee" using assms(1) by (auto simp: pay_fees_def ok_simps)
  then have limits: "af_fee_bps fee \<le> 500" "(if user = operator then 0 else af_operator_bps fee) \<le> 500" using assms(2) by (auto simp: ampz_books_def)
  show ?thesis
  proof (cases "(if user = operator then 0 else af_operator_bps fee) + af_fee_bps fee = 0")
    case True
    then have "run = \<lparr>fr_result = bs, fr_msgs = [], fr_attrs = amounts_as_attrs deps bs\<rparr>"
      using assms(1) fee by (auto simp: pay_fees_def ok_simps Let_def split: if_splits)
    with fee show ?thesis by simp
  next
    case False
    then obtain controller run1 where steps: "try_fold (fee_step deps fee controller operator (if user = operator then 0 else af_operator_bps fee))
        \<lparr>fr_result = [], fr_msgs = [], fr_attrs = []\<rparr> bs = Ok run1" and run: "fr_result run = fr_result run1" "fr_msgs run = fr_msgs run1"
      using assms(1) fee by (auto simp: pay_fees_def ok_simps Let_def simp del: if_split split: if_split_asm)
    obtain as ms where "fr_result run = as" "fr_msgs run = ms"
      and all: "map as_info as = map as_info (filter (\<lambda>b. as_amount b \<noteq> 0) bs)" "\<forall>i. held_total i as + moved_total i ms = held_total i bs"
        "\<forall>i. 20 * moved_total i ms \<le> (if (if user = operator then 0 else af_operator_bps fee) = 0 then 1 else 2) * held_total i bs"
        "\<forall>m \<in> set ms. moved_to m = af_receiver fee \<or> (if user = operator then 0 else af_operator_bps fee) \<noteq> 0 \<and> moved_to m = operator"
      using fee_steps_split [OF steps limits] run by auto
    moreover have "20 * moved_total i ms \<le> (if user = operator then 1 else 2) * held_total i bs" for i
      using spec [OF all(3), of i] by (auto split: if_splits)
    moreover have "\<forall>m \<in> set ms. moved_to m = af_receiver fee \<or> user \<noteq> operator \<and> moved_to m = operator"
      using all(4) by (auto split: if_splits)
    moreover have "(\<forall>b \<in> set bs. as_amount b \<noteq> 0) \<longrightarrow> filter (\<lambda>b. as_amount b \<noteq> 0) bs = bs" by simp
    ultimately show ?thesis using fee by auto
  qed
qed

section \<open>A sample\<close>

definition demo_assets :: "u128 \<Rightarrow> asset_lib" where
  "demo_assets balance = \<lparr>al_to_string = (\<lambda>i. case i of NativeToken d \<Rightarrow> d | TokenAsset a \<Rightarrow> a), al_as_bytes = (\<lambda>i. []), al_check = (\<lambda>i. Ok ()),
     al_assert_sent = (\<lambda>a info. Ok ()), al_query_pool = (\<lambda>i a. Ok balance)\<rparr>"

definition demo_ampz_deps :: "u128 \<Rightarrow> ampz_deps" where
  "demo_ampz_deps balance = \<lparr>zd_addr_validate = Ok, zd_assets = demo_assets balance,
     zd_delegations = (\<lambda>a. Ok [(''val'', mk_coin 5 AMPZ_DENOM)]), zd_debug = (\<lambda>i. [])\<rparr>"

definition demo_ampz_msg :: ampz_instantiate_msg where
  "demo_ampz_msg = \<lparr>aim_owner = ''owner'', aim_controller = ''controller'', aim_hub = ''hub'', aim_farms = [''farm''], aim_zapper = ''zapper'',
     aim_astroport = \<lparr>ac_generator = ''generator'', ac_coins = []\<rparr>, aim_fee = \<lparr>af_fee_bps = 100, af_operator_bps = 200, af_receiver = ''fees''\<rparr>\<rparr>"

definition demo_execution :: execution where
  "demo_execution = \<lparr>ex_user = ''ann'', ex_source = Claim, ex_destination = DepositAmplifier, ex_schedule = \<lparr>sc_start = None, sc_interval_s = 100\<rparr>\<rparr>"

definition demo_ampz_env :: "u64 \<Rightarrow> env" where
  "demo_ampz_env t = \<lparr>env_height = 1, env_time = t, env_contract = ''ampz''\<rparr>"

definition demo_ampz :: "u64 option \<Rightarrow> bool option \<Rightarrow> ampz_state" where
  "demo_ampz l running = \<lparr>as_controller = Some ''controller'', as_zapper = Some ''zapper'',
     as_astroport = Some \<lparr>ac_generator = ''generator'', ac_coins = []\<rparr>, as_owner = Some ''owner'', as_new_owner = None, as_hub = Some ''hub'',
     as_farms = Some [''farm''], as_id = Some (case l of None \<Rightarrow> 1 | Some t \<Rightarrow> 2),
     as_fee = Some \<lparr>af_fee_bps = 100, af_operator_bps = 200, af_receiver = ''fees''\<rparr>,
     as_executions = (case l of None \<Rightarrow> [] | Some t \<Rightarrow> [(1, demo_execution)]),
     as_last_execution = (case l of None \<Rightarrow> [] | Some t \<Rightarrow> [(1, t)]),
     as_user_source = (case l of None \<Rightarrow> [] | Some t \<Rightarrow> [((''ann'', ''claim''), 1)]), as_is_executing = running\<rparr>"

lemmas demo_ampz_defs = demo_assets_def demo_ampz_deps_def demo_ampz_msg_def demo_execution_def demo_ampz_env_def demo_ampz_def

lemma demo_instantiate: "\<exists>r. ampz_instantiate (demo_ampz_deps 1000) demo_ampz_msg empty_ampz = Ok (demo_ampz None None, r)"
  by (simp add: ampz_instantiate_def empty_ampz_def validate_astroport_def validate_ampz_fees_def demo_ampz_defs)

lemma demo_add: "\<exists>r. ampz_execute (demo_ampz_deps 1000) (demo_ampz_env 1000) \<lparr>info_sender = ''ann'', info_funds = []\<rparr> (AddExecution False demo_execution)
    (demo_ampz None None) = Ok (demo_ampz (Some 900) None, r)"
  by (simp add: add_execution_def check_destination_def register_source_def get_def num_defs U128_MAX_code demo_ampz_defs)

lemma demo_run:
  "\<exists>deps msg s0 q. ampz_instantiate deps msg empty_ampz = Ok (s0, q) \<and> ampz_run 0 s0 1000 (demo_ampz (Some 900) None)"
proof -
  obtain r where i: "ampz_instantiate (demo_ampz_deps 1000) demo_ampz_msg empty_ampz = Ok (demo_ampz None None, r)" using demo_instantiate by blast
  obtain q where a: "ampz_execute (demo_ampz_deps 1000) (demo_ampz_env 1000) \<lparr>info_sender = ''ann'', info_funds = []\<rparr> (AddExecution False demo_execution)
    (demo_ampz None None) = Ok (demo_ampz (Some 900) None, q)" using demo_add by blast
  have "ampz_run 0 (demo_ampz None None) (env_time (demo_ampz_env 1000)) (demo_ampz (Some 900) None)"
    by (rule ampz_handles [OF ampz_idle _ a]) simp
  with i show ?thesis by (auto simp: demo_ampz_env_def)
qed

lemma demo_reachable: "ampz_reachable (demo_ampz (Some 900) None)"
  using demo_run unfolding ampz_reachable_def by blast

section \<open>The claims\<close>

text \<open>
  C36: In every state the contract can reach, a user has at most one execution of each kind of source that has a key (claims of staking
  rewards, rewards of the generator), even when an execution was overwritten or some were removed in between.
\<close>
theorem one_execution_per_source:
  assumes "ampz_reachable st" and "get (as_executions st) n = Some e" and "get (as_executions st) m = Some f" and "ex_user e = ex_user f"
    and "try_get_uniq_key (ex_source e) = Some key" and "try_get_uniq_key (ex_source f) = Some key"
  shows "n = m"
proof -
  have link: "linked (as_executions st) (as_user_source st)" using reachable_ampz_books [OF assms(1)] by (simp add: ampz_books_def)
  have "source_of e = Some (ex_user e, key)" "source_of f = Some (ex_user e, key)" using assms(4-6) by (simp_all add: source_of_def)
  from linkedD [OF link assms(2) this(1)] linkedD [OF link assms(3) this(2)] show ?thesis by simp
qed

theorem one_execution_per_source_witness:
  "{m. get (as_executions (demo_ampz (Some 900) None)) m = Some demo_execution} = {1}"
proof -
  have e: "get (as_executions (demo_ampz (Some 900) None)) 1 = Some demo_execution" by (simp add: demo_ampz_def get_def)
  have "m = 1" if "get (as_executions (demo_ampz (Some 900) None)) m = Some demo_execution" for m
    using one_execution_per_source [OF demo_reachable that e] by (simp add: demo_execution_def)
  with e show ?thesis by blast
qed

text \<open>
  C20: When an execution has run, nobody but its user can run it again before its interval has passed, whatever messages the contract
  handles in between (also when the user overwrites or removes other executions, or the owner changes the configuration).
\<close>
theorem others_wait_for_the_interval:
  assumes "ampz_reachable st" and "ampz_execute deps env info (AmpzExecute n) st = Ok (s1, r1)" and "ampz_run (env_time env) s1 t s2"
    and "ampz_execute deps2 env2 info2 (AmpzExecute n) s2 = Ok (s3, r3)" and "get (as_executions st) n = Some e" and "info_sender info2 \<noteq> ex_user e"
  shows "env_time env + sc_interval_s (ex_schedule e) \<le> env_time env2"
proof -
  have run1: "execute_id deps env info n st = Ok (s1, r1)" and run2: "execute_id deps2 env2 info2 n s2 = Ok (s3, r3)" using assms(2,4) by simp_all
  have s1: "s1 = st\<lparr>as_last_execution := put n (env_time env) (as_last_execution st), as_is_executing := Some True\<rparr>"
    by (rule execute_id_outcome [OF run1])
  have books: "ampz_books s1" using execute_id_kept [OF run1 reachable_ampz_books [OF assms(1)]] unfolding ampz_kept_def by blast
  obtain x l where x: "get (as_executions s2) n = Some x" and l: "get (as_last_execution s2) n = Some l"
    and due: "info_sender info2 = ex_user x \<or> l + sc_interval_s (ex_schedule x) \<le> env_time env2"
    by (rule execute_id_outcome [OF run2])
  have "get (as_executions s1) n = Some e" "get (as_last_execution s1) n = Some (env_time env)" using assms(5) by (simp_all add: s1 store_simps)
  from ampz_run_time [OF assms(3) books this x] l have "x = e" "env_time env \<le> l" by auto
  with due assms(6) show ?thesis by simp
qed

lemma demo_ampz_runs:
  "l + 100 \<le> t \<Longrightarrow> t < 2000 \<Longrightarrow>
    \<exists>r. ampz_execute (demo_ampz_deps 1000) (demo_ampz_env t) \<lparr>info_sender = ''bob'', info_funds = []\<rparr> (AmpzExecute 1)
    (demo_ampz (Some l) None) = Ok (demo_ampz (Some t) (Some True), r)"
  by (simp add: execute_id_def get_by_id_def plan_source_def delegated_validators_def query_balances_def get_def mk_coin_def
      Let_def U64_MAX_def demo_ampz_defs)

lemma demo_finishes:
  "\<exists>r. ampz_execute (demo_ampz_deps 1000) (demo_ampz_env t) \<lparr>info_sender = ''ampz'', info_funds = []\<rparr>
    (AmpzCallback \<lparr>cw_id = 1, cw_user = ''ann'', cw_message = FinishExecution RunDepositAmplifier ''bob''\<rparr>)
    (demo_ampz (Some l) (Some True)) = Ok (demo_ampz (Some l) None, r)"
  by (simp add: ampz_callback_def finish_execution_def pay_fees_def fee_step_def Let_def bps_decimal_def dec_from_ratio_def bps_checked_add_def
      BPS_MAX_def num_defs U128_MAX_code U16_MAX_def DEC_ONE_code demo_ampz_defs)

theorem others_wait_for_the_interval_witness:
  "\<exists>s1 r1 s2 s3 r3.
    ampz_execute (demo_ampz_deps 1000) (demo_ampz_env 1000) \<lparr>info_sender = ''bob'', info_funds = []\<rparr> (AmpzExecute 1) (demo_ampz (Some 900) None) = Ok (s1, r1) \<and>
    ampz_run 1000 s1 1000 s2 \<and>
    ampz_execute (demo_ampz_deps 1000) (demo_ampz_env 1100) \<lparr>info_sender = ''bob'', info_funds = []\<rparr> (AmpzExecute 1) s2 = Ok (s3, r3) \<and>
    env_time (demo_ampz_env 1000) + 100 \<le> env_time (demo_ampz_env 1100)"
proof -
  obtain r1 where r1: "ampz_execute (demo_ampz_deps 1000) (demo_ampz_env 1000) \<lparr>info_sender = ''bob'', info_funds = []\<rparr> (AmpzExecute 1)
    (demo_ampz (Some 900) None) = Ok (demo_ampz (Some 1000) (Some True), r1)" using demo_ampz_runs [of 900 1000] by auto
  obtain r2 where r2: "ampz_execute (demo_ampz_deps 1000) (demo_ampz_env 1000) \<lparr>info_sender = ''ampz'', info_funds = []\<rparr>
    (AmpzCallback \<lparr>cw_id = 1, cw_user = ''ann'', cw_message = FinishExecution RunDepositAmplifier ''bob''\<rparr>)
    (demo_ampz (Some 1000) (Some True)) = Ok (demo_ampz (Some 1000) None, r2)" using demo_finishes by blast
  obtain r3 where r3: "ampz_execute (demo_ampz_deps 1000) (demo_ampz_env 1100) \<lparr>info_sender = ''bob'', info_funds = []\<rparr> (AmpzExecute 1)
    (demo_ampz (Some 1000) None) = Ok (demo_ampz (Some 1100) (Some True), r3)" using demo_ampz_runs [of 1000 1100] by auto
  have run: "ampz_run (env_time (demo_ampz_env 1000)) (demo_ampz (Some 1000) (Some True)) (env_time (demo_ampz_env 1000)) (demo_ampz (Some 1000) None)"
    by (rule ampz_handles [OF ampz_idle _ r2]) simp
  have "get (as_executions (demo_ampz (Some 900) None)) 1 = Some demo_execution" by (simp add: demo_ampz_def get_def)
  from others_wait_for_the_interval [OF demo_reachable r1 run r3 this]
  have "env_time (demo_ampz_env 1000) + 100 \<le> env_time (demo_ampz_env 1100)" by (simp add: demo_execution_def)
  moreover have "ampz_run 1000 (demo_ampz (Some 1000) (Some True)) 1000 (demo_ampz (Some 1000) None)" using run by (simp add: demo_ampz_env_def)
  ultimately show ?thesis using r1 r3 by blast
qed

text \<open>
  C32: Finishing an execution that deposits into the amplifier, in any reachable state: the whole balance is divided into what is bonded for
  the user and what is transferred as fees, the fees are at most a tenth of it (a twentieth if the user ran it), they go to the receiver of the
  fees and, if somebody else ran it, to that account, and the contract is ready for the next execution.
\<close>
theorem finishing_bonds_what_the_fees_leave:
  assumes "ampz_reachable st"
    and "ampz_execute deps env info (AmpzCallback \<lparr>cw_id = n, cw_user = user, cw_message = FinishExecution RunDepositAmplifier executor\<rparr>) st = Ok (st', r)"
    and "al_query_pool (zd_assets deps) (NativeToken AMPZ_DENOM) (env_contract env) = Ok amount"
  shows "\<exists>fee hub paid bonded. as_fee st = Some fee \<and> as_hub st = Some hub \<and> as_is_executing st' = None \<and>
    resp_msgs r = map PlainMsg (paid @ [WasmExecute hub (HubBond (Some user)) [mk_coin bonded AMPZ_DENOM]]) \<and>
    bonded + moved_total (NativeToken AMPZ_DENOM) paid = amount \<and> 0 < bonded \<and>
    20 * moved_total (NativeToken AMPZ_DENOM) paid \<le> (if user = executor then 1 else 2) * amount \<and>
    (\<forall>m \<in> set paid. moved_to m = af_receiver fee \<or> user \<noteq> executor \<and> moved_to m = executor)"
proof -
  let ?d = "NativeToken AMPZ_DENOM"
  obtain hub run b where hub: "as_hub st = Some hub" and pos: "amount \<noteq> 0" and pay: "pay_fees deps st [with_balance ?d amount] executor user = Ok run"
    and b: "fr_result run \<noteq> []" "b = hd (fr_result run)" and st': "st' = st\<lparr>as_is_executing := None\<rparr>"
    and r: "resp_msgs r = map PlainMsg (fr_msgs run @ [WasmExecute hub (HubBond (Some user)) [mk_coin (as_amount b) AMPZ_DENOM]])"
    using assms(2,3) by (auto simp: ampz_callback_def finish_execution_def Let_def ok_simps split: if_split_asm)
  obtain fee where fee: "as_fee st = Some fee" and infos: "map as_info (fr_result run) = [?d]"
    and sums: "\<forall>i. held_total i (fr_result run) + moved_total i (fr_msgs run) = held_total i [with_balance ?d amount]"
    and smalls: "\<forall>i. 20 * moved_total i (fr_msgs run) \<le> (if user = executor then 1 else 2) * held_total i [with_balance ?d amount]"
    and to: "\<forall>m \<in> set (fr_msgs run). moved_to m = af_receiver fee \<or> user \<noteq> executor \<and> moved_to m = executor"
    using pay_fees_split [OF pay reachable_ampz_books [OF assms(1)]] pos by (auto simp del: totals_simps)
  have sum: "held_total ?d (fr_result run) + moved_total ?d (fr_msgs run) = amount" using spec [OF sums, of ?d] by simp
  have small: "20 * moved_total ?d (fr_msgs run) \<le> (if user = executor then 1 else 2) * amount" using spec [OF smalls, of ?d] by simp
  have "held_total ?d (fr_result run) = as_amount b" using infos b by (cases "fr_result run") auto
  then have bonded: "as_amount b + moved_total ?d (fr_msgs run) = amount" using sum by simp
  then have "0 < as_amount b" using small pos by (auto split: if_splits)
  with fee hub st' r bonded small to show ?thesis by auto
qed

lemma demo_running: "ampz_reachable (demo_ampz (Some 1000) (Some True))"
proof -
  obtain r where x: "ampz_execute (demo_ampz_deps 1000) (demo_ampz_env 1000) \<lparr>info_sender = ''bob'', info_funds = []\<rparr> (AmpzExecute 1)
    (demo_ampz (Some 900) None) = Ok (demo_ampz (Some 1000) (Some True), r)" using demo_ampz_runs [of 900 1000] by auto
  obtain deps msg s0 q where i: "ampz_instantiate deps msg empty_ampz = Ok (s0, q)" and run: "ampz_run 0 s0 1000 (demo_ampz (Some 900) None)"
    using demo_run by blast
  have "ampz_run 0 s0 (env_time (demo_ampz_env 1000)) (demo_ampz (Some 1000) (Some True))"
    by (rule ampz_handles [OF run _ x]) (simp add: demo_ampz_env_def)
  with i show ?thesis unfolding ampz_reachable_def by blast
qed

theorem finishing_bonds_what_the_fees_leave_witness:
  "\<exists>st' r paid bonded. ampz_execute (demo_ampz_deps 1000) (demo_ampz_env 1000) \<lparr>info_sender = ''ampz'', info_funds = []\<rparr>
      (AmpzCallback \<lparr>cw_id = 1, cw_user = ''ann'', cw_message = FinishExecution RunDepositAmplifier ''bob''\<rparr>)
      (demo_ampz (Some 1000) (Some True)) = Ok (st', r) \<and>
    resp_msgs r = map PlainMsg (paid @ [WasmExecute ''hub'' (HubBond (Some ''ann'')) [mk_coin bonded AMPZ_DENOM]]) \<and>
    bonded + moved_total (NativeToken AMPZ_DENOM) paid = 1000 \<and> 900 \<le> bonded"
proof -
  obtain r where r: "ampz_execute (demo_ampz_deps 1000) (demo_ampz_env 1000) \<lparr>info_sender = ''ampz'', info_funds = []\<rparr>
      (AmpzCallback \<lparr>cw_id = 1, cw_user = ''ann'', cw_message = FinishExecution RunDepositAmplifier ''bob''\<rparr>)
      (demo_ampz (Some 1000) (Some True)) = Ok (demo_ampz (Some 1000) None, r)" using demo_finishes by blast
  have q: "al_query_pool (zd_assets (demo_ampz_deps 1000)) (NativeToken AMPZ_DENOM) (env_contract (demo_ampz_env 1000)) = Ok 1000"
    by (simp add: demo_ampz_deps_def demo_assets_def)
  have "as_hub (demo_ampz (Some 1000) (Some True)) = Some ''hub''" by (simp add: demo_ampz_def)
  with finishing_bonds_what_the_fees_leave [OF demo_running r q] obtain paid bonded where
    "resp_msgs r = map PlainMsg (paid @ [WasmExecute ''hub'' (HubBond (Some ''ann'')) [mk_coin bonded AMPZ_DENOM]])"
    "bonded + moved_total (NativeToken AMPZ_DENOM) paid = 1000" "20 * moved_total (NativeToken AMPZ_DENOM) paid \<le> 2 * 1000" by fastforce
  with r show ?thesis by fastforce
qed

section \<open>The query of an execution\<close>

text \<open>At the moment an execution becomes due anyone can run it, while the query says it cannot be executed yet.\<close>

lemma query_reports_due_execution_late:
  "\<exists>q r s. ampz_query (demo_ampz_env 1000) (AmpzExecutionQuery 1) (demo_ampz (Some 900) None) = Ok (AmpzExecutionAnswer q) \<and> \<not> xd_can_execute q \<and>
    ampz_execute (demo_ampz_deps 1000) (demo_ampz_env 1000) \<lparr>info_sender = ''bob'', info_funds = []\<rparr> (AmpzExecute 1) (demo_ampz (Some 900) None) = Ok (s, r)"
proof -
  have "\<exists>q. ampz_query (demo_ampz_env 1000) (AmpzExecutionQuery 1) (demo_ampz (Some 900) None) = Ok (AmpzExecutionAnswer q) \<and> \<not> xd_can_execute q"
    by (simp add: ampz_query_execution_def detail_of_def get_def num_defs U64_MAX_def demo_ampz_defs)
  then show ?thesis using demo_ampz_runs [of 900 1000] by auto
qed

end
