(* ===== verification/GenProxy.thy ===== *)
theory GenProxy
  imports Assets
begin

text \<open>
  The generator proxy (\<open>contracts/amp-compounder/generator_proxy\<close>): it stakes the LP tokens of its users at the generator, boosted by
  the xASTRO that stakers lock through it, and shares the rewards out by indexes per pool and token. The generator, the voting escrow and the
  fee distributor of Astroport answer through a record of queries; \<open>RestrictedVector\<close> of \<open>astroport\<close> is a list of pairs whose
  \<open>update\<close> is part of that record; the version that \<open>cw2\<close> stores is left out.
\<close>

section \<open>State and messages\<close>

type_synonym amounts = "(addr \<times> u128) list"
type_synonym indexes = "(addr \<times> decimal) list"

record astro_gov =
  ag_fee_distributor :: addr
  ag_generator_controller :: addr
  ag_voting_escrow :: addr
  ag_xastro_token :: addr

record gp_instantiate_msg =
  gpi_generator :: string
  gpi_astro_gov :: astro_gov
  gpi_owner :: string
  gpi_controller :: string
  gpi_astro_token :: string
  gpi_fee_collector :: string
  gpi_max_quota :: u128
  gpi_staker_rate :: decimal
  gpi_boost_fee :: decimal

record gp_config =
  gpc_generator :: addr
  gpc_astro_gov :: astro_gov
  gpc_owner :: addr
  gpc_controller :: addr
  gpc_astro_token :: addr
  gpc_fee_collector :: addr
  gpc_max_quota :: u128
  gpc_staker_rate :: decimal
  gpc_boost_fee :: decimal

record gp_pool =
  gpp_total_bond_share :: u128
  gpp_reward_indexes :: indexes
  gpp_prev_reward_user_index :: decimal
  gpp_prev_reward_debt_proxy :: amounts
  gpp_last_reconcile :: u64

definition new_pool :: gp_pool where
  "new_pool = \<lparr>gpp_total_bond_share = 0, gpp_reward_indexes = [], gpp_prev_reward_user_index = 0, gpp_prev_reward_debt_proxy = [],
     gpp_last_reconcile = 0\<rparr>"

record gp_user =
  gpu_bond_share :: u128
  gpu_reward_indexes :: indexes
  gpu_pending_rewards :: amounts

definition create_user :: "gp_pool \<Rightarrow> gp_user" where
  "create_user pool = \<lparr>gpu_bond_share = 0, gpu_reward_indexes = gpp_reward_indexes pool, gpu_pending_rewards = []\<rparr>"

record gp_staking =
  gps_total_bond_share :: u128
  gps_reward_index :: decimal
  gps_next_claim_period :: u64
  gps_total_unstaking :: u128
  gps_total_unstaked :: u128
  gps_unstaking_period :: u64

record gp_staker =
  gpk_bond_share :: u128
  gpk_reward_index :: decimal
  gpk_pending_reward :: u128
  gpk_unstaking :: u128
  gpk_unstaked :: u128
  gpk_unstaking_period :: u64

definition create_staker :: "gp_staking \<Rightarrow> gp_staker" where
  "create_staker s = \<lparr>gpk_bond_share = 0, gpk_reward_index = gps_reward_index s, gpk_pending_reward = 0, gpk_unstaking = 0, gpk_unstaked = 0,
     gpk_unstaking_period = gps_unstaking_period s\<rparr>"

record gp_reward =
  gpr_reconciled :: u128
  gpr_fee :: u128
  gpr_staker_income :: u128

definition new_reward :: gp_reward where
  "new_reward = \<lparr>gpr_reconciled = 0, gpr_fee = 0, gpr_staker_income = 0\<rparr>"

datatype gp_callback_msg =
    AfterBondClaimed addr amounts
  | GpDepositCallback addr addr u128
  | GpWithdrawCallback addr addr u128
  | AfterBondChanged addr
  | GpClaimCallback addr addr
  | AfterStakingClaimed u128

datatype gp_hook_msg = GpDeposit | GpStake

datatype gp_execute_msg =
    GpReceive "gp_hook_msg decoded cw20_receive_msg"
  | GpCallback gp_callback_msg
  | GpUpdateConfig "string option" "decimal option"
  | GpUpdateParameters "u128 option" "decimal option"
  | ControllerVote "(string \<times> u16) list"
  | SendIncome
  | GpClaimRewards "string list"
  | GpWithdraw string u128
  | GpProposeNewOwner string u64
  | GpDropOwnershipProposal
  | GpClaimOwnership
  | Relock
  | RequestUnstake u128
  | WithdrawUnstaked "u128 option"
  | ClaimIncome

text \<open>Payloads: to tokens (with the hooks of the generator and of the voting escrow), to the contracts of Astroport, and to itself.\<close>

datatype gp_hook = GeneratorDepositHook | CreateLockHook u64 | ExtendLockAmountHook

datatype gp_payload =
    GpToken "gp_hook token_msg"
  | GeneratorClaimRewards "string list"
  | GeneratorWithdraw string u128
  | DistributorClaim "string option" "u64 option"
  | GeneratorVote "(string \<times> u16) list"
  | LockWithdraw
  | ToGp gp_execute_msg

type_synonym gp_msg = "gp_payload cosmos_msg"
type_synonym gp_response = "gp_payload response"

datatype gp_error =
    GpStd std_error
  | GpOverflow
  | GpUnauthorized
  | GpCallbackUnauthorized
  | ExceedQuota u128
  | CannotUpdateAfterSet string

abbreviation gpstd :: "('a, std_error) result \<Rightarrow> ('a, gp_error) result" where
  "gpstd \<equiv> map_err GpStd"

text \<open>\<open>checked_sub(..)?\<close> where the error type is the contract's own.\<close>

definition gp_sub :: "u128 \<Rightarrow> u128 \<Rightarrow> (u128, gp_error) result" where
  "gp_sub a b = (if b \<le> a then Ok (a - b) else Err GpOverflow)"

lemma gp_sub_Ok [ok_simps]: "gp_sub a b = Ok c \<longleftrightarrow> b \<le> a \<and> c = a - b"
  by (auto simp: gp_sub_def)

record gp_state =
  gpx_config :: "gp_config option"
  gpx_pools :: "(addr, gp_pool) store"
  gpx_users :: "(addr \<times> addr, gp_user) store"
  gpx_rewards :: "(addr, gp_reward) store"
  gpx_staking :: "gp_staking option"
  gpx_stakers :: "(addr, gp_staker) store"
  gpx_proposal :: "string option"

definition empty_gp :: gp_state where
  "empty_gp = \<lparr>gpx_config = None, gpx_pools = [], gpx_users = [], gpx_rewards = [], gpx_staking = None, gpx_stakers = [], gpx_proposal = None\<rparr>"

type_synonym gp_result = "(gp_state \<times> gp_response, gp_error) result"

text \<open>What the generator stores of the proxy, and what the voting escrow does.\<close>

record generator_user =
  gu_amount :: u128
  gu_reward_user_index :: decimal
  gu_reward_debt_proxy :: amounts
  gu_virtual_amount :: u128

record gov_lock =
  gl_amount :: u128
  gl_start :: u64
  gl_end :: u64
  gl_last_extend :: u64

record pending_tokens =
  pt_pending :: u128
  pt_pending_on_proxy :: "asset list option"

record gp_deps =
  gpd_addr_validate :: "string \<Rightarrow> (addr, std_error) result"
  gpd_add_amount :: "amounts \<Rightarrow> addr \<Rightarrow> u128 \<Rightarrow> (amounts, std_error) result"
  gpd_add_index :: "indexes \<Rightarrow> addr \<Rightarrow> decimal \<Rightarrow> (indexes, std_error) result"
  gpd_balance :: "addr \<Rightarrow> addr \<Rightarrow> (u128, std_error) result"
  gpd_generator_user :: "addr \<Rightarrow> addr \<Rightarrow> addr \<Rightarrow> (generator_user option, std_error) result"
  gpd_proxy_asset :: "addr \<Rightarrow> addr \<Rightarrow> (asset_info option, std_error) result"
  gpd_deposit :: "addr \<Rightarrow> addr \<Rightarrow> addr \<Rightarrow> (u128, std_error) result"
  gpd_pending :: "addr \<Rightarrow> addr \<Rightarrow> addr \<Rightarrow> (pending_tokens, std_error) result"
  gpd_asset_str :: "asset_info \<Rightarrow> string"
  gpd_lock :: "addr \<Rightarrow> addr \<Rightarrow> (gov_lock option, std_error) result"
  gpd_last_claim :: "addr \<Rightarrow> addr \<Rightarrow> (u64 option, std_error) result"
  gpd_weekly_rewards :: "addr \<Rightarrow> u64 \<Rightarrow> (u128 option, std_error) result"
  gpd_lock_end :: "addr \<Rightarrow> addr \<Rightarrow> (u64, std_error) result"
  gpd_user_power :: "addr \<Rightarrow> addr \<Rightarrow> u64 \<Rightarrow> (u128, std_error) result"
  gpd_total_power :: "addr \<Rightarrow> u64 \<Rightarrow> (u128, std_error) result"
  gpd_period :: "u64 \<Rightarrow> (u64, std_error) result"
  gpd_week :: u64
  gpd_propose_new_owner :: "message_info \<Rightarrow> env \<Rightarrow> string \<Rightarrow> u64 \<Rightarrow> addr \<Rightarrow> string option \<Rightarrow>
    (string option \<times> gp_response, std_error) result"
  gpd_drop_ownership_proposal :: "message_info \<Rightarrow> addr \<Rightarrow> string option \<Rightarrow> (string option \<times> gp_response, std_error) result"
  gpd_claim_ownership :: "message_info \<Rightarrow> env \<Rightarrow> string option \<Rightarrow> (addr \<times> string option \<times> gp_response, std_error) result"

definition gp_self :: "env \<Rightarrow> gp_execute_msg \<Rightarrow> gp_msg" where
  "gp_self env msg = WasmExecute (env_contract env) (ToGp msg) []"

definition gp_callback_to :: "env \<Rightarrow> gp_callback_msg \<Rightarrow> gp_msg" where
  "gp_callback_to env msg = gp_self env (GpCallback msg)"

text \<open>A hash map collected from pairs, read with a default of zero.\<close>

definition collected :: "(addr \<times> nat) list \<Rightarrow> addr \<Rightarrow> nat" where
  "collected v t = unwrap_or (map_of (rev v) t) 0"

section \<open>Shares (\<open>model.rs\<close>)\<close>

definition share_of_amount :: "u128 \<Rightarrow> u128 \<Rightarrow> u128 \<Rightarrow> bool \<Rightarrow> (u128, 'e) result" where
  "share_of_amount total_share total_bond amount ceiling =
     (if total_share = 0 \<or> total_bond = 0 then Ok amount
      else if ceiling then multiply_ratio_and_ceil amount total_share total_bond
      else multiply_ratio amount total_share total_bond)"

definition amount_of_share :: "u128 \<Rightarrow> u128 \<Rightarrow> u128 \<Rightarrow> (u128, 'e) result" where
  "amount_of_share total_share total_bond share = (if total_share = 0 then Ok 0 else multiply_ratio total_bond share total_share)"

definition pool_bond_share :: "gp_pool \<Rightarrow> u128 \<Rightarrow> u128 \<Rightarrow> bool \<Rightarrow> (u128, 'e) result" where
  "pool_bond_share pool = share_of_amount (gpp_total_bond_share pool)"

definition pool_bond_amount :: "gp_pool \<Rightarrow> u128 \<Rightarrow> u128 \<Rightarrow> (u128, 'e) result" where
  "pool_bond_amount pool = amount_of_share (gpp_total_bond_share pool)"

text \<open>The shares of the stakers are of what is locked and not being unstaked.\<close>

definition staking_bond_share :: "gp_staking \<Rightarrow> u128 \<Rightarrow> u128 \<Rightarrow> bool \<Rightarrow> (u128, 'e) result" where
  "staking_bond_share s total_bond = share_of_amount (gps_total_bond_share s) (saturating_sub total_bond (gps_total_unstaking s))"

definition staking_bond_amount :: "gp_staking \<Rightarrow> u128 \<Rightarrow> u128 \<Rightarrow> (u128, 'e) result" where
  "staking_bond_amount s total_bond = amount_of_share (gps_total_bond_share s) (saturating_sub total_bond (gps_total_unstaking s))"

definition update_staker :: "gp_staking \<Rightarrow> gp_staker \<Rightarrow> (gp_staker, 'e) result" where
  "update_staker s k =
     (if gps_unstaking_period s > gpk_unstaking_period k then
        and_then (u128_add (gpk_unstaked k) (gpk_unstaking k)) (\<lambda>unstaked.
        Ok (k\<lparr>gpk_unstaked := unstaked, gpk_unstaking := 0, gpk_unstaking_period := gps_unstaking_period s\<rparr>))
      else Ok k)"

section \<open>The generator (\<open>astro_generator.rs\<close>, \<open>adapters/generator.rs\<close>)\<close>

text \<open>The debts per proxy contract are turned into debts per token; proxies without a reward asset are dropped.\<close>

fun token_of :: "asset_info \<Rightarrow> addr" where
  "token_of (TokenAsset a) = a"
| "token_of (NativeToken d) = d"

definition add_proxy_debt :: "gp_deps \<Rightarrow> addr \<Rightarrow> amounts \<Rightarrow> addr \<times> u128 \<Rightarrow> (amounts, std_error) result" where
  "add_proxy_debt deps generator debts = (\<lambda>(proxy, v).
     and_then (gpd_proxy_asset deps generator proxy) (\<lambda>a.
     case a of Some i \<Rightarrow> gpd_add_amount deps debts (token_of i) v | None \<Rightarrow> Ok debts))"

definition gp_query_generator_user :: "gp_deps \<Rightarrow> addr \<Rightarrow> addr \<Rightarrow> addr \<Rightarrow> (generator_user option, std_error) result" where
  "gp_query_generator_user deps generator lp user =
     and_then (gpd_generator_user deps generator lp user) (\<lambda>op.
     case op of
       Some u \<Rightarrow>
         if gu_reward_debt_proxy u \<noteq> [] then
           and_then (try_fold (add_proxy_debt deps generator) [] (gu_reward_debt_proxy u)) (\<lambda>debts.
           Ok (Some (u\<lparr>gu_reward_debt_proxy := debts\<rparr>)))
         else Ok (Some u)
     | None \<Rightarrow> Ok None)"

definition generator_deposit_msg :: "addr \<Rightarrow> addr \<Rightarrow> u128 \<Rightarrow> gp_msg" where
  "generator_deposit_msg generator lp amount = WasmExecute lp (GpToken (TokenSend generator amount GeneratorDepositHook)) []"

definition generator_withdraw_msg :: "addr \<Rightarrow> addr \<Rightarrow> u128 \<Rightarrow> gp_msg" where
  "generator_withdraw_msg generator lp amount = WasmExecute generator (GeneratorWithdraw lp amount) []"

definition generator_claim_msg :: "addr \<Rightarrow> string list \<Rightarrow> gp_msg" where
  "generator_claim_msg generator lps = WasmExecute generator (GeneratorClaimRewards lps) []"

section \<open>The governance of Astroport (\<open>astro_gov.rs\<close>)\<close>

definition check_gov :: "gp_deps \<Rightarrow> astro_gov \<Rightarrow> (astro_gov, std_error) result" where
  "check_gov deps g =
     and_then (gpd_addr_validate deps (ag_fee_distributor g)) (\<lambda>d.
     and_then (gpd_addr_validate deps (ag_generator_controller g)) (\<lambda>c.
     and_then (gpd_addr_validate deps (ag_voting_escrow g)) (\<lambda>v.
     and_then (gpd_addr_validate deps (ag_xastro_token g)) (\<lambda>x.
     Ok \<lparr>ag_fee_distributor = d, ag_generator_controller = c, ag_voting_escrow = v, ag_xastro_token = x\<rparr>))))"

definition query_lock :: "gp_deps \<Rightarrow> astro_gov \<Rightarrow> addr \<Rightarrow> (gov_lock, std_error) result" where
  "query_lock deps g user =
     and_then (gpd_lock deps (ag_voting_escrow g) user) (\<lambda>l.
     Ok (unwrap_or l \<lparr>gl_amount = 0, gl_start = 0, gl_end = 0, gl_last_extend = 0\<rparr>))"

definition query_last_claim_period :: "gp_deps \<Rightarrow> astro_gov \<Rightarrow> addr \<Rightarrow> (u64, std_error) result" where
  "query_last_claim_period deps g user =
     and_then (gpd_last_claim deps (ag_fee_distributor g) user) (ok_or (GenericErr ''last_claim_period not found''))"

definition gov_claim_msg :: "astro_gov \<Rightarrow> gp_msg" where
  "gov_claim_msg g = WasmExecute (ag_fee_distributor g) (DistributorClaim None None) []"

definition controller_vote_msg :: "astro_gov \<Rightarrow> (string \<times> u16) list \<Rightarrow> gp_msg" where
  "controller_vote_msg g votes = WasmExecute (ag_generator_controller g) (GeneratorVote votes) []"

definition create_lock_msg :: "astro_gov \<Rightarrow> u128 \<Rightarrow> u64 \<Rightarrow> gp_msg" where
  "create_lock_msg g amount time = WasmExecute (ag_xastro_token g) (GpToken (TokenSend (ag_voting_escrow g) amount (CreateLockHook time))) []"

definition extend_lock_amount_msg :: "astro_gov \<Rightarrow> u128 \<Rightarrow> gp_msg" where
  "extend_lock_amount_msg g amount = WasmExecute (ag_xastro_token g) (GpToken (TokenSend (ag_voting_escrow g) amount ExtendLockAmountHook)) []"

definition gov_withdraw_msg :: "astro_gov \<Rightarrow> gp_msg" where
  "gov_withdraw_msg g = WasmExecute (ag_voting_escrow g) LockWithdraw []"

definition calculate_reward :: "gp_deps \<Rightarrow> astro_gov \<Rightarrow> u64 \<Rightarrow> u128 \<Rightarrow> u128 \<Rightarrow> (u128, std_error) result" where
  "calculate_reward deps g period user_vp total_vp =
     and_then (gpd_weekly_rewards deps (ag_fee_distributor g) period) (\<lambda>w. multiply_ratio user_vp (unwrap_or w 0) total_vp)"

text \<open>The loop over the periods from the first unclaimed one, up to the current period and the end of the lock.\<close>

function claim_loop :: "gp_deps \<Rightarrow> astro_gov \<Rightarrow> addr \<Rightarrow> u64 \<Rightarrow> u64 \<Rightarrow> u64 \<Rightarrow> u128 \<Rightarrow> (u128, std_error) result" where
  "claim_loop deps g account lock_end current period claimed =
     (if period \<ge> current then Ok claimed
      else if period > lock_end then Ok claimed
      else
        and_then (gpd_user_power deps (ag_voting_escrow g) account period) (\<lambda>user_vp.
        and_then (gpd_total_power deps (ag_voting_escrow g) period) (\<lambda>total_vp.
        and_then (if user_vp \<noteq> 0 \<and> total_vp \<noteq> 0 then
            and_then (calculate_reward deps g period user_vp total_vp) (\<lambda>r. checked_add claimed r)
          else Ok claimed) (\<lambda>claimed.
        claim_loop deps g account lock_end current (period + 1) claimed))))"
  by pat_completeness auto
termination by (relation "measure (\<lambda>(_, _, _, _, current, period, _). current - period)") auto

declare claim_loop.simps [simp del]

definition calc_claim_amount :: "gp_deps \<Rightarrow> astro_gov \<Rightarrow> addr \<Rightarrow> u64 \<Rightarrow> u64 \<Rightarrow> (u128, std_error) result" where
  "calc_claim_amount deps g account claim_start current =
     and_then (gpd_lock_end deps (ag_voting_escrow g) account) (\<lambda>lock_end.
     claim_loop deps g account lock_end current claim_start 0)"

section \<open>Sharing rewards (\<open>bond.rs\<close>)\<close>

definition reconcile_astro_reward ::
    "gp_deps \<Rightarrow> gp_config \<Rightarrow> generator_user \<Rightarrow> gp_pool \<Rightarrow> gp_reward \<Rightarrow> u128 \<Rightarrow> (gp_pool \<times> gp_reward, std_error) result" where
  "reconcile_astro_reward deps config u pool reward net =
     and_then (multiply_ratio (gu_amount u) (40 * 10000000000000000) DEC_ONE) (\<lambda>base.
     and_then (multiply_ratio net base (gu_virtual_amount u)) (\<lambda>based_astro.
     and_then (checked_sub net based_astro) (\<lambda>boosted_astro.
     and_then (multiply_ratio boosted_astro (gpc_boost_fee config) DEC_ONE) (\<lambda>fee.
     and_then (u128_sub boosted_astro fee) (\<lambda>net_boosted_astro.
     and_then (multiply_ratio net_boosted_astro (gpc_staker_rate config) DEC_ONE) (\<lambda>to_staker.
     and_then (u128_sub net_boosted_astro to_staker) (\<lambda>rest.
     and_then (u128_add rest based_astro) (\<lambda>to_lp.
     and_then (dec_from_ratio to_lp (gpp_total_bond_share pool)) (\<lambda>astro_per_share.
     and_then (u128_add (gpr_fee reward) fee) (\<lambda>fees.
     and_then (u128_add (gpr_staker_income reward) to_staker) (\<lambda>income.
     and_then (u128_add (gpr_reconciled reward) net) (\<lambda>reconciled.
     and_then (gpd_add_index deps (gpp_reward_indexes pool) (gpc_astro_token config) astro_per_share) (\<lambda>indexes.
     Ok (pool\<lparr>gpp_reward_indexes := indexes\<rparr>, \<lparr>gpr_reconciled = reconciled, gpr_fee = fees, gpr_staker_income = income\<rparr>))))))))))))))"

definition reconcile_token_reward ::
    "gp_deps \<Rightarrow> addr \<Rightarrow> gp_pool \<Rightarrow> gp_reward \<Rightarrow> u128 \<Rightarrow> (gp_pool \<times> gp_reward, std_error) result" where
  "reconcile_token_reward deps token pool reward net =
     and_then (dec_from_ratio net (gpp_total_bond_share pool)) (\<lambda>token_per_share.
     and_then (u128_add (gpr_reconciled reward) net) (\<lambda>reconciled.
     and_then (gpd_add_index deps (gpp_reward_indexes pool) token token_per_share) (\<lambda>indexes.
     Ok (pool\<lparr>gpp_reward_indexes := indexes\<rparr>, reward\<lparr>gpr_reconciled := reconciled\<rparr>))))"

definition reward_of :: "(addr, gp_reward) store \<Rightarrow> addr \<Rightarrow> gp_reward" where
  "reward_of rewards token = unwrap_or (get rewards token) new_reward"

text \<open>The rewards of a pool are only stored when something came in.\<close>

type_synonym sharing = "gp_pool \<times> (addr, gp_reward) store"

definition share_astro :: "gp_deps \<Rightarrow> gp_config \<Rightarrow> generator_user \<Rightarrow> u128 \<Rightarrow> sharing \<Rightarrow> (sharing, std_error) result" where
  "share_astro deps config u net = (\<lambda>(pool, rewards).
     if net = 0 then Ok (pool, rewards)
     else
       and_then (reconcile_astro_reward deps config u pool (reward_of rewards (gpc_astro_token config)) net) (\<lambda>(pool, reward).
       Ok (pool, put (gpc_astro_token config) reward rewards)))"

definition share_token :: "gp_deps \<Rightarrow> addr \<Rightarrow> u128 \<Rightarrow> sharing \<Rightarrow> (sharing, std_error) result" where
  "share_token deps token net = (\<lambda>(pool, rewards).
     if net = 0 then Ok (pool, rewards)
     else
       and_then (reconcile_token_reward deps token pool (reward_of rewards token) net) (\<lambda>(pool, reward).
       Ok (pool, put token reward rewards)))"

definition fetch_balance :: "gp_deps \<Rightarrow> env \<Rightarrow> gp_config \<Rightarrow> generator_user \<Rightarrow> (amounts, std_error) result" where
  "fetch_balance deps env config u =
     and_then (gpd_balance deps (gpc_astro_token config) (env_contract env)) (\<lambda>astro.
     and_then (traverse (\<lambda>(token, _). and_then (gpd_balance deps token (env_contract env)) (\<lambda>a. Ok (token, a))) (gu_reward_debt_proxy u)) (\<lambda>rest.
     Ok ((gpc_astro_token config, astro) # rest)))"

definition target_astro :: "generator_user \<Rightarrow> gp_pool \<Rightarrow> (u128, std_error) result" where
  "target_astro u pool =
     and_then (u128_sub (gu_reward_user_index u) (gpp_prev_reward_user_index pool)) (\<lambda>d. multiply_ratio (gu_virtual_amount u) d DEC_ONE)"

text \<open>What came in without a claim of the proxy: at most what the generator says, and what was not accounted for yet.\<close>

definition share_proxy_reward :: "gp_deps \<Rightarrow> env \<Rightarrow> amounts \<Rightarrow> sharing \<times> amounts \<Rightarrow> addr \<times> u128 \<Rightarrow> (sharing \<times> amounts, std_error) result" where
  "share_proxy_reward deps env prev_debts = (\<lambda>(s, balances) (token, debt).
     and_then (gpd_balance deps token (env_contract env)) (\<lambda>amount.
     let target = saturating_sub debt (collected prev_debts token);
         added = saturating_sub amount (gpr_reconciled (reward_of (snd s) token)) in
     and_then (share_token deps token (min added target) s) (\<lambda>s.
     Ok (s, balances @ [(token, amount)]))))"

definition reconcile_claimed_by_others ::
    "gp_deps \<Rightarrow> env \<Rightarrow> gp_config \<Rightarrow> addr \<Rightarrow> generator_user \<Rightarrow> gp_state \<Rightarrow> (gp_state \<times> bool \<times> amounts, std_error) result" where
  "reconcile_claimed_by_others deps env config lp u st =
     (case (case get (gpx_pools st) lp of Some pool \<Rightarrow> if gpp_total_bond_share pool = 0 then None else Some pool | None \<Rightarrow> None) of
        None \<Rightarrow> and_then (fetch_balance deps env config u) (\<lambda>balances. Ok (st, True, balances))
      | Some pool \<Rightarrow>
          if gpp_last_reconcile pool = env_height env then
            and_then (fetch_balance deps env config u) (\<lambda>balances. Ok (st, False, balances))
          else
            and_then (gpd_balance deps (gpc_astro_token config) (env_contract env)) (\<lambda>astro_amount.
            let added = saturating_sub astro_amount (gpr_reconciled (reward_of (gpx_rewards st) (gpc_astro_token config))) in
            and_then (target_astro u pool) (\<lambda>target.
            and_then (share_astro deps config u (min added target) (pool, gpx_rewards st)) (\<lambda>s.
            and_then (try_fold (share_proxy_reward deps env (gpp_prev_reward_debt_proxy pool)) (s, [(gpc_astro_token config, astro_amount)])
                (gu_reward_debt_proxy u)) (\<lambda>((pool, rewards), balances).
            Ok (st\<lparr>gpx_rewards := rewards, gpx_pools := put lp (pool\<lparr>gpp_prev_reward_user_index := gu_reward_user_index u,
                gpp_prev_reward_debt_proxy := gu_reward_debt_proxy u\<rparr>) (gpx_pools st)\<rparr>, True, balances))))))"

definition claim_msgs :: "env \<Rightarrow> gp_config \<Rightarrow> addr \<Rightarrow> bool \<Rightarrow> amounts \<Rightarrow> gp_msg list" where
  "claim_msgs env config lp claim prev_balances =
     (if claim then [generator_claim_msg (gpc_generator config) [lp], gp_callback_to env (AfterBondClaimed lp prev_balances)] else [])"

definition gp_deposit :: "gp_deps \<Rightarrow> env \<Rightarrow> message_info \<Rightarrow> addr \<Rightarrow> u128 \<Rightarrow> gp_state \<Rightarrow> gp_result" where
  "gp_deposit deps env info staker amount st =
     and_then (gpstd (load_item (gpx_config st))) (\<lambda>config.
     and_then (gpstd (gp_query_generator_user deps (gpc_generator config) (info_sender info) (env_contract env))) (\<lambda>op.
     and_then (case op of
         Some u \<Rightarrow>
           and_then (gpstd (reconcile_claimed_by_others deps env config (info_sender info) u st)) (\<lambda>(st, claim, balances).
           Ok (st, claim_msgs env config (info_sender info) claim balances))
       | None \<Rightarrow> Ok (st, [])) (\<lambda>(st, msgs).
     Ok (st, add_attribute (add_message (add_messages new_response msgs)
         (gp_callback_to env (GpDepositCallback (info_sender info) staker amount))) ''action'' ''ampg/deposit''))))"

definition user_not_found :: "('a, std_error) result" where
  "user_not_found = Err (GenericErr ''UserInfo is not found'')"

definition gp_withdraw :: "gp_deps \<Rightarrow> env \<Rightarrow> message_info \<Rightarrow> string \<Rightarrow> u128 \<Rightarrow> gp_state \<Rightarrow> gp_result" where
  "gp_withdraw deps env info lp_token amount st =
     and_then (gpstd (gpd_addr_validate deps lp_token)) (\<lambda>lp.
     and_then (gpstd (load_item (gpx_config st))) (\<lambda>config.
     and_then (gpstd (gp_query_generator_user deps (gpc_generator config) lp (env_contract env))) (\<lambda>op.
     and_then (gpstd (case op of Some u \<Rightarrow> Ok u | None \<Rightarrow> user_not_found)) (\<lambda>u.
     and_then (gpstd (reconcile_claimed_by_others deps env config lp u st)) (\<lambda>(st, claim, balances).
     Ok (st, add_attribute (add_message (add_messages new_response (claim_msgs env config lp claim balances))
         (gp_callback_to env (GpWithdrawCallback lp (info_sender info) amount))) ''action'' ''ampg/withdraw''))))))"

text \<open>One pool of a claim.\<close>

definition claim_pool ::
    "gp_deps \<Rightarrow> env \<Rightarrow> message_info \<Rightarrow> gp_config \<Rightarrow> gp_state \<times> gp_msg list \<Rightarrow> string \<Rightarrow> (gp_state \<times> gp_msg list, gp_error) result" where
  "claim_pool deps env info config = (\<lambda>(st, msgs) lp_token.
     and_then (gpstd (gpd_addr_validate deps lp_token)) (\<lambda>lp.
     and_then (gpstd (gp_query_generator_user deps (gpc_generator config) lp (env_contract env))) (\<lambda>op.
     and_then (gpstd (case op of Some u \<Rightarrow> Ok u | None \<Rightarrow> user_not_found)) (\<lambda>u.
     and_then (gpstd (reconcile_claimed_by_others deps env config lp u st)) (\<lambda>(st, claim, balances).
     Ok (st, msgs @ claim_msgs env config lp claim balances @ [gp_callback_to env (GpClaimCallback lp (info_sender info))]))))))"

definition gp_claim_rewards :: "gp_deps \<Rightarrow> env \<Rightarrow> message_info \<Rightarrow> string list \<Rightarrow> gp_state \<Rightarrow> gp_result" where
  "gp_claim_rewards deps env info lp_tokens st =
     and_then (gpstd (load_item (gpx_config st))) (\<lambda>config.
     and_then (try_fold (claim_pool deps env info config) (st, []) lp_tokens) (\<lambda>(st, msgs).
     Ok (st, add_attribute (add_messages new_response msgs) ''action'' ''ampg/claim_rewards'')))"

section \<open>The callbacks of \<open>bond.rs\<close>\<close>

text \<open>After the claim: what the balances grew by, since they were taken, is shared out.\<close>

definition share_claimed :: "gp_deps \<Rightarrow> env \<Rightarrow> amounts \<Rightarrow> sharing \<Rightarrow> addr \<times> u128 \<Rightarrow> (sharing, gp_error) result" where
  "share_claimed deps env prev_balances = (\<lambda>s (token, _).
     case map_of (rev prev_balances) token of
       None \<Rightarrow> Ok s
     | Some prev \<Rightarrow>
         and_then (gpstd (gpd_balance deps token (env_contract env))) (\<lambda>amount.
         and_then (gp_sub amount prev) (\<lambda>net. gpstd (share_token deps token net s))))"

definition after_bond_claimed :: "gp_deps \<Rightarrow> env \<Rightarrow> addr \<Rightarrow> amounts \<Rightarrow> gp_state \<Rightarrow> gp_result" where
  "after_bond_claimed deps env lp prev_balances st =
     and_then (gpstd (load_item (gpx_config st))) (\<lambda>config.
     and_then (gpstd (load_item (get (gpx_pools st) lp))) (\<lambda>pool.
     and_then (gpstd (gp_query_generator_user deps (gpc_generator config) lp (env_contract env))) (\<lambda>op.
     and_then (gpstd (case op of Some u \<Rightarrow> Ok u | None \<Rightarrow> Err (GenericErr ''UserInfo not found''))) (\<lambda>u.
     and_then (gpstd (gpd_balance deps (gpc_astro_token config) (env_contract env))) (\<lambda>astro_amount.
     and_then (case map_of (rev prev_balances) (gpc_astro_token config) of
         Some prev \<Rightarrow> and_then (gp_sub astro_amount prev) (\<lambda>net. gpstd (share_astro deps config u net (pool, gpx_rewards st)))
       | None \<Rightarrow> Ok (pool, gpx_rewards st)) (\<lambda>s.
     and_then (try_fold (share_claimed deps env prev_balances) s (gu_reward_debt_proxy u)) (\<lambda>(pool, rewards).
     Ok (st\<lparr>gpx_rewards := rewards, gpx_pools := put lp (pool\<lparr>gpp_prev_reward_user_index := gu_reward_user_index u,
           gpp_prev_reward_debt_proxy := gu_reward_debt_proxy u, gpp_last_reconcile := env_height env\<rparr>) (gpx_pools st)\<rparr>,
         add_attribute new_response ''callback'' ''ampg/after_bond_claimed''))))))))"

definition after_bond_changed :: "gp_deps \<Rightarrow> env \<Rightarrow> addr \<Rightarrow> gp_state \<Rightarrow> gp_result" where
  "after_bond_changed deps env lp st =
     and_then (gpstd (load_item (gpx_config st))) (\<lambda>config.
     and_then (gpstd (gp_query_generator_user deps (gpc_generator config) lp (env_contract env))) (\<lambda>op.
     and_then (case op of
         Some u \<Rightarrow>
           and_then (gpstd (load_item (get (gpx_pools st) lp))) (\<lambda>pool.
           Ok (st\<lparr>gpx_pools := put lp (pool\<lparr>gpp_prev_reward_user_index := gu_reward_user_index u,
             gpp_prev_reward_debt_proxy := gu_reward_debt_proxy u\<rparr>) (gpx_pools st)\<rparr>))
       | None \<Rightarrow> Ok st) (\<lambda>st.
     Ok (st, add_attribute new_response ''callback'' ''ampg/after_bond_changed''))))"

text \<open>What a user earned since the last time, per token of the pool.\<close>

definition add_pending :: "gp_deps \<Rightarrow> gp_user \<Rightarrow> amounts \<Rightarrow> addr \<times> decimal \<Rightarrow> (amounts, std_error) result" where
  "add_pending deps user pending = (\<lambda>(token, index).
     and_then (u128_sub index (collected (gpu_reward_indexes user) token)) (\<lambda>d.
     and_then (multiply_ratio (gpu_bond_share user) d DEC_ONE) (\<lambda>amount.
     gpd_add_amount deps pending token amount)))"

definition reconcile_to_user_info :: "gp_deps \<Rightarrow> gp_pool \<Rightarrow> gp_user \<Rightarrow> (gp_user, std_error) result" where
  "reconcile_to_user_info deps pool user =
     and_then (try_fold (add_pending deps user) (gpu_pending_rewards user) (gpp_reward_indexes pool)) (\<lambda>pending.
     Ok (user\<lparr>gpu_pending_rewards := pending, gpu_reward_indexes := gpp_reward_indexes pool\<rparr>))"

definition callback_deposit :: "gp_deps \<Rightarrow> env \<Rightarrow> addr \<Rightarrow> addr \<Rightarrow> u128 \<Rightarrow> gp_state \<Rightarrow> gp_result" where
  "callback_deposit deps env lp staker amount st =
     and_then (gpstd (load_item (gpx_config st))) (\<lambda>config.
     let pool = unwrap_or (get (gpx_pools st) lp) new_pool; user = unwrap_or (get (gpx_users st) (lp, staker)) (create_user pool) in
     and_then (gpstd (reconcile_to_user_info deps pool user)) (\<lambda>user.
     and_then (gpstd (gpd_deposit deps (gpc_generator config) lp (env_contract env))) (\<lambda>total_bond.
     and_then (pool_bond_share pool total_bond amount False) (\<lambda>share.
     and_then (u128_add (gpu_bond_share user) share) (\<lambda>user_share.
     and_then (u128_add (gpp_total_bond_share pool) share) (\<lambda>total_share.
     Ok (st\<lparr>gpx_users := put (lp, staker) (user\<lparr>gpu_bond_share := user_share\<rparr>) (gpx_users st),
           gpx_pools := put lp (pool\<lparr>gpp_total_bond_share := total_share\<rparr>) (gpx_pools st)\<rparr>,
         add_attribute (add_messages new_response
           [generator_deposit_msg (gpc_generator config) lp amount, gp_callback_to env (AfterBondChanged lp)]) ''add_share'' (nat_str share))))))))"

definition callback_withdraw :: "gp_deps \<Rightarrow> env \<Rightarrow> addr \<Rightarrow> addr \<Rightarrow> u128 \<Rightarrow> gp_state \<Rightarrow> gp_result" where
  "callback_withdraw deps env lp staker amount st =
     and_then (gpstd (load_item (gpx_config st))) (\<lambda>config.
     and_then (gpstd (load_item (get (gpx_pools st) lp))) (\<lambda>pool.
     and_then (gpstd (load_item (get (gpx_users st) (lp, staker)))) (\<lambda>user.
     and_then (gpstd (reconcile_to_user_info deps pool user)) (\<lambda>user.
     and_then (gpstd (gpd_deposit deps (gpc_generator config) lp (env_contract env))) (\<lambda>total_bond.
     and_then (pool_bond_share pool total_bond amount True) (\<lambda>share.
     and_then (gp_sub (gpu_bond_share user) share) (\<lambda>user_share.
     and_then (gp_sub (gpp_total_bond_share pool) share) (\<lambda>total_share.
     Ok (st\<lparr>gpx_users := put (lp, staker) (user\<lparr>gpu_bond_share := user_share\<rparr>) (gpx_users st),
           gpx_pools := put lp (pool\<lparr>gpp_total_bond_share := total_share\<rparr>) (gpx_pools st)\<rparr>,
         add_attribute (add_messages new_response
           [generator_withdraw_msg (gpc_generator config) lp amount, transfer_msg GpToken (TokenAsset lp) amount staker,
            gp_callback_to env (AfterBondChanged lp)]) ''deduct_share'' (nat_str share))))))))))"

text \<open>Paying one pending reward.\<close>

definition pay_pending ::
    "addr \<Rightarrow> (addr, gp_reward) store \<times> gp_msg list \<Rightarrow> addr \<times> u128 \<Rightarrow> ((addr, gp_reward) store \<times> gp_msg list, gp_error) result" where
  "pay_pending staker = (\<lambda>(rewards, msgs) (token, amount).
     if amount = 0 then Ok (rewards, msgs)
     else
       and_then (gpstd (load_item (get rewards token))) (\<lambda>reward.
       and_then (gp_sub (gpr_reconciled reward) amount) (\<lambda>reconciled.
       Ok (put token (reward\<lparr>gpr_reconciled := reconciled\<rparr>) rewards, msgs @ [transfer_msg GpToken (TokenAsset token) amount staker]))))"

definition callback_claim_rewards :: "gp_deps \<Rightarrow> addr \<Rightarrow> addr \<Rightarrow> gp_state \<Rightarrow> gp_result" where
  "callback_claim_rewards deps lp staker st =
     and_then (gpstd (load_item (get (gpx_users st) (lp, staker)))) (\<lambda>user.
     and_then (gpstd (load_item (get (gpx_pools st) lp))) (\<lambda>pool.
     and_then (gpstd (reconcile_to_user_info deps pool user)) (\<lambda>user.
     and_then (try_fold (pay_pending staker) (gpx_rewards st, []) (gpu_pending_rewards user)) (\<lambda>(rewards, msgs).
     Ok (st\<lparr>gpx_rewards := rewards, gpx_users := put (lp, staker) (user\<lparr>gpu_pending_rewards := []\<rparr>) (gpx_users st)\<rparr>,
       add_messages new_response msgs)))))"

section \<open>Staking xASTRO (\<open>staking.rs\<close>)\<close>

definition reconcile_staker_income :: "gp_reward \<Rightarrow> gp_staking \<Rightarrow> (gp_reward \<times> gp_staking, 'e) result" where
  "reconcile_staker_income reward s =
     (if gps_total_bond_share s = 0 then Ok (reward, s)
      else
        and_then (dec_from_ratio (gpr_staker_income reward) (gps_total_bond_share s)) (\<lambda>income_per_share.
        and_then (dec_add (gps_reward_index s) income_per_share) (\<lambda>index.
        Ok (reward\<lparr>gpr_staker_income := 0\<rparr>, s\<lparr>gps_reward_index := index\<rparr>))))"

definition reconcile_to_staker_info :: "gp_staking \<Rightarrow> gp_staker \<Rightarrow> (gp_staker, 'e) result" where
  "reconcile_to_staker_info s k =
     and_then (u128_sub (gps_reward_index s) (gpk_reward_index k)) (\<lambda>d.
     and_then (multiply_ratio (gpk_bond_share k) d DEC_ONE) (\<lambda>amount.
     and_then (u128_add (gpk_pending_reward k) amount) (\<lambda>pending.
     Ok (k\<lparr>gpk_pending_reward := pending, gpk_reward_index := gps_reward_index s\<rparr>))))"

text \<open>Storing what a message of a staker changed.\<close>

definition store_staker :: "gp_config \<Rightarrow> addr \<Rightarrow> gp_staker \<Rightarrow> gp_staking \<Rightarrow> gp_reward \<Rightarrow> gp_state \<Rightarrow> gp_state" where
  "store_staker config staker k s reward st = st\<lparr>gpx_stakers := put staker k (gpx_stakers st), gpx_staking := Some s,
     gpx_rewards := put (gpc_astro_token config) reward (gpx_rewards st)\<rparr>"

definition execute_stake :: "gp_deps \<Rightarrow> env \<Rightarrow> message_info \<Rightarrow> addr \<Rightarrow> u128 \<Rightarrow> gp_state \<Rightarrow> gp_result" where
  "execute_stake deps env info staker amount st =
     and_then (gpstd (load_item (gpx_config st))) (\<lambda>config.
     let g = gpc_astro_gov config in
     if info_sender info \<noteq> ag_xastro_token g then Err GpUnauthorized
     else
       and_then (gpstd (query_lock deps g (env_contract env))) (\<lambda>lock.
       and_then (u128_add (gl_amount lock) amount) (\<lambda>locked.
       if locked > gpc_max_quota config then Err (ExceedQuota (saturating_sub (gpc_max_quota config) (gl_amount lock)))
       else
         and_then (if gl_amount lock = 0 then Ok [create_lock_msg g amount (gpd_week deps)]
           else
             and_then (gpstd (gpd_period deps (env_time env))) (\<lambda>period.
             Ok ((if gl_end lock \<le> period then [gp_self env Relock] else []) @ [extend_lock_amount_msg g amount]))) (\<lambda>msgs.
         and_then (gpstd (load_item (get (gpx_rewards st) (gpc_astro_token config)))) (\<lambda>reward.
         and_then (gpstd (load_item (gpx_staking st))) (\<lambda>s.
         let k = unwrap_or (get (gpx_stakers st) staker) (create_staker s) in
         and_then (reconcile_staker_income reward s) (\<lambda>(reward, s).
         and_then (reconcile_to_staker_info s k) (\<lambda>k.
         and_then (staking_bond_share s (gl_amount lock) amount False) (\<lambda>share.
         and_then (u128_add (gpk_bond_share k) share) (\<lambda>staker_share.
         and_then (u128_add (gps_total_bond_share s) share) (\<lambda>total_share.
         Ok (store_staker config staker (k\<lparr>gpk_bond_share := staker_share\<rparr>) (s\<lparr>gps_total_bond_share := total_share\<rparr>) reward st,
           add_attribute (add_messages new_response msgs) ''add_share'' (nat_str share)))))))))))))"

definition reconcile_staking_claim_by_others ::
    "gp_deps \<Rightarrow> env \<Rightarrow> gp_config \<Rightarrow> gp_reward \<Rightarrow> gp_staking \<Rightarrow> (u128 \<times> gp_reward \<times> gp_staking, std_error) result" where
  "reconcile_staking_claim_by_others deps env config reward s =
     and_then (query_last_claim_period deps (gpc_astro_gov config) (env_contract env)) (\<lambda>current.
     and_then (calc_claim_amount deps (gpc_astro_gov config) (env_contract env) (gps_next_claim_period s) current) (\<lambda>target.
     and_then (gpd_balance deps (gpc_astro_token config) (env_contract env)) (\<lambda>astro_amount.
     let net = min (saturating_sub astro_amount (gpr_reconciled reward)) target in
     and_then (u128_add (gpr_staker_income reward) net) (\<lambda>income.
     and_then (u128_add (gpr_reconciled reward) net) (\<lambda>reconciled.
     and_then (reconcile_staker_income (reward\<lparr>gpr_staker_income := income, gpr_reconciled := reconciled\<rparr>)
         (s\<lparr>gps_next_claim_period := current\<rparr>)) (\<lambda>(reward, s).
     Ok (astro_amount, reward, s)))))))"

definition execute_relock :: "gp_deps \<Rightarrow> env \<Rightarrow> message_info \<Rightarrow> gp_state \<Rightarrow> gp_result" where
  "execute_relock deps env info st =
     and_then (gpstd (load_item (gpx_config st))) (\<lambda>config.
     let g = gpc_astro_gov config in
     if info_sender info \<noteq> gpc_controller config \<and> info_sender info \<noteq> env_contract env then Err GpUnauthorized
     else
       and_then (gpstd (load_item (get (gpx_rewards st) (gpc_astro_token config)))) (\<lambda>reward.
       and_then (gpstd (load_item (gpx_staking st))) (\<lambda>s.
       and_then (gpstd (query_lock deps g (env_contract env))) (\<lambda>lock.
       and_then (gp_sub (gl_amount lock) (gps_total_unstaking s)) (\<lambda>lock_amount.
       and_then (u128_add (gps_total_unstaked s) (gps_total_unstaking s)) (\<lambda>unstaked.
       and_then (gpstd (gpd_period deps (env_time env))) (\<lambda>period.
       and_then (gpstd (reconcile_staking_claim_by_others deps env config reward
           (s\<lparr>gps_total_unstaked := unstaked, gps_total_unstaking := 0, gps_unstaking_period := period\<rparr>))) (\<lambda>(prev_balance, reward, s).
       Ok (st\<lparr>gpx_staking := Some s, gpx_rewards := put (gpc_astro_token config) reward (gpx_rewards st)\<rparr>,
         add_messages new_response [gov_claim_msg g, gp_callback_to env (AfterStakingClaimed prev_balance), gov_withdraw_msg g,
           create_lock_msg g lock_amount (gpd_week deps)])))))))))"

definition after_staking_claimed :: "gp_deps \<Rightarrow> env \<Rightarrow> u128 \<Rightarrow> gp_state \<Rightarrow> gp_result" where
  "after_staking_claimed deps env prev_balance st =
     and_then (gpstd (load_item (gpx_config st))) (\<lambda>config.
     and_then (gpstd (load_item (gpx_staking st))) (\<lambda>s.
     and_then (gpstd (load_item (get (gpx_rewards st) (gpc_astro_token config)))) (\<lambda>reward.
     and_then (gpstd (query_last_claim_period deps (gpc_astro_gov config) (env_contract env))) (\<lambda>current.
     and_then (gpstd (gpd_balance deps (gpc_astro_token config) (env_contract env))) (\<lambda>balance.
     and_then (gp_sub balance prev_balance) (\<lambda>net.
     and_then (u128_add (gpr_staker_income reward) net) (\<lambda>income.
     and_then (u128_add (gpr_reconciled reward) net) (\<lambda>reconciled.
     and_then (reconcile_staker_income (reward\<lparr>gpr_staker_income := income, gpr_reconciled := reconciled\<rparr>)
         (s\<lparr>gps_next_claim_period := current\<rparr>)) (\<lambda>(reward, s).
     Ok (st\<lparr>gpx_staking := Some s, gpx_rewards := put (gpc_astro_token config) reward (gpx_rewards st)\<rparr>, new_response))))))))))"

definition execute_request_unstake :: "gp_deps \<Rightarrow> env \<Rightarrow> message_info \<Rightarrow> u128 \<Rightarrow> gp_state \<Rightarrow> gp_result" where
  "execute_request_unstake deps env info amount st =
     and_then (gpstd (load_item (gpx_config st))) (\<lambda>config.
     and_then (gpstd (load_item (get (gpx_rewards st) (gpc_astro_token config)))) (\<lambda>reward.
     and_then (gpstd (load_item (gpx_staking st))) (\<lambda>s.
     and_then (gpstd (load_item (get (gpx_stakers st) (info_sender info)))) (\<lambda>k.
     and_then (reconcile_staker_income reward s) (\<lambda>(reward, s).
     and_then (reconcile_to_staker_info s k) (\<lambda>k.
     and_then (update_staker s k) (\<lambda>k.
     and_then (gpstd (query_lock deps (gpc_astro_gov config) (env_contract env))) (\<lambda>lock.
     and_then (staking_bond_share s (gl_amount lock) amount True) (\<lambda>share.
     and_then (gp_sub (gpk_bond_share k) share) (\<lambda>staker_share.
     and_then (u128_add (gpk_unstaking k) amount) (\<lambda>unstaking.
     and_then (gp_sub (gps_total_bond_share s) share) (\<lambda>total_share.
     and_then (u128_add (gps_total_unstaking s) amount) (\<lambda>total_unstaking.
     Ok (store_staker config (info_sender info) (k\<lparr>gpk_bond_share := staker_share, gpk_unstaking := unstaking\<rparr>)
           (s\<lparr>gps_total_bond_share := total_share, gps_total_unstaking := total_unstaking\<rparr>) reward st,
         add_attribute new_response ''deduct_share'' (nat_str share)))))))))))))))"

definition execute_withdraw_unstaked :: "message_info \<Rightarrow> u128 option \<Rightarrow> gp_state \<Rightarrow> gp_result" where
  "execute_withdraw_unstaked info amount st =
     and_then (gpstd (load_item (gpx_config st))) (\<lambda>config.
     and_then (gpstd (load_item (gpx_staking st))) (\<lambda>s.
     and_then (gpstd (load_item (get (gpx_stakers st) (info_sender info)))) (\<lambda>k.
     and_then (update_staker s k) (\<lambda>k.
     let amount = unwrap_or amount (gpk_unstaked k) in
     and_then (gp_sub (gpk_unstaked k) amount) (\<lambda>unstaked.
     and_then (gp_sub (gps_total_unstaked s) amount) (\<lambda>total_unstaked.
     Ok (st\<lparr>gpx_stakers := put (info_sender info) (k\<lparr>gpk_unstaked := unstaked\<rparr>) (gpx_stakers st),
           gpx_staking := Some (s\<lparr>gps_total_unstaked := total_unstaked\<rparr>)\<rparr>,
         add_message new_response (transfer_msg GpToken (TokenAsset (ag_xastro_token (gpc_astro_gov config))) amount (info_sender info)))))))))"

definition execute_claim_income :: "message_info \<Rightarrow> gp_state \<Rightarrow> gp_result" where
  "execute_claim_income info st =
     and_then (gpstd (load_item (gpx_config st))) (\<lambda>config.
     and_then (gpstd (load_item (get (gpx_rewards st) (gpc_astro_token config)))) (\<lambda>reward.
     and_then (gpstd (load_item (gpx_staking st))) (\<lambda>s.
     and_then (gpstd (load_item (get (gpx_stakers st) (info_sender info)))) (\<lambda>k.
     and_then (reconcile_staker_income reward s) (\<lambda>(reward, s).
     and_then (reconcile_to_staker_info s k) (\<lambda>k.
     let amount = gpk_pending_reward k in
     and_then (gp_sub (gpr_reconciled reward) amount) (\<lambda>reconciled.
     Ok (store_staker config (info_sender info) (k\<lparr>gpk_pending_reward := 0\<rparr>) s (reward\<lparr>gpr_reconciled := reconciled\<rparr>) st,
         add_message new_response (transfer_msg GpToken (TokenAsset (gpc_astro_token config)) amount (info_sender info))))))))))"

section \<open>Operation (\<open>oper.rs\<close>)\<close>

definition gp_validate_percentage :: "decimal \<Rightarrow> string \<Rightarrow> (unit, std_error) result" where
  "gp_validate_percentage value field = (if value > DEC_ONE then Err (GenericErr (field @ '' cannot greater than 1'')) else Ok ())"

definition gp_update_config :: "gp_deps \<Rightarrow> message_info \<Rightarrow> string option \<Rightarrow> decimal option \<Rightarrow> gp_state \<Rightarrow> gp_result" where
  "gp_update_config deps info controller boost_fee st =
     and_then (gpstd (load_item (gpx_config st))) (\<lambda>config.
     if info_sender info \<noteq> gpc_owner config then Err GpUnauthorized
     else
       and_then (case controller of
           Some a \<Rightarrow> and_then (gpstd (gpd_addr_validate deps a)) (\<lambda>a. Ok (config\<lparr>gpc_controller := a\<rparr>)) | None \<Rightarrow> Ok config) (\<lambda>config.
       and_then (case boost_fee of
           Some f \<Rightarrow> and_then (gpstd (gp_validate_percentage f ''boost_fee'')) (\<lambda>_. Ok (config\<lparr>gpc_boost_fee := f\<rparr>))
         | None \<Rightarrow> Ok config) (\<lambda>config.
       Ok (st\<lparr>gpx_config := Some config\<rparr>, new_response))))"

definition gp_update_parameters :: "message_info \<Rightarrow> u128 option \<Rightarrow> decimal option \<Rightarrow> gp_state \<Rightarrow> gp_result" where
  "gp_update_parameters info max_quota staker_rate st =
     and_then (gpstd (load_item (gpx_config st))) (\<lambda>config.
     if info_sender info \<noteq> gpc_controller config then Err GpUnauthorized
     else
       let config = (case max_quota of Some q \<Rightarrow> config\<lparr>gpc_max_quota := q\<rparr> | None \<Rightarrow> config) in
       and_then (case staker_rate of
           Some f \<Rightarrow> and_then (gpstd (gp_validate_percentage f ''staker_rate'')) (\<lambda>_. Ok (config\<lparr>gpc_staker_rate := f\<rparr>))
         | None \<Rightarrow> Ok config) (\<lambda>config.
       Ok (st\<lparr>gpx_config := Some config\<rparr>, new_response)))"

definition execute_controller_vote :: "message_info \<Rightarrow> (string \<times> u16) list \<Rightarrow> gp_state \<Rightarrow> gp_result" where
  "execute_controller_vote info votes st =
     and_then (gpstd (load_item (gpx_config st))) (\<lambda>config.
     if info_sender info \<noteq> gpc_controller config then Err GpUnauthorized
     else Ok (st, add_message new_response (controller_vote_msg (gpc_astro_gov config) votes)))"

definition execute_send_income :: "message_info \<Rightarrow> gp_state \<Rightarrow> gp_result" where
  "execute_send_income info st =
     and_then (gpstd (load_item (gpx_config st))) (\<lambda>config.
     if info_sender info \<noteq> gpc_controller config then Err GpUnauthorized
     else
       and_then (gpstd (load_item (get (gpx_rewards st) (gpc_astro_token config)))) (\<lambda>reward.
       let fee = gpr_fee reward in
       and_then (u128_sub (gpr_reconciled reward) fee) (\<lambda>reconciled.
       Ok (st\<lparr>gpx_rewards := put (gpc_astro_token config) (reward\<lparr>gpr_fee := 0, gpr_reconciled := reconciled\<rparr>) (gpx_rewards st)\<rparr>,
         add_messages new_response
           (if fee \<noteq> 0 then [transfer_msg GpToken (TokenAsset (gpc_astro_token config)) fee (gpc_fee_collector config)] else [])))))"

section \<open>The contract (\<open>contract.rs\<close>)\<close>

definition gp_instantiate :: "gp_deps \<Rightarrow> env \<Rightarrow> gp_instantiate_msg \<Rightarrow> gp_state \<Rightarrow> gp_result" where
  "gp_instantiate deps env msg st =
     and_then (gpstd (gp_validate_percentage (gpi_staker_rate msg) ''staker_rate'')) (\<lambda>_.
     and_then (gpstd (gp_validate_percentage (gpi_boost_fee msg) ''boost_fee'')) (\<lambda>_.
     and_then (gpstd (gpd_addr_validate deps (gpi_generator msg))) (\<lambda>generator.
     and_then (gpstd (check_gov deps (gpi_astro_gov msg))) (\<lambda>gov.
     and_then (gpstd (gpd_addr_validate deps (gpi_owner msg))) (\<lambda>owner.
     and_then (gpstd (gpd_addr_validate deps (gpi_controller msg))) (\<lambda>controller.
     and_then (gpstd (gpd_addr_validate deps (gpi_astro_token msg))) (\<lambda>astro_token.
     and_then (gpstd (gpd_addr_validate deps (gpi_fee_collector msg))) (\<lambda>fee_collector.
     and_then (gpstd (gpd_period deps (env_time env))) (\<lambda>period.
     Ok (st\<lparr>gpx_config := Some \<lparr>gpc_generator = generator, gpc_astro_gov = gov, gpc_owner = owner, gpc_controller = controller,
             gpc_astro_token = astro_token, gpc_fee_collector = fee_collector, gpc_max_quota = gpi_max_quota msg,
             gpc_staker_rate = gpi_staker_rate msg, gpc_boost_fee = gpi_boost_fee msg\<rparr>,
           gpx_staking := Some \<lparr>gps_total_bond_share = 0, gps_reward_index = 0, gps_next_claim_period = period, gps_total_unstaking = 0,
             gps_total_unstaked = 0, gps_unstaking_period = period\<rparr>\<rparr>, new_response))))))))))"

definition gp_receive :: "gp_deps \<Rightarrow> env \<Rightarrow> message_info \<Rightarrow> gp_hook_msg decoded cw20_receive_msg \<Rightarrow> gp_state \<Rightarrow> gp_result" where
  "gp_receive deps env info msg st =
     and_then (gpstd (gpd_addr_validate deps (cw20_sender msg))) (\<lambda>staker.
     and_then (gpstd (from_binary (cw20_payload msg))) (\<lambda>hook.
     case hook of
       GpDeposit \<Rightarrow> gp_deposit deps env info staker (cw20_amount msg) st
     | GpStake \<Rightarrow> execute_stake deps env info staker (cw20_amount msg) st))"

definition gp_callback :: "gp_deps \<Rightarrow> env \<Rightarrow> message_info \<Rightarrow> gp_callback_msg \<Rightarrow> gp_state \<Rightarrow> gp_result" where
  "gp_callback deps env info msg st =
     (if info_sender info \<noteq> env_contract env then Err GpCallbackUnauthorized
      else case msg of
        AfterBondClaimed lp prev_balances \<Rightarrow> after_bond_claimed deps env lp prev_balances st
      | GpDepositCallback lp staker amount \<Rightarrow> callback_deposit deps env lp staker amount st
      | GpWithdrawCallback lp staker amount \<Rightarrow> callback_withdraw deps env lp staker amount st
      | AfterBondChanged lp \<Rightarrow> after_bond_changed deps env lp st
      | GpClaimCallback lp staker \<Rightarrow> callback_claim_rewards deps lp staker st
      | AfterStakingClaimed prev_balance \<Rightarrow> after_staking_claimed deps env prev_balance st)"

fun gp_execute :: "gp_deps \<Rightarrow> env \<Rightarrow> message_info \<Rightarrow> gp_execute_msg \<Rightarrow> gp_state \<Rightarrow> gp_result" where
  "gp_execute deps env info (GpReceive msg) st = gp_receive deps env info msg st"
| "gp_execute deps env info (GpCallback msg) st = gp_callback deps env info msg st"
| "gp_execute deps env info (GpUpdateConfig controller boost_fee) st = gp_update_config deps info controller boost_fee st"
| "gp_execute deps env info (GpUpdateParameters max_quota staker_rate) st = gp_update_parameters info max_quota staker_rate st"
| "gp_execute deps env info (ControllerVote votes) st = execute_controller_vote info votes st"
| "gp_execute deps env info SendIncome st = execute_send_income info st"
| "gp_execute deps env info (GpClaimRewards lp_tokens) st = gp_claim_rewards deps env info lp_tokens st"
| "gp_execute deps env info (GpWithdraw lp_token amount) st = gp_withdraw deps env info lp_token amount st"
| "gp_execute deps env info (GpProposeNewOwner owner expires_in) st =
     and_then (gpstd (load_item (gpx_config st))) (\<lambda>config.
     and_then (gpstd (gpd_propose_new_owner deps info env owner expires_in (gpc_owner config) (gpx_proposal st))) (\<lambda>(p, r).
     Ok (st\<lparr>gpx_proposal := p\<rparr>, r)))"
| "gp_execute deps env info GpDropOwnershipProposal st =
     and_then (gpstd (load_item (gpx_config st))) (\<lambda>config.
     and_then (gpstd (gpd_drop_ownership_proposal deps info (gpc_owner config) (gpx_proposal st))) (\<lambda>(p, r).
     Ok (st\<lparr>gpx_proposal := p\<rparr>, r)))"
| "gp_execute deps env info GpClaimOwnership st =
     and_then (gpstd (gpd_claim_ownership deps info env (gpx_proposal st))) (\<lambda>(new_owner, p, r).
     and_then (gpstd (load_item (gpx_config st))) (\<lambda>config.
     Ok (st\<lparr>gpx_config := Some (config\<lparr>gpc_owner := new_owner\<rparr>), gpx_proposal := p\<rparr>, r)))"
| "gp_execute deps env info Relock st = execute_relock deps env info st"
| "gp_execute deps env info (RequestUnstake amount) st = execute_request_unstake deps env info amount st"
| "gp_execute deps env info (WithdrawUnstaked amount) st = execute_withdraw_unstaked info amount st"
| "gp_execute deps env info ClaimIncome st = execute_claim_income info st"

definition gp_migrate :: "gp_state \<Rightarrow> gp_result" where
  "gp_migrate st = Ok (st, add_attribute new_response ''new_contract_name'' ''eris-generator-proxy'')"

section \<open>Queries\<close>

text \<open>The pending rewards, as if they had been claimed now; nothing is stored, so the rewards are those of the state throughout.\<close>

definition pending_of_token :: "gp_deps \<Rightarrow> env \<Rightarrow> gp_state \<Rightarrow> amounts \<Rightarrow> (string \<times> u128) list \<Rightarrow> gp_pool \<Rightarrow> addr \<times> u128 \<Rightarrow> (gp_pool, std_error) result" where
  "pending_of_token deps env st prev_debts pending pool = (\<lambda>(token, debt).
     let reward = reward_of (gpx_rewards st) token in
     and_then (gpd_balance deps token (env_contract env)) (\<lambda>amount.
     and_then (u128_add (min (saturating_sub amount (gpr_reconciled reward)) (saturating_sub debt (collected prev_debts token)))
         (collected pending token)) (\<lambda>net.
     and_then (reconcile_token_reward deps token pool reward net) (\<lambda>(pool, _). Ok pool))))"

definition gp_query_pending :: "gp_deps \<Rightarrow> env \<Rightarrow> string \<Rightarrow> string \<Rightarrow> gp_state \<Rightarrow> (pending_tokens, std_error) result" where
  "gp_query_pending deps env lp_token user st =
     and_then (gpd_addr_validate deps lp_token) (\<lambda>lp.
     and_then (gpd_addr_validate deps user) (\<lambda>user.
     and_then (load_item (gpx_config st)) (\<lambda>config.
     and_then (gp_query_generator_user deps (gpc_generator config) lp (env_contract env)) (\<lambda>op.
     case op of
       None \<Rightarrow> Ok \<lparr>pt_pending = 0, pt_pending_on_proxy = None\<rparr>
     | Some u \<Rightarrow>
         let pool = unwrap_or (get (gpx_pools st) lp) new_pool;
             user_info = unwrap_or (get (gpx_users st) (lp, user)) (create_user pool);
             reward = reward_of (gpx_rewards st) (gpc_astro_token config) in
         and_then (gpd_pending deps (gpc_generator config) lp (env_contract env)) (\<lambda>pending.
         and_then (gpd_balance deps (gpc_astro_token config) (env_contract env)) (\<lambda>astro_amount.
         and_then (target_astro u pool) (\<lambda>target.
         and_then (u128_add (min (saturating_sub astro_amount (gpr_reconciled reward)) target) (pt_pending pending)) (\<lambda>net.
         and_then (reconcile_astro_reward deps config u pool reward net) (\<lambda>(pool1, _).
         let on_proxy = (case pt_pending_on_proxy pending of
               Some tokens \<Rightarrow> map (\<lambda>a. (gpd_asset_str deps (as_info a), as_amount a)) tokens | None \<Rightarrow> []) in
         and_then (try_fold (pending_of_token deps env st (gpp_prev_reward_debt_proxy pool) on_proxy) pool1 (gu_reward_debt_proxy u)) (\<lambda>pool2.
         and_then (reconcile_to_user_info deps pool2 user_info) (\<lambda>user_info.
         let pending = gpu_pending_rewards user_info;
             others = filter (\<lambda>p. fst p \<noteq> gpc_astro_token config) pending in
         Ok \<lparr>pt_pending = collected pending (gpc_astro_token config),
           pt_pending_on_proxy = (if others = [] then None else Some (map (\<lambda>(t, a). token_asset t a) others))\<rparr>)))))))))))"

definition gp_query_deposit :: "gp_deps \<Rightarrow> env \<Rightarrow> string \<Rightarrow> string \<Rightarrow> gp_state \<Rightarrow> (u128, std_error) result" where
  "gp_query_deposit deps env lp_token user st =
     and_then (gpd_addr_validate deps lp_token) (\<lambda>lp.
     and_then (gpd_addr_validate deps user) (\<lambda>user.
     and_then (load_item (gpx_config st)) (\<lambda>config.
     let pool = unwrap_or (get (gpx_pools st) lp) new_pool; user_info = unwrap_or (get (gpx_users st) (lp, user)) (create_user pool) in
     and_then (gpd_deposit deps (gpc_generator config) lp (env_contract env)) (\<lambda>total_bond.
     pool_bond_amount pool total_bond (gpu_bond_share user_info)))))"

definition gp_query_pool_info :: "gp_deps \<Rightarrow> string \<Rightarrow> gp_state \<Rightarrow> (gp_pool, std_error) result" where
  "gp_query_pool_info deps lp_token st = and_then (gpd_addr_validate deps lp_token) (\<lambda>lp. load_item (get (gpx_pools st) lp))"

text \<open>The answers about a user and a staker: what is stored, brought up to date, with the amount the shares stand for.\<close>

definition gp_query_user_info :: "gp_deps \<Rightarrow> env \<Rightarrow> string \<Rightarrow> string \<Rightarrow> gp_state \<Rightarrow> (gp_user \<times> u128, std_error) result" where
  "gp_query_user_info deps env lp_token user st =
     and_then (gpd_addr_validate deps lp_token) (\<lambda>lp.
     and_then (gpd_addr_validate deps user) (\<lambda>user.
     and_then (load_item (get (gpx_pools st) lp)) (\<lambda>pool.
     and_then (reconcile_to_user_info deps pool (unwrap_or (get (gpx_users st) (lp, user)) (create_user pool))) (\<lambda>user_info.
     and_then (load_item (gpx_config st)) (\<lambda>config.
     and_then (gpd_deposit deps (gpc_generator config) lp (env_contract env)) (\<lambda>total_bond.
     and_then (pool_bond_amount pool total_bond (gpu_bond_share user_info)) (\<lambda>amount. Ok (user_info, amount))))))))"

definition gp_query_reward_info :: "gp_deps \<Rightarrow> string \<Rightarrow> gp_state \<Rightarrow> (gp_reward, std_error) result" where
  "gp_query_reward_info deps token st = and_then (gpd_addr_validate deps token) (\<lambda>t. load_item (get (gpx_rewards st) t))"

definition gp_query_staker_info :: "gp_deps \<Rightarrow> env \<Rightarrow> string \<Rightarrow> gp_state \<Rightarrow> (gp_staker \<times> u128, std_error) result" where
  "gp_query_staker_info deps env user st =
     and_then (gpd_addr_validate deps user) (\<lambda>user.
     and_then (load_item (gpx_config st)) (\<lambda>config.
     and_then (load_item (get (gpx_rewards st) (gpc_astro_token config))) (\<lambda>reward.
     and_then (load_item (gpx_staking st)) (\<lambda>s.
     let k = unwrap_or (get (gpx_stakers st) user) (create_staker s) in
     and_then (reconcile_staker_income reward s) (\<lambda>(_, s).
     and_then (reconcile_to_staker_info s k) (\<lambda>k.
     and_then (update_staker s k) (\<lambda>k.
     and_then (query_lock deps (gpc_astro_gov config) (env_contract env)) (\<lambda>lock.
     and_then (staking_bond_amount s (gl_amount lock) (gpk_bond_share k)) (\<lambda>amount. Ok (k, amount))))))))))"

datatype gp_query_msg =
    GpConfigQuery
  | GpPoolInfoQuery string
  | GpUserInfoQuery string string
  | GpRewardInfoQuery string
  | GpPendingTokenQuery string string
  | GpDepositQuery string string
  | GpStakingStateQuery
  | GpStakerInfoQuery string

datatype gp_answer =
    GpConfigAnswer gp_config
  | GpPoolAnswer gp_pool
  | GpUserAnswer gp_user u128
  | GpRewardAnswer gp_reward
  | GpPendingAnswer pending_tokens
  | GpAmountAnswer u128
  | GpStakingAnswer gp_staking
  | GpStakerAnswer gp_staker u128

fun gp_query :: "gp_deps \<Rightarrow> env \<Rightarrow> gp_query_msg \<Rightarrow> gp_state \<Rightarrow> (gp_answer, std_error) result" where
  "gp_query deps env GpConfigQuery st = and_then (load_item (gpx_config st)) (\<lambda>c. Ok (GpConfigAnswer c))"
| "gp_query deps env (GpPoolInfoQuery lp) st = and_then (gp_query_pool_info deps lp st) (\<lambda>p. Ok (GpPoolAnswer p))"
| "gp_query deps env (GpUserInfoQuery lp user) st = and_then (gp_query_user_info deps env lp user st) (\<lambda>(u, a). Ok (GpUserAnswer u a))"
| "gp_query deps env (GpRewardInfoQuery token) st = and_then (gp_query_reward_info deps token st) (\<lambda>r. Ok (GpRewardAnswer r))"
| "gp_query deps env (GpPendingTokenQuery lp user) st = and_then (gp_query_pending deps env lp user st) (\<lambda>p. Ok (GpPendingAnswer p))"
| "gp_query deps env (GpDepositQuery lp user) st = and_then (gp_query_deposit deps env lp user st) (\<lambda>a. Ok (GpAmountAnswer a))"
| "gp_query deps env GpStakingStateQuery st = and_then (load_item (gpx_staking st)) (\<lambda>s. Ok (GpStakingAnswer s))"
| "gp_query deps env (GpStakerInfoQuery user) st = and_then (gp_query_staker_info deps env user st) (\<lambda>(k, a). Ok (GpStakerAnswer k a))"

end
