(* ===== verification/GenProxyBooks.thy ===== *)
theory GenProxyBooks
  imports GenProxy
begin

text \<open>
  The books of the generator proxy: an invariant of every message. It says for every token that what the contract accounts for covers what it
  owes to depositors, stakers and the fee collector, and that the sums of the shares and of the unstaked xASTRO are the totals it stores.
\<close>

section \<open>Restricted vectors\<close>

text \<open>
  The documented behaviour of \<open>RestrictedVector::update\<close>: it adds to the entry of the key, or appends one, and keeps the keys distinct.
\<close>

definition adds :: "((addr \<times> nat) list \<Rightarrow> addr \<Rightarrow> nat \<Rightarrow> ((addr \<times> nat) list, std_error) result) \<Rightarrow> bool" where
  "adds f \<longleftrightarrow> (\<forall>v k x v'. f v k x = Ok v' \<longrightarrow> distinct (map fst v) \<longrightarrow>
     distinct (map fst v') \<and> (\<forall>t. collected v' t = collected v t + (if t = k then x else 0)))"

definition adds_up :: "gp_deps \<Rightarrow> bool" where
  "adds_up deps \<longleftrightarrow> adds (gpd_add_amount deps) \<and> adds (gpd_add_index deps)"

lemma addsD: "adds f \<Longrightarrow> f v k x = Ok v' \<Longrightarrow> distinct (map fst v) \<Longrightarrow> distinct (map fst v')"
  "adds f \<Longrightarrow> f v k x = Ok v' \<Longrightarrow> distinct (map fst v) \<Longrightarrow> collected v' t = collected v t + (if t = k then x else 0)"
  unfolding adds_def by blast+

lemma collected_Nil [simp]: "collected [] t = 0" by (simp add: collected_def)

lemma collected_map_of: "distinct (map fst v) \<Longrightarrow> collected v t = (case map_of v t of Some x \<Rightarrow> x | None \<Rightarrow> 0)"
proof -
  assume "distinct (map fst v)"
  then have "map_of (rev v) = map_of v" by (intro map_of_inject_set [THEN iffD2]) (simp_all add: rev_map [symmetric])
  then show ?thesis by (simp add: collected_def unwrap_or_def)
qed

lemma collected_Cons: "distinct (map fst ((k, x) # v)) \<Longrightarrow> collected ((k, x) # v) t = (if t = k then x else collected v t)"
  by (simp add: collected_map_of)

lemma collected_other: "t \<notin> fst ` set v \<Longrightarrow> collected v t = 0"
  by (auto simp: collected_def unwrap_or_def split: option.split dest!: map_of_SomeD) force

section \<open>Indexes and credits\<close>

text \<open>What is accounted for and not yet set aside as a fee or as income of the stakers, in the units of the decimals.\<close>

definition credit :: "(addr, gp_reward) store \<Rightarrow> addr \<Rightarrow> int" where
  "credit rewards t = (let r = reward_of rewards t in int (gpr_reconciled r) - int (gpr_fee r) - int (gpr_staker_income r))"

lemma credit_put: "credit (put k r rewards) t =
    (if t = k then int (gpr_reconciled r) - int (gpr_fee r) - int (gpr_staker_income r) else credit rewards t)"
  by (simp add: credit_def reward_of_def Let_def store_simps)

text \<open>
  Rewards are shared out when the indexes of a pool grow by no more, times the shares of the pool, than the credits.
\<close>

definition pool_grows :: "nat \<Rightarrow> sharing \<Rightarrow> sharing \<Rightarrow> bool" where
  "pool_grows shares s s' \<longleftrightarrow> gpp_total_bond_share (fst s) = shares \<and> gpp_total_bond_share (fst s') = shares \<and>
     distinct (map fst (gpp_reward_indexes (fst s'))) \<and>
     (\<exists>grown :: addr \<Rightarrow> nat. \<forall>t. collected (gpp_reward_indexes (fst s')) t = collected (gpp_reward_indexes (fst s)) t + grown t \<and>
       int (grown t * shares) \<le> int DEC_ONE * (credit (snd s') t - credit (snd s) t))"

lemma grows_refl: "distinct (map fst (gpp_reward_indexes (fst s))) \<Longrightarrow> pool_grows (gpp_total_bond_share (fst s)) s s"
  by (auto simp: pool_grows_def intro!: exI [of _ "\<lambda>_. 0"])

lemma grows_trans:
  assumes "pool_grows n s1 s2" and "pool_grows n s2 s3"
  shows "pool_grows n s1 s3"
proof -
  obtain g h where g: "\<And>t. collected (gpp_reward_indexes (fst s2)) t = collected (gpp_reward_indexes (fst s1)) t + g t"
      "\<And>t. int (g t * n) \<le> int DEC_ONE * (credit (snd s2) t - credit (snd s1) t)"
    and h: "\<And>t. collected (gpp_reward_indexes (fst s3)) t = collected (gpp_reward_indexes (fst s2)) t + h t"
      "\<And>t. int (h t * n) \<le> int DEC_ONE * (credit (snd s3) t - credit (snd s2) t)"
    using assms unfolding pool_grows_def by blast
  have "int ((g t + h t) * n) \<le> int DEC_ONE * (credit (snd s3) t - credit (snd s1) t)" for t
  proof -
    have "int ((g t + h t) * n) = int (g t * n) + int (h t * n)" by (simp add: distrib_right)
    also have "\<dots> \<le> int DEC_ONE * (credit (snd s2) t - credit (snd s1) t) + int DEC_ONE * (credit (snd s3) t - credit (snd s2) t)"
      using g(2) h(2) by (rule add_mono)
    also have "\<dots> = int DEC_ONE * (credit (snd s3) t - credit (snd s1) t)" by (simp add: algebra_simps)
    finally show ?thesis .
  qed
  then have "\<exists>grown :: addr \<Rightarrow> nat. \<forall>t. collected (gpp_reward_indexes (fst s3)) t = collected (gpp_reward_indexes (fst s1)) t + grown t \<and>
      int (grown t * n) \<le> int DEC_ONE * (credit (snd s3) t - credit (snd s1) t)"
    using g(1) h(1) by (intro exI [of _ "\<lambda>t. g t + h t"]) simp
  then show ?thesis using assms by (auto simp: pool_grows_def)
qed

text \<open>An index grows by the amount per share, rounded down.\<close>

lemma index_grows:
  assumes "adds_up deps" and "gpd_add_index deps (gpp_reward_indexes pool) k d = Ok ix" and "distinct (map fst (gpp_reward_indexes pool))"
    and "dec_from_ratio amount (gpp_total_bond_share pool) = (Ok d :: (decimal, std_error) result)"
    and "credit (put k r rewards) k = credit rewards k + int amount"
  shows "pool_grows (gpp_total_bond_share pool) (pool, rewards) (pool\<lparr>gpp_reward_indexes := ix\<rparr>, put k r rewards)"
proof -
  have "d = amount * DEC_ONE div gpp_total_bond_share pool" using assms(4) by (simp add: ok_simps)
  then have "d * gpp_total_bond_share pool \<le> amount * DEC_ONE" by (simp add: div_times_less_eq_dividend)
  then have "int (d * gpp_total_bond_share pool) \<le> int DEC_ONE * int amount" by (metis mult.commute of_nat_mono of_nat_mult)
  with assms show ?thesis
    by (auto simp: pool_grows_def adds_up_def addsD credit_put intro!: exI [of _ "\<lambda>t. if t = k then d else 0"])
qed

lemma share_token_grows:
  assumes "share_token deps k net (pool, rewards) = Ok s'" and "adds_up deps" and "distinct (map fst (gpp_reward_indexes pool))"
  shows "pool_grows (gpp_total_bond_share pool) (pool, rewards) s'"
proof (cases "net = 0")
  case True
  then show ?thesis using assms grows_refl [of "(pool, rewards)"] by (auto simp: share_token_def)
next
  case False
  then obtain d ix where d: "dec_from_ratio net (gpp_total_bond_share pool) = (Ok d :: (decimal, std_error) result)"
      "gpd_add_index deps (gpp_reward_indexes pool) k d = Ok ix"
    and s': "s' = (pool\<lparr>gpp_reward_indexes := ix\<rparr>, put k ((reward_of rewards k)\<lparr>gpr_reconciled := gpr_reconciled (reward_of rewards k) + net\<rparr>) rewards)"
    using assms(1) by (auto simp: share_token_def reconcile_token_reward_def and_then_Ok num_Ok(6))
  show ?thesis unfolding s'
    by (rule index_grows [OF assms(2) d(2) assms(3) d(1)]) (simp add: credit_put, simp add: credit_def Let_def)
qed

lemma astro_outcome:
  assumes "reconcile_astro_reward deps config u pool reward net = Ok (pool', reward')"
  obtains to_lp fee inc d ix where "dec_from_ratio to_lp (gpp_total_bond_share pool) = (Ok d :: (decimal, std_error) result)"
    and "gpd_add_index deps (gpp_reward_indexes pool) (gpc_astro_token config) d = Ok ix" and "net = to_lp + fee + inc"
    and "pool' = pool\<lparr>gpp_reward_indexes := ix\<rparr>" and "gpr_reconciled reward' = gpr_reconciled reward + net"
    and "gpr_fee reward' = gpr_fee reward + fee" and "gpr_staker_income reward' = gpr_staker_income reward + inc"
proof -
  show ?thesis using assms [unfolded reconcile_astro_reward_def and_then_Ok]
  proof (elim exE conjE, goal_cases)
    case (1 base based boosted fee net_boosted inc rest to_lp d fees income reconciled ix)
    have "net = to_lp + fee + inc" using 1(3,5,7,8) unfolding num_Ok by arith
    moreover have "pool' = pool\<lparr>gpp_reward_indexes := ix\<rparr>" and r: "reward' = \<lparr>gpr_reconciled = reconciled, gpr_fee = fees, gpr_staker_income = income\<rparr>"
      using 1(14) by simp_all
    moreover have "reconciled = gpr_reconciled reward + net" "fees = gpr_fee reward + fee" "income = gpr_staker_income reward + inc"
      using 1(10-12) by (simp_all add: num_Ok)
    ultimately show ?case by (intro that [OF 1(9,13)]) simp_all
  qed
qed

lemma share_astro_grows:
  assumes "share_astro deps config u net (pool, rewards) = Ok s'" and "adds_up deps" and "distinct (map fst (gpp_reward_indexes pool))"
  shows "pool_grows (gpp_total_bond_share pool) (pool, rewards) s'"
proof (cases "net = 0")
  case True
  then show ?thesis using assms grows_refl [of "(pool, rewards)"] by (auto simp: share_astro_def)
next
  case False
  obtain pool' reward' where r: "reconcile_astro_reward deps config u pool (reward_of rewards (gpc_astro_token config)) net = Ok (pool', reward')"
    and s': "s' = (pool', put (gpc_astro_token config) reward' rewards)"
    using assms(1) False by (auto simp: share_astro_def and_then_Ok)
  obtain to_lp fee inc d ix where d: "dec_from_ratio to_lp (gpp_total_bond_share pool) = (Ok d :: (decimal, std_error) result)"
      "gpd_add_index deps (gpp_reward_indexes pool) (gpc_astro_token config) d = Ok ix" and split: "net = to_lp + fee + inc"
    and pool': "pool' = pool\<lparr>gpp_reward_indexes := ix\<rparr>" and reward':
      "gpr_reconciled reward' = gpr_reconciled (reward_of rewards (gpc_astro_token config)) + net"
      "gpr_fee reward' = gpr_fee (reward_of rewards (gpc_astro_token config)) + fee"
      "gpr_staker_income reward' = gpr_staker_income (reward_of rewards (gpc_astro_token config)) + inc"
    by (rule astro_outcome [OF r])
  have "credit (put (gpc_astro_token config) reward' rewards) (gpc_astro_token config) = credit rewards (gpc_astro_token config) + int to_lp"
    by (simp add: credit_put) (simp add: credit_def Let_def reward' split)
  from index_grows [OF assms(2) d(2) assms(3) d(1) this] show ?thesis by (simp add: s' pool')
qed

lemma grows_distinct: "pool_grows n s s' \<Longrightarrow> distinct (map fst (gpp_reward_indexes (fst s')))"
  by (simp add: pool_grows_def)

lemma grows_shares: "pool_grows n s s' \<Longrightarrow> gpp_total_bond_share (fst s') = n"
  by (simp add: pool_grows_def)

lemma share_more:
  assumes "pool_grows n s0 s" and "share_token deps k net s = Ok s'" and "adds_up deps"
  shows "pool_grows n s0 s'"
proof -
  obtain pool rewards where s: "s = (pool, rewards)" by force
  have "pool_grows (gpp_total_bond_share pool) (pool, rewards) s'"
    using assms(2) grows_distinct [OF assms(1)] unfolding s by (intro share_token_grows [OF _ assms(3)]) simp_all
  then have "pool_grows n s s'" using grows_shares [OF assms(1)] unfolding s by simp
  then show ?thesis by (rule grows_trans [OF assms(1)])
qed

lemma shared_by_others:
  assumes "try_fold (share_proxy_reward deps env prev) (s, bs) us = Ok s'" and "pool_grows n s0 s" and "adds_up deps"
  shows "pool_grows n s0 (fst s')"
proof (rule try_fold_invariant [OF assms(1), where P = "\<lambda>x. pool_grows n s0 (fst x)"])
  show "pool_grows n s0 (fst (s, bs))" using assms(2) by simp
next
  fix x u x'
  assume "pool_grows n s0 (fst x)" and "share_proxy_reward deps env prev x u = Ok x'"
  then show "pool_grows n s0 (fst x')"
    by (cases x; cases u) (auto simp: share_proxy_reward_def and_then_Ok Let_def intro: share_more [OF _ _ assms(3)])
qed

lemma shared_after_claim:
  assumes "try_fold (share_claimed deps env prev) s us = Ok s'" and "pool_grows n s0 s" and "adds_up deps"
  shows "pool_grows n s0 s'"
proof (rule try_fold_invariant [OF assms(1), where P = "pool_grows n s0"])
  show "pool_grows n s0 s" by (rule assms(2))
next
  fix x u x'
  assume "pool_grows n s0 x" and "share_claimed deps env prev x u = Ok x'"
  then show "pool_grows n s0 x'"
    by (cases u) (auto simp: share_claimed_def and_then_Ok map_err_Ok split: option.splits intro: share_more [OF _ _ assms(3)])
qed

section \<open>What is owed to depositors\<close>

definition pool_index :: "(addr, gp_pool) store \<Rightarrow> addr \<Rightarrow> addr \<Rightarrow> decimal" where
  "pool_index pools lp t = (case get pools lp of Some pool \<Rightarrow> collected (gpp_reward_indexes pool) t | None \<Rightarrow> 0)"

definition user_owed :: "(addr, gp_pool) store \<Rightarrow> addr \<Rightarrow> (addr \<times> addr) \<times> gp_user \<Rightarrow> nat" where
  "user_owed pools t = (\<lambda>((lp, a), u). DEC_ONE * collected (gpu_pending_rewards u) t +
     (pool_index pools lp t - collected (gpu_reward_indexes u) t) * gpu_bond_share u)"

definition users_owed :: "(addr, gp_pool) store \<Rightarrow> (addr \<times> addr, gp_user) store \<Rightarrow> addr \<Rightarrow> nat" where
  "users_owed pools users t = sum_list (map (user_owed pools t) (entries users))"

definition gp_shares_in :: "(addr \<times> addr, gp_user) store \<Rightarrow> addr \<Rightarrow> nat" where
  "gp_shares_in users lp = sum_list (map (\<lambda>(k, u). if fst k = lp then gpu_bond_share u else 0) (entries users))"

text \<open>The users fit the pools: no index is ahead of its pool, and the shares of the users are those of the pool.\<close>

definition users_fit :: "(addr, gp_pool) store \<Rightarrow> (addr \<times> addr, gp_user) store \<Rightarrow> bool" where
  "users_fit pools users \<longleftrightarrow> wf_store users \<and>
     (\<forall>lp a u t. get users (lp, a) = Some u \<longrightarrow> collected (gpu_reward_indexes u) t \<le> pool_index pools lp t) \<and>
     (\<forall>lp a u. get users (lp, a) = Some u \<longrightarrow> distinct (map fst (gpu_pending_rewards u))) \<and>
     (\<forall>lp. gp_shares_in users lp = (case get pools lp of Some pool \<Rightarrow> gpp_total_bond_share pool | None \<Rightarrow> 0)) \<and>
     (\<forall>lp pool. get pools lp = Some pool \<longrightarrow> distinct (map fst (gpp_reward_indexes pool)))"

text \<open>When the indexes of a pool grow, the users of the pool are owed its shares times the growth.\<close>

lemma owed_grows:
  assumes fit: "users_fit pools users" and pool: "get pools lp = Some pool"
    and idx: "collected (gpp_reward_indexes pool') t = collected (gpp_reward_indexes pool) t + g"
  shows "users_owed (put lp pool' pools) users t = users_owed pools users t + g * gpp_total_bond_share pool"
proof -
  have one: "user_owed (put lp pool' pools) t e = user_owed pools t e + g * (case e of (k, u) \<Rightarrow> if fst k = lp then gpu_bond_share u else 0)"
    if "e \<in> set (entries users)" for e
  proof -
    obtain l a u where e: "e = ((l, a), u)" by (cases e) auto
    have wf: "wf_store users" using fit by (simp add: users_fit_def)
    have "get users (l, a) = Some u" using that om.in_entries [OF wf] unfolding e by simp
    then have le: "collected (gpu_reward_indexes u) t \<le> pool_index pools l t" using fit unfolding users_fit_def by blast
    show ?thesis
    proof (cases "l = lp")
      case True
      with le pool have "collected (gpp_reward_indexes pool') t - collected (gpu_reward_indexes u) t =
          (collected (gpp_reward_indexes pool) t - collected (gpu_reward_indexes u) t) + g" by (simp add: idx pool_index_def)
      with True pool show ?thesis by (simp add: e user_owed_def pool_index_def store_simps distrib_right)
    qed (simp add: e user_owed_def pool_index_def store_simps)
  qed
  have "users_owed (put lp pool' pools) users t =
      sum_list (map (\<lambda>e. user_owed pools t e + g * (case e of (k, u) \<Rightarrow> if fst k = lp then gpu_bond_share u else 0)) (entries users))"
    unfolding users_owed_def using one by (intro arg_cong [where f = sum_list] map_cong) auto
  also have "\<dots> = users_owed pools users t + g * gp_shares_in users lp"
    by (simp add: users_owed_def gp_shares_in_def sum_list_addf sum_list_const_mult)
  also have "gp_shares_in users lp = gpp_total_bond_share pool" using fit pool by (simp add: users_fit_def)
  finally show ?thesis .
qed

lemma fit_grows:
  assumes fit: "users_fit pools users" and pool: "get pools lp = Some pool"
    and idx: "\<And>t. collected (gpp_reward_indexes pool) t \<le> collected (gpp_reward_indexes pool') t"
    and rest: "gpp_total_bond_share pool' = gpp_total_bond_share pool" "distinct (map fst (gpp_reward_indexes pool'))"
  shows "users_fit (put lp pool' pools) users"
proof -
  have "pool_index pools l t \<le> pool_index (put lp pool' pools) l t" for l t using pool idx by (simp add: pool_index_def store_simps)
  then have "collected (gpu_reward_indexes u) t \<le> pool_index (put lp pool' pools) l t" if "get users (l, a) = Some u" for l a u t
    using fit that unfolding users_fit_def by (meson le_trans)
  with fit pool rest show ?thesis by (simp add: users_fit_def store_simps)
qed

text \<open>A user brought up to date is owed no more than before, and has the indexes of the pool.\<close>

lemma pending_added:
  assumes "try_fold (add_pending deps user) p xs = Ok p'" and "adds (gpd_add_amount deps)" and "distinct (map fst p)" and "distinct (map fst xs)"
  shows "distinct (map fst p') \<and> (\<forall>t. DEC_ONE * collected p' t \<le>
    DEC_ONE * collected p t + (if t \<in> fst ` set xs then (collected xs t - collected (gpu_reward_indexes user) t) * gpu_bond_share user else 0))"
  using assms
proof (induction xs arbitrary: p)
  case Nil
  then show ?case by simp
next
  case (Cons x xs)
  obtain k i where x: "x = (k, i)" by force
  obtain amount p1 where a: "amount = gpu_bond_share user * (i - collected (gpu_reward_indexes user) k) div DEC_ONE"
    and add: "gpd_add_amount deps p k amount = Ok p1" and rest: "try_fold (add_pending deps user) p1 xs = Ok p'"
  proof -
    obtain p1 where one: "add_pending deps user p (k, i) = Ok p1" and "try_fold (add_pending deps user) p1 xs = Ok p'"
      using Cons.prems(1) unfolding x try_fold.simps and_then_Ok by blast
    moreover have "gpd_add_amount deps p k (gpu_bond_share user * (i - collected (gpu_reward_indexes user) k) div DEC_ONE) = Ok p1"
      using one by (auto simp: add_pending_def and_then_Ok num_Ok)
    ultimately show thesis using that by blast
  qed
  have p1: "distinct (map fst p1)" "\<And>t. collected p1 t = collected p t + (if t = k then amount else 0)"
    using addsD [OF Cons.prems(2) add Cons.prems(3)] by blast+
  have "DEC_ONE * amount \<le> gpu_bond_share user * (i - collected (gpu_reward_indexes user) k)"
    unfolding a by (rule times_div_less_eq_dividend)
  moreover have new: "k \<notin> fst ` set xs" and d: "distinct (map fst xs)" using Cons.prems(4) by (auto simp: x)
  moreover note Cons.IH [OF rest Cons.prems(2) p1(1) d]
  ultimately have k: "DEC_ONE * amount \<le> (i - collected (gpu_reward_indexes user) k) * gpu_bond_share user"
    and d': "distinct (map fst p')" and le: "\<forall>t. DEC_ONE * collected p' t \<le> DEC_ONE * collected p1 t +
      (if t \<in> fst ` set xs then (collected xs t - collected (gpu_reward_indexes user) t) * gpu_bond_share user else 0)"
    by (simp_all add: mult.commute)
  have "DEC_ONE * collected p' t \<le> DEC_ONE * collected p t +
      (if t \<in> fst ` set (x # xs) then (collected (x # xs) t - collected (gpu_reward_indexes user) t) * gpu_bond_share user else 0)" for t
  proof (cases "t = k")
    case True
    then show ?thesis using spec [OF le, of t] k new collected_Cons [of k i xs k] d by (simp add: x p1(2) distrib_left)
  next
    case False
    then show ?thesis using spec [OF le, of t] collected_Cons [of k i xs t] new d
      by (cases "t \<in> fst ` set xs") (simp_all add: x p1(2))
  qed
  with d' show ?case by blast
qed

lemma up_to_date:
  assumes "reconcile_to_user_info deps pool u = Ok u'" and "adds_up deps" and "distinct (map fst (gpp_reward_indexes pool))"
    and "distinct (map fst (gpu_pending_rewards u))"
  shows "gpu_bond_share u' = gpu_bond_share u" and "gpu_reward_indexes u' = gpp_reward_indexes pool"
    and "distinct (map fst (gpu_pending_rewards u'))"
    and "DEC_ONE * collected (gpu_pending_rewards u') t \<le> DEC_ONE * collected (gpu_pending_rewards u) t +
      (collected (gpp_reward_indexes pool) t - collected (gpu_reward_indexes u) t) * gpu_bond_share u"
proof -
  obtain p where p: "try_fold (add_pending deps u) (gpu_pending_rewards u) (gpp_reward_indexes pool) = Ok p"
    and u': "u' = u\<lparr>gpu_pending_rewards := p, gpu_reward_indexes := gpp_reward_indexes pool\<rparr>"
    using assms(1) by (auto simp: reconcile_to_user_info_def and_then_Ok)
  have a: "adds (gpd_add_amount deps)" using assms(2) by (simp add: adds_up_def)
  note all = pending_added [OF p a assms(4,3)]
  show "gpu_bond_share u' = gpu_bond_share u" "gpu_reward_indexes u' = gpp_reward_indexes pool" "distinct (map fst (gpu_pending_rewards u'))"
    using all by (simp_all add: u')
  have "DEC_ONE * collected p t \<le> DEC_ONE * collected (gpu_pending_rewards u) t +
      (if t \<in> fst ` set (gpp_reward_indexes pool) then (collected (gpp_reward_indexes pool) t - collected (gpu_reward_indexes u) t) * gpu_bond_share u else 0)"
    using all by blast
  then show "DEC_ONE * collected (gpu_pending_rewards u') t \<le> DEC_ONE * collected (gpu_pending_rewards u) t +
      (collected (gpp_reward_indexes pool) t - collected (gpu_reward_indexes u) t) * gpu_bond_share u"
    by (cases "t \<in> fst ` set (gpp_reward_indexes pool)") (simp_all add: u' trans_le_add1)
qed

text \<open>What the entry of a user holds, nothing without one.\<close>

definition owed_before :: "(addr, gp_pool) store \<Rightarrow> (addr \<times> addr, gp_user) store \<Rightarrow> addr \<times> addr \<Rightarrow> addr \<Rightarrow> nat" where
  "owed_before pools users k t = (case get users k of Some u \<Rightarrow> user_owed pools t (k, u) | None \<Rightarrow> 0)"

definition share_before :: "(addr \<times> addr, gp_user) store \<Rightarrow> addr \<times> addr \<Rightarrow> nat" where
  "share_before users k = (case get users k of Some u \<Rightarrow> gpu_bond_share u | None \<Rightarrow> 0)"

definition pool_share :: "(addr, gp_pool) store \<Rightarrow> addr \<Rightarrow> nat" where
  "pool_share pools lp = (case get pools lp of Some pool \<Rightarrow> gpp_total_bond_share pool | None \<Rightarrow> 0)"

text \<open>Writing a user that is up to date with his pool, whose shares change by the same amount, while something is paid.\<close>

lemma user_written:
  assumes fit: "users_fit pools users"
    and pools': "\<And>l. get pools' l = (if l = lp then Some pool else get pools l)"
    and idx: "\<And>t. collected (gpp_reward_indexes pool) t = pool_index pools lp t" "distinct (map fst (gpp_reward_indexes pool))"
    and u: "gpu_reward_indexes u = gpp_reward_indexes pool" "distinct (map fst (gpu_pending_rewards u))"
    and shares: "gpp_total_bond_share pool + share_before users (lp, a) = pool_share pools lp + gpu_bond_share u"
    and pays: "\<And>t. DEC_ONE * collected (gpu_pending_rewards u) t + DEC_ONE * paid t \<le> owed_before pools users (lp, a) t"
  shows "users_fit pools' (put (lp, a) u users)"
    and "users_owed pools' (put (lp, a) u users) t + DEC_ONE * paid t \<le> users_owed pools users t"
proof -
  have wf: "wf_store users" using fit by (simp add: users_fit_def)
  have same: "pool_index pools' l t = pool_index pools l t" for l t
    using pools' idx(1) by (cases "l = lp") (simp_all add: pool_index_def)
  then have uo: "user_owed pools' t = user_owed pools t" for t by (simp add: user_owed_def)
  have moved: "gp_shares_in (put (lp, a) u users) l + (if lp = l then share_before users (lp, a) else 0) =
      gp_shares_in users l + (if lp = l then gpu_bond_share u else 0)" for l
    using om.total_put [OF wf, of "\<lambda>(k, u). if fst k = l then gpu_bond_share u else 0" "(lp, a)" u]
    by (auto simp: gp_shares_in_def share_before_def split: option.splits)
  have before: "gp_shares_in users l = pool_share pools l" for l using fit by (simp add: users_fit_def pool_share_def)
  have after: "pool_share pools' l = (if l = lp then gpp_total_bond_share pool else pool_share pools l)" for l
    by (simp add: pool_share_def pools')
  have "gp_shares_in (put (lp, a) u users) l = pool_share pools' l" for l
  proof (cases "l = lp")
    case True
    with moved [of l] before [of l] shares show ?thesis by (simp add: after)
  next
    case False
    with moved [of l] before [of l] show ?thesis by (simp add: after)
  qed
  moreover have "collected (gpu_reward_indexes v) t \<le> pool_index pools' l t" if "get (put (lp, a) u users) (l, b) = Some v" for l b v t
    using that fit idx(1) u(1) by (auto simp: store_simps same users_fit_def split: if_splits)
  moreover have "distinct (map fst (gpu_pending_rewards v))" if "get (put (lp, a) u users) (l, b) = Some v" for l b v
    using that fit u(2) by (auto simp: store_simps users_fit_def split: if_splits)
  moreover have "distinct (map fst (gpp_reward_indexes p))" if "get pools' l = Some p" for l p
    using that fit idx(2) pools' by (auto simp: users_fit_def split: if_splits)
  ultimately show "users_fit pools' (put (lp, a) u users)" using wf by (simp add: users_fit_def pool_share_def)
  have "user_owed pools t ((lp, a), u) = DEC_ONE * collected (gpu_pending_rewards u) t" for t
    by (simp add: user_owed_def u(1) idx(1))
  then have "users_owed pools' (put (lp, a) u users) t + owed_before pools users (lp, a) t =
      users_owed pools users t + DEC_ONE * collected (gpu_pending_rewards u) t"
    using om.total_put [OF wf, of "user_owed pools t" "(lp, a)" u] by (simp add: users_owed_def uo owed_before_def split: option.splits)
  with pays [of t] show "users_owed pools' (put (lp, a) u users) t + DEC_ONE * paid t \<le> users_owed pools users t" by linarith
qed

section \<open>What is owed to stakers\<close>

definition staker_owed :: "gp_staking \<Rightarrow> addr \<times> gp_staker \<Rightarrow> nat" where
  "staker_owed s = (\<lambda>(a, k). DEC_ONE * gpk_pending_reward k + (gps_reward_index s - gpk_reward_index k) * gpk_bond_share k)"

definition stakers_owed :: "gp_staking \<Rightarrow> (addr, gp_staker) store \<Rightarrow> nat" where
  "stakers_owed s stakers = sum_list (map (staker_owed s) (entries stakers))"

text \<open>The xASTRO of a staker outside the lock, and the part of it that the relocks up to now have freed.\<close>

definition leaving :: "gp_staker \<Rightarrow> nat" where
  "leaving k = gpk_unstaking k + gpk_unstaked k"

definition freed :: "u64 \<Rightarrow> gp_staker \<Rightarrow> nat" where
  "freed p k = gpk_unstaked k + (if p > gpk_unstaking_period k then gpk_unstaking k else 0)"

definition staker_sum :: "(gp_staker \<Rightarrow> nat) \<Rightarrow> (addr, gp_staker) store \<Rightarrow> nat" where
  "staker_sum f stakers = sum_list (map (\<lambda>e. f (snd e)) (entries stakers))"

definition stakers_fit :: "gp_staking \<Rightarrow> (addr, gp_staker) store \<Rightarrow> bool" where
  "stakers_fit s stakers \<longleftrightarrow> wf_store stakers \<and> (\<forall>a k. get stakers a = Some k \<longrightarrow> gpk_reward_index k \<le> gps_reward_index s) \<and>
     staker_sum gpk_bond_share stakers = gps_total_bond_share s \<and>
     staker_sum leaving stakers = gps_total_unstaking s + gps_total_unstaked s \<and>
     staker_sum (freed (gps_unstaking_period s)) stakers \<le> gps_total_unstaked s \<and> gps_total_unstaked s \<le> U128_MAX"

definition staker_at :: "(gp_staker \<Rightarrow> nat) \<Rightarrow> (addr, gp_staker) store \<Rightarrow> addr \<Rightarrow> nat" where
  "staker_at f stakers a = (case get stakers a of Some k \<Rightarrow> f k | None \<Rightarrow> 0)"

lemma staker_sum_put:
  "wf_store stakers \<Longrightarrow> staker_sum f (put a k stakers) + staker_at f stakers a = staker_sum f stakers + f k"
  using om.total_put [of stakers "\<lambda>e. f (snd e)" a k] by (simp add: staker_sum_def staker_at_def split: option.splits)

lemma staker_sum_ge: "wf_store stakers \<Longrightarrow> staker_at f stakers a \<le> staker_sum f stakers"
  using om.member_le_total [of stakers a _ "\<lambda>e. f (snd e)"] by (auto simp: staker_sum_def staker_at_def split: option.splits)

text \<open>The income of the stakers is shared out by their index.\<close>

definition staking_grows :: "gp_staking \<Rightarrow> gp_staking \<Rightarrow> nat \<Rightarrow> bool" where
  "staking_grows s s' g \<longleftrightarrow> gps_reward_index s' = gps_reward_index s + g \<and> gps_total_bond_share s' = gps_total_bond_share s \<and>
     gps_total_unstaking s' = gps_total_unstaking s \<and> gps_total_unstaked s' = gps_total_unstaked s \<and>
     gps_unstaking_period s' = gps_unstaking_period s"

definition reward_credit :: "gp_reward \<Rightarrow> int" where
  "reward_credit r = int (gpr_reconciled r) - int (gpr_fee r) - int (gpr_staker_income r)"

lemma credit_of: "credit rewards t = reward_credit (reward_of rewards t)"
  by (simp add: credit_def reward_credit_def Let_def)

lemma credit_put': "credit (put k r rewards) t = (if t = k then reward_credit r else credit rewards t)"
  by (simp add: credit_put reward_credit_def)

lemma income_grows:
  assumes "reconcile_staker_income r s = (Ok (r', s') :: (gp_reward \<times> gp_staking, 'e) result)"
  obtains g where "staking_grows s s' g" and "int (g * gps_total_bond_share s) \<le> int DEC_ONE * (reward_credit r' - reward_credit r)"
    and "gpr_reconciled r' = gpr_reconciled r"
proof (cases "gps_total_bond_share s = 0")
  case True
  then show ?thesis using assms by (intro that [of 0]) (auto simp: reconcile_staker_income_def staking_grows_def)
next
  case False
  then obtain g where g: "g = gpr_staker_income r * DEC_ONE div gps_total_bond_share s"
    and r': "r' = r\<lparr>gpr_staker_income := 0\<rparr>" and s': "s' = s\<lparr>gps_reward_index := gps_reward_index s + g\<rparr>"
    using assms by (auto simp: reconcile_staker_income_def ok_simps)
  have "g * gps_total_bond_share s \<le> gpr_staker_income r * DEC_ONE" unfolding g by (rule div_times_less_eq_dividend)
  then have "int (g * gps_total_bond_share s) \<le> int DEC_ONE * int (gpr_staker_income r)" by (metis mult.commute of_nat_mono of_nat_mult)
  then show ?thesis by (intro that [of g]) (simp_all add: r' s' staking_grows_def reward_credit_def)
qed

lemma stakers_grow:
  assumes fit: "stakers_fit s stakers" and grows: "staking_grows s s' g"
  shows "stakers_fit s' stakers" and "stakers_owed s' stakers = stakers_owed s stakers + g * gps_total_bond_share s"
proof -
  show "stakers_fit s' stakers" using fit grows by (auto simp: stakers_fit_def staking_grows_def intro: trans_le_add1)
  have wf: "wf_store stakers" using fit by (simp add: stakers_fit_def)
  have one: "staker_owed s' e = staker_owed s e + g * gpk_bond_share (snd e)" if "e \<in> set (entries stakers)" for e
  proof -
    obtain a k where e: "e = (a, k)" by force
    have "get stakers a = Some k" using that om.in_entries [OF wf] unfolding e by simp
    then have "gpk_reward_index k \<le> gps_reward_index s" using fit unfolding stakers_fit_def by blast
    then have "gps_reward_index s' - gpk_reward_index k = (gps_reward_index s - gpk_reward_index k) + g" using grows by (simp add: staking_grows_def)
    then show ?thesis by (simp add: e staker_owed_def distrib_right)
  qed
  have "stakers_owed s' stakers = sum_list (map (\<lambda>e. staker_owed s e + g * gpk_bond_share (snd e)) (entries stakers))"
    unfolding stakers_owed_def using one by (intro arg_cong [where f = sum_list] map_cong) auto
  also have "\<dots> = stakers_owed s stakers + g * staker_sum gpk_bond_share stakers"
    by (simp add: stakers_owed_def staker_sum_def sum_list_addf sum_list_const_mult)
  finally show "stakers_owed s' stakers = stakers_owed s stakers + g * gps_total_bond_share s" using fit by (simp add: stakers_fit_def)
qed

lemma staker_reconciled:
  assumes "reconcile_to_staker_info s k = (Ok k' :: (gp_staker, 'e) result)"
  shows "gpk_reward_index k' = gps_reward_index s" and "gpk_bond_share k' = gpk_bond_share k" and "gpk_unstaking k' = gpk_unstaking k"
    and "gpk_unstaked k' = gpk_unstaked k" and "gpk_unstaking_period k' = gpk_unstaking_period k"
    and "DEC_ONE * gpk_pending_reward k' \<le> staker_owed s (a, k)"
proof -
  obtain x where x: "x = gpk_bond_share k * (gps_reward_index s - gpk_reward_index k) div DEC_ONE"
    and k': "k' = k\<lparr>gpk_pending_reward := gpk_pending_reward k + x, gpk_reward_index := gps_reward_index s\<rparr>"
    using assms by (auto simp: reconcile_to_staker_info_def ok_simps)
  show "gpk_reward_index k' = gps_reward_index s" "gpk_bond_share k' = gpk_bond_share k" "gpk_unstaking k' = gpk_unstaking k"
    "gpk_unstaked k' = gpk_unstaked k" "gpk_unstaking_period k' = gpk_unstaking_period k" by (simp_all add: k')
  have "DEC_ONE * x \<le> gpk_bond_share k * (gps_reward_index s - gpk_reward_index k)" unfolding x by (rule times_div_less_eq_dividend)
  then show "DEC_ONE * gpk_pending_reward k' \<le> staker_owed s (a, k)" by (simp add: k' staker_owed_def distrib_left mult.commute)
qed

text \<open>Writing a staker that is up to date.\<close>

lemma staker_written:
  assumes fit: "stakers_fit s stakers" and same: "gps_reward_index s' = gps_reward_index s" "gps_unstaking_period s' = gps_unstaking_period s"
    and k: "gpk_reward_index k = gps_reward_index s"
    and shares: "gps_total_bond_share s' + staker_at gpk_bond_share stakers a = gps_total_bond_share s + gpk_bond_share k"
    and out: "gps_total_unstaking s' + gps_total_unstaked s' + staker_at leaving stakers a = gps_total_unstaking s + gps_total_unstaked s + leaving k"
    and free: "freed (gps_unstaking_period s) k + gps_total_unstaked s \<le> gps_total_unstaked s' + staker_at (freed (gps_unstaking_period s)) stakers a"
      "gps_total_unstaked s' \<le> gps_total_unstaked s"
    and pays: "DEC_ONE * gpk_pending_reward k + DEC_ONE * paid \<le> staker_at (\<lambda>k. staker_owed s (a, k)) stakers a"
  shows "stakers_fit s' (put a k stakers)" and "stakers_owed s' (put a k stakers) + DEC_ONE * paid \<le> stakers_owed s stakers"
proof -
  have wf: "wf_store stakers" using fit by (simp add: stakers_fit_def)
  have "staker_sum gpk_bond_share (put a k stakers) = gps_total_bond_share s'"
    using staker_sum_put [OF wf, of gpk_bond_share a k] shares fit by (simp add: stakers_fit_def)
  moreover have "staker_sum leaving (put a k stakers) = gps_total_unstaking s' + gps_total_unstaked s'"
    using staker_sum_put [OF wf, of leaving a k] out fit by (simp add: stakers_fit_def)
  moreover have "staker_sum (freed (gps_unstaking_period s')) (put a k stakers) \<le> gps_total_unstaked s'"
    using staker_sum_put [OF wf, of "freed (gps_unstaking_period s)" a k] free fit by (simp add: stakers_fit_def same)
  moreover have "gpk_reward_index x \<le> gps_reward_index s'" if "get (put a k stakers) b = Some x" for b x
  proof (cases "b = a")
    case True
    then show ?thesis using that k same(1) by (simp add: store_simps)
  next
    case False
    then show ?thesis using that fit same(1) by (simp add: store_simps stakers_fit_def)
  qed
  ultimately show "stakers_fit s' (put a k stakers)" using wf free(2) fit by (simp add: stakers_fit_def)
  have so: "staker_owed s' = staker_owed s" by (simp add: staker_owed_def same fun_eq_iff)
  have "staker_owed s (a, k) = DEC_ONE * gpk_pending_reward k" by (simp add: staker_owed_def k)
  then have "stakers_owed s' (put a k stakers) + staker_at (\<lambda>k. staker_owed s (a, k)) stakers a = stakers_owed s stakers + DEC_ONE * gpk_pending_reward k"
    using om.total_put [OF wf, of "staker_owed s" a k] by (simp add: stakers_owed_def so staker_at_def split: option.splits)
  with pays show "stakers_owed s' (put a k stakers) + DEC_ONE * paid \<le> stakers_owed s stakers" by linarith
qed

section \<open>The books\<close>

text \<open>What is owed of a token, in the units of the decimals.\<close>

definition gp_owes :: "gp_config \<Rightarrow> gp_staking \<Rightarrow> gp_state \<Rightarrow> addr \<Rightarrow> nat" where
  "gp_owes c s st t = users_owed (gpx_pools st) (gpx_users st) t + (if t = gpc_astro_token c then stakers_owed s (gpx_stakers st) else 0)"

definition gp_fits :: "gp_config \<Rightarrow> gp_staking \<Rightarrow> gp_state \<Rightarrow> bool" where
  "gp_fits c s st \<longleftrightarrow> gpx_config st = Some c \<and> gpx_staking st = Some s \<and> users_fit (gpx_pools st) (gpx_users st) \<and>
     stakers_fit s (gpx_stakers st) \<and>
     (\<forall>t. int (gp_owes c s st t) \<le> int DEC_ONE * credit (gpx_rewards st) t)"

lemma gp_fitsD:
  "gp_fits c s st \<Longrightarrow> gpx_config st = Some c" "gp_fits c s st \<Longrightarrow> gpx_staking st = Some s"
  "gp_fits c s st \<Longrightarrow> users_fit (gpx_pools st) (gpx_users st)" "gp_fits c s st \<Longrightarrow> stakers_fit s (gpx_stakers st)"
  "gp_fits c s st \<Longrightarrow> int (gp_owes c s st t) \<le> int DEC_ONE * credit (gpx_rewards st) t"
  by (simp_all add: gp_fits_def)

definition gp_books :: "gp_state \<Rightarrow> bool" where
  "gp_books st \<longleftrightarrow> (\<exists>c s. gp_fits c s st)"

lemma gp_booksE:
  assumes "gp_books st"
  obtains c s where "gpx_config st = Some c" and "gpx_staking st = Some s" and "gp_fits c s st"
  using assms by (auto simp: gp_books_def gp_fits_def)

text \<open>A pool whose rewards were shared out.\<close>

lemma books_shared:
  assumes books: "gp_fits c s st" and pool: "get (gpx_pools st) lp = Some pool"
    and grows: "pool_grows (gpp_total_bond_share pool) (pool, gpx_rewards st) (pool1, rewards')"
    and pool': "gpp_reward_indexes pool' = gpp_reward_indexes pool1" "gpp_total_bond_share pool' = gpp_total_bond_share pool1"
  shows "gp_fits c s (st\<lparr>gpx_rewards := rewards', gpx_pools := put lp pool' (gpx_pools st)\<rparr>)"
proof -
  let ?n = "gpp_total_bond_share pool"
  obtain g where g: "\<And>t. collected (gpp_reward_indexes pool1) t = collected (gpp_reward_indexes pool) t + g t"
      "\<And>t. int (g t * ?n) \<le> int DEC_ONE * (credit rewards' t - credit (gpx_rewards st) t)"
    and d: "gpp_total_bond_share pool1 = ?n" "distinct (map fst (gpp_reward_indexes pool1))"
    using grows unfolding pool_grows_def by auto
  have fit: "users_fit (gpx_pools st) (gpx_users st)" using books by (simp add: gp_fits_def)
  have fits': "users_fit (put lp pool' (gpx_pools st)) (gpx_users st)"
    by (rule fit_grows [OF fit pool]) (simp_all add: pool' d g(1))
  have owed: "users_owed (put lp pool' (gpx_pools st)) (gpx_users st) t = users_owed (gpx_pools st) (gpx_users st) t + g t * ?n" for t
    by (rule owed_grows [OF fit pool]) (simp add: pool'(1) g(1))
  let ?st = "st\<lparr>gpx_rewards := rewards', gpx_pools := put lp pool' (gpx_pools st)\<rparr>"
  have "int (gp_owes c s ?st t) \<le> int DEC_ONE * credit rewards' t" for t
  proof -
    have "gp_owes c s ?st t = gp_owes c s st t + g t * ?n" by (simp add: gp_owes_def owed)
    moreover have "int DEC_ONE * (credit rewards' t - credit (gpx_rewards st) t) = int DEC_ONE * credit rewards' t - int DEC_ONE * credit (gpx_rewards st) t"
      by (rule right_diff_distrib)
    ultimately show ?thesis using gp_fitsD(5) [OF books, of t] g(2) [of t] unfolding of_nat_add by linarith
  qed
  with fits' gp_fitsD [OF books] show ?thesis by (simp add: gp_fits_def)
qed

text \<open>A pool whose debts at the generator were noted.\<close>

lemma books_pool:
  assumes books: "gp_fits c s st" and pool: "get (gpx_pools st) lp = Some pool"
    and pool': "gpp_reward_indexes pool' = gpp_reward_indexes pool" "gpp_total_bond_share pool' = gpp_total_bond_share pool"
  shows "gp_fits c s (st\<lparr>gpx_pools := put lp pool' (gpx_pools st)\<rparr>)"
proof -
  have d: "distinct (map fst (gpp_reward_indexes pool))" using books pool by (auto simp: gp_fits_def users_fit_def)
  have "gp_fits c s (st\<lparr>gpx_rewards := gpx_rewards st, gpx_pools := put lp pool' (gpx_pools st)\<rparr>)"
    using grows_refl [of "(pool, gpx_rewards st)"] d pool' by (intro books_shared [OF books pool, of pool]) simp_all
  then show ?thesis by simp
qed

lemma claimed_by_others_books:
  assumes "reconcile_claimed_by_others deps env c lp u st = Ok (st', claim, balances)" and "gp_fits c s st" and "adds_up deps"
  shows "gp_fits c s st'"
proof (cases "get (gpx_pools st) lp")
  case None
  then show ?thesis using assms by (auto simp: reconcile_claimed_by_others_def and_then_Ok)
next
  case (Some pool)
  show ?thesis
  proof (cases "gpp_total_bond_share pool = 0 \<or> gpp_last_reconcile pool = env_height env")
    case True
    then show ?thesis using assms Some by (auto simp: reconcile_claimed_by_others_def and_then_Ok split: if_splits)
  next
    case False
    then obtain net s1 pool1 rewards astro where s1: "share_astro deps c u net (pool, gpx_rewards st) = Ok s1"
      and s2: "try_fold (share_proxy_reward deps env (gpp_prev_reward_debt_proxy pool)) (s1, [(gpc_astro_token c, astro)]) (gu_reward_debt_proxy u) =
        Ok ((pool1, rewards), balances)"
      and st': "st' = st\<lparr>gpx_rewards := rewards, gpx_pools := put lp (pool1\<lparr>gpp_prev_reward_user_index := gu_reward_user_index u,
        gpp_prev_reward_debt_proxy := gu_reward_debt_proxy u\<rparr>) (gpx_pools st)\<rparr>"
      using assms(1) Some by (auto simp: reconcile_claimed_by_others_def and_then_Ok Let_def)
    have d: "distinct (map fst (gpp_reward_indexes pool))" using assms(2) Some by (auto simp: gp_fits_def users_fit_def)
    have "pool_grows (gpp_total_bond_share pool) (pool, gpx_rewards st) (pool1, rewards)"
      using shared_by_others [OF s2 share_astro_grows [OF s1 assms(3) d] assms(3)] by simp
    then show ?thesis unfolding st' by (rule books_shared [OF assms(2) Some]) simp_all
  qed
qed

lemma after_bond_claimed_books:
  assumes "after_bond_claimed deps env lp prev st = Ok (st', r)" and "gp_fits c s st" and "adds_up deps"
  shows "gp_fits c s st'"
proof -
  have c: "gpx_config st = Some c" by (rule gp_fitsD [OF assms(2)])
  obtain pool u s1 astro pool1 rewards where pool: "get (gpx_pools st) lp = Some pool"
    and s1: "(case map_of (rev prev) (gpc_astro_token c) of
         Some p \<Rightarrow> and_then (gp_sub astro p) (\<lambda>net. gpstd (share_astro deps c u net (pool, gpx_rewards st)))
       | None \<Rightarrow> Ok (pool, gpx_rewards st)) = Ok s1"
    and s2: "try_fold (share_claimed deps env prev) s1 (gu_reward_debt_proxy u) = Ok (pool1, rewards)"
    and st': "st' = st\<lparr>gpx_rewards := rewards, gpx_pools := put lp (pool1\<lparr>gpp_prev_reward_user_index := gu_reward_user_index u,
           gpp_prev_reward_debt_proxy := gu_reward_debt_proxy u, gpp_last_reconcile := env_height env\<rparr>) (gpx_pools st)\<rparr>"
    using assms(1) unfolding after_bond_claimed_def by (auto simp: and_then_Ok map_err_Ok load_item_Ok c)
  have d: "distinct (map fst (gpp_reward_indexes pool))" using gp_fitsD(3) [OF assms(2)] pool by (auto simp: users_fit_def)
  have "pool_grows (gpp_total_bond_share pool) (pool, gpx_rewards st) s1"
    using s1 share_astro_grows [of deps c u _ pool "gpx_rewards st" s1, OF _ assms(3) d] grows_refl [of "(pool, gpx_rewards st)"] d
    by (auto simp: and_then_Ok map_err_Ok split: option.splits)
  from shared_after_claim [OF s2 this assms(3)] show ?thesis unfolding st' by (rule books_shared [OF assms(2) pool]) simp_all
qed

lemma after_bond_changed_books:
  assumes "after_bond_changed deps env lp st = Ok (st', r)" and "gp_fits c s st"
  shows "gp_fits c s st'"
  using assms(1) assms(2) books_pool [OF assms(2)]
  by (auto simp: after_bond_changed_def and_then_Ok map_err_Ok load_item_Ok split: option.splits)

text \<open>A user written with his pool, while something is paid.\<close>

lemma books_user:
  assumes books: "gp_fits c s st"
    and pools': "\<And>l. get pools' l = (if l = lp then Some pool else get (gpx_pools st) l)"
    and idx: "\<And>t. collected (gpp_reward_indexes pool) t = pool_index (gpx_pools st) lp t" "distinct (map fst (gpp_reward_indexes pool))"
    and u: "gpu_reward_indexes u = gpp_reward_indexes pool" "distinct (map fst (gpu_pending_rewards u))"
    and shares: "gpp_total_bond_share pool + share_before (gpx_users st) (lp, a) = pool_share (gpx_pools st) lp + gpu_bond_share u"
    and pays: "\<And>t. DEC_ONE * collected (gpu_pending_rewards u) t + DEC_ONE * paid t \<le> owed_before (gpx_pools st) (gpx_users st) (lp, a) t"
    and credit: "\<And>t. credit rewards' t = credit (gpx_rewards st) t - int (paid t)"
  shows "gp_fits c s (st\<lparr>gpx_rewards := rewards', gpx_users := put (lp, a) u (gpx_users st), gpx_pools := pools'\<rparr>)" (is "gp_fits c s ?st")
proof -
  note w = user_written [OF gp_fitsD(3) [OF books] pools' idx u shares pays]
  have "int (gp_owes c s ?st t) \<le> int DEC_ONE * credit rewards' t" for t
  proof -
    have "gp_owes c s ?st t + DEC_ONE * paid t \<le> gp_owes c s st t" using w(2) [of t] by (cases "t = gpc_astro_token c") (simp_all add: gp_owes_def)
    then have "int (gp_owes c s ?st t) + int DEC_ONE * int (paid t) \<le> int (gp_owes c s st t)" by (metis of_nat_add of_nat_mono of_nat_mult)
    then show ?thesis using gp_fitsD(5) [OF books, of t] by (simp add: credit right_diff_distrib)
  qed
  with w(1) gp_fitsD [OF books] show ?thesis by (simp add: gp_fits_def)
qed

lemma bond_share_before:
  "owed_before pools users (lp, a) t = (case get users (lp, a) of Some u \<Rightarrow> DEC_ONE * collected (gpu_pending_rewards u) t +
     (pool_index pools lp t - collected (gpu_reward_indexes u) t) * gpu_bond_share u | None \<Rightarrow> 0)"
  by (simp add: owed_before_def user_owed_def split: option.split)

lemma callback_deposit_books:
  assumes "callback_deposit deps env lp a amount st = Ok (st', r)" and books: "gp_fits c s st" and "adds_up deps"
  shows "gp_fits c s st'"
proof -
  define pool where "pool = unwrap_or (get (gpx_pools st) lp) new_pool"
  define u0 where "u0 = unwrap_or (get (gpx_users st) (lp, a)) (create_user pool)"
  obtain u share where u: "reconcile_to_user_info deps pool u0 = Ok u"
    and st': "st' = st\<lparr>gpx_users := put (lp, a) (u\<lparr>gpu_bond_share := gpu_bond_share u + share\<rparr>) (gpx_users st),
           gpx_pools := put lp (pool\<lparr>gpp_total_bond_share := gpp_total_bond_share pool + share\<rparr>) (gpx_pools st)\<rparr>"
    using assms(1) unfolding callback_deposit_def pool_def [symmetric] Let_def u0_def [symmetric] by (auto simp: and_then_Ok map_err_Ok num_Ok)
  have fit: "users_fit (gpx_pools st) (gpx_users st)" by (rule gp_fitsD [OF books])
  have pool: "collected (gpp_reward_indexes pool) t = pool_index (gpx_pools st) lp t" "distinct (map fst (gpp_reward_indexes pool))"
      "gpp_total_bond_share pool = pool_share (gpx_pools st) lp" for t
    using fit by (cases "get (gpx_pools st) lp"; auto simp: pool_def pool_index_def pool_share_def new_pool_def users_fit_def)+
  have d0: "distinct (map fst (gpu_pending_rewards u0))"
    using fit by (cases "get (gpx_users st) (lp, a)") (auto simp: u0_def users_fit_def create_user_def)
  note up = up_to_date [OF u assms(3) pool(2) d0]
  have s0: "gpu_bond_share u0 = share_before (gpx_users st) (lp, a)" by (simp add: u0_def share_before_def create_user_def split: option.split)
  have "DEC_ONE * collected (gpu_pending_rewards u) t \<le> owed_before (gpx_pools st) (gpx_users st) (lp, a) t" for t
    using up(4) [of t] by (auto simp: bond_share_before u0_def create_user_def pool(1) split: option.splits)
  then have "gp_fits c s (st\<lparr>gpx_rewards := gpx_rewards st, gpx_users := put (lp, a) (u\<lparr>gpu_bond_share := gpu_bond_share u + share\<rparr>) (gpx_users st),
      gpx_pools := put lp (pool\<lparr>gpp_total_bond_share := gpp_total_bond_share pool + share\<rparr>) (gpx_pools st)\<rparr>)"
    by (intro books_user [OF books, where paid = "\<lambda>_. 0"
        and pool = "pool\<lparr>gpp_total_bond_share := gpp_total_bond_share pool + share\<rparr>"]) (simp_all add: store_simps pool up(1-3) s0)
  then show ?thesis by (simp add: st')
qed

lemma callback_withdraw_books:
  assumes "callback_withdraw deps env lp a amount st = Ok (st', r)" and books: "gp_fits c s st" and "adds_up deps"
  shows "gp_fits c s st'"
proof -
  obtain pool u0 u share where pool: "get (gpx_pools st) lp = Some pool" and u0: "get (gpx_users st) (lp, a) = Some u0"
    and u: "reconcile_to_user_info deps pool u0 = Ok u" and le: "share \<le> gpu_bond_share u" "share \<le> gpp_total_bond_share pool"
    and st': "st' = st\<lparr>gpx_users := put (lp, a) (u\<lparr>gpu_bond_share := gpu_bond_share u - share\<rparr>) (gpx_users st),
           gpx_pools := put lp (pool\<lparr>gpp_total_bond_share := gpp_total_bond_share pool - share\<rparr>) (gpx_pools st)\<rparr>"
    using assms(1) unfolding callback_withdraw_def by (auto simp: and_then_Ok map_err_Ok load_item_Ok gp_sub_Ok)
  have fit: "users_fit (gpx_pools st) (gpx_users st)" by (rule gp_fitsD [OF books])
  have idx: "collected (gpp_reward_indexes pool) t = pool_index (gpx_pools st) lp t" for t by (simp add: pool_index_def pool)
  have d: "distinct (map fst (gpp_reward_indexes pool))" "distinct (map fst (gpu_pending_rewards u0))"
    using fit pool u0 by (auto simp: users_fit_def)
  note up = up_to_date [OF u assms(3) d]
  have "DEC_ONE * collected (gpu_pending_rewards u) t \<le> owed_before (gpx_pools st) (gpx_users st) (lp, a) t" for t
    using up(4) [of t] by (simp add: bond_share_before u0 idx)
  then have "gp_fits c s (st\<lparr>gpx_rewards := gpx_rewards st, gpx_users := put (lp, a) (u\<lparr>gpu_bond_share := gpu_bond_share u - share\<rparr>) (gpx_users st),
      gpx_pools := put lp (pool\<lparr>gpp_total_bond_share := gpp_total_bond_share pool - share\<rparr>) (gpx_pools st)\<rparr>)"
    using le by (intro books_user [OF books, where paid = "\<lambda>_. 0"
        and pool = "pool\<lparr>gpp_total_bond_share := gpp_total_bond_share pool - share\<rparr>"]) (simp_all add: store_simps idx d up(1-3) share_before_def u0 pool_share_def pool)
  then show ?thesis by (simp add: st')
qed

text \<open>Paying pending rewards takes them off the credits, and cannot fail when they are accounted for.\<close>

definition pending_msgs :: "addr \<Rightarrow> amounts \<Rightarrow> gp_msg list" where
  "pending_msgs staker p = map (\<lambda>(t, x). transfer_msg GpToken (TokenAsset t) x staker) (filter (\<lambda>(t, x). x \<noteq> 0) p)"

lemma pay_one:
  assumes "x \<le> gpr_reconciled (reward_of rewards t)" and "x \<noteq> 0"
  obtains r where "get rewards t = Some r" and "pay_pending staker (rewards, ms) (t, x) =
    Ok (put t (r\<lparr>gpr_reconciled := gpr_reconciled r - x\<rparr>) rewards, ms @ [transfer_msg GpToken (TokenAsset t) x staker])"
    and "x \<le> gpr_reconciled r"
proof (cases "get rewards t")
  case None
  then show ?thesis using assms by (simp add: reward_of_def new_reward_def)
next
  case (Some r)
  then show ?thesis using assms that by (simp add: reward_of_def pay_pending_def gp_sub_def)
qed

lemma pays_pending:
  assumes "distinct (map fst p)" and "\<And>t. collected p t \<le> gpr_reconciled (reward_of rewards t)"
  shows "\<exists>rewards'. try_fold (pay_pending staker) (rewards, ms) p = Ok (rewards', ms @ pending_msgs staker p) \<and>
    (\<forall>t. credit rewards' t = credit rewards t - int (collected p t))"
  using assms
proof (induction p arbitrary: rewards ms)
  case Nil
  then show ?case by (simp add: pending_msgs_def)
next
  case (Cons e p)
  obtain k x where e: "e = (k, x)" by force
  have c: "collected (e # p) t = (if t = k then x else collected p t)" for t using collected_Cons Cons.prems(1) unfolding e by blast
  have d: "distinct (map fst p)" and new: "collected p k = 0" using Cons.prems(1) by (auto simp: e intro: collected_other)
  show ?case
  proof (cases "x = 0")
    case True
    have "collected p t \<le> gpr_reconciled (reward_of rewards t)" for t using Cons.prems(2) [of t] new by (cases "t = k") (simp_all add: c)
    moreover have "collected (e # p) = collected p" using new True by (simp add: fun_eq_iff c)
    moreover have "pay_pending staker (rewards, ms) e = Ok (rewards, ms)" "pending_msgs staker (e # p) = pending_msgs staker p"
      by (simp_all add: e True pay_pending_def pending_msgs_def)
    ultimately show ?thesis using Cons.IH [OF d] by simp
  next
    case False
    have xle: "x \<le> gpr_reconciled (reward_of rewards k)" using Cons.prems(2) [of k] by (simp add: c)
    obtain r where r: "get rewards k = Some r" and one: "pay_pending staker (rewards, ms) (k, x) =
        Ok (put k (r\<lparr>gpr_reconciled := gpr_reconciled r - x\<rparr>) rewards, ms @ [transfer_msg GpToken (TokenAsset k) x staker])"
      and le: "x \<le> gpr_reconciled r"
      by (rule pay_one [OF xle False])
    let ?rs = "put k (r\<lparr>gpr_reconciled := gpr_reconciled r - x\<rparr>) rewards"
    have "collected p t \<le> gpr_reconciled (reward_of ?rs t)" for t
      using Cons.prems(2) [of t] new by (cases "t = k") (simp_all add: c reward_of_def store_simps)
    from Cons.IH [OF d this, of "ms @ [transfer_msg GpToken (TokenAsset k) x staker]"] obtain rewards' where
      rest: "try_fold (pay_pending staker) (?rs, ms @ [transfer_msg GpToken (TokenAsset k) x staker]) p =
        Ok (rewards', (ms @ [transfer_msg GpToken (TokenAsset k) x staker]) @ pending_msgs staker p)"
      and cr: "\<forall>t. credit rewards' t = credit ?rs t - int (collected p t)" by blast
    have "credit rewards' t = credit rewards t - int (collected (e # p) t)" for t
      using cr r le new by (cases "t = k") (simp_all add: c credit_put, simp add: credit_def reward_of_def)
    moreover have "pending_msgs staker (e # p) = transfer_msg GpToken (TokenAsset k) x staker # pending_msgs staker p"
      using False by (simp add: e pending_msgs_def)
    ultimately show ?thesis using one rest by (auto simp: e)
  qed
qed

lemma owed_le_reconciled:
  assumes books: "gp_fits c s st" and "DEC_ONE * x \<le> gp_owes c s st t"
  shows "x \<le> gpr_reconciled (reward_of (gpx_rewards st) t)"
proof -
  have "int (DEC_ONE * x) \<le> int DEC_ONE * credit (gpx_rewards st) t" using gp_fitsD(5) [OF books, of t] assms(2) by linarith
  moreover have "credit (gpx_rewards st) t \<le> int (gpr_reconciled (reward_of (gpx_rewards st) t))" by (simp add: credit_def Let_def)
  ultimately have "int DEC_ONE * int x \<le> int DEC_ONE * int (gpr_reconciled (reward_of (gpx_rewards st) t))"
    by (metis (no_types, lifting) mult_left_mono of_nat_0_le_iff of_nat_mult order_trans)
  then show ?thesis by simp
qed

text \<open>What a claim does when the user can be brought up to date.\<close>

lemma claim_pays:
  assumes books: "gp_fits c s st" and a: "adds_up deps" and pool: "get (gpx_pools st) lp = Some pool" and u0: "get (gpx_users st) (lp, a) = Some u0"
    and u: "reconcile_to_user_info deps pool u0 = Ok u"
  shows "\<exists>st' r. callback_claim_rewards deps lp a st = Ok (st', r) \<and> resp_msgs r = map PlainMsg (pending_msgs a (gpu_pending_rewards u)) \<and> gp_fits c s st'"
proof -
  have fit: "users_fit (gpx_pools st) (gpx_users st)" by (rule gp_fitsD [OF books])
  have idx: "collected (gpp_reward_indexes pool) t = pool_index (gpx_pools st) lp t" for t by (simp add: pool_index_def pool)
  have d: "distinct (map fst (gpp_reward_indexes pool))" "distinct (map fst (gpu_pending_rewards u0))"
    using fit pool u0 by (auto simp: users_fit_def)
  note up = up_to_date [OF u a d]
  have before: "DEC_ONE * collected (gpu_pending_rewards u) t \<le> owed_before (gpx_pools st) (gpx_users st) (lp, a) t" for t
    using up(4) [of t] by (simp add: bond_share_before u0 idx)
  have "collected (gpu_pending_rewards u) t \<le> gpr_reconciled (reward_of (gpx_rewards st) t)" for t
  proof (rule owed_le_reconciled [OF books])
    have "wf_store (gpx_users st)" using fit by (simp add: users_fit_def)
    then have "owed_before (gpx_pools st) (gpx_users st) (lp, a) t \<le> users_owed (gpx_pools st) (gpx_users st) t"
      using om.member_le_total [of "gpx_users st" "(lp, a)" u0 "user_owed (gpx_pools st) t"] u0 by (simp add: users_owed_def owed_before_def)
    with before [of t] show "DEC_ONE * collected (gpu_pending_rewards u) t \<le> gp_owes c s st t" by (simp add: gp_owes_def)
  qed
  from pays_pending [OF up(3) this, of a "[]"] obtain rewards' where
    run: "try_fold (pay_pending a) (gpx_rewards st, []) (gpu_pending_rewards u) = Ok (rewards', pending_msgs a (gpu_pending_rewards u))" and
    cr: "\<forall>t. credit rewards' t = credit (gpx_rewards st) t - int (collected (gpu_pending_rewards u) t)" by auto
  have "gp_fits c s (st\<lparr>gpx_rewards := rewards', gpx_users := put (lp, a) (u\<lparr>gpu_pending_rewards := []\<rparr>) (gpx_users st), gpx_pools := gpx_pools st\<rparr>)"
    using before cr by (intro books_user [OF books, where paid = "collected (gpu_pending_rewards u)" and pool = pool])
      (simp_all add: pool idx d up(1-3) share_before_def u0 pool_share_def)
  then show ?thesis using run by (simp add: callback_claim_rewards_def u0 pool u)
qed

lemma callback_claim_books:
  assumes "callback_claim_rewards deps lp a st = Ok (st', r)" and books: "gp_fits c s st" and "adds_up deps"
  shows "gp_fits c s st'"
proof -
  obtain pool u0 u where "get (gpx_pools st) lp = Some pool" "get (gpx_users st) (lp, a) = Some u0" "reconcile_to_user_info deps pool u0 = Ok u"
    using assms(1) unfolding callback_claim_rewards_def by (auto simp: and_then_Ok map_err_Ok load_item_Ok)
  from claim_pays [OF books assms(3) this] assms(1) show ?thesis by auto
qed

section \<open>The messages of the stakers\<close>

lemma scaled_credit: "int DEC_ONE * (a - b) = int DEC_ONE * a - int DEC_ONE * b"
  by (rule right_diff_distrib)

text \<open>A staker written after the income was shared out, while something is paid to him.\<close>

lemma books_staker:
  assumes books: "gp_fits c s st" and income: "reconcile_staker_income (reward_of (gpx_rewards st) (gpc_astro_token c)) s = (Ok (r1, s1) :: (gp_reward \<times> gp_staking, 'e) result)"
    and same: "gps_reward_index s' = gps_reward_index s1" "gps_unstaking_period s' = gps_unstaking_period s1"
    and k: "gpk_reward_index k = gps_reward_index s1"
    and shares: "gps_total_bond_share s' + staker_at gpk_bond_share (gpx_stakers st) a = gps_total_bond_share s1 + gpk_bond_share k"
    and out: "gps_total_unstaking s' + gps_total_unstaked s' + staker_at leaving (gpx_stakers st) a =
      gps_total_unstaking s1 + gps_total_unstaked s1 + leaving k"
    and free: "freed (gps_unstaking_period s1) k + gps_total_unstaked s1 \<le> gps_total_unstaked s' + staker_at (freed (gps_unstaking_period s1)) (gpx_stakers st) a"
      "gps_total_unstaked s' \<le> gps_total_unstaked s1"
    and pays: "DEC_ONE * gpk_pending_reward k + DEC_ONE * paid \<le> staker_at (\<lambda>k. staker_owed s1 (a, k)) (gpx_stakers st) a"
    and credit: "reward_credit r' = reward_credit r1 - int paid"
  shows "gp_fits c s' (store_staker c a k s' r' st)"
proof -
  let ?st = "store_staker c a k s' r' st"
  obtain g where g: "staking_grows s s1 g" "int (g * gps_total_bond_share s) \<le> int DEC_ONE * (reward_credit r1 - reward_credit (reward_of (gpx_rewards st) (gpc_astro_token c)))"
    by (rule income_grows [OF income])
  note grown = stakers_grow [OF gp_fitsD(4) [OF books] g(1)]
  note w = staker_written [OF grown(1) same k shares out free pays]
  have "int (gp_owes c s' ?st t) \<le> int DEC_ONE * credit (gpx_rewards ?st) t" for t
  proof (cases "t = gpc_astro_token c")
    case True
    have "gp_owes c s' ?st t + DEC_ONE * paid \<le> gp_owes c s st t + g * gps_total_bond_share s"
      using w(2) grown(2) by (simp add: gp_owes_def True store_staker_def)
    then have "int (gp_owes c s' ?st t) + int DEC_ONE * int paid \<le> int (gp_owes c s st t) + int (g * gps_total_bond_share s)"
      by (metis of_nat_add of_nat_mono of_nat_mult)
    moreover have "credit (gpx_rewards st) t = reward_credit (reward_of (gpx_rewards st) (gpc_astro_token c))" by (simp add: True credit_of)
    moreover have "credit (gpx_rewards ?st) t = reward_credit r1 - int paid" by (simp add: True store_staker_def credit_put' credit)
    ultimately show ?thesis using gp_fitsD(5) [OF books, of t] g(2) by (simp add: scaled_credit)
  next
    case False
    then show ?thesis using gp_fitsD(5) [OF books, of t] by (simp add: gp_owes_def store_staker_def credit_put')
  qed
  with w(1) gp_fitsD [OF books] show ?thesis by (simp add: gp_fits_def store_staker_def)
qed

lemma execute_stake_books:
  assumes "execute_stake deps env info a amount st = Ok (st', r)" and books: "gp_fits c s st"
  shows "\<exists>s'. gp_fits c s' st'"
proof -
  let ?k0 = "unwrap_or (get (gpx_stakers st) a) (create_staker s)"
  obtain reward r1 s1 k share where reward: "get (gpx_rewards st) (gpc_astro_token c) = Some reward"
    and income: "reconcile_staker_income reward s = (Ok (r1, s1) :: (gp_reward \<times> gp_staking, gp_error) result)"
    and k: "reconcile_to_staker_info s1 ?k0 = (Ok k :: (gp_staker, gp_error) result)"
    and st': "st' = store_staker c a (k\<lparr>gpk_bond_share := gpk_bond_share k + share\<rparr>) (s1\<lparr>gps_total_bond_share := gps_total_bond_share s1 + share\<rparr>) r1 st"
    using assms(1) gp_fitsD(1,2) [OF books] unfolding execute_stake_def Let_def
    by (auto simp: and_then_Ok map_err_Ok load_item_Ok guard_Ok num_Ok simp del: if_split)
  note up = staker_reconciled [OF k]
  have pending: "DEC_ONE * gpk_pending_reward k \<le> staker_at (\<lambda>k. staker_owed s1 (a, k)) (gpx_stakers st) a"
    using up(6) [of a] by (cases "get (gpx_stakers st) a") (simp_all add: staker_at_def staker_owed_def create_staker_def)
  have "reward_of (gpx_rewards st) (gpc_astro_token c) = reward" by (simp add: reward_of_def reward)
  then have inc: "reconcile_staker_income (reward_of (gpx_rewards st) (gpc_astro_token c)) s = (Ok (r1, s1) :: (gp_reward \<times> gp_staking, gp_error) result)"
    using income by simp
  show ?thesis unfolding st'
    by (rule exI, rule books_staker [OF books inc, where paid = 0])
      (use pending in \<open>auto simp: up(1-5) staker_at_def leaving_def freed_def create_staker_def split: option.splits\<close>)
qed

text \<open>Bringing a staker up to the latest relock frees what he had requested before.\<close>

lemma update_staker_same:
  assumes "update_staker s k = (Ok k' :: (gp_staker, 'e) result)"
  shows "gpk_reward_index k' = gpk_reward_index k" and "gpk_bond_share k' = gpk_bond_share k" and "gpk_pending_reward k' = gpk_pending_reward k"
    and "leaving k' = leaving k" and "freed (gps_unstaking_period s) k' = freed (gps_unstaking_period s) k"
    and "freed (gps_unstaking_period s) k' = gpk_unstaked k'" and "\<not> gps_unstaking_period s > gpk_unstaking_period k'"
  using assms by (auto simp: update_staker_def leaving_def freed_def ok_simps split: if_splits)

lemma request_unstake_books:
  assumes "execute_request_unstake deps env info amount st = Ok (st', r)" and books: "gp_fits c s st"
  shows "\<exists>s'. gp_fits c s' st'"
proof -
  let ?a = "info_sender info"
  obtain reward r1 s1 k0 k1 k share where reward: "get (gpx_rewards st) (gpc_astro_token c) = Some reward"
    and income: "reconcile_staker_income reward s = (Ok (r1, s1) :: (gp_reward \<times> gp_staking, gp_error) result)"
    and k0: "get (gpx_stakers st) ?a = Some k0"
    and k1: "reconcile_to_staker_info s1 k0 = (Ok k1 :: (gp_staker, gp_error) result)" and k: "update_staker s1 k1 = (Ok k :: (gp_staker, gp_error) result)"
    and le: "share \<le> gpk_bond_share k" "share \<le> gps_total_bond_share s1"
    and st': "st' = store_staker c ?a (k\<lparr>gpk_bond_share := gpk_bond_share k - share, gpk_unstaking := gpk_unstaking k + amount\<rparr>)
      (s1\<lparr>gps_total_bond_share := gps_total_bond_share s1 - share, gps_total_unstaking := gps_total_unstaking s1 + amount\<rparr>) r1 st"
    using assms(1) gp_fitsD(1,2) [OF books] unfolding execute_request_unstake_def
    by (auto simp: and_then_Ok map_err_Ok load_item_Ok gp_sub_Ok num_Ok)
  note up = staker_reconciled [OF k1] and same = update_staker_same [OF k]
  have "reward_of (gpx_rewards st) (gpc_astro_token c) = reward" by (simp add: reward_of_def reward)
  then have inc: "reconcile_staker_income (reward_of (gpx_rewards st) (gpc_astro_token c)) s = (Ok (r1, s1) :: (gp_reward \<times> gp_staking, gp_error) result)"
    using income by simp
  have l0: "leaving k = leaving k0" using same(4) up(3,4) by (simp add: leaving_def)
  have f0: "freed (gps_unstaking_period s1) (k\<lparr>gpk_bond_share := z, gpk_unstaking := gpk_unstaking k + amount\<rparr>) =
      freed (gps_unstaking_period s1) k0" for z
    using same(5-7) up(3-5) by (simp add: freed_def)
  have l1: "leaving (k\<lparr>gpk_bond_share := z, gpk_unstaking := gpk_unstaking k + amount\<rparr>) = leaving k0 + amount" for z
    using l0 by (simp add: leaving_def)
  show ?thesis unfolding st'
    by (rule exI, rule books_staker [OF books inc, where paid = 0])
      (use le up(6) [of ?a] in \<open>simp_all add: up(1-5) same(1-3) staker_at_def k0 f0 l1\<close>)
qed

lemma withdraw_unstaked_books:
  assumes "execute_withdraw_unstaked info amount st = Ok (st', r)" and books: "gp_fits c s st"
  shows "\<exists>s'. gp_fits c s' st'"
proof -
  let ?a = "info_sender info"
  obtain k0 k x where k0: "get (gpx_stakers st) ?a = Some k0" and k: "update_staker s k0 = (Ok k :: (gp_staker, gp_error) result)"
    and le: "x \<le> gpk_unstaked k" "x \<le> gps_total_unstaked s"
    and st': "st' = st\<lparr>gpx_stakers := put ?a (k\<lparr>gpk_unstaked := gpk_unstaked k - x\<rparr>) (gpx_stakers st),
           gpx_staking := Some (s\<lparr>gps_total_unstaked := gps_total_unstaked s - x\<rparr>)\<rparr>"
    using assms(1) gp_fitsD(1,2) [OF books] unfolding execute_withdraw_unstaked_def Let_def
    by (auto simp: and_then_Ok map_err_Ok load_item_Ok gp_sub_Ok)
  let ?k = "k\<lparr>gpk_unstaked := gpk_unstaked k - x\<rparr>" and ?s = "s\<lparr>gps_total_unstaked := gps_total_unstaked s - x\<rparr>"
  note same = update_staker_same [OF k]
  have fit: "stakers_fit s (gpx_stakers st)" by (rule gp_fitsD [OF books])
  then have idx0: "gpk_reward_index k0 \<le> gps_reward_index s" using k0 by (simp add: stakers_fit_def)
  have wf: "wf_store (gpx_stakers st)" using fit by (simp add: stakers_fit_def)
  have l: "leaving ?k + x = leaving k0" using le same(4) by (simp add: leaving_def)
  have f: "freed (gps_unstaking_period s) ?k + x = freed (gps_unstaking_period s) k0" using le same(5,6,7) by (simp add: freed_def)
  have lv: "leaving k0 \<le> staker_sum leaving (gpx_stakers st)" using staker_sum_ge [OF wf, of leaving ?a] by (simp add: staker_at_def k0)
  have "staker_sum gpk_bond_share (put ?a ?k (gpx_stakers st)) = gps_total_bond_share s"
    using staker_sum_put [OF wf, of gpk_bond_share ?a ?k] fit same(2) by (simp add: staker_at_def k0 stakers_fit_def)
  moreover have "staker_sum leaving (put ?a ?k (gpx_stakers st)) = gps_total_unstaking s + (gps_total_unstaked s - x)"
    using staker_sum_put [OF wf, of leaving ?a ?k] fit l lv le by (simp add: staker_at_def k0 stakers_fit_def)
  moreover have "staker_sum (freed (gps_unstaking_period s)) (put ?a ?k (gpx_stakers st)) \<le> gps_total_unstaked s - x"
  proof -
    have "staker_sum (freed (gps_unstaking_period s)) (gpx_stakers st) \<le> gps_total_unstaked s" using fit by (simp add: stakers_fit_def)
    moreover have "staker_sum (freed (gps_unstaking_period s)) (put ?a ?k (gpx_stakers st)) + freed (gps_unstaking_period s) k0 =
        staker_sum (freed (gps_unstaking_period s)) (gpx_stakers st) + freed (gps_unstaking_period s) ?k"
      using staker_sum_put [OF wf, of "freed (gps_unstaking_period s)" ?a ?k] by (simp add: staker_at_def k0)
    ultimately show ?thesis using f by linarith
  qed
  moreover have "gpk_reward_index y \<le> gps_reward_index s" if "get (put ?a ?k (gpx_stakers st)) b = Some y" for b y
  proof (cases "b = ?a")
    case True
    then show ?thesis using that idx0 same(1) by (auto simp: store_simps)
  next
    case False
    then show ?thesis using that fit by (simp add: store_simps stakers_fit_def)
  qed
  moreover have "gps_total_unstaked s - x \<le> U128_MAX" using fit by (auto simp: stakers_fit_def)
  ultimately have fit': "stakers_fit ?s (put ?a ?k (gpx_stakers st))" using wf fit by (simp add: stakers_fit_def)
  have so: "staker_owed ?s = staker_owed s" by (simp add: staker_owed_def fun_eq_iff)
  have "staker_owed s (?a, ?k) = staker_owed s (?a, k0)" by (simp add: staker_owed_def same(1-3))
  then have "stakers_owed ?s (put ?a ?k (gpx_stakers st)) = stakers_owed s (gpx_stakers st)"
    using om.total_put [OF wf, of "staker_owed s" ?a ?k] by (simp add: stakers_owed_def so k0)
  then have "gp_owes c ?s st' t = gp_owes c s st t" for t by (simp add: gp_owes_def st')
  then have "gp_fits c ?s st'" using fit' gp_fitsD [OF books] by (simp add: gp_fits_def st')
  then show ?thesis by blast
qed

lemma claim_income_books:
  assumes "execute_claim_income info st = Ok (st', r)" and books: "gp_fits c s st"
  shows "\<exists>s'. gp_fits c s' st'"
proof -
  let ?a = "info_sender info"
  obtain reward r1 s1 k0 k where reward: "get (gpx_rewards st) (gpc_astro_token c) = Some reward"
    and income: "reconcile_staker_income reward s = (Ok (r1, s1) :: (gp_reward \<times> gp_staking, gp_error) result)"
    and k0: "get (gpx_stakers st) ?a = Some k0" and k: "reconcile_to_staker_info s1 k0 = (Ok k :: (gp_staker, gp_error) result)"
    and le: "gpk_pending_reward k \<le> gpr_reconciled r1"
    and st': "st' = store_staker c ?a (k\<lparr>gpk_pending_reward := 0\<rparr>) s1 (r1\<lparr>gpr_reconciled := gpr_reconciled r1 - gpk_pending_reward k\<rparr>) st"
    using assms(1) gp_fitsD(1,2) [OF books] unfolding execute_claim_income_def Let_def
    by (auto simp: and_then_Ok map_err_Ok load_item_Ok gp_sub_Ok)
  note up = staker_reconciled [OF k]
  have "reward_of (gpx_rewards st) (gpc_astro_token c) = reward" by (simp add: reward_of_def reward)
  then have inc: "reconcile_staker_income (reward_of (gpx_rewards st) (gpc_astro_token c)) s = (Ok (r1, s1) :: (gp_reward \<times> gp_staking, gp_error) result)"
    using income by simp
  show ?thesis unfolding st'
    by (rule exI, rule books_staker [OF books inc, where paid = "gpk_pending_reward k"])
      (use le up(6) [of ?a] in \<open>simp_all add: up(1-5) staker_at_def k0 leaving_def freed_def reward_credit_def\<close>)
qed

text \<open>The income of a claim at the fee distributor, and the relock, which frees everything that was requested.\<close>

lemma books_staking:
  assumes books: "gp_fits c s st" and fit: "stakers_fit s2 (gpx_stakers st)" and idx: "gps_reward_index s2 = gps_reward_index s"
    and income: "reconcile_staker_income r s2 = (Ok (r1, s1) :: (gp_reward \<times> gp_staking, 'e) result)"
    and credit: "reward_credit r = reward_credit (reward_of (gpx_rewards st) (gpc_astro_token c))"
  shows "gp_fits c s1 (st\<lparr>gpx_staking := Some s1, gpx_rewards := put (gpc_astro_token c) r1 (gpx_rewards st)\<rparr>)" (is "gp_fits c s1 ?st")
proof -
  obtain g where g: "staking_grows s2 s1 g" "int (g * gps_total_bond_share s2) \<le> int DEC_ONE * (reward_credit r1 - reward_credit r)"
    by (rule income_grows [OF income])
  note grown = stakers_grow [OF fit g(1)]
  have same: "stakers_owed s2 (gpx_stakers st) = stakers_owed s (gpx_stakers st)" by (simp add: stakers_owed_def staker_owed_def idx)
  have "int (gp_owes c s1 ?st t) \<le> int DEC_ONE * credit (gpx_rewards ?st) t" for t
  proof (cases "t = gpc_astro_token c")
    case True
    have "gp_owes c s1 ?st t = gp_owes c s st t + g * gps_total_bond_share s2" by (simp add: gp_owes_def True grown(2) same)
    then have "int (gp_owes c s1 ?st t) = int (gp_owes c s st t) + int (g * gps_total_bond_share s2)" by (metis of_nat_add)
    moreover have "credit (gpx_rewards st) t = reward_credit r" by (simp add: True credit credit_of)
    moreover have "credit (gpx_rewards ?st) t = reward_credit r1" by (simp add: True credit_put')
    ultimately show ?thesis using gp_fitsD(5) [OF books, of t] g(2) by (simp add: scaled_credit)
  next
    case False
    then show ?thesis using gp_fitsD(5) [OF books, of t] by (simp add: gp_owes_def credit_put')
  qed
  with grown(1) gp_fitsD [OF books] show ?thesis by (simp add: gp_fits_def)
qed

lemma freed_all: "stakers_fit s stakers \<Longrightarrow> gps_total_unstaking s + gps_total_unstaked s \<le> U128_MAX \<Longrightarrow>
    stakers_fit (s\<lparr>gps_total_unstaked := gps_total_unstaked s + gps_total_unstaking s, gps_total_unstaking := 0, gps_unstaking_period := p,
      gps_next_claim_period := q\<rparr>) stakers"
proof -
  assume fit: "stakers_fit s stakers" and le: "gps_total_unstaking s + gps_total_unstaked s \<le> U128_MAX"
  have "staker_sum (freed p) stakers \<le> staker_sum leaving stakers"
    unfolding staker_sum_def by (rule sum_list_mono) (simp add: freed_def leaving_def)
  also have "\<dots> = gps_total_unstaked s + gps_total_unstaking s" using fit by (simp add: stakers_fit_def)
  finally show ?thesis using fit le by (simp add: stakers_fit_def)
qed

lemma execute_relock_books:
  assumes "execute_relock deps env info st = Ok (st', r)" and books: "gp_fits c s st"
  shows "\<exists>s'. gp_fits c s' st'"
proof -
  obtain reward p q net r1 s1 where reward: "get (gpx_rewards st) (gpc_astro_token c) = Some reward"
    and le: "gps_total_unstaked s + gps_total_unstaking s \<le> U128_MAX"
    and inc: "reconcile_staker_income (reward\<lparr>gpr_staker_income := gpr_staker_income reward + net, gpr_reconciled := gpr_reconciled reward + net\<rparr>)
      (s\<lparr>gps_total_unstaked := gps_total_unstaked s + gps_total_unstaking s, gps_total_unstaking := 0, gps_unstaking_period := p,
        gps_next_claim_period := q\<rparr>) = (Ok (r1, s1) :: (gp_reward \<times> gp_staking, std_error) result)"
    and st': "st' = st\<lparr>gpx_staking := Some s1, gpx_rewards := put (gpc_astro_token c) r1 (gpx_rewards st)\<rparr>"
    using assms(1) gp_fitsD(1,2) [OF books] unfolding execute_relock_def Let_def
    by (auto simp: reconcile_staking_claim_by_others_def Let_def and_then_Ok map_err_Ok load_item_Ok guard_Ok gp_sub_Ok num_Ok simp del: if_split)
  show ?thesis unfolding st'
    by (rule exI, rule books_staking [OF books freed_all [OF gp_fitsD(4) [OF books]] _ inc])
      (use le in \<open>simp_all add: reward_credit_def reward_of_def reward\<close>)
qed

lemma after_staking_claimed_books:
  assumes "after_staking_claimed deps env prev st = Ok (st', r)" and books: "gp_fits c s st"
  shows "\<exists>s'. gp_fits c s' st'"
proof -
  obtain reward q net r1 s1 where reward: "get (gpx_rewards st) (gpc_astro_token c) = Some reward"
    and inc: "reconcile_staker_income (reward\<lparr>gpr_staker_income := gpr_staker_income reward + net, gpr_reconciled := gpr_reconciled reward + net\<rparr>)
      (s\<lparr>gps_next_claim_period := q\<rparr>) = (Ok (r1, s1) :: (gp_reward \<times> gp_staking, gp_error) result)"
    and st': "st' = st\<lparr>gpx_staking := Some s1, gpx_rewards := put (gpc_astro_token c) r1 (gpx_rewards st)\<rparr>"
    using assms(1) gp_fitsD(1,2) [OF books] unfolding after_staking_claimed_def
    by (auto simp: and_then_Ok map_err_Ok load_item_Ok gp_sub_Ok num_Ok simp del: Nat.add_diff_assoc Nat.add_diff_assoc2)
  have "stakers_fit (s\<lparr>gps_next_claim_period := q\<rparr>) (gpx_stakers st)" using gp_fitsD(4) [OF books] by (simp add: stakers_fit_def)
  then show ?thesis unfolding st'
    by - (rule exI, rule books_staking [OF books _ _ inc], simp_all add: reward_credit_def reward_of_def reward)
qed

lemma send_income_books:
  assumes "execute_send_income info st = Ok (st', r)" and books: "gp_fits c s st"
  shows "gp_fits c s st'"
proof -
  obtain reward where reward: "get (gpx_rewards st) (gpc_astro_token c) = Some reward" and le: "gpr_fee reward \<le> gpr_reconciled reward"
    and st': "st' = st\<lparr>gpx_rewards := put (gpc_astro_token c) (reward\<lparr>gpr_fee := 0, gpr_reconciled := gpr_reconciled reward - gpr_fee reward\<rparr>) (gpx_rewards st)\<rparr>"
    using assms(1) gp_fitsD(1) [OF books] unfolding execute_send_income_def Let_def
    by (auto simp: and_then_Ok map_err_Ok load_item_Ok guard_Ok num_Ok simp del: if_split)
  have "credit (gpx_rewards st') t = credit (gpx_rewards st) t" for t
    using le by (cases "t = gpc_astro_token c") (simp_all add: st' credit_put', simp add: reward_credit_def credit_of reward_of_def reward)
  moreover have "gp_owes c s st' t = gp_owes c s st t" for t by (simp add: gp_owes_def st')
  ultimately show ?thesis using books by (simp add: gp_fits_def) (simp add: st')
qed

section \<open>Every message\<close>

lemma owes_same: "gpc_astro_token c' = gpc_astro_token c \<Longrightarrow> gp_owes c' s (st\<lparr>gpx_config := x\<rparr>) t = gp_owes c s st t"
  "gp_owes c s (st\<lparr>gpx_proposal := p\<rparr>) t = gp_owes c s st t"
  by (simp_all add: gp_owes_def)

lemma books_config: "gp_fits c s st \<Longrightarrow> gpc_astro_token c' = gpc_astro_token c \<Longrightarrow> gp_fits c' s (st\<lparr>gpx_config := Some c'\<rparr>)"
  by (simp add: gp_fits_def owes_same)

lemma books_proposal: "gp_fits c s st \<Longrightarrow> gp_fits c s (st\<lparr>gpx_proposal := p\<rparr>)"
  by (simp add: gp_fits_def owes_same)

lemma claim_pools_books:
  assumes "try_fold (claim_pool deps env info c) (st, ms) lps = Ok (st', ms')" and "gp_fits c s st" and "adds_up deps"
  shows "gp_fits c s st'"
proof -
  have "gp_fits c s (fst (st', ms'))"
  proof (rule try_fold_invariant [OF assms(1), where P = "\<lambda>x. gp_fits c s (fst x)"])
    show "gp_fits c s (fst (st, ms))" using assms(2) by simp
  next
    fix x lp x'
    assume "gp_fits c s (fst x)" and "claim_pool deps env info c x lp = Ok x'"
    then show "gp_fits c s (fst x')"
      by (cases x) (auto simp: claim_pool_def and_then_Ok map_err_Ok intro: claimed_by_others_books [OF _ _ assms(3)])
  qed
  then show ?thesis by simp
qed

lemma callback_books:
  assumes "gp_callback deps env info msg st = Ok (st', r)" and "gp_fits c s st" and "adds_up deps"
  shows "\<exists>s'. gp_fits c s' st'"
proof (cases msg)
  case (AfterBondClaimed lp prev)
  then have "after_bond_claimed deps env lp prev st = Ok (st', r)" using assms(1) by (simp add: gp_callback_def split: if_splits)
  from after_bond_claimed_books [OF this assms(2,3)] show ?thesis by blast
next
  case (GpDepositCallback lp a x)
  then have "callback_deposit deps env lp a x st = Ok (st', r)" using assms(1) by (simp add: gp_callback_def split: if_splits)
  from callback_deposit_books [OF this assms(2,3)] show ?thesis by blast
next
  case (GpWithdrawCallback lp a x)
  then have "callback_withdraw deps env lp a x st = Ok (st', r)" using assms(1) by (simp add: gp_callback_def split: if_splits)
  from callback_withdraw_books [OF this assms(2,3)] show ?thesis by blast
next
  case (AfterBondChanged lp)
  then have "after_bond_changed deps env lp st = Ok (st', r)" using assms(1) by (simp add: gp_callback_def split: if_splits)
  from after_bond_changed_books [OF this assms(2)] show ?thesis by blast
next
  case (GpClaimCallback lp a)
  then have "callback_claim_rewards deps lp a st = Ok (st', r)" using assms(1) by (simp add: gp_callback_def split: if_splits)
  from callback_claim_books [OF this assms(2,3)] show ?thesis by blast
next
  case (AfterStakingClaimed x)
  then have "after_staking_claimed deps env x st = Ok (st', r)" using assms(1) by (simp add: gp_callback_def split: if_splits)
  from after_staking_claimed_books [OF this assms(2)] show ?thesis .
qed

lemma gp_deposit_books:
  assumes "gp_deposit deps env info a amount st = Ok (st', r)" and "gp_fits c s st" and "adds_up deps"
  shows "gp_fits c s st'"
  using assms gp_fitsD(1) [OF assms(2)] claimed_by_others_books [OF _ assms(2,3)]
  by (auto simp: gp_deposit_def and_then_Ok map_err_Ok load_item_Ok split: option.splits)

lemma gp_withdraw_books:
  assumes "gp_withdraw deps env info lp amount st = Ok (st', r)" and "gp_fits c s st" and "adds_up deps"
  shows "gp_fits c s st'"
  using assms gp_fitsD(1) [OF assms(2)] claimed_by_others_books [OF _ assms(2,3)]
  by (auto simp: gp_withdraw_def and_then_Ok map_err_Ok load_item_Ok)

lemma gp_claim_books:
  assumes "gp_claim_rewards deps env info lps st = Ok (st', r)" and "gp_fits c s st" and "adds_up deps"
  shows "gp_fits c s st'"
  using assms gp_fitsD(1) [OF assms(2)] claim_pools_books [OF _ assms(2,3)]
  by (auto simp: gp_claim_rewards_def and_then_Ok map_err_Ok load_item_Ok)

lemma gp_config_books:
  assumes "gp_update_config deps info ctrl fee st = Ok (st', r)" and "gp_fits c s st"
  shows "\<exists>c'. gp_fits c' s st'"
proof -
  let ?c = "the (gpx_config st')"
  have "gpc_astro_token ?c = gpc_astro_token c \<and> st' = st\<lparr>gpx_config := Some ?c\<rparr>"
    using assms(1) gp_fitsD(1) [OF assms(2)]
    by (cases ctrl; cases fee) (auto simp: gp_update_config_def and_then_Ok map_err_Ok load_item_Ok split: if_splits)
  with books_config [OF assms(2), of ?c] show ?thesis by metis
qed

lemma gp_parameters_books:
  assumes "gp_update_parameters info q rate st = Ok (st', r)" and "gp_fits c s st"
  shows "\<exists>c'. gp_fits c' s st'"
proof -
  let ?c = "the (gpx_config st')"
  have "gpc_astro_token ?c = gpc_astro_token c \<and> st' = st\<lparr>gpx_config := Some ?c\<rparr>"
    using assms(1) gp_fitsD(1) [OF assms(2)]
    by (cases q; cases rate) (auto simp: gp_update_parameters_def Let_def and_then_Ok map_err_Ok load_item_Ok split: if_splits)
  with books_config [OF assms(2), of ?c] show ?thesis by metis
qed

lemma gp_receive_books:
  assumes "gp_receive deps env info m st = Ok (st', r)" and "gp_fits c s st" and "adds_up deps"
  shows "\<exists>s'. gp_fits c s' st'"
proof -
  obtain a hook where "(case hook of GpDeposit \<Rightarrow> gp_deposit deps env info a (cw20_amount m) st
     | GpStake \<Rightarrow> execute_stake deps env info a (cw20_amount m) st) = Ok (st', r)"
    using assms(1) by (auto simp: gp_receive_def and_then_Ok)
  then show ?thesis using execute_stake_books [OF _ assms(2), of deps env info a "cw20_amount m" st' r]
      gp_deposit_books [OF _ assms(2,3), of env info a "cw20_amount m" st' r] by (cases hook) auto
qed

lemma gp_step_books:
  assumes "gp_execute deps env info msg st = Ok (st', r)" and "gp_books st" and "adds_up deps"
  shows "gp_books st'"
proof -
  obtain c s where c: "gpx_config st = Some c" and fits: "gp_fits c s st" by (rule gp_booksE [OF assms(2)])
  show ?thesis
  proof (cases msg)
    case (GpReceive m)
    then show ?thesis using assms(1) gp_receive_books [OF _ fits assms(3), of env info m st' r] by (auto simp: gp_books_def)
  next
    case (GpCallback m)
    then show ?thesis using assms(1) callback_books [OF _ fits assms(3), of env info m st' r] by (auto simp: gp_books_def)
  next
    case (GpUpdateConfig x y)
    then show ?thesis using assms(1) gp_config_books [OF _ fits, of deps info x y st' r] by (auto simp: gp_books_def)
  next
    case (GpUpdateParameters x y)
    then show ?thesis using assms(1) gp_parameters_books [OF _ fits, of info x y st' r] by (auto simp: gp_books_def)
  next
    case (ControllerVote v)
    then show ?thesis using assms(1,2) by (auto simp: execute_controller_vote_def and_then_Ok map_err_Ok split: if_splits)
  next
    case SendIncome
    then show ?thesis using assms(1) send_income_books [OF _ fits, of info st' r] by (auto simp: gp_books_def)
  next
    case (GpClaimRewards x)
    then show ?thesis using assms(1) gp_claim_books [OF _ fits assms(3), of env info x st' r] by (auto simp: gp_books_def)
  next
    case (GpWithdraw x y)
    then show ?thesis using assms(1) gp_withdraw_books [OF _ fits assms(3), of env info x y st' r] by (auto simp: gp_books_def)
  next
    case (GpProposeNewOwner x y)
    then show ?thesis using assms(1) books_proposal [OF fits] by (auto simp: gp_books_def and_then_Ok map_err_Ok)
  next
    case GpDropOwnershipProposal
    then show ?thesis using assms(1) books_proposal [OF fits] by (auto simp: gp_books_def and_then_Ok map_err_Ok)
  next
    case GpClaimOwnership
    then obtain o' p where st': "st' = st\<lparr>gpx_config := Some (c\<lparr>gpc_owner := o'\<rparr>), gpx_proposal := p\<rparr>"
      using assms(1) c by (auto simp: and_then_Ok map_err_Ok load_item_Ok)
    have "gp_fits (c\<lparr>gpc_owner := o'\<rparr>) s (st\<lparr>gpx_config := Some (c\<lparr>gpc_owner := o'\<rparr>)\<rparr>)" by (rule books_config [OF fits]) simp
    from books_proposal [OF this] show ?thesis by (auto simp: gp_books_def st')
  next
    case Relock
    then show ?thesis using assms(1) execute_relock_books [OF _ fits, of deps env info st' r] by (auto simp: gp_books_def)
  next
    case (RequestUnstake x)
    then show ?thesis using assms(1) request_unstake_books [OF _ fits, of deps env info x st' r] by (auto simp: gp_books_def)
  next
    case (WithdrawUnstaked x)
    then show ?thesis using assms(1) withdraw_unstaked_books [OF _ fits, of info x st' r] by (auto simp: gp_books_def)
  next
    case ClaimIncome
    then show ?thesis using assms(1) claim_income_books [OF _ fits, of info st' r] by (auto simp: gp_books_def)
  qed
qed

section \<open>Reachable states\<close>

lemma gp_start_books:
  assumes "gp_instantiate deps env msg empty_gp = Ok (st, r)"
  shows "gp_books st"
proof -
  obtain c s where st: "st = empty_gp\<lparr>gpx_config := Some c, gpx_staking := Some s\<rparr>" and s: "gps_total_bond_share s = 0" "gps_total_unstaking s = 0" "gps_total_unstaked s = 0"
    using assms by (auto simp: gp_instantiate_def and_then_Ok map_err_Ok)
  have "credit [] t = 0" for t by (simp add: credit_def reward_of_def new_reward_def get_def)
  then have "gp_fits c s st"
    using s by (simp add: gp_fits_def st empty_gp_def users_fit_def stakers_fit_def gp_owes_def users_owed_def stakers_owed_def gp_shares_in_def
        staker_sum_def entries_def store_simps)
  then show ?thesis by (auto simp: gp_books_def)
qed

inductive gp_reachable :: "gp_state \<Rightarrow> bool" where
  gp_start: "gp_instantiate deps env msg empty_gp = Ok (st, r) \<Longrightarrow> gp_reachable st"
| gp_step: "gp_reachable st \<Longrightarrow> adds_up deps \<Longrightarrow> gp_execute deps env info msg st = Ok (st', r) \<Longrightarrow> gp_reachable st'"

lemma reachable_gp_books: "gp_reachable st \<Longrightarrow> gp_books st"
  by (induction rule: gp_reachable.induct) (auto intro: gp_start_books gp_step_books)

lemma reachable_fits: "gp_reachable st \<Longrightarrow> gpx_config st = Some c \<Longrightarrow> gpx_staking st = Some s \<Longrightarrow> gp_fits c s st"
  using reachable_gp_books gp_fitsD(1,2) unfolding gp_books_def by (metis option.inject)

end
