(* ===== verification/GenProxyProps.thy ===== *)
theory GenProxyProps
  imports GenProxyBooks
begin

text \<open>
  Properties of the generator proxy: the rewards it accounts for cover what it owes to depositors, stakers and the fee collector, what a query
  reports is paid, unstaked xASTRO can be withdrawn, and a deposit made by others blocks a pool that has no depositors.
\<close>

section \<open>A sample\<close>

fun vec_add :: "(addr \<times> nat) list \<Rightarrow> addr \<Rightarrow> nat \<Rightarrow> ((addr \<times> nat) list, std_error) result" where
  "vec_add [] k x = Ok [(k, x)]"
| "vec_add ((k', v) # r) k x = (if k' = k then Ok ((k, v + x) # r) else and_then (vec_add r k x) (\<lambda>r'. Ok ((k', v) # r')))"

lemma vec_add_adds: "adds vec_add"
proof -
  have "distinct (map fst v') \<and> fst ` set v' = insert k (fst ` set v) \<and> (\<forall>t. collected v' t = collected v t + (if t = k then x else 0))"
    if "vec_add v k x = Ok v'" and "distinct (map fst v)" for v k x v'
    using that
  proof (induction v arbitrary: v')
    case Nil
    then show ?case by (auto simp: collected_def)
  next
    case (Cons e v)
    obtain k' y where e: "e = (k', y)" by force
    show ?case
    proof (cases "k' = k")
      case True
      then have v': "v' = (k, y + x) # v" using Cons.prems(1) by (simp add: e)
      have "distinct (map fst ((k, y + x) # v))" "distinct (map fst ((k, y) # v))" using Cons.prems(2) by (simp_all add: e True)
      then show ?thesis using collected_Cons [of k "y + x" v] collected_Cons [of k y v] by (simp add: v' e True)
    next
      case False
      then obtain w where w: "vec_add v k x = Ok w" and v': "v' = (k', y) # w" using Cons.prems(1) by (auto simp: e and_then_Ok)
      from Cons.IH [OF w] Cons.prems(2) have IH: "distinct (map fst w)" "fst ` set w = insert k (fst ` set v)"
        "\<And>t. collected w t = collected v t + (if t = k then x else 0)" by (simp_all add: e)
      have "k' \<notin> fst ` set w" using Cons.prems(2) False unfolding IH(2) by (auto simp: e)
      then have "distinct (map fst ((k', y) # w))" "distinct (map fst ((k', y) # v))" using Cons.prems(2) IH(1) by (simp_all add: e)
      then show ?thesis using False collected_Cons [of k' y w] collected_Cons [of k' y v] IH(2,3) by (simp add: v' e insert_commute)
    qed
  qed
  then show ?thesis unfolding adds_def by blast
qed

definition demo_gp_deps :: gp_deps where
  "demo_gp_deps = \<lparr>gpd_addr_validate = Ok, gpd_add_amount = vec_add, gpd_add_index = vec_add, gpd_balance = (\<lambda>t a. Ok 1000),
     gpd_generator_user = (\<lambda>g lp a. Ok (Some \<lparr>gu_amount = 100, gu_reward_user_index = 0, gu_reward_debt_proxy = [], gu_virtual_amount = 100\<rparr>)),
     gpd_proxy_asset = (\<lambda>g p. Ok None), gpd_deposit = (\<lambda>g lp a. Ok 0), gpd_pending = (\<lambda>g lp a. Ok \<lparr>pt_pending = 0, pt_pending_on_proxy = None\<rparr>),
     gpd_asset_str = (\<lambda>i. []), gpd_lock = (\<lambda>v a. Ok (Some \<lparr>gl_amount = 50, gl_start = 0, gl_end = 9, gl_last_extend = 0\<rparr>)),
     gpd_last_claim = (\<lambda>d a. Ok (Some 1)), gpd_weekly_rewards = (\<lambda>d p. Ok None), gpd_lock_end = (\<lambda>v a. Ok 9), gpd_user_power = (\<lambda>v a p. Ok 0),
     gpd_total_power = (\<lambda>v p. Ok 0), gpd_period = Ok, gpd_week = 604800, gpd_propose_new_owner = (\<lambda>i e o' x c p. Err NotFound),
     gpd_drop_ownership_proposal = (\<lambda>i c p. Err NotFound), gpd_claim_ownership = (\<lambda>i e p. Err NotFound)\<rparr>"

definition demo_gp_env :: "u64 \<Rightarrow> env" where
  "demo_gp_env t = \<lparr>env_height = t, env_time = t, env_contract = ''proxy''\<rparr>"

definition demo_gov :: astro_gov where
  "demo_gov = \<lparr>ag_fee_distributor = ''dist'', ag_generator_controller = ''gc'', ag_voting_escrow = ''ve'', ag_xastro_token = ''xastro''\<rparr>"

definition demo_gp_msg :: gp_instantiate_msg where
  "demo_gp_msg = \<lparr>gpi_generator = ''gen'', gpi_astro_gov = demo_gov, gpi_owner = ''owner'', gpi_controller = ''ctrl'', gpi_astro_token = ''astro'',
     gpi_fee_collector = ''fees'', gpi_max_quota = 1000, gpi_staker_rate = 500000000000000000, gpi_boost_fee = 100000000000000000\<rparr>"

definition demo_gp_config :: gp_config where
  "demo_gp_config = \<lparr>gpc_generator = ''gen'', gpc_astro_gov = demo_gov, gpc_owner = ''owner'', gpc_controller = ''ctrl'', gpc_astro_token = ''astro'',
     gpc_fee_collector = ''fees'', gpc_max_quota = 1000, gpc_staker_rate = 500000000000000000, gpc_boost_fee = 100000000000000000\<rparr>"

definition demo_staking :: "u128 \<Rightarrow> decimal \<Rightarrow> u128 \<Rightarrow> u128 \<Rightarrow> u64 \<Rightarrow> gp_staking" where
  "demo_staking share index unstaking unstaked p = \<lparr>gps_total_bond_share = share, gps_reward_index = index, gps_next_claim_period = 1,
     gps_total_unstaking = unstaking, gps_total_unstaked = unstaked, gps_unstaking_period = p\<rparr>"

definition demo_gp :: "gp_state" where
  "demo_gp = \<lparr>gpx_config = Some demo_gp_config, gpx_pools = [], gpx_users = [], gpx_rewards = [], gpx_staking = Some (demo_staking 0 0 0 0 1),
     gpx_stakers = [], gpx_proposal = None\<rparr>"

definition demo_pool :: "indexes \<Rightarrow> u64 \<Rightarrow> gp_pool" where
  "demo_pool ix h = \<lparr>gpp_total_bond_share = 100, gpp_reward_indexes = ix, gpp_prev_reward_user_index = 0, gpp_prev_reward_debt_proxy = [], gpp_last_reconcile = h\<rparr>"

definition demo_deposited :: gp_state where
  "demo_deposited = demo_gp\<lparr>gpx_pools := [(''lp'', demo_pool [] 0)],
     gpx_users := [((''lp'', ''ann''), \<lparr>gpu_bond_share = 100, gpu_reward_indexes = [], gpu_pending_rewards = []\<rparr>)]\<rparr>"

definition demo_claimed :: gp_state where
  "demo_claimed = demo_deposited\<lparr>gpx_pools := [(''lp'', demo_pool [(''astro'', 6700000000000000000)] 1)],
     gpx_rewards := [(''astro'', \<lparr>gpr_reconciled = 1000, gpr_fee = 60, gpr_staker_income = 270\<rparr>)]\<rparr>"

lemmas demo_gp_defs = demo_gp_deps_def demo_gp_env_def demo_gov_def demo_gp_msg_def demo_gp_config_def demo_staking_def demo_gp_def demo_pool_def
  demo_deposited_def demo_claimed_def

abbreviation self_info :: message_info where
  "self_info \<equiv> \<lparr>info_sender = ''proxy'', info_funds = []\<rparr>"

lemma demo_adds_up: "adds_up demo_gp_deps"
  by (simp add: adds_up_def demo_gp_deps_def vec_add_adds)

lemma demo_gp_starts: "\<exists>r. gp_instantiate demo_gp_deps (demo_gp_env 1) demo_gp_msg empty_gp = Ok (demo_gp, r)"
  by (simp add: gp_instantiate_def gp_validate_percentage_def check_gov_def empty_gp_def DEC_ONE_code demo_gp_defs)

lemma demo_gp_deposits: "\<exists>r. gp_execute demo_gp_deps (demo_gp_env 1) self_info (GpCallback (GpDepositCallback ''lp'' ''ann'' 100)) demo_gp = Ok (demo_deposited, r)"
  by (simp add: gp_callback_def callback_deposit_def Let_def get_def new_pool_def create_user_def reconcile_to_user_info_def pool_bond_share_def
      share_of_amount_def num_defs U128_MAX_code demo_gp_defs)

lemma demo_gp_claims: "\<exists>r. gp_execute demo_gp_deps (demo_gp_env 1) self_info (GpCallback (AfterBondClaimed ''lp'' [(''astro'', 0)])) demo_deposited = Ok (demo_claimed, r)"
  by (simp add: gp_callback_def after_bond_claimed_def Let_def get_def gp_query_generator_user_def share_astro_def reconcile_astro_reward_def reward_of_def
      new_reward_def gp_sub_def num_defs U128_MAX_code DEC_ONE_code demo_gp_defs)

lemma demo_gp_reachable: "gp_reachable demo_claimed"
proof -
  have "gp_reachable demo_gp" using demo_gp_starts gp_start by blast
  then have "gp_reachable demo_deposited" using demo_gp_deposits gp_step demo_adds_up by blast
  then show ?thesis using demo_gp_claims gp_step demo_adds_up by blast
qed

definition demo_bob :: "u128 \<Rightarrow> decimal \<Rightarrow> u128 \<Rightarrow> u128 \<Rightarrow> (addr, gp_staker) store" where
  "demo_bob share index pending unstaking = [(''bob'', \<lparr>gpk_bond_share = share, gpk_reward_index = index, gpk_pending_reward = pending,
     gpk_unstaking = unstaking, gpk_unstaked = 0, gpk_unstaking_period = 1\<rparr>)]"

definition demo_staked :: gp_state where
  "demo_staked = demo_claimed\<lparr>gpx_staking := Some (demo_staking 50 0 0 0 1), gpx_stakers := demo_bob 50 0 0 0\<rparr>"

definition demo_leaving :: "u128 \<Rightarrow> u128 \<Rightarrow> u64 \<Rightarrow> gp_state" where
  "demo_leaving unstaking unstaked p = demo_claimed\<lparr>gpx_staking := Some (demo_staking 30 5400000000000000000 unstaking unstaked p),
     gpx_stakers := demo_bob 30 5400000000000000000 270 20,
     gpx_rewards := [(''astro'', \<lparr>gpr_reconciled = 1000, gpr_fee = 60, gpr_staker_income = 0\<rparr>)]\<rparr>"

lemma demo_gp_stakes: "\<exists>r. gp_execute demo_gp_deps (demo_gp_env 1) \<lparr>info_sender = ''xastro'', info_funds = []\<rparr>
    (GpReceive \<lparr>cw20_sender = ''bob'', cw20_amount = 50, cw20_payload = Decoded GpStake\<rparr>) demo_claimed = Ok (demo_staked, r)"
  by (simp add: gp_receive_def execute_stake_def Let_def query_lock_def get_def create_staker_def reconcile_staker_income_def reconcile_to_staker_info_def
      staking_bond_share_def share_of_amount_def store_staker_def num_defs U128_MAX_code demo_gp_defs demo_staked_def demo_bob_def)

lemma demo_gp_unstakes: "\<exists>r. gp_execute demo_gp_deps (demo_gp_env 1) \<lparr>info_sender = ''bob'', info_funds = []\<rparr> (RequestUnstake 20) demo_staked =
    Ok (demo_leaving 20 0 1, r)"
  by (simp add: execute_request_unstake_def query_lock_def get_def reconcile_staker_income_def reconcile_to_staker_info_def update_staker_def gp_sub_def
      staking_bond_share_def share_of_amount_def multiply_ratio_and_ceil_def store_staker_def num_defs U128_MAX_code DEC_ONE_code demo_gp_defs
      demo_staked_def demo_leaving_def demo_bob_def)

lemma demo_gp_relocks: "\<exists>r. gp_execute demo_gp_deps (demo_gp_env 2) \<lparr>info_sender = ''ctrl'', info_funds = []\<rparr> Relock (demo_leaving 20 0 1) =
    Ok (demo_leaving 0 20 2, r)"
  by (simp add: execute_relock_def Let_def query_lock_def get_def reconcile_staking_claim_by_others_def query_last_claim_period_def calc_claim_amount_def
      claim_loop.simps reconcile_staker_income_def gp_sub_def num_defs U128_MAX_code DEC_ONE_code demo_gp_defs demo_leaving_def demo_bob_def)

lemma demo_relocked_reachable: "gp_reachable (demo_leaving 0 20 2)"
proof -
  have "gp_reachable demo_staked" using demo_gp_stakes gp_step demo_adds_up demo_gp_reachable by blast
  then have "gp_reachable (demo_leaving 20 0 1)" using demo_gp_unstakes gp_step demo_adds_up by blast
  then show ?thesis using demo_gp_relocks gp_step demo_adds_up by blast
qed

section \<open>The claims\<close>

text \<open>
  C5: In every reachable state and for every token, what the contract accounts for covers what it owes: the pending rewards of all
  depositors and what their shares have earned since, for ASTRO also those of the stakers, and what is set aside as fees and as income of the
  stakers; in the units of the decimals, so that no rounding is lost. (The vectors of the library add to the entry of a key.)
\<close>
theorem rewards_cover_what_is_owed:
  assumes "gp_reachable st" and "gpx_config st = Some c" and "gpx_staking st = Some s"
  shows "gp_owes c s st t + DEC_ONE * (gpr_fee (reward_of (gpx_rewards st) t) + gpr_staker_income (reward_of (gpx_rewards st) t)) \<le>
    DEC_ONE * gpr_reconciled (reward_of (gpx_rewards st) t)"
proof -
  have "int (gp_owes c s st t) \<le> int DEC_ONE * credit (gpx_rewards st) t" by (rule gp_fitsD(5) [OF reachable_fits [OF assms]])
  then have "int (gp_owes c s st t) + int DEC_ONE * (int (gpr_fee (reward_of (gpx_rewards st) t)) + int (gpr_staker_income (reward_of (gpx_rewards st) t))) \<le>
      int DEC_ONE * int (gpr_reconciled (reward_of (gpx_rewards st) t))"
    by (simp add: credit_def Let_def algebra_simps)
  then show ?thesis by (metis of_nat_add of_nat_le_iff of_nat_mult)
qed

theorem rewards_cover_what_is_owed_witness:
  "gp_owes demo_gp_config (demo_staking 0 0 0 0 1) demo_claimed ''astro'' + DEC_ONE * 330 \<le> DEC_ONE * 1000 \<and>
    users_owed (gpx_pools demo_claimed) (gpx_users demo_claimed) ''astro'' = DEC_ONE * 670"
proof -
  have "gpx_config demo_claimed = Some demo_gp_config" "gpx_staking demo_claimed = Some (demo_staking 0 0 0 0 1)" by (simp_all add: demo_gp_defs)
  from rewards_cover_what_is_owed [OF demo_gp_reachable this, of "''astro''"]
  have "gp_owes demo_gp_config (demo_staking 0 0 0 0 1) demo_claimed ''astro'' + DEC_ONE * 330 \<le> DEC_ONE * 1000"
    by (simp add: reward_of_def get_def demo_claimed_def)
  moreover have "users_owed (gpx_pools demo_claimed) (gpx_users demo_claimed) ''astro'' = DEC_ONE * 670"
    by (simp add: users_owed_def user_owed_def pool_index_def collected_def get_def entries_def DEC_ONE_code demo_gp_defs)
  ultimately show ?thesis by blast
qed

text \<open>
  C13: What the query of a user reports is paid: in a reachable state the callback of a claim succeeds and sends exactly the pending rewards
  that the query answers with, for every depositor whatever the others have claimed. (The query answers, so no amount overflows.)
\<close>
theorem claim_pays_what_the_query_reports:
  assumes "gp_reachable st" and "adds_up deps" and "gp_query_user_info deps env lp_token user st = Ok (u, amount)"
    and "gpd_addr_validate deps lp_token = Ok lp" and "gpd_addr_validate deps user = Ok a" and "get (gpx_users st) (lp, a) = Some u0"
    and "info_sender info = env_contract env'"
  shows "\<exists>st' r. gp_execute deps env' info (GpCallback (GpClaimCallback lp a)) st = Ok (st', r) \<and>
    resp_msgs r = map PlainMsg (pending_msgs a (gpu_pending_rewards u))"
proof -
  obtain c s where fits: "gp_fits c s st" by (rule gp_booksE [OF reachable_gp_books [OF assms(1)]])
  obtain pool where pool: "get (gpx_pools st) lp = Some pool" and u: "reconcile_to_user_info deps pool u0 = Ok u"
    using assms(3-6) by (auto simp: gp_query_user_info_def and_then_Ok load_item_Ok)
  from claim_pays [OF fits assms(2) pool assms(6) u] assms(7) show ?thesis by (auto simp: gp_callback_def)
qed

theorem claim_pays_what_the_query_reports_witness:
  "\<exists>u x st' r. gp_query_user_info demo_gp_deps (demo_gp_env 1) ''lp'' ''ann'' demo_claimed = Ok (u, x) \<and> gpu_pending_rewards u = [(''astro'', 670)] \<and>
    gp_execute demo_gp_deps (demo_gp_env 2) self_info (GpCallback (GpClaimCallback ''lp'' ''ann'')) demo_claimed = Ok (st', r) \<and>
    resp_msgs r = [PlainMsg (transfer_msg GpToken (TokenAsset ''astro'') 670 ''ann'')]"
proof -
  obtain u x where q: "gp_query_user_info demo_gp_deps (demo_gp_env 1) ''lp'' ''ann'' demo_claimed = Ok (u, x)" and u: "gpu_pending_rewards u = [(''astro'', 670)]"
    by (simp add: gp_query_user_info_def get_def reconcile_to_user_info_def add_pending_def collected_def pool_bond_amount_def amount_of_share_def
        num_defs U128_MAX_code DEC_ONE_code demo_gp_defs)
  have "get (gpx_users demo_claimed) (''lp'', ''ann'') = Some \<lparr>gpu_bond_share = 100, gpu_reward_indexes = [], gpu_pending_rewards = []\<rparr>"
    by (simp add: get_def demo_gp_defs)
  from claim_pays_what_the_query_reports [OF demo_gp_reachable demo_adds_up q _ _ this, of self_info "demo_gp_env 2"]
  obtain st' r where "gp_execute demo_gp_deps (demo_gp_env 2) self_info (GpCallback (GpClaimCallback ''lp'' ''ann'')) demo_claimed = Ok (st', r)"
      "resp_msgs r = map PlainMsg (pending_msgs ''ann'' (gpu_pending_rewards u))" by (auto simp: demo_gp_deps_def demo_gp_env_def)
  with q u show ?thesis by (auto simp: pending_msgs_def)
qed

text \<open>
  C16: Unstaked xASTRO can be withdrawn: in a reachable state, a staker who asks for everything gets exactly what the relocks have freed for
  him (what he had requested before the last relock that he has not yet noticed, and what was freed earlier), whatever the other
  stakers withdraw.
\<close>
theorem freed_stake_is_withdrawn:
  assumes "gp_reachable st" and "gpx_config st = Some c" and "gpx_staking st = Some s" and "get (gpx_stakers st) (info_sender info) = Some k"
  shows "\<exists>st' r. gp_execute deps env info (WithdrawUnstaked None) st = Ok (st', r) \<and>
    resp_msgs r = [PlainMsg (transfer_msg GpToken (TokenAsset (ag_xastro_token (gpc_astro_gov c))) (freed (gps_unstaking_period s) k) (info_sender info))]"
proof -
  have fit: "stakers_fit s (gpx_stakers st)" by (rule gp_fitsD(4) [OF reachable_fits [OF assms(1-3)]])
  then have "wf_store (gpx_stakers st)" by (simp add: stakers_fit_def)
  from staker_sum_ge [OF this, of "freed (gps_unstaking_period s)" "info_sender info"] fit assms(4)
  have le: "freed (gps_unstaking_period s) k \<le> gps_total_unstaked s" "freed (gps_unstaking_period s) k \<le> U128_MAX"
    by (auto simp: staker_at_def stakers_fit_def)
  obtain k' where k': "update_staker s k = (Ok k' :: (gp_staker, gp_error) result)" and f: "gpk_unstaked k' = freed (gps_unstaking_period s) k"
  proof (cases "gpk_unstaking_period k < gps_unstaking_period s")
    case True
    with le(2) have "update_staker s k = (Ok (k\<lparr>gpk_unstaking := 0, gpk_unstaking_period := gps_unstaking_period s,
        gpk_unstaked := freed (gps_unstaking_period s) k\<rparr>) :: (gp_staker, gp_error) result)"
      by (simp add: update_staker_def freed_def u128_add_def bounded_def)
    then show ?thesis by (rule that) simp
  next
    case False
    then show ?thesis by (intro that [of k]) (simp_all add: update_staker_def freed_def)
  qed
  show ?thesis using assms(2-4) k' le(1) by (simp add: execute_withdraw_unstaked_def gp_sub_def f Let_def)
qed

theorem freed_stake_is_withdrawn_witness:
  "\<exists>st' r. gp_execute demo_gp_deps (demo_gp_env 2) \<lparr>info_sender = ''bob'', info_funds = []\<rparr> (WithdrawUnstaked None) (demo_leaving 0 20 2) = Ok (st', r) \<and>
    resp_msgs r = [PlainMsg (transfer_msg GpToken (TokenAsset ''xastro'') 20 ''bob'')]"
proof -
  obtain k where k: "get (gpx_stakers (demo_leaving 0 20 2)) (info_sender \<lparr>info_sender = ''bob'', info_funds = []\<rparr>) = Some k" and f: "freed 2 k = 20"
    by (simp add: demo_leaving_def demo_bob_def get_def freed_def)
  have "gpx_config (demo_leaving 0 20 2) = Some demo_gp_config" "gpx_staking (demo_leaving 0 20 2) = Some (demo_staking 30 5400000000000000000 0 20 2)"
    by (simp_all add: demo_leaving_def demo_gp_defs)
  from freed_stake_is_withdrawn [OF demo_relocked_reachable this k, of demo_gp_deps "demo_gp_env 2"] f
  show ?thesis by (simp add: demo_staking_def demo_gp_config_def demo_gov_def)
qed

text \<open>
  C26: Anyone can block a pool that has no depositors: as soon as the generator holds LP tokens in the name of the contract while the contract
  does not know the pool, every deposit is answered with the callback after a claim, which fails, at whatever later time, so the
  deposit is reverted and the pool is never created.
\<close>
theorem foreign_deposit_blocks_the_pool:
  assumes "gpx_config st = Some c" and "get (gpx_pools st) (info_sender info) = None"
    and "gp_query_generator_user deps (gpc_generator c) (info_sender info) (env_contract env) = Ok (Some u)"
    and "gp_deposit deps env info a amount st = Ok (st', r)"
  shows "st' = st \<and> (\<exists>prev. PlainMsg (gp_callback_to env (AfterBondClaimed (info_sender info) prev)) \<in> set (resp_msgs r) \<and>
    (\<forall>deps' env' info'. gp_execute deps' env' info' (GpCallback (AfterBondClaimed (info_sender info) prev)) st' =
      Err (if info_sender info' = env_contract env' then GpStd NotFound else GpCallbackUnauthorized)))"
proof -
  obtain balances where st': "st' = st" and r: "resp_msgs r = map PlainMsg (claim_msgs env c (info_sender info) True balances @
      [gp_callback_to env (GpDepositCallback (info_sender info) a amount)])"
    using assms by (auto simp: gp_deposit_def reconcile_claimed_by_others_def and_then_Ok map_err_Ok load_item_Ok)
  have "gp_execute deps' env' info' (GpCallback (AfterBondClaimed (info_sender info) balances)) st =
      Err (if info_sender info' = env_contract env' then GpStd NotFound else GpCallbackUnauthorized)" for deps' env' info'
    using assms(1,2) by (simp add: gp_callback_def after_bond_claimed_def)
  with st' r show ?thesis by (auto simp: claim_msgs_def)
qed

theorem foreign_deposit_blocks_the_pool_witness:
  "\<exists>r prev. gp_execute demo_gp_deps (demo_gp_env 1) \<lparr>info_sender = ''lp'', info_funds = []\<rparr>
      (GpReceive \<lparr>cw20_sender = ''ann'', cw20_amount = 50, cw20_payload = Decoded GpDeposit\<rparr>) demo_gp = Ok (demo_gp, r) \<and>
    PlainMsg (gp_callback_to (demo_gp_env 1) (AfterBondClaimed ''lp'' prev)) \<in> set (resp_msgs r) \<and>
    gp_execute demo_gp_deps (demo_gp_env 1) self_info (GpCallback (AfterBondClaimed ''lp'' prev)) demo_gp = Err (GpStd NotFound)"
proof -
  let ?info = "\<lparr>info_sender = ''lp'', info_funds = []\<rparr>"
  obtain st' r where d: "gp_deposit demo_gp_deps (demo_gp_env 1) ?info ''ann'' 50 demo_gp = Ok (st', r)"
    by (simp add: gp_deposit_def gp_query_generator_user_def reconcile_claimed_by_others_def fetch_balance_def get_def demo_gp_defs)
  have "get (gpx_pools demo_gp) (info_sender ?info) = None" "gpx_config demo_gp = Some demo_gp_config" by (simp_all add: demo_gp_defs get_def)
  moreover obtain u where "gp_query_generator_user demo_gp_deps (gpc_generator demo_gp_config) (info_sender ?info) (env_contract (demo_gp_env 1)) = Ok (Some u)"
    by (simp add: gp_query_generator_user_def demo_gp_deps_def)
  ultimately obtain prev where "st' = demo_gp" "PlainMsg (gp_callback_to (demo_gp_env 1) (AfterBondClaimed ''lp'' prev)) \<in> set (resp_msgs r)"
    "gp_execute demo_gp_deps (demo_gp_env 1) self_info (GpCallback (AfterBondClaimed ''lp'' prev)) st' = Err (GpStd NotFound)"
    using foreign_deposit_blocks_the_pool [OF _ _ _ d, of demo_gp_config u] by (auto simp: demo_gp_env_def simp del: gp_execute.simps)
  moreover have "gp_execute demo_gp_deps (demo_gp_env 1) ?info (GpReceive \<lparr>cw20_sender = ''ann'', cw20_amount = 50, cw20_payload = Decoded GpDeposit\<rparr>) demo_gp =
      Ok (st', r)" using d by (simp add: gp_receive_def demo_gp_deps_def)
  ultimately show ?thesis by blast
qed

text \<open>Nobody can stake before a first reward in ASTRO was accounted for: the record of that reward is loaded, not created.\<close>

lemma staking_needs_a_reward:
  assumes "gpx_config st = Some c" and "get (gpx_rewards st) (gpc_astro_token c) = None"
  shows "execute_stake deps env info a amount st \<noteq> Ok x"
  using assms by (auto simp: execute_stake_def and_then_Ok map_err_Ok load_item_Ok Let_def split: if_splits)

end
