(* ===== verification/Spec2Isabelle.thy ===== *)
theory Spec2Isabelle
  imports HubProps HubControl HubQueries EscrowProps EscrowRules GaugeProps EmpProps PropProps PropStuck ProxyProps PairProxy FeesProps VaultClaims ExtractorProps AmpzProps GenProxyProps
begin

text \<open>
  A verification library for the Eris contracts on Terra (CosmWasm contracts in Rust).

  \<^bold>\<open>The program.\<close> The contracts under \<open>src/contracts\<close> share the package \<open>packages/eris\<close>. The \<open>hub\<close> is
  the liquid-staking contract: it bonds a native coin with validators, mints a stake token, queues and submits unbonding requests in
  batches, reconciles what the chain returns, and pays it out. The governance contracts under \<open>contracts/amp-governance\<close> decide
  where the hub delegates: the \<open>voting_escrow\<close> locks ampLP tokens and gives voting power (vAMP) that decays by weeks;
  the gauges turn votes into shares of validators, which the hub reads when it tunes its delegation goal.

  \<^bold>\<open>Theories.\<close>
  \<^item> \<open>Prelude\<close>, \<open>Store\<close>, \<open>Cosmos\<close>: outcomes of fallible code (\<open>Ok\<close>, \<open>Err\<close>, \<open>Panic\<close>), the ordered
    store behind \<open>cw_storage_plus\<close> maps (locale \<open>ordered_store\<close>, interpreted on sorted association lists), checked arithmetic,
    decimals, coins, messages, responses and events of \<open>cosmwasm_std\<close>.
  \<^item> \<open>ErisLib\<close>: the helpers of \<open>packages/eris/src\<close> (\<open>governance_helper.rs\<close>, \<open>helper.rs\<close>, \<open>helpers/\<close>,
    \<open>lib.rs\<close>); the locale \<open>decaying_power\<close> states how voting power decays, and is interpreted on the gauges' view (here)
    and on the points of the escrow (\<open>EscrowBooks\<close>). \<open>ShareVault\<close> holds the abstract vaults: the locale \<open>rounding_vault\<close>, in which
    issuing and redeeming round against the caller, interpreted on the farm (\<open>FarmBooks\<close>) and the arbitrage vault (\<open>VaultProps\<close>), and its extension \<open>share_vault\<close>,
    which determines the issued amount and which the amounts of the hub and of the extractor (\<open>ExtractorProps\<close>) refine.
  \<^item> \<open>HubState\<close>, \<open>HubMath\<close>, \<open>HubExec\<close>, \<open>HubUnbond\<close>, \<open>HubAdmin\<close>, \<open>HubQueries\<close>: the
    hub (\<open>state.rs\<close> and \<open>types/\<close>, \<open>math.rs\<close>, \<open>helpers.rs\<close> and \<open>execute.rs\<close>, \<open>gov.rs\<close>, \<open>contract.rs\<close>,
    \<open>queries.rs\<close>). \<open>HubMathFacts\<close>, \<open>HubMathLoops\<close>, \<open>HubBatches\<close> prove the mathematics, \<open>HubBooks\<close>
    and \<open>HubInvariant\<close> the invariant of the reachable states, \<open>HubFunds\<close>, \<open>HubControl\<close>, \<open>HubProps\<close> the
    properties of the handlers; \<open>HubSample\<close> is the concrete run of the witnesses.
  \<^item> \<open>EscrowState\<close>, \<open>EscrowUtils\<close>, \<open>Escrow\<close>, \<open>EscrowContract\<close>: the voting escrow
    (\<open>state.rs\<close> and the package's messages; \<open>utils.rs\<close> with the checkpoints of \<open>contract.rs\<close>;
    \<open>marketing_validation.rs\<close> and the handlers; instantiation, dispatch, migration and queries of \<open>contract.rs\<close>).
    \<open>EscrowTotals\<close> shows what a checkpoint reads and writes and that the query of the total replays it,
    \<open>EscrowUser\<close>, \<open>EscrowSteps\<close>, \<open>EscrowReach\<close> the invariant of the states reachable by
    messages of other accounts at non-decreasing times (\<open>escrow_reachable\<close>), \<open>EscrowBooks\<close> the balance of deposits and
    payments and what the withdrawal of an expired lock does, \<open>EscrowPast\<close> that the past is never rewritten. The properties are in
    \<open>EscrowProps\<close> and \<open>EscrowRules\<close>, which also evaluates runs in which the total departs from
    the sum of the users' powers; \<open>EscrowSample\<close> is the concrete run.

  \<^item> \<open>GaugeBooks\<close> and \<open>AmpGauge\<close>: the amp gauges, with the actions whose storage survives an error that the code catches
    (\<open>utils.rs\<close> and \<open>state.rs\<close>; \<open>contract.rs\<close> and the package's messages). \<open>GaugeShares\<close>, \<open>GaugeReach\<close>
    show that the fixed amounts of the validators are the shares of the users, \<open>GaugeVotes\<close> that stored votes are sound and who
    may write them; \<open>GaugeRecords\<close> and \<open>GaugeReplay\<close> (locale \<open>books_keep\<close>) that the query replays what an update stores,
    \<open>GaugeTune\<close> (locale \<open>tuning\<close>, interpreted on both gauges) that tuning picks the best. \<open>EscrowPushes\<close> shows what the
    escrow pushes, \<open>VoteSystem\<close> runs escrow and gauge together (before the gauge is registered with the escrow, only messages
    that change no lock of a user who has voted). \<open>GaugeSample\<close> is the concrete run; the properties are in
    \<open>GaugeProps\<close>.
  \<^item> \<open>EmpGauge\<close>: the emp gauges (\<open>utils.rs\<close>, \<open>contract.rs\<close> and the package's messages) on the same books; \<open>EmpFacts\<close>
    what a grant does to the books, \<open>EmpProps\<close> the properties.
  \<^item> \<open>PropGauge\<close>: the proposal gauges (\<open>vote.rs\<close>, \<open>contract.rs\<close>, \<open>queries.rs\<close> and the package's messages). In
    \<open>PropFacts\<close> every change of a vote is a \<open>recast\<close>; \<open>PropReach\<close> has the reachable states with the log of the votes sent
    to the hub, and their invariants; \<open>PropProps\<close> (with the arithmetic of weighted votes) and \<open>PropStuck\<close> the
    properties, the latter the two ways in which voters get stuck; \<open>PropSample\<close> the concrete run over the escrow's sample.
  \<^item> \<open>Assets\<close>: assets, token messages and the asset helpers (\<open>adapters/asset.rs\<close>, \<open>helper.rs\<close>). \<open>Farm\<close>: the
    auto-compounding farm (\<open>state.rs\<close>, \<open>bond.rs\<close>, \<open>compound.rs\<close>, \<open>ownership.rs\<close>, \<open>contract.rs\<close>, \<open>queries.rs\<close>
    of \<open>astroport_farm\<close>, and the adapters it calls). \<open>FarmBooks\<close> interprets the vault on it, \<open>FarmProps\<close> runs it together
    with its token and its stake and has the properties of the shares, \<open>FarmRewards\<close> those of compounding, where the
    farm's message meets the compound proxy.
  \<^item> \<open>Swaps\<close>: 256-bit arithmetic, the integer square root and the adapters to pairs, routers and the factory. \<open>Proxy\<close>,
    \<open>ProxyExec\<close>, \<open>ProxyContract\<close>: the compound proxy (\<open>state.rs\<close>; \<open>execute.rs\<close>; \<open>contract.rs\<close>,
    \<open>queries.rs\<close>, \<open>simulation.rs\<close>). \<open>ProxyReach\<close> proves the swap arithmetic and the invariant of the
    reachable states, \<open>ProxyProps\<close> the properties.
  \<^item> \<open>PairProxy\<close>: the pair proxy (\<open>contract.rs\<close>) and where its swaps go. \<open>FeesCollector\<close> and
    \<open>FeesProps\<close>: the fees collector (\<open>contract.rs\<close>, \<open>utils.rs\<close>), what it distributes (\<open>fill_plan\<close> is the
    specification of the fill-ups), that the messages it sends to itself end, and when they cannot complete (\<open>completes\<close> runs them all, with
    answers of the other contracts that depend on the message).
  \<^item> \<open>VaultState\<close> and \<open>Vault\<close>: the arbitrage vault (\<open>state.rs\<close>, \<open>lsds/\<close>, \<open>extensions/\<close>, \<open>helpers.rs\<close>,
    \<open>asserts.rs\<close>; \<open>domain/\<close>, \<open>contract.rs\<close>, \<open>query.rs\<close>). \<open>VaultProps\<close> has its runs, the books of what is locked and the
    interpretation of the vault's interface, \<open>VaultClaims\<close> the properties and a concrete run.
  \<^item> \<open>Extractor\<close>: the amp extractor (\<open>execute.rs\<close>, \<open>contract.rs\<close>, \<open>queries.rs\<close>, \<open>math.rs\<close>). \<open>ExtractorProps\<close> runs
    it together with the tokens it holds and the supply of its LP token; the LP token's own refusal to mint zero (\<open>cw20-base\<close>) is not
    part of the runs.
  \<^item> \<open>Ampz\<close>: executions in the name of users (\<open>domain/\<close>, \<open>contract.rs\<close>, \<open>queries.rs\<close>, \<open>state.rs\<close>, and the package's
    messages). \<open>AmpzProps\<close> has the invariant of the reachable states and the properties of schedules and fees.
  \<^item> \<open>GenProxy\<close>: the generator proxy (\<open>bond.rs\<close>, \<open>staking.rs\<close>, \<open>oper.rs\<close>, \<open>model.rs\<close>,
    \<open>astro_gov.rs\<close>, \<open>astro_generator.rs\<close>, \<open>contract.rs\<close>, \<open>query.rs\<close>). The loop over claim periods,
    \<open>claim_loop\<close>, ends because each round comes closer to the current period. \<open>GenProxyBooks\<close> shows that every message keeps
    the books: rewards cover what is owed, shares and unstaked amounts add up. The hypothesis \<open>adds_up\<close> says of the third-party
    \<open>RestrictedVector\<close> that its update adds to the entry of a key and to no other. \<open>GenProxyProps\<close> has the properties.

  \<^bold>\<open>How state and operations correspond.\<close> A contract's storage is a record with one field per storage item (an option for an
  \<open>Item\<close>, a store for a \<open>Map\<close>); a handler is a function from dependencies, block, state and message to
  \<open>Ok (state', response)\<close>, an error value of the contract's own error type, or \<open>Panic\<close>. The state is only returned under
  \<open>Ok\<close>, as the chain reverts the storage otherwise. Integers are natural numbers with the bounds of their Rust types checked in
  every operation; overflow panics, as the workspace is built with overflow checks. Queries to other contracts and to the chain,
  address validation and third-party packages (\<open>astroport\<close>, \<open>cw20-base\<close>) are functions in a record of dependencies, without
  assumptions about them unless a property states one.

  \<^bold>\<open>Termination and bounds.\<close> Every definition is a total HOL function; the loops of the program are recursions over lists
  or \<open>function\<close>s with a termination proof, so no fuel is used. The bound of 9.09 on the boost of a lock is the coefficient of
  105 weeks; the bound \<open>11 * amount \<le> U128_MAX\<close> keeps power plus amount within 128 bits.

  \<^bold>\<open>Not modelled.\<close> The stake token is a wrapper of \<open>cw20-base\<close>; generated protobuf code, binary encodings and
  test harnesses carry no logic of the program. Hash maps are stores sorted by key, so the order of messages built from one (the bridge assets of
  the fees collector, the moves of the hub's mathematics) is one of those the program may take. The casts of list limits to \<open>usize\<close> keep
  their value here; on a 32-bit target they cut off limits from \<open>2 ^ 32\<close> on.
\<close>

end
